(* ===== verification/Prelude.thy ===== *)
theory Prelude
  imports Main "HOL-Library.AList"
begin

text \<open>
  The shared vocabulary of the development: errors, machine-integer helpers, clock readings,
  the hash tables of the program, the string functions of the Rust standard library that the
  sources call, and the generic lemmas and interfaces the component theories rest on.

  Conventions used everywhere:
  \<^item> an \<^emph>\<open>instant\<close> is a clock reading in nanoseconds. Every operation that reads the
    clock takes the reading as an argument, one reading per operation. \<open>now - t\<close> on
    \<open>nat\<close> is \<^verbatim>\<open>Instant::duration_since\<close>, which saturates at zero;
  \<^item> a \<^verbatim>\<open>HashMap\<close> or \<^verbatim>\<open>DashMap\<close> is an association list with distinct keys
    (\<open>hm_ok\<close>). The list order stands for the iteration order, which Rust leaves
    unspecified: theorems are about every such list;
  \<^item> a lock is always acquired (a poisoned lock needs an earlier panic) and log lines have no
    effect;
  \<^item> a \<^verbatim>\<open>String\<close> is its list of bytes. The Unicode cases of \<^verbatim>\<open>trim\<close> and
    \<^verbatim>\<open>to_lowercase\<close> are those of ASCII.
\<close>

section \<open>Collections of facts\<close>

named_theorems hm_simps \<open>lookups, sizes and well-formedness of hash tables\<close>
named_theorems unfold_defs \<open>definitions of small accessors that component proofs unfold\<close>

section \<open>Errors\<close>

text \<open>The variants of \<^verbatim>\<open>crate::Error\<close> that the modelled code constructs.\<close>

datatype sbc_error =
    TransportErr string
  | ConfigErr string
  | RoutingErr string
  | MediaErr string
  | ParseErr string
  | DialogErr string
  | OtherErr string

type_synonym 'a result = "sbc_error + 'a"

fun is_ok :: "'e + 'a \<Rightarrow> bool" where
  "is_ok (Inr _) = True"
| "is_ok (Inl _) = False"

section \<open>Machine integers\<close>

text \<open>
  Unsigned integers are natural numbers with the saturation or the bound of their width
  written out where the code has it.
\<close>

definition u16_max :: nat where "u16_max = 65535"
definition u32_max :: nat where "u32_max = 4294967295"
definition u64_max :: nat where "u64_max = 18446744073709551615"

definition sat_add16 :: "nat \<Rightarrow> nat \<Rightarrow> nat" where
  "sat_add16 a b = min (a + b) u16_max"

definition sat_pow32 :: "nat \<Rightarrow> nat \<Rightarrow> nat" where
  "sat_pow32 b e = min (b ^ e) u32_max"

definition sat_mul64 :: "nat \<Rightarrow> nat \<Rightarrow> nat" where
  "sat_mul64 a b = min (a * b) u64_max"

text \<open>\<^verbatim>\<open>+= 1\<close> in the release build, which wraps.\<close>

definition incr32 :: "nat \<Rightarrow> nat" where "incr32 n = (n + 1) mod 2 ^ 32"
definition incr64 :: "nat \<Rightarrow> nat" where "incr64 n = (n + 1) mod 2 ^ 64"

lemma sat_add16_le: "sat_add16 a b \<le> u16_max"
  by (simp add: sat_add16_def)

lemma sat_mul64_mono: "a \<le> a' \<Longrightarrow> b \<le> b' \<Longrightarrow> sat_mul64 a b \<le> sat_mul64 a' b'"
  by (auto simp: sat_mul64_def min_def intro: mult_le_mono order_trans [OF mult_le_mono])

lemma sat_pow32_mono: "1 \<le> b \<Longrightarrow> e \<le> e' \<Longrightarrow> sat_pow32 b e \<le> sat_pow32 b e'"
  unfolding sat_pow32_def by (meson min.mono order_refl power_increasing)

section \<open>Time\<close>

type_synonym instant = nat
type_synonym duration = nat

definition secs :: "nat \<Rightarrow> duration" where "secs n = n * 1000000000"
definition millis :: "nat \<Rightarrow> duration" where "millis n = n * 1000000"
definition as_secs :: "duration \<Rightarrow> nat" where "as_secs d = d div 1000000000"

lemma secs_mono [simp]: "secs a \<le> secs b \<longleftrightarrow> a \<le> b"
  by (simp add: secs_def)

lemma secs_less [simp]: "secs a < secs b \<longleftrightarrow> a < b"
  by (simp add: secs_def)

lemma secs_pos [simp]: "0 < secs n \<longleftrightarrow> 0 < n"
  by (simp add: secs_def)

lemma as_secs_secs [simp]: "as_secs (secs n) = n"
  by (simp add: as_secs_def secs_def)

section \<open>Hash tables\<close>

type_synonym ('k, 'v) hmap = "('k \<times> 'v) list"

abbreviation hm_get :: "('k, 'v) hmap \<Rightarrow> 'k \<Rightarrow> 'v option" where
  "hm_get \<equiv> map_of"

definition hm_insert :: "'k \<Rightarrow> 'v \<Rightarrow> ('k, 'v) hmap \<Rightarrow> ('k, 'v) hmap" where
  "hm_insert = AList.update"

definition hm_remove :: "'k \<Rightarrow> ('k, 'v) hmap \<Rightarrow> ('k, 'v) hmap" where
  "hm_remove = AList.delete"

definition hm_contains :: "('k, 'v) hmap \<Rightarrow> 'k \<Rightarrow> bool" where
  "hm_contains m k \<longleftrightarrow> map_of m k \<noteq> None"

definition hm_retain :: "('k \<Rightarrow> 'v \<Rightarrow> bool) \<Rightarrow> ('k, 'v) hmap \<Rightarrow> ('k, 'v) hmap" where
  "hm_retain P m = filter (\<lambda>(k, v). P k v) m"

definition hm_modify :: "'k \<Rightarrow> ('v \<Rightarrow> 'v) \<Rightarrow> ('k, 'v) hmap \<Rightarrow> ('k, 'v) hmap" where
  "hm_modify k f m = (case map_of m k of None \<Rightarrow> m | Some v \<Rightarrow> AList.update k (f v) m)"

definition hm_ok :: "('k, 'v) hmap \<Rightarrow> bool" where
  "hm_ok m \<longleftrightarrow> distinct (map fst m)"

lemma hm_ok_Nil [simp, hm_simps]: "hm_ok []"
  by (simp add: hm_ok_def)

lemma hm_get_insert [hm_simps]:
  "hm_get (hm_insert k v m) k' = (if k' = k then Some v else hm_get m k')"
  by (simp add: hm_insert_def update_conv')

lemma hm_get_remove [hm_simps]:
  "hm_get (hm_remove k m) k' = (if k' = k then None else hm_get m k')"
  by (simp add: hm_remove_def delete_conv')

lemma hm_get_modify [hm_simps]:
  "hm_get (hm_modify k f m) k' =
     (if k' = k then map_option f (hm_get m k) else hm_get m k')"
  by (auto simp: hm_modify_def update_conv' split: option.splits)

lemma hm_get_retain [hm_simps]:
  "hm_ok m \<Longrightarrow> hm_get (hm_retain P m) k =
     (case hm_get m k of None \<Rightarrow> None | Some v \<Rightarrow> if P k v then Some v else None)"
proof (induction m)
  case Nil
  then show ?case by (simp add: hm_retain_def)
next
  case (Cons x m)
  obtain a b where [simp]: "x = (a, b)" by (cases x)
  from Cons.prems have ok: "hm_ok m" and a: "a \<notin> fst ` set m"
    by (auto simp: hm_ok_def)
  from a have "hm_get m a = None" by (simp add: map_of_eq_None_iff)
  with Cons.IH [OF ok] show ?case
    by (auto simp: hm_retain_def split: option.splits)
qed

lemma hm_ok_insert [simp, hm_simps]: "hm_ok m \<Longrightarrow> hm_ok (hm_insert k v m)"
  by (simp add: hm_ok_def hm_insert_def distinct_update)

lemma hm_ok_remove [simp, hm_simps]: "hm_ok m \<Longrightarrow> hm_ok (hm_remove k m)"
  by (simp add: hm_ok_def hm_remove_def distinct_delete)

lemma hm_ok_modify [simp, hm_simps]: "hm_ok m \<Longrightarrow> hm_ok (hm_modify k f m)"
  by (simp add: hm_ok_def hm_modify_def distinct_update split: option.splits)

lemma hm_ok_retain [simp, hm_simps]: "hm_ok m \<Longrightarrow> hm_ok (hm_retain P m)"
  by (auto simp: hm_ok_def hm_retain_def distinct_map_filter)

lemma hm_contains_iff [hm_simps]: "hm_contains m k \<longleftrightarrow> k \<in> fst ` set m"
  by (simp add: hm_contains_def map_of_eq_None_iff)

lemma hm_get_in_set: "hm_ok m \<Longrightarrow> (k, v) \<in> set m \<longleftrightarrow> hm_get m k = Some v"
  by (auto simp: hm_ok_def)

lemma length_hm_insert [hm_simps]:
  "length (hm_insert k v m) = (if hm_contains m k then length m else Suc (length m))"
  by (induction m) (auto simp: hm_insert_def hm_contains_def)

lemma length_hm_remove [hm_simps]:
  "hm_ok m \<Longrightarrow> length (hm_remove k m) = (if hm_contains m k then length m - 1 else length m)"
proof (induction m)
  case Nil
  then show ?case by (simp add: hm_remove_def hm_contains_def)
next
  case (Cons x m)
  obtain a b where x: "x = (a, b)" by (cases x)
  from Cons.prems have ok: "hm_ok m" and a: "a \<notin> fst ` set m"
    by (auto simp: hm_ok_def x)
  show ?case
  proof (cases "a = k")
    case True
    with a have "AList.delete k m = m" by (simp add: delete_id)
    with True show ?thesis by (simp add: x hm_remove_def hm_contains_def)
  next
    case False
    with Cons.IH [OF ok] show ?thesis
      by (cases m) (auto simp: x hm_remove_def hm_contains_def split: if_splits)
  qed
qed

lemma length_hm_modify [simp, hm_simps]: "length (hm_modify k f m) = length m"
  by (auto simp: hm_modify_def length_hm_insert [unfolded hm_insert_def] hm_contains_def
      split: option.splits)

lemma length_hm_retain [hm_simps]: "length (hm_retain P m) \<le> length m"
  by (simp add: hm_retain_def)

end
