(* ===== verification/Port_Allocator.thy ===== *)
theory Port_Allocator
  imports Prelude
begin

text \<open>
  \<^verbatim>\<open>crates/sbc-core/src/media/port_allocator.rs\<close>: the pool of RTP/RTCP port pairs.
  The state is one record; \<^verbatim>\<open>HashSet<u16>\<close> is a set, the \<^verbatim>\<open>VecDeque\<close> of released
  pairs a list, oldest first. The allocation loop is \<open>alloc_scan\<close>, whose termination proof
  is the reason the real loop ends. The last part gives the abstract pool the allocator
  implements: the set of pairs handed out and not yet released.
\<close>

section \<open>Data\<close>

record port_pair =
  rtp :: nat
  rtcp :: nat

record port_allocator =
  range_start :: nat
  range_end :: nat
  allocated :: "nat set"
  quarantine :: "(port_pair \<times> instant) list"
  hold :: duration
  cursor :: nat
  forced :: nat

definition DEFAULT_PORT_HOLD :: duration where
  "DEFAULT_PORT_HOLD = secs 30"

section \<open>Operations\<close>

definition with_range_and_hold :: "nat \<Rightarrow> nat \<Rightarrow> duration \<Rightarrow> port_allocator" where
  "with_range_and_hold lo hi h =
     \<lparr>range_start = lo, range_end = hi, allocated = {}, quarantine = [], hold = h,
      cursor = lo, forced = 0\<rparr>"

definition with_range :: "nat \<Rightarrow> nat \<Rightarrow> port_allocator" where
  "with_range lo hi = with_range_and_hold lo hi 0"

definition new_port_allocator :: port_allocator where
  "new_port_allocator = with_range 10000 20000"

definition even_at_or_after :: "nat \<Rightarrow> nat" where
  "even_at_or_after port = (if even port then port else sat_add16 port 1)"

text \<open>The \<^verbatim>\<open>while let Some(..) = q.front()\<close> loop of \<^verbatim>\<open>sweep_quarantine\<close>.\<close>

fun sweep_loop ::
  "instant \<Rightarrow> duration \<Rightarrow> (port_pair \<times> instant) list \<Rightarrow> nat set \<Rightarrow> (port_pair \<times> instant) list \<times> nat set"
where
  "sweep_loop now h [] al = ([], al)"
| "sweep_loop now h ((pair, freed_at) # q) al =
     (if now - freed_at < h then ((pair, freed_at) # q, al)
      else sweep_loop now h q (al - {rtp pair} - {rtcp pair}))"

definition sweep_quarantine :: "instant \<Rightarrow> port_allocator \<Rightarrow> port_allocator" where
  "sweep_quarantine now s =
     (let (q, al) = sweep_loop now (hold s) (quarantine s) (allocated s)
      in s\<lparr>quarantine := q, allocated := al\<rparr>)"

text \<open>
  The \<^verbatim>\<open>loop\<close> of \<^verbatim>\<open>allocate\<close>: \<open>first\<close> is the lowest even port of the range,
  \<open>start\<close> where this sweep began, \<open>wrapped\<close> whether it has passed the end once.
\<close>

function alloc_scan :: "nat \<Rightarrow> nat \<Rightarrow> nat \<Rightarrow> nat set \<Rightarrow> bool \<Rightarrow> nat \<Rightarrow> nat option" where
  "alloc_scan first start en al wrapped rtp_port =
     (if u16_max < rtp_port + 1 \<or> en \<le> rtp_port + 1 then
        (if wrapped then None else alloc_scan first start en al True first)
      else if rtp_port \<notin> al \<and> rtp_port + 1 \<notin> al then Some rtp_port
      else if wrapped \<and> start \<le> rtp_port then None
      else alloc_scan first start en al wrapped (rtp_port + 2))"
  by pat_completeness auto
termination
  by (relation "measures [\<lambda>(first, start, en, al, wrapped, p). if wrapped then 0 else 1,
                          \<lambda>(first, start, en, al, wrapped, p). en - p]") auto

declare alloc_scan.simps [simp del]

definition allocate :: "instant \<Rightarrow> port_allocator \<Rightarrow> port_pair result \<times> port_allocator" where
  "allocate now s0 =
     (let s = sweep_quarantine now s0;
          first = even_at_or_after (range_start s);
          start = even_at_or_after (max (cursor s) (range_start s))
      in case alloc_scan first start (range_end s) (allocated s) False start of
           Some p \<Rightarrow>
             (Inr \<lparr>rtp = p, rtcp = p + 1\<rparr>,
              s\<lparr>allocated := insert (p + 1) (insert p (allocated s)), cursor := sat_add16 p 2\<rparr>)
         | None \<Rightarrow>
             (case quarantine s of
                (pair, _) # q \<Rightarrow> (Inr pair, s\<lparr>quarantine := q, forced := forced s + 1\<rparr>)
              | [] \<Rightarrow> (Inl (TransportErr ''No available ports in range''), s)))"

definition quarantined_count :: "instant \<Rightarrow> port_allocator \<Rightarrow> nat \<times> port_allocator" where
  "quarantined_count now s =
     (let s' = sweep_quarantine now s in (length (quarantine s'), s'))"

definition forced_reuse_count :: "port_allocator \<Rightarrow> nat" where
  "forced_reuse_count s = forced s"

definition release :: "instant \<Rightarrow> port_pair \<Rightarrow> port_allocator \<Rightarrow> port_allocator" where
  "release now pair s =
     (if hold s = 0 then s\<lparr>allocated := allocated s - {rtp pair} - {rtcp pair}\<rparr>
      else if \<not> list_ex (\<lambda>(p, _). p = pair) (quarantine s)
           then s\<lparr>quarantine := quarantine s @ [(pair, now)]\<rparr>
           else s)"

definition allocated_count :: "port_allocator \<Rightarrow> nat" where
  "allocated_count s = card (allocated s) div 2"

text \<open>\<^verbatim>\<open>end - start\<close> is a \<^verbatim>\<open>u16\<close> subtraction: \<open>None\<close> where it would underflow.\<close>

definition available_count :: "port_allocator \<Rightarrow> nat option" where
  "available_count s =
     (if range_end s < range_start s then None
      else Some ((range_end s - range_start s) div 2 - allocated_count s))"

definition is_allocated :: "port_pair \<Rightarrow> port_allocator \<Rightarrow> bool" where
  "is_allocated pair s \<longleftrightarrow> rtp pair \<in> allocated s \<and> rtcp pair \<in> allocated s"

definition clear :: "port_allocator \<Rightarrow> port_allocator" where
  "clear s = s\<lparr>allocated := {}, quarantine := [], cursor := range_start s\<rparr>"

definition port_pair_new :: "nat \<Rightarrow> port_pair result" where
  "port_pair_new p =
     (if odd p then Inl (TransportErr ''RTP port must be even'')
      else Inr \<lparr>rtp = p, rtcp = p + 1\<rparr>)"

definition port_pair_is_valid :: "port_pair \<Rightarrow> bool" where
  "port_pair_is_valid pair \<longleftrightarrow> even (rtp pair) \<and> rtcp pair = rtp pair + 1"

lemmas port_ops_defs [unfold_defs] =
  sweep_quarantine_def release_def allocated_count_def is_allocated_def clear_def

section \<open>The abstract pool\<close>

text \<open>
  \<open>pool s\<close> is the set of RTP ports the range can serve, \<open>live s\<close> the RTP ports of the pairs
  handed out and not yet released: what callers hold.
\<close>

definition pool :: "port_allocator \<Rightarrow> nat set" where
  "pool s = {p. even p \<and> range_start s \<le> p \<and> p + 1 < range_end s}"

definition rtps :: "port_allocator \<Rightarrow> nat set" where
  "rtps s = {p \<in> allocated s. even p}"

definition waiting :: "port_allocator \<Rightarrow> nat set" where
  "waiting s = (\<lambda>(pair, _). rtp pair) ` set (quarantine s)"

definition live :: "port_allocator \<Rightarrow> nat set" where
  "live s = rtps s - waiting s"

definition pa_inv :: "port_allocator \<Rightarrow> bool" where
  "pa_inv s \<longleftrightarrow>
     range_start s \<le> u16_max \<and> range_end s \<le> u16_max \<and> cursor s \<le> u16_max \<and>
     rtps s \<subseteq> pool s \<and> allocated s = rtps s \<union> Suc ` rtps s \<and>
     (\<forall>(pair, t) \<in> set (quarantine s). port_pair_is_valid pair \<and> rtp pair \<in> rtps s) \<and>
     distinct (map fst (quarantine s)) \<and> (hold s = 0 \<longrightarrow> quarantine s = [])"

lemmas abs_defs = pool_def rtps_def waiting_def live_def

lemma pa_invI:
  assumes "range_start s \<le> u16_max" "range_end s \<le> u16_max" "cursor s \<le> u16_max"
    and "rtps s \<subseteq> pool s" "allocated s = rtps s \<union> Suc ` rtps s"
    and "\<And>pair t. (pair, t) \<in> set (quarantine s) \<Longrightarrow> port_pair_is_valid pair \<and> rtp pair \<in> rtps s"
    and "distinct (map fst (quarantine s))" "hold s = 0 \<Longrightarrow> quarantine s = []"
  shows "pa_inv s"
  unfolding pa_inv_def using assms by blast

lemma pa_invD:
  assumes "pa_inv s"
  shows "range_start s \<le> u16_max" "range_end s \<le> u16_max" "cursor s \<le> u16_max"
    and "rtps s \<subseteq> pool s" "allocated s = rtps s \<union> Suc ` rtps s"
    and "(pair, t) \<in> set (quarantine s) \<Longrightarrow> port_pair_is_valid pair \<and> rtp pair \<in> rtps s"
    and "distinct (map fst (quarantine s))" "hold s = 0 \<Longrightarrow> quarantine s = []"
  using assms unfolding pa_inv_def by blast+

lemma rtps_even: "p \<in> rtps s \<Longrightarrow> even p"
  by (simp add: rtps_def)

lemma finite_pool: "finite (pool s)"
  by (rule finite_subset [of _ "{..< range_end s}"]) (auto simp: pool_def)

lemma pa_inv_finite: "pa_inv s \<Longrightarrow> finite (rtps s)"
  by (auto simp: pa_inv_def intro: finite_subset [OF _ finite_pool])

lemma valid_pair_eq:
  "port_pair_is_valid a \<Longrightarrow> port_pair_is_valid b \<Longrightarrow> rtp a = rtp b \<Longrightarrow> a = b"
  by (simp add: port_pair_is_valid_def)

lemma valid_pairs_disjoint:
  assumes "port_pair_is_valid a" and "port_pair_is_valid b" and "rtp a \<noteq> rtp b"
  shows "{rtp a, rtcp a} \<inter> {rtp b, rtcp b} = {}"
proof -
  have "rtp a \<noteq> Suc (rtp b)" and "rtp b \<noteq> Suc (rtp a)"
    using assms by (auto simp: port_pair_is_valid_def)
  with assms show ?thesis by (auto simp: port_pair_is_valid_def)
qed

section \<open>The allocation loop\<close>

definition scannable :: "nat \<Rightarrow> nat \<Rightarrow> bool" where
  "scannable en p \<longleftrightarrow> even p \<or> en \<le> p + 1"

definition taken :: "nat set \<Rightarrow> nat \<Rightarrow> bool" where
  "taken al p \<longleftrightarrow> p \<in> al \<or> p + 1 \<in> al"

lemma scannable_even_at_or_after:
  "en \<le> u16_max \<Longrightarrow> scannable en (even_at_or_after p)"
  by (auto simp: scannable_def even_at_or_after_def sat_add16_def min_def)

lemma even_at_or_after_ge: "p \<le> u16_max \<Longrightarrow> p \<le> even_at_or_after p"
  by (auto simp: even_at_or_after_def sat_add16_def)

lemma even_at_or_after_least: "even q \<Longrightarrow> p \<le> q \<Longrightarrow> even_at_or_after p \<le> q"
  by (cases "p = q") (auto simp: even_at_or_after_def sat_add16_def min_def)

lemma alloc_scan_Some:
  assumes "alloc_scan first start en al wrapped p = Some r"
    and "scannable en first" and "scannable en p" and "first \<le> p"
  shows "even r \<and> first \<le> r \<and> r + 1 < en \<and> \<not> taken al r"
  using assms
proof (induction first start en al wrapped p rule: alloc_scan.induct)
  case (1 first start en al wrapped p)
  show ?case
  proof (cases "u16_max < p + 1 \<or> en \<le> p + 1")
    case True
    with 1 show ?thesis by (auto simp: alloc_scan.simps [of _ _ _ _ _ p] split: if_splits)
  next
    case False
    with "1.prems"(3) have "even p" by (auto simp: scannable_def)
    show ?thesis
    proof (cases "taken al p")
      case True
      with "1.prems"(1) False
      have "\<not> (wrapped \<and> start \<le> p)"
        and "alloc_scan first start en al wrapped (p + 2) = Some r"
        by (auto simp: alloc_scan.simps [of _ _ _ _ _ p] taken_def split: if_splits)
      with True False \<open>even p\<close> "1.prems" show ?thesis
        by (intro "1.IH"(2)) (auto simp: taken_def scannable_def)
    next
      case free: False
      with "1.prems" False \<open>even p\<close> show ?thesis
        by (auto simp: alloc_scan.simps [of _ _ _ _ _ p] taken_def)
    qed
  qed
qed

lemma alloc_scan_None:
  assumes "alloc_scan first start en al wrapped p = None" and "en \<le> u16_max"
    and "scannable en first" and "scannable en p"
    and "\<not> wrapped \<Longrightarrow> \<forall>q. even q \<and> start \<le> q \<and> q < p \<and> q + 1 < en \<longrightarrow> taken al q"
    and "wrapped \<Longrightarrow> \<forall>q. even q \<and> start \<le> q \<and> q + 1 < en \<longrightarrow> taken al q"
    and "wrapped \<Longrightarrow> \<forall>q. even q \<and> first \<le> q \<and> q < p \<and> q + 1 < en \<longrightarrow> taken al q"
  shows "\<forall>q. even q \<and> first \<le> q \<and> q + 1 < en \<longrightarrow> taken al q"
  using assms
proof (induction first start en al wrapped p rule: alloc_scan.induct)
  case (1 first start en al wrapped p)
  note unf = alloc_scan.simps [of first start en al wrapped p]
  show ?case
  proof (cases "en \<le> p + 1")
    case end_reached: True
    show ?thesis
    proof (cases wrapped)
      case True
      with end_reached "1.prems"(7) show ?thesis by auto
    next
      case False
      with end_reached "1.prems"(1) have "alloc_scan first start en al True first = None"
        by (simp add: alloc_scan.simps [of first start en al False p])
      moreover from False end_reached "1.prems"(5)
      have "\<forall>q. even q \<and> start \<le> q \<and> q + 1 < en \<longrightarrow> taken al q" by auto
      ultimately show ?thesis
        using False end_reached "1.prems"(2,3) by (intro "1.IH"(1)) auto
    qed
  next
    case inside: False
    with "1.prems"(2) have lt: "\<not> (u16_max < p + 1 \<or> en \<le> p + 1)" by simp
    from inside "1.prems"(4) have "even p" by (auto simp: scannable_def)
    from "1.prems"(1) lt have tk: "taken al p" by (auto simp: unf taken_def split: if_splits)
    have upto: "q < p" if "even q" "q < p + 2" "q \<noteq> p" for q
      using that \<open>even p\<close> by (metis add_2_eq_Suc' even_Suc less_antisym)
    show ?thesis
    proof (cases "wrapped \<and> start \<le> p")
      case True
      show ?thesis
      proof (intro allI impI)
        fix q assume q: "even q \<and> first \<le> q \<and> q + 1 < en"
        show "taken al q"
        proof (cases "q < p")
          case True
          with q \<open>wrapped \<and> start \<le> p\<close> "1.prems"(7) show ?thesis by blast
        next
          case False
          with q \<open>wrapped \<and> start \<le> p\<close> "1.prems"(6) show ?thesis by (meson le_trans not_less)
        qed
      qed
    next
      case False
      from "1.prems"(1) lt tk False have "alloc_scan first start en al wrapped (p + 2) = None"
        by (auto simp: unf taken_def split: if_splits)
      moreover have "scannable en (p + 2)" using \<open>even p\<close> by (simp add: scannable_def)
      moreover have "\<not> (p \<notin> al \<and> p + 1 \<notin> al)" using tk by (auto simp: taken_def)
      ultimately show ?thesis
        using lt False tk upto "1.prems" by (intro "1.IH"(2)) blast+
    qed
  qed
qed

section \<open>The quarantine sweep\<close>

lemma sweep_loop_split:
  "sweep_loop now h q al = (q', al') \<Longrightarrow>
     \<exists>done. q = done @ q' \<and>
       al' = al - (\<lambda>(pair, _). rtp pair) ` set done - (\<lambda>(pair, _). rtcp pair) ` set done \<and>
       (\<forall>(pair, t) \<in> set done. h \<le> now - t) \<and>
       (q' \<noteq> [] \<longrightarrow> now - snd (hd q') < h)"
proof (induction now h q al rule: sweep_loop.induct)
  case (1 now h al)
  then show ?case by simp
next
  case (2 now h pair freed_at q al)
  show ?case
  proof (cases "now - freed_at < h")
    case True
    with "2.prems" show ?thesis by auto
  next
    case False
    with "2.prems" have "sweep_loop now h q (al - {rtp pair} - {rtcp pair}) = (q', al')" by simp
    from "2.IH" [OF False this] obtain d where d:
      "q = d @ q'"
      "al' = al - {rtp pair} - {rtcp pair} - (\<lambda>(pair, _). rtp pair) ` set d
             - (\<lambda>(pair, _). rtcp pair) ` set d"
      "\<forall>(pair, t) \<in> set d. h \<le> now - t" "q' \<noteq> [] \<longrightarrow> now - snd (hd q') < h"
      by blast
    with False show ?thesis by (intro exI [of _ "(pair, freed_at) # d"]) auto
  qed
qed

lemma even_minus_pairs:
  "(\<And>x. x \<in> D \<Longrightarrow> even x) \<Longrightarrow> {p \<in> A - D - Suc ` D. even p} = {p \<in> A. even p} - D"
  for A D :: "nat set"
  by fastforce

lemma pairs_minus:
  assumes "\<And>x. x \<in> P \<Longrightarrow> even x" and "\<And>x. x \<in> D \<Longrightarrow> even x"
  shows "P \<union> Suc ` P - D - Suc ` D = (P - D) \<union> Suc ` (P - D)"
proof -
  have "P \<inter> Suc ` D = {}" and "Suc ` P \<inter> D = {}" using assms by force+
  moreover have "Suc ` (P - D) = Suc ` P - Suc ` D" by (simp add: image_set_diff)
  ultimately show ?thesis by blast
qed

lemma sweep_frame [simp]:
  "range_start (sweep_quarantine now s) = range_start s"
  "range_end (sweep_quarantine now s) = range_end s"
  "hold (sweep_quarantine now s) = hold s"
  "cursor (sweep_quarantine now s) = cursor s"
  "forced (sweep_quarantine now s) = forced s"
  "pool (sweep_quarantine now s) = pool s"
  by (auto simp: sweep_quarantine_def pool_def split: prod.splits)

text \<open>
  Giving back the pairs whose hold is up removes exactly their ports, so the set of pairs in
  callers' hands does not change.
\<close>

lemma sweep_inv_live:
  assumes inv: "pa_inv s"
  shows "pa_inv (sweep_quarantine now s) \<and> live (sweep_quarantine now s) = live s"
proof -
  obtain q' al' where sw: "sweep_loop now (hold s) (quarantine s) (allocated s) = (q', al')"
    by (cases "sweep_loop now (hold s) (quarantine s) (allocated s)")
  from sweep_loop_split [OF sw] obtain d where
    q: "quarantine s = d @ q'" and
    al: "al' = allocated s - (\<lambda>(pair, _). rtp pair) ` set d - (\<lambda>(pair, _). rtcp pair) ` set d"
    by blast
  let ?s = "s\<lparr>quarantine := q', allocated := al'\<rparr>"
  let ?D = "(\<lambda>(pair, _). rtp pair) ` set d"
  have val: "port_pair_is_valid pair \<and> rtp pair \<in> rtps s" if "(pair, t) \<in> set (d @ q')" for pair t
    using pa_invD(6) [OF inv] that unfolding q .
  have sucD: "(\<lambda>(pair, _). rtcp pair) ` set d = Suc ` ?D"
    using val by (force simp: port_pair_is_valid_def image_iff)
  have evD: "x \<in> ?D \<Longrightarrow> even x" for x using val by (fastforce simp: port_pair_is_valid_def)
  have "rtps ?s = {p \<in> al'. even p}" by (simp add: rtps_def)
  also have "\<dots> = rtps s - ?D"
    unfolding al sucD rtps_def by (rule even_minus_pairs) (rule evD)
  finally have rt: "rtps ?s = rtps s - ?D" .
  have disj: "rtp pair \<notin> ?D" if "(pair, t) \<in> set q'" for pair t
  proof
    assume "rtp pair \<in> ?D"
    then obtain pair' t' where d': "(pair', t') \<in> set d" "rtp pair = rtp pair'" by auto
    with that val valid_pair_eq have "pair = pair'" by (metis UnCI set_append)
    with d'(1) that pa_invD(7) [OF inv] show False by (force simp: q image_iff)
  qed
  have alloc: "al' = rtps ?s \<union> Suc ` rtps ?s"
  proof -
    have "al' = (rtps s - ?D) \<union> Suc ` (rtps s - ?D)"
      unfolding al sucD pa_invD(5) [OF inv] by (rule pairs_minus) (auto simp: rtps_even evD)
    then show ?thesis unfolding rt .
  qed
  have "pa_inv ?s"
  proof (rule pa_invI)
    show "rtps ?s \<subseteq> pool ?s" using pa_invD(4) [OF inv] rt by (auto simp: pool_def)
    show "port_pair_is_valid pair \<and> rtp pair \<in> rtps ?s" if "(pair, t) \<in> set (quarantine ?s)"
      for pair t using that val disj rt by auto
  qed (use alloc pa_invD [OF inv] q in auto)
  moreover have "live ?s = live s"
    unfolding live_def rt waiting_def using disj by (auto simp: q)
  ultimately show ?thesis by (simp add: sweep_quarantine_def sw)
qed

lemma sweep_pa_inv [simp]: "pa_inv s \<Longrightarrow> pa_inv (sweep_quarantine now s)"
  by (simp add: sweep_inv_live)

lemma sweep_live [simp]: "pa_inv s \<Longrightarrow> live (sweep_quarantine now s) = live s"
  by (simp add: sweep_inv_live)

section \<open>Correctness of allocate and release\<close>

lemma taken_live:
  "pa_inv s \<Longrightarrow> even p \<Longrightarrow> taken (allocated s) p \<longleftrightarrow> p \<in> rtps s"
  using pa_invD(5) [of s] rtps_even [of _ s] by (fastforce simp: taken_def)

definition scan_from :: "port_allocator \<Rightarrow> nat option" where
  "scan_from s =
     alloc_scan (even_at_or_after (range_start s))
       (even_at_or_after (max (cursor s) (range_start s))) (range_end s) (allocated s) False
       (even_at_or_after (max (cursor s) (range_start s)))"

lemma even_at_or_after_mono:
  "p \<le> q \<Longrightarrow> q \<le> u16_max \<Longrightarrow> even_at_or_after p \<le> even_at_or_after q"
  by (cases "p = q") (auto simp: even_at_or_after_def sat_add16_def min_def)

lemma scan_from_Some:
  assumes "pa_inv s" and "scan_from s = Some p"
  shows "p \<in> pool s - rtps s"
proof -
  note le = pa_invD(2,1,3) [OF assms(1)]
  have "even p \<and> even_at_or_after (range_start s) \<le> p \<and> p + 1 < range_end s
      \<and> \<not> taken (allocated s) p"
    using assms(2) le unfolding scan_from_def
    by (intro alloc_scan_Some) (auto simp: scannable_even_at_or_after even_at_or_after_mono)
  with le(2) even_at_or_after_ge [of "range_start s"] taken_live [OF assms(1)]
  show ?thesis by (auto simp: pool_def)
qed

lemma scan_from_None:
  assumes "pa_inv s" and "scan_from s = None"
  shows "rtps s = pool s"
proof -
  note le = pa_invD(2) [OF assms(1)]
  have "\<forall>q. even q \<and> even_at_or_after (range_start s) \<le> q \<and> q + 1 < range_end s
      \<longrightarrow> taken (allocated s) q"
    using assms(2) le unfolding scan_from_def
    by (rule alloc_scan_None) (auto simp: scannable_even_at_or_after le)
  with taken_live [OF assms(1)] even_at_or_after_least pa_invD(4) [OF assms(1)]
  show ?thesis by (auto simp: pool_def)
qed

lemma allocate_eq:
  "allocate now s0 =
     (let s = sweep_quarantine now s0 in
      case scan_from s of
        Some p \<Rightarrow>
          (Inr \<lparr>rtp = p, rtcp = p + 1\<rparr>,
           s\<lparr>allocated := insert (p + 1) (insert p (allocated s)), cursor := sat_add16 p 2\<rparr>)
      | None \<Rightarrow>
          (case quarantine s of
             (pair, _) # q \<Rightarrow> (Inr pair, s\<lparr>quarantine := q, forced := forced s + 1\<rparr>)
           | [] \<Rightarrow> (Inl (TransportErr ''No available ports in range''), s)))"
  by (simp add: allocate_def scan_from_def Let_def)

text \<open>What adding a fresh pair to the allocated ports does.\<close>

lemma add_pair:
  assumes inv: "pa_inv s" and p: "p \<in> pool s" "p \<notin> rtps s"
    and s': "s' = s\<lparr>allocated := insert (p + 1) (insert p (allocated s)), cursor := c\<rparr>"
    and c: "c \<le> u16_max"
  shows "pa_inv s' \<and> live s' = insert p (live s) \<and> p \<notin> live s"
proof -
  note invd = pa_invD [OF inv]
  have rt: "rtps s' = insert p (rtps s)"
    using p by (auto simp: rtps_def s' pool_def)
  have w: "waiting s' = waiting s" "p \<notin> waiting s"
    using invd(6) p(2) by (auto simp: waiting_def s')
  have pl: "pool s' = pool s" by (simp add: s' pool_def)
  have "pa_inv s'"
  proof (rule pa_invI)
    show "allocated s' = rtps s' \<union> Suc ` rtps s'"
      unfolding rt using invd(5) by (auto simp: s')
    show "rtps s' \<subseteq> pool s'" using invd(4) p(1) by (simp add: rt pl)
    show "port_pair_is_valid pair \<and> rtp pair \<in> rtps s'" if "(pair, t) \<in> set (quarantine s')"
      for pair t using that invd(6) unfolding rt by (auto simp: s')
  qed (use c invd in \<open>auto simp: s'\<close>)
  then show ?thesis using p w by (auto simp: live_def rt)
qed

text \<open>What handing out the oldest quarantined pair does.\<close>

lemma take_oldest:
  assumes inv: "pa_inv s" and q: "quarantine s = (pair, t) # q'"
    and s': "s' = s\<lparr>quarantine := q', forced := f\<rparr>"
  shows "pa_inv s' \<and> live s' = insert (rtp pair) (live s) \<and> rtp pair \<notin> live s
    \<and> port_pair_is_valid pair \<and> rtp pair \<in> pool s"
proof -
  have rt: "rtps s' = rtps s" and pl: "pool s' = pool s"
    by (simp_all add: rtps_def pool_def s')
  note invd = pa_invD [OF inv]
  have v: "port_pair_is_valid pair" "rtp pair \<in> rtps s"
    using invd(6) [of pair t] by (auto simp: q)
  have fresh: "rtp pair \<notin> waiting s'"
  proof
    assume "rtp pair \<in> waiting s'"
    then obtain pair' t' where "(pair', t') \<in> set q'" "rtp pair' = rtp pair"
      by (auto simp: waiting_def s')
    with v(1) invd(6) [of pair' t'] valid_pair_eq have "(pair, t') \<in> set q'"
      by (metis list.set_intros(2) q)
    with invd(7) show False by (force simp: q)
  qed
  have w: "waiting s = insert (rtp pair) (waiting s')" by (simp add: waiting_def s' q)
  have "pa_inv s'"
  proof (rule pa_invI)
    show "port_pair_is_valid x \<and> rtp x \<in> rtps s'" if "(x, u) \<in> set (quarantine s')" for x u
      using that invd(6) [of x u] unfolding rt by (simp add: s' q)
    show "allocated s' = rtps s' \<union> Suc ` rtps s'" using invd(5) rt by (simp add: s')
  qed (use invd rt pl in \<open>auto simp: s' q\<close>)
  moreover have "rtp pair \<in> pool s" using invd(4) v by auto
  ultimately show ?thesis using v w fresh by (auto simp: live_def rt)
qed

lemma allocate_Inr:
  assumes inv: "pa_inv s" and al: "allocate now s = (Inr pair, s')"
  shows "pa_inv s' \<and> live s' = insert (rtp pair) (live s) \<and> rtp pair \<notin> live s
    \<and> port_pair_is_valid pair \<and> rtp pair \<in> pool s"
proof -
  let ?s = "sweep_quarantine now s"
  have i: "pa_inv ?s" and l: "live ?s = live s" using inv by auto
  show ?thesis
  proof (cases "scan_from ?s")
    case None
    with al obtain t q' where "quarantine ?s = (pair, t) # q'"
      "s' = ?s\<lparr>quarantine := q', forced := forced ?s + 1\<rparr>"
      by (auto simp: allocate_eq Let_def split: list.splits)
    from take_oldest [OF i this] l show ?thesis by simp
  next
    case (Some p)
    with al have pair: "pair = \<lparr>rtp = p, rtcp = p + 1\<rparr>"
      and s': "s' = ?s\<lparr>allocated := insert (p + 1) (insert p (allocated ?s)), cursor := sat_add16 p 2\<rparr>"
      by (auto simp: allocate_eq Let_def)
    from scan_from_Some [OF i Some] have p: "p \<in> pool ?s" "p \<notin> rtps ?s" by auto
    from add_pair [OF i p s' sat_add16_le] p l show ?thesis
      by (simp add: pair port_pair_is_valid_def pool_def)
  qed
qed

lemma allocate_Inl:
  assumes inv: "pa_inv s" and al: "allocate now s = (Inl e, s')"
  shows "live s = pool s \<and> s' = sweep_quarantine now s"
proof -
  let ?s = "sweep_quarantine now s"
  have i: "pa_inv ?s" and l: "live ?s = live s" using inv by auto
  from al have n: "scan_from ?s = None" "quarantine ?s = []" "s' = ?s"
    by (auto simp: allocate_eq Let_def split: option.splits list.splits)
  with scan_from_None [OF i n(1)] l show ?thesis by (auto simp: live_def waiting_def)
qed

lemma release_frame [simp]:
  "range_start (release now pair s) = range_start s"
  "range_end (release now pair s) = range_end s"
  "hold (release now pair s) = hold s"
  "cursor (release now pair s) = cursor s"
  "pool (release now pair s) = pool s"
  by (auto simp: release_def pool_def)

lemma release_held:
  assumes "0 < hold s"
  shows "allocated (release now pair s) = allocated s"
    and "rtps (release now pair s) = rtps s"
    and "quarantine (release now pair s) =
      (if \<exists>t. (pair, t) \<in> set (quarantine s) then quarantine s else quarantine s @ [(pair, now)])"
  using assms by (auto simp: release_def rtps_def list_ex_iff)

lemma release_live:
  assumes inv: "pa_inv s" and v: "port_pair_is_valid pair" and a: "is_allocated pair s"
  shows "pa_inv (release now pair s) \<and> live (release now pair s) = live s - {rtp pair}"
proof -
  let ?s = "release now pair s" and ?p = "rtp pair"
  have p: "?p \<in> rtps s" "rtcp pair = ?p + 1" "even ?p"
    using v a by (auto simp: rtps_def is_allocated_def port_pair_is_valid_def)
  show ?thesis
  proof (cases "hold s = 0")
    case True
    have al: "allocated ?s = rtps s \<union> Suc ` rtps s - {?p} - Suc ` {?p}"
      using True p pa_invD(5) [OF inv] by (simp add: release_def)
    have "rtps ?s = {x \<in> allocated s - {?p} - Suc ` {?p}. even x}"
      using True p by (simp add: release_def rtps_def)
    also have "\<dots> = rtps s - {?p}" unfolding rtps_def by (rule even_minus_pairs) (use p in auto)
    finally have rt: "rtps ?s = rtps s - {?p}" .
    have "allocated ?s = rtps ?s \<union> Suc ` rtps ?s"
      unfolding rt al by (rule pairs_minus) (use p in \<open>auto simp: rtps_even\<close>)
    then have "pa_inv ?s"
      by (rule pa_invI [rotated 4])
        (use True pa_invD [OF inv] rt in \<open>auto simp: release_def pool_def\<close>)
    then show ?thesis
      using True pa_invD(8) [OF inv] rt by (auto simp: live_def waiting_def release_def)
  next
    case False
    then have h: "0 < hold s" by simp
    note q = release_held(3) [OF h, of now pair] and rt = release_held(1,2) [OF h, of now pair]
    have "waiting ?s = insert ?p (waiting s)" unfolding waiting_def q by force
    moreover have "pa_inv ?s"
    proof (rule pa_invI)
      show "port_pair_is_valid x \<and> rtp x \<in> rtps ?s" if "(x, t) \<in> set (quarantine ?s)" for x t
        using that v p(1) pa_invD(6) [OF inv, of x t] unfolding q rt by (auto split: if_splits)
      show "distinct (map fst (quarantine ?s))" using pa_invD(7) [OF inv] by (auto simp: q)
      show "allocated ?s = rtps ?s \<union> Suc ` rtps ?s" unfolding rt by (rule pa_invD(5) [OF inv])
    qed (use h pa_invD(1-4) [OF inv] rt in auto)
    ultimately show ?thesis by (auto simp: live_def rt)
  qed
qed

section \<open>The interface to the media manager\<close>

text \<open>
  What the users of the pool rely on: \<open>held\<close> is the set of RTP ports handed out,
  \<open>cap\<close> the set the range can serve.
\<close>

locale pair_pool =
  fixes inv :: "'s \<Rightarrow> bool"
    and held :: "'s \<Rightarrow> nat set"
    and cap :: "'s \<Rightarrow> nat set"
    and owns :: "port_pair \<Rightarrow> 's \<Rightarrow> bool"
    and alloc :: "instant \<Rightarrow> 's \<Rightarrow> port_pair result \<times> 's"
    and free :: "instant \<Rightarrow> port_pair \<Rightarrow> 's \<Rightarrow> 's"
  assumes alloc_ok: "inv s \<Longrightarrow> alloc now s = (Inr pair, s') \<Longrightarrow>
      inv s' \<and> held s' = insert (rtp pair) (held s) \<and> rtp pair \<notin> held s \<and>
      port_pair_is_valid pair \<and> rtp pair \<in> cap s \<and> cap s' = cap s"
    and alloc_err: "inv s \<Longrightarrow> alloc now s = (Inl e, s') \<Longrightarrow>
      inv s' \<and> held s' = held s \<and> held s = cap s \<and> cap s' = cap s"
    and free_ok: "inv s \<Longrightarrow> port_pair_is_valid pair \<Longrightarrow> owns pair s \<Longrightarrow>
      inv (free now pair s) \<and> held (free now pair s) = held s - {rtp pair} \<and>
      cap (free now pair s) = cap s"
    and owns_held: "inv s \<Longrightarrow> port_pair_is_valid pair \<Longrightarrow> rtp pair \<in> held s \<Longrightarrow> owns pair s"
begin

lemma alloc_progress:
  assumes "inv s" and "held s \<noteq> cap s"
  shows "\<exists>pair s'. alloc now s = (Inr pair, s')"
  using alloc_err [OF assms(1)] assms(2) by (metis old.sum.exhaust prod.exhaust)

lemma two_legs_disjoint:
  assumes "inv s" and "alloc t s = (Inr a, s1)" and "alloc t' s1 = (Inr b, s2)"
  shows "inv s2 \<and> held s2 = held s \<union> {rtp a, rtp b} \<and> {rtp a, rtp b} \<inter> held s = {}
    \<and> {rtp a, rtcp a} \<inter> {rtp b, rtcp b} = {} \<and> port_pair_is_valid a \<and> port_pair_is_valid b"
proof -
  note A = alloc_ok [OF assms(1,2)]
  then have "inv s1" by simp
  note B = alloc_ok [OF this assms(3)]
  from A B have "rtp a \<noteq> rtp b" by auto
  with A B valid_pairs_disjoint [of a b] show ?thesis by auto
qed

lemma second_leg_rollback:
  assumes "inv s" and "alloc t s = (Inr a, s1)" and "alloc t' s1 = (Inl e, s2)"
  shows "inv (free t'' a s2) \<and> held (free t'' a s2) = held s"
proof -
  note A = alloc_ok [OF assms(1,2)]
  then have "inv s1" by simp
  note B = alloc_err [OF this assms(3)]
  have "owns a s2" using A B owns_held [of s2 a] by auto
  with A B free_ok [of s2 a t''] show ?thesis by auto
qed

lemma free_held:
  assumes "inv s" and "port_pair_is_valid a" and "rtp a \<in> held s"
  shows "inv (free t a s) \<and> held (free t a s) = held s - {rtp a}"
  using free_ok owns_held assms by blast

end

lemma live_owned:
  "pa_inv s \<Longrightarrow> port_pair_is_valid pair \<Longrightarrow> rtp pair \<in> live s \<Longrightarrow> is_allocated pair s"
  using pa_invD(5) [of s] by (auto simp: is_allocated_def live_def port_pair_is_valid_def)

lemma allocate_pool:
  assumes "pa_inv s" shows "pool (snd (allocate now s)) = pool s"
  using sweep_frame(6) [of now s]
  by (auto simp: allocate_eq Let_def pool_def split: option.splits list.splits)

interpretation rtp_pool: pair_pool pa_inv live pool is_allocated allocate release
proof unfold_locales
  fix s now pair s'
  assume "pa_inv s" "allocate now s = (Inr pair, s')"
  then show "pa_inv s' \<and> live s' = insert (rtp pair) (live s) \<and> rtp pair \<notin> live s \<and>
      port_pair_is_valid pair \<and> rtp pair \<in> pool s \<and> pool s' = pool s"
    using allocate_Inr allocate_pool by (metis snd_conv)
next
  fix s now e s'
  assume "pa_inv s" "allocate now s = (Inl e, s')"
  then show "pa_inv s' \<and> live s' = live s \<and> live s = pool s \<and> pool s' = pool s"
    using allocate_Inl by (metis sweep_frame(6) sweep_live sweep_pa_inv)
qed (auto simp: release_live live_owned)

section \<open>Runs of the allocator\<close>

text \<open>
  One rule per public operation, with the clock reading it takes. A caller releases only a
  pair the allocator lists as allocated.
\<close>

inductive pa_step :: "port_allocator \<times> instant \<Rightarrow> port_allocator \<times> instant \<Rightarrow> bool" where
  pa_alloc: "t \<le> t' \<Longrightarrow> allocate t' s = (r, s') \<Longrightarrow> pa_step (s, t) (s', t')"
| pa_release: "t \<le> t' \<Longrightarrow> port_pair_is_valid pair \<Longrightarrow> is_allocated pair s \<Longrightarrow>
     pa_step (s, t) (release t' pair s, t')"
| pa_sweep: "t \<le> t' \<Longrightarrow> pa_step (s, t) (sweep_quarantine t' s, t')"
| pa_clear: "t \<le> t' \<Longrightarrow> pa_step (s, t) (clear s, t')"

inductive_cases pa_stepE: "pa_step (s, t) (s', t')"

inductive pa_reachable :: "nat \<Rightarrow> nat \<Rightarrow> duration \<Rightarrow> port_allocator \<times> instant \<Rightarrow> bool"
  for lo hi h
where
  pa_init: "lo \<le> u16_max \<Longrightarrow> hi \<le> u16_max \<Longrightarrow>
     pa_reachable lo hi h (with_range_and_hold lo hi h, t)"
| pa_next: "pa_reachable lo hi h c \<Longrightarrow> pa_step c c' \<Longrightarrow> pa_reachable lo hi h c'"

text \<open>The quarantine is in release order and nothing in it is newer than the clock.\<close>

definition quarantine_ordered :: "port_allocator \<times> instant \<Rightarrow> bool" where
  "quarantine_ordered c \<longleftrightarrow>
     sorted (map snd (quarantine (fst c))) \<and> (\<forall>x \<in> set (quarantine (fst c)). snd x \<le> snd c)"

lemma sweep_quarantine_suffix:
  "\<exists>done. quarantine s = done @ quarantine (sweep_quarantine now s) \<and>
     (quarantine (sweep_quarantine now s) \<noteq> [] \<longrightarrow>
        now - snd (hd (quarantine (sweep_quarantine now s))) < hold s)"
proof -
  obtain q' al' where sw: "sweep_loop now (hold s) (quarantine s) (allocated s) = (q', al')"
    by (cases "sweep_loop now (hold s) (quarantine s) (allocated s)")
  from sweep_loop_split [OF sw] show ?thesis by (auto simp: sweep_quarantine_def sw)
qed

lemma quarantine_ordered_suffix:
  "quarantine_ordered (s, t) \<Longrightarrow> t \<le> t' \<Longrightarrow> quarantine s = d @ quarantine s' \<Longrightarrow>
     quarantine_ordered (s', t')"
  unfolding quarantine_ordered_def fst_conv snd_conv
  by (auto simp: sorted_append dest: bspec intro: order_trans)

lemma allocate_quarantine_suffix: "\<exists>done. quarantine s = done @ quarantine (snd (allocate t s))"
proof -
  obtain d where d: "quarantine s = d @ quarantine (sweep_quarantine t s)"
    using sweep_quarantine_suffix by blast
  show ?thesis
  proof (cases "scan_from (sweep_quarantine t s)")
    case None
    with d show ?thesis
      by (cases "quarantine (sweep_quarantine t s)")
        (auto simp: allocate_eq Let_def intro: exI [of _ "d @ [x]" for x])
  next
    case (Some p)
    with d show ?thesis by (auto simp: allocate_eq Let_def)
  qed
qed

lemma pa_step_ordered:
  assumes "pa_step c c'" and "quarantine_ordered c"
  shows "quarantine_ordered c'"
  using assms
proof (cases rule: pa_step.cases)
  case (pa_alloc t t' s r s')
  with assms(2) allocate_quarantine_suffix [of s t'] show ?thesis
    by (metis quarantine_ordered_suffix snd_conv)
next
  case (pa_release t t' pair s)
  with assms(2) show ?thesis
    unfolding quarantine_ordered_def release_def
    by (auto simp: sorted_append intro: order_trans)
next
  case (pa_sweep t t' s)
  with assms(2) sweep_quarantine_suffix [of s t'] show ?thesis
    by (metis quarantine_ordered_suffix)
next
  case (pa_clear t t' s)
  then show ?thesis by (simp add: quarantine_ordered_def clear_def)
qed

lemma pa_step_inv: "pa_step c c' \<Longrightarrow> pa_inv (fst c) \<Longrightarrow> pa_inv (fst c')"
proof (induction rule: pa_step.induct)
  case (pa_alloc t t' s r s')
  with rtp_pool.alloc_ok [of s t' _ s'] rtp_pool.alloc_err [of s t' _ s'] show ?case
    by (cases r) simp_all
next
  case (pa_clear t t' s)
  have "rtps (clear s) = {}" by (simp add: rtps_def clear_def)
  with pa_clear pa_invD [of s] show ?case
    by (intro pa_invI) (auto simp: clear_def)
qed (simp_all add: release_live)

lemma pa_step_frame:
  "pa_step c c' \<Longrightarrow> range_start (fst c') = range_start (fst c) \<and>
     range_end (fst c') = range_end (fst c) \<and> hold (fst c') = hold (fst c)"
proof (induction rule: pa_step.induct)
  case (pa_alloc t t' s r s')
  then have "s' = snd (allocate t' s)" by simp
  then show ?case by (auto simp: allocate_eq Let_def split: option.splits list.splits)
qed (auto simp: clear_def)

lemma pa_reachable_inv:
  "pa_reachable lo hi h c \<Longrightarrow>
     pa_inv (fst c) \<and> quarantine_ordered c \<and> range_start (fst c) = lo \<and>
     range_end (fst c) = hi \<and> hold (fst c) = h"
proof (induction rule: pa_reachable.induct)
  case (pa_init t)
  then show ?case
    by (simp add: with_range_and_hold_def pa_inv_def rtps_def quarantine_ordered_def)
next
  case (pa_next c c')
  then show ?case using pa_step_inv pa_step_ordered pa_step_frame by metis
qed

section \<open>Properties\<close>

lemma sweep_keeps_held_pairs:
  assumes "(pair, freed) \<in> set (quarantine s)" and "now - freed < hold s"
  shows "(pair, freed) \<in> set (quarantine (sweep_quarantine now s))"
proof -
  obtain q' al' where sw: "sweep_loop now (hold s) (quarantine s) (allocated s) = (q', al')"
    by (cases "sweep_loop now (hold s) (quarantine s) (allocated s)")
  from sweep_loop_split [OF sw] obtain d where d: "quarantine s = d @ q'"
    and old: "\<forall>(pair, t) \<in> set d. hold s \<le> now - t" by blast
  from old assms(2) have "(pair, freed) \<notin> set d" by auto
  with assms(1) d have "(pair, freed) \<in> set q'" by simp
  then show ?thesis by (simp add: sweep_quarantine_def sw)
qed

lemma card_pairs: "finite P \<Longrightarrow> (\<And>x. x \<in> P \<Longrightarrow> even x) \<Longrightarrow> card (P \<union> Suc ` P) = 2 * card P"
  for P :: "nat set"
proof -
  assume fin: "finite P" and ev: "\<And>x. x \<in> P \<Longrightarrow> even x"
  have "P \<inter> Suc ` P = {}"
  proof (rule ccontr)
    assume "P \<inter> Suc ` P \<noteq> {}"
    then obtain x where "x \<in> P" "Suc x \<in> P" by auto
    with ev [of x] ev [of "Suc x"] show False by simp
  qed
  with fin show ?thesis by (simp add: card_Un_disjoint card_image)
qed

lemma allocated_count_rtps: "pa_inv s \<Longrightarrow> allocated_count s = card (rtps s)"
  using card_pairs [OF pa_inv_finite rtps_even]
  by (simp add: allocated_count_def pa_invD(5) [symmetric])

lemma card_pool_even:
  assumes "even (range_start s)"
  shows "card (pool s) = (range_end s - range_start s) div 2"
proof -
  let ?f = "\<lambda>i. range_start s + 2 * i"
  have "p \<in> ?f ` {..< (range_end s - range_start s) div 2}" if "p \<in> pool s" for p
  proof -
    from that assms have "even (p - range_start s)" "range_start s \<le> p" "p + 1 < range_end s"
      by (auto simp: pool_def)
    then have "p = ?f ((p - range_start s) div 2)"
      and "(p - range_start s) div 2 < (range_end s - range_start s) div 2" by auto
    then show ?thesis by blast
  qed
  moreover have "?f i \<in> pool s" if "i < (range_end s - range_start s) div 2" for i
    using that assms unfolding pool_def by simp
  ultimately have "pool s = ?f ` {..< (range_end s - range_start s) div 2}" by blast
  then show ?thesis by (simp add: card_image inj_on_def)
qed

text \<open>C4: In every reachable state of the allocator, a successful \<^verbatim>\<open>allocate\<close> returns an
  even RTP port with the next port as RTCP, both inside the configured range; no caller holds
  that pair, and afterwards the callers hold exactly one pair more.\<close>

theorem allocate_hands_out_fresh_pair:
  assumes "pa_reachable lo hi h (s, t)" and "allocate now s = (Inr pair, s')"
  shows "even (rtp pair) \<and> rtcp pair = rtp pair + 1 \<and> lo \<le> rtp pair \<and> rtcp pair < hi
    \<and> rtp pair \<notin> live s \<and> live s' = insert (rtp pair) (live s)"
proof -
  from pa_reachable_inv [OF assms(1)]
  have "pa_inv s" "range_start s = lo" "range_end s = hi" by auto
  with rtp_pool.alloc_ok [OF _ assms(2)] show ?thesis
    by (auto simp: port_pair_is_valid_def pool_def)
qed

lemma allocate_example:
  "allocate 5 (with_range_and_hold 10001 10010 0) =
     (Inr \<lparr>rtp = 10002, rtcp = 10003\<rparr>,
      \<lparr>range_start = 10001, range_end = 10010, allocated = {10002, 10003}, quarantine = [],
       hold = 0, cursor = 10004, forced = 0\<rparr>)"
  by (simp add: allocate_def sweep_quarantine_def with_range_and_hold_def even_at_or_after_def
      sat_add16_def u16_max_def alloc_scan.simps insert_commute)

theorem allocate_hands_out_fresh_pair_witness:
  "pa_reachable 10001 10010 0 (with_range_and_hold 10001 10010 0, 0) \<and>
   10002 \<notin> live (with_range_and_hold 10001 10010 0) \<and> (10001::nat) \<le> 10002"
proof -
  have r: "pa_reachable 10001 10010 0 (with_range_and_hold 10001 10010 0, 0)"
    by (rule pa_init) (simp_all add: u16_max_def)
  from allocate_hands_out_fresh_pair [OF r allocate_example] r show ?thesis by simp
qed

text \<open>In every reachable state, \<^verbatim>\<open>allocate\<close> fails exactly when every pair of the range is
  in a caller's hands: neither a cursor past the range nor the quarantine ever makes it fail
  while a pair is free.\<close>

theorem allocate_fails_iff_exhausted:
  assumes "pa_reachable lo hi h (s, t)"
  shows "\<not> is_ok (fst (allocate now s)) \<longleftrightarrow> live s = pool s"
proof -
  from pa_reachable_inv [OF assms] have inv: "pa_inv s" by auto
  obtain r s' where r: "allocate now s = (r, s')" by (cases "allocate now s")
  show ?thesis
  proof (cases r)
    case (Inl e)
    with rtp_pool.alloc_err [OF inv] r show ?thesis by auto
  next
    case (Inr pair)
    with rtp_pool.alloc_ok [OF inv, of now pair s'] r show ?thesis by auto
  qed
qed

theorem allocate_fails_iff_exhausted_witness:
  "\<not> is_ok (fst (allocate 7 (with_range_and_hold 10001 10003 0)))
   \<longleftrightarrow> live (with_range_and_hold 10001 10003 0) = pool (with_range_and_hold 10001 10003 0)"
  by (rule allocate_fails_iff_exhausted [where lo = 10001 and hi = 10003 and h = 0 and t = 0],
      rule pa_init) (simp_all add: u16_max_def)

text \<open>A released pair whose hold has not elapsed is handed out again only when nothing else
  is left: every pair of the range is in use or in quarantine, and the forced-reuse counter
  records it.\<close>

theorem early_reuse_only_when_exhausted:
  assumes "pa_reachable lo hi h (s, t)"
    and "(pair, freed) \<in> set (quarantine s)" and "now - freed < h"
    and "allocate now s = (Inr p, s')" and "rtp p = rtp pair"
  shows "forced s' = forced s + 1 \<and> rtps (sweep_quarantine now s) = pool s"
proof -
  let ?s = "sweep_quarantine now s"
  from pa_reachable_inv [OF assms(1)] have inv: "pa_inv s" and h: "hold s = h" by auto
  then have i: "pa_inv ?s" by simp
  from sweep_keeps_held_pairs [OF assms(2)] assms(3) h
  have "(pair, freed) \<in> set (quarantine ?s)" by simp
  with pa_invD(6) [OF i] have "rtp pair \<in> rtps ?s" by blast
  moreover have "scan_from ?s \<noteq> Some (rtp pair)"
    using scan_from_Some [OF i, of "rtp pair"] calculation by auto
  ultimately have n: "scan_from ?s = None"
    using assms(4,5) by (auto simp: allocate_eq Let_def split: option.splits list.splits)
  with scan_from_None [OF i n] assms(4) show ?thesis
    by (auto simp: allocate_eq Let_def split: list.splits)
qed

lemma forced_reuse_run:
  "pa_reachable 10000 10003 30
     (release 5 \<lparr>rtp = 10000, rtcp = 10001\<rparr> (snd (allocate 5 (with_range_and_hold 10000 10003 30))), 5)"
proof -
  let ?s = "with_range_and_hold 10000 10003 30"
  have "pa_reachable 10000 10003 30 (?s, 0)"
    by (rule pa_init) (simp_all add: u16_max_def)
  moreover have "pa_step (?s, 0) (snd (allocate 5 ?s), 5)"
    by (rule pa_alloc [of _ _ _ "fst (allocate 5 ?s)"]) simp_all
  ultimately have r: "pa_reachable 10000 10003 30 (snd (allocate 5 ?s), 5)" by (rule pa_next)
  have "is_allocated \<lparr>rtp = 10000, rtcp = 10001\<rparr> (snd (allocate 5 ?s))"
    by (simp add: allocate_def sweep_quarantine_def with_range_and_hold_def even_at_or_after_def
        is_allocated_def u16_max_def alloc_scan.simps)
  then have "pa_step (snd (allocate 5 ?s), 5)
      (release 5 \<lparr>rtp = 10000, rtcp = 10001\<rparr> (snd (allocate 5 ?s)), 5)"
    by (intro pa_release) (simp_all add: port_pair_is_valid_def)
  with r show ?thesis by (rule pa_next)
qed

lemma forced_reuse_state:
  "release 5 \<lparr>rtp = 10000, rtcp = 10001\<rparr> (snd (allocate 5 (with_range_and_hold 10000 10003 30))) =
     \<lparr>range_start = 10000, range_end = 10003, allocated = {10000, 10001},
      quarantine = [(\<lparr>rtp = 10000, rtcp = 10001\<rparr>, 5)], hold = 30, cursor = 10002, forced = 0\<rparr>"
  by (simp add: allocate_def sweep_quarantine_def with_range_and_hold_def even_at_or_after_def
      release_def sat_add16_def u16_max_def alloc_scan.simps insert_commute)

theorem early_reuse_only_when_exhausted_witness:
  "\<exists>s s'. pa_reachable 10000 10003 30 (s, 5) \<and>
     allocate 9 s = (Inr \<lparr>rtp = 10000, rtcp = 10001\<rparr>, s') \<and> forced s' = forced s + 1"
proof -
  let ?s = "\<lparr>range_start = 10000, range_end = 10003, allocated = {10000, 10001},
      quarantine = [(\<lparr>rtp = 10000, rtcp = 10001\<rparr>, 5)], hold = 30, cursor = 10002, forced = 0\<rparr>"
  let ?s' = "?s\<lparr>quarantine := [], forced := 1\<rparr>"
  have r: "pa_reachable 10000 10003 30 (?s, 5)"
    using forced_reuse_run unfolding forced_reuse_state .
  have a: "allocate 9 ?s = (Inr \<lparr>rtp = 10000, rtcp = 10001\<rparr>, ?s')"
    by (simp add: allocate_def sweep_quarantine_def even_at_or_after_def sat_add16_def
        u16_max_def alloc_scan.simps)
  from early_reuse_only_when_exhausted [OF r _ _ a, of "\<lparr>rtp = 10000, rtcp = 10001\<rparr>" 5] r a
  show ?thesis by fastforce
qed

text \<open>With an even range start the reported number of available pairs is the number of pairs
  of the range that are neither in use nor in quarantine.\<close>

theorem available_count_exact:
  assumes "pa_reachable lo hi h (s, t)" and "even lo" and "lo \<le> hi"
  shows "available_count s = Some (card (pool s - rtps s))"
proof -
  from pa_reachable_inv [OF assms(1)]
  have inv: "pa_inv s" and b: "range_start s = lo" "range_end s = hi" by auto
  have "card (pool s - rtps s) = card (pool s) - card (rtps s)"
    using pa_invD(4) [OF inv] by (rule card_Diff_subset [OF pa_inv_finite [OF inv]])
  then show ?thesis
    using card_pool_even [of s] allocated_count_rtps [OF inv] b assms(2,3)
    by (simp add: available_count_def)
qed

theorem available_count_exact_witness:
  "pa_reachable 10000 20000 0 (new_port_allocator, 0) \<and>
   available_count new_port_allocator = Some (card (pool new_port_allocator - rtps new_port_allocator))"
proof -
  have r: "pa_reachable 10000 20000 0 (new_port_allocator, 0)"
    unfolding new_port_allocator_def with_range_def
    by (rule pa_init) (simp_all add: u16_max_def)
  from available_count_exact [OF r] r show ?thesis by simp
qed

text \<open>With an odd range start and an odd range end the reported number is one too high: the
  range 10001..10003 reports one available pair, and \<^verbatim>\<open>allocate\<close> on it always fails.\<close>

theorem available_count_overcounts_odd_range:
  "available_count (with_range 10001 10003) = Some 1 \<and>
   fst (allocate now (with_range 10001 10003)) = Inl (TransportErr ''No available ports in range'')"
  by (simp add: available_count_def allocated_count_def allocate_def sweep_quarantine_def
      with_range_def with_range_and_hold_def even_at_or_after_def sat_add16_def u16_max_def
      alloc_scan.simps)

end
