(* ===== verification/Media_Manager.thy ===== *)
theory Media_Manager
  imports Port_Allocator
begin

text \<open>
  \<^verbatim>\<open>crates/sbc-core/src/media/manager.rs\<close>: the table of media sessions and their port
  pairs. A session holds two pairs of the pool; the central invariant is that the pairs of the
  open sessions are exactly the pairs the allocator has handed out, so no error path leaks a
  port. The SDP rewriting of \<^verbatim>\<open>modify_sdp\<close> is an argument: every outcome it can have is
  covered. The relay task, the shared metric counters and the SRTP contexts are not part of this
  state; the per-call counters (\<^verbatim>\<open>CallMediaStats\<close>) are values of a type parameter.
\<close>

section \<open>Data\<close>

type_synonym sock_addr = "string \<times> nat"

record media_session =
  ms_session_id :: string
  ms_ports :: port_pair
  ms_ports_b :: "port_pair option"
  ms_endpoint_a :: "sock_addr option"
  ms_endpoint_b :: "sock_addr option"
  ms_sdp_caller :: "string option"
  ms_sdp_callee :: "string option"
  ms_ice_pwd_local :: "string option"
  ms_ice_pwd_local_b :: "string option"

record 'st media_manager =
  mm_allocator :: port_allocator
  mm_sessions :: "(string, media_session) hmap"
  mm_media_stats :: "(string, 'st) hmap"
  mm_ended_stats :: "(string, 'st \<times> instant) hmap"
  mm_rtp_timeout_secs :: nat
  mm_timed_out :: "string list"

record media_stats =
  active_sessions :: nat
  allocated_ports :: nat
  available_ports :: "nat option"
  quarantined_ports :: nat
  forced_reuse :: nat

definition MAX_ENDED_STATS :: nat where "MAX_ENDED_STATS = 256"

definition ENDED_STATS_TTL :: duration where "ENDED_STATS_TTL = secs 120"

section \<open>Operations\<close>

definition with_allocator :: "port_allocator \<Rightarrow> 'st media_manager" where
  "with_allocator pa =
     \<lparr>mm_allocator = pa, mm_sessions = [], mm_media_stats = [], mm_ended_stats = [],
      mm_rtp_timeout_secs = 90, mm_timed_out = []\<rparr>"

definition set_rtp_timeout :: "nat \<Rightarrow> 'st media_manager \<Rightarrow> 'st media_manager" where
  "set_rtp_timeout n m = m\<lparr>mm_rtp_timeout_secs := max n 1\<rparr>"

definition drain_timed_out :: "'st media_manager \<Rightarrow> string list \<times> 'st media_manager" where
  "drain_timed_out m = (mm_timed_out m, m\<lparr>mm_timed_out := []\<rparr>)"

definition mark_timed_out :: "string \<Rightarrow> 'st media_manager \<Rightarrow> 'st media_manager" where
  "mark_timed_out sid m = m\<lparr>mm_timed_out := mm_timed_out m @ [sid]\<rparr>"

definition sweep :: "instant \<Rightarrow> 'st media_manager \<Rightarrow> 'st media_manager" where
  "sweep now m =
     m\<lparr>mm_allocator := sweep_quarantine now (mm_allocator m),
       mm_ended_stats := hm_retain (\<lambda>_ (_, at). now - at < ENDED_STATS_TTL) (mm_ended_stats m)\<rparr>"

definition call_media_stats :: "string \<Rightarrow> 'st media_manager \<Rightarrow> 'st option" where
  "call_media_stats sid m =
     (case hm_get (mm_media_stats m) sid of
        Some st \<Rightarrow> Some st
      | None \<Rightarrow> map_option fst (hm_get (mm_ended_stats m) sid))"

definition forget_media_stats :: "string \<Rightarrow> 'st media_manager \<Rightarrow> 'st media_manager" where
  "forget_media_stats sid m = m\<lparr>mm_ended_stats := hm_remove sid (mm_ended_stats m)\<rparr>"

text \<open>\<open>modify_sdp\<close> is the rewriting function; \<open>port_allocator\<close> is threaded through the calls.\<close>

definition create_session ::
  "(string \<Rightarrow> nat \<Rightarrow> string result) \<Rightarrow> instant \<Rightarrow> string \<Rightarrow> string option \<Rightarrow>
   'st media_manager \<Rightarrow> media_session result \<times> 'st media_manager"
where
  "create_session modify_sdp now sid sdp m =
     (case allocate now (mm_allocator m) of
        (Inl e, pa) \<Rightarrow> (Inl e, m\<lparr>mm_allocator := pa\<rparr>)
      | (Inr ports, pa) \<Rightarrow>
          (case allocate now pa of
             (Inl e, pa') \<Rightarrow> (Inl e, m\<lparr>mm_allocator := release now ports pa'\<rparr>)
           | (Inr ports_b, pa') \<Rightarrow>
               (case (case sdp of None \<Rightarrow> Inr None
                      | Some sdp_str \<Rightarrow> map_sum id Some (modify_sdp sdp_str (rtp ports))) of
                  Inl e \<Rightarrow> (Inl e, m\<lparr>mm_allocator := release now ports_b (release now ports pa')\<rparr>)
                | Inr modified \<Rightarrow>
                    (let session = \<lparr>ms_session_id = sid, ms_ports = ports, ms_ports_b = Some ports_b,
                                    ms_endpoint_a = None, ms_endpoint_b = None,
                                    ms_sdp_caller = modified, ms_sdp_callee = None,
                                    ms_ice_pwd_local = None, ms_ice_pwd_local_b = None\<rparr>
                     in (Inr session,
                         m\<lparr>mm_allocator := pa', mm_sessions := hm_insert sid session (mm_sessions m)\<rparr>)))))"

definition not_found :: "string \<Rightarrow> sbc_error" where
  "not_found sid = DialogErr (''Media session not found: '' @ sid)"

definition update_callee_sdp ::
  "(string \<Rightarrow> nat \<Rightarrow> string result) \<Rightarrow> string \<Rightarrow> string \<Rightarrow> 'st media_manager \<Rightarrow>
   string result \<times> 'st media_manager"
where
  "update_callee_sdp modify_sdp sid sdp m =
     (case hm_get (mm_sessions m) sid of
        None \<Rightarrow> (Inl (not_found sid), m)
      | Some entry \<Rightarrow>
          (case modify_sdp sdp (rtp (ms_ports entry)) of
             Inl e \<Rightarrow> (Inl e, m)
           | Inr modified \<Rightarrow>
               (Inr modified,
                m\<lparr>mm_sessions := hm_modify sid (\<lambda>e. e\<lparr>ms_sdp_callee := Some modified\<rparr>) (mm_sessions m)\<rparr>)))"

definition set_callee_sdp :: "string \<Rightarrow> string \<Rightarrow> 'st media_manager \<Rightarrow> 'st media_manager" where
  "set_callee_sdp sid sdp m =
     m\<lparr>mm_sessions := hm_modify sid (\<lambda>e. e\<lparr>ms_sdp_callee := Some sdp\<rparr>) (mm_sessions m)\<rparr>"

definition set_ice_pwd_local :: "string \<Rightarrow> string \<Rightarrow> 'st media_manager \<Rightarrow> 'st media_manager" where
  "set_ice_pwd_local sid pwd m =
     m\<lparr>mm_sessions := hm_modify sid (\<lambda>e. e\<lparr>ms_ice_pwd_local := Some pwd\<rparr>) (mm_sessions m)\<rparr>"

definition set_ice_pwd_local_b :: "string \<Rightarrow> string \<Rightarrow> 'st media_manager \<Rightarrow> 'st media_manager" where
  "set_ice_pwd_local_b sid pwd m =
     m\<lparr>mm_sessions := hm_modify sid (\<lambda>e. e\<lparr>ms_ice_pwd_local_b := Some pwd\<rparr>) (mm_sessions m)\<rparr>"

definition set_endpoint_a ::
  "string \<Rightarrow> sock_addr \<Rightarrow> 'st media_manager \<Rightarrow> unit result \<times> 'st media_manager"
where
  "set_endpoint_a sid addr m =
     (case hm_get (mm_sessions m) sid of
        None \<Rightarrow> (Inl (not_found sid), m)
      | Some _ \<Rightarrow>
          (Inr (), m\<lparr>mm_sessions := hm_modify sid (\<lambda>e. e\<lparr>ms_endpoint_a := Some addr\<rparr>) (mm_sessions m)\<rparr>))"

definition set_endpoint_b ::
  "string \<Rightarrow> sock_addr \<Rightarrow> 'st media_manager \<Rightarrow> unit result \<times> 'st media_manager"
where
  "set_endpoint_b sid addr m =
     (case hm_get (mm_sessions m) sid of
        None \<Rightarrow> (Inl (not_found sid), m)
      | Some _ \<Rightarrow>
          (Inr (), m\<lparr>mm_sessions := hm_modify sid (\<lambda>e. e\<lparr>ms_endpoint_b := Some addr\<rparr>) (mm_sessions m)\<rparr>))"

definition get_session :: "string \<Rightarrow> 'st media_manager \<Rightarrow> media_session option" where
  "get_session sid m = hm_get (mm_sessions m) sid"

text \<open>The counters of a released session are kept for its CDR.\<close>

definition retire_stats :: "instant \<Rightarrow> string \<Rightarrow> 'st media_manager \<Rightarrow> 'st media_manager" where
  "retire_stats now sid m =
     (case hm_get (mm_media_stats m) sid of
        None \<Rightarrow> m
      | Some st \<Rightarrow>
          (let ended = hm_insert sid (st, now) (mm_ended_stats m)
           in m\<lparr>mm_media_stats := hm_remove sid (mm_media_stats m),
                mm_ended_stats :=
                  (if MAX_ENDED_STATS < length ended
                   then hm_retain (\<lambda>_ (_, at). now - at < ENDED_STATS_TTL) ended else ended)\<rparr>))"

definition terminate_session ::
  "instant \<Rightarrow> string \<Rightarrow> 'st media_manager \<Rightarrow> unit result \<times> 'st media_manager"
where
  "terminate_session now sid m =
     (case hm_get (mm_sessions m) sid of
        None \<Rightarrow> (Inl (not_found sid), m)
      | Some session \<Rightarrow>
          (let m1 = retire_stats now sid (m\<lparr>mm_sessions := hm_remove sid (mm_sessions m)\<rparr>);
               pa1 = release now (ms_ports session) (mm_allocator m1);
               pa2 = (case ms_ports_b session of
                        None \<Rightarrow> pa1
                      | Some pb \<Rightarrow> if rtp pb \<noteq> rtp (ms_ports session) then release now pb pa1 else pa1)
           in (Inr (), m1\<lparr>mm_allocator := pa2\<rparr>)))"

definition media_stats_of :: "instant \<Rightarrow> 'st media_manager \<Rightarrow> media_stats \<times> 'st media_manager" where
  "media_stats_of now m =
     (let (q, pa) = quarantined_count now (mm_allocator m)
      in (\<lparr>active_sessions = length (mm_sessions m),
           allocated_ports = allocated_count (mm_allocator m),
           available_ports = available_count (mm_allocator m),
           quarantined_ports = q,
           forced_reuse = forced_reuse_count pa\<rparr>,
          m\<lparr>mm_allocator := pa\<rparr>))"

definition cleanup_all :: "'st media_manager \<Rightarrow> nat \<times> 'st media_manager" where
  "cleanup_all m =
     (length (mm_sessions m), m\<lparr>mm_sessions := [], mm_allocator := clear (mm_allocator m)\<rparr>)"

section \<open>Port accounting\<close>

text \<open>The RTP ports a session holds, and the invariant that ties sessions to the pool.\<close>

definition session_rtps :: "media_session \<Rightarrow> nat set" where
  "session_rtps e = insert (rtp (ms_ports e)) (rtp ` set_option (ms_ports_b e))"

definition session_wf :: "media_session \<Rightarrow> bool" where
  "session_wf e \<longleftrightarrow> port_pair_is_valid (ms_ports e) \<and>
     (\<exists>b. ms_ports_b e = Some b \<and> port_pair_is_valid b \<and> rtp b \<noteq> rtp (ms_ports e))"

definition table_rtps :: "(string, media_session) hmap \<Rightarrow> nat set" where
  "table_rtps tab = (\<Union>(sid, e) \<in> set tab. session_rtps e)"

definition table_ok :: "(string, media_session) hmap \<Rightarrow> bool" where
  "table_ok tab \<longleftrightarrow> hm_ok tab \<and>
     (\<forall>sid e. hm_get tab sid = Some e \<longrightarrow> session_wf e) \<and>
     (\<forall>sid e sid' e'. hm_get tab sid = Some e \<and> hm_get tab sid' = Some e' \<and> sid \<noteq> sid' \<longrightarrow>
        session_rtps e \<inter> session_rtps e' = {})"

definition mm_inv :: "'st media_manager \<Rightarrow> bool" where
  "mm_inv m \<longleftrightarrow> pa_inv (mm_allocator m) \<and> table_ok (mm_sessions m) \<and>
     live (mm_allocator m) = table_rtps (mm_sessions m)"

lemma table_okD:
  assumes "table_ok tab"
  shows "hm_ok tab" and "hm_get tab sid = Some e \<Longrightarrow> session_wf e"
    and "hm_get tab sid = Some e \<Longrightarrow> hm_get tab sid' = Some e' \<Longrightarrow> sid \<noteq> sid' \<Longrightarrow>
      session_rtps e \<inter> session_rtps e' = {}"
  using assms unfolding table_ok_def by blast+

lemma table_okI:
  assumes "hm_ok tab" and "\<And>sid e. hm_get tab sid = Some e \<Longrightarrow> session_wf e"
    and "\<And>sid e sid' e'. hm_get tab sid = Some e \<Longrightarrow> hm_get tab sid' = Some e' \<Longrightarrow> sid \<noteq> sid' \<Longrightarrow>
      session_rtps e \<inter> session_rtps e' = {}"
  shows "table_ok tab"
  using assms unfolding table_ok_def by blast

lemma table_rtps_iff:
  "hm_ok tab \<Longrightarrow> x \<in> table_rtps tab \<longleftrightarrow> (\<exists>sid e. hm_get tab sid = Some e \<and> x \<in> session_rtps e)"
  unfolding table_rtps_def using hm_get_in_set [of tab] by blast

lemma session_in_table: "hm_ok tab \<Longrightarrow> hm_get tab sid = Some e \<Longrightarrow> session_rtps e \<subseteq> table_rtps tab"
  using table_rtps_iff by blast

lemma table_insert:
  assumes ok: "table_ok tab" and fresh: "hm_get tab sid = None" and wf: "session_wf e"
    and d: "session_rtps e \<inter> table_rtps tab = {}"
  shows "table_ok (hm_insert sid e tab)"
    and "table_rtps (hm_insert sid e tab) = session_rtps e \<union> table_rtps tab"
proof -
  have get: "hm_get (hm_insert sid e tab) k = (if k = sid then Some e else hm_get tab k)" for k
    by (rule hm_get_insert)
  have sep: "session_rtps e \<inter> session_rtps e' = {}" if "hm_get tab sid' = Some e'" for sid' e'
    using d session_in_table [OF table_okD(1) [OF ok] that] by blast
  show "table_ok (hm_insert sid e tab)"
  proof (rule table_okI)
    fix a x b y assume "hm_get (hm_insert sid e tab) a = Some x" "hm_get (hm_insert sid e tab) b = Some y"
      and "a \<noteq> b"
    then show "session_rtps x \<inter> session_rtps y = {}"
      unfolding get using sep table_okD(3) [OF ok] by (metis inf_commute option.inject)
  next
    fix a x assume "hm_get (hm_insert sid e tab) a = Some x"
    then show "session_wf x" unfolding get using wf table_okD(2) [OF ok] by (metis option.inject)
  qed (simp add: table_okD(1) [OF ok])
  have i: "hm_ok (hm_insert sid e tab)" using table_okD(1) [OF ok] by simp
  show "table_rtps (hm_insert sid e tab) = session_rtps e \<union> table_rtps tab"
  proof (rule set_eqI)
    fix x
    show "x \<in> table_rtps (hm_insert sid e tab) \<longleftrightarrow> x \<in> session_rtps e \<union> table_rtps tab"
      unfolding Un_iff table_rtps_iff [OF i] table_rtps_iff [OF table_okD(1) [OF ok]] get
      using fresh by (metis option.distinct(1) option.inject)
  qed
qed

lemma table_remove:
  assumes ok: "table_ok tab" and e: "hm_get tab sid = Some e"
  shows "table_ok (hm_remove sid tab)"
    and "table_rtps (hm_remove sid tab) = table_rtps tab - session_rtps e"
proof -
  have get: "hm_get (hm_remove sid tab) k = (if k = sid then None else hm_get tab k)" for k
    by (rule hm_get_remove)
  show "table_ok (hm_remove sid tab)"
    using table_okD [OF ok] unfolding table_ok_def get by (simp del: not_None_eq) metis
  have r: "hm_ok (hm_remove sid tab)" using table_okD(1) [OF ok] by simp
  show "table_rtps (hm_remove sid tab) = table_rtps tab - session_rtps e"
  proof (rule set_eqI)
    fix x
    show "x \<in> table_rtps (hm_remove sid tab) \<longleftrightarrow> x \<in> table_rtps tab - session_rtps e"
      unfolding table_rtps_iff [OF r] Diff_iff table_rtps_iff [OF table_okD(1) [OF ok]] get
      using table_okD(3) [OF ok e] e by (metis disjoint_iff option.distinct(1) option.inject)
  qed
qed

lemma table_modify:
  assumes ok: "table_ok tab" and f: "\<And>e. ms_ports (f e) = ms_ports e \<and> ms_ports_b (f e) = ms_ports_b e"
  shows "table_ok (hm_modify sid f tab)" and "table_rtps (hm_modify sid f tab) = table_rtps tab"
proof -
  have eq: "session_rtps (f e) = session_rtps e" "session_wf (f e) = session_wf e" for e
    by (simp_all add: session_rtps_def session_wf_def f)
  have get: "hm_get (hm_modify sid f tab) k = Some x \<longleftrightarrow>
      (\<exists>y. hm_get tab k = Some y \<and> x = (if k = sid then f y else y))" for k x
    unfolding hm_get_modify by (cases "hm_get tab k") auto
  have rt: "session_rtps (if c then f y else y) = session_rtps y"
    "session_wf (if c then f y else y) = session_wf y" for c y by (simp_all add: eq)
  show "table_ok (hm_modify sid f tab)"
  proof (rule table_okI)
    show "hm_ok (hm_modify sid f tab)" using table_okD(1) [OF ok] by simp
    show "session_wf x" if x: "hm_get (hm_modify sid f tab) k = Some x" for k x
    proof -
      from x obtain y where "hm_get tab k = Some y" "x = (if k = sid then f y else y)"
        unfolding get by blast
      then show ?thesis using table_okD(2) [OF ok] rt(2) by presburger
    qed
    show "session_rtps x \<inter> session_rtps x' = {}"
      if x: "hm_get (hm_modify sid f tab) k = Some x" "hm_get (hm_modify sid f tab) k' = Some x'"
        and "k \<noteq> k'" for k x k' x'
    proof -
      from x obtain y y' where "hm_get tab k = Some y" "x = (if k = sid then f y else y)"
        "hm_get tab k' = Some y'" "x' = (if k' = sid then f y' else y')"
        unfolding get by blast
      then show ?thesis using table_okD(3) [OF ok _ _ \<open>k \<noteq> k'\<close>] rt(1) by presburger
    qed
  qed
  have m: "hm_ok (hm_modify sid f tab)" using table_okD(1) [OF ok] by simp
  show "table_rtps (hm_modify sid f tab) = table_rtps tab"
    by (rule set_eqI) (unfold table_rtps_iff [OF m] table_rtps_iff [OF table_okD(1) [OF ok]] get, metis rt(1))
qed

lemma mm_inv_modify:
  "mm_inv m \<Longrightarrow> (\<And>e. ms_ports (f e) = ms_ports e \<and> ms_ports_b (f e) = ms_ports_b e) \<Longrightarrow>
     mm_inv (m\<lparr>mm_sessions := hm_modify sid f (mm_sessions m)\<rparr>)"
  by (simp add: mm_inv_def table_modify)

lemma mm_inv_setters:
  assumes "mm_inv m"
  shows "mm_inv (set_callee_sdp sid sdp m)" and "mm_inv (set_ice_pwd_local sid pwd m)"
    and "mm_inv (set_ice_pwd_local_b sid pwd m)"
    and "mm_inv (snd (set_endpoint_a sid addr m))" and "mm_inv (snd (set_endpoint_b sid addr m))"
    and "mm_inv (snd (update_callee_sdp modify_sdp sid sdp m))"
  using assms
  by (auto simp: set_callee_sdp_def set_ice_pwd_local_def set_ice_pwd_local_b_def
      set_endpoint_a_def set_endpoint_b_def update_callee_sdp_def
      intro!: mm_inv_modify split: option.splits sum.splits)

lemma mm_inv_allocator:
  "mm_inv m \<Longrightarrow> pa_inv pa \<Longrightarrow> live pa = live (mm_allocator m) \<Longrightarrow> mm_inv (m\<lparr>mm_allocator := pa\<rparr>)"
  by (simp add: mm_inv_def)

lemma mm_inv_insert:
  assumes "mm_inv m" and "hm_get (mm_sessions m) sid = None" and "session_wf e" and "pa_inv pa"
    and "live pa = session_rtps e \<union> live (mm_allocator m)"
    and "session_rtps e \<inter> live (mm_allocator m) = {}"
  shows "mm_inv (m\<lparr>mm_allocator := pa, mm_sessions := hm_insert sid e (mm_sessions m)\<rparr>)"
  using assms table_insert [of "mm_sessions m" sid e] by (simp add: mm_inv_def)

lemma retire_stats_frame [simp]:
  "mm_allocator (retire_stats now sid m) = mm_allocator m"
  "mm_sessions (retire_stats now sid m) = mm_sessions m"
  by (auto simp: retire_stats_def Let_def split: option.splits)

lemma release_pair_of_session:
  assumes "pa_inv pa" and "session_wf e" and "session_rtps e \<subseteq> live pa"
    and "ms_ports_b e = Some b"
  shows "pa_inv (release t b (release t (ms_ports e) pa)) \<and>
    live (release t b (release t (ms_ports e) pa)) = live pa - session_rtps e"
proof -
  from assms have w: "port_pair_is_valid (ms_ports e)" "port_pair_is_valid b"
    "rtp b \<noteq> rtp (ms_ports e)" and s: "rtp (ms_ports e) \<in> live pa" "rtp b \<in> live pa"
    by (auto simp: session_wf_def session_rtps_def)
  note A = rtp_pool.free_held [OF assms(1) w(1) s(1), of t]
  with w s rtp_pool.free_held [of "release t (ms_ports e) pa" b t] show ?thesis
    by (auto simp: session_rtps_def assms(4))
qed

lemma terminate_session_Some:
  assumes inv: "mm_inv m" and e: "hm_get (mm_sessions m) sid = Some e"
    and tm: "terminate_session now sid m = (r, m')"
  shows "r = Inr () \<and> mm_inv m' \<and> mm_sessions m' = hm_remove sid (mm_sessions m) \<and>
    live (mm_allocator m') = live (mm_allocator m) - session_rtps e"
proof -
  from inv have pa: "pa_inv (mm_allocator m)" and ok: "table_ok (mm_sessions m)"
    and lv: "live (mm_allocator m) = table_rtps (mm_sessions m)"
    by (auto simp: mm_inv_def)
  from table_okD(2) [OF ok e] have wf: "session_wf e" .
  then obtain b where b: "ms_ports_b e = Some b" "rtp b \<noteq> rtp (ms_ports e)"
    by (auto simp: session_wf_def)
  have sub: "session_rtps e \<subseteq> live (mm_allocator m)"
    unfolding lv by (rule session_in_table [OF table_okD(1) [OF ok] e])
  note R = release_pair_of_session [OF pa wf sub b(1), of now]
  have m': "r = Inr ()" "mm_sessions m' = hm_remove sid (mm_sessions m)"
    "mm_allocator m' = release now b (release now (ms_ports e) (mm_allocator m))"
    using tm e b by (auto simp: terminate_session_def Let_def)
  with R table_remove [OF ok e] lv show ?thesis by (simp add: mm_inv_def)
qed

section \<open>Properties\<close>

lemma create_session_spec:
  assumes inv: "mm_inv m" and fresh: "hm_get (mm_sessions m) sid = None"
    and c: "create_session modify_sdp now sid sdp m = (r, m')"
  shows "mm_inv m' \<and>
    (case r of
       Inl e \<Rightarrow> mm_sessions m' = mm_sessions m \<and> live (mm_allocator m') = live (mm_allocator m)
     | Inr s \<Rightarrow> get_session sid m' = Some s \<and> session_rtps s \<inter> live (mm_allocator m) = {} \<and>
         (\<exists>b. ms_ports_b s = Some b \<and>
            distinct [rtp (ms_ports s), rtcp (ms_ports s), rtp b, rtcp b]))"
proof -
  from inv have pa: "pa_inv (mm_allocator m)" by (simp add: mm_inv_def)
  obtain r1 pa1 where a1: "allocate now (mm_allocator m) = (r1, pa1)"
    by (cases "allocate now (mm_allocator m)")
  show ?thesis
  proof (cases r1)
    case (Inl e)
    with rtp_pool.alloc_err [OF pa a1 [unfolded Inl]] c a1 inv show ?thesis
      by (auto simp: create_session_def intro: mm_inv_allocator)
  next
    case r1: (Inr a)
    obtain r2 pa2 where a2: "allocate now pa1 = (r2, pa2)" by (cases "allocate now pa1")
    show ?thesis
    proof (cases r2)
      case (Inl e)
      with rtp_pool.second_leg_rollback [OF pa a1 [unfolded r1] a2 [unfolded Inl], of now]
        c a1 a2 r1 inv show ?thesis
        by (auto simp: create_session_def intro: mm_inv_allocator)
    next
      case r2: (Inr b)
      note two = rtp_pool.two_legs_disjoint [OF pa a1 [unfolded r1] a2 [unfolded r2]]
      let ?s = "\<lambda>x. \<lparr>ms_session_id = sid, ms_ports = a, ms_ports_b = Some b,
          ms_endpoint_a = None, ms_endpoint_b = None, ms_sdp_caller = x, ms_sdp_callee = None,
          ms_ice_pwd_local = None, ms_ice_pwd_local_b = None\<rparr>"
      have rt: "session_rtps (?s x) = {rtp a, rtp b}" and wf: "session_wf (?s x)" for x
        using two by (auto simp: session_rtps_def session_wf_def)
      have undo: "pa_inv (release now b (release now a pa2)) \<and>
          live (release now b (release now a pa2)) = live (mm_allocator m)"
        using release_pair_of_session [of pa2 "?s None" b now] two rt [of None] wf [of None] by auto
      have ins: "mm_inv (m\<lparr>mm_allocator := pa2, mm_sessions := hm_insert sid (?s x) (mm_sessions m)\<rparr>)" for x
        using mm_inv_insert [OF inv fresh wf] two rt by auto
      have dist: "distinct [rtp a, rtcp a, rtp b, rtcp b]"
        using two by (auto simp: port_pair_is_valid_def)
      show ?thesis
        using c a1 a2 r1 r2 undo inv ins two rt dist
        by (auto simp: create_session_def Let_def get_session_def hm_get_insert
            intro: mm_inv_allocator split: option.splits sum.splits)
    qed
  qed
qed

lemma create_session_table:
  assumes "create_session modify_sdp now sid sdp m = (Inr s, m')"
  shows "ms_session_id s = sid" "mm_sessions m' = hm_insert sid s (mm_sessions m)"
  using assms by (auto simp: create_session_def Let_def split: prod.splits sum.splits option.splits)

section \<open>The contract with the call table\<close>

text \<open>
  What the owner of sessions may rely on: a session is opened under the id that was asked for or
  not at all, closing a session removes it and nothing else, and closing one that is gone does
  nothing. The owner can then keep the open sessions within the set of its own calls.
\<close>

locale media_sessions =
  fixes inv :: "'m \<Rightarrow> bool" and sids :: "'m \<Rightarrow> string set"
    and create :: "string \<Rightarrow> 'm \<Rightarrow> string option \<times> 'm" and close :: "string \<Rightarrow> 'm \<Rightarrow> 'm"
  assumes create_inv: "inv m \<Longrightarrow> sid \<notin> sids m \<Longrightarrow> create sid m = (r, m') \<Longrightarrow> inv m'"
    and create_some: "inv m \<Longrightarrow> sid \<notin> sids m \<Longrightarrow> create sid m = (Some i, m') \<Longrightarrow>
      i = sid \<and> sids m' = insert sid (sids m)"
    and create_none: "inv m \<Longrightarrow> sid \<notin> sids m \<Longrightarrow> create sid m = (None, m') \<Longrightarrow> sids m' = sids m"
    and close_inv: "inv m \<Longrightarrow> inv (close sid m)"
    and close_sids: "inv m \<Longrightarrow> sids (close sid m) = sids m - {sid}"
begin

lemma opened_within:
  assumes "inv m" "sids m \<subseteq> A" "sid \<notin> A" "create sid m = (r, m')"
  shows "inv m' \<and> (case r of None \<Rightarrow> sids m' \<subseteq> A | Some i \<Rightarrow> i = sid \<and> sids m' \<subseteq> insert sid A)"
proof -
  have new: "sid \<notin> sids m" using assms(2,3) by blast
  show ?thesis
    using create_inv [OF assms(1) new assms(4)] create_some [OF assms(1) new] create_none [OF assms(1) new] assms
    by (cases r) auto
qed

lemma closed_within: "inv m \<Longrightarrow> sids m \<subseteq> A \<Longrightarrow> inv (close sid m) \<and> sids (close sid m) \<subseteq> A - {sid}"
  using close_inv close_sids by fast

lemma close_again: "inv m \<Longrightarrow> sids (close sid (close sid m)) = sids (close sid m)"
  using close_inv close_sids by simp

end

definition open_sessions :: "'st media_manager \<Rightarrow> string set" where
  "open_sessions m = dom (hm_get (mm_sessions m))"

definition open_session ::
  "(string \<Rightarrow> nat \<Rightarrow> string result) \<Rightarrow> instant \<Rightarrow> string option \<Rightarrow> string \<Rightarrow> 'st media_manager \<Rightarrow>
   string option \<times> 'st media_manager"
where
  "open_session modify_sdp now sdp sid m =
     (case create_session modify_sdp now sid sdp m of
        (Inl _, m') \<Rightarrow> (None, m') | (Inr s, m') \<Rightarrow> (Some (ms_session_id s), m'))"

definition close_session :: "instant \<Rightarrow> string \<Rightarrow> 'st media_manager \<Rightarrow> 'st media_manager" where
  "close_session now sid m = snd (terminate_session now sid m)"

lemma close_session_spec:
  assumes "mm_inv m"
  shows "mm_inv (close_session now sid m)" "open_sessions (close_session now sid m) = open_sessions m - {sid}"
proof -
  have "mm_inv (close_session now sid m) \<and> open_sessions (close_session now sid m) = open_sessions m - {sid}"
  proof (cases "hm_get (mm_sessions m) sid")
    case None
    then show ?thesis
      using assms by (auto simp: close_session_def terminate_session_def open_sessions_def)
  next
    case (Some e)
    from terminate_session_Some [OF assms Some surjective_pairing] show ?thesis
      by (auto simp: close_session_def open_sessions_def hm_get_remove split: if_splits)
  qed
  then show "mm_inv (close_session now sid m)" "open_sessions (close_session now sid m) = open_sessions m - {sid}"
    by simp_all
qed

interpretation call_media: media_sessions mm_inv open_sessions "open_session modify_sdp now sdp" "close_session now"
  for modify_sdp now sdp
proof
  fix m m' :: "'a media_manager" and sid r i
  assume inv: "mm_inv m" and new: "sid \<notin> open_sessions m"
  have fresh: "hm_get (mm_sessions m) sid = None" using new by (auto simp: open_sessions_def)
  note spec = create_session_spec [OF inv fresh surjective_pairing, of modify_sdp now sdp]
  show "open_session modify_sdp now sdp sid m = (r, m') \<Longrightarrow> mm_inv m'"
    using spec by (auto simp: open_session_def split: prod.splits sum.splits)
  show "open_session modify_sdp now sdp sid m = (Some i, m') \<Longrightarrow> i = sid \<and> open_sessions m' = insert sid (open_sessions m)"
    using create_session_table [of modify_sdp now sid sdp m]
    by (auto simp: open_session_def open_sessions_def hm_get_insert split: prod.splits sum.splits if_splits)
  show "open_session modify_sdp now sdp sid m = (None, m') \<Longrightarrow> open_sessions m' = open_sessions m"
    using spec by (auto simp: open_session_def open_sessions_def split: prod.splits sum.splits)
qed (simp_all add: close_session_spec)

text \<open>A session is created atomically. On success the session table gains the session under
  its id, the four ports of its two legs are distinct and were in nobody's hands; on every error
  path (no first pair, no second pair, SDP refused) the pairs already taken are given back and the
  sessions are unchanged. Ports held and ports of open sessions stay the same set throughout.
  The session id is the call's UUID, so it is not yet in the table.\<close>

theorem create_session_accounting:
  assumes inv: "mm_inv m" and fresh: "hm_get (mm_sessions m) sid = None"
    and c: "create_session modify_sdp now sid sdp m = (r, m')"
  shows "mm_inv m' \<and>
    (case r of
       Inl e \<Rightarrow> mm_sessions m' = mm_sessions m \<and> live (mm_allocator m') = live (mm_allocator m)
     | Inr s \<Rightarrow> get_session sid m' = Some s \<and> session_rtps s \<inter> live (mm_allocator m) = {} \<and>
         (\<exists>b. ms_ports_b s = Some b \<and>
            distinct [rtp (ms_ports s), rtcp (ms_ports s), rtp b, rtcp b]))"
  using create_session_spec [OF assms] .

lemma fresh_manager_inv:
  "lo \<le> u16_max \<Longrightarrow> hi \<le> u16_max \<Longrightarrow> mm_inv (with_allocator (with_range_and_hold lo hi h))"
  using pa_reachable_inv [OF pa_init [of lo hi h 0]]
  by (simp add: mm_inv_def table_ok_def table_rtps_def with_allocator_def live_def rtps_def
      waiting_def with_range_and_hold_def)

theorem create_session_accounting_witness:
  "mm_inv (snd (create_session (\<lambda>s p. Inl (MediaErr ''bad sdp'')) 0 ''u1'' (Some ''v=0'')
     (with_allocator (with_range_and_hold 10000 10004 0) :: unit media_manager)))"
proof -
  let ?m = "with_allocator (with_range_and_hold 10000 10004 0) :: unit media_manager"
  have i: "mm_inv ?m" by (rule fresh_manager_inv) (simp_all add: u16_max_def)
  have f: "hm_get (mm_sessions ?m) ''u1'' = None" by (simp add: with_allocator_def)
  show ?thesis by (rule create_session_accounting [OF i f surjective_pairing, THEN conjunct1])
qed

text \<open>Ending a session always succeeds for a session of the table, removes it, gives back
  exactly its two pairs and keeps the accounting invariant.\<close>

theorem terminate_session_releases_ports:
  assumes "mm_inv m" and "get_session sid m = Some s" and "terminate_session now sid m = (r, m')"
  shows "r = Inr () \<and> mm_inv m' \<and> get_session sid m' = None \<and>
    live (mm_allocator m') = live (mm_allocator m) - session_rtps s"
  using terminate_session_Some [OF assms(1) _ assms(3)] assms(2)
  by (simp add: get_session_def hm_get_remove)

theorem terminate_session_releases_ports_witness:
  "\<exists>m :: unit media_manager. \<exists>s m'. get_session ''u1'' m = Some s \<and> get_session ''u1'' m' = None \<and>
     mm_inv m' \<and> terminate_session 9 ''u1'' m = (Inr (), m')"
proof -
  let ?m0 = "with_allocator (with_range_and_hold 10000 10010 0) :: unit media_manager"
  let ?c = "create_session (\<lambda>s p. Inr s) 0 ''u1'' None ?m0"
  have i0: "mm_inv ?m0" by (rule fresh_manager_inv) (simp_all add: u16_max_def)
  have ok: "is_ok (fst ?c)"
    by (simp add: create_session_def with_allocator_def with_range_and_hold_def allocate_def
        sweep_quarantine_def even_at_or_after_def sat_add16_def u16_max_def alloc_scan.simps Let_def)
  obtain s where s: "fst ?c = Inr s" using ok by (cases "fst ?c") auto
  have "mm_inv (snd ?c) \<and> get_session ''u1'' (snd ?c) = Some s"
    using create_session_accounting [OF i0, of "''u1''" "\<lambda>s p. Inr s" 0 None "fst ?c" "snd ?c"] s
    by (auto simp: with_allocator_def)
  then have i: "mm_inv (snd ?c)" and g: "get_session ''u1'' (snd ?c) = Some s" by auto
  obtain r m' where t: "terminate_session 9 ''u1'' (snd ?c) = (r, m')"
    by (cases "terminate_session 9 ''u1'' (snd ?c)")
  from terminate_session_releases_ports [OF i g t] t g show ?thesis by blast
qed

text \<open>With the ports of a fresh pool, the pair of leg B starts at the port of leg A plus two:
  the very port \<^verbatim>\<open>modify_sdp\<close> announces for the video stream of a session.\<close>

theorem video_port_collides_with_leg_b:
  "\<exists>s b. fst (create_session modify_sdp now sid None
      (with_allocator (with_range 10000 20000) :: unit media_manager)) = Inr s \<and>
    ms_ports_b s = Some b \<and> rtp b = rtp (ms_ports s) + 2"
  by (simp add: create_session_def with_allocator_def with_range_def with_range_and_hold_def
      allocate_def sweep_quarantine_def even_at_or_after_def sat_add16_def u16_max_def
      alloc_scan.simps Let_def)

end
