(* ===== verification/Text.thy ===== *)
theory Text
  imports Prelude
begin

text \<open>
  The methods of \<^verbatim>\<open>str\<close> and of iterators that the sources call, on byte strings: trimming,
  splitting, prefixes, ASCII case, and the first minimum or last maximum of a sequence.
\<close>

section \<open>Characters\<close>

definition is_ascii_digit :: "char \<Rightarrow> bool" where
  "is_ascii_digit c \<longleftrightarrow> 48 \<le> (of_char c :: nat) \<and> (of_char c :: nat) \<le> 57"

definition is_space :: "char \<Rightarrow> bool" where
  "is_space c \<longleftrightarrow> (of_char c :: nat) = 32 \<or> (9 \<le> (of_char c :: nat) \<and> (of_char c :: nat) \<le> 13)"

definition lower_char :: "char \<Rightarrow> char" where
  "lower_char c =
     (if 65 \<le> (of_char c :: nat) \<and> (of_char c :: nat) \<le> 90 then char_of ((of_char c :: nat) + 32) else c)"

definition upper_char :: "char \<Rightarrow> char" where
  "upper_char c =
     (if 97 \<le> (of_char c :: nat) \<and> (of_char c :: nat) \<le> 122 then char_of ((of_char c :: nat) - 32) else c)"

definition to_ascii_lowercase :: "string \<Rightarrow> string" where
  "to_ascii_lowercase = map lower_char"

definition to_ascii_uppercase :: "string \<Rightarrow> string" where
  "to_ascii_uppercase = map upper_char"

definition eq_ignore_ascii_case :: "string \<Rightarrow> string \<Rightarrow> bool" where
  "eq_ignore_ascii_case a b \<longleftrightarrow> to_ascii_lowercase a = to_ascii_lowercase b"

lemma eq_ignore_ascii_case_refl [simp]: "eq_ignore_ascii_case a a"
  by (simp add: eq_ignore_ascii_case_def)

section \<open>Prefixes, trimming, splitting\<close>

fun strip_prefix :: "string \<Rightarrow> string \<Rightarrow> string option" where
  "strip_prefix [] s = Some s"
| "strip_prefix (p # ps) [] = None"
| "strip_prefix (p # ps) (c # cs) = (if p = c then strip_prefix ps cs else None)"

definition starts_with :: "string \<Rightarrow> string \<Rightarrow> bool" where
  "starts_with s p \<longleftrightarrow> strip_prefix p s \<noteq> None"

definition ends_with :: "string \<Rightarrow> string \<Rightarrow> bool" where
  "ends_with s p \<longleftrightarrow> starts_with (rev s) (rev p)"

lemma strip_prefix_Some [simp]: "strip_prefix p s = Some r \<longleftrightarrow> s = p @ r"
  by (induction p s rule: strip_prefix.induct) auto

lemma strip_prefix_append [simp]: "strip_prefix p (p @ r) = Some r"
  by (induction p) auto

lemma starts_with_iff: "starts_with s p \<longleftrightarrow> (\<exists>r. s = p @ r)"
  by (cases "strip_prefix p s") (auto simp: starts_with_def)

lemma starts_with_append [simp]: "starts_with (p @ r) p"
  by (auto simp: starts_with_iff)

lemma strip_prefix_None: "strip_prefix p s = None \<longleftrightarrow> \<not> starts_with s p"
  unfolding starts_with_def by blast

definition trim_start :: "string \<Rightarrow> string" where
  "trim_start = dropWhile is_space"

definition trim_end :: "string \<Rightarrow> string" where
  "trim_end s = rev (dropWhile is_space (rev s))"

definition trim :: "string \<Rightarrow> string" where
  "trim s = trim_end (trim_start s)"

fun split_on :: "char \<Rightarrow> string \<Rightarrow> string list" where
  "split_on d [] = [[]]"
| "split_on d (c # cs) =
     (if c = d then [] # split_on d cs
      else case split_on d cs of [] \<Rightarrow> [[c]] | w # ws \<Rightarrow> (c # w) # ws)"

lemma split_on_ne [simp]: "split_on d s \<noteq> []"
  by (induction s) (auto split: list.splits)

lemma split_on_append: "split_on d (a @ d # b) = split_on d a @ split_on d b"
  by (induction a) (auto split: list.splits simp: append_eq_Cons_conv)

lemma split_on_word: "d \<notin> set a \<Longrightarrow> split_on d a = [a]"
  by (induction a) auto

text \<open>\<^verbatim>\<open>split_once(c)\<close>: before and after the first occurrence.\<close>

fun split_once :: "char \<Rightarrow> string \<Rightarrow> (string \<times> string) option" where
  "split_once d [] = None"
| "split_once d (c # cs) =
     (if c = d then Some ([], cs)
      else map_option (\<lambda>(a, b). (c # a, b)) (split_once d cs))"

text \<open>\<^verbatim>\<open>trim_matches(c)\<close>\<close>

definition trim_matches :: "char \<Rightarrow> string \<Rightarrow> string" where
  "trim_matches c s = rev (dropWhile (\<lambda>x. x = c) (rev (dropWhile (\<lambda>x. x = c) s)))"

abbreviation dquote :: char where "dquote \<equiv> CHR 0x22"

text \<open>\<^verbatim>\<open>trim_end_matches(c)\<close>, \<^verbatim>\<open>find(c)\<close>, \<^verbatim>\<open>rfind(c)\<close> and \<^verbatim>\<open>rsplit_once(c)\<close> for one character.\<close>

definition trim_end_matches :: "char \<Rightarrow> string \<Rightarrow> string" where
  "trim_end_matches c s = rev (dropWhile (\<lambda>x. x = c) (rev s))"

definition find_char :: "char \<Rightarrow> string \<Rightarrow> nat option" where
  "find_char c s = (if c \<in> set s then Some (length (takeWhile (\<lambda>x. x \<noteq> c) s)) else None)"

definition rfind_char :: "char \<Rightarrow> string \<Rightarrow> nat option" where
  "rfind_char c s = map_option (\<lambda>n. length s - 1 - n) (find_char c (rev s))"

definition rsplit_once :: "char \<Rightarrow> string \<Rightarrow> (string \<times> string) option" where
  "rsplit_once c s = map_option (\<lambda>(b, a). (rev a, rev b)) (split_once c (rev s))"

text \<open>The slice \<^verbatim>\<open>s[a..b]\<close>.\<close>

definition str_slice :: "nat \<Rightarrow> nat \<Rightarrow> string \<Rightarrow> string" where
  "str_slice a b s = take (b - a) (drop a s)"

text \<open>\<^verbatim>\<open>splitn(n, c)\<close> with \<open>n\<close> at least one.\<close>

fun splitn :: "nat \<Rightarrow> char \<Rightarrow> string \<Rightarrow> string list" where
  "splitn 0 d s = []"
| "splitn (Suc 0) d s = [s]"
| "splitn (Suc (Suc n)) d s =
     (case split_once d s of None \<Rightarrow> [s] | Some (a, b) \<Rightarrow> a # splitn (Suc n) d b)"

definition split_whitespace :: "string \<Rightarrow> string list" where
  "split_whitespace s = filter (\<lambda>w. w \<noteq> []) (split_on CHR '' '' (map (\<lambda>c. if is_space c then CHR '' '' else c) s))"

text \<open>\<^verbatim>\<open>find(pat)\<close> for a string: what precedes and what follows the first occurrence.\<close>

fun find_str :: "string \<Rightarrow> string \<Rightarrow> nat option" where
  "find_str pat [] = (if pat = [] then Some 0 else None)"
| "find_str pat (c # cs) =
     (if starts_with (c # cs) pat then Some 0 else map_option Suc (find_str pat cs))"

text \<open>\<^verbatim>\<open>split("\r\n")\<close>\<close>

fun split_crlf :: "string \<Rightarrow> string list" where
  "split_crlf [] = [[]]"
| "split_crlf (c # cs) =
     (if c = CHR 0x0D \<and> (case cs of [] \<Rightarrow> False | d # _ \<Rightarrow> d = CHR 0x0A)
      then [] # split_crlf (tl cs)
      else case split_crlf cs of [] \<Rightarrow> [[c]] | w # ws \<Rightarrow> (c # w) # ws)"

abbreviation CR :: char where "CR \<equiv> CHR 0x0D"
abbreviation LF :: char where "LF \<equiv> CHR 0x0A"

definition crlf :: string where "crlf = [CR, LF]"

definition contains :: "string \<Rightarrow> string \<Rightarrow> bool" where
  "contains s pat \<longleftrightarrow> find_str pat s \<noteq> None"

lemma split_once_Some:
  "split_once d s = Some (a, b) \<Longrightarrow> s = a @ d # b \<and> d \<notin> set a"
  by (induction s arbitrary: a) (auto split: if_splits)

lemma split_once_word: "d \<notin> set a \<Longrightarrow> split_once d (a @ d # b) = Some (a, b)"
  by (induction a) auto

lemma split_once_None: "split_once d s = None \<longleftrightarrow> d \<notin> set s"
  by (induction s) auto

text \<open>\<^verbatim>\<open>lines()\<close>: at each line feed, a carriage return before it dropped; nothing after a final one.\<close>

definition strip_cr :: "string \<Rightarrow> string" where
  "strip_cr s = (if s \<noteq> [] \<and> last s = CR then butlast s else s)"

function lines :: "string \<Rightarrow> string list" where
  "lines s = (if s = [] then []
     else case split_once LF s of None \<Rightarrow> [s] | Some (a, b) \<Rightarrow> strip_cr a # lines b)"
  by auto
termination
  by (relation "measure length") (auto dest!: split_once_Some)

declare lines.simps [simp del]

lemma lines_Nil [simp]: "lines [] = []"
  by (simp add: lines.simps)

lemma lines_last: "LF \<notin> set s \<Longrightarrow> s \<noteq> [] \<Longrightarrow> lines s = [s]"
  by (subst lines.simps) (simp add: split_once_None [THEN iffD2])

lemma lines_crlf: "LF \<notin> set a \<Longrightarrow> lines (a @ crlf @ b) = a # lines b"
proof -
  assume "LF \<notin> set a"
  then have "split_once LF ((a @ [CR]) @ LF # b) = Some (a @ [CR], b)" by (intro split_once_word) auto
  then show ?thesis by (subst lines.simps) (simp add: crlf_def strip_cr_def)
qed

text \<open>Text that cannot end a line.\<close>

definition clean :: "string \<Rightarrow> bool" where
  "clean s \<longleftrightarrow> CR \<notin> set s \<and> LF \<notin> set s"

lemma clean_append [simp]: "clean (a @ b) \<longleftrightarrow> clean a \<and> clean b"
  by (auto simp: clean_def)

lemma of_lower_char:
  "(of_char (lower_char c) :: nat) =
     (if 65 \<le> (of_char c :: nat) \<and> (of_char c :: nat) \<le> 90 then of_char c + 32 else of_char c)"
  by (simp add: lower_char_def)

lemma of_upper_char:
  "(of_char (upper_char c) :: nat) =
     (if 97 \<le> (of_char c :: nat) \<and> (of_char c :: nat) \<le> 122 then of_char c - 32 else of_char c)"
  by (auto simp: upper_char_def intro!: mod_less)

lemma char_eq_nat: "c = d \<longleftrightarrow> (of_char c :: nat) = of_char d"
  by simp

lemma lower_char_clean: "lower_char c = CR \<longleftrightarrow> c = CR" "lower_char c = LF \<longleftrightarrow> c = LF"
  unfolding char_eq_nat [of "lower_char c"] char_eq_nat [of c] of_lower_char by auto

lemma upper_char_clean: "upper_char c = CR \<longleftrightarrow> c = CR" "upper_char c = LF \<longleftrightarrow> c = LF"
  unfolding char_eq_nat [of "upper_char c"] char_eq_nat [of c] of_upper_char by auto

lemma clean_map:
  assumes "\<And>c. f c = CR \<longleftrightarrow> c = CR" and "\<And>c. f c = LF \<longleftrightarrow> c = LF"
  shows "clean (map f s) \<longleftrightarrow> clean s"
proof -
  have "CR \<in> f ` set s \<longleftrightarrow> CR \<in> set s" "LF \<in> f ` set s \<longleftrightarrow> LF \<in> set s"
    using assms unfolding image_iff by metis+
  then show ?thesis by (simp add: clean_def)
qed

lemma clean_lower [simp]: "clean (to_ascii_lowercase s) = clean s"
  and clean_upper [simp]: "clean (to_ascii_uppercase s) = clean s"
  unfolding to_ascii_lowercase_def to_ascii_uppercase_def
  by (rule clean_map; rule lower_char_clean upper_char_clean)+

lemma dropWhile_hd: "s = [] \<or> \<not> P (hd s) \<Longrightarrow> dropWhile P s = s"
  by (cases s) auto

lemma trim_id:
  assumes "s = [] \<or> (\<not> is_space (hd s) \<and> \<not> is_space (last s))"
  shows "trim s = s"
proof -
  have "dropWhile is_space s = s" "dropWhile is_space (rev s) = rev s"
    using assms by (auto intro!: dropWhile_hd simp: hd_rev)
  then show ?thesis by (simp add: trim_def trim_start_def trim_end_def)
qed

section \<open>Searching\<close>

text \<open>A pattern found late: nothing that starts with its first character is skipped.\<close>

lemma find_str_skip_word:
  assumes "p \<notin> set w"
  shows "find_str (p # ps) (w @ s) = map_option ((+) (length w)) (find_str (p # ps) s)"
  using assms
proof (induction w)
  case Nil
  then show ?case by (simp add: option.map_ident)
next
  case (Cons c w)
  then show ?case by (auto simp: starts_with_def option.map_comp comp_def)
qed

lemma find_str_here: "find_str p (p @ s) = Some 0"
  by (cases "p @ s") (auto, metis starts_with_append append_Cons)

lemma find_str_Some:
  "find_str p s = Some i \<Longrightarrow> \<exists>r. s = take i s @ p @ r \<and> i \<le> length s"
proof (induction s arbitrary: i)
  case Nil
  then show ?case by (auto split: if_splits)
next
  case (Cons c s)
  show ?case
  proof (cases "starts_with (c # s) p")
    case True
    with Cons.prems show ?thesis by (auto simp: starts_with_iff)
  next
    case False
    with Cons.prems obtain j where "i = Suc j" "find_str p s = Some j" by auto
    with Cons.IH [of j] show ?thesis by auto
  qed
qed

lemma contains_iff: "contains s p \<longleftrightarrow> (\<exists>a b. s = a @ p @ b)"
proof
  assume "contains s p"
  then obtain i where "find_str p s = Some i" by (auto simp: contains_def)
  from find_str_Some [OF this] show "\<exists>a b. s = a @ p @ b" by blast
next
  have "find_str p (a @ p @ b) \<noteq> None" for a b
  proof (induction a)
    case Nil
    then show ?case by (simp add: find_str_here)
  next
    case (Cons c a)
    then show ?case by auto
  qed
  then show "\<exists>a b. s = a @ p @ b \<Longrightarrow> contains s p" by (auto simp: contains_def)
qed

lemma find_skip: "\<forall>y \<in> set ys. \<not> P y \<Longrightarrow> P x \<Longrightarrow> find P (ys @ x # xs) = Some x"
  by (induction ys) auto

lemma set_map_filter: "set (List.map_filter f xs) = {y. \<exists>x \<in> set xs. f x = Some y}"
  by (force simp: List.map_filter_def)

section \<open>Stable sorts\<close>

text \<open>The first element of a stable sort is the first minimum.\<close>

lemma sort_key_Cons_head:
  assumes "sort_key f xs = y # ys"
  shows "y \<in> set xs" and "\<forall>x \<in> set xs. f y \<le> f x"
proof -
  have s: "set (y # ys) = set xs" using assms [symmetric] by simp
  then show "y \<in> set xs" by auto
  have "sorted (map f (y # ys))" using sorted_sort_key [of f xs] assms by simp
  then show "\<forall>x \<in> set xs. f y \<le> f x" unfolding s [symmetric] by auto
qed

lemma sort_key_Nil_iff [simp]: "sort_key f xs = [] \<longleftrightarrow> xs = []"
  by (metis length_0_conv length_sort)

text \<open>Dropping other elements keeps the head of a stable sort.\<close>

lemma sort_key_filter_head:
  assumes "sort_key f xs = y # ys" and "P y"
  shows "\<exists>zs. sort_key f (filter P xs) = y # zs"
proof -
  have "sort_key f (filter P xs) = filter P (sort_key f xs)" by (simp add: filter_sort)
  with assms show ?thesis by simp
qed

lemma find_filter_head: "find P xs = (case filter P xs of [] \<Rightarrow> None | x # _ \<Rightarrow> Some x)"
  by (induction xs) auto

section \<open>Extreme elements\<close>

text \<open>\<^verbatim>\<open>Iterator::min_by_key\<close> keeps the first minimum, \<^verbatim>\<open>max_by_key\<close> the last maximum.\<close>

fun min_by_key :: "('a \<Rightarrow> 'b::linorder) \<Rightarrow> 'a list \<Rightarrow> 'a option" where
  "min_by_key f [] = None"
| "min_by_key f (x # xs) =
     (case min_by_key f xs of None \<Rightarrow> Some x | Some y \<Rightarrow> if f x \<le> f y then Some x else Some y)"

fun max_by_key :: "('a \<Rightarrow> 'b::linorder) \<Rightarrow> 'a list \<Rightarrow> 'a option" where
  "max_by_key f [] = None"
| "max_by_key f (x # xs) =
     (case max_by_key f xs of None \<Rightarrow> Some x | Some y \<Rightarrow> if f x \<le> f y then Some y else Some x)"

lemma min_by_key_None [simp]: "min_by_key f xs = None \<longleftrightarrow> xs = []"
  by (cases xs) (auto split: option.splits)

lemma max_by_key_None [simp]: "max_by_key f xs = None \<longleftrightarrow> xs = []"
  by (cases xs) (auto split: option.splits)

lemma min_by_key_Some:
  "min_by_key f xs = Some y \<Longrightarrow> y \<in> set xs \<and> (\<forall>x \<in> set xs. f y \<le> f x)"
proof (induction xs arbitrary: y)
  case Nil
  then show ?case by simp
next
  case (Cons x xs)
  then show ?case
    by (cases "min_by_key f xs") (fastforce split: if_splits)+
qed

lemma max_by_key_Some:
  "max_by_key f xs = Some y \<Longrightarrow> y \<in> set xs \<and> (\<forall>x \<in> set xs. f x \<le> f y)"
proof (induction xs arbitrary: y)
  case Nil
  then show ?case by simp
next
  case (Cons x xs)
  then show ?case
    by (cases "max_by_key f xs") (fastforce split: if_splits)+
qed

section \<open>Words between blanks\<close>

lemma split_on_spaces: "CHR '' '' \<notin> set w \<Longrightarrow> split_on CHR '' '' (w @ CHR '' '' # s) = w # split_on CHR '' '' s"
  by (simp add: split_on_append split_on_word)

lemma split_whitespace_word:
  assumes "list_all (\<lambda>c. \<not> is_space c) w" "w \<noteq> []"
  shows "split_whitespace (w @ CHR '' '' # s) = w # split_whitespace s" "split_whitespace w = [w]"
proof -
  have m: "map (\<lambda>c. if is_space c then CHR '' '' else c) w = w" using assms(1)
    by (simp add: list_all_iff map_idI)
  have sp: "is_space CHR '' ''" by (simp add: is_space_def)
  then have "CHR '' '' \<notin> set w" using assms(1) by (auto simp: list_all_iff)
  then show "split_whitespace (w @ CHR '' '' # s) = w # split_whitespace s" "split_whitespace w = [w]"
    using assms(2) m sp by (simp_all add: split_whitespace_def split_on_spaces split_on_word)
qed

end
