(* ===== verification/Net.thy ===== *)
theory Net
  imports Text
begin

text \<open>
  What the sources use of \<^verbatim>\<open>std::net\<close> and of number formatting: IP addresses, their
  textual form, the loopback test and transport names. An IPv6 address is its list of eight
  16-bit segments.
\<close>

section \<open>Decimal and hexadecimal text\<close>

definition digit_char :: "nat \<Rightarrow> char" where
  "digit_char d = (if d < 10 then char_of (48 + d) else char_of (87 + d))"

fun show_base :: "nat \<Rightarrow> nat \<Rightarrow> string" where
  "show_base b n =
     (if b < 2 \<or> n < b then [digit_char n] else show_base b (n div b) @ [digit_char (n mod b)])"

declare show_base.simps [simp del]

definition show_nat :: "nat \<Rightarrow> string" where "show_nat = show_base 10"
definition show_hex :: "nat \<Rightarrow> string" where "show_hex = show_base 16"

lemma digit_char_ge: "d < 16 \<Longrightarrow> 48 \<le> (of_char (digit_char d) :: nat)"
  by (auto simp: digit_char_def)

lemma clean_digit: "d < 16 \<Longrightarrow> clean [digit_char d]"
proof -
  assume "d < 16"
  then have ge: "48 \<le> (of_char (digit_char d) :: nat)" by (rule digit_char_ge)
  have "digit_char d \<noteq> CR" using ge by (intro notI) simp
  moreover have "digit_char d \<noteq> LF" using ge by (intro notI) simp
  ultimately show ?thesis by (auto simp: clean_def)
qed

lemma clean_show_base: "2 \<le> b \<Longrightarrow> b \<le> 16 \<Longrightarrow> clean (show_base b n)"
proof (induction b n rule: show_base.induct)
  case (1 b n)
  have "n mod b < 16" by (rule less_le_trans [OF mod_less_divisor 1(3)]) (use 1(2) in simp)
  with 1 show ?case
    by (subst show_base.simps) (auto intro: clean_digit simp: not_less)
qed

lemma clean_show_nat [simp]: "clean (show_nat n)" and clean_show_hex [simp]: "clean (show_hex n)"
  by (simp_all add: show_nat_def show_hex_def clean_show_base)

section \<open>Addresses\<close>

datatype ip_addr = V4 nat nat nat nat | V6 "nat list"

type_synonym socket_addr = "ip_addr \<times> nat"

fun is_loopback :: "ip_addr \<Rightarrow> bool" where
  "is_loopback (V4 a b c d) = (a = 127)"
| "is_loopback (V6 segs) = (segs = [0, 0, 0, 0, 0, 0, 0, 1])"

text \<open>The longest run of zero segments, leftmost first, as \<^verbatim>\<open>Ipv6Addr\<close>'s formatting finds it.\<close>

fun zero_run :: "nat list \<Rightarrow> nat" where
  "zero_run (0 # xs) = Suc (zero_run xs)"
| "zero_run _ = 0"

fun longest_zeros :: "nat \<Rightarrow> nat list \<Rightarrow> nat \<times> nat \<Rightarrow> nat \<times> nat" where
  "longest_zeros i [] best = best"
| "longest_zeros i (x # xs) best =
     longest_zeros (Suc i) xs
       (if snd best < zero_run (x # xs) then (i, zero_run (x # xs)) else best)"

fun join_with :: "string \<Rightarrow> string list \<Rightarrow> string" where
  "join_with sep [] = ''''"
| "join_with sep [x] = x"
| "join_with sep (x # xs) = x @ sep @ join_with sep xs"

definition show_v4 :: "nat \<Rightarrow> nat \<Rightarrow> nat \<Rightarrow> nat \<Rightarrow> string" where
  "show_v4 a b c d = join_with ''.'' [show_nat a, show_nat b, show_nat c, show_nat d]"

fun ip_to_string :: "ip_addr \<Rightarrow> string" where
  "ip_to_string (V4 a b c d) = show_v4 a b c d"
| "ip_to_string (V6 segs) =
     (if take 6 segs = [0, 0, 0, 0, 0, 65535] \<and> length segs = 8
      then ''::ffff:'' @ show_v4 (segs ! 6 div 256) (segs ! 6 mod 256) (segs ! 7 div 256) (segs ! 7 mod 256)
      else (let (start, len) = longest_zeros 0 segs (0, 0)
            in if len < 2 then join_with '':'' (map show_hex segs)
               else join_with '':'' (map show_hex (take start segs)) @ ''::''
                    @ join_with '':'' (map show_hex (drop (start + len) segs))))"

text \<open>The text of a socket address.\<close>

definition sock_to_string :: "socket_addr \<Rightarrow> string" where
  "sock_to_string a =
     (case fst a of
        V4 _ _ _ _ \<Rightarrow> ip_to_string (fst a) @ '':'' @ show_nat (snd a)
      | V6 _ \<Rightarrow> ''['' @ ip_to_string (fst a) @ '']:'' @ show_nat (snd a))"

section \<open>Reading addresses\<close>

text \<open>
  The recursive-descent reader behind \<^verbatim>\<open>IpAddr::from_str\<close> and \<^verbatim>\<open>SocketAddr::from_str\<close>.
  Each reader returns the value and the rest of the text, or fails.
\<close>

definition digit_value :: "nat \<Rightarrow> char \<Rightarrow> nat option" where
  "digit_value radix c =
     (let n = (of_char c :: nat);
          d = (if 48 \<le> n \<and> n \<le> 57 then n - 48
               else if 97 \<le> n \<and> n \<le> 122 then n - 87
               else if 65 \<le> n \<and> n \<le> 90 then n - 55 else 36)
      in if d < radix then Some d else None)"

definition is_digit_of :: "nat \<Rightarrow> char \<Rightarrow> bool" where
  "is_digit_of radix c \<longleftrightarrow> digit_value radix c \<noteq> None"

definition digits_value :: "nat \<Rightarrow> string \<Rightarrow> nat" where
  "digits_value radix ds = foldl (\<lambda>n c. n * radix + the (digit_value radix c)) 0 ds"

definition read_number ::
  "nat \<Rightarrow> nat option \<Rightarrow> bool \<Rightarrow> nat \<Rightarrow> string \<Rightarrow> (nat \<times> string) option"
where
  "read_number radix max_digits allow_zero_prefix max_value s =
     (let ds = takeWhile (is_digit_of radix) s in
      if ds = [] then None
      else if (case max_digits of None \<Rightarrow> False | Some m \<Rightarrow> m < length ds) then None
      else if \<not> allow_zero_prefix \<and> hd ds = CHR ''0'' \<and> 1 < length ds then None
      else if max_value < digits_value radix ds then None
      else Some (digits_value radix ds, dropWhile (is_digit_of radix) s))"

text \<open>\<^verbatim>\<open>parse::<uN>()\<close>: an optional plus sign and at least one digit, within the width.\<close>

definition parse_uint :: "nat \<Rightarrow> string \<Rightarrow> nat option" where
  "parse_uint max_value s =
     (let ds = (case s of [] \<Rightarrow> [] | c # cs \<Rightarrow> if c = CHR ''+'' then cs else s) in
      if ds = [] \<or> \<not> list_all is_ascii_digit ds \<or> max_value < digits_value 10 ds then None
      else Some (digits_value 10 ds))"

fun read_char :: "char \<Rightarrow> string \<Rightarrow> string option" where
  "read_char c [] = None"
| "read_char c (x # xs) = (if x = c then Some xs else None)"

definition read_octet :: "string \<Rightarrow> (nat \<times> string) option" where
  "read_octet = read_number 10 (Some 3) False 255"

definition read_dot_octet :: "string \<Rightarrow> (nat \<times> string) option" where
  "read_dot_octet s = Option.bind (read_char CHR ''.'' s) read_octet"

definition read_ipv4 :: "string \<Rightarrow> ((nat \<times> nat \<times> nat \<times> nat) \<times> string) option" where
  "read_ipv4 s0 =
     Option.bind (read_octet s0) (\<lambda>(a, s1).
     Option.bind (read_dot_octet s1) (\<lambda>(b, s2).
     Option.bind (read_dot_octet s2) (\<lambda>(c, s3).
     Option.bind (read_dot_octet s3) (\<lambda>(d, s4). Some ((a, b, c, d), s4)))))"

text \<open>
  \<^verbatim>\<open>read_groups\<close>: up to \<open>limit\<close> colon-separated groups from position \<open>i\<close>. The result has the
  groups, whether they end in an embedded IPv4 address, and the rest of the text.
\<close>

fun read_groups :: "nat \<Rightarrow> nat \<Rightarrow> string \<Rightarrow> nat list \<times> bool \<times> string" where
  "read_groups i 0 s = ([], False, s)"
| "read_groups i (Suc left) s =
     (case (if i = 0 then Some s else read_char CHR '':'' s) of
        None \<Rightarrow> ([], False, s)
      | Some s1 \<Rightarrow>
          (case (if left = 0 then None else read_ipv4 s1) of
             Some ((a, b, c, d), s2) \<Rightarrow> ([a * 256 + b, c * 256 + d], True, s2)
           | None \<Rightarrow>
               (case read_number 16 (Some 4) True 65535 s1 of
                  None \<Rightarrow> ([], False, s)
                | Some (g, s2) \<Rightarrow>
                    (let (gs, v4, rest) = read_groups (Suc i) left s2 in (g # gs, v4, rest)))))"

definition read_ipv6 :: "string \<Rightarrow> (nat list \<times> string) option" where
  "read_ipv6 s =
     (let (head, head_v4, s1) = read_groups 0 8 s in
      if length head = 8 then Some (head, s1)
      else if head_v4 then None
      else case Option.bind (read_char CHR '':'' s1) (read_char CHR '':'') of
             None \<Rightarrow> None
           | Some s2 \<Rightarrow>
               (let (tail, _, s3) = read_groups 0 (8 - (length head + 1)) s2
                in Some (head @ replicate (8 - length head - length tail) 0 @ tail, s3)))"

definition read_ip :: "string \<Rightarrow> (ip_addr \<times> string) option" where
  "read_ip s =
     (case read_ipv4 s of
        Some ((a, b, c, d), rest) \<Rightarrow> Some (V4 a b c d, rest)
      | None \<Rightarrow> map_option (\<lambda>(segs, rest). (V6 segs, rest)) (read_ipv6 s))"

text \<open>\<^verbatim>\<open>s.parse::<IpAddr>().ok()\<close>\<close>

definition parse_ip :: "string \<Rightarrow> ip_addr option" where
  "parse_ip s = (case read_ip s of Some (ip, []) \<Rightarrow> Some ip | _ \<Rightarrow> None)"

definition read_port :: "string \<Rightarrow> (nat \<times> string) option" where
  "read_port s = Option.bind (read_char CHR '':'' s) (read_number 10 None True 65535)"

definition skip_scope :: "string \<Rightarrow> string" where
  "skip_scope s =
     (case Option.bind (read_char CHR ''%'' s) (read_number 10 None True 4294967295) of
        None \<Rightarrow> s | Some (_, rest) \<Rightarrow> rest)"

text \<open>\<^verbatim>\<open>s.parse::<SocketAddr>().ok()\<close>; the scope identifier of an IPv6 address is dropped.\<close>

definition parse_sock :: "string \<Rightarrow> socket_addr option" where
  "parse_sock s =
     (case Option.bind (read_ipv4 s)
             (\<lambda>((a, b, c, d), s1). map_option (\<lambda>(p, rest). ((V4 a b c d, p), rest)) (read_port s1)) of
        Some (sa, rest) \<Rightarrow> if rest = [] then Some sa else None
      | None \<Rightarrow>
          (case Option.bind (read_char CHR ''['' s) (\<lambda>s1.
                Option.bind (read_ipv6 s1) (\<lambda>(segs, s2).
                Option.bind (read_char CHR '']'' (skip_scope s2)) (\<lambda>s3.
                map_option (\<lambda>(p, rest). ((V6 segs, p), rest)) (read_port s3)))) of
             Some (sa, []) \<Rightarrow> Some sa
           | _ \<Rightarrow> None))"

text \<open>\<^verbatim>\<open>rsip::Transport\<close>.\<close>

datatype transport = Udp | Tcp | Tls | Ws | Wss | Sctp | TlsSctp

section \<open>Decimal text read back\<close>

lemma digit_of_digit_char: "d < 10 \<Longrightarrow> is_ascii_digit (digit_char d) \<and> digit_value 10 (digit_char d) = Some d"
proof -
  assume "d < 10"
  then have "(of_char (digit_char d) :: nat) = 48 + d" by (simp add: digit_char_def)
  with \<open>d < 10\<close> show ?thesis by (simp add: is_ascii_digit_def digit_value_def Let_def)
qed

lemma show_nat_decimal: "list_all is_ascii_digit (show_nat n) \<and> show_nat n \<noteq> [] \<and> digits_value 10 (show_nat n) = n"
proof (induction n rule: less_induct)
  case (less n)
  show ?case
  proof (cases "n < 10")
    case True
    then have "show_nat n = [digit_char n]" unfolding show_nat_def by (subst show_base.simps) simp
    with True digit_of_digit_char [OF True] show ?thesis by (simp add: digits_value_def)
  next
    case False
    then have s: "show_nat n = show_nat (n div 10) @ [digit_char (n mod 10)]"
      unfolding show_nat_def by (subst show_base.simps) simp
    have "n div 10 < n" using False by simp
    note ih = less.IH [OF this]
    have d: "n mod 10 < 10" by simp
    show ?thesis
      unfolding s using ih digit_of_digit_char [OF d] by (simp add: digits_value_def)
  qed
qed

lemma parse_show_nat: "n \<le> max_value \<Longrightarrow> parse_uint max_value (show_nat n) = Some n"
proof -
  assume n: "n \<le> max_value"
  note d = show_nat_decimal [of n]
  obtain c cs where s: "show_nat n = c # cs" using d by (cases "show_nat n") auto
  have "c \<noteq> CHR ''+''" using d by (auto simp: s is_ascii_digit_def)
  then have "(case show_nat n of [] \<Rightarrow> [] | c # cs \<Rightarrow> if c = CHR ''+'' then cs else show_nat n) = show_nat n"
    by (simp add: s)
  with d n show ?thesis by (simp add: parse_uint_def)
qed

lemma show_nat_digits: "c \<in> set (show_nat n) \<Longrightarrow> 48 \<le> (of_char c :: nat)" "show_nat n \<noteq> []"
proof -
  have "c \<in> set (show_base b n) \<Longrightarrow> 2 \<le> b \<Longrightarrow> b \<le> 16 \<Longrightarrow> 48 \<le> (of_char c :: nat)" for b
  proof (induction b n rule: show_base.induct)
    case (1 b n)
    have "n mod b < 16" by (rule less_le_trans [OF mod_less_divisor 1(4)]) (use 1(3) in simp)
    with 1 show ?case by (subst (asm) (2) show_base.simps) (auto intro: digit_char_ge split: if_splits)
  qed
  then show "c \<in> set (show_nat n) \<Longrightarrow> 48 \<le> (of_char c :: nat)" by (simp add: show_nat_def)
  show "show_nat n \<noteq> []" unfolding show_nat_def by (subst show_base.simps) simp
qed

lemma show_nat_no_space: "list_all (\<lambda>c. \<not> is_space c) (show_nat n)"
  using show_nat_digits(1) by (fastforce simp: list_all_iff is_space_def)


section \<open>Addresses read back\<close>

lemma is_digit_of_10: "is_digit_of 10 c \<longleftrightarrow> is_ascii_digit c"
  by (auto simp: is_digit_of_def digit_value_def is_ascii_digit_def Let_def)

lemma show_nat_head: "hd (show_nat n) = CHR ''0'' \<Longrightarrow> length (show_nat n) = 1"
proof (induction n rule: less_induct)
  case (less n)
  show ?case
  proof (cases "n < 10")
    case True
    then show ?thesis unfolding show_nat_def by (subst show_base.simps) simp
  next
    case False
    then have s: "show_nat n = show_nat (n div 10) @ [digit_char (n mod 10)]"
      unfolding show_nat_def by (subst show_base.simps) simp
    with less.prems have "hd (show_nat (n div 10)) = CHR ''0''"
      using show_nat_digits(2) [of "n div 10"] by simp
    with less.IH [of "n div 10"] False have "length (show_nat (n div 10)) = 1" by simp
    with \<open>hd (show_nat (n div 10)) = CHR ''0''\<close> have "show_nat (n div 10) = ''0''"
      by (cases "show_nat (n div 10)") auto
    then have "n div 10 = 0" using show_nat_decimal [of "n div 10"] by (simp add: digits_value_def digit_value_def)
    with False show ?thesis by simp
  qed
qed

lemma length_show_nat: "n < 10 ^ k \<Longrightarrow> 0 < k \<Longrightarrow> length (show_nat n) \<le> k"
proof (induction k arbitrary: n)
  case (Suc k)
  show ?case
  proof (cases "n < 10")
    case True
    then show ?thesis unfolding show_nat_def by (subst show_base.simps) simp
  next
    case False
    then have s: "show_nat n = show_nat (n div 10) @ [digit_char (n mod 10)]"
      unfolding show_nat_def by (subst show_base.simps) simp
    have "0 < k" using False Suc.prems(1) by (cases k) auto
    moreover have "n div 10 < 10 ^ k" using Suc.prems(1) by (simp add: less_mult_imp_div_less mult.commute)
    ultimately show ?thesis using Suc.IH by (simp add: s)
  qed
qed simp

text \<open>A decimal number is read up to the first character that is not a digit.\<close>

lemma read_number_show_nat:
  assumes "n \<le> max_value" "rest = [] \<or> \<not> is_ascii_digit (hd rest)"
    and "\<And>m. max_digits = Some m \<Longrightarrow> length (show_nat n) \<le> m"
  shows "read_number 10 max_digits zero max_value (show_nat n @ rest) = Some (n, rest)"
proof -
  note d = show_nat_decimal [of n]
  have ds: "takeWhile (is_digit_of 10) (show_nat n @ rest) = show_nat n"
    "dropWhile (is_digit_of 10) (show_nat n @ rest) = rest"
    using d assms(2) by (cases rest; simp add: is_digit_of_10 list_all_iff)+
  show ?thesis
    unfolding read_number_def ds Let_def
    using d assms(1,3) show_nat_head [of n] by (auto split: option.splits simp: not_less)
qed

lemma parse_sock_v4:
  assumes "a \<le> 255" "b \<le> 255" "c \<le> 255" "d \<le> 255" "port \<le> u16_max"
  shows "parse_sock (show_v4 a b c d @ '':'' @ show_nat port) = Some (V4 a b c d, port)"
proof -
  have len: "length (show_nat n) \<le> 3" if "n \<le> 255" for n
    using that by (intro length_show_nat) auto
  have oct: "read_octet (show_nat n @ x # rest) = Some (n, x # rest)" if "n \<le> 255" "x \<in> set ''.:''" for n x rest
    unfolding read_octet_def using that len by (intro read_number_show_nat) (auto simp: is_ascii_digit_def)
  have port: "read_number 10 None True 65535 (show_nat port) = Some (port, [])"
    using read_number_show_nat [of port 65535 "[]" None True] assms(5) by (simp add: u16_max_def)
  show ?thesis
    using assms by (simp add: parse_sock_def show_v4_def read_ipv4_def read_dot_octet_def oct read_port_def port)
qed

end
