(* ===== verification/Sliding_Window.thy ===== *)
theory Sliding_Window
  imports Prelude
begin

text \<open>
  The sliding windows of the program: a deque of timestamps, pruned from the front when they fall
  out of the window, then counted. \<^verbatim>\<open>security/ban.rs\<close>, \<^verbatim>\<open>security/user_limits.rs\<close> and
  \<^verbatim>\<open>sbc-management/src/rate_limit.rs\<close> each have one. They differ in when a timestamp is out of
  the window; the interface below states what they have in common, and its client lemma bounds
  how many events a limiter admits in any window.
\<close>

text \<open>The \<^verbatim>\<open>while front is stale { pop_front }\<close> loop.\<close>

definition prune_front :: "(instant \<Rightarrow> instant \<Rightarrow> bool) \<Rightarrow> instant \<Rightarrow> instant list \<Rightarrow> instant list" where
  "prune_front stale now ts = dropWhile (stale now) ts"

text \<open>Refuse when \<open>limit\<close> timestamps are left in the window, else record this one.\<close>

definition admit ::
  "(instant \<Rightarrow> instant \<Rightarrow> bool) \<Rightarrow> nat \<Rightarrow> instant \<Rightarrow> instant list \<Rightarrow> bool \<times> instant list"
where
  "admit stale limit now ts =
     (let ts' = prune_front stale now ts
      in if limit \<le> length ts' then (False, ts') else (True, ts' @ [now]))"

text \<open>The admitted arrivals of a run.\<close>

fun admitted ::
  "(instant \<Rightarrow> instant \<Rightarrow> bool) \<Rightarrow> nat \<Rightarrow> instant list \<Rightarrow> instant list \<Rightarrow> instant list"
where
  "admitted stale limit [] ts = []"
| "admitted stale limit (t # arrivals) ts =
     (let (ok, ts') = admit stale limit t ts
      in (if ok then [t] else []) @ admitted stale limit arrivals ts')"

text \<open>How many events of a log lie in the window that ends at \<open>now\<close>.\<close>

definition in_window :: "(instant \<Rightarrow> instant \<Rightarrow> bool) \<Rightarrow> instant \<Rightarrow> instant list \<Rightarrow> nat" where
  "in_window stale now log = length (filter (\<lambda>t. t \<le> now \<and> \<not> stale now t) log)"

locale sliding_window =
  fixes stale :: "instant \<Rightarrow> instant \<Rightarrow> bool"
  assumes stale_later: "stale now t \<Longrightarrow> now \<le> now' \<Longrightarrow> stale now' t"
    and stale_older: "stale now t \<Longrightarrow> t' \<le> t \<Longrightarrow> stale now t'"
begin

lemma prune_eq_filter: "sorted ts \<Longrightarrow> prune_front stale now ts = filter (\<lambda>t. \<not> stale now t) ts"
proof (induction ts)
  case Nil
  then show ?case by (simp add: prune_front_def)
next
  case (Cons t ts)
  show ?case
  proof (cases "stale now t")
    case True
    with Cons show ?thesis by (simp add: prune_front_def)
  next
    case False
    with Cons.prems have "\<forall>u \<in> set ts. \<not> stale now u" using stale_older by auto
    with False show ?thesis by (simp add: prune_front_def)
  qed
qed

lemma prune_sorted: "sorted ts \<Longrightarrow> sorted (prune_front stale now ts)"
  by (simp add: prune_eq_filter sorted_filter [of id, simplified])

text \<open>
  \<open>log\<close> is everything admitted so far, \<open>ts\<close> the deque: from the clock \<open>now\<close> on, both show the
  same timestamps in the window.
\<close>

definition tracks :: "instant \<Rightarrow> instant list \<Rightarrow> instant list \<Rightarrow> bool" where
  "tracks now log ts \<longleftrightarrow> sorted ts \<and> (\<forall>t \<in> set log \<union> set ts. t \<le> now) \<and>
     (\<forall>now' \<ge> now. filter (\<lambda>t. \<not> stale now' t) log = filter (\<lambda>t. \<not> stale now' t) ts)"

lemma prune_tracks:
  assumes "tracks T log ts" and "T \<le> now"
  shows "tracks now log (prune_front stale now ts)"
proof -
  from assms have s: "sorted ts" by (simp add: tracks_def)
  have eq: "filter (\<lambda>t. \<not> stale now' t) (prune_front stale now ts) = filter (\<lambda>t. \<not> stale now' t) ts"
    if "now \<le> now'" for now'
    unfolding prune_eq_filter [OF s] filter_filter
    by (rule filter_cong) (use that stale_later in blast)+
  have sub: "set (prune_front stale now ts) \<subseteq> set ts"
    unfolding prune_eq_filter [OF s] by auto
  show ?thesis
    unfolding tracks_def
  proof (intro conjI ballI allI impI)
    show "sorted (prune_front stale now ts)" using s by (rule prune_sorted)
    show "t \<le> now" if "t \<in> set log \<union> set (prune_front stale now ts)" for t
    proof -
      from that sub have "t \<in> set log \<union> set ts" by blast
      with assms show ?thesis unfolding tracks_def by (meson order_trans)
    qed
    show "filter (\<lambda>t. \<not> stale now' t) log = filter (\<lambda>t. \<not> stale now' t) (prune_front stale now ts)"
      if "now \<le> now'" for now'
      unfolding eq [OF that] using assms that unfolding tracks_def by (meson order_trans)
  qed
qed

lemma length_prune_mono:
  assumes "sorted ts" and "now \<le> now'"
  shows "length (filter (\<lambda>t. \<not> stale now' t) ts) \<le> length (prune_front stale now ts)"
proof -
  have "length (filter (\<lambda>t. \<not> stale now' t) ts) \<le> length (filter (\<lambda>t. \<not> stale now t) ts)"
    using stale_later [OF _ assms(2)] by (induction ts) auto
  then show ?thesis by (simp add: prune_eq_filter [OF assms(1)])
qed

lemma admitted_bounded:
  assumes "sorted (T # arrivals)" and "tracks T log ts" and "0 < limit"
    and "\<And>now. in_window stale now log \<le> limit"
  shows "in_window stale now (log @ admitted stale limit arrivals ts) \<le> limit"
  using assms
proof (induction arrivals arbitrary: T log ts)
  case Nil
  then show ?case by simp
next
  case (Cons t arrivals)
  let ?ts = "prune_front stale t ts"
  from Cons.prems have le: "T \<le> t" and srt: "sorted (t # arrivals)" by auto
  have tr: "tracks t log ?ts" using Cons.prems(2) le by (rule prune_tracks)
  show ?case
  proof (cases "limit \<le> length ?ts")
    case True
    with Cons.IH [OF srt tr Cons.prems(3,4)] show ?thesis by (simp add: admit_def)
  next
    case False
    have tr': "tracks t (log @ [t]) (?ts @ [t])"
      using tr by (auto simp: tracks_def sorted_append)
    have "in_window stale n (log @ [t]) \<le> limit" for n
    proof (cases "t \<le> n")
      case early: False
      with Cons.prems(4) [of n] show ?thesis by (simp add: in_window_def)
    next
      case True
      have "filter (\<lambda>u. u \<le> n \<and> \<not> stale n u) log = filter (\<lambda>u. \<not> stale n u) log"
        using tr True unfolding tracks_def by (intro filter_cong) (auto dest: order_trans)
      also have "\<dots> = filter (\<lambda>u. \<not> stale n u) ts"
        using Cons.prems(2) True le by (auto simp: tracks_def)
      finally have "in_window stale n log \<le> length ?ts"
        using length_prune_mono [of ts t n] Cons.prems(2) True by (simp add: in_window_def tracks_def)
      with False show ?thesis by (simp add: in_window_def)
    qed
    from Cons.IH [OF srt tr' Cons.prems(3) this] False show ?thesis by (simp add: admit_def)
  qed
qed

theorem at_most_limit_per_window:
  assumes "sorted arrivals" and "0 < limit"
  shows "in_window stale now (admitted stale limit arrivals []) \<le> limit"
proof -
  have "sorted (0 # arrivals)" using assms(1) by simp
  from admitted_bounded [OF this, of "[]" "[]"] assms(2) show ?thesis
    by (simp add: tracks_def in_window_def)
qed

end

end
