(* ===== verification/Ban_Manager.thy ===== *)
theory Ban_Manager
  imports Net Sliding_Window
begin

text \<open>
  \<^verbatim>\<open>crates/sbc-core/src/security/ban.rs\<close>: strikes per source address in a sliding window,
  escalating bans, the administrative operations and the maintenance sweeps. Two clocks are
  read: \<open>now\<close> is \<^verbatim>\<open>Instant::now()\<close> (strike windows, offense ages), \<open>wall\<close> is
  \<^verbatim>\<open>SystemTime::now()\<close> (ban expiry). The \<^verbatim>\<open>ipnetwork\<close> crate is the pair of arguments
  \<open>net_parse\<close> and \<open>net_contains\<close>.
\<close>

section \<open>Data\<close>

record ban_config =
  bc_enabled :: bool
  bc_max_failures :: nat
  bc_window_secs :: nat
  bc_ban_duration_secs :: nat
  bc_repeat_offender_multiplier :: nat
  bc_max_ban_secs :: nat
  bc_silent_drop :: bool
  bc_whitelist :: "string list"

definition default_ban_config :: ban_config where
  "default_ban_config =
     \<lparr>bc_enabled = True, bc_max_failures = 5, bc_window_secs = 60, bc_ban_duration_secs = 3600,
      bc_repeat_offender_multiplier = 4, bc_max_ban_secs = 86400, bc_silent_drop = True,
      bc_whitelist = []\<rparr>"

record ban_entry =
  be_ip :: ip_addr
  be_reason :: string
  be_banned_at :: instant
  be_expires_at :: instant
  be_failures :: nat
  be_manual :: bool
  be_offense_count :: nat

definition is_expired :: "instant \<Rightarrow> ban_entry \<Rightarrow> bool" where
  "is_expired wall e \<longleftrightarrow> be_expires_at e \<le> wall"

definition remaining_secs :: "instant \<Rightarrow> ban_entry \<Rightarrow> nat" where
  "remaining_secs wall e = as_secs (be_expires_at e - wall)"

record offense =
  of_count :: nat
  of_last :: instant

record ban_manager =
  bm_config :: ban_config
  bm_failures :: "(ip_addr, instant list) hmap"
  bm_bans :: "(ip_addr, ban_entry) hmap"
  bm_offenses :: "(ip_addr, offense) hmap"

section \<open>Operations\<close>

definition ban_manager_new :: "ban_config \<Rightarrow> ban_manager" where
  "ban_manager_new cfg = \<lparr>bm_config = cfg, bm_failures = [], bm_bans = [], bm_offenses = []\<rparr>"

definition ban_set_config :: "ban_config \<Rightarrow> ban_manager \<Rightarrow> ban_manager" where
  "ban_set_config cfg m = m\<lparr>bm_config := cfg\<rparr>"

definition is_whitelisted ::
  "(string \<Rightarrow> 'net option) \<Rightarrow> ('net \<Rightarrow> ip_addr \<Rightarrow> bool) \<Rightarrow> ip_addr \<Rightarrow> ban_manager \<Rightarrow> bool"
where
  "is_whitelisted net_parse net_contains ip m \<longleftrightarrow>
     is_loopback ip \<or>
     list_ex (\<lambda>w. case net_parse w of
                    Some net \<Rightarrow> net_contains net ip
                  | None \<Rightarrow> w = ip_to_string ip) (bc_whitelist (bm_config m))"

text \<open>An expired entry found on the way is dropped.\<close>

definition is_banned :: "instant \<Rightarrow> ip_addr \<Rightarrow> ban_manager \<Rightarrow> bool \<times> ban_manager" where
  "is_banned wall ip m =
     (if \<not> bc_enabled (bm_config m) then (False, m)
      else case hm_get (bm_bans m) ip of
             None \<Rightarrow> (False, m)
           | Some entry \<Rightarrow>
               if \<not> is_expired wall entry then (True, m)
               else (False, m\<lparr>bm_bans := hm_remove ip (bm_bans m)\<rparr>))"

definition silent_drop :: "ban_manager \<Rightarrow> bool" where
  "silent_drop m = bc_silent_drop (bm_config m)"

definition strike_stale :: "ban_config \<Rightarrow> instant \<Rightarrow> instant \<Rightarrow> bool" where
  "strike_stale cfg now t \<longleftrightarrow> secs (bc_window_secs cfg) < now - t"

definition strikes_of :: "ban_manager \<Rightarrow> ip_addr \<Rightarrow> instant list" where
  "strikes_of m ip = (case hm_get (bm_failures m) ip of None \<Rightarrow> [] | Some ts \<Rightarrow> ts)"

definition offenses_of :: "ban_manager \<Rightarrow> ip_addr \<Rightarrow> nat" where
  "offenses_of m ip = (case hm_get (bm_offenses m) ip of None \<Rightarrow> 0 | Some x \<Rightarrow> of_count x)"

text \<open>The duration of the \<open>offense\<close>-th ban of an address (in seconds).\<close>

definition ban_duration :: "ban_config \<Rightarrow> nat \<Rightarrow> nat" where
  "ban_duration cfg offense =
     (let factor = max (sat_pow32 (bc_repeat_offender_multiplier cfg) (offense - 1)) 1
      in min (sat_mul64 (bc_ban_duration_secs cfg) factor) (bc_max_ban_secs cfg))"

definition record_failure ::
  "(string \<Rightarrow> 'net option) \<Rightarrow> ('net \<Rightarrow> ip_addr \<Rightarrow> bool) \<Rightarrow> instant \<Rightarrow> instant \<Rightarrow> ip_addr \<Rightarrow> string \<Rightarrow>
   ban_manager \<Rightarrow> ban_entry option \<times> ban_manager"
where
  "record_failure net_parse net_contains now wall ip reason m =
     (let cfg = bm_config m in
      if \<not> bc_enabled cfg \<or> is_whitelisted net_parse net_contains ip m then (None, m)
      else
        let (banned, m1) = is_banned wall ip m in
        if banned then (None, m1)
        else
          let strikes = prune_front (strike_stale cfg) now (strikes_of m1 ip) @ [now];
              count = length strikes
          in if count < bc_max_failures cfg
             then (None, m1\<lparr>bm_failures := hm_insert ip strikes (bm_failures m1)\<rparr>)
             else
               let offense = offenses_of m1 ip + 1;
                   entry = \<lparr>be_ip = ip, be_reason = reason, be_banned_at = wall,
                            be_expires_at = wall + secs (ban_duration cfg offense),
                            be_failures = count, be_manual = False, be_offense_count = offense\<rparr>
               in (Some entry,
                   m1\<lparr>bm_failures := hm_remove ip (hm_insert ip strikes (bm_failures m1)),
                      bm_offenses := hm_insert ip \<lparr>of_count = offense, of_last = now\<rparr> (bm_offenses m1),
                      bm_bans := hm_insert ip entry (bm_bans m1)\<rparr>))"

definition ban :: "instant \<Rightarrow> ip_addr \<Rightarrow> duration \<Rightarrow> string \<Rightarrow> ban_manager \<Rightarrow> ban_entry \<times> ban_manager" where
  "ban wall ip duration reason m =
     (let entry = \<lparr>be_ip = ip, be_reason = reason, be_banned_at = wall,
                   be_expires_at = wall + duration, be_failures = 0, be_manual = True,
                   be_offense_count = offenses_of m ip + 1\<rparr>
      in (entry, m\<lparr>bm_bans := hm_insert ip entry (bm_bans m)\<rparr>))"

definition unban :: "ip_addr \<Rightarrow> ban_manager \<Rightarrow> bool \<times> ban_manager" where
  "unban ip m = (hm_contains (bm_bans m) ip, m\<lparr>bm_bans := hm_remove ip (bm_bans m)\<rparr>)"

definition ban_list :: "instant \<Rightarrow> ban_manager \<Rightarrow> ban_entry list" where
  "ban_list wall m = filter (\<lambda>e. \<not> is_expired wall e) (map snd (bm_bans m))"

text \<open>The keys collected by the sweeps are removed one by one, which is a \<open>hm_retain\<close>.\<close>

definition window_stale :: "ban_config \<Rightarrow> instant \<Rightarrow> instant list \<Rightarrow> bool" where
  "window_stale cfg now ts \<longleftrightarrow> ts = [] \<or> strike_stale cfg now (last ts)"

definition forget_after :: "ban_config \<Rightarrow> duration" where
  "forget_after cfg = secs (max (sat_mul64 (bc_max_ban_secs cfg) 2) (bc_window_secs cfg))"

definition offense_cold :: "ban_manager \<Rightarrow> instant \<Rightarrow> ip_addr \<Rightarrow> offense \<Rightarrow> bool" where
  "offense_cold m now ip x \<longleftrightarrow>
     forget_after (bm_config m) < now - of_last x \<and> \<not> hm_contains (bm_bans m) ip"

definition prune_stale_windows :: "instant \<Rightarrow> ban_manager \<Rightarrow> nat \<times> ban_manager" where
  "prune_stale_windows now m =
     (let cfg = bm_config m;
          stale = filter (\<lambda>(ip, ts). window_stale cfg now ts) (bm_failures m);
          cold = filter (\<lambda>(ip, x). offense_cold m now ip x) (bm_offenses m)
      in (length stale + length cold,
          m\<lparr>bm_failures := hm_retain (\<lambda>ip ts. \<not> window_stale cfg now ts) (bm_failures m),
            bm_offenses := hm_retain (\<lambda>ip x. \<not> offense_cold m now ip x) (bm_offenses m)\<rparr>))"

definition cleanup_expired :: "instant \<Rightarrow> ban_manager \<Rightarrow> nat \<times> ban_manager" where
  "cleanup_expired wall m =
     (length (filter (\<lambda>(ip, e). is_expired wall e) (bm_bans m)),
      m\<lparr>bm_bans := hm_retain (\<lambda>ip e. \<not> is_expired wall e) (bm_bans m)\<rparr>)"

definition restore :: "instant \<Rightarrow> instant \<Rightarrow> ban_entry \<Rightarrow> ban_manager \<Rightarrow> ban_manager" where
  "restore now wall entry m =
     (if \<not> is_expired wall entry
      then m\<lparr>bm_offenses := hm_insert (be_ip entry)
               \<lparr>of_count = be_offense_count entry, of_last = now\<rparr> (bm_offenses m),
             bm_bans := hm_insert (be_ip entry) entry (bm_bans m)\<rparr>
      else m)"

interpretation strikes: sliding_window "strike_stale cfg" for cfg
  by unfold_locales (auto simp: strike_stale_def)

section \<open>Runs\<close>

text \<open>
  Every public operation as a step, with the monotonic clock carried along. The wall clock is
  read afresh by each step and may jump.
\<close>

inductive bm_step ::
  "(string \<Rightarrow> 'net option) \<Rightarrow> ('net \<Rightarrow> ip_addr \<Rightarrow> bool) \<Rightarrow>
   ban_manager \<times> instant \<Rightarrow> ban_manager \<times> instant \<Rightarrow> bool"
  for net_parse net_contains
where
  bm_failure: "t \<le> now \<Longrightarrow>
     bm_step net_parse net_contains (m, t)
       (snd (record_failure net_parse net_contains now wall ip reason m), now)"
| bm_check: "bm_step net_parse net_contains (m, t) (snd (is_banned wall ip m), t)"
| bm_ban: "bm_step net_parse net_contains (m, t) (snd (ban wall ip d reason m), t)"
| bm_unban: "bm_step net_parse net_contains (m, t) (snd (unban ip m), t)"
| bm_prune: "t \<le> now \<Longrightarrow> bm_step net_parse net_contains (m, t) (snd (prune_stale_windows now m), now)"
| bm_cleanup: "bm_step net_parse net_contains (m, t) (snd (cleanup_expired wall m), t)"
| bm_restore: "t \<le> now \<Longrightarrow> bm_step net_parse net_contains (m, t) (restore now wall entry m, now)"
| bm_config: "bm_step net_parse net_contains (m, t) (ban_set_config cfg m, t)"

inductive bm_reachable ::
  "(string \<Rightarrow> 'net option) \<Rightarrow> ('net \<Rightarrow> ip_addr \<Rightarrow> bool) \<Rightarrow> ban_manager \<times> instant \<Rightarrow> bool"
  for net_parse net_contains
where
  bm_init: "bm_reachable net_parse net_contains (ban_manager_new cfg, t)"
| bm_next: "bm_reachable net_parse net_contains c \<Longrightarrow> bm_step net_parse net_contains c c' \<Longrightarrow>
     bm_reachable net_parse net_contains c'"

text \<open>Strike deques are in arrival order and hold nothing newer than the clock.\<close>

definition deque_ok :: "instant \<Rightarrow> instant list \<Rightarrow> bool" where
  "deque_ok now ts \<longleftrightarrow> sorted ts \<and> (\<forall>t \<in> set ts. t \<le> now)"

definition bm_inv :: "ban_manager \<times> instant \<Rightarrow> bool" where
  "bm_inv c \<longleftrightarrow> hm_ok (bm_failures (fst c)) \<and> hm_ok (bm_bans (fst c)) \<and> hm_ok (bm_offenses (fst c)) \<and>
     (\<forall>ip ts. hm_get (bm_failures (fst c)) ip = Some ts \<longrightarrow> deque_ok (snd c) ts)"

lemma deque_ok_later: "deque_ok t ts \<Longrightarrow> t \<le> now \<Longrightarrow> deque_ok now ts"
  unfolding deque_ok_def by (meson order_trans)

lemma deque_ok_strike:
  assumes "deque_ok t ts" and "t \<le> now"
  shows "deque_ok now (prune_front (strike_stale cfg) now ts @ [now])"
proof -
  from assms have s: "sorted ts" and le: "\<forall>x \<in> set ts. x \<le> now"
    unfolding deque_ok_def by (auto dest: order_trans)
  have "set (prune_front (strike_stale cfg) now ts) \<subseteq> set ts"
    unfolding strikes.prune_eq_filter [OF s] by auto
  with le strikes.prune_sorted [OF s] show ?thesis
    by (auto simp: deque_ok_def sorted_append)
qed

lemma is_banned_frame [simp]:
  "bm_failures (snd (is_banned wall ip m)) = bm_failures m"
  "bm_offenses (snd (is_banned wall ip m)) = bm_offenses m"
  "bm_config (snd (is_banned wall ip m)) = bm_config m"
  "hm_ok (bm_bans m) \<Longrightarrow> hm_ok (bm_bans (snd (is_banned wall ip m)))"
  by (auto simp: is_banned_def split: option.splits)

lemma strikes_of_ok: "bm_inv (m, t) \<Longrightarrow> deque_ok t (strikes_of m ip)"
  by (auto simp: bm_inv_def strikes_of_def deque_ok_def split: option.splits)

lemma strikes_of_is_banned [simp]: "strikes_of (snd (is_banned wall ip m)) ip' = strikes_of m ip'"
  by (simp add: strikes_of_def)

lemma offenses_of_is_banned [simp]: "offenses_of (snd (is_banned wall ip m)) ip' = offenses_of m ip'"
  by (simp add: offenses_of_def)

text \<open>The three outcomes of a strike that is counted.\<close>

lemma record_failure_counted:
  assumes "bc_enabled (bm_config m)" and "\<not> is_whitelisted net_parse net_contains ip m"
    and "\<not> fst (is_banned wall ip m)"
  shows "record_failure net_parse net_contains now wall ip reason m =
    (let cfg = bm_config m; m1 = snd (is_banned wall ip m);
         strikes = prune_front (strike_stale cfg) now (strikes_of m ip) @ [now]
     in if length strikes < bc_max_failures cfg
        then (None, m1\<lparr>bm_failures := hm_insert ip strikes (bm_failures m)\<rparr>)
        else let offense = offenses_of m ip + 1;
                 entry = \<lparr>be_ip = ip, be_reason = reason, be_banned_at = wall,
                          be_expires_at = wall + secs (ban_duration cfg offense),
                          be_failures = length strikes, be_manual = False, be_offense_count = offense\<rparr>
             in (Some entry,
                 m1\<lparr>bm_failures := hm_remove ip (hm_insert ip strikes (bm_failures m)),
                    bm_offenses := hm_insert ip \<lparr>of_count = offense, of_last = now\<rparr> (bm_offenses m),
                    bm_bans := hm_insert ip entry (bm_bans m1)\<rparr>))"
  using assms by (simp add: record_failure_def Let_def split: prod.splits)
    (metis fst_conv is_banned_frame(1,2) offenses_of_is_banned snd_conv strikes_of_is_banned)

lemma record_failure_ignored:
  assumes "\<not> bc_enabled (bm_config m) \<or> is_whitelisted net_parse net_contains ip m \<or>
    fst (is_banned wall ip m)"
  shows "record_failure net_parse net_contains now wall ip reason m = (None, m)"
  using assms by (auto simp: record_failure_def is_banned_def Let_def split: option.splits)

lemma record_failure_inv:
  assumes inv: "bm_inv (m, t)" and le: "t \<le> now"
  shows "bm_inv (snd (record_failure net_parse net_contains now wall ip reason m), now)"
proof (cases "\<not> bc_enabled (bm_config m) \<or> is_whitelisted net_parse net_contains ip m \<or>
    fst (is_banned wall ip m)")
  case True
  from record_failure_ignored [OF this] inv le deque_ok_later show ?thesis
    by (fastforce simp: bm_inv_def)
next
  case False
  let ?ts = "prune_front (strike_stale (bm_config m)) now (strikes_of m ip) @ [now]"
  have ts: "deque_ok now ?ts" using strikes_of_ok [OF inv] le by (rule deque_ok_strike)
  have old: "hm_get (bm_failures m) k = Some x \<Longrightarrow> deque_ok now x" for k x
    using inv le deque_ok_later unfolding bm_inv_def by fastforce
  have ok: "hm_ok (bm_failures m)" "hm_ok (bm_bans (snd (is_banned wall ip m)))" "hm_ok (bm_offenses m)"
    using inv by (auto simp: bm_inv_def)
  from False show ?thesis
    using ok old ts
    by (auto simp: record_failure_counted Let_def bm_inv_def hm_get_insert hm_get_remove
        split: if_splits)
qed

lemma bm_step_inv:
  assumes "bm_step net_parse net_contains c c'" and "bm_inv c"
  shows "bm_inv c'"
  using assms
proof (cases rule: bm_step.cases)
  case (bm_failure t now m wall ip reason)
  with assms(2) record_failure_inv show ?thesis by blast
next
  case (bm_prune t now m)
  then show ?thesis
    using assms(2) deque_ok_later
    by (fastforce simp: bm_inv_def prune_stale_windows_def Let_def hm_get_retain
        split: option.splits if_splits)
next
  case (bm_restore t now m wall entry)
  then show ?thesis
    using assms(2) deque_ok_later by (fastforce simp: bm_inv_def restore_def)
qed (use assms(2) in \<open>auto simp: bm_inv_def ban_def unban_def cleanup_expired_def
    ban_set_config_def Let_def\<close>)

lemma bm_reachable_inv: "bm_reachable net_parse net_contains c \<Longrightarrow> bm_inv c"
proof (induction rule: bm_reachable.induct)
  case (bm_init cfg t)
  then show ?case by (simp add: bm_inv_def ban_manager_new_def)
next
  case (bm_next c c')
  then show ?case by (blast intro: bm_step_inv)
qed

section \<open>Properties\<close>

lemma ban_duration_mono: "1 \<le> bc_repeat_offender_multiplier cfg \<Longrightarrow> n \<le> k \<Longrightarrow> ban_duration cfg n \<le> ban_duration cfg k"
  unfolding ban_duration_def Let_def
  by (intro min.mono sat_mul64_mono max.mono sat_pow32_mono) auto

text \<open>In every reachable state, with banning enabled, a failure from an address that is neither
  whitelisted nor banned issues a ban exactly when the failures of that address inside the window,
  this one included, reach \<^verbatim>\<open>max_failures\<close>; until then the strike is recorded.\<close>

theorem ban_issued_iff_threshold_reached:
  assumes r: "bm_reachable net_parse net_contains (m, t)" and le: "t \<le> now"
    and en: "bc_enabled (bm_config m)" and wl: "\<not> is_whitelisted net_parse net_contains ip m"
    and nb: "\<not> fst (is_banned wall ip m)"
  shows "(fst (record_failure net_parse net_contains now wall ip reason m) \<noteq> None \<longleftrightarrow>
      bc_max_failures (bm_config m)
        \<le> length (filter (\<lambda>x. now - x \<le> secs (bc_window_secs (bm_config m))) (strikes_of m ip)) + 1)
    \<and> (fst (record_failure net_parse net_contains now wall ip reason m) = None \<longrightarrow>
       now \<in> set (strikes_of (snd (record_failure net_parse net_contains now wall ip reason m)) ip))"
proof -
  have "sorted (strikes_of m ip)"
    using strikes_of_ok [OF bm_reachable_inv [OF r]] by (simp add: deque_ok_def)
  then have p: "prune_front (strike_stale (bm_config m)) now (strikes_of m ip) =
      filter (\<lambda>x. now - x \<le> secs (bc_window_secs (bm_config m))) (strikes_of m ip)"
    by (simp add: strikes.prune_eq_filter strike_stale_def not_less)
  show ?thesis
    unfolding record_failure_counted [OF en wl nb] Let_def p
    by (auto simp: strikes_of_def hm_get_insert)
qed

definition no_net :: "string \<Rightarrow> unit option" where "no_net s = None"

lemma strike_run:
  "bm_reachable no_net (\<lambda>_ _. False)
     (snd (record_failure no_net (\<lambda>_ _. False) 3 0 (V4 192 0 2 9) ''x''
        (ban_manager_new (default_ban_config\<lparr>bc_max_failures := 2\<rparr>))), 3)"
  by (rule bm_next [OF bm_init [where t = 0] bm_failure]) simp

theorem ban_issued_iff_threshold_reached_witness:
  "\<exists>m. bm_reachable no_net (\<lambda>_ _. False) (m, 3) \<and>
     fst (record_failure no_net (\<lambda>_ _. False) 4 0 (V4 192 0 2 9) ''y'' m) \<noteq> None"
proof -
  let ?cfg = "default_ban_config\<lparr>bc_max_failures := 2\<rparr>"
  let ?m = "\<lparr>bm_config = ?cfg, bm_failures = [(V4 192 0 2 9, [3])], bm_bans = [], bm_offenses = []\<rparr>"
  have "snd (record_failure no_net (\<lambda>_ _. False) 3 0 (V4 192 0 2 9) ''x'' (ban_manager_new ?cfg)) = ?m"
    by (simp add: record_failure_def ban_manager_new_def default_ban_config_def is_whitelisted_def
        is_banned_def strikes_of_def prune_front_def hm_insert_def)
  with strike_run have r: "bm_reachable no_net (\<lambda>_ _. False) (?m, 3)" by simp
  have "bc_enabled (bm_config ?m)" "\<not> is_whitelisted no_net (\<lambda>_ _. False) (V4 192 0 2 9) ?m"
    "\<not> fst (is_banned 0 (V4 192 0 2 9) ?m)"
    by (simp_all add: default_ban_config_def is_whitelisted_def is_banned_def)
  note T = ban_issued_iff_threshold_reached [OF r _ this, of 4 "''y''", THEN conjunct1]
  have "fst (record_failure no_net (\<lambda>_ _. False) 4 0 (V4 192 0 2 9) ''y'' ?m) \<noteq> None"
    by (subst T) (simp_all add: strikes_of_def default_ban_config_def secs_def)
  with r show ?thesis by blast
qed

text \<open>A ban that has been issued is enforced: until its expiry the address is reported banned
  and further failures change nothing; from the expiry on it is not. It expires after the
  configured duration times the repeat multiplier to the power of the previous offenses, capped by
  \<^verbatim>\<open>max_ban_secs\<close>, and no other address is affected.\<close>

theorem issued_ban_is_enforced:
  assumes "record_failure net_parse net_contains now wall ip reason m = (Some e, m')"
  shows "be_expires_at e = wall + secs (ban_duration (bm_config m) (offenses_of m ip + 1)) \<and>
    ban_duration (bm_config m) (offenses_of m ip + 1) \<le> bc_max_ban_secs (bm_config m) \<and>
    (fst (is_banned wall' ip m') \<longleftrightarrow> wall' < be_expires_at e) \<and>
    (wall' < be_expires_at e \<longrightarrow>
       record_failure net_parse net_contains now' wall' ip reason' m' = (None, m')) \<and>
    (ip' \<noteq> ip \<longrightarrow> fst (is_banned wall' ip' m') = fst (is_banned wall' ip' m))"
proof -
  have h: "bc_enabled (bm_config m)" "\<not> is_whitelisted net_parse net_contains ip m"
    "\<not> fst (is_banned wall ip m)"
    using assms record_failure_ignored [of m net_parse net_contains ip wall now reason] by auto
  from assms record_failure_counted [OF h, of now reason]
  have e: "be_expires_at e = wall + secs (ban_duration (bm_config m) (offenses_of m ip + 1))"
    and bans: "bm_bans m' = hm_insert ip e (bm_bans (snd (is_banned wall ip m)))"
    and cfg: "bm_config m' = bm_config m"
    by (auto simp: Let_def split: if_splits)
  have get: "hm_get (bm_bans m') k = (if k = ip then Some e else hm_get (bm_bans m) k)" for k
    unfolding bans by (auto simp: hm_get_insert is_banned_def hm_get_remove split: option.splits)
  have b: "fst (is_banned w ip m') \<longleftrightarrow> w < be_expires_at e" for w
    using h(1) by (simp add: is_banned_def cfg get is_expired_def not_le)
  have "ip' \<noteq> ip \<Longrightarrow> fst (is_banned wall' ip' m') = fst (is_banned wall' ip' m)"
    by (simp add: is_banned_def cfg get split: option.splits)
  moreover have "wall' < be_expires_at e \<Longrightarrow>
      record_failure net_parse net_contains now' wall' ip reason' m' = (None, m')"
    by (rule record_failure_ignored) (simp add: b)
  ultimately show ?thesis using b by (simp add: e ban_duration_def Let_def)
qed

theorem issued_ban_is_enforced_witness:
  "\<exists>e m'. record_failure no_net (\<lambda>_ _. False) 3 0 (V4 192 0 2 9) ''x''
       (ban_manager_new (default_ban_config\<lparr>bc_max_failures := 1\<rparr>)) = (Some e, m') \<and>
     fst (is_banned 5 (V4 192 0 2 9) m')"
proof -
  let ?r = "record_failure no_net (\<lambda>_ _. False) 3 0 (V4 192 0 2 9) ''x''
       (ban_manager_new (default_ban_config\<lparr>bc_max_failures := 1\<rparr>))"
  let ?e = "\<lparr>be_ip = V4 192 0 2 9, be_reason = ''x'', be_banned_at = 0,
      be_expires_at = 3600000000000, be_failures = 1, be_manual = False, be_offense_count = 1\<rparr>"
  have "fst ?r = Some ?e"
    by (simp add: record_failure_def ban_manager_new_def default_ban_config_def is_whitelisted_def
        is_banned_def strikes_of_def prune_front_def offenses_of_def ban_duration_def sat_pow32_def
        sat_mul64_def u32_max_def u64_max_def secs_def Let_def)
  then have r: "?r = (Some ?e, snd ?r)" by (metis prod.collapse)
  from issued_ban_is_enforced [OF r, where wall' = 5] have "fst (is_banned 5 (V4 192 0 2 9) (snd ?r))"
    by simp
  with r show ?thesis by blast
qed

text \<open>Repeat offenders: each ban of an address counts one offense more than the previous
  ones on record and, with a multiplier of at least one, lasts at least as long as any ban with
  a lower offense count under the same configuration.\<close>

theorem repeat_offender_escalation:
  assumes "record_failure net_parse net_contains now wall ip reason m = (Some e, m')"
    and "1 \<le> bc_repeat_offender_multiplier (bm_config m)" and "n \<le> offenses_of m ip"
  shows "be_offense_count e = offenses_of m ip + 1 \<and> offenses_of m' ip = offenses_of m ip + 1 \<and>
    ban_duration (bm_config m) n \<le> ban_duration (bm_config m) (be_offense_count e)"
proof -
  have h: "bc_enabled (bm_config m)" "\<not> is_whitelisted net_parse net_contains ip m"
    "\<not> fst (is_banned wall ip m)"
    using assms(1) record_failure_ignored [of m net_parse net_contains ip wall now reason] by auto
  from assms(1) record_failure_counted [OF h, of now reason]
  have "be_offense_count e = offenses_of m ip + 1" "offenses_of m' ip = offenses_of m ip + 1"
    by (auto simp: Let_def offenses_of_def hm_get_insert split: if_splits)
  then show ?thesis using ban_duration_mono [OF assms(2)] assms(3) by simp
qed

theorem repeat_offender_escalation_witness:
  "\<exists>e m'. record_failure no_net (\<lambda>_ _. False) 3 0 (V4 192 0 2 9) ''x''
       (ban_manager_new (default_ban_config\<lparr>bc_max_failures := 1\<rparr>)) = (Some e, m') \<and>
     offenses_of m' (V4 192 0 2 9) = 1"
proof -
  let ?m = "ban_manager_new (default_ban_config\<lparr>bc_max_failures := 1\<rparr>)"
  let ?r = "record_failure no_net (\<lambda>_ _. False) 3 0 (V4 192 0 2 9) ''x'' ?m"
  have "fst ?r \<noteq> None"
    by (simp add: record_failure_def ban_manager_new_def default_ban_config_def is_whitelisted_def
        is_banned_def strikes_of_def prune_front_def Let_def)
  then obtain e where r: "?r = (Some e, snd ?r)" by (metis not_None_eq prod.collapse)
  have "1 \<le> bc_repeat_offender_multiplier (bm_config ?m)" "0 \<le> offenses_of ?m (V4 192 0 2 9)"
    "offenses_of ?m (V4 192 0 2 9) = 0"
    by (simp_all add: ban_manager_new_def default_ban_config_def offenses_of_def)
  with repeat_offender_escalation [OF r this(1,2)] have "offenses_of (snd ?r) (V4 192 0 2 9) = 1" by simp
  with r show ?thesis by blast
qed

text \<open>The maintenance sweep forgets an address's offense count by the age of its last
  \<^emph>\<open>ban\<close> alone: the count goes although the address has a strike recorded at this very
  instant, which the sweep keeps.\<close>

theorem prune_forgets_offenses_despite_fresh_strikes:
  "\<exists>m m' ip now. strikes_of m ip = [now] \<and> offenses_of m ip = 3 \<and>
     prune_stale_windows now m = (1, m') \<and> strikes_of m' ip = [now] \<and> offenses_of m' ip = 0"
proof -
  let ?ip = "V4 192 0 2 9" and ?now = "secs 200000"
  let ?m = "\<lparr>bm_config = default_ban_config, bm_failures = [(?ip, [?now])], bm_bans = [],
      bm_offenses = [(?ip, \<lparr>of_count = 3, of_last = 0\<rparr>)]\<rparr>"
  have "strikes_of ?m ?ip = [?now]" "offenses_of ?m ?ip = 3"
    by (simp_all add: strikes_of_def offenses_of_def)
  moreover have "prune_stale_windows ?now ?m = (1, ?m\<lparr>bm_offenses := []\<rparr>)"
    by (simp add: prune_stale_windows_def window_stale_def strike_stale_def offense_cold_def
        forget_after_def default_ban_config_def hm_retain_def hm_contains_def sat_mul64_def
        u64_max_def secs_def)
  moreover have "strikes_of (?m\<lparr>bm_offenses := []\<rparr>) ?ip = [?now]"
    "offenses_of (?m\<lparr>bm_offenses := []\<rparr>) ?ip = 0"
    by (simp_all add: strikes_of_def offenses_of_def)
  ultimately show ?thesis by blast
qed

end
