(* ===== verification/User_Limits.thy ===== *)
theory User_Limits
  imports Sliding_Window
begin

text \<open>
  \<^verbatim>\<open>crates/sbc-core/src/security/user_limits.rs\<close>: per-user limits on concurrent calls and on
  call attempts per minute.
\<close>

section \<open>Data\<close>

record user_limit_override =
  ulo_user :: string
  ulo_max_concurrent_calls :: "nat option"
  ulo_max_calls_per_minute :: "nat option"

record user_limits_config =
  ulc_enabled :: bool
  ulc_default_max_concurrent_calls :: nat
  ulc_default_max_calls_per_minute :: nat
  ulc_overrides :: "user_limit_override list"

definition default_user_limits_config :: user_limits_config where
  "default_user_limits_config =
     \<lparr>ulc_enabled = True, ulc_default_max_concurrent_calls = 4,
      ulc_default_max_calls_per_minute = 10, ulc_overrides = []\<rparr>"

record user_limits =
  ul_max_concurrent_calls :: "nat option"
  ul_max_calls_per_minute :: "nat option"

datatype limit_decision =
    Allowed
  | ConcurrentExceeded nat nat
  | RateExceeded nat nat nat

record user_limits_manager =
  um_enabled :: bool
  um_defaults :: "nat \<times> nat"
  um_config_defaults :: "nat \<times> nat"
  um_overrides :: "(string, user_limits) hmap"
  um_rate_windows :: "(string, instant list) hmap"

section \<open>Operations\<close>

definition user_limits_new :: "user_limits_config \<Rightarrow> user_limits_manager" where
  "user_limits_new cfg =
     \<lparr>um_enabled = ulc_enabled cfg,
      um_defaults = (ulc_default_max_concurrent_calls cfg, ulc_default_max_calls_per_minute cfg),
      um_config_defaults = (ulc_default_max_concurrent_calls cfg, ulc_default_max_calls_per_minute cfg),
      um_overrides =
        fold (\<lambda>x tab. hm_insert (ulo_user x)
                 \<lparr>ul_max_concurrent_calls = ulo_max_concurrent_calls x,
                  ul_max_calls_per_minute = ulo_max_calls_per_minute x\<rparr> tab) (ulc_overrides cfg) [],
      um_rate_windows = []\<rparr>"

definition limits_for :: "string \<Rightarrow> user_limits_manager \<Rightarrow> nat \<times> nat" where
  "limits_for user m =
     (let (dc, dr) = um_defaults m
      in case hm_get (um_overrides m) user of
           Some ov \<Rightarrow> (case_option dc id (ul_max_concurrent_calls ov),
                       case_option dr id (ul_max_calls_per_minute ov))
         | None \<Rightarrow> (dc, dr))"

definition replace_overrides ::
  "(string, user_limits) hmap \<Rightarrow> user_limits_manager \<Rightarrow> nat \<times> user_limits_manager"
where
  "replace_overrides ovs m =
     (let tab = fold (\<lambda>(user, limits) tab. hm_insert user limits tab) ovs []
      in (length tab, m\<lparr>um_overrides := tab\<rparr>))"

definition set_override :: "string \<Rightarrow> user_limits \<Rightarrow> user_limits_manager \<Rightarrow> user_limits_manager" where
  "set_override user limits m = m\<lparr>um_overrides := hm_insert user limits (um_overrides m)\<rparr>"

definition remove_override :: "string \<Rightarrow> user_limits_manager \<Rightarrow> bool \<times> user_limits_manager" where
  "remove_override user m =
     (hm_contains (um_overrides m) user, m\<lparr>um_overrides := hm_remove user (um_overrides m)\<rparr>)"

definition limits_set_enabled :: "bool \<Rightarrow> user_limits_manager \<Rightarrow> user_limits_manager" where
  "limits_set_enabled on m = m\<lparr>um_enabled := on\<rparr>"

definition set_defaults :: "nat \<Rightarrow> nat \<Rightarrow> user_limits_manager \<Rightarrow> user_limits_manager" where
  "set_defaults max_concurrent max_cpm m = m\<lparr>um_defaults := (max_concurrent, max_cpm)\<rparr>"

definition set_config_defaults :: "nat \<Rightarrow> nat \<Rightarrow> user_limits_manager \<Rightarrow> user_limits_manager" where
  "set_config_defaults max_concurrent max_cpm m = m\<lparr>um_config_defaults := (max_concurrent, max_cpm)\<rparr>"

definition reset_defaults :: "user_limits_manager \<Rightarrow> user_limits_manager" where
  "reset_defaults m = m\<lparr>um_defaults := um_config_defaults m\<rparr>"

definition attempt_stale :: "instant \<Rightarrow> instant \<Rightarrow> bool" where
  "attempt_stale now t \<longleftrightarrow> secs 60 < now - t"

definition prune_idle_windows :: "instant \<Rightarrow> user_limits_manager \<Rightarrow> nat \<times> user_limits_manager" where
  "prune_idle_windows now m =
     (let idle = (\<lambda>ts. ts = [] \<or> attempt_stale now (last ts))
      in (length (filter (\<lambda>(user, ts). idle ts) (um_rate_windows m)),
          m\<lparr>um_rate_windows := hm_retain (\<lambda>user ts. \<not> idle ts) (um_rate_windows m)\<rparr>))"

definition attempts_of :: "user_limits_manager \<Rightarrow> string \<Rightarrow> instant list" where
  "attempts_of m user = (case hm_get (um_rate_windows m) user of None \<Rightarrow> [] | Some ts \<Rightarrow> ts)"

definition check_and_record ::
  "instant \<Rightarrow> string \<Rightarrow> nat \<Rightarrow> user_limits_manager \<Rightarrow> limit_decision \<times> user_limits_manager"
where
  "check_and_record now user current_concurrent m =
     (if \<not> um_enabled m then (Allowed, m)
      else
        let (max_concurrent, max_cpm) = limits_for user m in
        if 0 < max_concurrent \<and> max_concurrent \<le> current_concurrent
        then (ConcurrentExceeded current_concurrent max_concurrent, m)
        else if 0 < max_cpm then
          let attempts = prune_front attempt_stale now (attempts_of m user)
          in if max_cpm \<le> length attempts then
               let retry_after = (case attempts of [] \<Rightarrow> 60 | t # _ \<Rightarrow> 60 - as_secs (now - t))
               in (RateExceeded (length attempts) max_cpm (max retry_after 1),
                   m\<lparr>um_rate_windows := hm_insert user attempts (um_rate_windows m)\<rparr>)
             else (Allowed,
                   m\<lparr>um_rate_windows := hm_insert user (attempts @ [now]) (um_rate_windows m)\<rparr>)
        else (Allowed, m))"

interpretation attempts: sliding_window attempt_stale
  by unfold_locales (auto simp: attempt_stale_def)

section \<open>Runs of call attempts\<close>

text \<open>
  A run of attempts of many users, each with the number of calls in progress the B2BUA reports.
  \<open>allowed_times user\<close> is when \<open>user\<close> was let through.
\<close>

fun allowed_times ::
  "string \<Rightarrow> (instant \<times> string \<times> nat) list \<Rightarrow> user_limits_manager \<Rightarrow> instant list"
where
  "allowed_times user [] m = []"
| "allowed_times user ((now, caller, concurrent) # rest) m =
     (let (d, m') = check_and_record now caller concurrent m
      in (if caller = user \<and> d = Allowed then [now] else []) @ allowed_times user rest m')"

text \<open>The attempts of \<open>user\<close> that reach the rate window: not refused for concurrency.\<close>

definition rate_arrivals ::
  "string \<Rightarrow> nat \<Rightarrow> (instant \<times> string \<times> nat) list \<Rightarrow> instant list"
where
  "rate_arrivals user max_concurrent evs =
     map fst (filter (\<lambda>(now, caller, concurrent).
       caller = user \<and> \<not> (0 < max_concurrent \<and> max_concurrent \<le> concurrent)) evs)"

lemma check_and_record_frame:
  "um_enabled (snd (check_and_record now u c m)) = um_enabled m"
  "limits_for user (snd (check_and_record now u c m)) = limits_for user m"
  "user \<noteq> u \<Longrightarrow> attempts_of (snd (check_and_record now u c m)) user = attempts_of m user"
  by (auto simp: check_and_record_def limits_for_def attempts_of_def hm_get_insert Let_def
      split: prod.splits option.splits)

text \<open>On one user with a rate limit, the code is the sliding-window limiter.\<close>

lemma check_and_record_admit:
  assumes "um_enabled m" and "limits_for user m = (mc, cpm)" and "0 < cpm"
    and "\<not> (0 < mc \<and> mc \<le> c)"
  shows "(fst (check_and_record now user c m) = Allowed) = fst (admit attempt_stale cpm now (attempts_of m user))"
    and "attempts_of (snd (check_and_record now user c m)) user
           = snd (admit attempt_stale cpm now (attempts_of m user))"
  using assms by (auto simp: check_and_record_def admit_def attempts_of_def hm_get_insert Let_def)

lemma check_and_record_concurrent:
  assumes "um_enabled m" and "limits_for user m = (mc, cpm)" and "0 < mc" "mc \<le> c"
  shows "check_and_record now user c m = (ConcurrentExceeded c mc, m)"
  using assms by (simp add: check_and_record_def)

lemma allowed_times_admitted:
  assumes "um_enabled m" and "limits_for user m = (mc, cpm)" and "0 < cpm"
  shows "allowed_times user evs m =
    admitted attempt_stale cpm (rate_arrivals user mc evs) (attempts_of m user)"
  using assms
proof (induction user evs m rule: allowed_times.induct)
  case (1 user m)
  then show ?case by (simp add: rate_arrivals_def)
next
  case (2 user now caller c rest m)
  let ?m = "snd (check_and_record now caller c m)"
  have IH: "allowed_times user rest ?m =
      admitted attempt_stale cpm (rate_arrivals user mc rest) (attempts_of ?m user)"
    using "2.IH" [OF refl prod.collapse] "2.prems"
    by (simp add: check_and_record_frame)
  show ?case
  proof (cases "caller = user")
    case False
    with IH check_and_record_frame(3) [of user caller now c m] show ?thesis
      by (simp add: rate_arrivals_def split_beta)
  next
    case True
    show ?thesis
    proof (cases "0 < mc \<and> mc \<le> c")
      case blocked: True
      with True IH check_and_record_concurrent [OF "2.prems"(1,2)] show ?thesis
        by (simp add: rate_arrivals_def)
    next
      case False
      note A = check_and_record_admit [OF "2.prems" False, of now]
      from False True have ra: "rate_arrivals user mc ((now, caller, c) # rest) = now # rate_arrivals user mc rest"
        by (auto simp: rate_arrivals_def)
      show ?thesis
        unfolding ra using IH A True by (simp add: split_beta Let_def)
    qed
  qed
qed

section \<open>Properties\<close>

lemma sorted_rate_arrivals: "sorted (map fst evs) \<Longrightarrow> sorted (rate_arrivals user mc evs)"
  unfolding rate_arrivals_def by (rule sorted_filter)

text \<open>C38: However the attempts of all users interleave, a user with a per-minute limit is let
  through at most that many times in any sixty-second window, counted from a fresh rate
  window on.\<close>

theorem calls_per_minute_bounded:
  assumes "um_enabled m" and "limits_for user m = (mc, cpm)" and "0 < cpm"
    and "attempts_of m user = []" and "sorted (map fst evs)"
  shows "length (filter (\<lambda>t. t \<le> now \<and> now - t \<le> secs 60) (allowed_times user evs m)) \<le> cpm"
proof -
  have "in_window attempt_stale now (admitted attempt_stale cpm (rate_arrivals user mc evs) []) \<le> cpm"
    using sorted_rate_arrivals [OF assms(5)] assms(3) by (rule attempts.at_most_limit_per_window)
  then show ?thesis
    using allowed_times_admitted [OF assms(1-3)] assms(4)
    by (simp add: in_window_def attempt_stale_def not_less)
qed

theorem calls_per_minute_bounded_witness:
  "length (filter (\<lambda>t. t \<le> 9 \<and> 9 - t \<le> secs 60)
     (allowed_times ''bob'' [(1, ''bob'', 0), (2, ''eve'', 0), (3, ''bob'', 0), (4, ''bob'', 0)]
       (user_limits_new (default_user_limits_config\<lparr>ulc_default_max_calls_per_minute := 2\<rparr>)))) \<le> 2"
  by (rule calls_per_minute_bounded [where mc = 4])
    (simp_all add: user_limits_new_def default_user_limits_config_def limits_for_def attempts_of_def)

text \<open>A refusal for the call rate names a waiting time between one second and one minute, and
  it is honest: when the user stays quiet and tries again after more than that time, the rate
  limit does not refuse again.\<close>

theorem retry_after_is_honest:
  assumes "check_and_record now user c m = (RateExceeded current limit retry, m')"
    and "\<forall>t \<in> set (attempts_of m user). t \<le> now" and "now + secs retry < now'"
  shows "1 \<le> retry \<and> retry \<le> 60 \<and> limit \<le> current \<and>
    (current = limit \<longrightarrow> (\<forall>cur lim r. fst (check_and_record now' user c m') \<noteq> RateExceeded cur lim r))"
proof -
  obtain mc cpm where lim: "limits_for user m = (mc, cpm)" by (cases "limits_for user m")
  define ts where "ts = prune_front attempt_stale now (attempts_of m user)"
  from assms(1) lim have en: "um_enabled m" and cpm: "0 < cpm" "cpm \<le> length ts"
    and cur: "current = length ts" "limit = cpm"
    and retry: "retry = max (case ts of [] \<Rightarrow> 60 | t # _ \<Rightarrow> 60 - as_secs (now - t)) 1"
    and m': "m' = m\<lparr>um_rate_windows := hm_insert user ts (um_rate_windows m)\<rparr>"
    and mc: "\<not> (0 < mc \<and> mc \<le> c)"
    by (auto simp: check_and_record_def Let_def ts_def split: if_splits)
  obtain t ts' where t: "ts = t # ts'" using cpm by (cases ts) auto
  have b: "1 \<le> retry" "retry \<le> 60" using retry by (auto simp: t)
  have "attempt_stale now' t"
  proof -
    have "secs 60 < now' - t"
    proof -
      have "60 - as_secs (now - t) \<le> retry" by (simp add: retry t)
      then have "secs 60 \<le> secs retry + secs (as_secs (now - t))" by (simp add: secs_def)
      moreover have "secs (as_secs (now - t)) \<le> now - t" by (simp add: secs_def as_secs_def)
      moreover have "t \<in> set (attempts_of m user)"
        using t unfolding ts_def prune_front_def
        by (metis list.set_intros(1) set_dropWhileD)
      then have "t \<le> now" using assms(2) by blast
      ultimately show ?thesis using assms(3) by linarith
    qed
    then show ?thesis by (simp add: attempt_stale_def)
  qed
  then have "length (prune_front attempt_stale now' ts) \<le> length ts'"
    by (simp add: t prune_front_def length_dropWhile_le)
  then have "current = limit \<Longrightarrow> length (prune_front attempt_stale now' (attempts_of m' user)) < cpm"
    using cur by (simp add: m' attempts_of_def hm_get_insert t)
  moreover have "um_enabled m'" "limits_for user m' = (mc, cpm)"
    using en lim by (auto simp: m' limits_for_def)
  ultimately have "current = limit \<longrightarrow> (\<forall>cur lim r. fst (check_and_record now' user c m') \<noteq> RateExceeded cur lim r)"
    using mc by (auto simp: check_and_record_def Let_def)
  with b cur cpm show ?thesis by simp
qed

theorem retry_after_is_honest_witness:
  "\<exists>m m'. check_and_record (secs 10) ''bob'' 0 m = (RateExceeded 1 1 50, m') \<and>
     (\<forall>cur lim r. fst (check_and_record (secs 61) ''bob'' 0 m') \<noteq> RateExceeded cur lim r)"
proof -
  let ?m = "(user_limits_new (default_user_limits_config\<lparr>ulc_default_max_calls_per_minute := 1\<rparr>))
      \<lparr>um_rate_windows := [(''bob'', [0])]\<rparr>"
  have c: "check_and_record (secs 10) ''bob'' 0 ?m = (RateExceeded 1 1 50, ?m)"
    by (simp add: check_and_record_def user_limits_new_def default_user_limits_config_def
        limits_for_def attempts_of_def prune_front_def attempt_stale_def hm_insert_def Let_def)
  have "\<forall>t \<in> set (attempts_of ?m ''bob''). t \<le> secs 10" and "secs 10 + secs 50 < secs 61"
    by (simp_all add: attempts_of_def secs_def)
  from retry_after_is_honest [OF c this] c show ?thesis by blast
qed

end
