(* ===== verification/Api_Rate_Limit.thy ===== *)
theory Api_Rate_Limit
  imports Net Text Sliding_Window
begin

text \<open>
  \<^verbatim>\<open>crates/sbc-management/src/rate_limit.rs\<close>: the per-address request limiter of the
  management API, with its bound on the number of tracked clients, and the derivation of a
  request's client address behind reverse proxies.
\<close>

section \<open>The limiter\<close>

definition MAX_TRACKED_CLIENTS :: nat where "MAX_TRACKED_CLIENTS = 4096"

record rate_limiter =
  rl_inner :: "(ip_addr, instant list) hmap"
  rl_limit :: nat
  rl_window :: duration

definition rate_limiter_new :: "nat \<Rightarrow> duration \<Rightarrow> rate_limiter" where
  "rate_limiter_new limit window = \<lparr>rl_inner = [], rl_limit = limit, rl_window = window\<rparr>"

definition per_minute :: "nat \<Rightarrow> rate_limiter" where
  "per_minute limit = rate_limiter_new limit (secs 60)"

definition hit_stale :: "duration \<Rightarrow> instant \<Rightarrow> instant \<Rightarrow> bool" where
  "hit_stale window now t \<longleftrightarrow> window \<le> now - t"

definition last_hit :: "instant \<Rightarrow> ip_addr \<times> instant list \<Rightarrow> instant" where
  "last_hit now e = (if snd e = [] then now else last (snd e))"

definition make_room :: "instant \<Rightarrow> rate_limiter \<Rightarrow> rate_limiter" where
  "make_room now l =
     (let kept = hm_retain (\<lambda>_ hits. hits \<noteq> [] \<and> now - last hits < rl_window l) (rl_inner l)
      in if length kept < MAX_TRACKED_CLIENTS then l\<lparr>rl_inner := kept\<rparr>
         else case min_by_key (last_hit now) kept of
                Some (ip, _) \<Rightarrow> l\<lparr>rl_inner := hm_remove ip kept\<rparr>
              | None \<Rightarrow> l\<lparr>rl_inner := kept\<rparr>)"

definition hits_of :: "rate_limiter \<Rightarrow> ip_addr \<Rightarrow> instant list" where
  "hits_of l ip = (case hm_get (rl_inner l) ip of None \<Rightarrow> [] | Some ts \<Rightarrow> ts)"

definition rl_check :: "instant \<Rightarrow> ip_addr \<Rightarrow> rate_limiter \<Rightarrow> bool \<times> rate_limiter" where
  "rl_check now ip l =
     (if rl_limit l = 0 then (True, l)
      else
        let l1 = (if \<not> hm_contains (rl_inner l) ip \<and> MAX_TRACKED_CLIENTS \<le> length (rl_inner l)
                  then make_room now l else l);
            entry = prune_front (hit_stale (rl_window l)) now (hits_of l1 ip)
        in if rl_limit l \<le> length entry
           then (False, l1\<lparr>rl_inner := hm_insert ip entry (rl_inner l1)\<rparr>)
           else (True, l1\<lparr>rl_inner := hm_insert ip (entry @ [now]) (rl_inner l1)\<rparr>))"

definition tracked :: "rate_limiter \<Rightarrow> nat" where
  "tracked l = length (rl_inner l)"

section \<open>The client address\<close>

definition UNKNOWN_IP :: ip_addr where "UNKNOWN_IP = V4 0 0 0 0"

definition default_trusted_proxies :: "ip_addr list" where
  "default_trusted_proxies = [V4 127 0 0 1, V6 [0, 0, 0, 0, 0, 0, 0, 1]]"

record api_request =
  req_peer :: "ip_addr option"
  req_x_real_ip :: "string option"
  req_x_forwarded_for :: "string option"

definition parse_hop :: "string \<Rightarrow> ip_addr option" where
  "parse_hop s0 =
     (let s = trim s0 in
      if s = '''' then None
      else case parse_ip s of
             Some ip \<Rightarrow> Some ip
           | None \<Rightarrow>
               (case parse_sock s of
                  Some a \<Rightarrow> Some (fst a)
                | None \<Rightarrow>
                    (case strip_prefix ''['' s of
                       None \<Rightarrow> None
                     | Some r \<Rightarrow> parse_ip (hd (split_on CHR '']'' r)))))"

definition client_ip_with :: "ip_addr list \<Rightarrow> api_request \<Rightarrow> ip_addr" where
  "client_ip_with trusted req =
     (case req_peer req of
        None \<Rightarrow> UNKNOWN_IP
      | Some peer \<Rightarrow>
          if peer \<notin> set trusted then peer
          else
            case Option.bind (req_x_real_ip req) parse_hop of
              Some ip \<Rightarrow> ip
            | None \<Rightarrow>
                (case req_x_forwarded_for req of
                   None \<Rightarrow> peer
                 | Some hop_list \<Rightarrow>
                     (let hops = List.map_filter parse_hop (split_on CHR '','' hop_list)
                      in case find (\<lambda>h. h \<notin> set trusted) (rev hops) of
                           Some ip \<Rightarrow> ip
                         | None \<Rightarrow> peer)))"

definition client_ip :: "api_request \<Rightarrow> ip_addr" where
  "client_ip req = client_ip_with default_trusted_proxies req"

interpretation hits: sliding_window "hit_stale w" for w
  by unfold_locales (auto simp: hit_stale_def)

section \<open>The table bound\<close>

lemma make_room_bound:
  assumes "hm_ok (rl_inner l)" and "length (rl_inner l) \<le> MAX_TRACKED_CLIENTS"
  shows "hm_ok (rl_inner (make_room now l)) \<and> length (rl_inner (make_room now l)) < MAX_TRACKED_CLIENTS"
proof -
  define kept where "kept = hm_retain (\<lambda>_ hits. hits \<noteq> [] \<and> now - last hits < rl_window l) (rl_inner l)"
  have ok: "hm_ok kept" and len: "length kept \<le> MAX_TRACKED_CLIENTS"
    using assms length_hm_retain order_trans unfolding kept_def by (auto intro: order_trans)
  show ?thesis
  proof (cases "length kept < MAX_TRACKED_CLIENTS")
    case True
    with ok show ?thesis by (simp add: make_room_def kept_def [symmetric])
  next
    case False
    then have "kept \<noteq> []" by (auto simp: MAX_TRACKED_CLIENTS_def)
    then obtain e where e: "min_by_key (last_hit now) kept = Some e"
      by (cases "min_by_key (last_hit now) kept") auto
    obtain ip ts where [simp]: "e = (ip, ts)" by (cases e)
    from min_by_key_Some [OF e] have "hm_contains kept ip" by (force simp: hm_contains_iff)
    with False ok len e show ?thesis
      by (simp add: make_room_def kept_def [symmetric] length_hm_remove MAX_TRACKED_CLIENTS_def)
  qed
qed

definition rl_inv :: "rate_limiter \<Rightarrow> bool" where
  "rl_inv l \<longleftrightarrow> hm_ok (rl_inner l) \<and> length (rl_inner l) \<le> MAX_TRACKED_CLIENTS"

lemma rl_check_inv: "rl_inv l \<Longrightarrow> rl_inv (snd (rl_check now ip l))"
proof -
  assume inv: "rl_inv l"
  have ins: "rl_inv (l'\<lparr>rl_inner := hm_insert ip ts (rl_inner l')\<rparr>)"
    if "hm_ok (rl_inner l')" "length (rl_inner l') \<le> MAX_TRACKED_CLIENTS"
      "\<not> hm_contains (rl_inner l') ip \<longrightarrow> length (rl_inner l') < MAX_TRACKED_CLIENTS" for l' ts
    using that by (auto simp: rl_inv_def length_hm_insert)
  show ?thesis
    using inv make_room_bound [of l now] ins
    by (auto simp: rl_check_def Let_def rl_inv_def)
qed

text \<open>The requests a limiter sees, in order: when and from which address.\<close>

fun rl_run :: "(instant \<times> ip_addr) list \<Rightarrow> rate_limiter \<Rightarrow> bool list \<times> rate_limiter" where
  "rl_run [] l = ([], l)"
| "rl_run ((now, ip) # rs) l =
     (let (ok, l1) = rl_check now ip l; (oks, l2) = rl_run rs l1 in (ok # oks, l2))"

lemma rl_run_inv: "rl_inv l \<Longrightarrow> rl_inv (snd (rl_run rs l))"
proof (induction rs arbitrary: l)
  case Nil
  then show ?case by simp
next
  case (Cons r rs)
  obtain now ip where [simp]: "r = (now, ip)" by (cases r)
  from Cons.IH [OF rl_check_inv [OF Cons.prems]] show ?case
    by (simp add: split_beta)
qed

text \<open>
  Whatever requests arrive, from however many addresses, the limiter never tracks more than
  4096 clients.
\<close>

theorem tracked_clients_bounded:
  "tracked (snd (rl_run requests (rate_limiter_new limit window))) \<le> MAX_TRACKED_CLIENTS"
proof -
  have "rl_inv (rate_limiter_new limit window)" by (simp add: rl_inv_def rate_limiter_new_def)
  from rl_run_inv [OF this] show ?thesis by (simp add: rl_inv_def tracked_def)
qed

section \<open>The request budget\<close>

text \<open>
  While the table has room the limiter is, for each address, the window counter of
  \<open>Sliding_Window\<close> on that address's own hits, and no other address is touched.
\<close>

lemma rl_check_admit:
  assumes "0 < rl_limit l" and "length (rl_inner l) < MAX_TRACKED_CLIENTS \<or> hm_contains (rl_inner l) ip"
  shows "fst (rl_check now ip l) = fst (admit (hit_stale (rl_window l)) (rl_limit l) now (hits_of l ip))"
    and "hits_of (snd (rl_check now ip l)) ip' =
         (if ip' = ip then snd (admit (hit_stale (rl_window l)) (rl_limit l) now (hits_of l ip))
          else hits_of l ip')"
  using assms by (auto simp: rl_check_def admit_def Let_def hits_of_def hm_get_insert)

lemma rl_check_keeps [simp]:
  "rl_limit (snd (rl_check now ip l)) = rl_limit l"
  "rl_window (snd (rl_check now ip l)) = rl_window l"
  by (auto simp: rl_check_def make_room_def Let_def split: option.splits)

text \<open>When the requests of one address were let through, in a run.\<close>

definition accepted :: "ip_addr \<Rightarrow> (instant \<times> ip_addr) list \<Rightarrow> bool list \<Rightarrow> instant list" where
  "accepted ip rs oks = map (fst \<circ> fst) (filter (\<lambda>(r, ok). snd r = ip \<and> ok) (zip rs oks))"

definition arrivals_of :: "ip_addr \<Rightarrow> (instant \<times> ip_addr) list \<Rightarrow> instant list" where
  "arrivals_of ip rs = map fst (filter (\<lambda>r. snd r = ip) rs)"

lemma rl_check_keys:
  assumes "hm_ok (rl_inner l)" and "fst ` set (rl_inner l) \<subseteq> A" and "finite A"
    and "card A \<le> MAX_TRACKED_CLIENTS" and "ip \<in> A"
  shows "length (rl_inner l) < MAX_TRACKED_CLIENTS \<or> hm_contains (rl_inner l) ip"
proof (rule disjCI)
  assume "\<not> hm_contains (rl_inner l) ip"
  with assms(2,5) have sub: "fst ` set (rl_inner l) \<subset> A" by (auto simp: hm_contains_iff)
  have "length (rl_inner l) = card (fst ` set (rl_inner l))"
    using assms(1) distinct_card [of "map fst (rl_inner l)"] by (simp add: hm_ok_def)
  also have "\<dots> < card A" using psubset_card_mono [OF assms(3) sub] .
  finally show "length (rl_inner l) < MAX_TRACKED_CLIENTS" using assms(4) by simp
qed

lemma keys_hm_insert: "fst ` set (hm_insert k v m) = insert k (fst ` set m)"
  using dom_update [of k v m] by (simp add: hm_insert_def dom_map_of_conv_image_fst [symmetric])

lemma rl_check_inner:
  assumes "0 < rl_limit l" and "length (rl_inner l) < MAX_TRACKED_CLIENTS \<or> hm_contains (rl_inner l) ip"
  shows "\<exists>ts. rl_inner (snd (rl_check now ip l)) = hm_insert ip ts (rl_inner l)"
  using assms by (auto simp: rl_check_def Let_def)

lemma rl_run_admitted:
  assumes "0 < rl_limit l" and "hm_ok (rl_inner l)" and "fst ` set (rl_inner l) \<subseteq> A" and "finite A"
    and "card A \<le> MAX_TRACKED_CLIENTS" and "snd ` set rs \<subseteq> A"
  shows "accepted ip rs (fst (rl_run rs l)) =
         admitted (hit_stale (rl_window l)) (rl_limit l) (arrivals_of ip rs) (hits_of l ip)"
  using assms
proof (induction rs arbitrary: l)
  case Nil
  then show ?case by (simp add: accepted_def arrivals_of_def)
next
  case (Cons r rs)
  obtain now a where r: "r = (now, a)" by (cases r)
  let ?l = "snd (rl_check now a l)"
  from Cons.prems(6) have a: "a \<in> A" by (simp add: r)
  note room = rl_check_keys [OF Cons.prems(2-5) a]
  obtain ts where ts: "rl_inner ?l = hm_insert a ts (rl_inner l)"
    using rl_check_inner [OF Cons.prems(1) room] by blast
  have ih: "accepted ip rs (fst (rl_run rs ?l)) =
      admitted (hit_stale (rl_window l)) (rl_limit l) (arrivals_of ip rs) (hits_of ?l ip)"
    using Cons.IH [of ?l] Cons.prems a by (simp add: ts keys_hm_insert)
  then show ?case
    using rl_check_admit [OF Cons.prems(1) room, of now]
    by (auto simp: r accepted_def arrivals_of_def split_beta)
qed

text \<open>
  From a fresh limiter, with no more than 4096 distinct clients and a clock that does not go
  back, in no window does an address have more than \<open>limit\<close> requests let through.
\<close>

theorem requests_per_window_bounded:
  assumes "0 < limit" and "sorted (map fst requests)"
    and "card (snd ` set requests) \<le> MAX_TRACKED_CLIENTS"
  shows "in_window (hit_stale window) now
           (accepted ip requests (fst (rl_run requests (rate_limiter_new limit window)))) \<le> limit"
proof -
  have "sorted (arrivals_of ip requests)"
    using assms(2) unfolding arrivals_of_def by (induction requests) auto
  moreover have "accepted ip requests (fst (rl_run requests (rate_limiter_new limit window))) =
      admitted (hit_stale window) limit (arrivals_of ip requests) []"
    using rl_run_admitted [of "rate_limiter_new limit window" "snd ` set requests" requests ip] assms
    by (simp add: rate_limiter_new_def hits_of_def)
  ultimately show ?thesis
    using hits.at_most_limit_per_window assms(1) by simp
qed

theorem requests_per_window_bounded_witness:
  "fst (rl_run [(5, V4 10 0 0 1), (6, V4 10 0 0 1), (7, V4 10 0 0 1)] (rate_limiter_new 2 100)) =
     [True, True, False] \<and>
   in_window (hit_stale 100) 7
     (accepted (V4 10 0 0 1) [(5, V4 10 0 0 1), (6, V4 10 0 0 1), (7, V4 10 0 0 1)]
       (fst (rl_run [(5, V4 10 0 0 1), (6, V4 10 0 0 1), (7, V4 10 0 0 1)] (rate_limiter_new 2 100)))) \<le> 2"
proof
  show "fst (rl_run [(5, V4 10 0 0 1), (6, V4 10 0 0 1), (7, V4 10 0 0 1)] (rate_limiter_new 2 100)) =
     [True, True, False]"
    by (simp add: rl_check_def rate_limiter_new_def Let_def hits_of_def prune_front_def hit_stale_def
        MAX_TRACKED_CLIENTS_def hm_insert_def)
qed (rule requests_per_window_bounded, simp_all add: MAX_TRACKED_CLIENTS_def)

section \<open>The client address\<close>

lemma rightmost_untrusted:
  assumes "\<forall>h \<in> set proxies. parse_hop h \<in> Some ` set trusted" and "parse_hop real = Some ip" and "ip \<notin> set trusted"
  shows "find (\<lambda>h. h \<notin> set trusted) (rev (List.map_filter parse_hop (words @ [real] @ proxies))) = Some ip"
proof -
  have "\<forall>h \<in> set (rev (List.map_filter parse_hop proxies)). \<not> h \<notin> set trusted"
    using assms(1) by (fastforce simp: set_map_filter)
  from find_skip [OF this assms(3)] assms(2) show ?thesis by (simp add: List.map_filter_def)
qed

lemma split_hops:
  assumes "CHR '','' \<notin> set real" and "\<forall>h \<in> set proxies. CHR '','' \<notin> set h"
  shows "split_on CHR '','' (real @ concat (map (\<lambda>h. '','' @ h) proxies)) = real # proxies"
  using assms
proof (induction proxies arbitrary: real)
  case Nil
  then show ?case by (simp add: split_on_word)
next
  case (Cons h hs)
  then show ?case by (simp add: split_on_append split_on_word)
qed

text \<open>
  Behind a trusted proxy that sets no usable \<^verbatim>\<open>X-Real-IP\<close>, the client address is the
  rightmost \<^verbatim>\<open>X-Forwarded-For\<close> hop that is not a trusted proxy: whatever a client forged to the
  left of it has no effect. The same request from a peer outside the trusted set counts for that
  peer, whatever its headers say.
\<close>

theorem client_address_cannot_be_spoofed:
  assumes "req_peer req = Some peer" and "peer \<in> set trusted"
    and "Option.bind (req_x_real_ip req) parse_hop = None"
    and "req_x_forwarded_for req =
           Some (forged @ '','' @ real @ concat (map (\<lambda>h. '','' @ h) proxies))"
    and "CHR '','' \<notin> set real" and "parse_hop real = Some ip" and "ip \<notin> set trusted"
    and "\<forall>h \<in> set proxies. CHR '','' \<notin> set h \<and> parse_hop h \<in> Some ` set trusted"
  shows "client_ip_with trusted req = ip \<and>
         (stranger \<notin> set trusted \<longrightarrow> client_ip_with trusted (req\<lparr>req_peer := Some stranger\<rparr>) = stranger)"
proof -
  have "split_on CHR '','' (forged @ '','' @ real @ concat (map (\<lambda>h. '','' @ h) proxies)) =
        split_on CHR '','' forged @ [real] @ proxies"
    using split_hops [of real proxies] assms(5,8) by (simp add: split_on_append)
  moreover have "find (\<lambda>h. h \<notin> set trusted)
      (rev (List.map_filter parse_hop (split_on CHR '','' forged @ [real] @ proxies))) = Some ip"
    using assms by (intro rightmost_untrusted) auto
  ultimately show ?thesis using assms(1-4) by (simp add: client_ip_with_def Let_def)
qed

lemma parse_hop_examples:
  "parse_hop '' 203.0.113.9'' = Some (V4 203 0 113 9)"
  "parse_hop ''127.0.0.1'' = Some (V4 127 0 0 1)"
  by (simp_all add: parse_hop_def trim_def trim_start_def trim_end_def is_space_def parse_ip_def
      read_ip_def read_ipv4_def read_octet_def read_dot_octet_def read_number_def is_digit_of_def
      digit_value_def digits_value_def Let_def)

theorem client_address_cannot_be_spoofed_witness:
  "client_ip_with [V4 127 0 0 1]
     \<lparr>req_peer = Some (V4 127 0 0 1), req_x_real_ip = None,
      req_x_forwarded_for = Some ''10.9.9.9, 203.0.113.9,127.0.0.1''\<rparr> = V4 203 0 113 9"
  using client_address_cannot_be_spoofed
    [of "\<lparr>req_peer = Some (V4 127 0 0 1), req_x_real_ip = None,
         req_x_forwarded_for = Some ''10.9.9.9, 203.0.113.9,127.0.0.1''\<rparr>"
      "V4 127 0 0 1" "[V4 127 0 0 1]" "''10.9.9.9''" "'' 203.0.113.9''" "[''127.0.0.1'']"
      "V4 203 0 113 9"]
  by (simp add: parse_hop_examples)

end
