(* ===== verification/Destination_Policy.thy ===== *)
theory Destination_Policy
  imports Net Text "HOL-Library.Product_Lexorder"
begin

text \<open>
  \<^verbatim>\<open>crates/sbc-core/src/security/destination.rs\<close>: toll-fraud blocking by number prefix. A dialed
  string is brought to international form, the rules that apply to it and to the caller are
  ranked, and the best one decides.
\<close>

section \<open>Data\<close>

record destination_rule_toml =
  drt_prefix :: string
  drt_action :: string
  drt_user :: "string option"
  drt_description :: string

record destinations_config =
  dsc_enabled :: bool
  dsc_default_action :: string
  dsc_default_country_code :: string
  dsc_rules :: "destination_rule_toml list"
  dsc_seed_irsf_rules :: bool

definition default_destinations_config :: destinations_config where
  "default_destinations_config =
     \<lparr>dsc_enabled = True, dsc_default_action = ''allow'', dsc_default_country_code = ''33'',
      dsc_rules = [], dsc_seed_irsf_rules = True\<rparr>"

record destination_rule =
  dr_id :: string
  dr_prefix :: string
  dr_deny :: bool
  dr_user :: "string option"
  dr_description :: string
  dr_enabled :: bool

datatype destination_decision = DestAllowed | DestBlocked string string

record destination_policy =
  dp_rules :: "destination_rule list"
  dp_default_deny :: bool
  dp_default_cc :: string
  dp_enabled :: bool
  dp_blocked_total :: nat

definition IRSF_SEED :: "(string \<times> string) list" where
  "IRSF_SEED =
     [(''+881'', ''Global Mobile Satellite System''),
      (''+882'', ''International Networks''),
      (''+883'', ''International Networks''),
      (''+979'', ''International Premium Rate'')]"

section \<open>Operations\<close>

definition rule_of_toml :: "nat \<times> destination_rule_toml \<Rightarrow> destination_rule" where
  "rule_of_toml = (\<lambda>(i, r).
     \<lparr>dr_id = ''cfg-'' @ show_nat i, dr_prefix = drt_prefix r,
      dr_deny = eq_ignore_ascii_case (drt_action r) ''deny'', dr_user = drt_user r,
      dr_description = drt_description r, dr_enabled = True\<rparr>)"

definition irsf_rule :: "string \<times> string \<Rightarrow> destination_rule" where
  "irsf_rule = (\<lambda>(prefix, desc).
     \<lparr>dr_id = ''irsf'' @ prefix, dr_prefix = prefix, dr_deny = True, dr_user = None,
      dr_description = desc, dr_enabled = True\<rparr>)"

definition destination_policy_new :: "destinations_config \<Rightarrow> destination_policy" where
  "destination_policy_new cfg =
     (let rules = map rule_of_toml (enumerate 0 (dsc_rules cfg));
          rules' = (if dsc_seed_irsf_rules cfg \<and> \<not> list_ex dr_deny rules
                    then rules @ map irsf_rule IRSF_SEED else rules)
      in \<lparr>dp_rules = rules',
          dp_default_deny = eq_ignore_ascii_case (dsc_default_action cfg) ''deny'',
          dp_default_cc = dsc_default_country_code cfg, dp_enabled = dsc_enabled cfg,
          dp_blocked_total = 0\<rparr>)"

definition is_separator :: "char \<Rightarrow> bool" where
  "is_separator c \<longleftrightarrow> c \<in> set '' -.''"

definition strip_separators :: "string \<Rightarrow> string" where
  "strip_separators = filter (\<lambda>c. \<not> is_separator c)"

definition canonicalize :: "destination_policy \<Rightarrow> string \<Rightarrow> string" where
  "canonicalize p dialed =
     (let digits = strip_separators dialed in
      if starts_with digits ''+'' then digits
      else if \<not> list_all is_ascii_digit digits then dialed
      else case strip_prefix ''00'' digits of
             Some rest \<Rightarrow> ''+'' @ rest
           | None \<Rightarrow>
               (case strip_prefix ''0'' digits of
                  Some rest \<Rightarrow> ''+'' @ dp_default_cc p @ rest
                | None \<Rightarrow> digits))"

definition applicable :: "destination_policy \<Rightarrow> string \<Rightarrow> string option \<Rightarrow> destination_rule list" where
  "applicable p dialed user =
     filter (\<lambda>r. starts_with (canonicalize p dialed) (dr_prefix r) \<or> starts_with dialed (dr_prefix r))
       (filter (\<lambda>r. dr_user r = None \<or> dr_user r = user)
         (filter dr_enabled (dp_rules p)))"

definition rule_key :: "destination_rule \<Rightarrow> nat \<times> nat \<times> nat" where
  "rule_key r =
     (of_bool (dr_user r \<noteq> None), length (dr_prefix r), of_bool (dr_deny r))"

definition count_block :: "destination_policy \<Rightarrow> destination_policy" where
  "count_block p = p\<lparr>dp_blocked_total := (dp_blocked_total p + 1) mod 2 ^ 64\<rparr>"

definition dest_check ::
  "destination_policy \<Rightarrow> string \<Rightarrow> string option \<Rightarrow> destination_decision \<times> destination_policy"
where
  "dest_check p dialed user =
     (if \<not> dp_enabled p then (DestAllowed, p)
      else case max_by_key rule_key (applicable p dialed user) of
             Some rule \<Rightarrow>
               if dr_deny rule then (DestBlocked (dr_id rule) (dr_description rule), count_block p)
               else (DestAllowed, p)
           | None \<Rightarrow>
               if dp_default_deny p
               then (DestBlocked ''default'' ''default deny'', count_block p)
               else (DestAllowed, p))"

definition list_rules :: "destination_policy \<Rightarrow> destination_rule list" where
  "list_rules p = dp_rules p"

definition replace_rules :: "destination_rule list \<Rightarrow> destination_policy \<Rightarrow> nat \<times> destination_policy" where
  "replace_rules rules p = (length rules, p\<lparr>dp_rules := rules\<rparr>)"

definition add_rule :: "destination_rule \<Rightarrow> destination_policy \<Rightarrow> destination_policy" where
  "add_rule rule p = p\<lparr>dp_rules := dp_rules p @ [rule]\<rparr>"

definition remove_rule :: "string \<Rightarrow> destination_policy \<Rightarrow> bool \<times> destination_policy" where
  "remove_rule i p =
     (let rules = filter (\<lambda>r. dr_id r \<noteq> i) (dp_rules p)
      in (length rules < length (dp_rules p), p\<lparr>dp_rules := rules\<rparr>))"

definition set_default_action :: "bool \<Rightarrow> destination_policy \<Rightarrow> destination_policy" where
  "set_default_action deny p = p\<lparr>dp_default_deny := deny\<rparr>"

definition dest_set_enabled :: "bool \<Rightarrow> destination_policy \<Rightarrow> destination_policy" where
  "dest_set_enabled on p = p\<lparr>dp_enabled := on\<rparr>"

definition set_default_country_code :: "string \<Rightarrow> destination_policy \<Rightarrow> destination_policy" where
  "set_default_country_code cc p = p\<lparr>dp_default_cc := cc\<rparr>"

section \<open>The decision\<close>

fun is_blocked :: "destination_decision \<Rightarrow> bool" where
  "is_blocked DestAllowed = False"
| "is_blocked (DestBlocked _ _) = True"

text \<open>The documented ranking: the scope first, then the length of the prefix.\<close>

definition outranks :: "destination_rule \<Rightarrow> destination_rule \<Rightarrow> bool" where
  "outranks a d \<longleftrightarrow>
     (if dr_user a \<noteq> None \<and> dr_user d = None then True
      else if dr_user a = None \<and> dr_user d \<noteq> None then False
      else length (dr_prefix d) < length (dr_prefix a))"

lemma rule_key_allow_less:
  "\<not> dr_deny a \<Longrightarrow> dr_deny d \<Longrightarrow> rule_key d \<le> rule_key a \<longleftrightarrow> outranks a d"
  by (auto simp: rule_key_def outranks_def less_eq_prod_def)

lemma applicable_iff:
  "r \<in> set (applicable p dialed user) \<longleftrightarrow>
     r \<in> set (dp_rules p) \<and> dr_enabled r \<and> (dr_user r = None \<or> dr_user r = user) \<and>
     (starts_with (canonicalize p dialed) (dr_prefix r) \<or> starts_with dialed (dr_prefix r))"
  by (auto simp: applicable_def)

text \<open>
  An enabled policy blocks a call exactly when some applicable deny rule is outranked by no
  applicable allow rule, or when no rule applies and the default is deny. A user's own rule
  outranks a global one, then the longer prefix does, and on a tie deny wins. The counter moves
  by one with every block and by nothing else.
\<close>

theorem destination_decision_spec:
  assumes "dp_enabled p"
  shows "(is_blocked (fst (dest_check p dialed user)) \<longleftrightarrow>
            (\<exists>d \<in> set (applicable p dialed user). dr_deny d \<and>
               (\<forall>a \<in> set (applicable p dialed user). dr_deny a \<or> \<not> outranks a d)) \<or>
            (applicable p dialed user = [] \<and> dp_default_deny p)) \<and>
         snd (dest_check p dialed user) =
           (if is_blocked (fst (dest_check p dialed user)) then count_block p else p)"
proof (cases "max_by_key rule_key (applicable p dialed user)")
  case None
  with assms show ?thesis by (auto simp: dest_check_def)
next
  case (Some b)
  from max_by_key_Some [OF this]
  have b: "b \<in> set (applicable p dialed user)"
    and top: "\<And>r. r \<in> set (applicable p dialed user) \<Longrightarrow> rule_key r \<le> rule_key b" by auto
  have "dr_deny b \<longleftrightarrow> (\<exists>d \<in> set (applicable p dialed user). dr_deny d \<and>
           (\<forall>a \<in> set (applicable p dialed user). dr_deny a \<or> \<not> outranks a d))" (is "_ \<longleftrightarrow> ?R")
  proof
    assume deny: "dr_deny b"
    have "\<not> outranks a b" if "a \<in> set (applicable p dialed user)" "\<not> dr_deny a" for a
    proof
      assume "outranks a b"
      with that(2) deny have "rule_key b \<le> rule_key a" by (simp add: rule_key_allow_less)
      with top [OF that(1)] have "rule_key a = rule_key b" by (rule antisym)
      with that(2) deny show False by (simp add: rule_key_def)
    qed
    with b deny show ?R by blast
  next
    assume ?R
    then show "dr_deny b" using b top rule_key_allow_less by blast
  qed
  moreover from b have "applicable p dialed user \<noteq> []" by auto
  ultimately show ?thesis using assms Some by (simp add: dest_check_def)
qed

theorem destination_decision_spec_witness:
  "is_blocked (fst (dest_check (destination_policy_new default_destinations_config) ''+88212345'' None))"
  using destination_decision_spec
    [of "destination_policy_new default_destinations_config" "''+88212345''" None]
  by (simp add: destination_policy_new_def default_destinations_config_def applicable_def
      IRSF_SEED_def irsf_rule_def canonicalize_def strip_separators_def is_separator_def
      starts_with_def)

section \<open>Canonical numbers\<close>

lemma digits_no_separator: "list_all is_ascii_digit n \<Longrightarrow> strip_separators n = n"
  unfolding strip_separators_def
  by (rule filter_True) (auto simp: list_all_iff is_ascii_digit_def is_separator_def)

text \<open>
  Every way of dialing one number gives the same canonical number. With or without
  separators, in the international \<^verbatim>\<open>+\<close> and \<^verbatim>\<open>00\<close> forms and, in the home country, in the national
  form, the result is \<^verbatim>\<open>+\<close>, the country code and the subscriber number.
\<close>

theorem canonical_spellings_agree:
  assumes "list_all is_ascii_digit cc" and "list_all is_ascii_digit n"
    and "n = '''' \<or> hd n \<noteq> CHR ''0''" and "dp_default_cc p = cc"
    and "strip_separators dialed \<in> {''+'' @ cc @ n, ''00'' @ cc @ n, ''0'' @ n}"
  shows "canonicalize p dialed = ''+'' @ cc @ n"
proof -
  have z: "is_ascii_digit CHR ''0''" by (simp add: is_ascii_digit_def)
  consider "strip_separators dialed = ''+'' @ cc @ n" | "strip_separators dialed = ''00'' @ cc @ n"
    | "strip_separators dialed = ''0'' @ n" using assms(5) by auto
  then show ?thesis
  proof cases
    case 3
    moreover have "strip_prefix ''00'' (''0'' @ n) = None"
      using assms(3) by (cases n) auto
    ultimately show ?thesis
      using assms z by (simp add: canonicalize_def Let_def starts_with_def)
  qed (use assms z in \<open>simp_all add: canonicalize_def Let_def starts_with_def\<close>)
qed

theorem canonical_spellings_agree_witness:
  "canonicalize (destination_policy_new default_destinations_config) ''06 12-34.56 78'' = ''+33612345678''"
  using canonical_spellings_agree [of "''33''" "''612345678''"
      "destination_policy_new default_destinations_config" "''06 12-34.56 78''"]
  by (simp add: destination_policy_new_def default_destinations_config_def strip_separators_def
      is_separator_def is_ascii_digit_def)

section \<open>The seeded ranges\<close>

text \<open>
  With the shipped configuration a call to one of the four satellite and premium ranges is
  blocked however it is spelled, for every caller, and the block is counted.
\<close>

theorem irsf_ranges_blocked_by_default:
  assumes "(prefix, desc) \<in> set IRSF_SEED"
    and "strip_separators dialed = prefix @ rest \<or>
         (strip_separators dialed = ''00'' @ tl prefix @ rest \<and> list_all is_ascii_digit rest)"
  shows "is_blocked (fst (dest_check (destination_policy_new default_destinations_config) dialed user)) \<and>
         dp_blocked_total (snd (dest_check (destination_policy_new default_destinations_config) dialed user)) = 1"
proof -
  let ?p = "destination_policy_new default_destinations_config"
  have p: "dp_rules ?p = map irsf_rule IRSF_SEED" "dp_enabled ?p" "dp_blocked_total ?p = 0"
    by (simp_all add: destination_policy_new_def default_destinations_config_def)
  have plus: "\<exists>ds. prefix = CHR ''+'' # ds \<and> list_all is_ascii_digit ds \<and> strip_prefix ''00'' ds = None"
    using assms(1) by (auto simp: IRSF_SEED_def is_ascii_digit_def)
  have z: "is_ascii_digit CHR ''0''" by (simp add: is_ascii_digit_def)
  have "canonicalize ?p dialed = prefix @ rest"
    using assms(2) plus z by (auto simp: canonicalize_def Let_def starts_with_def)
  then have app: "irsf_rule (prefix, desc) \<in> set (applicable ?p dialed user)"
    using assms(1) by (auto simp: applicable_iff p irsf_rule_def)
  have deny: "dr_deny r" if "r \<in> set (applicable ?p dialed user)" for r
    using that by (auto simp: applicable_iff p irsf_rule_def)
  obtain b where b: "max_by_key rule_key (applicable ?p dialed user) = Some b"
    using app by (cases "max_by_key rule_key (applicable ?p dialed user)") auto
  with deny max_by_key_Some [OF b] p show ?thesis
    by (simp add: dest_check_def count_block_def)
qed

theorem irsf_ranges_blocked_by_default_witness:
  "is_blocked (fst (dest_check (destination_policy_new default_destinations_config) ''00 979-123'' (Some ''alice'')))"
  using irsf_ranges_blocked_by_default
    [of "''+979''" "''International Premium Rate''" "''00 979-123''" "''123''" "Some ''alice''"]
  by (simp add: IRSF_SEED_def strip_separators_def is_separator_def is_ascii_digit_def)

end
