(* ===== verification/Security_Manager.thy ===== *)
theory Security_Manager
  imports Ban_Manager Destination_Policy User_Limits
begin

text \<open>
  \<^verbatim>\<open>crates/sbc-core/src/security/mod.rs\<close> and \<^verbatim>\<open>events.rs\<close>: the security manager that owns the
  ban manager, the destination policy and the user limits, the ring of recent enforcement events
  and the alerts it publishes. An event bus is the sequence of the events sent on it; a bus that
  is not wired is \<open>None\<close>. The wall clock reading \<open>wall\<close> gives the time stamps.
\<close>

section \<open>The event bus\<close>

datatype sbc_event =
    CallStarted string string string "string option" nat
  | CallAnswered string nat
  | CallEnded string nat string nat
  | Registered string string nat nat
  | Unregistered string string string nat
  | TrunkHealth string string nat nat
  | TrunkRegistered string nat nat
  | TrunkUnregistered string string nat
  | Alert string string string nat
  | ConfigChanged string string string nat

fun category :: "sbc_event \<Rightarrow> string" where
  "category (CallStarted _ _ _ _ _) = ''call''"
| "category (CallAnswered _ _) = ''call''"
| "category (CallEnded _ _ _ _) = ''call''"
| "category (Registered _ _ _ _) = ''registration''"
| "category (Unregistered _ _ _ _) = ''registration''"
| "category (TrunkHealth _ _ _ _) = ''trunk''"
| "category (TrunkRegistered _ _ _) = ''trunk''"
| "category (TrunkUnregistered _ _ _) = ''trunk''"
| "category (Alert _ _ _ _) = ''alert''"
| "category (ConfigChanged _ _ _ _) = ''config''"

type_synonym event_bus = "sbc_event list"

definition publish :: "sbc_event \<Rightarrow> event_bus \<Rightarrow> event_bus" where
  "publish e bus = bus @ [e]"

definition event_ts :: "instant \<Rightarrow> nat" where
  "event_ts wall = as_secs wall"

section \<open>The manager\<close>

record security_features_config =
  sf_ban :: ban_config
  sf_destinations :: destinations_config
  sf_user_limits :: user_limits_config

datatype security_event =
    BanIssued string string nat nat bool nat
  | BanLifted string bool nat
  | AuthFailure string "string option" string nat
  | DestinationBlocked "string option" string string nat
  | UserLimitHit string string nat nat nat
  | IdentityMismatch string string string string nat

record security_manager =
  sm_bans :: ban_manager
  sm_destinations :: destination_policy
  sm_user_limits :: user_limits_manager
  sm_recent_events :: "security_event list"
  sm_event_bus :: "event_bus option"

definition apply_config ::
  "security_features_config \<Rightarrow> bool \<Rightarrow> security_manager \<Rightarrow> security_manager"
where
  "apply_config f apply_limit_defaults m =
     (let d = sf_destinations f; u = sf_user_limits f;
          cc = ulc_default_max_concurrent_calls u; cpm = ulc_default_max_calls_per_minute u;
          lim = set_config_defaults cc cpm (limits_set_enabled (ulc_enabled u) (sm_user_limits m))
      in m\<lparr>sm_bans := ban_set_config (sf_ban f) (sm_bans m),
           sm_destinations :=
             set_default_country_code (dsc_default_country_code d)
               (set_default_action (eq_ignore_ascii_case (dsc_default_action d) ''deny'')
                 (dest_set_enabled (dsc_enabled d) (sm_destinations m))),
           sm_user_limits := (if apply_limit_defaults then set_defaults cc cpm lim else lim)\<rparr>)"

definition security_manager_new :: "security_features_config \<Rightarrow> security_manager" where
  "security_manager_new cfg =
     \<lparr>sm_bans = ban_manager_new (sf_ban cfg),
      sm_destinations = destination_policy_new (sf_destinations cfg),
      sm_user_limits = user_limits_new (sf_user_limits cfg),
      sm_recent_events = [], sm_event_bus = None\<rparr>"

definition set_event_bus :: "event_bus \<Rightarrow> security_manager \<Rightarrow> security_manager" where
  "set_event_bus bus m = m\<lparr>sm_event_bus := Some bus\<rparr>"

fun alert_of :: "security_event \<Rightarrow> string \<times> string" where
  "alert_of (BanIssued ip reason _ _ _ _) = (''ban_issued'', ip @ '' ('' @ reason @ '')'')"
| "alert_of (BanLifted ip _ _) = (''ban_lifted'', ip)"
| "alert_of (AuthFailure ip _ _ _) = (''auth_failure'', ip)"
| "alert_of (DestinationBlocked _ destination rule _) =
     (''destination_blocked'', destination @ '' (rule '' @ rule @ '')'')"
| "alert_of (UserLimitHit user kind _ _ _) = (''user_limit'', user @ '' ('' @ kind @ '')'')"
| "alert_of (IdentityMismatch _ user claimed meth _) =
     (''identity_mismatch'', user @ '' claimed '' @ claimed @ '' on '' @ meth)"

definition push_ring :: "security_event \<Rightarrow> security_event list \<Rightarrow> security_event list" where
  "push_ring e ring = (if 100 \<le> length ring then tl ring else ring) @ [e]"

definition emit :: "instant \<Rightarrow> security_event \<Rightarrow> security_manager \<Rightarrow> security_manager" where
  "emit wall event m =
     (let (kind, detail) = alert_of event
      in m\<lparr>sm_event_bus :=
             map_option (publish (Alert ''warning'' kind detail (event_ts wall))) (sm_event_bus m),
           sm_recent_events := push_ring event (sm_recent_events m)\<rparr>)"

definition record_auth_failure ::
  "(string \<Rightarrow> 'net option) \<Rightarrow> ('net \<Rightarrow> ip_addr \<Rightarrow> bool) \<Rightarrow> instant \<Rightarrow> instant \<Rightarrow>
   ip_addr \<Rightarrow> string option \<Rightarrow> string \<Rightarrow> security_manager \<Rightarrow> ban_entry option \<times> security_manager"
where
  "record_auth_failure net_parse net_contains now wall ip username meth m =
     (let m1 = emit wall (AuthFailure (ip_to_string ip) username meth (event_ts wall)) m;
          (banned, bans) =
            record_failure net_parse net_contains now wall ip (meth @ '' auth failures'') (sm_bans m1);
          m2 = m1\<lparr>sm_bans := bans\<rparr>
      in case banned of
           None \<Rightarrow> (None, m2)
         | Some entry \<Rightarrow>
             (Some entry,
              emit wall (BanIssued (ip_to_string (be_ip entry)) (be_reason entry)
                           (remaining_secs wall entry) (be_failures entry) False (event_ts wall)) m2))"

definition recent_events :: "security_manager \<Rightarrow> security_event list" where
  "recent_events m = sm_recent_events m"

section \<open>The ring of recent events\<close>

text \<open>The newest \<open>n\<close> elements of a log.\<close>

definition newest :: "nat \<Rightarrow> 'a list \<Rightarrow> 'a list" where
  "newest n log = drop (length log - n) log"

lemma length_newest: "length (newest n log) = min n (length log)"
  by (simp add: newest_def)

lemma push_ring_newest: "push_ring e (newest 100 log) = newest 100 (log @ [e])"
proof (cases "length log < 100")
  case True
  then show ?thesis by (simp add: push_ring_def newest_def)
next
  case False
  then have "Suc (length log) - 100 = Suc (length log - 100)" by simp
  with False show ?thesis by (simp add: push_ring_def newest_def drop_Suc tl_drop)
qed

lemma emit_frame [simp]:
  "sm_bans (emit wall e m) = sm_bans m"
  "sm_destinations (emit wall e m) = sm_destinations m"
  "sm_user_limits (emit wall e m) = sm_user_limits m"
  "sm_recent_events (emit wall e m) = push_ring e (sm_recent_events m)"
  by (simp_all add: emit_def split_beta)

lemma emit_bus:
  "sm_event_bus (emit wall e m) =
     map_option (\<lambda>b. b @ [Alert ''warning'' (fst (alert_of e)) (snd (alert_of e)) (event_ts wall)])
       (sm_event_bus m)"
  by (cases "sm_event_bus m") (simp_all add: emit_def publish_def split_beta)

fun emit_all :: "(instant \<times> security_event) list \<Rightarrow> security_manager \<Rightarrow> security_manager" where
  "emit_all [] m = m"
| "emit_all ((wall, e) # es) m = emit_all es (emit wall e m)"

lemma emit_all_ring:
  "sm_recent_events m = newest 100 log \<Longrightarrow>
   sm_recent_events (emit_all es m) = newest 100 (log @ map snd es)"
proof (induction es arbitrary: m log)
  case Nil
  then show ?case by simp
next
  case (Cons x es)
  obtain wall e where x: "x = (wall, e)" by (cases x)
  from Cons.IH [of "emit wall e m" "log @ [e]"] Cons.prems show ?case
    by (simp add: x push_ring_newest)
qed

lemma emit_all_bus:
  "sm_event_bus m = Some bus \<Longrightarrow>
   sm_event_bus (emit_all es m) =
     Some (bus @ map (\<lambda>(wall, e). Alert ''warning'' (fst (alert_of e)) (snd (alert_of e)) (event_ts wall)) es)"
  by (induction es m arbitrary: bus rule: emit_all.induct) (simp_all add: emit_bus)

text \<open>
  The status page shows the newest hundred enforcement events, in order and none lost before
  that, while the bus has every one of them as an alert.
\<close>

theorem recent_events_are_newest:
  "recent_events (emit_all es (set_event_bus [] (security_manager_new cfg))) = newest 100 (map snd es) \<and>
   sm_event_bus (emit_all es (set_event_bus [] (security_manager_new cfg))) =
     Some (map (\<lambda>(wall, e). Alert ''warning'' (fst (alert_of e)) (snd (alert_of e)) (event_ts wall)) es)"
proof
  have "sm_recent_events (set_event_bus [] (security_manager_new cfg)) = newest 100 []"
    by (simp add: set_event_bus_def security_manager_new_def newest_def)
  from emit_all_ring [OF this] show
    "recent_events (emit_all es (set_event_bus [] (security_manager_new cfg))) = newest 100 (map snd es)"
    by (simp add: recent_events_def)
  have "sm_event_bus (set_event_bus [] (security_manager_new cfg)) = Some []"
    by (simp add: set_event_bus_def)
  from emit_all_bus [OF this]
  show "sm_event_bus (emit_all es (set_event_bus [] (security_manager_new cfg))) =
     Some (map (\<lambda>(wall, e). Alert ''warning'' (fst (alert_of e)) (snd (alert_of e)) (event_ts wall)) es)"
    by simp
qed

section \<open>Authentication failures\<close>



end
