(* ===== verification/Trunk.thy ===== *)
theory Trunk
  imports Net Text
begin

text \<open>
  \<^verbatim>\<open>crates/sbc-core/src/routing/trunk.rs\<close>: trunk configuration, number normalization, the health
  of a trunk (failure cooldown and the park a trunk asks for) and the trunk table. A trunk
  identifier is an opaque number, drawn by the caller; \<open>lookup_host\<close> is the DNS resolver. Counters
  wrap at their width, as the release build's arithmetic does.
\<close>

section \<open>Configuration\<close>

type_synonym trunk_id = nat

datatype transport_type = TtUdp | TtTcp | TtTls | TtWs | TtWss

fun to_rsip_transport :: "transport_type \<Rightarrow> transport" where
  "to_rsip_transport TtUdp = Udp"
| "to_rsip_transport TtTcp = Tcp"
| "to_rsip_transport TtTls = Tls"
| "to_rsip_transport TtWs = Ws"
| "to_rsip_transport TtWss = Wss"

fun from_rsip_transport :: "transport \<Rightarrow> transport_type" where
  "from_rsip_transport Udp = TtUdp"
| "from_rsip_transport Tcp = TtTcp"
| "from_rsip_transport Tls = TtTls"
| "from_rsip_transport Ws = TtWs"
| "from_rsip_transport Wss = TtWss"
| "from_rsip_transport _ = TtUdp"

datatype number_format = E164 | National | Local

record trunk_config =
  tc_id :: trunk_id
  tc_name :: string
  tc_enabled :: bool
  tc_transport :: transport_type
  tc_host :: string
  tc_port :: nat
  tc_resolved_addr :: "socket_addr option"
  tc_auth_required :: bool
  tc_username :: "string option"
  tc_password :: "string option"
  tc_realm :: "string option"
  tc_allowed_codecs :: "string list"
  tc_transcoding_enabled :: bool
  tc_max_concurrent_calls :: nat
  tc_calls_per_second :: nat
  tc_allowed_ips :: "string list"
  tc_register_with_trunk :: bool
  tc_registration_interval :: duration
  tc_cost_per_minute :: nat
  tc_priority :: nat
  tc_weight :: nat
  tc_prefix_patterns :: "string list"
  tc_number_format :: number_format
  tc_country_code :: "string option"
  tc_national_prefix :: "string option"
  tc_caller_number_format :: "number_format option"
  tc_caller_number_override :: "string option"
  tc_caller_display_name :: "string option"
  tc_tls_sni :: "string option"
  tc_tls_ca_cert :: "string option"
  tc_tls_verify :: bool
  tc_tls_client_cert :: "string option"
  tc_tls_client_key :: "string option"

definition trunk_config_new :: "trunk_id \<Rightarrow> string \<Rightarrow> trunk_config" where
  "trunk_config_new uuid name =
     \<lparr>tc_id = uuid, tc_name = name, tc_enabled = True, tc_transport = TtUdp, tc_host = '''',
      tc_port = 5060, tc_resolved_addr = None, tc_auth_required = False, tc_username = None,
      tc_password = None, tc_realm = None, tc_allowed_codecs = [''PCMU'', ''PCMA''],
      tc_transcoding_enabled = False, tc_max_concurrent_calls = 100, tc_calls_per_second = 10,
      tc_allowed_ips = [], tc_register_with_trunk = False, tc_registration_interval = secs 300,
      tc_cost_per_minute = 0, tc_priority = 100, tc_weight = 100, tc_prefix_patterns = [],
      tc_number_format = E164, tc_country_code = None, tc_national_prefix = None,
      tc_caller_number_format = None, tc_caller_number_override = None,
      tc_caller_display_name = None, tc_tls_sni = None, tc_tls_ca_cert = None, tc_tls_verify = True,
      tc_tls_client_cert = None, tc_tls_client_key = None\<rparr>"

definition host_port :: "trunk_config \<Rightarrow> string" where
  "host_port t = tc_host t @ '':'' @ show_nat (tc_port t)"

definition destination :: "trunk_config \<Rightarrow> socket_addr option" where
  "destination t =
     (case tc_resolved_addr t of Some a \<Rightarrow> Some a | None \<Rightarrow> parse_sock (host_port t))"

definition resolve_destination ::
  "(string \<Rightarrow> socket_addr list option) \<Rightarrow> trunk_config \<Rightarrow> socket_addr option \<times> trunk_config"
where
  "resolve_destination lookup_host t =
     (case parse_sock (host_port t) of
        Some a \<Rightarrow> (Some a, t\<lparr>tc_resolved_addr := Some a\<rparr>)
      | None \<Rightarrow>
          (case lookup_host (host_port t) of
             Some (a # _) \<Rightarrow> (Some a, t\<lparr>tc_resolved_addr := Some a\<rparr>)
           | Some [] \<Rightarrow> (None, t)
           | None \<Rightarrow> (None, t)))"

definition is_codec_allowed :: "trunk_config \<Rightarrow> string \<Rightarrow> bool" where
  "is_codec_allowed t codec \<longleftrightarrow> list_ex (\<lambda>c. eq_ignore_ascii_case c codec) (tc_allowed_codecs t)"

definition matches_prefix :: "trunk_config \<Rightarrow> string \<Rightarrow> bool" where
  "matches_prefix t number \<longleftrightarrow>
     tc_prefix_patterns t = [] \<or> list_ex (starts_with number) (tc_prefix_patterns t)"

definition lcr_sort_key :: "trunk_config \<Rightarrow> nat \<times> nat" where
  "lcr_sort_key t = (tc_priority t, tc_cost_per_minute t)"

section \<open>Numbers\<close>

definition normalize_caller ::
  "trunk_config \<Rightarrow> string \<Rightarrow> string option \<Rightarrow> string \<times> string option"
where
  "normalize_caller t number display_name =
     (let dn = (case tc_caller_display_name t of Some d \<Rightarrow> Some d | None \<Rightarrow> display_name) in
      case tc_caller_number_override t of
        Some override_num \<Rightarrow> (override_num, dn)
      | None \<Rightarrow>
          ((case tc_caller_number_format t of
              None \<Rightarrow> number
            | Some E164 \<Rightarrow>
                if starts_with number ''+'' then number
                else (case strip_prefix ''0'' number of
                        Some national \<Rightarrow>
                          (case tc_country_code t of
                             Some cc \<Rightarrow> ''+'' @ cc @ national
                           | None \<Rightarrow> number)
                      | None \<Rightarrow> number)
            | Some National \<Rightarrow>
                (case tc_country_code t of
                   Some cc \<Rightarrow>
                     let prefix = ''+'' @ cc in
                     if starts_with number prefix
                     then case_option ''0'' id (tc_national_prefix t) @ drop (length prefix) number
                     else number
                 | None \<Rightarrow> number)
            | Some Local \<Rightarrow>
                (case tc_country_code t of
                   Some cc \<Rightarrow>
                     let prefix = ''+'' @ cc in
                     if starts_with number prefix then drop (length prefix) number else number
                 | None \<Rightarrow> number)), dn))"

definition normalize_number :: "trunk_config \<Rightarrow> string \<Rightarrow> string" where
  "normalize_number t number =
     (case tc_number_format t of
        E164 \<Rightarrow>
          if starts_with number ''+'' then number
          else (case strip_prefix ''0'' number of
                  Some national \<Rightarrow>
                    (case tc_country_code t of
                       Some cc \<Rightarrow> ''+'' @ cc @ national
                     | None \<Rightarrow> number)
                | None \<Rightarrow> number)
      | National \<Rightarrow>
          (case tc_country_code t of
             Some cc \<Rightarrow>
               let prefix = ''+'' @ cc in
               if starts_with number prefix
               then case_option ''0'' id (tc_national_prefix t) @ drop (length prefix) number
               else if starts_with number ''+'' then number
               else number
           | None \<Rightarrow> number)
      | Local \<Rightarrow>
          (case tc_country_code t of
             Some cc \<Rightarrow>
               let prefix = ''+'' @ cc in
               if starts_with number prefix then drop (length prefix) number else number
           | None \<Rightarrow> number))"

section \<open>Trunk state\<close>

record trunk_state =
  ts_trunk_id :: trunk_id
  ts_active_calls :: nat
  ts_total_calls :: nat
  ts_failed_calls :: nat
  ts_registered :: bool
  ts_consecutive_failures :: nat
  ts_disabled_until :: "instant option"
  ts_parked_until :: "instant option"

definition trunk_state_new :: "trunk_id \<Rightarrow> trunk_state" where
  "trunk_state_new i =
     \<lparr>ts_trunk_id = i, ts_active_calls = 0, ts_total_calls = 0, ts_failed_calls = 0,
      ts_registered = False, ts_consecutive_failures = 0, ts_disabled_until = None,
      ts_parked_until = None\<rparr>"

definition unavailable_for :: "instant \<Rightarrow> trunk_state \<Rightarrow> duration option" where
  "unavailable_for now s =
     (case map (\<lambda>until. until - now)
             (filter (\<lambda>until. now < until)
               (List.map_filter id [ts_disabled_until s, ts_parked_until s])) of
        [] \<Rightarrow> None
      | d # ds \<Rightarrow> Some (foldl max d ds))"

definition can_accept_call :: "instant \<Rightarrow> trunk_config \<Rightarrow> trunk_state \<Rightarrow> bool" where
  "can_accept_call now t s \<longleftrightarrow>
     (if unavailable_for now s \<noteq> None then False
      else ts_active_calls s < tc_max_concurrent_calls t)"

definition after :: "instant \<Rightarrow> instant option \<Rightarrow> bool" where
  "after now u \<longleftrightarrow> (case u of None \<Rightarrow> False | Some x \<Rightarrow> now < x)"

definition health_label :: "instant \<Rightarrow> trunk_state \<Rightarrow> string" where
  "health_label now s =
     (if after now (ts_parked_until s) then ''parked''
      else if after now (ts_disabled_until s) then ''down''
      else if 0 < ts_consecutive_failures s then ''degraded''
      else ''up'')"

definition record_success :: "trunk_state \<Rightarrow> trunk_state" where
  "record_success s = s\<lparr>ts_consecutive_failures := 0, ts_disabled_until := None\<rparr>"

definition clear_cooldowns :: "trunk_state \<Rightarrow> trunk_state" where
  "clear_cooldowns s =
     s\<lparr>ts_consecutive_failures := 0, ts_disabled_until := None, ts_parked_until := None\<rparr>"

definition cooldown_secs :: "nat \<Rightarrow> nat" where
  "cooldown_secs failures =
     (if failures \<le> 2 then 0 else if failures \<le> 5 then 30 else if failures \<le> 9 then 120 else 300)"

definition record_trunk_failure :: "instant \<Rightarrow> trunk_state \<Rightarrow> trunk_state" where
  "record_trunk_failure now s =
     (let s1 = s\<lparr>ts_failed_calls := incr64 (ts_failed_calls s),
                 ts_consecutive_failures := incr32 (ts_consecutive_failures s)\<rparr>;
          cd = cooldown_secs (ts_consecutive_failures s1)
      in if 0 < cd then s1\<lparr>ts_disabled_until := Some (now + secs cd)\<rparr> else s1)"

definition park_for :: "instant \<Rightarrow> nat \<Rightarrow> trunk_state \<Rightarrow> trunk_state" where
  "park_for now n s =
     (let until = now + secs n
      in s\<lparr>ts_failed_calls := incr64 (ts_failed_calls s),
           ts_consecutive_failures := incr32 (ts_consecutive_failures s),
           ts_parked_until :=
             Some (case ts_parked_until s of
                     Some current \<Rightarrow> if until < current then current else until
                   | None \<Rightarrow> until)\<rparr>)"

definition increment_calls :: "trunk_state \<Rightarrow> trunk_state" where
  "increment_calls s =
     s\<lparr>ts_active_calls := incr32 (ts_active_calls s), ts_total_calls := incr64 (ts_total_calls s)\<rparr>"

definition decrement_calls :: "trunk_state \<Rightarrow> trunk_state" where
  "decrement_calls s =
     (if 0 < ts_active_calls s then s\<lparr>ts_active_calls := ts_active_calls s - 1\<rparr> else s)"

definition trunk_record_failure :: "trunk_state \<Rightarrow> trunk_state" where
  "trunk_record_failure s = s\<lparr>ts_failed_calls := incr64 (ts_failed_calls s)\<rparr>"

section \<open>The trunk table\<close>

record trunk_manager =
  tm_trunks :: "(trunk_id, trunk_config) hmap"
  tm_states :: "(trunk_id, trunk_state) hmap"

definition trunk_manager_new :: trunk_manager where
  "trunk_manager_new = \<lparr>tm_trunks = [], tm_states = []\<rparr>"

definition add_trunk :: "trunk_config \<Rightarrow> trunk_manager \<Rightarrow> trunk_id \<times> trunk_manager" where
  "add_trunk cfg m =
     (tc_id cfg, m\<lparr>tm_trunks := hm_insert (tc_id cfg) cfg (tm_trunks m),
                   tm_states := hm_insert (tc_id cfg) (trunk_state_new (tc_id cfg)) (tm_states m)\<rparr>)"

definition get_trunk :: "trunk_id \<Rightarrow> trunk_manager \<Rightarrow> trunk_config option" where
  "get_trunk i m = hm_get (tm_trunks m) i"

definition get_state :: "trunk_id \<Rightarrow> trunk_manager \<Rightarrow> trunk_state option" where
  "get_state i m = hm_get (tm_states m) i"

definition update_state :: "trunk_id \<Rightarrow> (trunk_state \<Rightarrow> trunk_state) \<Rightarrow> trunk_manager \<Rightarrow> trunk_manager" where
  "update_state i f m = m\<lparr>tm_states := hm_modify i f (tm_states m)\<rparr>"

definition list_trunks :: "trunk_manager \<Rightarrow> trunk_config list" where
  "list_trunks m = map snd (tm_trunks m)"

definition find_by_name :: "string \<Rightarrow> trunk_manager \<Rightarrow> trunk_config option" where
  "find_by_name name m = find (\<lambda>t. tc_name t = name) (list_trunks m)"

definition update_state_by_name ::
  "string \<Rightarrow> (trunk_state \<Rightarrow> trunk_state) \<Rightarrow> trunk_manager \<Rightarrow> bool \<times> trunk_manager"
where
  "update_state_by_name name f m =
     (case find_by_name name m of
        Some t \<Rightarrow> (True, update_state (tc_id t) f m)
      | None \<Rightarrow> (False, m))"

definition state_by_name :: "string \<Rightarrow> trunk_manager \<Rightarrow> trunk_state option" where
  "state_by_name name m = Option.bind (find_by_name name m) (\<lambda>t. get_state (tc_id t) m)"

text \<open>The second table is touched only when the first had the trunk (\<^verbatim>\<open>&&\<close>).\<close>

definition remove_trunk :: "trunk_id \<Rightarrow> trunk_manager \<Rightarrow> bool \<times> trunk_manager" where
  "remove_trunk i m =
     (if hm_contains (tm_trunks m) i
      then (hm_contains (tm_states m) i,
            m\<lparr>tm_trunks := hm_remove i (tm_trunks m), tm_states := hm_remove i (tm_states m)\<rparr>)
      else (False, m))"

definition name_for_ip :: "string \<Rightarrow> trunk_manager \<Rightarrow> string option" where
  "name_for_ip ip m =
     map_option tc_name
       (find (\<lambda>t. tc_host t = ip \<or>
                  (case tc_resolved_addr t of None \<Rightarrow> False | Some a \<Rightarrow> ip_to_string (fst a) = ip))
             (list_trunks m))"

definition update_trunk_by_name :: "string \<Rightarrow> trunk_config \<Rightarrow> trunk_manager \<Rightarrow> bool \<times> trunk_manager" where
  "update_trunk_by_name name new_config m =
     (case find_by_name name m of
        None \<Rightarrow> (False, m)
      | Some existing \<Rightarrow>
          let c1 = new_config\<lparr>tc_id := tc_id existing\<rparr>;
              c2 = (if tc_host c1 = tc_host existing \<and> tc_port c1 = tc_port existing
                    then c1\<lparr>tc_resolved_addr := tc_resolved_addr existing\<rparr> else c1);
              m1 = (if \<not> tc_enabled existing \<and> tc_enabled c2
                    then update_state (tc_id existing) clear_cooldowns m else m)
          in (True, m1\<lparr>tm_trunks := hm_insert (tc_id existing) c2 (tm_trunks m1)\<rparr>))"

definition remove_by_name :: "string \<Rightarrow> trunk_manager \<Rightarrow> bool \<times> trunk_manager" where
  "remove_by_name name m =
     (case find_by_name name m of Some t \<Rightarrow> remove_trunk (tc_id t) m | None \<Rightarrow> (False, m))"

definition enable_trunk :: "trunk_id \<Rightarrow> trunk_manager \<Rightarrow> bool \<times> trunk_manager" where
  "enable_trunk i m =
     (if hm_contains (tm_trunks m) i
      then (True, update_state i clear_cooldowns
                    (m\<lparr>tm_trunks := hm_modify i (\<lambda>t. t\<lparr>tc_enabled := True\<rparr>) (tm_trunks m)\<rparr>))
      else (False, m))"

definition disable_trunk :: "trunk_id \<Rightarrow> trunk_manager \<Rightarrow> bool \<times> trunk_manager" where
  "disable_trunk i m =
     (if hm_contains (tm_trunks m) i
      then (True, m\<lparr>tm_trunks := hm_modify i (\<lambda>t. t\<lparr>tc_enabled := False\<rparr>) (tm_trunks m)\<rparr>)
      else (False, m))"

definition get_stats :: "trunk_manager \<Rightarrow> (trunk_config \<times> trunk_state) list" where
  "get_stats m =
     List.map_filter (\<lambda>t. map_option (Pair t) (hm_get (tm_states m) (tc_id t))) (list_trunks m)"

definition total_active_calls :: "trunk_manager \<Rightarrow> nat" where
  "total_active_calls m = sum_list (map (ts_active_calls \<circ> snd) (tm_states m)) mod 2 ^ 32"

section \<open>The two tables agree\<close>

inductive tm_step :: "trunk_manager \<Rightarrow> trunk_manager \<Rightarrow> bool" where
  tm_add: "tm_step m (snd (add_trunk cfg m))"
| tm_update_state: "tm_step m (update_state i f m)"
| tm_update_state_by_name: "tm_step m (snd (update_state_by_name name f m))"
| tm_remove: "tm_step m (snd (remove_trunk i m))"
| tm_remove_by_name: "tm_step m (snd (remove_by_name name m))"
| tm_update: "tm_step m (snd (update_trunk_by_name name cfg m))"
| tm_enable: "tm_step m (snd (enable_trunk i m))"
| tm_disable: "tm_step m (snd (disable_trunk i m))"

inductive tm_reachable :: "trunk_manager \<Rightarrow> bool" where
  tm_init: "tm_reachable trunk_manager_new"
| tm_next: "tm_reachable m \<Longrightarrow> tm_step m m' \<Longrightarrow> tm_reachable m'"

definition tm_inv :: "trunk_manager \<Rightarrow> bool" where
  "tm_inv m \<longleftrightarrow> hm_ok (tm_trunks m) \<and> hm_ok (tm_states m) \<and>
     (\<forall>i t. hm_get (tm_trunks m) i = Some t \<longrightarrow> tc_id t = i) \<and>
     (\<forall>i. hm_get (tm_trunks m) i = None \<longleftrightarrow> hm_get (tm_states m) i = None)"

lemma update_state_inv: "tm_inv m \<Longrightarrow> tm_inv (update_state i f m)"
  by (auto simp: tm_inv_def update_state_def hm_get_modify)

lemma update_state_trunks [simp]: "tm_trunks (update_state i f m) = tm_trunks m"
  by (simp add: update_state_def)

lemma insert_trunk_inv:
  assumes "tm_inv m" and "hm_get (tm_trunks m) i \<noteq> None" and "tc_id c = i"
  shows "tm_inv (m\<lparr>tm_trunks := hm_insert i c (tm_trunks m)\<rparr>)"
  using assms by (auto simp: tm_inv_def hm_get_insert)

lemma modify_trunk_inv:
  assumes "tm_inv m" and "\<And>t. tc_id (f t) = tc_id t"
  shows "tm_inv (m\<lparr>tm_trunks := hm_modify i f (tm_trunks m)\<rparr>)"
  using assms by (auto simp: tm_inv_def hm_get_modify)

lemma remove_trunk_inv: "tm_inv m \<Longrightarrow> tm_inv (snd (remove_trunk i m))"
  by (auto simp: tm_inv_def remove_trunk_def hm_get_remove)

lemma find_by_name_Some:
  assumes "find_by_name name m = Some t" and "tm_inv m"
  shows "tc_name t = name" and "hm_get (tm_trunks m) (tc_id t) = Some t"
proof -
  from assms(1) have n: "tc_name t = name" and mem: "t \<in> snd ` set (tm_trunks m)"
    by (auto simp: find_by_name_def list_trunks_def find_Some_iff in_set_conv_nth intro!: image_eqI)
  show "tc_name t = name" by (rule n)
  from mem obtain i where "(i, t) \<in> set (tm_trunks m)" by auto
  with assms(2) have "hm_get (tm_trunks m) i = Some t" by (simp add: tm_inv_def hm_get_in_set)
  with assms(2) show "hm_get (tm_trunks m) (tc_id t) = Some t" by (auto simp: tm_inv_def)
qed

lemma update_trunk_by_name_inv:
  assumes "tm_inv m"
  shows "tm_inv (snd (update_trunk_by_name name cfg m))"
proof (cases "find_by_name name m")
  case None
  with assms show ?thesis by (simp add: update_trunk_by_name_def)
next
  case (Some t)
  note t = find_by_name_Some [OF this assms]
  show ?thesis
    using assms t insert_trunk_inv [OF assms] insert_trunk_inv [OF update_state_inv [OF assms]]
    by (simp add: update_trunk_by_name_def Some Let_def)
qed

lemma tm_step_inv: "tm_step m m' \<Longrightarrow> tm_inv m \<Longrightarrow> tm_inv m'"
proof (induction rule: tm_step.induct)
  case (tm_add m cfg)
  then show ?case by (auto simp: tm_inv_def add_trunk_def hm_get_insert)
next
  case (tm_update_state m i f)
  then show ?case by (rule update_state_inv)
next
  case (tm_update_state_by_name m name f)
  then show ?case by (auto simp: update_state_by_name_def update_state_inv split: option.splits)
next
  case (tm_remove m i)
  then show ?case by (rule remove_trunk_inv)
next
  case (tm_remove_by_name m name)
  then show ?case by (auto simp: remove_by_name_def remove_trunk_inv split: option.splits)
next
  case (tm_update m name cfg)
  then show ?case by (rule update_trunk_by_name_inv)
next
  case (tm_enable m i)
  then show ?case by (simp add: enable_trunk_def update_state_inv modify_trunk_inv)
next
  case (tm_disable m i)
  then show ?case by (simp add: disable_trunk_def modify_trunk_inv)
qed

lemma tm_reachable_inv: "tm_reachable m \<Longrightarrow> tm_inv m"
  by (induction rule: tm_reachable.induct) (auto simp: tm_inv_def trunk_manager_new_def dest: tm_step_inv [unfolded tm_inv_def])

lemma list_trunks_iff:
  assumes "tm_inv m"
  shows "t \<in> set (list_trunks m) \<longleftrightarrow> get_trunk (tc_id t) m = Some t"
proof
  assume "t \<in> set (list_trunks m)"
  then obtain i where "(i, t) \<in> set (tm_trunks m)" by (auto simp: list_trunks_def)
  with assms have "hm_get (tm_trunks m) i = Some t" by (simp add: tm_inv_def hm_get_in_set)
  with assms show "get_trunk (tc_id t) m = Some t" by (auto simp: tm_inv_def get_trunk_def)
next
  assume "get_trunk (tc_id t) m = Some t"
  then have "(tc_id t, t) \<in> set (tm_trunks m)" by (simp add: get_trunk_def map_of_SomeD)
  then show "t \<in> set (list_trunks m)" by (force simp: list_trunks_def)
qed

text \<open>
  In every reachable trunk table, configuration and state go together: a trunk is listed
  under its own identifier, has a state exactly when it has a configuration, and the statistics
  cover every listed trunk once.
\<close>

theorem trunk_tables_agree:
  assumes "tm_reachable m"
  shows "map fst (get_stats m) = list_trunks m \<and> distinct (map tc_id (list_trunks m)) \<and>
         (get_trunk i m = None \<longleftrightarrow> get_state i m = None)"
proof -
  note inv = tm_reachable_inv [OF assms]
  have some: "\<exists>s. hm_get (tm_states m) (tc_id t) = Some s" if "t \<in> set (list_trunks m)" for t
    using that inv unfolding list_trunks_iff [OF inv] get_trunk_def tm_inv_def
    by (metis not_None_eq)
  have "map fst (List.map_filter (\<lambda>t. map_option (Pair t) (hm_get (tm_states m) (tc_id t))) ts) = ts"
    if "set ts \<subseteq> set (list_trunks m)" for ts
    using that
  proof (induction ts)
    case Nil
    then show ?case by (simp add: List.map_filter_def)
  next
    case (Cons t ts)
    with some [of t] show ?case by (auto simp: List.map_filter_def)
  qed
  moreover have "map tc_id (list_trunks m) = map fst (tm_trunks m)"
    using inv by (auto simp: list_trunks_def tm_inv_def hm_get_in_set [symmetric])
  ultimately show ?thesis
    using inv by (auto simp: get_stats_def tm_inv_def hm_ok_def get_trunk_def get_state_def)
qed

theorem trunk_tables_agree_witness:
  "\<exists>m. tm_reachable m \<and> list_trunks m = [trunk_config_new 7 ''t1''] \<and> map fst (get_stats m) = list_trunks m"
proof -
  have r: "tm_reachable (snd (add_trunk (trunk_config_new 7 ''t1'') trunk_manager_new))"
    by (rule tm_next [OF tm_init tm_add])
  have "list_trunks (snd (add_trunk (trunk_config_new 7 ''t1'') trunk_manager_new)) =
      [trunk_config_new 7 ''t1'']"
    by (simp add: list_trunks_def add_trunk_def trunk_manager_new_def hm_insert_def)
  with r trunk_tables_agree [OF r] show ?thesis by blast
qed

section \<open>Health\<close>

lemma unavailable_iff:
  "unavailable_for now s = None \<longleftrightarrow> \<not> after now (ts_disabled_until s) \<and> \<not> after now (ts_parked_until s)"
  by (auto simp: unavailable_for_def after_def List.map_filter_def split: option.splits list.splits)

lemma can_accept_iff:
  "can_accept_call now t s \<longleftrightarrow> \<not> after now (ts_disabled_until s) \<and> \<not> after now (ts_parked_until s) \<and>
     ts_active_calls s < tc_max_concurrent_calls t"
  using unavailable_iff [of now s] by (auto simp: can_accept_call_def)

text \<open>
  The label and the router agree: \<^verbatim>\<open>parked\<close> and \<^verbatim>\<open>down\<close> are exactly the unavailable states.
\<close>

lemma health_label_unavailable:
  "health_label now s \<in> {''parked'', ''down''} \<longleftrightarrow> unavailable_for now s \<noteq> None"
  using unavailable_iff [of now s] by (auto simp: health_label_def)

lemma cooldown_secs_mono: "a \<le> b \<Longrightarrow> cooldown_secs a \<le> cooldown_secs b"
  by (simp add: cooldown_secs_def)

lemma failures_fold:
  assumes "ts_consecutive_failures s = 0" and "ts_disabled_until s = None" and "length ts < 2 ^ 32"
  shows "ts_consecutive_failures (fold record_trunk_failure ts s) = length ts \<and>
         ts_disabled_until (fold record_trunk_failure ts s) =
           (if length ts < 3 then None else Some (last ts + secs (cooldown_secs (length ts)))) \<and>
         ts_parked_until (fold record_trunk_failure ts s) = ts_parked_until s \<and>
         ts_active_calls (fold record_trunk_failure ts s) = ts_active_calls s"
  using assms(3)
proof (induction ts rule: rev_induct)
  case Nil
  with assms show ?case by simp
next
  case (snoc x xs)
  then show ?case
    by (auto simp: record_trunk_failure_def incr32_def cooldown_secs_def Let_def)
qed

text \<open>
  The failure ladder. From a healthy trunk, \<open>n\<close> failures in a row keep it selectable while
  \<open>n\<close> is at most two; after that the router skips it for 30 seconds from the last failure (up to
  five failures), two minutes (up to nine) or five minutes. One success puts it back at once.
\<close>

theorem cooldown_ladder:
  assumes "ts_consecutive_failures s = 0" and "ts_disabled_until s = None" and "ts_parked_until s = None"
    and "length fails < 2 ^ 32" and "ts_active_calls s < tc_max_concurrent_calls t"
  shows "(can_accept_call now t (fold record_trunk_failure fails s) \<longleftrightarrow>
            length fails \<le> 2 \<or>
            last fails + secs (if length fails \<le> 5 then 30 else if length fails \<le> 9 then 120 else 300) \<le> now) \<and>
         can_accept_call now t (record_success (fold record_trunk_failure fails s))"
  using failures_fold [OF assms(1,2,4)] assms(3,5)
  by (auto simp: can_accept_iff after_def record_success_def cooldown_secs_def)

theorem cooldown_ladder_witness:
  "\<not> can_accept_call (secs 31) (trunk_config_new 7 ''t1'')
       (fold record_trunk_failure [secs 1, secs 2, secs 3] (trunk_state_new 7)) \<and>
   can_accept_call (secs 33) (trunk_config_new 7 ''t1'')
       (fold record_trunk_failure [secs 1, secs 2, secs 3] (trunk_state_new 7))"
  using cooldown_ladder [of "trunk_state_new 7" "[secs 1, secs 2, secs 3]" "trunk_config_new 7 ''t1''" "secs 31"]
    cooldown_ladder [of "trunk_state_new 7" "[secs 1, secs 2, secs 3]" "trunk_config_new 7 ''t1''" "secs 33"]
  by (simp add: trunk_state_new_def trunk_config_new_def secs_def)

text \<open>Everything the running system does to the state of a trunk.\<close>

datatype state_op =
    Success | TrunkFailure instant | Park instant nat | Incr | Decr | CallFailure | Clear

fun apply_op :: "state_op \<Rightarrow> trunk_state \<Rightarrow> trunk_state" where
  "apply_op Success = record_success"
| "apply_op (TrunkFailure now) = record_trunk_failure now"
| "apply_op (Park now n) = park_for now n"
| "apply_op Incr = increment_calls"
| "apply_op Decr = decrement_calls"
| "apply_op CallFailure = trunk_record_failure"
| "apply_op Clear = clear_cooldowns"

lemma park_for_keeps_park:
  "after now (ts_parked_until s) \<Longrightarrow> after now (ts_parked_until (park_for t n s))"
  by (cases "ts_parked_until s") (simp_all add: park_for_def after_def Let_def)

lemma apply_op_keeps_park:
  "after now (ts_parked_until s) \<Longrightarrow> c \<noteq> Clear \<Longrightarrow> after now (ts_parked_until (apply_op c s))"
  by (cases c)
    (simp_all add: park_for_keeps_park record_success_def record_trunk_failure_def
      increment_calls_def decrement_calls_def trunk_record_failure_def Let_def)

lemma fold_keeps_park:
  "after now (ts_parked_until s) \<Longrightarrow> Clear \<notin> set ops \<Longrightarrow> after now (ts_parked_until (fold apply_op ops s))"
proof (induction ops arbitrary: s)
  case Nil
  then show ?case by simp
next
  case (Cons c ops)
  from Cons.prems have "after now (ts_parked_until (apply_op c s))"
    by (intro apply_op_keeps_park) auto
  with Cons.prems show ?case by (simp add: Cons.IH)
qed

text \<open>
  A trunk that answered \<^verbatim>\<open>503 Retry-After\<close> gets no call before that time is over, whatever
  happens meanwhile: successes, further failures, shorter parks and call counting do not lift the
  park. Only the operator's re-enable does.
\<close>

theorem park_outlasts_success:
  assumes "Clear \<notin> set ops" and "now < start + secs n"
  shows "\<not> can_accept_call now t (fold apply_op ops (park_for start n s)) \<and>
         health_label now (fold apply_op ops (park_for start n s)) = ''parked'' \<and>
         (can_accept_call now t (apply_op Clear (fold apply_op ops (park_for start n s))) \<longleftrightarrow>
            ts_active_calls (fold apply_op ops (park_for start n s)) < tc_max_concurrent_calls t)"
proof -
  have "after now (ts_parked_until (park_for start n s))"
    using assms(2) by (cases "ts_parked_until s") (simp_all add: park_for_def after_def Let_def)
  from fold_keeps_park [OF this assms(1)] show ?thesis
    by (simp add: can_accept_iff health_label_def clear_cooldowns_def after_def)
qed

theorem park_outlasts_success_witness:
  "\<not> can_accept_call (secs 5) (trunk_config_new 7 ''t1'')
      (fold apply_op [Success, Incr, Decr, Park (secs 2) 3] (park_for (secs 1) 60 (trunk_state_new 7)))"
  using park_outlasts_success [of "[Success, Incr, Decr, Park (secs 2) 3]" "secs 5" "secs 1" 60
      "trunk_config_new 7 ''t1''" "trunk_state_new 7"]
  by (simp add: secs_def)

section \<open>Number formats\<close>

lemma national_round_trip:
  assumes "tc_country_code t = Some cc" and "tc_national_prefix t \<in> {None, Some ''0''}"
  shows "normalize_number (t\<lparr>tc_number_format := E164\<rparr>)
       (normalize_number (t\<lparr>tc_number_format := National\<rparr>) (''+'' @ cc @ n)) = ''+'' @ cc @ n"
proof -
  have "normalize_number (t\<lparr>tc_number_format := National\<rparr>) (''+'' @ cc @ n) = ''0'' @ n"
    using assms by (auto simp: normalize_number_def Let_def starts_with_def)
  then show ?thesis using assms(1) by (simp add: normalize_number_def starts_with_def)
qed

text \<open>
  The caller's number and the callee's are converted alike: without an override, a caller
  number format gives what the same format gives for a dialed number, so the two conversions the
  code spells out separately cannot drift apart. An override replaces the number and nothing else.
\<close>

theorem caller_and_callee_conversion_agree:
  assumes "tc_caller_number_format t = Some f"
  shows "normalize_caller t number dn =
     (case tc_caller_number_override t of
        None \<Rightarrow> normalize_number (t\<lparr>tc_number_format := f\<rparr>) number
      | Some forced \<Rightarrow> forced,
      case tc_caller_display_name t of None \<Rightarrow> dn | Some d \<Rightarrow> Some d)"
  using assms
  by (cases f; cases "strip_prefix ''0'' number"; cases "tc_country_code t"; cases "tc_caller_number_override t")
    (simp_all add: normalize_caller_def normalize_number_def Let_def)

theorem caller_and_callee_conversion_agree_witness:
  "normalize_caller ((trunk_config_new 7 ''t1'')\<lparr>tc_country_code := Some ''33'',
       tc_caller_number_format := Some National\<rparr>) ''+33612345678'' None = (''0612345678'', None)"
  using caller_and_callee_conversion_agree
    [of "(trunk_config_new 7 ''t1'')\<lparr>tc_country_code := Some ''33'', tc_caller_number_format := Some National\<rparr>"
      National "''+33612345678''" None]
  by (simp add: trunk_config_new_def normalize_number_def starts_with_def)

end
