(* ===== verification/Router.thy ===== *)
theory Router
  imports Trunk "HOL-Library.Product_Lexorder"
begin

text \<open>
  \<^verbatim>\<open>crates/sbc-core/src/routing/router.rs\<close>: least-cost routing over the trunk table. Of a
  Request-URI the router reads two texts: the user part and the host with its port. The clock is
  read once per routing decision.
\<close>

section \<open>Data\<close>

record sip_uri =
  uri_auth :: "string option"
  uri_host_with_port :: string

datatype sip_method =
    Ack | Bye | Cancel | Info | Invite | Message | Notify | Options | PRack | Publish | Refer
  | Register | Subscribe | Update

section \<open>Selection\<close>

definition accepts :: "instant \<Rightarrow> trunk_manager \<Rightarrow> trunk_config \<Rightarrow> bool" where
  "accepts now m t \<longleftrightarrow>
     (case get_state (tc_id t) m of None \<Rightarrow> True | Some s \<Rightarrow> can_accept_call now t s)"

definition uri_user :: "sip_uri \<Rightarrow> string" where
  "uri_user uri = (case uri_auth uri of None \<Rightarrow> '''' | Some a \<Rightarrow> a)"

definition get_default_trunk :: "trunk_manager \<Rightarrow> trunk_config option" where
  "get_default_trunk m =
     (case sort_key lcr_sort_key (filter tc_enabled (list_trunks m)) of
        [] \<Rightarrow> None | t # _ \<Rightarrow> Some t)"

definition find_trunk_for_uri :: "instant \<Rightarrow> sip_uri \<Rightarrow> trunk_manager \<Rightarrow> trunk_config result" where
  "find_trunk_for_uri now uri m =
     (let domain = uri_host_with_port uri; user = uri_user uri; trunks = list_trunks m in
      case find (\<lambda>t. tc_enabled t \<and> tc_host t = domain \<and> accepts now m t) trunks of
        Some t \<Rightarrow> Inr t
      | None \<Rightarrow>
          (let candidates =
             sort_key lcr_sort_key
               (filter (accepts now m) (filter (\<lambda>t. matches_prefix t user) (filter tc_enabled trunks)))
           in case candidates of
                best # _ \<Rightarrow> Inr best
              | [] \<Rightarrow>
                  (case get_default_trunk m of
                     Some t \<Rightarrow> Inr t
                   | None \<Rightarrow> Inl (RoutingErr ''No trunk available for route''))))"

definition route_request :: "instant \<Rightarrow> sip_uri \<Rightarrow> trunk_manager \<Rightarrow> trunk_config result" where
  "route_request now uri m =
     (case find_trunk_for_uri now uri m of
        Inl e \<Rightarrow> Inl e
      | Inr t \<Rightarrow>
          if \<not> tc_enabled t then Inl (RoutingErr (''Trunk '' @ tc_name t @ '' is disabled''))
          else (case get_state (tc_id t) m of
                  Some s \<Rightarrow>
                    if \<not> can_accept_call now t s
                    then Inl (RoutingErr (''Trunk '' @ tc_name t @ '' at capacity''))
                    else Inr t
                | None \<Rightarrow> Inr t))"

definition find_all_trunks_for_uri :: "instant \<Rightarrow> sip_uri \<Rightarrow> trunk_manager \<Rightarrow> trunk_config list" where
  "find_all_trunks_for_uri now uri m =
     (let domain = uri_host_with_port uri; user = uri_user uri; trunks = list_trunks m;
          direct = filter (\<lambda>t. tc_enabled t \<and> tc_host t = domain \<and> accepts now m t) trunks;
          lcr = sort_key lcr_sort_key
                  (filter (accepts now m)
                    (filter (\<lambda>t. matches_prefix t user)
                      (filter (\<lambda>t. tc_host t \<noteq> domain) (filter tc_enabled trunks))));
          candidates = direct @ lcr
      in if candidates = []
         then sort_key lcr_sort_key (filter (accepts now m) (filter tc_enabled trunks))
         else candidates)"

definition route_request_candidates :: "instant \<Rightarrow> sip_uri \<Rightarrow> trunk_manager \<Rightarrow> trunk_config list" where
  "route_request_candidates now uri m = find_all_trunks_for_uri now uri m"

fun is_local_request :: "sip_method \<Rightarrow> bool" where
  "is_local_request Options = True"
| "is_local_request Register = True"
| "is_local_request _ = False"

section \<open>The cheapest trunk\<close>

definition lcr_least :: "trunk_config \<Rightarrow> trunk_config set \<Rightarrow> bool" where
  "lcr_least t S \<longleftrightarrow> t \<in> S \<and> (\<forall>u \<in> S. lcr_sort_key t \<le> lcr_sort_key u)"

lemma sort_key_head_least:
  "sort_key lcr_sort_key xs = t # ts \<Longrightarrow> lcr_least t (set xs)"
  using sort_key_Cons_head by (fastforce simp: lcr_least_def)

lemma find_trunk_Inr:
  assumes "find_trunk_for_uri now uri m = Inr t"
  shows "t \<in> set (list_trunks m) \<and> tc_enabled t"
proof (cases "find (\<lambda>t. tc_enabled t \<and> tc_host t = uri_host_with_port uri \<and> accepts now m t) (list_trunks m)")
  case (Some u)
  with assms have "u = t" by (simp add: find_trunk_for_uri_def)
  with Some show ?thesis by (auto simp: find_Some_iff)
next
  case None
  with assms show ?thesis
    by (auto simp: find_trunk_for_uri_def get_default_trunk_def Let_def
        split: list.splits dest!: sort_key_Cons_head(1))
qed

lemma route_request_Inr:
  "route_request now uri m = Inr t \<longleftrightarrow> find_trunk_for_uri now uri m = Inr t \<and> accepts now m t"
  using find_trunk_Inr [of now uri m t]
  by (auto simp: route_request_def accepts_def split: sum.splits option.splits if_splits)

text \<open>
  A routed request goes to an enabled trunk that can take the call now. It is a trunk of the
  requested domain; or, if no available trunk has that domain, the cheapest by priority then cost
  of all available trunks for the dialed prefix; or, if there is none either, the first choice
  among all enabled trunks.
\<close>

theorem route_request_selects:
  assumes "route_request now uri m = Inr t"
  shows "t \<in> set (list_trunks m) \<and> tc_enabled t \<and> accepts now m t \<and>
    (let usable = {u \<in> set (list_trunks m). tc_enabled u \<and> accepts now m u};
         direct = {u \<in> usable. tc_host u = uri_host_with_port uri};
         matching = {u \<in> usable. matches_prefix u (uri_user uri)}
     in t \<in> direct \<or>
        direct = {} \<and> lcr_least t matching \<or>
        direct = {} \<and> matching = {} \<and> lcr_least t {u \<in> set (list_trunks m). tc_enabled u})"
proof -
  from assms have f: "find_trunk_for_uri now uri m = Inr t" and a: "accepts now m t"
    by (auto simp: route_request_Inr)
  from find_trunk_Inr [OF f] have t: "t \<in> set (list_trunks m)" "tc_enabled t" by auto
  let ?D = "\<lambda>t. tc_enabled t \<and> tc_host t = uri_host_with_port uri \<and> accepts now m t"
  let ?M = "filter (accepts now m) (filter (\<lambda>t. matches_prefix t (uri_user uri)) (filter tc_enabled (list_trunks m)))"
  show ?thesis
  proof (cases "find ?D (list_trunks m)")
    case (Some u)
    with f have "u = t" by (simp add: find_trunk_for_uri_def)
    with Some t a show ?thesis by (auto simp: find_Some_iff Let_def)
  next
    case None
    then have nd: "\<forall>u \<in> set (list_trunks m). \<not> ?D u" by (simp add: find_None_iff)
    show ?thesis
    proof (cases "sort_key lcr_sort_key ?M")
      case (Cons b bs)
      with None f have "b = t" by (simp add: find_trunk_for_uri_def Let_def)
      with sort_key_head_least [OF Cons] nd t a show ?thesis
        by (auto simp: Let_def lcr_least_def)
    next
      case Nil
      with None f obtain ts where "sort_key lcr_sort_key (filter tc_enabled (list_trunks m)) = t # ts"
        by (auto simp: find_trunk_for_uri_def get_default_trunk_def Let_def split: list.splits)
      from sort_key_head_least [OF this] Nil nd t a show ?thesis
        by (auto simp: Let_def lcr_least_def filter_empty_conv)
    qed
  qed
qed

text \<open>Two trunks: \<^verbatim>\<open>cheap\<close> serves French numbers, \<^verbatim>\<open>wide\<close> everything.\<close>

definition cheap_trunk :: trunk_config where
  "cheap_trunk = (trunk_config_new 1 ''cheap'')\<lparr>tc_cost_per_minute := 5, tc_prefix_patterns := [''+33'']\<rparr>"

definition wide_trunk :: trunk_config where
  "wide_trunk = (trunk_config_new 2 ''wide'')\<lparr>tc_cost_per_minute := 9\<rparr>"

definition two_trunks :: trunk_manager where
  "two_trunks = snd (add_trunk cheap_trunk (snd (add_trunk wide_trunk trunk_manager_new)))"

definition dial :: "string \<Rightarrow> sip_uri" where
  "dial n = \<lparr>uri_auth = Some n, uri_host_with_port = ''sbc.example''\<rparr>"

lemma two_trunks_eval:
  "list_trunks two_trunks = [wide_trunk, cheap_trunk]"
  "accepts 0 two_trunks wide_trunk" "accepts 0 two_trunks cheap_trunk"
  by (simp_all add: two_trunks_def add_trunk_def trunk_manager_new_def hm_insert_def list_trunks_def
      wide_trunk_def cheap_trunk_def trunk_config_new_def accepts_def get_state_def trunk_state_new_def
      can_accept_iff after_def)

lemma dial_french: "route_request 0 (dial ''+33612345678'') two_trunks = Inr cheap_trunk"
proof -
  have k: "lcr_sort_key cheap_trunk \<le> lcr_sort_key wide_trunk" "cheap_trunk \<noteq> wide_trunk"
    "tc_enabled wide_trunk" "tc_enabled cheap_trunk" "tc_host wide_trunk = []" "tc_host cheap_trunk = []"
    "\<not> lcr_sort_key wide_trunk \<le> lcr_sort_key cheap_trunk"
    "matches_prefix cheap_trunk ''+33612345678''" "matches_prefix wide_trunk ''+33612345678''"
    by (simp_all add: lcr_sort_key_def cheap_trunk_def wide_trunk_def trunk_config_new_def
        matches_prefix_def starts_with_def)
  then show ?thesis
    by (simp add: route_request_Inr find_trunk_for_uri_def two_trunks_eval dial_def uri_user_def)
qed

theorem route_request_selects_witness:
  "route_request 0 (dial ''+33612345678'') two_trunks = Inr cheap_trunk \<and> tc_enabled cheap_trunk"
  using route_request_selects [OF dial_french] dial_french by blast

section \<open>The failover list\<close>

text \<open>
  The failover list has only enabled trunks that can take the call now; it has every one of
  them that serves the domain or the prefix, the domain's first and the others from the cheapest
  up; and it is empty only when no enabled trunk can take a call at all.
\<close>

theorem failover_candidates_complete:
  "let usable = (\<lambda>u. u \<in> set (list_trunks m) \<and> tc_enabled u \<and> accepts now m u);
       wanted = (\<lambda>u. tc_host u = uri_host_with_port uri \<or> matches_prefix u (uri_user uri));
       cs = route_request_candidates now uri m;
       others = dropWhile (\<lambda>u. tc_host u = uri_host_with_port uri) cs
   in set cs \<subseteq> Collect usable \<and>
      Collect (\<lambda>u. usable u \<and> wanted u) \<subseteq> set cs \<and>
      (cs = [] \<longleftrightarrow> Collect usable = {}) \<and>
      (Collect (\<lambda>u. usable u \<and> wanted u) \<noteq> {} \<longrightarrow>
         set cs = Collect (\<lambda>u. usable u \<and> wanted u) \<and>
         (\<forall>u \<in> set others. tc_host u \<noteq> uri_host_with_port uri) \<and>
         sorted (map lcr_sort_key others))"
proof -
  define direct where "direct = filter (\<lambda>t. tc_enabled t \<and> tc_host t = uri_host_with_port uri \<and> accepts now m t) (list_trunks m)"
  define lcr where "lcr = sort_key lcr_sort_key
      (filter (accepts now m) (filter (\<lambda>t. matches_prefix t (uri_user uri))
        (filter (\<lambda>t. tc_host t \<noteq> uri_host_with_port uri) (filter tc_enabled (list_trunks m)))))"
  have cs: "route_request_candidates now uri m =
      (if direct @ lcr = []
       then sort_key lcr_sort_key (filter (accepts now m) (filter tc_enabled (list_trunks m)))
       else direct @ lcr)"
    by (simp only: route_request_candidates_def find_all_trunks_for_uri_def Let_def direct_def lcr_def)
  have d: "set direct = {u \<in> set (list_trunks m). tc_enabled u \<and> accepts now m u \<and> tc_host u = uri_host_with_port uri}"
    by (auto simp: direct_def)
  have l: "set lcr = {u \<in> set (list_trunks m). tc_enabled u \<and> accepts now m u \<and>
      tc_host u \<noteq> uri_host_with_port uri \<and> matches_prefix u (uri_user uri)}"
    by (auto simp: lcr_def)
  have srt: "sorted (map lcr_sort_key lcr)" unfolding lcr_def by (rule sorted_sort_key)
  have dw: "dropWhile (\<lambda>u. tc_host u = uri_host_with_port uri) (direct @ lcr) = lcr"
  proof -
    have "dropWhile (\<lambda>u. tc_host u = uri_host_with_port uri) lcr = lcr"
      using l by (cases lcr) auto
    with d show ?thesis by (subst dropWhile_append2) auto
  qed
  show ?thesis
  proof (cases "direct @ lcr = []")
    case True
    then have "set direct = {}" "set lcr = {}" by auto
    then show ?thesis unfolding Let_def cs if_P [OF True] d l by (auto simp: filter_empty_conv)
  next
    case False
    then have "set direct \<union> set lcr \<noteq> {}" by auto
    then show ?thesis unfolding Let_def cs if_not_P [OF False] dw using srt d l False by auto
  qed
qed

theorem failover_candidates_complete_witness:
  "cheap_trunk \<in> set (route_request_candidates 0 (dial ''+33612345678'') two_trunks)"
proof -
  have "tc_enabled cheap_trunk" "matches_prefix cheap_trunk (uri_user (dial ''+33612345678''))"
    by (simp_all add: cheap_trunk_def trunk_config_new_def matches_prefix_def starts_with_def
        uri_user_def dial_def)
  moreover have "cheap_trunk \<in> set (list_trunks two_trunks)" by (simp add: two_trunks_eval)
  ultimately show ?thesis
    using failover_candidates_complete [of two_trunks 0 "dial ''+33612345678''"] two_trunks_eval(3)
    unfolding Let_def by blast
qed

text \<open>
  Single-shot routing and failover agree: when \<^verbatim>\<open>route_request\<close> picks a trunk, it is the first
  of the failover candidates.
\<close>

theorem route_request_is_first_candidate:
  assumes "route_request now uri m = Inr t"
  shows "\<exists>rest. route_request_candidates now uri m = t # rest"
proof -
  from assms have f: "find_trunk_for_uri now uri m = Inr t" and a: "accepts now m t"
    by (auto simp: route_request_Inr)
  let ?d = "uri_host_with_port uri"
  let ?D = "filter (\<lambda>t. tc_enabled t \<and> tc_host t = ?d \<and> accepts now m t) (list_trunks m)"
  let ?M = "filter (\<lambda>t. matches_prefix t (uri_user uri)) (filter tc_enabled (list_trunks m))"
  show ?thesis
  proof (cases ?D)
    case (Cons u us)
    with f show ?thesis
      by (simp add: find_trunk_for_uri_def find_filter_head route_request_candidates_def
          find_all_trunks_for_uri_def Let_def)
  next
    case Nil
    then have same: "filter (accepts now m) (filter (\<lambda>t. matches_prefix t (uri_user uri))
          (filter (\<lambda>t. tc_host t \<noteq> ?d) (filter tc_enabled (list_trunks m)))) = filter (accepts now m) ?M"
      by (auto simp: filter_empty_conv intro!: filter_cong)
    show ?thesis
    proof (cases "sort_key lcr_sort_key (filter (accepts now m) ?M)")
      case (Cons b bs)
      with f Nil same show ?thesis
        by (auto simp: find_trunk_for_uri_def find_filter_head route_request_candidates_def
            find_all_trunks_for_uri_def Let_def simp del: filter_filter)
    next
      case none: Nil
      with f Nil obtain ts where "sort_key lcr_sort_key (filter tc_enabled (list_trunks m)) = t # ts"
        by (auto simp: find_trunk_for_uri_def find_filter_head get_default_trunk_def Let_def
            split: list.splits)
      from sort_key_filter_head [where P = "accepts now m", OF this a] none Nil same show ?thesis
        by (simp add: route_request_candidates_def find_all_trunks_for_uri_def Let_def
            del: filter_filter sort_key_Nil_iff)
    qed
  qed
qed

theorem route_request_is_first_candidate_witness:
  "\<exists>rest. route_request_candidates 0 (dial ''+33612345678'') two_trunks = cheap_trunk # rest"
  using route_request_is_first_candidate [OF dial_french] .

text \<open>
  The converse fails. When no prefix matches and the first-choice trunk is full,
  \<^verbatim>\<open>route_request\<close> answers that trunk's capacity error although the failover list, for the same
  request at the same instant, has an enabled trunk that can take the call.
\<close>

theorem route_request_fails_with_candidate_left:
  "\<exists>m uri now t. tm_reachable m \<and> route_request_candidates now uri m = [t] \<and>
     route_request now uri m = Inl (RoutingErr ''Trunk full at capacity'')"
proof -
  let ?full = "(trunk_config_new 1 ''full'')\<lparr>tc_max_concurrent_calls := 0, tc_prefix_patterns := [''+33'']\<rparr>"
  let ?spare = "(trunk_config_new 2 ''spare'')\<lparr>tc_priority := 200, tc_prefix_patterns := [''+33'']\<rparr>"
  let ?m = "snd (add_trunk ?full (snd (add_trunk ?spare trunk_manager_new)))"
  let ?uri = "dial ''+49301234''"
  have r: "tm_reachable ?m" by (rule tm_next [OF tm_next [OF tm_init tm_add] tm_add])
  have l: "list_trunks ?m = [?spare, ?full]"
    by (simp add: add_trunk_def trunk_manager_new_def hm_insert_def list_trunks_def trunk_config_new_def)
  have a: "accepts 0 ?m ?spare" "\<not> accepts 0 ?m ?full"
    by (simp_all add: add_trunk_def trunk_manager_new_def hm_insert_def trunk_config_new_def
        accepts_def get_state_def trunk_state_new_def can_accept_iff after_def)
  have k: "lcr_sort_key ?full \<le> lcr_sort_key ?spare" "\<not> lcr_sort_key ?spare \<le> lcr_sort_key ?full"
    "\<not> matches_prefix ?full ''+49301234''" "\<not> matches_prefix ?spare ''+49301234''"
    by (simp_all add: lcr_sort_key_def trunk_config_new_def matches_prefix_def starts_with_def)
  have "route_request_candidates 0 ?uri ?m = [?spare]"
    unfolding route_request_candidates_def find_all_trunks_for_uri_def l
    using a k by (simp add: dial_def uri_user_def trunk_config_new_def)
  moreover have "get_state 1 ?m = Some (trunk_state_new 1)"
    by (simp add: add_trunk_def trunk_manager_new_def hm_insert_def trunk_config_new_def get_state_def)
  moreover have "find_trunk_for_uri 0 ?uri ?m = Inr ?full"
    unfolding find_trunk_for_uri_def get_default_trunk_def l
    using a k by (simp add: dial_def uri_user_def trunk_config_new_def)
  ultimately have "route_request 0 ?uri ?m = Inl (RoutingErr ''Trunk full at capacity'')"
    by (simp add: route_request_def trunk_config_new_def can_accept_iff)
  with \<open>route_request_candidates 0 ?uri ?m = [?spare]\<close> r show ?thesis by blast
qed

end
