(* ===== verification/Call_Outcome.thy ===== *)
theory Call_Outcome
  imports Net Text
begin

text \<open>
  \<^verbatim>\<open>CallOutcome\<close> of \<^verbatim>\<open>crates/sbc-core/src/sbc/cdr.rs\<close> (why a call ended and what its record, its
  BYE and its caller get for it), the trunk-source test and the raw status reader of that file,
  and the classification of finals in \<^verbatim>\<open>sbc/trunk_state.rs\<close>.
\<close>

datatype call_outcome =
    NormalClearing bool
  | Cancelled
  | Rejected nat
  | Refused nat
  | MaxDuration
  | Shutdown
  | WsClosed bool
  | AdminKick
  | DialogLost nat
  | RtpTimeout
  | SetupTimeout
  | MediaUnavailable

fun disconnect_reason :: "call_outcome \<Rightarrow> string" where
  "disconnect_reason (NormalClearing _) = ''normal-clearing''"
| "disconnect_reason Cancelled = ''cancelled''"
| "disconnect_reason (Rejected code) = ''rejected-'' @ show_nat code"
| "disconnect_reason (Refused code) = ''rejected-'' @ show_nat code"
| "disconnect_reason MaxDuration = ''timeout''"
| "disconnect_reason Shutdown = ''shutdown''"
| "disconnect_reason (WsClosed _) = ''ws-closed''"
| "disconnect_reason AdminKick = ''admin-kick''"
| "disconnect_reason (DialogLost _) = ''dialog-lost''"
| "disconnect_reason RtpTimeout = ''rtp-timeout''"
| "disconnect_reason SetupTimeout = ''setup-timeout''"
| "disconnect_reason MediaUnavailable = ''media-unavailable''"

definition sip_code :: "call_outcome \<Rightarrow> bool \<Rightarrow> nat option" where
  "sip_code outcome answered =
     (if answered then Some 200
      else case outcome of
             Cancelled \<Rightarrow> Some 487
           | Rejected code \<Rightarrow> Some code
           | Refused code \<Rightarrow> Some code
           | SetupTimeout \<Rightarrow> Some 408
           | Shutdown \<Rightarrow> Some 503
           | MediaUnavailable \<Rightarrow> Some 503
           | MaxDuration \<Rightarrow> Some 480
           | AdminKick \<Rightarrow> Some 480
           | WsClosed callee_died \<Rightarrow> if callee_died then Some 480 else None
           | NormalClearing _ \<Rightarrow> None
           | DialogLost _ \<Rightarrow> None
           | RtpTimeout \<Rightarrow> None)"

definition quoted :: "string \<Rightarrow> string" where
  "quoted s = [char_of (34::nat)] @ s @ [char_of (34::nat)]"

fun reason_header :: "call_outcome \<Rightarrow> string option" where
  "reason_header MaxDuration = Some (''Q.850;cause=16;text='' @ quoted ''Call duration exceeded'')"
| "reason_header Shutdown = Some (''Q.850;cause=16;text='' @ quoted ''Server shutdown'')"
| "reason_header (WsClosed _) = Some (''SIP;cause=200;text='' @ quoted ''ws-closed'')"
| "reason_header AdminKick = Some (''SIP;cause=200;text='' @ quoted ''Administrative teardown'')"
| "reason_header RtpTimeout = Some (''Q.850;cause=16;text='' @ quoted ''RTP timeout'')"
| "reason_header SetupTimeout = Some (''SIP;cause=408;text='' @ quoted ''No answer'')"
| "reason_header MediaUnavailable = Some (''Q.850;cause=47;text='' @ quoted ''No media resource available'')"
| "reason_header (DialogLost status) =
     Some (''SIP;cause='' @ show_nat status @ '';text='' @ quoted ''Dialog lost'')"
| "reason_header _ = None"

fun hangup_by :: "call_outcome \<Rightarrow> string" where
  "hangup_by (NormalClearing by_caller) = (if by_caller then ''caller'' else ''callee'')"
| "hangup_by Cancelled = ''caller''"
| "hangup_by (Rejected _) = ''callee''"
| "hangup_by _ = ''sbc''"

fun pending_caller_code :: "call_outcome \<Rightarrow> nat" where
  "pending_caller_code SetupTimeout = 408"
| "pending_caller_code Shutdown = 503"
| "pending_caller_code MediaUnavailable = 503"
| "pending_caller_code _ = 480"

text \<open>\<^verbatim>\<open>rsplit_once('.')\<close>, the part before the last dot.\<close>

definition before_last_dot :: "string \<Rightarrow> string option" where
  "before_last_dot s =
     map_option (\<lambda>(_, b). rev b) (split_once CHR ''.'' (rev s))"

definition source_is_trunk_related :: "string list \<Rightarrow> socket_addr \<Rightarrow> bool" where
  "source_is_trunk_related trunk_ips source \<longleftrightarrow>
     (let source_ip = ip_to_string (fst source)
      in list_ex (\<lambda>tip. tip = source_ip \<or>
           (before_last_dot tip \<noteq> None \<and> before_last_dot tip = before_last_dot source_ip)) trunk_ips)"

definition status_code_of :: "string \<Rightarrow> nat option" where
  "status_code_of raw =
     (case split_whitespace raw of _ # w # _ \<Rightarrow> parse_uint u16_max w | _ \<Rightarrow> None)"

definition is_trunk_strike_code :: "nat \<Rightarrow> bool" where
  "is_trunk_strike_code status \<longleftrightarrow> status \<in> {408, 500, 502, 503, 504}"

definition trunk_outcome_label :: "call_outcome \<Rightarrow> bool \<Rightarrow> string" where
  "trunk_outcome_label outcome answered =
     (if answered then ''answered''
      else case outcome of
             Cancelled \<Rightarrow> ''cancelled''
           | SetupTimeout \<Rightarrow> ''timeout''
           | Rejected code \<Rightarrow> if \<not> is_trunk_strike_code code then ''rejected'' else ''failed''
           | _ \<Rightarrow> ''failed'')"

fun retry_after_lines :: "string list \<Rightarrow> nat option" where
  "retry_after_lines [] = None"
| "retry_after_lines (line # rest) =
     (if line = [] then None
      else case split_once CHR '':'' line of
             None \<Rightarrow> retry_after_lines rest
           | Some (name, val) \<Rightarrow>
               if \<not> eq_ignore_ascii_case (trim name) ''Retry-After'' then retry_after_lines rest
               else (case parse_uint u64_max (takeWhile is_ascii_digit (trim val)) of
                       Some n \<Rightarrow> if 1 \<le> n \<and> n \<le> 3600 then Some n else None
                     | None \<Rightarrow> None))"

definition retry_after_secs :: "string \<Rightarrow> nat option" where
  "retry_after_secs raw = retry_after_lines (split_crlf raw)"

section \<open>Properties\<close>

lemma retry_after_lines_bounds: "retry_after_lines ls = Some n \<Longrightarrow> 1 \<le> n \<and> n \<le> 3600"
  by (induction ls rule: retry_after_lines.induct) (auto split: if_splits option.splits prod.splits)

lemma retry_after_bounds: "retry_after_secs raw = Some n \<Longrightarrow> 1 \<le> n \<and> n \<le> 3600"
  unfolding retry_after_secs_def by (rule retry_after_lines_bounds)

text \<open>
  The record of an unanswered call that the SBC hung up itself has the status its caller was sent.
\<close>

lemma sbc_hangup_code:
  "outcome \<in> {SetupTimeout, Shutdown, MediaUnavailable, MaxDuration, AdminKick, WsClosed True} \<Longrightarrow>
   sip_code outcome False = Some (pending_caller_code outcome) \<and> hangup_by outcome = ''sbc'' \<and>
   reason_header outcome \<noteq> None"
  by (auto simp: sip_code_def)

end
