(* ===== verification/Trunk_Calls.thy ===== *)
theory Trunk_Calls
  imports Router Call_Outcome Security_Manager
begin

text \<open>
  \<^verbatim>\<open>crates/sbc-core/src/sbc/trunk_state.rs\<close>: how calls feed the state of the trunks. Of a call of
  \<^verbatim>\<open>b2bua.rs\<close> the fields this code reads or writes are kept; of \<^verbatim>\<open>metrics.rs\<close> the per-trunk series.
\<close>

section \<open>Data\<close>

record call_view =
  cv_trunk_id :: "trunk_id option"
  cv_trunk_name :: "string option"
  cv_trunk_counted :: "string option"
  cv_direction :: "string option"
  cv_callee_responded :: bool

record trunk_series =
  tsr_up :: "bool option"
  tsr_registered :: "bool option"
  tsr_active_calls :: nat
  tsr_calls :: "(string \<times> string, nat) hmap"

record sbc_trunks =
  sb_calls :: "(string, call_view) hmap"
  sb_tm :: trunk_manager
  sb_series :: "(string, trunk_series) hmap"
  sb_events :: event_bus

definition call_direction :: "call_view \<Rightarrow> string" where
  "call_direction c =
     (case cv_direction c of
        Some d \<Rightarrow> d
      | None \<Rightarrow> if cv_trunk_id c \<noteq> None then ''outbound''
                else if cv_trunk_name c \<noteq> None then ''inbound'' else ''local'')"

section \<open>Metrics\<close>

definition new_series :: trunk_series where
  "new_series =
     \<lparr>tsr_up = None, tsr_registered = None, tsr_active_calls = 0,
      tsr_calls = [((''inbound'', ''answered''), 0), ((''outbound'', ''answered''), 0)]\<rparr>"

definition series_of :: "string \<Rightarrow> (string, trunk_series) hmap \<Rightarrow> trunk_series" where
  "series_of name m = (case hm_get m name of None \<Rightarrow> new_series | Some s \<Rightarrow> s)"

definition with_trunk ::
  "string \<Rightarrow> (trunk_series \<Rightarrow> trunk_series) \<Rightarrow> (string, trunk_series) hmap \<Rightarrow> (string, trunk_series) hmap"
where
  "with_trunk name f m = hm_insert name (f (series_of name m)) m"

definition set_trunk_active_calls :: "string \<Rightarrow> nat \<Rightarrow> sbc_trunks \<Rightarrow> sbc_trunks" where
  "set_trunk_active_calls name n s =
     s\<lparr>sb_series := with_trunk name (\<lambda>t. t\<lparr>tsr_active_calls := n\<rparr>) (sb_series s)\<rparr>"

definition inc_trunk_call :: "string \<Rightarrow> string \<Rightarrow> string \<Rightarrow> sbc_trunks \<Rightarrow> sbc_trunks" where
  "inc_trunk_call name direction outcome s =
     s\<lparr>sb_series := with_trunk name
        (\<lambda>t. t\<lparr>tsr_calls := hm_insert (direction, outcome)
               (incr64 (case hm_get (tsr_calls t) (direction, outcome) of None \<Rightarrow> 0 | Some n \<Rightarrow> n)) (tsr_calls t)\<rparr>)
        (sb_series s)\<rparr>"

section \<open>Operations\<close>

definition publish_trunk_active :: "string \<Rightarrow> sbc_trunks \<Rightarrow> sbc_trunks" where
  "publish_trunk_active name s =
     (case state_by_name name (sb_tm s) of
        Some st \<Rightarrow> set_trunk_active_calls name (ts_active_calls st) s
      | None \<Rightarrow> s)"

definition bump :: "string \<Rightarrow> (trunk_state \<Rightarrow> trunk_state) \<Rightarrow> sbc_trunks \<Rightarrow> sbc_trunks" where
  "bump name f s =
     publish_trunk_active name (s\<lparr>sb_tm := snd (update_state_by_name name f (sb_tm s))\<rparr>)"

definition count_call_on_trunk :: "string \<Rightarrow> string option \<Rightarrow> sbc_trunks \<Rightarrow> sbc_trunks" where
  "count_call_on_trunk uuid trunk s =
     (case hm_get (sb_calls s) uuid of
        None \<Rightarrow> s
      | Some call \<Rightarrow>
          if cv_trunk_counted call = trunk then s
          else
            let previous = cv_trunk_counted call;
                s1 = s\<lparr>sb_calls := hm_modify uuid (\<lambda>c. c\<lparr>cv_trunk_counted := trunk\<rparr>) (sb_calls s)\<rparr>;
                s2 = (case previous of
                        None \<Rightarrow> s1
                      | Some prev \<Rightarrow>
                          let s' = bump prev decrement_calls s1
                          in if trunk \<noteq> None then inc_trunk_call prev ''outbound'' ''failover'' s' else s')
            in case trunk of None \<Rightarrow> s2 | Some name \<Rightarrow> bump name increment_calls s2)"

definition outbound_trunk_of :: "string \<Rightarrow> sbc_trunks \<Rightarrow> string option" where
  "outbound_trunk_of uuid s =
     Option.bind (hm_get (sb_calls s) uuid)
       (\<lambda>c. if call_direction c = ''inbound'' then None else cv_trunk_name c)"

definition silent_outbound_trunk_of :: "string \<Rightarrow> sbc_trunks \<Rightarrow> string option" where
  "silent_outbound_trunk_of uuid s =
     Option.bind (hm_get (sb_calls s) uuid)
       (\<lambda>c. if call_direction c = ''inbound'' \<or> cv_callee_responded c then None else cv_trunk_name c)"

definition note_trunk_failure ::
  "instant \<Rightarrow> instant \<Rightarrow> string \<Rightarrow> nat option \<Rightarrow> sbc_trunks \<Rightarrow> sbc_trunks"
where
  "note_trunk_failure now wall name retry_after s =
     (let before = map_option (\<lambda>st. unavailable_for now st \<noteq> None) (state_by_name name (sb_tm s));
          (updated, tm) = update_state_by_name name
             (case retry_after of Some n \<Rightarrow> park_for now n | None \<Rightarrow> record_trunk_failure now) (sb_tm s);
          s1 = s\<lparr>sb_tm := tm\<rparr>
      in if \<not> updated then s1
         else case state_by_name name tm of
                None \<Rightarrow> s1
              | Some st \<Rightarrow>
                  if unavailable_for now st \<noteq> None \<and> before = Some False
                  then s1\<lparr>sb_events := publish (TrunkHealth name (health_label now st)
                            (ts_consecutive_failures st) (event_ts wall)) (sb_events s1)\<rparr>
                  else s1)"

definition note_trunk_success :: "instant \<Rightarrow> instant \<Rightarrow> string \<Rightarrow> sbc_trunks \<Rightarrow> sbc_trunks" where
  "note_trunk_success now wall name s =
     (let was_cooling =
            (case state_by_name name (sb_tm s) of
               None \<Rightarrow> False | Some st \<Rightarrow> after now (ts_disabled_until st));
          tm = snd (update_state_by_name name record_success (sb_tm s));
          s1 = s\<lparr>sb_tm := tm\<rparr>;
          still_parked =
            (case state_by_name name tm of None \<Rightarrow> False | Some st \<Rightarrow> unavailable_for now st \<noteq> None)
      in if was_cooling \<and> \<not> still_parked
         then s1\<lparr>sb_events := publish (TrunkHealth name ''up'' 0 (event_ts wall)) (sb_events s1)\<rparr>
         else s1)"

section \<open>Counting calls\<close>

definition counted_on :: "string \<Rightarrow> (string, call_view) hmap \<Rightarrow> nat" where
  "counted_on name calls = length (filter (\<lambda>(_, c). cv_trunk_counted c = Some name) calls)"

definition active_of :: "string \<Rightarrow> sbc_trunks \<Rightarrow> nat" where
  "active_of name s =
     (case state_by_name name (sb_tm s) of None \<Rightarrow> 0 | Some st \<Rightarrow> ts_active_calls st)"

definition gauge_of :: "string \<Rightarrow> sbc_trunks \<Rightarrow> nat" where
  "gauge_of name s = tsr_active_calls (series_of name (sb_series s))"

lemma counted_on_modify:
  assumes "hm_ok calls" and "hm_get calls uuid = Some c"
  shows "counted_on name (hm_modify uuid (\<lambda>c. c\<lparr>cv_trunk_counted := trunk\<rparr>) calls) =
     counted_on name calls - of_bool (cv_trunk_counted c = Some name) + of_bool (trunk = Some name)
   \<and> (cv_trunk_counted c = Some name \<longrightarrow> 0 < counted_on name calls)"
  using assms
proof (induction calls)
  case Nil
  then show ?case by simp
next
  case (Cons x calls)
  obtain u d where x: "x = (u, d)" by (cases x)
  show ?case
  proof (cases "u = uuid")
    case True
    with Cons.prems show ?thesis by (simp add: x hm_modify_def counted_on_def)
  next
    case False
    with Cons.prems have ok: "hm_ok calls" and g: "hm_get calls uuid = Some c"
      by (auto simp: x hm_ok_def)
    have "hm_modify uuid (\<lambda>c. c\<lparr>cv_trunk_counted := trunk\<rparr>) (x # calls) =
        x # hm_modify uuid (\<lambda>c. c\<lparr>cv_trunk_counted := trunk\<rparr>) calls"
      using False g by (simp add: x hm_modify_def)
    with Cons.IH [OF ok g] show ?thesis
      by (cases "cv_trunk_counted d = Some name"; cases "cv_trunk_counted c = Some name")
        (simp_all add: x counted_on_def)
  qed
qed

lemma find_by_name_cong: "tm_trunks m = tm_trunks m' \<Longrightarrow> find_by_name name m = find_by_name name m'"
  by (simp add: find_by_name_def list_trunks_def)

lemma update_state_by_name_trunks [simp]:
  "tm_trunks (snd (update_state_by_name name f m)) = tm_trunks m"
  by (simp add: update_state_by_name_def split: option.splits)

lemma update_state_by_name_inv: "tm_inv m \<Longrightarrow> tm_inv (snd (update_state_by_name name f m))"
  by (rule tm_step_inv [OF tm_update_state_by_name])

lemma find_by_name_update [simp]:
  "find_by_name n (snd (update_state_by_name name f m)) = find_by_name n m"
  by (rule find_by_name_cong) simp

lemma state_by_name_Some:
  assumes "tm_inv m" and "find_by_name name m = Some t"
  obtains st where "state_by_name name m = Some st" and "get_state (tc_id t) m = Some st"
proof -
  from find_by_name_Some(2) [OF assms(2,1)] assms(1)
  have "hm_get (tm_states m) (tc_id t) \<noteq> None" unfolding tm_inv_def by (metis option.discI)
  then obtain st where "hm_get (tm_states m) (tc_id t) = Some st" by blast
  with assms(2) that show ?thesis by (simp add: state_by_name_def get_state_def)
qed

lemma state_by_name_update:
  assumes "tm_inv m"
  shows "state_by_name n (snd (update_state_by_name name f m)) =
     (if n = name then map_option f (state_by_name name m) else state_by_name n m)"
proof (cases "find_by_name name m")
  case None
  then show ?thesis by (simp add: update_state_by_name_def state_by_name_def)
next
  case (Some t)
  have ne: "tc_id u \<noteq> tc_id t" if "find_by_name n m = Some u" "n \<noteq> name" for u
    using find_by_name_Some [OF Some assms] find_by_name_Some [OF that(1) assms] that(2) by auto
  have keep: "find_by_name n (update_state (tc_id t) f m) = find_by_name n m"
    by (rule find_by_name_cong) simp
  show ?thesis
  proof (cases "find_by_name n m")
    case None
    with Some keep show ?thesis
      by (auto simp: update_state_by_name_def state_by_name_def)
  next
    case u: (Some u)
    with Some keep ne [OF u] show ?thesis
      by (auto simp: update_state_by_name_def state_by_name_def get_state_def update_state_def hm_get_modify)
  qed
qed

text \<open>What counting does to the three numbers kept per trunk.\<close>

lemma bump_frame [simp]:
  "sb_calls (bump name f s) = sb_calls s" "sb_events (bump name f s) = sb_events s"
  "tm_trunks (sb_tm (bump name f s)) = tm_trunks (sb_tm s)"
  "tm_inv (sb_tm s) \<Longrightarrow> tm_inv (sb_tm (bump name f s))"
  by (simp_all add: bump_def publish_trunk_active_def set_trunk_active_calls_def update_state_by_name_inv
      split: option.splits)

lemma sb_tm_bump: "sb_tm (bump name f s) = snd (update_state_by_name name f (sb_tm s))"
  by (simp add: bump_def publish_trunk_active_def set_trunk_active_calls_def split: option.splits)

lemma inc_trunk_call_frame [simp]:
  "sb_calls (inc_trunk_call a d x s) = sb_calls s" "sb_tm (inc_trunk_call a d x s) = sb_tm s"
  "active_of n (inc_trunk_call a d x s) = active_of n s"
  "gauge_of n (inc_trunk_call a d x s) = gauge_of n s"
  by (auto simp: inc_trunk_call_def active_of_def gauge_of_def series_of_def with_trunk_def hm_get_insert)

lemma active_of_bump:
  assumes "tm_inv (sb_tm s)" and "state_by_name name (sb_tm s) = Some st"
  shows "active_of n (bump name f s) = (if n = name then ts_active_calls (f st) else active_of n s)"
  using assms by (simp add: active_of_def sb_tm_bump state_by_name_update)

lemma gauge_of_bump:
  assumes "tm_inv (sb_tm s)" and "state_by_name name (sb_tm s) = Some st"
  shows "gauge_of n (bump name f s) = (if n = name then ts_active_calls (f st) else gauge_of n s)"
  using assms
  by (auto simp: gauge_of_def bump_def publish_trunk_active_def state_by_name_update
      set_trunk_active_calls_def series_of_def with_trunk_def hm_get_insert)

lemma bump_unknown:
  "find_by_name name (sb_tm s) = None \<Longrightarrow> bump name f s = s"
  by (simp add: bump_def publish_trunk_active_def update_state_by_name_def state_by_name_def)

definition exact :: "(string \<Rightarrow> nat) \<Rightarrow> sbc_trunks \<Rightarrow> bool" where
  "exact count s \<longleftrightarrow> tm_inv (sb_tm s) \<and>
     (\<forall>name. find_by_name name (sb_tm s) \<noteq> None \<longrightarrow>
        active_of name s = count name \<and> gauge_of name s = count name)"

lemma exact_cong:
  "exact count s \<Longrightarrow> (\<And>n. find_by_name n (sb_tm s) \<noteq> None \<Longrightarrow> count n = count' n) \<Longrightarrow> exact count' s"
  by (simp add: exact_def)

lemma exact_bump:
  assumes "exact count s"
    and "\<And>st. ts_active_calls st = count name \<Longrightarrow> ts_active_calls (f st) = k"
  shows "exact (count(name := k)) (bump name f s)"
proof (cases "find_by_name name (sb_tm s)")
  case None
  with assms(1) show ?thesis by (auto simp: bump_unknown exact_def)
next
  case (Some t)
  from assms(1) have inv: "tm_inv (sb_tm s)" by (simp add: exact_def)
  obtain st where st: "state_by_name name (sb_tm s) = Some st"
    using state_by_name_Some [OF inv Some] by blast
  with assms(1) Some have "ts_active_calls st = count name"
    by (auto simp: exact_def active_of_def dest: spec [of _ name])
  with assms(2) have k: "ts_active_calls (f st) = k" by blast
  have keep: "find_by_name n (sb_tm (bump name f s)) = find_by_name n (sb_tm s)" for n
    by (rule find_by_name_cong) simp
  show ?thesis
    using assms(1) inv k
    by (auto simp: exact_def keep active_of_bump [OF inv st] gauge_of_bump [OF inv st])
qed

lemma exact_inc_trunk_call [simp]: "exact count (inc_trunk_call a d x s) = exact count s"
  by (simp add: exact_def)

lemma exact_frame:
  "exact count s \<Longrightarrow> sb_tm s' = sb_tm s \<Longrightarrow> sb_series s' = sb_series s \<Longrightarrow> exact count s'"
  by (simp add: exact_def active_of_def gauge_of_def)

lemma exact_update:
  assumes "exact count s" and "sb_series s' = sb_series s"
    and "sb_tm s' = snd (update_state_by_name name f (sb_tm s))"
    and "\<And>st. ts_active_calls (f st) = ts_active_calls st"
  shows "exact count s'"
proof -
  have "active_of n s' = active_of n s" for n
    using assms by (auto simp: active_of_def exact_def state_by_name_update split: option.splits)
  moreover have "gauge_of n s' = gauge_of n s" for n using assms(2) by (simp add: gauge_of_def)
  ultimately show ?thesis using assms(1,3) by (simp add: exact_def update_state_by_name_inv)
qed

lemma count_call_exact:
  assumes "hm_ok (sb_calls s)" and "exact (\<lambda>n. counted_on n (sb_calls s)) s"
    and "length (sb_calls s) < 2 ^ 32"
  shows "exact (\<lambda>n. counted_on n (sb_calls (count_call_on_trunk uuid trunk s))) (count_call_on_trunk uuid trunk s)"
proof (cases "hm_get (sb_calls s) uuid")
  case None
  with assms show ?thesis by (simp add: count_call_on_trunk_def)
next
  case (Some call)
  show ?thesis
  proof (cases "cv_trunk_counted call = trunk")
    case True
    with Some assms show ?thesis by (simp add: count_call_on_trunk_def)
  next
    case moved: False
    let ?calls = "hm_modify uuid (\<lambda>c. c\<lparr>cv_trunk_counted := trunk\<rparr>) (sb_calls s)"
    let ?old = "\<lambda>n. counted_on n (sb_calls s)" and ?prev = "cv_trunk_counted call"
    let ?mid = "\<lambda>n. ?old n - of_bool (?prev = Some n)"
    let ?s1 = "s\<lparr>sb_calls := ?calls\<rparr>"
    let ?s2 = "case ?prev of None \<Rightarrow> ?s1
      | Some prev \<Rightarrow> (let s' = bump prev decrement_calls ?s1
          in if trunk \<noteq> None then inc_trunk_call prev ''outbound'' ''failover'' s' else s')"
    note new = counted_on_modify [OF assms(1) Some]
    have s1: "exact ?old ?s1" using assms(2) by (rule exact_frame) simp_all
    have s2: "exact ?mid ?s2"
    proof (cases ?prev)
      case None
      with s1 show ?thesis by simp
    next
      case prev: (Some p)
      have "exact (?old(p := ?old p - 1)) (bump p decrement_calls ?s1)"
        by (rule exact_bump [OF s1]) (simp add: decrement_calls_def)
      with prev show ?thesis by (auto simp: Let_def intro: exact_cong)
    qed
    have le: "counted_on n ?calls < 2 ^ 32" for n
      using assms(3) le_less_trans [OF length_filter_le, of ?calls] by (simp add: counted_on_def)
    have eq: "count_call_on_trunk uuid trunk s = (case trunk of None \<Rightarrow> ?s2 | Some name \<Rightarrow> bump name increment_calls ?s2)"
      using Some moved by (simp add: count_call_on_trunk_def Let_def)
    have calls: "sb_calls (count_call_on_trunk uuid trunk s) = ?calls"
      unfolding eq by (simp add: Let_def split: option.splits)
    show ?thesis
    proof (cases trunk)
      case None
      then have e2: "count_call_on_trunk uuid trunk s = ?s2" unfolding eq by simp
      have "exact (\<lambda>n. counted_on n ?calls) (count_call_on_trunk uuid trunk s)"
        unfolding e2 by (rule exact_cong [OF s2]) (simp add: new None)
      then show ?thesis unfolding calls .
    next
      case t: (Some name)
      have e3: "count_call_on_trunk uuid trunk s = bump name increment_calls ?s2"
        unfolding eq by (simp add: t)
      have k: "?mid name + 1 = counted_on name ?calls" using new moved t by (simp add: new)
      have "exact (?mid(name := counted_on name ?calls)) (bump name increment_calls ?s2)"
        by (rule exact_bump [OF s2]) (use k le [of name] in \<open>simp add: increment_calls_def incr32_def\<close>)
      moreover have "(?mid(name := counted_on name ?calls)) n = counted_on n ?calls" for n
        using new t by (simp add: new)
      ultimately have "exact (\<lambda>n. counted_on n ?calls) (count_call_on_trunk uuid trunk s)"
        unfolding e3 by (rule exact_cong)
      then show ?thesis unfolding calls .
    qed
  qed
qed

section \<open>Runs\<close>

text \<open>
  Calls come and go: a call starts uncounted, is put on and moved between trunks, has its other
  fields changed, and is dropped after its release (\<^verbatim>\<open>finish_call\<close> releases it first). Answers feed
  the health of the trunks. Fewer than \<open>2\<^sup>3\<^sup>2\<close> calls are up at any time.
\<close>

inductive calls_step :: "sbc_trunks \<Rightarrow> sbc_trunks \<Rightarrow> bool" where
  call_start: "hm_get (sb_calls s) uuid = None \<Longrightarrow> cv_trunk_counted c = None \<Longrightarrow>
     length (sb_calls s) + 1 < 2 ^ 32 \<Longrightarrow>
     calls_step s (s\<lparr>sb_calls := hm_insert uuid c (sb_calls s)\<rparr>)"
| call_change: "(\<And>c. cv_trunk_counted (f c) = cv_trunk_counted c) \<Longrightarrow>
     calls_step s (s\<lparr>sb_calls := hm_modify uuid f (sb_calls s)\<rparr>)"
| call_end: "hm_get (sb_calls s) uuid = Some c \<Longrightarrow> cv_trunk_counted c = None \<Longrightarrow>
     calls_step s (s\<lparr>sb_calls := hm_remove uuid (sb_calls s)\<rparr>)"
| call_count: "calls_step s (count_call_on_trunk uuid trunk s)"
| trunk_failure: "calls_step s (note_trunk_failure now wall name retry_after s)"
| trunk_success: "calls_step s (note_trunk_success now wall name s)"

inductive calls_reachable :: "sbc_trunks \<Rightarrow> bool" where
  calls_init: "tm_reachable m \<Longrightarrow> \<forall>i st. get_state i m = Some st \<longrightarrow> ts_active_calls st = 0 \<Longrightarrow>
     calls_reachable \<lparr>sb_calls = [], sb_tm = m, sb_series = [], sb_events = []\<rparr>"
| calls_next: "calls_reachable s \<Longrightarrow> calls_step s s' \<Longrightarrow> calls_reachable s'"

definition calls_inv :: "sbc_trunks \<Rightarrow> bool" where
  "calls_inv s \<longleftrightarrow> hm_ok (sb_calls s) \<and> length (sb_calls s) < 2 ^ 32 \<and>
     exact (\<lambda>n. counted_on n (sb_calls s)) s"

lemma calls_invI:
  "hm_ok (sb_calls s) \<Longrightarrow> length (sb_calls s) < 2 ^ 32 \<Longrightarrow>
   exact (\<lambda>n. counted_on n (sb_calls s)) s \<Longrightarrow> calls_inv s"
  by (simp add: calls_inv_def)

lemma calls_invD:
  assumes "calls_inv s"
  shows "hm_ok (sb_calls s)" and "length (sb_calls s) < 2 ^ 32" and "exact (\<lambda>n. counted_on n (sb_calls s)) s"
  using assms by (simp_all add: calls_inv_def)

lemma counted_on_insert_new:
  "hm_get calls uuid = None \<Longrightarrow> cv_trunk_counted c = None \<Longrightarrow>
   counted_on n (hm_insert uuid c calls) = counted_on n calls"
  by (induction calls) (auto simp: counted_on_def hm_insert_def)

lemma counted_on_change:
  "(\<And>c. cv_trunk_counted (f c) = cv_trunk_counted c) \<Longrightarrow> hm_ok calls \<Longrightarrow>
   counted_on n (hm_modify uuid f calls) = counted_on n calls"
proof (induction calls)
  case Nil
  then show ?case by (simp add: hm_modify_def)
next
  case (Cons x calls)
  obtain u d where x: "x = (u, d)" by (cases x)
  show ?case
  proof (cases "u = uuid")
    case True
    with Cons.prems show ?thesis by (simp add: x hm_modify_def counted_on_def)
  next
    case False
    with Cons.prems have ok: "hm_ok calls" by (auto simp: hm_ok_def)
    have "hm_modify uuid f (x # calls) = x # hm_modify uuid f calls"
      using False by (simp add: x hm_modify_def split: option.splits)
    with Cons.IH [OF Cons.prems(1) ok] show ?thesis
      by (simp add: counted_on_def split_beta)
  qed
qed

lemma counted_on_remove:
  "hm_ok calls \<Longrightarrow> hm_get calls uuid = Some c \<Longrightarrow> cv_trunk_counted c = None \<Longrightarrow>
   counted_on n (hm_remove uuid calls) = counted_on n calls"
proof -
  assume ok: "hm_ok calls" and g: "hm_get calls uuid = Some c" and "cv_trunk_counted c = None"
  then have "(u, d) \<in> set calls \<Longrightarrow> cv_trunk_counted d = Some n \<Longrightarrow> u \<noteq> uuid" for u d
    by (auto simp: hm_get_in_set)
  then show ?thesis
    unfolding counted_on_def hm_remove_def AList.delete_eq filter_filter
    by (intro arg_cong [where f = length] filter_cong) auto
qed

lemma note_trunk_failure_parts:
  "sb_calls (note_trunk_failure now wall name r s) = sb_calls s"
  "sb_series (note_trunk_failure now wall name r s) = sb_series s"
  "sb_tm (note_trunk_failure now wall name r s) = snd (update_state_by_name name
     (case r of Some n \<Rightarrow> park_for now n | None \<Rightarrow> record_trunk_failure now) (sb_tm s))"
  by (auto simp: note_trunk_failure_def Let_def split_beta split: option.split)

lemma note_trunk_success_parts:
  "sb_calls (note_trunk_success now wall name s) = sb_calls s"
  "sb_series (note_trunk_success now wall name s) = sb_series s"
  "sb_tm (note_trunk_success now wall name s) = snd (update_state_by_name name record_success (sb_tm s))"
  by (auto simp: note_trunk_success_def Let_def)

lemma count_call_calls:
  "sb_calls (count_call_on_trunk uuid trunk s) =
     (case hm_get (sb_calls s) uuid of None \<Rightarrow> sb_calls s
      | Some call \<Rightarrow> if cv_trunk_counted call = trunk then sb_calls s
          else hm_modify uuid (\<lambda>c. c\<lparr>cv_trunk_counted := trunk\<rparr>) (sb_calls s))"
  by (simp add: count_call_on_trunk_def Let_def split: option.split)

lemma calls_step_inv: "calls_step s s' \<Longrightarrow> calls_inv s \<Longrightarrow> calls_inv s'"
proof (induction rule: calls_step.induct)
  case (call_start s uuid c)
  note inv = calls_invD [OF call_start.prems]
  show ?case
    using call_start inv
    by (intro calls_invI)
      (auto simp: length_hm_insert counted_on_insert_new intro: exact_frame [OF inv(3)])
next
  case (call_change f s uuid)
  note inv = calls_invD [OF call_change.prems]
  show ?case
    using call_change inv
    by (intro calls_invI) (auto simp: counted_on_change intro: exact_frame [OF inv(3)])
next
  case (call_end s uuid c)
  note inv = calls_invD [OF call_end.prems]
  show ?case
    using call_end inv
    by (intro calls_invI)
      (auto simp: length_hm_remove counted_on_remove intro: exact_frame [OF inv(3)])
next
  case (call_count s uuid trunk)
  note inv = calls_invD [OF call_count]
  show ?case
  proof (rule calls_invI)
    show "exact (\<lambda>n. counted_on n (sb_calls (count_call_on_trunk uuid trunk s))) (count_call_on_trunk uuid trunk s)"
      using count_call_exact [OF inv(1,3,2)] .
  qed (use inv in \<open>simp_all add: count_call_calls split: option.split\<close>)
next
  case (trunk_failure s now wall name retry_after)
  note inv = calls_invD [OF trunk_failure]
  have "exact (\<lambda>n. counted_on n (sb_calls s)) (note_trunk_failure now wall name retry_after s)"
    by (rule exact_update [OF inv(3) note_trunk_failure_parts(2,3)])
      (simp add: park_for_def record_trunk_failure_def Let_def split: option.split)
  with inv show ?case by (simp add: calls_inv_def note_trunk_failure_parts)
next
  case (trunk_success s now wall name)
  note inv = calls_invD [OF trunk_success]
  have "exact (\<lambda>n. counted_on n (sb_calls s)) (note_trunk_success now wall name s)"
    by (rule exact_update [OF inv(3) note_trunk_success_parts(2,3)]) (simp add: record_success_def)
  with inv show ?case by (simp add: calls_inv_def note_trunk_success_parts)
qed

lemma calls_reachable_inv: "calls_reachable s \<Longrightarrow> calls_inv s"
proof (induction rule: calls_reachable.induct)
  case (calls_init m)
  let ?s = "\<lparr>sb_calls = [], sb_tm = m, sb_series = [], sb_events = []\<rparr>"
  have "active_of n ?s = 0" for n
    using calls_init(2) by (auto simp: active_of_def state_by_name_def split: option.splits bind_splits)
  then show ?case
    by (simp add: calls_inv_def exact_def tm_reachable_inv [OF calls_init(1)] counted_on_def
        gauge_of_def series_of_def new_series_def)
next
  case (calls_next s s')
  then show ?case by (blast intro: calls_step_inv)
qed

text \<open>
  C3: no call is ever lost or counted twice on a trunk. In every reachable state the active-call
  counter that the router compares with \<^verbatim>\<open>max_concurrent_calls\<close> is exactly the number of calls
  counted on that trunk, through every failover and release, and the published gauge shows it.
\<close>

theorem trunk_active_calls_exact:
  assumes "calls_reachable s" and "find_by_name name (sb_tm s) = Some t"
  shows "active_of name s = counted_on name (sb_calls s) \<and> gauge_of name s = counted_on name (sb_calls s)"
  using calls_invD(3) [OF calls_reachable_inv [OF assms(1)]] assms(2) by (simp add: exact_def)

definition one_call :: call_view where
  "one_call = \<lparr>cv_trunk_id = None, cv_trunk_name = None, cv_trunk_counted = None,
     cv_direction = None, cv_callee_responded = False\<rparr>"

definition fresh_sbc :: sbc_trunks where
  "fresh_sbc = \<lparr>sb_calls = [], sb_tm = two_trunks, sb_series = [], sb_events = []\<rparr>"

definition one_call_up :: sbc_trunks where
  "one_call_up = count_call_on_trunk ''u1'' (Some ''wide'') (fresh_sbc\<lparr>sb_calls := [(''u1'', one_call)]\<rparr>)"

lemma fresh_sbc_reachable: "calls_reachable fresh_sbc"
proof -
  have tm: "tm_reachable two_trunks"
    unfolding two_trunks_def by (rule tm_next [OF tm_next [OF tm_init tm_add] tm_add])
  have z: "\<forall>i st. get_state i two_trunks = Some st \<longrightarrow> ts_active_calls st = 0"
    by (auto simp: two_trunks_def add_trunk_def trunk_manager_new_def get_state_def trunk_state_new_def
        hm_get_insert split: if_splits)
  show ?thesis unfolding fresh_sbc_def by (rule calls_init [OF tm z])
qed

lemma one_call_up_reachable: "calls_reachable one_call_up"
proof -
  have "calls_step fresh_sbc (fresh_sbc\<lparr>sb_calls := [(''u1'', one_call)]\<rparr>)"
    using call_start [of fresh_sbc "''u1''" one_call]
    by (simp add: fresh_sbc_def one_call_def hm_insert_def)
  with fresh_sbc_reachable show ?thesis unfolding one_call_up_def by (blast intro: calls_next call_count)
qed

theorem trunk_active_calls_exact_witness: "active_of ''wide'' one_call_up = 1"
proof -
  have "find_by_name ''wide'' (sb_tm one_call_up) = find_by_name ''wide'' two_trunks"
    by (rule find_by_name_cong) (simp add: one_call_up_def count_call_on_trunk_def one_call_def fresh_sbc_def)
  also have "\<dots> = Some wide_trunk"
    by (simp add: find_by_name_def two_trunks_eval) (simp add: wide_trunk_def trunk_config_new_def)
  finally have f: "find_by_name ''wide'' (sb_tm one_call_up) = Some wide_trunk" .
  have "counted_on ''wide'' (sb_calls one_call_up) = 1"
    by (simp add: one_call_up_def count_call_calls one_call_def hm_modify_def counted_on_def)
  with trunk_active_calls_exact [OF one_call_up_reachable f] show ?thesis by simp
qed

text \<open>
  The health of a trunk follows its answers, and the bus hears of every change of its
  availability. A failure that makes a selectable trunk unavailable is published with its label
  (\<^verbatim>\<open>parked\<close> after a Retry-After, else \<^verbatim>\<open>down\<close>), any other failure silently; a success ends a
  failure cooldown at once, and is published only when no park keeps the trunk unavailable.
\<close>

theorem trunk_health_published:
  assumes "tm_inv (sb_tm s)" and "state_by_name name (sb_tm s) = Some st"
  shows "sb_events (note_trunk_failure now wall name r s) =
           (let st' = (case r of Some n \<Rightarrow> park_for now n st | None \<Rightarrow> record_trunk_failure now st)
            in if unavailable_for now st = None \<and> unavailable_for now st' \<noteq> None
               then sb_events s @ [TrunkHealth name (if r = None then ''down'' else ''parked'')
                                     (ts_consecutive_failures st') (event_ts wall)]
               else sb_events s) \<and>
         sb_events (note_trunk_success now wall name s) =
           (if after now (ts_disabled_until st) \<and> \<not> after now (ts_parked_until st)
            then sb_events s @ [TrunkHealth name ''up'' 0 (event_ts wall)] else sb_events s)"
proof
  let ?f = "case r of Some n \<Rightarrow> park_for now n | None \<Rightarrow> record_trunk_failure now"
  have f: "find_by_name name (sb_tm s) \<noteq> None"
    using assms(2) by (cases "find_by_name name (sb_tm s)") (simp_all add: state_by_name_def)
  then have upd: "fst (update_state_by_name name g (sb_tm s))" for g
    by (auto simp: update_state_by_name_def)
  note st = state_by_name_update [OF assms(1)]
  have "sb_events (note_trunk_failure now wall name r s) =
      (if unavailable_for now (?f st) \<noteq> None \<and> unavailable_for now st = None
       then sb_events s @ [TrunkHealth name (health_label now (?f st))
              (ts_consecutive_failures (?f st)) (event_ts wall)] else sb_events s)"
    using upd by (simp add: note_trunk_failure_def split_beta Let_def st assms(2) publish_def)
  moreover have "health_label now (?f st) = (if r = None then ''down'' else ''parked'')"
    if "unavailable_for now st = None" "unavailable_for now (?f st) \<noteq> None"
    using that unavailable_iff [of now st] unavailable_iff [of now "?f st"]
    by (cases r) (auto simp: health_label_def park_for_def record_trunk_failure_def Let_def after_def
        split: if_splits)
  ultimately show "sb_events (note_trunk_failure now wall name r s) =
       (let st' = (case r of Some n \<Rightarrow> park_for now n st | None \<Rightarrow> record_trunk_failure now st)
        in if unavailable_for now st = None \<and> unavailable_for now st' \<noteq> None
           then sb_events s @ [TrunkHealth name (if r = None then ''down'' else ''parked'')
                                 (ts_consecutive_failures st') (event_ts wall)]
           else sb_events s)"
    by (cases r) (auto simp: Let_def)
  show "sb_events (note_trunk_success now wall name s) =
       (if after now (ts_disabled_until st) \<and> \<not> after now (ts_parked_until st)
        then sb_events s @ [TrunkHealth name ''up'' 0 (event_ts wall)] else sb_events s)"
    using unavailable_iff [of now "record_success st"]
    by (auto simp: note_trunk_success_def Let_def st assms(2) publish_def record_success_def after_def)
qed

theorem trunk_health_published_witness:
  "sb_events (note_trunk_failure 0 0 ''wide'' (Some 60) fresh_sbc) =
     [TrunkHealth ''wide'' ''parked'' 1 (event_ts 0)]"
proof -
  have inv: "tm_inv (sb_tm fresh_sbc)"
    unfolding fresh_sbc_def two_trunks_def
    by (simp add: tm_reachable_inv [OF tm_next [OF tm_next [OF tm_init tm_add] tm_add]])
  have st: "state_by_name ''wide'' (sb_tm fresh_sbc) = Some (trunk_state_new 2)"
    by (simp add: fresh_sbc_def state_by_name_def find_by_name_def two_trunks_eval)
      (simp add: wide_trunk_def two_trunks_def add_trunk_def cheap_trunk_def trunk_config_new_def get_state_def
        hm_get_insert)
  show ?thesis
    using trunk_health_published [OF inv st, of 0 0 "Some 60"]
    by (simp add: unavailable_for_def trunk_state_new_def park_for_def List.map_filter_def incr32_def
        secs_def fresh_sbc_def)
qed

end
