(* ===== verification/Sip_Message.thy ===== *)
theory Sip_Message
  imports Net Text
begin

text \<open>
  \<^verbatim>\<open>crates/sbc-core/src/topology.rs\<close>: the line-based SIP message of the SBC, its header
  operations, and the topology-hiding and header-stripping passes built on them. The wall clock
  that names a Via branch is the argument \<open>wall\<close>.
\<close>

section \<open>The identity of the SBC\<close>

record sbc_identity =
  id_public_ip :: string
  id_sip_domain :: string
  id_sip_port :: nat
  id_tls :: bool

definition id_scheme :: "sbc_identity \<Rightarrow> string" where
  "id_scheme i = (if id_tls i then ''sips'' else ''sip'')"

definition identity_sip_uri :: "sbc_identity \<Rightarrow> string" where
  "identity_sip_uri i =
     (if id_sip_port i = 5060 \<and> \<not> id_tls i then id_scheme i @ '':'' @ id_sip_domain i
      else id_scheme i @ '':'' @ id_sip_domain i @ '':'' @ show_nat (id_sip_port i))"

definition contact_uri :: "sbc_identity \<Rightarrow> string" where
  "contact_uri i =
     id_scheme i @ '':sbc@'' @ id_public_ip i @ '':'' @ show_nat (id_sip_port i)
     @ (if id_tls i then '';transport=tls'' else '''')"

definition via_header :: "sbc_identity \<Rightarrow> string \<Rightarrow> string \<Rightarrow> string" where
  "via_header i transport branch =
     ''SIP/2.0/'' @ to_ascii_uppercase transport @ '' '' @ id_public_ip i @ '':'' @ show_nat (id_sip_port i)
     @ '';branch='' @ branch"

definition record_route :: "sbc_identity \<Rightarrow> string" where
  "record_route i =
     (if id_tls i then ''<'' @ identity_sip_uri i @ '';transport=tls;lr>''
      else ''<'' @ identity_sip_uri i @ '';lr>'')"

section \<open>Messages\<close>

record raw_sip_message =
  rm_start_line :: string
  rm_headers :: "string list"
  rm_body :: string

definition crlf2 :: string where "crlf2 = crlf @ crlf"

definition split_body :: "string \<Rightarrow> string \<times> string" where
  "split_body raw =
     (case find_str crlf2 raw of
        Some pos \<Rightarrow> (take pos raw, drop (pos + 4) raw)
      | None \<Rightarrow>
          (case find_str [LF, LF] raw of
             Some pos \<Rightarrow> (take pos raw, drop (pos + 2) raw)
           | None \<Rightarrow> (raw, '''')))"

definition starts_blank :: "string \<Rightarrow> bool" where
  "starts_blank line \<longleftrightarrow> starts_with line '' '' \<or> starts_with line [CHR 0x09]"

text \<open>The header loop: the header being folded, and the headers already closed.\<close>

fun fold_headers :: "string option \<Rightarrow> string list \<Rightarrow> string list" where
  "fold_headers current [] = (case current of None \<Rightarrow> [] | Some h \<Rightarrow> [h])"
| "fold_headers current (line # rest) =
     (if starts_blank line
      then fold_headers (map_option (\<lambda>h. h @ '' '' @ trim line) current) rest
      else (case current of None \<Rightarrow> [] | Some h \<Rightarrow> [h]) @
           fold_headers (if line = [] then None else Some line) rest)"

definition parse :: "string \<Rightarrow> raw_sip_message result" where
  "parse raw =
     (let (header_part, body) = split_body raw;
          start_line = trim (takeWhile (\<lambda>c. c \<noteq> CR \<and> c \<noteq> LF) header_part)
      in Inr \<lparr>rm_start_line = start_line,
              rm_headers = fold_headers None (tl (lines header_part)),
              rm_body = body\<rparr>)"

definition render :: "raw_sip_message \<Rightarrow> string" where
  "render m = rm_start_line m @ crlf @ concat (map (\<lambda>h. h @ crlf) (rm_headers m)) @ crlf @ rm_body m"

section \<open>Headers\<close>

definition short_form :: "string \<Rightarrow> string" where
  "short_form name =
     (case map_of [(''v'', ''via''), (''f'', ''from''), (''t'', ''to''), (''m'', ''contact''),
         (''i'', ''call-id''), (''e'', ''content-encoding''), (''l'', ''content-length''),
         (''c'', ''content-type''), (''s'', ''subject''), (''k'', ''supported'')] name of
        Some long \<Rightarrow> long | None \<Rightarrow> name)"

text \<open>The value of a header line, if it is a header of that name (long or compact).\<close>

definition header_match :: "string \<Rightarrow> string \<Rightarrow> string option" where
  "header_match name h =
     (case split_once CHR '':'' h of
        None \<Rightarrow> None
      | Some (n, v) \<Rightarrow>
          let hname = to_ascii_lowercase (trim n); name_lc = to_ascii_lowercase name
          in if hname = name_lc \<or> short_form hname = name_lc then Some (trim v) else None)"

definition header_values :: "string \<Rightarrow> raw_sip_message \<Rightarrow> string list" where
  "header_values name m = List.map_filter (header_match name) (rm_headers m)"

definition remove_header :: "string \<Rightarrow> raw_sip_message \<Rightarrow> raw_sip_message" where
  "remove_header name m = m\<lparr>rm_headers := filter (\<lambda>h. header_match name h = None) (rm_headers m)\<rparr>"

definition prepend_header :: "string \<Rightarrow> raw_sip_message \<Rightarrow> raw_sip_message" where
  "prepend_header h m = m\<lparr>rm_headers := h # rm_headers m\<rparr>"

definition append_header :: "string \<Rightarrow> raw_sip_message \<Rightarrow> raw_sip_message" where
  "append_header h m = m\<lparr>rm_headers := rm_headers m @ [h]\<rparr>"

fun replace_first :: "(string \<Rightarrow> bool) \<Rightarrow> string \<Rightarrow> string list \<Rightarrow> string list option" where
  "replace_first P new [] = None"
| "replace_first P new (h # hs) =
     (if P h then Some (new # hs) else map_option ((#) h) (replace_first P new hs))"

definition set_header :: "string \<Rightarrow> string \<Rightarrow> raw_sip_message \<Rightarrow> raw_sip_message" where
  "set_header name val m =
     (let new_line = name @ '': '' @ val
      in case replace_first (\<lambda>h. header_match name h \<noteq> None) new_line (rm_headers m) of
           Some hs \<Rightarrow> m\<lparr>rm_headers := hs\<rparr>
         | None \<Rightarrow> m\<lparr>rm_headers := rm_headers m @ [new_line]\<rparr>)"

text \<open>The hop count of a Max-Forwards line (this header has no compact form).\<close>

definition max_forwards_of :: "string \<Rightarrow> nat option" where
  "max_forwards_of h =
     (case split_once CHR '':'' h of
        None \<Rightarrow> None
      | Some (n, v) \<Rightarrow>
          if to_ascii_lowercase (trim n) = ''max-forwards'' then parse_uint u32_max (trim v) else None)"

fun decrement_lines :: "string list \<Rightarrow> string list result" where
  "decrement_lines [] = Inr [''Max-Forwards: 70'']"
| "decrement_lines (h # hs) =
     (case max_forwards_of h of
        Some n \<Rightarrow>
          if n = 0 then Inl (TransportErr ''Max-Forwards reached 0'')
          else Inr ((''Max-Forwards: '' @ show_nat (n - 1)) # hs)
      | None \<Rightarrow> (case decrement_lines hs of Inl e \<Rightarrow> Inl e | Inr hs' \<Rightarrow> Inr (h # hs')))"

definition decrement_max_forwards :: "raw_sip_message \<Rightarrow> raw_sip_message result" where
  "decrement_max_forwards m =
     (case decrement_lines (rm_headers m) of Inl e \<Rightarrow> Inl e | Inr hs \<Rightarrow> Inr (m\<lparr>rm_headers := hs\<rparr>))"

definition is_request :: "raw_sip_message \<Rightarrow> bool" where
  "is_request m \<longleftrightarrow> \<not> starts_with (rm_start_line m) ''SIP/2.0''"

definition msg_method :: "raw_sip_message \<Rightarrow> string option" where
  "msg_method m =
     (if is_request m
      then (case split_whitespace (rm_start_line m) of [] \<Rightarrow> None | w # _ \<Rightarrow> Some w)
      else None)"

section \<open>Passes\<close>

definition hex_width :: "nat \<Rightarrow> nat \<Rightarrow> string" where
  "hex_width w n = (let s = show_hex n in replicate (w - length s) CHR ''0'' @ s)"

definition topo_new_branch :: "instant \<Rightarrow> string" where
  "topo_new_branch wall = ''z9hG4bK'' @ hex_width 8 (wall mod 1000000000)"

definition apply_topology_hiding_inbound ::
  "instant \<Rightarrow> sbc_identity \<Rightarrow> string \<Rightarrow> string \<Rightarrow> string result"
where
  "apply_topology_hiding_inbound wall identity transport raw =
     (case parse raw of
        Inl e \<Rightarrow> Inl e
      | Inr m \<Rightarrow>
          if is_request m then
            (case decrement_max_forwards m of
               Inl e \<Rightarrow> Inl e
             | Inr m1 \<Rightarrow>
                 let m2 = remove_header ''v'' (remove_header ''via'' m1);
                     m3 = prepend_header (''Via: '' @ via_header identity transport (topo_new_branch wall)) m2;
                     m4 = (if header_values ''contact'' m3 \<noteq> []
                           then append_header (''Contact: <'' @ contact_uri identity @ ''>'')
                                  (remove_header ''m'' (remove_header ''contact'' m3))
                           else m3)
                 in Inr (render (remove_header ''record-route'' m4)))
          else
            let vias = header_values ''via'' m;
                m1 = remove_header ''via'' m
            in Inr (render (if vias = [] then m1 else prepend_header (''Via: '' @ last vias) m1)))"

definition hide_outbound :: "instant \<Rightarrow> sbc_identity \<Rightarrow> string \<Rightarrow> raw_sip_message \<Rightarrow> raw_sip_message" where
  "hide_outbound wall identity transport m =
     (let m1 = (case decrement_max_forwards m of Inl _ \<Rightarrow> m | Inr m' \<Rightarrow> m');
          m2 = prepend_header (''Via: '' @ via_header identity transport (topo_new_branch wall))
                 (remove_header ''via'' m1);
          m3 = append_header (''Contact: <'' @ contact_uri identity @ ''>'')
                 (remove_header ''m'' (remove_header ''contact'' m2));
          m4 = prepend_header (''Record-Route: '' @ record_route identity)
                 (remove_header ''record-route'' m3)
      in remove_header ''route'' m4)"

definition apply_topology_hiding_outbound ::
  "instant \<Rightarrow> sbc_identity \<Rightarrow> string \<Rightarrow> string \<Rightarrow> string result"
where
  "apply_topology_hiding_outbound wall identity transport raw =
     (case parse raw of
        Inl e \<Rightarrow> Inl e
      | Inr m \<Rightarrow>
          Inr (render (if is_request m then hide_outbound wall identity transport m else m)))"

definition UNTRUSTED_IDENTITY_HEADERS :: "string list" where
  "UNTRUSTED_IDENTITY_HEADERS =
     [''p-asserted-identity'', ''p-preferred-identity'', ''remote-party-id'', ''p-charging-vector'',
      ''x-forwarded-for'', ''x-real-ip'']"

definition strip_credentials :: "string \<Rightarrow> string" where
  "strip_credentials raw =
     (let lower = to_ascii_lowercase raw in
      if \<not> contains lower ([LF] @ ''authorization:'') \<and> \<not> contains lower ([LF] @ ''proxy-authorization:'')
      then raw
      else case parse raw of
             Inl _ \<Rightarrow> raw
           | Inr m \<Rightarrow> render (remove_header ''proxy-authorization'' (remove_header ''authorization'' m)))"

definition strip_untrusted_identity_headers :: "string \<Rightarrow> string" where
  "strip_untrusted_identity_headers raw =
     (case parse raw of
        Inl _ \<Rightarrow> raw
      | Inr m \<Rightarrow>
          let m' = fold remove_header UNTRUSTED_IDENTITY_HEADERS m
          in if length (rm_headers m') = length (rm_headers m) then raw else render m')"

definition SUPPORTED_EXTENSIONS :: "string list" where
  "SUPPORTED_EXTENSIONS = [''timer'']"

definition keep_extension :: "string list \<Rightarrow> string \<Rightarrow> string list" where
  "keep_extension kept token =
     (let t = trim token
      in if list_ex (\<lambda>s. eq_ignore_ascii_case s t) SUPPORTED_EXTENSIONS
            \<and> \<not> list_ex (\<lambda>k. eq_ignore_ascii_case k t) kept
         then kept @ [t] else kept)"

definition is_supported_line :: "string \<Rightarrow> bool" where
  "is_supported_line h \<longleftrightarrow>
     (let name = to_ascii_lowercase (trim (hd (split_on CHR '':'' h))) in name = ''supported'' \<or> name = ''k'')"

fun drop_later :: "(string \<Rightarrow> bool) \<Rightarrow> bool \<Rightarrow> string list \<Rightarrow> string list" where
  "drop_later P seen [] = []"
| "drop_later P seen (h # hs) =
     (if P h then (if seen then drop_later P True hs else h # drop_later P True hs)
      else h # drop_later P seen hs)"

definition strip_unsupported_extensions :: "string \<Rightarrow> string" where
  "strip_unsupported_extensions raw =
     (case parse raw of
        Inl _ \<Rightarrow> raw
      | Inr m \<Rightarrow>
          let vals = header_values ''supported'' m;
              kept = foldl keep_extension [] (concat (map (split_on CHR '','') vals))
          in if vals = [] then raw
             else if kept = [] then render (remove_header ''k'' (remove_header ''supported'' m))
             else
               let val = join_with '', '' kept;
                   m1 = m\<lparr>rm_headers := drop_later is_supported_line False (rm_headers m)\<rparr>;
                   m2 = remove_header ''k'' m1
               in render (if header_values ''supported'' m2 = []
                          then append_header (''Supported: '' @ val) m2
                          else set_header ''Supported'' val m2))"

definition strip_privacy_headers :: "string \<Rightarrow> string result" where
  "strip_privacy_headers raw =
     (case parse raw of
        Inl e \<Rightarrow> Inl e
      | Inr m \<Rightarrow>
          Inr (render (fold remove_header
            [''p-asserted-identity'', ''p-preferred-identity'', ''x-forwarded-for'', ''x-real-ip'',
             ''server'', ''user-agent''] m)))"

section \<open>Parsing what was rendered\<close>

text \<open>
  A well-formed message: nothing in its lines ends or folds a line, and the start line has no
  blanks around it.
\<close>

definition plain_line :: "string \<Rightarrow> bool" where
  "plain_line h \<longleftrightarrow> h \<noteq> [] \<and> CR \<notin> set h \<and> LF \<notin> set h \<and> \<not> starts_blank h"

definition wf_msg :: "raw_sip_message \<Rightarrow> bool" where
  "wf_msg m \<longleftrightarrow> CR \<notin> set (rm_start_line m) \<and> LF \<notin> set (rm_start_line m) \<and>
     trim (rm_start_line m) = rm_start_line m \<and> (\<forall>h \<in> set (rm_headers m). plain_line h)"

definition header_block :: "string list \<Rightarrow> string" where
  "header_block hs = concat (map (\<lambda>h. crlf @ h) hs)"

lemma render_block: "render m = rm_start_line m @ header_block (rm_headers m) @ crlf2 @ rm_body m"
proof -
  have "crlf @ concat (map (\<lambda>h. h @ crlf) hs) @ x = header_block hs @ crlf @ x" for hs x
    by (induction hs arbitrary: x) (auto simp: header_block_def)
  then show ?thesis by (simp add: render_def crlf2_def)
qed

lemma find_crlf2_block:
  assumes "\<forall>h \<in> set hs. plain_line h"
  shows "find_str crlf2 (header_block hs @ crlf2 @ body) = Some (length (header_block hs))"
  using assms
proof (induction hs)
  case Nil
  then show ?case by (simp add: header_block_def find_str_here)
next
  case (Cons h hs)
  then obtain c cs where h: "h = c # cs" and nc: "CR \<notin> set h" by (auto simp: plain_line_def neq_Nil_conv)
  have p: "crlf2 = CR # [LF, CR, LF]" by (simp add: crlf2_def crlf_def)
  have "find_str crlf2 (crlf @ h @ header_block hs @ crlf2 @ body) =
      map_option ((+) 2) (find_str crlf2 (h @ header_block hs @ crlf2 @ body))"
    using nc by (auto simp: p crlf_def h starts_with_def option.map_comp comp_def)
  also have "\<dots> = map_option ((+) 2) (map_option ((+) (length h)) (find_str crlf2 (header_block hs @ crlf2 @ body)))"
    using find_str_skip_word [OF nc, of "[LF, CR, LF]"] by (simp add: p)
  finally show ?case using Cons by (simp add: header_block_def crlf_def)
qed

lemma split_body_render:
  assumes "wf_msg m"
  shows "split_body (render m) = (rm_start_line m @ header_block (rm_headers m), rm_body m)"
proof -
  have p: "crlf2 = CR # [LF, CR, LF]" by (simp add: crlf2_def crlf_def)
  have "find_str crlf2 (render m) = Some (length (rm_start_line m @ header_block (rm_headers m)))"
    using find_str_skip_word [of CR "rm_start_line m" "[LF, CR, LF]"] assms
      find_crlf2_block [of "rm_headers m" "rm_body m"]
    by (simp add: render_block wf_msg_def p)
  then show ?thesis by (simp add: split_body_def render_block p)
qed

lemma lines_block:
  assumes "LF \<notin> set s" and "\<forall>h \<in> set hs. plain_line h"
  shows "tl (lines (s @ header_block hs)) = hs"
  using assms
proof (induction hs arbitrary: s)
  case Nil
  then show ?case by (cases "s = []") (simp_all add: header_block_def lines_last)
next
  case (Cons h hs)
  have h: "LF \<notin> set h" "h \<noteq> []" using Cons.prems by (auto simp: plain_line_def)
  have "lines (s @ header_block (h # hs)) = s # lines (h @ header_block hs)"
    using lines_crlf [OF Cons.prems(1)] by (simp add: header_block_def)
  moreover have "\<exists>ls. lines (h @ header_block hs) = h # ls"
  proof (cases hs)
    case Nil
    with h show ?thesis by (simp add: header_block_def lines_last)
  next
    case (Cons g gs)
    with lines_crlf [OF h(1)] show ?thesis by (simp add: header_block_def)
  qed
  ultimately show ?case using Cons.IH [of h] Cons.prems h by auto
qed

lemma fold_headers_plain:
  "\<forall>h \<in> set hs. plain_line h \<Longrightarrow>
   fold_headers cur hs = (case cur of None \<Rightarrow> [] | Some h \<Rightarrow> [h]) @ hs"
  by (induction hs arbitrary: cur) (auto simp: plain_line_def)

lemma takeWhile_start:
  assumes "CR \<notin> set s" and "LF \<notin> set s"
  shows "takeWhile (\<lambda>c. c \<noteq> CR \<and> c \<noteq> LF) (s @ header_block hs) = s"
proof -
  have "\<forall>c \<in> set s. c \<noteq> CR \<and> c \<noteq> LF" using assms by auto
  then show ?thesis by (cases hs) (auto simp: header_block_def crlf_def takeWhile_append2)
qed

lemma parse_render:
  assumes "wf_msg m"
  shows "parse (render m) = Inr m"
proof -
  have hs: "\<forall>h \<in> set (rm_headers m). plain_line h" using assms by (simp add: wf_msg_def)
  show ?thesis
    using assms lines_block [OF _ hs, of "rm_start_line m"] fold_headers_plain [OF hs, of None]
      takeWhile_start [of "rm_start_line m" "rm_headers m"]
    by (simp add: parse_def split_body_render wf_msg_def)
qed

text \<open>
  The text form loses nothing: a well-formed message, whatever its body holds, is parsed
  back from its own rendering.
\<close>

theorem sip_message_round_trip:
  assumes "wf_msg m"
  shows "parse (render m) = Inr m"
  using assms by (rule parse_render)

definition sample_invite :: raw_sip_message where
  "sample_invite =
     \<lparr>rm_start_line = ''INVITE sip:bob@h SIP/2.0'',
      rm_headers = [''Via: SIP/2.0/UDP 10.0.0.9'', ''v: SIP/2.0/UDP 10.0.0.8'', ''m: <sip:a@10.0.0.9>'',
                    ''Route: <sip:core>'', ''Max-Forwards: 9'', ''Call-ID: c1'',
                    ''Authorization: Digest x''],
      rm_body = ''v=0'' @ crlf2 @ ''Via: not a header''\<rparr>"

lemma sample_invite_wf: "wf_msg sample_invite"
  by (simp add: sample_invite_def wf_msg_def plain_line_def starts_blank_def starts_with_def
      trim_def trim_start_def trim_end_def is_space_def)

theorem sip_message_round_trip_witness: "parse (render sample_invite) = Inr sample_invite"
  by (rule sip_message_round_trip [OF sample_invite_wf])

section \<open>Header classes\<close>

text \<open>The canonical name of a header line: lower case, the compact form written out.\<close>

definition canon_name :: "string \<Rightarrow> string option" where
  "canon_name h = map_option (\<lambda>(n, _). short_form (to_ascii_lowercase (trim n))) (split_once CHR '':'' h)"

definition canonical :: "string \<Rightarrow> bool" where
  "canonical n \<longleftrightarrow> to_ascii_lowercase n = n \<and> short_form n = n"

lemmas canonical_eval = canonical_def to_ascii_lowercase_def lower_char_def short_form_def

lemma header_match_canonical:
  "canonical n \<Longrightarrow> header_match n h =
     (if canon_name h = Some n then map_option (\<lambda>(_, v). trim v) (split_once CHR '':'' h) else None)"
  by (auto simp: header_match_def canon_name_def canonical_def Let_def split: option.splits)

lemma header_match_canonical_None:
  "canonical n \<Longrightarrow> header_match n h = None \<longleftrightarrow> canon_name h \<noteq> Some n"
  by (auto simp: header_match_canonical canon_name_def)

lemma remove_canonical:
  "canonical n \<Longrightarrow>
   remove_header n m = m\<lparr>rm_headers := filter (\<lambda>h. canon_name h \<noteq> Some n) (rm_headers m)\<rparr>"
  by (simp add: remove_header_def header_match_canonical_None)

text \<open>Removing the compact form after the long one changes nothing.\<close>

lemma header_match_compact:
  assumes "k \<in> {''v'', ''m'', ''k''}" and "header_match k h \<noteq> None"
  shows "canon_name h = Some (short_form k)"
proof -
  have l: "to_ascii_lowercase k = k" using assms(1) by (auto simp: to_ascii_lowercase_def lower_char_def)
  obtain n v where nv: "split_once CHR '':'' h = Some (n, v)"
    and "to_ascii_lowercase (trim n) = k \<or> short_form (to_ascii_lowercase (trim n)) = k"
    using assms(2) l by (auto simp: header_match_def Let_def split: option.splits if_splits)
  moreover have "short_form x \<noteq> k" for x
    using assms(1) by (auto simp: short_form_def split: if_splits option.splits)
  ultimately have "to_ascii_lowercase (trim n) = k" by blast
  with nv show ?thesis by (simp add: canon_name_def)
qed

lemma remove_compact:
  assumes "k \<in> {''v'', ''m'', ''k''}" and "\<forall>h \<in> set (rm_headers m). canon_name h \<noteq> Some (short_form k)"
  shows "remove_header k m = m"
proof -
  have "filter (\<lambda>h. header_match k h = None) (rm_headers m) = rm_headers m"
    by (rule filter_True) (use assms header_match_compact in blast)
  then show ?thesis by (simp add: remove_header_def)
qed

lemma header_values_canonical:
  "canonical n \<Longrightarrow> header_values n m =
     map (\<lambda>h. trim (snd (the (split_once CHR '':'' h)))) (filter (\<lambda>h. canon_name h = Some n) (rm_headers m))"
proof -
  assume c: "canonical n"
  have "List.map_filter (header_match n) hs =
      map (\<lambda>h. trim (snd (the (split_once CHR '':'' h)))) (filter (\<lambda>h. canon_name h = Some n) hs)" for hs
    by (induction hs)
      (auto simp: List.map_filter_def header_match_canonical [OF c] canon_name_def split: prod.splits)
  then show ?thesis by (simp add: header_values_def)
qed

section \<open>Outbound topology hiding\<close>

definition hidden_names :: "string set" where
  "hidden_names = {''via'', ''contact'', ''record-route'', ''route''}"

lemma hidden_canonical:
  "canonical ''via''" "canonical ''contact''" "canonical ''record-route''" "canonical ''route''"
  "canonical ''max-forwards''" "canonical ''authorization''" "canonical ''proxy-authorization''"
  by (simp_all add: canonical_eval)

lemma canon_name_lines [simp]:
  "canon_name (''Via: '' @ v) = Some ''via''"
  "canon_name (''Contact: '' @ v) = Some ''contact''"
  "canon_name (''Record-Route: '' @ v) = Some ''record-route''"
  "canon_name (''Max-Forwards: '' @ v) = Some ''max-forwards''"
  by (simp_all add: canon_name_def trim_def trim_start_def trim_end_def is_space_def
      to_ascii_lowercase_def lower_char_def short_form_def char_of_def bit_0)

text \<open>The three header lines the SBC puts in.\<close>

definition sbc_via :: "instant \<Rightarrow> sbc_identity \<Rightarrow> string \<Rightarrow> string" where
  "sbc_via wall identity transport = ''Via: '' @ via_header identity transport (topo_new_branch wall)"

definition sbc_contact :: "sbc_identity \<Rightarrow> string" where
  "sbc_contact identity = ''Contact: <'' @ contact_uri identity @ ''>''"

definition sbc_record_route :: "sbc_identity \<Rightarrow> string" where
  "sbc_record_route identity = ''Record-Route: '' @ record_route identity"

lemma canon_name_sbc [simp]:
  "canon_name (sbc_via wall identity transport) = Some ''via''"
  "canon_name (sbc_contact identity) = Some ''contact''"
  "canon_name (sbc_record_route identity) = Some ''record-route''"
  unfolding sbc_via_def sbc_record_route_def sbc_contact_def
  using canon_name_lines(1,3) canon_name_lines(2) [of "''<'' @ contact_uri identity @ ''>''"]
  by (blast, simp, blast)

lemma value_sbc:
  "trim (snd (the (split_once CHR '':'' (sbc_via wall i transport)))) =
     trim (via_header i transport (topo_new_branch wall))"
  "trim (snd (the (split_once CHR '':'' (sbc_contact i)))) = trim (''<'' @ contact_uri i @ ''>'')"
  "trim (snd (the (split_once CHR '':'' (sbc_record_route i)))) = trim (record_route i)"
  by (simp_all add: sbc_via_def sbc_contact_def sbc_record_route_def trim_def trim_start_def is_space_def)

lemma decrement_lines_others:
  assumes "decrement_lines hs = Inr hs'" and "P (Some ''max-forwards'') = False"
  shows "filter (\<lambda>h. P (canon_name h)) hs' = filter (\<lambda>h. P (canon_name h)) hs"
  using assms
proof (induction hs arbitrary: hs')
  case Nil
  then have "hs' = [''Max-Forwards: '' @ ''70'']" by simp
  with Nil.prems(2) show ?case by (simp only: filter.simps canon_name_lines) simp
next
  case (Cons h hs)
  show ?case
  proof (cases "max_forwards_of h")
    case None
    with Cons.prems(1) obtain gs where "decrement_lines hs = Inr gs" "hs' = h # gs"
      by (auto split: sum.splits)
    with Cons.IH [of gs] Cons.prems(2) show ?thesis by simp
  next
    case (Some n)
    then have "canon_name h = Some (short_form ''max-forwards'')"
      by (auto simp: max_forwards_of_def canon_name_def split: option.splits if_splits)
    then have "canon_name h = Some ''max-forwards''" by (simp add: short_form_def)
    moreover from Some Cons.prems(1) have "hs' = (''Max-Forwards: '' @ show_nat (n - 1)) # hs"
      by (auto split: if_splits)
    ultimately show ?thesis
      using Cons.prems(2) by (simp only: filter.simps canon_name_lines) simp
  qed
qed

lemma hide_outbound_eq:
  "rm_headers (hide_outbound wall identity transport m) =
     sbc_record_route identity # sbc_via wall identity transport
     # filter (\<lambda>h. canon_name h \<notin> Some ` hidden_names)
         (rm_headers (case decrement_max_forwards m of Inl _ \<Rightarrow> m | Inr m' \<Rightarrow> m'))
     @ [sbc_contact identity]"
  "rm_start_line (hide_outbound wall identity transport m) = rm_start_line m"
  "rm_body (hide_outbound wall identity transport m) = rm_body m"
proof -
  define m1 where "m1 = (case decrement_max_forwards m of Inl _ \<Rightarrow> m | Inr m' \<Rightarrow> m')"
  have keep: "rm_start_line m1 = rm_start_line m" "rm_body m1 = rm_body m"
    by (auto simp: m1_def decrement_max_forwards_def split: sum.splits)
  have no_contact: "remove_header ''m'' (m2\<lparr>rm_headers := hs\<rparr>) = m2\<lparr>rm_headers := hs\<rparr>"
    if "\<forall>h \<in> set hs. canon_name h \<noteq> Some ''contact''" for m2 hs
    using that by (intro remove_compact) (auto simp: short_form_def)
  have "hide_outbound wall identity transport m = m1\<lparr>rm_headers :=
      sbc_record_route identity # sbc_via wall identity transport
      # filter (\<lambda>h. canon_name h \<notin> Some ` hidden_names) (rm_headers m1) @ [sbc_contact identity]\<rparr>"
    unfolding hide_outbound_def m1_def [symmetric] Let_def sbc_via_def [symmetric]
      sbc_contact_def [symmetric] sbc_record_route_def [symmetric]
    by (simp add: remove_canonical hidden_canonical no_contact prepend_header_def append_header_def
        hidden_names_def)
  with keep show "rm_headers (hide_outbound wall identity transport m) =
     sbc_record_route identity # sbc_via wall identity transport
     # filter (\<lambda>h. canon_name h \<notin> Some ` hidden_names)
         (rm_headers (case decrement_max_forwards m of Inl _ \<Rightarrow> m | Inr m' \<Rightarrow> m'))
     @ [sbc_contact identity]"
    "rm_start_line (hide_outbound wall identity transport m) = rm_start_line m"
    "rm_body (hide_outbound wall identity transport m) = rm_body m"
    by (simp_all add: m1_def)
qed

lemma plain_removed: "wf_msg m \<Longrightarrow> wf_msg (remove_header n m)"
  by (auto simp: wf_msg_def remove_header_def)

lemma wf_msg_headers:
  "wf_msg m \<Longrightarrow> \<forall>h \<in> set hs. plain_line h \<Longrightarrow> wf_msg (m\<lparr>rm_headers := hs\<rparr>)"
  by (simp add: wf_msg_def)

text \<open>An identity whose texts cannot break a header line.\<close>

definition clean_identity :: "sbc_identity \<Rightarrow> bool" where
  "clean_identity i \<longleftrightarrow> clean (id_public_ip i) \<and> clean (id_sip_domain i)"

lemma plain_line_prefix:
  "p \<noteq> [] \<Longrightarrow> \<not> starts_blank p \<Longrightarrow> clean p \<Longrightarrow> clean s \<Longrightarrow> plain_line (p @ s)"
  by (cases p) (auto simp: plain_line_def clean_def starts_blank_def starts_with_def)

lemma clean_new_branch [simp]: "clean (topo_new_branch wall)"
proof -
  have "clean ''z9hG4bK''" "clean (replicate n CHR ''0'')" for n by (auto simp: clean_def)
  then show ?thesis by (simp add: topo_new_branch_def hex_width_def Let_def del: append_Cons)
qed

lemma sbc_lines_plain:
  assumes "clean_identity i" and "clean transport"
  shows "plain_line (sbc_via wall i transport)" "plain_line (sbc_contact i)" "plain_line (sbc_record_route i)"
proof -
  have c: "clean ''SIP/2.0/''" "clean '' ''" "clean '':''" "clean '';branch=''" "clean '':sbc@''"
    "clean '';transport=tls''" "clean ''<''" "clean ''>''" "clean '';transport=tls;lr>''" "clean '';lr>''"
    "clean ''sip''" "clean ''sips''" "clean []" "clean ''Via: ''" "clean ''Contact: <''" "clean ''Record-Route: ''"
    by (simp_all add: clean_def)
  note cl = c assms [unfolded clean_identity_def]
  have "clean (via_header i transport (topo_new_branch wall))"
    unfolding via_header_def using cl by (simp del: append_Cons)
  then show "plain_line (sbc_via wall i transport)"
    unfolding sbc_via_def using c by (intro plain_line_prefix) (auto simp: starts_blank_def starts_with_def)
  have "clean (contact_uri i @ ''>'')"
    unfolding contact_uri_def id_scheme_def using cl by (simp del: append_Cons)
  then show "plain_line (sbc_contact i)"
    unfolding sbc_contact_def using c by (intro plain_line_prefix) (auto simp: starts_blank_def starts_with_def)
  have "clean (record_route i)"
    unfolding record_route_def identity_sip_uri_def id_scheme_def using cl by (simp del: append_Cons)
  then show "plain_line (sbc_record_route i)"
    unfolding sbc_record_route_def using c by (intro plain_line_prefix) (auto simp: starts_blank_def starts_with_def)
qed

lemma decrement_plain:
  assumes "decrement_lines hs = Inr hs'" and "\<forall>h \<in> set hs. plain_line h"
  shows "\<forall>h \<in> set hs'. plain_line h"
proof -
  have mf: "plain_line (''Max-Forwards: '' @ s)" if "clean s" for s
    using that by (intro plain_line_prefix) (auto simp: starts_blank_def starts_with_def clean_def)
  have "plain_line ''Max-Forwards: 70''" using mf [of "''70''"] by (simp add: clean_def)
  then show ?thesis
    using assms mf [of "show_nat _"]
    by (induction hs arbitrary: hs') (auto split: option.splits if_splits sum.splits)
qed

lemma hide_outbound_wf:
  assumes "wf_msg m" and "clean_identity i" and "clean transport"
  shows "wf_msg (hide_outbound wall i transport m)"
proof -
  have "\<forall>h \<in> set (rm_headers (case decrement_max_forwards m of Inl _ \<Rightarrow> m | Inr m' \<Rightarrow> m')). plain_line h"
    using assms(1) decrement_plain
    by (auto simp: wf_msg_def decrement_max_forwards_def split: sum.splits)
  with assms sbc_lines_plain [OF assms(2,3)] show ?thesis
    unfolding wf_msg_def hide_outbound_eq by auto
qed

lemma hide_outbound_values:
  assumes "canonical n" and "n \<in> hidden_names"
  shows "header_values n (hide_outbound wall i transport m) =
     map (\<lambda>h. trim (snd (the (split_once CHR '':'' h))))
       (filter (\<lambda>h. canon_name h = Some n) [sbc_record_route i, sbc_via wall i transport, sbc_contact i])"
proof -
  have "filter (\<lambda>h. canon_name h = Some n) (filter (\<lambda>h. canon_name h \<notin> Some ` hidden_names) hs) = []" for hs
    using assms(2) by (auto simp: filter_empty_conv)
  then show ?thesis
    unfolding header_values_canonical [OF assms(1)] hide_outbound_eq(1) by (simp del: filter_filter)
qed

text \<open>
  C32: a request that leaves toward a trunk tells nothing of the path it came by. Parsed again, it
  has one Via, one Contact and one Record-Route, the SBC's own, and no Route; every other header
  but Max-Forwards is there unchanged and in order, and so are the start line and the body.
\<close>

theorem outbound_topology_hidden:
  assumes "wf_msg m" and "is_request m" and "clean_identity i" and "clean transport"
  shows "\<exists>raw m'. apply_topology_hiding_outbound wall i transport (render m) = Inr raw \<and> parse raw = Inr m' \<and>
     header_values ''via'' m' = [trim (via_header i transport (topo_new_branch wall))] \<and>
     header_values ''contact'' m' = [trim (''<'' @ contact_uri i @ ''>'')] \<and>
     header_values ''record-route'' m' = [trim (record_route i)] \<and>
     header_values ''route'' m' = [] \<and>
     rm_start_line m' = rm_start_line m \<and> rm_body m' = rm_body m \<and>
     filter (\<lambda>h. canon_name h \<notin> Some ` insert ''max-forwards'' hidden_names) (rm_headers m') =
     filter (\<lambda>h. canon_name h \<notin> Some ` insert ''max-forwards'' hidden_names) (rm_headers m)"
proof -
  let ?m = "hide_outbound wall i transport m"
  have out: "apply_topology_hiding_outbound wall i transport (render m) = Inr (render ?m)"
    using assms by (simp add: apply_topology_hiding_outbound_def parse_render)
  have again: "parse (render ?m) = Inr ?m"
    using hide_outbound_wf [OF assms(1,3,4)] by (rule parse_render)
  note hv = hide_outbound_values [of _ wall i transport m]
  have v: "header_values ''via'' ?m = [trim (via_header i transport (topo_new_branch wall))]"
    by (subst hv) (simp_all add: hidden_canonical hidden_names_def value_sbc)
  have c: "header_values ''contact'' ?m = [trim (''<'' @ contact_uri i @ ''>'')]"
    by (subst hv) (simp_all add: hidden_canonical hidden_names_def value_sbc)
  have r: "header_values ''record-route'' ?m = [trim (record_route i)]"
    by (subst hv) (simp_all add: hidden_canonical hidden_names_def value_sbc)
  have nr: "header_values ''route'' ?m = []"
    by (subst hv) (simp_all add: hidden_canonical hidden_names_def)
  let ?P = "\<lambda>c. c \<notin> Some ` insert ''max-forwards'' hidden_names"
  have "filter (\<lambda>h. ?P (canon_name h)) (rm_headers (case decrement_max_forwards m of Inl _ \<Rightarrow> m | Inr m' \<Rightarrow> m'))
      = filter (\<lambda>h. ?P (canon_name h)) (rm_headers m)"
    using decrement_lines_others [of "rm_headers m" _ ?P]
    by (cases "decrement_lines (rm_headers m)") (simp_all add: decrement_max_forwards_def)
  moreover have "filter (\<lambda>h. ?P (canon_name h)) (filter (\<lambda>h. canon_name h \<notin> Some ` hidden_names) hs) =
      filter (\<lambda>h. ?P (canon_name h)) hs" for hs
    by (auto intro: filter_cong)
  ultimately have oth: "filter (\<lambda>h. ?P (canon_name h)) (rm_headers ?m) = filter (\<lambda>h. ?P (canon_name h)) (rm_headers m)"
    unfolding hide_outbound_eq(1) by (simp add: hidden_names_def del: filter_filter)
  from out again v c r nr oth hide_outbound_eq(2,3) show ?thesis by blast
qed

theorem outbound_topology_hidden_witness:
  "\<exists>raw m'. apply_topology_hiding_outbound 0 \<lparr>id_public_ip = ''203.0.113.1'', id_sip_domain = ''sip.nixi.tel'',
        id_sip_port = 5060, id_tls = False\<rparr> ''udp'' (render sample_invite) = Inr raw \<and>
     parse raw = Inr m' \<and> header_values ''route'' m' = [] \<and> length (header_values ''via'' m') = 1"
proof -
  have "is_request sample_invite" by (simp add: sample_invite_def is_request_def starts_with_def)
  moreover have "clean_identity \<lparr>id_public_ip = ''203.0.113.1'', id_sip_domain = ''sip.nixi.tel'',
      id_sip_port = 5060, id_tls = False\<rparr>" "clean ''udp''"
    by (simp_all add: clean_identity_def clean_def)
  ultimately show ?thesis
    using outbound_topology_hidden [OF sample_invite_wf, of _ "''udp''" 0] by fastforce
qed

section \<open>Credentials and asserted identities\<close>

definition credential_names :: "string set" where
  "credential_names = {''authorization'', ''proxy-authorization''}"

lemma strip_two:
  "canonical a \<Longrightarrow> canonical b \<Longrightarrow>
   remove_header b (remove_header a m) =
     m\<lparr>rm_headers := filter (\<lambda>h. canon_name h \<notin> Some ` {a, b}) (rm_headers m)\<rparr>"
  by (simp add: remove_canonical)

lemma header_after_lf:
  "h \<in> set (rm_headers m) \<Longrightarrow> \<exists>a b. render m = a @ [LF] @ h @ b"
proof -
  assume "h \<in> set (rm_headers m)"
  then obtain xs ys where "rm_headers m = xs @ h # ys" by (auto dest: split_list)
  then have "render m = (rm_start_line m @ header_block xs @ [CR]) @ [LF] @ h @ header_block ys @ crlf2 @ rm_body m"
    by (simp add: render_block header_block_def crlf_def)
  then show ?thesis by blast
qed

lemma lower_append: "to_ascii_lowercase (a @ b) = to_ascii_lowercase a @ to_ascii_lowercase b"
  by (simp add: to_ascii_lowercase_def)

lemma contains_header:
  assumes "h \<in> set (rm_headers m)" and "starts_with (to_ascii_lowercase h) p"
  shows "contains (to_ascii_lowercase (render m)) ([LF] @ p)"
proof -
  from header_after_lf [OF assms(1)] obtain a b where r: "render m = a @ [LF] @ h @ b" by blast
  from assms(2) obtain c where h: "to_ascii_lowercase h = p @ c" by (auto simp: starts_with_iff)
  have "to_ascii_lowercase [LF] = [LF]" by (simp add: to_ascii_lowercase_def lower_char_def)
  then have "to_ascii_lowercase (render m) = to_ascii_lowercase a @ ([LF] @ p) @ c @ to_ascii_lowercase b"
    unfolding r lower_append h by simp
  then show ?thesis unfolding contains_iff by blast
qed

text \<open>
  The caller's digest credentials never reach the next hop, if their headers are written with
  the colon right after the name: the forwarded request has no Authorization and no
  Proxy-Authorization, and everything else of it is unchanged.
\<close>

theorem credentials_not_forwarded:
  assumes "wf_msg m"
    and "\<forall>h \<in> set (rm_headers m). canon_name h \<in> Some ` credential_names \<longrightarrow>
           starts_with (to_ascii_lowercase h) ''authorization:'' \<or>
           starts_with (to_ascii_lowercase h) ''proxy-authorization:''"
  shows "\<exists>m'. parse (strip_credentials (render m)) = Inr m' \<and>
     (\<forall>n \<in> credential_names. header_values n m' = []) \<and>
     m' = m\<lparr>rm_headers := filter (\<lambda>h. canon_name h \<notin> Some ` credential_names) (rm_headers m)\<rparr>"
proof -
  let ?m = "m\<lparr>rm_headers := filter (\<lambda>h. canon_name h \<notin> Some ` credential_names) (rm_headers m)\<rparr>"
  have wf: "wf_msg ?m" using assms(1) by (auto simp: wf_msg_def)
  have strip: "remove_header ''proxy-authorization'' (remove_header ''authorization'' m) = ?m"
    unfolding credential_names_def by (rule strip_two) (simp_all add: hidden_canonical)
  have none: "rm_headers m = filter (\<lambda>h. canon_name h \<notin> Some ` credential_names) (rm_headers m)"
    if "\<not> contains (to_ascii_lowercase (render m)) ([LF] @ ''authorization:'')"
      "\<not> contains (to_ascii_lowercase (render m)) ([LF] @ ''proxy-authorization:'')"
    by (rule sym, rule filter_True) (use that assms(2) contains_header in blast)
  have "parse (strip_credentials (render m)) = Inr ?m"
  proof (cases "\<not> contains (to_ascii_lowercase (render m)) ([LF] @ ''authorization:'') \<and>
      \<not> contains (to_ascii_lowercase (render m)) ([LF] @ ''proxy-authorization:'')")
    case True
    then have "strip_credentials (render m) = render m" by (simp add: strip_credentials_def)
    moreover have "?m = m" using none True by simp
    ultimately show ?thesis using assms(1) by (simp add: parse_render)
  next
    case False
    then have "strip_credentials (render m) = render ?m"
      unfolding strip_credentials_def Let_def parse_render [OF assms(1)] strip sum.case by (rule if_not_P)
    then show ?thesis using wf by (simp add: parse_render)
  qed
  moreover have "header_values n ?m = []" if "n \<in> credential_names" for n
    using that by (auto simp: credential_names_def header_values_canonical hidden_canonical filter_empty_conv)
  ultimately show ?thesis by blast
qed

theorem credentials_not_forwarded_witness:
  "\<exists>m'. parse (strip_credentials (render sample_invite)) = Inr m' \<and>
     (\<forall>n \<in> credential_names. header_values n m' = [])"
proof -
  have "\<forall>h \<in> set (rm_headers sample_invite). canon_name h \<in> Some ` credential_names \<longrightarrow>
      starts_with (to_ascii_lowercase h) ''authorization:'' \<or>
      starts_with (to_ascii_lowercase h) ''proxy-authorization:''"
    by (simp add: sample_invite_def credential_names_def canon_name_def trim_def trim_start_def trim_end_def
        is_space_def to_ascii_lowercase_def lower_char_def short_form_def char_of_def bit_0 starts_with_def)
  from credentials_not_forwarded [OF sample_invite_wf this] show ?thesis by blast
qed

text \<open>
  With a blank before the colon, which the header syntax allows and which every other pass of
  this file accepts, the credentials go through: the quick test for the header name misses them
  and the request is forwarded as it came.
\<close>

theorem spaced_credentials_forwarded:
  "\<exists>m. wf_msg m \<and> header_values ''authorization'' m = [''Digest x''] \<and>
     strip_credentials (render m) = render m"
proof -
  let ?m = "\<lparr>rm_start_line = ''BYE a SIP/2.0'', rm_headers = [''Authorization : Digest x''], rm_body = []\<rparr>"
  have "wf_msg ?m"
    by (simp add: wf_msg_def plain_line_def starts_blank_def starts_with_def
      trim_def trim_start_def trim_end_def is_space_def)
  moreover have "header_values ''authorization'' ?m = [''Digest x'']"
    by (simp add: header_values_def List.map_filter_def header_match_def trim_def trim_start_def trim_end_def
        is_space_def to_ascii_lowercase_def lower_char_def short_form_def char_of_def bit_0)
  moreover have "strip_credentials (render ?m) = render ?m"
    by code_simp
  ultimately show ?thesis by blast
qed

lemma fold_remove:
  "\<forall>n \<in> set ns. canonical n \<Longrightarrow>
   fold remove_header ns m = m\<lparr>rm_headers := filter (\<lambda>h. canon_name h \<notin> Some ` set ns) (rm_headers m)\<rparr>"
proof (induction ns arbitrary: m)
  case Nil
  then show ?case by simp
next
  case (Cons n ns)
  then have "fold remove_header (n # ns) m =
      (remove_header n m)\<lparr>rm_headers := filter (\<lambda>h. canon_name h \<notin> Some ` set ns) (rm_headers (remove_header n m))\<rparr>"
    by simp
  also have "\<dots> = m\<lparr>rm_headers := filter (\<lambda>h. canon_name h \<notin> Some ` set (n # ns)) (rm_headers m)\<rparr>"
    using Cons.prems by (simp add: remove_canonical)
  finally show ?case .
qed

lemma untrusted_canonical: "\<forall>n \<in> set UNTRUSTED_IDENTITY_HEADERS. canonical n"
  by (simp add: UNTRUSTED_IDENTITY_HEADERS_def canonical_eval)

text \<open>
  No identity a user asserts for itself leaves toward a trunk: of the forwarded request all
  asserted-identity and path headers are gone, in any spelling, and nothing else is touched.
\<close>

theorem untrusted_identities_stripped:
  assumes "wf_msg m"
  shows "\<exists>m'. parse (strip_untrusted_identity_headers (render m)) = Inr m' \<and>
     (\<forall>n \<in> set UNTRUSTED_IDENTITY_HEADERS. header_values n m' = []) \<and>
     m' = m\<lparr>rm_headers := filter (\<lambda>h. canon_name h \<notin> Some ` set UNTRUSTED_IDENTITY_HEADERS) (rm_headers m)\<rparr>"
proof -
  let ?keep = "\<lambda>h. canon_name h \<notin> Some ` set UNTRUSTED_IDENTITY_HEADERS"
  let ?m = "m\<lparr>rm_headers := filter ?keep (rm_headers m)\<rparr>"
  have f: "fold remove_header UNTRUSTED_IDENTITY_HEADERS m = ?m"
    using fold_remove [OF untrusted_canonical] .
  have wf: "wf_msg ?m" using assms by (auto simp: wf_msg_def)
  have "parse (strip_untrusted_identity_headers (render m)) = Inr ?m"
  proof (cases "length (filter ?keep (rm_headers m)) = length (rm_headers m)")
    case True
    then have "filter ?keep (rm_headers m) = rm_headers m"
      by (metis filter_id_conv length_filter_less less_irrefl)
    then have "?m = m" by simp
    with True assms show ?thesis by (simp add: strip_untrusted_identity_headers_def parse_render f)
  next
    case False
    with assms wf show ?thesis by (simp add: strip_untrusted_identity_headers_def parse_render f)
  qed
  moreover have "header_values n ?m = []" if "n \<in> set UNTRUSTED_IDENTITY_HEADERS" for n
    using that untrusted_canonical by (auto simp: header_values_canonical filter_empty_conv)
  ultimately show ?thesis by blast
qed

theorem untrusted_identities_stripped_witness:
  "\<exists>m'. parse (strip_untrusted_identity_headers (render sample_invite)) = Inr m' \<and>
     header_values ''p-asserted-identity'' m' = []"
  using untrusted_identities_stripped [OF sample_invite_wf] by (auto simp: UNTRUSTED_IDENTITY_HEADERS_def)

text \<open>
  The branch of this file is the sub-second part of the clock: it comes again after any whole
  number of seconds.
\<close>

lemma topo_branch_repeats: "topo_new_branch (wall + secs n) = topo_new_branch wall"
  by (simp add: topo_new_branch_def secs_def)

end
