(* ===== verification/Sip_Builder.thy ===== *)
theory Sip_Builder
  imports Sip_Message
begin

text \<open>
  \<^verbatim>\<open>crates/sbc-core/src/sip_builder.rs\<close>: the requests the SBC originates itself, from a dialog's
  identity or from an INVITE it sent. The eight random bytes of a fresh branch are the argument
  \<open>rnd\<close>.
\<close>

definition ALLOWED_METHODS :: string where
  "ALLOWED_METHODS = ''INVITE, ACK, CANCEL, OPTIONS, BYE, REGISTER, INFO, REFER''"

record dialog_info =
  di_call_id :: string
  di_from_raw :: string
  di_to_raw :: string
  di_request_uri :: string
  di_cseq :: nat
  di_local_ip :: string
  di_local_port :: nat
  di_transport :: string

definition new_branch :: "nat list \<Rightarrow> string" where
  "new_branch rnd = ''z9hG4bK'' @ concat (map (hex_width 2) rnd)"

definition build_request ::
  "nat list \<Rightarrow> string \<Rightarrow> dialog_info \<Rightarrow> string \<Rightarrow> (string \<times> string) list \<Rightarrow> string option \<Rightarrow> string"
where
  "build_request rnd meth d cseq_method extra_headers body0 =
     (let body = (case body0 of None \<Rightarrow> '''' | Some b \<Rightarrow> b) in
      meth @ '' '' @ di_request_uri d @ '' SIP/2.0'' @ crlf
      @ ''Via: SIP/2.0/'' @ to_ascii_uppercase (di_transport d) @ '' '' @ di_local_ip d @ '':''
      @ show_nat (di_local_port d) @ '';branch='' @ new_branch rnd @ '';rport'' @ crlf
      @ ''Max-Forwards: 70'' @ crlf
      @ ''From: '' @ di_from_raw d @ crlf
      @ ''To: '' @ di_to_raw d @ crlf
      @ ''Call-ID: '' @ di_call_id d @ crlf
      @ ''CSeq: '' @ show_nat (di_cseq d) @ '' '' @ cseq_method @ crlf
      @ concat (map (\<lambda>(n, v). n @ '': '' @ v @ crlf) extra_headers)
      @ ''Content-Length: '' @ show_nat (length body) @ crlf @ crlf
      @ body)"

definition build_bye :: "nat list \<Rightarrow> dialog_info \<Rightarrow> string option \<Rightarrow> string" where
  "build_bye rnd d reason =
     build_request rnd ''BYE'' d ''BYE''
       (case reason of None \<Rightarrow> [] | Some r \<Rightarrow> [(''Reason'', r)]) None"

definition build_ack_for_2xx :: "nat list \<Rightarrow> dialog_info \<Rightarrow> nat \<Rightarrow> string" where
  "build_ack_for_2xx rnd d invite_cseq =
     build_request rnd ''ACK'' (d\<lparr>di_cseq := invite_cseq\<rparr>) ''ACK'' [] None"

definition build_reinvite ::
  "nat list \<Rightarrow> dialog_info \<Rightarrow> string \<Rightarrow> string \<Rightarrow> (nat \<times> string) option \<Rightarrow> nat option \<Rightarrow> string"
where
  "build_reinvite rnd d sdp contact session_expires min_se =
     build_request rnd ''INVITE'' d ''INVITE''
       ([(''Contact'', contact), (''Supported'', ''timer'')]
        @ (case session_expires of None \<Rightarrow> []
           | Some (interval, refresher) \<Rightarrow>
               [(''Session-Expires'', show_nat interval @ '';refresher='' @ refresher)])
        @ (case min_se of None \<Rightarrow> [] | Some n \<Rightarrow> [(''Min-SE'', show_nat n)])
        @ [(''Content-Type'', ''application/sdp'')])
       (Some sdp)"

section \<open>The identity of an INVITE\<close>

record invite_identity =
  ii_request_uri :: string
  ii_top_via :: string
  ii_from :: string
  ii_to :: string
  ii_call_id :: string
  ii_cseq :: nat
  ii_routes :: "string list"

record identity_scan =
  is_top_via :: "string option"
  is_from :: "string option"
  is_to :: "string option"
  is_call_id :: "string option"
  is_cseq :: "nat option"
  is_routes :: "string list"

definition scan_empty :: identity_scan where
  "scan_empty = \<lparr>is_top_via = None, is_from = None, is_to = None, is_call_id = None, is_cseq = None,
     is_routes = []\<rparr>"

definition scan_line :: "identity_scan \<Rightarrow> string \<Rightarrow> identity_scan" where
  "scan_line s line =
     (case split_once CHR '':'' line of
        None \<Rightarrow> s
      | Some (n, v0) \<Rightarrow>
          let v = trim v0; name = to_ascii_lowercase (trim n) in
          if name \<in> {''via'', ''v''} then (if is_top_via s = None then s\<lparr>is_top_via := Some v\<rparr> else s)
          else if name \<in> {''from'', ''f''} then s\<lparr>is_from := Some v\<rparr>
          else if name \<in> {''to'', ''t''} then s\<lparr>is_to := Some v\<rparr>
          else if name \<in> {''call-id'', ''i''} then s\<lparr>is_call_id := Some v\<rparr>
          else if name = ''cseq'' then
            s\<lparr>is_cseq := (case split_whitespace v of [] \<Rightarrow> None | w # _ \<Rightarrow> parse_uint u32_max w)\<rparr>
          else if name = ''route'' then s\<lparr>is_routes := is_routes s @ [v]\<rparr>
          else s)"

definition parse_invite_identity :: "string \<Rightarrow> invite_identity option" where
  "parse_invite_identity raw_invite =
     (case split_crlf raw_invite of
        [] \<Rightarrow> None
      | line # rest \<Rightarrow>
          let parts = splitn 3 CHR '' '' line in
          if hd parts \<noteq> ''INVITE'' then None
          else
            let request_uri = (case parts of _ # u # _ \<Rightarrow> Some u | _ \<Rightarrow> None);
                s = foldl scan_line scan_empty (takeWhile (\<lambda>l. l \<noteq> []) rest)
            in Option.bind request_uri (\<lambda>u. Option.bind (is_top_via s) (\<lambda>via.
               Option.bind (is_from s) (\<lambda>from. Option.bind (is_to s) (\<lambda>to.
               Option.bind (is_call_id s) (\<lambda>cid. Option.bind (is_cseq s) (\<lambda>n.
                 Some \<lparr>ii_request_uri = u, ii_top_via = via, ii_from = from, ii_to = to,
                       ii_call_id = cid, ii_cseq = n, ii_routes = is_routes s\<rparr>)))))))"

fun via_branch_lines :: "string list \<Rightarrow> string option" where
  "via_branch_lines [] = None"
| "via_branch_lines (line # rest) =
     (if line = [] then None
      else case split_once CHR '':'' line of
             None \<Rightarrow> via_branch_lines rest
           | Some (n, v) \<Rightarrow>
               if to_ascii_lowercase (trim n) \<notin> {''via'', ''v''} then via_branch_lines rest
               else case find_str ''branch='' v of
                      None \<Rightarrow> None
                    | Some pos \<Rightarrow>
                        let b = trim (takeWhile (\<lambda>c. c \<noteq> CHR '';'' \<and> c \<noteq> CHR '','' \<and> \<not> is_space c)
                                   (drop (pos + 7) v))
                        in if b = [] then None else Some b)"

definition top_via_branch :: "string \<Rightarrow> string option" where
  "top_via_branch raw = via_branch_lines (tl (split_crlf raw))"

definition build_cancel :: "string \<Rightarrow> string option" where
  "build_cancel original_invite_raw =
     map_option (\<lambda>i.
       ''CANCEL '' @ ii_request_uri i @ '' SIP/2.0'' @ crlf
       @ ''Via: '' @ ii_top_via i @ crlf
       @ ''Max-Forwards: 70'' @ crlf
       @ ''From: '' @ ii_from i @ crlf
       @ ''To: '' @ ii_to i @ crlf
       @ ''Call-ID: '' @ ii_call_id i @ crlf
       @ ''CSeq: '' @ show_nat (ii_cseq i) @ '' CANCEL'' @ crlf
       @ ''Content-Length: 0'' @ crlf @ crlf) (parse_invite_identity original_invite_raw)"

definition build_ack_for_non_2xx :: "string \<Rightarrow> string \<Rightarrow> string option" where
  "build_ack_for_non_2xx original_invite_raw response_to =
     map_option (\<lambda>i.
       ''ACK '' @ ii_request_uri i @ '' SIP/2.0'' @ crlf
       @ ''Via: '' @ ii_top_via i @ crlf
       @ ''Max-Forwards: 70'' @ crlf
       @ concat (map (\<lambda>r. ''Route: '' @ r @ crlf) (ii_routes i))
       @ ''From: '' @ ii_from i @ crlf
       @ ''To: '' @ trim response_to @ crlf
       @ ''Call-ID: '' @ ii_call_id i @ crlf
       @ ''CSeq: '' @ show_nat (ii_cseq i) @ '' ACK'' @ crlf
       @ ''Content-Length: 0'' @ crlf @ crlf) (parse_invite_identity original_invite_raw)"

text \<open>The header rewriting of a re-send; the flag says that the top Via is done.\<close>

definition renew_via :: "string \<Rightarrow> string \<Rightarrow> string" where
  "renew_via fresh line =
     (case find_str ''branch='' line of
        Some pos \<Rightarrow>
          let start = pos + 7
          in take start line @ fresh
             @ dropWhile (\<lambda>c. c \<noteq> CHR '';'' \<and> c \<noteq> CHR '','') (drop start line)
      | None \<Rightarrow> line @ '';branch='' @ fresh)"

definition renew_cseq :: "string \<Rightarrow> string" where
  "renew_cseq line =
     (case split_whitespace (drop 5 line) of
        num # meth # _ \<Rightarrow>
          (case parse_uint u32_max num of
             Some n \<Rightarrow> ''CSeq: '' @ show_nat ((n + 1) mod 2 ^ 32) @ '' '' @ meth
           | None \<Rightarrow> line)
      | _ \<Rightarrow> line)"

fun renew_lines :: "string \<Rightarrow> bool \<Rightarrow> string list \<Rightarrow> string list" where
  "renew_lines fresh via_done [] = []"
| "renew_lines fresh via_done (line # rest) =
     (let lower = to_ascii_lowercase line in
      if \<not> via_done \<and> (starts_with lower ''via:'' \<or> starts_with lower ''v:'')
      then renew_via fresh line # renew_lines fresh True rest
      else if starts_with lower ''cseq:'' then renew_cseq line # renew_lines fresh via_done rest
      else line # renew_lines fresh via_done rest)"

definition renew_invite_transaction :: "nat list \<Rightarrow> string \<Rightarrow> string" where
  "renew_invite_transaction rnd raw_invite =
     (let (head, body) =
            (case find_str crlf2 raw_invite of
               Some pos \<Rightarrow> (take pos raw_invite, drop (pos + 4) raw_invite)
             | None \<Rightarrow> (raw_invite, ''''));
          ls = split_crlf head
      in join_with crlf (hd ls # renew_lines (new_branch rnd) False (tl ls)) @ crlf @ crlf @ body)"

section \<open>What a CANCEL copies\<close>

lemma split_crlf_ne: "split_crlf s \<noteq> []"
  by (induction s rule: split_crlf.induct) (auto split: list.splits)

lemma split_crlf_line: "clean w \<Longrightarrow> split_crlf (w @ crlf @ r) = w # split_crlf r"
proof (induction w)
  case Nil
  then show ?case by (simp add: crlf_def)
next
  case (Cons c w)
  then have "c \<noteq> CR" "clean w" by (auto simp: clean_def)
  with Cons.IH show ?case by simp
qed

lemma plain_clean: "plain_line h \<Longrightarrow> clean h"
  by (simp add: plain_line_def clean_def)

lemma split_crlf_render:
  assumes "wf_msg m"
  shows "split_crlf (render m) = rm_start_line m # rm_headers m @ [] # split_crlf (rm_body m)"
proof -
  have "split_crlf (concat (map (\<lambda>h. h @ crlf) hs) @ crlf @ b) = hs @ [] # split_crlf b"
    if "\<forall>h \<in> set hs. plain_line h" for hs b
    using that
  proof (induction hs)
    case Nil
    then show ?case using split_crlf_line [of "[]" b] by (simp add: clean_def)
  next
    case (Cons h hs)
    then show ?case using split_crlf_line [of h] by (simp add: plain_clean)
  qed
  moreover have "clean (rm_start_line m)" using assms by (simp add: wf_msg_def clean_def)
  ultimately show ?thesis
    using assms split_crlf_line [of "rm_start_line m"] by (simp add: render_def wf_msg_def)
qed

lemma header_match_names:
  "header_match ''via'' h = (case split_once CHR '':'' h of None \<Rightarrow> None
     | Some (n, v) \<Rightarrow> if to_ascii_lowercase (trim n) \<in> {''via'', ''v''} then Some (trim v) else None)"
  "header_match ''from'' h = (case split_once CHR '':'' h of None \<Rightarrow> None
     | Some (n, v) \<Rightarrow> if to_ascii_lowercase (trim n) \<in> {''from'', ''f''} then Some (trim v) else None)"
  "header_match ''to'' h = (case split_once CHR '':'' h of None \<Rightarrow> None
     | Some (n, v) \<Rightarrow> if to_ascii_lowercase (trim n) \<in> {''to'', ''t''} then Some (trim v) else None)"
  "header_match ''call-id'' h = (case split_once CHR '':'' h of None \<Rightarrow> None
     | Some (n, v) \<Rightarrow> if to_ascii_lowercase (trim n) \<in> {''call-id'', ''i''} then Some (trim v) else None)"
  "header_match ''cseq'' h = (case split_once CHR '':'' h of None \<Rightarrow> None
     | Some (n, v) \<Rightarrow> if to_ascii_lowercase (trim n) = ''cseq'' then Some (trim v) else None)"
proof -
  have l: "to_ascii_lowercase ''via'' = ''via''" "to_ascii_lowercase ''from'' = ''from''"
    "to_ascii_lowercase ''to'' = ''to''" "to_ascii_lowercase ''call-id'' = ''call-id''"
    "to_ascii_lowercase ''cseq'' = ''cseq''"
    by (simp_all add: to_ascii_lowercase_def lower_char_def)
  have s: "x = ''via'' \<or> short_form x = ''via'' \<longleftrightarrow> x \<in> {''via'', ''v''}"
    "x = ''from'' \<or> short_form x = ''from'' \<longleftrightarrow> x \<in> {''from'', ''f''}"
    "x = ''to'' \<or> short_form x = ''to'' \<longleftrightarrow> x \<in> {''to'', ''t''}"
    "x = ''call-id'' \<or> short_form x = ''call-id'' \<longleftrightarrow> x \<in> {''call-id'', ''i''}"
    "x = ''cseq'' \<or> short_form x = ''cseq'' \<longleftrightarrow> x = ''cseq''" for x
    by (auto simp: short_form_def)
  show "header_match ''via'' h = (case split_once CHR '':'' h of None \<Rightarrow> None
     | Some (n, v) \<Rightarrow> if to_ascii_lowercase (trim n) \<in> {''via'', ''v''} then Some (trim v) else None)"
    "header_match ''from'' h = (case split_once CHR '':'' h of None \<Rightarrow> None
     | Some (n, v) \<Rightarrow> if to_ascii_lowercase (trim n) \<in> {''from'', ''f''} then Some (trim v) else None)"
    "header_match ''to'' h = (case split_once CHR '':'' h of None \<Rightarrow> None
     | Some (n, v) \<Rightarrow> if to_ascii_lowercase (trim n) \<in> {''to'', ''t''} then Some (trim v) else None)"
    "header_match ''call-id'' h = (case split_once CHR '':'' h of None \<Rightarrow> None
     | Some (n, v) \<Rightarrow> if to_ascii_lowercase (trim n) \<in> {''call-id'', ''i''} then Some (trim v) else None)"
    "header_match ''cseq'' h = (case split_once CHR '':'' h of None \<Rightarrow> None
     | Some (n, v) \<Rightarrow> if to_ascii_lowercase (trim n) = ''cseq'' then Some (trim v) else None)"
    unfolding header_match_def Let_def l s by (rule refl)+
qed

text \<open>One scanned line, field by field.\<close>

lemma scan_line_fields:
  "is_top_via (scan_line s h) =
     (case is_top_via s of Some v \<Rightarrow> Some v | None \<Rightarrow> header_match ''via'' h)"
  "is_from (scan_line s h) = (case header_match ''from'' h of None \<Rightarrow> is_from s | Some v \<Rightarrow> Some v)"
  "is_to (scan_line s h) = (case header_match ''to'' h of None \<Rightarrow> is_to s | Some v \<Rightarrow> Some v)"
  "is_call_id (scan_line s h) = (case header_match ''call-id'' h of None \<Rightarrow> is_call_id s | Some v \<Rightarrow> Some v)"
  "is_cseq (scan_line s h) = (case header_match ''cseq'' h of None \<Rightarrow> is_cseq s
     | Some v \<Rightarrow> (case split_whitespace v of [] \<Rightarrow> None | w # _ \<Rightarrow> parse_uint u32_max w))"
  unfolding header_match_names scan_line_def Let_def
  by (auto split: option.split)

definition last_or :: "'a option \<Rightarrow> 'a list \<Rightarrow> 'a option" where
  "last_or d xs = (if xs = [] then d else Some (last xs))"

definition cseq_number :: "string \<Rightarrow> nat option" where
  "cseq_number v = (case split_whitespace v of [] \<Rightarrow> None | w # _ \<Rightarrow> parse_uint u32_max w)"

lemma map_filter_Cons:
  "List.map_filter f (x # xs) = (case f x of None \<Rightarrow> List.map_filter f xs | Some y \<Rightarrow> y # List.map_filter f xs)"
  by (simp add: List.map_filter_def split: option.split)

lemma foldl_last:
  assumes "\<And>s h. g (scan_line s h) = (case f h of None \<Rightarrow> g s | Some v \<Rightarrow> Some v)"
  shows "g (foldl scan_line s hs) = last_or (g s) (List.map_filter f hs)"
  by (induction hs arbitrary: s)
    (auto simp: last_or_def map_filter_Cons assms List.map_filter_def split: option.splits)

lemma scan_top_via:
  "is_top_via (foldl scan_line s hs) =
     (case is_top_via s of Some v \<Rightarrow> Some v
      | None \<Rightarrow> (case List.map_filter (header_match ''via'') hs of [] \<Rightarrow> None | v # _ \<Rightarrow> Some v))"
  by (induction hs arbitrary: s)
    (auto simp: map_filter_Cons scan_line_fields(1) List.map_filter_def split: option.splits)

lemma scan_cseq:
  "is_cseq (foldl scan_line s hs) =
     (case List.map_filter (header_match ''cseq'') hs of [] \<Rightarrow> is_cseq s | v # vs \<Rightarrow> cseq_number (last (v # vs)))"
  by (induction hs arbitrary: s)
    (auto simp: map_filter_Cons scan_line_fields(5) List.map_filter_def cseq_number_def
      split: option.splits list.splits)

lemma set_trim: "set (trim s) \<subseteq> set s"
proof -
  have "set (dropWhile P xs) \<subseteq> set xs" for P :: "char \<Rightarrow> bool" and xs by (auto dest: set_dropWhileD)
  then show ?thesis unfolding trim_def trim_end_def trim_start_def by (metis set_rev subset_trans)
qed

lemma hd_dropWhile_not: "dropWhile P xs = [] \<or> \<not> P (hd (dropWhile P xs))"
  using hd_dropWhile [of P xs] by blast

lemma trim_trim [simp]: "trim (trim s) = trim s"
proof (rule trim_id)
  let ?a = "trim_start s"
  have "trim s = [] \<or> \<not> is_space (last (trim s))"
    using hd_dropWhile_not [of is_space "rev ?a"] by (auto simp: trim_def trim_end_def last_rev)
  moreover have "trim s = [] \<or> \<not> is_space (hd (trim s))"
  proof -
    obtain w where "rev ?a = w @ dropWhile is_space (rev ?a)" by (metis takeWhile_dropWhile_id)
    then have "?a = trim s @ rev w" unfolding trim_def trim_end_def by (metis rev_append rev_rev_ident)
    moreover have "?a = [] \<or> \<not> is_space (hd ?a)" unfolding trim_start_def by (rule hd_dropWhile_not)
    ultimately show ?thesis by (metis append_Nil2 append_is_Nil_conv hd_append2)
  qed
  ultimately show "trim s = [] \<or> (\<not> is_space (hd (trim s)) \<and> \<not> is_space (last (trim s)))" by blast
qed

lemma header_match_clean:
  assumes "header_match n h = Some v" and "clean h"
  shows "clean v" and "trim v = v"
proof -
  from assms(1) obtain a b where ab: "split_once CHR '':'' h = Some (a, b)" and v: "v = trim b"
    by (auto simp: header_match_def Let_def split: option.splits if_splits)
  from split_once_Some [OF ab] assms(2) have "clean b" by (auto simp: clean_def)
  with set_trim [of b] show "clean v" by (auto simp: v clean_def)
  show "trim v = v" by (simp add: v)
qed

lemma header_values_clean:
  assumes "wf_msg m" and "v \<in> set (header_values n m)"
  shows "clean v" and "trim v = v"
proof -
  from assms obtain h where "h \<in> set (rm_headers m)" "header_match n h = Some v" "plain_line h"
    by (auto simp: header_values_def set_map_filter wf_msg_def)
  with header_match_clean plain_clean show "clean v" "trim v = v" by blast+
qed

definition cancel_message :: "string \<Rightarrow> string \<Rightarrow> string \<Rightarrow> string \<Rightarrow> string \<Rightarrow> nat \<Rightarrow> raw_sip_message" where
  "cancel_message uri via from to cid n =
     \<lparr>rm_start_line = ''CANCEL '' @ uri @ '' SIP/2.0'',
      rm_headers = [''Via: '' @ via, ''Max-Forwards: 70'', ''From: '' @ from, ''To: '' @ to,
         ''Call-ID: '' @ cid, ''CSeq: '' @ show_nat n @ '' CANCEL'', ''Content-Length: 0''],
      rm_body = []\<rparr>"

lemma cancel_message_wf:
  assumes "clean uri" "clean via" "clean from" "clean to" "clean cid"
  shows "wf_msg (cancel_message uri via from to cid n)"
proof -
  have c: "clean ''CANCEL ''" "clean '' SIP/2.0''" "clean '' CANCEL''" by (simp_all add: clean_def)
  have "clean (''CANCEL '' @ uri @ '' SIP/2.0'')" using c assms(1) by (simp del: append_Cons)
  moreover have "trim (''CANCEL '' @ uri @ '' SIP/2.0'') = ''CANCEL '' @ uri @ '' SIP/2.0''"
    by (rule trim_id) (simp add: is_space_def)
  moreover have "plain_line (''Via: '' @ via)" "plain_line (''From: '' @ from)" "plain_line (''To: '' @ to)"
    "plain_line (''Call-ID: '' @ cid)"
    using assms
    by (intro plain_line_prefix; simp add: starts_blank_def starts_with_def clean_def del: append_Cons;
        fail)+
  moreover have "plain_line (''CSeq: '' @ show_nat n @ '' CANCEL'')"
    using c(3) by (intro plain_line_prefix) (simp_all add: starts_blank_def starts_with_def clean_def [of "''CSeq: ''"] del: append_Cons)
  moreover have "plain_line ''Max-Forwards: 70''" "plain_line ''Content-Length: 0''"
    by (simp_all add: plain_line_def starts_blank_def starts_with_def)
  ultimately show ?thesis by (simp add: wf_msg_def cancel_message_def clean_def)
qed

lemma cancel_values:
  "header_values ''via'' (cancel_message uri via from to cid n) = [trim via]"
  "header_values ''from'' (cancel_message uri via from to cid n) = [trim from]"
  "header_values ''to'' (cancel_message uri via from to cid n) = [trim to]"
  "header_values ''call-id'' (cancel_message uri via from to cid n) = [trim cid]"
  "header_values ''cseq'' (cancel_message uri via from to cid n) = [trim (show_nat n @ '' CANCEL'')]"
proof -
  have t: "trim ''Via'' = ''Via''" "trim ''From'' = ''From''" "trim ''To'' = ''To''"
    "trim ''Call-ID'' = ''Call-ID''" "trim ''CSeq'' = ''CSeq''" "trim ''Max-Forwards'' = ''Max-Forwards''"
    "trim ''Content-Length'' = ''Content-Length''"
    by (simp_all add: trim_id is_space_def)
  have l: "to_ascii_lowercase ''Via'' = ''via''" "to_ascii_lowercase ''From'' = ''from''"
    "to_ascii_lowercase ''To'' = ''to''" "to_ascii_lowercase ''Call-ID'' = ''call-id''"
    "to_ascii_lowercase ''CSeq'' = ''cseq''" "to_ascii_lowercase ''Max-Forwards'' = ''max-forwards''"
    "to_ascii_lowercase ''Content-Length'' = ''content-length''"
    by (simp_all add: to_ascii_lowercase_def lower_char_def char_of_def bit_0)
  have sp: "trim (CHR '' '' # x) = trim x" for x by (simp add: trim_def trim_start_def is_space_def)
  show "header_values ''via'' (cancel_message uri via from to cid n) = [trim via]"
    "header_values ''from'' (cancel_message uri via from to cid n) = [trim from]"
    "header_values ''to'' (cancel_message uri via from to cid n) = [trim to]"
    "header_values ''call-id'' (cancel_message uri via from to cid n) = [trim cid]"
    "header_values ''cseq'' (cancel_message uri via from to cid n) = [trim (show_nat n @ '' CANCEL'')]"
    by (simp_all add: header_values_def cancel_message_def List.map_filter_def header_match_names t l sp)
qed

lemma invite_identity_of_message:
  assumes "wf_msg m" and "rm_start_line m = ''INVITE '' @ uri @ '' '' @ version" and "CHR '' '' \<notin> set uri"
    and "header_values ''via'' m = via # vias" and "header_values ''from'' m \<noteq> []"
    and "header_values ''to'' m \<noteq> []" and "header_values ''call-id'' m \<noteq> []"
    and "header_values ''cseq'' m \<noteq> []" and "cseq_number (last (header_values ''cseq'' m)) = Some n"
  shows "\<exists>i. parse_invite_identity (render m) = Some i \<and> ii_request_uri i = uri \<and> ii_top_via i = via \<and>
     ii_from i = last (header_values ''from'' m) \<and> ii_to i = last (header_values ''to'' m) \<and>
     ii_call_id i = last (header_values ''call-id'' m) \<and> ii_cseq i = n"
proof -
  have parts: "splitn 3 CHR '' '' (rm_start_line m) = [''INVITE'', uri, version]"
    using split_once_word [OF assms(3), of version] assms(2)
    by (simp add: numeral_3_eq_3)
  have tw: "takeWhile (\<lambda>l. l \<noteq> []) (rm_headers m @ [] # x) = rm_headers m" for x
    using assms(1) by (subst takeWhile_append2) (auto simp: wf_msg_def plain_line_def)
  let ?s = "foldl scan_line scan_empty (rm_headers m)"
  have f: "is_from ?s = Some (last (header_values ''from'' m))" "is_to ?s = Some (last (header_values ''to'' m))"
    "is_call_id ?s = Some (last (header_values ''call-id'' m))"
    using assms(5-7) foldl_last [of is_from, OF scan_line_fields(2)] foldl_last [of is_to, OF scan_line_fields(3)]
      foldl_last [of is_call_id, OF scan_line_fields(4)]
    by (simp_all add: header_values_def last_or_def)
  have v: "is_top_via ?s = Some via"
    using assms(4) by (simp add: scan_top_via scan_empty_def header_values_def)
  have c: "is_cseq ?s = Some n"
    using assms(8,9)
    by (cases "List.map_filter (header_match ''cseq'') (rm_headers m)")
      (simp_all add: scan_cseq header_values_def)
  show ?thesis
    unfolding parse_invite_identity_def split_crlf_render [OF assms(1)] list.case parts tw
    by (simp add: f v c)
qed

text \<open>
  The CANCEL for a pending INVITE belongs to its transaction: read back, it has the INVITE's
  Request-URI, top Via with its branch, From, To, Call-ID and CSeq number, and the method CANCEL.
\<close>

theorem cancel_matches_invite:
  assumes "wf_msg m" and "rm_start_line m = ''INVITE '' @ uri @ '' '' @ version" and "CHR '' '' \<notin> set uri"
    and "header_values ''via'' m = via # vias" and "header_values ''from'' m \<noteq> []"
    and "header_values ''to'' m \<noteq> []" and "header_values ''call-id'' m \<noteq> []"
    and "header_values ''cseq'' m \<noteq> []" and "cseq_number (last (header_values ''cseq'' m)) = Some n"
  shows "\<exists>raw c. build_cancel (render m) = Some raw \<and> parse raw = Inr c \<and>
     rm_start_line c = ''CANCEL '' @ uri @ '' SIP/2.0'' \<and>
     header_values ''via'' c = [via] \<and>
     header_values ''from'' c = [last (header_values ''from'' m)] \<and>
     header_values ''to'' c = [last (header_values ''to'' m)] \<and>
     header_values ''call-id'' c = [last (header_values ''call-id'' m)] \<and>
     header_values ''cseq'' c = [trim (show_nat n @ '' CANCEL'')]"
proof -
  from invite_identity_of_message [OF assms] obtain i where
    i: "parse_invite_identity (render m) = Some i" "ii_request_uri i = uri" "ii_top_via i = via"
      "ii_from i = last (header_values ''from'' m)" "ii_to i = last (header_values ''to'' m)"
      "ii_call_id i = last (header_values ''call-id'' m)" "ii_cseq i = n" by blast
  let ?c = "cancel_message uri via (ii_from i) (ii_to i) (ii_call_id i) n"
  have in_set: "via \<in> set (header_values ''via'' m)" "ii_from i \<in> set (header_values ''from'' m)"
    "ii_to i \<in> set (header_values ''to'' m)" "ii_call_id i \<in> set (header_values ''call-id'' m)"
    using assms(4-7) i by auto
  note cl = header_values_clean(1) [OF assms(1)]
  note tr = header_values_clean(2) [OF assms(1)]
  have "clean uri" using assms(1,2) by (auto simp: wf_msg_def clean_def)
  then have "wf_msg ?c" using cl in_set by (intro cancel_message_wf) blast+
  moreover have "build_cancel (render m) = Some (render ?c)"
    unfolding build_cancel_def i(1) by (simp add: render_def cancel_message_def i(2,3,7))
  ultimately show ?thesis
    using tr in_set i by (auto simp: parse_render cancel_values) (simp add: cancel_message_def)
qed

definition sample_pending :: raw_sip_message where
  "sample_pending =
     \<lparr>rm_start_line = ''INVITE sip:b@h SIP/2.0'',
      rm_headers = [''Via: SIP/2.0/UDP 10.0.0.9;branch=z9'', ''f: <sip:a@h>;tag=1'', ''To: <sip:b@h>'',
                    ''Call-ID: c1'', ''CSeq: 7 INVITE''],
      rm_body = []\<rparr>"

theorem cancel_matches_invite_witness:
  "\<exists>raw c. build_cancel (render sample_pending) = Some raw \<and> parse raw = Inr c \<and>
     header_values ''via'' c = [''SIP/2.0/UDP 10.0.0.9;branch=z9'']"
proof -
  have wf: "wf_msg sample_pending"
    by (simp add: sample_pending_def wf_msg_def plain_line_def starts_blank_def starts_with_def
      trim_def trim_start_def trim_end_def is_space_def)
  have v: "header_values ''via'' sample_pending = [''SIP/2.0/UDP 10.0.0.9;branch=z9'']"
    and f: "header_values ''from'' sample_pending = [''<sip:a@h>;tag=1'']"
    and t: "header_values ''to'' sample_pending = [''<sip:b@h>'']"
    and c: "header_values ''call-id'' sample_pending = [''c1'']"
    and q: "header_values ''cseq'' sample_pending = [''7 INVITE'']"
    by code_simp+
  have n: "cseq_number (last (header_values ''cseq'' sample_pending)) = Some 7" 
    unfolding q by (simp add: cseq_number_def split_whitespace_def parse_uint_def u32_max_def is_space_def
        is_ascii_digit_def digits_value_def digit_value_def)
  have start: "rm_start_line sample_pending = ''INVITE '' @ ''sip:b@h'' @ '' '' @ ''SIP/2.0''"
    by (simp add: sample_pending_def)
  show ?thesis
    using cancel_matches_invite [OF wf start _ v _ _ _ _ n] f t c q by fastforce
qed

end
