(* ===== verification/Invite_Tx.thy ===== *)
theory Invite_Tx
  imports Sip_Builder
begin

text \<open>
  \<^verbatim>\<open>crates/sbc-core/src/sbc/invite_tx.rs\<close>: the memory of INVITE server transactions, which replays
  the last response to a retransmitted INVITE and resends unacknowledged finals. A WebSocket
  reply channel is an opaque number; of a request parsed by \<^verbatim>\<open>rsip\<close> the header lines and the
  values of three headers are read.
\<close>

section \<open>Data\<close>

definition FINAL_ABSORB :: duration where "FINAL_ABSORB = secs 32"
definition PENDING_ABSORB :: duration where "PENDING_ABSORB = secs 180"
definition ITX_MAX_ENTRIES :: nat where "ITX_MAX_ENTRIES = 10000"
definition TIMER_T1 :: duration where "TIMER_T1 = millis 500"
definition TIMER_T2 :: duration where "TIMER_T2 = secs 4"
definition MAX_RETRANSMITS :: nat where "MAX_RETRANSMITS = 9"

record retransmit =
  rt_dest :: socket_addr
  rt_transport :: transport
  rt_reply_tx :: "nat option"
  rt_next_at :: instant
  rt_interval :: duration
  rt_sent :: nat

record tx_entry =
  te_last_response :: "string option"
  te_first_seen :: instant
  te_final_at :: "instant option"
  te_acked :: bool
  te_retransmit :: "retransmit option"

record invite_tx_cache =
  itx_entries :: "(string, tx_entry) hmap"

record request_view =
  rq_header_lines :: "string list"
  rq_call_id :: "string option"
  rq_from :: "string option"
  rq_cseq :: "string option"

section \<open>Keys\<close>

definition param_of :: "string \<Rightarrow> string \<Rightarrow> string option" where
  "param_of val name =
     (let lower = to_ascii_lowercase val; needle = name @ ''='' in
      case find_str needle lower of
        None \<Rightarrow> None
      | Some pos \<Rightarrow>
          let v = trim (takeWhile (\<lambda>c. c \<notin> set '';, >'') (drop (pos + length needle) val))
          in if v = [] then None else Some v)"

definition itx_key :: "string \<Rightarrow> string \<Rightarrow> string \<Rightarrow> string \<Rightarrow> string" where
  "itx_key branch call_id from_tag cseq = branch @ ''|'' @ call_id @ ''|'' @ from_tag @ ''|'' @ cseq"

fun first_via :: "string list \<Rightarrow> string option" where
  "first_via [] = None"
| "first_via (line # rest) =
     (let lower = to_ascii_lowercase line in
      if starts_with lower ''via:'' then Some (trim (drop 4 line))
      else if starts_with lower ''v:'' then Some (trim (drop 2 line))
      else first_via rest)"

definition head_opt :: "'a list \<Rightarrow> 'a option" where
  "head_opt xs = (case xs of [] \<Rightarrow> None | x # _ \<Rightarrow> Some x)"

definition or_empty :: "string option \<Rightarrow> string" where
  "or_empty x = (case x of None \<Rightarrow> '''' | Some s \<Rightarrow> s)"

definition key_of_request :: "request_view \<Rightarrow> string option" where
  "key_of_request r =
     Option.bind (first_via (rq_header_lines r)) (\<lambda>via.
     Option.bind (param_of via ''branch'') (\<lambda>branch.
     Option.bind (rq_call_id r) (\<lambda>call_id.
     Option.bind (rq_from r) (\<lambda>from.
     Option.bind (rq_cseq r) (\<lambda>cseq_value.
     Option.bind (head_opt (split_whitespace cseq_value)) (\<lambda>cseq.
       Some (itx_key branch call_id (or_empty (param_of from ''tag'')) cseq)))))))"

definition key_of_response :: "string \<Rightarrow> (string \<times> nat) option" where
  "key_of_response raw =
     (if \<not> starts_with raw ''SIP/2.0 '' then None
      else case parse raw of
             Inl _ \<Rightarrow> None
           | Inr msg \<Rightarrow>
               Option.bind (head_opt (header_values ''cseq'' msg)) (\<lambda>cseq_line.
               case split_whitespace cseq_line of
                 cseq # meth # _ \<Rightarrow>
                   if \<not> eq_ignore_ascii_case meth ''INVITE'' then None
                   else
                     Option.bind (head_opt (header_values ''via'' msg)) (\<lambda>via.
                     Option.bind (param_of via ''branch'') (\<lambda>branch.
                     Option.bind (head_opt (header_values ''call-id'' msg)) (\<lambda>call_id.
                     let from_tag = or_empty (Option.bind (head_opt (header_values ''from'' msg))
                                                (\<lambda>f. param_of f ''tag''))
                     in case split_whitespace raw of
                          _ # w # _ \<Rightarrow>
                            map_option (\<lambda>status. (itx_key branch call_id from_tag cseq, status))
                              (parse_uint u16_max w)
                        | _ \<Rightarrow> None)))
               | _ \<Rightarrow> None))"

section \<open>Operations\<close>

definition evict_oldest :: "(string, tx_entry) hmap \<Rightarrow> (string, tx_entry) hmap" where
  "evict_oldest es =
     (case min_by_key (\<lambda>(_, e). te_first_seen e) es of Some (k, _) \<Rightarrow> hm_remove k es | None \<Rightarrow> es)"

definition new_entry :: "instant \<Rightarrow> tx_entry" where
  "new_entry now = \<lparr>te_last_response = None, te_first_seen = now, te_final_at = None,
     te_acked = False, te_retransmit = None\<rparr>"

text \<open>\<open>Inl\<close> is the answer to a retransmission: the response to replay, if there is one yet.\<close>

definition itx_begin :: "instant \<Rightarrow> string \<Rightarrow> invite_tx_cache \<Rightarrow> (string option + unit) \<times> invite_tx_cache" where
  "itx_begin now k c =
     (case hm_get (itx_entries c) k of
        Some e \<Rightarrow> (Inl (te_last_response e), c)
      | None \<Rightarrow>
          let es = (if ITX_MAX_ENTRIES \<le> length (itx_entries c) then evict_oldest (itx_entries c)
                    else itx_entries c)
          in (Inr (), c\<lparr>itx_entries := hm_insert k (new_entry now) es\<rparr>))"

definition sent_entry ::
  "instant \<Rightarrow> string \<Rightarrow> nat \<Rightarrow> socket_addr \<Rightarrow> transport \<Rightarrow> nat option \<Rightarrow> tx_entry \<Rightarrow> tx_entry"
where
  "sent_entry now response status dest tp reply_tx e =
     (let e1 = e\<lparr>te_last_response := Some response\<rparr>;
          e2 = (if 200 \<le> status \<and> te_final_at e1 = None then e1\<lparr>te_final_at := Some now\<rparr> else e1)
      in if 300 \<le> status \<and> tp = Udp \<and> \<not> te_acked e2 \<and> te_retransmit e2 = None
         then e2\<lparr>te_retransmit := Some \<lparr>rt_dest = dest, rt_transport = tp, rt_reply_tx = reply_tx,
                   rt_next_at = now + TIMER_T1, rt_interval = TIMER_T1, rt_sent = 0\<rparr>\<rparr>
         else e2)"

definition itx_record_sent ::
  "instant \<Rightarrow> string \<Rightarrow> string \<Rightarrow> nat \<Rightarrow> socket_addr \<Rightarrow> transport \<Rightarrow> nat option \<Rightarrow>
   invite_tx_cache \<Rightarrow> invite_tx_cache"
where
  "itx_record_sent now k response status dest tp reply_tx c =
     c\<lparr>itx_entries := hm_modify k (sent_entry now response status dest tp reply_tx) (itx_entries c)\<rparr>"

definition itx_acked :: "string \<Rightarrow> invite_tx_cache \<Rightarrow> invite_tx_cache" where
  "itx_acked k c =
     c\<lparr>itx_entries := hm_modify k (\<lambda>e. e\<lparr>te_acked := True, te_retransmit := None\<rparr>) (itx_entries c)\<rparr>"

type_synonym resend = "string \<times> socket_addr \<times> transport \<times> nat option"

definition due_entry :: "instant \<Rightarrow> tx_entry \<Rightarrow> resend list \<times> tx_entry" where
  "due_entry now e =
     (case te_retransmit e of
        None \<Rightarrow> ([], e)
      | Some r \<Rightarrow>
          if now < rt_next_at r then ([], e)
          else if MAX_RETRANSMITS \<le> rt_sent r then ([], e\<lparr>te_retransmit := None\<rparr>)
          else
            let out = (case te_last_response e of
                         Some data \<Rightarrow> [(data, rt_dest r, rt_transport r, rt_reply_tx r)] | None \<Rightarrow> []);
                interval = min (rt_interval r * 2) TIMER_T2
            in (out, e\<lparr>te_retransmit := Some (r\<lparr>rt_sent := rt_sent r + 1, rt_interval := interval,
                        rt_next_at := now + interval\<rparr>)\<rparr>))"

definition due_retransmissions :: "instant \<Rightarrow> invite_tx_cache \<Rightarrow> resend list \<times> invite_tx_cache" where
  "due_retransmissions now c =
     (concat (map (\<lambda>(_, e). fst (due_entry now e)) (itx_entries c)),
      c\<lparr>itx_entries := map (\<lambda>(k, e). (k, snd (due_entry now e))) (itx_entries c)\<rparr>)"

definition itx_live :: "instant \<Rightarrow> tx_entry \<Rightarrow> bool" where
  "itx_live now e \<longleftrightarrow>
     (case te_final_at e of
        Some f \<Rightarrow> now - f < FINAL_ABSORB
      | None \<Rightarrow> now - te_first_seen e < PENDING_ABSORB)"

definition itx_prune_at :: "instant \<Rightarrow> invite_tx_cache \<Rightarrow> nat \<times> invite_tx_cache" where
  "itx_prune_at now c =
     (let es = hm_retain (\<lambda>_ e. itx_live now e) (itx_entries c)
      in (length (itx_entries c) - length es, c\<lparr>itx_entries := es\<rparr>))"

section \<open>Runs\<close>

datatype itx_op =
    Begin instant string
  | Sent instant string string nat socket_addr transport "nat option"
  | Acked string
  | Due instant
  | Prune instant

fun itx_apply :: "itx_op \<Rightarrow> invite_tx_cache \<Rightarrow> invite_tx_cache" where
  "itx_apply (Begin now k) c = snd (itx_begin now k c)"
| "itx_apply (Sent now k resp status dest tp ch) c = itx_record_sent now k resp status dest tp ch c"
| "itx_apply (Acked k) c = itx_acked k c"
| "itx_apply (Due now) c = snd (due_retransmissions now c)"
| "itx_apply (Prune now) c = snd (itx_prune_at now c)"

definition itx_new :: invite_tx_cache where "itx_new = \<lparr>itx_entries = []\<rparr>"

definition itx_inv :: "invite_tx_cache \<Rightarrow> bool" where
  "itx_inv c \<longleftrightarrow> hm_ok (itx_entries c) \<and> length (itx_entries c) \<le> ITX_MAX_ENTRIES"

lemma evict_oldest_length:
  assumes "hm_ok es" and "es \<noteq> []"
  shows "hm_ok (evict_oldest es) \<and> length (evict_oldest es) < length es"
proof -
  obtain k e where m: "min_by_key (\<lambda>(_, e). te_first_seen e) es = Some (k, e)"
    using assms(2) by (cases "min_by_key (\<lambda>(_, e). te_first_seen e) es") auto
  from min_by_key_Some [OF m] have "hm_contains es k" by (force simp: hm_contains_iff)
  with assms m show ?thesis by (simp add: evict_oldest_def length_hm_remove)
qed

lemma hm_ok_map_values: "hm_ok (map (\<lambda>(k, e). (k, f e)) m) = hm_ok m"
  by (simp add: hm_ok_def comp_def split_beta)

lemma hm_get_map_values: "hm_get (map (\<lambda>(k, e). (k, f e)) m) k = map_option f (hm_get m k)"
  by (induction m) auto

lemma itx_begin_inv: "itx_inv c \<Longrightarrow> itx_inv (snd (itx_begin now k c))"
proof (cases "hm_get (itx_entries c) k")
  case None
  assume inv: "itx_inv c"
  let ?es = "if ITX_MAX_ENTRIES \<le> length (itx_entries c) then evict_oldest (itx_entries c) else itx_entries c"
  have "hm_ok ?es \<and> length ?es < ITX_MAX_ENTRIES"
  proof (cases "ITX_MAX_ENTRIES \<le> length (itx_entries c)")
    case True
    then have "itx_entries c \<noteq> []" by (auto simp: ITX_MAX_ENTRIES_def)
    with evict_oldest_length [OF _ this] inv True show ?thesis by (simp add: itx_inv_def)
  next
    case False
    with inv show ?thesis by (simp add: itx_inv_def)
  qed
  with None show ?thesis by (simp add: itx_begin_def itx_inv_def Let_def length_hm_insert)
qed (simp add: itx_begin_def)

lemma itx_apply_inv: "itx_inv c \<Longrightarrow> itx_inv (itx_apply oper c)"
proof (cases oper)
  case (Prune now)
  assume "itx_inv c"
  with Prune show ?thesis
    using length_hm_retain [of "\<lambda>_ e. itx_live now e" "itx_entries c"]
    by (simp add: itx_inv_def itx_prune_at_def Let_def)
next
  case (Begin now k)
  assume "itx_inv c"
  with Begin show ?thesis by (simp add: itx_begin_inv)
qed (auto simp: itx_inv_def itx_record_sent_def itx_acked_def due_retransmissions_def
    hm_ok_map_values)

text \<open>No flood grows the table past its cap: after any operations it has at most 10000 entries.\<close>

theorem invite_table_bounded:
  "length (itx_entries (fold itx_apply ops itx_new)) \<le> ITX_MAX_ENTRIES"
proof -
  have "itx_inv c \<Longrightarrow> itx_inv (fold itx_apply ops c)" for c
    by (induction ops arbitrary: c) (simp_all add: itx_apply_inv)
  from this [of itx_new] show ?thesis by (simp add: itx_inv_def itx_new_def)
qed

section \<open>Retransmitted INVITEs\<close>

fun op_at :: "itx_op \<Rightarrow> instant option" where
  "op_at (Begin now _) = Some now"
| "op_at (Sent now _ _ _ _ _ _) = Some now"
| "op_at (Acked _) = None"
| "op_at (Due now) = Some now"
| "op_at (Prune now) = Some now"

definition begins :: "itx_op list \<Rightarrow> nat" where
  "begins ops = length (filter (\<lambda>x. case x of Begin _ _ \<Rightarrow> True | _ \<Rightarrow> False) ops)"

fun sent_to :: "string \<Rightarrow> itx_op \<Rightarrow> string option \<Rightarrow> string option" where
  "sent_to k (Sent _ k' resp _ _ _ _) R = (if k' = k then Some resp else R)"
| "sent_to k _ R = R"

text \<open>The entry of a transaction that began at \<open>t0\<close> and last answered \<open>R\<close>.\<close>

definition remembers :: "instant \<Rightarrow> string option \<Rightarrow> tx_entry \<Rightarrow> bool" where
  "remembers t0 R e \<longleftrightarrow> te_first_seen e = t0 \<and> te_last_response e = R \<and>
     (\<forall>f. te_final_at e = Some f \<longrightarrow> t0 \<le> f)"

lemma remembers_live:
  "remembers t0 R e \<Longrightarrow> now < t0 + secs 32 \<Longrightarrow> itx_live now e"
  by (auto simp: remembers_def itx_live_def FINAL_ABSORB_def PENDING_ABSORB_def secs_def split: option.splits)

lemma due_entry_keeps:
  "te_first_seen (snd (due_entry now e)) = te_first_seen e"
  "te_last_response (snd (due_entry now e)) = te_last_response e"
  "te_final_at (snd (due_entry now e)) = te_final_at e"
  "te_acked (snd (due_entry now e)) = te_acked e"
  by (auto simp: due_entry_def Let_def split: option.splits)

lemma sent_entry_keeps:
  "te_first_seen (sent_entry now resp st d tp ch e) = te_first_seen e"
  "te_last_response (sent_entry now resp st d tp ch e) = Some resp"
  "te_final_at (sent_entry now resp st d tp ch e) =
     (if 200 \<le> st \<and> te_final_at e = None then Some now else te_final_at e)"
  by (auto simp: sent_entry_def Let_def)

lemma remembers_sent:
  "remembers t0 R e \<Longrightarrow> t0 \<le> now \<Longrightarrow> remembers t0 (Some resp) (sent_entry now resp st d tp ch e)"
  unfolding remembers_def sent_entry_keeps by auto

definition in_time :: "instant \<Rightarrow> itx_op \<Rightarrow> bool" where
  "in_time t0 x \<longleftrightarrow> (case op_at x of None \<Rightarrow> True | Some now \<Rightarrow> t0 \<le> now \<and> now < t0 + secs 32)"

lemma apply_remembers:
  assumes "hm_ok (itx_entries c)" and "hm_get (itx_entries c) k = Some e" and "remembers t0 R e"
    and "in_time t0 x" and "length (itx_entries c) < ITX_MAX_ENTRIES"
  shows "\<exists>e'. hm_get (itx_entries (itx_apply x c)) k = Some e' \<and> remembers t0 (sent_to k x R) e'"
proof (cases x)
  case (Begin now k')
  with assms show ?thesis
    by (auto simp: itx_begin_def Let_def hm_get_insert split: option.splits)
next
  case (Sent now k' resp st d tp ch)
  have "t0 \<le> now" using assms(4) Sent by (simp add: in_time_def)
  from remembers_sent [OF assms(3) this, of resp st d tp ch] show ?thesis
    using assms(2,3) Sent by (simp add: itx_record_sent_def hm_get_modify)
next
  case (Acked k')
  have "remembers t0 R (e\<lparr>te_acked := True, te_retransmit := None\<rparr>)"
    using assms(3) by (simp add: remembers_def)
  with assms(2,3) Acked show ?thesis
    by (cases "k' = k") (simp_all add: itx_acked_def hm_get_modify)
next
  case (Due now)
  have "remembers t0 R (snd (due_entry now e))"
    using assms(3) unfolding remembers_def due_entry_keeps .
  with assms(2) Due show ?thesis by (simp add: due_retransmissions_def hm_get_map_values)
next
  case (Prune now)
  with assms(4) have "now < t0 + secs 32" by (simp add: in_time_def)
  from remembers_live [OF assms(3) this] assms Prune show ?thesis
    by (simp add: itx_prune_at_def Let_def hm_get_retain)
qed

lemma apply_length:
  assumes "hm_ok (itx_entries c)" and "length (itx_entries c) < ITX_MAX_ENTRIES"
  shows "length (itx_entries (itx_apply x c)) \<le> length (itx_entries c) + begins [x]"
proof (cases x)
  case (Begin now k)
  with assms show ?thesis
    by (auto simp: itx_begin_def Let_def begins_def length_hm_insert split: option.splits)
next
  case (Prune now)
  then show ?thesis
    using length_hm_retain [of "\<lambda>_ e. itx_live now e" "itx_entries c"]
    by (simp add: itx_prune_at_def Let_def)
qed (simp_all add: itx_record_sent_def itx_acked_def due_retransmissions_def)

lemma run_remembers:
  assumes "itx_inv c" and "hm_get (itx_entries c) k = Some e" and "remembers t0 R e"
    and "\<forall>x \<in> set ops. in_time t0 x" and "length (itx_entries c) + begins ops < ITX_MAX_ENTRIES"
  shows "\<exists>e'. hm_get (itx_entries (fold itx_apply ops c)) k = Some e' \<and>
     remembers t0 (fold (sent_to k) ops R) e'"
  using assms
proof (induction ops arbitrary: c e R)
  case Nil
  then show ?case by simp
next
  case (Cons x ops)
  have ok: "hm_ok (itx_entries c)" and len: "length (itx_entries c) < ITX_MAX_ENTRIES"
    and it: "in_time t0 x" using Cons.prems by (auto simp: itx_inv_def)
  obtain e' where e': "hm_get (itx_entries (itx_apply x c)) k = Some e'" "remembers t0 (sent_to k x R) e'"
    using apply_remembers [OF ok Cons.prems(2,3) it len] by blast
  have "length (itx_entries (itx_apply x c)) + begins ops < ITX_MAX_ENTRIES"
    using apply_length [OF ok len, of x] Cons.prems(5) by (simp add: begins_def split: if_splits)
  from Cons.IH [OF itx_apply_inv [OF Cons.prems(1)] e' _ this] Cons.prems(4) show ?case by simp
qed

text \<open>
  C33: a retransmitted INVITE never becomes a second call. For the 32 seconds a client retransmits,
  whatever other transactions, responses, acknowledgements, resends and sweeps happen (short of
  filling the table), every copy is answered with the last response sent for the transaction, or
  swallowed while there is none, and changes nothing.
\<close>

theorem retransmitted_invite_absorbed:
  assumes "itx_inv c" and "hm_get (itx_entries c) k = None"
    and "\<forall>x \<in> set ops. in_time t0 x" and "length (itx_entries c) + 1 + begins ops < ITX_MAX_ENTRIES"
  shows "let c' = fold itx_apply ops (snd (itx_begin t0 k c))
         in fst (itx_begin t0 k c) = Inr () \<and>
            itx_begin now k c' = (Inl (fold (sent_to k) ops None), c')"
proof -
  let ?c = "snd (itx_begin t0 k c)"
  have r: "remembers t0 None (new_entry t0)" by (simp add: remembers_def new_entry_def)
  have g: "hm_get (itx_entries ?c) k = Some (new_entry t0)"
    using assms(2) by (simp add: itx_begin_def Let_def hm_get_insert)
  have l: "length (itx_entries ?c) + begins ops < ITX_MAX_ENTRIES"
    using assms(2,4) by (simp add: itx_begin_def Let_def length_hm_insert)
  from run_remembers [OF itx_begin_inv [OF assms(1)] g r assms(3) l] assms(2) show ?thesis
    by (auto simp: itx_begin_def Let_def remembers_def)
qed

theorem retransmitted_invite_absorbed_witness:
  "fst (itx_begin (secs 3) ''k'' (fold itx_apply
       [Begin (secs 1) ''other'', Sent (secs 1) ''k'' ''100 Trying'' 100 (V4 10 0 0 9, 5060) Udp None, Prune (secs 2)]
       (snd (itx_begin 0 ''k'' itx_new)))) = Inl (Some ''100 Trying'')"
proof -
  have inv: "itx_inv itx_new" "hm_get (itx_entries itx_new) ''k'' = None"
    by (simp_all add: itx_inv_def itx_new_def)
  show ?thesis
    using retransmitted_invite_absorbed [OF inv, of
      "[Begin (secs 1) ''other'', Sent (secs 1) ''k'' ''100 Trying'' 100 (V4 10 0 0 9, 5060) Udp None, Prune (secs 2)]"
      0 "secs 3"]
    by (simp add: in_time_def begins_def itx_new_def ITX_MAX_ENTRIES_def Let_def)
qed

section \<open>Unacknowledged finals\<close>

fun poll :: "instant list \<Rightarrow> tx_entry \<Rightarrow> resend list \<times> tx_entry" where
  "poll [] e = ([], e)"
| "poll (t # ts) e =
     (let (out, e1) = due_entry t e; (outs, e2) = poll ts e1 in (out @ outs, e2))"

lemma poll_unarmed: "te_retransmit e = None \<Longrightarrow> poll ts e = ([], e)"
  by (induction ts) (simp_all add: due_entry_def)

lemma poll_bounded:
  assumes "te_retransmit e = Some r" and "te_last_response e = Some data"
  shows "length (fst (poll ts e)) \<le> MAX_RETRANSMITS - rt_sent r \<and>
         set (fst (poll ts e)) \<subseteq> {(data, rt_dest r, rt_transport r, rt_reply_tx r)}"
  using assms
proof (induction ts arbitrary: e r)
  case Nil
  then show ?case by simp
next
  case (Cons t ts)
  consider "t < rt_next_at r" | "rt_next_at r \<le> t" "MAX_RETRANSMITS \<le> rt_sent r"
    | "rt_next_at r \<le> t" "rt_sent r < MAX_RETRANSMITS" by linarith
  then show ?case
  proof cases
    case 1
    with Cons show ?thesis by (simp add: due_entry_def split_beta)
  next
    case 2
    with Cons.prems show ?thesis by (simp add: due_entry_def poll_unarmed)
  next
    case 3
    let ?i = "min (rt_interval r * 2) TIMER_T2"
    let ?r = "r\<lparr>rt_sent := rt_sent r + 1, rt_interval := ?i, rt_next_at := t + ?i\<rparr>"
    let ?e = "e\<lparr>te_retransmit := Some ?r\<rparr>"
    have "fst (poll (t # ts) e) = (data, rt_dest r, rt_transport r, rt_reply_tx r) # fst (poll ts ?e)"
      using 3 Cons.prems by (simp add: due_entry_def Let_def split_beta)
    with Cons.IH [of ?e ?r] Cons.prems 3 show ?thesis by auto
  qed
qed

text \<open>When Timer G fires for a final sent at time zero, in milliseconds.\<close>

definition timer_g_schedule :: "nat list" where
  "timer_g_schedule = [500, 1500, 3500, 7500, 11500, 15500, 19500, 23500, 27500]"



text \<open>Two transactions have different keys, unless a part of one holds the separator.\<close>

lemma itx_key_inj:
  assumes "CHR ''|'' \<notin> set b \<union> set c \<union> set f" and "CHR ''|'' \<notin> set b' \<union> set c' \<union> set f'"
  shows "itx_key b c f q = itx_key b' c' f' q' \<longleftrightarrow> b = b' \<and> c = c' \<and> f = f' \<and> q = q'"
proof -
  have sep: "x @ CHR ''|'' # y = x' @ CHR ''|'' # y' \<longleftrightarrow> x = x' \<and> y = y'"
    if "CHR ''|'' \<notin> set x" "CHR ''|'' \<notin> set x'" for x x' y y'
    using split_once_word [OF that(1), of y] split_once_word [OF that(2), of y']
    by (metis option.inject prod.inject)
  show ?thesis using assms unfolding itx_key_def by (simp add: sep)
qed

end
