(* ===== verification/Client_Tx.thy ===== *)
theory Client_Tx
  imports Invite_Tx
begin

text \<open>
  \<^verbatim>\<open>crates/sbc-core/src/sbc/client_tx.rs\<close>: the client transactions over UDP. A request the SBC
  sends is resent until it is answered, abandoned or out of time.
\<close>

section \<open>Data\<close>

definition TRANSACTION_TIMEOUT :: duration where "TRANSACTION_TIMEOUT = secs 32"
definition CTX_MAX_ENTRIES :: nat where "CTX_MAX_ENTRIES = 4096"

record client_tx =
  ct_raw :: string
  ct_dest :: socket_addr
  ct_transport :: transport
  ct_is_invite :: bool
  ct_next_at :: instant
  ct_interval :: duration
  ct_give_up_at :: instant
  ct_attempts :: nat
  ct_reply_tx :: "nat option"
  ct_what :: string

record due_request =
  dq_what :: string
  dq_raw :: string
  dq_dest :: socket_addr
  dq_transport :: transport
  dq_reply_tx :: "nat option"
  dq_attempt :: nat

record client_tx_cache =
  ctx_txs :: "(string, client_tx) hmap"

section \<open>Reading requests\<close>

definition ctx_key :: "string \<Rightarrow> string \<Rightarrow> string" where
  "ctx_key branch meth = branch @ ''|'' @ to_ascii_uppercase meth"

definition via_branch :: "string \<Rightarrow> string option" where
  "via_branch raw = top_via_branch raw"

definition branch_param :: "string \<Rightarrow> string option" where
  "branch_param via_value =
     (case find_str ''branch='' (to_ascii_lowercase via_value) of
        None \<Rightarrow> None
      | Some pos \<Rightarrow>
          let b = trim (takeWhile (\<lambda>c. c \<noteq> CHR '';'' \<and> c \<noteq> CHR '','' \<and> \<not> is_space c)
                     (drop (pos + 7) via_value))
          in if b = [] then None else Some b)"

definition request_method :: "string \<Rightarrow> string option" where
  "request_method raw =
     (case lines raw of
        [] \<Rightarrow> None
      | first # _ \<Rightarrow>
          if \<not> ends_with first ''SIP/2.0'' then None
          else (case split_whitespace first of
                  [] \<Rightarrow> None
                | meth # _ \<Rightarrow>
                    if starts_with meth ''SIP/'' then None else Some (to_ascii_uppercase meth)))"

text \<open>\<^verbatim>\<open>std::str::from_utf8\<close> succeeds on exactly the well-formed UTF-8 byte strings.\<close>

definition byte_in :: "nat \<Rightarrow> nat \<Rightarrow> char \<Rightarrow> bool" where
  "byte_in lo hi c \<longleftrightarrow> lo \<le> (of_char c :: nat) \<and> (of_char c :: nat) \<le> hi"

definition second_ok :: "char \<Rightarrow> char \<Rightarrow> bool" where
  "second_ok a b \<longleftrightarrow>
     (if (of_char a :: nat) = 224 then byte_in 160 191 b
      else if (of_char a :: nat) = 237 then byte_in 128 159 b
      else if (of_char a :: nat) = 240 then byte_in 144 191 b
      else if (of_char a :: nat) = 244 then byte_in 128 143 b
      else byte_in 128 191 b)"

fun valid_utf8 :: "string \<Rightarrow> bool" where
  "valid_utf8 [] = True"
| "valid_utf8 (a # s) =
     (if byte_in 0 127 a then valid_utf8 s
      else if byte_in 194 223 a then
        (case s of b # s' \<Rightarrow> second_ok a b \<and> valid_utf8 s' | _ \<Rightarrow> False)
      else if byte_in 224 239 a then
        (case s of b # c # s' \<Rightarrow> second_ok a b \<and> byte_in 128 191 c \<and> valid_utf8 s' | _ \<Rightarrow> False)
      else if byte_in 240 244 a then
        (case s of b # c # d # s' \<Rightarrow>
            second_ok a b \<and> byte_in 128 191 c \<and> byte_in 128 191 d \<and> valid_utf8 s' | _ \<Rightarrow> False)
      else False)"

section \<open>Operations\<close>

definition client_tx_of ::
  "instant \<Rightarrow> string \<Rightarrow> string \<Rightarrow> string \<Rightarrow> socket_addr \<Rightarrow> transport \<Rightarrow> nat option \<Rightarrow> client_tx"
where
  "client_tx_of now meth what raw dest tp reply_tx =
     \<lparr>ct_raw = raw, ct_dest = dest, ct_transport = tp, ct_is_invite = (meth = ''INVITE''),
      ct_next_at = now + TIMER_T1, ct_interval = TIMER_T1,
      ct_give_up_at = now + TRANSACTION_TIMEOUT, ct_attempts = 0, ct_reply_tx = reply_tx,
      ct_what = what\<rparr>"

definition ctx_record_sent ::
  "instant \<Rightarrow> string \<Rightarrow> string \<Rightarrow> socket_addr \<Rightarrow> transport \<Rightarrow> nat option \<Rightarrow> client_tx_cache \<Rightarrow>
   string option \<times> client_tx_cache"
where
  "ctx_record_sent now what raw dest tp reply_tx c =
     (if tp \<noteq> Udp \<or> \<not> valid_utf8 raw then (None, c)
      else case request_method raw of
             None \<Rightarrow> (None, c)
           | Some meth \<Rightarrow>
               if meth = ''ACK'' then (None, c)
               else case via_branch raw of
                      None \<Rightarrow> (None, c)
                    | Some branch \<Rightarrow>
                        let t1 = (if meth = ''CANCEL'' then hm_remove (ctx_key branch ''INVITE'') (ctx_txs c)
                                  else ctx_txs c);
                            t2 = (if CTX_MAX_ENTRIES \<le> length t1
                                  then hm_retain (\<lambda>_ tx. now < ct_give_up_at tx) t1 else t1);
                            k = ctx_key branch meth
                        in if CTX_MAX_ENTRIES \<le> length t2 then (None, c\<lparr>ctx_txs := t2\<rparr>)
                           else (Some k, c\<lparr>ctx_txs :=
                                  hm_insert k (client_tx_of now meth what raw dest tp reply_tx) t2\<rparr>))"

definition answered_parts :: "string \<Rightarrow> string \<Rightarrow> nat \<Rightarrow> client_tx_cache \<Rightarrow> bool \<times> client_tx_cache" where
  "answered_parts branch cseq_method status c =
     (let final_response = 200 \<le> status; k = ctx_key branch cseq_method in
      case hm_get (ctx_txs c) k of
        Some tx \<Rightarrow>
          if ct_is_invite tx \<or> final_response then (True, c\<lparr>ctx_txs := hm_remove k (ctx_txs c)\<rparr>)
          else (False, c)
      | None \<Rightarrow> (False, c))"

definition due_tx :: "instant \<Rightarrow> client_tx \<Rightarrow> due_request list \<times> client_tx" where
  "due_tx now tx =
     (if ct_next_at tx \<le> now
      then let interval = (if ct_is_invite tx then ct_interval tx * 2
                           else min (ct_interval tx * 2) TIMER_T2);
               tx' = tx\<lparr>ct_attempts := ct_attempts tx + 1, ct_interval := interval,
                        ct_next_at := now + interval\<rparr>
           in ([\<lparr>dq_what = ct_what tx, dq_raw = ct_raw tx, dq_dest = ct_dest tx,
                 dq_transport = ct_transport tx, dq_reply_tx = ct_reply_tx tx,
                 dq_attempt = ct_attempts tx'\<rparr>], tx')
      else ([], tx))"

definition ctx_due :: "instant \<Rightarrow> client_tx_cache \<Rightarrow> (due_request list \<times> string list) \<times> client_tx_cache" where
  "ctx_due now c =
     (let alive = filter (\<lambda>(_, tx). now < ct_give_up_at tx) (ctx_txs c);
          dead = filter (\<lambda>(_, tx). ct_give_up_at tx \<le> now) (ctx_txs c)
      in ((concat (map (\<lambda>(_, tx). fst (due_tx now tx)) alive),
           map (\<lambda>(_, tx). ct_what tx @ '' ('' @ show_nat (ct_attempts tx) @ '' attempts)'') dead),
          c\<lparr>ctx_txs := map (\<lambda>(k, tx). (k, snd (due_tx now tx))) alive\<rparr>))"

definition ctx_len :: "client_tx_cache \<Rightarrow> nat" where
  "ctx_len c = length (ctx_txs c)"

section \<open>The table bound\<close>

datatype ctx_op =
    CSent instant string string socket_addr transport "nat option"
  | CAnswered string string nat
  | CDue instant

fun ctx_apply :: "ctx_op \<Rightarrow> client_tx_cache \<Rightarrow> client_tx_cache" where
  "ctx_apply (CSent now what raw dest tp ch) c = snd (ctx_record_sent now what raw dest tp ch c)"
| "ctx_apply (CAnswered branch meth status) c = snd (answered_parts branch meth status c)"
| "ctx_apply (CDue now) c = snd (ctx_due now c)"

definition ctx_inv :: "client_tx_cache \<Rightarrow> bool" where
  "ctx_inv c \<longleftrightarrow> hm_ok (ctx_txs c) \<and> length (ctx_txs c) \<le> CTX_MAX_ENTRIES"

lemma ctx_inv_remove: "ctx_inv c \<Longrightarrow> ctx_inv (c\<lparr>ctx_txs := hm_remove k (ctx_txs c)\<rparr>)"
  by (auto simp: ctx_inv_def length_hm_remove)

lemma ctx_record_sent_inv:
  assumes "ctx_inv c"
  shows "ctx_inv (snd (ctx_record_sent now what raw dest tp ch c))"
proof -
  have ok: "hm_ok (if b then hm_remove k (ctx_txs c) else ctx_txs c)" for b k
    using assms by (simp add: ctx_inv_def)
  have len: "length (if b then hm_remove k (ctx_txs c) else ctx_txs c) \<le> CTX_MAX_ENTRIES" for b k
    using assms by (auto simp: ctx_inv_def length_hm_remove)
  have step: "ctx_inv (snd (let t2 = (if CTX_MAX_ENTRIES \<le> length t1
        then hm_retain (\<lambda>_ tx. now < ct_give_up_at tx) t1 else t1)
      in if CTX_MAX_ENTRIES \<le> length t2 then (None, c\<lparr>ctx_txs := t2\<rparr>)
         else (Some k, c\<lparr>ctx_txs := hm_insert k x t2\<rparr>)))"
    if "hm_ok t1" "length t1 \<le> CTX_MAX_ENTRIES" for t1 k x
    using that length_hm_retain [of "\<lambda>_ tx. now < ct_give_up_at tx" t1]
    by (simp add: ctx_inv_def Let_def length_hm_insert)
  show ?thesis
    using assms step [OF ok len]
    by (simp add: ctx_record_sent_def Let_def split: option.split)
qed

lemma ctx_apply_inv: "ctx_inv c \<Longrightarrow> ctx_inv (ctx_apply x c)"
proof (cases x)
  case (CDue now)
  assume inv: "ctx_inv c"
  have "hm_ok (hm_retain (\<lambda>_ tx. now < ct_give_up_at tx) (ctx_txs c))"
    using inv by (simp add: ctx_inv_def)
  moreover have "length (hm_retain (\<lambda>_ tx. now < ct_give_up_at tx) (ctx_txs c)) \<le> CTX_MAX_ENTRIES"
    using inv length_hm_retain by (metis ctx_inv_def order_trans)
  ultimately show ?thesis
    by (simp add: CDue ctx_due_def ctx_inv_def hm_ok_map_values hm_retain_def Let_def)
qed (simp_all add: ctx_record_sent_inv answered_parts_def ctx_inv_remove Let_def split: option.split)

lemma ctx_run_inv: "ctx_inv c \<Longrightarrow> ctx_inv (fold ctx_apply ops c)"
  by (induction ops arbitrary: c) (simp_all add: ctx_apply_inv)

text \<open>At most 4096 requests are in flight, whatever is sent, answered and polled.\<close>

theorem client_table_bounded:
  "ctx_len (fold ctx_apply ops \<lparr>ctx_txs = []\<rparr>) \<le> CTX_MAX_ENTRIES"
  using ctx_run_inv [of "\<lparr>ctx_txs = []\<rparr>" ops] by (simp add: ctx_inv_def ctx_len_def)

section \<open>What stops a transaction\<close>

text \<open>The table key a recorded request takes.\<close>

definition key_of_sent :: "string \<Rightarrow> string option" where
  "key_of_sent raw =
     Option.bind (request_method raw) (\<lambda>meth. map_option (\<lambda>b. ctx_key b meth) (via_branch raw))"

fun renews :: "string \<Rightarrow> ctx_op \<Rightarrow> bool" where
  "renews k (CSent _ _ raw _ _ _) = (key_of_sent raw = Some k)"
| "renews k _ = False"

lemma retain_None: "hm_ok m \<Longrightarrow> hm_get m k = None \<Longrightarrow> hm_get (hm_retain P m) k = None"
  by (simp add: hm_get_retain)

lemma record_sent_absent:
  assumes "hm_ok (ctx_txs c)" and "hm_get (ctx_txs c) k = None" and "key_of_sent raw \<noteq> Some k"
  shows "hm_get (ctx_txs (snd (ctx_record_sent now what raw dest tp ch c))) k = None"
proof (cases "\<exists>meth b. request_method raw = Some meth \<and> via_branch raw = Some b")
  case False
  then have "snd (ctx_record_sent now what raw dest tp ch c) = c"
    by (cases "request_method raw"; cases "via_branch raw") (simp_all add: ctx_record_sent_def)
  with assms(2) show ?thesis by simp
next
  case True
  then obtain meth b where mb: "request_method raw = Some meth" "via_branch raw = Some b" by blast
  define t1 where "t1 = (if meth = ''CANCEL'' then hm_remove (ctx_key b ''INVITE'') (ctx_txs c) else ctx_txs c)"
  define t2 where "t2 = (if CTX_MAX_ENTRIES \<le> length t1
     then hm_retain (\<lambda>_ tx. now < ct_give_up_at tx) t1 else t1)"
  have "hm_get t1 k = None" "hm_ok t1" using assms(1,2) by (simp_all add: t1_def hm_get_remove)
  then have t2: "hm_get t2 k = None" by (simp add: t2_def retain_None)
  have "ctx_txs (snd (ctx_record_sent now what raw dest tp ch c)) \<in>
      {ctx_txs c, t2, hm_insert (ctx_key b meth) (client_tx_of now meth what raw dest tp ch) t2}"
    by (simp add: ctx_record_sent_def mb Let_def t1_def [symmetric] t2_def [symmetric])
  moreover have "ctx_key b meth \<noteq> k" using assms(3) mb by (simp add: key_of_sent_def)
  ultimately show ?thesis using assms(2) t2 by (auto simp: hm_get_insert)
qed

lemma apply_absent:
  assumes "ctx_inv c" and "hm_get (ctx_txs c) k = None" and "\<not> renews k x"
  shows "hm_get (ctx_txs (ctx_apply x c)) k = None"
proof (cases x)
  case (CSent now what raw dest tp ch)
  with assms record_sent_absent show ?thesis by (simp add: ctx_inv_def)
next
  case (CAnswered branch meth status)
  with assms(2) show ?thesis by (simp add: answered_parts_def Let_def hm_get_remove split: option.split)
next
  case (CDue now)
  have "hm_get (hm_retain (\<lambda>_ tx. now < ct_give_up_at tx) (ctx_txs c)) k = None"
    using assms(1,2) by (simp add: ctx_inv_def retain_None)
  then show ?thesis
    by (simp add: CDue ctx_due_def Let_def hm_get_map_values hm_retain_def)
qed

lemma run_absent:
  assumes "ctx_inv c" and "hm_get (ctx_txs c) k = None" and "\<forall>x \<in> set ops. \<not> renews k x"
  shows "hm_get (ctx_txs (fold ctx_apply ops c)) k = None"
  using assms
proof (induction ops arbitrary: c)
  case Nil
  then show ?case by simp
next
  case (Cons x ops)
  have "hm_get (ctx_txs (ctx_apply x c)) k = None"
    using Cons.prems by (intro apply_absent) simp_all
  with Cons.IH [of "ctx_apply x c"] Cons.prems ctx_apply_inv show ?case by simp
qed

text \<open>
  An answered request is not resent. Any response ends an INVITE's transaction and a final
  ends any other; the transaction then stays gone, through everything that happens later short of
  sending a new request under the same branch and method. A provisional response leaves any other
  request's transaction untouched.
\<close>

theorem answered_request_not_resent:
  assumes "ctx_inv c" and "hm_get (ctx_txs c) (ctx_key branch meth) = Some tx"
    and "\<forall>x \<in> set ops. \<not> renews (ctx_key branch meth) x"
  shows "if ct_is_invite tx \<or> 200 \<le> status
         then fst (answered_parts branch meth status c) \<and>
              hm_get (ctx_txs (fold ctx_apply ops (snd (answered_parts branch meth status c))))
                (ctx_key branch meth) = None
         else answered_parts branch meth status c = (False, c)"
proof (cases "ct_is_invite tx \<or> 200 \<le> status")
  case True
  let ?c = "c\<lparr>ctx_txs := hm_remove (ctx_key branch meth) (ctx_txs c)\<rparr>"
  have a: "answered_parts branch meth status c = (True, ?c)"
    using True assms(2) by (simp add: answered_parts_def Let_def)
  have "hm_get (ctx_txs (fold ctx_apply ops ?c)) (ctx_key branch meth) = None"
    by (rule run_absent [OF ctx_inv_remove [OF assms(1)] _ assms(3)]) (simp add: hm_get_remove)
  with True a show ?thesis by simp
next
  case False
  with assms(2) show ?thesis by (simp add: answered_parts_def Let_def)
qed

theorem answered_request_not_resent_witness:
  "let tx = client_tx_of 0 ''BYE'' ''bye'' ''raw'' (V4 10 0 0 9, 5060) Udp None;
       c = \<lparr>ctx_txs = [(ctx_key ''z9'' ''BYE'', tx)]\<rparr>
   in answered_parts ''z9'' ''BYE'' 100 c = (False, c) \<and> fst (answered_parts ''z9'' ''BYE'' 200 c)"
proof -
  let ?tx = "client_tx_of 0 ''BYE'' ''bye'' ''raw'' (V4 10 0 0 9, 5060) Udp None"
  let ?c = "\<lparr>ctx_txs = [(ctx_key ''z9'' ''BYE'', ?tx)]\<rparr>"
  have "ctx_inv ?c" "hm_get (ctx_txs ?c) (ctx_key ''z9'' ''BYE'') = Some ?tx"
    by (simp_all add: ctx_inv_def hm_ok_def CTX_MAX_ENTRIES_def)
  from answered_request_not_resent [OF this, of "[]" 100] answered_request_not_resent [OF this, of "[]" 200]
  show ?thesis by (simp add: client_tx_of_def Let_def)
qed

text \<open>A recorded CANCEL abandons the INVITE of its branch, even when the table is full.\<close>

lemma cancel_abandons_invite:
  assumes "ctx_inv c" and "valid_utf8 raw" and "request_method raw = Some ''CANCEL''"
    and "via_branch raw = Some branch"
  shows "hm_get (ctx_txs (snd (ctx_record_sent now what raw dest Udp ch c))) (ctx_key branch ''INVITE'') = None"
proof -
  have "ctx_key branch ''CANCEL'' \<noteq> ctx_key branch ''INVITE''"
    by (simp add: ctx_key_def to_ascii_uppercase_def upper_char_def)
  moreover have "hm_ok (hm_remove k (ctx_txs c))" for k using assms(1) by (simp add: ctx_inv_def)
  ultimately show ?thesis
    using assms(2-4)
    by (simp add: ctx_record_sent_def Let_def hm_get_insert hm_get_remove retain_None)
qed

section \<open>Timers A and E\<close>

fun poll_tx :: "instant list \<Rightarrow> client_tx \<Rightarrow> due_request list" where
  "poll_tx [] tx = []"
| "poll_tx (t # ts) tx =
     (if ct_give_up_at tx \<le> t then [] else fst (due_tx t tx) @ poll_tx ts (snd (due_tx t tx)))"

text \<open>
  A back-off: \<open>I a\<close> is the interval after \<open>a\<close> resends, \<open>S a\<close> the earliest time of the next one.
\<close>

lemma poll_tx_bounded:
  assumes "\<And>a. S (Suc a) = S a + I (Suc a)"
    and "\<And>a. I (Suc a) = (if invite then I a * 2 else min (I a * 2) TIMER_T2)"
    and "TRANSACTION_TIMEOUT \<le> S n"
    and "ct_is_invite tx = invite" and "ct_interval tx = I (ct_attempts tx)"
    and "t0 + S (ct_attempts tx) \<le> ct_next_at tx" and "ct_give_up_at tx = t0 + TRANSACTION_TIMEOUT"
    and "ct_attempts tx \<le> n"
  shows "length (poll_tx ts tx) \<le> n - ct_attempts tx \<and>
     (\<forall>d \<in> set (poll_tx ts tx). dq_raw d = ct_raw tx \<and> dq_dest d = ct_dest tx \<and> dq_transport d = ct_transport tx)"
  using assms(4-8)
proof (induction ts arbitrary: tx)
  case Nil
  then show ?case by simp
next
  case (Cons t ts)
  show ?case
  proof (cases "ct_give_up_at tx \<le> t \<or> t < ct_next_at tx")
    case True
    with Cons.IH [OF Cons.prems] show ?thesis by (auto simp: due_tx_def)
  next
    case False
    define i where "i = (if ct_is_invite tx then ct_interval tx * 2 else min (ct_interval tx * 2) TIMER_T2)"
    define tx' where "tx' = tx\<lparr>ct_attempts := ct_attempts tx + 1, ct_interval := i, ct_next_at := t + i\<rparr>"
    have i: "i = I (Suc (ct_attempts tx))" using Cons.prems assms(2) by (simp add: i_def)
    have "ct_attempts tx \<noteq> n"
    proof
      assume "ct_attempts tx = n"
      with assms(3) False Cons.prems show False by simp
    qed
    then have lt: "ct_attempts tx < n" using Cons.prems(5) by simp
    have ih: "length (poll_tx ts tx') \<le> n - ct_attempts tx' \<and>
        (\<forall>d \<in> set (poll_tx ts tx'). dq_raw d = ct_raw tx' \<and> dq_dest d = ct_dest tx' \<and> dq_transport d = ct_transport tx')"
    proof (rule Cons.IH)
      show "t0 + S (ct_attempts tx') \<le> ct_next_at tx'"
        using False Cons.prems i assms(1) by (simp add: tx'_def)
    qed (use Cons.prems lt i in \<open>simp_all add: tx'_def\<close>)
    have out: "poll_tx (t # ts) tx =
        \<lparr>dq_what = ct_what tx, dq_raw = ct_raw tx, dq_dest = ct_dest tx, dq_transport = ct_transport tx,
         dq_reply_tx = ct_reply_tx tx, dq_attempt = ct_attempts tx + 1\<rparr> # poll_tx ts tx'"
      using False by (simp add: due_tx_def Let_def tx'_def i_def)
    have "ct_attempts tx' = Suc (ct_attempts tx)" "ct_raw tx' = ct_raw tx" "ct_dest tx' = ct_dest tx"
      "ct_transport tx' = ct_transport tx"
      by (simp_all add: tx'_def)
    with ih lt show ?thesis unfolding out by auto
  qed
qed

definition invite_next :: "nat \<Rightarrow> duration" where
  "invite_next a = TIMER_T1 * (2 ^ (a + 1) - 1)"

definition other_next :: "nat \<Rightarrow> duration" where
  "other_next a = (if a \<le> 2 then TIMER_T1 * (2 ^ (a + 1) - 1) else 7 * TIMER_T1 + (a - 2) * TIMER_T2)"

definition other_interval :: "nat \<Rightarrow> duration" where
  "other_interval a = (if a \<le> 2 then TIMER_T1 * 2 ^ a else TIMER_T2)"

lemma invite_next_Suc: "invite_next (Suc a) = invite_next a + TIMER_T1 * 2 ^ Suc a"
proof -
  have "(2::nat) ^ (Suc a + 1) - 1 = (2 ^ (a + 1) - 1) + 2 ^ Suc a" by simp
  then show ?thesis unfolding invite_next_def by (simp only: distrib_left)
qed

lemma other_next_Suc: "other_next (Suc a) = other_next a + other_interval (Suc a)"
proof -
  consider "a = 0" | "a = 1" | "a = 2" | "3 \<le> a" by linarith
  then show ?thesis
    by cases (simp_all add: other_next_def other_interval_def TIMER_T1_def TIMER_T2_def millis_def secs_def)
qed

lemma other_interval_Suc: "other_interval (Suc a) = min (other_interval a * 2) TIMER_T2"
proof -
  consider "a = 0" | "a = 1" | "a = 2" | "3 \<le> a" by linarith
  then show ?thesis
    by cases (simp_all add: other_interval_def TIMER_T1_def TIMER_T2_def millis_def secs_def)
qed

definition resend_of :: "client_tx \<Rightarrow> nat \<Rightarrow> due_request" where
  "resend_of tx n = \<lparr>dq_what = ct_what tx, dq_raw = ct_raw tx, dq_dest = ct_dest tx,
     dq_transport = ct_transport tx, dq_reply_tx = ct_reply_tx tx, dq_attempt = n\<rparr>"

definition timer_a_schedule :: "nat list" where
  "timer_a_schedule = [500, 1500, 3500, 7500, 15500, 31500]"

definition timer_e_schedule :: "nat list" where
  "timer_e_schedule = [500, 1500, 3500, 7500, 11500, 15500, 19500, 23500, 27500, 31500]"

lemma timer_schedules:
  "poll_tx (map (\<lambda>ms. now + millis ms) timer_a_schedule) (client_tx_of now ''INVITE'' what raw dest tp ch) =
     map (resend_of (client_tx_of now ''INVITE'' what raw dest tp ch)) [1, 2, 3, 4, 5, 6]"
  "meth \<noteq> ''INVITE'' \<Longrightarrow>
   poll_tx (map (\<lambda>ms. now + millis ms) timer_e_schedule) (client_tx_of now meth what raw dest tp ch) =
     map (resend_of (client_tx_of now meth what raw dest tp ch)) [1, 2, 3, 4, 5, 6, 7, 8, 9, 10]"
  by (simp_all add: timer_a_schedule_def timer_e_schedule_def client_tx_of_def due_tx_def resend_of_def
      TIMER_T1_def TIMER_T2_def TRANSACTION_TIMEOUT_def millis_def secs_def)



end
