(* ===== verification/Acl_Manager.thy ===== *)
theory Acl_Manager
  imports Net Text
begin

text \<open>
  \<^verbatim>\<open>crates/sbc-core/src/acl.rs\<close>: the address access lists. The \<^verbatim>\<open>ipnetwork\<close> crate is the type
  \<open>'net\<close> of its networks with the arguments \<open>net_parse\<close>, \<open>net_contains\<close> and \<open>net_show\<close>; the clock is
  the argument \<open>wall\<close>.
\<close>

section \<open>Data\<close>

datatype acl_action = AclAllow | AclDeny | AclLog

fun show_action :: "acl_action \<Rightarrow> string" where
  "show_action AclAllow = ''allow''"
| "show_action AclDeny = ''deny''"
| "show_action AclLog = ''log''"

definition parse_action :: "string \<Rightarrow> acl_action result" where
  "parse_action s =
     (let l = to_ascii_lowercase s in
      if l \<in> {''allow'', ''permit'', ''accept''} then Inr AclAllow
      else if l \<in> {''deny'', ''drop'', ''block''} then Inr AclDeny
      else if l \<in> {''log'', ''warn''} then Inr AclLog
      else Inl (ConfigErr (''unknown ACL action: '' @ [CHR 0x27] @ l @ [CHR 0x27])))"

datatype acl_direction = Inbound | Outbound | Both

record 'net acl_rule =
  ar_id :: string
  ar_name :: string
  ar_cidr :: 'net
  ar_action :: acl_action
  ar_priority :: int
  ar_direction :: acl_direction
  ar_enabled :: bool
  ar_comment :: "string option"
  ar_updated_at :: nat

datatype acl_result =
    AclAllowed "string option"
  | AclDenied string string
  | AclLogged string
  | AclDefault bool

fun acl_is_allowed :: "acl_result \<Rightarrow> bool" where
  "acl_is_allowed (AclAllowed _) = True"
| "acl_is_allowed (AclLogged _) = True"
| "acl_is_allowed (AclDefault allowed) = allowed"
| "acl_is_allowed (AclDenied _ _) = False"

record acl_config =
  ac_default_action :: acl_action
  ac_log_denied :: bool
  ac_log_allowed :: bool

definition default_acl_config :: acl_config where
  "default_acl_config = \<lparr>ac_default_action = AclAllow, ac_log_denied = True, ac_log_allowed = False\<rparr>"

definition deny_default :: acl_config where
  "deny_default = default_acl_config\<lparr>ac_default_action := AclDeny\<rparr>"

record acl_stats =
  as_total_checked :: nat
  as_allowed :: nat
  as_denied :: nat
  as_logged :: nat
  as_default_applied :: nat
  as_rule_count :: nat

definition acl_stats_default :: acl_stats where
  "acl_stats_default = \<lparr>as_total_checked = 0, as_allowed = 0, as_denied = 0, as_logged = 0,
     as_default_applied = 0, as_rule_count = 0\<rparr>"

record 'net acl_manager =
  am_config :: acl_config
  am_rules :: "(string, 'net acl_rule) hmap"
  am_stats :: acl_stats

section \<open>Rules\<close>

definition parse_cidr :: "(string \<Rightarrow> string + 'net) \<Rightarrow> string \<Rightarrow> 'net result" where
  "parse_cidr net_parse cidr =
     (case net_parse cidr of
        Inr n \<Rightarrow> Inr n
      | Inl e \<Rightarrow> Inl (ConfigErr (''invalid CIDR '' @ [CHR 0x27] @ cidr @ [CHR 0x27] @ '': '' @ e)))"

definition acl_rule_new ::
  "(string \<Rightarrow> string + 'net) \<Rightarrow> instant \<Rightarrow> string \<Rightarrow> string \<Rightarrow> string \<Rightarrow> acl_action \<Rightarrow> int \<Rightarrow> 'net acl_rule result"
where
  "acl_rule_new net_parse wall i name cidr action priority =
     (case parse_cidr net_parse cidr of
        Inl e \<Rightarrow> Inl e
      | Inr n \<Rightarrow>
          Inr \<lparr>ar_id = i, ar_name = name, ar_cidr = n, ar_action = action, ar_priority = priority,
               ar_direction = Both, ar_enabled = True, ar_comment = None, ar_updated_at = as_secs wall\<rparr>)"

definition rule_matches :: "('net \<Rightarrow> ip_addr \<Rightarrow> bool) \<Rightarrow> 'net acl_rule \<Rightarrow> ip_addr \<Rightarrow> bool" where
  "rule_matches net_contains r ip \<longleftrightarrow> ar_enabled r \<and> net_contains (ar_cidr r) ip"

definition applies_to :: "'net acl_rule \<Rightarrow> acl_direction \<Rightarrow> bool" where
  "applies_to r dir \<longleftrightarrow> ar_direction r = Both \<or> ar_direction r = dir"

definition with_direction :: "acl_direction \<Rightarrow> 'net acl_rule \<Rightarrow> 'net acl_rule" where
  "with_direction dir r = r\<lparr>ar_direction := dir\<rparr>"

definition with_comment :: "string \<Rightarrow> 'net acl_rule \<Rightarrow> 'net acl_rule" where
  "with_comment c r = r\<lparr>ar_comment := Some c\<rparr>"

section \<open>The manager\<close>

definition acl_new :: "acl_config \<Rightarrow> 'net acl_manager" where
  "acl_new cfg = \<lparr>am_config = cfg, am_rules = [], am_stats = acl_stats_default\<rparr>"

definition acl_add_rule :: "'net acl_rule \<Rightarrow> 'net acl_manager \<Rightarrow> 'net acl_manager" where
  "acl_add_rule r m = m\<lparr>am_rules := hm_insert (ar_id r) r (am_rules m)\<rparr>"

definition rule_not_found :: "string \<Rightarrow> sbc_error" where
  "rule_not_found i = ConfigErr (''ACL rule '' @ [CHR 0x27] @ i @ [CHR 0x27] @ '' not found'')"

definition acl_remove_rule :: "string \<Rightarrow> 'net acl_manager \<Rightarrow> unit result \<times> 'net acl_manager" where
  "acl_remove_rule i m =
     (if hm_contains (am_rules m) i then (Inr (), m\<lparr>am_rules := hm_remove i (am_rules m)\<rparr>)
      else (Inl (rule_not_found i), m))"

definition acl_replace_rules :: "'net acl_rule list \<Rightarrow> 'net acl_manager \<Rightarrow> nat \<times> 'net acl_manager" where
  "acl_replace_rules rs m =
     (let tab = fold (\<lambda>r t. hm_insert (ar_id r) r t) rs []
      in (length tab, m\<lparr>am_rules := tab\<rparr>))"

definition set_rule_enabled ::
  "instant \<Rightarrow> string \<Rightarrow> bool \<Rightarrow> 'net acl_manager \<Rightarrow> unit result \<times> 'net acl_manager"
where
  "set_rule_enabled wall i on m =
     (if hm_contains (am_rules m) i
      then (Inr (), m\<lparr>am_rules := hm_modify i (\<lambda>r. r\<lparr>ar_enabled := on, ar_updated_at := as_secs wall\<rparr>) (am_rules m)\<rparr>)
      else (Inl (rule_not_found i), m))"

text \<open>\<^verbatim>\<open>sort_by_key(Reverse(priority))\<close> is the stable sort on the negated priority.\<close>

definition by_priority :: "'net acl_rule list \<Rightarrow> 'net acl_rule list" where
  "by_priority = sort_key (\<lambda>r. - ar_priority r)"

definition result_of :: "'net acl_rule \<Rightarrow> acl_result" where
  "result_of r =
     (case ar_action r of
        AclAllow \<Rightarrow> AclAllowed (Some (ar_id r))
      | AclDeny \<Rightarrow> AclDenied (ar_id r) (case ar_comment r of Some c \<Rightarrow> c | None \<Rightarrow> ar_name r)
      | AclLog \<Rightarrow> AclLogged (ar_id r))"

definition count_match :: "acl_result \<Rightarrow> acl_stats \<Rightarrow> acl_stats" where
  "count_match res s =
     (let s1 = s\<lparr>as_total_checked := as_total_checked s + 1\<rparr>
      in case res of
           AclAllowed _ \<Rightarrow> s1\<lparr>as_allowed := as_allowed s1 + 1\<rparr>
         | AclDenied _ _ \<Rightarrow> s1\<lparr>as_denied := as_denied s1 + 1\<rparr>
         | AclLogged _ \<Rightarrow> s1\<lparr>as_logged := as_logged s1 + 1\<rparr>
         | AclDefault _ \<Rightarrow> s1)"

definition count_default :: "bool \<Rightarrow> acl_stats \<Rightarrow> acl_stats" where
  "count_default allowed s =
     (let s1 = s\<lparr>as_total_checked := as_total_checked s + 1, as_default_applied := as_default_applied s + 1\<rparr>
      in if allowed then s1\<lparr>as_allowed := as_allowed s1 + 1\<rparr> else s1\<lparr>as_denied := as_denied s1 + 1\<rparr>)"

definition acl_check ::
  "('net \<Rightarrow> ip_addr \<Rightarrow> bool) \<Rightarrow> ip_addr \<Rightarrow> acl_direction \<Rightarrow> 'net acl_manager \<Rightarrow> acl_result \<times> 'net acl_manager"
where
  "acl_check net_contains ip dir m =
     (let sorted_rules = by_priority (filter (\<lambda>r. applies_to r dir) (map snd (am_rules m))) in
      case find (\<lambda>r. rule_matches net_contains r ip) sorted_rules of
        Some r \<Rightarrow> (result_of r, m\<lparr>am_stats := count_match (result_of r) (am_stats m)\<rparr>)
      | None \<Rightarrow>
          let allowed = (ac_default_action (am_config m) \<noteq> AclDeny)
          in (AclDefault allowed, m\<lparr>am_stats := count_default allowed (am_stats m)\<rparr>))"

definition acl_rules :: "'net acl_manager \<Rightarrow> 'net acl_rule list" where
  "acl_rules m = by_priority (map snd (am_rules m))"

definition acl_stats_of :: "'net acl_manager \<Rightarrow> acl_stats" where
  "acl_stats_of m = (am_stats m)\<lparr>as_rule_count := length (am_rules m)\<rparr>"

definition reset_stats :: "'net acl_manager \<Rightarrow> 'net acl_manager" where
  "reset_stats m = m\<lparr>am_stats := acl_stats_default\<rparr>"

definition acl_set_default_action :: "acl_action \<Rightarrow> 'net acl_manager \<Rightarrow> 'net acl_manager" where
  "acl_set_default_action a m = m\<lparr>am_config := (am_config m)\<lparr>ac_default_action := a\<rparr>\<rparr>"

text \<open>\<^verbatim>\<open>parse::<i32>()\<close>\<close>

definition parse_i32 :: "string \<Rightarrow> int option" where
  "parse_i32 s =
     (case s of
        [] \<Rightarrow> None
      | c # cs \<Rightarrow>
          if c = CHR ''-'' then
            (case (if cs \<noteq> [] \<and> hd cs \<noteq> CHR ''+'' then parse_uint 2147483648 cs else None) of
               Some n \<Rightarrow> Some (- int n) | None \<Rightarrow> None)
          else map_option int (parse_uint 2147483647 s))"

text \<open>One line of the text format; a rule loaded before a bad line stays.\<close>

fun load_lines ::
  "(string \<Rightarrow> string + 'net) \<Rightarrow> instant \<Rightarrow> nat \<Rightarrow> string list \<Rightarrow> 'net acl_manager \<Rightarrow> nat result \<times> 'net acl_manager"
where
  "load_lines net_parse wall count [] m = (Inr count, m)"
| "load_lines net_parse wall count (line0 # rest) m =
     (let line = trim line0 in
      if line = [] \<or> starts_with line ''#'' then load_lines net_parse wall count rest m
      else case splitn 5 CHR ''|'' line of
             [i, name, cidr, action_str, prio_str] \<Rightarrow>
               (case parse_action action_str of
                  Inl e \<Rightarrow> (Inl e, m)
                | Inr action \<Rightarrow>
                    (case parse_i32 (trim prio_str) of
                       None \<Rightarrow> (Inl (ConfigErr (''invalid priority: '' @ prio_str)), m)
                     | Some priority \<Rightarrow>
                         (case acl_rule_new net_parse wall (trim i) (trim name) (trim cidr) action priority of
                            Inl e \<Rightarrow> (Inl e, m)
                          | Inr r \<Rightarrow> load_lines net_parse wall (count + 1) rest (acl_add_rule r m))))
           | _ \<Rightarrow> load_lines net_parse wall count rest m)"

definition load_from_text ::
  "(string \<Rightarrow> string + 'net) \<Rightarrow> instant \<Rightarrow> string \<Rightarrow> 'net acl_manager \<Rightarrow> nat result \<times> 'net acl_manager"
where
  "load_from_text net_parse wall txt m = load_lines net_parse wall 0 (lines txt) m"

definition show_int :: "int \<Rightarrow> string" where
  "show_int z = (if z < 0 then ''-'' @ show_nat (nat (- z)) else show_nat (nat z))"

definition export_line :: "('net \<Rightarrow> string) \<Rightarrow> 'net acl_rule \<Rightarrow> string" where
  "export_line net_show r =
     ar_id r @ ''|'' @ ar_name r @ ''|'' @ net_show (ar_cidr r) @ ''|'' @ show_action (ar_action r)
     @ ''|'' @ show_int (ar_priority r)"

definition export_to_text :: "('net \<Rightarrow> string) \<Rightarrow> 'net acl_manager \<Rightarrow> string" where
  "export_to_text net_show m = join_with [LF] (map (export_line net_show) (acl_rules m))"

definition block_rule_id :: "ip_addr \<Rightarrow> string" where
  "block_rule_id ip = ''block-'' @ ip_to_string ip"

definition block_ip ::
  "(string \<Rightarrow> string + 'net) \<Rightarrow> ('net \<Rightarrow> string) \<Rightarrow> instant \<Rightarrow> ip_addr \<Rightarrow> string \<Rightarrow> 'net acl_manager \<Rightarrow>
   unit result \<times> 'net acl_manager"
where
  "block_ip net_parse net_show wall ip reason m =
     (case (case net_parse (ip_to_string ip @ ''/128'') of
              Inr n \<Rightarrow> Inr n | Inl _ \<Rightarrow> net_parse (ip_to_string ip @ ''/32'')) of
        Inl e \<Rightarrow> (Inl (ConfigErr (''invalid IP '' @ ip_to_string ip @ '': '' @ e)), m)
      | Inr n \<Rightarrow>
          (case acl_rule_new net_parse wall (block_rule_id ip) reason (net_show n) AclDeny 1000 of
             Inl e \<Rightarrow> (Inl e, m)
           | Inr r \<Rightarrow> (Inr (), acl_add_rule (r\<lparr>ar_comment := Some reason\<rparr>) m)))"

definition unblock_ip :: "ip_addr \<Rightarrow> 'net acl_manager \<Rightarrow> unit result \<times> 'net acl_manager" where
  "unblock_ip ip m = acl_remove_rule (block_rule_id ip) m"

section \<open>The decision\<close>

definition matching :: "('net \<Rightarrow> ip_addr \<Rightarrow> bool) \<Rightarrow> ip_addr \<Rightarrow> acl_direction \<Rightarrow> 'net acl_manager \<Rightarrow> 'net acl_rule list" where
  "matching net_contains ip dir m =
     filter (\<lambda>r. applies_to r dir \<and> rule_matches net_contains r ip) (map snd (am_rules m))"

definition decide :: "'net acl_rule list \<Rightarrow> bool \<Rightarrow> acl_result" where
  "decide rs dflt = (case by_priority rs of [] \<Rightarrow> AclDefault dflt | r # _ \<Rightarrow> result_of r)"

lemma acl_check_decide:
  "fst (acl_check net_contains ip dir m) =
     decide (matching net_contains ip dir m) (ac_default_action (am_config m) \<noteq> AclDeny)"
proof -
  have "filter (\<lambda>r. rule_matches net_contains r ip)
      (by_priority (filter (\<lambda>r. applies_to r dir) (map snd (am_rules m)))) =
      by_priority (matching net_contains ip dir m)"
    by (simp add: by_priority_def filter_sort matching_def conj_commute)
  then show ?thesis
    by (simp add: acl_check_def Let_def find_filter_head decide_def split: list.split)
qed

definition balanced :: "acl_stats \<Rightarrow> bool" where
  "balanced s \<longleftrightarrow> as_total_checked s = as_allowed s + as_denied s + as_logged s"

lemma decide_top:
  assumes "rs \<noteq> []"
  shows "\<exists>r \<in> set rs. (\<forall>q \<in> set rs. ar_priority q \<le> ar_priority r) \<and> decide rs dflt = result_of r"
proof (cases "by_priority rs")
  case Nil
  with assms show ?thesis by (simp add: by_priority_def)
next
  case (Cons r rest)
  with sort_key_Cons_head [of "\<lambda>r. - ar_priority r" rs r rest] show ?thesis
    by (auto simp: decide_def by_priority_def)
qed

text \<open>
  The access list decides by the highest priority: a packet gets the action of a rule that is
  enabled, covers its address and its direction, and has no rival of higher priority; without any
  such rule it gets the default. Every check is counted once as allowed, denied or logged.
\<close>

theorem acl_highest_priority_decides:
  assumes "balanced (am_stats m)"
  shows "(if matching net_contains ip dir m = []
          then fst (acl_check net_contains ip dir m) = AclDefault (ac_default_action (am_config m) \<noteq> AclDeny)
          else \<exists>r \<in> set (matching net_contains ip dir m).
            (\<forall>q \<in> set (matching net_contains ip dir m). ar_priority q \<le> ar_priority r) \<and>
            fst (acl_check net_contains ip dir m) = result_of r) \<and>
         balanced (am_stats (snd (acl_check net_contains ip dir m))) \<and>
         as_total_checked (am_stats (snd (acl_check net_contains ip dir m))) = as_total_checked (am_stats m) + 1 \<and>
         am_rules (snd (acl_check net_contains ip dir m)) = am_rules m"
proof -
  have "balanced (am_stats (snd (acl_check net_contains ip dir m))) \<and>
      as_total_checked (am_stats (snd (acl_check net_contains ip dir m))) = as_total_checked (am_stats m) + 1 \<and>
      am_rules (snd (acl_check net_contains ip dir m)) = am_rules m"
    using assms
    by (simp add: acl_check_def Let_def balanced_def count_match_def count_default_def result_of_def
        split: option.split acl_action.split)
  moreover have d: "decide [] b = AclDefault b" for b by (simp add: decide_def by_priority_def)
  ultimately show ?thesis
    using decide_top [of "matching net_contains ip dir m" "ac_default_action (am_config m) \<noteq> AclDeny"]
    by (cases "matching net_contains ip dir m = []") (simp_all add: acl_check_decide d)
qed

text \<open>Networks as single addresses, the smallest stand-in for \<^verbatim>\<open>ipnetwork\<close>.\<close>

definition host_parse :: "string \<Rightarrow> string + ip_addr" where
  "host_parse s =
     (case split_once CHR ''/'' s of
        None \<Rightarrow> (case parse_ip s of None \<Rightarrow> Inl ''bad'' | Some ip \<Rightarrow> Inr ip)
      | Some (a, b) \<Rightarrow>
          (case parse_ip a of
             Some (V4 w x y z) \<Rightarrow> if b = ''32'' then Inr (V4 w x y z) else Inl ''bad''
           | Some (V6 segs) \<Rightarrow> if b = ''128'' then Inr (V6 segs) else Inl ''bad''
           | None \<Rightarrow> Inl ''bad''))"

theorem acl_highest_priority_decides_witness:
  "fst (acl_check (=) (V4 10 0 0 9) Inbound (acl_new deny_default)) = AclDefault False"
  using acl_highest_priority_decides [of "acl_new deny_default" "(=)" "V4 10 0 0 9" Inbound]
  by (simp add: acl_new_def acl_stats_default_def balanced_def matching_def deny_default_def)

section \<open>Blocking an address\<close>

lemma matching_add_other:
  assumes "hm_get (am_rules m) (ar_id r) = None" and "\<not> rule_matches net_contains r ip"
  shows "matching net_contains ip dir (acl_add_rule r m) = matching net_contains ip dir m"
proof -
  have "hm_insert (ar_id r) r tab = tab @ [(ar_id r, r)]" if "hm_get tab (ar_id r) = None" for tab
    using that by (induction tab) (auto simp: hm_insert_def split: if_splits)
  with assms show ?thesis by (simp add: matching_def acl_add_rule_def)
qed

lemma matching_add_this:
  assumes "hm_ok (am_rules m)" and "applies_to r dir" and "rule_matches net_contains r ip"
  shows "r \<in> set (matching net_contains ip dir (acl_add_rule r m)) \<and>
     set (matching net_contains ip dir (acl_add_rule r m)) \<subseteq> insert r (set (matching net_contains ip dir m))"
proof -
  have ins: "snd ` set (hm_insert k v tab) \<subseteq> insert v (snd ` set tab)" "v \<in> snd ` set (hm_insert k v tab)"
    for k :: string and v :: "'a acl_rule" and tab
    by (induction tab) (auto simp: hm_insert_def split: if_splits)
  from ins [where k = "ar_id r" and v = r and tab = "am_rules m"] assms(2,3) show ?thesis
    by (auto simp: matching_def acl_add_rule_def)
qed

text \<open>
  Blocking an address works: if the network crate reads an address with its full prefix length
  as the network of that address alone and reads back what it shows, then after \<^verbatim>\<open>block_ip\<close> every
  packet of that address is denied with the given reason unless a rule of priority 1000 or more
  says otherwise, no other address is treated differently, and \<^verbatim>\<open>unblock_ip\<close> restores the rules.
\<close>

theorem block_ip_blocks_exactly:
  assumes "hm_ok (am_rules m)" and "hm_get (am_rules m) (block_rule_id ip) = None"
    and host: "net_parse (ip_to_string ip @ ''/128'') = Inr n \<or>
       (\<exists>e. net_parse (ip_to_string ip @ ''/128'') = Inl e) \<and> net_parse (ip_to_string ip @ ''/32'') = Inr n"
    and only: "\<And>x. net_contains n x \<longleftrightarrow> x = ip"
    and shown: "net_parse (net_show n) = Inr n"
    and top: "\<forall>q \<in> set (matching net_contains ip dir m). ar_priority q < 1000"
  shows "\<exists>m'. block_ip net_parse net_show wall ip reason m = (Inr (), m') \<and>
     fst (acl_check net_contains ip dir m') = AclDenied (block_rule_id ip) reason \<and>
     (other \<noteq> ip \<longrightarrow> fst (acl_check net_contains other dir m') = fst (acl_check net_contains other dir m)) \<and>
     unblock_ip ip m' = (Inr (), m)"
proof -
  define r where "r = \<lparr>ar_id = block_rule_id ip, ar_name = reason, ar_cidr = n, ar_action = AclDeny,
    ar_priority = 1000, ar_direction = Both, ar_enabled = True, ar_comment = Some reason,
    ar_updated_at = as_secs wall\<rparr>"
  have b: "block_ip net_parse net_show wall ip reason m = (Inr (), acl_add_rule r m)"
    using host shown by (auto simp: block_ip_def acl_rule_new_def parse_cidr_def r_def)
  have r: "ar_id r = block_rule_id ip" "applies_to r dir" "rule_matches net_contains r ip"
    "other \<noteq> ip \<Longrightarrow> \<not> rule_matches net_contains r other" "ar_priority r = 1000"
    "result_of r = AclDenied (block_rule_id ip) reason"
    using only by (simp_all add: r_def applies_to_def rule_matches_def result_of_def)
  have denied: "fst (acl_check net_contains ip dir (acl_add_rule r m)) = AclDenied (block_rule_id ip) reason"
  proof -
    note add = matching_add_this [OF assms(1) r(2,3)]
    then have "matching net_contains ip dir (acl_add_rule r m) \<noteq> []" by auto
    from decide_top [OF this] obtain q where q: "q \<in> set (matching net_contains ip dir (acl_add_rule r m))"
      "ar_priority r \<le> ar_priority q"
      "fst (acl_check net_contains ip dir (acl_add_rule r m)) = result_of q"
      unfolding acl_check_decide using add by blast
    with add top r(5) have "q = r" by fastforce
    with q r(6) show ?thesis by simp
  qed
  have same: "fst (acl_check net_contains other dir (acl_add_rule r m)) = fst (acl_check net_contains other dir m)"
    if "other \<noteq> ip"
    using matching_add_other [of m r net_contains other dir] assms(2) r(1) r(4) [OF that]
    by (simp add: acl_check_decide acl_add_rule_def)
  have "unblock_ip ip (acl_add_rule r m) = (Inr (), m)"
  proof -
    have ins: "hm_insert k v tab = tab @ [(k, v)]" if "hm_get tab k = None" for k :: string and v :: "'a acl_rule" and tab
      using that by (induction tab) (auto simp: hm_insert_def split: if_splits)
    have "hm_remove k (tab @ [(k, v)]) = tab" if "hm_get tab k = None"
      for k :: string and v :: "'a acl_rule" and tab
      using that by (induction tab) (auto simp: hm_remove_def split: if_splits)
    with assms(2) show ?thesis
      by (simp add: unblock_ip_def acl_remove_rule_def acl_add_rule_def r(1) ins hm_contains_def)
  qed
  with b denied same show ?thesis by blast
qed

theorem block_ip_blocks_exactly_witness:
  "\<exists>m'. block_ip host_parse ip_to_string 0 (V4 10 0 0 9) ''spam'' (acl_new default_acl_config) = (Inr (), m') \<and>
     fst (acl_check (=) (V4 10 0 0 9) Inbound m') = AclDenied (block_rule_id (V4 10 0 0 9)) ''spam''"
proof -
  have s: "show_v4 10 0 0 9 = ''10.0.0.9''"
    by (simp add: show_v4_def show_nat_def show_base.simps digit_char_def char_of_def bit_0)
  have p: "parse_ip ''10.0.0.9'' = Some (V4 10 0 0 9)"
    by (simp add: parse_ip_def read_ip_def read_ipv4_def read_octet_def read_dot_octet_def read_number_def
        is_digit_of_def digit_value_def digits_value_def Let_def)
  have "host_parse (ip_to_string (V4 10 0 0 9) @ ''/128'') = Inl ''bad''"
    "host_parse (ip_to_string (V4 10 0 0 9) @ ''/32'') = Inr (V4 10 0 0 9)"
    "host_parse (ip_to_string (V4 10 0 0 9)) = Inr (V4 10 0 0 9)"
    by (simp_all add: s host_parse_def p)
  with block_ip_blocks_exactly [of "acl_new default_acl_config" "V4 10 0 0 9" host_parse "V4 10 0 0 9"
      "(=)" ip_to_string Inbound 0 "''spam''" "V4 10 0 0 2"]
  show ?thesis by (auto simp: acl_new_def matching_def)
qed

text \<open>
  The text form forgets. A disabled rule that is exported and loaded again is enabled: its
  address, denied by nothing before, is denied afterwards.
\<close>

theorem export_reenables_rules:
  "\<exists>m m'. fst (acl_check (=) (V4 10 0 0 9) Inbound m) = AclDefault True \<and>
     load_from_text host_parse 0 (export_to_text ip_to_string m) (acl_new default_acl_config) = (Inr 1, m') \<and>
     \<not> acl_is_allowed (fst (acl_check (=) (V4 10 0 0 9) Inbound m'))"
proof -
  let ?r = "\<lparr>ar_id = ''r'', ar_name = ''n'', ar_cidr = V4 10 0 0 9, ar_action = AclDeny, ar_priority = 7,
      ar_direction = Both, ar_enabled = False, ar_comment = None, ar_updated_at = 0\<rparr>"
  let ?m = "acl_add_rule ?r (acl_new default_acl_config)"
  have s: "show_v4 10 0 0 9 = ''10.0.0.9''" "show_nat 7 = ''7''"
    by (simp_all add: show_v4_def show_nat_def show_base.simps digit_char_def char_of_def bit_0)
  have p: "parse_ip ''10.0.0.9'' = Some (V4 10 0 0 9)"
    by (simp add: parse_ip_def read_ip_def read_ipv4_def read_octet_def read_dot_octet_def read_number_def
        is_digit_of_def digit_value_def digits_value_def Let_def)
  have e: "export_to_text ip_to_string ?m = ''r|n|10.0.0.9|deny|7''"
    by (simp add: export_to_text_def acl_rules_def by_priority_def acl_add_rule_def acl_new_def hm_insert_def
        export_line_def s show_int_def)
  have t: "trim ''r|n|10.0.0.9|deny|7'' = ''r|n|10.0.0.9|deny|7''" "trim ''r'' = ''r''" "trim ''n'' = ''n''"
    "trim ''10.0.0.9'' = ''10.0.0.9''" "trim ''7'' = ''7''"
    by (simp_all add: trim_id is_space_def)
  have sp: "splitn 5 CHR ''|'' ''r|n|10.0.0.9|deny|7'' = [''r'', ''n'', ''10.0.0.9'', ''deny'', ''7'']"
    by (simp add: numeral_eq_Suc)
  have act: "parse_action ''deny'' = Inr AclDeny" "parse_i32 ''7'' = Some 7"
    by (simp_all add: parse_action_def to_ascii_lowercase_def lower_char_def parse_i32_def parse_uint_def
        is_ascii_digit_def digits_value_def digit_value_def)
  have l: "load_from_text host_parse 0 ''r|n|10.0.0.9|deny|7'' (acl_new default_acl_config) =
      (Inr 1, acl_add_rule (?r\<lparr>ar_enabled := True\<rparr>) (acl_new default_acl_config))"
    by (simp add: load_from_text_def lines_last t starts_with_def sp act acl_rule_new_def parse_cidr_def
        host_parse_def p as_secs_def)
  have c: "fst (acl_check (=) (V4 10 0 0 9) Inbound ?m) = AclDefault True"
    "\<not> acl_is_allowed (fst (acl_check (=) (V4 10 0 0 9) Inbound
        (acl_add_rule (?r\<lparr>ar_enabled := True\<rparr>) (acl_new default_acl_config))))"
    by (simp_all add: acl_check_decide decide_def by_priority_def matching_def acl_add_rule_def acl_new_def
        hm_insert_def rule_matches_def applies_to_def default_acl_config_def result_of_def)
  from e l c show ?thesis by metis
qed

end
