(* ===== verification/Dos_Protector.thy ===== *)
theory Dos_Protector
  imports Complex_Main Net
begin

text \<open>
  \<^verbatim>\<open>crates/sbc-core/src/dos.rs\<close>: a token bucket per source address with escalation to a temporary
  blacklist. Tokens are \<^verbatim>\<open>f64\<close> values, which are rationals; every float operation is the rational one
  followed by \<open>rnd\<close>, the rounding to the nearest float. The laws of rounding that proofs use are
  \<open>float_rounding\<close>. One clock reading per operation.
\<close>

section \<open>Data\<close>

definition MAX_TRACKED_IPS :: nat where "MAX_TRACKED_IPS = 100000"

record rate_limit_config =
  rc_requests_per_second :: nat
  rc_burst_size :: nat
  rc_blacklist_duration_secs :: nat
  rc_violations_before_blacklist :: nat
  rc_cleanup_after_secs :: nat

definition default_rate_limit_config :: rate_limit_config where
  "default_rate_limit_config =
     \<lparr>rc_requests_per_second = 50, rc_burst_size = 100, rc_blacklist_duration_secs = 300,
      rc_violations_before_blacklist = 10, rc_cleanup_after_secs = 600\<rparr>"

definition strict :: rate_limit_config where
  "strict =
     \<lparr>rc_requests_per_second = 10, rc_burst_size = 20, rc_blacklist_duration_secs = 600,
      rc_violations_before_blacklist = 5, rc_cleanup_after_secs = 300\<rparr>"

definition permissive :: rate_limit_config where
  "permissive =
     \<lparr>rc_requests_per_second = 200, rc_burst_size = 500, rc_blacklist_duration_secs = 60,
      rc_violations_before_blacklist = 50, rc_cleanup_after_secs = 1800\<rparr>"

record ip_state =
  ips_tokens :: rat
  ips_last_refill :: instant
  ips_violations :: nat
  ips_blacklisted_until :: "instant option"
  ips_last_seen :: instant

datatype rate_limit_result =
    DosAllowed
  | DosRateLimited nat
  | DosBlacklisted nat
  | DosWhitelisted

fun dos_is_allowed :: "rate_limit_result \<Rightarrow> bool" where
  "dos_is_allowed DosAllowed = True"
| "dos_is_allowed DosWhitelisted = True"
| "dos_is_allowed _ = False"

record dos_stats =
  dst_total_allowed :: nat
  dst_total_blocked :: nat
  dst_total_blacklisted :: nat
  dst_active_tracked_ips :: nat
  dst_blacklisted_ips :: nat

record dos_protector =
  dp_config :: rate_limit_config
  dp_ip_states :: "(ip_addr, ip_state) hmap"
  dp_whitelist :: "ip_addr list"
  dp_allowed_count :: nat
  dp_blocked_count :: nat
  dp_blacklisted_count :: nat

section \<open>One address\<close>

definition ip_state_new :: "instant \<Rightarrow> nat \<Rightarrow> ip_state" where
  "ip_state_new now burst_size =
     \<lparr>ips_tokens = of_nat burst_size, ips_last_refill = now, ips_violations = 0,
      ips_blacklisted_until = None, ips_last_seen = now\<rparr>"

text \<open>\<^verbatim>\<open>Duration::as_secs_f64\<close>\<close>

definition as_secs_f64 :: "(rat \<Rightarrow> rat) \<Rightarrow> duration \<Rightarrow> rat" where
  "as_secs_f64 rnd d =
     rnd (rnd (of_nat (d div 1000000000)) + rnd (of_nat (d mod 1000000000) / 1000000000))"

definition refill :: "(rat \<Rightarrow> rat) \<Rightarrow> instant \<Rightarrow> rat \<Rightarrow> rat \<Rightarrow> ip_state \<Rightarrow> ip_state" where
  "refill rnd now rate burst s =
     (let elapsed = as_secs_f64 rnd (now - ips_last_refill s)
      in s\<lparr>ips_tokens := min (rnd (ips_tokens s + rnd (elapsed * rate))) burst,
           ips_last_refill := now, ips_last_seen := now\<rparr>)"

definition is_blacklisted :: "instant \<Rightarrow> ip_state \<Rightarrow> bool \<times> ip_state" where
  "is_blacklisted now s =
     (case ips_blacklisted_until s of
        Some until \<Rightarrow>
          if now < until then (True, s)
          else (False, s\<lparr>ips_blacklisted_until := None, ips_violations := 0\<rparr>)
      | None \<Rightarrow> (False, s))"

definition consume :: "(rat \<Rightarrow> rat) \<Rightarrow> ip_state \<Rightarrow> bool \<times> ip_state" where
  "consume rnd s =
     (if 1 \<le> ips_tokens s then (True, s\<lparr>ips_tokens := rnd (ips_tokens s - 1)\<rparr>) else (False, s))"

section \<open>The protector\<close>

definition dos_new_with_whitelist :: "rate_limit_config \<Rightarrow> ip_addr list \<Rightarrow> dos_protector" where
  "dos_new_with_whitelist cfg wl =
     \<lparr>dp_config = cfg, dp_ip_states = [], dp_whitelist = wl, dp_allowed_count = 0,
      dp_blocked_count = 0, dp_blacklisted_count = 0\<rparr>"

definition dos_new :: "rate_limit_config \<Rightarrow> dos_protector" where
  "dos_new cfg = dos_new_with_whitelist cfg []"

definition dos_set_config :: "rate_limit_config \<Rightarrow> dos_protector \<Rightarrow> dos_protector" where
  "dos_set_config cfg p = p\<lparr>dp_config := cfg\<rparr>"

definition idle_kept :: "instant \<Rightarrow> duration \<Rightarrow> ip_state \<Rightarrow> bool" where
  "idle_kept now max_age s \<longleftrightarrow> ips_blacklisted_until s \<noteq> None \<or> now - ips_last_seen s < max_age"

definition evict_idle ::
  "instant \<Rightarrow> duration \<Rightarrow> (ip_addr, ip_state) hmap \<Rightarrow> nat \<times> (ip_addr, ip_state) hmap"
where
  "evict_idle now max_age states =
     (let kept = hm_retain (\<lambda>_ s. idle_kept now max_age s) states
      in (length states - length kept, kept))"

definition enforce_cap ::
  "instant \<Rightarrow> rate_limit_config \<Rightarrow> (ip_addr, ip_state) hmap \<Rightarrow> (ip_addr, ip_state) hmap"
where
  "enforce_cap now cfg states =
     (if length states < MAX_TRACKED_IPS then states
      else
        let max_age = secs (rc_cleanup_after_secs cfg);
            s1 = snd (evict_idle now (max_age div 4) states);
            s2 = (if MAX_TRACKED_IPS \<le> length s1 then snd (evict_idle now (secs 10) s1) else s1)
        in if MAX_TRACKED_IPS \<le> length s2
           then hm_retain (\<lambda>_ s. ips_blacklisted_until s \<noteq> None) s2 else s2)"

definition check_state ::
  "(rat \<Rightarrow> rat) \<Rightarrow> rate_limit_config \<Rightarrow> instant \<Rightarrow> ip_state \<Rightarrow> rate_limit_result \<times> ip_state"
where
  "check_state rnd cfg now s0 =
     (let s1 = refill rnd now (of_nat (rc_requests_per_second cfg)) (of_nat (rc_burst_size cfg)) s0;
          (black, s2) = is_blacklisted now s1
      in if black
         then (DosBlacklisted (case ips_blacklisted_until s2 of Some t \<Rightarrow> as_secs (t - now) | None \<Rightarrow> 0), s2)
         else
           let (ok, s3) = consume rnd s2
           in if ok then (DosAllowed, s3)
              else
                let v = incr32 (ips_violations s3);
                    s4 = s3\<lparr>ips_violations := v\<rparr>
                in (DosRateLimited v,
                    if rc_violations_before_blacklist cfg \<le> v
                    then s4\<lparr>ips_blacklisted_until := Some (now + secs (rc_blacklist_duration_secs cfg))\<rparr>
                    else s4))"

definition count_result :: "rate_limit_result \<Rightarrow> dos_protector \<Rightarrow> dos_protector" where
  "count_result r p =
     (case r of
        DosAllowed \<Rightarrow> p\<lparr>dp_allowed_count := incr64 (dp_allowed_count p)\<rparr>
      | DosWhitelisted \<Rightarrow> p\<lparr>dp_allowed_count := incr64 (dp_allowed_count p)\<rparr>
      | DosBlacklisted _ \<Rightarrow> p\<lparr>dp_blacklisted_count := incr64 (dp_blacklisted_count p)\<rparr>
      | DosRateLimited _ \<Rightarrow> p\<lparr>dp_blocked_count := incr64 (dp_blocked_count p)\<rparr>)"

definition state_of :: "instant \<Rightarrow> ip_addr \<Rightarrow> rate_limit_config \<Rightarrow> (ip_addr, ip_state) hmap \<Rightarrow> ip_state" where
  "state_of now addr cfg states =
     (case hm_get states addr of Some s \<Rightarrow> s | None \<Rightarrow> ip_state_new now (rc_burst_size cfg))"

definition dos_check ::
  "(rat \<Rightarrow> rat) \<Rightarrow> instant \<Rightarrow> ip_addr \<Rightarrow> dos_protector \<Rightarrow> rate_limit_result \<times> dos_protector"
where
  "dos_check rnd now addr p =
     (if addr \<in> set (dp_whitelist p) then (DosWhitelisted, count_result DosWhitelisted p)
      else
        let cfg = dp_config p;
            states = (if hm_contains (dp_ip_states p) addr then dp_ip_states p
                      else enforce_cap now cfg (dp_ip_states p));
            (r, s) = check_state rnd cfg now (state_of now addr cfg states)
        in (r, count_result r (p\<lparr>dp_ip_states := hm_insert addr s states\<rparr>)))"

definition blacklist_ip :: "instant \<Rightarrow> ip_addr \<Rightarrow> nat \<Rightarrow> dos_protector \<Rightarrow> dos_protector" where
  "blacklist_ip now addr duration_secs p =
     p\<lparr>dp_ip_states := hm_insert addr
         ((state_of now addr (dp_config p) (dp_ip_states p))\<lparr>ips_blacklisted_until := Some (now + secs duration_secs)\<rparr>)
         (dp_ip_states p)\<rparr>"

definition unblacklist_ip :: "ip_addr \<Rightarrow> dos_protector \<Rightarrow> dos_protector" where
  "unblacklist_ip addr p =
     p\<lparr>dp_ip_states := hm_modify addr (\<lambda>s. s\<lparr>ips_blacklisted_until := None, ips_violations := 0\<rparr>) (dp_ip_states p)\<rparr>"

definition dos_cleanup_expired :: "instant \<Rightarrow> dos_protector \<Rightarrow> nat \<times> dos_protector" where
  "dos_cleanup_expired now p =
     (let (removed, states) = evict_idle now (secs (rc_cleanup_after_secs (dp_config p))) (dp_ip_states p)
      in (removed, p\<lparr>dp_ip_states := states\<rparr>))"

definition tracked_ips :: "dos_protector \<Rightarrow> nat" where
  "tracked_ips p = length (dp_ip_states p)"

definition still_black :: "instant \<Rightarrow> ip_state \<Rightarrow> bool" where
  "still_black now s \<longleftrightarrow> (case ips_blacklisted_until s of Some t \<Rightarrow> now < t | None \<Rightarrow> False)"

definition dos_stats_of :: "instant \<Rightarrow> dos_protector \<Rightarrow> dos_stats" where
  "dos_stats_of now p =
     \<lparr>dst_total_allowed = dp_allowed_count p, dst_total_blocked = dp_blocked_count p,
      dst_total_blacklisted = dp_blacklisted_count p, dst_active_tracked_ips = length (dp_ip_states p),
      dst_blacklisted_ips = length (filter (\<lambda>(_, s). still_black now s) (dp_ip_states p))\<rparr>"

definition blacklisted_ips :: "instant \<Rightarrow> dos_protector \<Rightarrow> (ip_addr \<times> nat) list" where
  "blacklisted_ips now p =
     List.map_filter (\<lambda>(ip, s). case ips_blacklisted_until s of
         Some t \<Rightarrow> if now < t then Some (ip, as_secs (t - now)) else None | None \<Rightarrow> None) (dp_ip_states p)"

section \<open>The burst\<close>

text \<open>Rounding to a float is monotone and exact on the integers a float can hold.\<close>

definition float_rounding :: "(rat \<Rightarrow> rat) \<Rightarrow> bool" where
  "float_rounding rnd \<longleftrightarrow>
     (\<forall>x y. x \<le> y \<longrightarrow> rnd x \<le> rnd y) \<and> (\<forall>n. n \<le> 2 ^ 53 \<longrightarrow> rnd (of_nat n) = of_nat n)"

lemma rounding_le:
  assumes "float_rounding rnd" and "x \<le> of_nat n" and "n \<le> 2 ^ 53"
  shows "rnd x \<le> of_nat n"
  using assms unfolding float_rounding_def by metis

lemma rounding_ge:
  assumes "float_rounding rnd" and "of_nat n \<le> x" and "n \<le> 2 ^ 53"
  shows "of_nat n \<le> rnd x"
  using assms unfolding float_rounding_def by metis

lemma as_secs_f64_zero: "float_rounding rnd \<Longrightarrow> as_secs_f64 rnd 0 = 0"
  unfolding float_rounding_def as_secs_f64_def
  by (metis add_0 div_0 mod_0 of_nat_0 zero_le_power div_by_0 zero_le divide_eq_0_iff)

lemma refill_tokens_le: "ips_tokens (refill rnd now rate burst s) \<le> burst"
  by (simp add: refill_def)

lemma refill_same_instant:
  assumes "float_rounding rnd" "ips_last_refill s = now" "ips_tokens s \<le> of_nat k" "k \<le> 2 ^ 53"
  shows "ips_tokens (refill rnd now rate burst s) \<le> of_nat k"
proof -
  have "rnd 0 = 0" using assms(1) unfolding float_rounding_def by (metis of_nat_0 zero_le)
  then have "rnd (ips_tokens s + rnd (as_secs_f64 rnd 0 * rate)) \<le> of_nat k"
    using rounding_le [OF assms(1) _ assms(4)] assms(3) by (simp add: as_secs_f64_zero [OF assms(1)])
  then show ?thesis by (simp add: refill_def assms(2) min_le_iff_disj)
qed

lemma refill_other_fields [simp]:
  "ips_last_refill (refill rnd now rate burst s) = now"
  "ips_violations (refill rnd now rate burst s) = ips_violations s"
  "ips_blacklisted_until (refill rnd now rate burst s) = ips_blacklisted_until s"
  by (simp_all add: refill_def)

lemma is_blacklisted_bucket:
  "ips_tokens (snd (is_blacklisted now s)) = ips_tokens s"
  "ips_last_refill (snd (is_blacklisted now s)) = ips_last_refill s"
  by (simp_all add: is_blacklisted_def split: option.splits)

text \<open>A request never leaves more tokens than the refilled bucket held, and an allowed one takes one.\<close>

lemma check_state_spends:
  assumes "float_rounding rnd" and "k \<le> 2 ^ 53"
    and "ips_tokens (refill rnd now (of_nat (rc_requests_per_second cfg)) (of_nat (rc_burst_size cfg)) s) \<le> of_nat k"
    and "check_state rnd cfg now s = (r, s')"
  shows "ips_last_refill s' = now \<and>
     (if r = DosAllowed then 0 < k \<and> ips_tokens s' \<le> of_nat (k - 1) else ips_tokens s' \<le> of_nat k)"
proof -
  let ?s1 = "refill rnd now (of_nat (rc_requests_per_second cfg)) (of_nat (rc_burst_size cfg)) s"
  obtain b s2 where b: "is_blacklisted now ?s1 = (b, s2)" by fastforce
  have s2: "ips_tokens s2 \<le> of_nat k" "ips_last_refill s2 = now"
    using is_blacklisted_bucket [of now ?s1] assms(3) by (simp_all add: b)
  show ?thesis
  proof (cases "\<not> b \<and> 1 \<le> ips_tokens s2")
    case True
    then have "(1::rat) \<le> of_nat k" using s2 by linarith
    then have k: "0 < k" by (cases k) simp_all
    then have "ips_tokens s2 - 1 \<le> of_nat (k - 1)" using s2 by (simp add: of_nat_diff)
    then have "rnd (ips_tokens s2 - 1) \<le> of_nat (k - 1)"
      using rounding_le [OF assms(1)] assms(2) by simp
    moreover have "r = DosAllowed" "s' = s2\<lparr>ips_tokens := rnd (ips_tokens s2 - 1)\<rparr>"
      using assms(4) True by (simp_all add: check_state_def b consume_def)
    ultimately show ?thesis using s2 k by simp
  next
    case False
    then show ?thesis using assms(4) s2
      by (auto simp: check_state_def b consume_def Let_def split: if_splits)
  qed
qed

text \<open>Requests of any addresses in any order, all at one instant.\<close>

fun dos_run :: "(rat \<Rightarrow> rat) \<Rightarrow> instant \<Rightarrow> ip_addr list \<Rightarrow> dos_protector \<Rightarrow> rate_limit_result list \<times> dos_protector" where
  "dos_run rnd now [] p = ([], p)"
| "dos_run rnd now (a # as) p =
     (let (r, p1) = dos_check rnd now a p; (rs, p2) = dos_run rnd now as p1 in (r # rs, p2))"

definition allowed_of :: "ip_addr \<Rightarrow> ip_addr list \<Rightarrow> rate_limit_result list \<Rightarrow> nat" where
  "allowed_of a as rs = length (filter (\<lambda>(b, r). b = a \<and> dos_is_allowed r) (zip as rs))"

text \<open>\<open>k\<close> bounds what the address may still spend at this instant.\<close>

definition spendable :: "instant \<Rightarrow> ip_addr \<Rightarrow> nat \<Rightarrow> dos_protector \<Rightarrow> bool" where
  "spendable now a k p \<longleftrightarrow> rc_burst_size (dp_config p) \<le> k \<or>
     (\<exists>s. hm_get (dp_ip_states p) a = Some s \<and> ips_last_refill s = now \<and> ips_tokens s \<le> of_nat k)"

lemma count_result_fields [simp]:
  "dp_config (count_result r p) = dp_config p"
  "dp_ip_states (count_result r p) = dp_ip_states p"
  "dp_whitelist (count_result r p) = dp_whitelist p"
  by (simp_all add: count_result_def split: rate_limit_result.split)

lemma dos_check_fields:
  "dp_config (snd (dos_check rnd now a p)) = dp_config p"
  "dp_whitelist (snd (dos_check rnd now a p)) = dp_whitelist p"
  by (simp_all add: dos_check_def Let_def case_prod_beta)

text \<open>What a check does below the cap.\<close>

lemma dos_check_below_cap:
  assumes "a \<notin> set (dp_whitelist p)" and "length (dp_ip_states p) < MAX_TRACKED_IPS"
    and "dos_check rnd now a p = (r, p')"
  shows "\<exists>s'. check_state rnd (dp_config p) now (state_of now a (dp_config p) (dp_ip_states p)) = (r, s')
           \<and> dp_ip_states p' = hm_insert a s' (dp_ip_states p)"
proof -
  obtain r1 s1 where c: "check_state rnd (dp_config p) now (state_of now a (dp_config p) (dp_ip_states p)) = (r1, s1)"
    by fastforce
  have "(if hm_contains (dp_ip_states p) a then dp_ip_states p
         else enforce_cap now (dp_config p) (dp_ip_states p)) = dp_ip_states p"
    using assms(2) by (simp add: enforce_cap_def)
  then show ?thesis using assms(1,3) c by (auto simp: dos_check_def Let_def)
qed

lemma dos_check_result_kept_length:
  assumes "length (dp_ip_states p) < MAX_TRACKED_IPS"
  shows "length (dp_ip_states (snd (dos_check rnd now a p))) \<le> Suc (length (dp_ip_states p))"
proof (cases "a \<in> set (dp_whitelist p)")
  case True
  then show ?thesis by (simp add: dos_check_def)
next
  case False
  obtain r p' where c: "dos_check rnd now a p = (r, p')" by fastforce
  show ?thesis using dos_check_below_cap [OF False assms c] by (auto simp: c length_hm_insert)
qed

lemma spendable_own_check:
  assumes "float_rounding rnd" "k \<le> 2 ^ 53" "spendable now a k p" "a \<notin> set (dp_whitelist p)"
    "length (dp_ip_states p) < MAX_TRACKED_IPS" "dos_check rnd now a p = (r, p')"
  shows "if dos_is_allowed r then 0 < k \<and> spendable now a (k - 1) p' else spendable now a k p'"
proof -
  let ?cfg = "dp_config p"
  let ?s = "state_of now a ?cfg (dp_ip_states p)"
  obtain s' where c: "check_state rnd ?cfg now ?s = (r, s')"
    and p': "dp_ip_states p' = hm_insert a s' (dp_ip_states p)"
    using dos_check_below_cap [OF assms(4-6)] by blast
  have le: "ips_tokens (refill rnd now (of_nat (rc_requests_per_second ?cfg)) (of_nat (rc_burst_size ?cfg)) ?s) \<le> of_nat k"
  proof (cases "rc_burst_size ?cfg \<le> k")
    case True
    then show ?thesis
      using refill_tokens_le [of rnd now "of_nat (rc_requests_per_second ?cfg)" "of_nat (rc_burst_size ?cfg)" ?s]
      by (meson of_nat_le_iff order_trans)
  next
    case False
    then obtain s where "hm_get (dp_ip_states p) a = Some s" "ips_last_refill s = now" "ips_tokens s \<le> of_nat k"
      using assms(3) unfolding spendable_def by blast
    then show ?thesis using refill_same_instant [OF assms(1)] assms(2) by (simp add: state_of_def)
  qed
  have nw: "dos_is_allowed r \<longleftrightarrow> r = DosAllowed" using c
    by (auto simp: check_state_def Let_def split: prod.splits if_splits)
  show ?thesis using check_state_spends [OF assms(1,2) le c] nw
    by (auto simp: spendable_def p' hm_get_insert)
qed

lemma spendable_other_check:
  assumes "spendable now a k p" "b \<noteq> a" "length (dp_ip_states p) < MAX_TRACKED_IPS"
    "dos_check rnd now b p = (r, p')"
  shows "spendable now a k p'"
proof (cases "b \<in> set (dp_whitelist p)")
  case True
  then show ?thesis using assms by (auto simp: dos_check_def spendable_def)
next
  case False
  show ?thesis
    using dos_check_below_cap [OF False assms(3,4)] dos_check_fields(1) [of rnd now b p] assms
    by (auto simp: spendable_def hm_get_insert)
qed

lemma allowed_of_Cons [simp]:
  "allowed_of a (b # as) (r # rs) = (if b = a \<and> dos_is_allowed r then Suc (allowed_of a as rs) else allowed_of a as rs)"
  by (simp add: allowed_of_def)

lemma dos_run_spends:
  assumes "float_rounding rnd"
  shows "\<lbrakk>spendable now a k p; k \<le> 2 ^ 53; a \<notin> set (dp_whitelist p);
          length (dp_ip_states p) + length as \<le> MAX_TRACKED_IPS\<rbrakk>
    \<Longrightarrow> allowed_of a as (fst (dos_run rnd now as p)) \<le> k"
proof (induction as arbitrary: p k)
  case Nil
  then show ?case by (simp add: allowed_of_def)
next
  case (Cons b as)
  obtain r p1 where c: "dos_check rnd now b p = (r, p1)" by fastforce
  obtain rs p2 where d: "dos_run rnd now as p1 = (rs, p2)" by fastforce
  have short: "length (dp_ip_states p) < MAX_TRACKED_IPS" using Cons.prems(4) by simp
  have len: "length (dp_ip_states p1) + length as \<le> MAX_TRACKED_IPS"
    using dos_check_result_kept_length [OF short, of rnd now b] Cons.prems(4) by (simp add: c)
  have wl: "a \<notin> set (dp_whitelist p1)" using dos_check_fields(2) [of rnd now b p] Cons.prems(3) by (simp add: c)
  show ?case
  proof (cases "b = a")
    case False
    then have "spendable now a k p1" using spendable_other_check [OF Cons.prems(1) False short c] by simp
    from Cons.IH [OF this Cons.prems(2) wl len] show ?thesis using False by (simp add: c d)
  next
    case True
    have own: "if dos_is_allowed r then 0 < k \<and> spendable now a (k - 1) p1 else spendable now a k p1"
      using spendable_own_check [OF assms Cons.prems(2,1,3) short] c True by simp
    show ?thesis
    proof (cases "dos_is_allowed r")
      case True
      with own have "0 < k" "spendable now a (k - 1) p1" by simp_all
      moreover have "k - 1 \<le> 2 ^ 53" using Cons.prems(2) by linarith
      ultimately have "allowed_of a as (fst (dos_run rnd now as p1)) \<le> k - 1" using Cons.IH wl len by blast
      from this \<open>0 < k\<close> Cons.prems(2) True show ?thesis
        using c by (simp add: d \<open>b = a\<close>)
    next
      case False
      with own have "spendable now a k p1" by simp
      from Cons.IH [OF this Cons.prems(2) wl len] False show ?thesis by (simp add: c d)
    qed
  qed
qed

lemma exact_is_float_rounding: "float_rounding (\<lambda>x. x)"
  by (simp add: float_rounding_def)

text \<open>
  However many requests an address sends at one instant, and whatever other addresses send
  between them, at most \<^verbatim>\<open>burst_size\<close> of its requests are let through, unless the
  address is whitelisted, as long as the table of tracked addresses does not reach its cap meanwhile.
\<close>

theorem burst_bounded:
  assumes "float_rounding rnd" and "rc_burst_size (dp_config p) \<le> 2 ^ 53"
    and "a \<notin> set (dp_whitelist p)"
    and "length (dp_ip_states p) + length as \<le> MAX_TRACKED_IPS"
  shows "allowed_of a as (fst (dos_run rnd now as p)) \<le> rc_burst_size (dp_config p)"
  by (rule dos_run_spends) (use assms in \<open>simp_all add: spendable_def\<close>)

theorem burst_bounded_witness:
  "allowed_of (V4 1 2 3 4) (replicate 30 (V4 1 2 3 4))
     (fst (dos_run (\<lambda>x. x) 0 (replicate 30 (V4 1 2 3 4)) (dos_new strict))) \<le> 20"
  using burst_bounded [of "\<lambda>x. x" "dos_new strict" "V4 1 2 3 4" "replicate 30 (V4 1 2 3 4)" 0]
  by (simp add: exact_is_float_rounding dos_new_def dos_new_with_whitelist_def strict_def MAX_TRACKED_IPS_def)

section \<open>The blacklist\<close>

text \<open>Traffic and upkeep: everything the program does to the protector but lift a blacklisting by hand.\<close>

datatype dos_op =
    DCheck instant ip_addr
  | DBlacklist instant ip_addr nat
  | DCleanup instant
  | DSetConfig rate_limit_config

fun dos_op_time :: "dos_op \<Rightarrow> instant" where
  "dos_op_time (DCheck t _) = t"
| "dos_op_time (DBlacklist t _ _) = t"
| "dos_op_time (DCleanup t) = t"
| "dos_op_time (DSetConfig _) = 0"

fun dos_op_result :: "(rat \<Rightarrow> rat) \<Rightarrow> dos_protector \<Rightarrow> dos_op \<Rightarrow> (ip_addr \<times> rate_limit_result) option \<times> dos_protector" where
  "dos_op_result rnd p (DCheck t a) = (let (r, p') = dos_check rnd t a p in (Some (a, r), p'))"
| "dos_op_result rnd p (DBlacklist t a d) = (None, blacklist_ip t a d p)"
| "dos_op_result rnd p (DCleanup t) = (None, snd (dos_cleanup_expired t p))"
| "dos_op_result rnd p (DSetConfig c) = (None, dos_set_config c p)"

fun dos_trace :: "(rat \<Rightarrow> rat) \<Rightarrow> dos_protector \<Rightarrow> dos_op list \<Rightarrow> (ip_addr \<times> rate_limit_result) list" where
  "dos_trace rnd p [] = []"
| "dos_trace rnd p (op # ops) =
     (let (r, p') = dos_op_result rnd p op
      in (case r of Some x \<Rightarrow> [x] | None \<Rightarrow> []) @ dos_trace rnd p' ops)"

definition held :: "ip_addr \<Rightarrow> instant \<Rightarrow> dos_protector \<Rightarrow> bool" where
  "held a u p \<longleftrightarrow> hm_ok (dp_ip_states p) \<and> a \<notin> set (dp_whitelist p) \<and>
     (\<exists>s. hm_get (dp_ip_states p) a = Some s \<and> ips_blacklisted_until s = Some u)"

lemma hm_ok_evict_idle: "hm_ok m \<Longrightarrow> hm_ok (snd (evict_idle now d m))"
  by (simp add: evict_idle_def Let_def)

lemma evict_idle_keeps_blacklisted:
  assumes "hm_ok m" "hm_get m a = Some s" "ips_blacklisted_until s = Some u"
  shows "hm_get (snd (evict_idle now d m)) a = Some s"
  using assms by (simp add: evict_idle_def Let_def hm_get_retain idle_kept_def)

lemma hm_ok_enforce_cap: "hm_ok m \<Longrightarrow> hm_ok (enforce_cap now cfg m)"
  by (simp add: enforce_cap_def Let_def hm_ok_evict_idle)

lemma enforce_cap_keeps_blacklisted:
  assumes "hm_ok m" "hm_get m a = Some s" "ips_blacklisted_until s = Some u"
  shows "hm_get (enforce_cap now cfg m) a = Some s"
  using assms
  by (simp add: enforce_cap_def Let_def hm_get_retain hm_ok_evict_idle evict_idle_keeps_blacklisted)

lemma check_state_blacklisted:
  assumes "ips_blacklisted_until s = Some u" "now < u"
  shows "\<exists>s'. check_state rnd cfg now s = (DosBlacklisted (as_secs (u - now)), s') \<and> ips_blacklisted_until s' = Some u"
  using assms by (simp add: check_state_def is_blacklisted_def)

lemma held_own_check:
  assumes "held a u p" "t < u"
  shows "fst (dos_check rnd t a p) = DosBlacklisted (as_secs (u - t)) \<and> held a u (snd (dos_check rnd t a p))"
proof -
  obtain s where s: "hm_get (dp_ip_states p) a = Some s" "ips_blacklisted_until s = Some u"
    and p: "hm_ok (dp_ip_states p)" "a \<notin> set (dp_whitelist p)"
    using assms(1) unfolding held_def by blast
  obtain s' where c: "check_state rnd (dp_config p) t s = (DosBlacklisted (as_secs (u - t)), s')"
    "ips_blacklisted_until s' = Some u"
    using check_state_blacklisted [OF s(2) assms(2)] by blast
  have "hm_contains (dp_ip_states p) a" using s(1) by (simp add: hm_contains_def)
  then show ?thesis using p s c by (simp add: dos_check_def Let_def state_of_def held_def hm_get_insert)
qed

lemma held_other_check:
  assumes "held a u p" "b \<noteq> a"
  shows "held a u (snd (dos_check rnd t b p))"
proof (cases "b \<in> set (dp_whitelist p)")
  case True
  then show ?thesis using assms by (simp add: dos_check_def held_def)
next
  case False
  let ?st = "if hm_contains (dp_ip_states p) b then dp_ip_states p else enforce_cap t (dp_config p) (dp_ip_states p)"
  obtain r s' where c: "check_state rnd (dp_config p) t (state_of t b (dp_config p) ?st) = (r, s')" by fastforce
  have "dp_ip_states (snd (dos_check rnd t b p)) = hm_insert b s' ?st"
    using False c by (simp add: dos_check_def Let_def)
  moreover have "hm_ok ?st" using assms by (simp add: held_def hm_ok_enforce_cap)
  moreover have "hm_get ?st a = hm_get (dp_ip_states p) a"
    using assms enforce_cap_keeps_blacklisted [of "dp_ip_states p" a _ u] by (auto simp: held_def)
  ultimately show ?thesis using assms by (simp add: held_def hm_get_insert dos_check_fields)
qed

definition leaves_held :: "ip_addr \<Rightarrow> instant \<Rightarrow> dos_op \<Rightarrow> bool" where
  "leaves_held a u op \<longleftrightarrow> dos_op_time op < u \<and> (case op of DBlacklist _ b _ \<Rightarrow> b \<noteq> a | _ \<Rightarrow> True)"

lemma held_step:
  assumes "held a u p" "leaves_held a u op"
  shows "held a u (snd (dos_op_result rnd p op)) \<and>
    (\<forall>r. fst (dos_op_result rnd p op) = Some (a, r) \<longrightarrow> \<not> dos_is_allowed r)"
proof (cases op)
  case (DCheck t b)
  then show ?thesis
    using assms held_own_check [of a u p t rnd] held_other_check [of a u p b rnd t]
    by (cases "b = a") (auto simp: leaves_held_def case_prod_beta)
next
  case (DBlacklist t b d)
  then show ?thesis using assms by (auto simp: leaves_held_def held_def blacklist_ip_def hm_get_insert)
next
  case (DCleanup t)
  then show ?thesis using assms
    by (auto simp: held_def dos_cleanup_expired_def case_prod_beta hm_ok_evict_idle evict_idle_keeps_blacklisted)
next
  case (DSetConfig c)
  then show ?thesis using assms by (simp add: held_def dos_set_config_def)
qed

lemma held_trace:
  assumes "held a u p" "\<forall>op \<in> set ops. leaves_held a u op" "(a, r) \<in> set (dos_trace rnd p ops)"
  shows "\<not> dos_is_allowed r"
  using assms
proof (induction ops arbitrary: p)
  case Nil
  then show ?case by simp
next
  case (Cons op ops)
  obtain x p' where o: "dos_op_result rnd p op = (x, p')" by fastforce
  have step: "held a u p'" "\<forall>r. x = Some (a, r) \<longrightarrow> \<not> dos_is_allowed r"
    using held_step [OF Cons.prems(1), of op rnd] Cons.prems(2) by (simp_all add: o)
  show ?case
  proof (cases "x = Some (a, r)")
    case True
    then show ?thesis using step by simp
  next
    case False
    then have "(a, r) \<in> set (dos_trace rnd p' ops)" using Cons.prems(3) by (auto simp: o split: option.splits)
    then show ?thesis using Cons.IH [OF step(1)] Cons.prems(2) by simp
  qed
qed

text \<open>
  When a refused request brings an address to \<^verbatim>\<open>violations_before_blacklist\<close> violations,
  no request of that address is let through during the whole \<^verbatim>\<open>blacklist_duration_secs\<close>, whatever
  traffic of whatever addresses, cleanups, reloads of the limits and manual blacklistings of other
  addresses happen meanwhile. In particular the eviction of a full table does not free it.
\<close>

theorem blacklisting_holds_until_expiry:
  assumes "hm_ok (dp_ip_states p)" and "dos_check rnd now a p = (DosRateLimited v, p')"
    and "rc_violations_before_blacklist (dp_config p) \<le> v"
    and "\<forall>op \<in> set ops. leaves_held a (now + secs (rc_blacklist_duration_secs (dp_config p))) op"
    and "(a, r) \<in> set (dos_trace rnd p' ops)"
  shows "\<not> dos_is_allowed r"
proof -
  let ?u = "now + secs (rc_blacklist_duration_secs (dp_config p))"
  let ?st = "if hm_contains (dp_ip_states p) a then dp_ip_states p else enforce_cap now (dp_config p) (dp_ip_states p)"
  have wl: "a \<notin> set (dp_whitelist p)" using assms(2) by (auto simp: dos_check_def)
  obtain r' s' where c: "check_state rnd (dp_config p) now (state_of now a (dp_config p) ?st) = (r', s')" by fastforce
  have p': "r' = DosRateLimited v" "dp_ip_states p' = hm_insert a s' ?st"
    using assms(2) wl c by (auto simp: dos_check_def Let_def)
  have "ips_blacklisted_until s' = Some ?u"
    using c assms(3) p'(1) by (auto simp: check_state_def Let_def split: prod.splits if_splits)
  moreover have "dp_whitelist p' = dp_whitelist p" using dos_check_fields(2) [of rnd now a p] by (simp add: assms(2))
  ultimately have "held a ?u p'"
    using assms(1) wl by (simp add: held_def p'(2) hm_get_insert hm_ok_enforce_cap)
  from held_trace [OF this assms(4,5)] show ?thesis .
qed

theorem blacklisting_holds_until_expiry_witness:
  "\<not> dos_is_allowed (DosBlacklisted 60)"
proof -
  let ?cfg = "\<lparr>rc_requests_per_second = 1, rc_burst_size = 2, rc_blacklist_duration_secs = 60,
     rc_violations_before_blacklist = 2, rc_cleanup_after_secs = 30\<rparr>"
  let ?a = "V4 192 0 2 7"
  let ?p = "(dos_new ?cfg)\<lparr>dp_ip_states := [(?a, \<lparr>ips_tokens = 0, ips_last_refill = 0, ips_violations = 1,
     ips_blacklisted_until = None, ips_last_seen = 0\<rparr>)]\<rparr>"
  let ?q = "snd (dos_check (\<lambda>x. x) 0 ?a ?p)"
  let ?ops = "[DCheck 0 (V4 192 0 2 8), DCleanup (secs 40), DCheck 0 ?a]"
  note defs = dos_check_def Let_def state_of_def check_state_def refill_def as_secs_f64_def is_blacklisted_def
    consume_def incr32_def dos_new_def dos_new_with_whitelist_def hm_contains_def hm_insert_def count_result_def
    secs_def as_secs_def enforce_cap_def MAX_TRACKED_IPS_def dos_cleanup_expired_def evict_idle_def hm_retain_def
    idle_kept_def ip_state_new_def
  have ok: "hm_ok (dp_ip_states ?p)" by (simp add: hm_ok_def)
  have "fst (dos_check (\<lambda>x. x) 0 ?a ?p) = DosRateLimited 2" by (simp add: defs)
  then have step: "dos_check (\<lambda>x. x) 0 ?a ?p = (DosRateLimited 2, ?q)" by (metis prod.collapse)
  have mem: "(?a, DosBlacklisted 60) \<in> set (dos_trace (\<lambda>x. x) ?q ?ops)" by (simp add: defs)
  have v: "rc_violations_before_blacklist (dp_config ?p) \<le> 2" by (simp add: defs)
  have "\<forall>op \<in> set ?ops. leaves_held ?a (0 + secs (rc_blacklist_duration_secs (dp_config ?p))) op"
    by (simp add: leaves_held_def secs_def dos_new_def dos_new_with_whitelist_def)
  from blacklisting_holds_until_expiry [OF ok step v this mem] show ?thesis .
qed

text \<open>
  The cap is not hard. \<^verbatim>\<open>enforce_cap\<close> keeps every entry whose
  \<^verbatim>\<open>blacklisted_until\<close> is set, even one whose time has passed, and the caller inserts in any case:
  a table full of such entries grows with every new address.
\<close>

lemma cap_exceeded_by_blacklisted:
  assumes "\<forall>(x, s) \<in> set (dp_ip_states p). ips_blacklisted_until s \<noteq> None"
    and "a \<notin> set (dp_whitelist p)" and "\<not> hm_contains (dp_ip_states p) a"
  shows "tracked_ips (snd (dos_check rnd now a p)) = Suc (tracked_ips p)"
proof -
  have keep: "snd (evict_idle now d (dp_ip_states p)) = dp_ip_states p" for d
    using assms(1) by (auto simp: evict_idle_def Let_def hm_retain_def idle_kept_def filter_id_conv)
  have "hm_retain (\<lambda>_ s. ips_blacklisted_until s \<noteq> None) (dp_ip_states p) = dp_ip_states p"
    using assms(1) by (auto simp: hm_retain_def filter_id_conv)
  then have "enforce_cap now (dp_config p) (dp_ip_states p) = dp_ip_states p"
    by (simp add: enforce_cap_def Let_def keep)
  then show ?thesis using assms(2,3)
    by (simp add: dos_check_def Let_def case_prod_beta tracked_ips_def length_hm_insert)
qed

text \<open>And a blacklisted entry survives every cleanup, however long its time has passed.\<close>

lemma expired_blacklist_never_cleaned:
  assumes "hm_ok (dp_ip_states p)" "hm_get (dp_ip_states p) a = Some s" "ips_blacklisted_until s = Some u"
  shows "hm_get (dp_ip_states (snd (dos_cleanup_expired now p))) a = Some s"
  using assms by (simp add: dos_cleanup_expired_def case_prod_beta evict_idle_keeps_blacklisted)

end
