(* ===== verification/Admission.thy ===== *)
theory Admission
  imports Security_Manager Acl_Manager Dos_Protector Invite_Tx Client_Tx
begin

text \<open>
  The front door of \<^verbatim>\<open>crates/sbc-core/src/sbc/mod.rs\<close>: \<^verbatim>\<open>handle_message\<close> runs every received
  message through the bans, the ACL and the DoS protector before it is dispatched;
  \<^verbatim>\<open>send_sip\<close> and \<^verbatim>\<open>send_request_tracked\<close> feed the two transaction tables with what is sent.

  Parameters: \<open>answer\<close> is \<^verbatim>\<open>response_for_message\<close> (which needs the SIP parser's typed headers),
  \<open>reply\<close> is what \<^verbatim>\<open>TransportManager::reply\<close> returns when given the bytes. What it
  handed over is appended to \<open>fr_outbox\<close>.
\<close>

section \<open>Data\<close>

record 'm received_message =
  rv_message :: 'm
  rv_source :: socket_addr
  rv_transport :: transport
  rv_reply_tx :: "nat option"

record front_metrics =
  fm_ban_drops :: nat
  fm_acl_denied :: nat
  fm_dos_blocked :: nat
  fm_responses :: nat
  fm_4xx :: nat
  fm_5xx :: nat
  fm_by_code :: "(nat, nat) hmap"
  fm_send_failures :: "(string, nat) hmap"

type_synonym outgoing = "string \<times> socket_addr \<times> transport \<times> nat option"

record 'net front =
  fr_bans :: ban_manager
  fr_acl :: "'net acl_manager"
  fr_dos :: dos_protector
  fr_itx :: invite_tx_cache
  fr_ctx :: client_tx_cache
  fr_metrics :: front_metrics
  fr_outbox :: "outgoing list"

section \<open>Metrics\<close>

definition count_in :: "'k \<Rightarrow> ('k, nat) hmap \<Rightarrow> ('k, nat) hmap" where
  "count_in k m = hm_insert k (incr64 (case hm_get m k of Some n \<Rightarrow> n | None \<Rightarrow> 0)) m"

definition inc_sip_response :: "nat \<Rightarrow> front_metrics \<Rightarrow> front_metrics" where
  "inc_sip_response code f =
     f\<lparr>fm_responses := incr64 (fm_responses f),
       fm_4xx := (if 400 \<le> code \<and> code < 500 then incr64 (fm_4xx f) else fm_4xx f),
       fm_5xx := (if 500 \<le> code \<and> code < 600 then incr64 (fm_5xx f) else fm_5xx f),
       fm_by_code := count_in code (fm_by_code f)\<rparr>"

fun transport_label :: "transport \<Rightarrow> string" where
  "transport_label Udp = ''udp''"
| "transport_label Tcp = ''tcp''"
| "transport_label Tls = ''tls''"
| "transport_label Ws = ''ws''"
| "transport_label Wss = ''wss''"
| "transport_label _ = ''other''"

definition inc_sip_send_failure :: "transport \<Rightarrow> front_metrics \<Rightarrow> front_metrics" where
  "inc_sip_send_failure tp f = f\<lparr>fm_send_failures := count_in (transport_label tp) (fm_send_failures f)\<rparr>"

definition inc_security_ban_drop :: "front_metrics \<Rightarrow> front_metrics" where
  "inc_security_ban_drop f = f\<lparr>fm_ban_drops := incr64 (fm_ban_drops f)\<rparr>"

definition inc_acl_denied :: "front_metrics \<Rightarrow> front_metrics" where
  "inc_acl_denied f = f\<lparr>fm_acl_denied := incr64 (fm_acl_denied f)\<rparr>"

definition inc_dos_blocked :: "front_metrics \<Rightarrow> front_metrics" where
  "inc_dos_blocked f = f\<lparr>fm_dos_blocked := incr64 (fm_dos_blocked f)\<rparr>"

section \<open>Sending\<close>

definition remember_response ::
  "instant \<Rightarrow> string \<Rightarrow> socket_addr \<Rightarrow> transport \<Rightarrow> nat option \<Rightarrow> 'net front \<Rightarrow> 'net front"
where
  "remember_response now data dest tp reply_tx f =
     (if starts_with data ''SIP/2.0 '' \<and> valid_utf8 data
      then case key_of_response data of
             Some (k, status) \<Rightarrow> f\<lparr>fr_itx := itx_record_sent now k data status dest tp reply_tx (fr_itx f)\<rparr>
           | None \<Rightarrow> f
      else f)"

definition deliver :: "outgoing \<Rightarrow> 'net front \<Rightarrow> 'net front" where
  "deliver d f = f\<lparr>fr_outbox := fr_outbox f @ [d]\<rparr>"

definition track_request ::
  "instant \<Rightarrow> string \<Rightarrow> string \<Rightarrow> socket_addr \<Rightarrow> transport \<Rightarrow> nat option \<Rightarrow> 'net front \<Rightarrow> 'net front"
where
  "track_request now what data dest tp reply_tx f =
     f\<lparr>fr_ctx := snd (ctx_record_sent now what data dest tp reply_tx (fr_ctx f))\<rparr>"

definition send_sip ::
  "(outgoing \<Rightarrow> unit result) \<Rightarrow> instant \<Rightarrow> string \<Rightarrow> string \<Rightarrow> socket_addr \<Rightarrow> transport \<Rightarrow> nat option \<Rightarrow>
   'net front \<Rightarrow> bool \<times> 'net front"
where
  "send_sip reply now what data dest tp reply_tx f =
     (let f1 = remember_response now data dest tp reply_tx f
      in if is_ok (reply (data, dest, tp, reply_tx))
         then (True,
               let f2 = deliver (data, dest, tp, reply_tx) f1
               in if \<not> starts_with data ''SIP/2.0 ''
                  then track_request now what data dest tp reply_tx f2 else f2)
         else (False, f1\<lparr>fr_metrics := inc_sip_send_failure tp (fr_metrics f1)\<rparr>))"

definition send_request_tracked ::
  "(outgoing \<Rightarrow> unit result) \<Rightarrow> instant \<Rightarrow> string \<Rightarrow> string \<Rightarrow> socket_addr \<Rightarrow> transport \<Rightarrow> nat option \<Rightarrow>
   'net front \<Rightarrow> unit result \<times> 'net front"
where
  "send_request_tracked reply now what data dest tp reply_tx f =
     (case reply (data, dest, tp, reply_tx) of
        Inr _ \<Rightarrow> (Inr (), track_request now what data dest tp reply_tx (deliver (data, dest, tp, reply_tx) f))
      | Inl e \<Rightarrow> (Inl e, f\<lparr>fr_metrics := inc_sip_send_failure tp (fr_metrics f)\<rparr>))"

section \<open>The gates\<close>

datatype verdict = DroppedBanned | DroppedAcl | RejectedDos | Dispatched

definition handle_message ::
  "('m \<Rightarrow> nat \<Rightarrow> string \<Rightarrow> string) \<Rightarrow> (outgoing \<Rightarrow> unit result) \<Rightarrow> ('net \<Rightarrow> ip_addr \<Rightarrow> bool) \<Rightarrow> (rat \<Rightarrow> rat) \<Rightarrow>
   instant \<Rightarrow> instant \<Rightarrow> 'm received_message \<Rightarrow> 'net front \<Rightarrow> verdict \<times> 'net front"
where
  "handle_message answer reply net_contains rnd now wall rv f =
     (let source = rv_source rv; tp = rv_transport rv; reply_tx = rv_reply_tx rv;
          (banned, bans) = is_banned wall (fst source) (fr_bans f);
          f1 = f\<lparr>fr_bans := bans\<rparr>
      in if banned
         then
           let f2 = f1\<lparr>fr_metrics := inc_security_ban_drop (fr_metrics f1)\<rparr>
           in (DroppedBanned,
               if silent_drop (fr_bans f2) then f2
               else snd (send_sip reply now ''403 (banned)'' (answer (rv_message rv) 403 ''Forbidden'')
                           source tp reply_tx
                           (f2\<lparr>fr_metrics := inc_sip_response 403 (fr_metrics f2)\<rparr>)))
         else
           let (acl_result, acl) = acl_check net_contains (fst source) Inbound (fr_acl f1);
               f2 = f1\<lparr>fr_acl := acl\<rparr>
           in if \<not> acl_is_allowed acl_result
              then (DroppedAcl, f2\<lparr>fr_metrics := inc_acl_denied (fr_metrics f2)\<rparr>)
              else
                let (dos_result, dos) = dos_check rnd now (fst source) (fr_dos f2);
                    f3 = f2\<lparr>fr_dos := dos\<rparr>
                in if \<not> dos_is_allowed dos_result
                   then (RejectedDos,
                         snd (send_sip reply now ''503 (rate-limited)''
                                (answer (rv_message rv) 503 ''Service Unavailable'') source tp reply_tx
                                (f3\<lparr>fr_metrics := inc_sip_response 503 (inc_dos_blocked (fr_metrics f3))\<rparr>)))
                   else (Dispatched, f3))"

section \<open>What a send touches\<close>

lemma remember_response_frame [simp]:
  "fr_bans (remember_response now data dest tp r f) = fr_bans f"
  "fr_acl (remember_response now data dest tp r f) = fr_acl f"
  "fr_dos (remember_response now data dest tp r f) = fr_dos f"
  "fr_ctx (remember_response now data dest tp r f) = fr_ctx f"
  "fr_metrics (remember_response now data dest tp r f) = fr_metrics f"
  "fr_outbox (remember_response now data dest tp r f) = fr_outbox f"
  by (simp_all add: remember_response_def split: option.splits prod.splits)

lemma send_sip_frame [simp]:
  "fr_bans (snd (send_sip rp now what data dest tp r f)) = fr_bans f"
  "fr_acl (snd (send_sip rp now what data dest tp r f)) = fr_acl f"
  "fr_dos (snd (send_sip rp now what data dest tp r f)) = fr_dos f"
  by (simp_all add: send_sip_def Let_def deliver_def track_request_def)

lemma send_sip_outbox:
  "fr_outbox (snd (send_sip rp now what data dest tp r f)) =
     fr_outbox f @ (if is_ok (rp (data, dest, tp, r)) then [(data, dest, tp, r)] else [])"
  by (simp add: send_sip_def Let_def deliver_def track_request_def)

lemma send_sip_counters [simp]:
  "fm_ban_drops (fr_metrics (snd (send_sip rp now what data dest tp r f))) = fm_ban_drops (fr_metrics f)"
  "fm_acl_denied (fr_metrics (snd (send_sip rp now what data dest tp r f))) = fm_acl_denied (fr_metrics f)"
  "fm_dos_blocked (fr_metrics (snd (send_sip rp now what data dest tp r f))) = fm_dos_blocked (fr_metrics f)"
  "fm_responses (fr_metrics (snd (send_sip rp now what data dest tp r f))) = fm_responses (fr_metrics f)"
  by (simp_all add: send_sip_def Let_def deliver_def track_request_def inc_sip_send_failure_def)

lemma counter_simps [simp]:
  "fm_ban_drops (inc_sip_response c m) = fm_ban_drops m"
  "fm_acl_denied (inc_sip_response c m) = fm_acl_denied m"
  "fm_dos_blocked (inc_sip_response c m) = fm_dos_blocked m"
  "fm_responses (inc_sip_response c m) = incr64 (fm_responses m)"
  "fm_ban_drops (inc_security_ban_drop m) = incr64 (fm_ban_drops m)"
  "fm_acl_denied (inc_security_ban_drop m) = fm_acl_denied m"
  "fm_dos_blocked (inc_security_ban_drop m) = fm_dos_blocked m"
  "fm_ban_drops (inc_acl_denied m) = fm_ban_drops m"
  "fm_acl_denied (inc_acl_denied m) = incr64 (fm_acl_denied m)"
  "fm_dos_blocked (inc_acl_denied m) = fm_dos_blocked m"
  "fm_ban_drops (inc_dos_blocked m) = fm_ban_drops m"
  "fm_acl_denied (inc_dos_blocked m) = fm_acl_denied m"
  "fm_dos_blocked (inc_dos_blocked m) = incr64 (fm_dos_blocked m)"
  by (simp_all add: inc_sip_response_def inc_security_ban_drop_def inc_acl_denied_def inc_dos_blocked_def)

section \<open>Properties\<close>

lemma handle_banned:
  assumes "fst (is_banned wall (fst (rv_source rv)) (fr_bans f))"
  shows "fst (handle_message answer reply net_contains rnd now wall rv f) = DroppedBanned"
    and "fr_acl (snd (handle_message answer reply net_contains rnd now wall rv f)) = fr_acl f"
    and "fr_dos (snd (handle_message answer reply net_contains rnd now wall rv f)) = fr_dos f"
  using assms by (simp_all add: handle_message_def Let_def case_prod_beta)

text \<open>The other gates in turn.\<close>

lemma handle_passes_ban:
  assumes "\<not> fst (is_banned wall ip (fr_bans f))" and "ip = fst (rv_source rv)"
  shows "fst (handle_message answer reply net_contains rnd now wall rv f) =
    (if \<not> acl_is_allowed (fst (acl_check net_contains ip Inbound (fr_acl f))) then DroppedAcl
     else if \<not> dos_is_allowed (fst (dos_check rnd now ip (fr_dos f))) then RejectedDos else Dispatched)"
  using assms by (simp add: handle_message_def Let_def case_prod_beta)

lemma handle_bans:
  "fr_bans (snd (handle_message answer reply net_contains rnd now wall rv f)) =
     snd (is_banned wall (fst (rv_source rv)) (fr_bans f))"
  by (simp add: handle_message_def Let_def case_prod_beta)

lemma handle_dos:
  assumes "\<not> fst (is_banned wall ip (fr_bans f))" and "ip = fst (rv_source rv)"
    and "acl_is_allowed (fst (acl_check net_contains ip Inbound (fr_acl f)))"
  shows "fr_dos (snd (handle_message answer reply net_contains rnd now wall rv f)) =
    snd (dos_check rnd now ip (fr_dos f))"
  using assms by (simp add: handle_message_def Let_def case_prod_beta)

lemma handle_acl_drop:
  assumes "\<not> fst (is_banned wall ip (fr_bans f))" and "ip = fst (rv_source rv)"
    and "\<not> acl_is_allowed (fst (acl_check net_contains ip Inbound (fr_acl f)))"
  shows "fr_dos (snd (handle_message answer reply net_contains rnd now wall rv f)) = fr_dos f"
    and "fr_outbox (snd (handle_message answer reply net_contains rnd now wall rv f)) = fr_outbox f"
  using assms by (simp_all add: handle_message_def Let_def case_prod_beta)

text \<open>What the source hears: the bytes the gate itself offers to the network.\<close>

definition gate_answer ::
  "('m \<Rightarrow> nat \<Rightarrow> string \<Rightarrow> string) \<Rightarrow> 'm received_message \<Rightarrow> bool \<Rightarrow> verdict \<Rightarrow> outgoing list"
where
  "gate_answer answer rv silent v =
     (case v of
        DroppedBanned \<Rightarrow>
          if silent then []
          else [(answer (rv_message rv) 403 ''Forbidden'', rv_source rv, rv_transport rv, rv_reply_tx rv)]
      | RejectedDos \<Rightarrow>
          [(answer (rv_message rv) 503 ''Service Unavailable'', rv_source rv, rv_transport rv, rv_reply_tx rv)]
      | _ \<Rightarrow> [])"

lemma handle_outbox:
  "fr_outbox (snd (handle_message answer reply net_contains rnd now wall rv f)) = fr_outbox f @
     filter (\<lambda>d. is_ok (reply d)) (gate_answer answer rv (silent_drop (fr_bans f))
       (fst (handle_message answer reply net_contains rnd now wall rv f)))"
  by (simp add: handle_message_def Let_def case_prod_beta gate_answer_def send_sip_outbox silent_drop_def)

text \<open>
  The gates act in order. A message is dispatched exactly when its source is not banned, the ACL
  lets it in and the DoS protector has a token for it; a banned source touches neither the ACL
  nor its token bucket, a source the ACL refuses costs no token, and the only bytes offered to the
  network are the 403 of a ban that is not silent and the 503 of the rate limit.
\<close>

theorem gates_in_order:
  "let ip = fst (rv_source rv); (v, f') = handle_message answer reply net_contains rnd now wall rv f
   in v = (if fst (is_banned wall ip (fr_bans f)) then DroppedBanned
           else if \<not> acl_is_allowed (fst (acl_check net_contains ip Inbound (fr_acl f))) then DroppedAcl
           else if \<not> dos_is_allowed (fst (dos_check rnd now ip (fr_dos f))) then RejectedDos
           else Dispatched) \<and>
      (v = DroppedBanned \<longrightarrow> fr_acl f' = fr_acl f) \<and>
      (v \<in> {DroppedBanned, DroppedAcl} \<longrightarrow> fr_dos f' = fr_dos f) \<and>
      fr_outbox f' = fr_outbox f @
        filter (\<lambda>d. is_ok (reply d)) (gate_answer answer rv (silent_drop (fr_bans f)) v)"
proof -
  obtain v f' where h: "handle_message answer reply net_contains rnd now wall rv f = (v, f')" by fastforce
  have out: "fr_outbox f' = fr_outbox f @
      filter (\<lambda>d. is_ok (reply d)) (gate_answer answer rv (silent_drop (fr_bans f)) v)"
    using handle_outbox [of answer reply net_contains rnd now wall rv f] by (simp add: h)
  show ?thesis
  proof (cases "fst (is_banned wall (fst (rv_source rv)) (fr_bans f))")
    case True
    then show ?thesis using out handle_banned [OF True, of answer reply net_contains rnd now] by (simp add: h)
  next
    case False
    then show ?thesis
      using out handle_passes_ban [OF False refl, of answer reply net_contains rnd now]
        handle_acl_drop(1) [OF False refl, of net_contains answer reply rnd now]
      by (auto simp: h)
  qed
qed

definition quiet_front :: "unit front" where
  "quiet_front =
     \<lparr>fr_bans = ban_manager_new default_ban_config, fr_acl = acl_new deny_default, fr_dos = dos_new strict,
      fr_itx = \<lparr>itx_entries = []\<rparr>, fr_ctx = \<lparr>ctx_txs = []\<rparr>,
      fr_metrics = \<lparr>fm_ban_drops = 0, fm_acl_denied = 0, fm_dos_blocked = 0, fm_responses = 0, fm_4xx = 0,
        fm_5xx = 0, fm_by_code = [], fm_send_failures = []\<rparr>,
      fr_outbox = []\<rparr>"

definition hello :: "unit received_message" where
  "hello = \<lparr>rv_message = (), rv_source = (V4 192 0 2 7, 5060), rv_transport = Udp, rv_reply_tx = None\<rparr>"

theorem gates_in_order_witness:
  "fst (handle_message (\<lambda>_ _ _. []) (\<lambda>_. Inr ()) (\<lambda>_ _. True) (\<lambda>x. x) 0 0 hello quiet_front) = DroppedAcl \<and>
   fr_dos (snd (handle_message (\<lambda>_ _ _. []) (\<lambda>_. Inr ()) (\<lambda>_ _. True) (\<lambda>x. x) 0 0 hello quiet_front)) = dos_new strict"
  using gates_in_order [of hello "\<lambda>_ _ _. []" "\<lambda>_. Inr ()" "\<lambda>_ _. True" "\<lambda>x. x" 0 0 quiet_front]
  by (simp add: case_prod_beta quiet_front_def hello_def ban_manager_new_def default_ban_config_def is_banned_def
      acl_new_def deny_default_def acl_check_def by_priority_def)

section \<open>Accounting\<close>

fun handle_all ::
  "('m \<Rightarrow> nat \<Rightarrow> string \<Rightarrow> string) \<Rightarrow> (outgoing \<Rightarrow> unit result) \<Rightarrow> ('net \<Rightarrow> ip_addr \<Rightarrow> bool) \<Rightarrow> (rat \<Rightarrow> rat) \<Rightarrow>
   (instant \<times> instant \<times> 'm received_message) list \<Rightarrow> 'net front \<Rightarrow> verdict list \<times> 'net front"
where
  "handle_all answer reply net_contains rnd [] f = ([], f)"
| "handle_all answer reply net_contains rnd ((now, wall, rv) # rest) f =
     (let (v, f1) = handle_message answer reply net_contains rnd now wall rv f;
          (vs, f2) = handle_all answer reply net_contains rnd rest f1
      in (v # vs, f2))"

definition refused :: "front_metrics \<Rightarrow> nat" where
  "refused m = fm_ban_drops m + fm_acl_denied m + fm_dos_blocked m"

lemma incr64_small: "n < 2 ^ 64 - 1 \<Longrightarrow> incr64 n = n + 1"
  by (simp add: incr64_def)

lemma handle_counts:
  assumes "refused (fr_metrics f) < 2 ^ 64 - 1"
  shows "refused (fr_metrics (snd (handle_message answer reply net_contains rnd now wall rv f))) =
    refused (fr_metrics f) +
      (if fst (handle_message answer reply net_contains rnd now wall rv f) = Dispatched then 0 else 1)"
  using assms incr64_small [of "fm_ban_drops (fr_metrics f)"] incr64_small [of "fm_acl_denied (fr_metrics f)"]
    incr64_small [of "fm_dos_blocked (fr_metrics f)"]
  by (simp add: handle_message_def Let_def case_prod_beta refused_def)

text \<open>
  Every message is accounted for: after any run of messages, the growth of the ban, ACL and DoS
  counters together is exactly the number of messages that were not dispatched (as long as
  the 64-bit counters do not wrap).
\<close>

theorem refused_messages_counted:
  assumes "refused (fr_metrics f) + length ms < 2 ^ 64"
  shows "refused (fr_metrics (snd (handle_all answer reply net_contains rnd ms f))) +
      length (filter (\<lambda>v. v = Dispatched) (fst (handle_all answer reply net_contains rnd ms f))) =
    refused (fr_metrics f) + length ms"
  using assms
proof (induction answer reply net_contains rnd ms f rule: handle_all.induct)
  case (1 answer reply net_contains rnd f)
  then show ?case by simp
next
  case (2 answer reply net_contains rnd now wall rv rest f)
  obtain v f1 where h: "handle_message answer reply net_contains rnd now wall rv f = (v, f1)" by fastforce
  have c: "refused (fr_metrics f1) = refused (fr_metrics f) + (if v = Dispatched then 0 else 1)"
    using handle_counts [of f answer reply net_contains rnd now wall rv] "2.prems" by (simp add: h)
  have "refused (fr_metrics f1) + length rest < 2 ^ 64" using c "2.prems" by (simp split: if_splits)
  from "2.IH" [OF h [symmetric] refl this] c show ?case
    by (simp add: h case_prod_beta split: if_splits)
qed

theorem refused_messages_counted_witness:
  "refused (fr_metrics (snd (handle_all (\<lambda>_ _ _. []) (\<lambda>_. Inr ()) (\<lambda>_ _. True) (\<lambda>x. x) [(0, 0, hello)] quiet_front))) +
     length (filter (\<lambda>v. v = Dispatched)
       (fst (handle_all (\<lambda>_ _ _. []) (\<lambda>_. Inr ()) (\<lambda>_ _. True) (\<lambda>x. x) [(0, 0, hello)] quiet_front))) = 1"
proof -
  have "refused (fr_metrics quiet_front) = 0" by (simp add: quiet_front_def refused_def)
  then show ?thesis using refused_messages_counted [of quiet_front "[(0, 0, hello)]"] by simp
qed

section \<open>Bans over time\<close>

text \<open>
  Anything that happens to the front door while a ban stands, but for lifting it, replacing it or
  reconfiguring the ban manager: messages of anyone, authentication failures, sweeps, manual bans
  and unbans, ACL edits, upkeep of the DoS protector. Each carries its wall clock.
\<close>

datatype ('m, 'net) front_op =
    Arrive instant instant "'m received_message"
  | Failure instant instant ip_addr string
  | BanByHand instant ip_addr duration string
  | Unban instant ip_addr
  | SweepBans instant
  | PruneStrikes instant instant
  | AclAdd instant "'net acl_rule"
  | AclRemove instant string
  | DosUpkeep instant dos_op

fun op_wall :: "('m, 'net) front_op \<Rightarrow> instant" where
  "op_wall (Arrive now wall rv) = wall"
| "op_wall (Failure now wall ip reason) = wall"
| "op_wall (BanByHand wall ip d reason) = wall"
| "op_wall (Unban wall ip) = wall"
| "op_wall (SweepBans wall) = wall"
| "op_wall (PruneStrikes now wall) = wall"
| "op_wall (AclAdd wall r) = wall"
| "op_wall (AclRemove wall i) = wall"
| "op_wall (DosUpkeep wall op) = wall"

fun lifts :: "ip_addr \<Rightarrow> ('m, 'net) front_op \<Rightarrow> bool" where
  "lifts ip (BanByHand wall ip' d reason) \<longleftrightarrow> ip' = ip"
| "lifts ip (Unban wall ip') \<longleftrightarrow> ip' = ip"
| "lifts ip _ \<longleftrightarrow> False"

fun front_step ::
  "('m \<Rightarrow> nat \<Rightarrow> string \<Rightarrow> string) \<Rightarrow> (outgoing \<Rightarrow> unit result) \<Rightarrow> (string \<Rightarrow> 'net option) \<Rightarrow>
   ('net \<Rightarrow> ip_addr \<Rightarrow> bool) \<Rightarrow> (rat \<Rightarrow> rat) \<Rightarrow> ('m, 'net) front_op \<Rightarrow> 'net front \<Rightarrow>
   (ip_addr \<times> verdict) list \<times> 'net front"
where
  "front_step answer reply net_parse net_contains rnd (Arrive now wall rv) f =
     (let (v, f') = handle_message answer reply net_contains rnd now wall rv f
      in ([(fst (rv_source rv), v)], f'))"
| "front_step answer reply net_parse net_contains rnd (Failure now wall ip reason) f =
     ([], f\<lparr>fr_bans := snd (record_failure net_parse net_contains now wall ip reason (fr_bans f))\<rparr>)"
| "front_step answer reply net_parse net_contains rnd (BanByHand wall ip d reason) f =
     ([], f\<lparr>fr_bans := snd (ban wall ip d reason (fr_bans f))\<rparr>)"
| "front_step answer reply net_parse net_contains rnd (Unban wall ip) f =
     ([], f\<lparr>fr_bans := snd (unban ip (fr_bans f))\<rparr>)"
| "front_step answer reply net_parse net_contains rnd (SweepBans wall) f =
     ([], f\<lparr>fr_bans := snd (cleanup_expired wall (fr_bans f))\<rparr>)"
| "front_step answer reply net_parse net_contains rnd (PruneStrikes now wall) f =
     ([], f\<lparr>fr_bans := snd (prune_stale_windows now (fr_bans f))\<rparr>)"
| "front_step answer reply net_parse net_contains rnd (AclAdd wall r) f =
     ([], f\<lparr>fr_acl := acl_add_rule r (fr_acl f)\<rparr>)"
| "front_step answer reply net_parse net_contains rnd (AclRemove wall i) f =
     ([], f\<lparr>fr_acl := snd (acl_remove_rule i (fr_acl f))\<rparr>)"
| "front_step answer reply net_parse net_contains rnd (DosUpkeep wall op) f =
     ([], f\<lparr>fr_dos := snd (dos_op_result rnd (fr_dos f) op)\<rparr>)"

fun front_trace ::
  "('m \<Rightarrow> nat \<Rightarrow> string \<Rightarrow> string) \<Rightarrow> (outgoing \<Rightarrow> unit result) \<Rightarrow> (string \<Rightarrow> 'net option) \<Rightarrow>
   ('net \<Rightarrow> ip_addr \<Rightarrow> bool) \<Rightarrow> (rat \<Rightarrow> rat) \<Rightarrow> ('m, 'net) front_op list \<Rightarrow> 'net front \<Rightarrow>
   (ip_addr \<times> verdict) list"
where
  "front_trace answer reply net_parse net_contains rnd [] f = []"
| "front_trace answer reply net_parse net_contains rnd (op # ops) f =
     (let (out, f') = front_step answer reply net_parse net_contains rnd op f
      in out @ front_trace answer reply net_parse net_contains rnd ops f')"

definition under_ban :: "ip_addr \<Rightarrow> instant \<Rightarrow> ban_manager \<Rightarrow> bool" where
  "under_ban ip u m \<longleftrightarrow> bc_enabled (bm_config m) \<and> hm_ok (bm_bans m) \<and>
     (\<exists>e. hm_get (bm_bans m) ip = Some e \<and> be_expires_at e = u)"

lemma under_ban_is_banned: "under_ban ip u m \<Longrightarrow> wall < u \<Longrightarrow> fst (is_banned wall ip m)"
  by (auto simp: under_ban_def is_banned_def is_expired_def)

lemma under_ban_check:
  "under_ban ip u m \<Longrightarrow> wall < u \<Longrightarrow> under_ban ip u (snd (is_banned wall ip' m))"
  by (auto simp: under_ban_def is_banned_def is_expired_def hm_get_remove split: option.splits)

lemma under_ban_failure:
  assumes "under_ban ip u m" "wall < u"
  shows "under_ban ip u (snd (record_failure net_parse net_contains now wall ip' reason m))"
proof (cases "ip' = ip")
  case True
  with assms under_ban_is_banned [OF assms]
  have "record_failure net_parse net_contains now wall ip' reason m = (None, m)"
    by (intro record_failure_ignored) simp
  with assms show ?thesis by simp
next
  case False
  have "under_ban ip u (snd (is_banned wall ip' m))" using under_ban_check [OF assms] .
  then show ?thesis using False assms
    by (auto simp: record_failure_def Let_def case_prod_beta under_ban_def hm_get_insert)
qed

lemma under_ban_step:
  assumes "under_ban ip u (fr_bans f)" "op_wall op < u" "\<not> lifts ip op"
  shows "under_ban ip u (fr_bans (snd (front_step answer reply net_parse net_contains rnd op f)))"
    and "(ip, v) \<in> set (fst (front_step answer reply net_parse net_contains rnd op f)) \<Longrightarrow> v = DroppedBanned"
proof -
  show "under_ban ip u (fr_bans (snd (front_step answer reply net_parse net_contains rnd op f)))"
  proof (cases op)
    case (Arrive now wall rv)
    then show ?thesis using under_ban_check [OF assms(1)] assms(2)
      by (simp add: case_prod_beta handle_bans)
  next
    case (Failure now wall ip' reason)
    then show ?thesis using under_ban_failure [OF assms(1)] assms(2) by simp
  qed (use assms in \<open>auto simp: under_ban_def ban_def unban_def cleanup_expired_def prune_stale_windows_def
        Let_def hm_get_insert hm_get_remove hm_get_retain is_expired_def\<close>)
next
  assume m: "(ip, v) \<in> set (fst (front_step answer reply net_parse net_contains rnd op f))"
  show "v = DroppedBanned"
  proof (cases op)
    case (Arrive now wall rv)
    with m have rv: "fst (rv_source rv) = ip"
      and v: "v = fst (handle_message answer reply net_contains rnd now wall rv f)"
      by (auto simp: case_prod_beta)
    have "fst (is_banned wall (fst (rv_source rv)) (fr_bans f))"
      using under_ban_is_banned [OF assms(1)] assms(2) Arrive rv by simp
    from handle_banned(1) [OF this] show ?thesis by (simp add: v)
  qed (use m in simp_all)
qed

lemma under_ban_trace:
  assumes "under_ban ip u (fr_bans f)" "\<forall>op \<in> set ops. op_wall op < u \<and> \<not> lifts ip op"
    "(ip, v) \<in> set (front_trace answer reply net_parse net_contains rnd ops f)"
  shows "v = DroppedBanned"
  using assms
proof (induction ops arbitrary: f)
  case Nil
  then show ?case by simp
next
  case (Cons op ops)
  obtain out f' where s: "front_step answer reply net_parse net_contains rnd op f = (out, f')" by fastforce
  have op: "op_wall op < u" "\<not> lifts ip op" using Cons.prems(2) by simp_all
  have "under_ban ip u (fr_bans f')"
    using under_ban_step(1) [OF Cons.prems(1) op, of answer reply net_parse net_contains rnd] by (simp add: s)
  from Cons.IH [OF this] Cons.prems(2,3)
    under_ban_step(2) [OF Cons.prems(1) op, of v answer reply net_parse net_contains rnd]
  show ?case by (auto simp: s)
qed

text \<open>
  C1: An address that failed authentication often enough to be banned gets no message dispatched
  before the ban expires: whatever it and others send, whatever the ACL is edited to say and however
  the other tables are maintained meanwhile, every one of its messages is dropped at the ban gate,
  until the ban is lifted or replaced by hand.
\<close>

theorem banned_address_never_dispatched:
  assumes "hm_ok (bm_bans (fr_bans f))"
    and "record_failure net_parse net_contains now wall ip reason (fr_bans f) = (Some e, bans')"
    and "\<forall>op \<in> set ops. op_wall op < be_expires_at e \<and> \<not> lifts ip op"
    and "(ip, v) \<in> set (front_trace answer reply net_parse net_contains rnd ops (f\<lparr>fr_bans := bans'\<rparr>))"
  shows "v = DroppedBanned"
proof -
  have h: "bc_enabled (bm_config (fr_bans f))" "\<not> is_whitelisted net_parse net_contains ip (fr_bans f)"
    "\<not> fst (is_banned wall ip (fr_bans f))"
    using assms(2) record_failure_ignored [of "fr_bans f" net_parse net_contains ip wall now reason] by auto
  from assms(2) record_failure_counted [OF h, of now reason]
  have "bm_bans bans' = hm_insert ip e (bm_bans (snd (is_banned wall ip (fr_bans f))))"
    "bm_config bans' = bm_config (fr_bans f)"
    by (auto simp: Let_def split: if_splits)
  then have "under_ban ip (be_expires_at e) (fr_bans (f\<lparr>fr_bans := bans'\<rparr>))"
    using h(1) assms(1) by (simp add: under_ban_def hm_get_insert)
  from under_ban_trace [OF this assms(3,4)] show ?thesis .
qed

theorem banned_address_never_dispatched_witness:
  "\<exists>e bans'. record_failure no_net (\<lambda>_ _. True) 3 0 (V4 192 0 2 7) ''x''
       (ban_manager_new (default_ban_config\<lparr>bc_max_failures := 1\<rparr>)) = (Some e, bans') \<and>
     fst (handle_message (\<lambda>_ _ _. []) (\<lambda>_. Inr ()) (\<lambda>_ _. True) (\<lambda>x. x) 5 5 hello
            (quiet_front\<lparr>fr_bans := bans'\<rparr>)) = DroppedBanned"
proof -
  let ?m = "ban_manager_new (default_ban_config\<lparr>bc_max_failures := 1\<rparr>)"
  let ?f = "quiet_front\<lparr>fr_bans := ?m\<rparr>"
  let ?r = "record_failure no_net (\<lambda>_ _. True) 3 0 (V4 192 0 2 7) ''x'' ?m"
  let ?h = "handle_message (\<lambda>_ _ _. []) (\<lambda>_. Inr ()) (\<lambda>_ _. True) (\<lambda>x. x) 5 5 hello (quiet_front\<lparr>fr_bans := snd ?r\<rparr>)"
  let ?e = "\<lparr>be_ip = V4 192 0 2 7, be_reason = ''x'', be_banned_at = 0,
      be_expires_at = 3600000000000, be_failures = 1, be_manual = False, be_offense_count = 1\<rparr>"
  have "fst ?r = Some ?e"
    by (simp add: record_failure_def ban_manager_new_def default_ban_config_def is_whitelisted_def
        is_banned_def strikes_of_def prune_front_def offenses_of_def ban_duration_def sat_pow32_def
        sat_mul64_def u32_max_def u64_max_def secs_def Let_def)
  then have r: "record_failure no_net (\<lambda>_ _. True) 3 0 (V4 192 0 2 7) ''x'' (fr_bans ?f) = (Some ?e, snd ?r)"
    by (simp add: prod_eq_iff)
  have ok: "hm_ok (bm_bans (fr_bans ?f))" by (simp add: ban_manager_new_def)
  have ops: "\<forall>op \<in> set [Arrive 5 5 hello :: (unit, unit) front_op]. op_wall op < be_expires_at ?e \<and> \<not> lifts (V4 192 0 2 7) op"
    by simp
  have "(V4 192 0 2 7, fst ?h) \<in> set (front_trace (\<lambda>_ _ _. []) (\<lambda>_. Inr ()) no_net (\<lambda>_ _. True) (\<lambda>x. x)
      [Arrive 5 5 hello] (?f\<lparr>fr_bans := snd ?r\<rparr>))"
    by (simp add: case_prod_beta hello_def)
  from banned_address_never_dispatched [OF ok r ops this] r show ?thesis by auto
qed

end
