(* ===== verification/Bytes.thy ===== *)
theory Bytes
  imports Prelude "HOL-Library.Word"
begin

text \<open>
  Octets and big-endian integers, for the packet formats: \<^verbatim>\<open>from_be_bytes\<close> and \<^verbatim>\<open>to_be_bytes\<close> of
  the integer types, on slices of \<^verbatim>\<open>u8\<close>.
\<close>

unbundle bit_operations_syntax

type_synonym byte = "8 word"

definition be_nat :: "byte list \<Rightarrow> nat" where
  "be_nat bs = foldl (\<lambda>acc b. acc * 256 + unat b) 0 bs"

fun be_bytes :: "nat \<Rightarrow> nat \<Rightarrow> byte list" where
  "be_bytes 0 v = []"
| "be_bytes (Suc n) v = be_bytes n (v div 256) @ [word_of_nat v]"

named_theorems be_simps \<open>lengths, bounds and round trips of big-endian integers\<close>

lemma length_be_bytes [simp, be_simps]: "length (be_bytes n v) = n"
  by (induction n arbitrary: v) simp_all

lemma be_nat_snoc: "be_nat (bs @ [b]) = be_nat bs * 256 + unat b"
  by (simp add: be_nat_def)

lemma be_nat_Nil [simp]: "be_nat [] = 0"
  by (simp add: be_nat_def)

lemma unat_byte_less: "unat (b :: byte) < 256"
proof -
  have "unat b < 2 ^ LENGTH(8)" by (rule unsigned_less)
  then show ?thesis by simp
qed

lemma be_nat_less [be_simps]: "be_nat bs < 256 ^ length bs"
proof (induction bs rule: rev_induct)
  case Nil
  then show ?case by simp
next
  case (snoc b bs)
  have "be_nat bs * 256 + unat b < Suc (be_nat bs) * 256" using unat_byte_less [of b] by simp
  also have "\<dots> \<le> 256 ^ length bs * 256" using snoc.IH by (meson Suc_leI mult_le_mono1)
  finally show ?case by (simp add: be_nat_snoc mult.commute)
qed

lemma be_nat_be_bytes [be_simps]: "be_nat (be_bytes n v) = v mod 256 ^ n"
proof (induction n arbitrary: v)
  case 0
  then show ?case by simp
next
  case (Suc n)
  have "unat (word_of_nat v :: byte) = v mod 256" by (simp add: unat_of_nat)
  then have "be_nat (be_bytes (Suc n) v) = 256 * (v div 256 mod 256 ^ n) + v mod 256"
    by (simp add: be_nat_snoc Suc.IH)
  then show ?case by (simp add: mod_mult2_eq)
qed

lemma be_bytes_be_nat [be_simps]: "be_bytes (length bs) (be_nat bs) = bs"
proof (induction bs rule: rev_induct)
  case Nil
  then show ?case by simp
next
  case (snoc b bs)
  have "(be_nat bs * 256 + unat b) div 256 = be_nat bs" using unat_byte_less [of b] by simp
  moreover have "(word_of_nat (be_nat bs * 256 + unat b) :: byte) = b"
  proof -
    have "(256 :: byte) = 0" by (rule word_unat_eq_iff [THEN iffD2]) simp
    have "(word_of_nat (be_nat bs * 256 + unat b) :: byte) = word_of_nat (be_nat bs) * 256 + b" by simp
    also have "\<dots> = b" unfolding \<open>(256 :: byte) = 0\<close> by simp
    finally show ?thesis .
  qed
  ultimately show ?case using snoc.IH by (simp add: be_nat_snoc)
qed

lemma be_bytes_inject: "be_bytes n v = be_bytes n w \<Longrightarrow> v < 256 ^ n \<Longrightarrow> w < 256 ^ n \<Longrightarrow> v = w"
  by (metis be_nat_be_bytes mod_less)

text \<open>The XOR of two octet strings, as far as the shorter one goes, keeping the rest of the first.\<close>

fun xor_onto :: "byte list \<Rightarrow> byte list \<Rightarrow> byte list" where
  "xor_onto (b # bs) (s # ss) = (b XOR s) # xor_onto bs ss"
| "xor_onto bs _ = bs"

lemma length_xor_onto [simp]: "length (xor_onto bs ss) = length bs"
  by (induction bs ss rule: xor_onto.induct) simp_all

lemma xor_onto_twice [simp]: "xor_onto (xor_onto bs ss) ss = bs"
  by (induction bs ss rule: xor_onto.induct) (simp_all add: xor.assoc)

lemma xor_onto_inject: "xor_onto bs ss = xor_onto cs ss \<Longrightarrow> bs = cs"
  by (metis xor_onto_twice)

text \<open>Octets are compared bit by bit.\<close>

lemma byte_eq_iff: "b = c \<longleftrightarrow> (\<forall>n \<in> set [0, 1, 2, 3, 4, 5, 6, 7]. bit b n = bit c n)" for b c :: byte
proof
  assume a: "\<forall>n \<in> set [0, 1, 2, 3, 4, 5, 6, 7]. bit b n = bit c n"
  show "b = c"
  proof (rule bit_word_eqI)
    fix n assume "n < LENGTH(8)"
    then have "n \<in> set [0, 1, 2, 3, 4, 5, 6, 7]" by auto
    with a show "bit b n = bit c n" by blast
  qed
qed simp

text \<open>A big-endian field of a packet.\<close>

definition field :: "nat \<Rightarrow> nat \<Rightarrow> byte list \<Rightarrow> nat" where
  "field pos n p = be_nat (take n (drop pos p))"

lemma field_less: "field pos n p < 256 ^ n"
proof -
  have "field pos n p < 256 ^ length (take n (drop pos p))" unfolding field_def by (rule be_nat_less)
  also have "\<dots> \<le> 256 ^ n" by (rule power_increasing) simp_all
  finally show ?thesis .
qed

text \<open>\<^verbatim>\<open>p[pos .. pos + len].copy_from_slice(bs)\<close>\<close>

definition put_bytes :: "nat \<Rightarrow> byte list \<Rightarrow> byte list \<Rightarrow> byte list" where
  "put_bytes pos bs p = take pos p @ bs @ drop (pos + length bs) p"

lemma length_put_bytes: "pos + length bs \<le> length p \<Longrightarrow> length (put_bytes pos bs p) = length p"
  by (simp add: put_bytes_def)

lemma field_put_bytes: "pos + length bs \<le> length p \<Longrightarrow> field pos (length bs) (put_bytes pos bs p) = be_nat bs"
  by (simp add: field_def put_bytes_def)

end
