(* ===== verification/Srtp_Stream.thy ===== *)
theory Srtp_Stream
  imports Bytes
begin

text \<open>
  \<^verbatim>\<open>StreamState\<close> of \<^verbatim>\<open>crates/sbc-core/src/media/srtp_crypto.rs\<close>: the rollover counter and the
  replay list of one SSRC in one direction (RFC 3711, 3.3.1 and 3.3.2). Sequence numbers, counters
  and indices are naturals below \<open>2 ^ 16\<close>, \<open>2 ^ 32\<close> and \<open>2 ^ 48\<close>; the replay list is the 64-bit map
  of the code.
\<close>

section \<open>Data and operations\<close>

definition REPLAY_WINDOW :: nat where "REPLAY_WINDOW = 64"

record stream_state =
  st_roc :: nat
  st_s_l :: nat
  st_started :: bool
  st_highest_index :: nat
  st_replay :: "64 word"
  st_last_used :: nat

definition stream_default :: stream_state where
  "stream_default = \<lparr>st_roc = 0, st_s_l = 0, st_started = False, st_highest_index = 0, st_replay = 0,
     st_last_used = 0\<rparr>"

definition estimate :: "stream_state \<Rightarrow> nat \<Rightarrow> (nat \<times> nat) option" where
  "estimate st seq =
     (if \<not> st_started st then Some (seq, 0)
      else
        let s_l = st_s_l st; roc = st_roc st;
            v = (if s_l < 32768
                 then if int seq - int s_l > 32768 then (if roc = 0 then None else Some (roc - 1))
                      else Some roc
                 else if int s_l - 32768 > int seq then (if roc = u32_max then None else Some (roc + 1))
                      else Some roc)
        in map_option (\<lambda>v. (v * 65536 + seq, v)) v)"

definition accept :: "nat \<Rightarrow> nat \<Rightarrow> nat \<Rightarrow> stream_state \<Rightarrow> stream_state" where
  "accept index roc seq st =
     (if \<not> st_started st
      then st\<lparr>st_started := True, st_s_l := seq, st_roc := roc, st_highest_index := index, st_replay := 1\<rparr>
      else if st_highest_index st < index
      then if roc \<noteq> st_roc st \<and> roc \<noteq> incr32 (st_roc st) then st
           else
             let shift = index - st_highest_index st
             in st\<lparr>st_replay := (if 64 \<le> shift then 0 else push_bit shift (st_replay st)) OR 1,
                   st_highest_index := index, st_s_l := seq, st_roc := roc\<rparr>
      else
        let behind = st_highest_index st - index
        in if behind < 64 then st\<lparr>st_replay := st_replay st OR push_bit behind 1\<rparr> else st)"

definition is_replayed :: "nat \<Rightarrow> stream_state \<Rightarrow> bool" where
  "is_replayed index st \<longleftrightarrow>
     (if \<not> st_started st then False
      else if st_highest_index st < index then False
      else
        let behind = st_highest_index st - index
        in if REPLAY_WINDOW \<le> behind then True else st_replay st AND push_bit behind 1 \<noteq> 0)"

section \<open>What the state remembers\<close>

text \<open>
  The abstract view of a stream is the set of the indices accepted so far. The state remembers its
  maximum, split into rollover counter and sequence number, and exactly the members of the last 64.
\<close>

definition remembers_set :: "nat set \<Rightarrow> stream_state \<Rightarrow> bool" where
  "remembers_set A st \<longleftrightarrow>
     (if st_started st
      then st_highest_index st \<in> A \<and> (\<forall>a \<in> A. a \<le> st_highest_index st) \<and>
           st_highest_index st = st_roc st * 65536 + st_s_l st \<and> st_s_l st < 65536 \<and> st_roc st \<le> u32_max \<and>
           (\<forall>n < 64. bit (st_replay st) n \<longleftrightarrow> n \<le> st_highest_index st \<and> st_highest_index st - n \<in> A)
      else A = {})"

lemma replayed_iff:
  assumes "remembers_set A st" and "st_started st"
  shows "is_replayed i st \<longleftrightarrow> i \<le> st_highest_index st \<and> (64 \<le> st_highest_index st - i \<or> i \<in> A)"
proof (cases "i \<le> st_highest_index st \<and> st_highest_index st - i < 64")
  case True
  then have "bit (st_replay st) (st_highest_index st - i) \<longleftrightarrow> i \<in> A"
    using assms by (auto simp: remembers_set_def)
  then show ?thesis using True assms(2)
    by (auto simp: is_replayed_def REPLAY_WINDOW_def and_exp_eq_0_iff_not_bit)
next
  case False
  then show ?thesis using assms by (auto simp: is_replayed_def REPLAY_WINDOW_def)
qed

lemma not_replayed_fresh:
  assumes "remembers_set A st" and "\<not> is_replayed i st"
  shows "i \<notin> A"
proof (cases "st_started st")
  case True
  then show ?thesis using assms replayed_iff [OF assms(1) True, of i] by (auto simp: remembers_set_def)
next
  case False
  then show ?thesis using assms by (simp add: remembers_set_def)
qed

text \<open>The estimate is of the rollover counter before, at or after the current one.\<close>

lemma estimate_cases:
  assumes "estimate st seq = Some (i, roc)" and "st_started st"
  shows "i = roc * 65536 + seq \<and> (roc = st_roc st \<or> roc + 1 = st_roc st \<or> roc = st_roc st + 1 \<and> st_roc st \<noteq> u32_max)"
  using assms by (auto simp: estimate_def Let_def split: if_splits)

lemma estimate_index: "estimate st seq = Some (i, roc) \<Longrightarrow> i = roc * 65536 + seq"
  by (auto simp: estimate_def Let_def split: if_splits)

lemma bit_accept_shift:
  assumes "n < 64" and "shift > 0"
  shows "bit ((if 64 \<le> shift then 0 else push_bit shift (w :: 64 word)) OR 1) n \<longleftrightarrow>
    n = 0 \<or> shift \<le> n \<and> bit w (n - shift)"
  using assms by (auto simp: bit_simps)

lemma accept_first:
  assumes "remembers_set A st" and "\<not> st_started st" and "estimate st seq = Some (i, roc)" and "seq < 65536"
  shows "remembers_set (insert i A) (accept i roc seq st)"
proof -
  have i: "i = seq" "roc = 0" "A = {}" using assms by (simp_all add: estimate_def remembers_set_def)
  have "n \<noteq> 0 \<Longrightarrow> n \<le> seq \<Longrightarrow> seq - n \<noteq> seq" for n by simp
  then show ?thesis using assms(2,4) by (auto simp: i accept_def remembers_set_def u32_max_def bit_1_iff)
qed

lemma accept_newer:
  assumes "remembers_set A st" and "st_started st" and "estimate st seq = Some (i, roc)" and "seq < 65536"
    and "st_highest_index st < i"
  shows "remembers_set (insert i A) (accept i roc seq st)"
proof -
  let ?h = "st_highest_index st"
  have c: "i = roc * 65536 + seq" "roc = st_roc st \<or> roc = st_roc st + 1 \<and> st_roc st \<noteq> u32_max"
    "st_roc st \<le> u32_max" "\<forall>a \<in> A. a \<le> ?h"
    and bits: "\<forall>n < 64. bit (st_replay st) n \<longleftrightarrow> n \<le> ?h \<and> ?h - n \<in> A"
    using estimate_cases [OF assms(3,2)] assms by (auto simp: remembers_set_def)
  have wrap: "roc = st_roc st \<or> roc = incr32 (st_roc st)"
    using c(2,3) by (auto simp: incr32_def u32_max_def)
  let ?st = "accept i roc seq st"
  have st: "?st = st\<lparr>st_replay := (if 64 \<le> i - ?h then 0 else push_bit (i - ?h) (st_replay st)) OR 1,
      st_highest_index := i, st_s_l := seq, st_roc := roc\<rparr>"
    using assms(2,5) wrap by (auto simp: accept_def Let_def)
  have b: "bit (st_replay ?st) n \<longleftrightarrow> n \<le> i \<and> i - n \<in> insert i A" if "n < 64" for n
  proof (cases "n = 0")
    case True
    then show ?thesis by (simp add: st bit_simps)
  next
    case False
    have "bit (st_replay ?st) n \<longleftrightarrow> i - ?h \<le> n \<and> bit (st_replay st) (n - (i - ?h))"
      using bit_accept_shift [OF that, of "i - ?h" "st_replay st"] assms(5) False by (simp add: st)
    also have "\<dots> \<longleftrightarrow> i - ?h \<le> n \<and> n \<le> i \<and> i - n \<in> A"
    proof (cases "i - ?h \<le> n")
      case True
      then have "n - (i - ?h) \<le> ?h \<longleftrightarrow> n \<le> i" "n \<le> i \<Longrightarrow> ?h - (n - (i - ?h)) = i - n"
        using assms(5) by auto
      then show ?thesis using True bits that by auto
    qed simp
    also have "\<dots> \<longleftrightarrow> n \<le> i \<and> i - n \<in> insert i A"
      using c(4) assms(5) False by auto
    finally show ?thesis .
  qed
  have "roc \<le> u32_max" using c(2,3) by (auto simp: u32_max_def)
  have f: "st_started ?st" "st_highest_index ?st = i" "st_s_l ?st = seq" "st_roc ?st = roc"
    using assms(2) by (simp_all add: st)
  have "\<forall>a \<in> insert i A. a \<le> i" using c(4) assms(5) by auto
  then show ?thesis using b c(1) \<open>roc \<le> u32_max\<close> assms(4) f(1) unfolding remembers_set_def f(2-4) by simp
qed

lemma accept_older:
  assumes "remembers_set A st" and "st_started st" and "i \<le> st_highest_index st"
    and "\<not> is_replayed i st"
  shows "remembers_set (insert i A) (accept i roc seq st)"
proof -
  let ?h = "st_highest_index st"
  have near: "?h - i < 64" using assms(3,4) replayed_iff [OF assms(1,2)] by auto
  then have st: "accept i roc seq st = st\<lparr>st_replay := st_replay st OR push_bit (?h - i) 1\<rparr>"
    using assms(2,3) by (simp add: accept_def Let_def)
  have "bit (st_replay st OR push_bit (?h - i) 1) n \<longleftrightarrow> n \<le> ?h \<and> ?h - n \<in> insert i A" if "n < 64" for n
  proof -
    have "n = ?h - i \<longleftrightarrow> n \<le> ?h \<and> ?h - n = i" using assms(3) by auto
    then show ?thesis using that assms(1,2) by (auto simp: bit_simps remembers_set_def)
  qed
  then show ?thesis using assms(1-3) by (auto simp: st remembers_set_def)
qed

lemma accept_remembers:
  assumes "remembers_set A st" and "estimate st seq = Some (i, roc)" and "seq < 65536" and "\<not> is_replayed i st"
  shows "remembers_set (insert i A) (accept i roc seq st)" and "i \<notin> A" and "st_started (accept i roc seq st)"
proof -
  show "remembers_set (insert i A) (accept i roc seq st)"
    using assms accept_first accept_newer accept_older by (metis not_less)
  show "i \<notin> A" using assms(1,4) by (rule not_replayed_fresh)
  show "st_started (accept i roc seq st)" by (auto simp: accept_def Let_def)
qed

section \<open>The estimate is the nearest index\<close>

lemma split_index:
  fixes i :: nat
  obtains v seq where "i = v * 65536 + seq" and "seq < 65536" and "v = i div 65536" and "seq = i mod 65536"
  by (metis div_mult_mod_eq mod_less_divisor zero_less_numeral)

lemma estimate_recovers:
  assumes "remembers_set A st" and "st_started st" and "i < 2 ^ 48"
    and "st_highest_index st < i + 32768" and "i < st_highest_index st + 32768"
  shows "estimate st (i mod 65536) = Some (i, i div 65536)"
proof -
  obtain v seq where i: "i = v * 65536 + seq" "seq < 65536" "v = i div 65536" "seq = i mod 65536"
    by (rule split_index)
  let ?r = "st_roc st" and ?s = "st_s_l st"
  have h: "st_highest_index st = ?r * 65536 + ?s" "?s < 65536" using assms by (simp_all add: remembers_set_def)
  have near: "?r * 65536 + ?s < v * 65536 + seq + 32768" "v * 65536 + seq < ?r * 65536 + ?s + 32768"
    using assms(4,5) h i(1) by simp_all
  have v: "v \<le> u32_max" using assms(3) i(3) by (simp add: u32_max_def)
  consider "v = ?r" | "v + 1 = ?r" | "v = ?r + 1"
    using near h(2) i(2) by linarith
  then have "estimate st seq = Some (v * 65536 + seq, v)"
  proof cases
    case 1
    then have "\<not> int seq - int ?s > 32768" "\<not> int ?s - 32768 > int seq" using near by linarith+
    then show ?thesis using 1 assms(2) by (simp add: estimate_def Let_def)
  next
    case 2
    then have "?s < 32768" "int seq - int ?s > 32768" "?r \<noteq> 0" "?r - 1 = v" using near i(2) by linarith+
    then show ?thesis using assms(2) by (simp add: estimate_def)
  next
    case 3
    then have "\<not> ?s < 32768" "int ?s - 32768 > int seq" "?r \<noteq> u32_max" using near h(2) v by linarith+
    then show ?thesis using assms(2) 3 by (simp add: estimate_def Let_def)
  qed
  with i(1) [symmetric] have "estimate st seq = Some (i, v)" by simp
  then show ?thesis by (simp only: i(3,4))
qed

end
