(* ===== verification/Srtp.thy ===== *)
theory Srtp
  imports Srtp_Stream Text
begin

text \<open>
  \<^verbatim>\<open>SrtpCrypto\<close> and \<^verbatim>\<open>SrtcpCrypto\<close> of \<^verbatim>\<open>crates/sbc-core/src/media/srtp_crypto.rs\<close>: encryption and
  authentication of RTP and RTCP packets. The ciphers come from crates and are parameters:
  \<open>ctr key iv n\<close> is the AES-128-CTR keystream of \<open>n\<close> octets, \<open>hmac key msg\<close> is HMAC-SHA1; what is
  used of them is that they return that many, respectively twenty, octets (\<open>crypto_ok\<close>). Error
  texts are shortened to their fixed part.
\<close>

section \<open>Data\<close>

definition MAX_STREAMS :: nat where "MAX_STREAMS = 16"

type_synonym streams = "(nat, stream_state) hmap"

record srtp_crypto =
  sc_cipher_key :: "byte list"
  sc_auth_key :: "byte list"
  sc_salt_key :: "byte list"
  sc_auth_tag_len :: nat
  sc_send :: streams
  sc_recv :: streams
  sc_clock :: nat

definition key_lengths_ok :: "byte list \<Rightarrow> byte list \<Rightarrow> byte list \<Rightarrow> nat \<Rightarrow> unit result" where
  "key_lengths_ok cipher_key auth_key salt_key auth_tag_len =
     (if length cipher_key \<noteq> 16 \<and> length cipher_key \<noteq> 32 then Inl (MediaErr ''Invalid cipher key length'')
      else if length auth_key \<noteq> 20 then Inl (MediaErr ''Invalid auth key length'')
      else if length salt_key \<noteq> 14 then Inl (MediaErr ''Invalid salt key length'')
      else if auth_tag_len \<noteq> 10 \<and> auth_tag_len \<noteq> 4 then Inl (MediaErr ''Invalid auth tag length'')
      else Inr ())"

definition srtp_crypto_new :: "byte list \<Rightarrow> byte list \<Rightarrow> byte list \<Rightarrow> nat \<Rightarrow> srtp_crypto result" where
  "srtp_crypto_new cipher_key auth_key salt_key auth_tag_len =
     (case key_lengths_ok cipher_key auth_key salt_key auth_tag_len of
        Inl e \<Rightarrow> Inl e
      | Inr _ \<Rightarrow> Inr \<lparr>sc_cipher_key = cipher_key, sc_auth_key = auth_key, sc_salt_key = salt_key,
                   sc_auth_tag_len = auth_tag_len, sc_send = [], sc_recv = [], sc_clock = 0\<rparr>)"

section \<open>Packets\<close>

definition packet_ssrc :: "byte list \<Rightarrow> nat" where "packet_ssrc p = field 8 4 p"
definition packet_seq :: "byte list \<Rightarrow> nat" where "packet_seq p = field 2 2 p"

definition get_rtp_header_length :: "byte list \<Rightarrow> nat result" where
  "get_rtp_header_length packet =
     (if length packet < 12 then Inl (MediaErr ''Packet too short for RTP header'')
      else
        let h0 = 12 + unat (packet ! 0 AND 0x0F) * 4
        in if packet ! 0 AND 0x10 \<noteq> 0
           then if length packet < h0 + 4 then Inl (MediaErr ''Packet too short for extension'')
                else
                  let h1 = h0 + (4 + field (h0 + 2) 2 packet * 4)
                  in if length packet < h1 then Inl (MediaErr ''Invalid RTP header length'') else Inr h1
           else if length packet < h0 then Inl (MediaErr ''Invalid RTP header length'') else Inr h0)"

definition derive_iv :: "byte list \<Rightarrow> nat \<Rightarrow> nat \<Rightarrow> nat \<Rightarrow> byte list" where
  "derive_iv salt_key ssrc seq roc =
     (let packet_index = roc * 65536 + seq
      in xor_onto (replicate 4 0 @ be_bytes 4 ssrc @ be_bytes 6 packet_index @ [0, 0]) salt_key)"

definition compute_auth_tag ::
  "(byte list \<Rightarrow> byte list \<Rightarrow> byte list) \<Rightarrow> srtp_crypto \<Rightarrow> byte list \<Rightarrow> nat \<Rightarrow> byte list"
where
  "compute_auth_tag hmac c packet roc = hmac (sc_auth_key c) (packet @ be_bytes 4 roc)"

section \<open>Streams\<close>

definition enter_stream :: "nat \<Rightarrow> nat \<Rightarrow> streams \<Rightarrow> stream_state \<times> streams" where
  "enter_stream ssrc now streams =
     (let st = (case hm_get streams ssrc of Some s \<Rightarrow> s | None \<Rightarrow> stream_default)\<lparr>st_last_used := now\<rparr>
      in (st, hm_insert ssrc st streams))"

definition stream_mut :: "nat \<Rightarrow> streams \<Rightarrow> nat \<Rightarrow> stream_state option \<times> streams \<times> nat" where
  "stream_mut ssrc streams clock =
     (let now = incr64 clock
      in if \<not> hm_contains streams ssrc \<and> MAX_STREAMS \<le> length streams
         then case min_by_key (\<lambda>(_, st). st_last_used st) (filter (\<lambda>(_, st). \<not> st_started st) streams) of
                None \<Rightarrow> (None, streams, now)
              | Some (k, _) \<Rightarrow> let (st, t) = enter_stream ssrc now (hm_remove k streams) in (Some st, t, now)
         else let (st, t) = enter_stream ssrc now streams in (Some st, t, now))"

text \<open>The sender's index for a packet: the block of \<^verbatim>\<open>encrypt_rtp\<close> that yields the rollover counter.\<close>

definition sender_index :: "nat \<Rightarrow> nat \<Rightarrow> srtp_crypto \<Rightarrow> nat result \<times> srtp_crypto" where
  "sender_index ssrc seq c =
     (let (s, send, clock) = stream_mut ssrc (sc_send c) (sc_clock c);
          c1 = c\<lparr>sc_send := send, sc_clock := clock\<rparr>
      in case s of
           None \<Rightarrow> (Inl (MediaErr ''SRTP: streams already live''), c1)
         | Some st \<Rightarrow>
             (case estimate st seq of
                None \<Rightarrow> (Inl (MediaErr ''SRTP: no plausible packet index''), c1)
              | Some (index, roc) \<Rightarrow>
                  if is_replayed index st then (Inl (MediaErr ''SRTP index reuse refused''), c1)
                  else (Inr roc, c1\<lparr>sc_send := hm_insert ssrc (accept index roc seq st) send\<rparr>)))"

definition encrypt_rtp ::
  "(byte list \<Rightarrow> byte list \<Rightarrow> nat \<Rightarrow> byte list) \<Rightarrow> (byte list \<Rightarrow> byte list \<Rightarrow> byte list) \<Rightarrow>
   byte list \<Rightarrow> srtp_crypto \<Rightarrow> byte list result \<times> srtp_crypto"
where
  "encrypt_rtp ctr hmac rtp_packet c =
     (if length rtp_packet < 12 then (Inl (MediaErr ''RTP packet too short''), c)
      else case get_rtp_header_length rtp_packet of
        Inl e \<Rightarrow> (Inl e, c)
      | Inr header_len \<Rightarrow>
          let header = take header_len rtp_packet; payload = drop header_len rtp_packet;
              ssrc = packet_ssrc rtp_packet; seq = packet_seq rtp_packet;
              (r, c1) = sender_index ssrc seq c
          in case r of
               Inl e \<Rightarrow> (Inl e, c1)
             | Inr roc \<Rightarrow>
                 let iv = derive_iv (sc_salt_key c1) ssrc seq roc;
                     encrypted_payload =
                       (if length (sc_cipher_key c1) = 16
                        then xor_onto payload (ctr (take 16 (sc_cipher_key c1)) iv (length payload))
                        else payload);
                     srtp_packet = header @ encrypted_payload;
                     auth_tag = compute_auth_tag hmac c1 srtp_packet roc
                 in (Inr (srtp_packet @ take (sc_auth_tag_len c1) auth_tag), c1))"

text \<open>The receiver's index for a packet: read-only.\<close>

definition receiver_index :: "nat \<Rightarrow> nat \<Rightarrow> srtp_crypto \<Rightarrow> (nat \<times> nat) result" where
  "receiver_index ssrc seq c =
     (let existing = hm_get (sc_recv c) ssrc;
          probe = (case existing of Some st \<Rightarrow> estimate st seq | None \<Rightarrow> estimate stream_default seq)
      in case probe of
           None \<Rightarrow> Inl (MediaErr ''SRTP: no plausible packet index'')
         | Some (index, roc) \<Rightarrow>
             if (case existing of Some st \<Rightarrow> is_replayed index st | None \<Rightarrow> False)
             then Inl (MediaErr ''SRTP replay'')
             else Inr (index, roc))"

definition decrypt_srtp ::
  "(byte list \<Rightarrow> byte list \<Rightarrow> nat \<Rightarrow> byte list) \<Rightarrow> (byte list \<Rightarrow> byte list \<Rightarrow> byte list) \<Rightarrow>
   byte list \<Rightarrow> srtp_crypto \<Rightarrow> byte list result \<times> srtp_crypto"
where
  "decrypt_srtp ctr hmac srtp_packet c =
     (if length srtp_packet < 12 + sc_auth_tag_len c then (Inl (MediaErr ''SRTP packet too short''), c)
      else
        let packet_len = length srtp_packet - sc_auth_tag_len c;
            packet = take packet_len srtp_packet; received_tag = drop packet_len srtp_packet;
            ssrc = packet_ssrc packet; seq = packet_seq packet
        in case receiver_index ssrc seq c of
             Inl e \<Rightarrow> (Inl e, c)
           | Inr (index, roc) \<Rightarrow>
               if take (sc_auth_tag_len c) (compute_auth_tag hmac c packet roc) \<noteq> received_tag
               then (Inl (MediaErr ''SRTP authentication failed''), c)
               else
                 let (s, recv, clock) = stream_mut ssrc (sc_recv c) (sc_clock c);
                     c1 = c\<lparr>sc_recv := recv, sc_clock := clock\<rparr>
                 in case s of
                      None \<Rightarrow> (Inl (MediaErr ''SRTP: streams already live''), c1)
                    | Some st \<Rightarrow>
                        let c2 = c1\<lparr>sc_recv := hm_insert ssrc (accept index roc seq st) recv\<rparr>
                        in case get_rtp_header_length packet of
                             Inl e \<Rightarrow> (Inl e, c2)
                           | Inr header_len \<Rightarrow>
                               let header = take header_len packet;
                                   encrypted_payload = drop header_len packet;
                                   iv = derive_iv (sc_salt_key c2) ssrc seq roc;
                                   plaintext = xor_onto encrypted_payload
                                     (ctr (take 16 (sc_cipher_key c2)) iv (length encrypted_payload))
                               in (Inr (header @ plaintext), c2))"

definition crypto_ok ::
  "(byte list \<Rightarrow> byte list \<Rightarrow> nat \<Rightarrow> byte list) \<Rightarrow> (byte list \<Rightarrow> byte list \<Rightarrow> byte list) \<Rightarrow> bool"
where
  "crypto_ok ctr hmac \<longleftrightarrow> (\<forall>k iv n. length (ctr k iv n) = n) \<and> (\<forall>k m. length (hmac k m) = 20)"

section \<open>The stream table\<close>

text \<open>\<open>A ssrc\<close> is the set of all indices ever accepted for that SSRC.\<close>

definition table_remembers :: "(nat \<Rightarrow> nat set) \<Rightarrow> streams \<Rightarrow> bool" where
  "table_remembers A t \<longleftrightarrow> hm_ok t \<and>
     (\<forall>ssrc. case hm_get t ssrc of None \<Rightarrow> A ssrc = {} | Some st \<Rightarrow> remembers_set (A ssrc) st)"

lemma remembers_last_used [simp]: "remembers_set A (st\<lparr>st_last_used := n\<rparr>) = remembers_set A st"
  by (simp add: remembers_set_def)

lemma remembers_default [simp]: "remembers_set A stream_default \<longleftrightarrow> A = {}"
  by (simp add: remembers_set_def stream_default_def)

lemma enter_stream_remembers:
  assumes "table_remembers A t" and "enter_stream ssrc now t = (st, t')"
  shows "table_remembers A t' \<and> hm_get t' ssrc = Some st \<and> remembers_set (A ssrc) st"
proof -
  have g: "case hm_get t x of None \<Rightarrow> A x = {} | Some st \<Rightarrow> remembers_set (A x) st" for x
    using assms(1) by (simp add: table_remembers_def)
  have st: "st = (case hm_get t ssrc of Some s \<Rightarrow> s | None \<Rightarrow> stream_default)\<lparr>st_last_used := now\<rparr>"
    and t': "t' = hm_insert ssrc st t"
    using assms(2) by (auto simp: enter_stream_def Let_def)
  have r: "remembers_set (A ssrc) st" using g [of ssrc] by (simp add: st split: option.splits)
  then show ?thesis using assms(1) g by (simp add: t' table_remembers_def hm_get_insert)
qed

text \<open>Only a stream that has carried nothing is evicted.\<close>

lemma evict_remembers:
  assumes "table_remembers A t"
    and "min_by_key (\<lambda>(_, st). st_last_used st) (filter (\<lambda>(_, st). \<not> st_started st) t) = Some (k, st)"
  shows "table_remembers A (hm_remove k t)"
proof -
  have "(k, st) \<in> set (filter (\<lambda>(_, st). \<not> st_started st) t)" using min_by_key_Some [OF assms(2)] by simp
  then have k: "hm_get t k = Some st" "\<not> st_started st"
    using assms(1) by (auto simp: table_remembers_def hm_get_in_set [symmetric])
  have "A k = {}" using assms(1) k by (auto simp: table_remembers_def remembers_set_def split: option.splits)
  then show ?thesis using assms(1) by (auto simp: table_remembers_def hm_get_remove)
qed

lemma stream_mut_remembers:
  assumes "table_remembers A t" and "stream_mut ssrc t clock = (s, t', clock')"
  shows "table_remembers A t' \<and>
     (case s of None \<Rightarrow> t' = t | Some st \<Rightarrow> hm_get t' ssrc = Some st \<and> remembers_set (A ssrc) st)"
proof (cases "\<not> hm_contains t ssrc \<and> MAX_STREAMS \<le> length t")
  case False
  obtain st t2 where e: "enter_stream ssrc (incr64 clock) t = (st, t2)" by fastforce
  have "stream_mut ssrc t clock = (Some st, t2, incr64 clock)"
    using False e by (auto simp: stream_mut_def Let_def)
  with assms(2) enter_stream_remembers [OF assms(1) e] show ?thesis by auto
next
  case True
  let ?m = "min_by_key (\<lambda>(_, st). st_last_used st) (filter (\<lambda>(_, st). \<not> st_started st) t)"
  show ?thesis
  proof (cases ?m)
    case None
    then show ?thesis using assms True by (auto simp: stream_mut_def Let_def)
  next
    case (Some x)
    obtain k st where x: "x = (k, st)" by (cases x)
    have r: "table_remembers A (hm_remove k t)" using evict_remembers [OF assms(1)] Some x by simp
    obtain st' t2 where e: "enter_stream ssrc (incr64 clock) (hm_remove k t) = (st', t2)" by fastforce
    have "(s, t') = (Some st', t2)" using assms(2) True Some x e by (simp add: stream_mut_def Let_def)
    with enter_stream_remembers [OF r e] show ?thesis by simp
  qed
qed

lemma table_accept:
  assumes "table_remembers A t" and "remembers_set (A ssrc) st" and "estimate st seq = Some (i, roc)"
    and "seq < 65536" and "\<not> is_replayed i st"
  shows "table_remembers (A(ssrc := insert i (A ssrc))) (hm_insert ssrc (accept i roc seq st) t)" and "i \<notin> A ssrc"
proof -
  note a = accept_remembers [OF assms(2-5)]
  show "table_remembers (A(ssrc := insert i (A ssrc))) (hm_insert ssrc (accept i roc seq st) t)"
    unfolding table_remembers_def
  proof (intro conjI allI)
    show "hm_ok (hm_insert ssrc (accept i roc seq st) t)" using assms(1) by (simp add: table_remembers_def)
    fix x
    show "case hm_get (hm_insert ssrc (accept i roc seq st) t) x of
        None \<Rightarrow> (A(ssrc := insert i (A ssrc))) x = {}
      | Some st \<Rightarrow> remembers_set ((A(ssrc := insert i (A ssrc))) x) st"
    proof (cases "x = ssrc")
      case True
      then show ?thesis using a(1) by (simp add: hm_get_insert)
    next
      case False
      then have "(A(ssrc := insert i (A ssrc))) x = A x" by simp
      then show ?thesis using False assms(1) by (simp only: hm_get_insert table_remembers_def if_False)
    qed
  qed
  show "i \<notin> A ssrc" by (rule a(2))
qed

section \<open>No keystream is used twice\<close>

lemma sender_index_remembers:
  assumes "table_remembers A (sc_send c)" and "seq < 65536" and "sender_index ssrc seq c = (r, c')"
  shows "case r of
      Inl e \<Rightarrow> table_remembers A (sc_send c')
    | Inr roc \<Rightarrow> roc * 65536 + seq \<notin> A ssrc \<and>
        table_remembers (A(ssrc := insert (roc * 65536 + seq) (A ssrc))) (sc_send c')"
proof -
  obtain s send clock where m: "stream_mut ssrc (sc_send c) (sc_clock c) = (s, send, clock)"
    by (metis prod_cases3)
  note t = stream_mut_remembers [OF assms(1) m]
  show ?thesis
  proof (cases s)
    case None
    then show ?thesis using t assms(3) by (auto simp: sender_index_def m)
  next
    case (Some st)
    show ?thesis
    proof (cases "estimate st seq")
      case None
      then show ?thesis using Some t assms(3) by (auto simp: sender_index_def m)
    next
      case (Some x)
      obtain i roc where x: "x = (i, roc)" by (cases x)
      show ?thesis
      proof (cases "is_replayed i st")
        case True
        then show ?thesis using \<open>s = Some st\<close> Some x t assms(3) by (auto simp: sender_index_def m)
      next
        case False
        have e: "estimate st seq = Some (i, roc)" using Some x by simp
        have "r = Inr roc" "sc_send c' = hm_insert ssrc (accept i roc seq st) send"
          using \<open>s = Some st\<close> e False assms(3) by (auto simp: sender_index_def m)
        then show ?thesis
          using table_accept [of A send ssrc st seq i roc] t \<open>s = Some st\<close> e False assms(2) estimate_index [OF e]
          by simp
      qed
    qed
  qed
qed

lemma packet_seq_less: "packet_seq p < 65536"
  using field_less [of 2 2 p] by (simp add: packet_seq_def)

lemma packet_ssrc_less: "packet_ssrc p < 2 ^ 32"
  using field_less [of 8 4 p] by (simp add: packet_ssrc_def)

lemma sender_index_frame:
  assumes "sender_index ssrc seq c = (r, c')"
  shows "sc_salt_key c' = sc_salt_key c" "sc_recv c' = sc_recv c" "sc_cipher_key c' = sc_cipher_key c"
    "sc_auth_key c' = sc_auth_key c" "sc_auth_tag_len c' = sc_auth_tag_len c"
  using assms by (auto simp: sender_index_def Let_def split: prod.splits option.splits if_splits)

lemma encrypt_rtp_index:
  assumes "encrypt_rtp ctr hmac p c = (r, c')"
  shows "(case r of
            Inl e \<Rightarrow> c' = c \<or> (\<exists>e'. sender_index (packet_ssrc p) (packet_seq p) c = (Inl e', c'))
          | Inr out \<Rightarrow> \<exists>roc. sender_index (packet_ssrc p) (packet_seq p) c = (Inr roc, c'))"
proof -
  obtain x c1 where i: "sender_index (packet_ssrc p) (packet_seq p) c = (x, c1)" by fastforce
  show ?thesis using assms
    by (cases x) (auto simp: encrypt_rtp_def i Let_def split: if_splits sum.splits)
qed

text \<open>A context used both ways, as the SDES relay uses it.\<close>

datatype srtp_op = Enc "byte list" | Dec "byte list"

definition sent_roc :: "byte list \<Rightarrow> srtp_crypto \<Rightarrow> nat" where
  "sent_roc p c = (case sender_index (packet_ssrc p) (packet_seq p) c of (Inr roc, _) \<Rightarrow> roc | _ \<Rightarrow> 0)"

definition received_part :: "byte list \<Rightarrow> srtp_crypto \<Rightarrow> byte list" where
  "received_part s c = take (length s - sc_auth_tag_len c) s"

definition received_index :: "byte list \<Rightarrow> srtp_crypto \<Rightarrow> nat" where
  "received_index s c =
     (case receiver_index (packet_ssrc (received_part s c)) (packet_seq (received_part s c)) c of
        Inr (index, _) \<Rightarrow> index | Inl _ \<Rightarrow> 0)"

text \<open>
  The initialisation vectors of the packets encrypted in a run, and the (SSRC, index) pairs of the
  packets decrypted in it.
\<close>

fun srtp_run ::
  "(byte list \<Rightarrow> byte list \<Rightarrow> nat \<Rightarrow> byte list) \<Rightarrow> (byte list \<Rightarrow> byte list \<Rightarrow> byte list) \<Rightarrow>
   srtp_op list \<Rightarrow> srtp_crypto \<Rightarrow> byte list list \<times> (nat \<times> nat) list"
where
  "srtp_run ctr hmac [] c = ([], [])"
| "srtp_run ctr hmac (Enc p # ops) c =
     (case encrypt_rtp ctr hmac p c of
        (Inl _, c') \<Rightarrow> srtp_run ctr hmac ops c'
      | (Inr _, c') \<Rightarrow>
          (let (ivs, xs) = srtp_run ctr hmac ops c'
           in (derive_iv (sc_salt_key c) (packet_ssrc p) (packet_seq p) (sent_roc p c) # ivs, xs)))"
| "srtp_run ctr hmac (Dec s # ops) c =
     (case decrypt_srtp ctr hmac s c of
        (Inl _, c') \<Rightarrow> srtp_run ctr hmac ops c'
      | (Inr _, c') \<Rightarrow>
          (let (ivs, xs) = srtp_run ctr hmac ops c'
           in (ivs, (packet_ssrc (received_part s c), received_index s c) # xs)))"

lemma derive_iv_inject:
  assumes "derive_iv salt ssrc seq roc = derive_iv salt ssrc' seq' roc'"
    and "ssrc < 2 ^ 32" "ssrc' < 2 ^ 32" "roc * 65536 + seq < 2 ^ 48" "roc' * 65536 + seq' < 2 ^ 48"
  shows "ssrc = ssrc' \<and> roc * 65536 + seq = roc' * 65536 + seq'"
proof -
  have "be_bytes 4 ssrc @ be_bytes 6 (roc * 65536 + seq) = be_bytes 4 ssrc' @ be_bytes 6 (roc' * 65536 + seq')"
    using xor_onto_inject [OF assms(1) [unfolded derive_iv_def Let_def]] by (simp del: be_bytes.simps)
  then have "be_bytes 4 ssrc = be_bytes 4 ssrc'"
    "be_bytes 6 (roc * 65536 + seq) = be_bytes 6 (roc' * 65536 + seq')"
    by (simp_all del: be_bytes.simps)
  with assms(2-5) show ?thesis using be_bytes_inject [of 4] be_bytes_inject [of 6] by simp
qed

lemma decrypt_srtp_frame:
  assumes "decrypt_srtp ctr hmac s c = (r, c')"
  shows "sc_send c' = sc_send c" "sc_salt_key c' = sc_salt_key c" "sc_auth_tag_len c' = sc_auth_tag_len c"
  using assms by (auto simp: decrypt_srtp_def Let_def split: prod.splits option.splits if_splits sum.splits)

lemma remembered_below:
  assumes "table_remembers A t" and "i \<in> A ssrc"
  shows "i < 2 ^ 48"
proof -
  obtain st where "hm_get t ssrc = Some st" "remembers_set (A ssrc) st"
    using assms by (auto simp: table_remembers_def split: option.splits)
  then have "i \<le> st_roc st * 65536 + st_s_l st" "st_s_l st < 65536" "st_roc st \<le> u32_max"
    using assms(2) by (auto simp: remembers_set_def split: if_splits)
  then show ?thesis by (simp add: u32_max_def)
qed

lemma encrypt_success:
  assumes "table_remembers A (sc_send c)" and "encrypt_rtp ctr hmac p c = (Inr out, c')"
  defines "i \<equiv> sent_roc p c * 65536 + packet_seq p"
  shows "i \<notin> A (packet_ssrc p)"
    and "table_remembers (A(packet_ssrc p := insert i (A (packet_ssrc p)))) (sc_send c')"
    and "sc_salt_key c' = sc_salt_key c"
proof -
  obtain roc where s: "sender_index (packet_ssrc p) (packet_seq p) c = (Inr roc, c')"
    using encrypt_rtp_index [OF assms(2)] by auto
  have roc: "sent_roc p c = roc" by (simp add: sent_roc_def s)
  show "i \<notin> A (packet_ssrc p)"
    and "table_remembers (A(packet_ssrc p := insert i (A (packet_ssrc p)))) (sc_send c')"
    using sender_index_remembers [OF assms(1) packet_seq_less s] by (simp_all add: i_def roc)
  show "sc_salt_key c' = sc_salt_key c" using sender_index_frame [OF s] by simp
qed

lemma encrypt_failure:
  assumes "table_remembers A (sc_send c)" and "encrypt_rtp ctr hmac p c = (Inl e, c')"
  shows "table_remembers A (sc_send c')" and "sc_salt_key c' = sc_salt_key c"
proof -
  consider "c' = c" | e' where "sender_index (packet_ssrc p) (packet_seq p) c = (Inl e', c')"
    using encrypt_rtp_index [OF assms(2)] by auto
  then show "table_remembers A (sc_send c')" and "sc_salt_key c' = sc_salt_key c"
    using assms(1) sender_index_remembers [OF assms(1) packet_seq_less] sender_index_frame
    by (cases; fastforce)+
qed

lemma run_ivs_fresh:
  "table_remembers A (sc_send c) \<Longrightarrow>
   distinct (fst (srtp_run ctr hmac ops c)) \<and>
   (\<forall>ssrc < 2 ^ 32. \<forall>seq roc. roc * 65536 + seq \<in> A ssrc \<longrightarrow>
      derive_iv (sc_salt_key c) ssrc seq roc \<notin> set (fst (srtp_run ctr hmac ops c)))"
proof (induction ctr hmac ops c arbitrary: A rule: srtp_run.induct)
  case (1 ctr hmac c)
  then show ?case by simp
next
  case (2 ctr hmac p ops c)
  obtain r c' where e: "encrypt_rtp ctr hmac p c = (r, c')" by fastforce
  show ?case
  proof (cases r)
    case (Inl err)
    note f = encrypt_failure [OF "2.prems" e [unfolded Inl]]
    from "2.IH"(1) [OF e [symmetric] Inl f(1)] show ?thesis by (simp add: e Inl f(2))
  next
    case (Inr out)
    let ?s = "packet_ssrc p" and ?q = "packet_seq p" and ?r = "sent_roc p c"
    let ?i = "?r * 65536 + ?q"
    let ?B = "A(?s := insert ?i (A ?s))"
    note ok = encrypt_success [OF "2.prems" e [unfolded Inr]]
    have IH: "distinct (fst (srtp_run ctr hmac ops c'))"
      "\<forall>ssrc < 2 ^ 32. \<forall>seq roc. roc * 65536 + seq \<in> ?B ssrc \<longrightarrow>
        derive_iv (sc_salt_key c) ssrc seq roc \<notin> set (fst (srtp_run ctr hmac ops c'))"
      using "2.IH"(2) [OF e [symmetric] Inr ok(2)] ok(3) by (auto simp del: fun_upd_apply)
    have new: "derive_iv (sc_salt_key c) ?s ?q ?r \<notin> set (fst (srtp_run ctr hmac ops c'))"
      using IH(2) packet_ssrc_less [of p] by simp
    have old: "derive_iv (sc_salt_key c) ssrc seq roc \<noteq> derive_iv (sc_salt_key c) ?s ?q ?r"
      if "ssrc < 2 ^ 32" "roc * 65536 + seq \<in> A ssrc" for ssrc seq roc
    proof
      assume eq: "derive_iv (sc_salt_key c) ssrc seq roc = derive_iv (sc_salt_key c) ?s ?q ?r"
      have "?i < 2 ^ 48" by (rule remembered_below [OF ok(2), of _ ?s]) simp
      from derive_iv_inject [OF eq that(1) packet_ssrc_less remembered_below [OF "2.prems" that(2)] this]
      have "?i \<in> A ?s" using that(2) by simp
      with ok(1) show False ..
    qed
    have kept: "derive_iv (sc_salt_key c) ssrc seq roc \<notin> set (fst (srtp_run ctr hmac ops c'))"
      if "ssrc < 2 ^ 32" "roc * 65536 + seq \<in> A ssrc" for ssrc seq roc
    proof -
      have "roc * 65536 + seq \<in> ?B ssrc" using that(2) by auto
      then show ?thesis using IH(2) that(1) by blast
    qed
    have run: "fst (srtp_run ctr hmac (Enc p # ops) c) =
        derive_iv (sc_salt_key c) ?s ?q ?r # fst (srtp_run ctr hmac ops c')"
      by (simp add: e Inr case_prod_beta)
    show ?thesis unfolding run using IH(1) new old kept by auto
  qed
next
  case (3 ctr hmac s ops c)
  obtain r c' where d: "decrypt_srtp ctr hmac s c = (r, c')" by fastforce
  note f = decrypt_srtp_frame [OF d]
  have "table_remembers A (sc_send c')" using "3.prems" f by simp
  then show ?case using "3.IH" d f by (cases r) (fastforce simp: case_prod_beta)+
qed

text \<open>
  C9: No keystream is used twice. Whatever packets a context is given to encrypt, in whatever
  order, with repeated or jumping sequence numbers, any number of SSRCs, and whatever it decrypts in
  between, no two of the packets it does encrypt share an initialisation vector.
\<close>

theorem keystream_never_reused:
  assumes "srtp_crypto_new cipher_key auth_key salt_key tag_len = Inr c"
  shows "distinct (fst (srtp_run ctr hmac ops c))"
proof -
  have "sc_send c = []" using assms by (auto simp: srtp_crypto_new_def split: sum.splits)
  then have "table_remembers (\<lambda>_. {}) (sc_send c)" by (simp add: table_remembers_def)
  from run_ivs_fresh [OF this] show ?thesis by simp
qed

text \<open>A context with zero keys and a keystream and tag of zeros, for examples.\<close>

definition zero_ctx :: srtp_crypto where
  "zero_ctx = \<lparr>sc_cipher_key = replicate 16 0, sc_auth_key = replicate 20 0, sc_salt_key = replicate 14 0,
     sc_auth_tag_len = 4, sc_send = [], sc_recv = [], sc_clock = 0\<rparr>"

definition zero_ctr :: "byte list \<Rightarrow> byte list \<Rightarrow> nat \<Rightarrow> byte list" where
  "zero_ctr k iv n = replicate n 0"

definition zero_hmac :: "byte list \<Rightarrow> byte list \<Rightarrow> byte list" where
  "zero_hmac k m = replicate 20 0"

lemma zero_ctx_new:
  "srtp_crypto_new (replicate 16 0) (replicate 20 0) (replicate 14 0) 4 = Inr zero_ctx"
  by (simp add: srtp_crypto_new_def key_lengths_ok_def zero_ctx_def)

theorem keystream_never_reused_witness:
  "distinct (fst (srtp_run zero_ctr zero_hmac
     [Enc (replicate 20 1), Enc (replicate 20 2), Dec (replicate 20 3), Enc (replicate 20 1)] zero_ctx))"
  by (rule keystream_never_reused [OF zero_ctx_new])

section \<open>No packet is accepted twice\<close>

lemma last_used_irrelevant [simp]:
  "estimate (st\<lparr>st_last_used := n\<rparr>) seq = estimate st seq"
  "is_replayed i (st\<lparr>st_last_used := n\<rparr>) = is_replayed i st"
  by (simp_all add: estimate_def is_replayed_def)

definition stream_of :: "nat \<Rightarrow> streams \<Rightarrow> stream_state" where
  "stream_of ssrc t = (case hm_get t ssrc of Some st \<Rightarrow> st | None \<Rightarrow> stream_default)"

lemma stream_mut_state:
  assumes "stream_mut ssrc t clock = (Some st, t', clock')"
  shows "\<exists>n. st = (stream_of ssrc t)\<lparr>st_last_used := n\<rparr>"
proof (cases "\<not> hm_contains t ssrc \<and> MAX_STREAMS \<le> length t")
  case False
  then have "st = fst (enter_stream ssrc (incr64 clock) t)"
    using assms by (auto simp: stream_mut_def Let_def case_prod_beta)
  then show ?thesis by (auto simp: enter_stream_def Let_def stream_of_def)
next
  case True
  then obtain k where k: "st = fst (enter_stream ssrc (incr64 clock) (hm_remove k t))"
    using assms by (auto simp: stream_mut_def Let_def case_prod_beta split: option.splits)
  have "hm_get t ssrc = None" using True by (simp add: hm_contains_def)
  then have "st = stream_default\<lparr>st_last_used := incr64 clock\<rparr>" by (simp add: k enter_stream_def Let_def hm_get_remove)
  with \<open>hm_get t ssrc = None\<close> show ?thesis by (auto simp: stream_of_def)
qed

lemma receiver_index_Some:
  assumes "receiver_index ssrc seq c = Inr (i, roc)"
  shows "estimate (stream_of ssrc (sc_recv c)) seq = Some (i, roc) \<and> \<not> is_replayed i (stream_of ssrc (sc_recv c))"
proof (cases "hm_get (sc_recv c) ssrc")
  case None
  then show ?thesis using assms
    by (auto simp: receiver_index_def stream_of_def Let_def is_replayed_def stream_default_def
        split: option.splits if_splits)
next
  case (Some st)
  then show ?thesis using assms
    by (auto simp: receiver_index_def stream_of_def Let_def split: option.splits if_splits)
qed

lemma decrypt_step:
  assumes "table_remembers A (sc_recv c)" and "decrypt_srtp ctr hmac s c = (r, c')"
  shows "\<exists>B. table_remembers B (sc_recv c') \<and> (\<forall>x. A x \<subseteq> B x) \<and>
     (\<forall>out. r = Inr out \<longrightarrow> received_index s c \<notin> A (packet_ssrc (received_part s c)) \<and>
        received_index s c \<in> B (packet_ssrc (received_part s c)))"
proof -
  let ?p = "received_part s c"
  let ?s = "packet_ssrc ?p" and ?q = "packet_seq ?p"
  have part: "?p = take (length s - sc_auth_tag_len c) s" by (simp add: received_part_def)
  show ?thesis
  proof (cases "sc_recv c' = sc_recv c \<and> \<not> is_ok r")
    case True
    then show ?thesis using assms(1) by (metis is_ok.simps(1) order_refl)
  next
    case False
    obtain i roc where ri: "receiver_index ?s ?q c = Inr (i, roc)"
      using False assms(2)
      by (cases "receiver_index ?s ?q c") (auto simp: decrypt_srtp_def Let_def part split: if_splits)
    obtain x t clock where m: "stream_mut ?s (sc_recv c) (sc_clock c) = (x, t, clock)" by (metis prod_cases3)
    note tm = stream_mut_remembers [OF assms(1) m]
    obtain st where st: "x = Some st"
    proof (cases x)
      case None
      then have "sc_recv c' = sc_recv c \<and> \<not> is_ok r"
        using assms(2) ri m tm by (auto simp: decrypt_srtp_def Let_def part split: if_splits)
      with False show ?thesis by simp
    qed
    have est: "estimate st ?q = Some (i, roc)" "\<not> is_replayed i st"
      using stream_mut_state [OF m [unfolded st]] receiver_index_Some [OF ri] by auto
    have "remembers_set (A ?s) st" using tm st by simp
    note acc = table_accept [OF conjunct1 [OF tm] this est(1) packet_seq_less est(2)]
    have "sc_recv c' = hm_insert ?s (accept i roc ?q st) t"
      using False assms(2) ri m st
      by (auto simp: decrypt_srtp_def Let_def part split: if_splits sum.splits)
    moreover have "received_index s c = i" by (simp add: received_index_def ri)
    ultimately show ?thesis using acc by (intro exI [of _ "A(?s := insert i (A ?s))"]) auto
  qed
qed

lemma encrypt_recv_frame:
  assumes "encrypt_rtp ctr hmac p c = (r, c')"
  shows "sc_recv c' = sc_recv c"
  using encrypt_rtp_index [OF assms] sender_index_frame(2) [of "packet_ssrc p" "packet_seq p" c]
  by (cases r) auto

lemma run_received_fresh:
  "table_remembers A (sc_recv c) \<Longrightarrow>
   distinct (snd (srtp_run ctr hmac ops c)) \<and>
   (\<forall>(ssrc, i) \<in> set (snd (srtp_run ctr hmac ops c)). i \<notin> A ssrc)"
proof (induction ctr hmac ops c arbitrary: A rule: srtp_run.induct)
  case (1 ctr hmac c)
  then show ?case by simp
next
  case (2 ctr hmac p ops c)
  obtain r c' where e: "encrypt_rtp ctr hmac p c = (r, c')" by fastforce
  have "table_remembers A (sc_recv c')" using "2.prems" encrypt_recv_frame [OF e] by simp
  then show ?case using "2.IH" e by (cases r) (fastforce simp: case_prod_beta)+
next
  case (3 ctr hmac s ops c)
  obtain r c' where d: "decrypt_srtp ctr hmac s c = (r, c')" by fastforce
  obtain B where B: "table_remembers B (sc_recv c')" "\<forall>x. A x \<subseteq> B x"
    "\<forall>out. r = Inr out \<longrightarrow> received_index s c \<notin> A (packet_ssrc (received_part s c)) \<and>
        received_index s c \<in> B (packet_ssrc (received_part s c))"
    using decrypt_step [OF "3.prems" d] by blast
  have IH: "distinct (snd (srtp_run ctr hmac ops c'))"
    "\<forall>(ssrc, i) \<in> set (snd (srtp_run ctr hmac ops c')). i \<notin> B ssrc"
    using "3.IH" [OF d [symmetric] _ B(1)] by (cases r; auto)+
  have kept: "\<forall>(ssrc, i) \<in> set (snd (srtp_run ctr hmac ops c')). i \<notin> A ssrc"
    using IH(2) B(2) by blast
  show ?case
  proof (cases r)
    case (Inl e)
    then have run: "srtp_run ctr hmac (Dec s # ops) c = srtp_run ctr hmac ops c'" by (simp add: d)
    show ?thesis unfolding run using IH(1) kept by simp
  next
    case (Inr out)
    then have run: "snd (srtp_run ctr hmac (Dec s # ops) c) =
        (packet_ssrc (received_part s c), received_index s c) # snd (srtp_run ctr hmac ops c')"
      by (simp add: d case_prod_beta)
    show ?thesis unfolding run using IH kept B(3) Inr by auto
  qed
qed

text \<open>
  C14: No packet is accepted twice. Whatever a context is given to decrypt, replayed, reordered,
  forged or not, and whatever it encrypts in between, the packets it lets through have pairwise
  different packet indices within each SSRC.
\<close>

theorem replayed_packet_refused:
  assumes "srtp_crypto_new cipher_key auth_key salt_key tag_len = Inr c"
  shows "distinct (snd (srtp_run ctr hmac ops c))"
proof -
  have "sc_recv c = []" using assms by (auto simp: srtp_crypto_new_def split: sum.splits)
  then have "table_remembers (\<lambda>_. {}) (sc_recv c)" by (simp add: table_remembers_def)
  from run_received_fresh [OF this] show ?thesis by simp
qed

theorem replayed_packet_refused_witness:
  "distinct (snd (srtp_run zero_ctr zero_hmac
     [Dec (replicate 16 0), Dec (replicate 16 0), Enc (replicate 20 1)] zero_ctx))"
  by (rule replayed_packet_refused [OF zero_ctx_new])

section \<open>Round trip\<close>

lemma field_prefix:
  assumes "take h q = take h p" and "pos + n \<le> h"
  shows "field pos n q = field pos n p"
proof -
  have e: "take n (drop pos x) = drop pos (take (pos + n) (take h x))" for x :: "byte list"
    using assms(2) by (simp add: drop_take min_def)
  show ?thesis unfolding field_def by (simp only: e assms(1))
qed

lemma nth_prefix: "take h q = take h p \<Longrightarrow> i < h \<Longrightarrow> q ! i = p ! i"
  by (metis nth_take)

lemma header_length_ge: "get_rtp_header_length p = Inr h \<Longrightarrow> 12 \<le> h \<and> h \<le> length p"
  by (auto simp: get_rtp_header_length_def Let_def split: if_splits)

lemma header_length_prefix:
  assumes "get_rtp_header_length p = Inr h" and "length q = length p" and "take h q = take h p"
  shows "get_rtp_header_length q = Inr h"
proof -
  have h: "12 \<le> h" using header_length_ge [OF assms(1)] by simp
  have q0: "q ! 0 = p ! 0" by (rule nth_prefix [OF assms(3)]) (use h in simp)
  let ?h0 = "12 + unat (p ! 0 AND 0x0F) * 4"
  show ?thesis
  proof (cases "p ! 0 AND 0x10 = 0")
    case True
    then show ?thesis using assms(1,2) q0 by (simp add: get_rtp_header_length_def Let_def split: if_splits)
  next
    case False
    then have "h = ?h0 + (4 + field (?h0 + 2) 2 p * 4)"
      using assms(1) by (auto simp: get_rtp_header_length_def Let_def split: if_splits)
    then have "field (?h0 + 2) 2 q = field (?h0 + 2) 2 p" by (intro field_prefix [OF assms(3)]) simp
    then show ?thesis using False assms(1,2) q0
      by (simp add: get_rtp_header_length_def Let_def split: if_splits)
  qed
qed

text \<open>The receiver can follow: it has seen of this SSRC a packet at most 63 behind and less than half the
  sequence space ahead of this one, and not this one; or it has not seen the SSRC and the sender has
  not rolled over.\<close>

definition in_step :: "nat \<Rightarrow> nat \<Rightarrow> srtp_crypto \<Rightarrow> bool" where
  "in_step ssrc i d \<longleftrightarrow>
     (case hm_get (sc_recv d) ssrc of
        None \<Rightarrow> i < 65536 \<and> length (sc_recv d) < MAX_STREAMS
      | Some st \<Rightarrow> st_started st \<and>
          (\<exists>B. remembers_set B st \<and> st_highest_index st < i + 64 \<and> i < st_highest_index st + 32768 \<and> i \<notin> B))"

lemma in_step_index:
  assumes "in_step ssrc (roc * 65536 + seq) d" and "seq < 65536" and "roc \<le> u32_max"
  shows "receiver_index ssrc seq d = Inr (roc * 65536 + seq, roc)"
proof (cases "hm_get (sc_recv d) ssrc")
  case None
  then have "roc = 0" using assms(1) by (simp add: in_step_def)
  then show ?thesis using None
    by (simp add: receiver_index_def Let_def estimate_def stream_default_def)
next
  case (Some st)
  let ?i = "roc * 65536 + seq"
  obtain B where B: "remembers_set B st" "st_started st" "st_highest_index st < ?i + 64"
    "?i < st_highest_index st + 32768" "?i \<notin> B"
    using assms(1) Some by (auto simp: in_step_def)
  have parts: "?i mod 65536 = seq" "?i div 65536 = roc" using assms(2) by simp_all
  have "?i < 2 ^ 48" using assms(2,3) by (simp add: u32_max_def)
  then have "estimate st seq = Some (?i, roc)"
    using estimate_recovers [OF B(1,2), of ?i] B(3,4) parts by simp
  moreover have "\<not> is_replayed ?i st" using replayed_iff [OF B(1,2), of ?i] B(3,5) by auto
  ultimately show ?thesis using Some by (simp add: receiver_index_def Let_def)
qed

lemma in_step_room:
  assumes "in_step ssrc i d"
  shows "\<exists>st t clock. stream_mut ssrc (sc_recv d) (sc_clock d) = (Some st, t, clock)"
proof -
  have "hm_contains (sc_recv d) ssrc \<or> length (sc_recv d) < MAX_STREAMS"
    using assms by (auto simp: in_step_def hm_contains_def split: option.splits)
  then show ?thesis by (auto simp: stream_mut_def Let_def case_prod_beta)
qed

lemma sender_index_roc:
  assumes "table_remembers A (sc_send c)" and "sender_index ssrc seq c = (Inr roc, c')" and "seq < 65536"
  shows "roc \<le> u32_max"
proof -
  from sender_index_remembers [OF assms(1,3,2)]
  have "table_remembers (A(ssrc := insert (roc * 65536 + seq) (A ssrc))) (sc_send c')" by simp
  from remembered_below [OF this, of "roc * 65536 + seq" ssrc] show ?thesis by (simp add: u32_max_def)
qed


lemma fresh_encrypt_ok:
  assumes "get_rtp_header_length p = Inr h" and "sc_send c = []"
  shows "is_ok (fst (encrypt_rtp ctr hmac p c)) \<and> sent_roc p c = 0"
proof -
  have "12 \<le> length p" using header_length_ge [OF assms(1)] by linarith
  moreover have "\<exists>c'. sender_index (packet_ssrc p) (packet_seq p) c = (Inr 0, c')"
    by (simp add: sender_index_def assms(2) stream_mut_def MAX_STREAMS_def enter_stream_def Let_def
        estimate_def stream_default_def is_replayed_def)
  ultimately show ?thesis using assms(1) by (auto simp: encrypt_rtp_def Let_def sent_roc_def)
qed


text \<open>
  With a 32-octet cipher key the payload goes out in clear: \<^verbatim>\<open>encrypt_rtp\<close> applies its AES-128 keystream
  for 16-octet keys only, while \<^verbatim>\<open>new\<close> accepts both lengths and \<^verbatim>\<open>decrypt_srtp\<close> always applies it.
\<close>

lemma long_key_sends_cleartext:
  assumes "length (sc_cipher_key c) = 32" and "encrypt_rtp ctr hmac p c = (Inr s, c')"
  shows "\<exists>tag. s = p @ tag"
proof -
  obtain roc where si: "sender_index (packet_ssrc p) (packet_seq p) c = (Inr roc, c')"
    using encrypt_rtp_index [OF assms(2)] by auto
  show ?thesis using assms sender_index_frame [OF si]
    by (auto simp: encrypt_rtp_def si Let_def append_assoc [symmetric] simp del: append_assoc
        split: if_splits sum.splits)
qed

section \<open>Key derivation\<close>

definition kdf_prf ::
  "(byte list \<Rightarrow> byte list \<Rightarrow> nat \<Rightarrow> byte list) \<Rightarrow> byte list \<Rightarrow> byte list \<Rightarrow> byte \<Rightarrow> nat \<Rightarrow> byte list"
where
  "kdf_prf ctr master_key master_salt label output_len =
     (let iv0 = master_salt @ replicate 2 0;
          iv = iv0[7 := iv0 ! 7 XOR label]
      in xor_onto (replicate output_len 0) (ctr (take 16 master_key) iv output_len))"

definition master_lengths_ok :: "byte list \<Rightarrow> byte list \<Rightarrow> unit result" where
  "master_lengths_ok master_key master_salt =
     (if length master_key \<noteq> 16 \<and> length master_key \<noteq> 32 then Inl (MediaErr ''Invalid master key length'')
      else if length master_salt \<noteq> 14 then Inl (MediaErr ''Invalid master salt length'')
      else Inr ())"

definition derive_keys ::
  "(byte list \<Rightarrow> byte list \<Rightarrow> nat \<Rightarrow> byte list) \<Rightarrow> byte \<Rightarrow> byte list \<Rightarrow> byte list \<Rightarrow>
   (byte list \<times> byte list \<times> byte list) result"
where
  "derive_keys ctr label master_key master_salt =
     (case master_lengths_ok master_key master_salt of
        Inl e \<Rightarrow> Inl e
      | Inr _ \<Rightarrow> Inr (kdf_prf ctr master_key master_salt label (length master_key),
                   kdf_prf ctr master_key master_salt (label + 1) 20,
                   kdf_prf ctr master_key master_salt (label + 2) 14))"

definition derive_srtp_keys where "derive_srtp_keys ctr = derive_keys ctr 0x00"
definition derive_srtcp_keys where "derive_srtcp_keys ctr = derive_keys ctr 0x03"

text \<open>The derived keys always have the lengths a context asks for.\<close>

lemma derived_keys_accepted:
  assumes "derive_keys ctr label mk ms = Inr (ck, ak, sk)" and "tag_len = 4 \<or> tag_len = 10"
  shows "\<exists>c. srtp_crypto_new ck ak sk tag_len = Inr c"
  using assms
  by (auto simp: derive_keys_def master_lengths_ok_def kdf_prf_def Let_def srtp_crypto_new_def key_lengths_ok_def
      split: if_splits)

section \<open>SRTCP\<close>

record srtcp_crypto =
  tc_cipher_key :: "byte list"
  tc_auth_key :: "byte list"
  tc_salt_key :: "byte list"
  tc_auth_tag_len :: nat
  tc_srtcp_index :: nat

definition srtcp_crypto_new :: "byte list \<Rightarrow> byte list \<Rightarrow> byte list \<Rightarrow> nat \<Rightarrow> srtcp_crypto result" where
  "srtcp_crypto_new cipher_key auth_key salt_key auth_tag_len =
     (case key_lengths_ok cipher_key auth_key salt_key auth_tag_len of
        Inl e \<Rightarrow> Inl e
      | Inr _ \<Rightarrow> Inr \<lparr>tc_cipher_key = cipher_key, tc_auth_key = auth_key, tc_salt_key = salt_key,
                   tc_auth_tag_len = auth_tag_len, tc_srtcp_index = 0\<rparr>)"

definition derive_rtcp_iv :: "byte list \<Rightarrow> nat \<Rightarrow> nat \<Rightarrow> byte list" where
  "derive_rtcp_iv salt_key ssrc srtcp_index =
     xor_onto (replicate 4 0 @ be_bytes 4 ssrc @ be_bytes 4 srtcp_index @ replicate 4 0) salt_key"

definition encrypt_rtcp ::
  "(byte list \<Rightarrow> byte list \<Rightarrow> nat \<Rightarrow> byte list) \<Rightarrow> (byte list \<Rightarrow> byte list \<Rightarrow> byte list) \<Rightarrow>
   byte list \<Rightarrow> srtcp_crypto \<Rightarrow> byte list result \<times> srtcp_crypto"
where
  "encrypt_rtcp ctr hmac rtcp_packet c =
     (if length rtcp_packet < 8 then (Inl (MediaErr ''RTCP packet too short (min 8 bytes)''), c)
      else
        let ssrc = field 4 4 rtcp_packet;
            index = incr32 (tc_srtcp_index c);
            rtcp_header = take 8 rtcp_packet; rtcp_payload = drop 8 rtcp_packet;
            iv = derive_rtcp_iv (tc_salt_key c) ssrc index;
            encrypted_payload =
              (if length (tc_cipher_key c) = 16
               then xor_onto rtcp_payload (ctr (take 16 (tc_cipher_key c)) iv (length rtcp_payload))
               else rtcp_payload);
            srtcp = rtcp_header @ encrypted_payload @ be_bytes 4 (2 ^ 31 + index mod 2 ^ 31)
        in (Inr (srtcp @ take (tc_auth_tag_len c) (hmac (tc_auth_key c) srtcp)),
            c\<lparr>tc_srtcp_index := index\<rparr>))"

definition decrypt_srtcp ::
  "(byte list \<Rightarrow> byte list \<Rightarrow> nat \<Rightarrow> byte list) \<Rightarrow> (byte list \<Rightarrow> byte list \<Rightarrow> byte list) \<Rightarrow>
   byte list \<Rightarrow> srtcp_crypto \<Rightarrow> byte list result"
where
  "decrypt_srtcp ctr hmac srtcp_packet c =
     (if length srtcp_packet < 8 + 4 + tc_auth_tag_len c then Inl (MediaErr ''SRTCP packet too short'')
      else
        let packet_len = length srtcp_packet - tc_auth_tag_len c;
            packet = take packet_len srtcp_packet; received_tag = drop packet_len srtcp_packet
        in if take (tc_auth_tag_len c) (hmac (tc_auth_key c) packet) \<noteq> received_tag
           then Inl (MediaErr ''SRTCP authentication failed'')
           else
             let e_and_index = field (packet_len - 4) 4 packet;
                 encrypted = 2 ^ 31 \<le> e_and_index;
                 index = e_and_index mod 2 ^ 31;
                 rtcp_header = take 8 packet;
                 encrypted_payload = take (packet_len - 4 - 8) (drop 8 packet)
             in if \<not> encrypted then Inr (rtcp_header @ encrypted_payload)
                else
                  let iv = derive_rtcp_iv (tc_salt_key c) (field 4 4 rtcp_header) index
                  in Inr (rtcp_header @ xor_onto encrypted_payload
                            (ctr (take 16 (tc_cipher_key c)) iv (length encrypted_payload))))"

text \<open>
  RTCP survives the trip too, for the first \<open>2 ^ 31 - 1\<close> packets of a context, which is all that
  the 31-bit index of the format can number; whatever the receiver has seen before.
\<close>

theorem srtcp_round_trip:
  assumes "crypto_ok ctr hmac" and "length (tc_cipher_key c) = 16" and "tc_auth_tag_len c \<le> 20"
    and "tc_cipher_key d = tc_cipher_key c" "tc_auth_key d = tc_auth_key c"
      "tc_salt_key d = tc_salt_key c" "tc_auth_tag_len d = tc_auth_tag_len c"
    and "tc_srtcp_index c < 2 ^ 31 - 1"
    and "encrypt_rtcp ctr hmac p c = (Inr s, c')"
  shows "decrypt_srtcp ctr hmac s d = Inr p \<and> tc_srtcp_index c' = tc_srtcp_index c + 1"
proof -
  let ?i = "tc_srtcp_index c + 1"
  have inc: "incr32 (tc_srtcp_index c) = ?i" using assms(8) by (simp add: incr32_def)
  have len: "8 \<le> length p" using assms(9) by (auto simp: encrypt_rtcp_def split: if_splits)
  let ?iv = "derive_rtcp_iv (tc_salt_key c) (field 4 4 p) ?i"
  define enc where "enc = xor_onto (drop 8 p) (ctr (take 16 (tc_cipher_key c)) ?iv (length p - 8))"
  define q where "q = take 8 p @ enc @ be_bytes 4 (2 ^ 31 + ?i)"
  define tag where "tag = take (tc_auth_tag_len c) (hmac (tc_auth_key c) q)"
  have s: "s = q @ tag" and c': "tc_srtcp_index c' = ?i"
    using assms(2,8,9) len by (auto simp: encrypt_rtcp_def inc Let_def q_def enc_def tag_def)
  have le: "length enc = length p - 8" by (simp add: enc_def)
  have lq: "length q = length p + 4" using len le by (simp add: q_def)
  have lt: "length tag = tc_auth_tag_len c" using assms(1,3) by (simp add: crypto_ok_def tag_def)
  have cut: "length s - tc_auth_tag_len d = length q" "take (length q) s = q" "drop (length q) s = tag"
    using lt assms(7) by (simp_all add: s)
  have long: "\<not> length s < 8 + 4 + tc_auth_tag_len d" using len lq lt assms(7) by (simp add: s)
  have idx: "field (length q - 4) 4 q = 2 ^ 31 + ?i"
    using len le assms(8) by (simp add: field_def lq q_def be_nat_be_bytes)
  have parts: "take 8 q = take 8 p" "take (length q - 4 - 8) (drop 8 q) = enc"
    using len le by (simp_all add: q_def lq)
  have "?i < 2 ^ 31" using assms(8) by simp
  then have low: "(2 ^ 31 + ?i) mod 2 ^ 31 = ?i" by (simp only: mod_add_self1 mod_less)
  have ssrc: "field 4 4 (take 8 p) = field 4 4 p" by (rule field_prefix [of 8]) simp_all
  have "decrypt_srtcp ctr hmac s d = Inr (take 8 p @ xor_onto enc (ctr (take 16 (tc_cipher_key c)) ?iv (length p - 8)))"
    unfolding decrypt_srtcp_def if_not_P [OF long] Let_def cut idx parts low
    using assms(4-8) ssrc by (simp add: tag_def le)
  then show ?thesis using c' by (simp add: enc_def)
qed

theorem srtcp_round_trip_witness:
  "\<exists>s c'. encrypt_rtcp zero_ctr zero_hmac (replicate 8 1)
       \<lparr>tc_cipher_key = replicate 16 0, tc_auth_key = replicate 20 0, tc_salt_key = replicate 14 0,
        tc_auth_tag_len = 10, tc_srtcp_index = 6\<rparr> = (Inr s, c') \<and>
     decrypt_srtcp zero_ctr zero_hmac s
       \<lparr>tc_cipher_key = replicate 16 0, tc_auth_key = replicate 20 0, tc_salt_key = replicate 14 0,
        tc_auth_tag_len = 10, tc_srtcp_index = 0\<rparr> = Inr (replicate 8 1) \<and> tc_srtcp_index c' = 7"
proof -
  let ?c = "\<lambda>n. \<lparr>tc_cipher_key = replicate 16 0, tc_auth_key = replicate 20 0, tc_salt_key = replicate 14 0,
     tc_auth_tag_len = 10, tc_srtcp_index = n\<rparr>"
  obtain s c' where e: "encrypt_rtcp zero_ctr zero_hmac (replicate 8 1) (?c 6) = (Inr s, c')"
    by (simp add: encrypt_rtcp_def Let_def)
  have "crypto_ok zero_ctr zero_hmac" by (simp add: crypto_ok_def zero_ctr_def zero_hmac_def)
  from srtcp_round_trip [OF this _ _ _ _ _ _ _ e, of "?c 0"] e show ?thesis by auto
qed

end
