(* ===== verification/Srtp_Context.thy ===== *)
theory Srtp_Context
  imports Srtp Net
begin

text \<open>
  \<^verbatim>\<open>crates/sbc-core/src/media/srtp.rs\<close>: the crypto suites, the context built from master key and salt,
  and the SDES key parameters of SDP. The base64 engine is a crate: \<open>b64_encode\<close> and \<open>b64_decode\<close> are
  parameters (\<open>None\<close> for invalid input). Random key generation is not modelled.
\<close>

datatype crypto_suite = AesCm128HmacSha1_80 | AesCm128HmacSha1_32 | AesCm256HmacSha1_80 | AesCm256HmacSha1_32

fun master_key_len :: "crypto_suite \<Rightarrow> nat" where
  "master_key_len AesCm128HmacSha1_80 = 16"
| "master_key_len AesCm128HmacSha1_32 = 16"
| "master_key_len AesCm256HmacSha1_80 = 32"
| "master_key_len AesCm256HmacSha1_32 = 32"

definition master_salt_len :: "crypto_suite \<Rightarrow> nat" where "master_salt_len _ = 14"

fun auth_tag_len :: "crypto_suite \<Rightarrow> nat" where
  "auth_tag_len AesCm128HmacSha1_80 = 10"
| "auth_tag_len AesCm256HmacSha1_80 = 10"
| "auth_tag_len AesCm128HmacSha1_32 = 4"
| "auth_tag_len AesCm256HmacSha1_32 = 4"

definition from_sdp_name :: "string \<Rightarrow> crypto_suite option" where
  "from_sdp_name name =
     (if name = ''AES_CM_128_HMAC_SHA1_80'' then Some AesCm128HmacSha1_80
      else if name = ''AES_CM_128_HMAC_SHA1_32'' then Some AesCm128HmacSha1_32
      else if name = ''AES_256_CM_HMAC_SHA1_80'' then Some AesCm256HmacSha1_80
      else if name = ''AES_256_CM_HMAC_SHA1_32'' then Some AesCm256HmacSha1_32
      else None)"

fun to_sdp_name :: "crypto_suite \<Rightarrow> string" where
  "to_sdp_name AesCm128HmacSha1_80 = ''AES_CM_128_HMAC_SHA1_80''"
| "to_sdp_name AesCm128HmacSha1_32 = ''AES_CM_128_HMAC_SHA1_32''"
| "to_sdp_name AesCm256HmacSha1_80 = ''AES_256_CM_HMAC_SHA1_80''"
| "to_sdp_name AesCm256HmacSha1_32 = ''AES_256_CM_HMAC_SHA1_32''"

record srtp_context =
  sx_master_key :: "byte list"
  sx_master_salt :: "byte list"
  sx_crypto_suite :: crypto_suite
  sx_crypto :: "srtp_crypto option"

definition srtp_context_new ::
  "(byte list \<Rightarrow> byte list \<Rightarrow> nat \<Rightarrow> byte list) \<Rightarrow> byte list \<Rightarrow> byte list \<Rightarrow> crypto_suite \<Rightarrow> srtp_context result"
where
  "srtp_context_new ctr master_key master_salt suite =
     (if length master_key \<noteq> master_key_len suite then Inl (MediaErr ''Invalid master key length'')
      else if length master_salt \<noteq> master_salt_len suite then Inl (MediaErr ''Invalid master salt length'')
      else case derive_srtp_keys ctr master_key master_salt of
        Inl e \<Rightarrow> Inl e
      | Inr (cipher_key, auth_key, salt_key) \<Rightarrow>
          (case srtp_crypto_new cipher_key auth_key salt_key (auth_tag_len suite) of
             Inl e \<Rightarrow> Inl e
           | Inr crypto \<Rightarrow> Inr \<lparr>sx_master_key = master_key, sx_master_salt = master_salt,
                            sx_crypto_suite = suite, sx_crypto = Some crypto\<rparr>))"

definition from_key_params ::
  "(byte list \<Rightarrow> byte list \<Rightarrow> nat \<Rightarrow> byte list) \<Rightarrow> (string \<Rightarrow> byte list option) \<Rightarrow> string \<Rightarrow> crypto_suite \<Rightarrow>
   srtp_context result"
where
  "from_key_params ctr b64_decode key_params suite =
     (if \<not> starts_with key_params ''inline:'' then Inl (MediaErr ''Key params must start with inline:'')
      else case b64_decode (drop (length ''inline:'') key_params) of
        None \<Rightarrow> Inl (MediaErr ''Invalid base64 in key params'')
      | Some decoded \<Rightarrow>
          let key_len = master_key_len suite; salt_len = master_salt_len suite
          in if length decoded < key_len + salt_len then Inl (MediaErr ''Key material too short'')
             else srtp_context_new ctr (take key_len decoded) (take salt_len (drop key_len decoded)) suite)"

definition context_encrypt ::
  "(byte list \<Rightarrow> byte list \<Rightarrow> nat \<Rightarrow> byte list) \<Rightarrow> (byte list \<Rightarrow> byte list \<Rightarrow> byte list) \<Rightarrow>
   byte list \<Rightarrow> srtp_context \<Rightarrow> byte list result \<times> srtp_context"
where
  "context_encrypt ctr hmac plaintext x =
     (case sx_crypto x of
        None \<Rightarrow> (Inl (MediaErr ''SRTP context not initialised''), x)
      | Some c \<Rightarrow> let (r, c') = encrypt_rtp ctr hmac plaintext c in (r, x\<lparr>sx_crypto := Some c'\<rparr>))"

definition context_decrypt ::
  "(byte list \<Rightarrow> byte list \<Rightarrow> nat \<Rightarrow> byte list) \<Rightarrow> (byte list \<Rightarrow> byte list \<Rightarrow> byte list) \<Rightarrow>
   byte list \<Rightarrow> srtp_context \<Rightarrow> byte list result \<times> srtp_context"
where
  "context_decrypt ctr hmac ciphertext x =
     (case sx_crypto x of
        None \<Rightarrow> (Inl (MediaErr ''SRTP context not initialised''), x)
      | Some c \<Rightarrow> let (r, c') = decrypt_srtp ctr hmac ciphertext c in (r, x\<lparr>sx_crypto := Some c'\<rparr>))"

definition clone_for_send ::
  "(byte list \<Rightarrow> byte list \<Rightarrow> nat \<Rightarrow> byte list) \<Rightarrow> srtp_context \<Rightarrow> srtp_context result"
where
  "clone_for_send ctr x = srtp_context_new ctr (sx_master_key x) (sx_master_salt x) (sx_crypto_suite x)"

definition to_key_params :: "(byte list \<Rightarrow> string) \<Rightarrow> srtp_context \<Rightarrow> string" where
  "to_key_params b64_encode x = ''inline:'' @ b64_encode (sx_master_key x @ sx_master_salt x)"

definition parse_crypto_attribute :: "string \<Rightarrow> (nat \<times> crypto_suite \<times> string) result" where
  "parse_crypto_attribute line =
     (case split_whitespace line of
        tag_str # name # key_params # _ \<Rightarrow>
          (case parse_uint u32_max tag_str of
             None \<Rightarrow> Inl (MediaErr ''Invalid crypto tag'')
           | Some tag \<Rightarrow>
               (case from_sdp_name name of
                  None \<Rightarrow> Inl (MediaErr ''Unsupported crypto suite'')
                | Some suite \<Rightarrow> Inr (tag, suite, key_params)))
      | _ \<Rightarrow> Inl (MediaErr ''Invalid crypto attribute format''))"

section \<open>Properties\<close>

lemma sdp_name_round_trip: "from_sdp_name name = Some s \<longleftrightarrow> name = to_sdp_name s"
  by (cases s) (auto simp: from_sdp_name_def)

text \<open>Keys of the right lengths always make a context, with an engine in its first state.\<close>

lemma context_new_ok:
  assumes "length mk = master_key_len suite" and "length ms = 14"
  shows "\<exists>c. srtp_context_new ctr mk ms suite =
      Inr \<lparr>sx_master_key = mk, sx_master_salt = ms, sx_crypto_suite = suite, sx_crypto = Some c\<rparr> \<and>
      length (sc_cipher_key c) = master_key_len suite \<and> sc_send c = [] \<and> sc_recv c = []"
  using assms
  by (cases suite) (auto simp: srtp_context_new_def master_salt_len_def derive_srtp_keys_def derive_keys_def
      master_lengths_ok_def kdf_prf_def Let_def srtp_crypto_new_def key_lengths_ok_def)

lemma context_new_length:
  assumes "srtp_context_new ctr mk ms suite = Inr x"
  shows "length mk = master_key_len suite \<and> length ms = 14"
  using assms by (auto simp: srtp_context_new_def master_salt_len_def split: if_splits)

text \<open>
  The key parameters a context exports in SDP make the same context on the other side, if
  the base64 engine decodes what it encodes; so do the parameters cloned for the send direction.
\<close>

theorem key_params_round_trip:
  assumes "srtp_context_new ctr mk ms suite = Inr x" and "\<And>bs. b64_decode (b64_encode bs) = Some bs"
  shows "from_key_params ctr b64_decode (to_key_params b64_encode x) suite = Inr x \<and> clone_for_send ctr x = Inr x"
proof -
  have len: "length mk = master_key_len suite" "length ms = 14" using context_new_length [OF assms(1)] by simp_all
  obtain c where c: "srtp_context_new ctr mk ms suite =
      Inr \<lparr>sx_master_key = mk, sx_master_salt = ms, sx_crypto_suite = suite, sx_crypto = Some c\<rparr>"
    using context_new_ok [OF len] by blast
  with assms(1) have x: "sx_master_key x = mk" "sx_master_salt x = ms" "sx_crypto_suite x = suite" by auto
  show ?thesis using assms(1) len
    by (simp add: from_key_params_def to_key_params_def clone_for_send_def x assms(2) starts_with_def
        master_salt_len_def Let_def)
qed

theorem key_params_round_trip_witness:
  "\<exists>x. from_key_params zero_ctr (\<lambda>s. Some (map (\<lambda>c. word_of_nat (of_char c)) s))
     (to_key_params (map (\<lambda>b. char_of (unat b))) x) AesCm128HmacSha1_32 = Inr x"
proof -
  obtain c where c: "srtp_context_new zero_ctr (replicate 16 7) (replicate 14 9) AesCm128HmacSha1_32 =
      Inr \<lparr>sx_master_key = replicate 16 7, sx_master_salt = replicate 14 9,
           sx_crypto_suite = AesCm128HmacSha1_32, sx_crypto = Some c\<rparr>"
    using context_new_ok [of "replicate 16 7" AesCm128HmacSha1_32 "replicate 14 9" zero_ctr] by auto
  have "Some (map (\<lambda>c. word_of_nat (of_char c)) (map (\<lambda>b. char_of (unat b)) bs)) = Some bs" for bs :: "byte list"
    by (simp add: o_def unat_byte_less)
  from key_params_round_trip [OF c this] show ?thesis by blast
qed

text \<open>
  The AES-256 suites, which SDP may negotiate, protect nothing: every packet leaves with its payload
  readable.
\<close>

lemma aes256_suite_sends_cleartext:
  assumes "srtp_context_new ctr mk ms suite = Inr x" and "master_key_len suite = 32"
    and "context_encrypt ctr hmac p x = (Inr s, x')"
  shows "\<exists>tag. s = p @ tag"
proof -
  obtain c where "sx_crypto x = Some c" "length (sc_cipher_key c) = 32"
    using assms(1,2) context_new_ok [of mk suite ms ctr] context_new_length [OF assms(1)] by auto
  with assms(3) long_key_sends_cleartext show ?thesis
    by (fastforce simp: context_encrypt_def split: prod.splits)
qed

end
