(* ===== verification/Rtp.thy ===== *)
theory Rtp
  imports Srtp
begin

text \<open>
  The pure part of \<^verbatim>\<open>crates/sbc-core/src/media/rtp.rs\<close>: the packet codec, the plausibility checks and
  the classification of datagrams, the header length, and the rewriting of timestamps between
  clock rates. The relay loop itself is sockets and tasks.
\<close>

section \<open>Packets\<close>

record rtp_packet =
  pk_version :: byte
  pk_padding :: bool
  pk_extension :: bool
  pk_csrc_count :: byte
  pk_marker :: bool
  pk_payload_type :: byte
  pk_sequence_number :: nat
  pk_timestamp :: nat
  pk_ssrc :: nat
  pk_payload :: "byte list"

definition rtp_parse :: "byte list \<Rightarrow> rtp_packet result" where
  "rtp_parse data =
     (if length data < 12 then Inl (ParseErr ''RTP packet too short'')
      else
        let csrc_count = data ! 0 AND 0x0F; header_len = 12 + unat csrc_count * 4
        in if length data < header_len then Inl (ParseErr ''Invalid RTP header length'')
           else Inr \<lparr>pk_version = drop_bit 6 (data ! 0) AND 0x03,
                     pk_padding = (data ! 0 AND 0x20 \<noteq> 0), pk_extension = (data ! 0 AND 0x10 \<noteq> 0),
                     pk_csrc_count = csrc_count,
                     pk_marker = (data ! 1 AND 0x80 \<noteq> 0), pk_payload_type = data ! 1 AND 0x7F,
                     pk_sequence_number = field 2 2 data, pk_timestamp = field 4 4 data,
                     pk_ssrc = field 8 4 data, pk_payload = drop header_len data\<rparr>)"

definition rtp_to_bytes :: "rtp_packet \<Rightarrow> byte list" where
  "rtp_to_bytes p =
     [push_bit 6 (pk_version p) OR (if pk_padding p then 0x20 else 0) OR
        (if pk_extension p then 0x10 else 0) OR pk_csrc_count p,
      (if pk_marker p then 0x80 else 0) OR pk_payload_type p] @
     be_bytes 2 (pk_sequence_number p) @ be_bytes 4 (pk_timestamp p) @ be_bytes 4 (pk_ssrc p) @ pk_payload p"

definition ONE_WAY_QUIET_MS :: nat where "ONE_WAY_QUIET_MS = 10000"

definition looks_like_rtp :: "byte list \<Rightarrow> bool" where
  "looks_like_rtp data \<longleftrightarrow> 12 \<le> length data \<and> drop_bit 6 (data ! 0) = 2"

definition rtcp_type :: "byte \<Rightarrow> bool" where "rtcp_type b \<longleftrightarrow> 192 \<le> unat b \<and> unat b \<le> 223"

definition looks_like_rtcp :: "byte list \<Rightarrow> bool" where
  "looks_like_rtcp data \<longleftrightarrow> 8 \<le> length data \<and> drop_bit 6 (data ! 0) = 2 \<and> rtcp_type (data ! 1)"

datatype media_input = InRtp | InRtcp | InPassthrough | InJunk

definition classify_media_input :: "byte list \<Rightarrow> bool \<Rightarrow> media_input" where
  "classify_media_input data webrtc =
     (case data of
        [] \<Rightarrow> InJunk
      | b # _ \<Rightarrow>
          if 128 \<le> unat b \<and> unat b \<le> 191 \<and> looks_like_rtp data
          then if rtcp_type (data ! 1) then InRtcp else InRtp
          else if unat b \<le> 3 \<and> webrtc \<and> 20 \<le> length data \<and> take 4 (drop 4 data) = [0x21, 0x12, 0xA4, 0x42]
          then InPassthrough
          else if 20 \<le> unat b \<and> unat b \<le> 63 \<and> webrtc \<and> 13 \<le> length data then InPassthrough
          else InJunk)"

definition rtp_header_length :: "byte list \<Rightarrow> nat" where
  "rtp_header_length data =
     (if length data < 12 then 0
      else
        let hdr_len = 12 + unat (data ! 0 AND 0x0F) * 4
        in if data ! 0 AND 0x10 \<noteq> 0
           then if length data < hdr_len + 4 then 0
                else
                  let h = hdr_len + (4 + field (hdr_len + 2) 2 data * 4)
                  in if length data < h then 0 else h
           else if length data < hdr_len then 0 else hdr_len)"

section \<open>Timestamps\<close>

record timestamp_map =
  tm_base_in :: "nat option"
  tm_base_out :: nat

definition timestamp_map_new :: timestamp_map where
  "timestamp_map_new = \<lparr>tm_base_in = None, tm_base_out = 0\<rparr>"

definition wrapping_sub32 :: "nat \<Rightarrow> nat \<Rightarrow> nat" where
  "wrapping_sub32 a b = (a + 2 ^ 32 - b) mod 2 ^ 32"

definition scale32 :: "nat \<Rightarrow> nat \<Rightarrow> nat \<Rightarrow> nat" where
  "scale32 n src_rate dst_rate = (n * dst_rate div src_rate) mod 2 ^ 32"

definition ts_map :: "nat \<Rightarrow> nat \<Rightarrow> nat \<Rightarrow> timestamp_map \<Rightarrow> nat \<times> timestamp_map" where
  "ts_map ts src_rate dst_rate m =
     (if src_rate = dst_rate \<or> dst_rate = 0 \<or> src_rate = 0 then (ts, m)
      else
        let (base_in, m1) =
              (case tm_base_in m of
                 Some base \<Rightarrow> (base, m)
               | None \<Rightarrow> (ts, \<lparr>tm_base_in = Some ts, tm_base_out = scale32 ts src_rate dst_rate\<rparr>));
            delta = wrapping_sub32 ts base_in
        in ((tm_base_out m1 + scale32 delta src_rate dst_rate) mod 2 ^ 32, m1))"

definition rescale_event ::
  "byte list \<Rightarrow> nat \<Rightarrow> nat \<Rightarrow> timestamp_map \<Rightarrow> (nat \<times> nat) option \<times> byte list \<times> timestamp_map"
where
  "rescale_event packet src_rate dst_rate m =
     (if src_rate = dst_rate \<or> src_rate = 0 \<or> dst_rate = 0 then (None, packet, m)
      else if length packet < 12 then (None, packet, m)
      else
        let (new_ts, m1) = ts_map (field 4 4 packet) src_rate dst_rate m;
            p1 = put_bytes 4 (be_bytes 4 new_ts) packet;
            header_len = rtp_header_length p1
        in if 0 < header_len \<and> header_len + 4 \<le> length p1
           then
             let at = header_len + 2; old = field at 2 p1;
                 new_duration = min (old * dst_rate div src_rate) u16_max
             in (Some (new_ts, new_duration), put_bytes at (be_bytes 2 new_duration) p1, m1)
           else (Some (new_ts, 0), p1, m1))"

section \<open>The codec\<close>

definition wf_rtp :: "rtp_packet \<Rightarrow> bool" where
  "wf_rtp p \<longleftrightarrow> pk_version p AND 3 = pk_version p \<and> pk_csrc_count p = 0 \<and>
     pk_payload_type p AND 0x7F = pk_payload_type p \<and>
     pk_sequence_number p < 2 ^ 16 \<and> pk_timestamp p < 2 ^ 32 \<and> pk_ssrc p < 2 ^ 32"

lemma byte0_fields:
  fixes v b :: byte and pad ext :: bool
  assumes "v AND 3 = v"
  defines "b \<equiv> push_bit 6 v OR (if pad then 0x20 else 0) OR (if ext then 0x10 else 0)"
  shows "drop_bit 6 b AND 3 = v" "b AND 0x20 \<noteq> 0 \<longleftrightarrow> pad" "b AND 0x10 \<noteq> 0 \<longleftrightarrow> ext" "b AND 0x0F = 0"
proof -
  have v: "\<not> bit v 2" "\<not> bit v 3" "\<not> bit v 4" "\<not> bit v 5" "\<not> bit v 6" "\<not> bit v 7"
    by (subst assms(1) [symmetric], simp add: bit_simps)+
  show "drop_bit 6 b AND 3 = v" "b AND 0x20 \<noteq> 0 \<longleftrightarrow> pad" "b AND 0x10 \<noteq> 0 \<longleftrightarrow> ext" "b AND 0x0F = 0"
    using v by (auto simp: b_def byte_eq_iff bit_simps)
qed

lemma byte1_fields:
  fixes pt b :: byte and mk :: bool
  assumes "pt AND 0x7F = pt"
  defines "b \<equiv> (if mk then 0x80 else 0) OR pt"
  shows "b AND 0x80 \<noteq> 0 \<longleftrightarrow> mk" "b AND 0x7F = pt"
proof -
  have p: "\<not> bit pt 7" by (subst assms(1) [symmetric], simp add: bit_simps)
  show "b AND 0x80 \<noteq> 0 \<longleftrightarrow> mk" "b AND 0x7F = pt"
    using p by (auto simp: b_def byte_eq_iff bit_simps)
qed

lemma rtp_bytes_layout:
  "length (rtp_to_bytes p) = 12 + length (pk_payload p)"
  "field 2 2 (rtp_to_bytes p) = pk_sequence_number p mod 2 ^ 16"
  "field 4 4 (rtp_to_bytes p) = pk_timestamp p mod 2 ^ 32"
  "field 8 4 (rtp_to_bytes p) = pk_ssrc p mod 2 ^ 32"
  "drop 12 (rtp_to_bytes p) = pk_payload p"
  by (simp_all add: rtp_to_bytes_def field_def be_nat_be_bytes del: be_bytes.simps)

text \<open>
  The RTP codec loses nothing on packets without contributing sources: such a packet is parsed
  back from its own octets, and the octets of any datagram parsed without them are restored.
\<close>

theorem rtp_codec_round_trip:
  assumes "wf_rtp p"
  shows "rtp_parse (rtp_to_bytes p) = Inr p \<and>
    (\<forall>data q. rtp_parse data = Inr q \<and> pk_csrc_count q = 0 \<longrightarrow> rtp_to_bytes q = data)"
proof (intro conjI allI impI)
  have w: "pk_version p AND 3 = pk_version p" "pk_csrc_count p = 0" "pk_payload_type p AND 0x7F = pk_payload_type p"
    using assms by (simp_all add: wf_rtp_def)
  have b: "rtp_to_bytes p ! 0 = push_bit 6 (pk_version p) OR (if pk_padding p then 0x20 else 0) OR
        (if pk_extension p then 0x10 else 0)"
    "rtp_to_bytes p ! 1 = (if pk_marker p then 0x80 else 0) OR pk_payload_type p"
    by (simp_all add: rtp_to_bytes_def w(2))
  show "rtp_parse (rtp_to_bytes p) = Inr p"
    unfolding rtp_parse_def Let_def b byte0_fields [OF w(1)] byte1_fields [OF w(3)]
    using assms by (simp add: rtp_bytes_layout wf_rtp_def)
next
  fix data q
  assume a: "rtp_parse data = Inr q \<and> pk_csrc_count q = 0"
  then have len: "12 \<le> length data" and cc: "data ! 0 AND 0x0F = 0"
    by (auto simp: rtp_parse_def Let_def split: if_splits)
  have fields: "be_bytes n (field pos n data) = take n (drop pos data)" if "pos + n \<le> 12" for pos n
    using be_bytes_be_nat [of "take n (drop pos data)"] len that by (simp add: field_def)
  have q: "q = \<lparr>pk_version = drop_bit 6 (data ! 0) AND 0x03,
      pk_padding = (data ! 0 AND 0x20 \<noteq> 0), pk_extension = (data ! 0 AND 0x10 \<noteq> 0), pk_csrc_count = 0,
      pk_marker = (data ! 1 AND 0x80 \<noteq> 0), pk_payload_type = data ! 1 AND 0x7F,
      pk_sequence_number = field 2 2 data, pk_timestamp = field 4 4 data,
      pk_ssrc = field 8 4 data, pk_payload = drop 12 data\<rparr>"
    using a len cc by (auto simp: rtp_parse_def Let_def split: if_splits)
  have b0: "push_bit 6 (drop_bit 6 (data ! 0) AND 3) OR (if data ! 0 AND 0x20 \<noteq> 0 then 0x20 else 0) OR
      (if data ! 0 AND 0x10 \<noteq> 0 then 0x10 else 0) OR 0 = data ! 0"
    using cc by (auto simp: byte_eq_iff bit_simps)
  have b1: "(if data ! 1 AND 0x80 \<noteq> 0 then 0x80 else 0) OR (data ! 1 AND 0x7F) = data ! 1"
    by (auto simp: byte_eq_iff bit_simps)
  have sel: "pk_version q = drop_bit 6 (data ! 0) AND 0x03" "pk_padding q \<longleftrightarrow> data ! 0 AND 0x20 \<noteq> 0"
    "pk_extension q \<longleftrightarrow> data ! 0 AND 0x10 \<noteq> 0" "pk_csrc_count q = 0" "pk_marker q \<longleftrightarrow> data ! 1 AND 0x80 \<noteq> 0"
    "pk_payload_type q = data ! 1 AND 0x7F" "pk_sequence_number q = field 2 2 data"
    "pk_timestamp q = field 4 4 data" "pk_ssrc q = field 8 4 data" "pk_payload q = drop 12 data"
    by (simp_all add: q)
  have "rtp_to_bytes q = [data ! 0, data ! 1] @ take 2 (drop 2 data) @ take 4 (drop 4 data) @ take 4 (drop 8 data) @ drop 12 data"
    unfolding rtp_to_bytes_def sel b0 b1 by (simp add: fields del: be_bytes.simps)
  also have "\<dots> = data"
  proof -
    have "[data ! 0, data ! 1] = take 2 data" using len by (cases data; cases "tl data") auto
    moreover have "take 2 data @ take 2 (drop 2 data) = take 4 data" "take 4 data @ take 4 (drop 4 data) = take 8 data"
      "take 8 data @ take 4 (drop 8 data) = take 12 data"
      by (simp_all add: take_add [symmetric])
    ultimately show ?thesis by (metis append.assoc append_take_drop_id)
  qed
  finally show "rtp_to_bytes q = data" .
qed

theorem rtp_codec_round_trip_witness:
  "rtp_parse (rtp_to_bytes \<lparr>pk_version = 2, pk_padding = False, pk_extension = False, pk_csrc_count = 0,
     pk_marker = True, pk_payload_type = 8, pk_sequence_number = 7, pk_timestamp = 160, pk_ssrc = 99,
     pk_payload = [1, 2]\<rparr>) =
   Inr \<lparr>pk_version = 2, pk_padding = False, pk_extension = False, pk_csrc_count = 0,
     pk_marker = True, pk_payload_type = 8, pk_sequence_number = 7, pk_timestamp = 160, pk_ssrc = 99,
     pk_payload = [1, 2]\<rparr>"
  by (rule rtp_codec_round_trip [THEN conjunct1]) (simp add: wf_rtp_def)

text \<open>
  With contributing sources the codec is not faithful: \<^verbatim>\<open>parse\<close> drops their identifiers, \<^verbatim>\<open>to_bytes\<close>
  still announces them, and the next reader takes payload for them.
\<close>

lemma csrc_list_lost:
  "\<exists>data p p'. rtp_parse data = Inr p \<and> rtp_parse (rtp_to_bytes p) = Inr p' \<and> pk_payload p' \<noteq> pk_payload p"
proof -
  let ?p = "\<lparr>pk_version = 2, pk_padding = False, pk_extension = False, pk_csrc_count = 1, pk_marker = False,
     pk_payload_type = 0, pk_sequence_number = 0, pk_timestamp = 0, pk_ssrc = 0, pk_payload = replicate 4 5\<rparr>"
  let ?p' = "?p\<lparr>pk_payload := []\<rparr>"
  have "rtp_parse ([0x81] @ replicate 15 0 @ replicate 4 5) = Inr ?p"
    by code_simp
  moreover have "rtp_parse (rtp_to_bytes ?p) = Inr ?p'"
    by code_simp
  ultimately show ?thesis by fastforce
qed

section \<open>Header lengths\<close>

text \<open>
  The relay and the SRTP layer agree on where the header of every datagram ends, malformed
  ones included.
\<close>

lemma header_lengths_agree:
  "rtp_header_length data = (case get_rtp_header_length data of Inr h \<Rightarrow> h | Inl _ \<Rightarrow> 0)"
  by (simp add: rtp_header_length_def get_rtp_header_length_def Let_def)

section \<open>Clock conversion\<close>

lemma wrapping_sub32_add:
  assumes "t0 < 2 ^ 32" and "d < 2 ^ 32"
  shows "wrapping_sub32 ((t0 + d) mod 2 ^ 32) t0 = d"
proof (cases "t0 + d < 2 ^ 32")
  case True
  then have "(t0 + d) mod 2 ^ 32 = t0 + d" by simp
  then have "wrapping_sub32 ((t0 + d) mod 2 ^ 32) t0 = (d + 2 ^ 32) mod 2 ^ 32"
    by (simp only: wrapping_sub32_def) (simp add: add.commute)
  also have "\<dots> = d" using assms(2) by (simp only: mod_add_self2 mod_less)
  finally show ?thesis .
next
  case False
  then have "(t0 + d) mod 2 ^ 32 = t0 + d - 2 ^ 32" using assms by (simp add: mod_if)
  then show ?thesis using False assms by (simp add: wrapping_sub32_def)
qed

lemma ts_map_advances:
  assumes "t0 < 2 ^ 32" and "d < 2 ^ 32" and "src \<noteq> dst" and "0 < src" and "0 < dst"
  shows "let (o0, m) = ts_map t0 src dst timestamp_map_new
         in ts_map ((t0 + d) mod 2 ^ 32) src dst m = ((o0 + d * dst div src) mod 2 ^ 32, m)"
proof -
  let ?m = "\<lparr>tm_base_in = Some t0, tm_base_out = scale32 t0 src dst\<rparr>"
  have z: "wrapping_sub32 t0 t0 = 0" using wrapping_sub32_add [OF assms(1), of 0] assms(1) by simp
  have first: "ts_map t0 src dst timestamp_map_new = (scale32 t0 src dst, ?m)"
    using assms(3-5) by (simp add: ts_map_def timestamp_map_new_def z scale32_def Let_def)
  have "ts_map ((t0 + d) mod 2 ^ 32) src dst ?m = ((scale32 t0 src dst + scale32 d src dst) mod 2 ^ 32, ?m)"
    using assms(3-5) wrapping_sub32_add [OF assms(1,2)] by (simp add: ts_map_def)
  also have "(scale32 t0 src dst + scale32 d src dst) mod 2 ^ 32 = (scale32 t0 src dst + d * dst div src) mod 2 ^ 32"
    by (simp add: scale32_def mod_add_right_eq)
  finally show ?thesis by (simp add: first)
qed

text \<open>
  Transcoded timestamps advance evenly. Whatever value a stream starts at, a packet sent \<open>d\<close>
  source ticks after the first one gets the first one's output plus \<open>d\<close> scaled to the destination
  rate, modulo \<open>2 ^ 32\<close>, for all \<open>d\<close> below \<open>2 ^ 32\<close>: the wrap of the sender's counter leaves no trace.
\<close>

theorem timestamps_advance_evenly:
  assumes "t0 < 2 ^ 32" and "d < 2 ^ 32" and "src \<noteq> dst" and "0 < src" and "0 < dst"
  shows "let (o0, m) = ts_map t0 src dst timestamp_map_new
         in ts_map ((t0 + d) mod 2 ^ 32) src dst m = ((o0 + d * dst div src) mod 2 ^ 32, m)"
  using assms by (rule ts_map_advances)

theorem timestamps_advance_evenly_witness:
  "let (o0, m) = ts_map 4294967000 48000 8000 timestamp_map_new
   in ts_map ((4294967000 + 960) mod 2 ^ 32) 48000 8000 m = ((o0 + 960 * 8000 div 48000) mod 2 ^ 32, m)"
  by (rule timestamps_advance_evenly) simp_all

text \<open>
  The base is never moved, so the delta itself wraps after \<open>2 ^ 32\<close> source ticks, about 24.8 hours at
  48 kHz. A stream converted to a lower rate then steps back to its first output value.
\<close>

lemma timestamp_steps_back_after_full_cycle:
  assumes "t0 < 2 ^ 32" and "src \<noteq> dst" and "0 < src" and "0 < dst"
  shows "let (o0, m) = ts_map t0 src dst timestamp_map_new
         in fst (ts_map ((t0 + 2 ^ 32) mod 2 ^ 32) src dst m) = o0"
proof -
  have "(t0 + 2 ^ 32) mod 2 ^ 32 = (t0 + 0) mod 2 ^ 32" by (simp only: mod_add_self2 add_0_right)
  moreover have "fst (ts_map t0 src dst timestamp_map_new) < 2 ^ 32"
    using assms by (simp add: ts_map_def timestamp_map_new_def Let_def)
  ultimately show ?thesis using ts_map_advances [OF assms(1) _ assms(2-4), of 0] by (simp add: case_prod_beta)
qed

section \<open>Events\<close>

lemma put_bytes_prefix: "take pos (put_bytes pos bs p) = take pos p" if "pos \<le> length p"
  using that by (simp add: put_bytes_def)

lemma nth_put_bytes:
  assumes "pos + length bs \<le> length p" and "i < length p" and "i < pos \<or> pos + length bs \<le> i"
  shows "put_bytes pos bs p ! i = p ! i"
  using assms by (auto simp: put_bytes_def nth_append)

lemma field_put_other:
  assumes "pos + length bs \<le> length p" and "pos + length bs \<le> at \<or> at + n \<le> pos"
  shows "field at n (put_bytes pos bs p) = field at n p"
proof -
  have "take n (drop at (put_bytes pos bs p)) = take n (drop at p)"
  proof (rule nth_equalityI)
    show "length (take n (drop at (put_bytes pos bs p))) = length (take n (drop at p))"
      using assms(1) by (simp add: length_put_bytes)
    fix i assume "i < length (take n (drop at (put_bytes pos bs p)))"
    then have i: "i < n" "at + i < length p" using assms(1) by (auto simp: length_put_bytes)
    have "put_bytes pos bs p ! (at + i) = p ! (at + i)"
      using i assms by (intro nth_put_bytes) auto
    then show "take n (drop at (put_bytes pos bs p)) ! i = take n (drop at p) ! i"
      using i assms(1) by (simp add: length_put_bytes)
  qed
  then show ?thesis by (simp add: field_def)
qed

lemma header_length_put:
  assumes "0 < pos" and "pos + length bs \<le> 12" and "12 \<le> length p"
  shows "rtp_header_length (put_bytes pos bs p) = rtp_header_length p"
proof -
  have len: "length (put_bytes pos bs p) = length p" using assms by (intro length_put_bytes) simp
  have "put_bytes pos bs p ! 0 = p ! 0" using assms by (intro nth_put_bytes) auto
  moreover have "field (12 + k + 2) 2 (put_bytes pos bs p) = field (12 + k + 2) 2 p" for k
    using assms by (intro field_put_other) auto
  ultimately show ?thesis unfolding rtp_header_length_def len Let_def by simp
qed

text \<open>
  A DTMF event crossing clock rates keeps every octet but its timestamp and its duration. The
  timestamp follows the voice stream's map, the duration is scaled to the destination rate and
  saturates at the largest value the event format can carry.
\<close>

theorem event_rescaled:
  assumes "rescale_event packet src dst m = (Some (ts, dur), q, m')"
  defines "h \<equiv> rtp_header_length packet"
  defines "has_event \<equiv> 0 < h \<and> h + 4 \<le> length packet"
  shows "length q = length packet \<and> (ts, m') = ts_map (field 4 4 packet) src dst m \<and>
    (ts < 2 ^ 32 \<longrightarrow> field 4 4 q = ts) \<and>
    dur = (if has_event then min (field (h + 2) 2 packet * dst div src) 65535 else 0) \<and>
    (has_event \<longrightarrow> field (h + 2) 2 q = dur) \<and>
    (\<forall>i < length packet. i \<notin> {4, 5, 6, 7} \<and> \<not> (has_event \<and> i \<in> {h + 2, h + 3}) \<longrightarrow> q ! i = packet ! i)"
proof -
  have len: "12 \<le> length packet" and rates: "src \<noteq> dst" "src \<noteq> 0" "dst \<noteq> 0"
    using assms(1) by (auto simp: rescale_event_def split: if_splits)
  obtain nts m1 where t: "ts_map (field 4 4 packet) src dst m = (nts, m1)" by fastforce
  define p1 where "p1 = put_bytes 4 (be_bytes 4 nts) packet"
  have l1: "length p1 = length packet" unfolding p1_def using len by (intro length_put_bytes) simp
  have h1: "rtp_header_length p1 = h" unfolding p1_def h_def using len by (intro header_length_put) simp_all
  have f1: "nts < 2 ^ 32 \<longrightarrow> field 4 4 p1 = nts"
    unfolding p1_def using field_put_bytes [of 4 "be_bytes 4 nts" packet] len by (simp add: be_nat_be_bytes)
  have n1: "p1 ! i = packet ! i" if "i < length packet" "i \<notin> {4, 5, 6, 7}" for i
    unfolding p1_def using that len by (intro nth_put_bytes) auto
  have hge: "has_event \<Longrightarrow> 12 \<le> h"
    unfolding has_event_def h_def by (auto simp: rtp_header_length_def Let_def split: if_splits)
  show ?thesis
  proof (cases has_event)
    case False
    then have "ts = nts" "dur = 0" "q = p1" "m' = m1"
      using assms(1) len rates t unfolding has_event_def
      by (auto simp: rescale_event_def p1_def [symmetric] h1 l1 split: if_splits)
    then show ?thesis using False l1 f1 n1 t by auto
  next
    case True
    let ?old = "field (h + 2) 2 p1" and ?at = "h + 2"
    have r: "ts = nts" "dur = min (?old * dst div src) u16_max" "q = put_bytes ?at (be_bytes 2 dur) p1" "m' = m1"
      using True assms(1) len rates t unfolding has_event_def
      by (auto simp: rescale_event_def p1_def [symmetric] h1 l1 Let_def split: if_splits)
    have old: "?old = field (h + 2) 2 packet"
      unfolding p1_def using hge [OF True] len by (intro field_put_other) auto
    have room: "?at + length (be_bytes 2 dur) \<le> length p1" using True l1 by (simp add: has_event_def)
    have "field ?at 2 q = dur"
      using field_put_bytes [OF room] r(2) by (simp add: r(3) be_nat_be_bytes u16_max_def)
    moreover have "field 4 4 q = field 4 4 p1"
      unfolding r(3) using room hge [OF True] by (intro field_put_other) auto
    moreover have "q ! i = packet ! i"
      if "i < length packet" "i \<notin> {4, 5, 6, 7}" "i \<notin> {h + 2, h + 3}" for i
    proof -
      have "q ! i = p1 ! i" unfolding r(3) using that l1 room by (intro nth_put_bytes) auto
      then show ?thesis using n1 that by simp
    qed
    moreover have "length q = length packet" unfolding r(3) using room l1 by (simp add: length_put_bytes)
    ultimately show ?thesis using True r f1 t old by (auto simp: u16_max_def)
  qed
qed

theorem event_rescaled_witness:
  "fst (rescale_event (replicate 14 0 @ [0, 160]) 8000 48000 timestamp_map_new) = Some (0, 960)"
proof -
  let ?p = "replicate 14 0 @ [0, 160] :: byte list"
  obtain ts dur q m' where r: "rescale_event ?p 8000 48000 timestamp_map_new = (Some (ts, dur), q, m')"
    by (fastforce simp: rescale_event_def Let_def case_prod_beta split: if_splits)
  have "rtp_header_length ?p = 12" by (simp add: rtp_header_length_def Let_def nth_append)
  moreover have "field 14 2 ?p = 160" "field 4 4 ?p = 0" by code_simp+
  moreover have "fst (ts_map 0 8000 48000 timestamp_map_new) = 0"
    by (simp add: ts_map_def timestamp_map_new_def scale32_def wrapping_sub32_def)
  ultimately have "ts = 0" "dur = 960" using event_rescaled [OF r] by (simp_all add: prod_eq_iff)
  with r show ?thesis by simp
qed

end
