(* ===== verification/Media_Stats.thy ===== *)
theory Media_Stats
  imports Bytes Text Net
begin

text \<open>
  \<^verbatim>\<open>crates/sbc-core/src/media/stats.rs\<close>: the counters of one media session, which the relay task
  alone writes. The atomics are natural numbers below $2^{64}$ and \<^verbatim>\<open>fetch_add\<close> wraps. Operations
  that read the clock take the instant \<open>now\<close>; stamps are milliseconds since the relay started.
\<close>

section \<open>Legs and drop reasons\<close>

datatype leg = Caller | Callee

fun leg_label :: "leg \<Rightarrow> string" where
  "leg_label Caller = ''caller''"
| "leg_label Callee = ''callee''"

fun leg_other :: "leg \<Rightarrow> leg" where
  "leg_other Caller = Callee"
| "leg_other Callee = Caller"

datatype drop_reason =
  DropNotRtp | DropNoEndpoint | DropPayloadType | DropTranscode | DropSrtp | DropSendFailed
| DropRtcp | DropIceAuth

definition all_drop_reasons :: "drop_reason list" where
  "all_drop_reasons =
     [DropNotRtp, DropNoEndpoint, DropPayloadType, DropTranscode, DropSrtp, DropSendFailed,
      DropRtcp, DropIceAuth]"

fun drop_label :: "drop_reason \<Rightarrow> string" where
  "drop_label DropNotRtp = ''not-rtp''"
| "drop_label DropNoEndpoint = ''no-endpoint''"
| "drop_label DropPayloadType = ''payload-type''"
| "drop_label DropTranscode = ''transcode''"
| "drop_label DropSrtp = ''srtp''"
| "drop_label DropSendFailed = ''send-failed''"
| "drop_label DropRtcp = ''rtcp''"
| "drop_label DropIceAuth = ''ice-auth''"

fun drop_index :: "drop_reason \<Rightarrow> nat" where
  "drop_index DropNotRtp = 0"
| "drop_index DropNoEndpoint = 1"
| "drop_index DropPayloadType = 2"
| "drop_index DropTranscode = 3"
| "drop_index DropSrtp = 4"
| "drop_index DropSendFailed = 5"
| "drop_index DropRtcp = 6"
| "drop_index DropIceAuth = 7"

section \<open>One leg\<close>

definition add64 :: "nat \<Rightarrow> nat \<Rightarrow> nat" where "add64 a b = (a + b) mod 2 ^ 64"

definition UNSET :: nat where "UNSET = u64_max"

record leg_stats =
  ls_rtcp_packets :: nat
  ls_passthrough_packets :: nat
  ls_rx_packets :: nat
  ls_rx_bytes :: nat
  ls_tx_packets :: nat
  ls_tx_bytes :: nat
  ls_last_rx_ms :: nat
  ls_last_tx_ms :: nat
  ls_ssrc :: nat
  ls_ssrc_changes :: nat
  ls_lost :: nat
  ls_endpoint_learned :: nat
  ls_endpoint_moved :: nat
  ls_one_way_reported :: nat
  ls_highest_seq :: nat

definition leg_stats_default :: leg_stats where
  "leg_stats_default =
     \<lparr>ls_rtcp_packets = 0, ls_passthrough_packets = 0, ls_rx_packets = 0, ls_rx_bytes = 0,
      ls_tx_packets = 0, ls_tx_bytes = 0, ls_last_rx_ms = 0, ls_last_tx_ms = 0, ls_ssrc = UNSET,
      ls_ssrc_changes = 0, ls_lost = 0, ls_endpoint_learned = 0, ls_endpoint_moved = 0,
      ls_one_way_reported = 0, ls_highest_seq = UNSET\<rparr>"

definition wrapping_sub16 :: "nat \<Rightarrow> nat \<Rightarrow> nat" where
  "wrapping_sub16 a b = (a + 2 ^ 16 - b) mod 2 ^ 16"

text \<open>The loss detection of \<^verbatim>\<open>LegStats::note_rx\<close>, within one stream.\<close>

definition note_seq :: "nat \<Rightarrow> leg_stats \<Rightarrow> leg_stats" where
  "note_seq sq l =
     (if ls_highest_seq l \<noteq> UNSET
      then
        let highest = ls_highest_seq l mod 2 ^ 16
        in if wrapping_sub16 sq highest < 0x8000
           then
             let gap = wrapping_sub16 sq ((highest + 1) mod 2 ^ 16);
                 l1 = (if 0 < gap \<and> gap < 1000 then l\<lparr>ls_lost := add64 (ls_lost l) gap\<rparr> else l)
             in l1\<lparr>ls_highest_seq := sq\<rparr>
           else l
      else l\<lparr>ls_highest_seq := sq\<rparr>)"

definition leg_note_rx :: "nat \<Rightarrow> nat \<Rightarrow> nat \<Rightarrow> nat \<Rightarrow> leg_stats \<Rightarrow> leg_stats" where
  "leg_note_rx len at_ms ssrc sq l =
     (let previous = ls_ssrc l;
          l1 = l\<lparr>ls_rx_packets := incr64 (ls_rx_packets l), ls_rx_bytes := add64 (ls_rx_bytes l) len,
                 ls_last_rx_ms := at_ms, ls_ssrc := ssrc\<rparr>
      in if previous = UNSET \<or> previous = ssrc then note_seq sq l1
         else l1\<lparr>ls_ssrc_changes := incr64 (ls_ssrc_changes l1), ls_highest_seq := sq\<rparr>)"

definition leg_note_tx :: "nat \<Rightarrow> nat \<Rightarrow> leg_stats \<Rightarrow> leg_stats" where
  "leg_note_tx len at_ms l =
     l\<lparr>ls_tx_packets := incr64 (ls_tx_packets l), ls_tx_bytes := add64 (ls_tx_bytes l) len,
       ls_last_tx_ms := at_ms\<rparr>"

definition leg_summary :: "leg_stats \<Rightarrow> string" where
  "leg_summary l =
     ''rx '' @ show_nat (ls_rx_packets l) @ ''p/'' @ show_nat (ls_rx_bytes l) @ ''B tx '' @
     show_nat (ls_tx_packets l) @ ''p/'' @ show_nat (ls_tx_bytes l) @ ''B lost '' @
     show_nat (ls_lost l) @ '' ssrc-changes '' @ show_nat (ls_ssrc_changes l)"

section \<open>One session\<close>

record call_media_stats =
  cm_started :: instant
  cm_caller :: leg_stats
  cm_callee :: leg_stats
  cm_drops :: "nat list"
  cm_last_relay_ms :: nat
  cm_audio_delivered :: nat

definition media_stats_new :: "instant \<Rightarrow> call_media_stats" where
  "media_stats_new now =
     \<lparr>cm_started = now, cm_caller = leg_stats_default, cm_callee = leg_stats_default,
      cm_drops = replicate (length all_drop_reasons) 0, cm_last_relay_ms = 0, cm_audio_delivered = 0\<rparr>"

fun leg_of :: "leg \<Rightarrow> call_media_stats \<Rightarrow> leg_stats" where
  "leg_of Caller s = cm_caller s"
| "leg_of Callee s = cm_callee s"

text \<open>A write through \<^verbatim>\<open>self.leg(leg)\<close>.\<close>

fun on_leg :: "leg \<Rightarrow> (leg_stats \<Rightarrow> leg_stats) \<Rightarrow> call_media_stats \<Rightarrow> call_media_stats" where
  "on_leg Caller f s = s\<lparr>cm_caller := f (cm_caller s)\<rparr>"
| "on_leg Callee f s = s\<lparr>cm_callee := f (cm_callee s)\<rparr>"

definition now_ms :: "instant \<Rightarrow> call_media_stats \<Rightarrow> nat" where
  "now_ms now s = ((now - cm_started s) div 1000000) mod 2 ^ 64"

definition note_drop :: "drop_reason \<Rightarrow> call_media_stats \<Rightarrow> call_media_stats" where
  "note_drop reason s =
     s\<lparr>cm_drops := (cm_drops s)[drop_index reason := incr64 (cm_drops s ! drop_index reason)]\<rparr>"

definition drops :: "call_media_stats \<Rightarrow> drop_reason \<Rightarrow> nat" where
  "drops s reason = cm_drops s ! drop_index reason"

definition note_rx :: "instant \<Rightarrow> leg \<Rightarrow> byte list \<Rightarrow> call_media_stats \<Rightarrow> call_media_stats" where
  "note_rx now leg data s =
     (let at = now_ms now s
      in if length data < 12 then note_drop DropNotRtp s
         else on_leg leg (leg_note_rx (length data) at (field 8 4 data) (field 2 2 data)) s)"

definition note_tx :: "instant \<Rightarrow> leg \<Rightarrow> nat \<Rightarrow> call_media_stats \<Rightarrow> call_media_stats" where
  "note_tx now leg len s =
     (let at = now_ms now s; s1 = on_leg leg (leg_note_tx len at) s
      in s1\<lparr>cm_last_relay_ms := at, cm_audio_delivered := incr64 (cm_audio_delivered s1)\<rparr>)"

definition note_tx_non_audio :: "leg \<Rightarrow> nat \<Rightarrow> call_media_stats \<Rightarrow> call_media_stats" where
  "note_tx_non_audio leg len =
     on_leg leg (\<lambda>l. l\<lparr>ls_tx_packets := incr64 (ls_tx_packets l),
                        ls_tx_bytes := add64 (ls_tx_bytes l) len\<rparr>)"

definition note_rtcp :: "leg \<Rightarrow> call_media_stats \<Rightarrow> call_media_stats" where
  "note_rtcp leg = on_leg leg (\<lambda>l. l\<lparr>ls_rtcp_packets := incr64 (ls_rtcp_packets l)\<rparr>)"

definition note_passthrough :: "leg \<Rightarrow> call_media_stats \<Rightarrow> call_media_stats" where
  "note_passthrough leg =
     on_leg leg (\<lambda>l. l\<lparr>ls_passthrough_packets := incr64 (ls_passthrough_packets l)\<rparr>)"

definition note_endpoint_learned :: "leg \<Rightarrow> call_media_stats \<Rightarrow> call_media_stats" where
  "note_endpoint_learned leg =
     on_leg leg (\<lambda>l. l\<lparr>ls_endpoint_learned := incr64 (ls_endpoint_learned l)\<rparr>)"

definition note_endpoint_moved :: "leg \<Rightarrow> call_media_stats \<Rightarrow> call_media_stats" where
  "note_endpoint_moved leg =
     on_leg leg (\<lambda>l. l\<lparr>ls_endpoint_moved := incr64 (ls_endpoint_moved l)\<rparr>)"

definition quiet_for :: "instant \<Rightarrow> leg \<Rightarrow> call_media_stats \<Rightarrow> duration option" where
  "quiet_for now leg s =
     (let last = ls_last_rx_ms (leg_of leg s)
      in if last = 0 \<and> ls_rx_packets (leg_of leg s) = 0 then None
         else Some (millis (now_ms now s - last)))"

definition since_last_relay_ms :: "instant \<Rightarrow> call_media_stats \<Rightarrow> nat option" where
  "since_last_relay_ms now s =
     (if cm_audio_delivered s = 0 then None else Some (now_ms now s - cm_last_relay_ms s))"

definition idle_ms :: "instant \<Rightarrow> call_media_stats \<Rightarrow> nat" where
  "idle_ms now s = (case since_last_relay_ms now s of Some n \<Rightarrow> n | None \<Rightarrow> now_ms now s)"

text \<open>The body of the loop of \<^verbatim>\<open>one_way_leg\<close>, for one leg.\<close>

definition leg_is_one_way :: "nat \<Rightarrow> nat \<Rightarrow> leg \<Rightarrow> call_media_stats \<Rightarrow> bool" where
  "leg_is_one_way now quiet_ms leg s =
     (let this = leg_of leg s; other = leg_of (leg_other leg) s
      in if ls_tx_packets this = 0 then False
         else if ls_rx_packets other = 0 \<or> quiet_ms < now - ls_last_rx_ms other then False
         else ls_rx_packets this = 0 \<or> quiet_ms < now - ls_last_rx_ms this)"

definition one_way_leg :: "instant \<Rightarrow> nat \<Rightarrow> call_media_stats \<Rightarrow> leg option" where
  "one_way_leg now quiet_ms s =
     find (\<lambda>leg. leg_is_one_way (now_ms now s) quiet_ms leg s) [Caller, Callee]"

definition claim_one_way_report :: "leg \<Rightarrow> call_media_stats \<Rightarrow> bool \<times> call_media_stats" where
  "claim_one_way_report leg s =
     (if ls_one_way_reported (leg_of leg s) = 0
      then (True, on_leg leg (\<lambda>l. l\<lparr>ls_one_way_reported := 1\<rparr>) s)
      else (False, s))"

definition media_summary :: "instant \<Rightarrow> call_media_stats \<Rightarrow> string" where
  "media_summary now s =
     (let ds = map (\<lambda>r. drop_label r @ '' '' @ show_nat (drops s r))
                 (filter (\<lambda>r. 0 < drops s r) all_drop_reasons)
      in ''caller['' @ leg_summary (cm_caller s) @ ''] callee['' @ leg_summary (cm_callee s) @
         ''] drops['' @ (if ds = [] then ''none'' else join_with '', '' ds) @ ''] after '' @
         show_nat (now_ms now s) @ '' ms'')"

section \<open>Reading back what was written\<close>

named_theorems media_stats_simps \<open>what the operations on the counters leave of the fields\<close>

lemma leg_of_on_leg [media_stats_simps]:
  "leg_of g (on_leg h f s) = (if g = h then f (leg_of g s) else leg_of g s)"
  by (cases g; cases h) simp_all

lemma on_leg_fields [simp]:
  "cm_started (on_leg g f s) = cm_started s" "cm_drops (on_leg g f s) = cm_drops s"
  "cm_last_relay_ms (on_leg g f s) = cm_last_relay_ms s"
  "cm_audio_delivered (on_leg g f s) = cm_audio_delivered s"
  by (cases g; simp)+

lemma now_ms_on_leg [simp]: "now_ms t (on_leg g f s) = now_ms t s"
  by (simp add: now_ms_def)

lemma note_drop_fields [simp]:
  "cm_started (note_drop r s) = cm_started s" "leg_of g (note_drop r s) = leg_of g s"
  "cm_last_relay_ms (note_drop r s) = cm_last_relay_ms s"
  "cm_audio_delivered (note_drop r s) = cm_audio_delivered s"
  by (cases g; simp add: note_drop_def)+

lemma drop_index_less [simp]: "drop_index r < 8"
  by (cases r) simp_all

lemma drop_index_eq [simp]: "drop_index r = drop_index q \<longleftrightarrow> r = q"
  by (cases r; cases q) simp_all

definition stats_ok :: "call_media_stats \<Rightarrow> bool" where
  "stats_ok s \<longleftrightarrow> length (cm_drops s) = 8"

lemma stats_ok_new [simp]: "stats_ok (media_stats_new t)"
  by (simp add: stats_ok_def media_stats_new_def all_drop_reasons_def)

lemma stats_ok_on_leg [simp]: "stats_ok (on_leg g f s) = stats_ok s"
  by (simp add: stats_ok_def)

lemma stats_ok_note_drop [simp]: "stats_ok (note_drop r s) = stats_ok s"
  by (simp add: stats_ok_def note_drop_def)

lemma drops_on_leg [simp]: "drops (on_leg g f s) r = drops s r"
  by (simp add: drops_def)

lemma drops_note_drop [media_stats_simps]:
  "stats_ok s \<Longrightarrow> drops (note_drop r s) q = (if q = r then incr64 (drops s r) else drops s q)"
  by (auto simp: drops_def note_drop_def stats_ok_def nth_list_update)

section \<open>Counting losses\<close>

text \<open>
  A stream as its sender numbers it: extended sequence numbers, which do not wrap, each packet
  ahead of the one before by at most a thousand.
\<close>

fun small_steps :: "nat list \<Rightarrow> bool" where
  "small_steps (a # b # es) \<longleftrightarrow> a < b \<and> b \<le> a + 1000 \<and> small_steps (b # es)"
| "small_steps _ \<longleftrightarrow> True"

type_synonym arrival = "nat \<times> nat \<times> nat"

definition arrive :: "nat \<Rightarrow> arrival \<Rightarrow> leg_stats \<Rightarrow> leg_stats" where
  "arrive ssrc = (\<lambda>(len, at, e). leg_note_rx len at ssrc (e mod 2 ^ 16))"

lemma wrapping_sub16_ext:
  assumes "a \<le> b" "b < a + 2 ^ 16"
  shows "wrapping_sub16 (b mod 2 ^ 16) (a mod 2 ^ 16) = b - a"
proof -
  have "int (wrapping_sub16 (b mod 2 ^ 16) (a mod 2 ^ 16)) = (int b - int a) mod 2 ^ 16"
  proof -
    have "a mod 2 ^ 16 \<le> b mod 2 ^ 16 + (2 ^ 16 :: nat)"
      by (meson less_imp_le_nat mod_less_divisor trans_le_add2 zero_less_numeral zero_less_power)
    then have "int (wrapping_sub16 (b mod 2 ^ 16) (a mod 2 ^ 16)) =
        (int b mod 2 ^ 16 + 2 ^ 16 - int a mod 2 ^ 16) mod 2 ^ 16"
      by (simp add: wrapping_sub16_def zmod_int of_nat_diff)
    also have "\<dots> = (int b - int a + 2 ^ 16) mod 2 ^ 16"
      by (metis (no_types, lifting) add_diff_eq add.commute mod_add_left_eq mod_diff_right_eq)
    also have "\<dots> = (int b - int a) mod 2 ^ 16" by (rule mod_add_self2)
    finally show ?thesis .
  qed
  also have "\<dots> = int (b - a)" using assms by (simp add: of_nat_diff)
  finally show ?thesis by simp
qed

lemma note_seq_step:
  assumes "ls_highest_seq l = a mod 2 ^ 16" "a < b" "b \<le> a + 1000"
  shows "ls_lost (note_seq (b mod 2 ^ 16) l) = (if b = a + 1 then ls_lost l else add64 (ls_lost l) (b - a - 1))"
    and "ls_highest_seq (note_seq (b mod 2 ^ 16) l) = b mod 2 ^ 16"
    and "ls_ssrc (note_seq (b mod 2 ^ 16) l) = ls_ssrc l"
proof -
  have set: "ls_highest_seq l \<noteq> UNSET"
    using assms(1) mod_less_divisor [of "2 ^ 16" a] by (simp add: UNSET_def u64_max_def)
  have hi: "ls_highest_seq l mod 2 ^ 16 = a mod 2 ^ 16" using assms(1) by simp
  have ahead: "wrapping_sub16 (b mod 2 ^ 16) (a mod 2 ^ 16) < 0x8000"
    using assms by (subst wrapping_sub16_ext) simp_all
  have gap: "wrapping_sub16 (b mod 2 ^ 16) ((a mod 2 ^ 16 + 1) mod 2 ^ 16) = b - a - 1"
    using assms wrapping_sub16_ext [of "a + 1" b] by (simp add: mod_simps)
  show "ls_lost (note_seq (b mod 2 ^ 16) l) = (if b = a + 1 then ls_lost l else add64 (ls_lost l) (b - a - 1))"
    "ls_highest_seq (note_seq (b mod 2 ^ 16) l) = b mod 2 ^ 16"
    "ls_ssrc (note_seq (b mod 2 ^ 16) l) = ls_ssrc l"
    using set ahead gap assms(2,3) unfolding note_seq_def hi Let_def by auto
qed

lemma arrive_step:
  assumes "ls_ssrc l = ssrc" "ls_highest_seq l = a mod 2 ^ 16" "a < e" "e \<le> a + 1000"
  shows "ls_ssrc (arrive ssrc (len, at, e) l) = ssrc"
    and "ls_highest_seq (arrive ssrc (len, at, e) l) = e mod 2 ^ 16"
    and "ls_lost l + (e - a - 1) < 2 ^ 64 \<Longrightarrow> ls_lost (arrive ssrc (len, at, e) l) = ls_lost l + (e - a - 1)"
  using assms note_seq_step [of "l\<lparr>ls_rx_packets := incr64 (ls_rx_packets l),
      ls_rx_bytes := add64 (ls_rx_bytes l) len, ls_last_rx_ms := at, ls_ssrc := ssrc\<rparr>" a e]
  by (auto simp: arrive_def leg_note_rx_def Let_def add64_def)

lemma arrivals_lost:
  assumes "ls_ssrc l = ssrc" "ls_highest_seq l = a mod 2 ^ 16" "small_steps (a # map (\<lambda>q. snd (snd q)) ps)"
    "ls_lost l + (last (a # map (\<lambda>q. snd (snd q)) ps) - a) < 2 ^ 64"
  shows "ls_lost (fold (arrive ssrc) ps l) + length ps = ls_lost l + (last (a # map (\<lambda>q. snd (snd q)) ps) - a)"
  using assms
proof (induction ps arbitrary: a l)
  case Nil
  then show ?case by simp
next
  case (Cons p ps)
  obtain len at e where p: "p = (len, at, e)" by (cases p)
  let ?last = "last (e # map (\<lambda>q. snd (snd q)) ps)"
  have steps: "a < e" "e \<le> a + 1000" "small_steps (e # map (\<lambda>q. snd (snd q)) ps)"
    using Cons.prems(3) by (simp_all add: p)
  have grow: "e \<le> last (e # es)" if "small_steps (e # es)" for es :: "nat list"
    using that
  proof (induction es arbitrary: e)
    case (Cons x es)
    then have "x \<le> last (x # es)" by simp
    with Cons.prems show ?case by simp
  qed simp
  have e: "e \<le> ?last" by (rule grow [OF steps(3)])
  have total: "ls_lost l + (?last - a) < 2 ^ 64" using Cons.prems(4) by (simp add: p)
  have now: "ls_lost (arrive ssrc p l) = ls_lost l + (e - a - 1)"
    unfolding p using Cons.prems(1,2) steps(1,2)
    by (rule arrive_step(3)) (use total e steps(1) in linarith)
  have "ls_lost (fold (arrive ssrc) ps (arrive ssrc p l)) + length ps = ls_lost (arrive ssrc p l) + (?last - e)"
  proof (rule Cons.IH)
    show "ls_ssrc (arrive ssrc p l) = ssrc" "ls_highest_seq (arrive ssrc p l) = e mod 2 ^ 16"
      unfolding p using Cons.prems(1,2) steps(1,2) by (rule arrive_step)+
    show "ls_lost (arrive ssrc p l) + (?last - e) < 2 ^ 64" using now total e steps(1) by linarith
  qed (rule steps(3))
  then show ?case using now e steps(1) by (simp add: p)
qed

text \<open>
  Loss counting is exact on a stream that arrives in order. For the packets of one SSRC,
  numbered by their sender with sequence numbers that wrap at $2^{16}$ and at most 999 packets
  missing between two arrivals, the leg's \<^verbatim>\<open>lost\<close> counter is the number of packets sent between the
  first and the last arrival that did not arrive, however often the 16-bit number wraps.
\<close>

theorem losses_counted_exactly:
  assumes "small_steps (map (\<lambda>q. snd (snd q)) (p # ps))" and "ssrc < 2 ^ 32"
    and "snd (snd (last (p # ps))) - snd (snd p) < 2 ^ 64"
  shows "ls_lost (fold (arrive ssrc) (p # ps) leg_stats_default) + length ps =
    snd (snd (last (p # ps))) - snd (snd p)"
proof -
  obtain len at e where p: "p = (len, at, e)" by (cases p)
  let ?l = "arrive ssrc p leg_stats_default"
  have l: "ls_ssrc ?l = ssrc" "ls_highest_seq ?l = e mod 2 ^ 16" "ls_lost ?l = 0"
    by (simp_all add: p arrive_def leg_note_rx_def note_seq_def leg_stats_default_def Let_def)
  have last: "last (e # map (\<lambda>q. snd (snd q)) ps) = snd (snd (last (p # ps)))"
    by (cases "ps = []") (simp_all add: p last_map)
  have "ls_lost (fold (arrive ssrc) ps ?l) + length ps = ls_lost ?l + (last (e # map (\<lambda>q. snd (snd q)) ps) - e)"
    using l assms(1,3) by (intro arrivals_lost) (simp_all only: last, simp_all add: p)
  then show ?thesis using l(3) last by (simp add: p)
qed

theorem losses_counted_exactly_witness:
  "ls_lost (fold (arrive 7) [(172, 0, 65534), (172, 20, 65535), (172, 80, 65538)] leg_stats_default) + 2 = 4"
  using losses_counted_exactly [of "(172, 0, 65534)" "[(172, 20, 65535), (172, 80, 65538)]" 7] by simp

section \<open>One-way audio\<close>

lemma one_way_leg_Some:
  "one_way_leg now q s = Some g \<Longrightarrow> leg_is_one_way (now_ms now s) q g s"
  by (auto simp: one_way_leg_def split: if_splits)

lemma claim_once:
  "snd (claim_one_way_report g s) = t \<Longrightarrow> claim_one_way_report g t = (False, t)"
  by (auto simp: claim_one_way_report_def media_stats_simps split: if_splits)

end
