(* ===== verification/Media_Endpoint.thy ===== *)
theory Media_Endpoint
  imports Net
begin

text \<open>
  \<^verbatim>\<open>crates/sbc-core/src/media/endpoint.rs\<close>: where a call's media may come from. A pure ladder of
  evidence: the verdict on a datagram's source address, given the address latched so far.
\<close>

datatype endpoint_mode = ModeObserve | ModeMoves

datatype endpoint_match = Signalled | SamePort | Sibling | SameStream | Quiet | First

fun match_label :: "endpoint_match \<Rightarrow> string" where
  "match_label Signalled = ''signalled''"
| "match_label SamePort = ''same-host''"
| "match_label Sibling = ''sibling''"
| "match_label SameStream = ''same-stream''"
| "match_label Quiet = ''quiet''"
| "match_label First = ''first''"

datatype endpoint_reject = Foreign | NotPlausible

fun reject_label :: "endpoint_reject \<Rightarrow> string" where
  "reject_label Foreign = ''foreign''"
| "reject_label NotPlausible = ''not-plausible''"

datatype verdict = Latch endpoint_match | Keep | Move endpoint_match | Refuse endpoint_reject

record observation =
  ob_latched :: "socket_addr option"
  ob_signalled :: "socket_addr option"
  ob_source :: socket_addr
  ob_plausible :: bool
  ob_same_stream :: bool
  ob_latched_quiet_for :: "duration option"

record endpoint_policy =
  ep_mode :: endpoint_mode
  ep_quiet_period :: duration

definition endpoint_policy_default :: endpoint_policy where
  "endpoint_policy_default = \<lparr>ep_mode = ModeObserve, ep_quiet_period = secs 5\<rparr>"

fun same_24 :: "ip_addr \<Rightarrow> ip_addr \<Rightarrow> bool" where
  "same_24 (V4 a b c d) (V4 a' b' c' d') \<longleftrightarrow> a = a' \<and> b = b' \<and> c = c'"
| "same_24 _ _ \<longleftrightarrow> False"

definition observe :: "endpoint_policy \<Rightarrow> observation \<Rightarrow> verdict" where
  "observe p ob =
     (if \<not> ob_plausible ob then Refuse NotPlausible
      else case ob_latched ob of
        None \<Rightarrow> Latch First
      | Some latched \<Rightarrow>
          if latched = ob_source ob then Keep
          else if Some (ob_source ob) = ob_signalled ob then Move Signalled
          else if (case ob_signalled ob of Some sg \<Rightarrow> fst sg = fst (ob_source ob) | None \<Rightarrow> False)
          then Move SamePort
          else if (case ob_signalled ob of Some sg \<Rightarrow> same_24 (fst sg) (fst (ob_source ob)) | None \<Rightarrow> False)
          then Move Sibling
          else if fst latched = fst (ob_source ob) then Move SamePort
          else if ob_same_stream ob then Move SameStream
          else case ob_latched_quiet_for ob of
                 Some quiet \<Rightarrow> if ep_quiet_period p \<le> quiet then Move Quiet else Refuse Foreign
               | None \<Rightarrow> Refuse Foreign)"

fun applies :: "endpoint_policy \<Rightarrow> verdict \<Rightarrow> bool" where
  "applies p (Refuse NotPlausible) = False"
| "applies p (Refuse Foreign) = (ep_mode p = ModeObserve)"
| "applies p _ = True"

section \<open>What the ladder promises\<close>

lemma observe_not_plausible: "\<not> ob_plausible ob \<Longrightarrow> observe p ob = Refuse NotPlausible"
  by (simp add: observe_def)

lemma observe_keep:
  "ob_plausible ob \<Longrightarrow> ob_latched ob = Some (ob_source ob) \<Longrightarrow> observe p ob = Keep"
  by (simp add: observe_def)

text \<open>A source with no evidence behind it, seen while the latched address is still sending.\<close>

definition no_evidence :: "endpoint_policy \<Rightarrow> observation \<Rightarrow> bool" where
  "no_evidence p ob \<longleftrightarrow>
     (\<exists>latched. ob_latched ob = Some latched \<and> fst latched \<noteq> fst (ob_source ob)) \<and>
     (\<forall>sg. ob_signalled ob = Some sg \<longrightarrow>
        fst sg \<noteq> fst (ob_source ob) \<and> \<not> same_24 (fst sg) (fst (ob_source ob))) \<and>
     \<not> ob_same_stream ob \<and>
     (\<forall>quiet. ob_latched_quiet_for ob = Some quiet \<longrightarrow> quiet < ep_quiet_period p)"

text \<open>
  The ladder refuses exactly the moves that have no evidence. A plausible datagram is refused
  as foreign if and only if an address of another host is latched, the source is neither the
  signalled host nor in its /24, the datagram does not carry the live stream's SSRC, and the leg has
  been heard within the quiet period; and with nothing latched the first plausible datagram always
  takes the endpoint.
\<close>

theorem foreign_means_no_evidence:
  "(observe p ob = Refuse Foreign \<longleftrightarrow> ob_plausible ob \<and> no_evidence p ob) \<and>
   (observe p ob = Latch First \<longleftrightarrow> ob_plausible ob \<and> ob_latched ob = None)"
proof (cases "ob_latched ob")
  case None
  then show ?thesis by (simp add: observe_def no_evidence_def)
next
  case latched: (Some a)
  show ?thesis
  proof (cases "ob_signalled ob")
    case None
    with latched show ?thesis
      by (cases "ob_latched_quiet_for ob") (auto simp: observe_def no_evidence_def not_le)
  next
    case (Some sg)
    with latched show ?thesis
      by (cases "ob_latched_quiet_for ob") (auto simp: observe_def no_evidence_def not_le)
  qed
qed

end
