(* ===== verification/Stun.thy ===== *)
theory Stun
  imports Bytes Net
begin

text \<open>
  \<^verbatim>\<open>crates/sbc-core/src/media/stun.rs\<close>: the STUN codec, the authentication of ICE connectivity
  checks, the signed Binding Response, and the demultiplexing of datagrams on a WebRTC port.
  HMAC-SHA1 (the \<^verbatim>\<open>hmac\<close> and \<^verbatim>\<open>sha1\<close> crates) is the parameter \<open>hmac\<close>, from key and message to twenty
  octets; \<^verbatim>\<open>String::from_utf8_lossy\<close> is the parameter \<open>lossy\<close>; the random transaction id is an argument.
\<close>

section \<open>Messages\<close>

definition STUN_MAGIC_COOKIE :: nat where "STUN_MAGIC_COOKIE = 0x2112A442"

definition magic_bytes :: "byte list" where "magic_bytes = [0x21, 0x12, 0xA4, 0x42]"

datatype stun_message_type = BindingRequest | BindingResponse | BindingError

definition message_type_from_u16 :: "nat \<Rightarrow> stun_message_type option" where
  "message_type_from_u16 v =
     (if v = 0x0001 then Some BindingRequest
      else if v = 0x0101 then Some BindingResponse
      else if v = 0x0111 then Some BindingError
      else None)"

fun message_type_to_u16 :: "stun_message_type \<Rightarrow> nat" where
  "message_type_to_u16 BindingRequest = 0x0001"
| "message_type_to_u16 BindingResponse = 0x0101"
| "message_type_to_u16 BindingError = 0x0111"

datatype stun_attribute_type = MappedAddressT | XorMappedAddressT | ErrorCodeT

definition attribute_type_from_u16 :: "nat \<Rightarrow> stun_attribute_type option" where
  "attribute_type_from_u16 v =
     (if v = 0x0001 then Some MappedAddressT
      else if v = 0x0020 then Some XorMappedAddressT
      else if v = 0x0009 then Some ErrorCodeT
      else None)"

fun attribute_type_to_u16 :: "stun_attribute_type \<Rightarrow> nat" where
  "attribute_type_to_u16 MappedAddressT = 0x0001"
| "attribute_type_to_u16 XorMappedAddressT = 0x0020"
| "attribute_type_to_u16 ErrorCodeT = 0x0009"

datatype stun_attribute =
    MappedAddress socket_addr
  | XorMappedAddress socket_addr
  | StunErrorCode nat string
  | UnknownAttr nat "byte list"

record stun_message =
  sm_type :: stun_message_type
  sm_transaction_id :: "byte list"
  sm_attributes :: "stun_attribute list"

definition str_bytes :: "string \<Rightarrow> byte list" where
  "str_bytes s = map (\<lambda>c. word_of_nat (of_char c)) s"

section \<open>Addresses on the wire\<close>

text \<open>\<^verbatim>\<open>octets()\<close> of the two address types, and \<^verbatim>\<open>Ipv6Addr::from([u8; 16])\<close>.\<close>

fun octets :: "ip_addr \<Rightarrow> byte list" where
  "octets (V4 a b c d) = [word_of_nat a, word_of_nat b, word_of_nat c, word_of_nat d]"
| "octets (V6 segs) = concat (map (be_bytes 2) segs)"

fun segments :: "byte list \<Rightarrow> nat list" where
  "segments (a # b # bs) = be_nat [a, b] # segments bs"
| "segments _ = []"

definition v4_of :: "byte list \<Rightarrow> ip_addr" where
  "v4_of bs = V4 (unat (bs ! 0)) (unat (bs ! 1)) (unat (bs ! 2)) (unat (bs ! 3))"

definition encode_address :: "socket_addr \<Rightarrow> byte list" where
  "encode_address addr =
     [0] @
     (case fst addr of
        V4 _ _ _ _ \<Rightarrow> [0x01] @ be_bytes 2 (snd addr) @ octets (fst addr)
      | V6 _ \<Rightarrow> [0x02] @ be_bytes 2 (snd addr) @ octets (fst addr))"

definition decode_address :: "byte list \<Rightarrow> socket_addr result" where
  "decode_address data =
     (if length data < 4 then Inl (MediaErr ''Invalid address attribute'')
      else
        let family = data ! 1; port = field 2 2 data
        in if family = 0x01 then
             if length data < 8 then Inl (MediaErr ''Invalid IPv4 address'')
             else Inr (v4_of (take 4 (drop 4 data)), port)
           else if family = 0x02 then
             if length data < 20 then Inl (MediaErr ''Invalid IPv6 address'')
             else Inr (V6 (segments (take 16 (drop 4 data))), port)
           else Inl (MediaErr (''Unknown address family: '' @ show_nat (unat family))))"

definition encode_xor_address :: "socket_addr \<Rightarrow> byte list" where
  "encode_xor_address addr =
     (let xor_port = xor (snd addr) 0x2112
      in [0] @
         (case fst addr of
            V4 _ _ _ _ \<Rightarrow> [0x01] @ be_bytes 2 xor_port @ xor_onto (octets (fst addr)) magic_bytes
          | V6 _ \<Rightarrow> [0x02] @ be_bytes 2 xor_port @ xor_onto (octets (fst addr)) (magic_bytes @ replicate 12 0)))"

definition decode_xor_address :: "byte list \<Rightarrow> byte list \<Rightarrow> socket_addr result" where
  "decode_xor_address data transaction_id =
     (if length data < 4 then Inl (MediaErr ''Invalid XOR address attribute'')
      else
        let family = data ! 1; port = xor (field 2 2 data) 0x2112
        in if family = 0x01 then
             if length data < 8 then Inl (MediaErr ''Invalid XOR IPv4 address'')
             else Inr (v4_of (xor_onto (take 4 (drop 4 data)) magic_bytes), port)
           else if family = 0x02 then
             if length data < 20 then Inl (MediaErr ''Invalid XOR IPv6 address'')
             else Inr (V6 (segments (xor_onto (take 16 (drop 4 data)) (magic_bytes @ transaction_id))), port)
           else Inl (MediaErr (''Unknown address family: '' @ show_nat (unat family))))"

section \<open>Attributes and messages on the wire\<close>

text \<open>\<^verbatim>\<open>while bytes.len() % 4 != 0 { bytes.push(0) }\<close>\<close>

definition pad4 :: "byte list \<Rightarrow> byte list" where
  "pad4 bs = bs @ replicate ((4 - length bs mod 4) mod 4) 0"

fun attribute_to_bytes :: "stun_attribute \<Rightarrow> byte list" where
  "attribute_to_bytes (XorMappedAddress addr) =
     (let v = encode_xor_address addr
      in pad4 (be_bytes 2 (attribute_type_to_u16 XorMappedAddressT) @ be_bytes 2 (length v) @ v))"
| "attribute_to_bytes (MappedAddress addr) =
     (let v = encode_address addr
      in pad4 (be_bytes 2 (attribute_type_to_u16 MappedAddressT) @ be_bytes 2 (length v) @ v))"
| "attribute_to_bytes (StunErrorCode code reason) =
     (let class = word_of_nat (code div 100); number = word_of_nat (code mod 100);
          reason_bytes = str_bytes reason; value_len = 4 + length reason_bytes
      in pad4 (be_bytes 2 (attribute_type_to_u16 ErrorCodeT) @ be_bytes 2 value_len @
               [0, 0, class, number] @ reason_bytes))"
| "attribute_to_bytes (UnknownAttr t data) = pad4 (be_bytes 2 t @ be_bytes 2 (length data) @ data)"

definition attribute_from_bytes ::
  "(byte list \<Rightarrow> string) \<Rightarrow> nat \<Rightarrow> byte list \<Rightarrow> byte list \<Rightarrow> stun_attribute result"
where
  "attribute_from_bytes lossy attr_type data transaction_id =
     (case attribute_type_from_u16 attr_type of
        Some MappedAddressT \<Rightarrow>
          (case decode_address data of Inl e \<Rightarrow> Inl e | Inr addr \<Rightarrow> Inr (MappedAddress addr))
      | Some XorMappedAddressT \<Rightarrow>
          (case decode_xor_address data transaction_id of
             Inl e \<Rightarrow> Inl e | Inr addr \<Rightarrow> Inr (XorMappedAddress addr))
      | Some ErrorCodeT \<Rightarrow>
          if length data < 4 then Inl (MediaErr ''Invalid error code attribute'')
          else Inr (StunErrorCode (unat (data ! 2) * 100 + unat (data ! 3)) (lossy (drop 4 data)))
      | None \<Rightarrow> Inr (UnknownAttr attr_type data))"

definition binding_request :: "byte list \<Rightarrow> stun_message" where
  "binding_request rnd = \<lparr>sm_type = BindingRequest, sm_transaction_id = rnd, sm_attributes = []\<rparr>"

definition stun_to_bytes :: "stun_message \<Rightarrow> byte list" where
  "stun_to_bytes m =
     (let attrs = concat (map attribute_to_bytes (sm_attributes m))
      in be_bytes 2 (message_type_to_u16 (sm_type m)) @ be_bytes 2 (length attrs) @
         be_bytes 4 STUN_MAGIC_COOKIE @ sm_transaction_id m @ attrs)"

definition padded :: "nat \<Rightarrow> nat" where "padded n = (n + 3) div 4 * 4"

function attributes_from ::
  "(byte list \<Rightarrow> string) \<Rightarrow> byte list \<Rightarrow> byte list \<Rightarrow> nat \<Rightarrow> nat \<Rightarrow> stun_attribute list \<Rightarrow>
    stun_attribute list result"
where
  "attributes_from lossy data tid end_at offset acc =
     (if offset < end_at then
        if length data < offset + 4 then Inr acc
        else
          let attr_type = field offset 2 data; attr_len = field (offset + 2) 2 data; at = offset + 4
          in if length data < at + attr_len then Inl (MediaErr ''Invalid STUN attribute length'')
             else case attribute_from_bytes lossy attr_type (take attr_len (drop at data)) tid of
                    Inl e \<Rightarrow> Inl e
                  | Inr a \<Rightarrow> attributes_from lossy data tid end_at (at + padded attr_len) (acc @ [a])
      else Inr acc)"
  by pat_completeness auto
termination by (relation "measure (\<lambda>(_, _, _, end_at, offset, _). end_at - offset)") auto

declare attributes_from.simps [simp del]

definition stun_from_bytes :: "(byte list \<Rightarrow> string) \<Rightarrow> byte list \<Rightarrow> stun_message result" where
  "stun_from_bytes lossy data =
     (if length data < 20 then Inl (MediaErr ''STUN message too short'')
      else case message_type_from_u16 (field 0 2 data) of
             None \<Rightarrow> Inl (MediaErr (''Unknown STUN message type: '' @ show_nat (field 0 2 data)))
           | Some message_type \<Rightarrow>
               let len = field 2 2 data; magic = field 4 4 data
               in if magic \<noteq> STUN_MAGIC_COOKIE
                  then Inl (MediaErr (''Invalid STUN magic cookie: 0x'' @ show_hex magic))
                  else
                    let tid = take 12 (drop 8 data)
                    in case attributes_from lossy data tid (20 + len) 20 [] of
                         Inl e \<Rightarrow> Inl e
                       | Inr attrs \<Rightarrow>
                           Inr \<lparr>sm_type = message_type, sm_transaction_id = tid, sm_attributes = attrs\<rparr>)"

fun first_mapped :: "stun_attribute list \<Rightarrow> socket_addr option" where
  "first_mapped [] = None"
| "first_mapped (XorMappedAddress addr # _) = Some addr"
| "first_mapped (MappedAddress addr # _) = Some addr"
| "first_mapped (_ # attrs) = first_mapped attrs"

definition mapped_address :: "stun_message \<Rightarrow> socket_addr option" where
  "mapped_address m = first_mapped (sm_attributes m)"

section \<open>The fingerprint\<close>

definition crc_step :: "32 word \<Rightarrow> 32 word" where
  "crc_step crc = (if crc AND 1 \<noteq> 0 then drop_bit 1 crc XOR 0xEDB88320 else drop_bit 1 crc)"

definition crc32_table :: "nat \<Rightarrow> 32 word" where
  "crc32_table i = (crc_step ^^ 8) (word_of_nat i)"

definition crc_byte :: "byte \<Rightarrow> 32 word \<Rightarrow> 32 word" where
  "crc_byte b crc = drop_bit 8 crc XOR crc32_table (unat ((crc XOR ucast b) AND 0xFF))"

definition crc32_stun :: "byte list \<Rightarrow> 32 word" where
  "crc32_stun data = fold crc_byte data 0xFFFFFFFF XOR 0xFFFFFFFF"

definition fingerprint_of :: "byte list \<Rightarrow> nat" where
  "fingerprint_of data = unat (crc32_stun data XOR 0x5354554E)"

section \<open>Connectivity checks\<close>

datatype stun_reject = NotARequest | NoIntegrity | BadIntegrity | NoUsername | BadFingerprint

fun stun_reject_label :: "stun_reject \<Rightarrow> string" where
  "stun_reject_label NotARequest = ''not-a-request''"
| "stun_reject_label NoIntegrity = ''no-integrity''"
| "stun_reject_label BadIntegrity = ''bad-integrity''"
| "stun_reject_label NoUsername = ''no-username''"
| "stun_reject_label BadFingerprint = ''bad-fingerprint''"

record stun_walk =
  sw_integrity :: "(nat \<times> byte list) option"
  sw_fingerprint :: "(nat \<times> nat) option"
  sw_has_username :: bool

definition walk_attribute :: "byte list \<Rightarrow> nat \<Rightarrow> nat \<Rightarrow> nat \<Rightarrow> stun_walk \<Rightarrow> stun_walk" where
  "walk_attribute data offset attr_type attr_len w =
     (if attr_type = 0x0006 then w\<lparr>sw_has_username := True\<rparr>
      else if attr_type = 0x0008 \<and> attr_len = 20 then
        if sw_integrity w = None
        then w\<lparr>sw_integrity := Some (offset, take 20 (drop (offset + 4) data))\<rparr> else w
      else if attr_type = 0x8028 \<and> attr_len = 4 then
        if sw_fingerprint w = None
        then w\<lparr>sw_fingerprint := Some (offset, field (offset + 4) 4 data)\<rparr> else w
      else w)"

function walk :: "byte list \<Rightarrow> nat \<Rightarrow> nat \<Rightarrow> stun_walk \<Rightarrow> stun_walk option" where
  "walk data end_at offset w =
     (if offset + 4 \<le> end_at then
        let attr_type = field offset 2 data; attr_len = field (offset + 2) 2 data; value_at = offset + 4
        in if end_at < value_at + attr_len then None
           else walk data end_at (value_at + padded attr_len) (walk_attribute data offset attr_type attr_len w)
      else Some w)"
  by pat_completeness auto
termination by (relation "measure (\<lambda>(_, end_at, offset, _). end_at - offset)") auto

declare walk.simps [simp del]

text \<open>What the HMAC covers: the message up to the attribute, its length as if that were the last.\<close>

definition covered :: "byte list \<Rightarrow> nat \<Rightarrow> byte list" where
  "covered data mi_at = put_bytes 2 (be_bytes 2 (mi_at - 20 + 24)) (take mi_at data)"

definition validate_binding_request ::
  "(byte list \<Rightarrow> byte list \<Rightarrow> byte list) \<Rightarrow> byte list \<Rightarrow> string \<Rightarrow> stun_reject + unit"
where
  "validate_binding_request hmac data local_ice_pwd =
     (if length data < 20 then Inl NotARequest
      else if field 0 2 data \<noteq> message_type_to_u16 BindingRequest then Inl NotARequest
      else if field 4 4 data \<noteq> STUN_MAGIC_COOKIE then Inl NotARequest
      else case walk data (min (20 + field 2 2 data) (length data)) 20
                  \<lparr>sw_integrity = None, sw_fingerprint = None, sw_has_username = False\<rparr> of
             None \<Rightarrow> Inl NotARequest
           | Some w \<Rightarrow>
               if (case sw_fingerprint w of
                     Some (at, claimed) \<Rightarrow> fingerprint_of (take at data) \<noteq> claimed | None \<Rightarrow> False)
               then Inl BadFingerprint
               else case sw_integrity w of
                      None \<Rightarrow> Inl NoIntegrity
                    | Some (mi_at, claimed) \<Rightarrow>
                        if \<not> sw_has_username w then Inl NoUsername
                        else if take 20 (hmac (str_bytes local_ice_pwd) (covered data mi_at)) = claimed
                        then Inr () else Inl BadIntegrity)"

definition build_binding_response_with_integrity ::
  "(byte list \<Rightarrow> byte list \<Rightarrow> byte list) \<Rightarrow> (byte list \<Rightarrow> string) \<Rightarrow> byte list \<Rightarrow> socket_addr \<Rightarrow>
    string option \<Rightarrow> byte list result"
where
  "build_binding_response_with_integrity hmac lossy request_data source local_ice_pwd =
     (case stun_from_bytes lossy request_data of
        Inl e \<Rightarrow> Inl e
      | Inr request \<Rightarrow>
          if sm_type request \<noteq> BindingRequest then Inl (MediaErr ''Not a STUN Binding Request'')
          else
            let bytes = stun_to_bytes \<lparr>sm_type = BindingResponse,
                          sm_transaction_id = sm_transaction_id request,
                          sm_attributes = [XorMappedAddress source]\<rparr>
            in case local_ice_pwd of
                 None \<Rightarrow> Inr bytes
               | Some pwd \<Rightarrow>
                   let mi_len = field 2 2 bytes + 24;
                       bytes1 = put_bytes 2 (be_bytes 2 mi_len) bytes;
                       bytes2 = bytes1 @ be_bytes 2 0x0008 @ be_bytes 2 0x0014 @
                                take 20 (hmac (str_bytes pwd) bytes1);
                       bytes3 = put_bytes 2 (be_bytes 2 (mi_len + 8)) bytes2
                   in Inr (bytes3 @ be_bytes 2 0x8028 @ be_bytes 2 0x0004 @ be_bytes 4 (fingerprint_of bytes3)))"

definition build_binding_response ::
  "(byte list \<Rightarrow> byte list \<Rightarrow> byte list) \<Rightarrow> (byte list \<Rightarrow> string) \<Rightarrow> byte list \<Rightarrow> socket_addr \<Rightarrow> byte list result"
where
  "build_binding_response hmac lossy request_data source =
     build_binding_response_with_integrity hmac lossy request_data source None"

section \<open>Demultiplexing\<close>

datatype multiplexed_packet_type = MuxStun | MuxDtls | MuxRtp | MuxRtcp | MuxUnknown

definition classify_packet :: "byte list \<Rightarrow> multiplexed_packet_type" where
  "classify_packet data =
     (case data of
        [] \<Rightarrow> MuxUnknown
      | b # _ \<Rightarrow>
          if unat b \<le> 3 then MuxStun
          else if 20 \<le> unat b \<and> unat b \<le> 63 then MuxDtls
          else if 128 \<le> unat b \<and> unat b \<le> 191 then
            if 2 \<le> length data \<and> 192 \<le> unat (data ! 1) \<and> unat (data ! 1) \<le> 223 then MuxRtcp else MuxRtp
          else MuxUnknown)"

section \<open>The client\<close>

text \<open>
  \<^verbatim>\<open>StunClient::binding_request\<close>, after the request was sent: what it makes of the datagram that
  came back within the timeout, if one did.
\<close>

definition client_binding_result ::
  "(byte list \<Rightarrow> string) \<Rightarrow> byte list \<Rightarrow> byte list option \<Rightarrow> socket_addr result"
where
  "client_binding_result lossy rnd received =
     (case received of
        None \<Rightarrow> Inl (MediaErr ''STUN request timeout'')
      | Some buf \<Rightarrow>
          (case stun_from_bytes lossy buf of
             Inl e \<Rightarrow> Inl e
           | Inr response \<Rightarrow>
               if sm_transaction_id response \<noteq> sm_transaction_id (binding_request rnd)
               then Inl (MediaErr ''STUN transaction ID mismatch'')
               else case mapped_address response of
                      Some a \<Rightarrow> Inr a
                    | None \<Rightarrow> Inl (MediaErr ''No mapped address in STUN response'')))"

section \<open>Addresses round trip\<close>

fun wf_ip :: "ip_addr \<Rightarrow> bool" where
  "wf_ip (V4 a b c d) \<longleftrightarrow> a < 256 \<and> b < 256 \<and> c < 256 \<and> d < 256"
| "wf_ip (V6 segs) \<longleftrightarrow> length segs = 8 \<and> (\<forall>s \<in> set segs. s < 65536)"

definition wf_addr :: "socket_addr \<Rightarrow> bool" where
  "wf_addr a \<longleftrightarrow> wf_ip (fst a) \<and> snd a < 65536"

lemma length_octets: "wf_ip ip \<Longrightarrow> length (octets ip) = (case ip of V4 _ _ _ _ \<Rightarrow> 4 | V6 _ \<Rightarrow> 16)"
  by (cases ip) (simp_all add: length_concat sum_list_triv comp_def)

lemma unat_byte_of [simp]: "n < 256 \<Longrightarrow> unat (word_of_nat n :: byte) = n"
  by (simp add: unat_of_nat)

lemma be_bytes_2: "be_bytes 2 s = [word_of_nat (s div 256), word_of_nat s]"
  by (simp add: numeral_2_eq_2)

lemma segments_octets: "(\<forall>s \<in> set segs. s < 65536) \<Longrightarrow> segments (concat (map (be_bytes 2) segs)) = segs"
proof (induction segs)
  case (Cons s segs)
  have "be_nat (be_bytes 2 s) = s" using Cons.prems by (simp add: be_nat_be_bytes)
  then show ?case using Cons by (simp add: be_bytes_2)
qed simp

lemma port_mask: "p < 65536 \<Longrightarrow> xor (be_nat (be_bytes 2 (xor p 0x2112))) 0x2112 = p" for p :: nat
proof -
  assume "p < 65536"
  then have p: "take_bit 16 p = p" by (simp add: take_bit_eq_mod)
  have "be_nat (be_bytes 2 (xor p 0x2112)) = take_bit 16 (xor p 0x2112)"
    by (simp add: be_nat_be_bytes take_bit_eq_mod)
  also have "\<dots> = xor p (take_bit 16 0x2112)" by (simp add: p)
  also have "take_bit 16 0x2112 = (0x2112 :: nat)" by (simp add: take_bit_eq_mod)
  finally show ?thesis by (simp add: xor.assoc)
qed

lemma decode_encode_address: "wf_addr a \<Longrightarrow> decode_address (encode_address a) = Inr a"
  by (cases a; cases "fst a")
    (auto simp: wf_addr_def decode_address_def encode_address_def v4_of_def field_def be_nat_be_bytes
      length_concat sum_list_triv comp_def segments_octets Let_def)

lemma encode_xor_v4:
  "encode_xor_address (V4 a b c d, port) =
     [0, 0x01] @ be_bytes 2 (xor port 0x2112) @ xor_onto (octets (V4 a b c d)) magic_bytes"
  by (simp add: encode_xor_address_def Let_def)

lemma decode_encode_xor_v4:
  "wf_addr (V4 a b c d, port) \<Longrightarrow>
   decode_xor_address (encode_xor_address (V4 a b c d, port)) tid = Inr (V4 a b c d, port)"
  by (simp add: wf_addr_def decode_xor_address_def encode_xor_v4 field_def port_mask v4_of_def Let_def)

text \<open>
  For IPv6 the encoder leaves out the transaction id that the decoder, as RFC 5389 asks, takes out
  again: a peer reads back another address, unless the id is zero.
\<close>

lemma ipv6_mapped_address_wrong:
  "decode_xor_address (encode_xor_address (V6 [0x2001, 0xdb8, 0, 0, 0, 0, 0, 1], 5000)) (replicate 12 0xFF)
     \<noteq> Inr (V6 [0x2001, 0xdb8, 0, 0, 0, 0, 0, 1], 5000)"
proof -
  have twelve: "replicate 12 b = [b, b, b, b, b, b, b, b, b, b, b, b]" for b :: byte
    by (simp add: numeral_eq_Suc)
  show ?thesis
    by (simp add: decode_xor_address_def encode_xor_address_def magic_bytes_def twelve be_bytes_2 be_nat_def
        Let_def)
qed

section \<open>The fingerprint, table against definition\<close>

text \<open>CRC-32 as it is defined: the register shifted bit by bit, each octet XORed into its low end.\<close>

definition crc32_reference :: "byte list \<Rightarrow> 32 word" where
  "crc32_reference data = fold (\<lambda>b crc. (crc_step ^^ 8) (crc XOR ucast b)) data 0xFFFFFFFF XOR 0xFFFFFFFF"

lemma crc_step_xor: "crc_step (a XOR b) = crc_step a XOR crc_step b"
proof -
  have odd: "(x AND 1 \<noteq> 0) = bit x 0" for x :: "32 word"
    by (simp add: and_one_eq bit_0 odd_iff_mod_2_eq_one)
  show ?thesis by (simp add: crc_step_def odd bit_xor_iff drop_bit_xor) (simp add: ac_simps)
qed

lemma crc_steps_xor: "(crc_step ^^ n) (a XOR b) = (crc_step ^^ n) a XOR (crc_step ^^ n) b"
  by (induction n) (simp_all add: crc_step_xor)

lemma crc_steps_high: "take_bit n x = 0 \<Longrightarrow> (crc_step ^^ n) x = drop_bit n x" for x :: "32 word"
proof (induction n arbitrary: x)
  case (Suc n)
  have "take_bit n x = take_bit n (take_bit (Suc n) x)" by simp
  then have low: "take_bit n x = 0" using Suc.prems by simp
  have "bit x n = bit (take_bit (Suc n) x) n" by (simp add: bit_take_bit_iff)
  then have "\<not> bit x n" using Suc.prems by simp
  then have "\<not> bit (drop_bit n x) 0" by (simp add: bit_drop_bit_eq)
  then have "drop_bit n x AND 1 = 0" by (simp add: and_one_eq bit_0 even_iff_mod_2_eq_zero)
  then show ?case using Suc.IH [OF low] by (simp add: crc_step_def)
qed simp

lemma crc_byte_bits: "crc_byte b crc = (crc_step ^^ 8) (crc XOR ucast b)"
proof -
  define x where "x = crc XOR (ucast b :: 32 word)"
  have split: "x = take_bit 8 x XOR push_bit 8 (drop_bit 8 x)"
    by (rule bit_word_eqI) (auto simp: bit_simps)
  have "(crc_step ^^ 8) (push_bit 8 (drop_bit 8 x)) = drop_bit 8 (push_bit 8 (drop_bit 8 x))"
    by (rule crc_steps_high, rule bit_word_eqI) (auto simp: bit_simps)
  also have "\<dots> = drop_bit 8 x"
    by (rule bit_word_eqI) (auto simp: bit_simps dest: bit_imp_le_length)
  also have "\<dots> = drop_bit 8 crc"
    by (rule bit_word_eqI) (auto simp: x_def bit_simps dest: bit_imp_le_length)
  finally have high: "(crc_step ^^ 8) (push_bit 8 (drop_bit 8 x)) = drop_bit 8 crc" .
  have mask: "x AND 0xFF = take_bit 8 x" by (simp add: take_bit_eq_mask mask_numeral)
  have low: "crc32_table (unat (x AND 0xFF)) = (crc_step ^^ 8) (take_bit 8 x)"
    by (simp add: crc32_table_def mask)
  have "(crc_step ^^ 8) x = (crc_step ^^ 8) (take_bit 8 x) XOR drop_bit 8 crc"
    by (subst split, subst crc_steps_xor, subst high) (rule refl)
  then show ?thesis unfolding crc_byte_def low [unfolded x_def] by (simp add: x_def xor.commute)
qed

text \<open>
  C39: The table-driven CRC-32 of the FINGERPRINT attribute is the CRC-32 of its definition, the
  register shifted one bit at a time, on every input.
\<close>

theorem crc32_table_correct: "crc32_stun data = crc32_reference data"
proof -
  have "crc_byte = (\<lambda>b crc. (crc_step ^^ 8) (crc XOR ucast b))"
    by (intro ext) (rule crc_byte_bits)
  then show ?thesis by (simp only: crc32_stun_def crc32_reference_def)
qed

section \<open>The answer to a connectivity check\<close>

lemma attribute_step:
  assumes "offset < end_at" "length pre = offset" "length v = n" "t < 65536" "n < 65536" "padded n = n"
  shows "attributes_from lossy (pre @ be_bytes 2 t @ be_bytes 2 n @ v @ post) tid end_at offset acc =
    (case attribute_from_bytes lossy t v tid of
       Inl e \<Rightarrow> Inl e
     | Inr a \<Rightarrow> attributes_from lossy (pre @ be_bytes 2 t @ be_bytes 2 n @ v @ post) tid end_at
                 (offset + 4 + n) (acc @ [a]))"
proof -
  let ?d = "pre @ be_bytes 2 t @ be_bytes 2 n @ v @ post"
  have f: "field offset 2 ?d = t" "field (offset + 2) 2 ?d = n" "take n (drop (offset + 4) ?d) = v"
    using assms by (simp_all add: field_def be_nat_be_bytes flip: numeral_2_eq_2)
  have l: "\<not> length ?d < offset + 4" "\<not> length ?d < offset + 4 + n" using assms by simp_all
  show ?thesis
    by (subst attributes_from.simps) (use assms(1,6) f l in \<open>simp only: if_True if_False Let_def\<close>)
qed

lemma attributes_end: "\<not> offset < end_at \<Longrightarrow> attributes_from lossy data tid end_at offset acc = Inr acc"
  by (subst attributes_from.simps) simp

lemma unknown_attribute:
  "attribute_type_from_u16 t = None \<Longrightarrow> attribute_from_bytes lossy t v tid = Inr (UnknownAttr t v)"
  by (simp add: attribute_from_bytes_def)

definition stun_header :: "nat \<Rightarrow> nat \<Rightarrow> byte list \<Rightarrow> byte list" where
  "stun_header t len tid = be_bytes 2 t @ be_bytes 2 len @ be_bytes 4 STUN_MAGIC_COOKIE @ tid"

lemma length_stun_header [simp]: "length (stun_header t len tid) = 8 + length tid"
  by (simp add: stun_header_def)

lemma put_length_header:
  "put_bytes 2 (be_bytes 2 len') (stun_header t len tid @ rest) = stun_header t len' tid @ rest"
  by (simp add: stun_header_def put_bytes_def)

lemma length_of_header:
  "len < 65536 \<Longrightarrow> field 2 2 (stun_header t len tid @ rest) = len"
  by (simp add: stun_header_def field_def be_nat_be_bytes)

lemma from_bytes_header:
  assumes "length tid = 12" "len < 65536" "message_type_from_u16 t = Some mt"
  shows "stun_from_bytes lossy (stun_header t len tid @ rest) =
    (case attributes_from lossy (stun_header t len tid @ rest) tid (20 + len) 20 [] of
       Inl e \<Rightarrow> Inl e
     | Inr attrs \<Rightarrow> Inr \<lparr>sm_type = mt, sm_transaction_id = tid, sm_attributes = attrs\<rparr>)"
proof -
  let ?d = "stun_header t len tid @ rest"
  have t: "t < 65536" using assms(3) by (auto simp: message_type_from_u16_def split: if_splits)
  have f: "field 0 2 ?d = t" "field 4 4 ?d = STUN_MAGIC_COOKIE" "take 12 (drop 8 ?d) = tid"
    using t assms(1) by (simp_all add: field_def stun_header_def be_nat_be_bytes STUN_MAGIC_COOKIE_def)
  have l: "\<not> length ?d < 20" using assms(1) by simp
  show ?thesis
    unfolding stun_from_bytes_def
    using l f length_of_header [OF assms(2), of t tid rest] assms(3) by simp
qed

lemma xor_v4_attribute:
  assumes "wf_addr (V4 a b c d, port)"
  shows "attribute_to_bytes (XorMappedAddress (V4 a b c d, port)) =
      be_bytes 2 0x20 @ be_bytes 2 8 @ encode_xor_address (V4 a b c d, port)"
    and "length (encode_xor_address (V4 a b c d, port)) = 8"
  by (simp_all add: encode_xor_v4 pad4_def Let_def)

lemma padded_multiple [simp]: "padded 8 = 8" "padded 20 = 20" "padded 4 = 4"
  by (simp_all add: padded_def)

text \<open>The three attributes of a signed answer, read back.\<close>

lemma signed_answer_attributes:
  assumes wf: "wf_addr (V4 a b c d, port)" and "length tid = 12" "length mac = 20" "length fp = 4"
  defines "x \<equiv> encode_xor_address (V4 a b c d, port)"
  shows "attributes_from lossy (stun_header t 44 tid @ be_bytes 2 0x20 @ be_bytes 2 8 @ x @
      be_bytes 2 8 @ be_bytes 2 20 @ mac @ be_bytes 2 0x8028 @ be_bytes 2 4 @ fp) tid 64 20 [] =
    Inr [XorMappedAddress (V4 a b c d, port), UnknownAttr 8 mac, UnknownAttr 0x8028 fp]" (is "?l = _")
proof -
  have x: "length x = 8" unfolding x_def by (rule xor_v4_attribute(2) [OF wf])
  have first: "attribute_from_bytes lossy 0x20 x tid = Inr (XorMappedAddress (V4 a b c d, port))"
    by (simp add: attribute_from_bytes_def attribute_type_from_u16_def x_def decode_encode_xor_v4 [OF wf])
  have others: "attribute_from_bytes lossy 8 v tid = Inr (UnknownAttr 8 v)"
    "attribute_from_bytes lossy 0x8028 v tid = Inr (UnknownAttr 0x8028 v)" for v
    by (simp_all add: unknown_attribute attribute_type_from_u16_def)
  let ?h = "stun_header t 44 tid"
  let ?a = "be_bytes 2 0x20 @ be_bytes 2 8 @ x"
  let ?m = "be_bytes 2 8 @ be_bytes 2 20 @ mac"
  let ?f = "be_bytes 2 0x8028 @ be_bytes 2 4 @ fp"
  let ?d = "?h @ ?a @ ?m @ ?f"
  have "?l = attributes_from lossy ?d tid 64 20 []" by simp
  also have "\<dots> = attributes_from lossy ?d tid 64 32 [XorMappedAddress (V4 a b c d, port)]"
    using attribute_step [where offset = 20 and end_at = 64 and pre = ?h
        and v = x and n = 8 and t = "0x20" and post = "?m @ ?f"] x assms(2) first by simp
  also have "\<dots> = attributes_from lossy ?d tid 64 56 [XorMappedAddress (V4 a b c d, port), UnknownAttr 8 mac]"
    using attribute_step [where offset = 32 and end_at = 64 and pre = "?h @ ?a"
        and v = mac and n = 20 and t = 8 and post = ?f] x assms(2,3) others by simp
  also have "\<dots> = attributes_from lossy ?d tid 64 64
      [XorMappedAddress (V4 a b c d, port), UnknownAttr 8 mac, UnknownAttr 0x8028 fp]"
    using attribute_step [where offset = 56 and end_at = 64 and pre = "?h @ ?a @ ?m"
        and v = fp and n = 4 and t = "0x8028" and post = "[]"] x assms(2-4) others by simp
  finally show ?thesis by (simp add: attributes_end)
qed

lemma plain_answer_attributes:
  assumes wf: "wf_addr (V4 a b c d, port)" and "length tid = 12"
  defines "x \<equiv> encode_xor_address (V4 a b c d, port)"
  shows "attributes_from lossy (stun_header t 12 tid @ be_bytes 2 0x20 @ be_bytes 2 8 @ x) tid 32 20 [] =
    Inr [XorMappedAddress (V4 a b c d, port)]"
proof -
  have x: "length x = 8" unfolding x_def by (rule xor_v4_attribute(2) [OF wf])
  have "attribute_from_bytes lossy 0x20 x tid = Inr (XorMappedAddress (V4 a b c d, port))"
    by (simp add: attribute_from_bytes_def attribute_type_from_u16_def x_def decode_encode_xor_v4 [OF wf])
  then show ?thesis
    using attribute_step [where offset = 20 and end_at = 32 and pre = "stun_header t 12 tid"
        and v = x and n = 8 and t = "0x20" and post = "[]"] x assms(2)
    by (simp add: attributes_end)
qed

lemma parsed_tid_length:
  "stun_from_bytes lossy data = Inr m \<Longrightarrow> length (sm_transaction_id m) = 12"
  by (auto simp: stun_from_bytes_def Let_def split: if_splits option.splits sum.splits)

lemma answer_shape:
  assumes "stun_from_bytes lossy req = Inr request" "sm_type request = BindingRequest"
    "wf_addr (V4 a b c d, port)"
  defines "tid \<equiv> sm_transaction_id request" and "x \<equiv> encode_xor_address (V4 a b c d, port)"
    and "h \<equiv> \<lambda>len. stun_header 0x0101 len (sm_transaction_id request)"
    and "attr \<equiv> be_bytes 2 0x20 @ be_bytes 2 8 @ encode_xor_address (V4 a b c d, port)"
  shows "build_binding_response_with_integrity hmac lossy req (V4 a b c d, port) None = Inr (h 12 @ attr)"
    and "build_binding_response_with_integrity hmac lossy req (V4 a b c d, port) (Some pwd) =
      (let body = h 44 @ attr @ be_bytes 2 8 @ be_bytes 2 20 @ take 20 (hmac (str_bytes pwd) (h 36 @ attr))
       in Inr (body @ be_bytes 2 0x8028 @ be_bytes 2 4 @ be_bytes 4 (fingerprint_of body)))"
proof -
  have base: "stun_to_bytes \<lparr>sm_type = BindingResponse, sm_transaction_id = sm_transaction_id request,
      sm_attributes = [XorMappedAddress (V4 a b c d, port)]\<rparr> = h 12 @ attr"
    using xor_v4_attribute [OF assms(3)]
    by (simp add: stun_to_bytes_def h_def attr_def stun_header_def Let_def)
  show "build_binding_response_with_integrity hmac lossy req (V4 a b c d, port) None = Inr (h 12 @ attr)"
    by (simp add: build_binding_response_with_integrity_def assms(1,2) base Let_def)
  show "build_binding_response_with_integrity hmac lossy req (V4 a b c d, port) (Some pwd) =
      (let body = h 44 @ attr @ be_bytes 2 8 @ be_bytes 2 20 @ take 20 (hmac (str_bytes pwd) (h 36 @ attr))
       in Inr (body @ be_bytes 2 0x8028 @ be_bytes 2 4 @ be_bytes 4 (fingerprint_of body)))"
    by (simp add: build_binding_response_with_integrity_def assms(1,2) base length_of_header
        put_length_header Let_def h_def)
qed

text \<open>
  A peer that asks finds its own address. Whatever Binding Request the answer is built for,
  over IPv4, with or without a password: the answer parses, carries the request's transaction id, and
  the client of the same module reads from it exactly the address the request came from.
\<close>

theorem binding_answer_round_trip:
  assumes "stun_from_bytes lossy req = Inr request" and "sm_type request = BindingRequest"
    and "wf_addr (V4 a b c d, port)" and "\<And>k m. length (hmac k m) = 20"
  shows "\<exists>answer. build_binding_response_with_integrity hmac lossy req (V4 a b c d, port) pwd = Inr answer \<and>
    client_binding_result lossy (sm_transaction_id request) (Some answer) = Inr (V4 a b c d, port)"
proof -
  note tid = parsed_tid_length [OF assms(1)]
  have mt: "message_type_from_u16 0x0101 = Some BindingResponse" by (simp add: message_type_from_u16_def)
  show ?thesis
  proof (cases pwd)
    case None
    then show ?thesis
      using answer_shape(1) [OF assms(1-3), of hmac] from_bytes_header [OF tid _ mt, of 12]
        plain_answer_attributes [OF assms(3) tid, of lossy "0x0101"]
      by (simp add: client_binding_result_def binding_request_def mapped_address_def)
  next
    case (Some p)
    then show ?thesis
      using answer_shape(2) [OF assms(1-3), of hmac p] from_bytes_header [OF tid _ mt, of 44]
        signed_answer_attributes [OF assms(3) tid, of _ _ lossy "0x0101"] assms(4)
      by (simp add: client_binding_result_def binding_request_def mapped_address_def Let_def)
  qed
qed

theorem binding_answer_round_trip_witness:
  "\<exists>answer. build_binding_response_with_integrity (\<lambda>k m. replicate 20 0) (\<lambda>_. [])
      (stun_to_bytes (binding_request (replicate 12 7))) (V4 192 0 2 1, 4000) (Some ''pw'') = Inr answer \<and>
    client_binding_result (\<lambda>_. []) (replicate 12 7) (Some answer) = Inr (V4 192 0 2 1, 4000)"
proof -
  have "stun_from_bytes (\<lambda>_. []) (stun_header 1 0 (replicate 12 7) @ []) = Inr (binding_request (replicate 12 7))"
    by (subst from_bytes_header) (simp_all add: message_type_from_u16_def attributes_end binding_request_def)
  then have "stun_from_bytes (\<lambda>_. []) (stun_to_bytes (binding_request (replicate 12 7))) =
      Inr (binding_request (replicate 12 7))"
    by (simp add: stun_to_bytes_def stun_header_def binding_request_def)
  then show ?thesis
    using binding_answer_round_trip [of "\<lambda>_. []" "stun_to_bytes (binding_request (replicate 12 7))"
        "binding_request (replicate 12 7)" 192 0 2 1 4000 "\<lambda>k m. replicate 20 0" "Some ''pw''"]
    by (simp add: binding_request_def wf_addr_def)
qed

section \<open>Who may take a WebRTC leg\<close>

lemma walk_integrity:
  assumes "walk data end_at offset w = Some w'" "sw_integrity w = None" "sw_integrity w' = Some (at, mac)"
  shows "offset \<le> at \<and> at + 24 \<le> end_at \<and> field at 2 data = 8 \<and> field (at + 2) 2 data = 20 \<and>
    mac = take 20 (drop (at + 4) data)"
  using assms
proof (induction data end_at offset w rule: walk.induct)
  case (1 data end_at offset w)
  let ?t = "field offset 2 data" and ?n = "field (offset + 2) 2 data"
  let ?w = "walk_attribute data offset ?t ?n w"
  show ?case
  proof (cases "offset + 4 \<le> end_at \<and> offset + 4 + ?n \<le> end_at")
    case False
    then show ?thesis using "1.prems" by (subst (asm) walk.simps) (auto split: if_splits)
  next
    case True
    then have rest: "walk data end_at (offset + 4 + padded ?n) ?w = Some w'"
      using "1.prems"(1) by (subst (asm) walk.simps) (auto simp: Let_def)
    show ?thesis
    proof (cases "sw_integrity ?w")
      case None
      with "1.IH" [of ?t ?n "offset + 4"] True rest "1.prems"(3) show ?thesis by auto
    next
      case (Some am)
      have keeps: "walk d e i v = Some v' \<Longrightarrow> sw_integrity v = Some am \<Longrightarrow> sw_integrity v' = Some am"
        for d e i v v'
        by (induction d e i v rule: walk.induct, subst (asm) walk.simps)
          (auto simp: walk_attribute_def Let_def split: if_splits)
      have "am = (at, mac)" using keeps [OF rest Some] "1.prems"(3) by simp
      then show ?thesis using Some True "1.prems"(2)
        by (auto simp: walk_attribute_def split: if_splits)
    qed
  qed
qed

text \<open>
  An accepted check carries the HMAC, keyed with the leg's own password, of all that precedes it.
\<close>

lemma accepted_check_is_authentic:
  assumes "validate_binding_request hmac data pwd = Inr ()"
  shows "field 0 2 data = 1 \<and>
    (\<exists>at. 20 \<le> at \<and> at + 24 \<le> length data \<and> field at 2 data = 8 \<and> field (at + 2) 2 data = 20 \<and>
       take 20 (drop (at + 4) data) = take 20 (hmac (str_bytes pwd) (covered data at)))"
proof -
  obtain w at mac where
    req: "field 0 2 data = 1" and
    w: "walk data (min (20 + field 2 2 data) (length data)) 20
          \<lparr>sw_integrity = None, sw_fingerprint = None, sw_has_username = False\<rparr> = Some w" and
    mac: "sw_integrity w = Some (at, mac)" "take 20 (hmac (str_bytes pwd) (covered data at)) = mac"
    using assms by (auto simp: validate_binding_request_def split: if_splits option.splits) blast
  from walk_integrity [OF w _ mac(1)] req mac(2) show ?thesis by auto
qed

end
