(* ===== verification/G711.thy ===== *)
theory G711
  imports Bytes "HOL-Library.Signed_Division"
begin

text \<open>
  The G.711 codecs and the upsampler of \<^verbatim>\<open>crates/sbc-core/src/transcoding.rs\<close>. An \<^verbatim>\<open>i16\<close> or \<^verbatim>\<open>i32\<close>
  sample is an \<open>int\<close>; an encoded sample is an octet. No intermediate value leaves the range of \<^verbatim>\<open>i32\<close>.
\<close>

section \<open>u-law\<close>

definition pcmu_exp :: "int \<Rightarrow> nat" where
  "pcmu_exp sample =
     (if sample < 0x0100 then 0 else if sample < 0x0200 then 1 else if sample < 0x0400 then 2
      else if sample < 0x0800 then 3 else if sample < 0x1000 then 4 else if sample < 0x2000 then 5
      else if sample < 0x4000 then 6 else 7)"

definition pcmu_encode_sample :: "int \<Rightarrow> byte" where
  "pcmu_encode_sample pcm =
     (let (sign, sample) = (if 0 \<le> pcm then (0x80, pcm) else (0x00, - pcm));
          sample = (if 32635 < sample then 32635 else sample);
          sample = sample + 0x84;
          exp = pcmu_exp sample;
          mantissa = word_of_int (and (drop_bit (exp + 3) sample) 0x0F)
      in NOT (sign OR push_bit 4 (word_of_nat exp) OR mantissa))"

definition pcmu_decode_sample :: "byte \<Rightarrow> int" where
  "pcmu_decode_sample ulaw0 =
     (let ulaw = NOT ulaw0;
          sign = ulaw AND 0x80;
          exp = unat (drop_bit 4 ulaw AND 0x07);
          mant = uint (ulaw AND 0x0F);
          t = push_bit exp (or (push_bit 3 mant) 0x84);
          sample = t - 0x84
      in if sign \<noteq> 0 then sample else - sample)"

definition pcmu_encode :: "int list \<Rightarrow> byte list" where "pcmu_encode = map pcmu_encode_sample"

definition pcmu_decode :: "byte list \<Rightarrow> int list" where "pcmu_decode = map pcmu_decode_sample"

section \<open>A-law\<close>

definition pcma_segment :: "int \<Rightarrow> int \<times> int" where
  "pcma_segment sample =
     (let s = drop_bit 4 sample
      in if s = 0 then (0, drop_bit 1 sample)
         else if s < 2 then (1, and (drop_bit 2 sample) 0x0F)
         else if s < 4 then (2, and (drop_bit 3 sample) 0x0F)
         else if s < 8 then (3, and (drop_bit 4 sample) 0x0F)
         else if s < 16 then (4, and (drop_bit 5 sample) 0x0F)
         else if s < 32 then (5, and (drop_bit 6 sample) 0x0F)
         else if s < 64 then (6, and (drop_bit 7 sample) 0x0F)
         else (7, and (drop_bit 8 sample) 0x0F))"

definition pcma_encode_sample :: "int \<Rightarrow> byte" where
  "pcma_encode_sample pcm =
     (let (sign, sample) = (if 0 \<le> pcm then (0x80, pcm) else (0x00, - pcm - 1));
          sample = (if 32767 < sample then 32767 else sample);
          (exp, mantissa) = pcma_segment sample
      in word_of_int (xor (or (or sign (push_bit 4 exp)) mantissa) 0x55))"

definition pcma_decode_sample :: "byte \<Rightarrow> int" where
  "pcma_decode_sample alaw0 =
     (let alaw = xor (uint alaw0) 0x55;
          sign = and alaw 0x80;
          exp = nat (and (drop_bit 4 alaw) 0x07);
          mant = and alaw 0x0F;
          sample = (if exp = 0 then or (push_bit 1 mant) 1
                    else or (push_bit exp (or mant 0x10)) (push_bit (exp - 1) 1))
      in if sign \<noteq> 0 then sample else - sample)"

definition pcma_encode :: "int list \<Rightarrow> byte list" where "pcma_encode = map pcma_encode_sample"

definition pcma_decode :: "byte list \<Rightarrow> int list" where "pcma_decode = map pcma_decode_sample"

section \<open>Upsampling\<close>

definition interpolate :: "int \<Rightarrow> int \<Rightarrow> int list" where
  "interpolate s0 s1 = map (\<lambda>k. s0 + ((s1 - s0) * k) sdiv 6) [0, 1, 2, 3, 4, 5]"

fun upsample_8k_to_48k :: "int list \<Rightarrow> int list" where
  "upsample_8k_to_48k [] = []"
| "upsample_8k_to_48k [s] = interpolate s s"
| "upsample_8k_to_48k (s0 # s1 # ss) = interpolate s0 s1 @ upsample_8k_to_48k (s1 # ss)"

section \<open>Little-endian PCM\<close>

definition pcm_to_bytes :: "int list \<Rightarrow> byte list" where
  "pcm_to_bytes pcm = concat (map (\<lambda>s. [word_of_int s, word_of_int (drop_bit 8 s)]) pcm)"

fun bytes_to_pcm :: "byte list \<Rightarrow> int list" where
  "bytes_to_pcm (lo # hi # bs) = (uint lo + 256 * sint hi) # bytes_to_pcm bs"
| "bytes_to_pcm _ = []"

section \<open>What the u-law codec keeps\<close>

text \<open>Every sign, segment and mantissa, coded and decoded: the 256 codes.\<close>

lemma ulaw_fields:
  assumes "e < 8" "0 \<le> m" "m < 16"
  shows "pcmu_decode_sample (NOT (0x80 OR push_bit 4 (word_of_nat e) OR word_of_int m)) =
      (8 * (16 + m) + 4) * 2 ^ e - 132"
    and "pcmu_decode_sample (NOT (0x00 OR push_bit 4 (word_of_nat e) OR word_of_int m)) =
      - ((8 * (16 + m) + 4) * 2 ^ e - 132)"
proof -
  have "\<forall>e \<in> set [0, 1, 2, 3, 4, 5, 6, 7]. \<forall>m \<in> set [0, 1, 2, 3, 4, 5, 6, 7, 8, 9, 10, 11, 12, 13, 14, 15].
      pcmu_decode_sample (NOT (0x80 OR push_bit 4 (word_of_nat e) OR word_of_int m)) =
        (8 * (16 + m) + 4) * 2 ^ e - 132 \<and>
      pcmu_decode_sample (NOT (0x00 OR push_bit 4 (word_of_nat e) OR word_of_int m)) =
        - ((8 * (16 + m) + 4) * 2 ^ e - 132)"
    by code_simp
  moreover have "e \<in> set [0, 1, 2, 3, 4, 5, 6, 7]" using assms(1) by auto
  moreover have "m \<in> set [0, 1, 2, 3, 4, 5, 6, 7, 8, 9, 10, 11, 12, 13, 14, 15]"
    using assms(2,3) by (simp, presburger)
  ultimately show
    "pcmu_decode_sample (NOT (0x80 OR push_bit 4 (word_of_nat e) OR word_of_int m)) =
      (8 * (16 + m) + 4) * 2 ^ e - 132"
    "pcmu_decode_sample (NOT (0x00 OR push_bit 4 (word_of_nat e) OR word_of_int m)) =
      - ((8 * (16 + m) + 4) * 2 ^ e - 132)"
    by blast+
qed

lemma pcmu_exp_bounds:
  assumes "132 \<le> s" "s < 32768"
  shows "pcmu_exp s < 8" "128 * 2 ^ pcmu_exp s \<le> s" "s < 256 * 2 ^ pcmu_exp s"
  using assms by (auto simp: pcmu_exp_def)

lemma ulaw_mantissa:
  fixes s :: int
  assumes "128 * 2 ^ e \<le> s" "s < 256 * 2 ^ e"
  shows "and (drop_bit (e + 3) s) 0x0F = s div (8 * 2 ^ e) - 16"
    and "0 \<le> s div (8 * 2 ^ e) - 16" "s div (8 * 2 ^ e) - 16 < 16"
proof -
  let ?d = "s div (8 * 2 ^ e)"
  have drop: "drop_bit (e + 3) s = ?d" by (simp add: drop_bit_eq_div power_add mult.commute)
  have q: "0 < (8 * 2 ^ e :: int)" by simp
  have "16 * (8 * 2 ^ e) \<le> s" using assms(1) by simp
  from zdiv_mono1 [OF this q] have low: "16 \<le> ?d" by simp
  have "?d * (8 * 2 ^ e) \<le> s"
    using pos_mod_sign [OF q, of s] div_mult_mod_eq [of s "8 * 2 ^ e"] by linarith
  also have "\<dots> < 32 * (8 * 2 ^ e)" using assms(2) by simp
  finally have "?d < 32" using q by (simp only: mult_less_cancel_right_pos)
  note d = low this
  show "and (drop_bit (e + 3) s) 0x0F = ?d - 16"
  proof -
    have "and ?d 0x0F = take_bit 4 ?d" by (simp add: take_bit_eq_mask mask_eq_exp_minus_1)
    also have "\<dots> = ?d mod 16" by (simp add: take_bit_eq_mod)
    also have "\<dots> = ?d - 16" using mod_pos_pos_trivial [of "?d - 16" 16] d by simp
    finally show ?thesis by (simp add: drop)
  qed
  show "0 \<le> ?d - 16" "?d - 16 < 16" using d by simp_all
qed

lemma pcmu_decode_encode:
  assumes "- 32635 \<le> x" "x \<le> 32635"
  defines "s \<equiv> \<bar>x\<bar> + 132"
  defines "q \<equiv> 8 * 2 ^ pcmu_exp s"
  shows "pcmu_decode_sample (pcmu_encode_sample x) =
    (if 0 \<le> x then 1 else - 1) * (s div q * q + q div 2 - 132)"
proof -
  have s: "132 \<le> s" "s < 32768" using assms(1,2) by (simp_all add: s_def)
  let ?e = "pcmu_exp s" and ?m = "s div q - 16"
  note e = pcmu_exp_bounds [OF s]
  note m = ulaw_mantissa [OF e(2,3), folded q_def]
  have t: "(8 * (16 + ?m) + 4) * 2 ^ ?e = s div q * q + q div 2"
    by (simp add: q_def algebra_simps)
  show ?thesis
  proof (cases "0 \<le> x")
    case True
    then have x: "x + 132 = s" by (simp add: s_def)
    have "pcmu_encode_sample x = NOT (0x80 OR push_bit 4 (word_of_nat ?e) OR word_of_int ?m)"
      using True assms(2) by (simp add: pcmu_encode_sample_def Let_def x m(1))
    then show ?thesis using ulaw_fields(1) [OF e(1) m(2,3)] t True by simp
  next
    case False
    then have x: "- x + 132 = s" by (simp add: s_def)
    have "pcmu_encode_sample x = NOT (0x00 OR push_bit 4 (word_of_nat ?e) OR word_of_int ?m)"
      using False assms(1) x by (simp add: pcmu_encode_sample_def Let_def m(1))
    then show ?thesis using ulaw_fields(2) [OF e(1) m(2,3)] t False by simp
  qed
qed

text \<open>
  U-law loses at most one part in thirty-two. For every sample inside the clipping range, the
  sample decoded from its code differs from it by at most a thirty-second of its magnitude (counted
  from the bias of 132): the logarithmic quantisation G.711 promises, on every segment.
\<close>

theorem ulaw_error_bound:
  assumes "- 32635 \<le> x" and "x \<le> 32635"
  shows "32 * \<bar>pcmu_decode_sample (pcmu_encode_sample x) - x\<bar> \<le> \<bar>x\<bar> + 132"
proof -
  define s where "s = \<bar>x\<bar> + 132"
  define q where "q = 8 * (2 :: int) ^ pcmu_exp s"
  have s: "132 \<le> s" "s < 32768" using assms by (simp_all add: s_def)
  have q: "0 < q" "16 * q \<le> s" "2 * (q div 2) = q" using pcmu_exp_bounds [OF s] by (simp_all add: q_def)
  have "0 \<le> s mod q" "s mod q < q" using q(1) by simp_all
  then have close: "s div q * q \<le> s" "s < s div q * q + q"
    using div_mult_mod_eq [of s q] by linarith+
  have x: "x = (if 0 \<le> x then 1 else - 1) * (s - 132)" by (simp add: s_def)
  have "\<bar>pcmu_decode_sample (pcmu_encode_sample x) - x\<bar> = \<bar>s div q * q + q div 2 - s\<bar>"
    using pcmu_decode_encode [OF assms, folded s_def, folded q_def] x by (auto split: if_splits)
  moreover define z where "z = \<bar>s div q * q + q div 2 - s\<bar>"
  moreover have "z \<le> q div 2" using close q(3) by (simp add: abs_le_iff z_def)
  then have "32 * z \<le> s" using q(2,3) by linarith
  ultimately show ?thesis by (simp add: s_def)
qed

theorem ulaw_error_bound_witness: "32 * \<bar>pcmu_decode_sample (pcmu_encode_sample (- 1000)) - (- 1000)\<bar> \<le> 1132"
  using ulaw_error_bound [of "- 1000"] by simp

text \<open>
  Re-encoding a decoded u-law stream gives the stream back. Every octet but 0xFF survives
  decoding and encoding; 0xFF, the second zero of the code, becomes 0x7F.
\<close>

theorem ulaw_stream_round_trip:
  "pcmu_encode (pcmu_decode bs) = map (\<lambda>b. if b = 0xFF then 0x7F else b) bs"
proof -
  have all: "\<forall>b \<in> set (map (word_of_nat :: nat \<Rightarrow> byte) [0..<256]).
      pcmu_encode_sample (pcmu_decode_sample b) = (if b = 0xFF then 0x7F else b)"
    by code_simp
  have "pcmu_encode_sample (pcmu_decode_sample b) = (if b = 0xFF then 0x7F else b)" for b
  proof -
    have word_nat_id: "word_of_nat (unat b) = b" by simp
    have "unat b \<in> set [0..<256]" using unat_byte_less [of b] by simp
    then have "word_of_nat (unat b) \<in> set (map (word_of_nat :: nat \<Rightarrow> byte) [0..<256])"
      unfolding set_map by (rule imageI)
    then have "b \<in> set (map (word_of_nat :: nat \<Rightarrow> byte) [0..<256])" by (simp only: word_nat_id)
    with all show ?thesis by blast
  qed
  then show ?thesis by (simp add: pcmu_encode_def pcmu_decode_def)
qed

text \<open>
  The sign bit of the code is the complement of the one the A-law codec of the same file and G.711
  use: a positive sample has the most significant bit of its u-law octet clear.
\<close>

lemma ulaw_polarity: "0 \<le> x \<Longrightarrow> \<not> bit (pcmu_encode_sample x) 7"
proof -
  have "\<not> bit (- 129 :: byte) 7" by code_simp
  then show "0 \<le> x \<Longrightarrow> \<not> bit (pcmu_encode_sample x) 7"
    by (simp add: pcmu_encode_sample_def Let_def bit_and_iff)
qed

text \<open>
  The A-law coder takes only four bits of a sample's position in the top segment: louder samples
  wrap around and are decoded quieter.
\<close>

lemma alaw_wraps:
  "pcma_decode_sample (pcma_encode_sample 4095) = 4032" "pcma_decode_sample (pcma_encode_sample 4096) = 2112"
  "pcma_decode_sample (pcma_encode_sample 8192) = 2112" "pcma_decode_sample (pcma_encode_sample 500) = 752"
  by code_simp+

section \<open>What the upsampler keeps\<close>

lemma sdiv6_between:
  assumes "0 \<le> k" "k \<le> (5 :: int)"
  shows "0 \<le> d \<Longrightarrow> 0 \<le> (d * k) sdiv 6 \<and> (d * k) sdiv 6 \<le> d"
    and "d \<le> 0 \<Longrightarrow> d \<le> (d * k) sdiv 6 \<and> (d * k) sdiv 6 \<le> 0"
proof -
  have up: "n * k div 6 \<le> n" "0 \<le> n * k div 6" if "0 \<le> n" for n
  proof -
    have "n * k \<le> n * 6" by (rule mult_left_mono) (use assms that in auto)
    then show "n * k div 6 \<le> n" using zdiv_mono1 [of "n * k" "n * 6" 6] by simp
    show "0 \<le> n * k div 6" using that assms by (simp add: pos_imp_zdiv_nonneg_iff)
  qed
  show "0 \<le> d \<Longrightarrow> 0 \<le> (d * k) sdiv 6 \<and> (d * k) sdiv 6 \<le> d"
    using up [of d] assms(1) by (cases "d * k = 0") (auto simp: signed_divide_int_def sgn_if abs_mult)
  show "d \<le> 0 \<Longrightarrow> d \<le> (d * k) sdiv 6 \<and> (d * k) sdiv 6 \<le> 0"
    using up [of "- d"] assms(1)
    by (cases "d * k = 0") (auto simp: signed_divide_int_def sgn_if abs_mult mult_less_0_iff zero_less_mult_iff)
qed

lemma interpolate_between: "v \<in> set (interpolate s0 s1) \<Longrightarrow> min s0 s1 \<le> v \<and> v \<le> max s0 s1"
proof -
  assume "v \<in> set (interpolate s0 s1)"
  then obtain k where "k \<in> set [0, 1, 2, 3, 4, 5 :: int]" and v: "v = s0 + ((s1 - s0) * k) sdiv 6"
    unfolding interpolate_def set_map by blast
  then have k: "0 \<le> k" "k \<le> 5" by auto
  show ?thesis using sdiv6_between [OF k, of "s1 - s0"] v by (cases "s0 \<le> s1") auto
qed

lemma interpolate_range:
  "set (interpolate s0 s1) \<subseteq> {s0..s1} \<union> {s1..s0}"
proof
  fix v assume "v \<in> set (interpolate s0 s1)"
  from interpolate_between [OF this] show "v \<in> {s0..s1} \<union> {s1..s0}" by auto
qed

lemma length_interpolate [simp]: "length (interpolate s0 s1) = 6"
  by (simp add: interpolate_def)

lemma interpolate_first: "interpolate s0 s1 ! 0 = s0"
  by (simp add: interpolate_def)

lemma length_upsample: "length (upsample_8k_to_48k ss) = 6 * length ss"
  by (induction ss rule: upsample_8k_to_48k.induct) simp_all

lemma upsample_keeps: "i < length ss \<Longrightarrow> upsample_8k_to_48k ss ! (6 * i) = ss ! i"
proof (induction ss arbitrary: i rule: upsample_8k_to_48k.induct)
  case (3 s0 s1 ss)
  then show ?case by (cases i) (simp_all add: nth_append interpolate_first)
qed (simp_all add: interpolate_first)

lemma upsample_range: "set (upsample_8k_to_48k ss) \<subseteq> (\<Union>a \<in> set ss. \<Union>b \<in> set ss. {a..b})"
proof (induction ss rule: upsample_8k_to_48k.induct)
  case (2 s)
  then show ?case using interpolate_range [of s s] by auto
next
  case (3 s0 s1 ss)
  then show ?case using interpolate_range [of s0 s1] by fastforce
qed simp

text \<open>
  Upsampling invents nothing. Six samples come out for each one that goes in, the first of each
  six is the original, and every one of them lies between two samples of the input, so the narrowing
  to 16 bits never wraps.
\<close>

theorem upsampled_within_input:
  "length (upsample_8k_to_48k ss) = 6 * length ss \<and>
   map (\<lambda>i. upsample_8k_to_48k ss ! (6 * i)) [0..<length ss] = ss \<and>
   set (upsample_8k_to_48k ss) \<subseteq> (\<Union>a \<in> set ss. \<Union>b \<in> set ss. {a..b})"
  by (auto simp: length_upsample upsample_keeps intro!: nth_equalityI upsample_range)

section \<open>Raw PCM\<close>

lemma pcm_bytes_round_trip:
  "\<forall>s \<in> set pcm. - 32768 \<le> s \<and> s < 32768 \<Longrightarrow> bytes_to_pcm (pcm_to_bytes pcm) = pcm"
proof (induction pcm)
  case (Cons s pcm)
  have hi: "sint (word_of_int (drop_bit 8 s) :: byte) = s div 256"
  proof -
    have "- 128 \<le> s div 256" "s div 256 < 128" using Cons.prems by auto
    then show ?thesis by (simp add: int_word_sint drop_bit_eq_div)
  qed
  then show ?case using Cons by (simp add: pcm_to_bytes_def uint_word_of_int)
qed (simp add: pcm_to_bytes_def)

end
