(* ===== verification/Transcoding.thy ===== *)
theory Transcoding
  imports G711 Net
begin

text \<open>
  The rest of \<^verbatim>\<open>crates/sbc-core/src/transcoding.rs\<close>: codecs, the transcoder, and the reading of audio
  formats from an SDP body. libopus is a parameter (\<open>opus_encode\<close>, \<open>opus_decode\<close>, and whether its encoder
  and decoder could be created); so is the 48 to 8 kHz filter \<open>downsample\<close>, which computes in \<^verbatim>\<open>f32\<close>.
  The rayon pool is not modelled. A payload type is a natural number below 256.
\<close>

section \<open>Codecs\<close>

definition PT_PCMU :: nat where "PT_PCMU = 0"
definition PT_PCMA :: nat where "PT_PCMA = 8"
definition PT_OPUS :: nat where "PT_OPUS = 111"
definition G711_RATE :: nat where "G711_RATE = 8000"
definition OPUS_RATE :: nat where "OPUS_RATE = 48000"
definition MAX_PAYLOAD_TYPE :: nat where "MAX_PAYLOAD_TYPE = 127"

datatype codec = Pcmu | Pcma | Opus | UnknownCodec nat

definition codec_from_pt :: "nat \<Rightarrow> codec" where
  "codec_from_pt pt =
     (if pt = PT_PCMU then Pcmu else if pt = PT_PCMA then Pcma else if pt = PT_OPUS then Opus
      else UnknownCodec pt)"

fun codec_pt :: "codec \<Rightarrow> nat" where
  "codec_pt Pcmu = PT_PCMU"
| "codec_pt Pcma = PT_PCMA"
| "codec_pt Opus = PT_OPUS"
| "codec_pt (UnknownCodec p) = p"

fun sample_rate :: "codec \<Rightarrow> nat" where
  "sample_rate Pcmu = G711_RATE"
| "sample_rate Pcma = G711_RATE"
| "sample_rate Opus = OPUS_RATE"
| "sample_rate (UnknownCodec _) = G711_RATE"

fun codec_name :: "codec \<Rightarrow> string" where
  "codec_name Pcmu = ''PCMU''"
| "codec_name Pcma = ''PCMA''"
| "codec_name Opus = ''opus''"
| "codec_name (UnknownCodec _) = ''unknown''"

fun clock_rate :: "codec \<Rightarrow> nat" where
  "clock_rate Pcmu = 8000"
| "clock_rate Pcma = 8000"
| "clock_rate Opus = 48000"
| "clock_rate (UnknownCodec _) = 8000"

section \<open>The transcoder\<close>

record transcoder =
  tc_src :: codec
  tc_dst :: codec
  tc_src_pt :: nat
  tc_dst_pt :: nat
  tc_opus_encoder :: bool
  tc_opus_decoder :: bool

definition with_payload_types ::
  "unit result \<Rightarrow> unit result \<Rightarrow> codec \<Rightarrow> nat \<Rightarrow> codec \<Rightarrow> nat \<Rightarrow> transcoder result"
where
  "with_payload_types encoder_new decoder_new src src_pt dst dst_pt =
     (case (if src = dst then None
            else case src of
                   UnknownCodec pt \<Rightarrow> Some (''no decoder for payload type '' @ show_nat pt @
                     '' (cannot convert to '' @ codec_name dst @ '')'')
                 | _ \<Rightarrow>
                     (case dst of
                        UnknownCodec pt \<Rightarrow> Some (''no encoder for payload type '' @ show_nat pt @
                          '' (cannot convert from '' @ codec_name src @ '')'')
                      | _ \<Rightarrow> None)) of
        Some e \<Rightarrow> Inl (OtherErr e)
      | None \<Rightarrow>
          (case (if dst = Opus \<and> src \<noteq> Opus then map_sum id (\<lambda>_. True) encoder_new else Inr False) of
             Inl e \<Rightarrow> Inl e
           | Inr enc \<Rightarrow>
               (case (if src = Opus \<and> dst \<noteq> Opus then map_sum id (\<lambda>_. True) decoder_new else Inr False) of
                  Inl e \<Rightarrow> Inl e
                | Inr dec \<Rightarrow>
                    Inr \<lparr>tc_src = src, tc_dst = dst, tc_src_pt = src_pt, tc_dst_pt = dst_pt,
                         tc_opus_encoder = enc, tc_opus_decoder = dec\<rparr>)))"

definition transcoder_new :: "unit result \<Rightarrow> unit result \<Rightarrow> codec \<Rightarrow> codec \<Rightarrow> transcoder result" where
  "transcoder_new encoder_new decoder_new src dst =
     with_payload_types encoder_new decoder_new src (codec_pt src) dst (codec_pt dst)"

definition passthrough :: transcoder where
  "passthrough = \<lparr>tc_src = UnknownCodec 0, tc_dst = UnknownCodec 0, tc_src_pt = 0, tc_dst_pt = 0,
     tc_opus_encoder = False, tc_opus_decoder = False\<rparr>"

definition to_opus :: "(int list \<Rightarrow> byte list result) \<Rightarrow> bool \<Rightarrow> int list \<Rightarrow> byte list result" where
  "to_opus opus_encode has_encoder pcm_8k =
     (let pcm_48k = upsample_8k_to_48k pcm_8k
      in if has_encoder then opus_encode pcm_48k else Inr (pcm_to_bytes pcm_48k))"

definition from_opus ::
  "(byte list \<Rightarrow> int list result) \<Rightarrow> (int list \<Rightarrow> int list) \<Rightarrow> bool \<Rightarrow> byte list \<Rightarrow> int list result"
where
  "from_opus opus_decode downsample has_decoder payload =
     (if has_decoder
      then case opus_decode payload of Inl e \<Rightarrow> Inl e | Inr pcm_48k \<Rightarrow> Inr (downsample pcm_48k)
      else Inr (downsample (bytes_to_pcm payload)))"

definition transcode ::
  "(int list \<Rightarrow> byte list result) \<Rightarrow> (byte list \<Rightarrow> int list result) \<Rightarrow> (int list \<Rightarrow> int list) \<Rightarrow>
    transcoder \<Rightarrow> byte list \<Rightarrow> byte list result"
where
  "transcode opus_encode opus_decode downsample tc payload =
     (if tc_src tc = tc_dst tc then Inr payload
      else case (tc_src tc, tc_dst tc) of
        (Pcmu, Pcma) \<Rightarrow> Inr (pcma_encode (pcmu_decode payload))
      | (Pcma, Pcmu) \<Rightarrow> Inr (pcmu_encode (pcma_decode payload))
      | (Pcmu, Opus) \<Rightarrow> to_opus opus_encode (tc_opus_encoder tc) (pcmu_decode payload)
      | (Opus, Pcmu) \<Rightarrow>
          map_sum id pcmu_encode (from_opus opus_decode downsample (tc_opus_decoder tc) payload)
      | (Pcma, Opus) \<Rightarrow> to_opus opus_encode (tc_opus_encoder tc) (pcma_decode payload)
      | (Opus, Pcma) \<Rightarrow>
          map_sum id pcma_encode (from_opus opus_decode downsample (tc_opus_decoder tc) payload)
      | _ \<Rightarrow> Inr payload)"

definition is_passthrough :: "transcoder \<Rightarrow> bool" where
  "is_passthrough tc \<longleftrightarrow>
     tc_src tc = tc_dst tc \<or> (\<exists>p. tc_src tc = UnknownCodec p) \<or> (\<exists>p. tc_dst tc = UnknownCodec p)"

lemma is_passthrough_code [code]:
  "is_passthrough tc \<longleftrightarrow>
     tc_src tc = tc_dst tc \<or> (case tc_src tc of UnknownCodec _ \<Rightarrow> True | _ \<Rightarrow> False) \<or>
     (case tc_dst tc of UnknownCodec _ \<Rightarrow> True | _ \<Rightarrow> False)"
  by (auto simp: is_passthrough_def split: codec.splits)

section \<open>Audio formats in SDP\<close>

definition prefer_line :: "string \<Rightarrow> string \<Rightarrow> string" where
  "prefer_line preferred line =
     (if starts_with line ''m=audio'' then
        let parts = split_whitespace line
        in if 3 < length parts then
             let pts = drop 3 parts;
                 ordered = (if preferred \<in> set pts then [preferred] else []) @ filter (\<lambda>pt. pt \<noteq> preferred) pts
             in parts ! 0 @ '' '' @ parts ! 1 @ '' '' @ parts ! 2 @ '' '' @ join_with '' '' ordered
           else line
      else line)"

definition sdp_prefer_codec :: "string \<Rightarrow> nat \<Rightarrow> string" where
  "sdp_prefer_codec sdp preferred_pt = join_with crlf (map (prefer_line (show_nat preferred_pt)) (lines sdp))"

text \<open>\<^verbatim>\<open>filter_map(|s| s.parse::<u8>().ok()).filter(|pt| *pt <= MAX_PAYLOAD_TYPE)\<close>\<close>

definition payload_types :: "string list \<Rightarrow> nat list" where
  "payload_types ws = filter (\<lambda>pt. pt \<le> MAX_PAYLOAD_TYPE) (List.map_filter (parse_uint 255) ws)"

definition sdp_audio_pts :: "string \<Rightarrow> nat list" where
  "sdp_audio_pts sdp =
     (case find (\<lambda>line. starts_with line ''m=audio'' \<and> 3 < length (split_whitespace line)) (lines sdp) of
        None \<Rightarrow> []
      | Some line \<Rightarrow> payload_types (drop 3 (split_whitespace line)))"

definition sdp_has_opus :: "string \<Rightarrow> bool" where
  "sdp_has_opus sdp \<longleftrightarrow> list_ex (\<lambda>l. contains (to_ascii_lowercase l) ''opus'') (lines sdp)"

definition sdp_has_pcmu :: "string \<Rightarrow> bool" where
  "sdp_has_pcmu sdp \<longleftrightarrow> PT_PCMU \<in> set (sdp_audio_pts sdp)"

record audio_format =
  af_pt :: nat
  af_name :: string
  af_clock_rate :: nat
  af_named :: bool

definition is_voice :: "audio_format \<Rightarrow> bool" where
  "is_voice f \<longleftrightarrow> af_named f \<and> af_name f \<notin> {''telephone-event'', ''cn'', ''red''}"

definition format_codec :: "audio_format \<Rightarrow> codec" where
  "format_codec f =
     (if af_name f = ''pcmu'' then Pcmu else if af_name f = ''pcma'' then Pcma
      else if af_name f = ''opus'' then Opus else UnknownCodec (af_pt f))"

definition static_format :: "nat \<Rightarrow> (string \<times> nat) option" where
  "static_format pt =
     map_of [(0, ''pcmu'', 8000), (13, ''cn'', 8000), (19, ''cn'', 8000), (3, ''gsm'', 8000),
             (4, ''g723'', 8000), (5, ''dvi4'', 8000), (8, ''pcma'', 8000), (9, ''g722'', 8000),
             (10, ''l16'', 44100), (11, ''l16'', 44100), (18, ''g729'', 8000)] pt"

fun audio_section :: "bool \<Rightarrow> string list \<Rightarrow> string list" where
  "audio_section in_audio [] = []"
| "audio_section in_audio (line # ls) =
     (case strip_prefix ''m='' line of
        Some rest \<Rightarrow>
          if in_audio then []
          else
            let audio = starts_with rest ''audio'';
                ws = split_whitespace rest;
                port_is_zero = (1 < length ws \<and> trim (ws ! 1) = ''0'')
            in if audio \<and> \<not> port_is_zero then line # audio_section True ls else audio_section False ls
      | None \<Rightarrow> if in_audio then line # audio_section True ls else audio_section False ls)"

definition read_rtpmap :: "string \<Rightarrow> (nat \<times> string \<times> nat) option" where
  "read_rtpmap line =
     (case (case strip_prefix ''a=rtpmap:'' line of
              Some rest \<Rightarrow> Some rest | None \<Rightarrow> strip_prefix ''A=rtpmap:'' line) of
        None \<Rightarrow> None
      | Some rest \<Rightarrow>
          (case split_whitespace rest of
             [] \<Rightarrow> None
           | p # parts \<Rightarrow>
               (case parse_uint 255 p of
                  None \<Rightarrow> None
                | Some pt \<Rightarrow>
                    if MAX_PAYLOAD_TYPE < pt then None
                    else
                      (case parts of
                         [] \<Rightarrow> None
                       | spec # _ \<Rightarrow>
                           let fields = split_on CHR ''/'' spec; name = hd fields
                           in if name = [] then None
                              else Some (pt, to_ascii_lowercase name,
                                (case tl fields of
                                   r # _ \<Rightarrow> (case parse_uint u32_max r of Some n \<Rightarrow> n | None \<Rightarrow> 8000)
                                 | [] \<Rightarrow> 8000))))))"

definition rtpmaps :: "string list \<Rightarrow> (nat, string \<times> nat) hmap" where
  "rtpmaps section =
     fold (\<lambda>line m. case read_rtpmap line of None \<Rightarrow> m | Some (pt, v) \<Rightarrow> hm_insert pt v m) section []"

definition audio_format_of :: "(nat, string \<times> nat) hmap \<Rightarrow> nat \<Rightarrow> audio_format" where
  "audio_format_of mapped pt =
     (case hm_get mapped pt of
        Some (name, rate) \<Rightarrow> \<lparr>af_pt = pt, af_name = name, af_clock_rate = rate, af_named = True\<rparr>
      | None \<Rightarrow>
          (case static_format pt of
             Some (name, rate) \<Rightarrow> \<lparr>af_pt = pt, af_name = name, af_clock_rate = rate, af_named = True\<rparr>
           | None \<Rightarrow> \<lparr>af_pt = pt, af_name = ''pt'' @ show_nat pt, af_clock_rate = 8000, af_named = False\<rparr>))"

definition sdp_audio_formats :: "string \<Rightarrow> audio_format list" where
  "sdp_audio_formats sdp =
     (let section = audio_section False (lines sdp)
      in case section of
           [] \<Rightarrow> []
         | m_line # _ \<Rightarrow>
             let pts = payload_types (drop 3 (split_whitespace m_line))
             in if pts = [] then [] else map (audio_format_of (rtpmaps section)) pts)"

definition sdp_primary_format :: "string \<Rightarrow> audio_format option" where
  "sdp_primary_format sdp = find is_voice (sdp_audio_formats sdp)"

definition sdp_primary_codec :: "string \<Rightarrow> codec" where
  "sdp_primary_codec sdp =
     (case sdp_primary_format sdp of Some f \<Rightarrow> format_codec f | None \<Rightarrow> UnknownCodec 0)"

definition voice_codecs :: "string \<Rightarrow> (string \<times> nat) list" where
  "voice_codecs sdp = map (\<lambda>f. (af_name f, af_clock_rate f)) (filter is_voice (sdp_audio_formats sdp))"

definition needs_transcoding :: "string \<Rightarrow> string \<Rightarrow> bool" where
  "needs_transcoding caller_sdp callee_sdp =
     (let caller = voice_codecs caller_sdp; callee = voice_codecs callee_sdp
      in if caller = [] \<or> callee = [] then False else \<not> list_ex (\<lambda>c. c \<in> set callee) caller)"

definition build_g711_sdp :: "string \<Rightarrow> nat \<Rightarrow> string" where
  "build_g711_sdp local_ip rtp_port =
     ''v=0'' @ crlf @ ''o=SBC 0 0 IN IP4 '' @ local_ip @ crlf @ ''s=SBC Session'' @ crlf @
     ''c=IN IP4 '' @ local_ip @ crlf @ ''t=0 0'' @ crlf @
     ''m=audio '' @ show_nat rtp_port @ '' RTP/AVP 0 8'' @ crlf @ ''a=rtpmap:0 PCMU/8000'' @ crlf @
     ''a=rtpmap:8 PCMA/8000'' @ crlf @ ''a=sendrecv'' @ crlf"

definition build_opus_sdp :: "string \<Rightarrow> nat \<Rightarrow> string" where
  "build_opus_sdp local_ip rtp_port =
     ''v=0'' @ crlf @ ''o=SBC 0 0 IN IP4 '' @ local_ip @ crlf @ ''s=SBC Session'' @ crlf @
     ''c=IN IP4 '' @ local_ip @ crlf @ ''t=0 0'' @ crlf @
     ''m=audio '' @ show_nat rtp_port @ '' RTP/AVP 111 0 8'' @ crlf @ ''a=rtpmap:111 opus/48000/2'' @ crlf @
     ''a=fmtp:111 useinbandfec=1'' @ crlf @ ''a=rtpmap:0 PCMU/8000'' @ crlf @
     ''a=rtpmap:8 PCMA/8000'' @ crlf @ ''a=sendrecv'' @ crlf"

section \<open>Transcoders\<close>

text \<open>
  C40: No stream is relabelled without being converted. A transcoder is only ever built for two
  codecs this program can convert between, or for equal ones: if its construction succeeds, it is a
  passthrough exactly when source and destination are the same, it carries the payload types the legs
  negotiated, and the libopus half its direction needs is there, so that the raw-PCM fall-backs are
  never taken.
\<close>

theorem transcoder_fits_its_codecs:
  assumes "with_payload_types encoder_new decoder_new src src_pt dst dst_pt = Inr tc"
  shows "(is_passthrough tc \<longleftrightarrow> src = dst) \<and> tc_src_pt tc = src_pt \<and> tc_dst_pt tc = dst_pt \<and>
    (src \<noteq> dst \<longrightarrow> transcode opus_encode opus_decode downsample tc payload =
       (case dst of
          Opus \<Rightarrow> opus_encode (upsample_8k_to_48k (if src = Pcmu then pcmu_decode payload else pcma_decode payload))
        | _ \<Rightarrow>
            map_sum id (if dst = Pcmu then pcmu_encode else pcma_encode)
              (case src of Opus \<Rightarrow> map_sum id downsample (opus_decode payload)
               | _ \<Rightarrow> Inr (if src = Pcmu then pcmu_decode payload else pcma_decode payload))))"
proof -
  have d: "(case r of Inl e \<Rightarrow> Inl e | Inr x \<Rightarrow> Inr (f x)) = map_sum id f r" for r :: "'c result" and f
    by (cases r) simp_all
  show ?thesis
    using assms
    by (cases src; cases dst; cases encoder_new; cases decoder_new)
      (auto simp: with_payload_types_def is_passthrough_def transcode_def to_opus_def from_opus_def d Let_def
        split: if_splits)
qed

theorem transcoder_fits_its_codecs_witness:
  "\<exists>tc. with_payload_types (Inr ()) (Inr ()) Opus 109 Pcmu 0 = Inr tc \<and> \<not> is_passthrough tc \<and>
     tc_src_pt tc = 109 \<and>
     transcode (\<lambda>_. Inr []) (\<lambda>_. Inr [0, 1000]) (\<lambda>p. p) tc [1, 2] = Inr (pcmu_encode [0, 1000])"
proof -
  obtain tc where tc: "with_payload_types (Inr ()) (Inr ()) Opus 109 Pcmu 0 = Inr tc"
    by (simp add: with_payload_types_def)
  from transcoder_fits_its_codecs [OF tc, of "\<lambda>_. Inr []" "\<lambda>_. Inr [0, 1000]" "\<lambda>p. p" "[1, 2]"] tc
  show ?thesis by auto
qed

text \<open>A pair with a codec outside the three is refused, whatever libopus does.\<close>

lemma unconvertible_pair_refused:
  "src \<noteq> dst \<Longrightarrow> (\<exists>p. src = UnknownCodec p) \<or> (\<exists>p. dst = UnknownCodec p) \<Longrightarrow>
   \<exists>e. with_payload_types enc dec src src_pt dst dst_pt = Inl e"
  by (cases src; cases dst) (auto simp: with_payload_types_def)

lemma g711_keeps_length:
  "tc_src tc \<in> {Pcmu, Pcma} \<Longrightarrow> tc_dst tc \<in> {Pcmu, Pcma} \<Longrightarrow>
   transcode e d f tc payload = Inr out \<Longrightarrow> length out = length payload"
  by (auto simp: transcode_def pcmu_encode_def pcma_encode_def pcmu_decode_def pcma_decode_def split: if_splits)

section \<open>Formats\<close>

lemma needs_transcoding_sym: "needs_transcoding a b \<longleftrightarrow> needs_transcoding b a"
  by (auto simp: needs_transcoding_def Let_def list_ex_iff)

lemma payload_types_bound: "pt \<in> set (payload_types ws) \<Longrightarrow> pt \<le> 127"
  by (auto simp: payload_types_def MAX_PAYLOAD_TYPE_def)

lemma formats_bound: "f \<in> set (sdp_audio_formats sdp) \<Longrightarrow> af_pt f \<le> 127"
proof -
  have "af_pt (audio_format_of m pt) = pt" for m pt
    by (auto simp: audio_format_of_def split: option.splits)
  then show "f \<in> set (sdp_audio_formats sdp) \<Longrightarrow> af_pt f \<le> 127"
    by (auto simp: sdp_audio_formats_def Let_def split: list.splits if_splits dest!: payload_types_bound)
qed

text \<open>An unnamed dynamic payload type is never taken for a codec the legs share.\<close>

lemma unnamed_never_shared: "(n, r) \<in> set (voice_codecs sdp) \<Longrightarrow>
  \<exists>f \<in> set (sdp_audio_formats sdp). af_named f \<and> af_name f = n"
  by (auto simp: voice_codecs_def is_voice_def)

lemma show_nat_zero: "show_nat n = ''0'' \<longleftrightarrow> n = 0"
proof
  assume a: "show_nat n = ''0''"
  show "n = 0"
  proof (cases "n < 10")
    case True
    then have "(of_char (digit_char n) :: nat) = 48 + n" by (simp add: digit_char_def)
    moreover have "show_nat n = [digit_char n]" using True unfolding show_nat_def by (subst show_base.simps) simp
    ultimately have "(48 :: nat) + n = of_char CHR ''0''" using a by (simp del: of_char_Char)
    then show ?thesis by simp
  next
    case False
    then have "show_nat n = show_nat (n div 10) @ [digit_char (n mod 10)]"
      unfolding show_nat_def by (subst show_base.simps) simp
    then show ?thesis using a show_nat_digits(2) [of "n div 10"] by (simp add: append_eq_Cons_conv)
  qed
next
  have "show_nat 0 = ''0''" by code_simp
  then show "n = 0 \<Longrightarrow> show_nat n = ''0''" by simp
qed

lemma LF_not_in_clean: "clean s \<Longrightarrow> LF \<notin> set s"
  by (auto simp: clean_def)

lemma audio_section_skip:
  "\<not> starts_with line ''m='' \<Longrightarrow> audio_section False (line # ls) = audio_section False ls"
  "\<not> starts_with line ''m='' \<Longrightarrow> audio_section True (line # ls) = line # audio_section True ls"
  by (simp_all add: strip_prefix_None split: option.splits) (simp_all add: starts_with_def)

lemma audio_section_enter:
  assumes "port \<noteq> 0"
  shows "audio_section False ((''m=audio '' @ show_nat port @ '' '' @ s) # ls) =
    (''m=audio '' @ show_nat port @ '' '' @ s) # audio_section True ls"
proof -
  have ws: "split_whitespace (''audio '' @ show_nat port @ '' '' @ s) = ''audio'' # show_nat port # split_whitespace s"
    using split_whitespace_word(1) [of "''audio''" "show_nat port @ '' '' @ s"]
      split_whitespace_word(1) [OF show_nat_no_space show_nat_digits(2), of port s]
    by (simp add: is_space_def)
  have "trim (show_nat port) = show_nat port"
  proof -
    have drop: "dropWhile is_space w = w" if "list_all (\<lambda>c. \<not> is_space c) w" for w
      using that by (cases w) simp_all
    have "list_all (\<lambda>c. \<not> is_space c) (rev (show_nat port))" using show_nat_no_space by (simp add: list_all_iff)
    then show ?thesis by (simp add: trim_def trim_start_def trim_end_def drop show_nat_no_space)
  qed
  moreover have "strip_prefix ''m='' (''m=audio '' @ show_nat port @ '' '' @ s) = Some (''audio '' @ show_nat port @ '' '' @ s)"
    by simp
  moreover have "starts_with (''audio '' @ show_nat port @ '' '' @ s) ''audio''"
    by (simp add: starts_with_def)
  ultimately show ?thesis using assms ws show_nat_zero [of port] by (simp add: Let_def)
qed

lemma lines_of_lines: "list_all (\<lambda>l. LF \<notin> set l) ls \<Longrightarrow> lines (concat (map (\<lambda>l. l @ crlf) ls)) = ls"
  by (induction ls) (simp_all add: lines_crlf)

lemma opus_sdp_lines:
  assumes "clean ip"
  shows "lines (build_opus_sdp ip port) =
    [''v=0'', ''o=SBC 0 0 IN IP4 '' @ ip, ''s=SBC Session'', ''c=IN IP4 '' @ ip, ''t=0 0'',
     ''m=audio '' @ show_nat port @ '' '' @ ''RTP/AVP 111 0 8'', ''a=rtpmap:111 opus/48000/2'',
     ''a=fmtp:111 useinbandfec=1'', ''a=rtpmap:0 PCMU/8000'', ''a=rtpmap:8 PCMA/8000'', ''a=sendrecv'']"
    (is "_ = ?ls")
proof -
  have "build_opus_sdp ip port = concat (map (\<lambda>l. l @ crlf) ?ls)" by (simp add: build_opus_sdp_def)
  moreover have "list_all (\<lambda>l. LF \<notin> set l) ?ls" using assms by (simp add: LF_not_in_clean)
  ultimately show ?thesis using lines_of_lines [of ?ls] by argo
qed

lemma g711_sdp_lines:
  assumes "clean ip"
  shows "lines (build_g711_sdp ip port) =
    [''v=0'', ''o=SBC 0 0 IN IP4 '' @ ip, ''s=SBC Session'', ''c=IN IP4 '' @ ip, ''t=0 0'',
     ''m=audio '' @ show_nat port @ '' '' @ ''RTP/AVP 0 8'', ''a=rtpmap:0 PCMU/8000'',
     ''a=rtpmap:8 PCMA/8000'', ''a=sendrecv'']"
    (is "_ = ?ls")
proof -
  have "build_g711_sdp ip port = concat (map (\<lambda>l. l @ crlf) ?ls)" by (simp add: build_g711_sdp_def)
  moreover have "list_all (\<lambda>l. LF \<notin> set l) ?ls" using assms by (simp add: LF_not_in_clean)
  ultimately show ?thesis using lines_of_lines [of ?ls] by argo
qed

lemma m_line_types:
  "payload_types (drop 3 (split_whitespace (''m=audio '' @ show_nat port @ '' '' @ ''RTP/AVP '' @ s))) =
   payload_types (split_whitespace s)"
proof -
  have "split_whitespace (''m=audio '' @ show_nat port @ '' '' @ ''RTP/AVP '' @ s) =
      ''m=audio'' # show_nat port # ''RTP/AVP'' # split_whitespace s"
    using split_whitespace_word(1) [of "''m=audio''" "show_nat port @ '' '' @ ''RTP/AVP '' @ s"]
      split_whitespace_word(1) [OF show_nat_no_space show_nat_digits(2), of port "''RTP/AVP '' @ s"]
      split_whitespace_word(1) [of "''RTP/AVP''" s]
    by (simp add: is_space_def)
  then show ?thesis by simp
qed

lemma section_skips: "\<not> starts_with (''o='' @ s) ''m=''" "\<not> starts_with (''c='' @ s) ''m=''"
  "\<not> starts_with (''v='' @ s) ''m=''" "\<not> starts_with (''s='' @ s) ''m=''" "\<not> starts_with (''t='' @ s) ''m=''"
  "\<not> starts_with (''a='' @ s) ''m=''"
  by (simp_all add: starts_with_def)

lemmas sdp_walk = audio_section_skip section_skips [simplified]

lemma opus_section:
  "clean ip \<Longrightarrow> port \<noteq> 0 \<Longrightarrow> audio_section False (lines (build_opus_sdp ip port)) =
    [''m=audio '' @ show_nat port @ '' '' @ ''RTP/AVP '' @ ''111 0 8'', ''a=rtpmap:111 opus/48000/2'',
     ''a=fmtp:111 useinbandfec=1'', ''a=rtpmap:0 PCMU/8000'', ''a=rtpmap:8 PCMA/8000'', ''a=sendrecv'']"
  using audio_section_enter [of port "''RTP/AVP 111 0 8''"]
  by (simp add: opus_sdp_lines sdp_walk del: audio_section.simps(2))

lemma g711_section:
  "clean ip \<Longrightarrow> port \<noteq> 0 \<Longrightarrow> audio_section False (lines (build_g711_sdp ip port)) =
    [''m=audio '' @ show_nat port @ '' '' @ ''RTP/AVP '' @ ''0 8'', ''a=rtpmap:0 PCMU/8000'',
     ''a=rtpmap:8 PCMA/8000'', ''a=sendrecv'']"
  using audio_section_enter [of port "''RTP/AVP 0 8''"]
  by (simp add: g711_sdp_lines sdp_walk del: audio_section.simps(2))

lemma lower_names: "to_ascii_lowercase ''PCMU'' = ''pcmu''" "to_ascii_lowercase ''PCMA'' = ''pcma''"
  "to_ascii_lowercase ''opus'' = ''opus''"
  by code_simp+

text \<open>The attribute lines of both offers, read.\<close>

lemma offer_rtpmaps:
  "read_rtpmap ''a=rtpmap:111 opus/48000/2'' = Some (111, ''opus'', 48000)"
  "read_rtpmap ''a=fmtp:111 useinbandfec=1'' = None"
  "read_rtpmap ''a=rtpmap:0 PCMU/8000'' = Some (0, ''pcmu'', 8000)"
  "read_rtpmap ''a=rtpmap:8 PCMA/8000'' = Some (8, ''pcma'', 8000)"
  "read_rtpmap ''a=sendrecv'' = None"
  "read_rtpmap (''m=audio '' @ s) = None"
  by (simp_all add: read_rtpmap_def split_whitespace_def is_space_def parse_uint_def is_ascii_digit_def
      digits_value_def digit_value_def MAX_PAYLOAD_TYPE_def u32_max_def lower_names Let_def)

lemma offer_types:
  "payload_types (split_whitespace ''111 0 8'') = [111, 0, 8]"
  "payload_types (split_whitespace ''0 8'') = [0, 8]"
  by (simp_all add: payload_types_def split_whitespace_def is_space_def parse_uint_def is_ascii_digit_def
      digits_value_def digit_value_def MAX_PAYLOAD_TYPE_def List.map_filter_def Let_def)

text \<open>
  What the SBC offers is what it reads back. The audio formats found in the SDP built for
  WebRTC clients are Opus on 111 and the two G.711 codecs, in this order, and those of the SDP for
  legacy trunks are the two G.711 codecs, for every address and every port but 0 (which rejects the
  media); so between the two no transcoding is needed.
\<close>

theorem offers_read_back:
  assumes "clean ip" and "port \<noteq> 0"
  shows "sdp_audio_formats (build_opus_sdp ip port) =
      [\<lparr>af_pt = 111, af_name = ''opus'', af_clock_rate = 48000, af_named = True\<rparr>,
       \<lparr>af_pt = 0, af_name = ''pcmu'', af_clock_rate = 8000, af_named = True\<rparr>,
       \<lparr>af_pt = 8, af_name = ''pcma'', af_clock_rate = 8000, af_named = True\<rparr>] \<and>
    sdp_audio_formats (build_g711_sdp ip port) =
      [\<lparr>af_pt = 0, af_name = ''pcmu'', af_clock_rate = 8000, af_named = True\<rparr>,
       \<lparr>af_pt = 8, af_name = ''pcma'', af_clock_rate = 8000, af_named = True\<rparr>] \<and>
    \<not> needs_transcoding (build_opus_sdp ip port) (build_g711_sdp ip port)" (is "?o \<and> ?g \<and> _")
proof -
  have o: ?o
    using m_line_types [of port "''111 0 8''"] offer_rtpmaps(6) [of "show_nat port @ '' RTP/AVP 111 0 8''"]
    by (simp add: sdp_audio_formats_def opus_section assms offer_types rtpmaps_def offer_rtpmaps
        audio_format_of_def hm_simps)
  have g: ?g
    using m_line_types [of port "''0 8''"] offer_rtpmaps(6) [of "show_nat port @ '' RTP/AVP 0 8''"]
    by (simp add: sdp_audio_formats_def g711_section assms offer_types rtpmaps_def offer_rtpmaps
        audio_format_of_def hm_simps)
  show ?thesis using o g by (simp add: needs_transcoding_def voice_codecs_def is_voice_def)
qed

theorem offers_read_back_witness:
  "map af_pt (sdp_audio_formats (build_opus_sdp ''192.0.2.1'' 40000)) = [111, 0, 8]"
proof -
  have "clean ''192.0.2.1''" by (simp add: clean_def)
  from offers_read_back [OF this, of 40000] show ?thesis by simp
qed

end
