(* ===== verification/Media_Relay.thy ===== *)
theory Media_Relay
  imports Srtp_Context Rtp Media_Stats Media_Endpoint Stun Transcoding
begin

text \<open>
  The relay task of \<^verbatim>\<open>crates/sbc-core/src/media/rtp.rs\<close> (\<^verbatim>\<open>RtpSession::start\<close>): one step per arm of its
  \<^verbatim>\<open>select!\<close>, for a datagram on either RTP socket, a datagram on either RTCP socket, and the
  inactivity timer. What a step does to the outside is its list of effects; metrics calls are among
  them. Whether a send succeeds is an input of the step, as is the clock. The two RTP arms are the
  same code with the legs exchanged, but for the SRTP stages, which have a definition each. Log
  lines are not modelled.
\<close>

section \<open>The session\<close>

record relay_env =
  en_ctr :: "byte list \<Rightarrow> byte list \<Rightarrow> nat \<Rightarrow> byte list"
  en_hmac :: "byte list \<Rightarrow> byte list \<Rightarrow> byte list"
  en_lossy :: "byte list \<Rightarrow> string"
  en_opus_encode :: "int list \<Rightarrow> byte list result"
  en_opus_decode :: "byte list \<Rightarrow> int list result"
  en_downsample :: "int list \<Rightarrow> int list"

record relay =
  rl_session_id :: string
  rl_policy :: endpoint_policy
  rl_timeout_secs :: nat
  rl_timed_out_tx :: bool
  rl_webrtc_a :: bool
  rl_webrtc_b :: bool
  rl_ice_pwd_a :: "string option"
  rl_ice_pwd_b :: "string option"
  rl_dtls_a :: bool
  rl_dtls_b :: bool
  rl_dtmf_a :: "nat option"
  rl_dtmf_b :: "nat option"
  rl_transcoder_ab :: "transcoder option"
  rl_transcoder_ba :: "transcoder option"
  rl_signalled_a :: "socket_addr option"
  rl_signalled_b :: "socket_addr option"
  rl_endpoint_a :: "socket_addr option"
  rl_endpoint_b :: "socket_addr option"
  rl_recv_a :: "srtp_context option"
  rl_send_a :: "srtp_context option"
  rl_ctx_b :: "srtp_context option"
  rl_recv_b :: "srtp_context option"
  rl_send_b :: "srtp_context option"
  rl_ts_ab :: timestamp_map
  rl_ts_ba :: timestamp_map
  rl_packets_ab :: nat
  rl_packets_ba :: nat
  rl_bytes_ab :: nat
  rl_bytes_ba :: nat
  rl_media :: call_media_stats
  rl_pkt_count :: nat
  rl_rtp_counter :: "nat option"
  rl_encrypt_counter :: "nat option"
  rl_decrypt_counter :: "nat option"
  rl_transcode_counter :: "nat option"
  rl_timeout_counter :: "nat option"

datatype relay_effect =
    SendRtp leg socket_addr "byte list"
  | SendStun leg socket_addr "byte list"
  | ToDtls leg "byte list" socket_addr
  | SendRtcp leg socket_addr "byte list"
  | ReportTimeout string
  | CountVerdict leg string string
  | CountRelayed leg nat
  | CountOneWay leg
  | ObserveTranscode

definition relay_new :: "instant \<Rightarrow> string \<Rightarrow> relay" where
  "relay_new now session_id =
     \<lparr>rl_session_id = session_id, rl_policy = endpoint_policy_default, rl_timeout_secs = 90,
      rl_timed_out_tx = False, rl_webrtc_a = False, rl_webrtc_b = False, rl_ice_pwd_a = None,
      rl_ice_pwd_b = None, rl_dtls_a = False, rl_dtls_b = False, rl_dtmf_a = None, rl_dtmf_b = None,
      rl_transcoder_ab = None, rl_transcoder_ba = None, rl_signalled_a = None, rl_signalled_b = None,
      rl_endpoint_a = None, rl_endpoint_b = None, rl_recv_a = None, rl_send_a = None, rl_ctx_b = None,
      rl_recv_b = None, rl_send_b = None, rl_ts_ab = timestamp_map_new, rl_ts_ba = timestamp_map_new,
      rl_packets_ab = 0, rl_packets_ba = 0, rl_bytes_ab = 0, rl_bytes_ba = 0,
      rl_media = media_stats_new now, rl_pkt_count = 0, rl_rtp_counter = None,
      rl_encrypt_counter = None, rl_decrypt_counter = None, rl_transcode_counter = None,
      rl_timeout_counter = None\<rparr>"

definition set_rtp_timeout :: "nat \<Rightarrow> relay \<Rightarrow> relay" where
  "set_rtp_timeout n r = r\<lparr>rl_timeout_secs := max n 1\<rparr>"

definition set_dtmf_pts :: "nat option \<Rightarrow> nat option \<Rightarrow> relay \<Rightarrow> relay" where
  "set_dtmf_pts pt_a pt_b r = r\<lparr>rl_dtmf_a := pt_a, rl_dtmf_b := pt_b\<rparr>"

definition set_transcoder_a_to_b :: "transcoder \<Rightarrow> relay \<Rightarrow> relay" where
  "set_transcoder_a_to_b tc r = r\<lparr>rl_transcoder_ab := Some tc\<rparr>"

definition set_transcoder_b_to_a :: "transcoder \<Rightarrow> relay \<Rightarrow> relay" where
  "set_transcoder_b_to_a tc r = r\<lparr>rl_transcoder_ba := Some tc\<rparr>"

definition set_endpoint_a :: "socket_addr \<Rightarrow> relay \<Rightarrow> relay" where
  "set_endpoint_a addr r = r\<lparr>rl_endpoint_a := Some addr\<rparr>"

definition set_endpoint_b :: "socket_addr \<Rightarrow> relay \<Rightarrow> relay" where
  "set_endpoint_b addr r = r\<lparr>rl_endpoint_b := Some addr\<rparr>"

text \<open>The copy for sending is made before either slot is written, and fails as \<^verbatim>\<open>SrtpContext::new\<close> does.\<close>

definition set_srtp_context_a ::
  "(byte list \<Rightarrow> byte list \<Rightarrow> nat \<Rightarrow> byte list) \<Rightarrow> srtp_context \<Rightarrow> relay \<Rightarrow> relay result"
where
  "set_srtp_context_a ctr ctx r =
     (case clone_for_send ctr ctx of
        Inr ctx2 \<Rightarrow> Inr (r\<lparr>rl_recv_a := Some ctx, rl_send_a := Some ctx2\<rparr>)
      | Inl e \<Rightarrow> Inl e)"

definition set_srtp_context_b :: "srtp_context \<Rightarrow> relay \<Rightarrow> relay" where
  "set_srtp_context_b ctx r = r\<lparr>rl_ctx_b := Some ctx\<rparr>"

definition enable_webrtc_mode_a :: "string option \<Rightarrow> relay \<Rightarrow> relay" where
  "enable_webrtc_mode_a ice_pwd r = r\<lparr>rl_dtls_a := True, rl_webrtc_a := True, rl_ice_pwd_a := ice_pwd\<rparr>"

definition enable_webrtc_mode_b :: "string option \<Rightarrow> relay \<Rightarrow> relay" where
  "enable_webrtc_mode_b ice_pwd r = r\<lparr>rl_dtls_b := True, rl_webrtc_b := True, rl_ice_pwd_b := ice_pwd\<rparr>"

text \<open>The local variables \<^verbatim>\<open>signalled_a\<close> and \<^verbatim>\<open>signalled_b\<close>: the endpoints as they are when the task starts.\<close>

definition relay_start :: "relay \<Rightarrow> relay" where
  "relay_start r = r\<lparr>rl_signalled_a := rl_endpoint_a r, rl_signalled_b := rl_endpoint_b r\<rparr>"

section \<open>The fields of one leg\<close>

fun webrtc :: "leg \<Rightarrow> relay \<Rightarrow> bool" where
  "webrtc Caller r = rl_webrtc_a r"
| "webrtc Callee r = rl_webrtc_b r"

fun ice_pwd :: "leg \<Rightarrow> relay \<Rightarrow> string option" where
  "ice_pwd Caller r = rl_ice_pwd_a r"
| "ice_pwd Callee r = rl_ice_pwd_b r"

fun dtls_task :: "leg \<Rightarrow> relay \<Rightarrow> bool" where
  "dtls_task Caller r = rl_dtls_a r"
| "dtls_task Callee r = rl_dtls_b r"

fun dtmf_pt :: "leg \<Rightarrow> relay \<Rightarrow> nat option" where
  "dtmf_pt Caller r = rl_dtmf_a r"
| "dtmf_pt Callee r = rl_dtmf_b r"

fun transcoder_from :: "leg \<Rightarrow> relay \<Rightarrow> transcoder option" where
  "transcoder_from Caller r = rl_transcoder_ab r"
| "transcoder_from Callee r = rl_transcoder_ba r"

fun signalled :: "leg \<Rightarrow> relay \<Rightarrow> socket_addr option" where
  "signalled Caller r = rl_signalled_a r"
| "signalled Callee r = rl_signalled_b r"

fun endpoint :: "leg \<Rightarrow> relay \<Rightarrow> socket_addr option" where
  "endpoint Caller r = rl_endpoint_a r"
| "endpoint Callee r = rl_endpoint_b r"

fun latch :: "leg \<Rightarrow> socket_addr \<Rightarrow> relay \<Rightarrow> relay" where
  "latch Caller addr r = r\<lparr>rl_endpoint_a := Some addr\<rparr>"
| "latch Callee addr r = r\<lparr>rl_endpoint_b := Some addr\<rparr>"

fun ts_from :: "leg \<Rightarrow> relay \<Rightarrow> timestamp_map" where
  "ts_from Caller r = rl_ts_ab r"
| "ts_from Callee r = rl_ts_ba r"

fun set_ts_from :: "leg \<Rightarrow> timestamp_map \<Rightarrow> relay \<Rightarrow> relay" where
  "set_ts_from Caller m r = r\<lparr>rl_ts_ab := m\<rparr>"
| "set_ts_from Callee m r = r\<lparr>rl_ts_ba := m\<rparr>"

fun count_sent :: "leg \<Rightarrow> nat \<Rightarrow> relay \<Rightarrow> relay" where
  "count_sent Caller n r =
     r\<lparr>rl_packets_ab := incr64 (rl_packets_ab r), rl_bytes_ab := add64 (rl_bytes_ab r) n\<rparr>"
| "count_sent Callee n r =
     r\<lparr>rl_packets_ba := incr64 (rl_packets_ba r), rl_bytes_ba := add64 (rl_bytes_ba r) n\<rparr>"

definition on_media :: "(call_media_stats \<Rightarrow> call_media_stats) \<Rightarrow> relay \<Rightarrow> relay" where
  "on_media f r = r\<lparr>rl_media := f (rl_media r)\<rparr>"

section \<open>A datagram on an RTP socket\<close>

definition learn_if_unknown :: "leg \<Rightarrow> socket_addr \<Rightarrow> relay \<Rightarrow> relay" where
  "learn_if_unknown g source r = (if endpoint g r = None then latch g source r else r)"

definition answer_check ::
  "relay_env \<Rightarrow> leg \<Rightarrow> byte list \<Rightarrow> socket_addr \<Rightarrow> relay \<Rightarrow> relay \<times> relay_effect list"
where
  "answer_check env g data source r =
     (learn_if_unknown g source r,
      case build_binding_response_with_integrity (en_hmac env) (en_lossy env) data source (ice_pwd g r) of
        Inr response \<Rightarrow> [SendStun g source response]
      | Inl _ \<Rightarrow> [])"

text \<open>The demultiplexing of a WebRTC leg; \<open>None\<close> when the datagram goes on as media.\<close>

definition demux ::
  "relay_env \<Rightarrow> leg \<Rightarrow> byte list \<Rightarrow> socket_addr \<Rightarrow> relay \<Rightarrow> (relay \<times> relay_effect list) option"
where
  "demux env g data source r =
     (if \<not> webrtc g r then None
      else case classify_packet data of
        MuxStun \<Rightarrow>
          (case ice_pwd g r of
             Some pwd \<Rightarrow>
               (case validate_binding_request (en_hmac env) data pwd of
                  Inl _ \<Rightarrow> Some (on_media (note_drop DropIceAuth) r, [])
                | Inr _ \<Rightarrow> Some (answer_check env g data source r))
           | None \<Rightarrow> Some (answer_check env g data source r))
      | MuxDtls \<Rightarrow>
          Some (learn_if_unknown g source r, if dtls_task g r then [ToDtls g data source] else [])
      | MuxRtp \<Rightarrow> None
      | MuxRtcp \<Rightarrow> Some (r, [])
      | MuxUnknown \<Rightarrow> Some (r, []))"

definition count_input :: "instant \<Rightarrow> leg \<Rightarrow> byte list \<Rightarrow> media_input \<Rightarrow> call_media_stats \<Rightarrow> call_media_stats" where
  "count_input now g data cls =
     (case cls of
        InRtp \<Rightarrow> note_rx now g data
      | InRtcp \<Rightarrow> note_rtcp g
      | InPassthrough \<Rightarrow> note_passthrough g
      | InJunk \<Rightarrow> note_drop DropNotRtp)"

definition observation_of ::
  "instant \<Rightarrow> leg \<Rightarrow> byte list \<Rightarrow> socket_addr \<Rightarrow> relay \<Rightarrow> observation"
where
  "observation_of now g data source r =
     \<lparr>ob_latched = endpoint g r, ob_signalled = signalled g r, ob_source = source,
      ob_plausible = looks_like_rtp data,
      ob_same_stream = (12 \<le> length data \<and> ls_ssrc (leg_of g (rl_media r)) = field 8 4 data),
      ob_latched_quiet_for = quiet_for now g (rl_media r)\<rparr>"

definition take_source ::
  "leg \<Rightarrow> socket_addr \<Rightarrow> verdict \<Rightarrow> relay \<Rightarrow> relay \<times> relay_effect list"
where
  "take_source g source v r =
     (case v of
        Latch m \<Rightarrow> (on_media (note_endpoint_learned g) (latch g source r),
                    [CountVerdict g ''latched'' (match_label m)])
      | Keep \<Rightarrow> (r, [])
      | Move m \<Rightarrow> (on_media (note_endpoint_moved g) (latch g source r),
                   [CountVerdict g ''moved'' (match_label m)])
      | Refuse reason \<Rightarrow>
          (if applies (rl_policy r) v then on_media (note_endpoint_moved g) (latch g source r) else r,
           [CountVerdict g ''would-reject'' (reject_label reason)]))"

definition count_opt :: "nat option \<Rightarrow> nat option" where "count_opt = map_option incr64"

definition srtp_in_a :: "relay_env \<Rightarrow> byte list \<Rightarrow> relay \<Rightarrow> byte list option \<times> relay" where
  "srtp_in_a env data r =
     (case rl_recv_a r of
        Some ctx \<Rightarrow>
          (case context_decrypt (en_ctr env) (en_hmac env) data ctx of
             (Inr plaintext, ctx') \<Rightarrow>
               (Some plaintext, r\<lparr>rl_recv_a := Some ctx', rl_decrypt_counter := count_opt (rl_decrypt_counter r)\<rparr>)
           | (Inl _, ctx') \<Rightarrow> (None, on_media (note_drop DropSrtp) (r\<lparr>rl_recv_a := Some ctx'\<rparr>)))
      | None \<Rightarrow>
          if rl_webrtc_a r then (None, on_media (note_drop DropSrtp) r) else (Some data, r))"

definition srtp_in_b :: "relay_env \<Rightarrow> byte list \<Rightarrow> relay \<Rightarrow> byte list option \<times> relay" where
  "srtp_in_b env data r =
     (if rl_webrtc_b r then
        case rl_recv_b r of
          Some ctx \<Rightarrow>
            (case context_decrypt (en_ctr env) (en_hmac env) data ctx of
               (Inr plaintext, ctx') \<Rightarrow>
                 (Some plaintext, r\<lparr>rl_recv_b := Some ctx', rl_decrypt_counter := count_opt (rl_decrypt_counter r)\<rparr>)
             | (Inl _, ctx') \<Rightarrow> (None, on_media (note_drop DropSrtp) (r\<lparr>rl_recv_b := Some ctx'\<rparr>)))
        | None \<Rightarrow> (None, r)
      else
        case rl_ctx_b r of
          Some ctx \<Rightarrow>
            (case context_decrypt (en_ctr env) (en_hmac env) data ctx of
               (Inr plaintext, ctx') \<Rightarrow>
                 (Some plaintext, r\<lparr>rl_ctx_b := Some ctx', rl_decrypt_counter := count_opt (rl_decrypt_counter r)\<rparr>)
             | (Inl _, ctx') \<Rightarrow> (None, on_media (note_drop DropSrtp) (r\<lparr>rl_ctx_b := Some ctx'\<rparr>)))
        | None \<Rightarrow> (Some data, r))"

definition srtp_out_b :: "relay_env \<Rightarrow> byte list \<Rightarrow> relay \<Rightarrow> byte list option \<times> relay" where
  "srtp_out_b env data r =
     (if rl_webrtc_b r then
        case rl_send_b r of
          Some ctx \<Rightarrow>
            (case context_encrypt (en_ctr env) (en_hmac env) data ctx of
               (Inr encrypted, ctx') \<Rightarrow>
                 (Some encrypted, r\<lparr>rl_send_b := Some ctx', rl_encrypt_counter := count_opt (rl_encrypt_counter r)\<rparr>)
             | (Inl _, ctx') \<Rightarrow> (None, on_media (note_drop DropSrtp) (r\<lparr>rl_send_b := Some ctx'\<rparr>)))
        | None \<Rightarrow> (None, r)
      else
        case rl_ctx_b r of
          Some ctx \<Rightarrow>
            (case context_encrypt (en_ctr env) (en_hmac env) data ctx of
               (Inr encrypted, ctx') \<Rightarrow>
                 (Some encrypted, r\<lparr>rl_ctx_b := Some ctx', rl_encrypt_counter := count_opt (rl_encrypt_counter r)\<rparr>)
             | (Inl _, ctx') \<Rightarrow> (None, on_media (note_drop DropSrtp) (r\<lparr>rl_ctx_b := Some ctx'\<rparr>)))
        | None \<Rightarrow> (Some data, r))"

definition srtp_out_a :: "relay_env \<Rightarrow> byte list \<Rightarrow> relay \<Rightarrow> byte list option \<times> relay" where
  "srtp_out_a env data r =
     (case rl_send_a r of
        Some ctx \<Rightarrow>
          (case context_encrypt (en_ctr env) (en_hmac env) data ctx of
             (Inr encrypted, ctx') \<Rightarrow>
               (Some encrypted, r\<lparr>rl_send_a := Some ctx', rl_encrypt_counter := count_opt (rl_encrypt_counter r)\<rparr>)
           | (Inl _, ctx') \<Rightarrow> (None, on_media (note_drop DropSrtp) (r\<lparr>rl_send_a := Some ctx'\<rparr>)))
      | None \<Rightarrow>
          if rl_webrtc_a r then (None, on_media (note_drop DropSrtp) r) else (Some data, r))"

fun srtp_in :: "relay_env \<Rightarrow> leg \<Rightarrow> byte list \<Rightarrow> relay \<Rightarrow> byte list option \<times> relay" where
  "srtp_in env Caller = srtp_in_a env"
| "srtp_in env Callee = srtp_in_b env"

text \<open>Protection towards the other leg of \<open>g\<close>.\<close>

fun srtp_out :: "relay_env \<Rightarrow> leg \<Rightarrow> byte list \<Rightarrow> relay \<Rightarrow> byte list option \<times> relay" where
  "srtp_out env Caller = srtp_out_b env"
| "srtp_out env Callee = srtp_out_a env"

definition relay_event_packet :: "leg \<Rightarrow> transcoder \<Rightarrow> bool \<Rightarrow> nat \<Rightarrow> byte list \<Rightarrow> relay \<Rightarrow> byte list \<times> relay" where
  "relay_event_packet g tc is_dtmf actual_pt data r =
     (if is_dtmf then
        let data1 = (case dtmf_pt (leg_other g) r of
                       Some dst_pt \<Rightarrow>
                         if dst_pt \<noteq> actual_pt then data[1 := (data ! 1 AND 0x80) OR word_of_nat dst_pt] else data
                     | None \<Rightarrow> data);
            (_, data2, m) = rescale_event data1 (clock_rate (tc_src tc)) (clock_rate (tc_dst tc)) (ts_from g r)
        in (data2, set_ts_from g m r)
      else (data, r))"

definition rebuild_packet :: "leg \<Rightarrow> transcoder \<Rightarrow> byte list \<Rightarrow> byte list \<Rightarrow> relay \<Rightarrow> byte list \<times> relay" where
  "rebuild_packet g tc data transcoded r =
     (let new_pkt = (take 12 data)[0 := 0x80, 1 := (data ! 1 AND 0x80) OR word_of_nat (tc_dst_pt tc)] @ transcoded;
          src_rate = clock_rate (tc_src tc); dst_rate = clock_rate (tc_dst tc)
      in if src_rate \<noteq> dst_rate \<and> 0 < dst_rate then
           let (new_ts, m) = ts_map (field 4 4 new_pkt) src_rate dst_rate (ts_from g r)
           in (put_bytes 4 (be_bytes 4 new_ts) new_pkt, set_ts_from g m r)
         else (new_pkt, r))"

definition transcode_step ::
  "relay_env \<Rightarrow> leg \<Rightarrow> byte list \<Rightarrow> relay \<Rightarrow> byte list option \<times> relay \<times> relay_effect list"
where
  "transcode_step env g data r =
     (case transcoder_from g r of
        None \<Rightarrow> (Some data, r, [])
      | Some tc \<Rightarrow>
          if is_passthrough tc \<or> length data < 12 then (Some data, r, [])
          else
            let actual_pt = unat (data ! 1 AND 0x7F);
                is_dtmf = (case dtmf_pt g r of Some p \<Rightarrow> p = actual_pt | None \<Rightarrow> 96 \<le> actual_pt);
                is_dtmf_or_cn = (is_dtmf \<or> actual_pt = 13)
            in if actual_pt \<noteq> tc_src_pt tc \<and> \<not> is_dtmf_or_cn
               then (None, on_media (note_drop DropPayloadType) r, [])
               else if is_dtmf_or_cn
               then let (data', r') = relay_event_packet g tc is_dtmf actual_pt data r in (Some data', r', [])
               else
                 let header_len = rtp_header_length data
                 in if 0 < header_len \<and> header_len < length data then
                      if (tc_src tc = Pcma \<or> tc_src tc = Pcmu) \<and> length data - header_len \<noteq> 160
                      then (None, on_media (note_drop DropTranscode) r, [])
                      else
                        case transcode (en_opus_encode env) (en_opus_decode env) (en_downsample env) tc
                               (drop header_len data) of
                          Inr transcoded \<Rightarrow>
                            let (new_pkt, r1) = rebuild_packet g tc data transcoded r
                            in (Some new_pkt, r1\<lparr>rl_transcode_counter := count_opt (rl_transcode_counter r1)\<rparr>,
                                [ObserveTranscode])
                        | Inl _ \<Rightarrow> (None, on_media (note_drop DropTranscode) r, [ObserveTranscode])
                    else (Some data, r, []))"

text \<open>Sending to the peer of the other leg.\<close>

definition deliver ::
  "instant \<Rightarrow> bool \<Rightarrow> leg \<Rightarrow> media_input \<Rightarrow> byte list \<Rightarrow> relay \<Rightarrow> relay \<times> relay_effect list"
where
  "deliver now send_ok g cls data r =
     (case endpoint (leg_other g) r of
        Some dst \<Rightarrow>
          if \<not> send_ok then (on_media (note_drop DropSendFailed) r, [])
          else
            let r1 = count_sent g (length data) r;
                r2 = (if cls = InRtp then on_media (note_tx now (leg_other g) (length data)) r1
                      else on_media (note_tx_non_audio (leg_other g) (length data)) r1)
            in (r2\<lparr>rl_rtp_counter := count_opt (rl_rtp_counter r2)\<rparr>,
                [SendRtp (leg_other g) dst data, CountRelayed (leg_other g) (length data)])
      | None \<Rightarrow> (on_media (note_drop DropNoEndpoint) r, []))"

text \<open>From the endpoint decision on, for a datagram already classified.\<close>

definition relay_media ::
  "relay_env \<Rightarrow> instant \<Rightarrow> bool \<Rightarrow> leg \<Rightarrow> media_input \<Rightarrow> byte list \<Rightarrow> relay \<Rightarrow> relay \<times> relay_effect list"
where
  "relay_media env now send_ok g cls data r =
     (case srtp_in env g data r of
        (None, r1) \<Rightarrow> (r1, [])
      | (Some plain, r1) \<Rightarrow>
          (case transcode_step env g plain r1 of
             (None, r2, fx) \<Rightarrow> (r2, fx)
           | (Some pkt, r2, fx) \<Rightarrow>
               (case srtp_out env g pkt r2 of
                  (None, r3) \<Rightarrow> (r3, fx)
                | (Some out, r3) \<Rightarrow>
                    let (r4, fx') = deliver now send_ok g cls out r3 in (r4, fx @ fx'))))"

definition relay_packet ::
  "relay_env \<Rightarrow> instant \<Rightarrow> bool \<Rightarrow> leg \<Rightarrow> byte list \<Rightarrow> socket_addr \<Rightarrow> relay \<Rightarrow> relay \<times> relay_effect list"
where
  "relay_packet env now send_ok g data source r =
     (case demux env g data source r of
        Some res \<Rightarrow> res
      | None \<Rightarrow>
          let r1 = r\<lparr>rl_pkt_count := incr64 (rl_pkt_count r)\<rparr>;
              ob = observation_of now g data source r1;
              cls = classify_media_input data (webrtc g r);
              r2 = on_media (count_input now g data cls) r1
          in if cls = InJunk then (r2, [])
             else
               let (r3, fx) = take_source g source (observe (rl_policy r2) ob) r2;
                   (r4, fx') = relay_media env now send_ok g cls data r3
               in (r4, fx @ fx'))"

section \<open>RTCP and the timer\<close>

definition relay_rtcp :: "leg \<Rightarrow> byte list \<Rightarrow> socket_addr \<Rightarrow> relay \<Rightarrow> relay \<times> relay_effect list" where
  "relay_rtcp g data source r =
     (let known = (case endpoint g r of None \<Rightarrow> True | Some ep \<Rightarrow> fst ep = fst source)
      in if \<not> known \<or> \<not> looks_like_rtcp data then (on_media (note_drop DropRtcp) r, [])
         else case endpoint (leg_other g) r of
                Some dst \<Rightarrow>
                  if snd dst < u16_max then (r, [SendRtcp (leg_other g) (fst dst, snd dst + 1) data]) else (r, [])
              | None \<Rightarrow> (r, []))"

text \<open>The timer arm; the first component says whether the task breaks out of its loop.\<close>

definition relay_tick :: "instant \<Rightarrow> relay \<Rightarrow> bool \<times> relay \<times> relay_effect list" where
  "relay_tick now r =
     (let (r1, fx) =
            (case one_way_leg now ONE_WAY_QUIET_MS (rl_media r) of
               Some silent \<Rightarrow>
                 let (first, m) = claim_one_way_report silent (rl_media r)
                 in (r\<lparr>rl_media := m\<rparr>, if first then [CountOneWay silent] else [])
             | None \<Rightarrow> (r, []));
          idle_secs = idle_ms now (rl_media r1) div 1000
      in if rl_timeout_secs r1 < idle_secs
         then (True, r1\<lparr>rl_timeout_counter := count_opt (rl_timeout_counter r1)\<rparr>,
               fx @ (if rl_timed_out_tx r1 then [ReportTimeout (rl_session_id r1)] else []))
         else (False, r1, fx))"

section \<open>What each stage leaves alone\<close>

fun send_ctx :: "leg \<Rightarrow> relay \<Rightarrow> srtp_context option" where
  "send_ctx Caller r = rl_send_a r"
| "send_ctx Callee r = rl_send_b r"

named_theorems relay_frame \<open>fields of the session that a stage of the relay leaves alone\<close>

lemma on_media_frame [relay_frame]:
  "webrtc g (on_media f r) = webrtc g r" "ice_pwd g (on_media f r) = ice_pwd g r"
  "endpoint g (on_media f r) = endpoint g r" "signalled g (on_media f r) = signalled g r"
  "send_ctx g (on_media f r) = send_ctx g r" "transcoder_from g (on_media f r) = transcoder_from g r"
  "rl_policy (on_media f r) = rl_policy r" "rl_timeout_secs (on_media f r) = rl_timeout_secs r"
  "rl_packets_ab (on_media f r) = rl_packets_ab r" "rl_packets_ba (on_media f r) = rl_packets_ba r"
  "rl_webrtc_a (on_media f r) = rl_webrtc_a r" "rl_webrtc_b (on_media f r) = rl_webrtc_b r"
  "rl_recv_b (on_media f r) = rl_recv_b r" "rl_send_b (on_media f r) = rl_send_b r"
  "rl_media (on_media f r) = f (rl_media r)"
  by (cases g; simp add: on_media_def)+

lemma latch_frame [relay_frame]:
  "webrtc g (latch h a r) = webrtc g r" "ice_pwd g (latch h a r) = ice_pwd g r"
  "signalled g (latch h a r) = signalled g r"
  "send_ctx g (latch h a r) = send_ctx g r" "rl_policy (latch h a r) = rl_policy r"
  "rl_timeout_secs (latch h a r) = rl_timeout_secs r"
  "rl_packets_ab (latch h a r) = rl_packets_ab r" "rl_packets_ba (latch h a r) = rl_packets_ba r"
  "rl_webrtc_a (latch h a r) = rl_webrtc_a r" "rl_webrtc_b (latch h a r) = rl_webrtc_b r"
  "rl_recv_b (latch h a r) = rl_recv_b r" "rl_send_b (latch h a r) = rl_send_b r"
  "rl_media (latch h a r) = rl_media r"
  "endpoint g (latch h a r) = (if g = h then Some a else endpoint g r)"
  by (cases g; cases h; simp)+

lemma set_ts_frame [relay_frame]:
  "webrtc g (set_ts_from h m r) = webrtc g r" "endpoint g (set_ts_from h m r) = endpoint g r"
  "send_ctx g (set_ts_from h m r) = send_ctx g r" "rl_timeout_secs (set_ts_from h m r) = rl_timeout_secs r"
  "rl_packets_ab (set_ts_from h m r) = rl_packets_ab r" "rl_packets_ba (set_ts_from h m r) = rl_packets_ba r"
  "rl_webrtc_b (set_ts_from h m r) = rl_webrtc_b r" "rl_send_b (set_ts_from h m r) = rl_send_b r"
  "rl_media (set_ts_from h m r) = rl_media r"
  by (cases g; cases h; simp)+

lemma counter_frame [relay_frame]:
  "webrtc g (r\<lparr>rl_transcode_counter := c\<rparr>) = webrtc g r" "endpoint g (r\<lparr>rl_transcode_counter := c\<rparr>) = endpoint g r"
  "send_ctx g (r\<lparr>rl_transcode_counter := c\<rparr>) = send_ctx g r"
  "webrtc g (r\<lparr>rl_pkt_count := n\<rparr>) = webrtc g r" "endpoint g (r\<lparr>rl_pkt_count := n\<rparr>) = endpoint g r"
  "signalled g (r\<lparr>rl_pkt_count := n\<rparr>) = signalled g r" "send_ctx g (r\<lparr>rl_pkt_count := n\<rparr>) = send_ctx g r"
  "endpoint g (r\<lparr>rl_rtp_counter := c\<rparr>) = endpoint g r"
  by (cases g; simp)+

lemma count_sent_frame [relay_frame]:
  "endpoint g (count_sent h n r) = endpoint g r" "rl_media (count_sent h n r) = rl_media r"
  "rl_timeout_secs (count_sent h n r) = rl_timeout_secs r"
  by (cases g; cases h; simp)+

text \<open>What the accounting of a datagram looks at: the drop counters and the two send counters.\<close>

definition tally :: "relay \<Rightarrow> nat list \<times> nat \<times> nat" where
  "tally r = (cm_drops (rl_media r), rl_packets_ab r, rl_packets_ba r)"

text \<open>What the inactivity timer looks at.\<close>

definition watch :: "call_media_stats \<Rightarrow> instant \<times> nat \<times> nat" where
  "watch m = (cm_started m, cm_audio_delivered m, cm_last_relay_ms m)"

definition same_session :: "relay \<Rightarrow> relay \<Rightarrow> bool" where
  "same_session r r' \<longleftrightarrow> rl_timeout_secs r' = rl_timeout_secs r \<and> rl_webrtc_a r' = rl_webrtc_a r \<and>
     rl_webrtc_b r' = rl_webrtc_b r"

lemma watch_on_leg [simp]: "watch (on_leg g f m) = watch m"
  by (simp add: watch_def)

lemma watch_note_drop [simp]: "watch (note_drop q m) = watch m"
  by (simp add: watch_def)

lemma srtp_in_frame:
  assumes "srtp_in env g data r = (res, r')"
  shows "webrtc h r' = webrtc h r" "endpoint h r' = endpoint h r" "send_ctx h r' = send_ctx h r"
    "rl_timeout_secs r' = rl_timeout_secs r" "watch (rl_media r') = watch (rl_media r)"
    "res \<noteq> None \<Longrightarrow> tally r' = tally r"
  using assms
  by (cases g; cases h; auto simp: srtp_in_a_def srtp_in_b_def tally_def relay_frame on_media_def
      split: option.splits sum.splits prod.splits if_splits)+

lemma srtp_out_frame:
  assumes "srtp_out env g data r = (res, r')"
  shows "webrtc h r' = webrtc h r" "endpoint h r' = endpoint h r"
    "rl_timeout_secs r' = rl_timeout_secs r" "watch (rl_media r') = watch (rl_media r)"
    "res \<noteq> None \<Longrightarrow> tally r' = tally r"
  using assms
  by (cases g; cases h; auto simp: srtp_out_a_def srtp_out_b_def tally_def relay_frame on_media_def
      split: option.splits sum.splits prod.splits if_splits)+

lemma event_packet_session:
  "relay_event_packet g tc d pt data r = (y, r') \<Longrightarrow> r' = r \<or> (\<exists>m. r' = set_ts_from g m r)"
  by (auto simp: relay_event_packet_def Let_def split: prod.splits if_splits)

lemma rebuild_session:
  "rebuild_packet g tc data x r = (y, r') \<Longrightarrow> r' = r \<or> (\<exists>m. r' = set_ts_from g m r)"
  by (auto simp: rebuild_packet_def Let_def split: prod.splits if_splits)

text \<open>A transcoding step hands the packet on, with nothing but the timestamp map and the transcode
  counter changed, or counts one drop.\<close>

lemma transcode_step_cases:
  assumes "transcode_step env g data r = (res, r', fx)"
  shows "(\<exists>p m c. res = Some p \<and> r' \<in> {r, set_ts_from g m r, r\<lparr>rl_transcode_counter := c\<rparr>,
      (set_ts_from g m r)\<lparr>rl_transcode_counter := c\<rparr>}) \<or>
    (\<exists>q. res = None \<and> r' = on_media (note_drop q) r)" and "set fx \<subseteq> {ObserveTranscode}"
proof -
  show "set fx \<subseteq> {ObserveTranscode}"
    using assms by (auto simp: transcode_step_def Let_def split: option.splits if_splits sum.splits prod.splits)
  show "(\<exists>p m c. res = Some p \<and> r' \<in> {r, set_ts_from g m r, r\<lparr>rl_transcode_counter := c\<rparr>,
      (set_ts_from g m r)\<lparr>rl_transcode_counter := c\<rparr>}) \<or>
    (\<exists>q. res = None \<and> r' = on_media (note_drop q) r)"
  proof (cases "transcoder_from g r")
    case None
    then show ?thesis using assms by (auto simp: transcode_step_def)
  next
    case (Some tc)
    then show ?thesis
      using assms
      by (auto simp: transcode_step_def Let_def split: if_splits prod.splits sum.splits
          dest!: event_packet_session rebuild_session)
  qed
qed

lemma transcode_step_frame:
  assumes "transcode_step env g data r = (res, r', fx)"
  shows "webrtc h r' = webrtc h r" "endpoint h r' = endpoint h r" "send_ctx h r' = send_ctx h r"
    "rl_timeout_secs r' = rl_timeout_secs r" "watch (rl_media r') = watch (rl_media r)"
    "res \<noteq> None \<Longrightarrow> tally r' = tally r" "res = None \<Longrightarrow> \<exists>q. tally r' = tally (on_media (note_drop q) r)"
  using transcode_step_cases(1) [OF assms] by (auto simp: relay_frame tally_def)

lemma leg_other_neq [simp]: "leg_other g \<noteq> g" "g \<noteq> leg_other g"
  by (cases g; simp)+

lemma take_source_frame:
  assumes "take_source g source v r = (r', fx)"
  shows "webrtc h r' = webrtc h r" "send_ctx h r' = send_ctx h r"
    "rl_timeout_secs r' = rl_timeout_secs r" "watch (rl_media r') = watch (rl_media r)" "tally r' = tally r"
    "SendRtp k dst out \<notin> set fx" "h \<noteq> g \<Longrightarrow> endpoint h r' = endpoint h r"
  using assms
  by (auto simp: take_source_def relay_frame tally_def note_endpoint_learned_def note_endpoint_moved_def
      split: verdict.splits if_splits)

lemma deliver_frame:
  assumes "deliver now ok g cls data r = (r', fx)"
  shows "rl_timeout_secs r' = rl_timeout_secs r" "endpoint h r' = endpoint h r"
    "SendRtp k dst out \<in> set fx \<Longrightarrow> k = leg_other g \<and> out = data \<and> endpoint k r = Some dst"
    "cls \<noteq> InRtp \<or> fx = [] \<Longrightarrow> watch (rl_media r') = watch (rl_media r)"
    "cls = InRtp \<Longrightarrow> fx \<noteq> [] \<Longrightarrow>
      watch (rl_media r') = (cm_started (rl_media r), incr64 (cm_audio_delivered (rl_media r)), now_ms now (rl_media r))"
  using assms
  by (auto simp: deliver_def relay_frame Let_def note_tx_non_audio_def note_tx_def watch_def
      split: option.splits if_splits)

section \<open>Media towards a WebRTC leg is protected\<close>

lemma srtp_out_webrtc:
  assumes "srtp_out env g pkt r = (Some out, r')" "webrtc (leg_other g) r"
  shows "\<exists>ctx ctx'. send_ctx (leg_other g) r = Some ctx \<and>
    context_encrypt (en_ctr env) (en_hmac env) pkt ctx = (Inr out, ctx')"
  using assms
  by (cases g) (auto simp: srtp_out_a_def srtp_out_b_def split: option.splits sum.splits prod.splits)

lemma relay_media_sends:
  assumes "relay_media env now ok g cls data r = (r', fx)" "SendRtp h dst out \<in> set fx"
  shows "h = leg_other g \<and> endpoint h r = Some dst \<and>
    (webrtc h r \<longrightarrow> (\<exists>ctx pkt ctx'. send_ctx h r = Some ctx \<and>
       context_encrypt (en_ctr env) (en_hmac env) pkt ctx = (Inr out, ctx')))"
proof -
  obtain plain r1 where i: "srtp_in env g data r = (Some plain, r1)"
    using assms by (cases "srtp_in env g data r"; cases "fst (srtp_in env g data r)")
      (auto simp: relay_media_def)
  obtain pkt r2 fx2 where t: "transcode_step env g plain r1 = (Some pkt, r2, fx2)"
  proof (cases "transcode_step env g plain r1")
    case (fields a b c)
    with assms i transcode_step_cases(2) [OF fields] that show ?thesis
      by (cases a) (auto simp: relay_media_def)
  qed
  obtain o3 r3 where o: "srtp_out env g pkt r2 = (Some o3, r3)"
  proof (cases "srtp_out env g pkt r2")
    case (Pair a b)
    with assms i t transcode_step_cases(2) [OF t] that show ?thesis
      by (cases a) (auto simp: relay_media_def)
  qed
  obtain r4 fx4 where d: "deliver now ok g cls o3 r3 = (r4, fx4)" by fastforce
  have "SendRtp h dst out \<in> set fx4"
    using assms transcode_step_cases(2) [OF t] by (auto simp: relay_media_def i t o d)
  note s = deliver_frame(3) [OF d this]
  have fr: "endpoint h r3 = endpoint h r" "webrtc h r2 = webrtc h r" "send_ctx h r2 = send_ctx h r"
    using srtp_in_frame [OF i] transcode_step_frame [OF t] srtp_out_frame [OF o] by simp_all
  show ?thesis using s srtp_out_webrtc [OF o] fr by auto
qed

lemma observation_of_count [simp]:
  "observation_of now g data source (r\<lparr>rl_pkt_count := n\<rparr>) = observation_of now g data source r"
  by (cases g) (simp_all add: observation_of_def)

text \<open>The three ways of a datagram: taken by the demultiplexer, not media, or relayed.\<close>

lemma relay_packet_cases [consumes 1, case_names consumed junk media]:
  assumes "relay_packet env now ok g data source r = (r', fx)"
  obtains "demux env g data source r = Some (r', fx)"
  | "demux env g data source r = None" "classify_media_input data (webrtc g r) = InJunk"
    "r' = on_media (note_drop DropNotRtp) (r\<lparr>rl_pkt_count := incr64 (rl_pkt_count r)\<rparr>)" "fx = []"
  | cls r2 r3 fx3 fx4 where "demux env g data source r = None" "cls = classify_media_input data (webrtc g r)"
    "cls \<noteq> InJunk" "r2 = on_media (count_input now g data cls) (r\<lparr>rl_pkt_count := incr64 (rl_pkt_count r)\<rparr>)"
    "take_source g source (observe (rl_policy r) (observation_of now g data source r)) r2 = (r3, fx3)"
    "relay_media env now ok g cls data r3 = (r', fx4)" "fx = fx3 @ fx4"
proof (cases "demux env g data source r")
  case (Some p)
  then show ?thesis using assms that(1) by (simp add: relay_packet_def)
next
  case None
  define cls where "cls = classify_media_input data (webrtc g r)"
  define r2 where "r2 = on_media (count_input now g data cls) (r\<lparr>rl_pkt_count := incr64 (rl_pkt_count r)\<rparr>)"
  have pol: "rl_policy r2 = rl_policy r" by (simp add: r2_def relay_frame)
  define v where "v = observe (rl_policy r) (observation_of now g data source r)"
  obtain r3 fx3 where t: "take_source g source v r2 = (r3, fx3)" by fastforce
  obtain r4 fx4 where m: "relay_media env now ok g cls data r3 = (r4, fx4)" by fastforce
  have eq: "(if cls = InJunk then (r2, []) else (r4, fx3 @ fx4)) = (r', fx)"
    using assms unfolding relay_packet_def None Let_def option.case observation_of_count
      cls_def [symmetric] r2_def [symmetric] pol v_def [symmetric] t
    by (cases "cls = InJunk") (simp_all add: m)
  show ?thesis
  proof (cases "cls = InJunk")
    case True
    then show ?thesis using eq that(2) None by (simp add: cls_def r2_def count_input_def)
  next
    case False
    then have "r4 = r'" "fx = fx3 @ fx4" using eq by simp_all
    then show ?thesis using that(3) [OF None cls_def False r2_def t [unfolded v_def]] m by simp
  qed
qed


text \<open>A session with a caller in clear and a callee in WebRTC mode, for examples.\<close>

definition plain_env :: relay_env where
  "plain_env = \<lparr>en_ctr = zero_ctr, en_hmac = zero_hmac, en_lossy = (\<lambda>_. []), en_opus_encode = (\<lambda>_. Inr []),
     en_opus_decode = (\<lambda>_. Inr []), en_downsample = (\<lambda>p. p)\<rparr>"

definition zero_context :: srtp_context where
  "zero_context = \<lparr>sx_master_key = [], sx_master_salt = [], sx_crypto_suite = AesCm128HmacSha1_32,
     sx_crypto = Some zero_ctx\<rparr>"

definition example_session :: relay where
  "example_session = set_endpoint_b (V4 192 0 2 9, 4000)
     (enable_webrtc_mode_b (Some ''pw'') (relay_new 0 ''s''))\<lparr>rl_send_b := Some zero_context\<rparr>"

definition example_packet :: "byte list" where
  "example_packet = [0x80, 0, 0, 1, 0, 0, 0, 0, 0, 0, 0, 7, 1, 2, 3, 4]"

lemma example_packet_rtp: "looks_like_rtp example_packet" "classify_media_input example_packet w = InRtp"
  "get_rtp_header_length example_packet = Inr 12"
  by (simp_all add: looks_like_rtp_def classify_media_input_def example_packet_def rtcp_type_def
      get_rtp_header_length_def drop_bit_eq_div)

lemma example_sent:
  "\<exists>out r'. relay_packet plain_env 0 True Caller example_packet (V4 192 0 2 1, 5000) example_session =
     (r', [CountVerdict Caller ''latched'' ''first'', SendRtp Callee (V4 192 0 2 9, 4000) out,
           CountRelayed Callee (length out)])"
proof -
  have "sc_send zero_ctx = []" by (simp add: zero_ctx_def)
  from fresh_encrypt_ok [OF example_packet_rtp(3) this, of zero_ctr zero_hmac]
  obtain out c' where e: "encrypt_rtp zero_ctr zero_hmac example_packet zero_ctx = (Inr out, c')"
    by (metis is_ok.elims(2) prod.collapse)
  have "demux plain_env Caller example_packet src example_session = None" for src
    by (simp add: demux_def example_session_def set_endpoint_b_def enable_webrtc_mode_b_def relay_new_def)
  then show ?thesis
    by (simp add: relay_packet_def example_packet_rtp count_input_def observation_of_def observe_def Let_def
        take_source_def relay_media_def srtp_in_a_def transcode_step_def srtp_out_b_def deliver_def
        example_session_def set_endpoint_b_def enable_webrtc_mode_b_def relay_new_def on_media_def
        endpoint_policy_default_def plain_env_def context_encrypt_def zero_context_def e)
qed


section \<open>Packets in, packets out, and the difference explained\<close>

definition accounted :: "relay \<Rightarrow> nat" where
  "accounted r = sum_list (cm_drops (rl_media r)) + rl_packets_ab r + rl_packets_ba r"

text \<open>No counter is about to wrap.\<close>

definition room :: "relay \<Rightarrow> bool" where
  "room r \<longleftrightarrow> length (cm_drops (rl_media r)) = 8 \<and> list_all (\<lambda>n. n + 1 < 2 ^ 64) (cm_drops (rl_media r)) \<and>
     rl_packets_ab r + 1 < 2 ^ 64 \<and> rl_packets_ba r + 1 < 2 ^ 64"

lemma accounted_tally: "accounted r = (case tally r of (ds, a, b) \<Rightarrow> sum_list ds + a + b)"
  by (simp add: accounted_def tally_def)

lemma room_tally: "tally r' = tally r \<Longrightarrow> room r' = room r"
  by (simp add: room_def tally_def)

lemma sum_list_bump:
  "i < length xs \<Longrightarrow> xs ! i + 1 < 2 ^ 64 \<Longrightarrow> sum_list (xs[i := incr64 (xs ! i)]) = Suc (sum_list xs)"
proof -
  assume i: "i < length xs" "xs ! i + 1 < 2 ^ 64"
  then have "incr64 (xs ! i) = xs ! i + 1" by (simp add: incr64_def)
  moreover have "xs ! i \<le> sum_list xs" using i(1) by (simp add: elem_le_sum_list)
  ultimately show ?thesis using i(1) by (simp add: sum_list_update)
qed

lemma drop_accounted:
  assumes "room r" "tally r' = tally (on_media (note_drop q) r)"
  shows "accounted r' = Suc (accounted r)"
proof -
  have "drop_index q < length (cm_drops (rl_media r))" using assms(1) by (simp add: room_def)
  moreover from this have "cm_drops (rl_media r) ! drop_index q + 1 < 2 ^ 64"
    using assms(1) unfolding room_def by (metis list_all_length)
  ultimately have "accounted (on_media (note_drop q) r) = Suc (accounted r)"
    using sum_list_bump by (simp add: accounted_def relay_frame note_drop_def)
  then show ?thesis using assms(2) by (simp add: accounted_tally)
qed

lemma srtp_in_drop:
  assumes "srtp_in env g data r = (None, r')" "rl_webrtc_b r \<longrightarrow> rl_recv_b r \<noteq> None"
  shows "\<exists>q. tally r' = tally (on_media (note_drop q) r)"
  using assms
  by (cases g) (auto simp: srtp_in_a_def srtp_in_b_def tally_def relay_frame on_media_def
      split: option.splits sum.splits prod.splits if_splits)

lemma srtp_out_drop:
  assumes "srtp_out env g data r = (None, r')" "rl_webrtc_b r \<longrightarrow> rl_send_b r \<noteq> None"
  shows "\<exists>q. tally r' = tally (on_media (note_drop q) r)"
  using assms
  by (cases g) (auto simp: srtp_out_a_def srtp_out_b_def tally_def relay_frame on_media_def
      split: option.splits sum.splits prod.splits if_splits)

lemma deliver_accounted:
  assumes "deliver now ok g cls data r = (r', fx)" "room r"
  shows "accounted r' = Suc (accounted r)"
proof (cases "endpoint (leg_other g) r = None \<or> \<not> ok")
  case True
  then have "\<exists>q. r' = on_media (note_drop q) r" using assms(1) by (auto simp: deliver_def split: option.splits if_splits)
  then show ?thesis using drop_accounted [OF assms(2)] by auto
next
  case False
  have "cm_drops (rl_media r') = cm_drops (rl_media r)" using assms(1) False
    by (auto simp: deliver_def relay_frame Let_def note_tx_def note_tx_non_audio_def split: option.splits if_splits)
  moreover have "rl_packets_ab r' + rl_packets_ba r' = Suc (rl_packets_ab r + rl_packets_ba r)"
    using assms False
    by (cases g) (auto simp: deliver_def on_media_def Let_def room_def incr64_def split: if_splits)
  ultimately show ?thesis by (simp add: accounted_def)
qed

lemma count_input_tally:
  assumes "cls = classify_media_input data w" "cls \<noteq> InJunk"
  shows "tally (on_media (count_input now g data cls) (r\<lparr>rl_pkt_count := n\<rparr>)) = tally r"
proof -
  have "12 \<le> length data" if "cls = InRtp"
    using that assms(1) by (auto simp: classify_media_input_def looks_like_rtp_def split: list.splits if_splits)
  then show ?thesis using assms(2)
    by (cases cls) (auto simp: count_input_def tally_def relay_frame note_rx_def note_rtcp_def note_passthrough_def)
qed

lemma relay_media_accounted:
  assumes "relay_media env now ok g cls data r = (r', fx)" "room r"
    "rl_webrtc_b r \<longrightarrow> rl_recv_b r \<noteq> None \<and> rl_send_b r \<noteq> None"
  shows "accounted r' = Suc (accounted r)"
proof -
  obtain res1 r1 where i: "srtp_in env g data r = (res1, r1)" by fastforce
  show ?thesis
  proof (cases res1)
    case None
    then have "r' = r1" using assms(1) i by (simp add: relay_media_def)
    then show ?thesis using srtp_in_drop i None assms(2,3) drop_accounted by blast
  next
    case plain: (Some plain)
    have t1: "tally r1 = tally r" using srtp_in_frame(6) [OF i] plain by simp
    have b1: "rl_webrtc_b r1 = rl_webrtc_b r" "rl_send_b r1 = rl_send_b r"
      using srtp_in_frame(1,3) [OF i, of Callee] by simp_all
    obtain res2 r2 fx2 where t: "transcode_step env g plain r1 = (res2, r2, fx2)" by (metis prod_cases3)
    show ?thesis
    proof (cases res2)
      case None
      then have "r' = r2" using assms(1) i t plain by (simp add: relay_media_def)
      moreover obtain q where "tally r2 = tally (on_media (note_drop q) r1)"
        using transcode_step_frame(7) [OF t None] by blast
      ultimately have "accounted r' = Suc (accounted r1)"
        using drop_accounted room_tally [OF t1] assms(2) by simp
      then show ?thesis using t1 by (simp add: accounted_tally)
    next
      case pkt: (Some pkt)
      have t2: "tally r2 = tally r" using transcode_step_frame(6) [OF t] pkt t1 by simp
      have room2: "room r2" using room_tally [OF t2] assms(2) by simp
      have b2: "rl_webrtc_b r2 \<longrightarrow> rl_send_b r2 \<noteq> None"
        using transcode_step_frame(1,3) [OF t, of Callee] b1 assms(3) by simp
      obtain res3 r3 where o: "srtp_out env g pkt r2 = (res3, r3)" by fastforce
      show ?thesis
      proof (cases res3)
        case None
        then have "r' = r3" using assms(1) i t o plain pkt by (simp add: relay_media_def)
        moreover obtain q where "tally r3 = tally (on_media (note_drop q) r2)"
          using srtp_out_drop o None b2 by blast
        ultimately have "accounted r' = Suc (accounted r2)" using drop_accounted [OF room2] by simp
        then show ?thesis using t2 by (simp add: accounted_tally)
      next
        case out: (Some out)
        have t3: "tally r3 = tally r2" using srtp_out_frame(5) [OF o] out by simp
        obtain fx4 where "deliver now ok g cls out r3 = (r', fx4)"
          using assms(1) i t o plain pkt out by (auto simp: relay_media_def split: prod.splits)
        from deliver_accounted [OF this] have "accounted r' = Suc (accounted r3)"
          using room_tally [OF t3] room2 by simp
        then show ?thesis using t2 t3 by (simp add: accounted_tally)
      qed
    qed
  qed
qed



text \<open>Without those contexts a datagram from a WebRTC callee vanishes uncounted.\<close>

lemma silent_drop_before_dtls:
  assumes "rl_webrtc_b r" "rl_recv_b r = None"
  shows "relay_media env now ok Callee cls data r = (r, [])"
  using assms by (simp add: relay_media_def srtp_in_b_def)

section \<open>The inactivity timer\<close>

fun is_send :: "relay_effect \<Rightarrow> bool" where
  "is_send (SendRtp _ _ _) = True"
| "is_send _ = False"

lemma transcode_no_send: "set fx \<subseteq> {ObserveTranscode} \<Longrightarrow> \<not> list_ex is_send fx"
  by (auto simp: list_ex_iff)

lemma take_source_no_send: "take_source g source v r = (r', fx) \<Longrightarrow> \<not> list_ex is_send fx"
  by (auto simp: take_source_def split: verdict.splits)

lemma relay_media_watch:
  assumes "relay_media env now ok g cls data r = (r', fx)"
  shows "rl_timeout_secs r' = rl_timeout_secs r"
    "watch (rl_media r') =
       (if cls = InRtp \<and> list_ex is_send fx
        then (cm_started (rl_media r), incr64 (cm_audio_delivered (rl_media r)), now_ms now (rl_media r))
        else watch (rl_media r))"
proof -
  obtain res1 r1 where i: "srtp_in env g data r = (res1, r1)" by fastforce
  note f1 = srtp_in_frame(4,5) [OF i]
  have "rl_timeout_secs r' = rl_timeout_secs r \<and> watch (rl_media r') =
       (if cls = InRtp \<and> list_ex is_send fx
        then (cm_started (rl_media r), incr64 (cm_audio_delivered (rl_media r)), now_ms now (rl_media r))
        else watch (rl_media r))"
  proof (cases res1)
    case None
    then show ?thesis using assms i f1 by (simp add: relay_media_def)
  next
    case plain: (Some plain)
    obtain res2 r2 fx2 where t: "transcode_step env g plain r1 = (res2, r2, fx2)" by (metis prod_cases3)
    note f2 = transcode_step_frame(4,5) [OF t] and quiet = transcode_step_cases(2) [OF t]
    show ?thesis
    proof (cases res2)
      case None
      then show ?thesis using assms i t plain f1 f2 transcode_no_send [OF quiet] by (auto simp: relay_media_def)
    next
      case pkt: (Some pkt)
      obtain res3 r3 where o: "srtp_out env g pkt r2 = (res3, r3)" by fastforce
      note f3 = srtp_out_frame(3,4) [OF o]
      show ?thesis
      proof (cases res3)
        case None
        then show ?thesis using assms i t o plain pkt f1 f2 f3 transcode_no_send [OF quiet] by (auto simp: relay_media_def)
      next
        case out: (Some out)
        obtain fx4 where d: "deliver now ok g cls out r3 = (r', fx4)" "fx = fx2 @ fx4"
          using assms i t o plain pkt out by (auto simp: relay_media_def split: prod.splits)
        have w: "watch (rl_media r3) = watch (rl_media r)" using f1 f2 f3 by simp
        then have ms: "now_ms now (rl_media r3) = now_ms now (rl_media r)"
          "cm_started (rl_media r3) = cm_started (rl_media r)"
          "cm_audio_delivered (rl_media r3) = cm_audio_delivered (rl_media r)"
          by (simp_all add: now_ms_def watch_def)
        have sends: "list_ex is_send fx \<longleftrightarrow> fx4 \<noteq> []"
          using transcode_no_send [OF quiet] d by (auto simp: deliver_def Let_def split: option.splits if_splits)
        show ?thesis using deliver_frame(1,4,5) [OF d(1)] w ms f1 f2 f3 by (auto simp: sends)
      qed
    qed
  qed
  then show "rl_timeout_secs r' = rl_timeout_secs r"
    "watch (rl_media r') =
       (if cls = InRtp \<and> list_ex is_send fx
        then (cm_started (rl_media r), incr64 (cm_audio_delivered (rl_media r)), now_ms now (rl_media r))
        else watch (rl_media r))" by simp_all
qed

text \<open>One event of the task with its time; the run stops when the timer arm breaks the loop.\<close>

datatype relay_event = OnRtp leg "byte list" socket_addr bool | OnRtcp leg "byte list" socket_addr | OnTick

fun relay_step :: "relay_env \<Rightarrow> instant \<Rightarrow> relay_event \<Rightarrow> relay \<Rightarrow> bool \<times> relay \<times> relay_effect list" where
  "relay_step env now (OnRtp g data source ok) r = (False, relay_packet env now ok g data source r)"
| "relay_step env now (OnRtcp g data source) r = (False, relay_rtcp g data source r)"
| "relay_step env now OnTick r = relay_tick now r"

text \<open>Whether the step delivers audio: a datagram classified as RTP, sent to the other peer.\<close>

fun delivers_audio :: "relay_env \<Rightarrow> instant \<Rightarrow> relay_event \<Rightarrow> relay \<Rightarrow> bool" where
  "delivers_audio env now (OnRtp g data source ok) r \<longleftrightarrow>
     classify_media_input data (webrtc g r) = InRtp \<and>
     list_ex is_send (snd (relay_packet env now ok g data source r))"
| "delivers_audio env now _ r \<longleftrightarrow> False"

fun relay_run :: "relay_env \<Rightarrow> (instant \<times> relay_event) list \<Rightarrow> relay \<Rightarrow> bool \<times> relay" where
  "relay_run env [] r = (False, r)"
| "relay_run env ((now, ev) # evs) r =
     (case relay_step env now ev r of (stop, r', fx) \<Rightarrow> if stop then (True, r') else relay_run env evs r')"

fun last_audio :: "relay_env \<Rightarrow> (instant \<times> relay_event) list \<Rightarrow> relay \<Rightarrow> instant option \<Rightarrow> instant option" where
  "last_audio env [] r acc = acc"
| "last_audio env ((now, ev) # evs) r acc =
     (case relay_step env now ev r of (stop, r', fx) \<Rightarrow>
        last_audio env evs r' (if delivers_audio env now ev r then Some now else acc))"

lemma demux_quiet:
  assumes "demux env g data source r = Some (r', fx)"
  shows "rl_timeout_secs r' = rl_timeout_secs r" "watch (rl_media r') = watch (rl_media r)"
    "\<not> list_ex is_send fx"
  using assms
  by (auto simp: demux_def answer_check_def learn_if_unknown_def relay_frame split: if_splits option.splits
      multiplexed_packet_type.splits sum.splits)

lemma relay_packet_watch:
  assumes "relay_packet env now ok g data source r = (r', fx)"
  shows "rl_timeout_secs r' = rl_timeout_secs r \<and> watch (rl_media r') =
    (if classify_media_input data (webrtc g r) = InRtp \<and> list_ex is_send fx
     then (cm_started (rl_media r), incr64 (cm_audio_delivered (rl_media r)), now_ms now (rl_media r))
     else watch (rl_media r))"
  using assms
proof (cases rule: relay_packet_cases)
  case consumed
  then show ?thesis using demux_quiet [OF consumed] by auto
next
  case junk
  then show ?thesis by (simp add: relay_frame)
next
  case (media cls r2 r3 fx3 fx4)
  have "watch (rl_media r2) = watch (rl_media r)" "rl_timeout_secs r2 = rl_timeout_secs r"
    by (cases cls; simp add: media(4) relay_frame count_input_def note_rx_def note_rtcp_def
        note_passthrough_def Let_def)+
  then have r3: "watch (rl_media r3) = watch (rl_media r)" "rl_timeout_secs r3 = rl_timeout_secs r"
    using take_source_frame(3,4) [OF media(5)] by simp_all
  then have ms: "now_ms now (rl_media r3) = now_ms now (rl_media r)"
    "cm_started (rl_media r3) = cm_started (rl_media r)"
    "cm_audio_delivered (rl_media r3) = cm_audio_delivered (rl_media r)"
    by (simp_all add: now_ms_def watch_def)
  have "list_ex is_send fx \<longleftrightarrow> list_ex is_send fx4"
    using take_source_no_send [OF media(5)] by (simp add: media(7))
  then show ?thesis using relay_media_watch [OF media(6)] r3 ms media(2) by simp
qed

lemma relay_rtcp_watch: "relay_rtcp g data source r = (r', fx) \<Longrightarrow>
    rl_timeout_secs r' = rl_timeout_secs r \<and> watch (rl_media r') = watch (rl_media r)"
  by (auto simp: relay_rtcp_def Let_def relay_frame split: if_splits option.splits)

lemma claim_watch [simp]: "watch (snd (claim_one_way_report g m)) = watch m"
  by (simp add: claim_one_way_report_def)

lemma idle_from_watch: "watch m = (t0, n, l) \<Longrightarrow>
    idle_ms now m = (let ms = (now - t0) div 1000000 mod 2 ^ 64 in if n = 0 then ms else ms - l)"
  by (simp add: idle_ms_def since_last_relay_ms_def now_ms_def watch_def Let_def)

lemma relay_tick_watch:
  assumes "relay_tick now r = (stop, r', fx)"
  shows "rl_timeout_secs r' = rl_timeout_secs r \<and> watch (rl_media r') = watch (rl_media r)"
    and "stop \<longleftrightarrow> rl_timeout_secs r < idle_ms now (rl_media r) div 1000"
proof -
  define m where "m = (case one_way_leg now ONE_WAY_QUIET_MS (rl_media r) of
      Some silent \<Rightarrow> snd (claim_one_way_report silent (rl_media r)) | None \<Rightarrow> rl_media r)"
  have w: "watch m = watch (rl_media r)" by (simp add: m_def split: option.splits)
  then have i: "idle_ms now m = idle_ms now (rl_media r)"
    by (metis idle_from_watch prod_cases3)
  have r1: "\<exists>fx. (case one_way_leg now ONE_WAY_QUIET_MS (rl_media r) of
               Some silent \<Rightarrow>
                 let (first, m) = claim_one_way_report silent (rl_media r)
                 in (r\<lparr>rl_media := m\<rparr>, if first then [CountOneWay silent] else [])
             | None \<Rightarrow> (r, [])) = (r\<lparr>rl_media := m\<rparr>, fx)"
    by (auto simp: m_def Let_def split: option.splits prod.splits)
  then show "rl_timeout_secs r' = rl_timeout_secs r \<and> watch (rl_media r') = watch (rl_media r)"
    "stop \<longleftrightarrow> rl_timeout_secs r < idle_ms now (rl_media r) div 1000"
    using assms w i by (auto simp: relay_tick_def Let_def split: if_splits)
qed

lemma relay_step_watch:
  assumes "relay_step env now ev r = (stop, r', fx)"
  shows "rl_timeout_secs r' = rl_timeout_secs r" and "watch (rl_media r') =
    (if delivers_audio env now ev r
     then (cm_started (rl_media r), incr64 (cm_audio_delivered (rl_media r)), now_ms now (rl_media r))
     else watch (rl_media r))"
  using assms relay_packet_watch [of env now _ _ _ _ r] relay_rtcp_watch [of _ _ _ r]
    relay_tick_watch(1) [of now r]
  by (cases ev; auto)+

lemma relay_run_watch:
  assumes "relay_run env evs r = (False, r')" "watch (rl_media r) = (t0, n, l)" "n + length evs < 2 ^ 64"
    "acc = None \<longleftrightarrow> n = 0" "\<And>t. acc = Some t \<Longrightarrow> l = (t - t0) div 1000000 mod 2 ^ 64"
  shows "rl_timeout_secs r' = rl_timeout_secs r \<and>
    (\<exists>n' l'. watch (rl_media r') = (t0, n', l') \<and> (last_audio env evs r acc = None \<longleftrightarrow> n' = 0) \<and>
       (\<forall>t. last_audio env evs r acc = Some t \<longrightarrow> l' = (t - t0) div 1000000 mod 2 ^ 64))"
  using assms
proof (induction evs arbitrary: r n l acc)
  case Nil
  then show ?case by auto
next
  case (Cons p evs)
  obtain now ev where p: "p = (now, ev)" by (cases p)
  obtain stop r1 fx where s: "relay_step env now ev r = (stop, r1, fx)" by (metis prod_cases3)
  have run: "relay_run env evs r1 = (False, r')" "\<not> stop" using Cons.prems(1) by (auto simp: p s split: if_splits)
  have f: "cm_started (rl_media r) = t0" "cm_audio_delivered (rl_media r) = n" "cm_last_relay_ms (rl_media r) = l"
    using Cons.prems(2) by (simp_all add: watch_def)
  have inc: "incr64 n = n + 1" using Cons.prems(3) by (simp add: incr64_def)
  show ?case
  proof (cases "delivers_audio env now ev r")
    case True
    have w: "watch (rl_media r1) = (t0, n + 1, (now - t0) div 1000000 mod 2 ^ 64)"
      using relay_step_watch(2) [OF s] True f inc by (simp add: now_ms_def)
    show ?thesis
      using Cons.IH [OF run(1) w, of "Some now"] Cons.prems(3) relay_step_watch(1) [OF s] True
      by (simp add: p s)
  next
    case False
    have w: "watch (rl_media r1) = (t0, n, l)"
      using relay_step_watch(2) [OF s] False Cons.prems(2) by simp
    show ?thesis
      using Cons.IH [OF run(1) w, of acc] Cons.prems(3-5) relay_step_watch(1) [OF s] False
      by (simp add: p s)
  qed
qed

text \<open>
  C21: Only audio keeps a call alive. After any sequence of datagrams, RTCP packets and timer ticks on
  a session whose relay is still running, the timer ends the session if and only if the seconds since
  audio was last delivered to either peer, or since the relay started if none ever was, exceed the
  configured budget. STUN, DTLS, RTCP, junk and packets that died on the way do not count.
\<close>

theorem watchdog_exact:
  assumes "relay_run env evs r0 = (False, r)" and "watch (rl_media r0) = (t0, 0, 0)" and "length evs < 2 ^ 64"
  shows "fst (relay_tick now r) \<longleftrightarrow> rl_timeout_secs r0 <
    (now_ms now (rl_media r0) -
      (case last_audio env evs r0 None of None \<Rightarrow> 0 | Some t \<Rightarrow> now_ms t (rl_media r0))) div 1000"
proof -
  have t0: "cm_started (rl_media r0) = t0" using assms(2) by (simp add: watch_def)
  obtain n' l' where w: "rl_timeout_secs r = rl_timeout_secs r0" "watch (rl_media r) = (t0, n', l')"
    "last_audio env evs r0 None = None \<longleftrightarrow> n' = 0"
    "\<And>t. last_audio env evs r0 None = Some t \<Longrightarrow> l' = (t - t0) div 1000000 mod 2 ^ 64"
    using relay_run_watch [OF assms(1,2), of None] assms(3) by auto
  obtain stop r1 fx where tick: "relay_tick now r = (stop, r1, fx)" by (metis prod_cases3)
  show ?thesis
    using relay_tick_watch(2) [OF tick] idle_from_watch [OF w(2), of now] w(1,3,4)
    by (cases "last_audio env evs r0 None") (simp_all add: tick now_ms_def t0 Let_def)
qed

theorem watchdog_exact_witness:
  "fst (relay_tick (secs 200) (snd (relay_run plain_env
     [(secs 60, OnRtcp Caller [1, 2] (V4 192 0 2 1, 5001)), (secs 90, OnTick)] (relay_new 0 ''s''))))"
proof -
  let ?evs = "[(secs 60, OnRtcp Caller [1, 2] (V4 192 0 2 1, 5001)), (secs 90, OnTick)]"
  let ?r0 = "relay_new 0 ''s''"
  define r1 where "r1 = fst (relay_rtcp Caller [1, 2] (V4 192 0 2 1, 5001) ?r0)"
  have w0: "watch (rl_media ?r0) = (0, 0, 0)" "rl_timeout_secs ?r0 = 90"
    by (simp_all add: relay_new_def media_stats_new_def watch_def)
  have w1: "watch (rl_media r1) = (0, 0, 0)" "rl_timeout_secs r1 = 90"
    using relay_rtcp_watch [OF surjective_pairing [of "relay_rtcp Caller [1, 2] (V4 192 0 2 1, 5001) ?r0"]] w0
    unfolding r1_def by simp_all
  obtain stop r2 fx where tick: "relay_tick (secs 90) r1 = (stop, r2, fx)" by (metis prod_cases3)
  have "\<not> stop" using relay_tick_watch(2) [OF tick] idle_from_watch [OF w1(1)] w1(2) by (simp add: secs_def)
  then have run: "relay_run plain_env ?evs ?r0 = (False, r2)"
    using tick by (simp add: r1_def case_prod_beta)
  have "last_audio plain_env ?evs ?r0 None = None" by (simp split: prod.splits)
  moreover have "now_ms (secs 200) (rl_media ?r0) = 200000"
    by (simp add: now_ms_def relay_new_def media_stats_new_def secs_def)
  ultimately have "fst (relay_tick (secs 200) r2)"
    using watchdog_exact [OF run w0(1), of "secs 200"] w0(2) by simp
  then show ?thesis unfolding run by simp
qed

section \<open>Who may take a leg\<close>

lemma observe_same_stream:
  assumes "ob_plausible ob" "ob_same_stream ob"
  shows "(\<exists>m. observe p ob = Latch m) \<or> (\<exists>m. observe p ob = Move m) \<or>
    (observe p ob = Keep \<and> ob_latched ob = Some (ob_source ob))"
  using assms by (auto simp: observe_def split: option.splits)

lemma relay_media_endpoint:
  "relay_media env now ok g cls data r = (r', fx) \<Longrightarrow> endpoint h r' = endpoint h r"
  by (auto simp: relay_media_def srtp_in_frame(2) transcode_step_frame(2) srtp_out_frame(2) deliver_frame(2)
      split: prod.splits option.splits)

lemma relay_media_webrtc:
  assumes "relay_media env now ok g cls data r = (r', fx)"
  shows "webrtc h r' = webrtc h r"
proof -
  have d: "deliver now ok g cls out x = (y, e) \<Longrightarrow> webrtc h y = webrtc h x" for out x y e
    by (cases h; cases g) (auto simp: deliver_def on_media_def Let_def split: option.splits if_splits)
  show ?thesis using assms
    by (auto simp: relay_media_def srtp_in_frame(1) transcode_step_frame(1) srtp_out_frame(1) d
        split: prod.splits option.splits)
qed

text \<open>What a datagram that counts as RTP does to the endpoint and to the live SSRC of its leg.\<close>

lemma relay_packet_endpoint:
  assumes "relay_packet env now ok g data source r = (r', fx)"
    and "\<not> webrtc g r" "classify_media_input data False = InRtp"
  shows "endpoint g r' =
      (case observe (rl_policy r) (observation_of now g data source r) of
         Latch _ \<Rightarrow> Some source | Move _ \<Rightarrow> Some source | Keep \<Rightarrow> endpoint g r
       | Refuse x \<Rightarrow> if applies (rl_policy r) (Refuse x) then Some source else endpoint g r)"
  using assms(1)
proof (cases rule: relay_packet_cases)
  case consumed
  then show ?thesis using assms(2) by (simp add: demux_def)
next
  case junk
  then show ?thesis using assms(2,3) by simp
next
  case (media cls r2 r3 fx3 fx4)
  have "endpoint g r' = endpoint g r3" by (rule relay_media_endpoint [OF media(6)])
  then show ?thesis using media(5)
    by (auto simp: take_source_def media(4) relay_frame split: verdict.splits if_splits)
qed

lemma srtp_in_ssrc: "srtp_in env g data r = (res, r') \<Longrightarrow> ls_ssrc (leg_of h (rl_media r')) = ls_ssrc (leg_of h (rl_media r))"
  by (cases g) (auto simp: srtp_in_a_def srtp_in_b_def on_media_def split: option.splits sum.splits prod.splits if_splits)

lemma srtp_out_ssrc: "srtp_out env g data r = (res, r') \<Longrightarrow> ls_ssrc (leg_of h (rl_media r')) = ls_ssrc (leg_of h (rl_media r))"
  by (cases g) (auto simp: srtp_out_a_def srtp_out_b_def on_media_def split: option.splits sum.splits prod.splits if_splits)

lemma transcode_ssrc: "transcode_step env g data r = (res, r', fx) \<Longrightarrow> ls_ssrc (leg_of h (rl_media r')) = ls_ssrc (leg_of h (rl_media r))"
  using transcode_step_cases(1) by (fastforce simp: relay_frame)

lemma deliver_ssrc: "deliver now ok g cls data r = (r', fx) \<Longrightarrow> ls_ssrc (leg_of h (rl_media r')) = ls_ssrc (leg_of h (rl_media r))"
  by (cases h; cases g) (auto simp: deliver_def relay_frame Let_def note_tx_def note_tx_non_audio_def leg_note_tx_def
      note_drop_def split: option.splits if_splits)

lemma relay_media_ssrc:
  "relay_media env now ok g cls data r = (r', fx) \<Longrightarrow> ls_ssrc (leg_of h (rl_media r')) = ls_ssrc (leg_of h (rl_media r))"
  by (auto simp: relay_media_def split: prod.splits option.splits
      dest!: srtp_in_ssrc [where h = h] srtp_out_ssrc [where h = h] transcode_ssrc [where h = h] deliver_ssrc [where h = h])

lemma note_seq_ssrc [simp]: "ls_ssrc (note_seq sq l) = ls_ssrc l"
  by (auto simp: note_seq_def Let_def)

lemma relay_packet_ssrc:
  assumes "relay_packet env now ok g data source r = (r', fx)"
    and "\<not> webrtc g r" "classify_media_input data False = InRtp"
  shows "ls_ssrc (leg_of g (rl_media r')) = field 8 4 data"
  using assms(1)
proof (cases rule: relay_packet_cases)
  case consumed
  then show ?thesis using assms(2) by (simp add: demux_def)
next
  case junk
  then show ?thesis using assms(2,3) by simp
next
  case (media cls r2 r3 fx3 fx4)
  have len: "12 \<le> length data"
    using assms(3) by (auto simp: classify_media_input_def looks_like_rtp_def split: list.splits if_splits)
  have "ls_ssrc (leg_of g (rl_media r2)) = field 8 4 data"
    using media(2,4) assms(2,3) len
    by (simp add: relay_frame count_input_def note_rx_def media_stats_simps leg_note_rx_def Let_def)
  moreover have "ls_ssrc (leg_of g (rl_media r3)) = ls_ssrc (leg_of g (rl_media r2))"
    using media(5) by (auto simp: take_source_def relay_frame note_endpoint_learned_def note_endpoint_moved_def
        media_stats_simps split: verdict.splits if_splits)
  ultimately show ?thesis using relay_media_ssrc [OF media(6), of g] by simp
qed

text \<open>
  The second packet of a stranger takes the leg. Under every endpoint policy, the enforcing one
  included, and with or without SRTP: when two RTP-shaped datagrams with the same SSRC arrive on a leg
  that is not in WebRTC mode, one after the other from one source, that source is the leg's endpoint
  afterwards, whoever it is and however recently the real peer was heard. The first datagram, though
  refused, has become the leg's live stream in the counters the ladder consults.
\<close>

theorem second_packet_takes_endpoint:
  assumes "relay_packet env now1 ok1 g data1 source r = (r1, fx1)"
    and "relay_packet env now2 ok2 g data2 source r1 = (r2, fx2)"
    and "\<not> webrtc g r" and "classify_media_input data1 False = InRtp"
    and "classify_media_input data2 False = InRtp" and "field 8 4 data1 = field 8 4 data2"
  shows "endpoint g r2 = Some source"
proof -
  have w1: "\<not> webrtc g r1"
    using assms(1)
  proof (cases rule: relay_packet_cases)
    case consumed
    then show ?thesis using assms(3) by (simp add: demux_def)
  next
    case junk
    then show ?thesis using assms(3) by (simp add: relay_frame)
  next
    case (media cls ra rb fx3 fx4)
    have "webrtc g r1 = webrtc g rb" by (rule relay_media_webrtc [OF media(6)])
    then show ?thesis using take_source_frame(1) [OF media(5), of g] assms(3) by (simp add: media(4) relay_frame)
  qed
  have rtp: "12 \<le> length data2 \<and> looks_like_rtp data2"
    using assms(5) by (auto simp: classify_media_input_def looks_like_rtp_def split: list.splits if_splits)
  define ob where "ob = observation_of now2 g data2 source r1"
  have "ob_plausible ob" "ob_same_stream ob" "ob_source ob = source" "ob_latched ob = endpoint g r1"
    using rtp relay_packet_ssrc [OF assms(1,3,4)] assms(6) by (simp_all add: ob_def observation_of_def)
  then show ?thesis
    using relay_packet_endpoint [OF assms(2) w1 assms(5)] observe_same_stream [of ob "rl_policy r1"]
    by (auto simp flip: ob_def)
qed

text \<open>A session that enforces the ladder, with the caller latched; a stranger sends two packets.\<close>

theorem second_packet_takes_endpoint_witness:
  "let r = set_endpoint_a (V4 192 0 2 1, 5000) (relay_new 0 ''s'')\<lparr>rl_policy :=
         \<lparr>ep_mode = ModeMoves, ep_quiet_period = secs 5\<rparr>\<rparr>;
       stranger = (V4 203 0 113 66, 6666);
       r1 = fst (relay_packet plain_env 0 True Caller example_packet stranger r)
   in endpoint Caller (fst (relay_packet plain_env 1 True Caller example_packet stranger r1)) = Some stranger"
proof -
  define r where "r = set_endpoint_a (V4 192 0 2 1, 5000) (relay_new 0 ''s'')\<lparr>rl_policy :=
         \<lparr>ep_mode = ModeMoves, ep_quiet_period = secs 5\<rparr>\<rparr>"
  have "\<not> webrtc Caller r" by (simp add: r_def set_endpoint_a_def relay_new_def)
  from second_packet_takes_endpoint [OF surjective_pairing surjective_pairing this
      example_packet_rtp(2) example_packet_rtp(2)]
  show ?thesis unfolding Let_def r_def by simp
qed

text \<open>
  On a WebRTC leg only the holder of the password is answered or learned. When a leg in WebRTC
  mode has an ICE password, a datagram of the STUN range that changes the leg's endpoint or is answered
  contains a MESSAGE-INTEGRITY attribute whose value is the HMAC, keyed with that password, of all that
  precedes the attribute.
\<close>

theorem only_authentic_checks_count:
  assumes "relay_packet env now ok g data source r = (r', fx)" and "webrtc g r" and "ice_pwd g r = Some pwd"
    and "classify_packet data = MuxStun" and "endpoint g r' \<noteq> endpoint g r \<or> fx \<noteq> []"
  shows "\<exists>at. 20 \<le> at \<and> at + 24 \<le> length data \<and> field at 2 data = 8 \<and> field (at + 2) 2 data = 20 \<and>
    take 20 (drop (at + 4) data) = take 20 (en_hmac env (str_bytes pwd) (covered data at))"
proof -
  have "validate_binding_request (en_hmac env) data pwd = Inr ()"
    using assms by (auto simp: relay_packet_def demux_def relay_frame split: sum.splits)
  from accepted_check_is_authentic [OF this] show ?thesis by blast
qed
theorem only_authentic_checks_count_witness:
  "let data = [0, 1, 0, 32, 0x21, 0x12, 0xA4, 0x42, 1, 2, 3, 4, 5, 6, 7, 8, 9, 10, 11, 12,
               0, 6, 0, 4, 97, 58, 98, 99, 0, 8, 0, 20,
               5, 5, 5, 5, 5, 5, 5, 5, 5, 5, 5, 5, 5, 5, 5, 5, 5, 5, 5, 5] :: byte list;
       mac = [5, 5, 5, 5, 5, 5, 5, 5, 5, 5, 5, 5, 5, 5, 5, 5, 5, 5, 5, 5] :: byte list
   in \<exists>at. 20 \<le> at \<and> at + 24 \<le> length data \<and> field at 2 data = 8 \<and> field (at + 2) 2 data = 20 \<and>
        take 20 (drop (at + 4) data) = take 20 mac"
proof -
  let ?data = "[0, 1, 0, 32, 0x21, 0x12, 0xA4, 0x42, 1, 2, 3, 4, 5, 6, 7, 8, 9, 10, 11, 12,
               0, 6, 0, 4, 97, 58, 98, 99, 0, 8, 0, 20,
               5, 5, 5, 5, 5, 5, 5, 5, 5, 5, 5, 5, 5, 5, 5, 5, 5, 5, 5, 5] :: byte list"
  let ?hmac = "\<lambda>k m. [5, 5, 5, 5, 5, 5, 5, 5, 5, 5, 5, 5, 5, 5, 5, 5, 5, 5, 5, 5] :: byte list"
  let ?w0 = "\<lparr>sw_integrity = None, sw_fingerprint = None, sw_has_username = False\<rparr>"
  have f: "field 0 2 ?data = 1" "field 2 2 ?data = 32" "field 4 4 ?data = STUN_MAGIC_COOKIE"
    "field 20 2 ?data = 6" "field 22 2 ?data = 4" "field 28 2 ?data = 8" "field 30 2 ?data = 20"
    by (simp_all add: field_def be_nat_def STUN_MAGIC_COOKIE_def)
  have len: "length ?data = 52" "min (20 + 32) (52 :: nat) = 52" by simp_all
  have "walk ?data 52 20 ?w0 = walk ?data 52 28 (walk_attribute ?data 20 6 4 ?w0)"
    by (subst walk.simps) (simp only: f, simp add: f Let_def)
  also have "\<dots> = walk ?data 52 52 (walk_attribute ?data 28 8 20 (walk_attribute ?data 20 6 4 ?w0))"
    by (subst walk.simps) (simp only: f, simp add: f Let_def)
  also have "\<dots> = Some \<lparr>sw_integrity = Some (28, ?hmac [] []), sw_fingerprint = None,
      sw_has_username = True\<rparr>"
    by (subst walk.simps) (simp add: walk_attribute_def)
  finally have "validate_binding_request ?hmac ?data ''pw'' = Inr ()"
    unfolding validate_binding_request_def f len by simp
  note valid = this
  let ?env = "plain_env\<lparr>en_hmac := ?hmac\<rparr>"
  let ?r = "enable_webrtc_mode_a (Some ''pw'') (relay_new 0 ''s'')"
  let ?s = "(V4 192 0 2 1, 5000)"
  have mode: "webrtc Caller ?r" "ice_pwd Caller ?r = Some ''pw''" "endpoint Caller ?r = None"
    by (simp_all add: enable_webrtc_mode_a_def relay_new_def)
  have mux: "classify_packet ?data = MuxStun" by (simp add: classify_packet_def)
  obtain r' fx where p: "relay_packet ?env 0 True Caller ?data ?s ?r = (r', fx)" by fastforce
  have "demux ?env Caller ?data ?s ?r = Some (answer_check ?env Caller ?data ?s ?r)"
    unfolding demux_def using mode mux valid by simp
  then have "r' = latch Caller ?s ?r"
    using p mode(3) by (simp add: relay_packet_def answer_check_def learn_if_unknown_def)
  then have "endpoint Caller r' \<noteq> endpoint Caller ?r" using mode(3) by (simp add: relay_frame)
  from only_authentic_checks_count [OF p mode(1,2) mux] this
  show ?thesis unfolding Let_def by simp
qed

end
