(* ===== verification/Md5.thy ===== *)
theory Md5
  imports Bytes Net
begin

text \<open>
  The MD5 of \<^verbatim>\<open>crates/sbc-core/src/auth.rs\<close> (\<^verbatim>\<open>md5_compute\<close>), on 32-bit words.
\<close>

definition md5_s :: "nat list" where
  "md5_s = concat (replicate 4 [7, 12, 17, 22]) @ concat (replicate 4 [5, 9, 14, 20]) @
     concat (replicate 4 [4, 11, 16, 23]) @ concat (replicate 4 [6, 10, 15, 21])"

definition md5_k :: "32 word list" where
  "md5_k =
     [0xd76aa478, 0xe8c7b756, 0x242070db, 0xc1bdceee, 0xf57c0faf, 0x4787c62a, 0xa8304613,
      0xfd469501, 0x698098d8, 0x8b44f7af, 0xffff5bb1, 0x895cd7be, 0x6b901122, 0xfd987193,
      0xa679438e, 0x49b40821, 0xf61e2562, 0xc040b340, 0x265e5a51, 0xe9b6c7aa, 0xd62f105d,
      0x02441453, 0xd8a1e681, 0xe7d3fbc8, 0x21e1cde6, 0xc33707d6, 0xf4d50d87, 0x455a14ed,
      0xa9e3e905, 0xfcefa3f8, 0x676f02d9, 0x8d2a4c8a, 0xfffa3942, 0x8771f681, 0x6d9d6122,
      0xfde5380c, 0xa4beea44, 0x4bdecfa9, 0xf6bb4b60, 0xbebfbc70, 0x289b7ec6, 0xeaa127fa,
      0xd4ef3085, 0x04881d05, 0xd9d4d039, 0xe6db99e5, 0x1fa27cf8, 0xc4ac5665, 0xf4292244,
      0x432aff97, 0xab9423a7, 0xfc93a039, 0x655b59c3, 0x8f0ccc92, 0xffeff47d, 0x85845dd1,
      0x6fa87e4f, 0xfe2ce6e0, 0xa3014314, 0x4e0811a1, 0xf7537e82, 0xbd3af235, 0x2ad7d2bb,
      0xeb86d391]"

type_synonym md5_state = "32 word \<times> 32 word \<times> 32 word \<times> 32 word"

definition md5_init :: md5_state where
  "md5_init = (0x67452301, 0xefcdab89, 0x98badcfe, 0x10325476)"

text \<open>The message with its one bit, zeros up to 56 modulo 64 octets, and its length in bits.\<close>

definition md5_pad :: "byte list \<Rightarrow> byte list" where
  "md5_pad data = data @ [0x80] @ replicate ((119 - length data mod 64) mod 64) 0 @
     rev (be_bytes 8 (length data * 8))"

definition le_word :: "byte list \<Rightarrow> 32 word" where
  "le_word bs = word_of_nat (be_nat (rev bs))"

definition md5_words :: "byte list \<Rightarrow> 32 word list" where
  "md5_words chunk = map (\<lambda>i. le_word (take 4 (drop (i * 4) chunk))) [0..<16]"

definition md5_round :: "32 word list \<Rightarrow> nat \<Rightarrow> md5_state \<Rightarrow> md5_state" where
  "md5_round m i = (\<lambda>(a, b, c, d).
     let (f, g) =
           (if i \<le> 15 then ((b AND c) OR (NOT b AND d), i)
            else if i \<le> 31 then ((d AND b) OR (NOT d AND c), (5 * i + 1) mod 16)
            else if i \<le> 47 then (b XOR c XOR d, (3 * i + 5) mod 16)
            else (c XOR (b OR NOT d), (7 * i) mod 16));
         f = f + a + md5_k ! i + m ! g
     in (d, b + word_rotl (md5_s ! i) f, b, c))"

definition md5_chunk :: "md5_state \<Rightarrow> byte list \<Rightarrow> md5_state" where
  "md5_chunk s chunk =
     (let (a0, b0, c0, d0) = s; (a, b, c, d) = fold (md5_round (md5_words chunk)) [0..<64] s
      in (a0 + a, b0 + b, c0 + c, d0 + d))"

function md5_chunks :: "md5_state \<Rightarrow> byte list \<Rightarrow> md5_state" where
  "md5_chunks s msg = (if msg = [] then s else md5_chunks (md5_chunk s (take 64 msg)) (drop 64 msg))"
  by auto
termination by (relation "measure (\<lambda>(_, msg). length msg)") auto

declare md5_chunks.simps [simp del]

text \<open>\<^verbatim>\<open>{:08x}\<close> of a word with its octets swapped.\<close>

definition hex_pad :: "nat \<Rightarrow> nat \<Rightarrow> string" where
  "hex_pad w n = replicate (w - length (show_hex n)) CHR ''0'' @ show_hex n"

definition swap_bytes :: "32 word \<Rightarrow> nat" where
  "swap_bytes a = be_nat (rev (be_bytes 4 (unat a)))"

definition md5_compute :: "byte list \<Rightarrow> string" where
  "md5_compute data =
     (let (a, b, c, d) = md5_chunks md5_init (md5_pad data)
      in hex_pad 8 (swap_bytes a) @ hex_pad 8 (swap_bytes b) @ hex_pad 8 (swap_bytes c) @
         hex_pad 8 (swap_bytes d))"

definition md5_hex :: "string \<Rightarrow> string" where
  "md5_hex input = md5_compute (map (\<lambda>c. word_of_nat (of_char c)) input)"

section \<open>The shape of the digest\<close>

lemma md5_pad_length: "length (md5_pad data) mod 64 = 0"
proof -
  define q m where "q = length data div 64" and "m = length data mod 64"
  have n: "length data = 64 * q + m" "m < 64" by (simp_all add: q_def m_def)
  have "(119 - m) mod 64 = (if m \<le> 55 then 55 - m else 119 - m)"
  proof (cases "m \<le> 55")
    case True
    then have "119 - m = 64 + (55 - m)" by simp
    then have "(119 - m) mod 64 = (55 - m) mod 64" by (metis mod_add_self1)
    then show ?thesis using True by simp
  qed (use n(2) in simp)
  then have "length (md5_pad data) = 64 * q + (if m \<le> 55 then 64 else 128)"
    using n by (auto simp: md5_pad_def m_def [symmetric])
  then show ?thesis by simp
qed

text \<open>So every chunk is whole, and the reads of its sixteen words are in bounds.\<close>

lemma md5_chunks_whole: "length msg mod 64 = 0 \<Longrightarrow> msg \<noteq> [] \<Longrightarrow> length (take 64 msg) = 64 \<and> length (drop 64 msg) mod 64 = 0"
  by (cases "length msg < 64") (auto simp: le_mod_geq not_less)

lemma length_show_base: "2 \<le> b \<Longrightarrow> n < b ^ k \<Longrightarrow> 0 < k \<Longrightarrow> length (show_base b n) \<le> k"
proof (induction b n arbitrary: k rule: show_base.induct)
  case (1 b n)
  show ?case
  proof (cases "n < b")
    case True
    then show ?thesis using 1 by (subst show_base.simps) simp
  next
    case False
    then obtain j where k: "k = Suc j" "0 < j" using 1(3,4) by (cases k; cases "k - 1") auto
    have "n div b < b ^ j" using 1(3) by (simp add: k(1) less_mult_imp_div_less mult.commute)
    then have "length (show_base b (n div b)) \<le> j" using 1 False k by simp
    then show ?thesis using 1(2) False by (subst show_base.simps) (simp add: k)
  qed
qed

lemma set_show_base: "2 \<le> b \<Longrightarrow> b \<le> 16 \<Longrightarrow> set (show_base b n) \<subseteq> digit_char ` {..<16}"
proof (induction b n rule: show_base.induct)
  case (1 b n)
  have "n mod b < 16" by (rule less_le_trans [OF mod_less_divisor 1(3)]) (use 1(2) in simp)
  with 1 show ?case by (subst show_base.simps) auto
qed

lemma length_hex_pad: "n < 16 ^ w \<Longrightarrow> 0 < w \<Longrightarrow> length (hex_pad w n) = w"
  using length_show_base [of 16 n w] by (simp add: hex_pad_def show_hex_def)

lemma set_hex_pad: "set (hex_pad w n) \<subseteq> digit_char ` {..<16}"
proof -
  have "digit_char 0 = CHR ''0''" by code_simp
  then have "CHR ''0'' \<in> digit_char ` {..<16}" by (metis image_eqI lessThan_iff zero_less_numeral)
  then show ?thesis using set_show_base [of 16 n] by (auto simp: hex_pad_def show_hex_def)
qed

lemma swap_bytes_less: "swap_bytes a < 16 ^ 8"
  using be_nat_less [of "rev (be_bytes 4 (unat a))"] by (simp add: swap_bytes_def)

lemma md5_shape:
  "length (md5_compute data) = 32" "set (md5_compute data) \<subseteq> digit_char ` {..<16}"
proof -
  obtain a b c d where s: "md5_chunks md5_init (md5_pad data) = (a, b, c, d)" by (metis prod_cases4)
  have "length (hex_pad 8 (swap_bytes w)) = 8" "set (hex_pad 8 (swap_bytes w)) \<subseteq> digit_char ` {..<16}" for w
    using length_hex_pad [OF swap_bytes_less] set_hex_pad by simp_all
  then show "length (md5_compute data) = 32" "set (md5_compute data) \<subseteq> digit_char ` {..<16}"
    by (simp_all add: md5_compute_def s)
qed

end
