(* ===== verification/Digest_Auth.thy ===== *)
theory Digest_Auth
  imports Md5
begin

text \<open>
  \<^verbatim>\<open>crates/sbc-core/src/auth.rs\<close>: SIP Digest authentication, both sides. The authenticator's nonce and
  user tables are hash tables; each operation runs under the table's lock. The wall clock in seconds
  is an argument, as are random values (a nonce's sixteen octets, a cnonce).
\<close>

section \<open>Digests\<close>

definition compute_ha1 :: "string \<Rightarrow> string \<Rightarrow> string \<Rightarrow> string" where
  "compute_ha1 username realm password = md5_hex (username @ '':'' @ realm @ '':'' @ password)"

definition compute_ha2 :: "string \<Rightarrow> string \<Rightarrow> string" where
  "compute_ha2 mth uri = md5_hex (mth @ '':'' @ uri)"

definition compute_response :: "string \<Rightarrow> string \<Rightarrow> string \<Rightarrow> string" where
  "compute_response ha1 nonce ha2 = md5_hex (ha1 @ '':'' @ nonce @ '':'' @ ha2)"

definition compute_response_auth :: "string \<Rightarrow> string \<Rightarrow> string \<Rightarrow> string \<Rightarrow> string \<Rightarrow> string" where
  "compute_response_auth ha1 nonce nc cnonce ha2 =
     md5_hex (ha1 @ '':'' @ nonce @ '':'' @ nc @ '':'' @ cnonce @ '':auth:'' @ ha2)"

section \<open>Headers\<close>

text \<open>One comma-separated part of a Digest header: its key and its unquoted value.\<close>

definition digest_part :: "string \<Rightarrow> (string \<times> string) option" where
  "digest_part part =
     (case split_once CHR ''='' (trim part) of
        None \<Rightarrow> None
      | Some (key, val) \<Rightarrow> Some (trim key, trim_matches dquote (trim val)))"

definition digest_parts :: "string \<Rightarrow> (string \<times> string) list" where
  "digest_parts v = List.map_filter digest_part (split_on CHR '','' v)"

record digest_challenge =
  dc_realm :: string
  dc_nonce :: string
  dc_algorithm :: string
  dc_qop :: "string option"
  dc_opaque :: "string option"

definition set_challenge_field :: "string \<times> string \<Rightarrow> digest_challenge \<Rightarrow> digest_challenge" where
  "set_challenge_field = (\<lambda>(key, val) c.
     if key = ''realm'' then c\<lparr>dc_realm := val\<rparr>
     else if key = ''nonce'' then c\<lparr>dc_nonce := val\<rparr>
     else if key = ''algorithm'' then c\<lparr>dc_algorithm := val\<rparr>
     else if key = ''qop'' then c\<lparr>dc_qop := Some val\<rparr>
     else if key = ''opaque'' then c\<lparr>dc_opaque := Some val\<rparr>
     else c)"

definition challenge_from_header :: "string \<Rightarrow> digest_challenge result" where
  "challenge_from_header v =
     (case strip_prefix ''Digest '' (trim v) of
        None \<Rightarrow> Inl (ParseErr (''Challenge must start with '' @ [CHR 0x27] @ ''Digest '' @ [CHR 0x27]))
      | Some rest \<Rightarrow>
          let c = fold set_challenge_field (digest_parts rest)
                    \<lparr>dc_realm = [], dc_nonce = [], dc_algorithm = ''MD5'', dc_qop = None, dc_opaque = None\<rparr>
          in if dc_realm c = [] \<or> dc_nonce c = []
             then Inl (ParseErr ''Incomplete Digest challenge (missing realm or nonce)'')
             else Inr c)"

text \<open>\<^verbatim>\<open>key="value"\<close> and the header of the client side; \<open>cnonce\<close> is the random value, already in hexadecimal.\<close>

definition quoted :: "string \<Rightarrow> string \<Rightarrow> string" where
  "quoted key val = key @ ''='' @ [dquote] @ val @ [dquote]"

definition generate_digest_response ::
  "string \<Rightarrow> string \<Rightarrow> string \<Rightarrow> digest_challenge \<Rightarrow> string \<Rightarrow> string \<Rightarrow> string"
where
  "generate_digest_response cnonce username password c mth digest_uri =
     (let ha1 = compute_ha1 username (dc_realm c) password;
          ha2 = compute_ha2 mth digest_uri;
          with_qop = (case dc_qop c of Some q \<Rightarrow> contains q ''auth'' | None \<Rightarrow> False);
          response = (if with_qop then compute_response_auth ha1 (dc_nonce c) ''00000001'' cnonce ha2
                      else compute_response ha1 (dc_nonce c) ha2)
      in ''Digest '' @ quoted ''username'' username @ '', '' @ quoted ''realm'' (dc_realm c) @ '', '' @
         quoted ''nonce'' (dc_nonce c) @ '', '' @ quoted ''uri'' digest_uri @ '', '' @
         quoted ''response'' response @ '', algorithm='' @ dc_algorithm c @
         (if with_qop then '', qop=auth, nc=00000001, '' @ quoted ''cnonce'' cnonce else []) @
         (case dc_opaque c of Some opq \<Rightarrow> '', '' @ quoted ''opaque'' opq | None \<Rightarrow> []))"

record digest_credentials =
  cr_username :: string
  cr_realm :: string
  cr_nonce :: string
  cr_uri :: string
  cr_response :: string
  cr_algorithm :: string
  cr_qop :: "string option"
  cr_nc :: "string option"
  cr_cnonce :: "string option"

definition set_credential :: "string \<times> string \<Rightarrow> digest_credentials \<Rightarrow> digest_credentials" where
  "set_credential = (\<lambda>(key, val) c.
     if key = ''username'' then c\<lparr>cr_username := val\<rparr>
     else if key = ''realm'' then c\<lparr>cr_realm := val\<rparr>
     else if key = ''nonce'' then c\<lparr>cr_nonce := val\<rparr>
     else if key = ''uri'' then c\<lparr>cr_uri := val\<rparr>
     else if key = ''response'' then c\<lparr>cr_response := val\<rparr>
     else if key = ''algorithm'' then c\<lparr>cr_algorithm := val\<rparr>
     else if key = ''qop'' then c\<lparr>cr_qop := Some val\<rparr>
     else if key = ''nc'' then c\<lparr>cr_nc := Some val\<rparr>
     else if key = ''cnonce'' then c\<lparr>cr_cnonce := Some val\<rparr>
     else c)"

definition credentials_from_header :: "string \<Rightarrow> digest_credentials result" where
  "credentials_from_header v =
     (case strip_prefix ''Digest '' (trim v) of
        None \<Rightarrow> Inl (ParseErr (''Authorization header must start with '' @ [CHR 0x27] @ ''Digest '' @ [CHR 0x27]))
      | Some rest \<Rightarrow>
          let c = fold set_credential (digest_parts rest)
                    \<lparr>cr_username = [], cr_realm = [], cr_nonce = [], cr_uri = [], cr_response = [],
                     cr_algorithm = ''MD5'', cr_qop = None, cr_nc = None, cr_cnonce = None\<rparr>
          in if cr_username c = [] \<or> cr_realm c = [] \<or> cr_nonce c = [] \<or> cr_response c = []
             then Inl (ParseErr ''Incomplete Digest credentials'')
             else Inr c)"

section \<open>The authenticator\<close>

record nonce_record =
  nr_created_at :: nat
  nr_use_count :: nat
  nr_last_nc :: nat
  nr_last_fingerprint :: "nat option"

datatype auth_failure =
    StaleNonce string
  | Replay string
  | BadCredentials string
  | UnknownUser string
  | Malformed

fun failure_user :: "auth_failure \<Rightarrow> string option" where
  "failure_user (StaleNonce u) = Some u"
| "failure_user (Replay u) = Some u"
| "failure_user (BadCredentials u) = Some u"
| "failure_user (UnknownUser u) = Some u"
| "failure_user Malformed = None"

fun is_stale :: "auth_failure \<Rightarrow> bool" where
  "is_stale (StaleNonce _) = True"
| "is_stale (Replay _) = True"
| "is_stale _ = False"

fun is_attack :: "auth_failure \<Rightarrow> bool" where
  "is_attack (BadCredentials _) = True"
| "is_attack (UnknownUser _) = True"
| "is_attack _ = False"

record authenticator =
  da_realm :: string
  da_nonces :: "(string, nonce_record) hmap"
  da_nonce_ttl :: nat
  da_users :: "(string, string) hmap"

definition MAX_NONCES :: nat where "MAX_NONCES = 100000"

definition DUMMY_HA1 :: string where "DUMMY_HA1 = replicate 32 CHR ''0''"

definition build_ha1_map :: "string \<Rightarrow> (string, string) hmap \<Rightarrow> (string, string) hmap" where
  "build_ha1_map realm users = map (\<lambda>(u, p). (u, compute_ha1 u realm p)) users"

definition authenticator_new :: "string \<Rightarrow> (string, string) hmap \<Rightarrow> authenticator" where
  "authenticator_new realm users =
     \<lparr>da_realm = realm, da_nonces = [], da_nonce_ttl = 300, da_users = build_ha1_map realm users\<rparr>"

definition set_users_ha1 :: "(string, string) hmap \<Rightarrow> authenticator \<Rightarrow> (nat \<times> nat \<times> nat) \<times> authenticator" where
  "set_users_ha1 new_ha1 a =
     (let old_keys = map fst (da_users a); new_keys = map fst new_ha1;
          added = length (filter (\<lambda>k. k \<notin> set old_keys) new_keys);
          removed = length (filter (\<lambda>k. k \<notin> set new_keys) old_keys)
      in ((added, removed, length new_ha1), a\<lparr>da_users := new_ha1\<rparr>))"

definition reload_users :: "(string, string) hmap \<Rightarrow> authenticator \<Rightarrow> (nat \<times> nat \<times> nat) \<times> authenticator" where
  "reload_users users a = set_users_ha1 (build_ha1_map (da_realm a) users) a"

definition generate_nonce :: "byte list \<Rightarrow> string" where
  "generate_nonce bytes = concat (map (\<lambda>b. hex_pad 2 (unat b)) bytes)"

definition evict_nonces :: "nat \<Rightarrow> nat \<Rightarrow> (string, nonce_record) hmap \<Rightarrow> (string, nonce_record) hmap" where
  "evict_nonces now ttl nonces =
     (if MAX_NONCES \<le> length nonces then
        let n1 = hm_retain (\<lambda>_ r. now - nr_created_at r \<le> ttl) nonces;
            n2 = (if MAX_NONCES \<le> length n1
                  then hm_retain (\<lambda>_ r. now - nr_created_at r \<le> ttl div 2) n1 else n1)
        in if MAX_NONCES \<le> length n2 then [] else n2
      else nonces)"

definition generate_challenge_with :: "byte list \<Rightarrow> nat \<Rightarrow> bool \<Rightarrow> authenticator \<Rightarrow> string \<times> authenticator" where
  "generate_challenge_with rnd now stale a =
     (let nonce = generate_nonce rnd;
          rec = \<lparr>nr_created_at = now, nr_use_count = 0, nr_last_nc = 0, nr_last_fingerprint = None\<rparr>;
          nonces = evict_nonces now (da_nonce_ttl a) (da_nonces a)
      in (''Digest '' @ quoted ''realm'' (da_realm a) @ '', '' @ quoted ''nonce'' nonce @
            '', algorithm=MD5, '' @ quoted ''qop'' ''auth'' @ (if stale then '', stale=true'' else []),
          a\<lparr>da_nonces := hm_insert nonce rec nonces\<rparr>))"

definition generate_challenge :: "byte list \<Rightarrow> nat \<Rightarrow> authenticator \<Rightarrow> string \<times> authenticator" where
  "generate_challenge rnd now a = generate_challenge_with rnd now False a"

text \<open>\<^verbatim>\<open>u32::from_str_radix(n.trim(), 16)\<close>\<close>

definition parse_hex32 :: "string \<Rightarrow> nat option" where
  "parse_hex32 s =
     (let ds = (case trim s of [] \<Rightarrow> [] | c # cs \<Rightarrow> if c = CHR ''+'' then cs else c # cs) in
      if ds = [] \<or> \<not> list_all (is_digit_of 16) ds \<or> u32_max < digits_value 16 ds then None
      else Some (digits_value 16 ds))"

definition expected_response :: "string \<Rightarrow> string \<Rightarrow> digest_credentials \<Rightarrow> string" where
  "expected_response ha1 mth c =
     (if cr_qop c = Some ''auth''
      then compute_response_auth ha1 (cr_nonce c)
             (case cr_nc c of Some nc \<Rightarrow> nc | None \<Rightarrow> ''00000001'')
             (case cr_cnonce c of Some cn \<Rightarrow> cn | None \<Rightarrow> []) (compute_ha2 mth (cr_uri c))
      else compute_response ha1 (cr_nonce c) (compute_ha2 mth (cr_uri c)))"

text \<open>The replay check of \<^verbatim>\<open>verify_with\<close> on a live record, for credentials that are right.\<close>

definition use_nonce ::
  "digest_credentials \<Rightarrow> nat option \<Rightarrow> nonce_record \<Rightarrow> (auth_failure + unit) \<times> nonce_record"
where
  "use_nonce c fingerprint rec =
     (let user = cr_username c; used = rec\<lparr>nr_use_count := incr32 (nr_use_count rec)\<rparr>
      in if cr_qop c = Some ''auth'' then
           case (case cr_nc c of Some n \<Rightarrow> parse_hex32 n | None \<Rightarrow> None) of
             None \<Rightarrow> (Inl (StaleNonce user), rec)
           | Some nc \<Rightarrow>
               if nr_last_nc rec < nc
               then (Inr (), used\<lparr>nr_last_nc := nc, nr_last_fingerprint := fingerprint\<rparr>)
               else if \<not> (nc = nr_last_nc rec \<and> fingerprint \<noteq> None \<and> fingerprint = nr_last_fingerprint rec)
               then (Inl (Replay user), rec)
               else (Inr (), used)
         else if 0 < nr_use_count rec then (Inl (StaleNonce user), rec)
         else (Inr (), used))"

definition verify_with ::
  "nat \<Rightarrow> string \<Rightarrow> string \<Rightarrow> nat option \<Rightarrow> authenticator \<Rightarrow> (auth_failure + string) \<times> authenticator"
where
  "verify_with now auth_header mth fingerprint a =
     (case credentials_from_header auth_header of
        Inl _ \<Rightarrow> (Inl Malformed, a)
      | Inr c \<Rightarrow>
          let user = cr_username c;
              ha1 = hm_get (da_users a) user;
              expected = expected_response (case ha1 of Some h \<Rightarrow> h | None \<Rightarrow> DUMMY_HA1) mth c;
              digest_ok = (ha1 \<noteq> None \<and> expected = cr_response c)
          in case hm_get (da_nonces a) (cr_nonce c) of
               None \<Rightarrow> (Inl (StaleNonce user), a)
             | Some rec \<Rightarrow>
                 if da_nonce_ttl a < now - nr_created_at rec
                 then (Inl (if digest_ok then StaleNonce user
                            else if ha1 = None then UnknownUser user else BadCredentials user),
                       a\<lparr>da_nonces := hm_remove (cr_nonce c) (da_nonces a)\<rparr>)
                 else if ha1 = None then (Inl (UnknownUser user), a)
                 else if \<not> digest_ok then (Inl (BadCredentials user), a)
                 else case use_nonce c fingerprint rec of
                        (Inl e, _) \<Rightarrow> (Inl e, a)
                      | (Inr _, rec') \<Rightarrow>
                          (Inr user, a\<lparr>da_nonces := hm_insert (cr_nonce c) rec' (da_nonces a)\<rparr>))"

definition verify :: "nat \<Rightarrow> string \<Rightarrow> string \<Rightarrow> authenticator \<Rightarrow> (auth_failure + string) \<times> authenticator" where
  "verify now auth_header mth a = verify_with now auth_header mth None a"

definition cleanup_nonces :: "nat \<Rightarrow> authenticator \<Rightarrow> nat \<times> authenticator" where
  "cleanup_nonces now a =
     (let nonces = hm_retain (\<lambda>_ r. now - nr_created_at r \<le> da_nonce_ttl a) (da_nonces a)
      in (length (da_nonces a) - length nonces, a\<lparr>da_nonces := nonces\<rparr>))"

definition user_exists :: "string \<Rightarrow> authenticator \<Rightarrow> bool" where
  "user_exists username a = hm_contains (da_users a) username"

definition active_nonces :: "authenticator \<Rightarrow> nat" where
  "active_nonces a = length (da_nonces a)"

section \<open>Runs of the authenticator\<close>

datatype auth_op =
    OpVerify nat string string "nat option"
  | OpChallenge "byte list" nat bool
  | OpCleanup nat
  | OpSetUsers "(string, string) hmap"

fun auth_step :: "auth_op \<Rightarrow> authenticator \<Rightarrow> authenticator" where
  "auth_step (OpVerify now h mth fp) a = snd (verify_with now h mth fp a)"
| "auth_step (OpChallenge rnd now stale) a = snd (generate_challenge_with rnd now stale a)"
| "auth_step (OpCleanup now) a = snd (cleanup_nonces now a)"
| "auth_step (OpSetUsers m) a = snd (set_users_ha1 m a)"

definition auth_run :: "auth_op list \<Rightarrow> authenticator \<Rightarrow> authenticator" where
  "auth_run ops a = fold auth_step ops a"

text \<open>No challenge of the run draws the nonce \<open>n\<close>.\<close>

fun mints :: "string \<Rightarrow> auth_op \<Rightarrow> bool" where
  "mints n (OpChallenge rnd now stale) \<longleftrightarrow> generate_nonce rnd = n"
| "mints n _ \<longleftrightarrow> False"

lemma verify_cases:
  assumes "verify_with now h mth fp a = (res, a')"
  obtains (malformed) "res = Inl Malformed" "a' = a"
  | (refused) c e where "credentials_from_header h = Inr c" "res = Inl e"
      "a' = a \<or> a' = a\<lparr>da_nonces := hm_remove (cr_nonce c) (da_nonces a)\<rparr>"
  | (accepted) c rec rec' ha1 where "credentials_from_header h = Inr c" "res = Inr (cr_username c)"
      "hm_get (da_users a) (cr_username c) = Some ha1" "cr_response c = expected_response ha1 mth c"
      "hm_get (da_nonces a) (cr_nonce c) = Some rec" "now - nr_created_at rec \<le> da_nonce_ttl a"
      "use_nonce c fp rec = (Inr (), rec')"
      "a' = a\<lparr>da_nonces := hm_insert (cr_nonce c) rec' (da_nonces a)\<rparr>"
proof (cases "credentials_from_header h")
  case (Inl e)
  then show ?thesis using assms malformed by (simp add: verify_with_def)
next
  case c: (Inr c)
  show ?thesis
  proof (cases "hm_get (da_nonces a) (cr_nonce c)")
    case None
    then show ?thesis using assms refused c by (auto simp: verify_with_def Let_def)
  next
    case rec: (Some rec)
    show ?thesis
    proof (cases "da_nonce_ttl a < now - nr_created_at rec")
      case True
      then show ?thesis using assms refused c rec by (auto simp: verify_with_def Let_def)
    next
      case live: False
      show ?thesis
      proof (cases "hm_get (da_users a) (cr_username c)")
        case None
        then show ?thesis using assms refused c rec live by (auto simp: verify_with_def Let_def)
      next
        case ha1: (Some ha1)
        obtain u rec' where u: "use_nonce c fp rec = (u, rec')" by fastforce
        have v: "verify_with now h mth fp a =
            (if expected_response ha1 mth c \<noteq> cr_response c then (Inl (BadCredentials (cr_username c)), a)
             else case u of Inl e \<Rightarrow> (Inl e, a)
               | Inr _ \<Rightarrow> (Inr (cr_username c), a\<lparr>da_nonces := hm_insert (cr_nonce c) rec' (da_nonces a)\<rparr>))"
          using live by (simp add: verify_with_def Let_def c rec ha1 u)
        show ?thesis
        proof (cases "expected_response ha1 mth c = cr_response c \<and> u = Inr ()")
          case True
          then have "res = Inr (cr_username c)" "a' = a\<lparr>da_nonces := hm_insert (cr_nonce c) rec' (da_nonces a)\<rparr>"
            using assms v by simp_all
          then show ?thesis using accepted [OF c _ ha1 _ rec] True live u by simp
        next
          case False
          then obtain e where "res = Inl e" "a' = a" using assms v by (cases u) (auto split: if_splits)
          then show ?thesis using refused [OF c] by simp
        qed
      qed
    qed
  qed
qed

section \<open>An accepted authorization is not accepted again\<close>

text \<open>The nonce-count a header presents, when it asks for \<^verbatim>\<open>qop=auth\<close>.\<close>

definition presents :: "string \<Rightarrow> string \<Rightarrow> nat \<Rightarrow> bool" where
  "presents h nonce nc \<longleftrightarrow>
     (\<exists>c n. credentials_from_header h = Inr c \<and> cr_nonce c = nonce \<and> cr_qop c = Some ''auth'' \<and>
        cr_nc c = Some n \<and> parse_hex32 n = Some nc)"

text \<open>The table remembers that \<open>nc\<close> was consumed, by the request with this fingerprint.\<close>

definition consumed_at :: "string \<Rightarrow> nat \<Rightarrow> nat option \<Rightarrow> authenticator \<Rightarrow> bool" where
  "consumed_at nonce nc fp a \<longleftrightarrow>
     (case hm_get (da_nonces a) nonce of
        None \<Rightarrow> True
      | Some rec \<Rightarrow> nc < nr_last_nc rec \<or> nc = nr_last_nc rec \<and> nr_last_fingerprint rec = fp)"

lemma first_accept_consumes:
  assumes "verify_with now h mth fp a = (Inr user, a')" "presents h nonce nc"
  shows "consumed_at nonce nc fp a'"
  using assms(1)
proof (cases rule: verify_cases)
  case (accepted c rec rec' ha1)
  with assms(2) show ?thesis
    by (auto simp: presents_def consumed_at_def hm_simps use_nonce_def Let_def split: if_splits)
qed simp_all

lemma use_nonce_keeps_consumed:
  assumes "use_nonce c fp' rec = (Inr (), rec')"
    "nc < nr_last_nc rec \<or> nc = nr_last_nc rec \<and> nr_last_fingerprint rec = fp"
  shows "nc < nr_last_nc rec' \<or> nc = nr_last_nc rec' \<and> nr_last_fingerprint rec' = fp"
  using assms by (auto simp: use_nonce_def Let_def split: if_splits option.splits)

lemma step_keeps_consumed:
  assumes "consumed_at nonce nc fp a" "\<not> mints nonce op" "hm_ok (da_nonces a)"
  shows "consumed_at nonce nc fp (auth_step op a)"
proof (cases op)
  case (OpVerify now h mth fp')
  obtain res a' where v: "verify_with now h mth fp' a = (res, a')" by fastforce
  have "consumed_at nonce nc fp a'"
    using v
  proof (cases rule: verify_cases)
    case (refused c e)
    then show ?thesis using assms(1) by (auto simp: consumed_at_def hm_simps)
  next
    case (accepted c rec rec' ha1)
    then show ?thesis using assms(1) use_nonce_keeps_consumed
      by (fastforce simp: consumed_at_def hm_simps split: option.splits)
  qed (use assms(1) in simp)
  then show ?thesis by (simp add: OpVerify v)
next
  case (OpChallenge rnd now stale)
  have "hm_get (evict_nonces now ttl t) nonce \<in> {hm_get t nonce, None}" if "hm_ok t" for t ttl
    using that by (auto simp: evict_nonces_def Let_def hm_simps split: option.splits)
  from this [OF assms(3), of "da_nonce_ttl a"] show ?thesis
    using assms(1,2)
    by (auto simp: OpChallenge generate_challenge_with_def consumed_at_def hm_simps Let_def split: option.splits)
next
  case (OpCleanup now)
  then show ?thesis using assms(1,3)
    by (auto simp: cleanup_nonces_def consumed_at_def hm_simps Let_def split: option.splits)
next
  case (OpSetUsers m)
  then show ?thesis using assms(1) by (simp add: set_users_ha1_def consumed_at_def Let_def)
qed

section \<open>The nonce table is bounded\<close>

definition auth_ok :: "authenticator \<Rightarrow> bool" where
  "auth_ok a \<longleftrightarrow> hm_ok (da_nonces a) \<and> length (da_nonces a) \<le> MAX_NONCES"

lemma auth_ok_new: "auth_ok (authenticator_new realm users)"
  by (simp add: auth_ok_def authenticator_new_def)

lemma evict_nonces_bound: "hm_ok t \<Longrightarrow> hm_ok (evict_nonces now ttl t) \<and> length (evict_nonces now ttl t) < MAX_NONCES"
  by (auto simp: evict_nonces_def Let_def MAX_NONCES_def)

lemma auth_step_ok:
  assumes "auth_ok a"
  shows "auth_ok (auth_step op a)"
proof (cases op)
  case (OpVerify now h mth fp)
  obtain res a' where v: "verify_with now h mth fp a = (res, a')" by fastforce
  have "auth_ok a'"
    using v
  proof (cases rule: verify_cases)
    case (refused c e)
    then show ?thesis using assms by (auto simp: auth_ok_def hm_simps)
  next
    case (accepted c rec rec' ha1)
    then have "hm_contains (da_nonces a) (cr_nonce c)" by (simp add: hm_contains_def)
    then show ?thesis using accepted assms by (simp add: auth_ok_def hm_simps)
  qed (use assms in simp)
  then show ?thesis by (simp add: OpVerify v)
next
  case (OpChallenge rnd now stale)
  then show ?thesis
    using assms evict_nonces_bound [of "da_nonces a" now "da_nonce_ttl a"]
    by (auto simp: auth_ok_def generate_challenge_with_def Let_def length_hm_insert)
next
  case (OpCleanup now)
  then show ?thesis
    using assms length_hm_retain [of _ "da_nonces a"]
    by (fastforce simp: auth_ok_def cleanup_nonces_def Let_def intro: order_trans)
next
  case (OpSetUsers m)
  then show ?thesis using assms by (simp add: set_users_ha1_def auth_ok_def Let_def)
qed

lemma auth_run_ok: "auth_ok a \<Longrightarrow> auth_ok (auth_run ops a)"
  by (induction ops arbitrary: a) (simp_all add: auth_run_def auth_step_ok)

text \<open>
  Unauthenticated requests cannot fill the memory. After any sequence of challenges,
  verifications, clean-ups and user reloads on a new authenticator, at most \<^verbatim>\<open>MAX_NONCES\<close> nonces are
  outstanding, one record each.
\<close>

theorem nonces_bounded:
  "active_nonces (auth_run ops (authenticator_new realm users)) \<le> MAX_NONCES \<and>
   distinct (map fst (da_nonces (auth_run ops (authenticator_new realm users))))"
  using auth_run_ok [OF auth_ok_new, of ops realm users]
  by (simp add: auth_ok_def active_nonces_def hm_ok_def)

section \<open>Replays\<close>

lemma run_keeps_consumed:
  assumes "consumed_at nonce nc fp a" "auth_ok a" "\<And>op. op \<in> set ops \<Longrightarrow> \<not> mints nonce op"
  shows "consumed_at nonce nc fp (auth_run ops a)"
  using assms
proof (induction ops arbitrary: a)
  case (Cons op ops)
  then have "consumed_at nonce nc fp (auth_step op a)" by (intro step_keeps_consumed) (auto simp: auth_ok_def)
  then show ?case using Cons auth_step_ok by (simp add: auth_run_def)
qed (simp add: auth_run_def)

text \<open>
  C8: A captured Authorization cannot be used again. Once a request with \<^verbatim>\<open>qop=auth\<close> was accepted
  with some nonce and nonce-count, no request that presents the same nonce with that count or a
  smaller one is accepted later, at any time, for any method and user, after whatever other requests,
  challenges, clean-ups and reloads; unless it has the very fingerprint of the accepted request with
  that very count, the retransmission the code allows for. (No later challenge draws the same sixteen
  random octets.)
\<close>

theorem no_authorization_replay:
  assumes "verify_with now h mth fp (auth_run before (authenticator_new realm users)) = (Inr user, a1)"
    and "presents h nonce nc" and "presents h' nonce nc'" and "nc' \<le> nc"
    and "list_all (\<lambda>op. \<not> mints nonce op) ops"
    and "nc' < nc \<or> fp' = None \<or> fp' \<noteq> fp"
  shows "\<nexists>user'. fst (verify_with now' h' mth' fp' (auth_run ops a1)) = Inr user'"
proof
  assume "\<exists>user'. fst (verify_with now' h' mth' fp' (auth_run ops a1)) = Inr user'"
  then obtain user' a2 where v: "verify_with now' h' mth' fp' (auth_run ops a1) = (Inr user', a2)"
    by (metis prod.collapse)
  have "a1 = auth_step (OpVerify now h mth fp) (auth_run before (authenticator_new realm users))"
    using assms(1) by simp
  then have ok: "auth_ok a1" by (simp only: auth_step_ok [OF auth_run_ok [OF auth_ok_new]])
  have "consumed_at nonce nc fp (auth_run ops a1)"
    using first_accept_consumes [OF assms(1,2)] ok assms(5)
    by (intro run_keeps_consumed) (auto simp: list_all_iff)
  with v show False
  proof (cases rule: verify_cases)
    case (accepted c rec rec' ha1)
    with assms(3,4,6) \<open>consumed_at nonce nc fp (auth_run ops a1)\<close> show False
      by (auto simp: presents_def consumed_at_def use_nonce_def Let_def split: if_splits)
  qed simp_all
qed

section \<open>Headers, written and read\<close>

text \<open>Text that fits a quoted field.\<close>

definition fits :: "string \<Rightarrow> bool" where
  "fits v \<longleftrightarrow> v \<noteq> [] \<and> dquote \<notin> set v \<and> CHR '','' \<notin> set v"

lemma hex_digits_plain:
  "c \<in> digit_char ` {..<16} \<Longrightarrow> c \<noteq> dquote \<and> c \<noteq> CHR '','' \<and> \<not> is_space c"
proof -
  assume "c \<in> digit_char ` {..<16}"
  then have "48 \<le> (of_char c :: nat)" by (auto intro: digit_char_ge)
  then show ?thesis by (auto simp: is_space_def)
qed

lemma fits_hex: "set v \<subseteq> digit_char ` {..<16} \<Longrightarrow> v \<noteq> [] \<Longrightarrow> fits v"
  using hex_digits_plain by (fastforce simp: fits_def)

lemma fits_md5: "fits (md5_hex s)"
  using md5_shape by (intro fits_hex) (auto simp: md5_hex_def simp flip: length_0_conv)

lemma fits_nonce: "rnd \<noteq> [] \<Longrightarrow> fits (generate_nonce rnd)"
proof (rule fits_hex)
  show "set (generate_nonce rnd) \<subseteq> digit_char ` {..<16}"
    using set_hex_pad by (fastforce simp: generate_nonce_def)
  assume "rnd \<noteq> []"
  moreover have "hex_pad 2 (unat b) \<noteq> []" for b :: byte
    using length_hex_pad [of "unat b" 2] unat_byte_less [of b] by (auto simp flip: length_0_conv)
  ultimately show "generate_nonce rnd \<noteq> []" by (cases rnd) (simp_all add: generate_nonce_def)
qed

lemma trim_bare: "s \<noteq> [] \<Longrightarrow> \<not> is_space (hd s) \<Longrightarrow> \<not> is_space (last s) \<Longrightarrow> trim s = s"
proof -
  assume s: "s \<noteq> []" "\<not> is_space (hd s)" "\<not> is_space (last s)"
  then have "dropWhile is_space s = s" by (cases s) auto
  moreover have "dropWhile is_space (rev s) = rev s" using s by (cases "rev s") (auto simp: hd_rev [symmetric])
  ultimately show ?thesis by (simp add: trim_def trim_start_def trim_end_def)
qed

lemma trim_space: "trim (CHR '' '' # s) = trim s"
  by (simp add: trim_def trim_start_def is_space_def)

lemma dropWhile_absent: "c \<notin> set v \<Longrightarrow> dropWhile (\<lambda>x. x = c) v = v"
  by (cases v) auto

lemma trim_quotes: "fits v \<Longrightarrow> trim_matches dquote (dquote # v @ [dquote]) = v"
proof -
  assume v: "fits v"
  have "dropWhile (\<lambda>x. x = dquote) (v @ [dquote]) = v @ [dquote]"
    using v by (cases v) (auto simp: fits_def)
  moreover have "dropWhile (\<lambda>x. x = dquote) (rev v) = rev v"
    using v by (intro dropWhile_absent) (simp add: fits_def)
  ultimately show ?thesis by (simp add: trim_matches_def)
qed

lemma plain_key: "key \<noteq> [] \<Longrightarrow> list_all (\<lambda>c. \<not> is_space c) key \<Longrightarrow> trim key = key"
  by (intro trim_bare) (auto simp: list_all_iff)

definition key_ok :: "string \<Rightarrow> bool" where
  "key_ok key \<longleftrightarrow> key \<noteq> [] \<and> list_all (\<lambda>c. \<not> is_space c \<and> c \<noteq> CHR ''='' \<and> c \<noteq> CHR '','') key"

lemma split_at_equals: "key_ok key \<Longrightarrow> split_once CHR ''='' (key @ CHR ''='' # v) = Some (key, v)"
  by (rule split_once_word) (auto simp: key_ok_def list_all_iff)

lemma quoted_part: "key_ok key \<Longrightarrow> fits v \<Longrightarrow> digest_part (quoted key v) = Some (key, v)"
proof -
  assume k: "key_ok key" and v: "fits v"
  have "\<not> is_space dquote" by (simp add: is_space_def)
  then have "trim (quoted key v) = quoted key v"
    using k by (intro trim_bare) (auto simp: quoted_def key_ok_def list_all_iff hd_append)
  moreover have "trim (dquote # v @ [dquote]) = dquote # v @ [dquote]"
    using \<open>\<not> is_space dquote\<close> by (intro trim_bare) auto
  ultimately show ?thesis
    using k split_at_equals [OF k] plain_key [of key] trim_quotes [OF v]
    by (auto simp: digest_part_def quoted_def key_ok_def list_all_iff)
qed

lemma bare_part:
  assumes "key_ok key" "v \<noteq> []" "list_all (\<lambda>c. \<not> is_space c \<and> c \<noteq> dquote) v"
  shows "digest_part (key @ ''='' @ v) = Some (key, v)"
proof -
  have "trim (key @ ''='' @ v) = key @ ''='' @ v"
    using assms by (intro trim_bare) (auto simp: key_ok_def list_all_iff hd_append)
  moreover have "trim v = v" using assms by (intro plain_key) (auto simp: list_all_iff)
  moreover have "trim_matches dquote v = v"
  proof -
    have "dquote \<notin> set v" "dquote \<notin> set (rev v)" using assms(3) by (auto simp: list_all_iff)
    then show ?thesis by (simp add: trim_matches_def dropWhile_absent)
  qed
  ultimately show ?thesis
    using split_at_equals [OF assms(1)] plain_key [of key] assms(1)
    by (auto simp: digest_part_def key_ok_def list_all_iff)
qed

lemma digest_parts_join:
  "ps \<noteq> [] \<Longrightarrow> list_all (\<lambda>p. CHR '','' \<notin> set p) ps \<Longrightarrow>
   digest_parts (join_with '', '' ps) = List.map_filter digest_part ps"
proof (induction ps rule: induct_list012)
  case (2 x)
  then show ?case by (simp add: digest_parts_def split_on_word)
next
  case (3 x y ps)
  have sp: "digest_part (CHR '' '' # p) = digest_part p" for p by (simp add: digest_part_def trim_space)
  have first: "List.map_filter digest_part (split_on CHR '','' (CHR '' '' # s)) = digest_parts s" for s
    by (cases "split_on CHR '','' s") (simp_all add: digest_parts_def sp List.map_filter_def)
  have "split_on CHR '','' (x @ CHR '','' # CHR '' '' # join_with '', '' (y # ps)) =
      x # split_on CHR '','' (CHR '' '' # join_with '', '' (y # ps))"
    using 3(4) by (simp add: split_on_append split_on_word)
  then have "digest_parts (join_with '', '' (x # y # ps)) =
      List.map_filter digest_part [x] @ digest_parts (join_with '', '' (y # ps))"
    using first [of "join_with '', '' (y # ps)"] by (simp add: digest_parts_def List.map_filter_def)
  then show ?case using 3 by (simp add: List.map_filter_def)
qed simp

section \<open>A client that knows the password is let in\<close>

lemma trim_header: "ps \<noteq> [] \<Longrightarrow> last ps \<noteq> [] \<Longrightarrow> \<not> is_space (last (last ps)) \<Longrightarrow>
  trim (''Digest '' @ join_with '', '' ps) = ''Digest '' @ join_with '', '' ps"
proof -
  assume ps: "ps \<noteq> []" "last ps \<noteq> []" "\<not> is_space (last (last ps))"
  have "join_with '', '' ps \<noteq> [] \<and> last (join_with '', '' ps) = last (last ps)"
    using ps(1,2) by (induction ps rule: induct_list012) auto
  moreover have "\<not> is_space CHR ''D''" by (simp add: is_space_def)
  ultimately show ?thesis using ps(3) by (intro trim_bare) auto
qed

lemma literal_keys: "key_ok ''username''" "key_ok ''realm''" "key_ok ''nonce''" "key_ok ''uri''"
  "key_ok ''response''" "key_ok ''algorithm''" "key_ok ''qop''" "key_ok ''nc''" "key_ok ''cnonce''" "key_ok ''stale''"
  by (simp_all add: key_ok_def is_space_def)

lemma fits_auth: "fits ''auth''"
  by (simp add: fits_def)

lemma comma_free: "key_ok key \<Longrightarrow> fits v \<Longrightarrow> CHR '','' \<notin> set (quoted key v)"
  by (auto simp: quoted_def key_ok_def fits_def list_all_iff)

lemma bare_literals:
  "digest_part ''algorithm=MD5'' = Some (''algorithm'', ''MD5'')"
  "digest_part ''stale=true'' = Some (''stale'', ''true'')"
  "digest_part ''qop=auth'' = Some (''qop'', ''auth'')"
  "digest_part ''nc=00000001'' = Some (''nc'', ''00000001'')"
  using bare_part [OF literal_keys(6), of "''MD5''"] bare_part [OF literal_keys(10), of "''true''"]
    bare_part [OF literal_keys(7), of "''auth''"] bare_part [OF literal_keys(8), of "''00000001''"]
  by (simp_all add: is_space_def)

lemma challenge_read:
  assumes "fits (da_realm a)" "rnd \<noteq> []"
  shows "challenge_from_header (fst (generate_challenge_with rnd now stale a)) =
    Inr \<lparr>dc_realm = da_realm a, dc_nonce = generate_nonce rnd, dc_algorithm = ''MD5'', dc_qop = Some ''auth'',
         dc_opaque = None\<rparr>"
proof -
  note n = fits_nonce [OF assms(2)]
  define ps where "ps = [quoted ''realm'' (da_realm a), quoted ''nonce'' (generate_nonce rnd),
    ''algorithm=MD5'', quoted ''qop'' ''auth''] @ (if stale then [''stale=true''] else [])"
  have h: "fst (generate_challenge_with rnd now stale a) = ''Digest '' @ join_with '', '' ps"
    by (simp add: generate_challenge_with_def ps_def Let_def)
  have "trim (''Digest '' @ join_with '', '' ps) = ''Digest '' @ join_with '', '' ps"
    by (rule trim_header) (auto simp: ps_def quoted_def is_space_def)
  moreover have "digest_parts (join_with '', '' ps) = List.map_filter digest_part ps"
    using comma_free [OF literal_keys(2) assms(1)] comma_free [OF literal_keys(3) n]
      comma_free [OF literal_keys(7) fits_auth]
    by (intro digest_parts_join) (auto simp: ps_def)
  moreover have "List.map_filter digest_part ps = [(''realm'', da_realm a), (''nonce'', generate_nonce rnd),
      (''algorithm'', ''MD5''), (''qop'', ''auth'')] @ (if stale then [(''stale'', ''true'')] else [])"
    using quoted_part [OF literal_keys(2) assms(1)] quoted_part [OF literal_keys(3) n]
      quoted_part [OF literal_keys(7) fits_auth] bare_literals
    by (auto simp: ps_def List.map_filter_def)
  ultimately show ?thesis
    using assms(1) n unfolding h challenge_from_header_def
    by (auto simp: set_challenge_field_def fits_def Let_def)
qed

lemma response_read:
  assumes "fits user" "fits realm" "fits nonce" "fits uri" "fits cnonce"
  defines "c \<equiv> \<lparr>dc_realm = realm, dc_nonce = nonce, dc_algorithm = ''MD5'', dc_qop = Some ''auth'', dc_opaque = None\<rparr>"
  shows "credentials_from_header (generate_digest_response cnonce user password c mth uri) =
    Inr \<lparr>cr_username = user, cr_realm = realm, cr_nonce = nonce, cr_uri = uri,
         cr_response = compute_response_auth (compute_ha1 user realm password) nonce ''00000001'' cnonce
           (compute_ha2 mth uri),
         cr_algorithm = ''MD5'', cr_qop = Some ''auth'', cr_nc = Some ''00000001'', cr_cnonce = Some cnonce\<rparr>"
proof -
  define resp where "resp = compute_response_auth (compute_ha1 user realm password) nonce ''00000001'' cnonce
    (compute_ha2 mth uri)"
  have r: "fits resp" by (simp add: resp_def compute_response_auth_def fits_md5)
  have q: "contains ''auth'' ''auth''" by (simp add: contains_def starts_with_def)
  define ps where "ps = [quoted ''username'' user, quoted ''realm'' realm, quoted ''nonce'' nonce,
    quoted ''uri'' uri, quoted ''response'' resp, ''algorithm=MD5'', ''qop=auth'', ''nc=00000001'',
    quoted ''cnonce'' cnonce]"
  have h: "generate_digest_response cnonce user password c mth uri = ''Digest '' @ join_with '', '' ps"
    by (simp add: generate_digest_response_def c_def q ps_def resp_def Let_def)
  have "trim (''Digest '' @ join_with '', '' ps) = ''Digest '' @ join_with '', '' ps"
    by (rule trim_header) (auto simp: ps_def quoted_def is_space_def)
  moreover have "digest_parts (join_with '', '' ps) = List.map_filter digest_part ps"
    using comma_free [OF literal_keys(1) assms(1)] comma_free [OF literal_keys(2) assms(2)]
      comma_free [OF literal_keys(3) assms(3)] comma_free [OF literal_keys(4) assms(4)]
      comma_free [OF literal_keys(5) r] comma_free [OF literal_keys(9) assms(5)]
    by (intro digest_parts_join) (auto simp: ps_def)
  moreover have "List.map_filter digest_part ps = [(''username'', user), (''realm'', realm), (''nonce'', nonce),
      (''uri'', uri), (''response'', resp), (''algorithm'', ''MD5''), (''qop'', ''auth''), (''nc'', ''00000001''),
      (''cnonce'', cnonce)]"
    using quoted_part [OF literal_keys(1) assms(1)] quoted_part [OF literal_keys(2) assms(2)]
      quoted_part [OF literal_keys(3) assms(3)] quoted_part [OF literal_keys(4) assms(4)]
      quoted_part [OF literal_keys(5) r] quoted_part [OF literal_keys(9) assms(5)] bare_literals
    by (simp add: ps_def List.map_filter_def)
  ultimately show ?thesis
    using assms(1-5) r unfolding h credentials_from_header_def
    by (simp add: set_credential_def fits_def Let_def resp_def)
qed

lemma nc_one: "parse_hex32 ''00000001'' = Some 1"
  by (simp add: parse_hex32_def trim_def trim_start_def trim_end_def is_space_def is_digit_of_def
      digit_value_def digits_value_def u32_max_def Let_def)

lemma answer_accepted:
  assumes "fits (da_realm a)" "fits user" "fits uri" "fits cnonce" "rnd \<noteq> []"
    "hm_get (da_users a) user = Some (compute_ha1 user (da_realm a) password)" "now' - now \<le> da_nonce_ttl a"
  shows "fst (verify_with now' (generate_digest_response cnonce user password
      \<lparr>dc_realm = da_realm a, dc_nonce = generate_nonce rnd, dc_algorithm = ''MD5'', dc_qop = Some ''auth'',
       dc_opaque = None\<rparr> mth uri) mth fp (snd (generate_challenge_with rnd now stale a))) = Inr user"
  using assms(6,7) response_read [OF assms(2,1) fits_nonce [OF assms(5)] assms(3,4), of password mth]
  by (simp add: verify_with_def generate_challenge_with_def hm_simps expected_response_def use_nonce_def
      nc_one Let_def)

text \<open>
  C31: A client that knows the password is let in, and under its own name. The answer that the client
  side of this module computes for the challenge its server side issued is read back and accepted, for
  every user in the table, every method and request URI, and with or without the stale flag, within the
  life of the nonce; for names that fit a quoted header field.
\<close>

theorem digest_round_trip:
  assumes "fits (da_realm a)" and "fits user" and "fits uri" and "fits cnonce" and "rnd \<noteq> []"
    and "hm_get (da_users a) user = Some (compute_ha1 user (da_realm a) password)"
    and "now' - now \<le> da_nonce_ttl a"
  shows "\<exists>c. challenge_from_header (fst (generate_challenge_with rnd now stale a)) = Inr c \<and>
    fst (verify_with now' (generate_digest_response cnonce user password c mth uri) mth fp
           (snd (generate_challenge_with rnd now stale a))) = Inr user"
  using challenge_read [OF assms(1,5)] answer_accepted [OF assms] by blast

theorem digest_round_trip_witness:
  "let a = authenticator_new ''example.com'' [(''alice'', ''secret123'')];
       (challenge, a1) = generate_challenge_with [1, 2, 3, 4, 5, 6, 7, 8, 9, 10, 11, 12, 13, 14, 15, 16] 1000 False a
   in \<exists>c. challenge_from_header challenge = Inr c \<and>
        fst (verify_with 1030 (generate_digest_response ''0a4f113b'' ''alice'' ''secret123'' c ''INVITE'' ''sip:bob'')
               ''INVITE'' (Some 7) a1) = Inr ''alice''"
proof -
  let ?a = "authenticator_new ''example.com'' [(''alice'', ''secret123'')]"
  have "fits (da_realm ?a)" "fits ''alice''" "fits ''sip:bob''" "fits ''0a4f113b''"
    "hm_get (da_users ?a) ''alice'' = Some (compute_ha1 ''alice'' (da_realm ?a) ''secret123'')"
    "1030 - 1000 \<le> da_nonce_ttl ?a"
    by (simp_all add: fits_def authenticator_new_def build_ha1_map_def)
  from digest_round_trip [OF this(1-4) _ this(5,6), of "[1, 2, 3, 4, 5, 6, 7, 8, 9, 10, 11, 12, 13, 14, 15, 16]" False]
  show ?thesis by (simp add: case_prod_beta)
qed

theorem no_authorization_replay_witness:
  "let a = authenticator_new ''example.com'' [(''alice'', ''secret123'')];
       a0 = auth_run [OpChallenge [1, 2, 3, 4] 1000 False] a;
       h = generate_digest_response ''0a4f113b'' ''alice'' ''secret123''
             \<lparr>dc_realm = ''example.com'', dc_nonce = generate_nonce [1, 2, 3, 4], dc_algorithm = ''MD5'',
              dc_qop = Some ''auth'', dc_opaque = None\<rparr> ''INVITE'' ''sip:bob'';
       (res, a1) = verify_with 1001 h ''INVITE'' (Some 7) a0
   in res = Inr ''alice'' \<and>
      (\<nexists>user'. fst (verify_with 1002 h ''INVITE'' (Some 8) (auth_run [OpCleanup 1002] a1)) = Inr user')"
proof -
  let ?a = "authenticator_new ''example.com'' [(''alice'', ''secret123'')]"
  let ?c = "\<lparr>dc_realm = ''example.com'', dc_nonce = generate_nonce [1, 2, 3, 4], dc_algorithm = ''MD5'',
    dc_qop = Some ''auth'', dc_opaque = None\<rparr>"
  define h where "h = generate_digest_response ''0a4f113b'' ''alice'' ''secret123'' ?c ''INVITE'' ''sip:bob''"
  have ok: "fits (da_realm ?a)" "fits ''alice''" "fits ''sip:bob''" "fits ''0a4f113b''"
    "hm_get (da_users ?a) ''alice'' = Some (compute_ha1 ''alice'' (da_realm ?a) ''secret123'')"
    "1001 - 1000 \<le> da_nonce_ttl ?a" "da_realm ?a = ''example.com''"
    by (simp_all add: fits_def authenticator_new_def build_ha1_map_def)
  define a0 where "a0 = auth_run [OpChallenge [1, 2, 3, 4] 1000 False] ?a"
  have "fst (verify_with 1001 h ''INVITE'' (Some 7) a0) = Inr ''alice''"
    using answer_accepted [OF ok(1-4) _ ok(5,6), of "[1, 2, 3, 4]" "''INVITE''" "Some 7" False] ok(7)
    by (simp add: h_def a0_def auth_run_def)
  then obtain a1 where v: "verify_with 1001 h ''INVITE'' (Some 7) a0 = (Inr ''alice'', a1)"
    by (metis prod.collapse)
  have p: "presents h (generate_nonce [1, 2, 3, 4]) 1"
    using response_read [OF ok(2) ok(1) [unfolded ok(7)] fits_nonce ok(3,4), of "[1, 2, 3, 4]" "''secret123''" "''INVITE''"] nc_one
    by (auto simp: presents_def h_def)
  from no_authorization_replay [OF v [unfolded a0_def] p p, of "[OpCleanup 1002]" "Some 8" 1002 "''INVITE''"]
  show ?thesis using v by (simp add: h_def a0_def)
qed

end
