(* ===== verification/Identity.thy ===== *)
theory Identity
  imports Net
begin

text \<open>
  Who may claim which identity, from \<^verbatim>\<open>crates/sbc-core/src/sbc/mod.rs\<close>: the parts of a SIP URI as
  the identity checks read them, and whether an authenticated user may act for an
  address of record.
\<close>

record identity_policy =
  ip_enforce_register_aor :: bool
  ip_served_domains :: "string list"
  ip_reject_trunk_local_from :: bool

definition identity_policy_default :: identity_policy where
  "identity_policy_default =
     \<lparr>ip_enforce_register_aor = True, ip_served_domains = [], ip_reject_trunk_local_from = False\<rparr>"

text \<open>\<^verbatim>\<open>IdentityPolicy::from_config\<close>, on \<^verbatim>\<open>register_aor_check\<close>, \<^verbatim>\<open>served_domains\<close> and \<^verbatim>\<open>trunk_local_from\<close>.\<close>

definition identity_from_config :: "string \<Rightarrow> string list \<Rightarrow> string \<Rightarrow> identity_policy" where
  "identity_from_config register_aor_check served trunk_local_from =
     \<lparr>ip_enforce_register_aor = (\<not> eq_ignore_ascii_case register_aor_check ''log''),
      ip_served_domains = filter (\<lambda>d. d \<noteq> []) (map (\<lambda>d. to_ascii_lowercase (trim d)) served),
      ip_reject_trunk_local_from = eq_ignore_ascii_case trunk_local_from ''reject''\<rparr>"

datatype aor_rejection = WrongUser string | WrongDomain string

fun rejection_text :: "aor_rejection \<Rightarrow> string" where
  "rejection_text (WrongUser u) = ''AOR belongs to '' @ [CHR 0x27] @ u @ [CHR 0x27]"
| "rejection_text (WrongDomain d) = ''domain '' @ [CHR 0x27] @ d @ [CHR 0x27] @ '' is not served here''"

definition addr_spec :: "string \<Rightarrow> string" where
  "addr_spec value =
     (let s = trim value in
      case (rfind_char CHR ''<'' s, rfind_char CHR ''>'' s) of
        (Some a, Some b) \<Rightarrow>
          if a < b then trim (str_slice (a + 1) b s) else trim (takeWhile (\<lambda>c. c \<noteq> CHR '';'') s)
      | _ \<Rightarrow> trim (takeWhile (\<lambda>c. c \<noteq> CHR '';'') s))"

definition without_scheme :: "string \<Rightarrow> string" where
  "without_scheme s =
     (case strip_prefix ''sips:'' s of
        Some r \<Rightarrow> r
      | None \<Rightarrow> (case strip_prefix ''sip:'' s of Some r \<Rightarrow> r | None \<Rightarrow> s))"

definition uri_user :: "string \<Rightarrow> string option" where
  "uri_user uri =
     (case split_once CHR ''@'' (without_scheme (addr_spec uri)) of
        None \<Rightarrow> None
      | Some (user, _) \<Rightarrow>
          let user = trim (takeWhile (\<lambda>c. c \<noteq> CHR '';'') user)
          in if user = [] then None else Some user)"

definition uri_host :: "string \<Rightarrow> string option" where
  "uri_host uri =
     (let s = without_scheme (addr_spec uri);
          host_port = (case split_once CHR ''@'' s of Some (_, h) \<Rightarrow> h | None \<Rightarrow> s);
          host_port = trim (takeWhile (\<lambda>c. c \<notin> set '';>?'') host_port);
          host = (case strip_prefix ''['' host_port of
                    Some rest \<Rightarrow> takeWhile (\<lambda>c. c \<noteq> CHR '']'') rest
                  | None \<Rightarrow> (case rsplit_once CHR '':'' host_port of
                               Some (h, _) \<Rightarrow> h
                             | None \<Rightarrow> host_port))
      in if host = [] then None else Some (to_ascii_lowercase host))"

definition or_default :: "string option \<Rightarrow> string" where
  "or_default x = (case x of Some s \<Rightarrow> s | None \<Rightarrow> [])"

definition authorize_aor :: "string \<Rightarrow> string \<Rightarrow> string list \<Rightarrow> aor_rejection + unit" where
  "authorize_aor auth_user aor served =
     (let user = or_default (uri_user aor) in
      if user \<noteq> auth_user then Inl (WrongUser user)
      else if served \<noteq> [] then
        let host = or_default (uri_host aor)
        in if list_ex (\<lambda>d. eq_ignore_ascii_case d host) served then Inr () else Inl (WrongDomain host)
      else Inr ())"

text \<open>\<^verbatim>\<open>served_domains\<close>, on the digest realm, the identity's domain and address and the policy.\<close>

definition push_domain :: "string \<Rightarrow> string list \<Rightarrow> string list" where
  "push_domain d out =
     (let d = to_ascii_lowercase (trim d) in if d \<noteq> [] \<and> d \<notin> set out then out @ [d] else out)"

definition served_domains :: "string option \<Rightarrow> (string \<times> string) option \<Rightarrow> identity_policy \<Rightarrow> string list" where
  "served_domains realm sbc_identity policy =
     fold push_domain
       ((case realm of Some r \<Rightarrow> [r] | None \<Rightarrow> []) @
        (case sbc_identity of Some (sip_domain, public_ip) \<Rightarrow> [sip_domain, public_ip] | None \<Rightarrow> []) @
        [''127.0.0.1'', ''localhost''] @ ip_served_domains policy) []"

lemma authorize_aor_user: "authorize_aor user aor served = Inr () \<Longrightarrow> or_default (uri_user aor) = user"
  by (auto simp: authorize_aor_def Let_def split: if_splits)

lemma authorize_aor_cases:
  "authorize_aor user aor served =
     (if or_default (uri_user aor) \<noteq> user then Inl (WrongUser (or_default (uri_user aor)))
      else if served = [] \<or> list_ex (\<lambda>d. eq_ignore_ascii_case d (or_default (uri_host aor))) served
      then Inr () else Inl (WrongDomain (or_default (uri_host aor))))"
  by (auto simp: authorize_aor_def Let_def)

lemma loopback_served: "''localhost'' \<in> set (served_domains realm ident policy)"
proof -
  have keep: "x \<in> set out \<Longrightarrow> x \<in> set (fold push_domain ds out)" for x ds out
    by (induction ds arbitrary: out) (auto simp: push_domain_def Let_def)
  have here: "''localhost'' \<in> set (push_domain ''localhost'' out)" for out
  proof -
    have "to_ascii_lowercase (trim ''localhost'') = ''localhost''" by code_simp
    then show ?thesis by (simp add: push_domain_def Let_def)
  qed
  show ?thesis by (simp add: served_domains_def keep here)
qed

end
