(* ===== verification/Registrar.thy ===== *)
theory Registrar
  imports Identity "HOL-Library.Product_Lexorder"
begin

text \<open>
  The registrar of \<^verbatim>\<open>crates/sbc-core/src/register.rs\<close>: bindings and tombstones
  (\<^verbatim>\<open>InMemoryRegistrar\<close>), the Contact parser and the REGISTER handler, which works on any backend
  of the trait \<^verbatim>\<open>Registrar\<close>: a record of operations here, with its contract as a locale. The wall
  clock is read once per operation, in milliseconds; a reply channel is an opaque number.
\<close>

section \<open>Policy and data\<close>

record register_policy =
  rp_min_expires :: nat
  rp_max_expires :: nat
  rp_default_expires :: nat

definition register_policy_default :: register_policy where
  "register_policy_default = \<lparr>rp_min_expires = 60, rp_max_expires = 3600, rp_default_expires = 3600\<rparr>"

text \<open>\<^verbatim>\<open>RegisterPolicy::from_config\<close>, on the three configured intervals.\<close>

definition policy_from_config :: "nat \<Rightarrow> nat \<Rightarrow> nat \<Rightarrow> register_policy" where
  "policy_from_config cfg_min cfg_max cfg_default =
     (let lo = max cfg_min 1; hi = max cfg_max lo
      in \<lparr>rp_min_expires = lo, rp_max_expires = hi, rp_default_expires = min (max cfg_default lo) hi\<rparr>)"

record registration =
  rg_aor :: string
  rg_contact :: string
  rg_expires :: nat
  rg_registered_at :: nat
  rg_registered_at_ms :: nat
  rg_expires_at :: nat
  rg_call_id :: string
  rg_cseq :: nat
  rg_user_agent :: "string option"
  rg_received_ip :: string
  rg_received_port :: nat
  rg_transport :: string
  rg_reply_tx :: "nat option"
  rg_instance_id :: "string option"
  rg_reg_id :: "nat option"

definition MAX_BINDINGS_PER_AOR :: nat where "MAX_BINDINGS_PER_AOR = 10"
definition MAX_CONTACTS_PER_REQUEST :: nat where "MAX_CONTACTS_PER_REQUEST = 10"
definition MAX_BINDINGS_TOTAL :: nat where "MAX_BINDINGS_TOTAL = 5000"
definition TOMBSTONE_TTL_MS :: nat where "TOMBSTONE_TTL_MS = 64000"
definition MAX_TOMBSTONES :: nat where "MAX_TOMBSTONES = 4096"

definition unix_now :: "nat \<Rightarrow> nat" where "unix_now now_ms = now_ms div 1000"

section \<open>Addresses of record\<close>

definition canonical_aor :: "string \<Rightarrow> string" where
  "canonical_aor raw =
     (let s = trim raw;
          inner = (case (find_char CHR ''<'' s, rfind_char CHR ''>'' s) of
                     (Some start, Some end_at) \<Rightarrow>
                       if start < end_at then trim (str_slice (start + 1) end_at s) else s
                   | _ \<Rightarrow> s);
          inner = trim_end_matches CHR ''>''
                    (trim (takeWhile (\<lambda>c. c \<noteq> CHR '';'' \<and> c \<noteq> CHR ''?'') inner));
          (scheme, rest) =
            (case split_once CHR '':'' inner of
               Some (scheme, rest) \<Rightarrow>
                 if eq_ignore_ascii_case scheme ''sip'' \<or> eq_ignore_ascii_case scheme ''sips''
                 then (to_ascii_lowercase scheme @ '':'', rest) else ([], inner)
             | None \<Rightarrow> ([], inner));
          (user, host) = (case rsplit_once CHR ''@'' rest of
                            Some (user, host) \<Rightarrow> (user @ ''@'', host)
                          | None \<Rightarrow> ([], rest));
          host = (case rsplit_once CHR '':'' host of
                    Some (h, port) \<Rightarrow> if h \<noteq> [] \<and> list_all is_ascii_digit port then h else host
                  | None \<Rightarrow> host)
      in scheme @ user @ to_ascii_lowercase host)"

definition binding_key :: "string \<Rightarrow> string option \<Rightarrow> nat option \<Rightarrow> string" where
  "binding_key contact instance_id reg_id =
     (case instance_id of
        Some i \<Rightarrow> ''instance:'' @ i @ '':'' @ show_nat (case reg_id of Some r \<Rightarrow> r | None \<Rightarrow> 0)
      | None \<Rightarrow> ''contact:'' @ contact)"

definition registration_new ::
  "nat \<Rightarrow> string \<Rightarrow> string \<Rightarrow> nat \<Rightarrow> string \<Rightarrow> nat \<Rightarrow> socket_addr \<Rightarrow> string \<Rightarrow> registration"
where
  "registration_new now_ms aor contact expires call_id cseq received transport =
     \<lparr>rg_aor = aor, rg_contact = contact, rg_expires = expires, rg_registered_at = unix_now now_ms,
      rg_registered_at_ms = now_ms, rg_expires_at = unix_now now_ms + expires, rg_call_id = call_id,
      rg_cseq = cseq, rg_user_agent = None, rg_received_ip = ip_to_string (fst received),
      rg_received_port = snd received, rg_transport = to_ascii_uppercase transport,
      rg_reply_tx = None, rg_instance_id = None, rg_reg_id = None\<rparr>"

definition registration_key :: "registration \<Rightarrow> string" where
  "registration_key r = binding_key (rg_contact r) (rg_instance_id r) (rg_reg_id r)"

definition is_valid :: "nat \<Rightarrow> registration \<Rightarrow> bool" where
  "is_valid now_ms r \<longleftrightarrow> unix_now now_ms < rg_expires_at r"

definition remaining_secs :: "nat \<Rightarrow> registration \<Rightarrow> nat" where
  "remaining_secs now_ms r = rg_expires_at r - unix_now now_ms"

definition refresh_from :: "registration \<Rightarrow> registration \<Rightarrow> registration" where
  "refresh_from fresh r =
     r\<lparr>rg_contact := rg_contact fresh, rg_expires := rg_expires fresh,
       rg_registered_at := rg_registered_at fresh, rg_registered_at_ms := rg_registered_at_ms fresh,
       rg_expires_at := rg_expires_at fresh, rg_call_id := rg_call_id fresh, rg_cseq := rg_cseq fresh,
       rg_received_ip := rg_received_ip fresh, rg_received_port := rg_received_port fresh,
       rg_transport := rg_transport fresh,
       rg_user_agent := (if rg_user_agent fresh \<noteq> None then rg_user_agent fresh else rg_user_agent r),
       rg_reply_tx := (if rg_reply_tx fresh \<noteq> None then rg_reply_tx fresh else rg_reply_tx r),
       rg_instance_id := rg_instance_id fresh, rg_reg_id := rg_reg_id fresh\<rparr>"

section \<open>The backend in memory\<close>

type_synonym reg_key = "string \<times> string"
type_synonym tombstone = "string \<times> nat \<times> nat"
type_synonym dialog = "string \<times> nat"

record registrar =
  rr_regs :: "(reg_key, registration) hmap"
  rr_tombstones :: "(reg_key, tombstone) hmap"

definition registrar_new :: registrar where
  "registrar_new = \<lparr>rr_regs = [], rr_tombstones = []\<rparr>"

definition fresh_tombstone :: "nat \<Rightarrow> tombstone \<Rightarrow> bool" where
  "fresh_tombstone now_ms t \<longleftrightarrow> now_ms - snd (snd t) < TOMBSTONE_TTL_MS"

definition entomb :: "nat \<Rightarrow> reg_key \<Rightarrow> dialog option \<Rightarrow> registrar \<Rightarrow> registrar" where
  "entomb now_ms key dlg s =
     (case dlg of
        None \<Rightarrow> s
      | Some (call_id, cseq) \<Rightarrow>
          let tombs = (if MAX_TOMBSTONES \<le> length (rr_tombstones s)
                       then hm_retain (\<lambda>_. fresh_tombstone now_ms) (rr_tombstones s)
                       else rr_tombstones s)
          in if MAX_TOMBSTONES \<le> length tombs then s\<lparr>rr_tombstones := tombs\<rparr>
             else s\<lparr>rr_tombstones := hm_insert key (call_id, cseq, now_ms) tombs\<rparr>)"

definition registration_age :: "reg_key \<times> registration \<Rightarrow> nat \<times> nat" where
  "registration_age e = (rg_registered_at_ms (snd e), rg_expires_at (snd e))"

lemma remove_oldest_shorter:
  "min_by_key registration_age m = Some e \<Longrightarrow> length (hm_remove (fst e) m) < length m"
  using min_by_key_Some [of registration_age m e]
  by (auto simp: hm_remove_def AList.delete_eq intro!: length_filter_less)

function evict_oldest_while ::
  "((reg_key, registration) hmap \<Rightarrow> bool) \<Rightarrow> (reg_key, registration) hmap \<Rightarrow> (reg_key, registration) hmap"
where
  "evict_oldest_while full m =
     (if full m then
        case min_by_key registration_age m of
          None \<Rightarrow> m
        | Some e \<Rightarrow> evict_oldest_while full (hm_remove (fst e) m)
      else m)"
  by pat_completeness auto
termination
  by (relation "measure (\<lambda>(_, m). length m)") (simp_all add: remove_oldest_shorter)

declare evict_oldest_while.simps [simp del]

definition aor_count :: "string \<Rightarrow> (reg_key, registration) hmap \<Rightarrow> nat" where
  "aor_count aor m = length (filter (\<lambda>e. fst (fst e) = aor) m)"

definition register :: "registration \<Rightarrow> registrar \<Rightarrow> registration \<times> registrar" where
  "register reg s =
     (let key = (rg_aor reg, registration_key reg) in
      case hm_get (rr_regs s) key of
        Some existing \<Rightarrow>
          if rg_call_id existing = rg_call_id reg \<and> rg_cseq reg \<le> rg_cseq existing then (existing, s)
          else (refresh_from reg existing,
                s\<lparr>rr_regs := hm_insert key (refresh_from reg existing) (rr_regs s)\<rparr>)
      | None \<Rightarrow>
          let m1 = evict_oldest_while (\<lambda>m. MAX_BINDINGS_PER_AOR \<le> aor_count (rg_aor reg) m) (rr_regs s);
              m2 = evict_oldest_while (\<lambda>m. MAX_BINDINGS_TOTAL \<le> length m) m1
          in (reg, s\<lparr>rr_regs := hm_insert key reg m2\<rparr>))"

definition unregister_binding ::
  "nat \<Rightarrow> string \<Rightarrow> string \<Rightarrow> dialog option \<Rightarrow> registrar \<Rightarrow> registration option \<times> registrar"
where
  "unregister_binding now_ms aor key dlg s =
     (case hm_get (rr_regs s) (aor, key) of
        None \<Rightarrow> (None, s)
      | Some existing \<Rightarrow>
          if (case dlg of
                Some (cid, cseq) \<Rightarrow>
                  if rg_call_id existing = cid then cseq \<le> rg_cseq existing
                  else now_ms - rg_registered_at_ms existing < 500
              | None \<Rightarrow> False)
          then (None, s)
          else (Some existing,
                entomb now_ms (aor, key) dlg (s\<lparr>rr_regs := hm_remove (aor, key) (rr_regs s)\<rparr>)))"

definition unregister_all :: "nat \<Rightarrow> string \<Rightarrow> dialog option \<Rightarrow> registrar \<Rightarrow> registration list \<times> registrar" where
  "unregister_all now_ms aor dlg s =
     (let doomed = filter (\<lambda>(k, reg). fst k = aor \<and>
                      (case dlg of
                         Some (cid, cseq) \<Rightarrow> \<not> (rg_call_id reg = cid \<and> cseq \<le> rg_cseq reg)
                       | None \<Rightarrow> True)) (rr_regs s);
          s1 = s\<lparr>rr_regs := fold hm_remove (map fst doomed) (rr_regs s)\<rparr>
      in (map snd doomed, fold (\<lambda>k. entomb now_ms k dlg) (map fst doomed) s1))"

definition lookup :: "nat \<Rightarrow> string \<Rightarrow> registrar \<Rightarrow> registration list" where
  "lookup now_ms aor s =
     map snd (filter (\<lambda>(k, r). fst k = aor \<and> unix_now now_ms < rg_expires_at r) (rr_regs s))"

definition is_out_of_order :: "nat \<Rightarrow> string \<Rightarrow> string \<Rightarrow> string \<Rightarrow> nat \<Rightarrow> registrar \<Rightarrow> bool" where
  "is_out_of_order now_ms aor key call_id cseq s =
     (case hm_get (rr_regs s) (aor, key) of
        Some existing \<Rightarrow> rg_call_id existing = call_id \<and> cseq \<le> rg_cseq existing
      | None \<Rightarrow>
          (case hm_get (rr_tombstones s) (aor, key) of
             Some (cid, newest, at) \<Rightarrow>
               now_ms - at < TOMBSTONE_TTL_MS \<and> cid = call_id \<and> cseq \<le> newest
           | None \<Rightarrow> False))"

definition cleanup_expired :: "nat \<Rightarrow> registrar \<Rightarrow> registration list \<times> registrar" where
  "cleanup_expired now_ms s =
     (let gone = filter (\<lambda>(_, r). rg_expires_at r \<le> unix_now now_ms) (rr_regs s)
      in (map snd gone,
          s\<lparr>rr_regs := fold hm_remove (map fst gone) (rr_regs s),
            rr_tombstones := hm_retain (\<lambda>_. fresh_tombstone now_ms) (rr_tombstones s)\<rparr>))"

definition registration_count :: "nat \<Rightarrow> registrar \<Rightarrow> nat" where
  "registration_count now_ms s =
     length (filter (\<lambda>(_, r). unix_now now_ms < rg_expires_at r) (rr_regs s))"

definition all_registrations :: "nat \<Rightarrow> registrar \<Rightarrow> registration list" where
  "all_registrations now_ms s =
     map snd (filter (\<lambda>(_, r). unix_now now_ms < rg_expires_at r) (rr_regs s))"

definition registered_users :: "nat \<Rightarrow> string \<Rightarrow> registrar \<Rightarrow> string list \<times> string list" where
  "registered_users now_ms source_ip s =
     (let valid = all_registrations now_ms s in
      (List.map_filter (\<lambda>r. if rg_received_ip r = source_ip then uri_user (rg_aor r) else None) valid,
       List.map_filter (\<lambda>r. uri_user (rg_aor r)) valid))"

section \<open>Contacts\<close>

record contact_binding =
  cb_uri :: string
  cb_expires :: "nat option"
  cb_instance_id :: "string option"
  cb_reg_id :: "nat option"

text \<open>One character of \<^verbatim>\<open>split_contacts\<close>: the finished pieces, the current one, inside quotes, bracket depth.\<close>

fun split_contacts_step ::
  "char \<Rightarrow> string list \<times> string \<times> bool \<times> int \<Rightarrow> string list \<times> string \<times> bool \<times> int"
where
  "split_contacts_step c (out, cur, quoted, depth) =
     (if c = dquote then (out, cur @ [c], \<not> quoted, depth)
      else if c = CHR ''<'' \<and> \<not> quoted then (out, cur @ [c], quoted, depth + 1)
      else if c = CHR ''>'' \<and> \<not> quoted then (out, cur @ [c], quoted, depth - 1)
      else if c = CHR '','' \<and> \<not> quoted \<and> depth \<le> 0 then (out @ [cur], [], quoted, depth)
      else (out, cur @ [c], quoted, depth))"

definition split_contacts :: "string \<Rightarrow> string list" where
  "split_contacts value =
     (let (out, cur, _, _) = fold split_contacts_step value ([], [], False, 0)
      in filter (\<lambda>s. s \<noteq> []) (map trim (out @ [cur])))"

definition contact_uri_params :: "string \<Rightarrow> string + string \<times> string list" where
  "contact_uri_params item =
     (case find_char CHR ''<'' item of
        Some a \<Rightarrow>
          (case find_char CHR ''>'' (drop a item) of
             Some off \<Rightarrow>
               Inr (trim (str_slice (a + 1) (a + off) item),
                    map trim (tl (split_on CHR '';'' (drop (a + off + 1) item))))
           | None \<Rightarrow> Inl (''unbalanced angle brackets in Contact '' @ [CHR 0x27] @ item @ [CHR 0x27]))
      | None \<Rightarrow>
          if CHR ''>'' \<in> set item
          then Inl (''unbalanced angle brackets in Contact '' @ [CHR 0x27] @ item @ [CHR 0x27])
          else let parts = split_on CHR '';'' item in Inr (trim (hd parts), map trim (tl parts)))"

definition contact_param :: "string \<Rightarrow> contact_binding \<Rightarrow> string + contact_binding" where
  "contact_param p b =
     (let (name, val) = (case split_once CHR ''='' p of
                           Some (n, v) \<Rightarrow> (to_ascii_lowercase (trim n), trim_matches dquote (trim v))
                         | None \<Rightarrow> (to_ascii_lowercase (trim p), []))
      in if name = ''expires'' then
           case parse_uint u32_max val of
             Some n \<Rightarrow> Inr (b\<lparr>cb_expires := Some n\<rparr>)
           | None \<Rightarrow> Inl (''bad expires '' @ [CHR 0x27] @ val @ [CHR 0x27] @ '' in Contact'')
         else if name = ''+sip.instance'' then Inr (b\<lparr>cb_instance_id := Some val\<rparr>)
         else if name = ''reg-id'' then Inr (b\<lparr>cb_reg_id := parse_uint u32_max val\<rparr>)
         else Inr b)"

fun contact_params :: "string list \<Rightarrow> contact_binding \<Rightarrow> string + contact_binding" where
  "contact_params [] b = Inr b"
| "contact_params (p # ps) b =
     (case contact_param p b of Inl e \<Rightarrow> Inl e | Inr b' \<Rightarrow> contact_params ps b')"

definition parse_contact :: "string \<Rightarrow> string + contact_binding" where
  "parse_contact item =
     (case contact_uri_params item of
        Inl e \<Rightarrow> Inl e
      | Inr (uri, params) \<Rightarrow>
          if \<not> (starts_with uri ''sip:'' \<or> starts_with uri ''sips:'') \<or>
             (CHR ''@'' \<notin> set uri \<and> CHR '':'' \<notin> set uri)
          then Inl (''not a SIP URI in Contact '' @ [CHR 0x27] @ item @ [CHR 0x27])
          else contact_params params
                 \<lparr>cb_uri = uri, cb_expires = None, cb_instance_id = None, cb_reg_id = None\<rparr>)"

fun parse_contacts :: "string list \<Rightarrow> string + contact_binding list" where
  "parse_contacts [] = Inr []"
| "parse_contacts (item # items) =
     (case parse_contact item of
        Inl e \<Rightarrow> Inl e
      | Inr b \<Rightarrow> (case parse_contacts items of Inl e \<Rightarrow> Inl e | Inr bs \<Rightarrow> Inr (b # bs)))"

definition parse_contact_header :: "string \<Rightarrow> string + contact_binding list option" where
  "parse_contact_header value =
     (if trim value = ''*'' then Inr None
      else case parse_contacts (split_contacts value) of
             Inl e \<Rightarrow> Inl e
           | Inr [] \<Rightarrow> Inl ''empty Contact''
           | Inr bs \<Rightarrow> Inr (Some bs))"

section \<open>The handler\<close>

text \<open>The trait \<^verbatim>\<open>Registrar\<close>: what a backend with states \<open>'s\<close> offers.\<close>

record 's backend =
  op_register :: "registration \<Rightarrow> 's \<Rightarrow> registration result \<times> 's"
  op_unregister_binding ::
    "nat \<Rightarrow> string \<Rightarrow> string \<Rightarrow> dialog option \<Rightarrow> 's \<Rightarrow> registration option result \<times> 's"
  op_unregister_all :: "nat \<Rightarrow> string \<Rightarrow> dialog option \<Rightarrow> 's \<Rightarrow> registration list result \<times> 's"
  op_lookup :: "nat \<Rightarrow> string \<Rightarrow> 's \<Rightarrow> registration list result"
  op_is_out_of_order :: "nat \<Rightarrow> string \<Rightarrow> string \<Rightarrow> string \<Rightarrow> nat \<Rightarrow> 's \<Rightarrow> bool"

definition in_memory :: "registrar backend" where
  "in_memory =
     \<lparr>op_register = (\<lambda>reg s. map_prod Inr id (register reg s)),
      op_unregister_binding = (\<lambda>now aor key dlg s. map_prod Inr id (unregister_binding now aor key dlg s)),
      op_unregister_all = (\<lambda>now aor dlg s. map_prod Inr id (unregister_all now aor dlg s)),
      op_lookup = (\<lambda>now aor s. Inr (lookup now aor s)),
      op_is_out_of_order = is_out_of_order\<rparr>"

record register_request =
  rq_aor :: string
  rq_contacts :: "contact_binding list"
  rq_wildcard :: bool
  rq_expires_header :: "nat option"
  rq_reg_call_id :: string
  rq_reg_cseq :: nat
  rq_source :: socket_addr
  rq_reg_transport :: string
  rq_user_agent :: "string option"
  rq_reply_tx :: "nat option"

datatype register_result =
    RegisterOk (bindings: "registration list") (registered: "registration list")
      (removed: "registration list") (granted: "nat option")
  | IntervalTooBrief nat
  | BadRegister string

fun plan_contacts ::
  "register_policy \<Rightarrow> nat option \<Rightarrow> contact_binding list \<Rightarrow> (contact_binding \<times> nat) list option"
where
  "plan_contacts policy expires_header [] = Some []"
| "plan_contacts policy expires_header (c # cs) =
     (let asked = (case cb_expires c of
                     Some n \<Rightarrow> n
                   | None \<Rightarrow> (case expires_header of Some n \<Rightarrow> n | None \<Rightarrow> rp_default_expires policy))
      in if 0 < asked \<and> asked < rp_min_expires policy then None
         else map_option (Cons (c, min asked (rp_max_expires policy)))
                (plan_contacts policy expires_header cs))"

definition registration_of :: "nat \<Rightarrow> register_request \<Rightarrow> contact_binding \<Rightarrow> nat \<Rightarrow> registration" where
  "registration_of now_ms req c expires =
     (registration_new now_ms (rq_aor req) (cb_uri c) expires (rq_reg_call_id req) (rq_reg_cseq req)
        (rq_source req) (rq_reg_transport req))
     \<lparr>rg_user_agent := rq_user_agent req, rg_reply_tx := rq_reply_tx req,
      rg_instance_id := cb_instance_id c, rg_reg_id := cb_reg_id c\<rparr>"

type_synonym applied = "registration list \<times> registration list \<times> nat option"

text \<open>The loop over the plan; the accumulators are what was registered, what was removed and the interval granted.\<close>

fun apply_plan ::
  "'s backend \<Rightarrow> nat \<Rightarrow> register_request \<Rightarrow> (contact_binding \<times> nat) list \<Rightarrow> applied \<Rightarrow> 's \<Rightarrow>
     applied result \<times> 's"
where
  "apply_plan be now_ms req [] acc s = (Inr acc, s)"
| "apply_plan be now_ms req ((c, expires) # plan) (reg, rem, grant) s =
     (let key = binding_key (cb_uri c) (cb_instance_id c) (cb_reg_id c) in
      if op_is_out_of_order be now_ms (rq_aor req) key (rq_reg_call_id req) (rq_reg_cseq req) s
      then apply_plan be now_ms req plan (reg, rem, grant) s
      else if expires = 0 then
        case op_unregister_binding be now_ms (rq_aor req) key
               (Some (rq_reg_call_id req, rq_reg_cseq req)) s of
          (Inl e, s') \<Rightarrow> (Inl e, s')
        | (Inr None, s') \<Rightarrow> apply_plan be now_ms req plan (reg, rem, grant) s'
        | (Inr (Some r), s') \<Rightarrow> apply_plan be now_ms req plan (reg, rem @ [r], grant) s'
      else
        case op_register be (registration_of now_ms req c expires) s of
          (Inl e, s') \<Rightarrow> (Inl e, s')
        | (Inr r, s') \<Rightarrow>
            apply_plan be now_ms req plan
              (reg @ [r], rem, case grant of None \<Rightarrow> Some expires | Some g \<Rightarrow> Some g) s')"

definition process ::
  "'s backend \<Rightarrow> register_policy \<Rightarrow> nat \<Rightarrow> register_request \<Rightarrow> 's \<Rightarrow> register_result result \<times> 's"
where
  "process be policy now_ms req s =
     (if rq_wildcard req then
        if rq_contacts req \<noteq> []
        then (Inr (BadRegister ''Contact: * cannot be combined with other contacts''), s)
        else if rq_expires_header req = Some 0 then
          case op_unregister_all be now_ms (rq_aor req) (Some (rq_reg_call_id req, rq_reg_cseq req)) s of
            (Inl e, s') \<Rightarrow> (Inl e, s')
          | (Inr gone, s') \<Rightarrow> (Inr (RegisterOk [] [] gone None), s')
        else (Inr (BadRegister ''Contact: * requires Expires: 0''), s)
      else if rq_contacts req = [] then
        (map_sum id (\<lambda>bs. RegisterOk bs [] [] None) (op_lookup be now_ms (rq_aor req) s), s)
      else if MAX_CONTACTS_PER_REQUEST < length (rq_contacts req) then
        (Inr (BadRegister (''too many Contact bindings in one REGISTER ('' @
           show_nat (length (rq_contacts req)) @ '', max '' @ show_nat MAX_CONTACTS_PER_REQUEST @ '')'')), s)
      else case plan_contacts policy (rq_expires_header req) (rq_contacts req) of
        None \<Rightarrow> (Inr (IntervalTooBrief (rp_min_expires policy)), s)
      | Some plan \<Rightarrow>
          (case apply_plan be now_ms req plan ([], [], None) s of
             (Inl e, s') \<Rightarrow> (Inl e, s')
           | (Inr (reg, rem, grant), s') \<Rightarrow>
               (map_sum id (\<lambda>bs. RegisterOk bs reg rem grant) (op_lookup be now_ms (rq_aor req) s'), s')))"

definition handler_lookup :: "'s backend \<Rightarrow> nat \<Rightarrow> string \<Rightarrow> 's \<Rightarrow> registration list result" where
  "handler_lookup be now_ms aor s =
     (let normalized = canonical_aor aor in
      case op_lookup be now_ms normalized s of
        Inl e \<Rightarrow> Inl e
      | Inr rs \<Rightarrow>
          if rs \<noteq> [] then Inr rs
          else if \<not> starts_with normalized ''sip:'' \<and> \<not> starts_with normalized ''sips:''
          then op_lookup be now_ms (''sip:'' @ normalized) s
          else Inr [])"

section \<open>Eviction\<close>

lemma aor_count_insert:
  "aor_count a (hm_insert k v m) = aor_count a m + (if fst k = a \<and> \<not> hm_contains m k then 1 else 0)"
  unfolding hm_insert_def hm_contains_def aor_count_def
  by (induction m) auto

lemma aor_count_remove: "aor_count a (hm_remove k m) \<le> aor_count a m"
  by (induction m) (auto simp: hm_remove_def aor_count_def)

lemma aor_count_remove_other: "fst k \<noteq> a \<Longrightarrow> aor_count a (hm_remove k m) = aor_count a m"
  by (induction m) (auto simp: hm_remove_def aor_count_def)

lemma aor_count_retain: "aor_count a (hm_retain P m) \<le> aor_count a m"
  by (induction m) (auto simp: hm_retain_def aor_count_def)

lemma length_remove_le: "length (hm_remove k m) \<le> length m"
  by (simp add: hm_remove_def AList.delete_eq)

text \<open>What eviction leaves behind: part of the table, and no longer full.\<close>

lemma evict_part:
  assumes "hm_ok m"
  shows "hm_ok (evict_oldest_while full m)"
    and "hm_get (evict_oldest_while full m) k = hm_get m k \<or> hm_get (evict_oldest_while full m) k = None"
    and "aor_count a (evict_oldest_while full m) \<le> aor_count a m"
    and "length (evict_oldest_while full m) \<le> length m"
    and "full (evict_oldest_while full m) \<Longrightarrow> evict_oldest_while full m = []"
proof -
  have "hm_ok (evict_oldest_while full m) \<and>
      (hm_get (evict_oldest_while full m) k = hm_get m k \<or> hm_get (evict_oldest_while full m) k = None) \<and>
      aor_count a (evict_oldest_while full m) \<le> aor_count a m \<and>
      length (evict_oldest_while full m) \<le> length m \<and>
      (full (evict_oldest_while full m) \<longrightarrow> evict_oldest_while full m = [])"
    using assms
  proof (induction full m rule: evict_oldest_while.induct)
    case (1 full m)
    show ?case
    proof (cases "full m")
      case False
      with "1.prems" show ?thesis by (simp add: evict_oldest_while.simps [of full m])
    next
      case full: True
      show ?thesis
      proof (cases "min_by_key registration_age m")
        case None
        then have "m = []" by simp
        moreover have "evict_oldest_while full [] = []" by (subst evict_oldest_while.simps) simp
        ultimately show ?thesis by simp
      next
        case (Some e)
        have step: "evict_oldest_while full m = evict_oldest_while full (hm_remove (fst e) m)"
          using full Some by (simp add: evict_oldest_while.simps [of full m])
        note ih = "1.IH" [OF full Some hm_ok_remove [OF "1.prems"]]
        have "hm_get (hm_remove (fst e) m) k = hm_get m k \<or> hm_get (hm_remove (fst e) m) k = None"
          by (simp add: hm_get_remove)
        with ih aor_count_remove [of a "fst e" m] length_remove_le [of "fst e" m]
        show ?thesis unfolding step by auto
      qed
    qed
  qed
  then show "hm_ok (evict_oldest_while full m)"
    "hm_get (evict_oldest_while full m) k = hm_get m k \<or> hm_get (evict_oldest_while full m) k = None"
    "aor_count a (evict_oldest_while full m) \<le> aor_count a m"
    "length (evict_oldest_while full m) \<le> length m"
    "full (evict_oldest_while full m) \<Longrightarrow> evict_oldest_while full m = []"
    by auto
qed

text \<open>While the address is over its cap, everything older than its own bindings goes.\<close>

lemma evict_takes_older:
  assumes "hm_ok m" "n \<le> aor_count aor m" "0 < n" "hm_get m k0 = Some r0"
    and "\<forall>k r. hm_get m k = Some r \<and> fst k = aor \<longrightarrow> rg_registered_at_ms r0 < rg_registered_at_ms r"
  shows "hm_get (evict_oldest_while (\<lambda>m. n \<le> aor_count aor m) m) k0 = None"
  using assms
proof (induction "length m" arbitrary: m rule: less_induct)
  case less
  let ?full = "\<lambda>m. n \<le> aor_count aor m"
  have "m \<noteq> []" using less.prems(4) by auto
  then obtain e where e: "min_by_key registration_age m = Some e"
    by (cases "min_by_key registration_age m") (auto simp: min_by_key_None)
  have step: "evict_oldest_while ?full m = evict_oldest_while ?full (hm_remove (fst e) m)"
    using e less.prems(2) by (simp add: evict_oldest_while.simps [of ?full m])
  show ?case
  proof (cases "fst e = k0")
    case True
    then have "hm_get (hm_remove (fst e) m) k0 = None" by (simp add: hm_get_remove)
    with evict_part(2) [OF hm_ok_remove [OF less.prems(1)], of ?full "fst e" k0] show ?thesis
      unfolding step by auto
  next
    case False
    have e_in: "hm_get m (fst e) = Some (snd e)" and min: "\<forall>x \<in> set m. registration_age e \<le> registration_age x"
      using min_by_key_Some [OF e] hm_get_in_set [OF less.prems(1), of "fst e" "snd e"] by auto
    have "(k0, r0) \<in> set m" using less.prems(1,4) hm_get_in_set by fast
    with min have "rg_registered_at_ms (snd e) \<le> rg_registered_at_ms r0"
      by (auto simp: registration_age_def less_eq_prod_def)
    with e_in less.prems(5) have other: "fst (fst e) \<noteq> aor" by fastforce
    show ?thesis unfolding step
    proof (rule less.hyps)
      show "length (hm_remove (fst e) m) < length m" by (rule remove_oldest_shorter [OF e])
      show "hm_ok (hm_remove (fst e) m)" using less.prems(1) by simp
      show "n \<le> aor_count aor (hm_remove (fst e) m)"
        using less.prems(2) other by (simp add: aor_count_remove_other)
      show "hm_get (hm_remove (fst e) m) k0 = Some r0"
        using less.prems(4) False by (simp add: hm_get_remove)
      show "\<forall>k r. hm_get (hm_remove (fst e) m) k = Some r \<and> fst k = aor \<longrightarrow>
          rg_registered_at_ms r0 < rg_registered_at_ms r"
        using less.prems(5) by (auto simp: hm_get_remove split: if_splits)
    qed (use less.prems(3) in simp)
  qed
qed

section \<open>The tables of the backend\<close>

definition registrar_inv :: "registrar \<Rightarrow> bool" where
  "registrar_inv s \<longleftrightarrow>
     hm_ok (rr_regs s) \<and> hm_ok (rr_tombstones s) \<and>
     (\<forall>a. aor_count a (rr_regs s) \<le> MAX_BINDINGS_PER_AOR) \<and>
     length (rr_regs s) \<le> MAX_BINDINGS_TOTAL \<and> length (rr_tombstones s) \<le> MAX_TOMBSTONES"

lemma registrar_invD:
  assumes "registrar_inv s"
  shows "hm_ok (rr_regs s)" "hm_ok (rr_tombstones s)" "aor_count a (rr_regs s) \<le> MAX_BINDINGS_PER_AOR"
    "length (rr_regs s) \<le> MAX_BINDINGS_TOTAL" "length (rr_tombstones s) \<le> MAX_TOMBSTONES"
  using assms by (auto simp: registrar_inv_def)

lemma registrar_inv_new: "registrar_inv registrar_new"
  by (simp add: registrar_inv_def registrar_new_def aor_count_def)

lemma entomb_regs [simp]: "rr_regs (entomb now k dlg s) = rr_regs s"
  by (auto simp: entomb_def Let_def split: option.splits)

lemma entomb_inv: "registrar_inv s \<Longrightarrow> registrar_inv (entomb now k dlg s)"
proof -
  assume inv: "registrar_inv s"
  note d = registrar_invD [OF inv]
  define tombs where "tombs = (if MAX_TOMBSTONES \<le> length (rr_tombstones s)
      then hm_retain (\<lambda>_. fresh_tombstone now) (rr_tombstones s) else rr_tombstones s)"
  have t: "hm_ok tombs" "length tombs \<le> MAX_TOMBSTONES"
    using d(2,5) length_hm_retain [of "\<lambda>_. fresh_tombstone now" "rr_tombstones s"]
    by (auto simp: tombs_def)
  have "entomb now k dlg s = (case dlg of None \<Rightarrow> s | Some (call_id, cseq) \<Rightarrow>
      if MAX_TOMBSTONES \<le> length tombs then s\<lparr>rr_tombstones := tombs\<rparr>
      else s\<lparr>rr_tombstones := hm_insert k (call_id, cseq, now) tombs\<rparr>)"
    unfolding entomb_def tombs_def Let_def by (rule refl)
  then have "hm_ok (rr_tombstones (entomb now k dlg s)) \<and>
      length (rr_tombstones (entomb now k dlg s)) \<le> MAX_TOMBSTONES"
    using d(2,5) t by (auto simp: length_hm_insert split: option.splits)
  with d show "registrar_inv (entomb now k dlg s)" by (auto simp: registrar_inv_def)
qed

lemma fold_remove_bindings:
  assumes "hm_ok m"
  shows "hm_ok (fold hm_remove ks m)"
    and "hm_get (fold hm_remove ks m) k = (if k \<in> set ks then None else hm_get m k)"
    and "aor_count a (fold hm_remove ks m) \<le> aor_count a m"
    and "length (fold hm_remove ks m) \<le> length m"
proof -
  have "hm_ok (fold hm_remove ks m) \<and>
      hm_get (fold hm_remove ks m) k = (if k \<in> set ks then None else hm_get m k) \<and>
      aor_count a (fold hm_remove ks m) \<le> aor_count a m \<and> length (fold hm_remove ks m) \<le> length m"
    using assms
  proof (induction ks arbitrary: m)
    case (Cons x ks)
    from Cons.IH [OF hm_ok_remove [OF Cons.prems, of x]] aor_count_remove [of a x m] length_remove_le [of x m]
    show ?case by (auto simp: hm_get_remove)
  qed simp
  then show "hm_ok (fold hm_remove ks m)"
    "hm_get (fold hm_remove ks m) k = (if k \<in> set ks then None else hm_get m k)"
    "aor_count a (fold hm_remove ks m) \<le> aor_count a m" "length (fold hm_remove ks m) \<le> length m"
    by simp_all
qed

lemma fold_entomb:
  "rr_regs (fold (\<lambda>k. entomb now k dlg) ks s) = rr_regs s"
  "registrar_inv s \<Longrightarrow> registrar_inv (fold (\<lambda>k. entomb now k dlg) ks s)"
  by (induction ks arbitrary: s) (simp_all add: entomb_inv)

text \<open>A table that only lost bindings keeps the invariant.\<close>

lemma registrar_inv_shrink:
  assumes "registrar_inv s" "hm_ok m" "\<And>a. aor_count a m \<le> aor_count a (rr_regs s)"
    and "length m \<le> length (rr_regs s)"
  shows "registrar_inv (s\<lparr>rr_regs := m\<rparr>)"
  using assms unfolding registrar_inv_def by (auto intro: le_trans)

text \<open>The two cases of \<open>register\<close>.\<close>

lemma register_inv:
  assumes inv: "registrar_inv s"
  shows "registrar_inv (snd (register reg s))"
proof -
  note d = registrar_invD [OF inv]
  let ?key = "(rg_aor reg, registration_key reg)"
  show ?thesis
  proof (cases "hm_get (rr_regs s) ?key")
    case (Some existing)
    then have "hm_contains (rr_regs s) ?key" by (simp add: hm_contains_def)
    then have "registrar_inv (s\<lparr>rr_regs := hm_insert ?key (refresh_from reg existing) (rr_regs s)\<rparr>)"
      using d by (simp add: registrar_inv_def aor_count_insert length_hm_insert)
    with inv Some show ?thesis by (simp add: register_def)
  next
    case None
    define m1 where "m1 = evict_oldest_while (\<lambda>m. MAX_BINDINGS_PER_AOR \<le> aor_count (rg_aor reg) m) (rr_regs s)"
    define m2 where "m2 = evict_oldest_while (\<lambda>m. MAX_BINDINGS_TOTAL \<le> length m) m1"
    have m1: "hm_ok m1" "\<And>a. aor_count a m1 \<le> aor_count a (rr_regs s)" "hm_get m1 ?key = None"
      using evict_part [OF d(1), where full = "\<lambda>m. MAX_BINDINGS_PER_AOR \<le> aor_count (rg_aor reg) m"] None
      unfolding m1_def by metis+
    have "aor_count (rg_aor reg) m1 < MAX_BINDINGS_PER_AOR"
      using evict_part(5) [OF d(1), where full = "\<lambda>m. MAX_BINDINGS_PER_AOR \<le> aor_count (rg_aor reg) m"]
      unfolding m1_def by (fastforce simp: not_le [symmetric] aor_count_def MAX_BINDINGS_PER_AOR_def)
    moreover have m2: "hm_ok m2" "\<And>a. aor_count a m2 \<le> aor_count a m1" "hm_get m2 ?key = None"
      using evict_part [OF m1(1), where full = "\<lambda>m. MAX_BINDINGS_TOTAL \<le> length m"] m1(3)
      unfolding m2_def by metis+
    moreover have "length m2 < MAX_BINDINGS_TOTAL"
      using evict_part(5) [OF m1(1), where full = "\<lambda>m. MAX_BINDINGS_TOTAL \<le> length m"]
      unfolding m2_def by (fastforce simp: not_le [symmetric] MAX_BINDINGS_TOTAL_def)
    moreover have "aor_count a m2 \<le> MAX_BINDINGS_PER_AOR" for a
      using m2(2) [of a] m1(2) [of a] d(3) [of a] by linarith
    moreover have "Suc (aor_count (rg_aor reg) m2) \<le> MAX_BINDINGS_PER_AOR"
      using calculation(1) m2(2) [of "rg_aor reg"] by linarith
    ultimately have "registrar_inv (s\<lparr>rr_regs := hm_insert ?key reg m2\<rparr>)"
      using d(2,5) unfolding registrar_inv_def
      by (auto simp: aor_count_insert length_hm_insert hm_contains_def)
    with None show ?thesis by (simp add: register_def m1_def m2_def)
  qed
qed

lemma unregister_binding_inv: "registrar_inv s \<Longrightarrow> registrar_inv (snd (unregister_binding now aor key dlg s))"
  by (auto simp: unregister_binding_def aor_count_remove length_remove_le registrar_invD(1)
      intro!: entomb_inv registrar_inv_shrink split: option.splits)

lemma unregister_all_inv: "registrar_inv s \<Longrightarrow> registrar_inv (snd (unregister_all now aor dlg s))"
  by (auto simp: unregister_all_def Let_def registrar_invD(1)
      intro!: fold_entomb(2) registrar_inv_shrink fold_remove_bindings)

lemma cleanup_expired_inv: "registrar_inv s \<Longrightarrow> registrar_inv (snd (cleanup_expired now s))"
proof -
  assume inv: "registrar_inv s"
  note d = registrar_invD [OF inv]
  have "length (hm_retain (\<lambda>_. fresh_tombstone now) (rr_tombstones s)) \<le> MAX_TOMBSTONES"
    using d(5) length_hm_retain le_trans by blast
  moreover have "aor_count a (fold hm_remove ks (rr_regs s)) \<le> MAX_BINDINGS_PER_AOR"
    "length (fold hm_remove ks (rr_regs s)) \<le> MAX_BINDINGS_TOTAL" for a ks
    using fold_remove_bindings(3) [OF d(1), of a ks] fold_remove_bindings(4) [OF d(1), of ks] d(3) [of a] d(4) by linarith+
  ultimately show ?thesis
    using d(1,2) fold_remove_bindings(1) [OF d(1)] by (simp add: cleanup_expired_def registrar_inv_def Let_def)
qed

section \<open>The contract of a backend\<close>

text \<open>
  What the handler relies on: storing a binding touches no other binding except by dropping it, and
  keeps of the request what it names; the removals touch only what they name.
\<close>

definition granted_by :: "register_policy \<Rightarrow> register_request \<Rightarrow> reg_key \<Rightarrow> registration \<Rightarrow> bool" where
  "granted_by policy req k r \<longleftrightarrow>
     fst k = rq_aor req \<and> min (rp_min_expires policy) (rp_max_expires policy) \<le> rg_expires r \<and> rg_expires r \<le> rp_max_expires policy \<and>
     rg_call_id r = rq_reg_call_id req \<and> rg_cseq r = rq_reg_cseq req"

lemma plan_contacts_bounds:
  assumes "plan_contacts policy eh cs = Some plan"
  shows "(c, n) \<in> set plan \<Longrightarrow> n = 0 \<or> (min (rp_min_expires policy) (rp_max_expires policy) \<le> n \<and> n \<le> rp_max_expires policy)"
  using assms
  by (induction policy eh cs arbitrary: plan rule: plan_contacts.induct)
    (auto simp: Let_def min_def split: if_splits)

lemma registration_of_fields [simp]:
  "rg_aor (registration_of now req c n) = rq_aor req"
  "rg_expires (registration_of now req c n) = n"
  "rg_call_id (registration_of now req c n) = rq_reg_call_id req"
  "rg_cseq (registration_of now req c n) = rq_reg_cseq req"
  "registration_key (registration_of now req c n) =
     binding_key (cb_uri c) (cb_instance_id c) (cb_reg_id c)"
  by (simp_all add: registration_of_def registration_new_def registration_key_def)

locale binding_backend =
  fixes be :: "'s backend" and held :: "'s \<Rightarrow> reg_key \<Rightarrow> registration option" and ok :: "'s \<Rightarrow> bool"
  assumes register_ok: "ok s \<Longrightarrow> op_register be reg s = (res, s') \<Longrightarrow> ok s'"
    and register_frame: "ok s \<Longrightarrow> op_register be reg s = (res, s') \<Longrightarrow> held s' k = Some r \<Longrightarrow>
      held s k = Some r \<or>
      (k = (rg_aor reg, registration_key reg) \<and> rg_expires r = rg_expires reg \<and>
       rg_call_id r = rg_call_id reg \<and> rg_cseq r = rg_cseq reg)"
    and unregister_ok: "ok s \<Longrightarrow> op_unregister_binding be now aor key dlg s = (res1, s') \<Longrightarrow> ok s'"
    and unregister_frame: "ok s \<Longrightarrow> op_unregister_binding be now aor key dlg s = (res1, s') \<Longrightarrow>
      held s' k = held s k \<or> (k = (aor, key) \<and> held s' k = None)"
    and unregister_all_ok: "ok s \<Longrightarrow> op_unregister_all be now aor dlg s = (res2, s') \<Longrightarrow> ok s'"
    and unregister_all_frame: "ok s \<Longrightarrow> op_unregister_all be now aor dlg s = (res2, s') \<Longrightarrow>
      held s' k = held s k \<or> (fst k = aor \<and> held s' k = None)"
begin

lemma apply_plan_effect:
  assumes "ok s" "apply_plan be now req plan acc s = (res, s')"
    and "\<And>c n. (c, n) \<in> set plan \<Longrightarrow> n = 0 \<or> (min (rp_min_expires policy) (rp_max_expires policy) \<le> n \<and> n \<le> rp_max_expires policy)"
  shows "ok s'" "held s' k = Some r \<Longrightarrow> held s k = Some r \<or> granted_by policy req k r"
proof -
  have "ok s' \<and> (held s' k = Some r \<longrightarrow> held s k = Some r \<or> granted_by policy req k r)"
    using assms
  proof (induction plan arbitrary: acc s)
    case (Cons p plan)
    obtain c n where p: "p = (c, n)" by (cases p)
    obtain rg rm gr where acc: "acc = (rg, rm, gr)" by (cases acc)
    let ?key = "binding_key (cb_uri c) (cb_instance_id c) (cb_reg_id c)"
    have n: "n = 0 \<or> (min (rp_min_expires policy) (rp_max_expires policy) \<le> n \<and> n \<le> rp_max_expires policy)"
      by (rule Cons.prems(3) [of c]) (simp add: p)
    have ih: "ok s1 \<Longrightarrow> apply_plan be now req plan acc1 s1 = (res, s') \<Longrightarrow>
        ok s' \<and> (held s' k = Some r \<longrightarrow> held s1 k = Some r \<or> granted_by policy req k r)" for s1 acc1
      by (rule Cons.IH) (use Cons.prems(3) in auto)
    consider
        (late) "op_is_out_of_order be now (rq_aor req) ?key (rq_reg_call_id req) (rq_reg_cseq req) s"
      | (drop) "\<not> op_is_out_of_order be now (rq_aor req) ?key (rq_reg_call_id req) (rq_reg_cseq req) s" "n = 0"
      | (store) "\<not> op_is_out_of_order be now (rq_aor req) ?key (rq_reg_call_id req) (rq_reg_cseq req) s" "n \<noteq> 0"
      by blast
    then show ?case
    proof cases
      case late
      with Cons.prems(1,2) show ?thesis by (intro ih) (auto simp: p acc)
    next
      case drop
      obtain res1 s1 where u: "op_unregister_binding be now (rq_aor req) ?key
          (Some (rq_reg_call_id req, rq_reg_cseq req)) s = (res1, s1)" by fastforce
      note ok1 = unregister_ok [OF Cons.prems(1) u]
      have held1: "held s1 k = Some r \<Longrightarrow> held s k = Some r"
        using unregister_frame [OF Cons.prems(1) u, of k] by auto
      have "s' = s1 \<or> (\<exists>acc1. apply_plan be now req plan acc1 s1 = (res, s'))"
        using Cons.prems(2) drop u by (auto simp: p acc Let_def split: sum.splits option.splits)
      with ih [OF ok1] ok1 held1 show ?thesis by blast
    next
      case store
      obtain res1 s1 where u: "op_register be (registration_of now req c n) s = (res1, s1)" by fastforce
      note ok1 = register_ok [OF Cons.prems(1) u]
      have held1: "held s1 k = Some r \<Longrightarrow> held s k = Some r \<or> granted_by policy req k r"
        using register_frame [OF Cons.prems(1) u, of k r] n store(2) by (auto simp: granted_by_def)
      have "s' = s1 \<or> (\<exists>acc1. apply_plan be now req plan acc1 s1 = (res, s'))"
        using Cons.prems(2) store u by (auto simp: p acc Let_def split: sum.splits)
      with ih [OF ok1] ok1 held1 show ?thesis by blast
    qed
  qed auto
  then show "ok s'" "held s' k = Some r \<Longrightarrow> held s k = Some r \<or> granted_by policy req k r" by auto
qed

lemma process_effect:
  assumes "ok s" "process be policy now req s = (res, s')"
  shows "ok s'" "held s' k = Some r \<Longrightarrow> held s k = Some r \<or> granted_by policy req k r"
proof -
  have "ok s' \<and> (held s' k = Some r \<longrightarrow> held s k = Some r \<or> granted_by policy req k r)"
  proof (cases "rq_wildcard req")
    case True
    obtain res1 s1 where u: "op_unregister_all be now (rq_aor req) (Some (rq_reg_call_id req, rq_reg_cseq req)) s =
        (res1, s1)" by fastforce
    have "s' = s \<or> s' = s1"
      using assms(2) True u by (auto simp: process_def split: if_splits sum.splits)
    with assms(1) unregister_all_ok [OF assms(1) u] unregister_all_frame [OF assms(1) u, of k]
    show ?thesis by auto
  next
    case False
    show ?thesis
    proof (cases "plan_contacts policy (rq_expires_header req) (rq_contacts req)")
      case None
      with assms False show ?thesis by (auto simp: process_def split: if_splits)
    next
      case (Some plan)
      obtain res1 s1 where a: "apply_plan be now req plan ([], [], None) s = (res1, s1)" by fastforce
      have "s' = s \<or> s' = s1"
        using assms(2) False Some a by (auto simp: process_def split: if_splits sum.splits)
      moreover have "n = 0 \<or> (min (rp_min_expires policy) (rp_max_expires policy) \<le> n \<and> n \<le> rp_max_expires policy)"
        if "(c, n) \<in> set plan" for c n
        using plan_contacts_bounds [OF Some that] .
      ultimately show ?thesis using assms(1) apply_plan_effect [OF assms(1) a] by blast
    qed
  qed
  then show "ok s'" "held s' k = Some r \<Longrightarrow> held s k = Some r \<or> granted_by policy req k r" by auto
qed

end

lemma register_get:
  assumes "hm_ok (rr_regs s)" "hm_get (rr_regs (snd (register reg s))) k = Some r"
  shows "hm_get (rr_regs s) k = Some r \<or>
    (k = (rg_aor reg, registration_key reg) \<and> rg_expires r = rg_expires reg \<and>
     rg_call_id r = rg_call_id reg \<and> rg_cseq r = rg_cseq reg)"
proof (cases "hm_get (rr_regs s) (rg_aor reg, registration_key reg)")
  case (Some existing)
  with assms(2) show ?thesis
    by (auto simp: register_def hm_get_insert refresh_from_def split: if_splits)
next
  case None
  let ?m1 = "evict_oldest_while (\<lambda>m. MAX_BINDINGS_PER_AOR \<le> aor_count (rg_aor reg) m) (rr_regs s)"
  let ?m2 = "evict_oldest_while (\<lambda>m. MAX_BINDINGS_TOTAL \<le> length m) ?m1"
  have "hm_get ?m2 k = Some r \<Longrightarrow> hm_get (rr_regs s) k = Some r"
    using evict_part(2) [OF evict_part(1) [OF assms(1)], of "\<lambda>m. MAX_BINDINGS_TOTAL \<le> length m"
        "\<lambda>m. MAX_BINDINGS_PER_AOR \<le> aor_count (rg_aor reg) m" k]
      evict_part(2) [OF assms(1), of "\<lambda>m. MAX_BINDINGS_PER_AOR \<le> aor_count (rg_aor reg) m" k]
    by auto
  with None assms(2) show ?thesis
    by (auto simp: register_def hm_get_insert Let_def split: if_splits)
qed

lemma unregister_binding_get:
  "hm_get (rr_regs (snd (unregister_binding now aor key dlg s))) k = hm_get (rr_regs s) k \<or>
   (k = (aor, key) \<and> hm_get (rr_regs (snd (unregister_binding now aor key dlg s))) k = None)"
  by (auto simp: unregister_binding_def hm_get_remove split: option.splits)

lemma unregister_all_get:
  assumes "hm_ok (rr_regs s)"
  shows "hm_get (rr_regs (snd (unregister_all now aor dlg s))) k = hm_get (rr_regs s) k \<or>
   (fst k = aor \<and> hm_get (rr_regs (snd (unregister_all now aor dlg s))) k = None)"
  using assms by (auto simp: unregister_all_def Let_def fold_entomb fold_remove_bindings)

interpretation memory: binding_backend in_memory "\<lambda>s. hm_get (rr_regs s)" registrar_inv
proof
  fix s reg res s' k r
  assume "registrar_inv s" "op_register in_memory reg s = (res, s')"
  then show "registrar_inv s'" using register_inv [of s reg] by (auto simp: in_memory_def map_prod_def case_prod_beta)
next
  fix s reg res s' k r
  assume "registrar_inv s" "op_register in_memory reg s = (res, s')" "hm_get (rr_regs s') k = Some r"
  then show "hm_get (rr_regs s) k = Some r \<or> (k = (rg_aor reg, registration_key reg) \<and>
      rg_expires r = rg_expires reg \<and> rg_call_id r = rg_call_id reg \<and> rg_cseq r = rg_cseq reg)"
    using register_get [OF registrar_invD(1), of s reg k r] by (auto simp: in_memory_def map_prod_def case_prod_beta)
next
  fix s now aor key dlg res1 s' k
  assume "registrar_inv s" "op_unregister_binding in_memory now aor key dlg s = (res1, s')"
  then show "registrar_inv s'"
    and "hm_get (rr_regs s') k = hm_get (rr_regs s) k \<or> (k = (aor, key) \<and> hm_get (rr_regs s') k = None)"
    using unregister_binding_inv [of s now aor key dlg] unregister_binding_get [of now aor key dlg s k]
    by (auto simp: in_memory_def map_prod_def case_prod_beta)
next
  fix s now aor dlg res2 s' k
  assume "registrar_inv s" "op_unregister_all in_memory now aor dlg s = (res2, s')"
  then show "registrar_inv s'"
    and "hm_get (rr_regs s') k = hm_get (rr_regs s) k \<or> (fst k = aor \<and> hm_get (rr_regs s') k = None)"
    using unregister_all_inv [of s now aor dlg] unregister_all_get [OF registrar_invD(1), of s now aor dlg k]
    by (auto simp: in_memory_def map_prod_def case_prod_beta)
qed
section \<open>What a REGISTER may do\<close>

text \<open>
  A run of the registrar: requests, the sweeper, and the close of a connection, which drops a
  binding without naming a dialog (\<^verbatim>\<open>sbc/call_handler.rs\<close>).
\<close>

datatype registrar_op =
    Request register_policy register_request
  | Sweep
  | CloseConnection string string

fun registrar_step :: "nat \<times> registrar_op \<Rightarrow> registrar \<Rightarrow> registrar" where
  "registrar_step (now, Request policy req) s = snd (process in_memory policy now req s)"
| "registrar_step (now, Sweep) s = snd (cleanup_expired now s)"
| "registrar_step (now, CloseConnection aor key) s = snd (unregister_binding now aor key None s)"

abbreviation registrar_run :: "(nat \<times> registrar_op) list \<Rightarrow> registrar \<Rightarrow> registrar" where
  "registrar_run \<equiv> fold registrar_step"

lemma registrar_step_inv: "registrar_inv s \<Longrightarrow> registrar_inv (registrar_step op s)"
  using memory.process_effect(1) [OF _ prod.collapse [symmetric]]
  by (cases "(op, s)" rule: registrar_step.cases)
    (auto simp: cleanup_expired_inv unregister_binding_inv)

lemma registrar_run_inv: "registrar_inv s \<Longrightarrow> registrar_inv (registrar_run ops s)"
  by (induction ops arbitrary: s) (simp_all add: registrar_step_inv)

lemma lookup_le: "length (lookup now aor s) \<le> aor_count aor (rr_regs s)"
proof -
  have "length (filter (\<lambda>(k, r). fst k = aor \<and> Q r) m) \<le> length (filter (\<lambda>e. fst (fst e) = aor) m)"
    for Q and m :: "(reg_key \<times> registration) list"
    by (induction m) auto
  then show ?thesis by (simp add: lookup_def aor_count_def)
qed

text \<open>C28: Whatever requests, sweeps and closed connections happen, in whatever order and at whatever
  times, the registrar holds at most ten bindings for one address and 5000 in all, at most 4096
  tombstones, and a call to an address forks to at most ten contacts.\<close>

theorem registrar_tables_bounded:
  "aor_count aor (rr_regs (registrar_run ops registrar_new)) \<le> 10 \<and>
   length (rr_regs (registrar_run ops registrar_new)) \<le> 5000 \<and>
   length (rr_tombstones (registrar_run ops registrar_new)) \<le> 4096 \<and>
   length (lookup now aor (registrar_run ops registrar_new)) \<le> 10"
  using registrar_invD [OF registrar_run_inv [OF registrar_inv_new, of ops]]
    le_trans [OF lookup_le [of now aor "registrar_run ops registrar_new"]]
  by (simp add: MAX_BINDINGS_PER_AOR_def MAX_BINDINGS_TOTAL_def MAX_TOMBSTONES_def)

text \<open>A REGISTER changes nothing but bindings of its own address: every binding in the table
  afterwards was there before, unchanged, or belongs to the address of the request, carries its
  Call-ID and CSeq, and has an interval within the policy. A request refused with 400 or 423
  changes nothing at all.\<close>

theorem register_touches_own_address:
  assumes "registrar_inv s" "rp_min_expires policy \<le> rp_max_expires policy"
    and "process in_memory policy now req s = (Inr res, s')"
  shows "(\<forall>k r. hm_get (rr_regs s') k = Some r \<longrightarrow>
       hm_get (rr_regs s) k = Some r \<or>
       (fst k = rq_aor req \<and> rg_call_id r = rq_reg_call_id req \<and> rg_cseq r = rq_reg_cseq req \<and>
        rp_min_expires policy \<le> rg_expires r \<and> rg_expires r \<le> rp_max_expires policy)) \<and>
     ((\<exists>n. res = IntervalTooBrief n) \<or> (\<exists>why. res = BadRegister why) \<longrightarrow> s' = s)"
proof (intro conjI allI impI)
  fix k r
  assume "hm_get (rr_regs s') k = Some r"
  from memory.process_effect(2) [OF assms(1,3) this] assms(2)
  show "hm_get (rr_regs s) k = Some r \<or>
       (fst k = rq_aor req \<and> rg_call_id r = rq_reg_call_id req \<and> rg_cseq r = rq_reg_cseq req \<and>
        rp_min_expires policy \<le> rg_expires r \<and> rg_expires r \<le> rp_max_expires policy)"
    by (auto simp: granted_by_def)
next
  assume "(\<exists>n. res = IntervalTooBrief n) \<or> (\<exists>why. res = BadRegister why)"
  with assms(3) show "s' = s"
    by (auto simp: process_def in_memory_def split: if_splits option.splits sum.splits prod.splits)
qed

definition sample_contact :: "string \<Rightarrow> nat option \<Rightarrow> contact_binding" where
  "sample_contact uri expires = \<lparr>cb_uri = uri, cb_expires = expires, cb_instance_id = None, cb_reg_id = None\<rparr>"

definition sample_request :: "string \<Rightarrow> nat \<Rightarrow> contact_binding \<Rightarrow> register_request" where
  "sample_request aor cseq contact =
     \<lparr>rq_aor = aor, rq_contacts = [contact], rq_wildcard = False, rq_expires_header = None,
      rq_reg_call_id = ''c1'', rq_reg_cseq = cseq, rq_source = (V4 10 0 0 1, 5060),
      rq_reg_transport = ''UDP'', rq_user_agent = None, rq_reply_tx = None\<rparr>"

lemma evict_idle: "\<not> full m \<Longrightarrow> evict_oldest_while full m = m"
  by (subst evict_oldest_while.simps) simp

lemma first_register:
  "process in_memory register_policy_default now (sample_request aor cseq (sample_contact uri (Some 7200))) registrar_new =
     (Inr (RegisterOk (lookup now aor s1) [r] [] (Some 3600)), s1)"
  if "r = registration_of now (sample_request aor cseq (sample_contact uri (Some 7200))) (sample_contact uri (Some 7200)) 3600"
    "s1 = \<lparr>rr_regs = [((aor, ''contact:'' @ uri), r)], rr_tombstones = []\<rparr>"
  using that
  by (simp add: process_def in_memory_def registrar_new_def is_out_of_order_def register_def Let_def evict_idle
      aor_count_def MAX_BINDINGS_PER_AOR_def MAX_BINDINGS_TOTAL_def MAX_CONTACTS_PER_REQUEST_def
      register_policy_default_def hm_insert_def binding_key_def sample_request_def sample_contact_def)

theorem register_touches_own_address_witness:
  "\<exists>s' k r. process in_memory register_policy_default 5 (sample_request ''sip:bob@h'' 1 (sample_contact ''sip:b@h'' (Some 7200)))
       registrar_new = (Inr (RegisterOk (lookup 5 ''sip:bob@h'' s') [r] [] (Some 3600)), s') \<and>
     hm_get (rr_regs s') k = Some r \<and> fst k = ''sip:bob@h'' \<and> rg_cseq r = 1 \<and> rg_expires r \<le> 3600"
proof -
  let ?req = "sample_request ''sip:bob@h'' 1 (sample_contact ''sip:b@h'' (Some 7200))"
  define r where "r = registration_of 5 ?req (sample_contact ''sip:b@h'' (Some 7200)) 3600"
  define s' where "s' = \<lparr>rr_regs = [((''sip:bob@h'', ''contact:'' @ ''sip:b@h''), r)], rr_tombstones = []\<rparr>"
  note run = first_register [OF r_def s'_def]
  have get: "hm_get (rr_regs s') (''sip:bob@h'', ''contact:sip:b@h'') = Some r" by (simp add: s'_def)
  have policy: "rp_min_expires register_policy_default \<le> rp_max_expires register_policy_default"
    "rp_max_expires register_policy_default = 3600"
    by (simp_all add: register_policy_default_def)
  have req: "rq_reg_cseq ?req = 1" "hm_get (rr_regs registrar_new) k = None" for k
    by (simp_all add: sample_request_def registrar_new_def)
  from register_touches_own_address [OF registrar_inv_new policy(1) run, THEN conjunct1, rule_format, OF get]
  have "rg_cseq r = 1 \<and> rg_expires r \<le> 3600" unfolding req policy(2) by simp
  with run get show ?thesis by (metis fst_conv)
qed

text \<open>A user who registers an eleventh device wipes out other users. When an address holds its
  ten bindings and a REGISTER brings a new one, every binding of the whole table that is older than
  all of that address's own is dropped, whoever it belongs to.\<close>

theorem full_address_erases_older_bindings:
  assumes "registrar_inv s" "MAX_BINDINGS_PER_AOR \<le> aor_count (rg_aor reg) (rr_regs s)"
    and "hm_get (rr_regs s) (rg_aor reg, registration_key reg) = None"
    and "hm_get (rr_regs s) victim = Some r0"
    and "\<forall>k r. hm_get (rr_regs s) k = Some r \<and> fst k = rg_aor reg \<longrightarrow>
           rg_registered_at_ms r0 < rg_registered_at_ms r"
  shows "hm_get (rr_regs (snd (register reg s))) victim = None"
proof -
  let ?m1 = "evict_oldest_while (\<lambda>m. MAX_BINDINGS_PER_AOR \<le> aor_count (rg_aor reg) m) (rr_regs s)"
  note ok = registrar_invD(1) [OF assms(1)]
  have "hm_get ?m1 victim = None"
    using evict_takes_older [OF ok assms(2) _ assms(4,5)] by (simp add: MAX_BINDINGS_PER_AOR_def)
  then have "hm_get (evict_oldest_while (\<lambda>m. MAX_BINDINGS_TOTAL \<le> length m) ?m1) victim = None"
    using evict_part(2) [OF evict_part(1) [OF ok], of "\<lambda>m. MAX_BINDINGS_TOTAL \<le> length m"
        "\<lambda>m. MAX_BINDINGS_PER_AOR \<le> aor_count (rg_aor reg) m" victim] by auto
  moreover have "victim \<noteq> (rg_aor reg, registration_key reg)" using assms(3,4) by auto
  ultimately show ?thesis using assms(3) by (simp add: register_def Let_def hm_get_insert)
qed

text \<open>Bob's one binding and, later, ten of Alice.\<close>

definition some_registration :: "nat \<Rightarrow> string \<Rightarrow> string \<Rightarrow> registration" where
  "some_registration now aor uri = registration_of now (sample_request aor 1 (sample_contact uri None)) (sample_contact uri None) 3600"

definition crowded :: registrar where
  "crowded = \<lparr>rr_regs = ((''sip:bob@h'', ''contact:sip:b@h''), some_registration 1 ''sip:bob@h'' ''sip:b@h'') #
       map (\<lambda>i. ((''sip:alice@h'', ''contact:'' @ show_nat i), some_registration 2 ''sip:alice@h'' (show_nat i))) [0..<10],
     rr_tombstones = []\<rparr>"

lemma crowded_inv: "registrar_inv crowded"
proof -
  have "distinct (map (\<lambda>i. show_nat i) [0..<10])" by code_simp
  then have "hm_ok (rr_regs crowded)"
    by (auto simp: crowded_def hm_ok_def distinct_map inj_on_def)
  moreover have "aor_count a (rr_regs crowded) \<le> 10" for a
    by (cases "a = ''sip:alice@h''") (auto simp: crowded_def aor_count_def filter_map comp_def)
  ultimately show ?thesis
    by (simp add: registrar_inv_def) (simp add: crowded_def MAX_BINDINGS_PER_AOR_def MAX_BINDINGS_TOTAL_def)
qed

theorem full_address_erases_older_bindings_witness:
  "hm_get (rr_regs crowded) (''sip:bob@h'', ''contact:sip:b@h'') \<noteq> None \<and>
   hm_get (rr_regs (snd (register (some_registration 3 ''sip:alice@h'' ''sip:new@h'') crowded)))
     (''sip:bob@h'', ''contact:sip:b@h'') = None"
proof -
  let ?reg = "some_registration 3 ''sip:alice@h'' ''sip:new@h''"
  let ?bob = "some_registration 1 ''sip:bob@h'' ''sip:b@h''"
  have bob: "hm_get (rr_regs crowded) (''sip:bob@h'', ''contact:sip:b@h'') = Some ?bob"
    by (simp add: crowded_def)
  have reg: "rg_aor ?reg = ''sip:alice@h''" "registration_key ?reg = ''contact:sip:new@h''"
    by (simp_all add: some_registration_def sample_contact_def binding_key_def sample_request_def)
  have at: "rg_registered_at_ms (some_registration n aor uri) = n" for n aor uri
    by (simp add: some_registration_def registration_of_def registration_new_def)
  have "''sip:new@h'' \<notin> show_nat ` {0..<10}" by code_simp
  then have absent: "hm_get (rr_regs crowded) (rg_aor ?reg, registration_key ?reg) = None"
    unfolding reg by (auto simp: crowded_def map_of_eq_None_iff)
  have full: "MAX_BINDINGS_PER_AOR \<le> aor_count (rg_aor ?reg) (rr_regs crowded)"
    unfolding reg by (simp add: crowded_def aor_count_def filter_map comp_def MAX_BINDINGS_PER_AOR_def)
  have "\<forall>k r. hm_get (rr_regs crowded) k = Some r \<and> fst k = rg_aor ?reg \<longrightarrow>
      rg_registered_at_ms ?bob < rg_registered_at_ms r"
    unfolding reg using hm_get_in_set [OF registrar_invD(1) [OF crowded_inv]]
    by (auto simp: crowded_def at dest!: map_of_SomeD)
  from full_address_erases_older_bindings [OF crowded_inv full absent bob this] bob
  show ?thesis by simp
qed
section \<open>A removed binding stays removed\<close>

definition buried :: "reg_key \<Rightarrow> tombstone \<Rightarrow> registrar \<Rightarrow> bool" where
  "buried k t s \<longleftrightarrow> registrar_inv s \<and> hm_get (rr_regs s) k = None \<and> hm_get (rr_tombstones s) k = Some t"

definition contact_key :: "contact_binding \<Rightarrow> string" where
  "contact_key c = binding_key (cb_uri c) (cb_instance_id c) (cb_reg_id c)"

text \<open>A request that names the removed binding is a retransmission, or older than the removal.\<close>

fun not_newer :: "reg_key \<Rightarrow> tombstone \<Rightarrow> registrar_op \<Rightarrow> bool" where
  "not_newer k (cid, n, _) (Request _ req) \<longleftrightarrow>
     (rq_aor req = fst k \<and> snd k \<in> contact_key ` set (rq_contacts req) \<longrightarrow>
      rq_reg_call_id req = cid \<and> rq_reg_cseq req \<le> n)"
| "not_newer k t Sweep \<longleftrightarrow> True"
| "not_newer k t (CloseConnection _ _) \<longleftrightarrow> True"

lemma retain_fresh:
  "hm_ok m \<Longrightarrow> hm_get m k = Some t \<Longrightarrow> fresh_tombstone now t \<Longrightarrow>
   hm_get (hm_retain (\<lambda>_. fresh_tombstone now) m) k = Some t"
  by (simp add: hm_get_retain)

lemma entomb_keeps:
  assumes "buried k t s" "fresh_tombstone now t" "k' \<noteq> k"
  shows "buried k t (entomb now k' dlg s)"
proof -
  have b: "registrar_inv s" "hm_get (rr_regs s) k = None" "hm_get (rr_tombstones s) k = Some t"
    using assms(1) by (auto simp: buried_def)
  have "hm_get (rr_tombstones (entomb now k' dlg s)) k = Some t"
    using retain_fresh [OF registrar_invD(2) [OF b(1)] b(3) assms(2)] b(3) assms(3)
    by (auto simp: entomb_def Let_def hm_get_insert split: option.splits)
  with b entomb_inv [OF b(1)] show ?thesis by (simp add: buried_def)
qed

lemma fold_entomb_keeps:
  "buried k t s \<Longrightarrow> fresh_tombstone now t \<Longrightarrow> k \<notin> set ks \<Longrightarrow>
   buried k t (fold (\<lambda>k'. entomb now k' dlg) ks s)"
  by (induction ks arbitrary: s) (auto simp: entomb_keeps)

lemma register_keeps_buried:
  assumes "buried k t s" "(rg_aor reg, registration_key reg) \<noteq> k"
  shows "buried k t (snd (register reg s))"
proof -
  have b: "registrar_inv s" "hm_get (rr_regs s) k = None" "hm_get (rr_tombstones s) k = Some t"
    using assms(1) by (auto simp: buried_def)
  have "hm_get (rr_regs (snd (register reg s))) k = None"
    using register_get [OF registrar_invD(1) [OF b(1)], of reg k] b(2) assms(2)
    by (cases "hm_get (rr_regs (snd (register reg s))) k") auto
  moreover have "rr_tombstones (snd (register reg s)) = rr_tombstones s"
    by (auto simp: register_def Let_def split: option.splits)
  ultimately show ?thesis using b register_inv [OF b(1)] by (simp add: buried_def)
qed

text \<open>Removing other bindings, one or several.\<close>

lemma remove_keeps_buried:
  assumes "buried k t s" "fresh_tombstone now t" "k \<notin> set ks"
  shows "buried k t (fold (\<lambda>k'. entomb now k' dlg) ks (s\<lparr>rr_regs := fold hm_remove ks (rr_regs s)\<rparr>))"
proof (rule fold_entomb_keeps [OF _ assms(2,3)])
  have b: "registrar_inv s" "hm_get (rr_regs s) k = None" "hm_get (rr_tombstones s) k = Some t"
    using assms(1) by (auto simp: buried_def)
  note ok = registrar_invD(1) [OF b(1)]
  show "buried k t (s\<lparr>rr_regs := fold hm_remove ks (rr_regs s)\<rparr>)"
    using b registrar_inv_shrink [OF b(1) fold_remove_bindings(1) [OF ok] fold_remove_bindings(3) [OF ok] fold_remove_bindings(4) [OF ok]]
    by (simp add: buried_def fold_remove_bindings(2) [OF ok])
qed

lemma unregister_keeps_buried:
  assumes "buried k t s" "fresh_tombstone now t"
  shows "buried k t (snd (unregister_binding now aor key dlg s))"
proof (cases "(aor, key) = k")
  case True
  with assms(1) show ?thesis by (simp add: unregister_binding_def buried_def)
next
  case False
  with remove_keeps_buried [OF assms, of "[(aor, key)]" dlg] assms(1) show ?thesis
    by (auto simp: unregister_binding_def split: option.splits)
qed

lemma unregister_all_keeps_buried:
  assumes "buried k t s" "fresh_tombstone now t"
  shows "buried k t (snd (unregister_all now aor dlg s))"
proof -
  have "k \<notin> fst ` set (rr_regs s)" using assms(1) by (simp add: buried_def map_of_eq_None_iff)
  then show ?thesis
    unfolding unregister_all_def Let_def snd_conv by (intro remove_keeps_buried [OF assms]) auto
qed

lemma plan_from_contacts: "plan_contacts policy eh cs = Some plan \<Longrightarrow> (c, n) \<in> set plan \<Longrightarrow> c \<in> set cs"
  by (induction cs arbitrary: plan) (auto simp: Let_def split: if_splits)

lemma apply_plan_keeps_buried:
  assumes "buried k t s" "fresh_tombstone now t" "t = (cid, n, t0)"
    and "\<And>c m. (c, m) \<in> set plan \<Longrightarrow> k = (rq_aor req, contact_key c) \<Longrightarrow>
           rq_reg_call_id req = cid \<and> rq_reg_cseq req \<le> n"
  shows "buried k t (snd (apply_plan in_memory now req plan acc s))"
  using assms(1,4)
proof (induction plan arbitrary: acc s)
  case (Cons p plan)
  obtain c m where p: "p = (c, m)" by (cases p)
  obtain rg rm gr where acc: "acc = (rg, rm, gr)" by (cases acc)
  have ih: "buried k t s1 \<Longrightarrow> buried k t (snd (apply_plan in_memory now req plan acc1 s1))" for s1 acc1
    by (rule Cons.IH) (use Cons.prems(2) in auto)
  show ?case
  proof (cases "k = (rq_aor req, contact_key c)")
    case True
    with Cons.prems assms(2,3) have "is_out_of_order now (rq_aor req) (contact_key c) (rq_reg_call_id req) (rq_reg_cseq req) s"
      by (auto simp: is_out_of_order_def buried_def fresh_tombstone_def p)
    with ih [OF Cons.prems(1)] show ?thesis
      by (simp add: p acc in_memory_def contact_key_def Let_def)
  next
    case False
    then have "buried k t (snd (register (registration_of now req c m) s))"
      by (intro register_keeps_buried [OF Cons.prems(1)]) (auto simp: contact_key_def)
    with ih unregister_keeps_buried [OF Cons.prems(1) assms(2)] ih [OF Cons.prems(1)] show ?thesis
      by (auto simp: p acc in_memory_def map_prod_def case_prod_beta Let_def split: option.splits)
  qed
qed simp

lemma step_keeps_buried:
  assumes "buried k t s" "fresh_tombstone now t" "not_newer k t op"
  shows "buried k t (registrar_step (now, op) s)"
proof (cases op)
  case (Request policy req)
  obtain cid n t0 where t: "t = (cid, n, t0)" by (cases t)
  have plan: "buried k t (snd (apply_plan in_memory now req plan acc s))"
    if "plan_contacts policy (rq_expires_header req) (rq_contacts req) = Some plan" for plan acc
    using assms(3) plan_from_contacts [OF that] Request t
    by (intro apply_plan_keeps_buried [OF assms(1,2) t]) (auto simp: image_iff)
  show ?thesis
    using plan assms(1) unregister_all_keeps_buried [OF assms(1,2), of "rq_aor req"
        "Some (rq_reg_call_id req, rq_reg_cseq req)"]
    unfolding Request registrar_step.simps process_def
    by (auto simp: in_memory_def map_prod_def case_prod_beta split: option.splits sum.splits prod.splits)
next
  case Sweep
  have b: "registrar_inv s" "hm_get (rr_regs s) k = None" "hm_get (rr_tombstones s) k = Some t"
    using assms(1) by (auto simp: buried_def)
  with cleanup_expired_inv [OF b(1)] retain_fresh [OF registrar_invD(2) [OF b(1)] b(3) assms(2)]
    fold_remove_bindings(2) [OF registrar_invD(1) [OF b(1)]]
  show ?thesis by (simp add: Sweep buried_def) (simp add: cleanup_expired_def Let_def)
next
  case (CloseConnection aor key)
  with unregister_keeps_buried [OF assms(1,2)] show ?thesis by simp
qed



section \<open>Spellings of an address\<close>

definition uri_word :: "string \<Rightarrow> bool" where
  "uri_word s \<longleftrightarrow> s \<noteq> [] \<and> list_all (\<lambda>c. c \<notin> set ''<>;?@:'' \<and> \<not> is_space c) s"

lemma rsplit_once_word: "c \<notin> set b \<Longrightarrow> rsplit_once c (a @ c # b) = Some (a, b)"
  by (simp add: rsplit_once_def split_once_word)

lemma rsplit_once_None: "c \<notin> set s \<Longrightarrow> rsplit_once c s = None"
  using split_once_None [of c "rev s"] by (simp add: rsplit_once_def)

lemma find_char_word: "c \<notin> set a \<Longrightarrow> find_char c (a @ c # b) = Some (length a)"
  by (induction a) (auto simp: find_char_def split: if_splits)

lemma rfind_char_last: "rfind_char c (a @ [c]) = Some (length a)"
  by (simp add: rfind_char_def find_char_def)

lemma find_char_None: "c \<notin> set s \<Longrightarrow> find_char c s = None"
  by (simp add: find_char_def)

lemma slice_between: "str_slice (length a + 1) (length (a @ [c] @ v)) (a @ [c] @ v @ w) = v"
  by (simp add: str_slice_def)

lemma trim_end_id: "c \<notin> set s \<Longrightarrow> trim_end_matches c s = s"
  by (cases s rule: rev_cases) (auto simp: trim_end_matches_def)

lemma uri_word_chars:
  assumes "uri_word s"
  shows "CHR ''<'' \<notin> set s" "CHR ''>'' \<notin> set s" "CHR '';'' \<notin> set s" "CHR ''?'' \<notin> set s"
    "CHR ''@'' \<notin> set s" "CHR '':'' \<notin> set s" "s \<noteq> []" "c \<in> set s \<Longrightarrow> \<not> is_space c"
  using assms by (auto simp: uri_word_def list_all_iff)

text \<open>The part of an address between the brackets, without parameters: \<open>port\<close> is empty or a colon and digits.\<close>

definition port_part :: "string \<Rightarrow> bool" where
  "port_part p \<longleftrightarrow> p = [] \<or> (\<exists>ds. p = CHR '':'' # ds \<and> ds \<noteq> [] \<and> list_all is_ascii_digit ds)"

lemma digit_plain: "is_ascii_digit c \<Longrightarrow> c \<notin> set ''<>;?@:'' \<and> \<not> is_space c"
  by (auto simp: is_ascii_digit_def is_space_def)

lemma port_part_chars:
  assumes "port_part p"
  shows "CHR ''<'' \<notin> set p" "CHR ''>'' \<notin> set p" "CHR '';'' \<notin> set p" "CHR ''?'' \<notin> set p"
    "CHR ''@'' \<notin> set p" "c \<in> set p \<Longrightarrow> \<not> is_space c"
  using assms digit_plain by (fastforce simp: port_part_def list_all_iff is_space_def)+

lemma host_without_port:
  assumes "uri_word h" "port_part p"
  shows "(case rsplit_once CHR '':'' (h @ p) of
      Some (h', port) \<Rightarrow> if h' \<noteq> [] \<and> list_all is_ascii_digit port then h' else h @ p
    | None \<Rightarrow> h @ p) = h"
proof (cases "p = []")
  case True
  then show ?thesis using uri_word_chars(6) [OF assms(1)] by (simp add: rsplit_once_None)
next
  case False
  then obtain ds where p: "p = CHR '':'' # ds" "list_all is_ascii_digit ds"
    using assms(2) by (auto simp: port_part_def)
  then have "CHR '':'' \<notin> set ds" using digit_plain by (fastforce simp: list_all_iff)
  with p show ?thesis using uri_word_chars(7) [OF assms(1)] by (simp add: rsplit_once_word)
qed

text \<open>From the cut on, the function works on the part of the value before parameters and headers.\<close>

lemma canonical_cut:
  assumes "uri_word u" "uri_word h" "port_part p"
    and "inner = ''sip:'' @ u @ ''@'' @ h @ p"
    and "takeWhile (\<lambda>c. c \<noteq> CHR '';'' \<and> c \<noteq> CHR ''?'') value = inner"
    and "find_char CHR ''<'' (trim raw) = None \<and> value = trim raw \<or>
      (\<exists>a b. find_char CHR ''<'' (trim raw) = Some a \<and> rfind_char CHR ''>'' (trim raw) = Some b \<and> a < b \<and>
         value = trim (str_slice (a + 1) b (trim raw)))"
  shows "canonical_aor raw = ''sip:'' @ u @ ''@'' @ to_ascii_lowercase h"
proof -
  have unwrap: "(case (find_char CHR ''<'' (trim raw), rfind_char CHR ''>'' (trim raw)) of
       (Some start, Some end_at) \<Rightarrow>
         if start < end_at then trim (str_slice (start + 1) end_at (trim raw)) else trim raw
     | _ \<Rightarrow> trim raw) = value"
    using assms(6) by (auto split: option.splits)
  note uc = uri_word_chars [OF assms(1)] and hc = uri_word_chars [OF assms(2)] and pc = port_part_chars [OF assms(3)]
  have ne: "inner \<noteq> []" "hd inner = CHR ''s''" by (simp_all add: assms(4))
  have last: "\<not> is_space (last inner)"
    using hc(7,8) pc(6) by (cases "p = []") (auto simp: assms(4))
  have "trim inner = inner" using ne last by (intro trim_id) (simp add: is_space_def)
  moreover have "trim_end_matches CHR ''>'' inner = inner"
    using uc(2) hc(2) pc(2) by (intro trim_end_id) (auto simp: assms(4))
  ultimately have cut: "trim_end_matches CHR ''>'' (trim (takeWhile (\<lambda>c. c \<noteq> CHR '';'' \<and> c \<noteq> CHR ''?'') value)) = inner"
    by (simp add: assms(5))
  have scheme: "split_once CHR '':'' inner = Some (''sip'', u @ ''@'' @ h @ p)"
    using split_once_word [of "CHR '':''" "''sip''" "u @ ''@'' @ h @ p"] by (simp add: assms(4))
  have user: "rsplit_once CHR ''@'' (u @ ''@'' @ h @ p) = Some (u, h @ p)"
    using rsplit_once_word [of "CHR ''@''" "h @ p" u] hc(5) pc(5) by simp
  have lower: "to_ascii_lowercase ''sip'' = ''sip''" by code_simp
  show ?thesis
    unfolding canonical_aor_def Let_def unwrap cut scheme
    by (simp add: user [simplified] lower eq_ignore_ascii_case_def host_without_port [OF assms(2,3)])
qed

text \<open>The spellings of an address agree. Whatever display name, brackets, port and parameters a
  phone writes in its REGISTER or a caller in its INVITE, \<^verbatim>\<open>canonical_aor\<close> gives the one key under
  which the bindings are kept, with the host in lower case.\<close>

theorem address_spellings_agree:
  assumes "uri_word u" "uri_word h" "port_part p"
    and "display = [] \<or> \<not> is_space (hd display)" "CHR ''<'' \<notin> set display"
    and "params = [] \<or> (hd params \<in> set '';?'' \<and> list_all (\<lambda>c. \<not> is_space c) params)"
  shows "canonical_aor (display @ ''<sip:'' @ u @ ''@'' @ h @ p @ params @ ''>'') =
      canonical_aor (''sip:'' @ u @ ''@'' @ h) \<and>
    canonical_aor (''sip:'' @ u @ ''@'' @ h) = ''sip:'' @ u @ ''@'' @ to_ascii_lowercase h"
proof -
  note uc = uri_word_chars [OF assms(1)] and hc = uri_word_chars [OF assms(2)] and pc = port_part_chars [OF assms(3)]
  let ?plain = "''sip:'' @ u @ ''@'' @ h"
  have plain: "trim ?plain = ?plain"
    using hc(7,8) by (intro trim_id) (auto simp: is_space_def)
  have bare: "canonical_aor ?plain = ''sip:'' @ u @ ''@'' @ to_ascii_lowercase h"
  proof (rule canonical_cut [OF assms(1,2), of "[]" ?plain ?plain])
    show "port_part []" by (simp add: port_part_def)
    show "takeWhile (\<lambda>c. c \<noteq> CHR '';'' \<and> c \<noteq> CHR ''?'') ?plain = ?plain"
      using uc(3,4) hc(3,4) by (auto simp: takeWhile_eq_all_conv)
    show "find_char CHR ''<'' (trim ?plain) = None \<and> ?plain = trim ?plain \<or>
      (\<exists>a b. find_char CHR ''<'' (trim ?plain) = Some a \<and> rfind_char CHR ''>'' (trim ?plain) = Some b \<and> a < b \<and>
         ?plain = trim (str_slice (a + 1) b (trim ?plain)))"
      unfolding plain using uc(1) hc(1) by (simp add: find_char_def)
  qed simp
  let ?inner = "''sip:'' @ u @ ''@'' @ h @ p"
  let ?whole = "?inner @ params"
  let ?raw = "display @ ''<'' @ ?whole @ ''>''"
  have raw: "trim ?raw = ?raw"
    using assms(4) by (intro trim_id) (cases display, auto simp: is_space_def)
  have whole: "trim ?whole = ?whole"
  proof (rule trim_id)
    have "\<not> is_space (last ?whole)"
      using assms(6) hc(7,8) pc(6) by (cases "params = []"; cases "p = []") (auto simp: list_all_iff)
    then show "?whole = [] \<or> \<not> is_space (hd ?whole) \<and> \<not> is_space (last ?whole)" by (simp add: is_space_def)
  qed
  have "canonical_aor ?raw = ''sip:'' @ u @ ''@'' @ to_ascii_lowercase h"
  proof (rule canonical_cut [OF assms(1-3), of ?inner ?whole])
    have "takeWhile (\<lambda>c. c \<noteq> CHR '';'' \<and> c \<noteq> CHR ''?'') params = []"
      using assms(6) by (cases params) auto
    moreover have "\<forall>c \<in> set ?inner. c \<noteq> CHR '';'' \<and> c \<noteq> CHR ''?''"
      using uc(3,4) hc(3,4) pc(3,4) by auto
    ultimately show "takeWhile (\<lambda>c. c \<noteq> CHR '';'' \<and> c \<noteq> CHR ''?'') ?whole = ?inner"
      by (subst takeWhile_append2) auto
    have first: "find_char CHR ''<'' ?raw = Some (length display)"
      using find_char_word [OF assms(5), of "?whole @ ''>''"] by simp
    have last: "rfind_char CHR ''>'' ?raw = Some (length (display @ ''<'' @ ?whole))"
      using rfind_char_last [of "CHR ''>''" "display @ ''<'' @ ?whole"] by simp
    show "find_char CHR ''<'' (trim ?raw) = None \<and> ?whole = trim ?raw \<or>
      (\<exists>a b. find_char CHR ''<'' (trim ?raw) = Some a \<and> rfind_char CHR ''>'' (trim ?raw) = Some b \<and> a < b \<and>
         ?whole = trim (str_slice (a + 1) b (trim ?raw)))"
      unfolding raw
      by (intro disjI2 exI conjI, rule first, rule last, simp, simp only: slice_between whole)
  qed simp
  with bare show ?thesis by simp
qed

theorem address_spellings_agree_witness:
  "canonical_aor ''Al <sip:alice@PBX.example:5060;transport=tcp>'' = ''sip:alice@pbx.example''"
proof -
  have "uri_word ''alice''" "uri_word ''PBX.example''" by code_simp+
  moreover have "port_part '':5060''"
  proof -
    have "list_all is_ascii_digit ''5060''" by code_simp
    then show ?thesis by (simp add: port_part_def)
  qed
  moreover have "list_all (\<lambda>c. \<not> is_space c) '';transport=tcp''" "to_ascii_lowercase ''PBX.example'' = ''pbx.example''"
    by code_simp+
  ultimately show ?thesis
    using address_spellings_agree [of "''alice''" "''PBX.example''" "'':5060''" "''Al ''" "'';transport=tcp''"]
    by (simp add: is_space_def)
qed

end
