(* ===== verification/Register_Handler.thy ===== *)
theory Register_Handler
  imports Registrar Digest_Auth Security_Manager
begin

text \<open>
  The handling of REGISTER in \<^verbatim>\<open>crates/sbc-core/src/sbc/mod.rs\<close>: the digest challenge and its
  failures, the identity check, the Contact headers, the registrar and the response. Of the request
  parsed by \<^verbatim>\<open>rsip\<close> the model has the values the handler reads, and the header lines a response
  echoes (all of the Via headers or the first one), or why they could not be built. The hash of the
  fingerprint and the CIDR type of the ban list are parameters. A response is its status code, the
  echoed lines and the lines added.
\<close>

section \<open>State\<close>

record register_view =
  vw_authorization :: "string option"
  vw_to :: "string option"
  vw_lines :: "string list"
  vw_contact :: "string option"
  vw_expires :: "string option"
  vw_user_agent :: "string option"
  vw_call_id :: "string option"
  vw_cseq :: "nat option"
  vw_echo :: "string list result"
  vw_echo_top :: "string list result"

record sip_reply =
  sp_code :: nat
  sp_echoed :: "string list"
  sp_extra :: "string list"

record register_metrics =
  mt_auth_challenges :: nat
  mt_auth_stale :: nat
  mt_auth_failures :: nat
  mt_identity_mismatch :: nat
  mt_security_bans :: nat
  mt_registrations :: nat
  mt_active_registrations :: nat
  mt_responses :: "nat list"

record sbc_register =
  sr_enable_digest_auth :: bool
  sr_auth :: "authenticator option"
  sr_register_policy :: register_policy
  sr_identity_policy :: identity_policy
  sr_identity :: "(string \<times> string) option"
  sr_security :: security_manager
  sr_registrar :: registrar
  sr_events :: event_bus
  sr_metrics :: register_metrics
  sr_persisted :: "ban_entry list"
  sr_sent :: "sip_reply list"

record 'net register_env =
  re_hash :: "string \<Rightarrow> socket_addr \<Rightarrow> string \<Rightarrow> nat"
  re_net_parse :: "string \<Rightarrow> 'net option"
  re_net_contains :: "'net \<Rightarrow> ip_addr \<Rightarrow> bool"

text \<open>The readings of one request: the monotonic clock, the wall clock (both in nanoseconds), random bytes.\<close>

record readings =
  rd_now :: instant
  rd_wall :: instant
  rd_random :: "byte list"

definition wall_ms :: "readings \<Rightarrow> nat" where "wall_ms rd = rd_wall rd div 1000000"

abbreviation on_metrics :: "(register_metrics \<Rightarrow> register_metrics) \<Rightarrow> sbc_register \<Rightarrow> sbc_register" where
  "on_metrics f s \<equiv> s\<lparr>sr_metrics := f (sr_metrics s)\<rparr>"

definition count_response :: "nat \<Rightarrow> sbc_register \<Rightarrow> sbc_register" where
  "count_response code s = on_metrics (\<lambda>m. m\<lparr>mt_responses := mt_responses m @ [code]\<rparr>) s"

definition send_reply :: "sip_reply \<Rightarrow> sbc_register \<Rightarrow> sbc_register" where
  "send_reply r s = s\<lparr>sr_sent := sr_sent s @ [r]\<rparr>"

section \<open>Responses\<close>

text \<open>\<^verbatim>\<open>build_plain_response_for_request\<close> with header lines added before the Content-Length.\<close>

definition plain_reply :: "register_view \<Rightarrow> nat \<Rightarrow> string list \<Rightarrow> sip_reply result" where
  "plain_reply vw code extra =
     map_sum id (\<lambda>ls. \<lparr>sp_code = code, sp_echoed = ls, sp_extra = extra\<rparr>) (vw_echo vw)"

definition response_for_request :: "register_view \<Rightarrow> nat \<Rightarrow> sip_reply" where
  "response_for_request vw code =
     (case plain_reply vw code [] of
        Inr r \<Rightarrow> r
      | Inl _ \<Rightarrow> \<lparr>sp_code = code, sp_echoed = [], sp_extra = []\<rparr>)"

definition build_register_401 :: "register_view \<Rightarrow> string \<Rightarrow> sip_reply result" where
  "build_register_401 vw challenge =
     map_sum id (\<lambda>ls. \<lparr>sp_code = 401, sp_echoed = ls, sp_extra = [''WWW-Authenticate: '' @ challenge]\<rparr>)
       (vw_echo_top vw)"

definition contact_value :: "nat \<Rightarrow> registration \<Rightarrow> string" where
  "contact_value now_ms b =
     ''<'' @ rg_contact b @ ''>;expires='' @ show_nat (Registrar.remaining_secs now_ms b) @
     (case rg_instance_id b of
        Some i \<Rightarrow> '';+sip.instance='' @ [dquote] @ i @ [dquote] | None \<Rightarrow> []) @
     (case rg_reg_id b of Some n \<Rightarrow> '';reg-id='' @ show_nat n | None \<Rightarrow> [])"

definition build_register_200 :: "nat \<Rightarrow> register_view \<Rightarrow> registration list \<Rightarrow> nat option \<Rightarrow> sip_reply result" where
  "build_register_200 now_ms vw bs grant =
     plain_reply vw 200
       (map (\<lambda>b. ''Contact: '' @ contact_value now_ms b) bs @
        (case grant of Some g \<Rightarrow> [''Expires: '' @ show_nat g] | None \<Rightarrow> []))"

text \<open>Count a response, then build and send it.\<close>

definition respond :: "nat \<Rightarrow> sip_reply result \<Rightarrow> sbc_register \<Rightarrow> unit result \<times> sbc_register" where
  "respond code reply s =
     (case reply of
        Inr r \<Rightarrow> (Inr (), send_reply r (count_response code s))
      | Inl e \<Rightarrow> (Inl e, count_response code s))"

section \<open>Authentication\<close>

definition challenge_client ::
  "readings \<Rightarrow> register_view \<Rightarrow> bool \<Rightarrow> authenticator \<Rightarrow> sbc_register \<Rightarrow> unit result \<times> sbc_register"
where
  "challenge_client rd vw stale a s =
     (let s1 = on_metrics (\<lambda>m. m\<lparr>mt_auth_challenges := incr64 (mt_auth_challenges m)\<rparr>) s;
          s2 = (if stale then on_metrics (\<lambda>m. m\<lparr>mt_auth_stale := incr64 (mt_auth_stale m)\<rparr>) s1 else s1);
          (challenge, a') = generate_challenge_with (rd_random rd) (as_secs (rd_wall rd)) stale a
      in respond 401 (build_register_401 vw challenge) (s2\<lparr>sr_auth := Some a'\<rparr>))"

definition count_auth_failure :: "sbc_register \<Rightarrow> sbc_register" where
  "count_auth_failure = on_metrics (\<lambda>m. m\<lparr>mt_auth_failures := incr64 (mt_auth_failures m)\<rparr>)"

definition reject_register_auth ::
  "'net register_env \<Rightarrow> readings \<Rightarrow> register_view \<Rightarrow> socket_addr \<Rightarrow> authenticator \<Rightarrow> auth_failure \<Rightarrow>
     sbc_register \<Rightarrow> unit result \<times> sbc_register"
where
  "reject_register_auth env rd vw source a failure s =
     (case failure of
        StaleNonce _ \<Rightarrow> challenge_client rd vw True a s
      | Replay _ \<Rightarrow> challenge_client rd vw True a s
      | Malformed \<Rightarrow>
          (Inr (), send_reply (response_for_request vw 400) (count_response 400 (count_auth_failure s)))
      | _ \<Rightarrow>
          let s1 = count_response 403 (count_auth_failure s);
              (entry, sec) = record_auth_failure (re_net_parse env) (re_net_contains env) (rd_now rd) (rd_wall rd)
                               (fst source) (failure_user failure) ''REGISTER'' (sr_security s1);
              s2 = s1\<lparr>sr_security := sec\<rparr>;
              s3 = (case entry of
                      Some e \<Rightarrow> (on_metrics (\<lambda>m. m\<lparr>mt_security_bans := incr64 (mt_security_bans m)\<rparr>) s2)
                                 \<lparr>sr_persisted := sr_persisted s2 @ [e]\<rparr>
                    | None \<Rightarrow> s2)
          in (Inr (), send_reply (response_for_request vw 403) s3))"

section \<open>The registration proper\<close>

text \<open>The loop over the header lines: contacts and whether a wildcard was seen.\<close>

fun gather_contacts ::
  "string list \<Rightarrow> contact_binding list \<Rightarrow> bool \<Rightarrow> string + contact_binding list \<times> bool"
where
  "gather_contacts [] contacts wildcard = Inr (contacts, wildcard)"
| "gather_contacts (line # rest) contacts wildcard =
     (case split_once CHR '':'' line of
        None \<Rightarrow> gather_contacts rest contacts wildcard
      | Some (name, val) \<Rightarrow>
          if \<not> (eq_ignore_ascii_case name ''contact'' \<or> name = ''m'')
          then gather_contacts rest contacts wildcard
          else case parse_contact_header (trim val) of
                 Inr None \<Rightarrow> gather_contacts rest contacts True
               | Inr (Some parsed) \<Rightarrow> gather_contacts rest (contacts @ parsed) wildcard
               | Inl e \<Rightarrow> Inl e)"

fun transport_debug :: "transport \<Rightarrow> string" where
  "transport_debug Udp = ''Udp''"
| "transport_debug Tcp = ''Tcp''"
| "transport_debug Tls = ''Tls''"
| "transport_debug Sctp = ''Sctp''"
| "transport_debug TlsSctp = ''TlsSctp''"
| "transport_debug Ws = ''Ws''"
| "transport_debug Wss = ''Wss''"

definition stored_channel :: "transport \<Rightarrow> nat option \<Rightarrow> nat option" where
  "stored_channel tr reply_tx = (if tr = Ws \<or> tr = Wss \<or> tr = Tls \<or> tr = Tcp then reply_tx else None)"

text \<open>The identity check of an authenticated user: whether the request is refused, and what is recorded.\<close>

definition check_register_identity ::
  "readings \<Rightarrow> socket_addr \<Rightarrow> string \<Rightarrow> string \<Rightarrow> sbc_register \<Rightarrow> bool \<times> sbc_register"
where
  "check_register_identity rd source user aor s =
     (case authorize_aor user aor
             (served_domains (map_option da_realm (sr_auth s)) (sr_identity s) (sr_identity_policy s)) of
        Inr _ \<Rightarrow> (False, s)
      | Inl why \<Rightarrow>
          let s1 = on_metrics (\<lambda>m. m\<lparr>mt_identity_mismatch := incr64 (mt_identity_mismatch m)\<rparr>) s;
              s2 = s1\<lparr>sr_security := emit (rd_wall rd)
                        (IdentityMismatch (ip_to_string (fst source)) user aor ''REGISTER'' (event_ts (rd_wall rd)))
                        (sr_security s1)\<rparr>;
              policy = sr_identity_policy s;
              enforce = (case why of
                           WrongUser _ \<Rightarrow> ip_enforce_register_aor policy
                         | WrongDomain _ \<Rightarrow> ip_enforce_register_aor policy \<and> ip_served_domains policy \<noteq> [])
          in (enforce, s2))"

definition note_registered :: "readings \<Rightarrow> string \<Rightarrow> registration \<Rightarrow> sbc_register \<Rightarrow> sbc_register" where
  "note_registered rd aor r s =
     (on_metrics (\<lambda>m. m\<lparr>mt_registrations := incr64 (mt_registrations m)\<rparr>) s)
     \<lparr>sr_events := publish (Registered aor (rg_contact r) (rg_expires r) (event_ts (rd_wall rd))) (sr_events s)\<rparr>"

definition note_removed :: "readings \<Rightarrow> string \<Rightarrow> bool \<Rightarrow> registration \<Rightarrow> sbc_register \<Rightarrow> sbc_register" where
  "note_removed rd aor wildcard r s =
     s\<lparr>sr_events := publish (Unregistered aor (rg_contact r) (if wildcard then ''wildcard'' else ''client'')
                        (event_ts (rd_wall rd))) (sr_events s)\<rparr>"

definition answer_register ::
  "readings \<Rightarrow> register_view \<Rightarrow> string \<Rightarrow> bool \<Rightarrow> register_result result \<Rightarrow> sbc_register \<Rightarrow>
     unit result \<times> sbc_register"
where
  "answer_register rd vw aor wildcard res s =
     (case res of
        Inr (RegisterOk bs regs gone grant) \<Rightarrow>
          let s1 = fold (note_removed rd aor wildcard) gone (fold (note_registered rd aor) regs s);
              s2 = on_metrics (\<lambda>m. m\<lparr>mt_active_registrations :=
                     registration_count (wall_ms rd) (sr_registrar s1)\<rparr>) s1
          in respond 200 (build_register_200 (wall_ms rd) vw bs grant) s2
      | Inr (IntervalTooBrief n) \<Rightarrow> respond 423 (plain_reply vw 423 [''Min-Expires: '' @ show_nat n]) s
      | Inr (BadRegister _) \<Rightarrow> respond 400 (plain_reply vw 400 []) s
      | Inl _ \<Rightarrow> (Inr (), send_reply (response_for_request vw 500) (count_response 500 s)))"

definition request_of ::
  "register_view \<Rightarrow> socket_addr \<Rightarrow> transport \<Rightarrow> nat option \<Rightarrow> string \<Rightarrow> contact_binding list \<Rightarrow> bool \<Rightarrow>
     string \<Rightarrow> register_request"
where
  "request_of vw source tr reply_tx aor contacts wildcard call_id =
     \<lparr>rq_aor = aor, rq_contacts = contacts, rq_wildcard = wildcard,
      rq_expires_header = Option.bind (vw_expires vw) (\<lambda>v. parse_uint u32_max (trim v)),
      rq_reg_call_id = call_id, rq_reg_cseq = (case vw_cseq vw of Some n \<Rightarrow> n | None \<Rightarrow> 1),
      rq_source = source, rq_reg_transport = to_ascii_uppercase (transport_debug tr),
      rq_user_agent = vw_user_agent vw, rq_reply_tx = stored_channel tr reply_tx\<rparr>"

text \<open>The part after the identity check.\<close>

definition run_register ::
  "readings \<Rightarrow> register_view \<Rightarrow> socket_addr \<Rightarrow> transport \<Rightarrow> nat option \<Rightarrow> string \<Rightarrow> sbc_register \<Rightarrow>
     unit result \<times> sbc_register"
where
  "run_register rd vw source tr reply_tx aor s =
     (case gather_contacts (vw_lines vw) [] False of
        Inl _ \<Rightarrow> respond 400 (plain_reply vw 400 []) s
      | Inr (contacts, wildcard) \<Rightarrow>
          (case vw_call_id vw of
             None \<Rightarrow> (Inl (OtherErr ''Missing Call-ID''), s)
           | Some call_id \<Rightarrow>
               let (res, reg) = process in_memory (sr_register_policy s) (wall_ms rd)
                     (request_of vw source tr reply_tx aor contacts wildcard call_id) (sr_registrar s)
               in answer_register rd vw aor wildcard res (s\<lparr>sr_registrar := reg\<rparr>)))"

text \<open>The part after authentication; \<open>user\<close> is the authenticated user, if any.\<close>

definition register_as ::
  "readings \<Rightarrow> register_view \<Rightarrow> socket_addr \<Rightarrow> transport \<Rightarrow> nat option \<Rightarrow> string option \<Rightarrow> sbc_register \<Rightarrow>
     unit result \<times> sbc_register"
where
  "register_as rd vw source tr reply_tx user s =
     (case vw_to vw of
        None \<Rightarrow> (Inl (OtherErr ''Missing To header''), s)
      | Some aor_raw \<Rightarrow>
          let aor = canonical_aor aor_raw;
              (refused, s1) = (case user of
                                 Some u \<Rightarrow> check_register_identity rd source u aor s
                               | None \<Rightarrow> (False, s))
          in if refused then (Inr (), send_reply (response_for_request vw 403) (count_response 403 s1))
             else run_register rd vw source tr reply_tx aor s1)"

definition handle_register ::
  "'net register_env \<Rightarrow> readings \<Rightarrow> register_view \<Rightarrow> socket_addr \<Rightarrow> transport \<Rightarrow> nat option \<Rightarrow> sbc_register \<Rightarrow>
     unit result \<times> sbc_register"
where
  "handle_register env rd vw source tr reply_tx s =
     (case (sr_enable_digest_auth s, sr_auth s) of
        (True, Some a) \<Rightarrow>
          (case vw_authorization vw of
             None \<Rightarrow> challenge_client rd vw False a s
           | Some auth_value \<Rightarrow>
               let fingerprint = re_hash env auth_value source (case vw_contact vw of Some c \<Rightarrow> c | None \<Rightarrow> []);
                   (verdict, a') = verify_with (as_secs (rd_wall rd)) auth_value ''REGISTER'' (Some fingerprint) a;
                   s1 = s\<lparr>sr_auth := Some a'\<rparr>
               in case verdict of
                    Inr username \<Rightarrow> register_as rd vw source tr reply_tx (Some username) s1
                  | Inl failure \<Rightarrow> reject_register_auth env rd vw source a' failure s1)
      | _ \<Rightarrow> register_as rd vw source tr reply_tx None s)"

section \<open>What each step leaves alone\<close>

named_theorems register_frame \<open>fields of the state that a step of the handler leaves alone\<close>

lemma reply_frame [register_frame]:
  "sr_registrar (count_response n s) = sr_registrar s" "sr_registrar (send_reply r s) = sr_registrar s"
  "sr_registrar (count_auth_failure s) = sr_registrar s"
  "sr_security (count_response n s) = sr_security s" "sr_security (send_reply r s) = sr_security s"
  "sr_security (count_auth_failure s) = sr_security s"
  "mt_responses (sr_metrics (count_response n s)) = mt_responses (sr_metrics s) @ [n]"
  "mt_responses (sr_metrics (send_reply r s)) = mt_responses (sr_metrics s)"
  "mt_responses (sr_metrics (count_auth_failure s)) = mt_responses (sr_metrics s)"
  by (simp_all add: count_response_def send_reply_def count_auth_failure_def)

lemma respond_frame [register_frame]:
  "sr_registrar (snd (respond n r s)) = sr_registrar s" "sr_security (snd (respond n r s)) = sr_security s"
  "mt_responses (sr_metrics (snd (respond n r s))) = mt_responses (sr_metrics s) @ [n]"
  by (auto simp: respond_def register_frame split: sum.splits)

lemma challenge_frame [register_frame]:
  "sr_registrar (snd (challenge_client rd vw st a s)) = sr_registrar s"
  "sr_security (snd (challenge_client rd vw st a s)) = sr_security s"
  "mt_responses (sr_metrics (snd (challenge_client rd vw st a s))) = mt_responses (sr_metrics s) @ [401]"
  by (simp_all add: challenge_client_def Let_def register_frame split: prod.split)

lemma reject_frame [register_frame]:
  "sr_registrar (snd (reject_register_auth env rd vw src a f s)) = sr_registrar s"
  by (auto simp: reject_register_auth_def register_frame Let_def split: auth_failure.split prod.split option.split)

lemma identity_frame [register_frame]:
  "sr_registrar (snd (check_register_identity rd src u aor s)) = sr_registrar s"
  "sr_register_policy (snd (check_register_identity rd src u aor s)) = sr_register_policy s"
  by (auto simp: check_register_identity_def Let_def split: sum.split)

lemma note_frame [register_frame]:
  "sr_registrar (fold (note_registered rd aor) rs s) = sr_registrar s"
  "sr_registrar (fold (note_removed rd aor w) rs s) = sr_registrar s"
  by (induction rs arbitrary: s) (simp_all add: note_registered_def note_removed_def)

lemma answer_frame [register_frame]:
  "sr_registrar (snd (answer_register rd vw aor w res s)) = sr_registrar s"
  by (auto simp: answer_register_def register_frame Let_def split: sum.split register_result.split)

lemma identity_enforced:
  assumes "ip_enforce_register_aor (sr_identity_policy s)"
    and "fst (check_register_identity rd src user aor s) = False"
  shows "or_default (uri_user aor) = user"
  using assms by (auto simp: check_register_identity_def authorize_aor_cases Let_def split: if_splits)

text \<open>What the parts after the identity check and after authentication can do to the bindings.\<close>

lemma run_register_bindings:
  assumes "registrar_inv (sr_registrar s)" "run_register rd vw src tr tx aor s = (res, s')"
    and "hm_get (rr_regs (sr_registrar s')) k = Some r" "hm_get (rr_regs (sr_registrar s)) k \<noteq> Some r"
  shows "fst k = aor \<and> vw_call_id vw = Some (rg_call_id r)"
proof -
  have changed: "sr_registrar s' \<noteq> sr_registrar s" using assms(3,4) by auto
  show ?thesis
  proof (cases "gather_contacts (vw_lines vw) [] False")
    case (Inl e)
    with assms(2) changed show ?thesis
      using respond_frame(1) [of 400 "plain_reply vw 400 []" s] by (simp add: run_register_def)
  next
    case (Inr cw)
    obtain contacts wildcard where cw: "cw = (contacts, wildcard)" by (cases cw)
    show ?thesis
    proof (cases "vw_call_id vw")
      case None
      with assms(2) changed Inr show ?thesis by (simp add: run_register_def cw)
    next
      case (Some cid)
      let ?req = "request_of vw src tr tx aor contacts wildcard cid"
      obtain res1 reg where p: "process in_memory (sr_register_policy s) (wall_ms rd) ?req (sr_registrar s) = (res1, reg)"
        by fastforce
      have "sr_registrar s' = reg"
        using assms(2) Inr Some p answer_frame [of rd vw aor wildcard res1 "s\<lparr>sr_registrar := reg\<rparr>"]
        by (simp add: run_register_def cw)
      with memory.process_effect(2) [OF assms(1) p, of k r] assms(3,4)
      have "granted_by (sr_register_policy s) ?req k r" by auto
      with Some show ?thesis by (simp add: granted_by_def request_of_def)
    qed
  qed
qed

lemma register_as_bindings:
  assumes "registrar_inv (sr_registrar s)" "register_as rd vw src tr tx (Some user) s = (res, s')"
    and "ip_enforce_register_aor (sr_identity_policy s)"
    and "hm_get (rr_regs (sr_registrar s')) k = Some r" "hm_get (rr_regs (sr_registrar s)) k \<noteq> Some r"
  shows "or_default (uri_user (fst k)) = user \<and> vw_call_id vw = Some (rg_call_id r)"
proof (cases "vw_to vw")
  case None
  with assms show ?thesis by (simp add: register_as_def)
next
  case (Some raw)
  obtain refused s1 where c: "check_register_identity rd src user (canonical_aor raw) s = (refused, s1)" by fastforce
  have reg: "sr_registrar s1 = sr_registrar s"
    using identity_frame(1) [of rd src user "canonical_aor raw" s] by (simp add: c)
  have "\<not> refused"
    using assms(2,4,5) reg by (auto simp: register_as_def Some c Let_def register_frame split: if_splits)
  moreover from this have "run_register rd vw src tr tx (canonical_aor raw) s1 = (res, s')"
    using assms(2) by (simp add: register_as_def Some c)
  note run_register_bindings [OF _ this, of k r]
  ultimately show ?thesis
    using assms(1,4,5) reg identity_enforced [OF assms(3), of rd src user "canonical_aor raw"] by (simp add: c)
qed

text \<open>C10: Nobody registers for somebody else. With digest authentication on and the address check
  enforced, a binding that is new or changed after a REGISTER belongs to an address whose user part
  is the user whose password the request proved: the Authorization header was there and verified,
  and the binding carries the Call-ID of the request.\<close>

theorem register_needs_own_password:
  assumes "registrar_inv (sr_registrar s)" "sr_enable_digest_auth s" "sr_auth s = Some a"
    and "ip_enforce_register_aor (sr_identity_policy s)"
    and "handle_register env rd vw source tr reply_tx s = (res, s')"
    and "hm_get (rr_regs (sr_registrar s')) k = Some r" "hm_get (rr_regs (sr_registrar s)) k \<noteq> Some r"
  shows "\<exists>hdr a'. vw_authorization vw = Some hdr \<and>
    verify_with (as_secs (rd_wall rd)) hdr ''REGISTER''
      (Some (re_hash env hdr source (or_default (vw_contact vw)))) a = (Inr (or_default (uri_user (fst k))), a') \<and>
    vw_call_id vw = Some (rg_call_id r)"
proof -
  have changed: "sr_registrar s' \<noteq> sr_registrar s" using assms(6,7) by auto
  obtain hdr where hdr: "vw_authorization vw = Some hdr"
    using assms(2,3,5) changed challenge_frame(1) [of rd vw False a s]
    by (cases "vw_authorization vw") (auto simp: handle_register_def)
  let ?fp = "re_hash env hdr source (or_default (vw_contact vw))"
  obtain verdict a' where v: "verify_with (as_secs (rd_wall rd)) hdr ''REGISTER'' (Some ?fp) a = (verdict, a')" by fastforce
  let ?s1 = "s\<lparr>sr_auth := Some a'\<rparr>"
  have run: "(case verdict of Inr u \<Rightarrow> register_as rd vw source tr reply_tx (Some u) ?s1
      | Inl f \<Rightarrow> reject_register_auth env rd vw source a' f ?s1) = (res, s')"
    using assms(2,3,5) hdr v by (simp add: handle_register_def or_default_def Let_def)
  show ?thesis
  proof (cases verdict)
    case (Inl f)
    with run changed reject_frame [of env rd vw source a' f ?s1] show ?thesis by simp
  next
    case (Inr u)
    with run register_as_bindings [of ?s1 rd vw source tr reply_tx u res s' k r] assms(1,4,6,7) v hdr
    show ?thesis by simp
  qed
qed

section \<open>The response of a successful REGISTER\<close>

text \<open>A Contact value whose parameters are written by \<^verbatim>\<open>build_register_200\<close>.\<close>

definition contact_uri_ok :: "string \<Rightarrow> bool" where
  "contact_uri_ok u \<longleftrightarrow> starts_with u ''sip:'' \<and> trim u = u \<and>
     CHR ''>'' \<notin> set u \<and> CHR ''<'' \<notin> set u \<and> dquote \<notin> set u"

definition instance_ok :: "string \<Rightarrow> bool" where
  "instance_ok i \<longleftrightarrow> i \<noteq> [] \<and> dquote \<notin> set i \<and> CHR '';'' \<notin> set i"

lemma trim_quoted: "instance_ok i \<Longrightarrow> trim_matches dquote (dquote # i @ [dquote]) = i"
proof -
  assume "instance_ok i"
  then have "i \<noteq> []" "dquote \<notin> set i" by (auto simp: instance_ok_def)
  then have "dropWhile (\<lambda>x. x = dquote) (i @ [dquote]) = i @ [dquote]"
    "dropWhile (\<lambda>x. x = dquote) (rev i) = rev i"
    by (cases i, auto) (cases i rule: rev_cases, auto)
  then show ?thesis by (simp add: trim_matches_def)
qed

lemma show_nat_plain:
  "CHR '';'' \<notin> set (show_nat n)" "dquote \<notin> set (show_nat n)" "CHR ''='' \<notin> set (show_nat n)"
  "show_nat n \<noteq> []" "c \<in> set (show_nat n) \<Longrightarrow> \<not> is_space c"
  using show_nat_decimal [of n] by (auto simp: list_all_iff is_ascii_digit_def is_space_def)

lemma trim_show_nat: "trim (show_nat n) = show_nat n" "trim_matches dquote (show_nat n) = show_nat n"
proof -
  show "trim (show_nat n) = show_nat n"
    using show_nat_plain(4) [of n] show_nat_plain(5) [where n = n] by (intro trim_id) (metis hd_in_set last_in_set)
  show "trim_matches dquote (show_nat n) = show_nat n"
    using show_nat_plain(2) [of n] by (simp add: trim_matches_def dropWhile_absent)
qed

lemma expires_param:
  "n \<le> u32_max \<Longrightarrow> contact_param (''expires='' @ show_nat n) b = Inr (b\<lparr>cb_expires := Some n\<rparr>)"
proof -
  assume n: "n \<le> u32_max"
  have "split_once CHR ''='' (''expires='' @ show_nat n) = Some (''expires'', show_nat n)"
    using split_once_word [of "CHR ''=''" "''expires''" "show_nat n"] by simp
  moreover have "to_ascii_lowercase (trim ''expires'') = ''expires''" by code_simp
  ultimately show ?thesis by (simp add: contact_param_def trim_show_nat parse_show_nat [OF n])
qed

lemma instance_param:
  "instance_ok i \<Longrightarrow>
   contact_param (''+sip.instance='' @ [dquote] @ i @ [dquote]) b = Inr (b\<lparr>cb_instance_id := Some i\<rparr>)"
proof -
  assume i: "instance_ok i"
  have "split_once CHR ''='' (''+sip.instance='' @ [dquote] @ i @ [dquote]) =
      Some (''+sip.instance'', [dquote] @ i @ [dquote])"
    using split_once_word [of "CHR ''=''" "''+sip.instance''" "[dquote] @ i @ [dquote]"] by simp
  moreover have "to_ascii_lowercase (trim ''+sip.instance'') = ''+sip.instance''" by code_simp
  moreover have "trim ([dquote] @ i @ [dquote]) = [dquote] @ i @ [dquote]"
    by (rule trim_id) (simp add: is_space_def)
  ultimately show ?thesis by (simp add: contact_param_def trim_quoted [OF i])
qed

lemma reg_id_param:
  "n \<le> u32_max \<Longrightarrow> contact_param (''reg-id='' @ show_nat n) b = Inr (b\<lparr>cb_reg_id := Some n\<rparr>)"
proof -
  assume n: "n \<le> u32_max"
  have "split_once CHR ''='' (''reg-id='' @ show_nat n) = Some (''reg-id'', show_nat n)"
    using split_once_word [of "CHR ''=''" "''reg-id''" "show_nat n"] by simp
  moreover have "to_ascii_lowercase (trim ''reg-id'') = ''reg-id''" by code_simp
  ultimately show ?thesis by (simp add: contact_param_def trim_show_nat parse_show_nat [OF n])
qed

lemma params_list:
  assumes "\<forall>p \<in> set ps. CHR '';'' \<notin> set p \<and> trim p = p"
  shows "map trim (tl (split_on CHR '';'' (concat (map (Cons CHR '';'') ps)))) = ps"
  using assms
proof (induction ps)
  case (Cons p ps)
  then have p: "CHR '';'' \<notin> set p" "trim p = p" and ps: "\<forall>p \<in> set ps. CHR '';'' \<notin> set p \<and> trim p = p" by auto
  have rest: "split_on CHR '';'' (p @ concat (map (Cons CHR '';'') ps)) =
      p # tl (split_on CHR '';'' (concat (map (Cons CHR '';'') ps)))"
  proof (cases ps)
    case Nil
    then show ?thesis using p(1) by (simp add: split_on_word)
  next
    case (Cons q qs)
    then show ?thesis using p(1)
      by (simp add: split_on_append split_on_word)
  qed
  show ?case using Cons.IH [OF ps] p(2) by (simp add: rest)
qed simp

definition contact_params_of :: "nat \<Rightarrow> registration \<Rightarrow> string list" where
  "contact_params_of now_ms b =
     (''expires='' @ show_nat (Registrar.remaining_secs now_ms b)) #
     (case rg_instance_id b of Some i \<Rightarrow> [''+sip.instance='' @ [dquote] @ i @ [dquote]] | None \<Rightarrow> []) @
     (case rg_reg_id b of Some n \<Rightarrow> [''reg-id='' @ show_nat n] | None \<Rightarrow> [])"

lemma contact_value_params:
  "contact_value now_ms b = ''<'' @ rg_contact b @ ''>'' @ concat (map (Cons CHR '';'') (contact_params_of now_ms b))"
  by (auto simp: contact_value_def contact_params_of_def split: option.split)

definition params_fit :: "nat \<Rightarrow> registration \<Rightarrow> bool" where
  "params_fit now_ms b \<longleftrightarrow> Registrar.remaining_secs now_ms b \<le> u32_max \<and>
     (\<forall>i. rg_instance_id b = Some i \<longrightarrow> instance_ok i) \<and> (\<forall>n. rg_reg_id b = Some n \<longrightarrow> n \<le> u32_max)"

lemma trim_named:
  "trim (''expires='' @ show_nat n) = ''expires='' @ show_nat n"
  "trim (''reg-id='' @ show_nat n) = ''reg-id='' @ show_nat n"
  "trim (''+sip.instance='' @ [dquote] @ i @ [dquote]) = ''+sip.instance='' @ [dquote] @ i @ [dquote]"
  using show_nat_plain(4) [of n] show_nat_plain(5) [where n = n] last_in_set
  by (auto intro!: trim_id simp: is_space_def)

lemma params_plain:
  "params_fit now_ms b \<Longrightarrow> p \<in> set (contact_params_of now_ms b) \<Longrightarrow> CHR '';'' \<notin> set p \<and> trim p = p"
  using show_nat_plain(1)
  by (auto simp: contact_params_of_def params_fit_def instance_ok_def trim_named [simplified] split: option.splits)

lemma params_read:
  assumes "params_fit now_ms b"
  shows "contact_params (contact_params_of now_ms b) \<lparr>cb_uri = u, cb_expires = None, cb_instance_id = None, cb_reg_id = None\<rparr> =
    Inr \<lparr>cb_uri = u, cb_expires = Some (Registrar.remaining_secs now_ms b), cb_instance_id = rg_instance_id b,
         cb_reg_id = rg_reg_id b\<rparr>"
  using assms expires_param [of "Registrar.remaining_secs now_ms b"] instance_param reg_id_param
  by (cases "rg_instance_id b"; cases "rg_reg_id b") (simp_all add: contact_params_of_def params_fit_def)

lemma contact_read:
  assumes "contact_uri_ok (rg_contact b)" "params_fit now_ms b"
  shows "parse_contact (contact_value now_ms b) =
    Inr \<lparr>cb_uri = rg_contact b, cb_expires = Some (Registrar.remaining_secs now_ms b),
         cb_instance_id = rg_instance_id b, cb_reg_id = rg_reg_id b\<rparr>"
proof -
  let ?u = "rg_contact b"
  let ?ps = "concat (map (Cons CHR '';'') (contact_params_of now_ms b))"
  have u: "starts_with ?u ''sip:''" "trim ?u = ?u" "CHR ''>'' \<notin> set ?u" using assms(1) by (auto simp: contact_uri_ok_def)
  have item: "contact_value now_ms b = ''<'' @ ?u @ ''>'' @ ?ps" by (rule contact_value_params)
  have "find_char CHR ''<'' (contact_value now_ms b) = Some 0" by (simp add: item find_char_def)
  moreover have "find_char CHR ''>'' (contact_value now_ms b) = Some (Suc (length ?u))"
    using find_char_word [of "CHR ''>''" "''<'' @ ?u" ?ps] u(3) by (simp add: item)
  moreover have "str_slice 1 (Suc (length ?u)) (contact_value now_ms b) = ?u" by (simp add: str_slice_def item)
  moreover have "drop (Suc (Suc (length ?u))) (contact_value now_ms b) = ?ps" by (simp add: item)
  ultimately have "contact_uri_params (contact_value now_ms b) = Inr (?u, contact_params_of now_ms b)"
    using u(2) params_list [of "contact_params_of now_ms b"] params_plain [OF assms(2)]
    by (simp add: contact_uri_params_def)
  moreover have "CHR '':'' \<in> set ?u" using u(1) by (auto simp: starts_with_iff)
  ultimately show ?thesis using u(1) by (simp add: parse_contact_def params_read [OF assms(2)])
qed
lemma split_contacts_inside:
  "\<forall>c \<in> set w. c \<noteq> dquote \<and> c \<noteq> CHR ''<'' \<and> c \<noteq> CHR ''>'' \<Longrightarrow> 0 < d \<Longrightarrow>
   fold split_contacts_step w (out, cur, False, d) = (out, cur @ w, False, d)"
  by (induction w arbitrary: cur) auto

lemma split_contacts_quoted:
  "dquote \<notin> set w \<Longrightarrow> fold split_contacts_step w (out, cur, True, d) = (out, cur @ w, True, d)"
  by (induction w arbitrary: cur) auto

lemma split_contacts_plain:
  "\<forall>c \<in> set w. c \<noteq> CHR ''<'' \<and> c \<noteq> CHR ''>'' \<and> c \<noteq> CHR '','' \<and> c \<noteq> dquote \<Longrightarrow>
   fold split_contacts_step w (out, cur, False, d) = (out, cur @ w, False, d)"
  by (induction w arbitrary: cur) auto

lemma show_nat_unsplit: "\<forall>c \<in> set (show_nat n). c \<noteq> CHR ''<'' \<and> c \<noteq> CHR ''>'' \<and> c \<noteq> CHR '','' \<and> c \<noteq> dquote"
  using show_nat_decimal [of n] by (auto simp: list_all_iff is_ascii_digit_def)

text \<open>Text that the splitter carries over whole.\<close>

definition unsplit :: "string \<Rightarrow> bool" where
  "unsplit w \<longleftrightarrow> (\<forall>out cur. fold split_contacts_step w (out, cur, False, 0) = (out, cur @ w, False, 0))"

lemma unsplit_append: "unsplit a \<Longrightarrow> unsplit b \<Longrightarrow> unsplit (a @ b)"
  by (simp add: unsplit_def)

lemma unsplit_plain:
  "\<forall>c \<in> set w. c \<noteq> CHR ''<'' \<and> c \<noteq> CHR ''>'' \<and> c \<noteq> CHR '','' \<and> c \<noteq> dquote \<Longrightarrow> unsplit w"
  by (simp add: unsplit_def split_contacts_plain)

lemma unsplit_quoted: "dquote \<notin> set w \<Longrightarrow> unsplit (dquote # w @ [dquote])"
  by (simp add: unsplit_def split_contacts_quoted)

lemma unsplit_bracketed:
  "\<forall>c \<in> set w. c \<noteq> dquote \<and> c \<noteq> CHR ''<'' \<and> c \<noteq> CHR ''>'' \<Longrightarrow> unsplit (CHR ''<'' # w @ ''>'')"
  by (simp add: unsplit_def split_contacts_inside)

lemma one_contact:
  assumes "contact_uri_ok (rg_contact b)" "params_fit now_ms b"
  shows "split_contacts (contact_value now_ms b) = [contact_value now_ms b]"
    and "trim (contact_value now_ms b) = contact_value now_ms b"
proof -
  let ?n = "show_nat (Registrar.remaining_secs now_ms b)"
  have uri: "unsplit (''<'' @ rg_contact b @ ''>'')"
    using assms(1) unsplit_bracketed [of "rg_contact b"] by (auto simp: contact_uri_ok_def)
  have num: "unsplit (show_nat n)" for n by (rule unsplit_plain [OF show_nat_unsplit])
  have names: "unsplit '';expires=''" "unsplit '';+sip.instance=''" "unsplit '';reg-id=''"
    by (rule unsplit_plain, simp)+
  have inst: "unsplit (case rg_instance_id b of
      Some i \<Rightarrow> '';+sip.instance='' @ [dquote] @ i @ [dquote] | None \<Rightarrow> [])"
    using assms(2) unsplit_append [OF names(2) unsplit_quoted]
    by (auto simp: params_fit_def instance_ok_def unsplit_plain split: option.split)
  have reg: "unsplit (case rg_reg_id b of Some n \<Rightarrow> '';reg-id='' @ show_nat n | None \<Rightarrow> [])"
    using unsplit_append [OF names(3) num] by (auto simp: unsplit_plain split: option.split)
  have split: "contact_value now_ms b = (''<'' @ rg_contact b @ ''>'') @ '';expires='' @ ?n @
      (case rg_instance_id b of Some i \<Rightarrow> '';+sip.instance='' @ [dquote] @ i @ [dquote] | None \<Rightarrow> []) @
      (case rg_reg_id b of Some n \<Rightarrow> '';reg-id='' @ show_nat n | None \<Rightarrow> [])"
    by (simp add: contact_value_def)
  have "unsplit (contact_value now_ms b)"
    unfolding split by (intro unsplit_append uri names num inst reg)
  then have fold: "fold split_contacts_step (contact_value now_ms b) ([], [], False, 0) =
      ([], contact_value now_ms b, False, 0)"
    by (simp add: unsplit_def)
  have ends: "\<not> is_space (last (contact_value now_ms b))"
    using show_nat_plain(4,5) last_in_set
    by (cases "rg_instance_id b"; cases "rg_reg_id b") (auto simp: contact_value_def is_space_def)
  show t: "trim (contact_value now_ms b) = contact_value now_ms b"
    using ends by (intro trim_id) (simp add: contact_value_def is_space_def)
  show "split_contacts (contact_value now_ms b) = [contact_value now_ms b]"
    by (simp add: split_contacts_def fold t) (simp add: contact_value_def)
qed

text \<open>The phone learns from the 200 what was granted. Each Contact value that the response to a
  REGISTER lists is read back by the same grammar as the request's: the contact URI, the seconds
  left, the instance id and the reg-id of the binding, and nothing else.\<close>

theorem contact_of_200_reads_back:
  assumes "contact_uri_ok (rg_contact b)" "params_fit now_ms b"
  shows "parse_contact_header (contact_value now_ms b) =
    Inr (Some [\<lparr>cb_uri = rg_contact b, cb_expires = Some (Registrar.remaining_secs now_ms b),
                cb_instance_id = rg_instance_id b, cb_reg_id = rg_reg_id b\<rparr>])"
proof -
  have "contact_value now_ms b \<noteq> ''*''" by (simp add: contact_value_def)
  then show ?thesis
    using one_contact [OF assms] contact_read [OF assms] by (simp add: parse_contact_header_def)
qed

theorem contact_of_200_reads_back_witness:
  "parse_contact_header ''<sip:b@h>;expires=3600'' =
     Inr (Some [\<lparr>cb_uri = ''sip:b@h'', cb_expires = Some 3600, cb_instance_id = None, cb_reg_id = None\<rparr>])"
proof -
  let ?b = "some_registration 2 ''sip:bob@h'' ''sip:b@h''"
  have b: "rg_contact ?b = ''sip:b@h''" "Registrar.remaining_secs 2 ?b = 3600" "rg_instance_id ?b = None" "rg_reg_id ?b = None"
    by (simp_all add: some_registration_def registration_of_def registration_new_def sample_contact_def
        Registrar.remaining_secs_def)
  have "contact_uri_ok (rg_contact ?b)" unfolding b by code_simp
  moreover have "params_fit 2 ?b" by (simp add: params_fit_def b u32_max_def)
  ultimately have "parse_contact_header (contact_value 2 ?b) =
      Inr (Some [\<lparr>cb_uri = ''sip:b@h'', cb_expires = Some 3600, cb_instance_id = None, cb_reg_id = None\<rparr>])"
    using contact_of_200_reads_back [of ?b 2] by (simp add: b)
  moreover have "show_nat 3600 = ''3600''"
    by (simp add: show_nat_def show_base.simps digit_char_def) code_simp
  ultimately show ?thesis by (simp add: contact_value_def b)
qed

section \<open>One phone registers\<close>

definition sample_auth :: authenticator where
  "sample_auth = snd (generate_challenge_with [1, 2, 3, 4] 1000 False
     (authenticator_new ''example.com'' [(''alice'', ''secret123'')]))"

definition sample_answer :: string where
  "sample_answer = generate_digest_response ''0a4f113b'' ''alice'' ''secret123''
     \<lparr>dc_realm = ''example.com'', dc_nonce = generate_nonce [1, 2, 3, 4], dc_algorithm = ''MD5'',
      dc_qop = Some ''auth'', dc_opaque = None\<rparr> ''REGISTER'' ''sip:example.com''"

definition sample_state :: sbc_register where
  "sample_state =
     \<lparr>sr_enable_digest_auth = True, sr_auth = Some sample_auth, sr_register_policy = register_policy_default,
      sr_identity_policy = identity_policy_default, sr_identity = None,
      sr_security = security_manager_new \<lparr>sf_ban = default_ban_config,
        sf_destinations = default_destinations_config, sf_user_limits = default_user_limits_config\<rparr>,
      sr_registrar = registrar_new, sr_events = [],
      sr_metrics = \<lparr>mt_auth_challenges = 0, mt_auth_stale = 0, mt_auth_failures = 0, mt_identity_mismatch = 0,
        mt_security_bans = 0, mt_registrations = 0, mt_active_registrations = 0, mt_responses = []\<rparr>,
      sr_persisted = [], sr_sent = []\<rparr>"

definition sample_view :: "string \<Rightarrow> register_view" where
  "sample_view authorization =
     \<lparr>vw_authorization = Some authorization, vw_to = Some ''<sip:alice@example.com>'',
      vw_lines = [''Contact: <sip:a@h>''], vw_contact = Some ''<sip:a@h>'', vw_expires = None,
      vw_user_agent = None, vw_call_id = Some ''c1'', vw_cseq = Some 2, vw_echo = Inr [], vw_echo_top = Inr []\<rparr>"

definition sample_env :: "unit register_env" where
  "sample_env = \<lparr>re_hash = (\<lambda>_ _ _. 7), re_net_parse = (\<lambda>_. None), re_net_contains = (\<lambda>_ _. False)\<rparr>"

definition sample_readings :: readings where
  "sample_readings = \<lparr>rd_now = 0, rd_wall = secs 1001, rd_random = [5]\<rparr>"

lemma sample_verified:
  "\<exists>a'. verify_with 1001 sample_answer ''REGISTER'' (Some 7) sample_auth = (Inr ''alice'', a')"
proof -
  let ?a = "authenticator_new ''example.com'' [(''alice'', ''secret123'')]"
  have ok: "fits (da_realm ?a)" "fits ''alice''" "fits ''sip:example.com''" "fits ''0a4f113b''"
    "hm_get (da_users ?a) ''alice'' = Some (compute_ha1 ''alice'' (da_realm ?a) ''secret123'')"
    "1001 - 1000 \<le> da_nonce_ttl ?a" "da_realm ?a = ''example.com''"
    by (simp_all add: fits_def authenticator_new_def build_ha1_map_def)
  have "fst (verify_with 1001 sample_answer ''REGISTER'' (Some 7) sample_auth) = Inr ''alice''"
    using answer_accepted [OF ok(1-4) _ ok(5,6), of "[1, 2, 3, 4]" "''REGISTER''" "Some 7" False] ok(7)
    by (simp add: sample_auth_def sample_answer_def)
  then show ?thesis by (metis prod.collapse)
qed

lemma process_one:
  assumes "rq_contacts req = [c]" "\<not> rq_wildcard req" "cb_expires c = None" "rq_expires_header req = None"
  shows "snd (process in_memory register_policy_default now req registrar_new) =
     \<lparr>rr_regs = [((rq_aor req, contact_key c), registration_of now req c 3600)], rr_tombstones = []\<rparr>"
  using assms
  by (simp add: process_def in_memory_def registrar_new_def is_out_of_order_def register_def Let_def evict_idle
      aor_count_def MAX_BINDINGS_PER_AOR_def MAX_BINDINGS_TOTAL_def MAX_CONTACTS_PER_REQUEST_def
      register_policy_default_def hm_insert_def contact_key_def)

lemma domain_alone_not_enforced:
  assumes "ip_served_domains (sr_identity_policy s) = []" "or_default (uri_user aor) = user"
  shows "fst (check_register_identity rd src user aor s) = False"
  using assms by (simp add: check_register_identity_def authorize_aor_cases Let_def)

lemma sample_registered:
  "\<exists>res s'. handle_register sample_env sample_readings (sample_view sample_answer) (V4 10 0 0 2, 5060) Udp None sample_state = (res, s') \<and>
     hm_get (rr_regs (sr_registrar s')) (''sip:alice@example.com'', ''contact:sip:a@h'') \<noteq> None"
proof -
  let ?vw = "sample_view sample_answer" and ?src = "(V4 10 0 0 2, 5060)"
  obtain a' where v: "verify_with 1001 sample_answer ''REGISTER'' (Some 7) sample_auth = (Inr ''alice'', a')"
    using sample_verified by blast
  define s1 where "s1 = sample_state\<lparr>sr_auth := Some a'\<rparr>"
  have aor: "canonical_aor ''<sip:alice@example.com>'' = ''sip:alice@example.com''" by code_simp
  have user: "or_default (uri_user ''sip:alice@example.com'') = ''alice''" by code_simp
  have policy: "ip_served_domains (sr_identity_policy s1) = []"
    by (simp add: s1_def sample_state_def identity_policy_default_def)
  have "\<not> fst (check_register_identity sample_readings ?src ''alice'' ''sip:alice@example.com'' s1)"
    using domain_alone_not_enforced [OF policy user] by simp
  then obtain s2 where c: "check_register_identity sample_readings ?src ''alice'' ''sip:alice@example.com'' s1 = (False, s2)"
    by (cases "check_register_identity sample_readings ?src ''alice'' ''sip:alice@example.com'' s1") simp
  have s2: "sr_registrar s2 = registrar_new" "sr_register_policy s2 = register_policy_default"
    using identity_frame [of sample_readings ?src "''alice''" "''sip:alice@example.com''" s1]
    by (simp_all add: c) (simp_all add: s1_def sample_state_def)
  let ?c = "\<lparr>cb_uri = ''sip:a@h'', cb_expires = None, cb_instance_id = None, cb_reg_id = None\<rparr>"
  have g: "gather_contacts [''Contact: <sip:a@h>''] [] False = Inr ([?c], False)" by code_simp
  let ?req = "request_of ?vw ?src Udp None ''sip:alice@example.com'' [?c] False ''c1''"
  have reg: "sr_registrar (snd (run_register sample_readings ?vw ?src Udp None ''sip:alice@example.com'' s2)) =
      snd (process in_memory register_policy_default (wall_ms sample_readings) ?req registrar_new)"
  proof -
    have "vw_lines ?vw = [''Contact: <sip:a@h>'']" "vw_call_id ?vw = Some ''c1''"
      by (simp_all add: sample_view_def)
    then show ?thesis
      by (simp add: run_register_def g s2 case_prod_beta answer_frame del: gather_contacts.simps)
  qed
  have stored: "snd (process in_memory register_policy_default (wall_ms sample_readings) ?req registrar_new) =
      \<lparr>rr_regs = [((rq_aor ?req, contact_key ?c), registration_of (wall_ms sample_readings) ?req ?c 3600)], rr_tombstones = []\<rparr>"
    by (rule process_one) (simp_all add: request_of_def sample_view_def)
  have "contact_key ?c = ''contact:sip:a@h''" by (simp add: contact_key_def binding_key_def)
  then have "hm_get (rr_regs (sr_registrar (snd (run_register sample_readings ?vw ?src Udp None ''sip:alice@example.com'' s2))))
      (''sip:alice@example.com'', ''contact:sip:a@h'') \<noteq> None"
    unfolding reg stored by (simp add: request_of_def)
  moreover have "handle_register sample_env sample_readings ?vw ?src Udp None sample_state =
      run_register sample_readings ?vw ?src Udp None ''sip:alice@example.com'' s2"
  proof -
    have "handle_register sample_env sample_readings ?vw ?src Udp None sample_state =
        register_as sample_readings ?vw ?src Udp None (Some ''alice'') s1"
      using v by (simp add: handle_register_def s1_def sample_view_def sample_env_def sample_readings_def Let_def)
        (simp add: sample_state_def)
    then show ?thesis using c by (simp add: register_as_def sample_view_def aor)
  qed
  ultimately show ?thesis by (metis prod.collapse)
qed

theorem register_needs_own_password_witness:
  "\<exists>r a'. verify_with 1001 sample_answer ''REGISTER'' (Some 7) sample_auth = (Inr ''alice'', a') \<and> rg_call_id r = ''c1'' \<and>
     hm_get (rr_regs (sr_registrar (snd (handle_register sample_env sample_readings (sample_view sample_answer)
       (V4 10 0 0 2, 5060) Udp None sample_state)))) (''sip:alice@example.com'', ''contact:sip:a@h'') = Some r"
proof -
  obtain res s' r where run: "handle_register sample_env sample_readings (sample_view sample_answer)
      (V4 10 0 0 2, 5060) Udp None sample_state = (res, s')"
    and r: "hm_get (rr_regs (sr_registrar s')) (''sip:alice@example.com'', ''contact:sip:a@h'') = Some r"
    using sample_registered by blast
  have s: "registrar_inv (sr_registrar sample_state)" "sr_enable_digest_auth sample_state"
    "sr_auth sample_state = Some sample_auth" "ip_enforce_register_aor (sr_identity_policy sample_state)"
    "hm_get (rr_regs (sr_registrar sample_state)) k = None" for k
    by (simp_all add: sample_state_def registrar_inv_new identity_policy_default_def) (simp add: registrar_new_def)
  have user: "or_default (uri_user ''sip:alice@example.com'') = ''alice''" by code_simp
  have "hm_get (rr_regs (sr_registrar sample_state)) (''sip:alice@example.com'', ''contact:sip:a@h'') \<noteq> Some r"
    by (simp add: s(5))
  from register_needs_own_password [OF s(1-4) run r this] run r user show ?thesis
    by (auto simp: sample_view_def sample_env_def sample_readings_def)
qed


end
