(* ===== verification/Ice.thy ===== *)
theory Ice
  imports Stun
begin

text \<open>
  \<^verbatim>\<open>crates/sbc-core/src/media/ice.rs\<close>: ICE candidates and their SDP form, candidate pairs in
  priority order, and the agent. A connectivity check sends one STUN request and reads one reply:
  the request and the reading of the reply are definitions, the network between them is the
  function \<open>probe\<close> that the sequence of checks takes. The credentials of an agent are random
  text, an argument of its constructor.
\<close>

section \<open>Candidates\<close>

datatype candidate_type = Host | ServerReflexive | PeerReflexive | Relay

definition candidate_type_from_str :: "string \<Rightarrow> candidate_type option" where
  "candidate_type_from_str s =
     (if s = ''host'' then Some Host
      else if s = ''srflx'' then Some ServerReflexive
      else if s = ''prflx'' then Some PeerReflexive
      else if s = ''relay'' then Some Relay
      else None)"

fun candidate_type_to_str :: "candidate_type \<Rightarrow> string" where
  "candidate_type_to_str Host = ''host''"
| "candidate_type_to_str ServerReflexive = ''srflx''"
| "candidate_type_to_str PeerReflexive = ''prflx''"
| "candidate_type_to_str Relay = ''relay''"

fun type_preference :: "candidate_type \<Rightarrow> nat" where
  "type_preference Host = 126"
| "type_preference PeerReflexive = 110"
| "type_preference ServerReflexive = 100"
| "type_preference Relay = 0"

record ice_candidate =
  ic_foundation :: string
  ic_component :: nat
  ic_transport :: string
  ic_priority :: nat
  ic_address :: socket_addr
  ic_candidate_type :: candidate_type
  ic_related_address :: "socket_addr option"

text \<open>The subtraction wraps in the release build, for a component above 256.\<close>

definition compute_priority :: "candidate_type \<Rightarrow> nat \<Rightarrow> nat \<Rightarrow> nat" where
  "compute_priority ty local_pref component =
     or (or (push_bit 24 (type_preference ty)) (push_bit 8 local_pref))
        (nat ((256 - int component) mod 2 ^ 32))"

definition host_candidate :: "socket_addr \<Rightarrow> nat \<Rightarrow> ice_candidate" where
  "host_candidate address component =
     \<lparr>ic_foundation = ''host-'' @ show_nat component, ic_component = component, ic_transport = ''UDP'',
      ic_priority = compute_priority Host 65535 component, ic_address = address,
      ic_candidate_type = Host, ic_related_address = None\<rparr>"

definition server_reflexive_candidate :: "socket_addr \<Rightarrow> nat \<Rightarrow> socket_addr \<Rightarrow> ice_candidate" where
  "server_reflexive_candidate address component related =
     \<lparr>ic_foundation = ''srflx-'' @ show_nat component, ic_component = component, ic_transport = ''UDP'',
      ic_priority = compute_priority ServerReflexive 65535 component, ic_address = address,
      ic_candidate_type = ServerReflexive, ic_related_address = Some related\<rparr>"

definition relay_candidate :: "socket_addr \<Rightarrow> nat \<Rightarrow> socket_addr \<Rightarrow> ice_candidate" where
  "relay_candidate address component related =
     \<lparr>ic_foundation = ''relay-'' @ show_nat component, ic_component = component, ic_transport = ''UDP'',
      ic_priority = compute_priority Relay 65535 component, ic_address = address,
      ic_candidate_type = Relay, ic_related_address = Some related\<rparr>"

text \<open>
  The optional part of a candidate line. The texts of the errors of the number and address parsers
  are left out of the messages.
\<close>

definition addr_of_parts :: "string \<Rightarrow> nat \<Rightarrow> socket_addr option" where
  "addr_of_parts ip port = parse_sock (ip @ '':'' @ show_nat port)"

function related_from :: "string list \<Rightarrow> socket_addr option \<Rightarrow> socket_addr option result" where
  "related_from parts acc =
     (if length parts \<le> 1 then Inr acc
      else if hd parts = ''raddr'' then
        if 3 < length parts \<and> parts ! 2 = ''rport'' then
          (case parse_uint u16_max (parts ! 3) of
             None \<Rightarrow> Inl (MediaErr ''Invalid rport'')
           | Some port \<Rightarrow>
               (case addr_of_parts (parts ! 1) port of
                  None \<Rightarrow> Inl (MediaErr ''Invalid raddr'')
                | Some a \<Rightarrow> related_from (drop 4 parts) (Some a)))
        else related_from (drop 2 parts) acc
      else related_from (drop 1 parts) acc)"
  by pat_completeness auto
termination by (relation "measure (length \<circ> fst)") auto

declare related_from.simps [simp del]

definition candidate_from_sdp :: "string \<Rightarrow> ice_candidate result" where
  "candidate_from_sdp value0 =
     (let v = (case strip_prefix ''candidate:'' value0 of Some r \<Rightarrow> r | None \<Rightarrow> value0);
          parts = split_whitespace v
      in if length parts < 8 then Inl (MediaErr (''Invalid ICE candidate: '' @ v))
         else case parse_uint u16_max (parts ! 1) of
           None \<Rightarrow> Inl (MediaErr ''Invalid component'')
         | Some component \<Rightarrow>
            (case parse_uint u32_max (parts ! 3) of
               None \<Rightarrow> Inl (MediaErr ''Invalid priority'')
             | Some priority \<Rightarrow>
                (case parse_uint u16_max (parts ! 5) of
                   None \<Rightarrow> Inl (MediaErr ''Invalid port'')
                 | Some port \<Rightarrow>
                    (case addr_of_parts (parts ! 4) port of
                       None \<Rightarrow> Inl (MediaErr ''Invalid address'')
                     | Some address \<Rightarrow>
                        (case candidate_type_from_str (parts ! 7) of
                           None \<Rightarrow> Inl (MediaErr (''Unknown candidate type: '' @ parts ! 7))
                         | Some ty \<Rightarrow>
                            (case related_from (drop 8 parts) None of
                               Inl e \<Rightarrow> Inl e
                             | Inr related \<Rightarrow>
                                Inr \<lparr>ic_foundation = parts ! 0, ic_component = component,
                                     ic_transport = parts ! 2, ic_priority = priority,
                                     ic_address = address, ic_candidate_type = ty,
                                     ic_related_address = related\<rparr>))))))"

definition candidate_to_sdp :: "ice_candidate \<Rightarrow> string" where
  "candidate_to_sdp c =
     ''candidate:'' @ join_with '' ''
       [ic_foundation c, show_nat (ic_component c), ic_transport c, show_nat (ic_priority c),
        ip_to_string (fst (ic_address c)), show_nat (snd (ic_address c)), ''typ'',
        candidate_type_to_str (ic_candidate_type c)]
     @ (case ic_related_address c of
          None \<Rightarrow> ''''
        | Some raddr \<Rightarrow> '' raddr '' @ ip_to_string (fst raddr) @ '' rport '' @ show_nat (snd raddr))"

section \<open>Pairs\<close>

datatype pair_state = PsWaiting | PsInProgress | PsSucceeded | PsFailed | PsFrozen

record candidate_pair =
  cp_local :: ice_candidate
  cp_remote :: ice_candidate
  cp_priority :: nat
  cp_state :: pair_state

definition compute_pair_priority :: "nat \<Rightarrow> nat \<Rightarrow> bool \<Rightarrow> nat" where
  "compute_pair_priority local_prio remote_prio is_controlling =
     (let (g, d) = (if is_controlling then (local_prio, remote_prio) else (remote_prio, local_prio))
      in or (or (push_bit 32 (min g d)) (push_bit 1 (max g d))) (if d < g then 1 else 0))"

definition candidate_pair_new :: "ice_candidate \<Rightarrow> ice_candidate \<Rightarrow> bool \<Rightarrow> candidate_pair" where
  "candidate_pair_new loc remote is_controlling =
     \<lparr>cp_local = loc, cp_remote = remote,
      cp_priority = compute_pair_priority (ic_priority loc) (ic_priority remote) is_controlling,
      cp_state = PsFrozen\<rparr>"

section \<open>The agent\<close>

record ice_agent =
  ia_ufrag :: string
  ia_pwd :: string
  ia_remote_credentials :: "(string \<times> string) option"
  ia_local_candidates :: "ice_candidate list"
  ia_remote_candidates :: "ice_candidate list"
  ia_pairs :: "candidate_pair list"
  ia_selected_pair :: "candidate_pair option"
  ia_is_controlling :: bool

definition ice_agent_new :: "string \<Rightarrow> string \<Rightarrow> bool \<Rightarrow> ice_agent" where
  "ice_agent_new ufrag pwd is_controlling =
     \<lparr>ia_ufrag = ufrag, ia_pwd = pwd, ia_remote_credentials = None, ia_local_candidates = [],
      ia_remote_candidates = [], ia_pairs = [], ia_selected_pair = None,
      ia_is_controlling = is_controlling\<rparr>"

definition add_local_candidate :: "ice_candidate \<Rightarrow> ice_agent \<Rightarrow> ice_agent" where
  "add_local_candidate c a = a\<lparr>ia_local_candidates := ia_local_candidates a @ [c]\<rparr>"

text \<open>\<^verbatim>\<open>sort_by_key\<close> is stable, and so is \<open>sort_key\<close>; the reversed order is that of the negated key.\<close>

definition form_pairs_with_candidate :: "ice_candidate \<Rightarrow> ice_agent \<Rightarrow> ice_agent" where
  "form_pairs_with_candidate remote a =
     a\<lparr>ia_pairs := sort_key (\<lambda>p. - int (cp_priority p))
        (ia_pairs a @
         map (\<lambda>l. candidate_pair_new l remote (ia_is_controlling a))
           (filter (\<lambda>l. ic_component l = ic_component remote) (ia_local_candidates a)))\<rparr>"

definition add_remote_candidate :: "ice_candidate \<Rightarrow> ice_agent \<Rightarrow> ice_agent" where
  "add_remote_candidate c a =
     form_pairs_with_candidate c (a\<lparr>ia_remote_candidates := ia_remote_candidates a @ [c]\<rparr>)"

definition set_remote_credentials :: "string \<Rightarrow> string \<Rightarrow> ice_agent \<Rightarrow> ice_agent" where
  "set_remote_credentials ufrag pwd a = a\<lparr>ia_remote_credentials := Some (ufrag, pwd)\<rparr>"

definition local_candidates_sdp :: "ice_agent \<Rightarrow> string list" where
  "local_candidates_sdp a = map candidate_to_sdp (ia_local_candidates a)"

definition credentials :: "ice_agent \<Rightarrow> string \<times> string" where
  "credentials a = (ia_ufrag a, ia_pwd a)"

text \<open>
  \<^verbatim>\<open>perform_checks\<close>: \<open>probe\<close> says what the check from one address to the other returns. The pairs
  are visited in their order; only a pair that is waiting is checked.
\<close>

definition thaw :: "candidate_pair \<Rightarrow> candidate_pair" where
  "thaw p = (if cp_state p = PsFrozen then p\<lparr>cp_state := PsWaiting\<rparr> else p)"

fun check_pairs ::
  "(socket_addr \<Rightarrow> socket_addr \<Rightarrow> socket_addr result) \<Rightarrow> candidate_pair list \<Rightarrow> candidate_pair option \<Rightarrow>
   candidate_pair list \<times> candidate_pair option"
where
  "check_pairs probe [] sel = ([], sel)"
| "check_pairs probe (p # ps) sel =
     (let (p', sel') =
            (if cp_state p \<noteq> PsWaiting then (p, sel)
             else case probe (ic_address (cp_local p)) (ic_address (cp_remote p)) of
                    Inr _ \<Rightarrow>
                      (let q = p\<lparr>cp_state := PsSucceeded\<rparr>
                       in (q, if sel = None then Some q else sel))
                  | Inl _ \<Rightarrow> (p\<lparr>cp_state := PsFailed\<rparr>, sel));
          (ps', sel'') = check_pairs probe ps sel'
      in (p' # ps', sel''))"

definition perform_checks ::
  "(socket_addr \<Rightarrow> socket_addr \<Rightarrow> socket_addr result) \<Rightarrow> ice_agent \<Rightarrow> ice_agent"
where
  "perform_checks probe a =
     (let (ps, sel) = check_pairs probe (map thaw (ia_pairs a)) (ia_selected_pair a)
      in a\<lparr>ia_pairs := ps, ia_selected_pair := sel\<rparr>)"


section \<open>One check\<close>

text \<open>
  The request of a check, from the random transaction id and tie breaker. A check that has no
  remote credentials carries no attribute.
\<close>

definition check_request :: "byte list \<Rightarrow> byte list \<Rightarrow> ice_agent \<Rightarrow> byte list" where
  "check_request transaction_id tie a =
     (let attrs =
            (case ia_remote_credentials a of
               None \<Rightarrow> []
             | Some (remote_ufrag, _) \<Rightarrow>
                 (let username = str_bytes (remote_ufrag @ '':'' @ ia_ufrag a)
                  in be_bytes 2 0x0006 @ be_bytes 2 (length username) @ username
                     @ replicate (padded (length username) - length username) 0
                     @ be_bytes 2 (if ia_is_controlling a then 0x802F else 0x8030)
                     @ be_bytes 2 8 @ tie))
      in be_bytes 2 0x0001 @ be_bytes 2 (length attrs) @ be_bytes 4 STUN_MAGIC_COOKIE
         @ transaction_id @ attrs)"

text \<open>
  The reply, from the peer \<open>from\<close>. \<open>None\<close> is the panic of an index past the end of the reply: the
  loop only makes sure that the header of an attribute is there.
\<close>

function reply_address ::
  "byte list \<Rightarrow> nat \<Rightarrow> socket_addr \<Rightarrow> nat \<Rightarrow> socket_addr result option"
where
  "reply_address response msg_len from offset0 =
     (if offset0 + 4 \<le> 20 + msg_len \<and> offset0 + 4 \<le> length response then
        let attr_type = field offset0 2 response;
            attr_len = field (offset0 + 2) 2 response;
            offset = offset0 + 4
        in if attr_type = 0x0020 \<and> 8 \<le> attr_len then
             if length response \<le> offset + 3 then None
             else
               let family = response ! (offset + 1);
                   port = xor (field (offset + 2) 2 response) 0x2112
               in Some (Inr
                    (if family = 1 \<and> offset + 8 \<le> length response
                     then (v4_of (be_bytes 4 (xor (field (offset + 4) 4 response) STUN_MAGIC_COOKIE)), port)
                     else from))
           else reply_address response msg_len from (offset + padded attr_len)
      else Some (Inr from))"
  by pat_completeness auto
termination by (relation "measure (\<lambda>(response, _, _, offset). length response - offset)") auto

declare reply_address.simps [simp del]

definition check_reply ::
  "byte list \<Rightarrow> byte list \<Rightarrow> socket_addr \<Rightarrow> socket_addr result option"
where
  "check_reply transaction_id response from =
     (if length response < 20 then Some (Inl (MediaErr ''ICE: response too short''))
      else if take 4 (drop 4 response) \<noteq> be_bytes 4 STUN_MAGIC_COOKIE
      then Some (Inl (MediaErr ''ICE: invalid magic cookie in response''))
      else if take 12 (drop 8 response) \<noteq> transaction_id
      then Some (Inl (MediaErr ''ICE: transaction ID mismatch''))
      else let msg_type = field 0 2 response in
        if msg_type = 0x0111 then Some (Inl (MediaErr ''ICE: received Binding Error Response''))
        else if msg_type \<noteq> 0x0101 then Some (Inl (MediaErr ''ICE: unexpected message type''))
        else reply_address response (field 2 2 response) from 20)"

definition get_selected_pair :: "ice_agent \<Rightarrow> candidate_pair option" where
  "get_selected_pair a = ia_selected_pair a"

record ice_stats =
  is_local_candidates :: nat
  is_remote_candidates :: nat
  is_total_pairs :: nat
  is_succeeded_pairs :: nat
  is_failed_pairs :: nat
  is_has_selected_pair :: bool

definition ice_stats_of :: "ice_agent \<Rightarrow> ice_stats" where
  "ice_stats_of a =
     \<lparr>is_local_candidates = length (ia_local_candidates a),
      is_remote_candidates = length (ia_remote_candidates a),
      is_total_pairs = length (ia_pairs a),
      is_succeeded_pairs = length (filter (\<lambda>p. cp_state p = PsSucceeded) (ia_pairs a)),
      is_failed_pairs = length (filter (\<lambda>p. cp_state p = PsFailed) (ia_pairs a)),
      is_has_selected_pair = (ia_selected_pair a \<noteq> None)\<rparr>"

section \<open>Priorities\<close>

lemma or_shifted_sum: "b < 2 ^ n \<Longrightarrow> or (push_bit n a) b = a * 2 ^ n + (b :: nat)"
proof -
  assume "b < 2 ^ n"
  then have b: "take_bit n b = b" by (simp add: take_bit_nat_eq_self_iff)
  have "and (push_bit n a) (take_bit n b) = 0" by (rule bit_eqI) (auto simp: bit_simps)
  then have "push_bit n a + b = or (push_bit n a) b" unfolding b by (rule disjunctive_add_eq_or)
  then show ?thesis by (simp add: push_bit_eq_mult)
qed

text \<open>The shifts add up to the formulas of RFC 8445 where the summands do not overlap.\<close>

lemma compute_priority_sum:
  assumes "0 < component" "component \<le> 256" "local_pref \<le> u16_max"
  shows "compute_priority ty local_pref component =
    type_preference ty * 2 ^ 24 + local_pref * 2 ^ 8 + (256 - component)"
proof -
  have c: "nat ((256 - int component) mod 2 ^ 32) = 256 - component" using assms by simp
  have "or (push_bit 24 (type_preference ty)) (push_bit 8 local_pref) =
      type_preference ty * 2 ^ 24 + local_pref * 2 ^ 8"
    using or_shifted_sum [of "push_bit 8 local_pref" 24 "type_preference ty"] assms(3)
    by (simp add: push_bit_eq_mult u16_max_def)
  also have "\<dots> = push_bit 8 (type_preference ty * 2 ^ 16 + local_pref)" by (simp add: push_bit_eq_mult)
  finally show ?thesis
    unfolding compute_priority_def c
    using or_shifted_sum [of "256 - component" 8 "type_preference ty * 2 ^ 16 + local_pref"] assms by simp
qed

lemma compute_pair_priority_sum:
  assumes "l < 2 ^ 31" "r < 2 ^ 31"
  shows "compute_pair_priority l r True = 2 ^ 32 * min l r + 2 * max l r + (if r < l then 1 else 0)"
    and "compute_pair_priority l r False = 2 ^ 32 * min l r + 2 * max l r + (if l < r then 1 else 0)"
proof -
  have "or (or (push_bit 32 (min l r)) (push_bit 1 (max l r))) b = 2 ^ 32 * min l r + 2 * max l r + b"
    if "b < 2" for b
  proof -
    have "or (push_bit 32 (min l r)) (push_bit 1 (max l r)) = push_bit 1 (min l r * 2 ^ 31 + max l r)"
      using or_shifted_sum [of "push_bit 1 (max l r)" 32 "min l r"] assms by (simp add: push_bit_eq_mult)
    then show ?thesis
      using or_shifted_sum [of b 1 "min l r * 2 ^ 31 + max l r"] that by simp
  qed
  then show "compute_pair_priority l r True = 2 ^ 32 * min l r + 2 * max l r + (if r < l then 1 else 0)"
    "compute_pair_priority l r False = 2 ^ 32 * min l r + 2 * max l r + (if l < r then 1 else 0)"
    by (simp_all add: compute_pair_priority_def min.commute max.commute)
qed

section \<open>Candidates read back\<close>

text \<open>A word of a candidate line.\<close>

definition sdp_word :: "string \<Rightarrow> bool" where
  "sdp_word w \<longleftrightarrow> w \<noteq> [] \<and> list_all (\<lambda>c. \<not> is_space c) w"


lemma sdp_word_nat [simp]: "sdp_word (show_nat n)"
  using show_nat_digits(2) show_nat_no_space by (simp add: sdp_word_def)

lemma split_words: "list_all sdp_word ws \<Longrightarrow> split_whitespace (join_with '' '' ws) = ws"
proof (induction ws rule: induct_list012)
  case 1
  then show ?case by (simp add: split_whitespace_def)
next
  case (2 w)
  then show ?case using split_whitespace_word(2) by (simp add: sdp_word_def)
next
  case (3 v w ws)
  then show ?case using split_whitespace_word(1) [of v "join_with '' '' (w # ws)"] by (simp add: sdp_word_def)
qed

fun plain_v4 :: "ip_addr \<Rightarrow> bool" where
  "plain_v4 (V4 a b c d) \<longleftrightarrow> a \<le> 255 \<and> b \<le> 255 \<and> c \<le> 255 \<and> d \<le> 255"
| "plain_v4 (V6 _) \<longleftrightarrow> False"

lemma sdp_word_v4: "sdp_word (show_v4 a b c d)"
  using show_nat_digits(2) show_nat_no_space
  by (auto simp: show_v4_def sdp_word_def is_space_def)

lemma sdp_word_ip: "plain_v4 ip \<Longrightarrow> sdp_word (ip_to_string ip)"
  by (cases ip) (auto simp: sdp_word_v4)

lemma addr_of_parts_v4: "plain_v4 ip \<Longrightarrow> port \<le> u16_max \<Longrightarrow> addr_of_parts (ip_to_string ip) port = Some (ip, port)"
  using parse_sock_v4 by (cases ip) (auto simp: addr_of_parts_def)

lemma candidate_type_str [simp]: "candidate_type_from_str (candidate_type_to_str t) = Some t"
  by (cases t) (simp_all add: candidate_type_from_str_def)

lemma sdp_word_type [simp]: "sdp_word (candidate_type_to_str t)"
  by (cases t) (simp_all add: sdp_word_def is_space_def)

definition plain_candidate :: "ice_candidate \<Rightarrow> bool" where
  "plain_candidate c \<longleftrightarrow>
     sdp_word (ic_foundation c) \<and> sdp_word (ic_transport c) \<and>
     ic_component c \<le> u16_max \<and> ic_priority c \<le> u32_max \<and>
     plain_v4 (fst (ic_address c)) \<and> snd (ic_address c) \<le> u16_max \<and>
     (case ic_related_address c of None \<Rightarrow> True | Some r \<Rightarrow> plain_v4 (fst r) \<and> snd r \<le> u16_max)"

lemma candidate_words:
  "\<exists>ws. candidate_to_sdp c = ''candidate:'' @ join_with '' '' ws \<and>
     ws = [ic_foundation c, show_nat (ic_component c), ic_transport c, show_nat (ic_priority c),
        ip_to_string (fst (ic_address c)), show_nat (snd (ic_address c)), ''typ'',
        candidate_type_to_str (ic_candidate_type c)] @
       (case ic_related_address c of None \<Rightarrow> []
        | Some r \<Rightarrow> [''raddr'', ip_to_string (fst r), ''rport'', show_nat (snd r)])"
  by (cases "ic_related_address c") (simp_all add: candidate_to_sdp_def)

lemma strip_candidate: "strip_prefix ''candidate:'' (''candidate:'' @ s) = Some s"
  by simp

text \<open>
  Round trip of candidates. An IPv4 candidate, with or without a related address, that the SBC
  writes into a session description is read back by the same module as the same candidate.
\<close>

theorem candidate_round_trip:
  assumes "plain_candidate c"
  shows "candidate_from_sdp (candidate_to_sdp c) = Inr c"
proof -
  obtain ws where ws: "candidate_to_sdp c = ''candidate:'' @ join_with '' '' ws"
    "ws = [ic_foundation c, show_nat (ic_component c), ic_transport c, show_nat (ic_priority c),
        ip_to_string (fst (ic_address c)), show_nat (snd (ic_address c)), ''typ'',
        candidate_type_to_str (ic_candidate_type c)] @
       (case ic_related_address c of None \<Rightarrow> []
        | Some r \<Rightarrow> [''raddr'', ip_to_string (fst r), ''rport'', show_nat (snd r)])"
    using candidate_words by blast
  note p = assms [unfolded plain_candidate_def]
  have words: "split_whitespace (join_with '' '' ws) = ws"
  proof (rule split_words)
    have "sdp_word ''typ''" "sdp_word ''raddr''" "sdp_word ''rport''" by (simp_all add: sdp_word_def is_space_def)
    then show "list_all sdp_word ws"
      using p sdp_word_ip by (auto simp: ws(2) split: option.splits)
  qed
  have rel: "related_from (drop 8 ws) None = Inr (ic_related_address c)"
  proof (cases "ic_related_address c")
    case None
    then show ?thesis by (simp add: ws(2) related_from.simps)
  next
    case (Some r)
    then show ?thesis
      using p by (simp add: ws(2) related_from.simps [of "_ # _"] related_from.simps [of "[]"] parse_show_nat addr_of_parts_v4)
  qed
  have len: "\<not> length ws < 8" by (simp add: ws(2))
  have nth: "ws ! 0 = ic_foundation c" "ws ! Suc 0 = show_nat (ic_component c)" "ws ! 2 = ic_transport c"
    "ws ! 3 = show_nat (ic_priority c)" "ws ! 4 = ip_to_string (fst (ic_address c))"
    "ws ! 5 = show_nat (snd (ic_address c))" "ws ! 7 = candidate_type_to_str (ic_candidate_type c)"
    by (simp_all add: ws(2))
  show ?thesis
    unfolding candidate_from_sdp_def ws(1) strip_candidate option.case Let_def words
    using p by (simp add: len nth rel parse_show_nat addr_of_parts_v4)
qed

definition sample_candidate :: ice_candidate where
  "sample_candidate = server_reflexive_candidate (V4 203 0 113 7, 40000) 2 (V4 10 0 0 7, 5000)"

theorem candidate_round_trip_witness:
  "plain_candidate sample_candidate \<and> candidate_from_sdp (candidate_to_sdp sample_candidate) = Inr sample_candidate"
proof -
  have p: "compute_priority ServerReflexive 65535 2 = 1694498814"
    by (simp add: compute_priority_sum u16_max_def)
  have w: "sdp_word (''srflx-'' @ show_nat 2)" "sdp_word ''UDP''"
    using show_nat_no_space by (simp_all add: sdp_word_def is_space_def)
  have "plain_candidate sample_candidate"
    unfolding sample_candidate_def server_reflexive_candidate_def plain_candidate_def p ice_candidate.simps
    using w by (simp add: u16_max_def u32_max_def)
  then show ?thesis using candidate_round_trip by blast
qed

text \<open>
  An IPv6 candidate is written without brackets and cannot be read back: the address and the port
  are joined by a colon and the reader of socket addresses refuses the result.
\<close>

lemma ipv6_text: "ip_to_string (V6 [0, 0, 0, 0, 0, 0, 0, 7]) = ''::7''"
proof -
  have "zero_run [7] = 0" using zero_run.simps(3) [of 6 "[]"] by simp
  moreover have "char_of (55 :: nat) = CHR ''7''" by code_simp
  ultimately show ?thesis by (simp add: show_hex_def show_base.simps [of 16 7] digit_char_def)
qed

lemma ipv6_unbracketed: "addr_of_parts ''::7'' 50 = None"
  by (simp add: addr_of_parts_def parse_sock_def read_ipv4_def read_octet_def read_number_def
      is_digit_of_def digit_value_def)

lemma ipv6_candidate_refused:
  assumes "plain_candidate (c\<lparr>ic_address := (V4 0 0 0 0, 50)\<rparr>)" "ic_address c = (V6 [0, 0, 0, 0, 0, 0, 0, 7], 50)"
  shows "candidate_from_sdp (candidate_to_sdp c) = Inl (MediaErr ''Invalid address'')"
proof -
  obtain ws where ws: "candidate_to_sdp c = ''candidate:'' @ join_with '' '' ws"
    "ws = [ic_foundation c, show_nat (ic_component c), ic_transport c, show_nat (ic_priority c),
        ip_to_string (fst (ic_address c)), show_nat (snd (ic_address c)), ''typ'',
        candidate_type_to_str (ic_candidate_type c)] @
       (case ic_related_address c of None \<Rightarrow> []
        | Some r \<Rightarrow> [''raddr'', ip_to_string (fst r), ''rport'', show_nat (snd r)])"
    using candidate_words by blast
  note p = assms(1) [unfolded plain_candidate_def, simplified]
  have six: "sdp_word ''::7''" by (simp add: sdp_word_def is_space_def)
  have words: "split_whitespace (join_with '' '' ws) = ws"
  proof (rule split_words)
    have "sdp_word ''typ''" "sdp_word ''raddr''" "sdp_word ''rport''" by (simp_all add: sdp_word_def is_space_def)
    then show "list_all sdp_word ws"
      using p sdp_word_ip six by (auto simp: ws(2) assms(2) ipv6_text simp del: ip_to_string.simps split: option.splits)
  qed
  have nth: "ws ! Suc 0 = show_nat (ic_component c)" "ws ! 3 = show_nat (ic_priority c)"
    "ws ! 4 = ''::7''" "ws ! 5 = show_nat 50" "\<not> length ws < 8"
    by (simp_all add: ws(2) assms(2) ipv6_text del: ip_to_string.simps)
  show ?thesis
    unfolding candidate_from_sdp_def ws(1) strip_candidate option.case Let_def words
    using p by (simp add: nth parse_show_nat u16_max_def ipv6_unbracketed del: ip_to_string.simps)
qed


section \<open>The nominated pair\<close>

definition by_priority :: "candidate_pair list \<Rightarrow> bool" where
  "by_priority ps \<longleftrightarrow> sorted_wrt (\<lambda>p q. cp_priority q \<le> cp_priority p) ps"

lemma by_priority_sort: "by_priority (sort_key (\<lambda>p. - int (cp_priority p)) ps)"
proof -
  have "sorted (map (\<lambda>p. - int (cp_priority p)) (sort_key (\<lambda>p. - int (cp_priority p)) ps))"
    by (rule sorted_sort_key)
  then show ?thesis by (simp add: by_priority_def sorted_map)
qed

lemma by_priority_map:
  "(\<And>p. cp_priority (f p) = cp_priority p) \<Longrightarrow> by_priority (map f ps) = by_priority ps"
  by (simp add: by_priority_def sorted_wrt_map)

text \<open>What becomes of one pair.\<close>

definition checked ::
  "(socket_addr \<Rightarrow> socket_addr \<Rightarrow> socket_addr result) \<Rightarrow> candidate_pair \<Rightarrow> candidate_pair"
where
  "checked probe p =
     (if cp_state p \<noteq> PsWaiting then p
      else p\<lparr>cp_state := (if is_ok (probe (ic_address (cp_local p)) (ic_address (cp_remote p)))
                        then PsSucceeded else PsFailed)\<rparr>)"

lemma checked_priority [simp]: "cp_priority (checked probe p) = cp_priority p" "cp_priority (thaw p) = cp_priority p"
  by (simp_all add: checked_def thaw_def)

lemma check_pairs_spec:
  "check_pairs probe ps sel =
     (map (checked probe) ps,
      if sel = None
      then find (\<lambda>p. cp_state p = PsSucceeded)
             (map (checked probe) (filter (\<lambda>p. cp_state p = PsWaiting) ps))
      else sel)"
  by (induction ps arbitrary: sel)
     (auto simp: checked_def Let_def is_ok.simps split: sum.splits option.splits prod.splits)

lemma first_is_best:
  assumes "by_priority ps" "find P ps = Some best"
  shows "best \<in> set ps \<and> P best \<and> (\<forall>p \<in> set ps. P p \<longrightarrow> cp_priority p \<le> cp_priority best)"
  using assms by (induction ps) (auto simp: by_priority_def split: if_splits)

text \<open>
  C27: The nominated pair is the best one. On an agent whose pairs are in priority order, the first run
  of the checks nominates a pair that answered, no pair that answered in this run has a higher
  priority, and there is a nominated pair as soon as one frozen or waiting pair answers. A pair
  once nominated is never replaced.
\<close>

theorem best_answering_pair_nominated:
  assumes "by_priority (ia_pairs a)"
    and fresh: "\<forall>p \<in> set (ia_pairs a). cp_state p \<in> {PsFrozen, PsWaiting}"
    and new: "ia_selected_pair a = None"
  shows "(ia_selected_pair (perform_checks probe a) = None \<longleftrightarrow>
            (\<forall>p \<in> set (ia_pairs a). \<not> is_ok (probe (ic_address (cp_local p)) (ic_address (cp_remote p))))) \<and>
    (\<forall>best. ia_selected_pair (perform_checks probe a) = Some best \<longrightarrow>
       best \<in> set (ia_pairs (perform_checks probe a)) \<and> cp_state best = PsSucceeded \<and>
       is_ok (probe (ic_address (cp_local best)) (ic_address (cp_remote best))) \<and>
       (\<forall>p \<in> set (ia_pairs (perform_checks probe a)).
          cp_state p = PsSucceeded \<longrightarrow> cp_priority p \<le> cp_priority best) \<and>
       ia_selected_pair (perform_checks other (perform_checks probe a)) = Some best)"
proof -
  let ?ps = "map (checked probe) (map thaw (ia_pairs a))"
  have all: "filter (\<lambda>p. cp_state p = PsWaiting) (map thaw (ia_pairs a)) = map thaw (ia_pairs a)"
    using fresh by (auto simp: thaw_def filter_id_conv)
  have sel: "ia_selected_pair (perform_checks probe a) = find (\<lambda>p. cp_state p = PsSucceeded) ?ps"
    and pairs: "ia_pairs (perform_checks probe a) = ?ps"
    unfolding perform_checks_def check_pairs_spec all using new by simp_all
  have order: "by_priority ?ps" using assms(1) by (simp add: by_priority_map)
  have state: "cp_state (checked probe (thaw p)) = PsSucceeded \<longleftrightarrow>
      is_ok (probe (ic_address (cp_local p)) (ic_address (cp_remote p)))" if "p \<in> set (ia_pairs a)" for p
    using bspec [OF fresh that] by (auto simp: checked_def thaw_def)
  have none: "find (\<lambda>p. cp_state p = PsSucceeded) ?ps = None \<longleftrightarrow>
      (\<forall>p \<in> set (ia_pairs a). \<not> is_ok (probe (ic_address (cp_local p)) (ic_address (cp_remote p))))"
    using state by (auto simp: find_None_iff)
  have some: "best \<in> set ?ps \<and> cp_state best = PsSucceeded \<and>
      (\<forall>p \<in> set ?ps. cp_state p = PsSucceeded \<longrightarrow> cp_priority p \<le> cp_priority best)"
    if "find (\<lambda>p. cp_state p = PsSucceeded) ?ps = Some best" for best
    using first_is_best [OF order that] by simp
  have ok: "is_ok (probe (ic_address (cp_local best)) (ic_address (cp_remote best)))"
    if best: "best \<in> set ?ps" "cp_state best = PsSucceeded" for best
  proof -
    obtain p where p: "p \<in> set (ia_pairs a)" "best = checked probe (thaw p)" using best(1) by auto
    have "ic_address (cp_local best) = ic_address (cp_local p)" "ic_address (cp_remote best) = ic_address (cp_remote p)"
      by (simp_all add: p(2) checked_def thaw_def)
    then show ?thesis using state [OF p(1)] best(2) p(2) by simp
  qed
  have kept: "ia_selected_pair (perform_checks other b) = Some best" if "ia_selected_pair b = Some best" for b best
    using that by (simp add: perform_checks_def check_pairs_spec)
  show ?thesis unfolding pairs using sel none some ok kept [of "perform_checks probe a"] by metis
qed


definition sample_agent :: ice_agent where
  "sample_agent =
     add_remote_candidate (host_candidate (V4 203 0 113 9, 6000) 2)
       (add_local_candidate (host_candidate (V4 10 0 0 7, 5000) 2) (ice_agent_new ''u'' ''p'' False))"

lemma sample_agent_pairs:
  "ia_pairs sample_agent =
     [candidate_pair_new (host_candidate (V4 10 0 0 7, 5000) 2) (host_candidate (V4 203 0 113 9, 6000) 2) False]"
  by (simp add: sample_agent_def add_remote_candidate_def add_local_candidate_def ice_agent_new_def
      form_pairs_with_candidate_def host_candidate_def)

theorem best_answering_pair_nominated_witness:
  "map_option cp_state (ia_selected_pair (perform_checks (\<lambda>_ remote. Inr remote) sample_agent)) = Some PsSucceeded"
proof -
  have s: "ia_selected_pair sample_agent = None"
    by (simp add: sample_agent_def add_remote_candidate_def add_local_candidate_def ice_agent_new_def
        form_pairs_with_candidate_def)
  have "by_priority (ia_pairs sample_agent)" "\<forall>p \<in> set (ia_pairs sample_agent). cp_state p \<in> {PsFrozen, PsWaiting}"
    "ia_pairs sample_agent \<noteq> []"
    by (simp_all add: sample_agent_pairs by_priority_def candidate_pair_new_def)
  with best_answering_pair_nominated [OF this(1,2) s, of "\<lambda>_ remote. Inr remote" "\<lambda>_ remote. Inr remote"]
  show ?thesis by (cases "ia_selected_pair (perform_checks (\<lambda>_ remote. Inr remote) sample_agent)") auto
qed

text \<open>
  The reply of a check can end the task. A reply of 24 bytes whose last attribute claims to be a
  mapped address but has no value is read past its end.
\<close>

lemma truncated_reply_panics:
  assumes "length tid = 12"
  shows "check_reply tid (be_bytes 2 0x0101 @ be_bytes 2 4 @ be_bytes 4 STUN_MAGIC_COOKIE @ tid @
      be_bytes 2 0x0020 @ be_bytes 2 8) from = None"
proof -
  let ?r = "be_bytes 2 0x0101 @ be_bytes 2 4 @ be_bytes 4 STUN_MAGIC_COOKIE @ tid @ be_bytes 2 0x0020 @ be_bytes 2 8"
  have f: "field 0 2 ?r = 0x0101" "field 2 2 ?r = 4" "field 20 2 ?r = 0x0020" "field 22 2 ?r = 8"
    using assms by (simp_all add: field_def be_nat_be_bytes)
  have "reply_address ?r 4 from 20 = None"
    using assms f(3,4) by (subst reply_address.simps) (simp add: Let_def)
  then show ?thesis
    unfolding check_reply_def using assms f(1,2) by (simp add: Let_def)
qed

end
