(* ===== verification/Webrtc.thy ===== *)
theory Webrtc
  imports Ice Srtp_Context Transcoding
begin

text \<open>
  \<^verbatim>\<open>crates/sbc-core/src/media/dtls.rs\<close> and \<^verbatim>\<open>webrtc_handler.rs\<close>: what the SBC reads from the session
  description of a browser, the DTLS context that authenticates the browser by the fingerprint of
  its certificate, the SRTP keys taken from the handshake, and the descriptions the SBC writes.

  The DTLS library, the hash functions and the generator of certificates are outside the
  repository. A handshake is the function \<open>conn\<close> from the role to the certificates of the peer and
  the exported keying material; \<open>sha\<close> gives the digest of each algorithm by its name; a generated
  certificate is an argument. The bridge that carries DTLS records over the RTP socket is not
  modelled.
\<close>

section \<open>DTLS\<close>

datatype dtls_role = RoleActive | RolePassive | RoleActPass

definition dtls_role_from_str :: "string \<Rightarrow> dtls_role option" where
  "dtls_role_from_str s =
     (if s = ''active'' then Some RoleActive
      else if s = ''passive'' then Some RolePassive
      else if s = ''actpass'' then Some RoleActPass
      else None)"

fun dtls_role_to_str :: "dtls_role \<Rightarrow> string" where
  "dtls_role_to_str RoleActive = ''active''"
| "dtls_role_to_str RolePassive = ''passive''"
| "dtls_role_to_str RoleActPass = ''actpass''"

record certificate_fingerprint =
  cf_algorithm :: string
  cf_fingerprint :: string

definition fingerprint_from_sdp :: "string \<Rightarrow> certificate_fingerprint result" where
  "fingerprint_from_sdp v =
     (case split_whitespace v of
        [a, f] \<Rightarrow> Inr \<lparr>cf_algorithm = a, cf_fingerprint = f\<rparr>
      | _ \<Rightarrow> Inl (MediaErr ''Invalid fingerprint format''))"

definition fingerprint_to_sdp :: "certificate_fingerprint \<Rightarrow> string" where
  "fingerprint_to_sdp f = cf_algorithm f @ '' '' @ cf_fingerprint f"

definition byte_hex :: "byte \<Rightarrow> string" where
  "byte_hex b =
     (let s = to_ascii_uppercase (show_hex (unat b)) in if length s < 2 then CHR ''0'' # s else s)"

definition hex_colons :: "byte list \<Rightarrow> string" where
  "hex_colons bs = join_with '':'' (map byte_hex bs)"

definition digest_of :: "(string \<Rightarrow> byte list \<Rightarrow> byte list) \<Rightarrow> string \<Rightarrow> byte list \<Rightarrow> string result" where
  "digest_of sha algorithm cert_der =
     (let name = to_ascii_lowercase algorithm
      in if name \<in> {''sha-256'', ''sha-384'', ''sha-512'', ''sha-224'', ''sha-1''}
         then Inr (hex_colons (sha name cert_der))
         else Inl (MediaErr (''Unsupported fingerprint hash algorithm: '' @ name)))"

definition fingerprint_verify ::
  "(string \<Rightarrow> byte list \<Rightarrow> byte list) \<Rightarrow> certificate_fingerprint \<Rightarrow> byte list \<Rightarrow> bool result"
where
  "fingerprint_verify sha f cert_der =
     (case digest_of sha (cf_algorithm f) cert_der of
        Inl e \<Rightarrow> Inl e
      | Inr computed \<Rightarrow>
          (let expected = filter (\<lambda>c. c \<notin> set '': -'') (to_ascii_uppercase (cf_fingerprint f))
           in Inr (filter (\<lambda>c. c \<noteq> CHR '':'') computed = expected)))"

record dtls_srtp_keys =
  dk_client_master_key :: "byte list"
  dk_client_master_salt :: "byte list"
  dk_server_master_key :: "byte list"
  dk_server_master_salt :: "byte list"

record dtls_context =
  dc_local_fingerprint :: certificate_fingerprint
  dc_remote_fingerprint :: "certificate_fingerprint option"
  dc_role :: dtls_role
  dc_handshake_complete :: bool
  dc_srtp_keys :: "dtls_srtp_keys option"
  dc_cert_der :: "byte list"

definition compute_fingerprint :: "(string \<Rightarrow> byte list \<Rightarrow> byte list) \<Rightarrow> byte list \<Rightarrow> certificate_fingerprint" where
  "compute_fingerprint sha cert_der =
     \<lparr>cf_algorithm = ''sha-256'', cf_fingerprint = hex_colons (sha ''sha-256'' cert_der)\<rparr>"

definition dtls_context_new ::
  "(string \<Rightarrow> byte list \<Rightarrow> byte list) \<Rightarrow> byte list result \<Rightarrow> dtls_role \<Rightarrow> dtls_context result"
where
  "dtls_context_new sha generated role =
     (case generated of
        Inl _ \<Rightarrow> Inl (MediaErr ''DTLS certificate generation failed'')
      | Inr cert \<Rightarrow>
          Inr \<lparr>dc_local_fingerprint = compute_fingerprint sha cert, dc_remote_fingerprint = None,
               dc_role = role, dc_handshake_complete = False, dc_srtp_keys = None, dc_cert_der = cert\<rparr>)"

definition set_remote_fingerprint :: "certificate_fingerprint \<Rightarrow> dtls_context \<Rightarrow> dtls_context" where
  "set_remote_fingerprint f d = d\<lparr>dc_remote_fingerprint := Some f\<rparr>"

definition verify_peer_certificate ::
  "(string \<Rightarrow> byte list \<Rightarrow> byte list) \<Rightarrow> dtls_context \<Rightarrow> byte list list \<Rightarrow> unit result"
where
  "verify_peer_certificate sha d peer_certificates =
     (case dc_remote_fingerprint d of
        None \<Rightarrow> Inl (MediaErr ''DTLS peer rejected: no a=fingerprint'')
      | Some expected \<Rightarrow>
          (case peer_certificates of
             [] \<Rightarrow> Inl (MediaErr ''DTLS peer rejected: the handshake produced no peer certificate'')
           | leaf # _ \<Rightarrow>
               (case fingerprint_verify sha expected leaf of
                  Inl e \<Rightarrow> Inl e
                | Inr ok \<Rightarrow>
                    if ok then Inr () else Inl (MediaErr ''DTLS peer rejected: certificate does not match''))))"

definition perform_handshake ::
  "(string \<Rightarrow> byte list \<Rightarrow> byte list) \<Rightarrow> (bool \<Rightarrow> (byte list list \<times> byte list result) result) \<Rightarrow>
   dtls_context \<Rightarrow> unit result \<times> dtls_context"
where
  "perform_handshake sha conn d =
     (case conn (dc_role d = RoleActive) of
        Inl e \<Rightarrow> (Inl e, d)
      | Inr (peer_certificates, exported) \<Rightarrow>
          (case verify_peer_certificate sha d peer_certificates of
             Inl e \<Rightarrow> (Inl e, d)
           | Inr _ \<Rightarrow>
               (case exported of
                  Inl _ \<Rightarrow> (Inl (MediaErr ''SRTP keying material export failed''), d)
                | Inr km \<Rightarrow>
                    if length km \<noteq> 60
                    then (Inl (MediaErr (''Unexpected keying material length: '' @ show_nat (length km)
                            @ '' (expected 60)'')), d)
                    else
                      (Inr (), d\<lparr>dc_srtp_keys := Some
                         \<lparr>dk_client_master_key = take 16 km,
                          dk_client_master_salt = take 14 (drop 32 km),
                          dk_server_master_key = take 16 (drop 16 km),
                          dk_server_master_salt = take 14 (drop 46 km)\<rparr>,
                         dc_handshake_complete := True\<rparr>))))"

text \<open>The receiving context first, then the sending one.\<close>

definition create_srtp_contexts ::
  "(byte list \<Rightarrow> byte list \<Rightarrow> nat \<Rightarrow> byte list) \<Rightarrow> dtls_context \<Rightarrow> (srtp_context \<times> srtp_context) result"
where
  "create_srtp_contexts ctr d =
     (case dc_srtp_keys d of
        None \<Rightarrow> Inl (MediaErr ''DTLS handshake not complete, no SRTP keys'')
      | Some k \<Rightarrow>
          (let (recv_key, recv_salt, send_key, send_salt) =
                 (if dc_role d = RoleActive
                  then (dk_server_master_key k, dk_server_master_salt k,
                        dk_client_master_key k, dk_client_master_salt k)
                  else (dk_client_master_key k, dk_client_master_salt k,
                        dk_server_master_key k, dk_server_master_salt k))
           in case srtp_context_new ctr recv_key recv_salt AesCm128HmacSha1_80 of
                Inl e \<Rightarrow> Inl e
              | Inr recv_ctx \<Rightarrow>
                  (case srtp_context_new ctr send_key send_salt AesCm128HmacSha1_80 of
                     Inl e \<Rightarrow> Inl e
                   | Inr send_ctx \<Rightarrow> Inr (recv_ctx, send_ctx))))"

definition resolve_role_from_answer :: "dtls_role option \<Rightarrow> dtls_context \<Rightarrow> dtls_context" where
  "resolve_role_from_answer answer d =
     d\<lparr>dc_role := (if answer = Some RolePassive then RoleActive else RolePassive)\<rparr>"

section \<open>What a description says\<close>

record webrtc_sdp_info =
  wi_ice_ufrag :: "string option"
  wi_ice_pwd :: "string option"
  wi_candidates :: "ice_candidate list"
  wi_fingerprint :: "certificate_fingerprint option"
  wi_dtls_role :: "dtls_role option"
  wi_crypto_suites :: "crypto_suite list"
  wi_is_webrtc :: bool
  wi_media_port :: "nat option"
  wi_mid :: "string option"
  wi_opus_pt :: "nat option"
  wi_telephone_event :: "(nat \<times> nat) option"

definition DEFAULT_OPUS_PT :: nat where "DEFAULT_OPUS_PT = 111"

definition DEFAULT_DTMF_PT :: nat where "DEFAULT_DTMF_PT = 110"

definition info_empty :: webrtc_sdp_info where
  "info_empty =
     \<lparr>wi_ice_ufrag = None, wi_ice_pwd = None, wi_candidates = [], wi_fingerprint = None,
      wi_dtls_role = None, wi_crypto_suites = [], wi_is_webrtc = False, wi_media_port = None,
      wi_mid = None, wi_opus_pt = None, wi_telephone_event = None\<rparr>"

text \<open>One line of the description: the tests of the loop body, in its order.\<close>

definition info_m_line :: "string \<Rightarrow> webrtc_sdp_info \<Rightarrow> webrtc_sdp_info" where
  "info_m_line line i =
     (if starts_with line ''m='' \<and> (contains line ''RTP/SAVPF'' \<or> contains line ''UDP/TLS/RTP/SAVPF'')
      then (let parts = splitn 4 CHR '' '' line; i' = i\<lparr>wi_is_webrtc := True\<rparr>
            in if 2 \<le> length parts then i'\<lparr>wi_media_port := parse_uint u16_max (parts ! 1)\<rparr> else i')
      else i)"

definition info_attr :: "string \<Rightarrow> string \<Rightarrow> (string \<Rightarrow> webrtc_sdp_info \<Rightarrow> webrtc_sdp_info) \<Rightarrow>
    webrtc_sdp_info \<Rightarrow> webrtc_sdp_info" where
  "info_attr prefix line f i = (case strip_prefix prefix line of None \<Rightarrow> i | Some v \<Rightarrow> f v i)"

definition info_line :: "string \<Rightarrow> webrtc_sdp_info \<Rightarrow> webrtc_sdp_info" where
  "info_line raw i0 =
     (let line = trim raw;
          i1 = info_m_line line i0;
          i2 = (if starts_with line ''a=fingerprint:'' then i1\<lparr>wi_is_webrtc := True\<rparr> else i1);
          i3 = info_attr ''a=ice-ufrag:'' line (\<lambda>v i. i\<lparr>wi_ice_ufrag := Some (trim v)\<rparr>) i2;
          i4 = info_attr ''a=ice-pwd:'' line (\<lambda>v i. i\<lparr>wi_ice_pwd := Some (trim v)\<rparr>) i3;
          i5 = info_attr ''a=candidate:'' line
                 (\<lambda>v i. case candidate_from_sdp (''candidate:'' @ v) of
                          Inl _ \<Rightarrow> i | Inr c \<Rightarrow> i\<lparr>wi_candidates := wi_candidates i @ [c]\<rparr>) i4;
          i6 = info_attr ''a=fingerprint:'' line
                 (\<lambda>v i. case fingerprint_from_sdp (trim v) of
                          Inl _ \<Rightarrow> i | Inr f \<Rightarrow> i\<lparr>wi_fingerprint := Some f\<rparr>) i5;
          i7 = info_attr ''a=setup:'' line (\<lambda>v i. i\<lparr>wi_dtls_role := dtls_role_from_str (trim v)\<rparr>) i6;
          i8 = info_attr ''a=mid:'' line (\<lambda>v i. i\<lparr>wi_mid := Some (trim v)\<rparr>) i7
      in info_attr ''a=crypto:'' line
           (\<lambda>v i. let parts = splitn 3 CHR '' '' v
                   in if 2 \<le> length parts
                      then (case from_sdp_name (parts ! 1) of
                              None \<Rightarrow> i | Some s \<Rightarrow> i\<lparr>wi_crypto_suites := wi_crypto_suites i @ [s]\<rparr>)
                      else i) i8)"

definition info_format :: "audio_format \<Rightarrow> webrtc_sdp_info \<Rightarrow> webrtc_sdp_info" where
  "info_format f i =
     (if af_name f = ''opus'' \<and> wi_opus_pt i = None then i\<lparr>wi_opus_pt := Some (af_pt f)\<rparr>
      else if af_name f = ''telephone-event'' \<and> wi_telephone_event i = None
      then i\<lparr>wi_telephone_event := Some (af_pt f, af_clock_rate f)\<rparr>
      else i)"

definition info_from_sdp :: "string \<Rightarrow> webrtc_sdp_info" where
  "info_from_sdp sdp = fold info_format (sdp_audio_formats sdp) (fold info_line (lines sdp) info_empty)"

definition has_ice :: "webrtc_sdp_info \<Rightarrow> bool" where
  "has_ice i \<longleftrightarrow> wi_ice_ufrag i \<noteq> None \<and> wi_ice_pwd i \<noteq> None"

definition has_dtls :: "webrtc_sdp_info \<Rightarrow> bool" where
  "has_dtls i \<longleftrightarrow> wi_fingerprint i \<noteq> None"

definition has_candidates :: "webrtc_sdp_info \<Rightarrow> bool" where
  "has_candidates i \<longleftrightarrow> wi_candidates i \<noteq> []"

definition sbc_dtls_role :: "webrtc_sdp_info \<Rightarrow> dtls_role" where
  "sbc_dtls_role i = (if wi_dtls_role i = Some RolePassive then RoleActive else RolePassive)"


section \<open>Sessions\<close>

record webrtc_session =
  ws_call_id :: string
  ws_ice_agent :: ice_agent
  ws_dtls_context :: dtls_context
  ws_remote_info :: webrtc_sdp_info
  ws_srtp_send :: "srtp_context option"
  ws_srtp_recv :: "srtp_context option"

text \<open>\<open>rnd\<close> is the pair of random credentials of the ICE agent.\<close>

definition webrtc_session_new ::
  "(string \<Rightarrow> byte list \<Rightarrow> byte list) \<Rightarrow> byte list result \<Rightarrow> string \<times> string \<Rightarrow> string \<Rightarrow> string \<Rightarrow>
   webrtc_session result"
where
  "webrtc_session_new sha generated rnd call_id remote_sdp =
     (let info = info_from_sdp remote_sdp
      in if \<not> wi_is_webrtc info then Inl (MediaErr ''Not a WebRTC SDP'')
         else
           let agent0 = ice_agent_new (fst rnd) (snd rnd) False;
               agent = (case (wi_ice_ufrag info, wi_ice_pwd info) of
                          (Some ufrag, Some pwd) \<Rightarrow> set_remote_credentials ufrag pwd agent0
                        | _ \<Rightarrow> agent0)
           in case dtls_context_new sha generated (sbc_dtls_role info) of
                Inl e \<Rightarrow> Inl e
              | Inr d \<Rightarrow>
                  Inr \<lparr>ws_call_id = call_id, ws_ice_agent = agent,
                       ws_dtls_context = (case wi_fingerprint info of
                          None \<Rightarrow> d | Some fp \<Rightarrow> set_remote_fingerprint fp d),
                       ws_remote_info = info, ws_srtp_send = None, ws_srtp_recv = None\<rparr>)"

definition add_remote_candidates :: "webrtc_session \<Rightarrow> webrtc_session" where
  "add_remote_candidates s =
     s\<lparr>ws_ice_agent := fold add_remote_candidate (wi_candidates (ws_remote_info s)) (ws_ice_agent s)\<rparr>"

definition answer_dtmf :: "webrtc_sdp_info \<Rightarrow> (nat \<times> nat) option" where
  "answer_dtmf i =
     (case wi_telephone_event i of
        None \<Rightarrow> None
      | Some (pt, rate) \<Rightarrow>
          if pt \<noteq> (case wi_opus_pt i of None \<Rightarrow> DEFAULT_OPUS_PT | Some p \<Rightarrow> p) then Some (pt, rate) else None)"

definition sdp_text :: "string list \<Rightarrow> string" where
  "sdp_text ls = concat (map (\<lambda>l. l @ crlf) ls)"

definition answer_lines :: "webrtc_session \<Rightarrow> nat \<Rightarrow> string \<Rightarrow> string list" where
  "answer_lines s port ip =
     (let (ufrag, pwd) = credentials (ws_ice_agent s);
          info = ws_remote_info s;
          mid = (case wi_mid info of None \<Rightarrow> ''0'' | Some m \<Rightarrow> m);
          opus_pt = show_nat (case wi_opus_pt info of None \<Rightarrow> DEFAULT_OPUS_PT | Some p \<Rightarrow> p);
          dtmf = answer_dtmf info
      in [''v=0'', ''o=- 0 0 IN IP4 '' @ ip, ''s=SBC'', ''c=IN IP4 '' @ ip, ''t=0 0'', ''a=ice-lite'',
          ''a=group:BUNDLE '' @ mid,
          ''m=audio '' @ show_nat port @ '' '' @ ''UDP/TLS/RTP/SAVPF '' @ opus_pt
            @ (case dtmf of None \<Rightarrow> '''' | Some (pt, _) \<Rightarrow> '' '' @ show_nat pt),
          ''c=IN IP4 '' @ ip, ''a=mid:'' @ mid, ''a=ice-ufrag:'' @ ufrag, ''a=ice-pwd:'' @ pwd,
          ''a=fingerprint:'' @ fingerprint_to_sdp (dc_local_fingerprint (ws_dtls_context s)),
          ''a=setup:'' @ dtls_role_to_str (dc_role (ws_dtls_context s)),
          ''a=rtpmap:'' @ opus_pt @ '' opus/48000/2'',
          ''a=fmtp:'' @ opus_pt @ '' minptime=10;useinbandfec=1'']
         @ (case dtmf of
              None \<Rightarrow> []
            | Some (pt, rate) \<Rightarrow>
                [''a=rtpmap:'' @ show_nat pt @ '' telephone-event/'' @ show_nat rate,
                 ''a=fmtp:'' @ show_nat pt @ '' 0-16''])
         @ [''a=rtcp-mux'', ''a=sendrecv'', ''a=rtcp:'' @ show_nat port,
            ''a=candidate:1 1 UDP 2130706431 '' @ ip @ '' '' @ show_nat port @ '' typ host''])"

definition generate_sdp_answer :: "webrtc_session \<Rightarrow> nat \<Rightarrow> string \<Rightarrow> string" where
  "generate_sdp_answer s port ip = sdp_text (answer_lines s port ip)"

text \<open>\<open>rnd\<close> stands for the random key material of the suite.\<close>

definition setup_srtp_sdes ::
  "(byte list \<Rightarrow> byte list \<Rightarrow> nat \<Rightarrow> byte list) \<Rightarrow> (crypto_suite \<Rightarrow> byte list \<times> byte list) \<Rightarrow> webrtc_session \<Rightarrow>
   unit result \<times> webrtc_session"
where
  "setup_srtp_sdes ctr rnd s =
     (case wi_crypto_suites (ws_remote_info s) of
        [] \<Rightarrow> (Inl (MediaErr ''No SRTP crypto suite in remote SDP''), s)
      | suite # _ \<Rightarrow>
          (let (key, salt) = rnd suite
           in case srtp_context_new ctr key salt suite of
                Inl e \<Rightarrow> (Inl e, s)
              | Inr send \<Rightarrow>
                  (case srtp_context_new ctr key salt suite of
                     Inl e \<Rightarrow> (Inl e, s)
                   | Inr recv \<Rightarrow> (Inr (), s\<lparr>ws_srtp_send := Some send, ws_srtp_recv := Some recv\<rparr>))))"

definition session_ice_stats :: "webrtc_session \<Rightarrow> ice_stats" where
  "session_ice_stats s = ice_stats_of (ws_ice_agent s)"

definition is_ice_established :: "webrtc_session \<Rightarrow> bool" where
  "is_ice_established s \<longleftrightarrow> get_selected_pair (ws_ice_agent s) \<noteq> None"

definition webrtc_session_new_for_offer ::
  "(string \<Rightarrow> byte list \<Rightarrow> byte list) \<Rightarrow> byte list result \<Rightarrow> string \<times> string \<Rightarrow> string \<Rightarrow> webrtc_session result"
where
  "webrtc_session_new_for_offer sha generated rnd call_id =
     (case dtls_context_new sha generated RoleActPass of
        Inl e \<Rightarrow> Inl e
      | Inr d \<Rightarrow>
          Inr \<lparr>ws_call_id = call_id, ws_ice_agent = ice_agent_new (fst rnd) (snd rnd) True,
               ws_dtls_context = d, ws_remote_info = info_empty, ws_srtp_send = None, ws_srtp_recv = None\<rparr>)"

definition set_remote_sdp :: "string \<Rightarrow> webrtc_session \<Rightarrow> webrtc_session" where
  "set_remote_sdp remote_sdp s =
     (let info = info_from_sdp remote_sdp;
          agent = (case (wi_ice_ufrag info, wi_ice_pwd info) of
                     (Some ufrag, Some pwd) \<Rightarrow> set_remote_credentials ufrag pwd (ws_ice_agent s)
                   | _ \<Rightarrow> ws_ice_agent s);
          d = (case wi_fingerprint info of
                 None \<Rightarrow> ws_dtls_context s | Some fp \<Rightarrow> set_remote_fingerprint fp (ws_dtls_context s))
      in s\<lparr>ws_remote_info := info, ws_ice_agent := agent,
           ws_dtls_context := resolve_role_from_answer (wi_dtls_role info) d\<rparr>)"

definition offer_lines :: "webrtc_session \<Rightarrow> nat \<Rightarrow> string \<Rightarrow> string list" where
  "offer_lines s port ip =
     (let (ufrag, pwd) = credentials (ws_ice_agent s);
          opus = show_nat DEFAULT_OPUS_PT; dtmf = show_nat DEFAULT_DTMF_PT
      in [''v=0'', ''o=- 0 0 IN IP4 '' @ ip, ''s=SBC'', ''c=IN IP4 '' @ ip, ''t=0 0'', ''a=ice-lite'',
          ''a=group:BUNDLE 0'',
          ''m=audio '' @ show_nat port @ '' '' @ ''UDP/TLS/RTP/SAVPF '' @ opus @ '' '' @ dtmf,
          ''c=IN IP4 '' @ ip, ''a=mid:0'', ''a=ice-ufrag:'' @ ufrag, ''a=ice-pwd:'' @ pwd,
          ''a=fingerprint:'' @ fingerprint_to_sdp (dc_local_fingerprint (ws_dtls_context s)),
          ''a=setup:actpass'', ''a=rtpmap:'' @ opus @ '' opus/48000/2'',
          ''a=fmtp:'' @ opus @ '' minptime=10;useinbandfec=1'',
          ''a=rtpmap:'' @ dtmf @ '' telephone-event/48000'', ''a=fmtp:'' @ dtmf @ '' 0-16'',
          ''a=rtcp-mux'', ''a=sendrecv'', ''a=rtcp:'' @ show_nat port,
          ''a=candidate:1 1 UDP 2130706431 '' @ ip @ '' '' @ show_nat port @ '' typ host''])"

definition generate_sdp_offer :: "webrtc_session \<Rightarrow> nat \<Rightarrow> string \<Rightarrow> string" where
  "generate_sdp_offer s port ip = sdp_text (offer_lines s port ip)"


section \<open>The certificate decides\<close>

lemma upper_digit: "d < 16 \<Longrightarrow> (of_char (upper_char (digit_char d)) :: nat) = (if d < 10 then 48 + d else 55 + d)"
  by (auto simp: upper_char_def digit_char_def)

lemma byte_hex_digits:
  "byte_hex b = [upper_char (digit_char (unat b div 16)), upper_char (digit_char (unat b mod 16))]"
proof (cases "unat b < 16")
  case True
  have "upper_char (digit_char 0) = CHR ''0''" by code_simp
  then show ?thesis
    using True by (simp add: byte_hex_def show_hex_def show_base.simps [of 16 "unat b"] to_ascii_uppercase_def Let_def)
next
  case False
  have "unat b div 16 < 16" using unat_byte_less [of b] by simp
  then show ?thesis
    using False by (simp add: byte_hex_def show_hex_def show_base.simps [of 16 "unat b"]
        show_base.simps [of 16 "unat b div 16"] to_ascii_uppercase_def Let_def)
qed

lemma upper_digit_inj: "d < 16 \<Longrightarrow> e < 16 \<Longrightarrow> upper_char (digit_char d) = upper_char (digit_char e) \<Longrightarrow> d = e"
proof -
  assume a: "d < 16" "e < 16" "upper_char (digit_char d) = upper_char (digit_char e)"
  then have "(of_char (upper_char (digit_char d)) :: nat) = of_char (upper_char (digit_char e))" by simp
  then show "d = e" using a(1,2) by (simp add: upper_digit split: if_splits)
qed

lemma byte_hex_inj: "byte_hex a = byte_hex b \<Longrightarrow> a = b"
proof -
  assume "byte_hex a = byte_hex b"
  moreover have "unat a div 16 < 16" "unat b div 16 < 16" using unat_byte_less [of a] unat_byte_less [of b] by simp_all
  ultimately have "unat a div 16 = unat b div 16" "unat a mod 16 = unat b mod 16"
    by (auto simp: byte_hex_digits intro: upper_digit_inj)
  then have "unat a = unat b" by (metis div_mult_mod_eq)
  then show "a = b" by (simp add: word_unat_eq_iff)
qed

lemma concat_hex_inj: "concat (map byte_hex as) = concat (map byte_hex bs) \<Longrightarrow> as = bs"
proof (induction "as" arbitrary: bs)
  case Nil
  then show ?case by (cases bs) (simp_all add: byte_hex_digits)
next
  case (Cons a "as")
  from Cons.prems obtain b bs' where bs: "bs = b # bs'" by (cases bs) (simp_all add: byte_hex_digits)
  have "length (byte_hex a) = length (byte_hex b)" by (simp add: byte_hex_digits)
  with Cons.prems have "byte_hex a = byte_hex b" "concat (map byte_hex as) = concat (map byte_hex bs')"
    by (simp_all add: bs)
  with Cons.IH byte_hex_inj show ?case by (simp add: bs)
qed

text \<open>No digit is a separator, and the digits are in upper case already.\<close>

lemma hex_chars: "c \<in> set (byte_hex b) \<Longrightarrow> c \<notin> set '': -'' \<and> upper_char c = c"
proof -
  assume "c \<in> set (byte_hex b)"
  then have "c = upper_char (digit_char (unat b div 16)) \<or> c = upper_char (digit_char (unat b mod 16))"
    by (simp add: byte_hex_digits)
  moreover have "unat b div 16 < 16" "unat b mod 16 < 16" using unat_byte_less [of b] by simp_all
  ultimately obtain d where d: "d < 16" "c = upper_char (digit_char d)" by blast
  have n: "(of_char c :: nat) = (if d < 10 then 48 + d else 55 + d)" using upper_digit [OF d(1)] d(2) by simp
  have "c \<noteq> CHR '':''" "c \<noteq> CHR '' ''" "c \<noteq> CHR ''-''" using n d(1) by (auto split: if_splits)
  moreover have "upper_char c = c" using n d(1) by (auto simp: upper_char_def)
  ultimately show ?thesis by simp
qed

lemma hex_colons_filter:
  "filter (\<lambda>c. c \<noteq> CHR '':'') (hex_colons bs) = concat (map byte_hex bs)"
  "filter (\<lambda>c. c \<notin> set '': -'') (hex_colons bs) = concat (map byte_hex bs)"
  "to_ascii_uppercase (hex_colons bs) = hex_colons bs"
proof -
  have w: "filter (\<lambda>c. c \<noteq> CHR '':'') (byte_hex b) = byte_hex b"
    "filter (\<lambda>c. c \<notin> set '': -'') (byte_hex b) = byte_hex b" "map upper_char (byte_hex b) = byte_hex b" for b
    using hex_chars [of _ b] by (auto simp: filter_id_conv intro: map_idI)
  have colon: "upper_char CHR '':'' = CHR '':''" by code_simp
  show "filter (\<lambda>c. c \<noteq> CHR '':'') (hex_colons bs) = concat (map byte_hex bs)"
    "filter (\<lambda>c. c \<notin> set '': -'') (hex_colons bs) = concat (map byte_hex bs)"
    "to_ascii_uppercase (hex_colons bs) = hex_colons bs"
    unfolding hex_colons_def
    by (induction bs rule: induct_list012; simp add: w w(2) [simplified] colon to_ascii_uppercase_def)+
qed

lemma lower_sha256: "to_ascii_lowercase ''sha-256'' = ''sha-256''"
  by code_simp

lemma own_fingerprint_verified:
  "fingerprint_verify sha (compute_fingerprint sha cert) leaf = Inr (sha ''sha-256'' leaf = sha ''sha-256'' cert)"
  using concat_hex_inj
  by (auto simp: fingerprint_verify_def compute_fingerprint_def digest_of_def lower_sha256 Let_def
      hex_colons_filter(1,3) hex_colons_filter(2) [simplified])



text \<open>The two ends of a handshake use each other's keys.\<close>

lemma handshake_directions:
  assumes "create_srtp_contexts ctr a = Inr (recv, send)" and "dc_srtp_keys b = dc_srtp_keys a"
    and "(dc_role a = RoleActive) \<noteq> (dc_role b = RoleActive)"
  shows "create_srtp_contexts ctr b = Inr (send, recv)"
  using assms by (auto simp: create_srtp_contexts_def split: option.splits sum.splits if_splits)


section \<open>Descriptions read back\<close>

text \<open>The common shape of the offer and the answer.\<close>

definition dtmf_types :: "(nat \<times> nat) option \<Rightarrow> string" where
  "dtmf_types dtmf = (case dtmf of None \<Rightarrow> '''' | Some (pt, _) \<Rightarrow> '' '' @ show_nat pt)"

definition dtmf_lines :: "(nat \<times> nat) option \<Rightarrow> string list" where
  "dtmf_lines dtmf =
     (case dtmf of
        None \<Rightarrow> []
      | Some (pt, rate) \<Rightarrow>
          [''a=rtpmap:'' @ show_nat pt @ '' telephone-event/'' @ show_nat rate,
           ''a=fmtp:'' @ show_nat pt @ '' 0-16''])"

definition description ::
  "string \<Rightarrow> dtls_role \<Rightarrow> string \<Rightarrow> string \<Rightarrow> certificate_fingerprint \<Rightarrow> nat \<Rightarrow> (nat \<times> nat) option \<Rightarrow> nat \<Rightarrow> string \<Rightarrow>
   string list"
where
  "description mid side ufrag pwd fp opus dtmf port ip =
     [''v=0'', ''o=- 0 0 IN IP4 '' @ ip, ''s=SBC'', ''c=IN IP4 '' @ ip, ''t=0 0'', ''a=ice-lite'',
      ''a=group:BUNDLE '' @ mid,
      ''m=audio '' @ show_nat port @ '' '' @ ''UDP/TLS/RTP/SAVPF '' @ show_nat opus @ dtmf_types dtmf,
      ''c=IN IP4 '' @ ip, ''a=mid:'' @ mid, ''a=ice-ufrag:'' @ ufrag, ''a=ice-pwd:'' @ pwd,
      ''a=fingerprint:'' @ fingerprint_to_sdp fp, ''a=setup:'' @ dtls_role_to_str side,
      ''a=rtpmap:'' @ show_nat opus @ '' opus/48000/2'',
      ''a=fmtp:'' @ show_nat opus @ '' minptime=10;useinbandfec=1'']
     @ dtmf_lines dtmf
     @ [''a=rtcp-mux'', ''a=sendrecv'', ''a=rtcp:'' @ show_nat port,
        ''a=candidate:1 1 UDP 2130706431 '' @ ip @ '' '' @ show_nat port @ '' typ host'']"

lemma offer_lines_description:
  "offer_lines s port ip =
     description ''0'' RoleActPass (ia_ufrag (ws_ice_agent s)) (ia_pwd (ws_ice_agent s))
       (dc_local_fingerprint (ws_dtls_context s)) DEFAULT_OPUS_PT (Some (DEFAULT_DTMF_PT, 48000)) port ip"
proof -
  have "char_of (52 :: nat) = CHR ''4''" "char_of (56 :: nat) = CHR ''8''" "char_of (48 :: nat) = CHR ''0''"
    by code_simp+
  then have "show_nat 48000 = ''48000''"
    by (simp add: show_nat_def show_base.simps digit_char_def)
  then show ?thesis
    by (simp add: offer_lines_def description_def credentials_def dtmf_types_def dtmf_lines_def Let_def)
qed

lemma answer_lines_description:
  "answer_lines s port ip =
     description (case wi_mid (ws_remote_info s) of None \<Rightarrow> ''0'' | Some m \<Rightarrow> m) (dc_role (ws_dtls_context s))
       (ia_ufrag (ws_ice_agent s)) (ia_pwd (ws_ice_agent s)) (dc_local_fingerprint (ws_dtls_context s))
       (case wi_opus_pt (ws_remote_info s) of None \<Rightarrow> DEFAULT_OPUS_PT | Some p \<Rightarrow> p)
       (answer_dtmf (ws_remote_info s)) port ip"
  by (simp add: answer_lines_def description_def credentials_def dtmf_types_def dtmf_lines_def Let_def
      split: option.splits)

lemma word_trim: "sdp_word w \<Longrightarrow> trim w = w"
  by (rule trim_id) (auto simp: sdp_word_def list_all_iff)

lemma word_tail_trim: "sdp_word w \<Longrightarrow> c \<noteq> [] \<Longrightarrow> \<not> is_space (hd c) \<Longrightarrow> trim (c @ w) = c @ w"
  by (rule trim_id) (auto simp: sdp_word_def list_all_iff)

named_theorems info_simps \<open>what each line of a description adds\<close>

text \<open>The attributes that are read, each from a value without blanks at its ends.\<close>

lemma info_line_attrs [info_simps]:
  assumes "sdp_word w"
  shows "info_line (''a=mid:'' @ w) i = i\<lparr>wi_mid := Some w\<rparr>"
    "info_line (''a=ice-ufrag:'' @ w) i = i\<lparr>wi_ice_ufrag := Some w\<rparr>"
    "info_line (''a=ice-pwd:'' @ w) i = i\<lparr>wi_ice_pwd := Some w\<rparr>"
    "info_line (''a=setup:'' @ w) i = i\<lparr>wi_dtls_role := dtls_role_from_str w\<rparr>"
    "info_line (''a=rtcp:'' @ w) i = i" "info_line (''a=group:BUNDLE '' @ w) i = i"
  using word_trim [OF assms] word_tail_trim [OF assms, of "''a=mid:''"] word_tail_trim [OF assms, of "''a=ice-ufrag:''"]
    word_tail_trim [OF assms, of "''a=ice-pwd:''"] word_tail_trim [OF assms, of "''a=setup:''"]
    word_tail_trim [OF assms, of "''a=rtcp:''"] word_tail_trim [OF assms, of "''a=group:BUNDLE ''"]
  by (simp_all add: info_line_def info_m_line_def info_attr_def starts_with_def is_space_def Let_def)

lemma info_line_plain [info_simps]:
  "info_line ''a=ice-lite'' i = i" "info_line ''a=rtcp-mux'' i = i" "info_line ''a=sendrecv'' i = i"
  "info_line ''v=0'' i = i" "info_line ''s=SBC'' i = i" "info_line ''t=0 0'' i = i"
  by (simp_all add: info_line_def info_m_line_def info_attr_def starts_with_def trim_id is_space_def Let_def)

lemma info_line_rtp [info_simps]:
  assumes "\<not> is_space (last v)" "v \<noteq> []"
  shows "info_line (''a=rtpmap:'' @ v) i = i" "info_line (''a=fmtp:'' @ v) i = i"
proof -
  have "trim (''a=rtpmap:'' @ v) = ''a=rtpmap:'' @ v" "trim (''a=fmtp:'' @ v) = ''a=fmtp:'' @ v"
    using assms by (auto intro!: trim_id simp: is_space_def)
  then show "info_line (''a=rtpmap:'' @ v) i = i" "info_line (''a=fmtp:'' @ v) i = i"
    by (simp_all add: info_line_def info_m_line_def info_attr_def starts_with_def Let_def)
qed

lemma info_line_session [info_simps]:
  assumes "sdp_word ip"
  shows "info_line (''o=- 0 0 IN IP4 '' @ ip) i = i" "info_line (''c=IN IP4 '' @ ip) i = i"
  using word_tail_trim [OF assms, of "''o=- 0 0 IN IP4 ''"] word_tail_trim [OF assms, of "''c=IN IP4 ''"]
  by (simp_all add: info_line_def info_m_line_def info_attr_def starts_with_def is_space_def Let_def)

lemma info_line_fingerprint [info_simps]:
  assumes "sdp_word (cf_algorithm fp)" "sdp_word (cf_fingerprint fp)"
  shows "info_line (''a=fingerprint:'' @ fingerprint_to_sdp fp) i = i\<lparr>wi_is_webrtc := True, wi_fingerprint := Some fp\<rparr>"
proof -
  let ?v = "fingerprint_to_sdp fp"
  have v: "?v \<noteq> []" "\<not> is_space (hd ?v)" "\<not> is_space (last ?v)"
    using assms by (auto simp: fingerprint_to_sdp_def sdp_word_def list_all_iff)
  then have t: "trim ?v = ?v" "trim (''a=fingerprint:'' @ ?v) = ''a=fingerprint:'' @ ?v"
    by (auto intro!: trim_id simp: is_space_def)
  have "split_whitespace ?v = [cf_algorithm fp, cf_fingerprint fp]"
    using split_words [of "[cf_algorithm fp, cf_fingerprint fp]"] assms by (simp add: fingerprint_to_sdp_def)
  then have "fingerprint_from_sdp ?v = Inr fp" by (simp add: fingerprint_from_sdp_def)
  with t show ?thesis by (simp add: info_line_def info_m_line_def info_attr_def starts_with_def Let_def)
qed

lemma info_line_media [info_simps]:
  assumes "port \<le> u16_max" "\<not> is_space (last types)" "types \<noteq> []"
  shows "info_line (''m=audio '' @ show_nat port @ '' '' @ ''UDP/TLS/RTP/SAVPF '' @ types) i =
    i\<lparr>wi_is_webrtc := True, wi_media_port := Some port\<rparr>" (is "info_line ?l i = _")
proof -
  have t: "trim ?l = ?l" using assms(2,3) by (intro trim_id) (auto simp: is_space_def)
  have "contains ?l ''RTP/SAVPF''"
    unfolding contains_iff by (rule exI [of _ "''m=audio '' @ show_nat port @ '' UDP/TLS/''"], rule exI [of _ "'' '' @ types"]) simp
  moreover have "CHR '' '' \<notin> set (show_nat port)"
    using show_nat_no_space [of port] by (auto simp: list_all_iff is_space_def)
  then have "split_once CHR '' '' (show_nat port @ CHR '' '' # r) = Some (show_nat port, r)" for r
    by (rule split_once_word)
  then have "splitn 4 CHR '' '' ?l ! 1 = show_nat port" "2 \<le> length (splitn 4 CHR '' '' ?l)"
    using split_once_word [of "CHR '' ''" "''m=audio''" "show_nat port @ '' UDP/TLS/RTP/SAVPF '' @ types"]
    by (auto simp: numeral_eq_Suc split: option.splits prod.splits)
  ultimately have "info_m_line ?l i = i\<lparr>wi_is_webrtc := True, wi_media_port := Some port\<rparr>"
    using parse_show_nat [OF assms(1)] by (simp add: info_m_line_def starts_with_def Let_def)
  then show ?thesis
    unfolding info_line_def t Let_def by (simp add: info_attr_def starts_with_def)
qed


definition sbc_candidate :: "ip_addr \<Rightarrow> nat \<Rightarrow> ice_candidate" where
  "sbc_candidate ip port =
     \<lparr>ic_foundation = ''1'', ic_component = 1, ic_transport = ''UDP'', ic_priority = 2130706431,
      ic_address = (ip, port), ic_candidate_type = Host, ic_related_address = None\<rparr>"

lemma show_priority: "show_nat 2130706431 = ''2130706431''" "show_nat 1 = ''1''"
proof -
  have "char_of (50 :: nat) = CHR ''2''" "char_of (49 :: nat) = CHR ''1''" "char_of (51 :: nat) = CHR ''3''"
    "char_of (48 :: nat) = CHR ''0''" "char_of (55 :: nat) = CHR ''7''" "char_of (54 :: nat) = CHR ''6''"
    "char_of (52 :: nat) = CHR ''4''"
    by code_simp+
  then show "show_nat 2130706431 = ''2130706431''" "show_nat 1 = ''1''"
    by (simp_all add: show_nat_def show_base.simps digit_char_def)
qed

lemma info_line_candidate [info_simps]:
  assumes "plain_v4 ip" "port \<le> u16_max"
  shows "info_line (''a=candidate:1 1 UDP 2130706431 '' @ ip_to_string ip @ '' '' @ show_nat port @ '' typ host'') i =
    i\<lparr>wi_candidates := wi_candidates i @ [sbc_candidate ip port]\<rparr>"
proof -
  let ?v = "''1 1 UDP 2130706431 '' @ ip_to_string ip @ '' '' @ show_nat port @ '' typ host''"
  have "plain_candidate (sbc_candidate ip port)"
    using assms by (simp add: plain_candidate_def sbc_candidate_def sdp_word_def is_space_def u16_max_def u32_max_def)
  moreover have "candidate_to_sdp (sbc_candidate ip port) = ''candidate:'' @ ?v"
    by (simp add: candidate_to_sdp_def sbc_candidate_def show_priority show_priority(2) [simplified])
  ultimately have c: "candidate_from_sdp (''candidate:'' @ ?v) = Inr (sbc_candidate ip port)"
    using candidate_round_trip by metis
  have t: "trim (''a=candidate:'' @ ?v) = ''a=candidate:'' @ ?v" by (rule trim_id) (simp add: is_space_def)
  have "info_line (''a=candidate:'' @ ?v) i = i\<lparr>wi_candidates := wi_candidates i @ [sbc_candidate ip port]\<rparr>"
    unfolding info_line_def t Let_def
    using c by (simp add: info_m_line_def info_attr_def starts_with_def)
  then show ?thesis by simp
qed

text \<open>The audio formats of a description.\<close>

lemma rtpmap_none: "\<not> starts_with l ''a=rtpmap:'' \<Longrightarrow> \<not> starts_with l ''A=rtpmap:'' \<Longrightarrow> read_rtpmap l = None"
  by (simp add: read_rtpmap_def strip_prefix_None [THEN iffD2])

lemma lower_name: "to_ascii_lowercase ''telephone-event'' = ''telephone-event''"
  by code_simp

lemma sdp_words: "sdp_word ''opus/48000/2''" "sdp_word ''m=audio''" "sdp_word ''UDP/TLS/RTP/SAVPF''"
  by (simp_all add: sdp_word_def is_space_def)

lemma rtpmap_opus:
  assumes "n \<le> 127"
  shows "read_rtpmap (''a=rtpmap:'' @ show_nat n @ '' opus/48000/2'') = Some (n, ''opus'', 48000)"
proof -
  have "split_whitespace (show_nat n @ '' opus/48000/2'') = [show_nat n, ''opus/48000/2'']"
    using split_words [of "[show_nat n, ''opus/48000/2'']"] sdp_words by simp
  moreover have "parse_uint u32_max ''48000'' = Some 48000"
    by (simp add: parse_uint_def is_ascii_digit_def digits_value_def digit_value_def u32_max_def)
  ultimately show ?thesis
    using parse_show_nat [of n 255] assms
    by (simp add: read_rtpmap_def MAX_PAYLOAD_TYPE_def lower_names Let_def)
qed

lemma rtpmap_dtmf:
  assumes "n \<le> 127" "rate \<le> u32_max"
  shows "read_rtpmap (''a=rtpmap:'' @ show_nat n @ '' telephone-event/'' @ show_nat rate) =
    Some (n, ''telephone-event'', rate)"
proof -
  have w: "sdp_word (''telephone-event/'' @ show_nat rate)"
    using show_nat_no_space [of rate] by (simp add: sdp_word_def is_space_def)
  have "split_whitespace (show_nat n @ '' telephone-event/'' @ show_nat rate) =
      [show_nat n, ''telephone-event/'' @ show_nat rate]"
    using split_words [of "[show_nat n, ''telephone-event/'' @ show_nat rate]"] w by simp
  moreover have "CHR ''/'' \<notin> set (show_nat rate)"
    using show_nat_digits(1) [of "CHR ''/''" rate] by auto
  then have "split_on CHR ''/'' (''telephone-event/'' @ show_nat rate) = [''telephone-event'', show_nat rate]"
    by (simp add: split_on_word)
  ultimately show ?thesis
    using parse_show_nat [of n 255] parse_show_nat [OF assms(2)] assms(1)
    by (simp add: read_rtpmap_def MAX_PAYLOAD_TYPE_def lower_name Let_def)
qed

lemma description_types:
  assumes "opus \<le> 127" "\<And>pt rate. dtmf = Some (pt, rate) \<Longrightarrow> pt \<le> 127"
  shows "payload_types (drop 3 (split_whitespace
      (''m=audio '' @ show_nat port @ '' '' @ ''UDP/TLS/RTP/SAVPF '' @ show_nat opus @ dtmf_types dtmf))) =
    opus # map fst (case dtmf of None \<Rightarrow> [] | Some d \<Rightarrow> [d])"
proof -
  let ?ws = "[''m=audio'', show_nat port, ''UDP/TLS/RTP/SAVPF'', show_nat opus] @
    map (show_nat \<circ> fst) (case dtmf of None \<Rightarrow> [] | Some d \<Rightarrow> [d])"
  have "list_all sdp_word ?ws" using sdp_words by (simp split: option.splits)
  from split_words [OF this]
  have "split_whitespace (''m=audio '' @ show_nat port @ '' '' @ ''UDP/TLS/RTP/SAVPF '' @ show_nat opus @ dtmf_types dtmf) = ?ws"
    by (cases dtmf) (auto simp: dtmf_types_def)
  then show ?thesis
    using assms parse_show_nat [of _ 255]
    by (cases dtmf) (auto simp: payload_types_def List.map_filter_def MAX_PAYLOAD_TYPE_def)
qed


definition opus_format :: "nat \<Rightarrow> audio_format" where
  "opus_format pt = \<lparr>af_pt = pt, af_name = ''opus'', af_clock_rate = 48000, af_named = True\<rparr>"

definition dtmf_format :: "nat \<times> nat \<Rightarrow> audio_format" where
  "dtmf_format d = \<lparr>af_pt = fst d, af_name = ''telephone-event'', af_clock_rate = snd d, af_named = True\<rparr>"

text \<open>The values a description may carry: words, an IPv4 address, a port and payload types in range.\<close>

definition plain_values ::
  "string \<Rightarrow> string \<Rightarrow> string \<Rightarrow> certificate_fingerprint \<Rightarrow> nat \<Rightarrow> (nat \<times> nat) option \<Rightarrow> nat \<Rightarrow> ip_addr \<Rightarrow> bool"
where
  "plain_values mid ufrag pwd fp opus dtmf port ip \<longleftrightarrow>
     sdp_word mid \<and> sdp_word ufrag \<and> sdp_word pwd \<and> sdp_word (cf_algorithm fp) \<and> sdp_word (cf_fingerprint fp) \<and>
     opus \<le> 127 \<and> (case dtmf of None \<Rightarrow> True | Some (pt, rate) \<Rightarrow> pt \<le> 127 \<and> pt \<noteq> opus \<and> rate \<le> u32_max) \<and>
     port \<noteq> 0 \<and> port \<le> u16_max \<and> plain_v4 ip"

lemma description_rtpmaps:
  assumes "plain_values mid ufrag pwd fp opus dtmf port ip"
  shows "rtpmaps ((''m=audio '' @ show_nat port @ '' '' @ ''UDP/TLS/RTP/SAVPF '' @ show_nat opus @ dtmf_types dtmf) #
      drop 8 (description mid side ufrag pwd fp opus dtmf port ips)) =
    (opus, ''opus'', 48000) # (case dtmf of None \<Rightarrow> [] | Some (pt, rate) \<Rightarrow> [(pt, ''telephone-event'', rate)])"
proof -
  have none: "read_rtpmap (''m='' @ x) = None" "read_rtpmap (''c='' @ x) = None" "read_rtpmap (''a=mid:'' @ x) = None"
    "read_rtpmap (''a=ice-'' @ x) = None" "read_rtpmap (''a=f'' @ x) = None" "read_rtpmap (''a=s'' @ x) = None"
    "read_rtpmap (''a=rtcp'' @ x) = None" "read_rtpmap (''a=candidate:'' @ x) = None" for x
    by (simp_all add: rtpmap_none starts_with_def)
  note none = none [simplified]
  show ?thesis
  proof (cases dtmf)
    case None
    then show ?thesis
      using rtpmap_opus [of opus] assms
      by (simp add: rtpmaps_def description_def dtmf_lines_def none plain_values_def hm_insert_def)
  next
    case (Some d)
    then show ?thesis
      using rtpmap_opus [of opus] rtpmap_dtmf [of "fst d" "snd d"] assms
      by (cases d) (simp add: rtpmaps_def description_def dtmf_lines_def none plain_values_def hm_insert_def)
  qed
qed

lemma description_section:
  assumes "port \<noteq> 0"
  shows "audio_section False (description mid side ufrag pwd fp opus dtmf port ip) =
    (''m=audio '' @ show_nat port @ '' '' @ ''UDP/TLS/RTP/SAVPF '' @ show_nat opus @ dtmf_types dtmf) #
      drop 8 (description mid side ufrag pwd fp opus dtmf port ip)"
  using audio_section_enter [OF assms, of "''UDP/TLS/RTP/SAVPF '' @ show_nat opus @ dtmf_types dtmf"]
  by (cases dtmf) (auto simp: description_def dtmf_lines_def sdp_walk simp del: audio_section.simps(2))


lemma no_LF_word: "sdp_word w \<Longrightarrow> LF \<notin> set w"
  by (auto simp: sdp_word_def list_all_iff is_space_def)

lemma no_LF_role: "LF \<notin> set (dtls_role_to_str r)"
  by (cases r) simp_all

lemma description_lines:
  assumes "plain_values mid ufrag pwd fp opus dtmf port ip"
  shows "lines (sdp_text (description mid side ufrag pwd fp opus dtmf port (ip_to_string ip))) =
    description mid side ufrag pwd fp opus dtmf port (ip_to_string ip)"
  unfolding sdp_text_def
proof (rule lines_of_lines)
  have "LF \<notin> set (show_nat n)" for n using clean_show_nat by (rule LF_not_in_clean)
  then show "list_all (\<lambda>l. LF \<notin> set l) (description mid side ufrag pwd fp opus dtmf port (ip_to_string ip))"
    using assms no_LF_role no_LF_word [OF sdp_word_ip, of ip]
    by (auto simp: plain_values_def description_def dtmf_lines_def dtmf_types_def fingerprint_to_sdp_def
        dest!: no_LF_word split: option.splits)
qed

lemma description_formats:
  assumes "plain_values mid ufrag pwd fp opus dtmf port ip"
  shows "sdp_audio_formats (sdp_text (description mid side ufrag pwd fp opus dtmf port (ip_to_string ip))) =
    opus_format opus # map dtmf_format (case dtmf of None \<Rightarrow> [] | Some d \<Rightarrow> [d])"
proof -
  have t: "opus \<le> 127" "\<And>pt rate. dtmf = Some (pt, rate) \<Longrightarrow> pt \<le> 127" "port \<noteq> 0"
    using assms by (auto simp: plain_values_def)
  note types = description_types [of opus dtmf port, OF t(1,2)]
  show ?thesis
    unfolding sdp_audio_formats_def description_lines [OF assms] description_section [OF t(3)]
      description_rtpmaps [OF assms] Let_def list.case
    using assms types
    by (cases dtmf) (auto simp: audio_format_of_def opus_format_def dtmf_format_def plain_values_def)
qed

text \<open>
  A description read back. What the SBC announces, in its offers and in its answers, is what the
  other side reads from the text: the ICE credentials, the fingerprint, the role, the media
  identifier, the port, the one candidate and the payload types of Opus and of the telephone events.
\<close>

lemma description_read_back:
  assumes "plain_values mid ufrag pwd fp opus dtmf port ip"
  shows "info_from_sdp (sdp_text (description mid side ufrag pwd fp opus dtmf port (ip_to_string ip))) =
    \<lparr>wi_ice_ufrag = Some ufrag, wi_ice_pwd = Some pwd, wi_candidates = [sbc_candidate ip port],
     wi_fingerprint = Some fp, wi_dtls_role = Some side, wi_crypto_suites = [], wi_is_webrtc = True,
     wi_media_port = Some port, wi_mid = Some mid, wi_opus_pt = Some opus, wi_telephone_event = dtmf\<rparr>"
proof -
  have p: "sdp_word mid" "sdp_word ufrag" "sdp_word pwd" "sdp_word (cf_algorithm fp)" "sdp_word (cf_fingerprint fp)"
    "port \<le> u16_max" "plain_v4 ip" using assms by (simp_all add: plain_values_def)
  have role: "sdp_word (dtls_role_to_str side)" "dtls_role_from_str (dtls_role_to_str side) = Some side"
    by (cases side; simp add: sdp_word_def is_space_def dtls_role_from_str_def)+
  have nat: "\<not> is_space (last (show_nat n))" "show_nat n \<noteq> []" for n
    using show_nat_no_space [of n] show_nat_digits(2) [of n] by (auto simp: list_all_iff)
  let ?types = "show_nat opus @ dtmf_types dtmf"
  have types: "\<not> is_space (last ?types)" "?types \<noteq> []"
    using nat by (auto simp: dtmf_types_def split: option.splits)
  have tails: "\<not> is_space (last (show_nat opus @ '' opus/48000/2''))"
    "\<not> is_space (last (show_nat opus @ '' minptime=10;useinbandfec=1''))"
    by (simp_all add: is_space_def)
  have opus_lines: "info_line (''a=rtpmap:'' @ show_nat opus @ '' opus/48000/2'') i = i"
    "info_line (''a=fmtp:'' @ show_nat opus @ '' minptime=10;useinbandfec=1'') i = i" for i
    by (rule info_line_rtp(1) [OF tails(1)], simp, rule info_line_rtp(2) [OF tails(2)], simp)
  have dtmf_tails: "\<not> is_space (last (show_nat a @ '' telephone-event/'' @ show_nat b))"
    "\<not> is_space (last (show_nat a @ '' 0-16''))" for a b
    using nat(2) nat(1) [of b] by (simp_all add: is_space_def)
  have walk: "fold info_line (dtmf_lines dtmf) i = i" for i
    by (cases dtmf) (auto simp: dtmf_lines_def info_line_rtp(1) [OF dtmf_tails(1), simplified]
        info_line_rtp(2) [OF dtmf_tails(2), simplified])
  have "fold info_line (description mid side ufrag pwd fp opus dtmf port (ip_to_string ip)) info_empty =
    \<lparr>wi_ice_ufrag = Some ufrag, wi_ice_pwd = Some pwd, wi_candidates = [sbc_candidate ip port],
     wi_fingerprint = Some fp, wi_dtls_role = Some side, wi_crypto_suites = [], wi_is_webrtc = True,
     wi_media_port = Some port, wi_mid = Some mid, wi_opus_pt = None, wi_telephone_event = None\<rparr>"
    unfolding description_def fold_append comp_def fold_simps
      info_line_plain info_line_session [OF sdp_word_ip [OF p(7)]] info_line_attrs [OF p(1)] info_line_attrs(2) [OF p(2)]
      info_line_attrs(3) [OF p(3)] info_line_attrs(4) [OF role(1)] info_line_attrs(5) [OF sdp_word_nat]
      info_line_fingerprint [OF p(4,5)] info_line_media [OF p(6) types] walk
      opus_lines info_line_candidate [OF p(7,6)]
    by (simp add: info_empty_def role(2))
  then show ?thesis
    unfolding info_from_sdp_def description_lines [OF assms] description_formats [OF assms]
    by (cases dtmf) (auto simp: info_format_def opus_format_def dtmf_format_def)
qed


text \<open>
  Offer and answer between two SBCs. The SBC that offers a call and the one that answers it agree
  on everything the media needs: one side is the DTLS client and the other the server, each holds
  the fingerprint of the certificate the other presents and the ICE credentials the other chose, the
  answer uses the payload types of the offer, and both handshakes succeed when each side presents
  its own certificate and the library exports the keys. The addresses are IPv4 and the random
  credentials have no blanks.
\<close>

definition answers_call ::
  "(string \<Rightarrow> byte list \<Rightarrow> byte list) \<Rightarrow> byte list \<Rightarrow> string \<times> string \<Rightarrow> string \<Rightarrow> string \<Rightarrow> webrtc_session \<Rightarrow> bool"
where
  "answers_call sha cert rnd call_id sdp s \<longleftrightarrow> webrtc_session_new sha (Inr cert) rnd call_id sdp = Inr s"

definition offers_call ::
  "(string \<Rightarrow> byte list \<Rightarrow> byte list) \<Rightarrow> byte list \<Rightarrow> string \<times> string \<Rightarrow> string \<Rightarrow> webrtc_session \<Rightarrow> bool"
where
  "offers_call sha cert rnd call_id s \<longleftrightarrow> webrtc_session_new_for_offer sha (Inr cert) rnd call_id = Inr s"

lemma byte_hex_solid: "c \<in> set (byte_hex b) \<Longrightarrow> \<not> is_space c"
proof -
  assume "c \<in> set (byte_hex b)"
  then have "c = upper_char (digit_char (unat b div 16)) \<or> c = upper_char (digit_char (unat b mod 16))"
    by (simp add: byte_hex_digits)
  moreover have "unat b div 16 < 16" "unat b mod 16 < 16" using unat_byte_less [of b] by simp_all
  ultimately have "48 \<le> (of_char c :: nat)" using upper_digit by auto
  then show "\<not> is_space c" by (auto simp: is_space_def)
qed

lemma own_fingerprint_words: "sha ''sha-256'' cert \<noteq> [] \<Longrightarrow>
  sdp_word (cf_algorithm (compute_fingerprint sha cert)) \<and> sdp_word (cf_fingerprint (compute_fingerprint sha cert))"
proof -
  assume ne: "sha ''sha-256'' cert \<noteq> []"
  have "\<not> is_space c" if "c \<in> set (hex_colons bs)" for c bs
    using that
  proof (induction bs rule: induct_list012)
    case (2 b)
    then have "c \<in> set (byte_hex b)" by (simp add: hex_colons_def)
    then show ?case using byte_hex_solid by blast
  next
    case (3 a b bs)
    then show ?case using byte_hex_solid by (auto simp: hex_colons_def is_space_def)
  qed (simp add: hex_colons_def)
  moreover have "hex_colons (sha ''sha-256'' cert) \<noteq> []"
    using ne by (cases "sha ''sha-256'' cert"; cases "tl (sha ''sha-256'' cert)") (auto simp: hex_colons_def byte_hex_digits)
  ultimately show ?thesis
    by (simp add: compute_fingerprint_def sdp_word_def list_all_iff is_space_def)
qed

text \<open>
  C24: Two sessions of this code agree on a call. When one side offers and the other answers the text of
  that offer, and the offerer reads the text of the answer, the offerer is the DTLS client and the
  answerer the server, each holds the ICE credentials and the one candidate of the other, the
  offerer reads Opus and telephone-event at the payload types it offered, and a handshake in which
  each shows its own certificate is accepted by both. Addresses are IPv4, ports are real ports, and
  credentials are single words, as the code generates them; the hash gives some digest.
\<close>

theorem offer_answer_agree:
  assumes "offers_call sha cert_a (ufrag_a, pwd_a) call_a a" and "plain_v4 ip_a" "port_a \<noteq> 0" "port_a \<le> u16_max"
    and "answers_call sha cert_b (ufrag_b, pwd_b) call_b (generate_sdp_offer a port_a (ip_to_string ip_a)) b"
    and "plain_v4 ip_b" "port_b \<noteq> 0" "port_b \<le> u16_max"
    and "list_all sdp_word [ufrag_a, pwd_a, ufrag_b, pwd_b]"
    and "\<And>c. sha ''sha-256'' c \<noteq> []"
    and "a' = set_remote_sdp (generate_sdp_answer b port_b (ip_to_string ip_b)) a"
  shows "dc_role (ws_dtls_context a') = RoleActive \<and> dc_role (ws_dtls_context b) = RolePassive \<and>
    ia_remote_credentials (ws_ice_agent a') = Some (ufrag_b, pwd_b) \<and>
    ia_remote_credentials (ws_ice_agent b) = Some (ufrag_a, pwd_a) \<and>
    wi_opus_pt (ws_remote_info a') = Some 111 \<and> wi_telephone_event (ws_remote_info a') = Some (110, 48000) \<and>
    wi_candidates (ws_remote_info a') = [sbc_candidate ip_b port_b] \<and>
    wi_candidates (ws_remote_info b) = [sbc_candidate ip_a port_a] \<and>
    (\<forall>km. length km = 60 \<longrightarrow>
       fst (perform_handshake sha (\<lambda>_. Inr ([cert_b], Inr km)) (ws_dtls_context a')) = Inr () \<and>
       fst (perform_handshake sha (\<lambda>_. Inr ([cert_a], Inr km)) (ws_dtls_context b)) = Inr ())"
proof -
  have a: "ia_ufrag (ws_ice_agent a) = ufrag_a" "ia_pwd (ws_ice_agent a) = pwd_a"
    "dc_local_fingerprint (ws_dtls_context a) = compute_fingerprint sha cert_a"
    using assms(1) by (auto simp: offers_call_def webrtc_session_new_for_offer_def dtls_context_new_def ice_agent_new_def)
  let ?ia = "info_from_sdp (generate_sdp_offer a port_a (ip_to_string ip_a))"
  have ia: "?ia = \<lparr>wi_ice_ufrag = Some ufrag_a, wi_ice_pwd = Some pwd_a, wi_candidates = [sbc_candidate ip_a port_a],
     wi_fingerprint = Some (compute_fingerprint sha cert_a), wi_dtls_role = Some RoleActPass, wi_crypto_suites = [],
     wi_is_webrtc = True, wi_media_port = Some port_a, wi_mid = Some ''0'', wi_opus_pt = Some DEFAULT_OPUS_PT,
     wi_telephone_event = Some (DEFAULT_DTMF_PT, 48000)\<rparr>"
    unfolding generate_sdp_offer_def offer_lines_description a
    by (rule description_read_back)
       (use assms own_fingerprint_words [of sha cert_a] in
         \<open>simp add: plain_values_def DEFAULT_OPUS_PT_def DEFAULT_DTMF_PT_def u32_max_def sdp_word_def is_space_def\<close>)
  have b: "ia_ufrag (ws_ice_agent b) = ufrag_b" "ia_pwd (ws_ice_agent b) = pwd_b"
    "dc_local_fingerprint (ws_dtls_context b) = compute_fingerprint sha cert_b"
    "dc_remote_fingerprint (ws_dtls_context b) = Some (compute_fingerprint sha cert_a)"
    "dc_role (ws_dtls_context b) = RolePassive" "ws_remote_info b = ?ia"
    "ia_remote_credentials (ws_ice_agent b) = Some (ufrag_a, pwd_a)"
    using assms(5) ia by (auto simp: answers_call_def webrtc_session_new_def dtls_context_new_def ice_agent_new_def
        set_remote_fingerprint_def set_remote_credentials_def sbc_dtls_role_def Let_def)
  let ?ib = "info_from_sdp (generate_sdp_answer b port_b (ip_to_string ip_b))"
  have dtmf: "answer_dtmf (ws_remote_info b) = Some (DEFAULT_DTMF_PT, 48000)"
    unfolding b(6) ia by (simp add: answer_dtmf_def DEFAULT_OPUS_PT_def DEFAULT_DTMF_PT_def)
  have ib: "?ib = \<lparr>wi_ice_ufrag = Some ufrag_b, wi_ice_pwd = Some pwd_b, wi_candidates = [sbc_candidate ip_b port_b],
     wi_fingerprint = Some (compute_fingerprint sha cert_b), wi_dtls_role = Some RolePassive, wi_crypto_suites = [],
     wi_is_webrtc = True, wi_media_port = Some port_b, wi_mid = Some ''0'', wi_opus_pt = Some DEFAULT_OPUS_PT,
     wi_telephone_event = Some (DEFAULT_DTMF_PT, 48000)\<rparr>"
    unfolding generate_sdp_answer_def answer_lines_description b(1-3,5) dtmf
    unfolding b(6) ia webrtc_sdp_info.simps option.case
    by (rule description_read_back)
       (use assms own_fingerprint_words [of sha cert_b] in
         \<open>simp add: plain_values_def DEFAULT_OPUS_PT_def DEFAULT_DTMF_PT_def u32_max_def sdp_word_def is_space_def\<close>)
  have a': "dc_role (ws_dtls_context a') = RoleActive"
    "dc_remote_fingerprint (ws_dtls_context a') = Some (compute_fingerprint sha cert_b)"
    "ia_remote_credentials (ws_ice_agent a') = Some (ufrag_b, pwd_b)" "ws_remote_info a' = ?ib"
    using assms(11) ib by (simp_all add: set_remote_sdp_def resolve_role_from_answer_def set_remote_fingerprint_def
        set_remote_credentials_def Let_def)
  have done_a: "fst (perform_handshake sha (\<lambda>_. Inr ([cert_b], Inr km)) (ws_dtls_context a')) = Inr ()"
    "fst (perform_handshake sha (\<lambda>_. Inr ([cert_a], Inr km)) (ws_dtls_context b)) = Inr ()"
    if "length km = 60" for km
    using that a'(2) b(4) by (simp_all add: perform_handshake_def verify_peer_certificate_def own_fingerprint_verified)
  show ?thesis
    using a' b(5,6,7) ia ib done_a by (simp add: DEFAULT_OPUS_PT_def DEFAULT_DTMF_PT_def)
qed


definition demo_sha :: "string \<Rightarrow> byte list \<Rightarrow> byte list" where
  "demo_sha _ c = 0 # c"

definition demo_offer :: webrtc_session where
  "demo_offer =
     \<lparr>ws_call_id = ''c'', ws_ice_agent = ice_agent_new ''ua'' ''pa'' True,
      ws_dtls_context =
        \<lparr>dc_local_fingerprint = compute_fingerprint demo_sha [7], dc_remote_fingerprint = None,
         dc_role = RoleActPass, dc_handshake_complete = False, dc_srtp_keys = None, dc_cert_der = [7]\<rparr>,
      ws_remote_info = info_empty, ws_srtp_send = None, ws_srtp_recv = None\<rparr>"

theorem offer_answer_agree_witness:
  "\<exists>b. answers_call demo_sha [9] (''ub'', ''pb'') ''d'' (generate_sdp_offer demo_offer 4000 (ip_to_string (V4 192 0 2 7))) b \<and>
     dc_role (ws_dtls_context (set_remote_sdp (generate_sdp_answer b 5000 (ip_to_string (V4 192 0 2 9))) demo_offer)) = RoleActive"
proof -
  let ?offer = "generate_sdp_offer demo_offer 4000 (ip_to_string (V4 192 0 2 7))"
  have w: "sdp_word ''ua''" "sdp_word ''pa''" "sdp_word ''ub''" "sdp_word ''pb''" "sdp_word ''0''"
    by (simp_all add: sdp_word_def is_space_def)
  have "sdp_word (cf_algorithm (compute_fingerprint demo_sha [7]))" "sdp_word (cf_fingerprint (compute_fingerprint demo_sha [7]))"
    using own_fingerprint_words [of demo_sha "[7]"] by (simp_all add: demo_sha_def)
  then have "plain_values ''0'' ''ua'' ''pa'' (compute_fingerprint demo_sha [7]) DEFAULT_OPUS_PT
      (Some (DEFAULT_DTMF_PT, 48000)) 4000 (V4 192 0 2 7)"
    using w by (simp add: plain_values_def DEFAULT_OPUS_PT_def DEFAULT_DTMF_PT_def u32_max_def u16_max_def)
  from description_read_back [OF this, of RoleActPass] have "wi_is_webrtc (info_from_sdp ?offer)"
    unfolding generate_sdp_offer_def offer_lines_description
    by (simp add: demo_offer_def ice_agent_new_def del: ip_to_string.simps)
  then obtain b where b: "answers_call demo_sha [9] (''ub'', ''pb'') ''d'' ?offer b"
    by (auto simp: answers_call_def webrtc_session_new_def dtls_context_new_def Let_def)
  have a: "offers_call demo_sha [7] (''ua'', ''pa'') ''c'' demo_offer"
    by (simp add: offers_call_def webrtc_session_new_for_offer_def dtls_context_new_def demo_offer_def)
  have words: "list_all sdp_word [''ua'', ''pa'', ''ub'', ''pb'']" using w by simp
  have "dc_role (ws_dtls_context (set_remote_sdp (generate_sdp_answer b 5000 (ip_to_string (V4 192 0 2 9))) demo_offer)) = RoleActive"
    using offer_answer_agree [OF a _ _ _ b, of "V4 192 0 2 9" 5000] words
    by (simp add: u16_max_def demo_sha_def del: ip_to_string.simps)
  with b show ?thesis by blast
qed

end
