(* ===== verification/Call_State.thy ===== *)
theory Call_State
  imports Sip_Builder Trunk Webrtc
begin

text \<open>
  The first half of \<^verbatim>\<open>crates/sbc-core/src/b2bua.rs\<close>: the state of one call, its two legs, and the
  requests and responses built from it. A reply channel is the number of the connection it writes
  to, and a shared WebRTC session the number of its cell. The random identifier of a call and the
  random bytes of a branch are arguments, and so are the two clocks: \<open>now\<close> is the monotonic one,
  \<open>wall\<close> the time of day.
\<close>

section \<open>Status codes\<close>

text \<open>The codes of \<^verbatim>\<open>rsip\<close> with their reason phrases.\<close>

definition status_codes :: "(nat \<times> string) list" where
  "status_codes =
     [(100, ''Trying''), (180, ''Ringing''), (181, ''Call Is Being Forwarded''),
      (182, ''Queued''), (183, ''Session Progress''), (199, ''Early Dialog Terminated''),
      (200, ''OK''), (201, ''Accepted''), (204, ''No Notification''),
      (300, ''Multiple Choices''), (301, ''Moved Permanently''), (302, ''Moved Temporarily''),
      (305, ''Use Proxy''), (380, ''Alternative Service''), (400, ''Bad Request''),
      (401, ''Unauthorized''), (402, ''Payment Required''), (403, ''Forbidden''),
      (404, ''Not Found''), (405, ''Method Not Allowed''), (406, ''Not Acceptable''),
      (407, ''Proxy Authentication Required''), (408, ''Request Timeout''), (409, ''Conflict''),
      (410, ''Gone''), (411, ''Length Required''), (412, ''Conditional Request Failed''),
      (413, ''Request Entity Too Large''), (414, ''Request-URI Too Long''), (415, ''Unsupported Media Type''),
      (416, ''Unsupported URI Scheme''), (417, ''Unknown Resource-Priority''), (420, ''Bad Extension''),
      (421, ''Extension Required''), (422, ''Session Interval Too Small''), (423, ''Interval Too Brief''),
      (424, ''Bad Location Information''), (428, ''Use Identity Header''), (429, ''Provide Referrer Identity''),
      (433, ''Anonymity Disallowed''), (436, ''Bad Identity-Info''), (437, ''Unsupported Certificate''),
      (438, ''Invalid Identity Header''), (439, ''First Hop Lacks Outbound Support''), (440, ''Max-Breadth Exceeded''),
      (469, ''Bad Info Package''), (470, ''Consent Needed''), (480, ''Temporarily Unavailable''),
      (481, ''Call/Transaction Does Not Exist''), (482, ''Loop Detected''), (483, ''Too Many Hops''),
      (484, ''Address Incomplete''), (485, ''Ambiguous''), (486, ''Busy Here''),
      (487, ''Request Terminated''), (488, ''Not Acceptable Here''), (489, ''Bad Event''),
      (491, ''Request Pending''), (493, ''Undecipherable''), (494, ''Security Agreement Required''),
      (500, ''Server Internal Error''), (501, ''Not Implemented''), (502, ''Bad Gateway''),
      (503, ''Service Unavailable''), (504, ''Server Time-out''), (505, ''Version Not Supported''),
      (513, ''Message Too Large''), (580, ''Precondition Failure''), (600, ''Busy Everywhere''),
      (603, ''Decline''), (604, ''Does Not Exist Anywhere''), (606, ''Not Acceptable''),
      (607, ''Unwanted'')]"

definition reason_phrase :: "nat \<Rightarrow> string" where
  "reason_phrase code = (case map_of status_codes code of Some p \<Rightarrow> p | None \<Rightarrow> ''Other'')"

section \<open>Data\<close>

datatype call_state = Initiated | Proceeding | Ringing | Connected | Terminating | Terminated

fun call_state_as_str :: "call_state \<Rightarrow> string" where
  "call_state_as_str Initiated = ''initiated''"
| "call_state_as_str Proceeding = ''proceeding''"
| "call_state_as_str Ringing = ''ringing''"
| "call_state_as_str Connected = ''connected''"
| "call_state_as_str Terminating = ''terminating''"
| "call_state_as_str Terminated = ''terminated''"

record call_leg =
  cl_call_id :: string
  cl_local_tag :: string
  cl_remote_tag :: "string option"
  cl_remote_addr :: socket_addr
  cl_cseq :: nat
  cl_established :: bool
  cl_from_raw :: "string option"
  cl_to_raw :: "string option"
  cl_remote_target :: "string option"

definition call_leg_new :: "string \<Rightarrow> string \<Rightarrow> socket_addr \<Rightarrow> call_leg" where
  "call_leg_new call_id local_tag remote_addr =
     \<lparr>cl_call_id = call_id, cl_local_tag = local_tag, cl_remote_tag = None, cl_remote_addr = remote_addr,
      cl_cseq = 1, cl_established = False, cl_from_raw = None, cl_to_raw = None, cl_remote_target = None\<rparr>"

definition leg_next_cseq :: "call_leg \<Rightarrow> nat \<times> call_leg" where
  "leg_next_cseq l = (cl_cseq l, l\<lparr>cl_cseq := incr32 (cl_cseq l)\<rparr>)"

record failover_state =
  fo_candidates :: "trunk_id list"
  fo_attempt :: nat
  fo_invite_sent_at :: instant
  fo_provisional_received :: bool

record session_timer_state =
  st_interval_secs :: nat
  st_min_se :: nat
  st_next_refresh_at :: instant
  st_pending_refresh_cseq :: "nat option"
  st_pending_refresh_raw :: "string option"
  st_last_refresh :: "(nat \<times> string) option"
  st_refresh_failures :: nat

record invite_attempt =
  at_raw :: string
  at_branch :: "string option"
  at_cseq :: nat
  at_dest :: socket_addr
  at_transport :: transport
  at_trunk_id :: "trunk_id option"

definition MAX_REFRESH_FAILURES :: nat where "MAX_REFRESH_FAILURES = 3"

definition MAX_INVITE_ATTEMPTS :: nat where "MAX_INVITE_ATTEMPTS = 8"

datatype invite_response_class = CurrentTx | StaleTx "invite_attempt option"

record b2bua_call =
  bc_uuid :: string
  bc_inbound :: call_leg
  bc_outbound :: "call_leg option"
  bc_state :: call_state
  bc_caller_is_webrtc :: bool
  bc_caller_sdp :: "string option"
  bc_callee_sdp :: "string option"
  bc_media_session_id :: "string option"
  bc_started_at :: instant
  bc_started_wall :: instant
  bc_answered_at :: "instant option"
  bc_peer_reason :: "string option"
  bc_caller_to_raw :: "string option"
  bc_alerting_at :: "instant option"
  bc_sent_cseq_toward_caller :: nat
  bc_direction :: "string option"
  bc_caller_reply_tx :: "nat option"
  bc_caller_source :: socket_addr
  bc_caller_transport :: transport
  bc_callee_reply_tx :: "nat option"
  bc_callee_dest :: "socket_addr option"
  bc_callee_transport :: transport
  bc_callee_request_uri :: "string option"
  bc_caller_original_vias :: "string list"
  bc_caller_invite_cseq :: "nat option"
  bc_invite_attempts :: "invite_attempt list"
  bc_original_outbound_invite :: "string option"
  bc_trunk_id :: "trunk_id option"
  bc_auth_retry_count :: nat
  bc_session_timer_retry_count :: nat
  bc_webrtc_session :: "nat option"
  bc_webrtc_ice_pwd :: "string option"
  bc_webrtc_sdp_answer :: "string option"
  bc_caller_number :: "string option"
  bc_callee_number :: "string option"
  bc_trunk_name :: "string option"
  bc_trunk_counted :: "string option"
  bc_callee_responded :: bool
  bc_codec :: "string option"
  bc_callee_is_webrtc :: bool
  bc_webrtc_session_b :: "nat option"
  bc_webrtc_ice_pwd_b :: "string option"
  bc_webrtc_sdp_offer :: "string option"
  bc_failover :: "failover_state option"
  bc_session_timer :: "session_timer_state option"
  bc_last_sdp_to_caller :: "string option"

section \<open>Building a call\<close>

definition b2bua_call_new ::
  "nat \<Rightarrow> instant \<Rightarrow> instant \<Rightarrow> string \<Rightarrow> string \<Rightarrow> socket_addr \<Rightarrow> string option \<Rightarrow> nat option \<Rightarrow> transport \<Rightarrow> b2bua_call"
where
  "b2bua_call_new rnd now wall inbound_call_id inbound_tag inbound_addr caller_sdp caller_reply_tx caller_transport =
     \<lparr>bc_uuid = hex_width 16 rnd,
      bc_inbound = call_leg_new inbound_call_id inbound_tag inbound_addr,
      bc_outbound = None, bc_state = Initiated,
      bc_caller_is_webrtc =
        (case caller_sdp of None \<Rightarrow> False | Some s \<Rightarrow> wi_is_webrtc (info_from_sdp s)),
      bc_caller_sdp = caller_sdp, bc_callee_sdp = None, bc_media_session_id = None,
      bc_started_at = now, bc_started_wall = wall, bc_answered_at = None, bc_peer_reason = None,
      bc_caller_to_raw = None, bc_alerting_at = None, bc_sent_cseq_toward_caller = 0, bc_direction = None,
      bc_caller_reply_tx = caller_reply_tx, bc_caller_source = inbound_addr,
      bc_caller_transport = caller_transport, bc_callee_reply_tx = None, bc_callee_dest = None,
      bc_callee_transport = Udp, bc_callee_request_uri = None, bc_caller_original_vias = [],
      bc_caller_invite_cseq = None, bc_invite_attempts = [], bc_original_outbound_invite = None,
      bc_trunk_id = None, bc_auth_retry_count = 0, bc_session_timer_retry_count = 0,
      bc_webrtc_session = None, bc_webrtc_ice_pwd = None, bc_webrtc_sdp_answer = None,
      bc_caller_number = None, bc_callee_number = None, bc_trunk_name = None, bc_trunk_counted = None,
      bc_callee_responded = False, bc_codec = None, bc_callee_is_webrtc = False,
      bc_webrtc_session_b = None, bc_webrtc_ice_pwd_b = None, bc_webrtc_sdp_offer = None,
      bc_failover = None, bc_session_timer = None, bc_last_sdp_to_caller = None\<rparr>"

definition set_outbound :: "string \<Rightarrow> string \<Rightarrow> socket_addr \<Rightarrow> b2bua_call \<Rightarrow> b2bua_call" where
  "set_outbound call_id local_tag remote_addr c =
     c\<lparr>bc_outbound := Some (call_leg_new call_id local_tag remote_addr)\<rparr>"

definition establish_inbound :: "string \<Rightarrow> b2bua_call \<Rightarrow> b2bua_call" where
  "establish_inbound remote_tag c =
     c\<lparr>bc_inbound := (bc_inbound c)\<lparr>cl_remote_tag := Some remote_tag, cl_established := True\<rparr>\<rparr>"

definition establish_outbound :: "string \<Rightarrow> b2bua_call \<Rightarrow> b2bua_call" where
  "establish_outbound remote_tag c =
     (let c1 = c\<lparr>bc_outbound :=
             map_option (\<lambda>l. l\<lparr>cl_remote_tag := Some remote_tag, cl_established := True\<rparr>) (bc_outbound c)\<rparr>
      in if cl_established (bc_inbound c1) then c1\<lparr>bc_state := Connected\<rparr> else c1)"

definition duration_secs :: "instant \<Rightarrow> b2bua_call \<Rightarrow> nat" where
  "duration_secs now c = as_secs (now - bc_started_at c)"

section \<open>Requests from the state\<close>

fun transport_token :: "transport \<Rightarrow> string" where
  "transport_token Udp = ''UDP''"
| "transport_token Tcp = ''TCP''"
| "transport_token Tls = ''TLS''"
| "transport_token Ws = ''WS''"
| "transport_token Wss = ''WSS''"
| "transport_token _ = ''UDP''"

definition parse_cseq_number :: "string \<Rightarrow> nat option" where
  "parse_cseq_number raw =
     (case find (\<lambda>l. starts_with (to_ascii_lowercase l) ''cseq:'') (split_crlf raw) of
        None \<Rightarrow> None
      | Some l \<Rightarrow>
          (case split_whitespace (drop 5 l) of [] \<Rightarrow> None | n # _ \<Rightarrow> parse_uint u32_max n))"

definition extract_body :: "string \<Rightarrow> string option" where
  "extract_body raw =
     (case find_str crlf2 raw of
        None \<Rightarrow> None
      | Some pos \<Rightarrow> let body = drop (pos + 4) raw in if body = [] then None else Some body)"

fun same_ipv4_subnet24 :: "ip_addr \<Rightarrow> ip_addr \<Rightarrow> bool" where
  "same_ipv4_subnet24 (V4 a b c _) (V4 a' b' c' _) = (a = a' \<and> b = b' \<and> c = c')"
| "same_ipv4_subnet24 _ _ = False"

definition dialog_info_toward_caller :: "string \<Rightarrow> nat \<Rightarrow> b2bua_call \<Rightarrow> dialog_info option" where
  "dialog_info_toward_caller local_ip local_port c =
     Option.bind (cl_to_raw (bc_inbound c)) (\<lambda>from_raw.
     Option.bind (cl_from_raw (bc_inbound c)) (\<lambda>to_raw.
     Some \<lparr>di_call_id = cl_call_id (bc_inbound c), di_from_raw = from_raw, di_to_raw = to_raw,
           di_request_uri = (case cl_remote_target (bc_inbound c) of
              Some u \<Rightarrow> u | None \<Rightarrow> ''sip:'' @ sock_to_string (bc_caller_source c)),
           di_cseq = incr32 (bc_sent_cseq_toward_caller c),
           di_local_ip = local_ip, di_local_port = local_port,
           di_transport = transport_token (bc_caller_transport c)\<rparr>))"

definition dialog_info_toward_callee :: "string \<Rightarrow> nat \<Rightarrow> b2bua_call \<Rightarrow> dialog_info option" where
  "dialog_info_toward_callee local_ip local_port c =
     Option.bind (bc_outbound c) (\<lambda>out.
     Option.bind (cl_from_raw out) (\<lambda>from_raw.
     Option.bind (cl_to_raw out) (\<lambda>to_raw.
     Option.bind
       (case cl_remote_target out of
          Some u \<Rightarrow> Some u
        | None \<Rightarrow>
            (case bc_callee_request_uri c of
               Some u \<Rightarrow> Some u
             | None \<Rightarrow> map_option (\<lambda>d. ''sip:'' @ sock_to_string d) (bc_callee_dest c)))
       (\<lambda>request_uri.
     Some \<lparr>di_call_id = cl_call_id out, di_from_raw = from_raw, di_to_raw = to_raw,
           di_request_uri = request_uri, di_cseq = cl_cseq out,
           di_local_ip = local_ip, di_local_port = local_port,
           di_transport = transport_token (bc_callee_transport c)\<rparr>))))"

definition last_attempt :: "b2bua_call \<Rightarrow> invite_attempt option" where
  "last_attempt c = (if bc_invite_attempts c = [] then None else Some (last (bc_invite_attempts c)))"

definition invite_cseq_of :: "b2bua_call \<Rightarrow> nat" where
  "invite_cseq_of c =
     (case last_attempt c of
        Some a \<Rightarrow> at_cseq a
      | None \<Rightarrow>
          (case Option.bind (bc_original_outbound_invite c) parse_cseq_number of Some n \<Rightarrow> n | None \<Rightarrow> 0))"

definition next_outbound_cseq :: "b2bua_call \<Rightarrow> nat" where
  "next_outbound_cseq c =
     incr32 (max (invite_cseq_of c) (case bc_outbound c of None \<Rightarrow> 0 | Some l \<Rightarrow> cl_cseq l))"

definition bye_toward_callee ::
  "nat list \<Rightarrow> string \<Rightarrow> nat \<Rightarrow> string option \<Rightarrow> b2bua_call \<Rightarrow> string option"
where
  "bye_toward_callee rnd local_ip local_port reason c =
     map_option (\<lambda>d. build_bye rnd (d\<lparr>di_cseq := next_outbound_cseq c\<rparr>) reason)
       (dialog_info_toward_callee local_ip local_port c)"

definition call_direction_of :: "b2bua_call \<Rightarrow> string" where
  "call_direction_of c =
     (case bc_direction c of
        Some d \<Rightarrow> d
      | None \<Rightarrow> if bc_trunk_id c \<noteq> None then ''outbound''
                else if bc_trunk_name c \<noteq> None then ''inbound'' else ''local'')"

definition final_toward_caller :: "nat \<Rightarrow> string option \<Rightarrow> b2bua_call \<Rightarrow> string option" where
  "final_toward_caller code reason c =
     (if bc_caller_original_vias c = [] then None
      else
        Option.bind (cl_from_raw (bc_inbound c)) (\<lambda>from.
        Option.bind (bc_caller_to_raw c) (\<lambda>to.
        Option.bind (bc_caller_invite_cseq c) (\<lambda>cseq.
        Some (''SIP/2.0 '' @ show_nat code @ '' '' @ reason_phrase code @ crlf
          @ concat (map (\<lambda>via. via @ crlf) (bc_caller_original_vias c))
          @ ''From: '' @ from @ crlf
          @ ''To: '' @ to @ '';tag=sbc-'' @ take 8 (bc_uuid c) @ crlf
          @ ''Call-ID: '' @ cl_call_id (bc_inbound c) @ crlf
          @ ''CSeq: '' @ show_nat cseq @ '' INVITE'' @ crlf
          @ (case reason of None \<Rightarrow> '''' | Some r \<Rightarrow> ''Reason: '' @ r @ crlf)
          @ ''Content-Length: 0'' @ crlf @ crlf)))))"

record call_log_fields =
  lf_uuid :: string
  lf_call_id :: string
  lf_trunk :: "string option"
  lf_direction :: "string option"

definition call_log_fields_of :: "b2bua_call \<Rightarrow> call_log_fields" where
  "call_log_fields_of c =
     \<lparr>lf_uuid = bc_uuid c, lf_call_id = cl_call_id (bc_inbound c), lf_trunk = bc_trunk_name c,
      lf_direction = bc_direction c\<rparr>"

end
