(* ===== verification/B2bua.thy ===== *)
theory B2bua
  imports Call_State Media_Manager Security_Manager
begin

text \<open>
  The second half of \<^verbatim>\<open>crates/sbc-core/src/b2bua.rs\<close>: the table of the calls and the operations of
  \<^verbatim>\<open>B2buaManager\<close> on it. The manager owns the media manager and, once wired, an event bus. A call
  that is not in the table is left alone by the setters, as in the code.
\<close>

record recent_dialog =
  rd_inbound_call_id :: string
  rd_outbound_call_id :: "string option"
  rd_terminated_at :: instant
  rd_last_attempt :: "invite_attempt option"

definition RECENT_DIALOG_TTL :: duration where "RECENT_DIALOG_TTL = secs 600"

record 'st b2bua_manager =
  bm_calls :: "(string, b2bua_call) hmap"
  bm_media :: "'st media_manager"
  bm_events :: "event_bus option"
  bm_recent_terminated :: "recent_dialog list"

definition b2bua_manager_new :: "'st media_manager \<Rightarrow> 'st b2bua_manager" where
  "b2bua_manager_new media = \<lparr>bm_calls = [], bm_media = media, bm_events = None, bm_recent_terminated = []\<rparr>"

definition b2bua_set_event_bus :: "event_bus \<Rightarrow> 'st b2bua_manager \<Rightarrow> 'st b2bua_manager" where
  "b2bua_set_event_bus bus m = m\<lparr>bm_events := Some bus\<rparr>"

definition b2bua_emit :: "sbc_event \<Rightarrow> 'st b2bua_manager \<Rightarrow> 'st b2bua_manager" where
  "b2bua_emit e m = m\<lparr>bm_events := map_option (publish e) (bm_events m)\<rparr>"

definition with_call :: "string \<Rightarrow> (b2bua_call \<Rightarrow> b2bua_call) \<Rightarrow> 'st b2bua_manager \<Rightarrow> 'st b2bua_manager" where
  "with_call uuid f m = m\<lparr>bm_calls := hm_modify uuid f (bm_calls m)\<rparr>"

definition call_not_found :: "string \<Rightarrow> sbc_error" where
  "call_not_found uuid = DialogErr (''B2BUA call '' @ uuid @ '' not found'')"

section \<open>Setting up a call\<close>

text \<open>The refusal when no ports are left carries the Call-ID; the text of the inner error is left out.\<close>

definition create_call ::
  "(string \<Rightarrow> nat \<Rightarrow> string result) \<Rightarrow> nat \<Rightarrow> instant \<Rightarrow> instant \<Rightarrow> string \<Rightarrow> string \<Rightarrow> socket_addr \<Rightarrow> string option \<Rightarrow>
   nat option \<Rightarrow> transport \<Rightarrow> 'st b2bua_manager \<Rightarrow> string result \<times> 'st b2bua_manager"
where
  "create_call modify_sdp rnd now wall inbound_call_id inbound_tag caller_addr caller_sdp caller_reply_tx
     caller_transport m =
     (let call0 = b2bua_call_new rnd now wall inbound_call_id inbound_tag caller_addr caller_sdp
                    caller_reply_tx caller_transport;
          (media_result, m1) =
            (case caller_sdp of
               None \<Rightarrow> (Inr None, m)
             | Some sdp \<Rightarrow>
                 (let (r, media) = create_session modify_sdp now (bc_uuid call0) (Some sdp) (bm_media m)
                  in (map_sum id (\<lambda>s. Some (ms_session_id s)) r, m\<lparr>bm_media := media\<rparr>)))
      in case media_result of
           Inl _ \<Rightarrow> (Inl (TransportErr (''no media resources for call '' @ inbound_call_id)), m1)
         | Inr media_id \<Rightarrow>
             (let call = call0\<lparr>bc_media_session_id := media_id, bc_state := Proceeding\<rparr>;
                  m2 = m1\<lparr>bm_calls := hm_insert (bc_uuid call) call (bm_calls m1)\<rparr>
              in (Inr (bc_uuid call),
                  b2bua_emit (CallStarted (bc_uuid call) inbound_call_id (sock_to_string caller_addr) None
                    (event_ts wall)) m2)))"

definition attach_outbound ::
  "string \<Rightarrow> string \<Rightarrow> string \<Rightarrow> socket_addr \<Rightarrow> nat option \<Rightarrow> transport \<Rightarrow> 'st b2bua_manager \<Rightarrow>
   unit result \<times> 'st b2bua_manager"
where
  "attach_outbound uuid outbound_call_id local_tag callee_addr callee_reply_tx callee_transport m =
     (case hm_get (bm_calls m) uuid of
        None \<Rightarrow> (Inl (call_not_found uuid), m)
      | Some _ \<Rightarrow>
          (Inr (), with_call uuid (\<lambda>c. (set_outbound outbound_call_id local_tag callee_addr c)
             \<lparr>bc_callee_reply_tx := callee_reply_tx, bc_callee_dest := Some callee_addr,
              bc_callee_transport := callee_transport\<rparr>) m))"

definition set_inbound_dialog ::
  "string \<Rightarrow> string \<Rightarrow> string option \<Rightarrow> string option \<Rightarrow> 'st b2bua_manager \<Rightarrow> 'st b2bua_manager"
where
  "set_inbound_dialog uuid from_raw to_raw caller_contact =
     with_call uuid (\<lambda>c. c\<lparr>bc_inbound := (bc_inbound c)\<lparr>cl_from_raw := Some from_raw,
         cl_remote_target := caller_contact\<rparr>, bc_caller_to_raw := to_raw\<rparr>)"

definition mark_alerting :: "instant \<Rightarrow> string \<Rightarrow> 'st b2bua_manager \<Rightarrow> 'st b2bua_manager" where
  "mark_alerting now uuid = with_call uuid (\<lambda>c. c\<lparr>bc_alerting_at := Some now\<rparr>)"

definition note_relayed_cseq :: "string \<Rightarrow> bool \<Rightarrow> nat \<Rightarrow> 'st b2bua_manager \<Rightarrow> 'st b2bua_manager" where
  "note_relayed_cseq uuid toward_callee cseq =
     with_call uuid (\<lambda>c.
       if toward_callee
       then c\<lparr>bc_outbound := map_option (\<lambda>l. l\<lparr>cl_cseq := max (cl_cseq l) cseq\<rparr>) (bc_outbound c)\<rparr>
       else c\<lparr>bc_sent_cseq_toward_caller := max (bc_sent_cseq_toward_caller c) cseq\<rparr>)"

definition set_peer_reason :: "string \<Rightarrow> string \<Rightarrow> 'st b2bua_manager \<Rightarrow> 'st b2bua_manager" where
  "set_peer_reason uuid reason = with_call uuid (\<lambda>c. c\<lparr>bc_peer_reason := Some reason\<rparr>)"

definition set_established_dialog ::
  "string \<Rightarrow> string \<Rightarrow> string \<Rightarrow> string option \<Rightarrow> 'st b2bua_manager \<Rightarrow> 'st b2bua_manager"
where
  "set_established_dialog uuid outbound_from_raw to_raw callee_contact =
     with_call uuid (\<lambda>c. c\<lparr>bc_inbound := (bc_inbound c)\<lparr>cl_to_raw := Some to_raw\<rparr>,
       bc_outbound := map_option (\<lambda>l. l\<lparr>cl_from_raw := Some outbound_from_raw, cl_to_raw := Some to_raw,
         cl_remote_target := callee_contact\<rparr>) (bc_outbound c)\<rparr>)"

section \<open>Failover\<close>

definition set_failover_candidates :: "instant \<Rightarrow> string \<Rightarrow> trunk_id list \<Rightarrow> 'st b2bua_manager \<Rightarrow> 'st b2bua_manager" where
  "set_failover_candidates now uuid candidates =
     with_call uuid (\<lambda>c. c\<lparr>bc_failover := Some \<lparr>fo_candidates = candidates, fo_attempt = 1,
       fo_invite_sent_at = now, fo_provisional_received = False\<rparr>\<rparr>)"

definition mark_callee_responded :: "string \<Rightarrow> 'st b2bua_manager \<Rightarrow> 'st b2bua_manager" where
  "mark_callee_responded uuid = with_call uuid (\<lambda>c. c\<lparr>bc_callee_responded := True\<rparr>)"

definition mark_provisional_received :: "string \<Rightarrow> 'st b2bua_manager \<Rightarrow> 'st b2bua_manager" where
  "mark_provisional_received uuid =
     with_call uuid (\<lambda>c. c\<lparr>bc_failover := map_option (\<lambda>f. f\<lparr>fo_provisional_received := True\<rparr>) (bc_failover c)\<rparr>)"

definition take_next_failover_candidate ::
  "instant \<Rightarrow> string \<Rightarrow> 'st b2bua_manager \<Rightarrow> trunk_id option \<times> 'st b2bua_manager"
where
  "take_next_failover_candidate now uuid m =
     (case Option.bind (hm_get (bm_calls m) uuid) bc_failover of
        None \<Rightarrow> (None, m)
      | Some fo \<Rightarrow>
          (case fo_candidates fo of
             [] \<Rightarrow> (None, m)
           | next # rest \<Rightarrow>
               if fo_provisional_received fo then (None, m)
               else (Some next, with_call uuid (\<lambda>c. c\<lparr>bc_failover := Some (fo\<lparr>fo_candidates := rest,
                       fo_attempt := incr32 (fo_attempt fo), fo_invite_sent_at := now\<rparr>)\<rparr>) m)))"

definition attempt_timed_out :: "instant \<Rightarrow> duration \<Rightarrow> b2bua_call \<Rightarrow> bool" where
  "attempt_timed_out now timeout c \<longleftrightarrow>
     bc_state c \<in> {Initiated, Proceeding} \<and>
     (case bc_failover c of
        None \<Rightarrow> False
      | Some f \<Rightarrow> \<not> fo_provisional_received f \<and> timeout < now - fo_invite_sent_at f)"

definition invite_attempts_timed_out ::
  "instant \<Rightarrow> duration \<Rightarrow> 'st b2bua_manager \<Rightarrow> (string \<times> nat \<times> bool) list"
where
  "invite_attempts_timed_out now timeout m =
     map (\<lambda>(_, c). (bc_uuid c, fo_attempt (the (bc_failover c)), fo_candidates (the (bc_failover c)) \<noteq> []))
       (filter (\<lambda>(_, c). attempt_timed_out now timeout c) (bm_calls m))"


section \<open>Session timers\<close>

definition refresh_after :: "nat \<Rightarrow> duration" where
  "refresh_after interval = secs (max (interval div 2) 30)"

definition set_session_timer :: "instant \<Rightarrow> string \<Rightarrow> nat \<Rightarrow> nat \<Rightarrow> 'st b2bua_manager \<Rightarrow> 'st b2bua_manager" where
  "set_session_timer now uuid interval_secs min_se =
     with_call uuid (\<lambda>c. c\<lparr>bc_session_timer := Some
       \<lparr>st_interval_secs = interval_secs, st_min_se = min_se,
        st_next_refresh_at = now + refresh_after interval_secs,
        st_pending_refresh_cseq = None, st_pending_refresh_raw = None, st_last_refresh = None,
        st_refresh_failures = 0\<rparr>\<rparr>)"

definition is_pending_refresh :: "string \<Rightarrow> nat \<Rightarrow> 'st b2bua_manager \<Rightarrow> bool" where
  "is_pending_refresh uuid cseq m =
     (case Option.bind (hm_get (bm_calls m) uuid) bc_session_timer of
        None \<Rightarrow> False | Some st \<Rightarrow> st_pending_refresh_cseq st = Some cseq)"

record refresh_failure =
  rf_ack :: "string option"
  rf_dest :: socket_addr
  rf_transport :: transport
  rf_reply_tx :: "nat option"
  rf_dialog_gone :: bool

text \<open>
  What a refusal makes of the timer, and whether the dialog is gone. \<open>delay_ms\<close> is the random delay
  after a 491, in 2100 to 3999.
\<close>

definition refused_timer ::
  "nat \<Rightarrow> instant \<Rightarrow> nat \<Rightarrow> nat option \<Rightarrow> session_timer_state \<Rightarrow> session_timer_state option \<times> bool"
where
  "refused_timer delay_ms now status min_se_422 st0 =
     (let st = st0\<lparr>st_pending_refresh_cseq := None, st_pending_refresh_raw := None\<rparr>
      in if status = 491 then (Some (st\<lparr>st_next_refresh_at := now + millis delay_ms\<rparr>), False)
         else if status \<in> {405, 501, 420} then (None, False)
         else
           let progressed = (status = 422 \<and> (case min_se_422 of None \<Rightarrow> False | Some m \<Rightarrow> st_interval_secs st < m));
               st1 = (if status = 422
                      then (case min_se_422 of
                              None \<Rightarrow> st
                            | Some m \<Rightarrow> st\<lparr>st_interval_secs := max (st_interval_secs st) m,
                                           st_min_se := max (st_min_se st) m\<rparr>)
                      else st);
               st2 = st1\<lparr>st_refresh_failures := (if progressed then 0 else incr32 (st_refresh_failures st1))\<rparr>;
               dialog_gone = (status \<in> {408, 481} \<or> MAX_REFRESH_FAILURES \<le> st_refresh_failures st2);
               backoff_secs = min (30 * 2 ^ min (st_refresh_failures st2) 4) (max (st_interval_secs st2 div 2) 30)
           in (Some (st2\<lparr>st_next_refresh_at := now + secs backoff_secs\<rparr>), dialog_gone))"

definition fail_session_refresh ::
  "nat \<Rightarrow> instant \<Rightarrow> string \<Rightarrow> nat \<Rightarrow> nat \<Rightarrow> nat option \<Rightarrow> string \<Rightarrow> 'st b2bua_manager \<Rightarrow>
   refresh_failure option \<times> 'st b2bua_manager"
where
  "fail_session_refresh delay_ms now uuid cseq status min_se_422 response_to m =
     (case hm_get (bm_calls m) uuid of
        None \<Rightarrow> (None, m)
      | Some call \<Rightarrow>
          (case bc_session_timer call of
             None \<Rightarrow> (None, m)
           | Some st \<Rightarrow>
               if st_pending_refresh_cseq st \<noteq> Some cseq then (None, m)
               else
                 let ack = Option.bind (st_pending_refresh_raw st) (\<lambda>r. build_ack_for_non_2xx r response_to);
                     (timer, dialog_gone) = refused_timer delay_ms now status min_se_422 st
                 in (map_option (\<lambda>dest.
                       \<lparr>rf_ack = ack, rf_dest = dest, rf_transport = bc_callee_transport call,
                        rf_reply_tx = bc_callee_reply_tx call, rf_dialog_gone = dialog_gone\<rparr>) (bc_callee_dest call),
                     with_call uuid (\<lambda>c. c\<lparr>bc_session_timer := timer\<rparr>) m)))"

type_synonym outgoing = "string \<times> socket_addr \<times> transport \<times> nat option"

definition to_callee :: "b2bua_call \<Rightarrow> 'a \<Rightarrow> ('a \<times> socket_addr \<times> transport \<times> nat option) option" where
  "to_callee call x =
     map_option (\<lambda>dest. (x, dest, bc_callee_transport call, bc_callee_reply_tx call)) (bc_callee_dest call)"

definition refresh_duplicate_ack ::
  "nat list \<Rightarrow> string \<Rightarrow> nat \<Rightarrow> nat \<Rightarrow> string \<Rightarrow> string \<Rightarrow> nat \<Rightarrow> 'st b2bua_manager \<Rightarrow>
   (string option \<times> socket_addr \<times> transport \<times> nat option) option"
where
  "refresh_duplicate_ack rnd uuid cseq status response_to local_ip local_port m =
     Option.bind (hm_get (bm_calls m) uuid) (\<lambda>call.
     Option.bind (bc_session_timer call) (\<lambda>st.
     Option.bind (st_last_refresh st) (\<lambda>(last_cseq, raw).
       if last_cseq \<noteq> cseq then None
       else to_callee call
         (if 100 \<le> status \<and> status \<le> 199 then None
          else if 200 \<le> status \<and> status \<le> 299
          then map_option (\<lambda>d. build_ack_for_2xx rnd d cseq) (dialog_info_toward_callee local_ip local_port call)
          else build_ack_for_non_2xx raw response_to))))"

definition set_codec :: "string \<Rightarrow> string \<Rightarrow> 'st b2bua_manager \<Rightarrow> 'st b2bua_manager" where
  "set_codec uuid codec =
     with_call uuid (\<lambda>c. if bc_codec c = None then c\<lparr>bc_codec := Some codec\<rparr> else c)"

text \<open>One call of the refresh sweep: what it sends, and the call after it.\<close>

definition refresh_call ::
  "nat list \<Rightarrow> instant \<Rightarrow> string \<Rightarrow> nat \<Rightarrow> b2bua_call \<Rightarrow> (string \<times> outgoing) option \<times> b2bua_call"
where
  "refresh_call rnd now local_ip local_port call =
     (if bc_state call \<noteq> Connected then (None, call)
      else case (bc_callee_dest call, bc_session_timer call, dialog_info_toward_callee local_ip local_port call) of
        (Some dest, Some st, Some d0) \<Rightarrow>
          if now < st_next_refresh_at st \<or> st_pending_refresh_cseq st \<noteq> None then (None, call)
          else
            (case Option.bind (bc_original_outbound_invite call) extract_body of
               None \<Rightarrow> (None, call)
             | Some sdp \<Rightarrow>
                 let cseq = next_outbound_cseq call;
                     d = d0\<lparr>di_cseq := cseq\<rparr>;
                     interval = st_interval_secs st;
                     contact = ''<sip:sbc@'' @ local_ip @ '':'' @ show_nat local_port @ ''>'';
                     reinvite = build_reinvite rnd d sdp contact (Some (interval, ''uac'')) (Some (st_min_se st))
                 in (Some (bc_uuid call, reinvite, dest, bc_callee_transport call, bc_callee_reply_tx call),
                     call\<lparr>bc_outbound := map_option (\<lambda>l. l\<lparr>cl_cseq := cseq\<rparr>) (bc_outbound call),
                          bc_session_timer := Some (st\<lparr>st_pending_refresh_cseq := Some cseq,
                            st_pending_refresh_raw := Some reinvite, st_last_refresh := Some (cseq, reinvite),
                            st_next_refresh_at := now + refresh_after interval\<rparr>)\<rparr>))
      | _ \<Rightarrow> (None, call))"

text \<open>\<open>rnd\<close> gives the random bytes of each call's branch.\<close>

definition due_session_refreshes ::
  "(string \<Rightarrow> nat list) \<Rightarrow> instant \<Rightarrow> string \<Rightarrow> nat \<Rightarrow> 'st b2bua_manager \<Rightarrow>
   (string \<times> outgoing) list \<times> 'st b2bua_manager"
where
  "due_session_refreshes rnd now local_ip local_port m =
     (List.map_filter (\<lambda>(k, c). fst (refresh_call (rnd k) now local_ip local_port c)) (bm_calls m),
      m\<lparr>bm_calls := map (\<lambda>(k, c). (k, snd (refresh_call (rnd k) now local_ip local_port c))) (bm_calls m)\<rparr>)"

definition complete_session_refresh ::
  "nat list \<Rightarrow> string \<Rightarrow> nat \<Rightarrow> string \<Rightarrow> nat \<Rightarrow> 'st b2bua_manager \<Rightarrow> outgoing option \<times> 'st b2bua_manager"
where
  "complete_session_refresh rnd uuid cseq local_ip local_port m =
     (case hm_get (bm_calls m) uuid of
        None \<Rightarrow> (None, m)
      | Some call \<Rightarrow>
          (case bc_session_timer call of
             None \<Rightarrow> (None, m)
           | Some st \<Rightarrow>
               if st_pending_refresh_cseq st \<noteq> Some cseq then (None, m)
               else
                 (Option.bind (dialog_info_toward_callee local_ip local_port call)
                    (\<lambda>d. to_callee call (build_ack_for_2xx rnd d cseq)),
                  with_call uuid (\<lambda>c. c\<lparr>bc_session_timer := Some (st\<lparr>st_pending_refresh_cseq := None,
                    st_pending_refresh_raw := None, st_refresh_failures := 0\<rparr>)\<rparr>) m)))"

definition ack_for_answered_callee ::
  "nat list \<Rightarrow> string \<Rightarrow> string \<Rightarrow> nat \<Rightarrow> 'st b2bua_manager \<Rightarrow> outgoing option"
where
  "ack_for_answered_callee rnd uuid local_ip local_port m =
     Option.bind (hm_get (bm_calls m) uuid) (\<lambda>call.
     Option.bind (dialog_info_toward_callee local_ip local_port call) (\<lambda>d.
       to_callee call (build_ack_for_2xx rnd d (di_cseq d))))"


section \<open>Small accessors\<close>

definition set_last_sdp_to_caller :: "string \<Rightarrow> string \<Rightarrow> 'st b2bua_manager \<Rightarrow> 'st b2bua_manager" where
  "set_last_sdp_to_caller uuid sdp = with_call uuid (\<lambda>c. c\<lparr>bc_last_sdp_to_caller := Some sdp\<rparr>)"

definition get_media_session_id :: "string \<Rightarrow> 'st b2bua_manager \<Rightarrow> string option" where
  "get_media_session_id uuid m = Option.bind (hm_get (bm_calls m) uuid) bc_media_session_id"

definition get_callee_reply_info ::
  "string \<Rightarrow> 'st b2bua_manager \<Rightarrow> (nat option \<times> socket_addr \<times> transport) option"
where
  "get_callee_reply_info uuid m =
     Option.bind (hm_get (bm_calls m) uuid) (\<lambda>c.
       map_option (\<lambda>dest. (bc_callee_reply_tx c, dest, bc_callee_transport c)) (bc_callee_dest c))"

definition get_callee_contact_uri :: "string \<Rightarrow> 'st b2bua_manager \<Rightarrow> string option" where
  "get_callee_contact_uri uuid m =
     Option.bind (hm_get (bm_calls m) uuid) (\<lambda>c.
       case Option.bind (bc_outbound c) cl_remote_target of
         Some u \<Rightarrow> Some u | None \<Rightarrow> bc_callee_request_uri c)"

definition set_callee_request_uri :: "string \<Rightarrow> string \<Rightarrow> 'st b2bua_manager \<Rightarrow> 'st b2bua_manager" where
  "set_callee_request_uri uuid uri = with_call uuid (\<lambda>c. c\<lparr>bc_callee_request_uri := Some uri\<rparr>)"

definition get_inbound_call_id :: "string \<Rightarrow> 'st b2bua_manager \<Rightarrow> string option" where
  "get_inbound_call_id uuid m = map_option (cl_call_id \<circ> bc_inbound) (hm_get (bm_calls m) uuid)"

definition get_caller_reply_info ::
  "string \<Rightarrow> 'st b2bua_manager \<Rightarrow> (nat option \<times> socket_addr \<times> transport) option"
where
  "get_caller_reply_info uuid m =
     map_option (\<lambda>c. (bc_caller_reply_tx c, bc_caller_source c, bc_caller_transport c)) (hm_get (bm_calls m) uuid)"

definition get_call_ids :: "string \<Rightarrow> 'st b2bua_manager \<Rightarrow> (string \<times> string option) option" where
  "get_call_ids uuid m =
     map_option (\<lambda>c. (cl_call_id (bc_inbound c), map_option cl_call_id (bc_outbound c))) (hm_get (bm_calls m) uuid)"

definition set_caller_vias ::
  "string \<Rightarrow> string list \<Rightarrow> nat option \<Rightarrow> 'st b2bua_manager \<Rightarrow> 'st b2bua_manager"
where
  "set_caller_vias uuid vias invite_cseq =
     with_call uuid (\<lambda>c. c\<lparr>bc_caller_original_vias := vias, bc_caller_invite_cseq := invite_cseq\<rparr>)"

definition get_caller_invite_cseq :: "string \<Rightarrow> 'st b2bua_manager \<Rightarrow> nat option" where
  "get_caller_invite_cseq uuid m = Option.bind (hm_get (bm_calls m) uuid) bc_caller_invite_cseq"

definition get_caller_vias :: "string \<Rightarrow> 'st b2bua_manager \<Rightarrow> string list" where
  "get_caller_vias uuid m = (case hm_get (bm_calls m) uuid of None \<Rightarrow> [] | Some c \<Rightarrow> bc_caller_original_vias c)"

definition reset_auth_retry :: "string \<Rightarrow> 'st b2bua_manager \<Rightarrow> 'st b2bua_manager" where
  "reset_auth_retry uuid = with_call uuid (\<lambda>c. c\<lparr>bc_auth_retry_count := 0\<rparr>)"

definition get_session_timer_retry_count :: "string \<Rightarrow> 'st b2bua_manager \<Rightarrow> nat" where
  "get_session_timer_retry_count uuid m =
     (case hm_get (bm_calls m) uuid of None \<Rightarrow> 0 | Some c \<Rightarrow> bc_session_timer_retry_count c)"

definition increment_session_timer_retry :: "string \<Rightarrow> 'st b2bua_manager \<Rightarrow> 'st b2bua_manager" where
  "increment_session_timer_retry uuid =
     with_call uuid (\<lambda>c. c\<lparr>bc_session_timer_retry_count := incr32 (bc_session_timer_retry_count c)\<rparr>)"

definition store_outbound_invite :: "string \<Rightarrow> string \<Rightarrow> trunk_id \<Rightarrow> 'st b2bua_manager \<Rightarrow> 'st b2bua_manager" where
  "store_outbound_invite uuid invite_raw trunk_id =
     with_call uuid (\<lambda>c. c\<lparr>bc_original_outbound_invite := Some invite_raw, bc_trunk_id := Some trunk_id\<rparr>)"

definition get_auth_retry_info :: "string \<Rightarrow> 'st b2bua_manager \<Rightarrow> (string \<times> trunk_id \<times> nat) option" where
  "get_auth_retry_info uuid m =
     Option.bind (hm_get (bm_calls m) uuid) (\<lambda>c.
     Option.bind (bc_original_outbound_invite c) (\<lambda>invite.
     Option.bind (bc_trunk_id c) (\<lambda>tid. Some (invite, tid, bc_auth_retry_count c))))"

definition increment_auth_retry :: "string \<Rightarrow> 'st b2bua_manager \<Rightarrow> 'st b2bua_manager" where
  "increment_auth_retry uuid =
     with_call uuid (\<lambda>c. c\<lparr>bc_auth_retry_count := incr32 (bc_auth_retry_count c)\<rparr>)"

definition set_webrtc_session :: "string \<Rightarrow> nat \<Rightarrow> 'st b2bua_manager \<Rightarrow> 'st b2bua_manager" where
  "set_webrtc_session uuid session = with_call uuid (\<lambda>c. c\<lparr>bc_webrtc_session := Some session\<rparr>)"

definition get_webrtc_session :: "string \<Rightarrow> 'st b2bua_manager \<Rightarrow> nat option" where
  "get_webrtc_session uuid m = Option.bind (hm_get (bm_calls m) uuid) bc_webrtc_session"

definition set_webrtc_sdp_answer :: "string \<Rightarrow> string \<Rightarrow> 'st b2bua_manager \<Rightarrow> 'st b2bua_manager" where
  "set_webrtc_sdp_answer uuid sdp = with_call uuid (\<lambda>c. c\<lparr>bc_webrtc_sdp_answer := Some sdp\<rparr>)"

definition get_webrtc_sdp_answer :: "string \<Rightarrow> 'st b2bua_manager \<Rightarrow> string option" where
  "get_webrtc_sdp_answer uuid m = Option.bind (hm_get (bm_calls m) uuid) bc_webrtc_sdp_answer"

definition is_caller_webrtc :: "string \<Rightarrow> 'st b2bua_manager \<Rightarrow> bool" where
  "is_caller_webrtc uuid m = (case hm_get (bm_calls m) uuid of None \<Rightarrow> False | Some c \<Rightarrow> bc_caller_is_webrtc c)"

definition set_webrtc_ice_pwd :: "string \<Rightarrow> string \<Rightarrow> 'st b2bua_manager \<Rightarrow> 'st b2bua_manager" where
  "set_webrtc_ice_pwd uuid pwd = with_call uuid (\<lambda>c. c\<lparr>bc_webrtc_ice_pwd := Some pwd\<rparr>)"

definition get_webrtc_ice_pwd :: "string \<Rightarrow> 'st b2bua_manager \<Rightarrow> string option" where
  "get_webrtc_ice_pwd uuid m = Option.bind (hm_get (bm_calls m) uuid) bc_webrtc_ice_pwd"

definition set_callee_is_webrtc :: "string \<Rightarrow> bool \<Rightarrow> 'st b2bua_manager \<Rightarrow> 'st b2bua_manager" where
  "set_callee_is_webrtc uuid b = with_call uuid (\<lambda>c. c\<lparr>bc_callee_is_webrtc := b\<rparr>)"

definition is_callee_webrtc :: "string \<Rightarrow> 'st b2bua_manager \<Rightarrow> bool" where
  "is_callee_webrtc uuid m = (case hm_get (bm_calls m) uuid of None \<Rightarrow> False | Some c \<Rightarrow> bc_callee_is_webrtc c)"

definition set_webrtc_session_b :: "string \<Rightarrow> nat \<Rightarrow> 'st b2bua_manager \<Rightarrow> 'st b2bua_manager" where
  "set_webrtc_session_b uuid session = with_call uuid (\<lambda>c. c\<lparr>bc_webrtc_session_b := Some session\<rparr>)"

definition get_webrtc_session_b :: "string \<Rightarrow> 'st b2bua_manager \<Rightarrow> nat option" where
  "get_webrtc_session_b uuid m = Option.bind (hm_get (bm_calls m) uuid) bc_webrtc_session_b"

definition set_webrtc_ice_pwd_b :: "string \<Rightarrow> string \<Rightarrow> 'st b2bua_manager \<Rightarrow> 'st b2bua_manager" where
  "set_webrtc_ice_pwd_b uuid pwd = with_call uuid (\<lambda>c. c\<lparr>bc_webrtc_ice_pwd_b := Some pwd\<rparr>)"

definition get_webrtc_ice_pwd_b :: "string \<Rightarrow> 'st b2bua_manager \<Rightarrow> string option" where
  "get_webrtc_ice_pwd_b uuid m = Option.bind (hm_get (bm_calls m) uuid) bc_webrtc_ice_pwd_b"

definition set_webrtc_sdp_offer :: "string \<Rightarrow> string \<Rightarrow> 'st b2bua_manager \<Rightarrow> 'st b2bua_manager" where
  "set_webrtc_sdp_offer uuid sdp = with_call uuid (\<lambda>c. c\<lparr>bc_webrtc_sdp_offer := Some sdp\<rparr>)"

definition get_webrtc_sdp_offer :: "string \<Rightarrow> 'st b2bua_manager \<Rightarrow> string option" where
  "get_webrtc_sdp_offer uuid m = Option.bind (hm_get (bm_calls m) uuid) bc_webrtc_sdp_offer"

definition get_callee_cancel_info ::
  "string \<Rightarrow> 'st b2bua_manager \<Rightarrow> (string \<times> nat \<times> socket_addr \<times> nat option \<times> transport) option"
where
  "get_callee_cancel_info uuid m =
     Option.bind (hm_get (bm_calls m) uuid) (\<lambda>c.
     Option.bind (bc_outbound c) (\<lambda>out.
     Option.bind (bc_callee_dest c) (\<lambda>dest.
       Some (cl_call_id out, cl_cseq out, dest, bc_callee_reply_tx c, bc_callee_transport c))))"


section \<open>The life of a call\<close>

definition handle_ringing :: "string \<Rightarrow> 'st b2bua_manager \<Rightarrow> unit result \<times> 'st b2bua_manager" where
  "handle_ringing uuid m =
     (case hm_get (bm_calls m) uuid of
        None \<Rightarrow> (Inl (call_not_found uuid), m)
      | Some _ \<Rightarrow> (Inr (), with_call uuid (\<lambda>c. c\<lparr>bc_state := Ringing\<rparr>) m))"

definition handle_200_ok ::
  "(string \<Rightarrow> nat \<Rightarrow> string result) \<Rightarrow> instant \<Rightarrow> string \<Rightarrow> string \<Rightarrow> string option \<Rightarrow> 'st b2bua_manager \<Rightarrow>
   unit result \<times> 'st b2bua_manager"
where
  "handle_200_ok modify_sdp wall uuid callee_tag callee_sdp m =
     (case hm_get (bm_calls m) uuid of
        None \<Rightarrow> (Inl (call_not_found uuid), m)
      | Some call \<Rightarrow>
          (let first_answer = (bc_answered_at call = None);
               m1 = with_call uuid (\<lambda>c.
                 let c1 = establish_outbound callee_tag (c\<lparr>bc_callee_sdp := callee_sdp\<rparr>)
                 in if first_answer then c1\<lparr>bc_answered_at := Some wall\<rparr> else c1) m;
               m2 = (case (bc_media_session_id call, callee_sdp) of
                       (Some media_id, Some sdp) \<Rightarrow>
                         m1\<lparr>bm_media := snd (update_callee_sdp modify_sdp media_id sdp (bm_media m1))\<rparr>
                     | _ \<Rightarrow> m1)
           in (Inr (), if first_answer then b2bua_emit (CallAnswered uuid (event_ts wall)) m2 else m2)))"

definition handle_ack :: "string \<Rightarrow> 'st b2bua_manager \<Rightarrow> unit result \<times> 'st b2bua_manager" where
  "handle_ack uuid m =
     (case hm_get (bm_calls m) uuid of
        None \<Rightarrow> (Inl (call_not_found uuid), m)
      | Some _ \<Rightarrow>
          (Inr (), with_call uuid (\<lambda>c.
             let c1 = establish_inbound
                   (case cl_remote_tag (bc_inbound c) of None \<Rightarrow> '''' | Some t \<Rightarrow> t) c
             in if (case bc_outbound c1 of None \<Rightarrow> False | Some l \<Rightarrow> cl_established l)
                then c1\<lparr>bc_state := Connected\<rparr> else c1) m))"

definition release_media :: "instant \<Rightarrow> b2bua_call \<Rightarrow> 'st b2bua_manager \<Rightarrow> 'st b2bua_manager" where
  "release_media now call m =
     (case bc_media_session_id call of
        None \<Rightarrow> m
      | Some media_id \<Rightarrow> m\<lparr>bm_media := snd (terminate_session now media_id (bm_media m))\<rparr>)"

definition b2bua_handle_bye :: "instant \<Rightarrow> string \<Rightarrow> 'st b2bua_manager \<Rightarrow> unit result \<times> 'st b2bua_manager" where
  "b2bua_handle_bye now uuid m =
     (case hm_get (bm_calls m) uuid of
        None \<Rightarrow> (Inl (call_not_found uuid), m)
      | Some call \<Rightarrow> (Inr (), release_media now call (with_call uuid (\<lambda>c. c\<lparr>bc_state := Terminating\<rparr>) m)))"

definition remember_terminated ::
  "instant \<Rightarrow> string \<Rightarrow> string option \<Rightarrow> invite_attempt option \<Rightarrow> 'st b2bua_manager \<Rightarrow> 'st b2bua_manager"
where
  "remember_terminated now inbound_call_id outbound_call_id attempt m =
     (let kept = filter (\<lambda>d. now - rd_terminated_at d < RECENT_DIALOG_TTL) (bm_recent_terminated m)
            @ [\<lparr>rd_inbound_call_id = inbound_call_id, rd_outbound_call_id = outbound_call_id,
                rd_terminated_at = now, rd_last_attempt = attempt\<rparr>]
      in m\<lparr>bm_recent_terminated := drop (length kept - 256) kept\<rparr>)"

definition terminate_call_with_reason ::
  "instant \<Rightarrow> instant \<Rightarrow> string \<Rightarrow> string \<Rightarrow> 'st b2bua_manager \<Rightarrow> 'st b2bua_manager"
where
  "terminate_call_with_reason now wall uuid reason m =
     (case hm_get (bm_calls m) uuid of
        None \<Rightarrow> m\<lparr>bm_calls := hm_remove uuid (bm_calls m)\<rparr>
      | Some call \<Rightarrow>
          (let m1 = release_media now call (with_call uuid (\<lambda>c. c\<lparr>bc_state := Terminated\<rparr>) m);
               m2 = remember_terminated now (cl_call_id (bc_inbound call))
                      (map_option cl_call_id (bc_outbound call)) (last_attempt call) m1;
               m3 = m2\<lparr>bm_calls := hm_remove uuid (bm_calls m2)\<rparr>
           in b2bua_emit (CallEnded uuid (duration_secs now call) reason (event_ts wall)) m3))"

definition terminate_call :: "instant \<Rightarrow> instant \<Rightarrow> string \<Rightarrow> 'st b2bua_manager \<Rightarrow> 'st b2bua_manager" where
  "terminate_call now wall uuid = terminate_call_with_reason now wall uuid ''terminated''"

section \<open>Dialogs that are gone\<close>

definition recent :: "instant \<Rightarrow> recent_dialog \<Rightarrow> bool" where
  "recent now d \<longleftrightarrow> now - rd_terminated_at d < RECENT_DIALOG_TTL"

definition recent_attempt_for_call_id :: "instant \<Rightarrow> string \<Rightarrow> 'st b2bua_manager \<Rightarrow> invite_attempt option" where
  "recent_attempt_for_call_id now call_id m =
     (if call_id = [] then None
      else Option.bind
        (find (\<lambda>d. rd_inbound_call_id d = call_id \<or> ends_with (rd_inbound_call_id d) call_id)
           (filter (recent now) (rev (bm_recent_terminated m))))
        rd_last_attempt)"

definition was_recently_terminated :: "instant \<Rightarrow> string \<Rightarrow> 'st b2bua_manager \<Rightarrow> bool" where
  "was_recently_terminated now call_id m \<longleftrightarrow>
     call_id \<noteq> [] \<and>
     list_ex (\<lambda>d. recent now d \<and>
        (rd_inbound_call_id d = call_id \<or> ends_with (rd_inbound_call_id d) call_id \<or>
         (case rd_outbound_call_id d of
            None \<Rightarrow> False | Some out \<Rightarrow> out = call_id \<or> ends_with out call_id))) (bm_recent_terminated m)"

section \<open>Requests the SBC sends in a dialog\<close>

definition build_relay_bye_toward_callee ::
  "nat list \<Rightarrow> string \<Rightarrow> string \<Rightarrow> nat \<Rightarrow> string option \<Rightarrow> 'st b2bua_manager \<Rightarrow> string option \<times> 'st b2bua_manager"
where
  "build_relay_bye_toward_callee rnd uuid local_ip local_port reason m =
     (case hm_get (bm_calls m) uuid of
        None \<Rightarrow> (None, m)
      | Some call \<Rightarrow>
          (case dialog_info_toward_callee local_ip local_port call of
             None \<Rightarrow> (None, m)
           | Some d \<Rightarrow>
               (let cseq = next_outbound_cseq call
                in (Some (build_bye rnd (d\<lparr>di_cseq := cseq\<rparr>) reason),
                    with_call uuid (\<lambda>c. c\<lparr>bc_outbound := map_option (\<lambda>l. l\<lparr>cl_cseq := cseq\<rparr>) (bc_outbound c)\<rparr>) m))))"

definition build_relay_bye_toward_caller ::
  "nat list \<Rightarrow> string \<Rightarrow> string \<Rightarrow> nat \<Rightarrow> string option \<Rightarrow> 'st b2bua_manager \<Rightarrow> string option \<times> 'st b2bua_manager"
where
  "build_relay_bye_toward_caller rnd uuid local_ip local_port reason m =
     (case hm_get (bm_calls m) uuid of
        None \<Rightarrow> (None, m)
      | Some call \<Rightarrow>
          (case dialog_info_toward_caller local_ip local_port call of
             None \<Rightarrow> (None, m)
           | Some d \<Rightarrow>
               (Some (build_bye rnd d reason),
                with_call uuid (\<lambda>c. c\<lparr>bc_sent_cseq_toward_caller := di_cseq d\<rparr>) m)))"

definition active_calls_for_user :: "string \<Rightarrow> 'st b2bua_manager \<Rightarrow> nat" where
  "active_calls_for_user user m =
     length (filter (\<lambda>(_, c). bc_state c \<notin> {Terminated, Terminating} \<and>
        call_direction_of c \<noteq> ''inbound'' \<and> bc_caller_number c = Some user) (bm_calls m))"


section \<open>Finding calls\<close>

definition find_by_inbound_call_id :: "string \<Rightarrow> 'st b2bua_manager \<Rightarrow> string option" where
  "find_by_inbound_call_id call_id m =
     map_option (bc_uuid \<circ> snd) (find (\<lambda>(_, c). cl_call_id (bc_inbound c) = call_id) (bm_calls m))"

definition find_by_inbound_call_id_suffix :: "string \<Rightarrow> 'st b2bua_manager \<Rightarrow> string option" where
  "find_by_inbound_call_id_suffix call_id m =
     map_option (bc_uuid \<circ> snd)
       (find (\<lambda>(_, c). ends_with (cl_call_id (bc_inbound c)) call_id \<and> cl_call_id (bc_inbound c) \<noteq> call_id)
         (bm_calls m))"

definition outbound_id_is :: "(string \<Rightarrow> bool) \<Rightarrow> b2bua_call \<Rightarrow> bool" where
  "outbound_id_is P c = (case bc_outbound c of None \<Rightarrow> False | Some l \<Rightarrow> P (cl_call_id l))"

definition find_by_outbound_call_id :: "string \<Rightarrow> 'st b2bua_manager \<Rightarrow> string option" where
  "find_by_outbound_call_id call_id m =
     map_option (bc_uuid \<circ> snd) (find (\<lambda>(_, c). outbound_id_is (\<lambda>i. i = call_id) c) (bm_calls m))"

text \<open>
  Which leg of one call a request with this Call-ID and source belongs to: \<open>None\<close> when the Call-ID
  is not this call's, else whether it came from the caller.
\<close>

definition leg_of_source :: "b2bua_call \<Rightarrow> socket_addr \<Rightarrow> bool option" where
  "leg_of_source call src =
     (let caller_ip = fst (bc_caller_source call);
          callee_ip = map_option fst (bc_callee_dest call);
          src_ip = fst src;
          callee_near = (case callee_ip of None \<Rightarrow> False | Some ip \<Rightarrow> same_ipv4_subnet24 ip src_ip);
          caller_near = same_ipv4_subnet24 caller_ip src_ip
      in if bc_callee_dest call = Some src then Some False
         else if bc_caller_source call = src then Some True
         else if callee_ip = Some src_ip \<and> caller_ip \<noteq> src_ip then Some False
         else if caller_ip = src_ip \<and> callee_ip \<noteq> Some src_ip then Some True
         else if callee_near \<and> \<not> caller_near then Some False
         else if caller_near \<and> \<not> callee_near then Some True
         else None)"

definition leg_of_request :: "string \<Rightarrow> socket_addr option \<Rightarrow> b2bua_call \<Rightarrow> bool option" where
  "leg_of_request call_id source call =
     (let inbound_matches = (cl_call_id (bc_inbound call) = call_id);
          outbound_matches = outbound_id_is (\<lambda>i. i = call_id) call;
          inbound_suffix = (\<not> inbound_matches \<and> ends_with (cl_call_id (bc_inbound call)) call_id);
          outbound_suffix = (\<not> outbound_matches \<and> outbound_id_is (\<lambda>i. ends_with i call_id \<and> i \<noteq> call_id) call)
      in if \<not> inbound_matches \<and> \<not> outbound_matches \<and> \<not> inbound_suffix \<and> \<not> outbound_suffix then None
         else case Option.bind source (leg_of_source call) of
                Some b \<Rightarrow> Some b
              | None \<Rightarrow> Some (inbound_matches \<or> inbound_suffix))"

fun find_request :: "string \<Rightarrow> socket_addr option \<Rightarrow> (string, b2bua_call) hmap \<Rightarrow> (string \<times> bool) option" where
  "find_request call_id source [] = None"
| "find_request call_id source ((_, call) # calls) =
     (case leg_of_request call_id source call of
        Some b \<Rightarrow> Some (bc_uuid call, b)
      | None \<Rightarrow> find_request call_id source calls)"

definition find_by_any_call_id_with_source ::
  "string \<Rightarrow> socket_addr option \<Rightarrow> 'st b2bua_manager \<Rightarrow> (string \<times> bool) option"
where
  "find_by_any_call_id_with_source call_id source m = find_request call_id source (bm_calls m)"

definition find_by_any_call_id :: "string \<Rightarrow> 'st b2bua_manager \<Rightarrow> (string \<times> bool) option" where
  "find_by_any_call_id call_id = find_by_any_call_id_with_source call_id None"

definition MIN_CALL_ID_SUFFIX :: nat where "MIN_CALL_ID_SUFFIX = 8"

definition log_fields_for_call_id :: "string \<Rightarrow> 'st b2bua_manager \<Rightarrow> call_log_fields option" where
  "log_fields_for_call_id call_id m =
     map_option (call_log_fields_of \<circ> snd)
       (case find (\<lambda>(_, c). cl_call_id (bc_inbound c) = call_id \<or> outbound_id_is (\<lambda>i. i = call_id) c) (bm_calls m) of
          Some hit \<Rightarrow> Some hit
        | None \<Rightarrow>
            if length call_id < MIN_CALL_ID_SUFFIX then None
            else find (\<lambda>(_, c). ends_with (cl_call_id (bc_inbound c)) call_id \<or>
                   outbound_id_is (\<lambda>i. ends_with i call_id) c) (bm_calls m))"

definition log_fields :: "string \<Rightarrow> 'st b2bua_manager \<Rightarrow> call_log_fields option" where
  "log_fields uuid m = map_option call_log_fields_of (hm_get (bm_calls m) uuid)"

section \<open>Attempts toward the callee\<close>

definition push_attempt :: "invite_attempt \<Rightarrow> invite_attempt list \<Rightarrow> invite_attempt list" where
  "push_attempt a as =
     (let as' = as @ [a] in if MAX_INVITE_ATTEMPTS < length as' then tl as' else as')"

definition push_invite_attempt ::
  "instant \<Rightarrow> string \<Rightarrow> string \<Rightarrow> socket_addr \<Rightarrow> transport \<Rightarrow> trunk_id option \<Rightarrow> 'st b2bua_manager \<Rightarrow> 'st b2bua_manager"
where
  "push_invite_attempt now uuid raw dest transport trunk_id =
     (let branch = top_via_branch raw;
          cseq = (case parse_cseq_number raw of None \<Rightarrow> 1 | Some n \<Rightarrow> n)
      in with_call uuid (\<lambda>c.
           c\<lparr>bc_original_outbound_invite := Some raw,
             bc_trunk_id := (if trunk_id \<noteq> None then trunk_id else bc_trunk_id c),
             bc_callee_dest := Some dest, bc_callee_transport := transport,
             bc_failover := map_option (\<lambda>f. f\<lparr>fo_invite_sent_at := now\<rparr>) (bc_failover c),
             bc_invite_attempts := push_attempt
               \<lparr>at_raw = raw, at_branch = branch, at_cseq = cseq, at_dest = dest, at_transport = transport,
                at_trunk_id = trunk_id\<rparr> (bc_invite_attempts c)\<rparr>))"

definition current_attempt :: "string \<Rightarrow> 'st b2bua_manager \<Rightarrow> (invite_attempt \<times> nat option) option" where
  "current_attempt uuid m =
     Option.bind (hm_get (bm_calls m) uuid) (\<lambda>c. map_option (\<lambda>a. (a, bc_callee_reply_tx c)) (last_attempt c))"

definition outbound_invite_cseq :: "string \<Rightarrow> 'st b2bua_manager \<Rightarrow> nat option" where
  "outbound_invite_cseq uuid m = map_option at_cseq (Option.bind (hm_get (bm_calls m) uuid) last_attempt)"

definition classify_attempts :: "invite_attempt list \<Rightarrow> string option \<Rightarrow> nat \<Rightarrow> invite_response_class" where
  "classify_attempts attempts response_branch response_cseq =
     (case rev attempts of
        [] \<Rightarrow> CurrentTx
      | current # older \<Rightarrow>
          let by_branch = Option.bind response_branch (\<lambda>b.
                if at_branch current = Some b then Some CurrentTx
                else map_option (\<lambda>a. StaleTx (Some a)) (find (\<lambda>a. at_branch a = Some b) older))
          in case by_branch of
               Some r \<Rightarrow> r
             | None \<Rightarrow>
                 if at_cseq current < response_cseq then StaleTx None
                 else if response_branch \<noteq> None \<and> at_branch current \<noteq> None \<and> response_cseq = at_cseq current
                 then CurrentTx
                 else if response_cseq < at_cseq current
                 then StaleTx (find (\<lambda>a. at_cseq a = response_cseq) older)
                 else CurrentTx)"

definition classify_invite_response ::
  "string \<Rightarrow> string option \<Rightarrow> nat \<Rightarrow> 'st b2bua_manager \<Rightarrow> invite_response_class option"
where
  "classify_invite_response uuid response_branch response_cseq m =
     map_option (\<lambda>c. classify_attempts (bc_invite_attempts c) response_branch response_cseq)
       (hm_get (bm_calls m) uuid)"

section \<open>Statistics\<close>

record b2bua_stats =
  bs_total_active :: nat
  bs_connected :: nat
  bs_ringing :: nat
  bs_webrtc_calls :: nat

definition b2bua_stats_of :: "'st b2bua_manager \<Rightarrow> b2bua_stats" where
  "b2bua_stats_of m =
     \<lparr>bs_total_active = length (bm_calls m),
      bs_connected = length (filter (\<lambda>(_, c). bc_state c = Connected) (bm_calls m)),
      bs_ringing = length (filter (\<lambda>(_, c). bc_state c = Ringing) (bm_calls m)),
      bs_webrtc_calls = length (filter (\<lambda>(_, c). bc_caller_is_webrtc c) (bm_calls m))\<rparr>"

record call_snapshot =
  sn_uuid :: string
  sn_state :: string
  sn_inbound_call_id :: string
  sn_caller_addr :: string
  sn_callee_addr :: "string option"
  sn_duration_secs :: nat
  sn_is_webrtc :: bool
  sn_media_session_id :: "string option"

definition active_calls :: "instant \<Rightarrow> 'st b2bua_manager \<Rightarrow> call_snapshot list" where
  "active_calls now m =
     map (\<lambda>(_, c).
       \<lparr>sn_uuid = bc_uuid c, sn_state = call_state_as_str (bc_state c),
        sn_inbound_call_id = cl_call_id (bc_inbound c),
        sn_caller_addr = sock_to_string (cl_remote_addr (bc_inbound c)),
        sn_callee_addr = map_option (sock_to_string \<circ> cl_remote_addr) (bc_outbound c),
        sn_duration_secs = duration_secs now c, sn_is_webrtc = bc_caller_is_webrtc c,
        sn_media_session_id = bc_media_session_id c\<rparr>) (bm_calls m)"

end
