(* ===== verification/Call_Life.thy ===== *)
theory Call_Life
  imports B2bua
begin

text \<open>
  Runs of the call table. Every operation of \<^verbatim>\<open>B2buaManager\<close> that changes state is a step, in any
  order and interleaving; what is assumed of a run is that the random 64-bit identifier of a new
  call has not been used before and that a call gets its outbound leg once. Three things are followed
  through a run: the media sessions the calls own, the events published about each call, and the
  CSeq numbers of the requests the SBC itself sends to the callee of each call.
\<close>

section \<open>Steps\<close>

text \<open>The operations that only set fields of one call.\<close>

datatype call_setter =
    InboundDialog string "string option" "string option"
  | Alerting instant
  | RelayedCseq bool nat
  | PeerReason string
  | EstablishedDialog string string "string option"
  | FailoverCandidates instant "trunk_id list"
  | CalleeResponded
  | ProvisionalReceived
  | SessionTimer instant nat nat
  | SetCodec string
  | LastSdp string
  | RequestUri string
  | CallerVias "string list" "nat option"
  | PushInvite instant string socket_addr transport "trunk_id option"
  | AuthReset
  | TimerRetry
  | StoreInvite string trunk_id
  | AuthRetry
  | WebrtcSession nat
  | WebrtcAnswer string
  | WebrtcPwd string
  | CalleeWebrtc bool
  | WebrtcSessionB nat
  | WebrtcPwdB string
  | WebrtcOffer string

fun apply_setter :: "call_setter \<Rightarrow> string \<Rightarrow> 'st b2bua_manager \<Rightarrow> 'st b2bua_manager" where
  "apply_setter (InboundDialog f t c) u = set_inbound_dialog u f t c"
| "apply_setter (Alerting now) u = mark_alerting now u"
| "apply_setter (RelayedCseq b n) u = note_relayed_cseq u b n"
| "apply_setter (PeerReason r) u = set_peer_reason u r"
| "apply_setter (EstablishedDialog f t c) u = set_established_dialog u f t c"
| "apply_setter (FailoverCandidates now cs) u = set_failover_candidates now u cs"
| "apply_setter CalleeResponded u = mark_callee_responded u"
| "apply_setter ProvisionalReceived u = mark_provisional_received u"
| "apply_setter (SessionTimer now i s) u = set_session_timer now u i s"
| "apply_setter (SetCodec c) u = set_codec u c"
| "apply_setter (LastSdp s) u = set_last_sdp_to_caller u s"
| "apply_setter (RequestUri s) u = set_callee_request_uri u s"
| "apply_setter (CallerVias vs n) u = set_caller_vias u vs n"
| "apply_setter (PushInvite now raw d tr t) u = push_invite_attempt now u raw d tr t"
| "apply_setter AuthReset u = reset_auth_retry u"
| "apply_setter TimerRetry u = increment_session_timer_retry u"
| "apply_setter (StoreInvite raw t) u = store_outbound_invite u raw t"
| "apply_setter AuthRetry u = increment_auth_retry u"
| "apply_setter (WebrtcSession s) u = set_webrtc_session u s"
| "apply_setter (WebrtcAnswer s) u = set_webrtc_sdp_answer u s"
| "apply_setter (WebrtcPwd s) u = set_webrtc_ice_pwd u s"
| "apply_setter (CalleeWebrtc b) u = set_callee_is_webrtc u b"
| "apply_setter (WebrtcSessionB s) u = set_webrtc_session_b u s"
| "apply_setter (WebrtcPwdB s) u = set_webrtc_ice_pwd_b u s"
| "apply_setter (WebrtcOffer s) u = set_webrtc_sdp_offer u s"

text \<open>A CSeq that was relayed is a 32-bit number.\<close>

fun setter_ok :: "call_setter \<Rightarrow> bool" where
  "setter_ok (RelayedCseq _ n) \<longleftrightarrow> n \<le> u32_max"
| "setter_ok _ \<longleftrightarrow> True"

datatype call_event = EvStarted | EvAnswered | EvEnded

fun event_of :: "string \<Rightarrow> sbc_event \<Rightarrow> call_event option" where
  "event_of u (CallStarted u' _ _ _ _) = (if u' = u then Some EvStarted else None)"
| "event_of u (CallAnswered u' _) = (if u' = u then Some EvAnswered else None)"
| "event_of u (CallEnded u' _ _ _) = (if u' = u then Some EvEnded else None)"
| "event_of u _ = None"

definition events_of :: "string \<Rightarrow> event_bus \<Rightarrow> call_event list" where
  "events_of u bus = List.map_filter (event_of u) bus"

definition bus_of :: "'st b2bua_manager \<Rightarrow> event_bus" where
  "bus_of m = (case bm_events m of None \<Rightarrow> [] | Some b \<Rightarrow> b)"

text \<open>The CSeq numbers of the requests sent, with the call each was for.\<close>

type_synonym cseq_log = "(string \<times> nat) list"

definition issued :: "string \<Rightarrow> cseq_log \<Rightarrow> nat list" where
  "issued u log = map snd (filter (\<lambda>(k, _). k = u) log)"

definition unused :: "string \<Rightarrow> 'st b2bua_manager \<Rightarrow> cseq_log \<Rightarrow> bool" where
  "unused u m log \<longleftrightarrow> hm_get (bm_calls m) u = None \<and> events_of u (bus_of m) = [] \<and> issued u log = []"

definition tick_log :: "(string \<Rightarrow> nat list) \<Rightarrow> instant \<Rightarrow> string \<Rightarrow> nat \<Rightarrow> 'st b2bua_manager \<Rightarrow> cseq_log" where
  "tick_log rnd now ip port m =
     List.map_filter (\<lambda>(k, c). map_option (\<lambda>_. (k, next_outbound_cseq c)) (fst (refresh_call (rnd k) now ip port c)))
       (bm_calls m)"

definition bye_log :: "string \<Rightarrow> 'st b2bua_manager \<Rightarrow> string option \<Rightarrow> cseq_log" where
  "bye_log u m sent =
     (case (sent, hm_get (bm_calls m) u) of
        (Some _, Some c) \<Rightarrow> [(u, next_outbound_cseq c)] | _ \<Rightarrow> [])"

inductive b2_run :: "(string \<Rightarrow> nat \<Rightarrow> string result) \<Rightarrow> 'st b2bua_manager \<Rightarrow> cseq_log \<Rightarrow> bool"
  for modify_sdp
where
  boot: "mm_inv media \<Longrightarrow> open_sessions media = {} \<Longrightarrow>
    b2_run modify_sdp (b2bua_set_event_bus [] (b2bua_manager_new media)) []"
| media: "b2_run modify_sdp m log \<Longrightarrow> mm_inv media \<Longrightarrow> open_sessions media \<subseteq> open_sessions (bm_media m) \<Longrightarrow>
    b2_run modify_sdp (m\<lparr>bm_media := media\<rparr>) log"
| create: "b2_run modify_sdp m log \<Longrightarrow> unused (hex_width 16 rnd) m log \<Longrightarrow>
    b2_run modify_sdp (snd (create_call modify_sdp rnd now wall cid tag addr sdp tx tr m)) log"
| attach: "b2_run modify_sdp m log \<Longrightarrow> Option.bind (hm_get (bm_calls m) u) bc_outbound = None \<Longrightarrow>
    b2_run modify_sdp (snd (attach_outbound u cid tag addr tx tr m)) log"
| setter: "b2_run modify_sdp m log \<Longrightarrow> setter_ok s \<Longrightarrow> b2_run modify_sdp (apply_setter s u m) log"
| failover: "b2_run modify_sdp m log \<Longrightarrow> b2_run modify_sdp (snd (take_next_failover_candidate now u m)) log"
| refused: "b2_run modify_sdp m log \<Longrightarrow>
    b2_run modify_sdp (snd (fail_session_refresh delay now u cseq status min_se to m)) log"
| confirmed: "b2_run modify_sdp m log \<Longrightarrow>
    b2_run modify_sdp (snd (complete_session_refresh rnds u cseq ip port m)) log"
| tick: "b2_run modify_sdp m log \<Longrightarrow>
    b2_run modify_sdp (snd (due_session_refreshes rndf now ip port m)) (log @ tick_log rndf now ip port m)"
| ringing: "b2_run modify_sdp m log \<Longrightarrow> b2_run modify_sdp (snd (handle_ringing u m)) log"
| answered: "b2_run modify_sdp m log \<Longrightarrow> b2_run modify_sdp (snd (handle_200_ok modify_sdp wall u tag sdp m)) log"
| acked: "b2_run modify_sdp m log \<Longrightarrow> b2_run modify_sdp (snd (handle_ack u m)) log"
| bye: "b2_run modify_sdp m log \<Longrightarrow> b2_run modify_sdp (snd (b2bua_handle_bye now u m)) log"
| bye_callee: "b2_run modify_sdp m log \<Longrightarrow>
    b2_run modify_sdp (snd (build_relay_bye_toward_callee rnds u ip port reason m))
      (log @ bye_log u m (fst (build_relay_bye_toward_callee rnds u ip port reason m)))"
| bye_caller: "b2_run modify_sdp m log \<Longrightarrow>
    b2_run modify_sdp (snd (build_relay_bye_toward_caller rnds u ip port reason m)) log"
| terminate: "b2_run modify_sdp m log \<Longrightarrow>
    b2_run modify_sdp (terminate_call_with_reason now wall u why m) log"

section \<open>The invariant\<close>

definition leg_cseq :: "b2bua_call \<Rightarrow> nat" where
  "leg_cseq c = (case bc_outbound c of None \<Rightarrow> 0 | Some l \<Rightarrow> cl_cseq l)"

definition call_ok :: "string \<Rightarrow> b2bua_call \<Rightarrow> bool" where
  "call_ok u c \<longleftrightarrow> bc_uuid c = u \<and> bc_media_session_id c \<in> {None, Some u} \<and> leg_cseq c \<le> u32_max \<and>
     (\<forall>a \<in> set (bc_invite_attempts c). at_cseq a \<le> u32_max) \<and> length (bc_invite_attempts c) \<le> MAX_INVITE_ATTEMPTS"

definition calls_ok :: "(string, b2bua_call) hmap \<Rightarrow> bool" where
  "calls_ok calls \<longleftrightarrow> hm_ok calls \<and> (\<forall>u c. hm_get calls u = Some c \<longrightarrow> call_ok u c)"

definition owners :: "(string, b2bua_call) hmap \<Rightarrow> string set" where
  "owners calls = {u. \<exists>c. hm_get calls u = Some c \<and> bc_media_session_id c = Some u}"

definition media_ok :: "'st b2bua_manager \<Rightarrow> bool" where
  "media_ok m \<longleftrightarrow> mm_inv (bm_media m) \<and> open_sessions (bm_media m) \<subseteq> owners (bm_calls m)"

definition bus_ok :: "string \<Rightarrow> b2bua_call option \<Rightarrow> call_event list \<Rightarrow> bool" where
  "bus_ok u c es \<longleftrightarrow>
     (case c of
        None \<Rightarrow> es \<in> {[], [EvStarted, EvEnded], [EvStarted, EvAnswered, EvEnded]}
      | Some c \<Rightarrow> es = (if bc_answered_at c = None then [EvStarted] else [EvStarted, EvAnswered]))"

definition cseq_ok :: "b2bua_call option \<Rightarrow> nat list \<Rightarrow> bool" where
  "cseq_ok c ns \<longleftrightarrow> 0 \<in> set ns \<or>
     (sorted_wrt (<) ns \<and> (case c of None \<Rightarrow> True | Some c \<Rightarrow> \<forall>n \<in> set ns. n \<le> leg_cseq c))"

definition b2_inv :: "'st b2bua_manager \<Rightarrow> cseq_log \<Rightarrow> bool" where
  "b2_inv m log \<longleftrightarrow> calls_ok (bm_calls m) \<and> media_ok m \<and> bm_events m \<noteq> None \<and>
     (\<forall>u. bus_ok u (hm_get (bm_calls m) u) (events_of u (bus_of m)) \<and>
          cseq_ok (hm_get (bm_calls m) u) (issued u log))"

text \<open>A change of one call that keeps what is followed.\<close>

definition keeps :: "b2bua_call \<Rightarrow> b2bua_call \<Rightarrow> bool" where
  "keeps c c' \<longleftrightarrow> bc_answered_at c' = bc_answered_at c \<and> bc_media_session_id c' = bc_media_session_id c \<and>
     leg_cseq c \<le> leg_cseq c' \<and>
     (\<forall>u. call_ok u c \<longrightarrow> call_ok u c')"

lemma inv_with_call:
  assumes "b2_inv m log" and "\<And>c. hm_get (bm_calls m) u = Some c \<Longrightarrow> keeps c (f c)"
  shows "b2_inv (with_call u f m) log"
proof -
  have get: "hm_get (hm_modify u f (bm_calls m)) k = (if k = u then map_option f (hm_get (bm_calls m) u)
      else hm_get (bm_calls m) k)" for k by (rule hm_get_modify)
  have dom: "owners (hm_modify u f (bm_calls m)) = owners (bm_calls m)"
    using assms(2) by (auto simp: owners_def get keeps_def split: if_splits)
  have bus: "bus_ok k (hm_get (hm_modify u f (bm_calls m)) k) es" if "bus_ok k (hm_get (bm_calls m) k) es" for k es
    using that assms(2) by (auto simp: get bus_ok_def keeps_def split: option.splits)
  have cs: "cseq_ok (hm_get (hm_modify u f (bm_calls m)) k) ns" if "cseq_ok (hm_get (bm_calls m) k) ns" for k ns
    using that assms(2) by (fastforce simp: get cseq_ok_def keeps_def split: option.splits)
  have calls: "calls_ok (hm_modify u f (bm_calls m))"
    using assms by (auto simp: b2_inv_def calls_ok_def get keeps_def split: if_splits)
  show ?thesis
    using assms(1) bus cs calls by (simp add: b2_inv_def with_call_def media_ok_def dom bus_of_def)
qed

lemma inv_media:
  assumes "b2_inv m log" "mm_inv media" "open_sessions media \<subseteq> open_sessions (bm_media m)"
  shows "b2_inv (m\<lparr>bm_media := media\<rparr>) log"
  using assms by (auto simp: b2_inv_def media_ok_def bus_of_def)


lemmas setter_defs = set_inbound_dialog_def mark_alerting_def note_relayed_cseq_def set_peer_reason_def
  set_established_dialog_def set_failover_candidates_def mark_callee_responded_def mark_provisional_received_def
  set_session_timer_def set_codec_def set_last_sdp_to_caller_def set_callee_request_uri_def set_caller_vias_def
  reset_auth_retry_def increment_session_timer_retry_def store_outbound_invite_def
  increment_auth_retry_def set_webrtc_session_def set_webrtc_sdp_answer_def set_webrtc_ice_pwd_def
  set_callee_is_webrtc_def set_webrtc_session_b_def set_webrtc_ice_pwd_b_def set_webrtc_sdp_offer_def

lemma parse_cseq_bound: "parse_cseq_number raw = Some n \<Longrightarrow> n \<le> u32_max"
  by (auto simp: parse_cseq_number_def parse_uint_def Let_def split: option.splits list.splits if_splits)

lemma keeps_push:
  assumes "at_cseq a \<le> u32_max"
  shows "call_ok u c \<Longrightarrow> bc_invite_attempts c' = push_attempt a (bc_invite_attempts c) \<Longrightarrow>
    bc_uuid c' = bc_uuid c \<Longrightarrow> bc_media_session_id c' = bc_media_session_id c \<Longrightarrow> bc_outbound c' = bc_outbound c \<Longrightarrow>
    call_ok u c'"
  using assms
  by (auto simp: call_ok_def push_attempt_def Let_def leg_cseq_def MAX_INVITE_ATTEMPTS_def tl_append split: list.splits if_splits)

lemma setter_keeps:
  assumes "setter_ok s"
  obtains f where "apply_setter s u = with_call u f" "\<And>c. keeps c (f c)"
proof (cases s)
  case (PushInvite now raw d tr t)
  let ?f = "\<lambda>c. c\<lparr>bc_original_outbound_invite := Some raw,
             bc_trunk_id := (if t \<noteq> None then t else bc_trunk_id c),
             bc_callee_dest := Some d, bc_callee_transport := tr,
             bc_failover := map_option (\<lambda>f. f\<lparr>fo_invite_sent_at := now\<rparr>) (bc_failover c),
             bc_invite_attempts := push_attempt
               \<lparr>at_raw = raw, at_branch = top_via_branch raw,
                at_cseq = (case parse_cseq_number raw of None \<Rightarrow> 1 | Some n \<Rightarrow> n), at_dest = d, at_transport = tr,
                at_trunk_id = t\<rparr> (bc_invite_attempts c)\<rparr>"
  have n: "(case parse_cseq_number raw of None \<Rightarrow> 1 | Some n \<Rightarrow> n) \<le> u32_max"
    using parse_cseq_bound by (auto simp: u32_max_def split: option.splits)
  have "keeps c (?f c)" for c
    unfolding keeps_def
    by (intro conjI allI impI, simp, simp, simp add: leg_cseq_def, rule keeps_push [where c = c]) (use n in simp_all)
  moreover have "apply_setter s u = with_call u ?f" by (simp add: PushInvite push_invite_attempt_def Let_def)
  ultimately show ?thesis using that by blast
qed (rule that, simp add: setter_defs, use assms in \<open>simp add: keeps_def call_ok_def leg_cseq_def split: option.splits\<close>)+


text \<open>The operations that read the table first and then set fields of one call.\<close>

lemma inv_quiet:
  assumes "b2_inv m log"
  shows "b2_inv (snd (take_next_failover_candidate now u m)) log"
    "b2_inv (snd (fail_session_refresh delay now u cseq status min_se to m)) log"
    "b2_inv (snd (complete_session_refresh rnds u cseq ip port m)) log"
    "b2_inv (snd (handle_ringing u m)) log" "b2_inv (snd (handle_ack u m)) log"
    "b2_inv (snd (build_relay_bye_toward_caller rnds u ip port reason m)) log"
  using assms
  by (auto simp: take_next_failover_candidate_def fail_session_refresh_def complete_session_refresh_def
      handle_ringing_def handle_ack_def build_relay_bye_toward_caller_def establish_inbound_def Let_def
      keeps_def call_ok_def leg_cseq_def split: option.splits list.splits prod.splits if_splits intro!: inv_with_call)

lemma inv_attach:
  assumes "b2_inv m log" "Option.bind (hm_get (bm_calls m) u) bc_outbound = None"
  shows "b2_inv (snd (attach_outbound u cid tag addr tx tr m)) log"
proof (cases "hm_get (bm_calls m) u")
  case (Some c)
  then have "bc_outbound c = None" using assms(2) by simp
  then show ?thesis
    using Some assms(1) by (auto simp: attach_outbound_def set_outbound_def call_leg_new_def keeps_def call_ok_def
        leg_cseq_def u32_max_def intro!: inv_with_call)
qed (use assms(1) in \<open>simp add: attach_outbound_def\<close>)

lemma close_keeps_inv:
  assumes "b2_inv m log"
  shows "b2_inv (release_media now call m) log"
proof -
  have "mm_inv (bm_media m)" using assms by (simp add: b2_inv_def media_ok_def)
  from call_media.closed_within [OF this order_refl]
  have "b2_inv (m\<lparr>bm_media := close_session now i (bm_media m)\<rparr>) log" for i
    by (intro inv_media [OF assms]) blast+
  then show ?thesis using assms by (simp add: release_media_def close_session_def split: option.splits)
qed

lemma inv_bye: "b2_inv m log \<Longrightarrow> b2_inv (snd (b2bua_handle_bye now u m)) log"
  by (auto simp: b2bua_handle_bye_def keeps_def call_ok_def leg_cseq_def split: option.splits
      intro!: close_keeps_inv inv_with_call)

lemma invite_bound: "call_ok u c \<Longrightarrow> invite_cseq_of c \<le> u32_max"
proof -
  assume ok: "call_ok u c"
  show ?thesis
  proof (cases "bc_invite_attempts c")
    case Nil
    then show ?thesis
      using parse_cseq_bound by (auto simp: invite_cseq_of_def last_attempt_def bind_eq_Some_conv split: option.splits)
  next
    case (Cons a as)
    then have "last (bc_invite_attempts c) \<in> set (bc_invite_attempts c)" by simp
    then show ?thesis using ok Cons by (simp add: invite_cseq_of_def last_attempt_def call_ok_def)
  qed
qed

text \<open>A request with the next number is above every earlier one, unless the number wrapped to zero.\<close>

lemma next_above:
  "call_ok u c \<Longrightarrow> next_outbound_cseq c = 0 \<or>
     leg_cseq c < next_outbound_cseq c \<and> invite_cseq_of c < next_outbound_cseq c"
proof -
  assume ok: "call_ok u c"
  have "invite_cseq_of c \<le> u32_max" using invite_bound [OF ok] .
  moreover have "leg_cseq c \<le> u32_max" using ok by (simp add: call_ok_def)
  moreover define M where "M = max (invite_cseq_of c) (leg_cseq c)"
  ultimately have M: "M \<le> u32_max" "leg_cseq c \<le> M" "invite_cseq_of c \<le> M" by simp_all
  have "next_outbound_cseq c = (M + 1) mod 2 ^ 32"
    by (simp add: next_outbound_cseq_def incr32_def leg_cseq_def M_def)
  moreover have "(M + 1) mod 2 ^ 32 = (if M = u32_max then 0 else M + 1)"
    using M(1) by (auto simp: u32_max_def)
  ultimately show ?thesis using M(2,3) by (auto split: if_splits)
qed

lemma next_bound: "next_outbound_cseq c \<le> u32_max"
  using mod_less_divisor [of "2 ^ 32" "max (invite_cseq_of c) (leg_cseq c) + 1"]
  by (simp add: next_outbound_cseq_def incr32_def leg_cseq_def u32_max_def)


lemma issued_append: "issued u (log @ log') = issued u log @ issued u log'"
  by (simp add: issued_def)

text \<open>One more request for the call \<open>u\<close>, with the next number, which the leg then stands at.\<close>

lemma cseq_ok_next:
  assumes "cseq_ok (Some c) ns" "call_ok u c" "leg_cseq c' = next_outbound_cseq c"
  shows "cseq_ok (Some c') (ns @ [next_outbound_cseq c])"
proof (cases "0 \<in> set ns \<or> next_outbound_cseq c = 0")
  case False
  then have "leg_cseq c < next_outbound_cseq c" using next_above [OF assms(2)] by simp
  with False assms(1,3) show ?thesis by (fastforce simp: cseq_ok_def sorted_wrt_append)
qed (auto simp: cseq_ok_def)

lemma inv_calls:
  assumes "b2_inv m log" "calls_ok calls"
    and "\<And>k. map_option bc_answered_at (hm_get calls k) = map_option bc_answered_at (hm_get (bm_calls m) k)"
    and "\<And>k. map_option bc_media_session_id (hm_get calls k) = map_option bc_media_session_id (hm_get (bm_calls m) k)"
    and "\<And>k. cseq_ok (hm_get calls k) (issued k log')"
  shows "b2_inv (m\<lparr>bm_calls := calls\<rparr>) log'"
proof -
  have none: "hm_get calls k = None \<longleftrightarrow> hm_get (bm_calls m) k = None" for k using assms(3) [of k] by (metis option.map_disc_iff)
  have owned: "owners cs = {u. map_option bc_media_session_id (hm_get cs u) = Some (Some u)}" for cs
    by (simp add: owners_def)
  have dom: "owners calls = owners (bm_calls m)" unfolding owned assms(4) ..
  have "bus_ok k (hm_get calls k) es" if "bus_ok k (hm_get (bm_calls m) k) es" for k es
    using that assms(3) [of k] none [of k] by (cases "hm_get calls k"; cases "hm_get (bm_calls m) k") (auto simp: bus_ok_def)
  then show ?thesis
    using assms(1,2,5) dom by (simp add: b2_inv_def media_ok_def bus_of_def)
qed

lemma inv_get: "b2_inv m log \<Longrightarrow> hm_get (bm_calls m) u = Some c \<Longrightarrow> call_ok u c \<and> cseq_ok (Some c) (issued u log)"
  unfolding b2_inv_def calls_ok_def by metis

lemma inv_cseq: "b2_inv m log \<Longrightarrow> cseq_ok (hm_get (bm_calls m) u) (issued u log)"
  unfolding b2_inv_def by metis

lemma inv_bye_callee:
  assumes inv: "b2_inv m log"
  shows "b2_inv (snd (build_relay_bye_toward_callee rnds u ip port reason m))
    (log @ bye_log u m (fst (build_relay_bye_toward_callee rnds u ip port reason m)))"
proof (cases "hm_get (bm_calls m) u")
  case None
  then show ?thesis using inv by (simp add: build_relay_bye_toward_callee_def bye_log_def)
next
  case c: (Some c)
  show ?thesis
  proof (cases "dialog_info_toward_callee ip port c")
    case None
    then show ?thesis using inv c by (simp add: build_relay_bye_toward_callee_def bye_log_def)
  next
    case (Some d)
    then obtain l where l: "bc_outbound c = Some l" by (auto simp: dialog_info_toward_callee_def bind_eq_Some_conv)
    let ?f = "\<lambda>c'. c'\<lparr>bc_outbound := map_option (\<lambda>l. l\<lparr>cl_cseq := next_outbound_cseq c\<rparr>) (bc_outbound c')\<rparr>"
    have res: "snd (build_relay_bye_toward_callee rnds u ip port reason m) = with_call u ?f m"
      "bye_log u m (fst (build_relay_bye_toward_callee rnds u ip port reason m)) = [(u, next_outbound_cseq c)]"
      using c Some by (simp_all add: build_relay_bye_toward_callee_def bye_log_def Let_def)
    have leg: "leg_cseq (?f c) = next_outbound_cseq c" by (simp add: leg_cseq_def l)
    note ok = inv_get [OF inv c]
    have "calls_ok (hm_modify u ?f (bm_calls m))"
      using inv ok c next_bound [of c] leg
      by (auto simp: b2_inv_def calls_ok_def hm_get_modify call_ok_def split: if_splits)
    moreover have "cseq_ok (hm_get (hm_modify u ?f (bm_calls m)) k) (issued k (log @ [(u, next_outbound_cseq c)]))" for k
      using inv_cseq [OF inv, of k] c cseq_ok_next [OF conjunct2 [OF ok] conjunct1 [OF ok] leg]
      by (simp add: issued_append hm_get_modify issued_def [of _ "[_]"])
    ultimately show ?thesis
      unfolding res with_call_def
      by (intro inv_calls [OF inv]) (auto simp: hm_get_modify option.map_comp comp_def)
  qed
qed

lemma hm_get_map: "hm_get (map (\<lambda>(k, c). (k, f k c)) m) k = map_option (f k) (hm_get m k)"
  by (induction m) auto

lemma refresh_call_cases:
  obtains "refresh_call rnd now ip port c = (None, c)"
  | l st x where "bc_outbound c = Some l" "refresh_call rnd now ip port c =
      (Some x, c\<lparr>bc_outbound := Some (l\<lparr>cl_cseq := next_outbound_cseq c\<rparr>), bc_session_timer := Some st\<rparr>)"
proof (cases "\<exists>dest st d0 sdp. bc_state c = Connected \<and> bc_callee_dest c = Some dest \<and> bc_session_timer c = Some st \<and>
    dialog_info_toward_callee ip port c = Some d0 \<and> \<not> (now < st_next_refresh_at st \<or> st_pending_refresh_cseq st \<noteq> None) \<and>
    Option.bind (bc_original_outbound_invite c) extract_body = Some sdp")
  case True
  then obtain dest st d0 sdp where due: "bc_state c = Connected" "bc_callee_dest c = Some dest"
    "bc_session_timer c = Some st" "dialog_info_toward_callee ip port c = Some d0"
    "\<not> (now < st_next_refresh_at st \<or> st_pending_refresh_cseq st \<noteq> None)"
    "Option.bind (bc_original_outbound_invite c) extract_body = Some sdp" by blast
  obtain l where l: "bc_outbound c = Some l"
    using due(4) by (auto simp: dialog_info_toward_callee_def bind_eq_Some_conv)
  show ?thesis by (rule that(2) [OF l], simp only: refresh_call_def due Let_def l simp_thms if_False prod.case option.case option.map)
next
  case False
  then have "refresh_call rnd now ip port c = (None, c)"
    by (cases "bc_state c = Connected"; cases "bc_callee_dest c"; cases "bc_session_timer c";
        cases "dialog_info_toward_callee ip port c"; cases "Option.bind (bc_original_outbound_invite c) extract_body")
      (simp_all add: refresh_call_def)
  then show ?thesis by (rule that(1))
qed

lemma refresh_call_facts:
  assumes "refresh_call rnd now ip port c = (sent, c')" "call_ok u c"
  shows "call_ok u c'" "bc_answered_at c' = bc_answered_at c \<and> bc_media_session_id c' = bc_media_session_id c"
    "sent = None \<Longrightarrow> c' = c" "sent \<noteq> None \<Longrightarrow> leg_cseq c' = next_outbound_cseq c"
proof -
  have "call_ok u c' \<and> (bc_answered_at c' = bc_answered_at c \<and> bc_media_session_id c' = bc_media_session_id c) \<and>
    (sent = None \<longrightarrow> c' = c) \<and> (sent \<noteq> None \<longrightarrow> leg_cseq c' = next_outbound_cseq c)"
  proof (cases rule: refresh_call_cases [of rnd now ip port c])
    case 1
    with assms show ?thesis by auto
  next
    case (2 l st x)
    with assms(1) have s: "sent = Some x"
      "c' = c\<lparr>bc_outbound := Some (l\<lparr>cl_cseq := next_outbound_cseq c\<rparr>), bc_session_timer := Some st\<rparr>" by auto
    show ?thesis using assms(2) next_bound [of c] by (simp add: s call_ok_def leg_cseq_def)
  qed
  then show "call_ok u c'" "bc_answered_at c' = bc_answered_at c \<and> bc_media_session_id c' = bc_media_session_id c"
    "sent = None \<Longrightarrow> c' = c" "sent \<noteq> None \<Longrightarrow> leg_cseq c' = next_outbound_cseq c" by auto
qed

lemma issued_tick:
  assumes "hm_ok calls"
  shows "issued u (List.map_filter (\<lambda>(k, c). map_option (\<lambda>_. (k, next_outbound_cseq c)) (g k c)) calls) =
    (case hm_get calls u of None \<Rightarrow> [] | Some c \<Rightarrow> if g u c = None then [] else [next_outbound_cseq c])"
  using assms
proof (induction calls)
  case (Cons x calls)
  obtain k c where x: "x = (k, c)" by (cases x)
  have ok: "hm_ok calls" "k \<notin> fst ` set calls" using Cons.prems by (auto simp: hm_ok_def x)
  have "hm_get calls k = None" using ok(2) by (simp add: map_of_eq_None_iff)
  with Cons.IH [OF ok(1)] show ?case
    by (auto simp: x issued_def List.map_filter_def split: option.splits)
qed (simp add: issued_def List.map_filter_def)

lemma inv_tick:
  assumes inv: "b2_inv m log"
  shows "b2_inv (snd (due_session_refreshes rndf now ip port m)) (log @ tick_log rndf now ip port m)"
proof -
  let ?g = "\<lambda>k c. snd (refresh_call (rndf k) now ip port c)"
  let ?calls = "map (\<lambda>(k, c). (k, ?g k c)) (bm_calls m)"
  have ok: "hm_ok (bm_calls m)" using inv by (simp add: b2_inv_def calls_ok_def)
  note facts = refresh_call_facts [OF surjective_pairing conjunct1 [OF inv_get [OF inv]]]
  have "hm_ok ?calls" using ok by (simp add: hm_ok_def case_prod_beta comp_def)
  then have "calls_ok ?calls" using facts(1) by (auto simp: calls_ok_def hm_get_map)
  moreover have "cseq_ok (hm_get ?calls k) (issued k (log @ tick_log rndf now ip port m))" for k
  proof (cases "hm_get (bm_calls m) k")
    case None
    then show ?thesis
      using inv_cseq [OF inv, of k] by (simp add: hm_get_map issued_append tick_log_def issued_tick [OF ok])
  next
    case (Some c)
    note ok_c = inv_get [OF inv Some]
    show ?thesis
    proof (cases "fst (refresh_call (rndf k) now ip port c)")
      case None
      then show ?thesis
        using ok_c facts(3) [OF Some] Some by (simp add: hm_get_map issued_append tick_log_def issued_tick [OF ok])
    next
      case sent: (Some out)
      then have "fst (refresh_call (rndf k) now ip port c) \<noteq> None" by blast
      then have "leg_cseq (?g k c) = next_outbound_cseq c" by (rule facts(4) [OF Some])
      from cseq_ok_next [OF conjunct2 [OF ok_c] conjunct1 [OF ok_c] this] sent Some show ?thesis
        by (simp add: hm_get_map issued_append tick_log_def issued_tick [OF ok])
    qed
  qed
  moreover have "map_option bc_answered_at (hm_get ?calls k) = map_option bc_answered_at (hm_get (bm_calls m) k) \<and>
      map_option bc_media_session_id (hm_get ?calls k) = map_option bc_media_session_id (hm_get (bm_calls m) k)" for k
    using facts(2) by (cases "hm_get (bm_calls m) k") (auto simp: hm_get_map)
  ultimately show ?thesis
    unfolding due_session_refreshes_def snd_conv by (intro inv_calls [OF inv]) auto
qed


lemma events_emit: "events_of u (bus @ [e]) = events_of u bus @ (case event_of u e of None \<Rightarrow> [] | Some k \<Rightarrow> [k])"
  by (auto simp: events_of_def List.map_filter_def split: option.splits)

text \<open>Emitting an event about the call \<open>u\<close> together with the change of its entry.\<close>

lemma inv_emit:
  assumes "b2_inv m log" "calls_ok (bm_calls m')" "media_ok m'"
    and "bm_events m' = map_option (publish e) (bm_events m)"
    and "\<And>k. k \<noteq> u \<Longrightarrow> hm_get (bm_calls m') k = hm_get (bm_calls m) k \<and> event_of k e = None"
    and "event_of u e = Some x" "bus_ok u (hm_get (bm_calls m') u) (events_of u (bus_of m) @ [x])"
    and "cseq_ok (hm_get (bm_calls m') u) (issued u log)"
  shows "b2_inv m' log"
proof -
  obtain bus where bus: "bm_events m = Some bus" using assms(1) by (auto simp: b2_inv_def)
  have ev: "events_of k (bus_of m') = events_of k (bus_of m) @ (case event_of k e of None \<Rightarrow> [] | Some k \<Rightarrow> [k])" for k
    using bus assms(4) by (simp add: bus_of_def publish_def events_emit)
  have "bus_ok k (hm_get (bm_calls m') k) (events_of k (bus_of m')) \<and> cseq_ok (hm_get (bm_calls m') k) (issued k log)" for k
  proof (cases "k = u")
    case True
    then show ?thesis using assms(6-8) ev by simp
  next
    case False
    then show ?thesis using assms(1) assms(5) [OF False] ev by (simp add: b2_inv_def)
  qed
  then show ?thesis using assms(2-4) bus by (simp add: b2_inv_def)
qed

lemma inv_answered:
  assumes inv: "b2_inv m log"
  shows "b2_inv (snd (handle_200_ok modify_sdp wall u tag sdp m)) log"
proof (cases "hm_get (bm_calls m) u")
  case None
  then show ?thesis using inv by (simp add: handle_200_ok_def)
next
  case c: (Some c)
  define f where "f = (\<lambda>c'. let c1 = establish_outbound tag (c'\<lparr>bc_callee_sdp := sdp\<rparr>)
    in if bc_answered_at c = None then c1\<lparr>bc_answered_at := Some wall\<rparr> else c1)"
  define m1 where "m1 = with_call u f m"
  define m2 where "m2 = (case (bc_media_session_id c, sdp) of
      (Some i, Some s) \<Rightarrow> m1\<lparr>bm_media := snd (update_callee_sdp modify_sdp i s (bm_media m1))\<rparr> | _ \<Rightarrow> m1)"
  have res: "snd (handle_200_ok modify_sdp wall u tag sdp m) =
      (if bc_answered_at c = None then b2bua_emit (CallAnswered u (event_ts wall)) m2 else m2)"
    unfolding handle_200_ok_def m2_def m1_def f_def Let_def c by simp
  have leg: "leg_cseq (f c) = leg_cseq c" "call_ok u c \<Longrightarrow> call_ok u (f c)" for u
    by (auto simp: f_def establish_outbound_def leg_cseq_def call_ok_def Let_def split: option.splits)
  have media: "mm_inv (bm_media m2)" "open_sessions (bm_media m2) = open_sessions (bm_media m)"
    "bm_calls m2 = hm_modify u f (bm_calls m)" "bm_events m2 = bm_events m"
  proof -
    have i: "mm_inv (bm_media m)" using inv by (simp add: b2_inv_def media_ok_def)
    have "open_sessions (snd (update_callee_sdp modify_sdp j s (bm_media m))) = open_sessions (bm_media m)" for j s
      by (auto simp: update_callee_sdp_def open_sessions_def hm_get_modify split: option.splits sum.splits if_splits)
    then show "mm_inv (bm_media m2)" "open_sessions (bm_media m2) = open_sessions (bm_media m)"
      "bm_calls m2 = hm_modify u f (bm_calls m)" "bm_events m2 = bm_events m"
      using i mm_inv_setters(6) [OF i] by (auto simp: m2_def m1_def with_call_def split: option.splits)
  qed
  show ?thesis
  proof (cases "bc_answered_at c")
    case (Some w)
    have "b2_inv m1 log" unfolding m1_def
      using c Some leg by (intro inv_with_call [OF inv]) (auto simp: keeps_def f_def establish_outbound_def Let_def)
    moreover have "m2 = m1\<lparr>bm_media := bm_media m2\<rparr>" by (auto simp: m2_def split: option.splits)
    moreover have "bm_media m1 = bm_media m" by (simp add: m1_def with_call_def)
    ultimately have "b2_inv m2 log" using inv_media [of m1 log "bm_media m2"] media by auto
    then show ?thesis unfolding res using Some by simp
  next
    case None
    have calls: "calls_ok (hm_modify u f (bm_calls m))"
      using inv c leg(2) by (auto simp: b2_inv_def calls_ok_def hm_get_modify split: if_splits)
    have "bc_media_session_id (f c) = bc_media_session_id c" by (simp add: f_def establish_outbound_def Let_def)
    then have dom: "owners (hm_modify u f (bm_calls m)) = owners (bm_calls m)"
      using c by (auto simp: owners_def hm_get_modify split: if_splits)
    have ans: "bc_answered_at (f c) = Some wall" using None by (simp add: f_def Let_def)
    have "bus_ok u (hm_get (bm_calls m) u) (events_of u (bus_of m))" using inv by (simp add: b2_inv_def)
    then have ev: "events_of u (bus_of m) = [EvStarted]" using c None by (simp add: bus_ok_def)
    have "b2_inv (b2bua_emit (CallAnswered u (event_ts wall)) m2) log"
    proof (rule inv_emit [OF inv, where u = u and x = EvAnswered])
      show "cseq_ok (hm_get (bm_calls (b2bua_emit (CallAnswered u (event_ts wall)) m2)) u) (issued u log)"
        using inv_get [OF inv c] c leg(1) by (auto simp: b2bua_emit_def media hm_get_modify cseq_ok_def)
    qed (use calls dom media inv c ev ans in
        \<open>auto simp: b2bua_emit_def media_ok_def hm_get_modify b2_inv_def bus_ok_def\<close>)
    then show ?thesis unfolding res using None by simp
  qed
qed


lemma inv_create:
  assumes inv: "b2_inv m log" and new: "unused (hex_width 16 rnd) m log"
  shows "b2_inv (snd (create_call modify_sdp rnd now wall cid tag addr sdp tx tr m)) log"
proof -
  define u where "u = hex_width 16 rnd"
  define call where "call = (\<lambda>i. (b2bua_call_new rnd now wall cid tag addr sdp tx tr)\<lparr>bc_media_session_id := i, bc_state := Proceeding\<rparr>)"
  have new: "hm_get (bm_calls m) u = None" "events_of u (bus_of m) = []" "issued u log = []"
    using new by (simp_all add: unused_def u_def)
  have uuid: "bc_uuid (call i) = u" "bc_uuid (b2bua_call_new rnd now wall cid tag addr sdp tx tr) = u"
    "bc_answered_at (call i) = None" for i
    by (simp_all add: call_def b2bua_call_new_def u_def)
  have ok: "i \<in> {None, Some u} \<Longrightarrow> call_ok u (call i)" for i
    by (auto simp: call_ok_def call_def b2bua_call_new_def u_def leg_cseq_def u32_max_def)
  let ?e = "CallStarted u cid (sock_to_string addr) None (event_ts wall)"
  have owns: "owners (hm_insert u (call i) (bm_calls m)) = (if i = Some u then insert u (owners (bm_calls m)) else owners (bm_calls m))" for i
    using new(1) by (auto simp: owners_def hm_get_insert call_def)
  have step: "b2_inv (b2bua_emit ?e (m\<lparr>bm_media := media, bm_calls := hm_insert u (call i) (bm_calls m)\<rparr>)) log"
    if "mm_inv media" "open_sessions media \<subseteq> (if i = Some u then insert u (owners (bm_calls m)) else owners (bm_calls m))"
      "i \<in> {None, Some u}" for media i
  proof (rule inv_emit [OF inv, where u = u and x = EvStarted and e = ?e])
    show "calls_ok (bm_calls (b2bua_emit ?e (m\<lparr>bm_media := media, bm_calls := hm_insert u (call i) (bm_calls m)\<rparr>)))"
      using inv ok [OF that(3)] by (auto simp: b2bua_emit_def b2_inv_def calls_ok_def hm_get_insert)
    show "media_ok (b2bua_emit ?e (m\<lparr>bm_media := media, bm_calls := hm_insert u (call i) (bm_calls m)\<rparr>))"
      using that owns [of i] by (simp add: b2bua_emit_def media_ok_def)
  qed (use that new uuid in
      \<open>auto simp: b2bua_emit_def hm_get_insert bus_ok_def cseq_ok_def split: if_splits\<close>)
  have media: "mm_inv (bm_media m)" "open_sessions (bm_media m) \<subseteq> owners (bm_calls m)"
    using inv by (simp_all add: b2_inv_def media_ok_def)
  show ?thesis
  proof (cases sdp)
    case None
    then have "snd (create_call modify_sdp rnd now wall cid tag addr sdp tx tr m) =
        b2bua_emit ?e (m\<lparr>bm_media := bm_media m, bm_calls := hm_insert u (call None) (bm_calls m)\<rparr>)"
      by (simp add: create_call_def call_def Let_def uuid(2) [unfolded None])
    then show ?thesis using step [of "bm_media m" None] media by auto
  next
    case (Some s)
    obtain r media' where r: "create_session modify_sdp now u (Some s) (bm_media m) = (r, media')"
      by (cases "create_session modify_sdp now u (Some s) (bm_media m)")
    have "u \<notin> owners (bm_calls m)" using new by (simp add: owners_def)
    from call_media.opened_within [OF media this, of modify_sdp now "Some s"] r
    have w: "mm_inv media' \<and> (case r of Inl _ \<Rightarrow> open_sessions media' \<subseteq> owners (bm_calls m)
        | Inr s \<Rightarrow> ms_session_id s = u \<and> open_sessions media' \<subseteq> insert u (owners (bm_calls m)))"
      by (cases r) (auto simp: open_session_def)
    show ?thesis
    proof (cases r)
      case (Inl e)
      then have "snd (create_call modify_sdp rnd now wall cid tag addr sdp tx tr m) = m\<lparr>bm_media := media'\<rparr>"
        using r by (simp add: create_call_def Some Let_def uuid(2) [unfolded Some])
      moreover have "b2_inv (m\<lparr>bm_media := media'\<rparr>) log"
        using w Inl inv by (auto simp: b2_inv_def media_ok_def bus_of_def)
      ultimately show ?thesis by simp
    next
      case (Inr session)
      then have "snd (create_call modify_sdp rnd now wall cid tag addr sdp tx tr m) =
          b2bua_emit ?e (m\<lparr>bm_media := media', bm_calls := hm_insert u (call (Some u)) (bm_calls m)\<rparr>)"
        using r w by (simp add: create_call_def Some Let_def call_def uuid(2) [unfolded Some])
      then show ?thesis using step [of media' "Some u"] w Inr by auto
    qed
  qed
qed

lemma inv_terminate:
  assumes inv: "b2_inv m log"
  shows "b2_inv (terminate_call_with_reason now wall u why m) log"
proof (cases "hm_get (bm_calls m) u")
  case None
  then have "hm_get (hm_remove u (bm_calls m)) = hm_get (bm_calls m)" by (auto simp: hm_get_remove)
  then show ?thesis
    using inv None by (simp add: terminate_call_with_reason_def b2_inv_def calls_ok_def media_ok_def bus_of_def owners_def)
next
  case c: (Some c)
  define m1 where "m1 = release_media now c (with_call u (\<lambda>c. c\<lparr>bc_state := Terminated\<rparr>) m)"
  define m3 where "m3 = (remember_terminated now (cl_call_id (bc_inbound c)) (map_option cl_call_id (bc_outbound c))
      (last_attempt c) m1)\<lparr>bm_calls := hm_remove u (bm_calls m1)\<rparr>"
  let ?e = "CallEnded u (duration_secs now c) why (event_ts wall)"
  have res: "terminate_call_with_reason now wall u why m = b2bua_emit ?e m3"
    by (simp add: terminate_call_with_reason_def c Let_def m1_def m3_def remember_terminated_def)
  have calls: "hm_get (bm_calls m3) k = (if k = u then None else hm_get (bm_calls m) k)" for k
    by (auto simp: m3_def m1_def release_media_def with_call_def hm_get_remove hm_get_modify split: option.splits)
  have fields: "bm_events m3 = bm_events m" "hm_ok (bm_calls m3)"
    using inv by (auto simp: m3_def m1_def release_media_def with_call_def remember_terminated_def Let_def
        b2_inv_def calls_ok_def split: option.splits)
  have ok: "call_ok u c" using inv_get [OF inv c] by simp
  have media: "mm_inv (bm_media m)" "open_sessions (bm_media m) \<subseteq> owners (bm_calls m)"
    using inv by (simp_all add: b2_inv_def media_ok_def)
  have owned: "owners (bm_calls m3) = owners (bm_calls m) - {u}" using calls by (auto simp: owners_def split: if_splits)
  have "media_ok m3"
  proof (cases "bc_media_session_id c")
    case (Some i)
    then have "i = u" using ok by (simp add: call_ok_def)
    with Some have "bm_media m3 = close_session now u (bm_media m)"
      by (simp add: m3_def m1_def release_media_def with_call_def remember_terminated_def Let_def close_session_def)
    then show ?thesis using call_media.closed_within [OF media, of now u] owned by (simp add: media_ok_def)
  next
    case None
    then have "bm_media m3 = bm_media m"
      by (simp add: m3_def m1_def release_media_def with_call_def remember_terminated_def Let_def)
    moreover have "u \<notin> owners (bm_calls m)" using None c by (simp add: owners_def)
    ultimately show ?thesis using media owned by (simp add: media_ok_def)
  qed
  moreover have "calls_ok (bm_calls m3)" using inv fields(2) calls by (simp add: b2_inv_def calls_ok_def)
  moreover have "bus_ok u (hm_get (bm_calls m) u) (events_of u (bus_of m))" using inv by (simp add: b2_inv_def)
  ultimately have "b2_inv (b2bua_emit ?e m3) log"
    using calls fields(1) c inv_cseq [OF inv, of u]
    by (intro inv_emit [OF inv, where u = u and x = EvEnded and e = ?e])
       (auto simp: b2bua_emit_def media_ok_def bus_ok_def cseq_ok_def split: if_splits)
  then show ?thesis by (simp add: res)
qed

lemma run_inv: "b2_run modify_sdp m log \<Longrightarrow> b2_inv m log"
proof (induction rule: b2_run.induct)
  case (boot media)
  then show ?case
    by (simp add: b2_inv_def b2bua_set_event_bus_def b2bua_manager_new_def calls_ok_def media_ok_def owners_def
        bus_ok_def cseq_ok_def bus_of_def events_of_def issued_def List.map_filter_def)
next
  case (setter m log s u)
  from setter_keeps [OF setter.hyps(2), of u] obtain f where "apply_setter s u m = with_call u f m" "\<And>c. keeps c (f c)"
    by metis
  with setter.IH show ?case by (simp add: inv_with_call)
qed (simp_all add: inv_media inv_create inv_attach inv_quiet inv_tick inv_answered inv_bye inv_bye_callee inv_terminate)


section \<open>What every run keeps\<close>

text \<open>
  C5: No port outlives its call. Through any sequence of operations, with calls refused for want of
  ports, answered, hung up twice or killed half-way, every open media session belongs to a call of
  the table that owns it; when the table is empty, not one port of the pool is in use.
\<close>

theorem idle_sbc_holds_no_port:
  assumes "b2_run modify_sdp m log"
  shows "open_sessions (bm_media m) \<subseteq> owners (bm_calls m) \<and>
    (bm_calls m = [] \<longrightarrow> live (mm_allocator (bm_media m)) = {})"
proof -
  have inv: "mm_inv (bm_media m)" "open_sessions (bm_media m) \<subseteq> owners (bm_calls m)"
    using run_inv [OF assms] by (simp_all add: b2_inv_def media_ok_def)
  have "live (mm_allocator (bm_media m)) = {}" if "bm_calls m = []"
  proof -
    have "open_sessions (bm_media m) = {}" using inv(2) that by (simp add: owners_def)
    then have "mm_sessions (bm_media m) = []" by (auto simp: open_sessions_def)
    then show ?thesis using inv(1) by (simp add: mm_inv_def table_rtps_def)
  qed
  with inv(2) show ?thesis by blast
qed

definition demo_media :: "unit media_manager" where
  "demo_media = with_allocator (with_range_and_hold 10000 10010 0)"

lemma demo_boot: "b2_run modify_sdp (b2bua_set_event_bus [] (b2bua_manager_new demo_media)) []"
proof (rule b2_run.boot)
  show "mm_inv demo_media" unfolding demo_media_def by (rule fresh_manager_inv) (simp_all add: u16_max_def)
  show "open_sessions demo_media = {}" by (simp add: demo_media_def open_sessions_def with_allocator_def)
qed

definition demo_up :: "unit b2bua_manager" where
  "demo_up = snd (create_call (\<lambda>s p. Inr s) 7 2 3 ''cid'' ''tag'' (V4 10 0 0 7, 5060) (Some ''v=0'') None Udp
     (b2bua_set_event_bus [] (b2bua_manager_new demo_media)))"

definition demo_uuid :: string where "demo_uuid = hex_width 16 7"

lemma demo_up_run: "b2_run (\<lambda>s p. Inr s) demo_up []"
  unfolding demo_up_def
  by (rule b2_run.create [OF demo_boot])
     (simp add: unused_def b2bua_set_event_bus_def b2bua_manager_new_def bus_of_def events_of_def issued_def
        List.map_filter_def)

lemma demo_down_run:
  "b2_run (\<lambda>s p. Inr s) (terminate_call_with_reason 9 9 demo_uuid ''normal'' (snd (b2bua_handle_bye 8 demo_uuid demo_up))) []"
  by (intro b2_run.terminate b2_run.bye demo_up_run)

lemma demo_down_empty:
  "bm_calls (terminate_call_with_reason 9 9 demo_uuid ''normal'' (snd (b2bua_handle_bye 8 demo_uuid demo_up))) = []"
proof -
  have keys: "\<exists>c. bm_calls demo_up = [(demo_uuid, c)] \<or> bm_calls demo_up = []"
    by (auto simp: demo_up_def create_call_def b2bua_set_event_bus_def b2bua_manager_new_def b2bua_emit_def Let_def
        hm_insert_def b2bua_call_new_def demo_uuid_def split: prod.splits sum.splits)
  then show ?thesis
    by (auto simp: terminate_call_with_reason_def b2bua_handle_bye_def release_media_def with_call_def b2bua_emit_def
        remember_terminated_def hm_modify_def hm_remove_def Let_def split: option.splits)
qed

theorem idle_sbc_holds_no_port_witness:
  "live (mm_allocator (bm_media
     (terminate_call_with_reason 9 9 demo_uuid ''normal'' (snd (b2bua_handle_bye 8 demo_uuid demo_up))))) = {}"
  using idle_sbc_holds_no_port [OF demo_down_run] demo_down_empty by blast

text \<open>
  C6: The events of a call come in order and once. On the bus, whatever is retransmitted or hung up
  twice, the events about a call are: started, then at most one answered, then at most one ended;
  and a call is in the table exactly between its first and its last event.
\<close>

theorem call_events_in_order:
  assumes "b2_run modify_sdp m log"
  shows "events_of u (bus_of m) \<in> {[], [EvStarted], [EvStarted, EvAnswered], [EvStarted, EvEnded],
      [EvStarted, EvAnswered, EvEnded]} \<and>
    (hm_get (bm_calls m) u \<noteq> None \<longleftrightarrow> events_of u (bus_of m) \<in> {[EvStarted], [EvStarted, EvAnswered]})"
proof -
  have "bus_ok u (hm_get (bm_calls m) u) (events_of u (bus_of m))"
    using run_inv [OF assms] by (simp add: b2_inv_def)
  then show ?thesis
    by (cases "hm_get (bm_calls m) u") (auto simp: bus_ok_def split: if_splits)
qed

theorem call_events_in_order_witness:
  "hm_get (bm_calls (terminate_call_with_reason 9 9 demo_uuid ''normal'' (snd (b2bua_handle_bye 8 demo_uuid demo_up)))) demo_uuid = None \<and>
   events_of demo_uuid (bus_of (terminate_call_with_reason 9 9 demo_uuid ''normal''
     (snd (b2bua_handle_bye 8 demo_uuid demo_up)))) \<notin> {[EvStarted], [EvStarted, EvAnswered]}"
  using call_events_in_order [OF demo_down_run, of demo_uuid] demo_down_empty by simp


text \<open>
  C16: The SBC numbers its own requests upward. The CSeq numbers of the session refreshes and BYEs it
  sends to the callee of a call grow strictly, across relayed requests, 407 and 422 retries and
  failovers; the next one is also above the live INVITE. A number is 0 only when the 32-bit counter
  has wrapped, and then nothing is claimed.
\<close>

theorem own_requests_number_upward:
  assumes "b2_run modify_sdp m log" and "0 \<notin> set (issued u log)"
  shows "sorted_wrt (<) (issued u log) \<and>
    (\<forall>c. hm_get (bm_calls m) u = Some c \<and> next_outbound_cseq c \<noteq> 0 \<longrightarrow>
       (\<forall>n \<in> set (issued u log). n < next_outbound_cseq c) \<and> invite_cseq_of c < next_outbound_cseq c)"
proof -
  note inv = run_inv [OF assms(1)]
  have "sorted_wrt (<) (issued u log)" using inv_cseq [OF inv, of u] assms(2) by (simp add: cseq_ok_def)
  moreover have "(\<forall>n \<in> set (issued u log). n < next_outbound_cseq c) \<and> invite_cseq_of c < next_outbound_cseq c"
    if c: "hm_get (bm_calls m) u = Some c" "next_outbound_cseq c \<noteq> 0" for c
  proof -
    have ok: "call_ok u c" "\<forall>n \<in> set (issued u log). n \<le> leg_cseq c"
      using inv_get [OF inv c(1)] assms(2) by (simp_all add: cseq_ok_def)
    show ?thesis using next_above [OF ok(1)] ok(2) c(2) by fastforce
  qed
  ultimately show ?thesis by blast
qed

definition demo_talking :: "unit b2bua_manager" where
  "demo_talking =
     apply_setter (EstablishedDialog ''<sip:a>'' ''<sip:b>;tag=7'' None) demo_uuid
       (apply_setter (RelayedCseq True 41) demo_uuid
         (snd (attach_outbound demo_uuid ''cid'' ''t'' (V4 10 0 0 9, 5060) None Udp demo_up)))"

lemma demo_talking_run: "b2_run (\<lambda>s p. Inr s) demo_talking []"
  unfolding demo_talking_def
proof (intro b2_run.setter b2_run.attach demo_up_run)
  have "Option.bind (hm_get (bm_calls demo_up) demo_uuid) bc_outbound = None"
    by (auto simp: demo_up_def create_call_def b2bua_set_event_bus_def b2bua_manager_new_def b2bua_emit_def Let_def
        hm_get_insert b2bua_call_new_def split: prod.splits sum.splits)
  then show "Option.bind (hm_get (bm_calls demo_up) demo_uuid) bc_outbound = None" .
qed (simp_all add: u32_max_def)

theorem own_requests_number_upward_witness:
  "sorted_wrt (<) (issued demo_uuid
     (bye_log demo_uuid demo_talking (fst (build_relay_bye_toward_callee [] demo_uuid ''192.0.2.7'' 5060 None demo_talking))))"
proof (cases "0 \<in> set (issued demo_uuid
     (bye_log demo_uuid demo_talking (fst (build_relay_bye_toward_callee [] demo_uuid ''192.0.2.7'' 5060 None demo_talking))))")
  case False
  from own_requests_number_upward [OF b2_run.bye_callee [OF demo_talking_run, of "[]" demo_uuid "''192.0.2.7''" 5060 None], of demo_uuid]
    False show ?thesis by simp
next
  case True
  then show ?thesis by (auto simp: bye_log_def issued_def split: option.splits)
qed

section \<open>Attribution of responses\<close>

lemma find_SomeD: "find P xs = Some x \<Longrightarrow> x \<in> set xs \<and> P x"
  by (induction xs) (auto split: if_splits)

text \<open>
  C17: A response counts for the live INVITE exactly when its branch is that of the live attempt, or
  when no attempt that is remembered has its branch (or it carries none) and its CSeq is the live
  one; a response with the branch of a superseded attempt is never taken for the live one, and the
  attempt it is ACKed from has that branch.
\<close>

theorem response_attribution:
  assumes "attempts \<noteq> []"
  shows "(classify_attempts attempts br n = CurrentTx \<longleftrightarrow>
       br \<noteq> None \<and> at_branch (last attempts) = br \<or>
       (br = None \<or> br \<notin> at_branch ` set attempts) \<and> n = at_cseq (last attempts)) \<and>
    (\<forall>a. classify_attempts attempts br n = StaleTx (Some a) \<longrightarrow> a \<in> set (butlast attempts) \<and>
       (at_branch a = br \<or> at_cseq a = n \<and> n < at_cseq (last attempts))) \<and>
    (br \<noteq> None \<and> br \<in> at_branch ` set (butlast attempts) \<and> at_branch (last attempts) \<noteq> br \<longrightarrow>
       (\<exists>a. classify_attempts attempts br n = StaleTx (Some a) \<and> at_branch a = br))"
proof -
  obtain older current where a: "attempts = older @ [current]" using assms by (metis append_butlast_last_id)
  note unfolded = classify_attempts_def a rev_append rev.simps append.simps list.case Let_def
  show ?thesis
  proof (cases "br \<noteq> None \<and> at_branch current = br")
    case True
    then show ?thesis unfolding unfolded by (auto simp: a)
  next
    case other: False
    show ?thesis
    proof (cases "Option.bind br (\<lambda>b. find (\<lambda>a. at_branch a = Some b) (rev older))")
      case None
      then have "br = None \<or> br \<notin> at_branch ` set attempts" using other by (cases br) (auto simp: a find_None_iff)
      moreover from None other have "classify_attempts attempts br n =
          (if at_cseq current < n then StaleTx None
           else if n < at_cseq current then StaleTx (find (\<lambda>a. at_cseq a = n) (rev older)) else CurrentTx)"
        unfolding unfolded by (cases br) auto
      ultimately show ?thesis using other by (auto simp: a dest!: find_SomeD split: if_splits)
    next
      case (Some x)
      then obtain b where b: "br = Some b" "find (\<lambda>a. at_branch a = Some b) (rev older) = Some x" by (cases br) auto
      with other have "classify_attempts attempts br n = StaleTx (Some x)" unfolding unfolded by auto
      moreover have "x \<in> set older" "at_branch x = br" using find_SomeD [OF b(2)] b(1) by auto
      moreover have "br \<in> at_branch ` set older" using calculation(2,3) by blast
      ultimately show ?thesis using other b(1) by (auto simp: a)
    qed
  qed
qed

definition two_attempts :: "invite_attempt list" where
  "two_attempts =
     [\<lparr>at_raw = ''a'', at_branch = Some ''z1'', at_cseq = 2, at_dest = (V4 10 0 0 7, 5060), at_transport = Udp, at_trunk_id = None\<rparr>,
      \<lparr>at_raw = ''b'', at_branch = Some ''z2'', at_cseq = 2, at_dest = (V4 10 0 0 9, 5060), at_transport = Udp, at_trunk_id = None\<rparr>]"

theorem response_attribution_witness:
  "two_attempts \<noteq> [] \<and> classify_attempts two_attempts (Some ''z1'') 2 \<noteq> CurrentTx \<and>
   classify_attempts two_attempts (Some ''z2'') 2 = CurrentTx"
proof -
  have "two_attempts \<noteq> []" by (simp add: two_attempts_def)
  from response_attribution [OF this, of "Some ''z1''" 2] response_attribution [OF this, of "Some ''z2''" 2] this
  show ?thesis by (simp add: two_attempts_def)
qed


section \<open>Session refreshes\<close>

text \<open>A refusal that counts as a failure of the session.\<close>

definition counts :: "nat \<Rightarrow> nat option \<Rightarrow> session_timer_state \<Rightarrow> bool" where
  "counts status min_se st \<longleftrightarrow> status \<notin> {491, 405, 501, 420} \<and>
     \<not> (status = 422 \<and> (\<exists>m. min_se = Some m \<and> st_interval_secs st < m))"

lemma refused_counts:
  assumes "counts status min_se st" "st_refresh_failures st < 10"
  shows "\<exists>st'. refused_timer delay now status min_se st =
      (Some st', status \<in> {408, 481} \<or> MAX_REFRESH_FAILURES \<le> st_refresh_failures st + 1) \<and>
    st_refresh_failures st' = st_refresh_failures st + 1 \<and> st_pending_refresh_cseq st' = None \<and>
    now + secs 30 \<le> st_next_refresh_at st' \<and> st_next_refresh_at st' \<le> now + refresh_after (st_interval_secs st')"
proof -
  have f: "incr32 (st_refresh_failures st) = st_refresh_failures st + 1" using assms(2) by (simp add: incr32_def)
  define st1 where "st1 = (let s = st\<lparr>st_pending_refresh_cseq := None, st_pending_refresh_raw := None\<rparr> in
    if status = 422 then (case min_se of None \<Rightarrow> s
       | Some m \<Rightarrow> s\<lparr>st_interval_secs := max (st_interval_secs s) m, st_min_se := max (st_min_se s) m\<rparr>) else s)"
  define b where "b = min (30 * 2 ^ min (st_refresh_failures st + 1) 4) (max (st_interval_secs st1 div 2) 30)"
  have st1: "st_refresh_failures st1 = st_refresh_failures st" "st_pending_refresh_cseq st1 = None"
    by (simp_all add: st1_def Let_def split: option.splits)
  have no: "status \<noteq> 491" "status \<notin> {405, 501, 420}"
    "\<not> (status = 422 \<and> (case min_se of None \<Rightarrow> False | Some m \<Rightarrow> st_interval_secs st < m))"
    using assms(1) by (auto simp: counts_def split: option.splits)
  have "refused_timer delay now status min_se st =
      (Some (st1\<lparr>st_refresh_failures := st_refresh_failures st + 1, st_next_refresh_at := now + secs b\<rparr>),
       status \<in> {408, 481} \<or> MAX_REFRESH_FAILURES \<le> st_refresh_failures st + 1)"
    using no unfolding refused_timer_def Let_def st1_def [unfolded Let_def, symmetric]
    by (cases min_se) (auto simp: st1(1) f b_def)
  moreover have "30 \<le> b" "b \<le> max (st_interval_secs st1 div 2) 30"
    using one_le_power [of "2 :: nat" "min (st_refresh_failures st + 1) 4"] by (simp_all add: b_def)
  ultimately show ?thesis using st1 by (simp add: refresh_after_def)
qed

text \<open>
  A peer that keeps refusing is noticed. Three refusals in a row, from a timer that has seen none,
  end the dialog at the latest with the third, whatever the statuses and the times; a 408 or a 481
  ends it at once. Until then the session is kept and the next refresh is due no sooner than 30
  seconds after the refusal and no later than half the session interval (or 30 seconds).
\<close>

theorem three_refusals_end_dialog:
  assumes "st_refresh_failures st0 = 0"
    and "counts s1 q1 st0" "refused_timer d1 t1 s1 q1 st0 = (Some st1, gone1)"
    and "counts s2 q2 st1" "refused_timer d2 t2 s2 q2 st1 = (Some st2, gone2)"
    and "counts s3 q3 st2" "refused_timer d3 t3 s3 q3 st2 = (Some st3, gone3)"
  shows "gone3 \<and> (gone1 \<longleftrightarrow> s1 \<in> {408, 481}) \<and> (gone2 \<longleftrightarrow> s2 \<in> {408, 481}) \<and>
    (\<forall>(t, st) \<in> {(t1, st1), (t2, st2), (t3, st3)}.
       t + secs 30 \<le> st_next_refresh_at st \<and> st_next_refresh_at st \<le> t + refresh_after (st_interval_secs st))"
proof -
  from refused_counts [OF assms(2), of d1 t1] assms(1,3)
  have 1: "st_refresh_failures st1 = 1" "gone1 \<longleftrightarrow> s1 \<in> {408, 481}"
    "t1 + secs 30 \<le> st_next_refresh_at st1 \<and> st_next_refresh_at st1 \<le> t1 + refresh_after (st_interval_secs st1)"
    by (auto simp: MAX_REFRESH_FAILURES_def)
  from refused_counts [OF assms(4), of d2 t2] 1(1) assms(5)
  have 2: "st_refresh_failures st2 = 2" "gone2 \<longleftrightarrow> s2 \<in> {408, 481}"
    "t2 + secs 30 \<le> st_next_refresh_at st2 \<and> st_next_refresh_at st2 \<le> t2 + refresh_after (st_interval_secs st2)"
    by (auto simp: MAX_REFRESH_FAILURES_def)
  from refused_counts [OF assms(6), of d3 t3] 2(1) assms(7)
  have 3: "gone3" "t3 + secs 30 \<le> st_next_refresh_at st3 \<and> st_next_refresh_at st3 \<le> t3 + refresh_after (st_interval_secs st3)"
    by (auto simp: MAX_REFRESH_FAILURES_def)
  show ?thesis using 1 2 3 by simp
qed

definition demo_timer :: session_timer_state where
  "demo_timer = \<lparr>st_interval_secs = 90, st_min_se = 90, st_next_refresh_at = 0, st_pending_refresh_cseq = Some 7,
     st_pending_refresh_raw = None, st_last_refresh = None, st_refresh_failures = 0\<rparr>"

theorem three_refusals_end_dialog_witness:
  "\<exists>st1 st2 st3 g1 g2. refused_timer 0 2 500 None demo_timer = (Some st1, g1) \<and>
     refused_timer 0 9 503 None st1 = (Some st2, g2) \<and> refused_timer 0 20 500 None st2 = (Some st3, True)"
proof -
  have c: "counts 500 None s" "counts 503 None s" for s by (simp_all add: counts_def)
  have s0: "st_refresh_failures demo_timer = 0" by (simp add: demo_timer_def)
  obtain st1 g1 where 1: "refused_timer 0 2 500 None demo_timer = (Some st1, g1)" "st_refresh_failures st1 = 1"
    using refused_counts [OF c(1), of demo_timer 0 2] s0 by auto
  obtain st2 g2 where 2: "refused_timer 0 9 503 None st1 = (Some st2, g2)" "st_refresh_failures st2 = 2"
    using refused_counts [OF c(2), of st1 0 9] 1(2) by auto
  obtain st3 g3 where 3: "refused_timer 0 20 500 None st2 = (Some st3, g3)"
    using refused_counts [OF c(1), of st2 0 20] 2(2) by auto
  from three_refusals_end_dialog [OF s0 c(1) 1(1) c(2) 2(1) c(1) 3] have "g3" by simp
  with 1 2 3 show ?thesis by auto
qed

section \<open>Failover\<close>

text \<open>What taking candidates again and again returns.\<close>

fun take_candidates :: "instant list \<Rightarrow> string \<Rightarrow> 'st b2bua_manager \<Rightarrow> trunk_id option list" where
  "take_candidates [] u m = []"
| "take_candidates (t # ts) u m =
     (let (r, m') = take_next_failover_candidate t u m in r # take_candidates ts u m')"

lemma take_candidates_none:
  "(\<And>c f. hm_get (bm_calls m) u = Some c \<Longrightarrow> bc_failover c = Some f \<Longrightarrow> fo_provisional_received f \<or> fo_candidates f = []) \<Longrightarrow>
   take_candidates ts u m = replicate (length ts) None"
proof (induction ts arbitrary: m)
  case (Cons t ts)
  have "take_next_failover_candidate t u m = (None, m)"
  proof (cases "Option.bind (hm_get (bm_calls m) u) bc_failover")
    case (Some f)
    then have "fo_provisional_received f \<or> fo_candidates f = []" using Cons.prems by (auto simp: bind_eq_Some_conv)
    with Some show ?thesis by (auto simp: take_next_failover_candidate_def split: list.splits)
  qed (simp add: take_next_failover_candidate_def)
  moreover have "take_candidates ts u m = replicate (length ts) None" by (rule Cons.IH) (rule Cons.prems)
  ultimately show ?case by simp
qed simp

text \<open>
  Every candidate is tried once, in order. From the moment failover is armed with a list of trunks,
  the successive attempts take exactly these trunks, in their order, and then none; and once a
  provisional response of 180 or more was seen, none is taken at all.
\<close>

theorem failover_in_order:
  assumes "hm_get (bm_calls m) u \<noteq> None"
  shows "take_candidates ts u (set_failover_candidates now u cs m) =
      map Some (take (length ts) cs) @ replicate (length ts - length cs) None \<and>
    take_candidates ts u (mark_provisional_received u (set_failover_candidates now u cs m)) = replicate (length ts) None"
proof -
  have run: "take_candidates ts u m' = map Some (take (length ts) cs) @ replicate (length ts - length cs) None"
    if "hm_get (bm_calls m') u = Some c" "bc_failover c = Some f" "fo_candidates f = cs" "\<not> fo_provisional_received f"
    for m' :: "'a b2bua_manager" and c f ts cs
    using that
  proof (induction ts arbitrary: m' c f cs)
    case (Cons t ts)
    show ?case
    proof (cases cs)
      case Nil
      then show ?thesis
        using Cons.prems by (subst take_candidates_none) auto
    next
      case (Cons x xs)
      let ?f = "f\<lparr>fo_candidates := xs, fo_attempt := incr32 (fo_attempt f), fo_invite_sent_at := t\<rparr>"
      have "take_next_failover_candidate t u m' = (Some x, with_call u (\<lambda>c. c\<lparr>bc_failover := Some ?f\<rparr>) m')"
        using Cons Cons.prems by (simp add: take_next_failover_candidate_def)
      moreover have "take_candidates ts u (with_call u (\<lambda>c. c\<lparr>bc_failover := Some ?f\<rparr>) m') =
          map Some (take (length ts) xs) @ replicate (length ts - length xs) None"
        using Cons.prems by (intro Cons.IH [of _ "c\<lparr>bc_failover := Some ?f\<rparr>" ?f xs]) (simp_all add: with_call_def hm_get_modify)
      ultimately show ?thesis using Cons by simp
    qed
  qed simp
  obtain c where c: "hm_get (bm_calls m) u = Some c" using assms by auto
  show ?thesis
    using c by (auto simp: set_failover_candidates_def mark_provisional_received_def with_call_def hm_get_modify
        intro!: run take_candidates_none)
qed


definition one_call_table :: "unit b2bua_manager" where
  "one_call_table = (b2bua_manager_new demo_media)
     \<lparr>bm_calls := [(''u'', b2bua_call_new 7 2 3 ''cid'' ''tag'' (V4 10 0 0 7, 5060) None None Udp)]\<rparr>"

theorem failover_in_order_witness:
  "hm_get (bm_calls one_call_table) ''u'' \<noteq> None \<and>
   take_candidates [2, 3, 4] ''u'' (set_failover_candidates 2 ''u'' [7, 9] one_call_table) = [Some 7, Some 9, None]"
proof -
  have "hm_get (bm_calls one_call_table) ''u'' \<noteq> None" by (simp add: one_call_table_def)
  with failover_in_order [OF this, of "[2, 3, 4]" 2 "[7, 9]"] show ?thesis by (simp add: numeral_eq_Suc)
qed

section \<open>Deviations\<close>

text \<open>
  Any provisional response, a 100 Trying included, moves the call to the ringing state, and a call in
  that state is not looked at by the no-answer check of failover: a trunk that says 100 and then
  nothing is never timed out in favour of the next one.
\<close>

lemma ringing_table:
  "hm_get (bm_calls (snd (handle_ringing u m))) k =
     (if k = u then map_option (bc_state_update (\<lambda>_. Ringing)) (hm_get (bm_calls m) u) else hm_get (bm_calls m) k)"
  by (simp add: handle_ringing_def with_call_def hm_get_modify split: option.splits)

lemma trying_stops_failover_clock:
  assumes "hm_ok (bm_calls m)" "\<And>k c. hm_get (bm_calls m) k = Some c \<Longrightarrow> bc_uuid c = k"
  shows "u \<notin> fst ` set (invite_attempts_timed_out now timeout (snd (handle_ringing u m)))"
proof
  let ?calls = "bm_calls (snd (handle_ringing u m))"
  assume "u \<in> fst ` set (invite_attempts_timed_out now timeout (snd (handle_ringing u m)))"
  then obtain k c where kc: "(k, c) \<in> set ?calls" "attempt_timed_out now timeout c" "bc_uuid c = u"
    by (auto simp: invite_attempts_timed_out_def)
  have ok: "hm_ok ?calls" using assms(1) by (auto simp: handle_ringing_def with_call_def split: option.splits)
  then have "hm_get ?calls k = Some c" using kc(1) hm_get_in_set by fast
  then have get: "(if k = u then map_option (bc_state_update (\<lambda>_. Ringing)) (hm_get (bm_calls m) u)
      else hm_get (bm_calls m) k) = Some c" unfolding ringing_table .
  show False
  proof (cases "k = u")
    case True
    with get have "bc_state c = Ringing" by auto
    with kc(2) show False by (simp add: attempt_timed_out_def)
  next
    case False
    with get have "bc_uuid c = k" using assms(2) by simp
    with kc(3) False show False by simp
  qed
qed

text \<open>
  A late provisional response takes an answered call out of the connected state, and the sweep of
  the session timers then skips it.
\<close>

lemma late_provisional_stops_refreshes:
  "hm_get (bm_calls (snd (handle_ringing u m))) u = Some c \<Longrightarrow> fst (refresh_call rnd now ip port c) = None"
  by (auto simp: ringing_table refresh_call_def)

text \<open>
  A request without a Call-ID, whose Call-ID the handlers read as the empty text, finds a call as
  soon as there is one: every Call-ID ends with the empty text.
\<close>

lemma ends_with_empty: "ends_with s []"
  by (simp add: ends_with_def starts_with_def)

lemma empty_call_id_finds_a_call:
  assumes "bm_calls m \<noteq> []"
  shows "find_by_any_call_id_with_source [] source m \<noteq> None"
proof -
  obtain k c calls where m: "bm_calls m = (k, c) # calls" using assms by (cases "bm_calls m") auto
  have "leg_of_request [] source c \<noteq> None"
    by (auto simp: leg_of_request_def ends_with_empty Let_def split: option.splits)
  then show ?thesis by (auto simp: find_by_any_call_id_with_source_def m split: option.splits)
qed

text \<open>
  The ACK for an answer that is hung up at once carries the number of the leg's counter, which stands
  at 1 after \<^verbatim>\<open>attach_outbound\<close> and is not the CSeq of the INVITE that was answered.
\<close>

lemma immediate_ack_misnumbered:
  assumes "hm_get (bm_calls m) u = Some c" "bc_outbound c = Some l"
    and "dialog_info_toward_callee ip port c = Some d" "bc_callee_dest c = Some dest"
  shows "ack_for_answered_callee rnd u ip port m =
    Some (build_ack_for_2xx rnd d (cl_cseq l), dest, bc_callee_transport c, bc_callee_reply_tx c)"
  using assms by (auto simp: ack_for_answered_callee_def to_callee_def dialog_info_toward_callee_def bind_eq_Some_conv
      split: option.splits)

text \<open>The remembered dialogs stay within their bound.\<close>

lemma recent_bounded:
  "length (bm_recent_terminated (remember_terminated now cid ocid a m)) \<le> 256"
  by (simp add: remember_terminated_def Let_def)

end
