(* ===== verification/Cdr_Store.thy ===== *)
theory Cdr_Store
  imports Net "HOL-Library.Product_Lexorder"
begin

text \<open>
  Call detail records: \<^verbatim>\<open>crates/sbc-core/src/storage.rs\<close> (the record, the memory and file
  backends, the manager), \<^verbatim>\<open>crates/sbc-core/src/cdr_writer.rs\<close> (the writer behind the queue) and
  \<^verbatim>\<open>crates/sbc-storage/src/cdr.rs\<close> (the table of the store). The table is the list of its rows with
  the two unique constraints of migration 0003; whether a transaction goes through is an input. The
  JSON form of a record is the parameter \<open>to_json\<close>, its reader \<open>from_json\<close>.
\<close>

section \<open>Records\<close>

record cdr_record =
  cd_id :: string
  cd_call_id :: string
  cd_caller :: string
  cd_callee :: string
  cd_trunk_id :: "string option"
  cd_duration_secs :: nat
  cd_codec :: "string option"
  cd_is_webrtc :: bool
  cd_disconnect_reason :: string
  cd_started_at :: nat
  cd_ended_at :: nat
  cd_v :: nat
  cd_uuid :: string
  cd_direction :: string
  cd_sip_code :: "nat option"
  cd_answered_at :: "nat option"
  cd_billable_secs :: nat
  cd_source_ip :: string
  cd_reason :: "string option"
  cd_hangup_by :: string
  cd_rtp_tx_caller :: nat
  cd_rtp_tx_callee :: nat
  cd_media_flags :: string

definition legacy_version :: nat where "legacy_version = 1"

definition CDR_SCHEMA_VERSION :: nat where "CDR_SCHEMA_VERSION = 3"

text \<open>Wall-clock readings count nanoseconds from the epoch.\<close>

definition unix_secs :: "instant \<Rightarrow> nat" where "unix_secs t = as_secs t"

text \<open>\<open>id\<close> is the fresh UUID, \<open>wall\<close> the reading of the clock.\<close>

definition cdr_new :: "string \<Rightarrow> instant \<Rightarrow> string \<Rightarrow> string \<Rightarrow> string \<Rightarrow> cdr_record" where
  "cdr_new uid wall call_id caller callee =
     \<lparr>cd_id = uid, cd_call_id = call_id, cd_caller = caller, cd_callee = callee, cd_trunk_id = None,
      cd_duration_secs = 0, cd_codec = None, cd_is_webrtc = False, cd_disconnect_reason = ''normal'',
      cd_started_at = unix_secs wall, cd_ended_at = unix_secs wall, cd_v = CDR_SCHEMA_VERSION, cd_uuid = [],
      cd_direction = [], cd_sip_code = None, cd_answered_at = None, cd_billable_secs = 0,
      cd_source_ip = [], cd_reason = None, cd_hangup_by = [], cd_rtp_tx_caller = 0,
      cd_rtp_tx_callee = 0, cd_media_flags = []\<rparr>"

definition with_window :: "instant \<Rightarrow> instant option \<Rightarrow> instant \<Rightarrow> cdr_record \<Rightarrow> cdr_record" where
  "with_window started answered ended r =
     (let started_s = unix_secs started;
          ended_s = max (unix_secs ended) started_s;
          answered_s = map_option unix_secs answered
      in r\<lparr>cd_started_at := started_s, cd_ended_at := ended_s, cd_duration_secs := ended_s - started_s,
           cd_answered_at := answered_s,
           cd_billable_secs := (case answered_s of None \<Rightarrow> 0 | Some a \<Rightarrow> ended_s - a)\<rparr>)"

definition with_duration :: "nat \<Rightarrow> cdr_record \<Rightarrow> cdr_record" where
  "with_duration n r = r\<lparr>cd_duration_secs := n, cd_ended_at := cd_started_at r + n\<rparr>"

definition with_codec :: "string \<Rightarrow> cdr_record \<Rightarrow> cdr_record" where
  "with_codec codec r = r\<lparr>cd_codec := Some codec\<rparr>"

definition with_webrtc :: "bool \<Rightarrow> cdr_record \<Rightarrow> cdr_record" where
  "with_webrtc webrtc r = r\<lparr>cd_is_webrtc := webrtc\<rparr>"

definition with_disconnect_reason :: "string \<Rightarrow> cdr_record \<Rightarrow> cdr_record" where
  "with_disconnect_reason reason r = r\<lparr>cd_disconnect_reason := reason\<rparr>"

section \<open>Rows\<close>

record cdr_row =
  cr_rowid :: int
  cr_id :: string
  cr_v :: int
  cr_uuid :: string
  cr_call_id :: string
  cr_direction :: string
  cr_caller :: string
  cr_callee :: string
  cr_source_ip :: string
  cr_trunk_id :: "string option"
  cr_codec :: "string option"
  cr_is_webrtc :: bool
  cr_started_at :: int
  cr_answered_at :: "int option"
  cr_ended_at :: int
  cr_duration_secs :: int
  cr_billable_secs :: int
  cr_sip_code :: "int option"
  cr_disconnect_reason :: string
  cr_reason :: "string option"
  cr_hangup_by :: string
  cr_rtp_tx_caller :: int
  cr_rtp_tx_callee :: int
  cr_media_flags :: string

text \<open>\<^verbatim>\<open>as i64\<close> of a \<^verbatim>\<open>u64\<close>, and \<^verbatim>\<open>.max(0) as u64\<close> back.\<close>

definition as_i64 :: "nat \<Rightarrow> int" where
  "as_i64 n = (if n < 2 ^ 63 then int n else int n - 2 ^ 64)"

definition row_count :: "int \<Rightarrow> nat" where "row_count i = nat (max i 0)"

definition to_row :: "cdr_record \<Rightarrow> cdr_row" where
  "to_row r =
     \<lparr>cr_rowid = 0, cr_id = cd_id r, cr_v = int (cd_v r), cr_uuid = cd_uuid r, cr_call_id = cd_call_id r,
      cr_direction = cd_direction r, cr_caller = cd_caller r, cr_callee = cd_callee r,
      cr_source_ip = cd_source_ip r, cr_trunk_id = cd_trunk_id r, cr_codec = cd_codec r,
      cr_is_webrtc = cd_is_webrtc r, cr_started_at = as_i64 (cd_started_at r),
      cr_answered_at = map_option as_i64 (cd_answered_at r), cr_ended_at = as_i64 (cd_ended_at r),
      cr_duration_secs = as_i64 (cd_duration_secs r), cr_billable_secs = as_i64 (cd_billable_secs r),
      cr_sip_code = map_option int (cd_sip_code r), cr_disconnect_reason = cd_disconnect_reason r,
      cr_reason = cd_reason r, cr_hangup_by = cd_hangup_by r, cr_rtp_tx_caller = as_i64 (cd_rtp_tx_caller r),
      cr_rtp_tx_callee = as_i64 (cd_rtp_tx_callee r), cr_media_flags = cd_media_flags r\<rparr>"

definition from_row :: "cdr_row \<Rightarrow> cdr_record" where
  "from_row r =
     \<lparr>cd_id = cr_id r, cd_call_id = cr_call_id r, cd_caller = cr_caller r, cd_callee = cr_callee r,
      cd_trunk_id = cr_trunk_id r, cd_duration_secs = row_count (cr_duration_secs r), cd_codec = cr_codec r,
      cd_is_webrtc = cr_is_webrtc r, cd_disconnect_reason = cr_disconnect_reason r,
      cd_started_at = row_count (cr_started_at r), cd_ended_at = row_count (cr_ended_at r),
      cd_v = (if 0 \<le> cr_v r \<and> cr_v r \<le> 255 then nat (cr_v r) else CDR_SCHEMA_VERSION),
      cd_uuid = cr_uuid r, cd_direction = cr_direction r,
      cd_sip_code = Option.bind (cr_sip_code r) (\<lambda>c. if 0 \<le> c \<and> c \<le> int u16_max then Some (nat c) else None),
      cd_answered_at = map_option row_count (cr_answered_at r), cd_billable_secs = row_count (cr_billable_secs r),
      cd_source_ip = cr_source_ip r, cd_reason = cr_reason r, cd_hangup_by = cr_hangup_by r,
      cd_rtp_tx_caller = row_count (cr_rtp_tx_caller r), cd_rtp_tx_callee = row_count (cr_rtp_tx_callee r),
      cd_media_flags = cr_media_flags r\<rparr>"

section \<open>The table of the store\<close>

text \<open>
  \<^verbatim>\<open>INSERT OR IGNORE\<close>: the primary key is the id, and a non-empty uuid is unique. A new row gets the
  row id after the largest.
\<close>

definition row_clash :: "cdr_row \<Rightarrow> cdr_row \<Rightarrow> bool" where
  "row_clash r x \<longleftrightarrow> cr_id x = cr_id r \<or> cr_uuid r \<noteq> [] \<and> cr_uuid x = cr_uuid r"

definition next_rowid :: "cdr_row list \<Rightarrow> int" where
  "next_rowid t = (if t = [] then 1 else Max (cr_rowid ` set t) + 1)"

definition insert_row :: "cdr_row \<Rightarrow> cdr_row list \<Rightarrow> nat \<times> cdr_row list" where
  "insert_row r t = (if list_ex (row_clash r) t then (0, t) else (1, t @ [r\<lparr>cr_rowid := next_rowid t\<rparr>]))"

primrec insert_rows_on :: "cdr_row list \<Rightarrow> cdr_row list \<Rightarrow> nat \<times> cdr_row list" where
  "insert_rows_on [] t = (0, t)"
| "insert_rows_on (r # rs) t =
     (let (n, t1) = insert_row r t; (k, t2) = insert_rows_on rs t1 in (n + k, t2))"

text \<open>\<open>ok\<close>: every statement and the commit succeed. Otherwise the transaction leaves nothing.\<close>

definition insert_cdrs :: "bool \<Rightarrow> cdr_row list \<Rightarrow> cdr_row list \<Rightarrow> nat option \<times> cdr_row list" where
  "insert_cdrs ok rows t =
     (if rows = [] then (Some 0, t)
      else if ok then map_prod Some id (insert_rows_on rows t) else (None, t))"

definition import_cdr_chunk :: "bool \<Rightarrow> cdr_row list \<Rightarrow> cdr_row list \<Rightarrow> nat option \<times> cdr_row list" where
  "import_cdr_chunk ok rows t = (if ok then map_prod Some id (insert_rows_on rows t) else (None, t))"

definition purge_cdrs_started_before :: "int \<Rightarrow> nat \<Rightarrow> cdr_row list \<Rightarrow> nat \<times> cdr_row list" where
  "purge_cdrs_started_before cutoff batch t =
     (let gone = take batch (filter (\<lambda>r. cr_started_at r < cutoff) t)
      in (length gone, filter (\<lambda>r. r \<notin> set gone) t))"

definition count_cdrs :: "cdr_row list \<Rightarrow> nat" where "count_cdrs t = length t"

text \<open>A text column is compared byte by byte; here its characters are ASCII.\<close>

definition codes :: "string \<Rightarrow> nat list" where "codes s = map of_char s"

definition prefix_upper :: "nat list \<Rightarrow> nat list option" where
  "prefix_upper prefix =
     (case rev prefix of
        [] \<Rightarrow> None
      | l # r \<Rightarrow>
          if l + 1 < 0xD800 \<or> 0xDFFF < l + 1 \<and> l + 1 \<le> 0x10FFFF then Some (rev ((l + 1) # r)) else None)"

fun text_less :: "nat list \<Rightarrow> nat list \<Rightarrow> bool" where
  "text_less _ [] = False"
| "text_less [] (y # ys) = True"
| "text_less (x # xs) (y # ys) = (x < y \<or> x = y \<and> text_less xs ys)"

definition in_prefix_range :: "string \<Rightarrow> string \<Rightarrow> bool" where
  "in_prefix_range p s \<longleftrightarrow> \<not> text_less (codes s) (codes p) \<and>
     (case prefix_upper (codes p) of None \<Rightarrow> True | Some hi \<Rightarrow> text_less (codes s) hi)"

record cdr_filter =
  cf_from :: "int option"
  cf_to :: "int option"
  cf_direction :: "string option"
  cf_trunk :: "string option"
  cf_caller_prefix :: "string option"
  cf_callee_prefix :: "string option"
  cf_sip_code :: "int option"
  cf_answered :: "bool option"
  cf_uuid :: "string option"
  cf_call_id :: "string option"
  cf_before :: "(int \<times> int) option"
  cf_offset :: nat
  cf_limit :: nat

definition asked :: "'a option \<Rightarrow> ('a \<Rightarrow> bool) \<Rightarrow> bool" where
  "asked x P = (case x of None \<Rightarrow> True | Some a \<Rightarrow> P a)"

definition row_matches :: "cdr_filter \<Rightarrow> cdr_row \<Rightarrow> bool" where
  "row_matches f r \<longleftrightarrow>
     asked (cf_from f) (\<lambda>t. t \<le> cr_started_at r) \<and>
     asked (cf_to f) (\<lambda>t. cr_started_at r < t) \<and>
     asked (cf_direction f) (\<lambda>d. cr_direction r = d) \<and>
     asked (cf_trunk f) (\<lambda>t. cr_trunk_id r = Some t) \<and>
     asked (cf_uuid f) (\<lambda>u. cr_uuid r \<noteq> [] \<and> cr_uuid r = u) \<and>
     asked (cf_call_id f) (\<lambda>c. cr_call_id r = c) \<and>
     asked (cf_caller_prefix f) (\<lambda>p. p = [] \<or> in_prefix_range p (cr_caller r)) \<and>
     asked (cf_callee_prefix f) (\<lambda>p. p = [] \<or> in_prefix_range p (cr_callee r)) \<and>
     asked (cf_sip_code f) (\<lambda>c. cr_sip_code r = Some c) \<and>
     asked (cf_answered f) (\<lambda>b. b = (cr_answered_at r \<noteq> None))"

definition row_key :: "cdr_row \<Rightarrow> int \<times> int" where
  "row_key r = (cr_started_at r, cr_rowid r)"

definition query_cdrs :: "cdr_filter \<Rightarrow> cdr_row list \<Rightarrow> cdr_row list \<times> bool" where
  "query_cdrs f t =
     (let hits = filter (\<lambda>r. row_matches f r \<and>
            asked (cf_before f) (\<lambda>(started, rowid).
              cr_started_at r < started \<or> cr_started_at r = started \<and> cr_rowid r < rowid)) t;
          limit = max (cf_limit f) 1;
          rows = take (limit + 1) (drop (cf_offset f) (rev (sort_key row_key hits)))
      in (take limit rows, limit < length rows))"


section \<open>Memory and file backends\<close>

definition MAX_CACHED_CDRS :: nat where "MAX_CACHED_CDRS = 10000"

record cdr_cache =
  cc_records :: "cdr_record list"
  cc_insert_count :: nat
  cc_error_count :: nat

definition cdr_cache_new :: cdr_cache where
  "cdr_cache_new = \<lparr>cc_records = [], cc_insert_count = 0, cc_error_count = 0\<rparr>"

definition note_error :: "cdr_cache \<Rightarrow> cdr_cache" where
  "note_error c = c\<lparr>cc_error_count := incr64 (cc_error_count c)\<rparr>"

definition keep_last :: "nat \<Rightarrow> 'a \<Rightarrow> 'a list \<Rightarrow> 'a list" where
  "keep_last bound x xs = (if bound \<le> length xs then tl xs else xs) @ [x]"

definition insert_cdr :: "cdr_record \<Rightarrow> cdr_cache \<Rightarrow> cdr_cache" where
  "insert_cdr r c =
     c\<lparr>cc_records := keep_last MAX_CACHED_CDRS r (cc_records c), cc_insert_count := incr64 (cc_insert_count c)\<rparr>"

definition get_cdr :: "string \<Rightarrow> cdr_cache \<Rightarrow> cdr_record option" where
  "get_cdr call_id c = find (\<lambda>r. cd_call_id r = call_id) (cc_records c)"

definition list_recent_cdrs :: "nat \<Rightarrow> cdr_cache \<Rightarrow> cdr_record list" where
  "list_recent_cdrs limit c = drop (length (cc_records c) - limit) (cc_records c)"

record storage_stats =
  st_total_cdrs :: nat
  st_total_inserts :: nat
  st_total_errors :: nat
  st_backend :: string

definition cache_stats :: "cdr_cache \<Rightarrow> storage_stats" where
  "cache_stats c =
     \<lparr>st_total_cdrs = length (cc_records c), st_total_inserts = cc_insert_count c,
      st_total_errors = cc_error_count c, st_backend = ''memory''\<rparr>"

text \<open>How far an append to a file gets.\<close>

datatype file_io = CannotOpen | CannotWrite | CannotFlush | Appended

record cdr_file =
  fl_lines :: "string list"
  fl_cache :: cdr_cache

definition file_insert_cdr ::
  "(cdr_record \<Rightarrow> string) \<Rightarrow> file_io \<Rightarrow> cdr_record \<Rightarrow> cdr_file \<Rightarrow> unit result \<times> cdr_file"
where
  "file_insert_cdr to_json io r f =
     (let line = to_json r; failed = f\<lparr>fl_cache := note_error (fl_cache f)\<rparr> in
      case io of
        CannotOpen \<Rightarrow> (Inl (TransportErr ''CDR file open''), failed)
      | CannotWrite \<Rightarrow> (Inl (TransportErr ''CDR file write''), failed)
      | CannotFlush \<Rightarrow> (Inl (TransportErr ''CDR file write''), failed\<lparr>fl_lines := fl_lines f @ [line]\<rparr>)
      | Appended \<Rightarrow>
          (Inr (), f\<lparr>fl_lines := fl_lines f @ [line], fl_cache := insert_cdr r (fl_cache f)\<rparr>))"

text \<open>Reading a line back: the JSON reader, then the substring reader for damaged old lines.\<close>

definition json_str :: "string \<Rightarrow> string \<Rightarrow> string option" where
  "json_str json key =
     (let search = [CHR 0x22] @ key @ [CHR 0x22, CHR '':'', CHR 0x22] in
      case find_str search json of
        None \<Rightarrow> None
      | Some p \<Rightarrow>
          (let rest = drop (p + length search) json
           in map_option (\<lambda>e. take e rest) (find_str [CHR 0x22] rest)))"

definition json_u64 :: "string \<Rightarrow> string \<Rightarrow> nat" where
  "json_u64 json key =
     (let search = [CHR 0x22] @ key @ [CHR 0x22, CHR '':''] in
      case find_str search json of
        None \<Rightarrow> 0
      | Some p \<Rightarrow>
          (case parse_uint u64_max (takeWhile is_ascii_digit (trim (drop (p + length search) json))) of
             None \<Rightarrow> 0 | Some n \<Rightarrow> n))"

definition json_bool :: "string \<Rightarrow> string \<Rightarrow> bool" where
  "json_bool json key = contains json ([CHR 0x22] @ key @ [CHR 0x22] @ '':true'')"

definition or_else :: "'a option \<Rightarrow> 'a \<Rightarrow> 'a" where
  "or_else x d = (case x of None \<Rightarrow> d | Some a \<Rightarrow> a)"

definition parse_cdr_json_legacy :: "string \<Rightarrow> string \<Rightarrow> cdr_record option" where
  "parse_cdr_json_legacy uid json =
     map_option (\<lambda>call_id.
       \<lparr>cd_id = or_else (json_str json ''id'') uid, cd_call_id = call_id,
        cd_caller = or_else (json_str json ''caller'') [], cd_callee = or_else (json_str json ''callee'') [],
        cd_trunk_id = json_str json ''trunk_id'', cd_duration_secs = json_u64 json ''duration_secs'',
        cd_codec = json_str json ''codec'', cd_is_webrtc = json_bool json ''is_webrtc'',
        cd_disconnect_reason = or_else (json_str json ''disconnect_reason'') ''unknown'',
        cd_started_at = json_u64 json ''started_at'', cd_ended_at = json_u64 json ''ended_at'', cd_v = 1,
        cd_uuid = [], cd_direction = [], cd_sip_code = None, cd_answered_at = None, cd_billable_secs = 0,
        cd_source_ip = [], cd_reason = None, cd_hangup_by = [],
        cd_rtp_tx_caller = json_u64 json ''rtp_tx_caller'', cd_rtp_tx_callee = json_u64 json ''rtp_tx_callee'',
        cd_media_flags = or_else (json_str json ''media_flags'') []\<rparr>)
     (json_str json ''call_id'')"

definition parse_cdr_json :: "(string \<Rightarrow> cdr_record option) \<Rightarrow> string \<Rightarrow> string \<Rightarrow> cdr_record option" where
  "parse_cdr_json from_json uid json =
     (case from_json json of Some r \<Rightarrow> Some r | None \<Rightarrow> parse_cdr_json_legacy uid json)"

text \<open>Opening an existing file: its last records are the cache.\<close>

definition load_line ::
  "(string \<Rightarrow> cdr_record option) \<Rightarrow> string \<Rightarrow> string \<Rightarrow> cdr_record list \<Rightarrow> cdr_record list"
where
  "load_line from_json uid raw tail =
     (let line = trim raw in
      if line = [] \<or> \<not> starts_with line ''{'' then tail
      else case parse_cdr_json from_json uid line of
             None \<Rightarrow> tail
           | Some r \<Rightarrow> keep_last MAX_CACHED_CDRS r tail)"

definition cdr_file_open :: "(string \<Rightarrow> cdr_record option) \<Rightarrow> string \<Rightarrow> string list \<Rightarrow> cdr_file" where
  "cdr_file_open from_json uid content =
     \<lparr>fl_lines = content, fl_cache = cdr_cache_new\<lparr>cc_records := fold (load_line from_json uid) content []\<rparr>\<rparr>"

section \<open>The manager and its writer\<close>

definition CDR_QUEUE_CAPACITY :: nat where "CDR_QUEUE_CAPACITY = 8192"
definition BATCH_MAX :: nat where "BATCH_MAX = 64"
definition RETRY_MIN :: duration where "RETRY_MIN = secs 1"
definition RETRY_MAX :: duration where "RETRY_MAX = secs 30"
definition PURGE_BATCH :: nat where "PURGE_BATCH = 5000"
definition IMPORT_CHUNK :: nat where "IMPORT_CHUNK = 500"

datatype cdr_insert = Queued | Stored | CacheOnly

datatype cdr_msg = RecordMsg cdr_record | FlushMsg nat

record cdr_metrics =
  cx_write_errors :: "(string, nat) hmap"
  cx_queue_length :: nat
  cx_written_total :: nat
  cx_purged_total :: nat
  cx_last_written :: nat

text \<open>
  Store mode: the queue to the writer (open until \<^verbatim>\<open>close\<close>), the counter of queued records, the table
  and the JSONL mirror. A flush is a number, acknowledged when it is in \<open>cs_acked\<close>.
\<close>

record cdr_store =
  cs_cache :: cdr_cache
  cs_queue :: "cdr_msg list"
  cs_open :: bool
  cs_queue_len :: nat
  cs_table :: "cdr_row list"
  cs_mirror :: "string list option"
  cs_stopping :: bool
  cs_acked :: "nat list"
  cs_metrics :: cdr_metrics

definition add_cdr_write_errors :: "string \<Rightarrow> nat \<Rightarrow> cdr_metrics \<Rightarrow> cdr_metrics" where
  "add_cdr_write_errors stage n m =
     m\<lparr>cx_write_errors := hm_insert stage (or_else (hm_get (cx_write_errors m) stage) 0 + n) (cx_write_errors m)\<rparr>"

definition inc_cdr_write_error :: "string \<Rightarrow> cdr_metrics \<Rightarrow> cdr_metrics" where
  "inc_cdr_write_error stage = add_cdr_write_errors stage 1"

definition on_cdr_metrics :: "(cdr_metrics \<Rightarrow> cdr_metrics) \<Rightarrow> cdr_store \<Rightarrow> cdr_store" where
  "on_cdr_metrics f s = s\<lparr>cs_metrics := f (cs_metrics s)\<rparr>"

definition store_insert :: "cdr_record \<Rightarrow> cdr_store \<Rightarrow> cdr_insert \<times> cdr_store" where
  "store_insert r s =
     (let s1 = s\<lparr>cs_cache := insert_cdr r (cs_cache s)\<rparr> in
      if cs_open s \<and> length (cs_queue s) < CDR_QUEUE_CAPACITY
      then (Queued,
            on_cdr_metrics (\<lambda>m. m\<lparr>cx_queue_length := cs_queue_len s + 1\<rparr>)
              (s1\<lparr>cs_queue := cs_queue s @ [RecordMsg r], cs_queue_len := cs_queue_len s + 1\<rparr>))
      else (CacheOnly, on_cdr_metrics (inc_cdr_write_error ''queue'') s1))"

text \<open>
  The manager. Without a store the record goes to the backend at once (for a file, \<open>io\<close> is what
  becomes of the append); with one it goes to the queue, or to the cache once the queue is closed.
\<close>

datatype cdr_manager = MemoryOnly cdr_cache | FileBacked cdr_file | WithStore cdr_store

definition cdr_manager_insert ::
  "(cdr_record \<Rightarrow> string) \<Rightarrow> file_io \<Rightarrow> cdr_record \<Rightarrow> cdr_manager \<Rightarrow> cdr_insert result \<times> cdr_manager"
where
  "cdr_manager_insert to_json io r m =
     (case m of
        MemoryOnly c \<Rightarrow> (Inr Stored, MemoryOnly (insert_cdr r c))
      | FileBacked f \<Rightarrow> map_prod (map_sum id (\<lambda>_. Stored)) FileBacked (file_insert_cdr to_json io r f)
      | WithStore s \<Rightarrow>
          if cs_open s then map_prod Inr WithStore (store_insert r s)
          else (Inr Stored, WithStore (s\<lparr>cs_cache := insert_cdr r (cs_cache s)\<rparr>)))"

definition has_store :: "cdr_manager \<Rightarrow> bool" where
  "has_store m = (case m of WithStore _ \<Rightarrow> True | _ \<Rightarrow> False)"

text \<open>The writer empties the queue into a batch; flushes met on the way are acknowledged after it.\<close>

fun take_batch :: "cdr_record list \<Rightarrow> nat list \<Rightarrow> cdr_msg list \<Rightarrow> cdr_record list \<times> nat list \<times> cdr_msg list" where
  "take_batch batch flushes [] = (batch, flushes, [])"
| "take_batch batch flushes (RecordMsg r # q) =
     (if length batch < BATCH_MAX then take_batch (batch @ [r]) flushes q else (batch, flushes, RecordMsg r # q))"
| "take_batch batch flushes (FlushMsg f # q) =
     (if length batch < BATCH_MAX then take_batch batch (flushes @ [f]) q else (batch, flushes, FlushMsg f # q))"

text \<open>
  The commit with its retries. \<open>tries\<close> is what each attempt meets: whether the store takes it, and
  else whether the shutdown has begun. \<open>None\<close>: after all of them the writer is still retrying. The
  waits slept through are returned too.
\<close>

fun commit_loop ::
  "nat \<Rightarrow> (bool \<times> bool) list \<Rightarrow> cdr_row list \<Rightarrow> duration \<Rightarrow> cdr_store \<Rightarrow> (duration list \<times> cdr_store) option"
where
  "commit_loop wall [] rows wait s = None"
| "commit_loop wall ((ok, stopping) # tries) rows wait s =
     (case insert_cdrs ok rows (cs_table s) of
        (Some n, t) \<Rightarrow>
          Some ([], on_cdr_metrics (\<lambda>m.
            (if n < length rows then add_cdr_write_errors ''duplicate'' (length rows - n) m else m)
              \<lparr>cx_last_written := unix_secs wall, cx_written_total := cx_written_total m + n\<rparr>) (s\<lparr>cs_table := t\<rparr>))
      | (None, _) \<Rightarrow>
          (let s1 = on_cdr_metrics (inc_cdr_write_error ''sqlite'') s in
           if stopping then Some ([], s1)
           else map_option (\<lambda>(waits, s2). (wait # waits, s2))
                  (commit_loop wall tries rows (min (wait * 2) RETRY_MAX) s1)))"

definition write_batch ::
  "(cdr_record \<Rightarrow> string) \<Rightarrow> bool \<Rightarrow> nat \<Rightarrow> (bool \<times> bool) list \<Rightarrow> cdr_record list \<Rightarrow> cdr_store \<Rightarrow>
   (duration list \<times> cdr_store) option"
where
  "write_batch to_json mirror_ok wall tries batch s =
     (let s1 = (case cs_mirror s of
                  None \<Rightarrow> s
                | Some ls \<Rightarrow>
                    if mirror_ok then s\<lparr>cs_mirror := Some (ls @ map to_json batch)\<rparr>
                    else on_cdr_metrics (inc_cdr_write_error ''jsonl'') s)
      in map_option (\<lambda>(waits, s2).
           let left = cs_queue_len s2 - length batch
           in (waits, on_cdr_metrics (\<lambda>m. m\<lparr>cx_queue_length := left\<rparr>) (s2\<lparr>cs_queue_len := left\<rparr>)))
         (commit_loop wall tries (map to_row batch) RETRY_MIN s1))"

definition writer_step ::
  "(cdr_record \<Rightarrow> string) \<Rightarrow> bool \<Rightarrow> nat \<Rightarrow> (bool \<times> bool) list \<Rightarrow> cdr_store \<Rightarrow> cdr_store option"
where
  "writer_step to_json mirror_ok wall tries s =
     (case cs_queue s of
        [] \<Rightarrow> Some s
      | FlushMsg f # q \<Rightarrow> Some (s\<lparr>cs_queue := q, cs_acked := cs_acked s @ [f]\<rparr>)
      | RecordMsg r # q \<Rightarrow>
          (let (batch, flushes, rest) = take_batch [r] [] q
           in map_option (\<lambda>(_, s2). s2\<lparr>cs_acked := cs_acked s2 @ flushes\<rparr>)
                (write_batch to_json mirror_ok wall tries batch (s\<lparr>cs_queue := rest\<rparr>))))"

definition flush :: "nat \<Rightarrow> cdr_store \<Rightarrow> cdr_store" where
  "flush f s = (if cs_open s \<and> length (cs_queue s) < CDR_QUEUE_CAPACITY then s\<lparr>cs_queue := cs_queue s @ [FlushMsg f]\<rparr> else s)"

definition close_store :: "cdr_store \<Rightarrow> cdr_store" where
  "close_store s = s\<lparr>cs_stopping := True, cs_open := False\<rparr>"

lemma purge_shrinks:
  assumes "purge_cdrs_started_before cutoff batch t = (n, t1)" "n \<noteq> 0"
  shows "length t1 < length t"
proof -
  let ?gone = "take batch (filter (\<lambda>r. cr_started_at r < cutoff) t)"
  have t1: "t1 = filter (\<lambda>r. r \<notin> set ?gone) t" and "?gone \<noteq> []"
    using assms by (auto simp: purge_cdrs_started_before_def Let_def)
  then obtain r where r: "r \<in> set ?gone" by (meson ex_in_conv set_empty)
  then have "r \<in> set t" by (meson filter_is_subset in_set_takeD subsetD)
  with r show ?thesis unfolding t1 by (auto intro!: length_filter_less)
qed

text \<open>Retention: batches are deleted until one deletes nothing.\<close>

function purge_once :: "int \<Rightarrow> cdr_row list \<Rightarrow> nat \<times> cdr_row list" where
  "purge_once cutoff t =
     (let (n, t1) = purge_cdrs_started_before cutoff PURGE_BATCH t
      in if n = 0 then (0, t1) else (let (k, t2) = purge_once cutoff t1 in (n + k, t2)))"
  by pat_completeness auto
termination by (relation "measure (length \<circ> snd)") (auto dest: purge_shrinks [OF sym])

declare purge_once.simps [simp del]

definition retention_cutoff :: "nat \<Rightarrow> int \<Rightarrow> int" where
  "retention_cutoff retention_days now = now - int retention_days * 86400"

text \<open>The id of an imported line (FNV-1a over its bytes).\<close>

definition fnv_step :: "char \<Rightarrow> nat \<Rightarrow> nat" where
  "fnv_step b h = (xor h (of_char b) * 0x100000001b3) mod 2 ^ 64"

definition legacy_row_id :: "string \<Rightarrow> string \<Rightarrow> string" where
  "legacy_row_id original line =
     (let digits = show_hex (fold fnv_step line 0xcbf29ce484222325);
          h = replicate (16 - length digits) CHR ''0'' @ digits
      in if original = [] then ''jsonl-'' @ h else original @ ''-'' @ h)"

text \<open>One file of the one-time import: its lines in chunks; \<open>oks\<close> is what each commit meets.\<close>

record cdr_import =
  im_table :: "cdr_row list"
  im_chunk :: "cdr_row list"
  im_parsed :: nat
  im_stored :: nat
  im_skipped :: nat
  im_oks :: "bool list"

definition commit_import_chunk :: "cdr_import \<Rightarrow> cdr_import" where
  "commit_import_chunk i =
     (if im_chunk i = [] then i
      else case import_cdr_chunk (im_oks i \<noteq> [] \<and> hd (im_oks i)) (im_chunk i) (im_table i) of
             (Some n, t) \<Rightarrow> i\<lparr>im_table := t, im_chunk := [], im_stored := im_stored i + n, im_oks := tl (im_oks i)\<rparr>
           | (None, _) \<Rightarrow> i\<lparr>im_chunk := [], im_oks := tl (im_oks i)\<rparr>)"

definition import_line :: "(string \<Rightarrow> cdr_record option) \<Rightarrow> string \<Rightarrow> string \<Rightarrow> cdr_import \<Rightarrow> cdr_import" where
  "import_line from_json uid line i =
     (if trim line = [] then i
      else
        let i1 = (case parse_cdr_json from_json uid line of
                    Some r \<Rightarrow>
                      (let row = to_row r in
                       i\<lparr>im_chunk := im_chunk i @ [row\<lparr>cr_id := legacy_row_id (cr_id row) line\<rparr>],
                         im_parsed := im_parsed i + 1\<rparr>)
                  | None \<Rightarrow> i\<lparr>im_skipped := im_skipped i + 1\<rparr>)
        in if IMPORT_CHUNK \<le> length (im_chunk i1) then commit_import_chunk i1 else i1)"

text \<open>The files in their order; the marker of the settings tells that the import was done.\<close>

definition import_jsonl_once ::
  "(string \<Rightarrow> cdr_record option) \<Rightarrow> string \<Rightarrow> bool list \<Rightarrow> string list list \<Rightarrow> bool \<times> cdr_row list \<Rightarrow> bool \<times> cdr_row list"
where
  "import_jsonl_once from_json uid oks files st =
     (case st of (marker, t) \<Rightarrow>
        if marker \<or> files = [] then (marker, t)
        else
          let i = fold (fold (import_line from_json uid)) files
                    \<lparr>im_table = t, im_chunk = [], im_parsed = 0, im_stored = 0, im_skipped = 0, im_oks = oks\<rparr>;
              i' = commit_import_chunk i
          in (im_oks i' \<noteq> [] \<and> hd (im_oks i'), im_table i'))"


section \<open>Rows and records\<close>

definition stored_whole :: "cdr_record \<Rightarrow> bool" where
  "stored_whole r \<longleftrightarrow>
     list_all (\<lambda>n. n < 2 ^ 63) [cd_duration_secs r, cd_started_at r, cd_ended_at r, cd_billable_secs r,
       cd_rtp_tx_caller r, cd_rtp_tx_callee r, case cd_answered_at r of None \<Rightarrow> 0 | Some a \<Rightarrow> a] \<and>
     cd_v r \<le> 255 \<and> (case cd_sip_code r of None \<Rightarrow> True | Some c \<Rightarrow> c \<le> u16_max)"

lemma row_count_as_i64 [simp]: "n < 2 ^ 63 \<Longrightarrow> row_count (as_i64 n) = n"
  by (simp add: row_count_def as_i64_def)

text \<open>
  A record read back from the store is the record that was written, for every record whose times
  and counters fit a signed 64-bit column.
\<close>

theorem cdr_row_round_trip:
  assumes "stored_whole r"
  shows "from_row ((to_row r)\<lparr>cr_rowid := k\<rparr>) = r"
  using assms
  by (cases r) (auto simp: stored_whole_def from_row_def to_row_def u16_max_def split: option.splits)

theorem cdr_row_round_trip_witness:
  "from_row ((to_row (with_window (secs 10) (Some (secs 12)) (secs 70) (cdr_new ''i'' 0 ''c'' ''a'' ''b'')))\<lparr>cr_rowid := 4\<rparr>)
     = with_window (secs 10) (Some (secs 12)) (secs 70) (cdr_new ''i'' 0 ''c'' ''a'' ''b'')"
proof -
  have "stored_whole (with_window (secs 10) (Some (secs 12)) (secs 70) (cdr_new ''i'' 0 ''c'' ''a'' ''b''))"
    by (simp add: stored_whole_def with_window_def cdr_new_def Let_def unix_secs_def CDR_SCHEMA_VERSION_def)
  then show ?thesis by (rule cdr_row_round_trip)
qed

section \<open>Retention\<close>



section \<open>Searching by prefix\<close>

lemma text_less_irrefl: "\<not> text_less s s"
  by (induction s) auto

lemma text_less_append: "text_less (p @ s) (p @ s') = text_less s s'"
  by (induction p) auto

lemma text_range:
  "\<not> text_less s (p @ [l]) \<and> text_less s (p @ [l + 1]) \<longleftrightarrow> (\<exists>r. s = p @ l # r)"
proof (induction p arbitrary: s)
  case Nil
  then show ?case by (cases s) auto
next
  case (Cons x p)
  show ?case
  proof (cases s)
    case (Cons y s')
    with Cons.IH [of s'] show ?thesis by auto
  qed simp
qed

lemma codes_append_eq: "codes s = codes p @ r \<longleftrightarrow> (\<exists>r'. s = p @ r' \<and> r = codes r')"
  unfolding codes_def
  by (auto simp: append_eq_map_conv map_eq_append_conv)
     (metis inj_map_eq_map [OF inj_of_char] inj_of_char)

text \<open>
  A search by caller or callee prefix, which the query turns into a range of the indexed column, finds
  exactly the rows whose number starts with the prefix.
\<close>

theorem prefix_range_exact:
  assumes "p \<noteq> []"
  shows "in_prefix_range p s \<longleftrightarrow> starts_with s p"
proof -
  obtain q c where p: "p = q @ [c]" using assms by (cases p rule: rev_cases) auto
  have c: "of_char c < (55295 :: nat)" by (rule less_le_trans [OF nat_of_char_less_256]) simp
  have up: "prefix_upper (codes p) = Some (codes q @ [of_char c + 1])"
    using c by (simp add: p prefix_upper_def codes_def)
  have "in_prefix_range p s \<longleftrightarrow> (\<exists>r. codes s = codes q @ of_char c # r)"
    using text_range [of "codes s" "codes q" "of_char c"]
    by (simp add: in_prefix_range_def up) (simp add: p codes_def)
  also have "\<dots> \<longleftrightarrow> (\<exists>r. codes s = codes p @ r)" by (simp add: p codes_def)
  also have "\<dots> \<longleftrightarrow> (\<exists>r. s = p @ r)" by (auto simp: codes_append_eq)
  finally show ?thesis by (simp add: starts_with_iff)
qed

theorem prefix_range_exact_witness:
  "in_prefix_range ''+336'' ''+33612345678'' \<and> \<not> in_prefix_range ''+336'' ''+33712345678''"
  using prefix_range_exact [of "''+336''" "''+33612345678''"] prefix_range_exact [of "''+336''" "''+33712345678''"]
  by (simp add: starts_with_def)


section \<open>Paging\<close>

text \<open>A client that follows the cursor: each page starts below the last row of the one before.\<close>

fun pages :: "nat \<Rightarrow> cdr_filter \<Rightarrow> cdr_row list \<Rightarrow> cdr_row list" where
  "pages 0 f t = []"
| "pages (Suc n) f t =
     (let (rows, more) = query_cdrs f t
      in if more then rows @ pages n (f\<lparr>cf_before := Some (row_key (last rows))\<rparr>) t else rows)"

lemma row_key_less:
  "(cr_started_at r < a \<or> cr_started_at r = a \<and> cr_rowid r < b) \<longleftrightarrow> row_key r < (a, b)"
  by (auto simp: row_key_def less_prod_def)

lemma descending_drop:
  assumes "sorted_wrt (\<lambda>x y. key y < (key x :: 'k :: linorder)) xs" "i < length xs"
  shows "filter (\<lambda>x. key x < key (xs ! i)) xs = drop (Suc i) xs"
proof -
  have le: "key (xs ! i) \<le> key x" if "x \<in> set (take (Suc i) xs)" for x
  proof -
    obtain j where j: "j < Suc i" "x = xs ! j" using \<open>x \<in> _\<close> by (auto simp: in_set_conv_nth)
    then show ?thesis
      using sorted_wrt_nth_less [OF assms(1), of j i] assms(2) by (cases "j = i") auto
  qed
  have gt: "key x < key (xs ! i)" if "x \<in> set (drop (Suc i) xs)" for x
  proof -
    obtain j where j: "j < length xs - Suc i" "x = xs ! (Suc i + j)" using \<open>x \<in> _\<close> by (auto simp: in_set_conv_nth)
    then show ?thesis using sorted_wrt_nth_less [OF assms(1), of i "Suc i + j"] by simp
  qed
  have "filter (\<lambda>x. key x < key (xs ! i)) (take (Suc i) xs @ drop (Suc i) xs) = drop (Suc i) xs"
    unfolding filter_append using le gt by (simp add: filter_empty_conv filter_id_conv leD)
  then show ?thesis by simp
qed

lemma page_of:
  assumes "cf_offset f = 0" and "S = rev (sort_key row_key (filter (row_matches f) t))"
  shows "query_cdrs (f\<lparr>cf_before := b\<rparr>) t =
    (let rest = filter (\<lambda>r. asked b (\<lambda>k. row_key r < k)) S; limit = max (cf_limit f) 1
     in (take limit rest, limit < length rest))"
proof -
  have m: "row_matches (f\<lparr>cf_before := b\<rparr>) = row_matches f" by (simp add: row_matches_def fun_eq_iff)
  have "asked b (\<lambda>(started, rowid). cr_started_at r < started \<or> cr_started_at r = started \<and> cr_rowid r < rowid) =
      asked b (\<lambda>k. row_key r < k)" for r
    by (auto simp: asked_def row_key_less split: option.splits)
  then have "filter (\<lambda>r. row_matches f r \<and> asked b (\<lambda>(started, rowid).
        cr_started_at r < started \<or> cr_started_at r = started \<and> cr_rowid r < rowid)) t =
      filter (\<lambda>r. asked b (\<lambda>k. row_key r < k)) (filter (row_matches f) t)"
    by (simp add: conj_commute)
  moreover have "rev (sort_key row_key (filter P xs)) = filter P (rev (sort_key row_key xs))" for P xs
    by (simp only: filter_sort [symmetric] rev_filter)
  ultimately have "rev (sort_key row_key (filter (\<lambda>r. row_matches f r \<and> asked b (\<lambda>(started, rowid).
        cr_started_at r < started \<or> cr_started_at r = started \<and> cr_rowid r < rowid)) t)) =
      filter (\<lambda>r. asked b (\<lambda>k. row_key r < k)) S"
    using assms(2) by simp
  then show ?thesis
    using assms(1) by (simp add: query_cdrs_def m Let_def del: length_rev length_sort)
qed

text \<open>
  C29: Following the cursor through the records misses none and repeats none: whatever the page size,
  the pages put together are the matching rows, newest first, each once.
\<close>

theorem pages_complete:
  assumes "distinct (map row_key t)" "cf_offset f = 0" "cf_before f = None" "length t < n"
  shows "pages n f t = rev (sort_key row_key (filter (row_matches f) t))"
proof -
  define S where "S = rev (sort_key row_key (filter (row_matches f) t))"
  have "distinct (map row_key (filter (row_matches f) t))" using assms(1) by (simp add: distinct_map_filter)
  then have "sorted_wrt (<) (map row_key (sort_key row_key (filter (row_matches f) t)))"
    by (simp add: strict_sorted_iff distinct_map)
  then have desc: "sorted_wrt (\<lambda>x y. row_key y < row_key x) S"
    by (simp add: S_def sorted_wrt_rev sorted_wrt_map)
  have "pages n (f\<lparr>cf_before := b\<rparr>) t = filter (\<lambda>r. asked b (\<lambda>k. row_key r < k)) S"
    if "length (filter (\<lambda>r. asked b (\<lambda>k. row_key r < k)) S) < n" for b n
    using that
  proof (induction n arbitrary: b)
    case (Suc n)
    let ?rest = "filter (\<lambda>r. asked b (\<lambda>k. row_key r < k)) S"
    define limit where "limit = max (cf_limit f) 1"
    have pos: "0 < limit" by (simp add: limit_def)
    note page = page_of [OF assms(2) S_def, of b, unfolded Let_def limit_def [symmetric]]
    show ?case
    proof (cases "limit < length ?rest")
      case False
      with page show ?thesis by simp
    next
      case True
      let ?k = "row_key (last (take limit ?rest))"
      have lst: "last (take limit ?rest) = ?rest ! (limit - 1)"
        by (subst last_conv_nth) (use True pos in auto)
      have d: "sorted_wrt (\<lambda>x y. row_key y < row_key x) ?rest" using desc by (rule sorted_wrt_filter)
      have "?rest ! (limit - 1) \<in> set ?rest" using True by (intro nth_mem) simp
      then have below: "asked b (\<lambda>k. ?k < k)" by (simp add: lst)
      have "filter (\<lambda>r. row_key r < ?k) S = filter (\<lambda>r. row_key r < ?k) ?rest"
        using below by (auto simp: asked_def intro!: filter_cong split: option.splits dest: less_trans)
      also have "\<dots> = drop limit ?rest" unfolding lst using descending_drop [OF d, of "limit - 1"] True pos by simp
      finally have nxt: "filter (\<lambda>r. asked (Some ?k) (\<lambda>k. row_key r < k)) S = drop limit ?rest"
        by (simp add: asked_def)
      have "pages n (f\<lparr>cf_before := Some ?k\<rparr>) t = drop limit ?rest"
        using Suc.IH [of "Some ?k"] Suc.prems True pos unfolding nxt by simp
      with page True show ?thesis by (simp add: append_take_drop_id)
    qed
  qed simp
  moreover have "length S \<le> length t" by (simp add: S_def)
  moreover have "f\<lparr>cf_before := None\<rparr> = f" using assms(3) by simp
  ultimately show ?thesis
    using assms(4) by (metis S_def asked_def dual_order.strict_trans2 filter_True option.case(1))
qed

definition any_cdr :: cdr_filter where
  "any_cdr = \<lparr>cf_from = None, cf_to = None, cf_direction = None, cf_trunk = None, cf_caller_prefix = None,
     cf_callee_prefix = None, cf_sip_code = None, cf_answered = None, cf_uuid = None, cf_call_id = None,
     cf_before = None, cf_offset = 0, cf_limit = 1\<rparr>"

theorem pages_complete_witness:
  "pages 4 any_cdr (map (\<lambda>(k, n). (to_row (cdr_new n (secs k) n n n))\<lparr>cr_rowid := int k\<rparr>) [(5, ''a''), (9, ''b''), (7, ''c'')]) =
     map (\<lambda>(k, n). (to_row (cdr_new n (secs k) n n n))\<lparr>cr_rowid := int k\<rparr>) [(9, ''b''), (7, ''c''), (5, ''a'')]"
proof -
  let ?t = "map (\<lambda>(k, n). (to_row (cdr_new n (secs k) n n n))\<lparr>cr_rowid := int k\<rparr>) [(5, ''a''), (9, ''b''), (7, ''c'')]"
  have "distinct (map row_key ?t)" by (simp add: row_key_def)
  then show ?thesis
    using pages_complete [of ?t any_cdr 4]
    by (simp add: any_cdr_def row_matches_def asked_def row_key_def to_row_def cdr_new_def unix_secs_def
        as_i64_def sort_key_def less_eq_prod_def less_prod_def)
qed


section \<open>The writer\<close>

definition records_of :: "cdr_msg list \<Rightarrow> cdr_record list" where
  "records_of q = List.map_filter (\<lambda>m. case m of RecordMsg r \<Rightarrow> Some r | FlushMsg _ \<Rightarrow> None) q"

definition flushes_of :: "cdr_msg list \<Rightarrow> nat list" where
  "flushes_of q = List.map_filter (\<lambda>m. case m of FlushMsg f \<Rightarrow> Some f | RecordMsg _ \<Rightarrow> None) q"

lemma msgs_simps [simp]:
  "records_of [] = []" "records_of (RecordMsg r # q) = r # records_of q" "records_of (FlushMsg f # q) = records_of q"
  "flushes_of [] = []" "flushes_of (RecordMsg r # q) = flushes_of q" "flushes_of (FlushMsg f # q) = f # flushes_of q"
  "records_of (q @ q') = records_of q @ records_of q'" "flushes_of (q @ q') = flushes_of q @ flushes_of q'"
  by (simp_all add: records_of_def flushes_of_def map_filter_def)

definition bare :: "cdr_row \<Rightarrow> cdr_row" where "bare r = r\<lparr>cr_rowid := 0\<rparr>"

lemma bare_simps [simp]:
  "bare (to_row c) = to_row c" "bare (r\<lparr>cr_rowid := k\<rparr>) = bare r" "cr_id (bare r) = cr_id r" "cr_uuid (bare r) = cr_uuid r"
  by (simp_all add: bare_def to_row_def)

text \<open>No two rows clash, neither on the id nor on a non-empty uuid.\<close>

definition no_clash :: "cdr_row list \<Rightarrow> bool" where
  "no_clash rows \<longleftrightarrow> sorted_wrt (\<lambda>x r. \<not> row_clash r x) rows"

lemma no_clash_map_bare: "no_clash (map bare rows) = no_clash rows"
  by (simp add: no_clash_def sorted_wrt_map row_clash_def)

lemma no_clash_prefix: "no_clash (xs @ ys) \<Longrightarrow> no_clash xs"
  by (simp add: no_clash_def sorted_wrt_append)

lemma insert_rows_fresh:
  assumes "no_clash (t @ rows)"
  shows "\<exists>t'. insert_rows_on rows t = (length rows, t') \<and> map bare t' = map bare t @ map bare rows"
  using assms
proof (induction rows arbitrary: t)
  case (Cons r rows)
  then have "\<not> list_ex (row_clash r) t" by (auto simp: no_clash_def sorted_wrt_append list_ex_iff)
  then have one: "insert_row r t = (1, t @ [r\<lparr>cr_rowid := next_rowid t\<rparr>])" by (simp add: insert_row_def)
  have "no_clash (map bare ((t @ [r\<lparr>cr_rowid := next_rowid t\<rparr>]) @ rows))"
    using Cons.prems no_clash_map_bare [of "t @ r # rows"] by simp
  then have "no_clash ((t @ [r\<lparr>cr_rowid := next_rowid t\<rparr>]) @ rows)" by (simp only: no_clash_map_bare)
  from Cons.IH [OF this] one show ?case by auto
qed simp

lemma take_batch_prefix:
  "take_batch b fl q = (b', fl', q') \<Longrightarrow> \<exists>done. q = done @ q' \<and> b' = b @ records_of done \<and> fl' = fl @ flushes_of done"
proof (induction b fl q arbitrary: b' fl' q' rule: take_batch.induct)
  case (2 b fl r q)
  show ?case
  proof (cases "length b < BATCH_MAX")
    case True
    with 2 obtain d where "q = d @ q'" "b' = (b @ [r]) @ records_of d" "fl' = fl @ flushes_of d" by fastforce
    then show ?thesis by (intro exI [of _ "RecordMsg r # d"]) simp
  qed (use 2(2) in \<open>simp add: exI [of _ "[]"]\<close>)
next
  case (3 b fl f q)
  show ?case
  proof (cases "length b < BATCH_MAX")
    case True
    with 3 obtain d where "q = d @ q'" "b' = b @ records_of d" "fl' = (fl @ [f]) @ flushes_of d" by fastforce
    then show ?thesis by (intro exI [of _ "FlushMsg f # d"]) simp
  qed (use 3(2) in \<open>simp add: exI [of _ "[]"]\<close>)
qed auto

lemma commit_loop_commits:
  assumes "no_clash (cs_table s @ rows)" "rows \<noteq> []" "list_all (\<lambda>(_, stopping). \<not> stopping) tries"
    and "commit_loop wall tries rows wait s = Some (waits, s')"
  shows "map bare (cs_table s') = map bare (cs_table s) @ map bare rows \<and> cs_queue s' = cs_queue s \<and>
    cs_acked s' = cs_acked s \<and> cs_queue_len s' = cs_queue_len s \<and> cs_open s' = cs_open s \<and> cs_mirror s' = cs_mirror s"
  using assms(3,4,1,2)
proof (induction wall tries rows wait s arbitrary: waits s' rule: commit_loop.induct)
  case (2 wall ok stopping tries rows wait s)
  obtain t' where t': "insert_rows_on rows (cs_table s) = (length rows, t')"
    "map bare t' = map bare (cs_table s) @ map bare rows"
    using insert_rows_fresh [OF 2(4)] by blast
  show ?case
  proof (cases ok)
    case True
    with t'(1) 2(5) have i: "insert_cdrs ok rows (cs_table s) = (Some (length rows), t')"
      by (simp add: insert_cdrs_def)
    show ?thesis using 2(3) t'(2) unfolding commit_loop.simps i by (auto simp: on_cdr_metrics_def)
  next
    case False
    with 2(5) have n: "insert_cdrs ok rows (cs_table s) = (None, cs_table s)" by (simp add: insert_cdrs_def)
    show ?thesis
      using 2(2,3) 2(1) [OF n [symmetric] refl refl] 2(4,5) unfolding commit_loop.simps n
      by (fastforce simp: on_cdr_metrics_def Let_def split: if_splits)
  qed
qed simp


text \<open>
  What the queue and its writer go through: records and flushes are sent, the writer takes its turn,
  with any number of failed commits. The log is what was accepted, in order.
\<close>

inductive cdr_run :: "(cdr_record \<Rightarrow> string) \<Rightarrow> cdr_store \<Rightarrow> cdr_msg list \<Rightarrow> cdr_store \<Rightarrow> bool"
  for to_json s0 where
  run_start: "cdr_run to_json s0 [] s0"
| run_insert: "cdr_run to_json s0 log s \<Longrightarrow> store_insert r s = (Queued, s') \<Longrightarrow> cdr_run to_json s0 (log @ [RecordMsg r]) s'"
| run_overflow: "cdr_run to_json s0 log s \<Longrightarrow> store_insert r s = (CacheOnly, s') \<Longrightarrow> cdr_run to_json s0 log s'"
| run_flush: "cdr_run to_json s0 log s \<Longrightarrow> cs_open s \<Longrightarrow> length (cs_queue s) < CDR_QUEUE_CAPACITY \<Longrightarrow>
    cdr_run to_json s0 (log @ [FlushMsg f]) (flush f s)"
| run_write: "cdr_run to_json s0 log s \<Longrightarrow> list_all (\<lambda>(_, stopping). \<not> stopping) tries \<Longrightarrow>
    writer_step to_json mirror_ok wall tries s = Some s' \<Longrightarrow> cdr_run to_json s0 log s'"

definition cdr_progress :: "cdr_store \<Rightarrow> cdr_msg list \<Rightarrow> cdr_store \<Rightarrow> cdr_msg list \<Rightarrow> bool" where
  "cdr_progress s0 log s done \<longleftrightarrow> log = done @ cs_queue s \<and>
     map bare (cs_table s) = map bare (cs_table s0) @ map to_row (records_of done) \<and>
     cs_acked s = cs_acked s0 @ flushes_of done \<and> cs_queue_len s = length (records_of (cs_queue s))"

lemma write_batch_commits:
  assumes "no_clash (cs_table s @ map to_row batch)" "batch \<noteq> []" "list_all (\<lambda>(_, stopping). \<not> stopping) tries"
    and "write_batch to_json mirror_ok wall tries batch s = Some (waits, s')"
  shows "map bare (cs_table s') = map bare (cs_table s) @ map to_row batch \<and> cs_queue s' = cs_queue s \<and>
    cs_acked s' = cs_acked s \<and> cs_queue_len s' = cs_queue_len s - length batch"
proof -
  let ?s1 = "case cs_mirror s of None \<Rightarrow> s
    | Some ls \<Rightarrow> if mirror_ok then s\<lparr>cs_mirror := Some (ls @ map to_json batch)\<rparr>
        else on_cdr_metrics (inc_cdr_write_error ''jsonl'') s"
  have frame: "cs_table ?s1 = cs_table s" "cs_queue ?s1 = cs_queue s" "cs_acked ?s1 = cs_acked s"
    "cs_queue_len ?s1 = cs_queue_len s"
    by (auto simp: on_cdr_metrics_def split: option.splits)
  from assms(4) obtain s2 where loop: "commit_loop wall tries (map to_row batch) RETRY_MIN ?s1 = Some (waits, s2)"
    and s': "s' = on_cdr_metrics (\<lambda>m. m\<lparr>cx_queue_length := cs_queue_len s2 - length batch\<rparr>)
        (s2\<lparr>cs_queue_len := cs_queue_len s2 - length batch\<rparr>)"
    unfolding write_batch_def Let_def by (auto split: prod.splits)
  have "no_clash (cs_table ?s1 @ map to_row batch)" using assms(1) frame by simp
  from commit_loop_commits [OF this _ assms(3) loop] assms(2) frame s' show ?thesis
    by (simp add: on_cdr_metrics_def comp_def)
qed

lemma progress_insert:
  assumes "cdr_progress s0 log s d" "store_insert r s = (Queued, s')"
  shows "cdr_progress s0 (log @ [RecordMsg r]) s' d"
proof -
  have "cs_queue s' = cs_queue s @ [RecordMsg r]" "cs_queue_len s' = cs_queue_len s + 1"
    "cs_table s' = cs_table s" "cs_acked s' = cs_acked s"
    using assms(2) by (auto simp: store_insert_def on_cdr_metrics_def Let_def split: if_splits)
  then show ?thesis using assms(1) by (simp add: cdr_progress_def)
qed

lemma progress_overflow:
  assumes "cdr_progress s0 log s d" "store_insert r s = (CacheOnly, s')"
  shows "cdr_progress s0 log s' d"
proof -
  have "cs_queue s' = cs_queue s" "cs_queue_len s' = cs_queue_len s" "cs_table s' = cs_table s" "cs_acked s' = cs_acked s"
    using assms(2) by (auto simp: store_insert_def on_cdr_metrics_def Let_def split: if_splits)
  then show ?thesis using assms(1) by (simp add: cdr_progress_def)
qed

lemma cdr_run_progress:
  assumes "cdr_run to_json s0 log s"
    and "cs_queue s0 = []" "cs_queue_len s0 = 0" "no_clash (map bare (cs_table s0) @ map to_row (records_of log))"
  shows "\<exists>done. cdr_progress s0 log s done"
  using assms(1,4)
proof (induction rule: cdr_run.induct)
  case run_start
  show ?case using assms(2,3) by (intro exI [of _ "[]"]) (simp add: cdr_progress_def)
next
  case (run_insert log s r s')
  have "no_clash (map bare (cs_table s0) @ map to_row (records_of log))"
    by (rule no_clash_prefix [of _ "[to_row r]"]) (use run_insert.prems in simp)
  with run_insert.IH obtain d where d: "cdr_progress s0 log s d" by blast
  show ?case by (rule exI [of _ d], rule progress_insert [OF d run_insert.hyps(2)])
next
  case (run_overflow log s r s')
  then obtain d where d: "cdr_progress s0 log s d" by blast
  show ?case by (rule exI [of _ d], rule progress_overflow [OF d run_overflow.hyps(2)])
next
  case (run_flush log s f)
  then obtain d where "cdr_progress s0 log s d" by auto
  with run_flush.hyps(2,3) show ?case by (intro exI [of _ d]) (auto simp: cdr_progress_def flush_def)
next
  case (run_write log s tries mirror_ok wall s')
  then obtain d where d: "cdr_progress s0 log s d" by blast
  show ?case
  proof (cases "cs_queue s")
    case Nil
    with run_write.hyps(3) d show ?thesis by (auto simp: writer_step_def)
  next
    case (Cons m q)
    show ?thesis
    proof (cases m)
      case (FlushMsg f)
      with Cons run_write.hyps(3) d show ?thesis
        by (intro exI [of _ "d @ [FlushMsg f]"]) (auto simp: writer_step_def cdr_progress_def)
    next
      case (RecordMsg r)
      obtain batch fl rest where tb: "take_batch [r] [] q = (batch, fl, rest)" by (metis prod_cases3)
      then obtain e where e: "q = e @ rest" "batch = r # records_of e" "fl = flushes_of e"
        using take_batch_prefix [OF tb] by auto
      from run_write.hyps(3) Cons RecordMsg tb obtain waits s2 where
        w: "write_batch to_json mirror_ok wall tries batch (s\<lparr>cs_queue := rest\<rparr>) = Some (waits, s2)"
        and s': "s' = s2\<lparr>cs_acked := cs_acked s2 @ fl\<rparr>"
        by (auto simp: writer_step_def)
      have log: "log = (d @ m # e) @ rest" using d Cons e(1) by (simp add: cdr_progress_def)
      have "no_clash (map bare (cs_table s) @ map to_row batch)"
        by (rule no_clash_prefix [of _ "map to_row (records_of rest)"])
          (use run_write.prems [unfolded log RecordMsg] d e(2) in \<open>simp add: cdr_progress_def\<close>)
      then have "no_clash (map bare (cs_table s @ map to_row batch))" by (simp add: comp_def)
      then have "no_clash (cs_table s @ map to_row batch)" by (simp only: no_clash_map_bare)
      then have "no_clash (cs_table (s\<lparr>cs_queue := rest\<rparr>) @ map to_row batch)" by simp
      note wb = write_batch_commits [OF this _ run_write.hyps(2) w]
      show ?thesis
        using wb d e Cons RecordMsg log s'
        by (intro exI [of _ "d @ m # e"]) (simp add: cdr_progress_def)
    qed
  qed
qed



definition empty_store :: cdr_store where
  "empty_store =
     \<lparr>cs_cache = cdr_cache_new, cs_queue = [], cs_open = True, cs_queue_len = 0, cs_table = [], cs_mirror = None,
      cs_stopping = False, cs_acked = [],
      cs_metrics = \<lparr>cx_write_errors = [], cx_queue_length = 0, cx_written_total = 0, cx_purged_total = 0,
        cx_last_written = 0\<rparr>\<rparr>"


lemma commit_ends: "\<exists>x\<in>set tries. fst x \<Longrightarrow> \<exists>r. commit_loop wall tries rows wait s = Some r"
proof (induction wall tries rows wait s rule: commit_loop.induct)
  case (2 wall ok stopping tries rows wait s)
  show ?case
  proof (cases "insert_cdrs ok rows (cs_table s)")
    case (Pair n t)
    show ?thesis
    proof (cases n)
      case None
      with Pair have "\<not> ok" by (auto simp: insert_cdrs_def map_prod_def split: if_splits prod.splits)
      with 2(2) have "\<exists>x\<in>set tries. fst x" by auto
      with 2(1) [OF Pair [symmetric] None refl] Pair None show ?thesis by (auto simp: Let_def)
    qed (use Pair in simp)
  qed
qed simp

lemma commit_loop_queue: "commit_loop wall tries rows wait s = Some (w, s') \<Longrightarrow> cs_queue s' = cs_queue s"
proof (induction wall tries rows wait s arbitrary: w s' rule: commit_loop.induct)
  case (2 wall ok stopping tries rows wait s)
  obtain n t where i: "insert_cdrs ok rows (cs_table s) = (n, t)" by (metis surj_pair)
  show ?case
  proof (cases n)
    case None
    show ?thesis
      using 2(2) 2(1) [OF i [symmetric] None refl] unfolding commit_loop.simps i None
      by (fastforce simp: on_cdr_metrics_def Let_def split: if_splits)
  next
    case (Some k)
    show ?thesis using 2(2) unfolding commit_loop.simps i Some by (auto simp: on_cdr_metrics_def)
  qed
qed simp

lemma write_batch_queue:
  assumes "write_batch to_json mirror_ok wall tries batch s = Some (w, s')"
  shows "cs_queue s' = cs_queue s"
  using assms unfolding write_batch_def Let_def
  by (auto simp: on_cdr_metrics_def dest!: commit_loop_queue split: prod.splits option.splits if_splits)

text \<open>
  The writer makes progress: once the store takes a commit again, a turn of the writer ends and
  leaves fewer messages in the queue. The waits in between double from one second to thirty.
\<close>

theorem writer_progress:
  assumes "cs_queue s \<noteq> []" "\<exists>x\<in>set tries. fst x"
  shows "\<exists>s'. writer_step to_json mirror_ok wall tries s = Some s' \<and> length (cs_queue s') < length (cs_queue s)"
proof (cases "cs_queue s")
  case (Cons m q)
  show ?thesis
  proof (cases m)
    case (RecordMsg r)
    obtain batch fl rest where tb: "take_batch [r] [] q = (batch, fl, rest)" by (metis prod_cases3)
    then have "length rest \<le> length q" using take_batch_prefix [OF tb] by auto
    moreover obtain w s2 where w: "write_batch to_json mirror_ok wall tries batch (s\<lparr>cs_queue := rest\<rparr>) = Some (w, s2)"
      using commit_ends [OF assms(2)] unfolding write_batch_def Let_def by fastforce
    moreover from write_batch_queue [OF w] have "cs_queue s2 = rest" by simp
    ultimately show ?thesis using Cons RecordMsg tb by (auto simp: writer_step_def)
  qed (use Cons in \<open>simp add: writer_step_def\<close>)
qed (use assms(1) in simp)

lemma retry_waits:
  assumes "rows \<noteq> []"
  shows "commit_loop wall (replicate k (False, False) @ [(True, b)]) rows (min (secs (2 ^ i)) RETRY_MAX) s = Some (waits, s') \<Longrightarrow>
    waits = map (\<lambda>j. min (secs (2 ^ j)) RETRY_MAX) [i..<i + k]"
proof (induction k arbitrary: i s waits)
  case (Suc k)
  have step: "min (min (secs (2 ^ i)) RETRY_MAX * 2) RETRY_MAX = min (secs (2 ^ Suc i)) RETRY_MAX"
    by (simp add: secs_def RETRY_MAX_def min_def)
  from Suc.prems assms obtain w where "waits = min (secs (2 ^ i)) RETRY_MAX # w"
    and "commit_loop wall (replicate k (False, False) @ [(True, b)]) rows (min (secs (2 ^ Suc i)) RETRY_MAX)
      (on_cdr_metrics (inc_cdr_write_error ''sqlite'') s) = Some (w, s')"
    unfolding replicate_Suc append_Cons commit_loop.simps insert_cdrs_def Let_def step by auto
  with Suc.IH [of "Suc i"] show ?case by (simp add: upt_conv_Cons del: upt_Suc)
qed (use assms in \<open>auto simp: insert_cdrs_def map_prod_def split: prod.splits\<close>)


text \<open>
  A chunk of the history whose commit fails is not retried at the next start: the marker is written
  at the end of the import whether or not every chunk went in.
\<close>

lemma failed_chunk_marked_imported:
  assumes "from_json ''{}'' = Some r"
  shows "import_jsonl_once from_json uid [False, True] [[''{}'']] (False, t) = (True, t)"
  using assms
  by (simp add: import_jsonl_once_def import_line_def parse_cdr_json_def commit_import_chunk_def import_cdr_chunk_def
      IMPORT_CHUNK_def Let_def trim_def trim_start_def trim_end_def is_space_def)

end
