(* ===== verification/Call_Teardown.thy ===== *)
theory Call_Teardown
  imports "HOL-Library.Multiset" Call_Life Trunk_Calls Admission Cdr_Store Media_Stats
begin

text \<open>
  \<^verbatim>\<open>crates/sbc-core/src/sbc/cdr.rs\<close> and the queue of teardowns of \<^verbatim>\<open>sbc/mod.rs\<close>: the one way every call
  ends (\<^verbatim>\<open>finish_call\<close>), the messages that end it on the wire, and the timers and queues that make the
  SBC end calls of its own accord. The state is that of \<^verbatim>\<open>Sbc\<close>, built from the states of the
  components; the trunk accounting of \<open>Trunk_Calls\<close> acts on it through a view of the calls. The event
  bus the back-to-back user agent and the SBC share is the one in the call manager.

  The environment of an operation: its clock readings, what becomes of a send, the random bytes of
  each request it builds for a call, the fresh id of the record of a call, the JSON form of a record
  and what becomes of its append to the CDR file. The timing histograms are the lists of what they were given.
\<close>

section \<open>State\<close>

type_synonym media_stats_handle = Media_Stats.call_media_stats

datatype kick_reason = KickAdmin | KickMediaUnavailable

record call_metrics =
  km_calls_total :: nat
  km_active_calls :: nat
  km_connected_total :: nat
  km_failed_total :: nat
  km_terminated_total :: nat
  km_setup_observed :: "duration list"
  km_duration_observed :: "nat list"
  km_active_webrtc :: nat
  km_allocated_ports :: nat
  km_request_retransmissions :: nat
  km_transaction_timeouts :: nat
  km_last_cdr_written :: nat
  km_active_registrations :: nat
  km_timer_422_retries :: nat
  km_media_relay_failures :: nat

record 'net sbc =
  sx_b2bua :: "media_stats_handle b2bua_manager"
  sx_tm :: trunk_manager
  sx_series :: "(string, trunk_series) hmap"
  sx_front :: "'net front"
  sx_cdr :: cdr_manager
  sx_metrics :: call_metrics
  sx_identity :: "sbc_identity option"
  sx_trunk_ips :: "string list"
  sx_max_call_duration :: duration
  sx_call_setup_timeout :: duration
  sx_session_timer :: "(nat \<times> nat) option"
  sx_admin_kicks :: "(string \<times> kick_reason) list"

record call_env =
  ev_now :: instant
  ev_wall :: instant
  ev_reply :: "Admission.outgoing \<Rightarrow> unit result"
  ev_rnd :: "string \<Rightarrow> nat \<Rightarrow> nat list"
  ev_cdr_id :: "string \<Rightarrow> string"
  ev_json :: "cdr_record \<Rightarrow> string"
  ev_file :: "string \<Rightarrow> file_io"

abbreviation calls_of :: "'net sbc \<Rightarrow> (string, b2bua_call) hmap" where
  "calls_of s \<equiv> bm_calls (sx_b2bua s)"

definition on_b2bua ::
  "(media_stats_handle b2bua_manager \<Rightarrow> media_stats_handle b2bua_manager) \<Rightarrow> 'net sbc \<Rightarrow> 'net sbc"
where
  "on_b2bua f s = s\<lparr>sx_b2bua := f (sx_b2bua s)\<rparr>"

definition on_metrics :: "(call_metrics \<Rightarrow> call_metrics) \<Rightarrow> 'net sbc \<Rightarrow> 'net sbc" where
  "on_metrics f s = s\<lparr>sx_metrics := f (sx_metrics s)\<rparr>"

definition on_front :: "('net front \<Rightarrow> 'net front) \<Rightarrow> 'net sbc \<Rightarrow> 'net sbc" where
  "on_front f s = s\<lparr>sx_front := f (sx_front s)\<rparr>"

text \<open>The trunk accounting on the whole state.\<close>

definition call_view_of :: "b2bua_call \<Rightarrow> call_view" where
  "call_view_of c =
     \<lparr>cv_trunk_id = bc_trunk_id c, cv_trunk_name = bc_trunk_name c, cv_trunk_counted = bc_trunk_counted c,
      cv_direction = bc_direction c, cv_callee_responded = bc_callee_responded c\<rparr>"

definition trunks_of :: "'net sbc \<Rightarrow> sbc_trunks" where
  "trunks_of s =
     \<lparr>sb_calls = map (\<lambda>(k, c). (k, call_view_of c)) (calls_of s), sb_tm = sx_tm s, sb_series = sx_series s,
      sb_events = (case bm_events (sx_b2bua s) of None \<Rightarrow> [] | Some bus \<Rightarrow> bus)\<rparr>"

definition put_trunks :: "sbc_trunks \<Rightarrow> 'net sbc \<Rightarrow> 'net sbc" where
  "put_trunks t s =
     s\<lparr>sx_tm := sb_tm t, sx_series := sb_series t,
       sx_b2bua := (sx_b2bua s)\<lparr>
         bm_calls := map (\<lambda>(k, c). (k, case hm_get (sb_calls t) k of
                           None \<Rightarrow> c | Some v \<Rightarrow> c\<lparr>bc_trunk_counted := cv_trunk_counted v\<rparr>)) (calls_of s),
         bm_events := map_option (\<lambda>_. sb_events t) (bm_events (sx_b2bua s))\<rparr>\<rparr>"

definition on_trunks :: "(sbc_trunks \<Rightarrow> sbc_trunks) \<Rightarrow> 'net sbc \<Rightarrow> 'net sbc" where
  "on_trunks f s = put_trunks (f (trunks_of s)) s"

definition local_addr :: "'net sbc \<Rightarrow> string \<times> nat" where
  "local_addr s =
     (case sx_identity s of None \<Rightarrow> (''127.0.0.1'', 5060) | Some i \<Rightarrow> (id_public_ip i, id_sip_port i))"

definition sbc_send ::
  "call_env \<Rightarrow> string \<Rightarrow> string \<Rightarrow> socket_addr \<Rightarrow> transport \<Rightarrow> nat option \<Rightarrow> 'net sbc \<Rightarrow> 'net sbc"
where
  "sbc_send e what data dest tp tx =
     on_front (\<lambda>f. snd (send_sip (ev_reply e) (ev_now e) what data dest tp tx f))"

definition count_sip_response :: "nat \<Rightarrow> 'net sbc \<Rightarrow> 'net sbc" where
  "count_sip_response code = on_front (\<lambda>f. f\<lparr>fr_metrics := inc_sip_response code (fr_metrics f)\<rparr>)"

section \<open>Counters\<close>

definition inc_call_attempted :: "call_metrics \<Rightarrow> call_metrics" where
  "inc_call_attempted m =
     m\<lparr>km_calls_total := incr64 (km_calls_total m), km_active_calls := incr64 (km_active_calls m)\<rparr>"

definition inc_call_connected :: "call_metrics \<Rightarrow> call_metrics" where
  "inc_call_connected m = m\<lparr>km_connected_total := incr64 (km_connected_total m)\<rparr>"

definition inc_call_failed :: "call_metrics \<Rightarrow> call_metrics" where
  "inc_call_failed m =
     m\<lparr>km_failed_total := incr64 (km_failed_total m), km_active_calls := km_active_calls m - 1\<rparr>"

definition inc_call_terminated :: "call_metrics \<Rightarrow> call_metrics" where
  "inc_call_terminated m =
     m\<lparr>km_terminated_total := incr64 (km_terminated_total m), km_active_calls := km_active_calls m - 1\<rparr>"

section \<open>Queued teardowns\<close>

definition kick_request_with ::
  "string \<Rightarrow> kick_reason \<Rightarrow> (string \<times> kick_reason) list \<Rightarrow> (string \<times> kick_reason) list"
where
  "kick_request_with uuid reason q = (if uuid \<in> fst ` set q then q else q @ [(uuid, reason)])"

definition kick_request :: "string \<Rightarrow> (string \<times> kick_reason) list \<Rightarrow> (string \<times> kick_reason) list" where
  "kick_request uuid = kick_request_with uuid KickAdmin"

definition kick_pending :: "(string \<times> kick_reason) list \<Rightarrow> string list" where
  "kick_pending q = map fst q"

section \<open>Ending a call\<close>

definition media_flags :: "media_stats_handle option \<Rightarrow> string list" where
  "media_flags media =
     (case media of
        None \<Rightarrow> [''no-relay'']
      | Some st \<Rightarrow>
          if ls_tx_packets (leg_of Caller st) = 0 \<and> ls_tx_packets (leg_of Callee st) = 0 then [''no-media'']
          else map (\<lambda>l. ''one-way-'' @ leg_label l) (filter (\<lambda>l. ls_rx_packets (leg_of l st) = 0) [Caller, Callee]))"

definition sent_packets :: "media_stats_handle option \<Rightarrow> leg \<Rightarrow> nat" where
  "sent_packets media l = (case media of None \<Rightarrow> 0 | Some st \<Rightarrow> ls_tx_packets (leg_of l st))"

definition call_record ::
  "call_env \<Rightarrow> string \<Rightarrow> call_outcome \<Rightarrow> media_stats_handle option \<Rightarrow> b2bua_call \<Rightarrow> cdr_record"
where
  "call_record e uuid outcome media c =
     (let answered = (bc_answered_at c \<noteq> None);
          r = with_disconnect_reason (disconnect_reason outcome)
                (with_webrtc (bc_caller_is_webrtc c)
                  (with_window (bc_started_wall c) (bc_answered_at c) (ev_wall e)
                    (cdr_new (ev_cdr_id e uuid) (ev_wall e) (cl_call_id (bc_inbound c))
                      (or_else (bc_caller_number c) (cl_call_id (bc_inbound c)))
                      (or_else (bc_callee_number c) (or_else (map_option cl_call_id (bc_outbound c)) [])))))
      in r\<lparr>cd_codec := bc_codec c, cd_trunk_id := bc_trunk_name c, cd_uuid := uuid,
           cd_direction := call_direction_of c, cd_sip_code := sip_code outcome answered,
           cd_source_ip := ip_to_string (fst (bc_caller_source c)),
           cd_reason := (case bc_peer_reason c of None \<Rightarrow> reason_header outcome | Some p \<Rightarrow> Some p),
           cd_hangup_by := hangup_by outcome,
           cd_rtp_tx_caller := sent_packets media Caller, cd_rtp_tx_callee := sent_packets media Callee,
           cd_media_flags := join_with '','' (media_flags media)\<rparr>)"

definition write_cdr :: "call_env \<Rightarrow> cdr_record \<Rightarrow> 'net sbc \<Rightarrow> 'net sbc" where
  "write_cdr e r s =
     (case cdr_manager_insert (ev_json e) (ev_file e (cd_uuid r)) r (sx_cdr s) of
        (Inl _, cdr) \<Rightarrow> s\<lparr>sx_cdr := cdr\<rparr>
      | (Inr _, cdr) \<Rightarrow>
          (let s1 = s\<lparr>sx_cdr := cdr\<rparr> in
           if has_store cdr then s1
           else on_metrics (\<lambda>m. m\<lparr>km_last_cdr_written := unix_secs (ev_wall e)\<rparr>) s1))"

definition observe_call :: "cdr_record \<Rightarrow> b2bua_call \<Rightarrow> call_metrics \<Rightarrow> call_metrics" where
  "observe_call r c m =
     (case bc_answered_at c of
        None \<Rightarrow> m
      | Some t \<Rightarrow>
          m\<lparr>km_setup_observed := (if bc_started_wall c \<le> t then km_setup_observed m @ [t - bc_started_wall c]
                                  else km_setup_observed m),
            km_duration_observed := km_duration_observed m @ [cd_billable_secs r]\<rparr>)"

definition set_gauges :: "instant \<Rightarrow> 'net sbc \<Rightarrow> 'net sbc" where
  "set_gauges now s =
     (let (st, media) = media_stats_of now (bm_media (sx_b2bua s))
      in on_metrics (\<lambda>m. m\<lparr>km_active_webrtc := bs_webrtc_calls (b2bua_stats_of (sx_b2bua s)),
             km_allocated_ports := allocated_ports st\<rparr>)
           (on_b2bua (\<lambda>b. b\<lparr>bm_media := media\<rparr>) s))"

definition finish_call :: "call_env \<Rightarrow> string \<Rightarrow> call_outcome \<Rightarrow> 'net sbc \<Rightarrow> bool \<times> 'net sbc" where
  "finish_call e uuid outcome s =
     (case hm_get (calls_of s) uuid of
        None \<Rightarrow> (False, s)
      | Some c \<Rightarrow>
          (let answered = (bc_answered_at c \<noteq> None);
               reason = disconnect_reason outcome;
               media = Option.bind (bc_media_session_id c)
                         (\<lambda>sid. Media_Manager.call_media_stats sid (bm_media (sx_b2bua s)));
               r = call_record e uuid outcome media c;
               s1 = (case bc_media_session_id c of
                       None \<Rightarrow> s
                     | Some sid \<Rightarrow> on_b2bua (\<lambda>b. b\<lparr>bm_media := forget_media_stats sid (bm_media b)\<rparr>) s);
               s2 = write_cdr e r s1;
               s3 = on_metrics (observe_call r c) s2;
               s4 = (case cd_trunk_id r of
                       None \<Rightarrow> s3
                     | Some name \<Rightarrow>
                         on_trunks (inc_trunk_call name (cd_direction r) (trunk_outcome_label outcome answered)) s3);
               s5 = on_trunks (count_call_on_trunk uuid None) s4;
               s6 = on_metrics (if answered then inc_call_terminated else inc_call_failed) s5;
               s7 = on_b2bua (terminate_call_with_reason (ev_now e) (ev_wall e) uuid reason) s6
           in (True, set_gauges (ev_now e) s7)))"


section \<open>The wire side\<close>

definition first_some :: "'a option \<Rightarrow> 'a option \<Rightarrow> 'a option" where
  "first_some a b = (case a of None \<Rightarrow> b | Some _ \<Rightarrow> a)"

definition hangup_toward_caller ::
  "call_env \<Rightarrow> string \<times> nat \<Rightarrow> call_outcome \<Rightarrow> b2bua_call \<Rightarrow> (string \<times> string) option"
where
  "hangup_toward_caller e addr outcome c =
     first_some
       (map_option (\<lambda>d. (''BYE -> caller'', build_bye (ev_rnd e (bc_uuid c) 0) d (reason_header outcome)))
          (dialog_info_toward_caller (fst addr) (snd addr) c))
       (map_option (\<lambda>m. (''final -> caller'', m))
          (final_toward_caller (pending_caller_code outcome) (reason_header outcome) c))"

definition hangup_toward_callee ::
  "call_env \<Rightarrow> string \<times> nat \<Rightarrow> call_outcome \<Rightarrow> b2bua_call \<Rightarrow> (string \<times> string) option"
where
  "hangup_toward_callee e addr outcome c =
     first_some
       (map_option (\<lambda>m. (''BYE -> callee'', m))
          (bye_toward_callee (ev_rnd e (bc_uuid c) 1) (fst addr) (snd addr) (reason_header outcome) c))
       (map_option (\<lambda>m. (''CANCEL -> callee'', m)) (Option.bind (last_attempt c) (\<lambda>a. build_cancel (at_raw a))))"

definition callee_target :: "b2bua_call \<Rightarrow> (socket_addr \<times> transport) option" where
  "callee_target c =
     first_some (map_option (\<lambda>a. (at_dest a, at_transport a)) (last_attempt c))
       (map_option (\<lambda>d. (d, bc_callee_transport c)) (bc_callee_dest c))"

definition hangup_both_legs :: "call_env \<Rightarrow> string \<Rightarrow> call_outcome \<Rightarrow> 'net sbc \<Rightarrow> 'net sbc" where
  "hangup_both_legs e uuid outcome s =
     (case hm_get (calls_of s) uuid of
        None \<Rightarrow> s
      | Some c \<Rightarrow>
          (let s1 = (case hangup_toward_caller e (local_addr s) outcome c of
                       None \<Rightarrow> s
                     | Some (what, msg) \<Rightarrow>
                         sbc_send e what msg (bc_caller_source c) (bc_caller_transport c) (bc_caller_reply_tx c) s)
           in case (hangup_toward_callee e (local_addr s) outcome c, callee_target c) of
                (Some (what, msg), Some (dest, tp)) \<Rightarrow> sbc_send e what msg dest tp (bc_callee_reply_tx c) s1
              | _ \<Rightarrow> s1))"

text \<open>Hanging up and then finishing, as every teardown of the SBC's own does.\<close>

definition end_call :: "call_env \<Rightarrow> call_outcome \<Rightarrow> string \<Rightarrow> 'net sbc \<Rightarrow> 'net sbc" where
  "end_call e outcome uuid s = snd (finish_call e uuid outcome (hangup_both_legs e uuid outcome s))"

section \<open>Timers\<close>

definition TIMER_C :: duration where "TIMER_C = secs 180"

definition resend_final :: "call_env \<Rightarrow> Admission.outgoing \<Rightarrow> 'net front \<Rightarrow> 'net front" where
  "resend_final e d f =
     (if is_ok (ev_reply e d) then deliver d f
      else f\<lparr>fr_metrics := inc_sip_send_failure (fst (snd (snd d))) (fr_metrics f)\<rparr>)"

definition retransmit_finals :: "call_env \<Rightarrow> 'net sbc \<Rightarrow> 'net sbc" where
  "retransmit_finals e s =
     on_front (\<lambda>f. let (due, itx) = due_retransmissions (ev_now e) (fr_itx f)
                    in fold (resend_final e) due (f\<lparr>fr_itx := itx\<rparr>)) s"

definition resend_request :: "call_env \<Rightarrow> due_request \<Rightarrow> 'net sbc \<Rightarrow> 'net sbc" where
  "resend_request e d s =
     (let out = (dq_raw d, dq_dest d, dq_transport d, dq_reply_tx d) in
      if is_ok (ev_reply e out)
      then on_metrics (\<lambda>m. m\<lparr>km_request_retransmissions := incr64 (km_request_retransmissions m)\<rparr>)
             (on_front (deliver out) s)
      else on_front (\<lambda>f. f\<lparr>fr_metrics := inc_sip_send_failure (dq_transport d) (fr_metrics f)\<rparr>) s)"

definition retransmit_requests :: "call_env \<Rightarrow> 'net sbc \<Rightarrow> 'net sbc" where
  "retransmit_requests e s =
     (let ((due, expired), ctx) = ctx_due (ev_now e) (fr_ctx (sx_front s));
          s1 = fold (resend_request e) due (on_front (\<lambda>f. f\<lparr>fr_ctx := ctx\<rparr>) s)
      in fold (\<lambda>_. on_metrics (\<lambda>m. m\<lparr>km_transaction_timeouts := incr64 (km_transaction_timeouts m)\<rparr>)) expired s1)"

definition kick_outcome :: "kick_reason \<Rightarrow> call_outcome" where
  "kick_outcome r = (case r of KickAdmin \<Rightarrow> AdminKick | KickMediaUnavailable \<Rightarrow> MediaUnavailable)"

definition process_admin_kicks :: "call_env \<Rightarrow> 'net sbc \<Rightarrow> 'net sbc" where
  "process_admin_kicks e s =
     fold (\<lambda>(uuid, reason). end_call e (kick_outcome reason) uuid) (sx_admin_kicks s) (s\<lparr>sx_admin_kicks := []\<rparr>)"

definition check_media_timeouts :: "call_env \<Rightarrow> 'net sbc \<Rightarrow> 'net sbc" where
  "check_media_timeouts e s =
     (let (sessions, media) = drain_timed_out (bm_media (sx_b2bua s));
          s1 = on_b2bua (\<lambda>b. b\<lparr>bm_media := media\<rparr>) s;
          uuids = List.map_filter
            (\<lambda>sid. map_option (bc_uuid \<circ> snd) (find (\<lambda>(_, c). bc_media_session_id c = Some sid) (calls_of s1))) sessions
      in fold (end_call e RtpTimeout) uuids s1)"

definition setup_overdue :: "instant \<Rightarrow> duration \<Rightarrow> b2bua_call \<Rightarrow> bool" where
  "setup_overdue now limit c \<longleftrightarrow> bc_answered_at c = None \<and> bc_state c \<in> {Initiated, Proceeding, Ringing} \<and>
     (case bc_alerting_at c of None \<Rightarrow> limit < now - bc_started_at c | Some a \<Rightarrow> TIMER_C < now - a)"

definition check_setup_timeouts :: "call_env \<Rightarrow> 'net sbc \<Rightarrow> 'net sbc" where
  "check_setup_timeouts e s =
     fold (\<lambda>uuid s.
         end_call e SetupTimeout uuid
           (case silent_outbound_trunk_of uuid (trunks_of s) of
              None \<Rightarrow> s
            | Some name \<Rightarrow> on_trunks (note_trunk_failure (ev_now e) (ev_wall e) name None) s))
       (map (bc_uuid \<circ> snd) (filter (\<lambda>(_, c). setup_overdue (ev_now e) (sx_call_setup_timeout s) c) (calls_of s))) s"

definition check_call_timeouts :: "call_env \<Rightarrow> 'net sbc \<Rightarrow> 'net sbc" where
  "check_call_timeouts e s =
     fold (end_call e MaxDuration)
       (map (bc_uuid \<circ> snd) (filter (\<lambda>(_, c). sx_max_call_duration s < ev_now e - bc_started_at c) (calls_of s))) s"

text \<open>The shutdown; \<open>ticks\<close> are the environments of the ticks of the drain.\<close>

definition SHUTDOWN_DRAIN :: duration where "SHUTDOWN_DRAIN = secs 2"

fun drain_requests :: "instant \<Rightarrow> instant \<Rightarrow> call_env list \<Rightarrow> 'net sbc \<Rightarrow> 'net sbc" where
  "drain_requests deadline now [] s = s"
| "drain_requests deadline now (e # ticks) s =
     (if now < deadline \<and> ctx_len (fr_ctx (sx_front s)) \<noteq> 0
      then drain_requests deadline (ev_now e) ticks (retransmit_requests e s) else s)"

definition graceful_shutdown :: "call_env \<Rightarrow> call_env list \<Rightarrow> 'net sbc \<Rightarrow> 'net sbc" where
  "graceful_shutdown e ticks s =
     (if calls_of s = [] then s
      else drain_requests (ev_now e + SHUTDOWN_DRAIN) (ev_now e) ticks
             (fold (end_call e Shutdown) (map fst (calls_of s)) s))"

section \<open>Every call is billed exactly once\<close>

lemma hm_keys_remove [simp]: "map fst (hm_remove k m) = filter ((\<noteq>) k) (map fst m)"
  by (induction m) (auto simp: hm_remove_def AList.delete_eq)

lemma hm_keys_modify [simp]: "map fst (hm_modify k f m) = map fst m"
  by (auto simp: hm_modify_def AList.update_keys map_of_eq_None_iff split: option.splits)

lemma front_frame [simp]:
  "calls_of (on_front f s) = calls_of s" "sx_cdr (on_front f s) = sx_cdr s"
  "trunks_of (on_front f s) = trunks_of s" "sx_tm (on_front f s) = sx_tm s"
  by (simp_all add: on_front_def trunks_of_def)

lemma metrics_frame [simp]:
  "sx_b2bua (on_metrics f s) = sx_b2bua s" "sx_cdr (on_metrics f s) = sx_cdr s"
  "trunks_of (on_metrics f s) = trunks_of s" "sx_tm (on_metrics f s) = sx_tm s"
  by (simp_all add: on_metrics_def trunks_of_def)

lemma b2bua_frame [simp]:
  "sx_b2bua (on_b2bua f s) = f (sx_b2bua s)" "sx_cdr (on_b2bua f s) = sx_cdr s"
  "sx_tm (on_b2bua f s) = sx_tm s"
  by (simp_all add: on_b2bua_def)

lemma trunks_frame [simp]:
  "map fst (calls_of (on_trunks f s)) = map fst (calls_of s)" "sx_cdr (on_trunks f s) = sx_cdr s"
  by (simp_all add: on_trunks_def put_trunks_def comp_def split_def)

lemma gauges_frame [simp]:
  "calls_of (set_gauges now s) = calls_of s" "sx_cdr (set_gauges now s) = sx_cdr s"
  by (simp_all add: set_gauges_def split: prod.splits)

lemma write_cdr_frame [simp]:
  "sx_b2bua (write_cdr e r s) = sx_b2bua s"
  "sx_cdr (write_cdr e r s) = snd (cdr_manager_insert (ev_json e) (ev_file e (cd_uuid r)) r (sx_cdr s))"
  "trunks_of (write_cdr e r s) = trunks_of s"
  by (simp_all add: write_cdr_def trunks_of_def on_metrics_def Let_def split: prod.splits sum.splits)

lemma hangup_frame [simp]:
  "calls_of (hangup_both_legs e u x s) = calls_of s" "sx_cdr (hangup_both_legs e u x s) = sx_cdr s"
  "sx_b2bua (hangup_both_legs e u x s) = sx_b2bua s"
  "trunks_of (hangup_both_legs e u x s) = trunks_of s"
  by (simp_all add: hangup_both_legs_def sbc_send_def on_front_def trunks_of_def Let_def split: option.splits prod.splits)

lemma record_uuid [simp]: "cd_uuid (call_record e uuid x media c) = uuid"
  by (simp add: call_record_def Let_def)

lemma record_reason [simp]: "cd_disconnect_reason (call_record e uuid x media c) = disconnect_reason x"
  by (simp add: call_record_def Let_def with_disconnect_reason_def)

lemma terminate_keys:
  "map fst (bm_calls (terminate_call_with_reason now wall uuid why m)) = filter ((\<noteq>) uuid) (map fst (bm_calls m))"
  by (simp add: terminate_call_with_reason_def Let_def b2bua_emit_def remember_terminated_def release_media_def
      with_call_def split: option.splits)

lemma trunk_calls_frame:
  "hm_get (calls_of (on_trunks f s)) k =
     map_option (\<lambda>c. case hm_get (sb_calls (f (trunks_of s))) k of
        None \<Rightarrow> c | Some v \<Rightarrow> c\<lparr>bc_trunk_counted := cv_trunk_counted v\<rparr>) (hm_get (calls_of s) k)"
  by (simp add: on_trunks_def put_trunks_def hm_get_map)

lemma views_get: "hm_get (sb_calls (trunks_of s)) k = map_option call_view_of (hm_get (calls_of s) k)"
  by (simp add: trunks_of_def hm_get_map [of "\<lambda>_. call_view_of"])

text \<open>What the end of one call does to the call table and to the CDRs.\<close>

lemma finish_gone: "hm_get (calls_of s) u = None \<Longrightarrow> finish_call e u x s = (False, s)"
  by (simp add: finish_call_def)

abbreviation finished :: "call_env \<Rightarrow> string \<Rightarrow> call_outcome \<Rightarrow> 'net sbc \<Rightarrow> 'net sbc" where
  "finished e u x s \<equiv> snd (finish_call e u x s)"

definition session_stats :: "b2bua_call \<Rightarrow> 'net sbc \<Rightarrow> media_stats_handle option" where
  "session_stats c s =
     Option.bind (bc_media_session_id c) (\<lambda>sid. Media_Manager.call_media_stats sid (bm_media (sx_b2bua s)))"

lemma finish_keys: "map fst (calls_of (finished e u x s)) = filter ((\<noteq>) u) (map fst (calls_of s))"
proof (cases "hm_get (calls_of s) u")
  case None
  then have "filter ((\<noteq>) u) (map fst (calls_of s)) = map fst (calls_of s)"
    by (auto simp: map_of_eq_None_iff filter_id_conv)
  with None show ?thesis by (simp add: finish_gone)
next
  case (Some c)
  then show ?thesis by (simp add: finish_call_def Let_def terminate_keys split: option.splits)
qed

lemma finish_cdr:
  assumes "hm_get (calls_of s) u = Some c"
  shows "fst (finish_call e u x s)"
    and "sx_cdr (finished e u x s) =
      snd (cdr_manager_insert (ev_json e) (ev_file e u) (call_record e u x (session_stats c s) c) (sx_cdr s))"
  using assms by (simp_all add: finish_call_def session_stats_def Let_def split: option.splits)

lemma count_call_views:
  "sb_calls (count_call_on_trunk u t s) =
     (case hm_get (sb_calls s) u of
        None \<Rightarrow> sb_calls s
      | Some c \<Rightarrow> if cv_trunk_counted c = t then sb_calls s
                  else hm_modify u (\<lambda>c. c\<lparr>cv_trunk_counted := t\<rparr>) (sb_calls s))"
  by (simp add: count_call_on_trunk_def Let_def split: option.splits)

lemma count_call_other:
  "k \<noteq> u \<Longrightarrow> hm_get (calls_of (on_trunks (count_call_on_trunk u t) s)) k = hm_get (calls_of s) k"
  by (cases "hm_get (calls_of s) k")
    (auto simp: trunk_calls_frame count_call_views views_get hm_get_modify call_view_of_def split: option.splits)

lemma inc_trunk_other: "hm_get (calls_of (on_trunks (inc_trunk_call a d o') s)) k = hm_get (calls_of s) k"
  by (cases "hm_get (calls_of s) k") (auto simp: trunk_calls_frame views_get call_view_of_def)

lemma terminate_other:
  "k \<noteq> u \<Longrightarrow> hm_get (bm_calls (terminate_call_with_reason now wall u why m)) k = hm_get (bm_calls m) k"
  by (simp add: terminate_call_with_reason_def Let_def b2bua_emit_def remember_terminated_def release_media_def
      with_call_def hm_get_remove hm_get_modify split: option.splits)

lemma finish_other: "k \<noteq> u \<Longrightarrow> hm_get (calls_of (finished e u x s)) k = hm_get (calls_of s) k"
  by (cases "hm_get (calls_of s) u")
    (simp_all add: finish_gone finish_call_def Let_def terminate_other count_call_other inc_trunk_other
      split: option.splits)

text \<open>
  The records the CDR manager was given, in order, while its writer runs. The JSON form of a record
  and what became of its append to the file are free.
\<close>

inductive hands_over :: "cdr_manager \<Rightarrow> cdr_record list \<Rightarrow> cdr_manager \<Rightarrow> bool" where
  nothing: "hands_over m [] m"
| record_given: "hands_over m rs m' \<Longrightarrow> hands_over m (rs @ [r]) (snd (cdr_manager_insert to_json io r m'))"
| writer_ran: "hands_over m rs (WithStore st) \<Longrightarrow> writer_step to_json mirror_ok wall tries st = Some st' \<Longrightarrow>
    hands_over m rs (WithStore st')"

lemma hands_over_trans:
  assumes "hands_over b ss c" and "hands_over a rs b"
  shows "hands_over a (rs @ ss) c"
  using assms
proof (induction rule: hands_over.induct)
  case (record_given m ss m' to_json io r)
  then show ?case using hands_over.record_given [of a "rs @ ss"] by simp
next
  case (writer_ran m ss st to_json mirror_ok wall tries st')
  then show ?case by (blast intro: hands_over.writer_ran)
qed simp

text \<open>Whether a stretch of work handed over exactly one record for each call it ended.\<close>

definition billed :: "'net sbc \<Rightarrow> cdr_record list \<Rightarrow> 'net sbc \<Rightarrow> bool" where
  "billed s rs s' \<longleftrightarrow> hands_over (sx_cdr s) rs (sx_cdr s') \<and>
     mset (map fst (calls_of s)) = mset (map cd_uuid rs) + mset (map fst (calls_of s'))"

definition settles :: "('net sbc \<Rightarrow> 'net sbc) \<Rightarrow> bool" where
  "settles f \<longleftrightarrow> (\<forall>s. hm_ok (calls_of s) \<longrightarrow> hm_ok (calls_of (f s)) \<and> (\<exists>rs. billed s rs (f s)))"

lemma settlesI:
  "(\<And>s. hm_ok (calls_of s) \<Longrightarrow> hm_ok (calls_of (f s)) \<and> (\<exists>rs. billed s rs (f s))) \<Longrightarrow> settles f"
  by (simp add: settles_def)

lemma settles_quiet:
  "(\<And>s. map fst (calls_of (f s)) = map fst (calls_of s)) \<Longrightarrow> (\<And>s. sx_cdr (f s) = sx_cdr s) \<Longrightarrow> settles f"
  by (rule settlesI) (auto simp: billed_def hm_ok_def intro!: exI [of _ "[]"] hands_over.nothing)

lemma billed_trans: "billed a rs b \<Longrightarrow> billed b ss c \<Longrightarrow> billed a (rs @ ss) c"
  by (auto simp: billed_def intro: hands_over_trans)

lemma settles_comp: "settles f \<Longrightarrow> settles g \<Longrightarrow> settles (\<lambda>s. g (f s))"
  unfolding settles_def by (meson billed_trans)

lemma settles_apply: "settles f \<Longrightarrow> hm_ok (calls_of s) \<Longrightarrow> hm_ok (calls_of (f s)) \<and> (\<exists>rs. billed s rs (f s))"
  by (simp add: settles_def)

lemma settles_fold:
  assumes "\<And>x. settles (f x)"
  shows "settles (fold f xs)"
proof (induction xs)
  case Nil
  then show ?case by (simp add: settles_quiet id_def)
next
  case (Cons x xs)
  from settles_comp [OF assms [of x] Cons.IH] show ?case by (simp add: comp_def)
qed

lemma mset_filter_key: "distinct ks \<Longrightarrow> u \<in> set ks \<Longrightarrow> mset ks = add_mset u (mset (filter ((\<noteq>) u) ks))"
  unfolding removeAll_filter_not_eq [symmetric] by (simp add: distinct_remove1_removeAll [symmetric])

lemma settles_finish: "settles (finished e u x)"
proof (rule settlesI)
  fix s :: "'a sbc"
  assume ok: "hm_ok (calls_of s)"
  show "hm_ok (calls_of (finished e u x s)) \<and> (\<exists>rs. billed s rs (finished e u x s))"
  proof (cases "hm_get (calls_of s) u")
    case None
    with ok show ?thesis by (auto simp: finish_gone billed_def intro!: exI [of _ "[]"] hands_over.nothing)
  next
    case (Some c)
    let ?r = "call_record e u x (session_stats c s) c"
    from Some have "u \<in> set (map fst (calls_of s))" by (force dest: map_of_SomeD)
    with ok have "mset (map fst (calls_of s)) = add_mset u (mset (filter ((\<noteq>) u) (map fst (calls_of s))))"
      unfolding hm_ok_def by (intro mset_filter_key)
    then have "mset (map fst (calls_of s)) = mset (map cd_uuid [?r]) + mset (map fst (calls_of (finished e u x s)))"
      unfolding finish_keys by simp
    moreover have "hands_over (sx_cdr s) ([] @ [?r]) (sx_cdr (finished e u x s))"
      unfolding finish_cdr(2) [OF Some] by (intro hands_over.record_given hands_over.nothing)
    ultimately have "billed s [?r] (finished e u x s)" by (simp add: billed_def)
    moreover have "hm_ok (calls_of (finished e u x s))"
      using ok by (simp only: hm_ok_def finish_keys distinct_filter)
    ultimately show ?thesis by blast
  qed
qed

lemma settles_local: "(\<And>s. \<exists>g. settles g \<and> f s = g s) \<Longrightarrow> settles f"
  unfolding settles_def by metis

lemma settles_id: "settles (\<lambda>s. s)"
  by (rule settles_quiet) simp_all

lemma settles_end_call: "settles (end_call e x u)"
proof -
  have "settles (hangup_both_legs e u x)" by (rule settles_quiet) simp_all
  from settles_comp [OF this settles_finish] show ?thesis by (simp add: end_call_def [abs_def])
qed

lemma settles_trunks: "settles (on_trunks f)"
  by (rule settles_quiet) simp_all

lemma settles_kicks: "settles (process_admin_kicks e)"
proof (rule settles_local)
  fix s :: "'a sbc"
  let ?kick = "\<lambda>(uuid, reason). end_call e (kick_outcome reason) uuid"
  have clear: "settles (\<lambda>s. s\<lparr>sx_admin_kicks := []\<rparr>)" by (rule settles_quiet) simp_all
  have "settles (?kick x)" for x by (cases x) (simp add: settles_end_call)
  then have "settles (fold ?kick (sx_admin_kicks s))" by (rule settles_fold)
  from settles_comp [OF clear this] show "\<exists>g. settles g \<and> process_admin_kicks e s = g s"
    by (intro exI conjI) (assumption, simp add: process_admin_kicks_def)
qed

lemma settles_media_timeouts: "settles (check_media_timeouts e)"
proof (rule settles_local)
  fix s :: "'a sbc"
  obtain sessions media where d: "drain_timed_out (bm_media (sx_b2bua s)) = (sessions, media)" by fastforce
  have set_media: "settles (on_b2bua (\<lambda>b. b\<lparr>bm_media := media\<rparr>))" by (rule settles_quiet) simp_all
  have "settles (fold (end_call e RtpTimeout) us)" for us by (rule settles_fold) (rule settles_end_call)
  from settles_comp [OF set_media this]
  show "\<exists>g. settles g \<and> check_media_timeouts e s = g s"
    unfolding check_media_timeouts_def d Let_def split_conv by blast
qed

lemma settles_setup_timeouts: "settles (check_setup_timeouts e)"
proof (rule settles_local)
  fix s :: "'a sbc"
  have strike: "settles (\<lambda>s. case silent_outbound_trunk_of uuid (trunks_of s) of
      None \<Rightarrow> s | Some name \<Rightarrow> on_trunks (note_trunk_failure (ev_now e) (ev_wall e) name None) s)" for uuid
    by (rule settles_quiet) (simp_all split: option.splits)
  let ?give_up = "\<lambda>uuid s. end_call e SetupTimeout uuid (case silent_outbound_trunk_of uuid (trunks_of s) of
      None \<Rightarrow> s | Some name \<Rightarrow> on_trunks (note_trunk_failure (ev_now e) (ev_wall e) name None) s)"
  have "settles (fold ?give_up us)" for us
    by (rule settles_fold) (rule settles_comp [OF strike settles_end_call])
  then show "\<exists>g. settles g \<and> check_setup_timeouts e s = g s" unfolding check_setup_timeouts_def by blast
qed

lemma settles_call_timeouts: "settles (check_call_timeouts e)"
proof (rule settles_local)
  fix s :: "'a sbc"
  have "settles (fold (end_call e MaxDuration) us)" for us by (rule settles_fold) (rule settles_end_call)
  then show "\<exists>g. settles g \<and> check_call_timeouts e s = g s" unfolding check_call_timeouts_def by blast
qed

lemma resend_frame [simp]:
  "calls_of (resend_request e d s) = calls_of s" "sx_cdr (resend_request e d s) = sx_cdr s"
  "trunks_of (resend_request e d s) = trunks_of s"
  by (simp_all add: resend_request_def Let_def)

lemma settles_requests: "settles (retransmit_requests e)"
proof (rule settles_local)
  fix s :: "'a sbc"
  obtain due expired ctx where d: "ctx_due (ev_now e) (fr_ctx (sx_front s)) = ((due, expired), ctx)"
    by (metis prod.exhaust)
  have table: "settles (on_front (\<lambda>f. f\<lparr>fr_ctx := ctx\<rparr>))" by (rule settles_quiet) simp_all
  have resend: "settles (fold (resend_request e) due)"
    by (rule settles_fold, rule settles_quiet) simp_all
  have expire: "settles (fold (\<lambda>_. on_metrics f) expired)" for f
    by (rule settles_fold, rule settles_quiet) simp_all
  from settles_comp [OF settles_comp [OF table resend] expire]
  show "\<exists>g. settles g \<and> retransmit_requests e s = g s"
    unfolding retransmit_requests_def d Let_def split_conv by blast
qed

lemma settles_drain: "settles (drain_requests deadline now ticks)"
proof (induction ticks arbitrary: now)
  case Nil
  then show ?case by (simp add: settles_id)
next
  case (Cons e ticks)
  show ?case
  proof (rule settles_local)
    fix s :: "'a sbc"
    show "\<exists>g. settles g \<and> drain_requests deadline now (e # ticks) s = g s"
      using settles_comp [OF settles_requests Cons.IH] settles_id by auto
  qed
qed

lemma settles_shutdown: "settles (graceful_shutdown e ticks)"
proof (rule settles_local)
  fix s :: "'a sbc"
  have "settles (\<lambda>s. drain_requests d now ticks (fold (end_call e Shutdown) us s))" for d now us
    by (rule settles_comp [OF settles_fold [OF settles_end_call] settles_drain])
  then show "\<exists>g. settles g \<and> graceful_shutdown e ticks s = g s"
    unfolding graceful_shutdown_def using settles_id by (cases "calls_of s = []") (simp, blast)+
qed

lemma create_keys:
  assumes "create_call modify_sdp rnd now wall cid tag addr sdp tx tp m = (Inr u, b)"
    and "hm_get (bm_calls m) (hex_width 16 rnd) = None"
  shows "map fst (bm_calls b) = map fst (bm_calls m) @ [u]" and "u = hex_width 16 rnd"
  using assms
  by (auto simp: create_call_def Let_def b2bua_emit_def hm_insert_def AList.update_keys b2bua_call_new_def
      map_of_eq_None_iff split: prod.splits sum.splits option.splits)

section \<open>Trunk counters\<close>

definition trunks_exact :: "'net sbc \<Rightarrow> bool" where
  "trunks_exact s \<longleftrightarrow> exact (\<lambda>n. counted_on n (sb_calls (trunks_of s))) (trunks_of s)"

lemma alist_eqI:
  "distinct (map fst xs) \<Longrightarrow> map fst xs = map fst ys \<Longrightarrow> (\<And>k. map_of xs k = map_of ys k) \<Longrightarrow> xs = ys"
proof (induction xs arbitrary: ys)
  case (Cons x xs)
  then obtain y zs where ys: "ys = y # zs" and k: "fst y = fst x" and keys: "map fst xs = map fst zs" by (cases ys) auto
  have "snd y = snd x" using Cons.prems(3) [of "fst x"] by (cases x; cases y) (use k ys in auto)
  moreover have "map_of xs j = map_of zs j" for j
  proof (cases "j = fst x")
    case True
    then have "j \<notin> fst ` set xs" "j \<notin> fst ` set zs" using Cons.prems(1) keys by (auto simp: set_map [symmetric] simp del: set_map)
    then show ?thesis by (simp add: map_of_eq_None_iff [THEN iffD2])
  next
    case False
    with Cons.prems(3) [of j] k ys show ?thesis by (cases x; cases y) auto
  qed
  ultimately show ?case using Cons ys k keys by (auto intro: prod_eqI)
qed simp

lemma views_keys [simp]: "map fst (sb_calls (trunks_of s)) = map fst (calls_of s)"
  by (simp add: trunks_of_def comp_def split_def)

lemma on_trunks_tables [simp]:
  "sb_tm (trunks_of (on_trunks f s)) = sb_tm (f (trunks_of s))"
  "sb_series (trunks_of (on_trunks f s)) = sb_series (f (trunks_of s))"
  by (simp_all add: on_trunks_def put_trunks_def trunks_of_def)

lemma count_call_keys [simp]: "map fst (sb_calls (count_call_on_trunk u t s)) = map fst (sb_calls s)"
  by (simp add: count_call_views split: option.splits)

lemma count_call_trunks:
  assumes "hm_ok (calls_of s)"
  shows "sb_calls (trunks_of (on_trunks (count_call_on_trunk u t) s)) = sb_calls (count_call_on_trunk u t (trunks_of s))"
proof (rule alist_eqI)
  fix k
  show "hm_get (sb_calls (trunks_of (on_trunks (count_call_on_trunk u t) s))) k =
      hm_get (sb_calls (count_call_on_trunk u t (trunks_of s))) k"
    by (cases "hm_get (calls_of s) k")
      (auto simp: views_get trunk_calls_frame count_call_views hm_get_modify call_view_of_def split: option.splits)
qed (use assms in \<open>simp_all add: hm_ok_def\<close>)

lemma inc_trunk_trunks:
  assumes "hm_ok (calls_of s)"
  shows "sb_calls (trunks_of (on_trunks (inc_trunk_call a d x) s)) = sb_calls (trunks_of s)"
  by (rule alist_eqI) (use assms in \<open>simp_all add: hm_ok_def views_get inc_trunk_other\<close>)

lemma exact_count_call:
  assumes "hm_ok (calls_of s)" and "trunks_exact s" and "length (calls_of s) < 2 ^ 32"
  shows "trunks_exact (on_trunks (count_call_on_trunk u t) s)"
proof -
  have "exact (\<lambda>n. counted_on n (sb_calls (count_call_on_trunk u t (trunks_of s)))) (count_call_on_trunk u t (trunks_of s))"
    using assms by (intro count_call_exact) (simp_all add: trunks_exact_def hm_ok_def trunks_of_def comp_def split_def)
  then show ?thesis
    unfolding trunks_exact_def count_call_trunks [OF assms(1)] by (rule exact_frame) simp_all
qed

lemma exact_inc_call:
  assumes "hm_ok (calls_of s)" and "trunks_exact s"
  shows "trunks_exact (on_trunks (inc_trunk_call a d x) s)"
proof -
  have "exact (\<lambda>n. counted_on n (sb_calls (trunks_of s))) (inc_trunk_call a d x (trunks_of s))"
    using assms(2) by (simp add: trunks_exact_def)
  then show ?thesis
    unfolding trunks_exact_def inc_trunk_trunks [OF assms(1)] by (rule exact_frame) simp_all
qed

lemma terminate_views:
  "sb_calls (trunks_of (on_b2bua (terminate_call_with_reason now wall u why) s)) = hm_remove u (sb_calls (trunks_of s))"
proof -
  have "hm_remove u (hm_modify u f m) = hm_remove u m" for f and m :: "(string, b2bua_call) hmap"
    by (simp add: hm_remove_def hm_modify_def AList.delete_update_same split: option.splits)
  then have "bm_calls (terminate_call_with_reason now wall u why m) = hm_remove u (bm_calls m)" for m :: "media_stats_handle b2bua_manager"
    by (simp add: terminate_call_with_reason_def Let_def b2bua_emit_def remember_terminated_def release_media_def
        with_call_def split: option.splits)
  then show ?thesis by (simp add: trunks_of_def hm_remove_def AList.delete_eq filter_map comp_def split_def)
qed

lemma counted_cleared:
  assumes "hm_get (calls_of s) u = Some c"
  shows "\<exists>v. hm_get (sb_calls (trunks_of (on_trunks (count_call_on_trunk u None) s))) u = Some v \<and> cv_trunk_counted v = None"
  using assms
  by (auto simp: views_get trunk_calls_frame count_call_views hm_get_modify call_view_of_def split: option.splits)

lemma terminate_exact:
  assumes "hm_ok (calls_of s)" and "trunks_exact s"
    and "hm_get (sb_calls (trunks_of s)) u = Some v" and "cv_trunk_counted v = None"
  shows "trunks_exact (on_b2bua (terminate_call_with_reason now wall u why) s)"
proof -
  have ok: "hm_ok (sb_calls (trunks_of s))" using assms(1) by (simp add: hm_ok_def)
  have "exact (\<lambda>n. counted_on n (hm_remove u (sb_calls (trunks_of s)))) (trunks_of s)"
    using assms(2) by (simp add: trunks_exact_def counted_on_remove [OF ok assms(3,4)])
  then show ?thesis
    unfolding trunks_exact_def terminate_views by (rule exact_frame) (simp_all add: trunks_of_def on_b2bua_def)
qed

lemma gauges_trunks [simp]: "trunks_of (set_gauges now s) = trunks_of s"
  by (simp add: set_gauges_def trunks_of_def on_metrics_def on_b2bua_def split: prod.splits)

lemma trunks_exact_cong: "trunks_of s' = trunks_of s \<Longrightarrow> trunks_exact s' = trunks_exact s"
  by (simp add: trunks_exact_def)

lemma keys_ok: "map fst (calls_of s') = map fst (calls_of s) \<Longrightarrow> hm_ok (calls_of s') = hm_ok (calls_of s)"
  by (simp add: hm_ok_def)

lemma finish_exact:
  assumes "hm_ok (calls_of s)" and "trunks_exact s" and "length (calls_of s) < 2 ^ 32"
  shows "trunks_exact (finished e u x s)"
proof (cases "hm_get (calls_of s) u")
  case None
  with assms show ?thesis by (simp add: finish_gone)
next
  case (Some c)
  define r where "r = call_record e u x (session_stats c s) c"
  define a where "a = (bc_answered_at c \<noteq> None)"
  define s1 where "s1 = (case bc_media_session_id c of None \<Rightarrow> s
    | Some sid \<Rightarrow> on_b2bua (\<lambda>b. b\<lparr>bm_media := forget_media_stats sid (bm_media b)\<rparr>) s)"
  define s3 where "s3 = on_metrics (observe_call r c) (write_cdr e r s1)"
  define s4 where "s4 = (case cd_trunk_id r of None \<Rightarrow> s3
    | Some name \<Rightarrow> on_trunks (inc_trunk_call name (cd_direction r) (trunk_outcome_label x a)) s3)"
  define s6 where "s6 = on_metrics (if a then inc_call_terminated else inc_call_failed)
    (on_trunks (count_call_on_trunk u None) s4)"
  have fin: "finished e u x s = set_gauges (ev_now e)
      (on_b2bua (terminate_call_with_reason (ev_now e) (ev_wall e) u (disconnect_reason x)) s6)"
    by (simp only: finish_call_def Some option.case Let_def snd_conv s6_def s4_def s3_def s1_def a_def r_def session_stats_def)
  have "trunks_of s1 = trunks_of s" "calls_of s1 = calls_of s"
    by (simp_all add: s1_def trunks_of_def on_b2bua_def split: option.splits)
  then have t3: "trunks_of s3 = trunks_of s" and c3: "calls_of s3 = calls_of s" by (simp_all add: s3_def)
  have k4: "map fst (calls_of s4) = map fst (calls_of s)" by (simp add: s4_def c3 split: option.splits)
  have e4: "trunks_exact s4"
    using assms(1,2) by (auto simp: s4_def t3 c3 trunks_exact_cong [OF t3] exact_inc_call split: option.splits)
  have len: "length (calls_of s4) < 2 ^ 32" using assms(3) k4 by (metis length_map)
  have ok4: "hm_ok (calls_of s4)" using assms(1) keys_ok [OF k4] by simp
  have "hm_get (calls_of s4) u = Some c"
    using Some by (simp add: s4_def c3 inc_trunk_other split: option.splits)
  then obtain v where v: "hm_get (sb_calls (trunks_of s6)) u = Some v" "cv_trunk_counted v = None"
    using counted_cleared by (fastforce simp: s6_def)
  have "trunks_exact s6"
    using exact_count_call [OF ok4 e4 len, of u None] by (simp add: s6_def trunks_exact_def)
  moreover have "hm_ok (calls_of s6)" using ok4 by (simp add: s6_def hm_ok_def)
  ultimately show ?thesis
    unfolding fin by (subst trunks_exact_cong [OF gauges_trunks]) (rule terminate_exact [OF _ _ v])
qed

lemma end_call_keys: "map fst (calls_of (end_call e x u s)) = filter ((\<noteq>) u) (map fst (calls_of s))"
  unfolding end_call_def finish_keys by simp

lemma end_call_exact:
  "hm_ok (calls_of s) \<Longrightarrow> trunks_exact s \<Longrightarrow> length (calls_of s) < 2 ^ 32 \<Longrightarrow> trunks_exact (end_call e x u s)"
  unfolding end_call_def by (rule finish_exact) (simp_all add: trunks_exact_def)

section \<open>The shutdown\<close>

lemma fold_frame: "(\<And>x s. f (g x s) = f s) \<Longrightarrow> f (fold g xs s) = f s"
  by (induction xs arbitrary: s) simp_all

lemma requests_trunks [simp]: "trunks_of (retransmit_requests e s) = trunks_of s"
  by (simp add: retransmit_requests_def Let_def fold_frame [of trunks_of] split: prod.splits)

lemma requests_calls [simp]: "calls_of (retransmit_requests e s) = calls_of s"
  by (simp add: retransmit_requests_def Let_def fold_frame [of calls_of] split: prod.splits)

lemma drain_frame [simp]:
  "trunks_of (drain_requests deadline now ticks s) = trunks_of s"
  "calls_of (drain_requests deadline now ticks s) = calls_of s"
  by (induction ticks arbitrary: now s) simp_all

lemma end_calls:
  assumes "hm_ok (calls_of s)" and "trunks_exact s" and "length (calls_of s) < 2 ^ 32"
  shows "map fst (calls_of (fold (end_call e x) us s)) = filter (\<lambda>k. k \<notin> set us) (map fst (calls_of s))
    \<and> trunks_exact (fold (end_call e x) us s)"
  using assms
proof (induction us arbitrary: s)
  case (Cons u us)
  let ?s = "end_call e x u s"
  note keys = end_call_keys [of e x u s]
  have "length (calls_of ?s) = length (filter ((\<noteq>) u) (map fst (calls_of s)))"
    using arg_cong [OF keys, of length] by simp
  also have "\<dots> \<le> length (calls_of s)" using length_filter_le [of "(\<noteq>) u" "map fst (calls_of s)"] by simp
  finally have "length (calls_of ?s) < 2 ^ 32" using Cons.prems(3) by simp
  moreover have "hm_ok (calls_of ?s)" using Cons.prems(1) unfolding hm_ok_def keys by simp
  ultimately have "map fst (calls_of (fold (end_call e x) us ?s)) = filter (\<lambda>k. k \<notin> set us) (map fst (calls_of ?s))
    \<and> trunks_exact (fold (end_call e x) us ?s)"
    using Cons.prems by (intro Cons.IH end_call_exact)
  then show ?case unfolding keys by (auto intro: filter_cong)
qed simp

text \<open>
  C12: A shutdown leaves nothing behind. Every call is ended and released, each got its record, and
  every trunk the SBC knows is back at no active call, in its state and in the published gauge.
\<close>
theorem graceful_shutdown_settles:
  assumes "hm_ok (calls_of s)" and "trunks_exact s" and "length (calls_of s) < 2 ^ 32"
    and s': "s' = graceful_shutdown e ticks s"
  shows "calls_of s' = [] \<and>
    (\<exists>rs. hands_over (sx_cdr s) rs (sx_cdr s') \<and> mset (map cd_uuid rs) = mset (map fst (calls_of s))) \<and>
    (\<forall>name. find_by_name name (sx_tm s') \<noteq> None \<longrightarrow>
       active_of name (trunks_of s') = 0 \<and> gauge_of name (trunks_of s') = 0)"
proof (intro conjI allI impI)
  note ended = end_calls [OF assms(1-3), of e Shutdown "map fst (calls_of s)"]
  have "map fst (calls_of s') = []" and exact': "trunks_exact s'"
    using ended assms(2) by (auto simp: s' graceful_shutdown_def trunks_exact_def filter_empty_conv)
  then show none: "calls_of s' = []" by simp
  from settles_apply [OF settles_shutdown assms(1), of e ticks]
  show "\<exists>rs. hands_over (sx_cdr s) rs (sx_cdr s') \<and> mset (map cd_uuid rs) = mset (map fst (calls_of s))"
    by (auto simp: billed_def s' [symmetric] none)
  fix name
  assume known: "find_by_name name (sx_tm s') \<noteq> None"
  have "sb_calls (trunks_of s') = []" "sb_tm (trunks_of s') = sx_tm s'" by (simp_all add: trunks_of_def none)
  with exact' known show "active_of name (trunks_of s') = 0" "gauge_of name (trunks_of s') = 0"
    by (simp_all add: trunks_exact_def exact_def counted_on_def)
qed

text \<open>An SBC with one call up.\<close>

definition demo_env :: call_env where
  "demo_env = \<lparr>ev_now = secs 10, ev_wall = secs 1000, ev_reply = (\<lambda>_. Inr ()), ev_rnd = (\<lambda>_ _. []),
     ev_cdr_id = (\<lambda>u. ''id-'' @ u), ev_json = (\<lambda>_. ''{}''), ev_file = (\<lambda>_. Appended)\<rparr>"

definition demo_idle :: "unit sbc" where
  "demo_idle = \<lparr>sx_b2bua = b2bua_set_event_bus [] (b2bua_manager_new (with_allocator (with_range_and_hold 10000 10010 0))),
     sx_tm = two_trunks, sx_series = [], sx_front = quiet_front, sx_cdr = MemoryOnly cdr_cache_new,
     sx_metrics = \<lparr>km_calls_total = 0, km_active_calls = 0, km_connected_total = 0, km_failed_total = 0,
       km_terminated_total = 0, km_setup_observed = [], km_duration_observed = [], km_active_webrtc = 0,
       km_allocated_ports = 0, km_request_retransmissions = 0, km_transaction_timeouts = 0, km_last_cdr_written = 0, km_active_registrations = 0,
       km_timer_422_retries = 0, km_media_relay_failures = 0\<rparr>,
     sx_identity = None, sx_trunk_ips = [], sx_max_call_duration = secs 7200, sx_call_setup_timeout = secs 60,
     sx_session_timer = None, sx_admin_kicks = []\<rparr>"

definition demo_up_b2bua :: "media_stats_handle b2bua_manager" where
  "demo_up_b2bua = snd (create_call (\<lambda>s p. Inr s) 7 2 3 ''cid'' ''tag'' (V4 10 0 0 7, 5060) None None Udp (sx_b2bua demo_idle))"

definition demo_one :: "unit sbc" where "demo_one = demo_idle\<lparr>sx_b2bua := demo_up_b2bua\<rparr>"

lemma demo_created:
  "create_call (\<lambda>s p. Inr s) 7 2 3 ''cid'' ''tag'' (V4 10 0 0 7, 5060) None None Udp (sx_b2bua demo_idle)
     = (Inr (hex_width 16 7), demo_up_b2bua)"
  by (simp add: demo_up_b2bua_def create_call_def Let_def b2bua_call_new_def)

lemma demo_one_calls: "map fst (calls_of demo_one) = [hex_width 16 7]" and demo_idle_calls: "calls_of demo_idle = []"
  using create_keys(1) [OF demo_created]
  by (simp_all add: demo_one_def demo_idle_def b2bua_set_event_bus_def b2bua_manager_new_def)

lemma demo_one_exact: "trunks_exact demo_one"
proof -
  have "exact (\<lambda>n. counted_on n (sb_calls fresh_sbc)) fresh_sbc"
    by (rule calls_invD(3) [OF calls_reachable_inv [OF fresh_sbc_reachable]])
  then have "exact (\<lambda>_. 0) fresh_sbc" by (simp add: fresh_sbc_def counted_on_def)
  then have "exact (\<lambda>_. 0) (trunks_of demo_one)"
    by (rule exact_frame) (simp_all add: fresh_sbc_def demo_one_def demo_idle_def trunks_of_def)
  moreover have "counted_on n (sb_calls (trunks_of demo_one)) = 0" for n
    by (simp add: counted_on_def trunks_of_def demo_one_def demo_up_b2bua_def create_call_def Let_def b2bua_call_new_def
        b2bua_emit_def demo_idle_def b2bua_set_event_bus_def b2bua_manager_new_def hm_insert_def call_view_of_def)
  ultimately show ?thesis by (simp add: trunks_exact_def)
qed

theorem graceful_shutdown_settles_witness:
  "calls_of (graceful_shutdown demo_env [demo_env] demo_one) = [] \<and>
   (\<exists>rs. hands_over (sx_cdr demo_one) rs (sx_cdr (graceful_shutdown demo_env [demo_env] demo_one)) \<and>
      mset (map cd_uuid rs) = {#hex_width 16 7#})"
proof -
  have ok: "hm_ok (calls_of demo_one)" unfolding hm_ok_def demo_one_calls by simp
  have "length (map fst (calls_of demo_one)) < 2 ^ 32" unfolding demo_one_calls by simp
  then have "length (calls_of demo_one) < 2 ^ 32" by simp
  from graceful_shutdown_settles [OF ok demo_one_exact this refl, of demo_env "[demo_env]"] show ?thesis
    unfolding demo_one_calls by simp
qed

end
