(* ===== verification/Sip_Relay.thy ===== *)
theory Sip_Relay
  imports Sip_Builder Invite_Tx Trunk Call_State
begin

text \<open>
  The message surgery of the call handlers: what \<^verbatim>\<open>sbc/mod.rs\<close>, \<^verbatim>\<open>sbc/invite_handler.rs\<close>,
  \<^verbatim>\<open>sbc/response_handler.rs\<close> and \<^verbatim>\<open>sbc/call_handler.rs\<close> do to the text of a request or response
  before it is relayed, resent or answered. Header lines of a parsed message are given as text;
  random bytes and the wall clock are arguments.
\<close>

section \<open>Reading\<close>

text \<open>\<^verbatim>\<open>header_value\<close> of \<^verbatim>\<open>sbc/cdr.rs\<close>: the first line of that name.\<close>

definition header_line_value :: "string \<Rightarrow> string \<Rightarrow> string option" where
  "header_line_value name line =
     (let prefix = to_ascii_lowercase name @ '':'' in
      if eq_ignore_ascii_case (take (length prefix) line) prefix then Some (trim (drop (length prefix) line)) else None)"

definition first_value :: "('a \<Rightarrow> 'b option) \<Rightarrow> 'a list \<Rightarrow> 'b option" where
  "first_value f xs = head_opt (List.map_filter f xs)"

definition header_value :: "string list \<Rightarrow> string \<Rightarrow> string option" where
  "header_value ls name = first_value (header_line_value name) ls"

definition extract_contact_uri :: "string \<Rightarrow> string" where
  "extract_contact_uri val =
     (let plain = trim (hd (split_on CHR '','' val)) in
      case (find_char CHR ''<'' val, find_char CHR ''>'' val) of
        (Some start, Some end') \<Rightarrow> if start < end' then str_slice (start + 1) end' val else plain
      | _ \<Rightarrow> plain)"

definition extract_uri_user :: "string \<Rightarrow> string option" where
  "extract_uri_user uri =
     Option.bind (case strip_prefix ''sip:'' uri of Some r \<Rightarrow> Some r | None \<Rightarrow> strip_prefix ''sips:'' uri)
       (\<lambda>r. let user = hd (split_on CHR ''@'' r) in if user = [] then None else Some user)"

definition extract_request_uri_from_raw :: "string \<Rightarrow> string option" where
  "extract_request_uri_from_raw raw =
     (case lines raw of
        [] \<Rightarrow> None
      | l # _ \<Rightarrow> (case split_whitespace l of _ # uri # _ \<Rightarrow> Some uri | _ \<Rightarrow> None))"

definition extract_callee_aor :: "string \<Rightarrow> string option \<Rightarrow> string option" where
  "extract_callee_aor uri to =
     (if uri \<noteq> [] then Some uri else if or_empty to \<noteq> [] then to else None)"

text \<open>\<^verbatim>\<open>header_u32\<close>: the header block is read line by line until the first of these headers.\<close>

fun header_u32 :: "string list \<Rightarrow> string list \<Rightarrow> nat option" where
  "header_u32 names [] = None"
| "header_u32 names (line # rest) =
     (if line = [] then None
      else if list_ex (\<lambda>n. starts_with (to_ascii_lowercase line) n) names
      then Option.bind (split_once CHR '':'' line)
             (\<lambda>(_, v). parse_uint u32_max (trim (hd (split_on CHR '';'' (trim v)))))
      else header_u32 names rest)"

definition parse_session_expires :: "string \<Rightarrow> nat option" where
  "parse_session_expires raw = header_u32 [''session-expires:'', ''x:''] (split_crlf raw)"

definition parse_min_se :: "string \<Rightarrow> nat option" where
  "parse_min_se raw = header_u32 [''min-se:''] (split_crlf raw)"

definition response_cseq :: "string list \<Rightarrow> (nat \<times> string) option" where
  "response_cseq ls =
     Option.bind (find (\<lambda>l. starts_with (to_ascii_lowercase l) ''cseq:'') ls) (\<lambda>raw.
     Option.bind (split_once CHR '':'' raw) (\<lambda>(_, v).
       case split_whitespace (trim v) of
         num # m # _ \<Rightarrow> map_option (\<lambda>n. (n, m)) (parse_uint u32_max num)
       | _ \<Rightarrow> None))"

definition required_tokens :: "string \<Rightarrow> string list" where
  "required_tokens line =
     (let lower = to_ascii_lowercase line in
      case (case strip_prefix ''require:'' lower of Some v \<Rightarrow> Some v | None \<Rightarrow> strip_prefix ''proxy-require:'' lower) of
        None \<Rightarrow> [] | Some v \<Rightarrow> map trim (split_on CHR '','' v))"

definition unsupported_required_extensions :: "string list \<Rightarrow> string list" where
  "unsupported_required_extensions ls =
     foldl (\<lambda>out t.
         if t \<noteq> [] \<and> \<not> list_ex (\<lambda>s. eq_ignore_ascii_case s t) SUPPORTED_EXTENSIONS \<and> t \<notin> set out then out @ [t] else out)
       [] (concat (map required_tokens ls))"

definition max_forwards :: "string option \<Rightarrow> nat option" where
  "max_forwards v = Option.bind v (\<lambda>s. parse_uint u32_max (trim s))"

text \<open>\<^verbatim>\<open>request_has_rfc3261_branch\<close>, on the line of the top Via.\<close>

definition request_has_rfc3261_branch :: "string option \<Rightarrow> bool" where
  "request_has_rfc3261_branch via =
     (case Option.bind via (\<lambda>v. map_option (\<lambda>pos. starts_with (drop (pos + 7) v) ''z9hG4bK'') (find_str ''branch='' v)) of
        None \<Rightarrow> False | Some b \<Rightarrow> b)"

section \<open>Session descriptions\<close>

fun strip_sdp_lines :: "string list \<Rightarrow> string" where
  "strip_sdp_lines [] = []"
| "strip_sdp_lines (line # rest) =
     (if line = [] then ''Content-Length: 0'' @ crlf @ crlf
      else if starts_with (to_ascii_lowercase line) ''content-type:'' \<or> starts_with (to_ascii_lowercase line) ''content-length:''
      then strip_sdp_lines rest
      else line @ crlf @ strip_sdp_lines rest)"

definition strip_sdp_body :: "string \<Rightarrow> string" where
  "strip_sdp_body raw = strip_sdp_lines (split_crlf raw)"

fun is_private_ip :: "ip_addr \<Rightarrow> bool" where
  "is_private_ip (V4 a b c d) \<longleftrightarrow>
     a = 127 \<or> a = 10 \<or> a = 172 \<and> 16 \<le> b \<and> b \<le> 31 \<or> a = 192 \<and> b = 168 \<or> a = 169 \<and> b = 254
     \<or> a = 0 \<and> b = 0 \<and> c = 0 \<and> d = 0 \<or> a = 100 \<and> 64 \<le> b \<and> b \<le> 127 \<or> a = 192 \<and> b = 0 \<and> c = 0
     \<or> a = 192 \<and> b = 0 \<and> c = 2 \<or> a = 198 \<and> (b = 18 \<or> b = 19) \<or> a = 198 \<and> b = 51 \<and> c = 100
     \<or> a = 203 \<and> b = 0 \<and> c = 113"
| "is_private_ip (V6 gs) \<longleftrightarrow> gs = [0, 0, 0, 0, 0, 0, 0, 1] \<or> gs = [0, 0, 0, 0, 0, 0, 0, 0]"

definition sdp_addr_line :: "string \<Rightarrow> ip_addr option \<times> nat option \<Rightarrow> ip_addr option \<times> nat option" where
  "sdp_addr_line raw acc =
     (let line = trim raw in
      case strip_prefix ''c=IN IP4 '' line of
        Some a \<Rightarrow> (case parse_ip (trim a) of Some ip \<Rightarrow> (Some ip, snd acc) | None \<Rightarrow> acc)
      | None \<Rightarrow>
          if starts_with line ''m=audio '' then
            (case split_whitespace line of
               _ # p # _ \<Rightarrow> (case parse_uint 65535 p of Some n \<Rightarrow> (fst acc, Some n) | None \<Rightarrow> acc)
             | _ \<Rightarrow> acc)
          else acc)"

fun sdp_addr_lines :: "string list \<Rightarrow> ip_addr option \<times> nat option \<Rightarrow> ip_addr option \<times> nat option" where
  "sdp_addr_lines [] acc = acc"
| "sdp_addr_lines (line # rest) acc =
     (let acc' = sdp_addr_line line acc
      in if fst acc' \<noteq> None \<and> snd acc' \<noteq> None then acc' else sdp_addr_lines rest acc')"

definition extract_sdp_rtp_addr :: "string \<Rightarrow> socket_addr option" where
  "extract_sdp_rtp_addr sdp =
     (case sdp_addr_lines (lines sdp) (None, None) of
        (Some ip, Some port) \<Rightarrow> if 0 < port then Some (ip, port) else None
      | _ \<Rightarrow> None)"

section \<open>Responses\<close>

definition build_plain_response :: "nat \<Rightarrow> string \<Rightarrow> string" where
  "build_plain_response status reason =
     ''SIP/2.0 '' @ show_nat status @ '' '' @ reason @ crlf @ ''Content-Length: 0'' @ crlf @ crlf"

definition is_invite_cseq :: "string \<Rightarrow> bool" where
  "is_invite_cseq v = (case split_whitespace v of _ # m # _ \<Rightarrow> eq_ignore_ascii_case m ''INVITE'' | _ \<Rightarrow> False)"

definition restore_cseq :: "nat option \<Rightarrow> raw_sip_message \<Rightarrow> raw_sip_message" where
  "restore_cseq cseq m =
     (case (cseq, header_values ''cseq'' m) of
        (Some n, v # _) \<Rightarrow> if is_invite_cseq v then set_header ''CSeq'' (show_nat n @ '' INVITE'') m else m
      | _ \<Rightarrow> m)"

definition own_contact :: "sbc_identity option \<Rightarrow> raw_sip_message \<Rightarrow> raw_sip_message" where
  "own_contact identity m =
     (case identity of
        None \<Rightarrow> m
      | Some i \<Rightarrow>
          prepend_header (''Record-Route: '' @ record_route i)
            (remove_header ''record-route''
              (if header_values ''contact'' m = [] then m
               else append_header (''Contact: <'' @ contact_uri i @ ''>'')
                      (remove_header ''m'' (remove_header ''contact'' m)))))"

definition rewrite_response_for_caller ::
  "string \<Rightarrow> string list \<Rightarrow> sbc_identity option \<Rightarrow> nat option \<Rightarrow> string"
where
  "rewrite_response_for_caller raw vias identity cseq =
     (case parse raw of
        Inl _ \<Rightarrow> raw
      | Inr m \<Rightarrow>
          render (own_contact identity (restore_cseq cseq
            (fold prepend_header (rev vias) (remove_header ''v'' (remove_header ''via'' m))))))"

section \<open>Requests\<close>

definition own_identity_for :: "transport \<Rightarrow> sbc_identity \<Rightarrow> sbc_identity" where
  "own_identity_for tp i =
     (let secure = (tp = Tls \<or> tp = Wss); port = (if secure then 5061 else 5060)
      in if port \<noteq> id_sip_port i
         then \<lparr>id_public_ip = id_public_ip i, id_sip_domain = id_sip_domain i, id_sip_port = port, id_tls = secure\<rparr>
         else i)"

definition apply_outbound_topology :: "instant \<Rightarrow> sbc_identity option \<Rightarrow> string \<Rightarrow> transport \<Rightarrow> string" where
  "apply_outbound_topology wall identity raw tp =
     (case identity of
        None \<Rightarrow> raw
      | Some i \<Rightarrow>
          (case apply_topology_hiding_outbound wall (own_identity_for tp i)
                  (case tp of Tls \<Rightarrow> ''TLS'' | Tcp \<Rightarrow> ''TCP'' | Wss \<Rightarrow> ''WSS'' | Ws \<Rightarrow> ''WS'' | _ \<Rightarrow> ''UDP'') raw of
             Inl _ \<Rightarrow> raw | Inr out \<Rightarrow> out))"

definition position_or :: "nat \<Rightarrow> ('a \<Rightarrow> bool) \<Rightarrow> 'a list \<Rightarrow> nat" where
  "position_or d P xs = (if list_ex P xs then length (takeWhile (\<lambda>x. \<not> P x) xs) else d)"

definition insert_at :: "nat \<Rightarrow> 'a list \<Rightarrow> 'a list \<Rightarrow> 'a list" where
  "insert_at n new xs = take n xs @ new @ drop n xs"

text \<open>
  The first line of a stored INVITE is its request line, so a line to insert after always exists
  (\<^verbatim>\<open>Vec::insert\<close> past the end would panic).
\<close>

definition after_request_and_via :: "string \<Rightarrow> bool" where
  "after_request_and_via l \<longleftrightarrow>
     (let lower = to_ascii_lowercase l
      in \<not> starts_with lower ''invite '' \<and> \<not> starts_with lower ''via:'' \<and> \<not> starts_with lower ''v:'')"

definition inject_proxy_auth_into_invite :: "nat list \<Rightarrow> string \<Rightarrow> string \<Rightarrow> string" where
  "inject_proxy_auth_into_invite rnd raw_invite auth =
     (let renewed = renew_invite_transaction rnd raw_invite;
          (head, body) = (case find_str crlf2 renewed of
                            Some pos \<Rightarrow> (take pos renewed, drop (pos + 4) renewed)
                          | None \<Rightarrow> (renewed, ''''));
          ls = filter (\<lambda>l. \<not> starts_with (to_ascii_lowercase l) ''proxy-authorization:'') (split_crlf head)
      in join_with crlf (insert_at (position_or 1 after_request_and_via ls) [''Proxy-Authorization: '' @ auth] ls)
         @ crlf @ crlf @ body)"

definition fresh_branch :: "string \<Rightarrow> string \<Rightarrow> string" where
  "fresh_branch fresh line =
     (case find_str ''branch='' line of
        Some pos \<Rightarrow> take (pos + 7) line @ fresh @ dropWhile (\<lambda>c. c \<noteq> CHR '';'' \<and> c \<noteq> CHR '','') (drop (pos + 7) line)
      | None \<Rightarrow> line)"

fun fresh_top_via :: "string \<Rightarrow> string list \<Rightarrow> string list" where
  "fresh_top_via fresh [] = []"
| "fresh_top_via fresh (line # rest) =
     (if starts_with (to_ascii_lowercase line) ''via:'' \<or> starts_with (to_ascii_lowercase line) ''v:''
      then fresh_branch fresh line # rest
      else if line = [] then line # rest
      else line # fresh_top_via fresh rest)"

definition retarget_invite_for_trunk :: "nat list \<Rightarrow> string \<Rightarrow> trunk_config \<Rightarrow> string option" where
  "retarget_invite_for_trunk rnd raw_invite trunk =
     (let ls = split_crlf raw_invite; parts = splitn 3 CHR '' '' (hd ls) in
      if hd parts \<noteq> ''INVITE'' then None
      else case tl parts of
             [] \<Rightarrow> None
           | uri # ver \<Rightarrow>
               map_option (\<lambda>r.
                   let user = hd (split_on CHR '';'' (hd (split_on CHR ''@'' r)));
                       version = (case ver of [] \<Rightarrow> ''SIP/2.0'' | v # _ \<Rightarrow> v)
                   in join_with crlf
                        ((''INVITE sip:'' @ normalize_number trunk user @ ''@'' @ tc_host trunk @ '':''
                          @ show_nat (tc_port trunk) @ '' '' @ version)
                         # fresh_top_via (new_branch rnd) (tl ls)))
                 (case strip_prefix ''sip:'' uri of Some r \<Rightarrow> Some r | None \<Rightarrow> strip_prefix ''sips:'' uri))"

section \<open>Session timers\<close>

definition offers_timer :: "raw_sip_message \<Rightarrow> bool" where
  "offers_timer m =
     list_ex (\<lambda>v. list_ex (\<lambda>tok. eq_ignore_ascii_case (trim tok) ''timer'') (split_on CHR '','' v)) (header_values ''supported'' m)"

definition is_content_length_line :: "string \<Rightarrow> bool" where
  "is_content_length_line h \<longleftrightarrow>
     (let name = to_ascii_lowercase (trim (hd (split_on CHR '':'' h))) in name = ''content-length'' \<or> name = ''l'')"

definition apply_session_timer_headers :: "nat \<Rightarrow> nat \<Rightarrow> raw_sip_message \<Rightarrow> raw_sip_message" where
  "apply_session_timer_headers expires min_se m =
     (let m1 = remove_header ''min-se'' (remove_header ''x'' (remove_header ''session-expires'' m));
          new = (if offers_timer m1 then [] else [''Supported: timer''])
                @ [''Session-Expires: '' @ show_nat expires, ''Min-SE: '' @ show_nat min_se]
      in m1\<lparr>rm_headers := insert_at (position_or (length (rm_headers m1)) is_content_length_line (rm_headers m1))
              new (rm_headers m1)\<rparr>)"

definition set_session_timer_headers :: "string \<Rightarrow> nat \<Rightarrow> nat \<Rightarrow> string" where
  "set_session_timer_headers raw expires min_se =
     (case parse raw of Inl _ \<Rightarrow> raw | Inr m \<Rightarrow> render (apply_session_timer_headers expires min_se m))"

definition session_interval_retry_values :: "nat option \<Rightarrow> nat \<Rightarrow> nat \<times> nat \<Rightarrow> (nat \<times> nat) option" where
  "session_interval_retry_values offered_se min_se_422 configured =
     (if min_se_422 < 90 then None
      else if (case offered_se of None \<Rightarrow> False | Some offered \<Rightarrow> min_se_422 \<le> offered) then None
      else
        let new_min_se = max min_se_422 (snd configured);
            new_se = max (max (case offered_se of None \<Rightarrow> 0 | Some n \<Rightarrow> n) (fst configured)) new_min_se
        in Some (new_se, new_min_se))"

definition build_session_interval_retry :: "nat list \<Rightarrow> string \<Rightarrow> nat \<Rightarrow> nat \<Rightarrow> string" where
  "build_session_interval_retry rnd stored_invite expires min_se =
     renew_invite_transaction rnd
       (case parse stored_invite of
          Inl _ \<Rightarrow> stored_invite
        | Inr m \<Rightarrow> render (apply_session_timer_headers expires min_se (remove_header ''proxy-authorization'' m)))"

definition ack_cseq_for_callee :: "string \<Rightarrow> nat option \<Rightarrow> string" where
  "ack_cseq_for_callee caller_cseq cseq = (case cseq of Some n \<Rightarrow> show_nat n @ '' ACK'' | None \<Rightarrow> caller_cseq)"

section \<open>Session timers are stamped once\<close>

lemma insert_before:
  "insert_at (position_or (length xs) P xs) new xs = takeWhile (\<lambda>x. \<not> P x) xs @ new @ dropWhile (\<lambda>x. \<not> P x) xs"
proof (cases "list_ex P xs")
  case True
  have "take (length (takeWhile (\<lambda>x. \<not> P x) xs)) xs = takeWhile (\<lambda>x. \<not> P x) xs"
    by (rule takeWhile_eq_take [symmetric])
  with True show ?thesis by (simp add: insert_at_def position_or_def dropWhile_eq_drop)
next
  case False
  then have "takeWhile (\<lambda>x. \<not> P x) xs = xs" "dropWhile (\<lambda>x. \<not> P x) xs = []"
    by (simp_all add: list_ex_iff takeWhile_eq_all_conv dropWhile_eq_Nil_conv)
  then show ?thesis using False unfolding insert_at_def position_or_def by (simp only: if_False take_all drop_all le_refl)
qed

definition timer_lines :: "nat \<Rightarrow> nat \<Rightarrow> string list" where
  "timer_lines e n = [''Session-Expires: '' @ show_nat e, ''Min-SE: '' @ show_nat n]"

definition timer_header :: "string \<Rightarrow> bool" where
  "timer_header h \<longleftrightarrow> header_match ''session-expires'' h \<noteq> None \<or> header_match ''x'' h \<noteq> None \<or> header_match ''min-se'' h \<noteq> None"

definition stamp :: "nat \<Rightarrow> nat \<Rightarrow> string list \<Rightarrow> string list" where
  "stamp e n hs =
     takeWhile (\<lambda>h. \<not> is_content_length_line h) hs
     @ (if offers_timer \<lparr>rm_start_line = [], rm_headers = hs, rm_body = []\<rparr> then [] else [''Supported: timer''])
     @ timer_lines e n @ dropWhile (\<lambda>h. \<not> is_content_length_line h) hs"

lemma offers_timer_headers: "offers_timer m = offers_timer \<lparr>rm_start_line = [], rm_headers = rm_headers m, rm_body = []\<rparr>"
  by (simp add: offers_timer_def header_values_def)

lemma apply_timer_stamp:
  "apply_session_timer_headers e n m = m\<lparr>rm_headers := stamp e n (filter (\<lambda>h. \<not> timer_header h) (rm_headers m))\<rparr>"
proof -
  let ?m1 = "remove_header ''min-se'' (remove_header ''x'' (remove_header ''session-expires'' m))"
  have m1: "?m1 = m\<lparr>rm_headers := filter (\<lambda>h. \<not> timer_header h) (rm_headers m)\<rparr>"
    by (simp add: remove_header_def timer_header_def conj_ac)
  have "offers_timer ?m1 = offers_timer \<lparr>rm_start_line = [], rm_headers = rm_headers ?m1, rm_body = []\<rparr>"
    by (rule offers_timer_headers)
  then show ?thesis
    unfolding apply_session_timer_headers_def Let_def insert_before
    by (simp add: m1 stamp_def timer_lines_def)
qed

lemmas line_eval = header_match_def trim_def trim_start_def trim_end_def is_space_def to_ascii_lowercase_def
  lower_char_def short_form_def char_of_def bit_0 Let_def

lemma stamped_lines:
  "timer_header (''Session-Expires: '' @ v)" "timer_header (''Min-SE: '' @ v)"
  "\<not> timer_header ''Supported: timer''"
  "\<not> is_content_length_line (''Session-Expires: '' @ v)" "\<not> is_content_length_line (''Min-SE: '' @ v)"
  "\<not> is_content_length_line ''Supported: timer''"
  by (simp_all add: timer_header_def line_eval is_content_length_line_def)

lemma supported_offers:
  "list_ex (\<lambda>v. list_ex (\<lambda>tok. eq_ignore_ascii_case (trim tok) ''timer'') (split_on CHR '','' v))
     (List.map_filter (header_match ''supported'') (xs @ [''Supported: timer''] @ ys))"
  by (simp add: List.map_filter_def) (simp add: line_eval eq_ignore_ascii_case_def)

lemma restamp:
  assumes "\<forall>h \<in> set g. \<not> timer_header h"
  shows "stamp e' n' (filter (\<lambda>h. \<not> timer_header h) (stamp e n g)) = stamp e' n' g"
proof -
  define pre where "pre = takeWhile (\<lambda>h. \<not> is_content_length_line h) g"
  define post where "post = dropWhile (\<lambda>h. \<not> is_content_length_line h) g"
  define offered where "offered = offers_timer \<lparr>rm_start_line = [], rm_headers = g, rm_body = []\<rparr>"
  have g: "pre @ post = g" by (simp add: pre_def post_def)
  have "filter (\<lambda>h. \<not> timer_header h) (timer_lines e n) = []"
    using stamped_lines(1,2) by (simp only: timer_lines_def filter.simps) simp
  moreover have "filter (\<lambda>h. \<not> timer_header h) pre = pre" "filter (\<lambda>h. \<not> timer_header h) post = post"
    using assms g by (auto simp: filter_id_conv)
  ultimately have kept: "filter (\<lambda>h. \<not> timer_header h) (stamp e n g) =
      pre @ (if offered then [] else [''Supported: timer'']) @ post"
    unfolding stamp_def pre_def [symmetric] post_def [symmetric] offered_def [symmetric]
    using stamped_lines(3) by simp
  show ?thesis
  proof (cases offered)
    case True
    then show ?thesis unfolding kept by (simp add: g)
  next
    case False
    have "offers_timer \<lparr>rm_start_line = [], rm_headers = pre @ [''Supported: timer''] @ post, rm_body = []\<rparr>"
      unfolding offers_timer_def header_values_def using supported_offers by simp
    moreover have pre_ok: "\<not> is_content_length_line h" if "h \<in> set pre" for h
      using that by (auto simp: pre_def dest: set_takeWhileD)
    moreover have "takeWhile (\<lambda>h. \<not> is_content_length_line h) post = []" "dropWhile (\<lambda>h. \<not> is_content_length_line h) post = post"
      using hd_dropWhile [of "\<lambda>h. \<not> is_content_length_line h" g] by (cases post; simp add: post_def [symmetric])+
    ultimately have "offers_timer \<lparr>rm_start_line = [], rm_headers = pre @ [''Supported: timer''] @ post, rm_body = []\<rparr>"
      "takeWhile (\<lambda>h. \<not> is_content_length_line h) (pre @ [''Supported: timer''] @ post) = pre @ [''Supported: timer'']"
      "dropWhile (\<lambda>h. \<not> is_content_length_line h) (pre @ [''Supported: timer''] @ post) = post"
      using stamped_lines(6) by (simp_all add: takeWhile_append2 dropWhile_append2)
    then have "stamp e' n' (pre @ [''Supported: timer''] @ post) = (pre @ [''Supported: timer'']) @ [] @ timer_lines e' n' @ post"
      unfolding stamp_def by (simp only: if_True)
    moreover have "stamp e' n' g = pre @ [''Supported: timer''] @ timer_lines e' n' @ post"
      using False unfolding stamp_def pre_def [symmetric] post_def [symmetric] offered_def [symmetric] by simp
    ultimately show ?thesis unfolding kept if_not_P [OF False] by simp
  qed
qed

lemma trim_number: "trim (show_nat n) = show_nat n" "trim (CHR '' '' # show_nat n) = show_nat n"
proof -
  have ends: "\<not> is_space (hd (show_nat n))" "\<not> is_space (last (show_nat n))"
    using show_nat_no_space [of n] show_nat_digits(2) [of n] by (simp_all add: list_all_iff)
  then show "trim (show_nat n) = show_nat n" by (intro trim_id) blast
  then show "trim (CHR '' '' # show_nat n) = show_nat n" by (simp add: trim_def trim_start_def is_space_def)
qed

lemma timer_line_values:
  "header_match ''session-expires'' (''Session-Expires: '' @ show_nat e) = Some (show_nat e)"
  "header_match ''session-expires'' (''Min-SE: '' @ show_nat e) = None"
  "header_match ''min-se'' (''Min-SE: '' @ show_nat e) = Some (show_nat e)"
  "header_match ''min-se'' (''Session-Expires: '' @ show_nat e) = None"
  "header_match ''session-expires'' ''Supported: timer'' = None"
  "header_match ''min-se'' ''Supported: timer'' = None"
  using trim_number(2) by (simp_all add: header_match_def Let_def)
    (simp_all add: to_ascii_lowercase_def lower_char_def trim_def trim_start_def trim_end_def is_space_def
      short_form_def char_of_def bit_0)

lemma map_filter_none: "(\<And>x. x \<in> set xs \<Longrightarrow> f x = None) \<Longrightarrow> List.map_filter f xs = []"
  by (auto simp: List.map_filter_def filter_empty_conv)

lemma map_filter_append: "List.map_filter f (xs @ ys) = List.map_filter f xs @ List.map_filter f ys"
  by (simp add: List.map_filter_def)

lemma stamp_values:
  assumes "\<forall>h \<in> set g. \<not> timer_header h"
  shows "List.map_filter (header_match ''session-expires'') (stamp e n g) = [show_nat e]"
    and "List.map_filter (header_match ''min-se'') (stamp e n g) = [show_nat n]"
proof -
  let ?P = "\<lambda>h. \<not> is_content_length_line h"
  have none: "List.map_filter (header_match k) (takeWhile ?P g) = []" "List.map_filter (header_match k) (dropWhile ?P g) = []"
    if "k \<in> {''session-expires'', ''min-se''}" for k
    using assms that by (auto intro!: map_filter_none simp: timer_header_def dest: set_takeWhileD set_dropWhileD)
  show "List.map_filter (header_match ''session-expires'') (stamp e n g) = [show_nat e]"
    "List.map_filter (header_match ''min-se'') (stamp e n g) = [show_nat n]"
    unfolding stamp_def timer_lines_def map_filter_append
    using timer_line_values by (simp_all add: none map_filter_simps)
qed

lemma stamp_others:
  "filter (\<lambda>h. \<not> timer_header h \<and> h \<noteq> ''Supported: timer'') (stamp e n g) =
     filter (\<lambda>h. \<not> timer_header h \<and> h \<noteq> ''Supported: timer'') g"
proof -
  let ?Q = "\<lambda>h. \<not> timer_header h \<and> h \<noteq> ''Supported: timer''" and ?P = "\<lambda>h. \<not> is_content_length_line h"
  have "filter ?Q (timer_lines e n) = []"
    using stamped_lines(1,2) by (simp only: timer_lines_def filter.simps) simp
  then have "filter ?Q (stamp e n g) = filter ?Q (takeWhile ?P g @ dropWhile ?P g)"
    by (simp add: stamp_def del: takeWhile_dropWhile_id)
  then show ?thesis by (simp only: takeWhile_dropWhile_id)
qed

lemma stamp_plain:
  assumes "\<forall>h \<in> set g. plain_line h"
  shows "\<forall>h \<in> set (stamp e n g). plain_line h"
proof -
  have "plain_line (''Session-Expires: '' @ show_nat e)" "plain_line (''Min-SE: '' @ show_nat n)" "plain_line ''Supported: timer''"
    using clean_show_nat by (auto simp: plain_line_def clean_def starts_blank_def starts_with_def)
  with assms show ?thesis by (auto simp: stamp_def timer_lines_def dest: set_takeWhileD set_dropWhileD)
qed



section \<open>A response finds its way back\<close>

lemma prepend_all: "fold prepend_header (rev vs) m = m\<lparr>rm_headers := vs @ rm_headers m\<rparr>"
  by (induction vs arbitrary: m rule: rev_induct) (simp_all add: prepend_header_def)

lemma remove_via: "remove_header ''v'' (remove_header ''via'' m) =
    m\<lparr>rm_headers := filter (\<lambda>h. canon_name h \<noteq> Some ''via'') (rm_headers m)\<rparr>"
  by (subst remove_compact) (auto simp: remove_canonical hidden_canonical short_form_def)

lemma cseq_canonical: "canonical ''cseq''"
  by (simp add: canonical_eval)

lemma cseq_line: "canon_name (''CSeq: '' @ v) = Some ''cseq''" "header_match ''CSeq'' h = header_match ''cseq'' h"
proof -
  have lc: "to_ascii_lowercase ''CSeq'' = to_ascii_lowercase ''cseq''" by code_simp
  show "header_match ''CSeq'' h = header_match ''cseq'' h" unfolding header_match_def lc ..
qed (simp add: canon_name_def to_ascii_lowercase_def lower_char_def trim_def trim_start_def
      trim_end_def is_space_def short_form_def char_of_def bit_0)

lemma replace_first_classes:
  assumes "replace_first P new hs = Some hs'" and "\<And>h. P h \<Longrightarrow> c h = c new"
  shows "map c hs' = map c hs" and "filter (\<lambda>h. c h \<noteq> c new) hs' = filter (\<lambda>h. c h \<noteq> c new) hs"
    and "set hs' \<subseteq> insert new (set hs)"
  using assms by (induction hs arbitrary: hs') (auto split: if_splits)

text \<open>Only the CSeq line can change when the number of the INVITE is restored.\<close>

lemma restore_cseq_frame:
  "rm_start_line (restore_cseq k m) = rm_start_line m" "rm_body (restore_cseq k m) = rm_body m"
  "filter (\<lambda>h. canon_name h \<noteq> Some ''cseq'') (rm_headers (restore_cseq k m)) =
     filter (\<lambda>h. canon_name h \<noteq> Some ''cseq'') (rm_headers m)"
  "set (rm_headers (restore_cseq k m)) \<subseteq> set (rm_headers m) \<union> {''CSeq: '' @ show_nat n @ '' INVITE'' | n. True}"
proof -
  have "\<exists>hs. restore_cseq k m = m\<lparr>rm_headers := hs\<rparr> \<and>
      filter (\<lambda>h. canon_name h \<noteq> Some ''cseq'') hs = filter (\<lambda>h. canon_name h \<noteq> Some ''cseq'') (rm_headers m) \<and>
      set hs \<subseteq> set (rm_headers m) \<union> {''CSeq: '' @ show_nat n @ '' INVITE'' | n. True}"
  proof (cases "restore_cseq k m = m")
    case False
    then obtain n where n: "restore_cseq k m = set_header ''CSeq'' (show_nat n @ '' INVITE'') m"
      by (auto simp: restore_cseq_def split: option.splits list.splits if_splits)
    let ?new = "''CSeq'' @ '': '' @ show_nat n @ '' INVITE''"
    have new: "canon_name ?new = Some ''cseq''" using cseq_line(1) by simp
    have P: "header_match ''CSeq'' h \<noteq> None \<Longrightarrow> canon_name h = canon_name ?new" for h
      unfolding new cseq_line(2) by (metis header_match_canonical_None [OF cseq_canonical])
    show ?thesis
    proof (cases "replace_first (\<lambda>h. header_match ''CSeq'' h \<noteq> None) ?new (rm_headers m)")
      case None
      then show ?thesis using new by (auto simp: n set_header_def Let_def intro!: exI [of _ n])
    next
      case (Some hs)
      with replace_first_classes [where c = canon_name, OF Some P] new show ?thesis
        by (auto simp: n set_header_def Let_def intro!: exI [of _ n])
    qed
  qed (auto intro!: exI [of _ "rm_headers m"])
  then show "rm_start_line (restore_cseq k m) = rm_start_line m" "rm_body (restore_cseq k m) = rm_body m"
    "filter (\<lambda>h. canon_name h \<noteq> Some ''cseq'') (rm_headers (restore_cseq k m)) =
       filter (\<lambda>h. canon_name h \<noteq> Some ''cseq'') (rm_headers m)"
    "set (rm_headers (restore_cseq k m)) \<subseteq> set (rm_headers m) \<union> {''CSeq: '' @ show_nat n @ '' INVITE'' | n. True}"
    by auto
qed

lemma restore_cseq_class:
  assumes "\<not> P (Some ''cseq'')"
  shows "filter (\<lambda>h. P (canon_name h)) (rm_headers (restore_cseq k m)) = filter (\<lambda>h. P (canon_name h)) (rm_headers m)"
proof -
  have "filter (\<lambda>h. P (canon_name h)) hs = filter (\<lambda>h. P (canon_name h)) (filter (\<lambda>h. canon_name h \<noteq> Some ''cseq'') hs)" for hs
    using assms by (auto intro: filter_cong)
  then show ?thesis using restore_cseq_frame(3) by metis
qed

lemma own_contact_headers:
  "rm_headers (own_contact (Some i) m) = sbc_record_route i # filter (\<lambda>h. canon_name h \<noteq> Some ''record-route'')
     (if header_values ''contact'' m = [] then rm_headers m
      else filter (\<lambda>h. canon_name h \<noteq> Some ''contact'') (rm_headers m) @ [sbc_contact i])"
  "rm_start_line (own_contact (Some i) m) = rm_start_line m" "rm_body (own_contact (Some i) m) = rm_body m"
proof -
  have "remove_header ''m'' (remove_header ''contact'' m) =
      m\<lparr>rm_headers := filter (\<lambda>h. canon_name h \<noteq> Some ''contact'') (rm_headers m)\<rparr>"
    by (subst remove_compact) (auto simp: remove_canonical hidden_canonical short_form_def)
  then show "rm_headers (own_contact (Some i) m) = sbc_record_route i # filter (\<lambda>h. canon_name h \<noteq> Some ''record-route'')
     (if header_values ''contact'' m = [] then rm_headers m
      else filter (\<lambda>h. canon_name h \<noteq> Some ''contact'') (rm_headers m) @ [sbc_contact i])"
    "rm_start_line (own_contact (Some i) m) = rm_start_line m" "rm_body (own_contact (Some i) m) = rm_body m"
    unfolding own_contact_def option.case sbc_record_route_def [symmetric] sbc_contact_def [symmetric]
    by (simp_all add: prepend_header_def append_header_def remove_canonical hidden_canonical)
qed

definition rewritten_names :: "string set" where
  "rewritten_names = {''via'', ''contact'', ''record-route'', ''cseq''}"

text \<open>
  C22: a response goes back to the caller as the answer to the request the caller sent. Its Via
  headers are the caller's own, in order and with nothing of the other leg; the only Contact and the
  only Record-Route are the SBC's; start line, body and every other header but the CSeq are the
  callee's.
\<close>
theorem response_restored_for_caller:
  assumes "wf_msg m" and vias: "\<forall>v \<in> set vias. plain_line v \<and> canon_name v = Some ''via''" and "clean_identity i"
  shows "\<exists>m'. parse (rewrite_response_for_caller (render m) vias (Some i) cseq) = Inr m' \<and>
     filter (\<lambda>h. canon_name h = Some ''via'') (rm_headers m') = vias \<and>
     filter (\<lambda>h. canon_name h = Some ''contact'') (rm_headers m') =
       (if header_values ''contact'' m = [] then [] else [sbc_contact i]) \<and>
     filter (\<lambda>h. canon_name h = Some ''record-route'') (rm_headers m') = [sbc_record_route i] \<and>
     rm_start_line m' = rm_start_line m \<and> rm_body m' = rm_body m \<and>
     filter (\<lambda>h. canon_name h \<notin> Some ` rewritten_names) (rm_headers m') =
     filter (\<lambda>h. canon_name h \<notin> Some ` rewritten_names) (rm_headers m)"
proof -
  define m1 where "m1 = m\<lparr>rm_headers := vias @ filter (\<lambda>h. canon_name h \<noteq> Some ''via'') (rm_headers m)\<rparr>"
  define m2 where "m2 = restore_cseq cseq m1"
  define m' where "m' = own_contact (Some i) m2"
  have out: "rewrite_response_for_caller (render m) vias (Some i) cseq = render m'"
    by (simp add: rewrite_response_for_caller_def parse_render [OF assms(1)] m'_def m2_def m1_def remove_via prepend_all)
  have plain_cseq: "plain_line (''CSeq: '' @ show_nat n @ '' INVITE'')" for n
    using clean_show_nat [of n] by (intro plain_line_prefix) (auto simp: clean_def starts_blank_def starts_with_def)
  have "\<forall>h \<in> set (rm_headers m1). plain_line h" using assms(1) vias by (auto simp: m1_def wf_msg_def)
  then have "\<forall>h \<in> set (rm_headers m2). plain_line h"
    using restore_cseq_frame(4) [of cseq m1] plain_cseq by (auto simp: m2_def)
  then have "wf_msg m'"
    using assms(1) sbc_lines_plain(2,3) [OF assms(3)] restore_cseq_frame(1)
    by (auto simp: wf_msg_def m'_def own_contact_headers m2_def m1_def clean_def split: if_splits)
  then have again: "parse (render m') = Inr m'" by (rule parse_render)
  have via_only: "filter (\<lambda>h. P (canon_name h)) vias = []" if "\<not> P (Some ''via'')" for P
    using vias that by (auto simp: filter_empty_conv)
  have cls: "filter (\<lambda>h. P (canon_name h)) (rm_headers m2) = filter (\<lambda>h. P (canon_name h)) (rm_headers m)"
    if "\<not> P (Some ''cseq'')" "\<not> P (Some ''via'')" for P
    using that restore_cseq_class [of P cseq m1] via_only [of P]
    by (auto simp: m2_def m1_def intro: filter_cong)
  have via2: "filter (\<lambda>h. canon_name h = Some ''via'') (rm_headers m2) = vias"
    using restore_cseq_class [of "\<lambda>c. c = Some ''via''" cseq m1] vias by (simp add: m2_def m1_def)
  have c0: "header_values ''contact'' m2 = [] \<longleftrightarrow> header_values ''contact'' m = []"
    using cls [of "\<lambda>c. c = Some ''contact''"] by (simp add: header_values_canonical hidden_canonical)
  have none: "filter (\<lambda>h. canon_name h = Some ''contact'') (rm_headers m2) = []" if "header_values ''contact'' m = []"
    using that c0 by (simp add: header_values_canonical hidden_canonical)
  have rest: "filter (\<lambda>h. canon_name h \<notin> Some ` rewritten_names) (rm_headers m2) =
      filter (\<lambda>h. canon_name h \<notin> Some ` rewritten_names) (rm_headers m)"
    by (rule cls) (simp_all add: rewritten_names_def)
  show ?thesis
    unfolding out
  proof (intro exI conjI)
    show "parse (render m') = Inr m'" by (rule again)
    show "filter (\<lambda>h. canon_name h = Some ''via'') (rm_headers m') = vias"
      using via2 by (auto simp: m'_def own_contact_headers conj_commute cong: conj_cong)
    show "filter (\<lambda>h. canon_name h = Some ''contact'') (rm_headers m') =
        (if header_values ''contact'' m = [] then [] else [sbc_contact i])"
      using none by (auto simp: m'_def own_contact_headers c0 filter_empty_conv)
    show "filter (\<lambda>h. canon_name h = Some ''record-route'') (rm_headers m') = [sbc_record_route i]"
      by (simp add: m'_def own_contact_headers)
    show "rm_start_line m' = rm_start_line m" "rm_body m' = rm_body m"
      by (simp_all add: m'_def own_contact_headers m2_def restore_cseq_frame m1_def)
    show "filter (\<lambda>h. canon_name h \<notin> Some ` rewritten_names) (rm_headers m') =
        filter (\<lambda>h. canon_name h \<notin> Some ` rewritten_names) (rm_headers m)"
      using rest by (simp add: m'_def own_contact_headers rewritten_names_def conj_ac)
  qed
qed

definition sample_ok :: raw_sip_message where
  "sample_ok = \<lparr>rm_start_line = ''SIP/2.0 200 OK'',
     rm_headers = [''Via: SIP/2.0/UDP 203.0.113.1;branch=z9hG4bKout'', ''Contact: <sip:gw@198.51.100.7>'', ''CSeq: 4 INVITE''],
     rm_body = ''v=0''\<rparr>"

theorem response_restored_for_caller_witness:
  "\<exists>m'. parse (rewrite_response_for_caller (render sample_ok) [''Via: SIP/2.0/UDP 10.0.0.9;branch=z9hG4bKin'']
       (Some \<lparr>id_public_ip = ''203.0.113.1'', id_sip_domain = ''sip.nixi.tel'', id_sip_port = 5060, id_tls = False\<rparr>) (Some 1)) = Inr m' \<and>
     filter (\<lambda>h. canon_name h = Some ''via'') (rm_headers m') = [''Via: SIP/2.0/UDP 10.0.0.9;branch=z9hG4bKin''] \<and>
     rm_body m' = ''v=0''"
proof -
  let ?i = "\<lparr>id_public_ip = ''203.0.113.1'', id_sip_domain = ''sip.nixi.tel'', id_sip_port = 5060, id_tls = False\<rparr>"
  let ?v = "''Via: '' @ ''SIP/2.0/UDP 10.0.0.9;branch=z9hG4bKin''"
  have wf: "wf_msg sample_ok"
    by (simp add: sample_ok_def wf_msg_def plain_line_def starts_blank_def starts_with_def trim_def trim_start_def trim_end_def is_space_def)
  have "plain_line ?v" by (simp add: plain_line_def starts_blank_def starts_with_def)
  then have v: "\<forall>v \<in> set [?v]. plain_line v \<and> canon_name v = Some ''via''" using canon_name_lines(1) by (simp only: list.set) blast
  have "clean_identity ?i" by (simp add: clean_identity_def clean_def)
  from response_restored_for_caller [OF wf v this, of "Some 1"] show ?thesis by (auto simp: sample_ok_def)
qed

end
