(* ===== verification/Call_Handler.thy ===== *)
theory Call_Handler
  imports Call_Teardown Sip_Relay Registrar
begin

text \<open>
  The in-dialog handlers of \<^verbatim>\<open>sbc/call_handler.rs\<close> (ACK, BYE, CANCEL, INFO, REFER, re-INVITE, the
  refresh timer, a closed connection) and the replies of \<^verbatim>\<open>sbc/response_handler.rs\<close> to a refresh, to a
  superseded attempt and to a final error, on the state of \<open>Call_Teardown\<close>. Of a message parsed by
  \<^verbatim>\<open>rsip\<close> the model has the values the handlers read: its text, its header lines, some header values,
  and the lines a response echoes (with the fresh To tag), or why they cannot be built. The closed
  connection also changes the registrar, which is a second component of its state.
\<close>

section \<open>Messages\<close>

record sip_request =
  sq_view :: request_view
  sq_to :: "string option"
  sq_cseq_number :: "nat option"
  sq_text :: string
  sq_body :: "string option"
  sq_echo :: "string list result"

record sip_response =
  sp_status :: nat
  sp_lines :: "string list"
  sp_from :: "string option"
  sp_call_id :: "string option"
  sp_contact :: "string option"

type_synonym peer = "socket_addr \<times> transport \<times> nat option"

definition call_id_of :: "sip_request \<Rightarrow> string" where
  "call_id_of rq = or_empty (rq_call_id (sq_view rq))"

text \<open>\<^verbatim>\<open>build_plain_response_for_request\<close>: the phrase is the canonical one of the code.\<close>

definition response_with :: "nat \<Rightarrow> string list \<Rightarrow> string \<Rightarrow> string" where
  "response_with code ls body =
     ''SIP/2.0 '' @ show_nat code @ '' '' @ reason_phrase code @ crlf @ concat (map (\<lambda>l. l @ crlf) ls) @ crlf @ body"

definition build_plain_response_for_request :: "sip_request \<Rightarrow> nat \<Rightarrow> string result" where
  "build_plain_response_for_request rq code =
     map_sum id (\<lambda>ls. response_with code (ls @ [''Content-Length: 0'']) []) (sq_echo rq)"

definition response_for_request :: "sip_request \<Rightarrow> nat \<Rightarrow> string \<Rightarrow> string" where
  "response_for_request rq code reason =
     (case build_plain_response_for_request rq code of Inr r \<Rightarrow> r | Inl _ \<Rightarrow> build_plain_response code reason)"

definition send_to :: "call_env \<Rightarrow> string \<Rightarrow> string \<Rightarrow> peer \<Rightarrow> 'net sbc \<Rightarrow> 'net sbc" where
  "send_to e what data p = sbc_send e what data (fst p) (fst (snd p)) (snd (snd p))"

text \<open>Count a response, then send it.\<close>

definition answer :: "call_env \<Rightarrow> string \<Rightarrow> nat \<Rightarrow> string \<Rightarrow> peer \<Rightarrow> 'net sbc \<Rightarrow> 'net sbc" where
  "answer e what code data p s = send_to e what data p (count_sip_response code s)"

definition info_peer :: "nat option \<times> socket_addr \<times> transport \<Rightarrow> peer" where
  "info_peer i = (case i of (tx, dest, tp) \<Rightarrow> (dest, tp, tx))"

section \<open>ACK\<close>

definition ack_toward_callee ::
  "nat \<Rightarrow> string \<Rightarrow> sip_request \<Rightarrow> socket_addr \<Rightarrow> transport \<Rightarrow> 'net sbc \<Rightarrow> string"
where
  "ack_toward_callee r32 uuid rq dest tp s =
     (let b = sx_b2bua s;
          uri = or_else (get_callee_contact_uri uuid b) (''sip:'' @ ip_to_string (fst dest) @ '':'' @ show_nat (snd dest));
          cid = or_else (get_inbound_call_id uuid b) (call_id_of rq);
          cseq = ack_cseq_for_callee (or_else (rq_cseq (sq_view rq)) ''1 ACK'') (outbound_invite_cseq uuid b);
          ip = (case sx_identity s of None \<Rightarrow> ''203.0.113.1'' | Some i \<Rightarrow> id_public_ip i)
      in ''ACK '' @ uri @ '' SIP/2.0'' @ crlf
         @ ''Via: SIP/2.0/'' @ (case tp of Tcp \<Rightarrow> ''TCP'' | _ \<Rightarrow> ''UDP'') @ '' '' @ ip @ '':''
         @ show_nat (if tp = Udp then 5060 else 5061) @ '';branch=z9hG4bK'' @ hex_width 8 r32 @ '';rport'' @ crlf
         @ ''Max-Forwards: 70'' @ crlf
         @ ''From: '' @ or_empty (rq_from (sq_view rq)) @ crlf
         @ ''To: '' @ or_empty (sq_to rq) @ crlf
         @ ''Call-ID: '' @ cid @ crlf
         @ ''CSeq: '' @ cseq @ crlf
         @ ''Content-Length: 0'' @ crlf @ crlf)"

definition ack_call :: "string \<Rightarrow> 'st b2bua_manager \<Rightarrow> string option" where
  "ack_call call_id b =
     first_some (find_by_inbound_call_id call_id b)
       (first_some (find_by_inbound_call_id_suffix call_id b) (find_by_outbound_call_id call_id b))"

definition sbc_handle_ack :: "call_env \<Rightarrow> nat \<Rightarrow> sip_request \<Rightarrow> 'net sbc \<Rightarrow> 'net sbc" where
  "sbc_handle_ack e r32 rq s =
     (let s1 = (case key_of_request (sq_view rq) of
                  None \<Rightarrow> s | Some k \<Rightarrow> on_front (\<lambda>f. f\<lparr>fr_itx := itx_acked k (fr_itx f)\<rparr>) s)
      in case ack_call (call_id_of rq) (sx_b2bua s1) of
           None \<Rightarrow> s1
         | Some uuid \<Rightarrow>
             (let s2 = on_b2bua (\<lambda>b. snd (B2bua.handle_ack uuid b)) s1
              in case get_callee_reply_info uuid (sx_b2bua s2) of
                   None \<Rightarrow> s2
                 | Some (tx, dest, tp) \<Rightarrow>
                     sbc_send e ''ACK -> callee'' (ack_toward_callee r32 uuid rq dest tp s2) dest tp tx s2))"

section \<open>BYE\<close>

text \<open>\<^verbatim>\<open>str::replace\<close> with a pattern that is not empty.\<close>

function replace_str :: "string \<Rightarrow> string \<Rightarrow> string \<Rightarrow> string" where
  "replace_str pat new s =
     (case s of
        [] \<Rightarrow> []
      | c # cs \<Rightarrow>
          (case strip_prefix pat s of
             Some rest \<Rightarrow> if pat = [] then s else new @ replace_str pat new rest
           | None \<Rightarrow> c # replace_str pat new cs))"
  by pat_completeness auto
termination
  by (relation "measure (\<lambda>(_, _, s). length s)") (auto dest!: strip_prefix_Some [THEN iffD1])

text \<open>The BYE relayed as it came, when no dialog identity is known: its Call-ID made whole.\<close>

definition raw_bye :: "sip_request \<Rightarrow> (string \<times> string option) option \<Rightarrow> string" where
  "raw_bye rq stored =
     (case stored of
        Some (cid, _) \<Rightarrow>
          if cid \<noteq> call_id_of rq \<and> ends_with cid (call_id_of rq)
          then replace_str (''Call-ID: '' @ call_id_of rq) (''Call-ID: '' @ cid) (sq_text rq) else sq_text rq
      | None \<Rightarrow> sq_text rq)"

definition bye_call :: "sip_request \<Rightarrow> socket_addr \<Rightarrow> 'net sbc \<Rightarrow> (string \<times> bool) option" where
  "bye_call rq source s =
     first_some (find_by_any_call_id_with_source (call_id_of rq) (Some source) (sx_b2bua s))
       (if source_is_trunk_related (sx_trunk_ips s) source
        then find_by_any_call_id_with_source (call_id_of rq) None (sx_b2bua s) else None)"

definition relay_bye_to_callee :: "call_env \<Rightarrow> string \<Rightarrow> sip_request \<Rightarrow> string option \<Rightarrow> 'net sbc \<Rightarrow> 'net sbc" where
  "relay_bye_to_callee e uuid rq reason s =
     (let stored = get_call_ids uuid (sx_b2bua s);
          info = get_callee_reply_info uuid (sx_b2bua s);
          s1 = on_b2bua (\<lambda>b. snd (b2bua_handle_bye (ev_now e) uuid b)) s
      in case info of
           None \<Rightarrow> s1
         | Some (tx, dest, tp) \<Rightarrow>
             (let (fresh, b) = build_relay_bye_toward_callee (ev_rnd e uuid 1) uuid (fst (local_addr s1)) (snd (local_addr s1))
                    reason (sx_b2bua s1);
                  s2 = s1\<lparr>sx_b2bua := b\<rparr>
              in sbc_send e ''BYE -> callee''
                   (or_else fresh (apply_outbound_topology (ev_wall e) (sx_identity s2) (raw_bye rq stored) tp)) dest tp tx s2))"

definition relay_bye_to_caller :: "call_env \<Rightarrow> string \<Rightarrow> sip_request \<Rightarrow> string option \<Rightarrow> 'net sbc \<Rightarrow> 'net sbc" where
  "relay_bye_to_caller e uuid rq reason s =
     (let stored = get_call_ids uuid (sx_b2bua s);
          info = get_caller_reply_info uuid (sx_b2bua s);
          s1 = on_b2bua (\<lambda>b. snd (b2bua_handle_bye (ev_now e) uuid b)) s
      in case info of
           None \<Rightarrow> s1
         | Some (tx, dest, tp) \<Rightarrow>
             (let (fresh, b) = build_relay_bye_toward_caller (ev_rnd e uuid 0) uuid (fst (local_addr s1)) (snd (local_addr s1))
                    reason (sx_b2bua s1);
                  s2 = s1\<lparr>sx_b2bua := b\<rparr>
              in sbc_send e ''BYE -> caller''
                   (or_else fresh (apply_outbound_topology (ev_wall e) (sx_identity s2) (raw_bye rq stored) tp)) dest tp tx s2))"

definition note_reason :: "string \<Rightarrow> string option \<Rightarrow> 'net sbc \<Rightarrow> 'net sbc" where
  "note_reason uuid reason s = (case reason of None \<Rightarrow> s | Some r \<Rightarrow> on_b2bua (set_peer_reason uuid r) s)"

definition sbc_handle_bye :: "call_env \<Rightarrow> sip_request \<Rightarrow> peer \<Rightarrow> 'net sbc \<Rightarrow> 'net sbc" where
  "sbc_handle_bye e rq p s =
     (let reason = header_value (rq_header_lines (sq_view rq)) ''reason'';
          s1 = (case bye_call rq (fst p) s of
                  None \<Rightarrow> s
                | Some (uuid, by_caller) \<Rightarrow>
                    finished e uuid (NormalClearing by_caller)
                      (note_reason uuid reason
                        (if by_caller then relay_bye_to_callee e uuid rq reason s
                         else relay_bye_to_caller e uuid rq reason s)))
      in answer e ''200 -> BYE'' 200 (response_for_request rq 200 ''OK'') p s1)"

section \<open>CANCEL\<close>

definition cancel_call :: "sip_request \<Rightarrow> socket_addr \<Rightarrow> 'net sbc \<Rightarrow> string option" where
  "cancel_call rq source s =
     first_some (find_by_inbound_call_id (call_id_of rq) (sx_b2bua s))
       (if source_is_trunk_related (sx_trunk_ips s) source
        then find_by_inbound_call_id_suffix (call_id_of rq) (sx_b2bua s) else None)"

definition already_answered :: "b2bua_call \<Rightarrow> bool" where
  "already_answered c \<longleftrightarrow>
     (case bc_outbound c of None \<Rightarrow> False | Some l \<Rightarrow> cl_established l)
     \<or> bc_state c \<in> {Connected, Terminating, Terminated}"

definition cancel_callee ::
  "call_env \<Rightarrow> sip_request \<Rightarrow> (invite_attempt \<times> nat option) option \<Rightarrow>
   (string \<times> nat \<times> socket_addr \<times> nat option \<times> transport) option \<Rightarrow> 'net sbc \<Rightarrow> 'net sbc"
where
  "cancel_callee e rq attempt info s =
     (case attempt of
        Some (a, tx) \<Rightarrow>
          (case build_cancel (at_raw a) of
             Some cancel \<Rightarrow> sbc_send e ''CANCEL -> callee'' cancel (at_dest a) (at_transport a) tx s
           | None \<Rightarrow> s)
      | None \<Rightarrow>
          (case info of
             Some (_, _, dest, tx, tp) \<Rightarrow>
               sbc_send e ''CANCEL relay -> callee'' (apply_outbound_topology (ev_wall e) (sx_identity s) (sq_text rq) tp) dest tp tx s
           | None \<Rightarrow> s))"

text \<open>The CSeq of the 487 is that of the INVITE: the stored number, or the one the CANCEL carries.\<close>

definition invite_cseq_of :: "sip_request \<Rightarrow> nat option \<Rightarrow> nat option" where
  "invite_cseq_of rq stored =
     first_some stored
       (Option.bind (rq_cseq (sq_view rq)) (\<lambda>v. Option.bind (head_opt (split_whitespace v)) (parse_uint u32_max)))"

definition with_invite_cseq :: "nat option \<Rightarrow> string \<Rightarrow> string" where
  "with_invite_cseq cseq raw =
     (case (cseq, parse raw) of
        (Some n, Inr m) \<Rightarrow> render (set_header ''CSeq'' (show_nat n @ '' INVITE'') m)
      | _ \<Rightarrow> raw)"

definition terminate_caller :: "call_env \<Rightarrow> sip_request \<Rightarrow> nat option \<Rightarrow> peer \<Rightarrow> 'net sbc \<Rightarrow> 'net sbc" where
  "terminate_caller e rq cseq p s =
     (case build_plain_response_for_request rq 487 of
        Inr raw \<Rightarrow> answer e ''487 -> caller'' 487 (with_invite_cseq cseq raw) p s
      | Inl _ \<Rightarrow> s)"

definition sbc_handle_cancel :: "call_env \<Rightarrow> sip_request \<Rightarrow> peer \<Rightarrow> 'net sbc \<Rightarrow> 'net sbc" where
  "sbc_handle_cancel e rq p s =
     (case cancel_call rq (fst p) s of
        None \<Rightarrow>
          answer e ''481 -> CANCEL'' 481 (response_for_request rq 481 ''Call/Transaction Does Not Exist'') p s
      | Some uuid \<Rightarrow>
          (let s1 = answer e ''200 OK -> CANCEL'' 200 (response_for_request rq 200 ''OK'') p s;
               b = sx_b2bua s1
           in if (case hm_get (bm_calls b) uuid of None \<Rightarrow> False | Some c \<Rightarrow> already_answered c) then s1
              else
                let s2 = finished e uuid Cancelled
                           (note_reason uuid (header_value (rq_header_lines (sq_view rq)) ''reason'') s1);
                    s3 = cancel_callee e rq (current_attempt uuid b) (get_callee_cancel_info uuid b) s2
                in terminate_caller e rq (invite_cseq_of rq (get_caller_invite_cseq uuid b)) p s3))"

section \<open>INFO and REFER\<close>

definition note_cseq :: "string \<Rightarrow> bool \<Rightarrow> sip_request \<Rightarrow> 'net sbc \<Rightarrow> 'net sbc" where
  "note_cseq uuid from_caller rq s =
     (case sq_cseq_number rq of None \<Rightarrow> s | Some n \<Rightarrow> on_b2bua (note_relayed_cseq uuid from_caller n) s)"

definition relay_request :: "call_env \<Rightarrow> string \<Rightarrow> string \<Rightarrow> bool \<Rightarrow> sip_request \<Rightarrow> 'net sbc \<Rightarrow> 'net sbc" where
  "relay_request e what uuid from_caller rq s =
     (case (if from_caller then get_callee_reply_info uuid (sx_b2bua s) else get_caller_reply_info uuid (sx_b2bua s)) of
        None \<Rightarrow> s
      | Some (tx, dest, tp) \<Rightarrow>
          sbc_send e (what @ (if from_caller then '' -> callee'' else '' -> caller''))
            (apply_outbound_topology (ev_wall e) (sx_identity s) (sq_text rq) tp) dest tp tx s)"

definition handle_info :: "call_env \<Rightarrow> sip_request \<Rightarrow> peer \<Rightarrow> 'net sbc \<Rightarrow> 'net sbc" where
  "handle_info e rq p s =
     (let s1 = (case find_by_any_call_id_with_source (call_id_of rq) (Some (fst p)) (sx_b2bua s) of
                  None \<Rightarrow> s
                | Some (uuid, from_caller) \<Rightarrow>
                    relay_request e ''INFO'' uuid from_caller rq (note_cseq uuid from_caller rq s))
      in answer e ''200 -> INFO'' 200 (response_for_request rq 200 ''OK'') p s1)"

definition refer_target :: "string list \<Rightarrow> string option" where
  "refer_target ls =
     map_option (\<lambda>l. case split_once CHR '':'' l of None \<Rightarrow> [] | Some (_, v) \<Rightarrow> trim v)
       (find (\<lambda>l. starts_with l ''Refer-To:'' \<or> starts_with l ''refer-to:'') ls)"

text \<open>The response of a fallible build: nothing is sent when it cannot be built.\<close>

definition answer_or_fail :: "call_env \<Rightarrow> string \<Rightarrow> nat \<Rightarrow> sip_request \<Rightarrow> peer \<Rightarrow> 'net sbc \<Rightarrow> unit result \<times> 'net sbc" where
  "answer_or_fail e what code rq p s =
     (case build_plain_response_for_request rq code of
        Inl err \<Rightarrow> (Inl err, count_sip_response code s)
      | Inr raw \<Rightarrow> (Inr (), answer e what code raw p s))"

definition handle_refer :: "call_env \<Rightarrow> sip_request \<Rightarrow> peer \<Rightarrow> 'net sbc \<Rightarrow> unit result \<times> 'net sbc" where
  "handle_refer e rq p s =
     (if refer_target (rq_header_lines (sq_view rq)) = None then answer_or_fail e ''400 -> REFER'' 400 rq p s
      else case find_by_any_call_id (call_id_of rq) (sx_b2bua s) of
             None \<Rightarrow> answer_or_fail e ''481 -> REFER'' 481 rq p s
           | Some (uuid, from_caller) \<Rightarrow>
               (case answer_or_fail e ''202 -> REFER'' 202 rq p (note_cseq uuid from_caller rq s) of
                  (Inl err, s1) \<Rightarrow> (Inl err, s1)
                | (Inr _, s1) \<Rightarrow> (Inr (), relay_request e ''REFER'' uuid from_caller rq s1)))"

section \<open>Session refreshes\<close>

definition sdp_for_peer :: "string \<Rightarrow> bool \<Rightarrow> sip_request \<Rightarrow> 'net sbc \<Rightarrow> string option" where
  "sdp_for_peer uuid from_caller rq s =
     first_some
       (Option.bind (hm_get (calls_of s) uuid) (\<lambda>c.
          if from_caller then bc_last_sdp_to_caller c
          else Option.bind (bc_original_outbound_invite c) (\<lambda>raw.
                 Option.bind (find_str crlf2 raw) (\<lambda>pos. let b = drop (pos + 4) raw in if b = [] then None else Some b))))
       (Option.bind (sq_body rq) (\<lambda>b. if b = [] then None else Some b))"

definition handle_reinvite ::
  "call_env \<Rightarrow> string \<Rightarrow> bool \<Rightarrow> sip_request \<Rightarrow> peer \<Rightarrow> 'net sbc \<Rightarrow> unit result \<times> 'net sbc"
where
  "handle_reinvite e uuid from_caller rq p s =
     (let sdp = sdp_for_peer uuid from_caller rq s;
          expires = first_some (parse_session_expires (sq_text rq)) (map_option fst (sx_session_timer s));
          (ip, port) = local_addr s
      in case sq_echo rq of
           Inl err \<Rightarrow> (Inl err, s)
         | Inr ls \<Rightarrow>
             (let body = or_else sdp [];
                  data = response_with 200
                    (ls @ [''Contact: <sip:sbc@'' @ ip @ '':'' @ show_nat port @ ''>'', ''Supported: timer'']
                     @ (case expires of None \<Rightarrow> [] | Some n \<Rightarrow> [''Session-Expires: '' @ show_nat n @ '';refresher=uac''])
                     @ (if sdp = None then [] else [''Content-Type: application/sdp''])
                     @ [''Content-Length: '' @ show_nat (length body)]) body
              in (Inr (), answer e ''200 -> re-INVITE'' 200 data p s)))"

definition send_session_refreshes :: "call_env \<Rightarrow> 'net sbc \<Rightarrow> 'net sbc" where
  "send_session_refreshes e s =
     (if sx_session_timer s = None then s
      else let (outs, b) = due_session_refreshes (\<lambda>u. ev_rnd e u 1) (ev_now e) (fst (local_addr s)) (snd (local_addr s)) (sx_b2bua s)
           in fold (\<lambda>(_, data, dest, tp, tx).
                on_front (\<lambda>f. snd (send_request_tracked (ev_reply e) (ev_now e) ''re-INVITE (session refresh) -> peer''
                  data dest tp tx f))) outs (s\<lparr>sx_b2bua := b\<rparr>))"

section \<open>A connection closes\<close>

definition lived_on :: "socket_addr \<Rightarrow> registration \<Rightarrow> bool" where
  "lived_on peer r \<longleftrightarrow>
     rg_received_ip r = ip_to_string (fst peer) \<and> rg_received_port r = snd peer \<and> rg_transport r \<in> {''WS'', ''WSS''}"

definition drop_binding :: "call_env \<Rightarrow> registration \<Rightarrow> registrar \<times> 'net sbc \<Rightarrow> registrar \<times> 'net sbc" where
  "drop_binding e r rs =
     (case unregister_binding (ev_wall e div 1000000) (rg_aor r) (registration_key r) None (fst rs) of
        (Some gone, reg) \<Rightarrow>
          (reg, on_b2bua (b2bua_emit (Unregistered (rg_aor gone) (rg_contact gone) ''ws-closed'' (event_ts (ev_wall e)))) (snd rs))
      | (None, reg) \<Rightarrow> (reg, snd rs))"

definition is_ws :: "transport \<Rightarrow> bool" where "is_ws tp \<longleftrightarrow> tp = Ws \<or> tp = Wss"

definition bound_to :: "socket_addr \<Rightarrow> b2bua_call \<Rightarrow> bool" where
  "bound_to peer c \<longleftrightarrow>
     bc_caller_source c = peer \<and> is_ws (bc_caller_transport c) \<or> bc_callee_dest c = Some peer \<and> is_ws (bc_callee_transport c)"

definition ws_reason :: string where
  "ws_reason = ''SIP;cause=200;text='' @ [dquote] @ ''ws-closed'' @ [dquote]"

definition closing_message :: "call_env \<Rightarrow> string \<times> nat \<Rightarrow> bool \<Rightarrow> b2bua_call \<Rightarrow> string option" where
  "closing_message e addr caller_died c =
     (if caller_died
      then first_some (bye_toward_callee (ev_rnd e (bc_uuid c) 1) (fst addr) (snd addr) (Some ws_reason) c)
             (Option.bind (last_attempt c) (\<lambda>a. build_cancel (at_raw a)))
      else first_some (map_option (\<lambda>d. build_bye (ev_rnd e (bc_uuid c) 0) d (Some ws_reason))
               (dialog_info_toward_caller (fst addr) (snd addr) c))
             (final_toward_caller 480 (Some ws_reason) c))"

definition surviving_peer :: "bool \<Rightarrow> b2bua_call \<Rightarrow> peer option" where
  "surviving_peer caller_died c =
     (if caller_died then map_option (\<lambda>d. (d, bc_callee_transport c, bc_callee_reply_tx c)) (bc_callee_dest c)
      else Some (bc_caller_source c, bc_caller_transport c, bc_caller_reply_tx c))"

definition close_call :: "call_env \<Rightarrow> string \<times> nat \<Rightarrow> socket_addr \<Rightarrow> b2bua_call \<Rightarrow> 'net sbc \<Rightarrow> 'net sbc" where
  "close_call e addr peer c s =
     (let caller_died = (bc_caller_source c = peer);
          s1 = (case (closing_message e addr caller_died c, surviving_peer caller_died c) of
                  (Some msg, Some p) \<Rightarrow> send_to e ''ws-close -> surviving leg'' msg p s
                | _ \<Rightarrow> s)
      in finished e (bc_uuid c) (WsClosed (\<not> caller_died)) s1)"

definition handle_transport_event :: "call_env \<Rightarrow> socket_addr \<Rightarrow> registrar \<times> 'net sbc \<Rightarrow> registrar \<times> 'net sbc" where
  "handle_transport_event e peer rs =
     (let (reg, s) = fold (drop_binding e) (filter (lived_on peer) (all_registrations (ev_wall e div 1000000) (fst rs))) rs;
          s1 = on_metrics (\<lambda>m. m\<lparr>km_active_registrations := registration_count (ev_wall e div 1000000) reg\<rparr>) s
      in (reg, fold (close_call e (local_addr s1) peer) (filter (bound_to peer) (map snd (calls_of s1))) s1))"

section \<open>Responses the SBC consumes\<close>

definition ack_and_bye_answered_dialog ::
  "call_env \<Rightarrow> invite_attempt \<Rightarrow> sip_response \<Rightarrow> nat \<Rightarrow> string \<Rightarrow> nat option \<Rightarrow> string \<Rightarrow> 'net sbc \<Rightarrow> 'net sbc"
where
  "ack_and_bye_answered_dialog e a rp cseq response_to tx reason s =
     (let d = \<lparr>di_call_id = or_empty (sp_call_id rp), di_from_raw = or_empty (sp_from rp), di_to_raw = response_to,
               di_request_uri = (case sp_contact rp of Some v \<Rightarrow> extract_contact_uri v | None \<Rightarrow> ''sip:'' @ sock_to_string (at_dest a)),
               di_cseq = cseq, di_local_ip = fst (local_addr s), di_local_port = snd (local_addr s),
               di_transport = transport_token (at_transport a)\<rparr>;
          p = (at_dest a, at_transport a, tx)
      in send_to e ''BYE (orphan 2xx) -> callee''
           (build_bye (ev_rnd e (di_call_id d) 3) (d\<lparr>di_cseq := (cseq + 1) mod 2 ^ 32\<rparr>) (Some reason)) p
           (send_to e ''ACK (orphan 2xx) -> callee'' (build_ack_for_2xx (ev_rnd e (di_call_id d) 2) d cseq) p s))"

definition teardown_lost_dialog :: "call_env \<Rightarrow> string \<Rightarrow> nat \<Rightarrow> 'net sbc \<Rightarrow> 'net sbc" where
  "teardown_lost_dialog e uuid status s =
     (let (bye, b) = build_relay_bye_toward_caller (ev_rnd e uuid 0) uuid (fst (local_addr s)) (snd (local_addr s))
            (reason_header (DialogLost status)) (sx_b2bua s);
          s1 = s\<lparr>sx_b2bua := b\<rparr>;
          s2 = (case (bye, get_caller_reply_info uuid b) of
                  (Some msg, Some (tx, dest, tp)) \<Rightarrow> sbc_send e ''BYE (dialog lost) -> caller'' msg dest tp tx s1
                | _ \<Rightarrow> s1)
      in finished e uuid (DialogLost status) s2)"

definition relay_error_and_terminate ::
  "call_env \<Rightarrow> string \<Rightarrow> string \<Rightarrow> (nat option \<times> socket_addr \<times> transport) option \<Rightarrow> nat option \<Rightarrow> 'net sbc \<Rightarrow> 'net sbc"
where
  "relay_error_and_terminate e uuid raw info cseq s =
     (let s1 = (case info of
                  None \<Rightarrow> s
                | Some i \<Rightarrow>
                    send_to e ''error response -> caller''
                      (rewrite_response_for_caller raw (get_caller_vias uuid (sx_b2bua s)) (sx_identity s) cseq) (info_peer i) s)
      in finished e uuid (Rejected (or_else (status_code_of raw) 500)) s1)"

definition ack_callee_final :: "call_env \<Rightarrow> string \<Rightarrow> string \<Rightarrow> 'net sbc \<Rightarrow> 'net sbc" where
  "ack_callee_final e uuid response_to s =
     (case current_attempt uuid (sx_b2bua s) of
        None \<Rightarrow> s
      | Some (a, tx) \<Rightarrow>
          (case build_ack_for_non_2xx (at_raw a) response_to of
             None \<Rightarrow> s
           | Some ack \<Rightarrow> sbc_send e ''ACK (non-2xx) -> trunk'' ack (at_dest a) (at_transport a) tx s))"

definition handle_refresh_response :: "call_env \<Rightarrow> nat \<Rightarrow> string \<Rightarrow> nat \<Rightarrow> nat \<Rightarrow> string \<Rightarrow> string \<Rightarrow> 'net sbc \<Rightarrow> 'net sbc" where
  "handle_refresh_response e delay uuid status cseq raw response_to s =
     (if 100 \<le> status \<and> status < 200 then s
      else if 200 \<le> status \<and> status < 300 then
        (let (ack, b) = complete_session_refresh (ev_rnd e uuid 1) uuid cseq (fst (local_addr s)) (snd (local_addr s)) (sx_b2bua s);
             s1 = s\<lparr>sx_b2bua := b\<rparr>
         in case ack of
              None \<Rightarrow> s1
            | Some (data, dest, tp, tx) \<Rightarrow> sbc_send e ''ACK (refresh) -> callee'' data dest tp tx s1)
      else
        (let (failed, b) = fail_session_refresh delay (ev_now e) uuid cseq status
               (if status = 422 then parse_min_se raw else None) response_to (sx_b2bua s);
             s1 = s\<lparr>sx_b2bua := b\<rparr>
         in case failed of
              None \<Rightarrow> s1
            | Some r \<Rightarrow>
                (let s2 = (case rf_ack r of
                             None \<Rightarrow> s1
                           | Some ack \<Rightarrow> sbc_send e ''ACK (refresh rejected) -> callee'' ack (rf_dest r) (rf_transport r) (rf_reply_tx r) s1)
                 in if rf_dialog_gone r then teardown_lost_dialog e uuid status s2 else s2)))"

definition handle_stale_invite_response ::
  "call_env \<Rightarrow> string \<Rightarrow> nat \<Rightarrow> nat \<Rightarrow> sip_response \<Rightarrow> string \<Rightarrow> invite_attempt option \<Rightarrow> 'net sbc \<Rightarrow> 'net sbc"
where
  "handle_stale_invite_response e uuid status cseq rp response_to attempt s =
     (case attempt of
        None \<Rightarrow> s
      | Some a \<Rightarrow>
          (let tx = (case current_attempt uuid (sx_b2bua s) of
                       Some (cur, tx) \<Rightarrow> if at_dest cur = at_dest a then tx else None
                     | None \<Rightarrow> None)
           in if 100 \<le> status \<and> status < 200 then s
              else if 200 \<le> status \<and> status < 300
              then ack_and_bye_answered_dialog e a rp cseq response_to tx
                     (''Q.850;cause=31;text='' @ [dquote] @ ''Superseded INVITE answered'' @ [dquote]) s
              else case build_ack_for_non_2xx (at_raw a) response_to of
                     None \<Rightarrow> s
                   | Some ack \<Rightarrow> sbc_send e ''ACK (stale) -> callee'' ack (at_dest a) (at_transport a) tx s))"

section \<open>Methods that are not served\<close>

definition method_not_allowed :: "call_env \<Rightarrow> sip_request \<Rightarrow> peer \<Rightarrow> 'net sbc \<Rightarrow> 'net sbc" where
  "method_not_allowed e rq p s =
     (let raw = response_for_request rq 405 ''Method Not Allowed''
      in answer e ''405 -> source'' 405
           (case parse raw of Inl _ \<Rightarrow> raw | Inr m \<Rightarrow> render (set_header ''Allow'' ALLOWED_METHODS m)) p s)"

section \<open>Every call is billed exactly once, whatever the peers send\<close>

abbreviation call_keys :: "'net sbc \<Rightarrow> string list" where
  "call_keys s \<equiv> map fst (calls_of s)"

lemma send_frame [simp]:
  "calls_of (sbc_send e w d a tp tx s) = calls_of s" "sx_cdr (sbc_send e w d a tp tx s) = sx_cdr s"
  "calls_of (send_to e w d p s) = calls_of s" "sx_cdr (send_to e w d p s) = sx_cdr s"
  "calls_of (count_sip_response code s) = calls_of s" "sx_cdr (count_sip_response code s) = sx_cdr s"
  "calls_of (answer e w code d p s) = calls_of s" "sx_cdr (answer e w code d p s) = sx_cdr s"
  "calls_of (snd (answer_or_fail e w code rq p s)) = calls_of s" "sx_cdr (snd (answer_or_fail e w code rq p s)) = sx_cdr s"
  by (simp_all add: sbc_send_def send_to_def count_sip_response_def answer_def answer_or_fail_def split: sum.splits)

lemma with_call_keys [simp]: "map fst (bm_calls (with_call u f b)) = map fst (bm_calls b)"
  by (simp add: with_call_def)

lemma manager_keys [simp]:
  "map fst (bm_calls (set_peer_reason u r b)) = map fst (bm_calls b)"
  "map fst (bm_calls (note_relayed_cseq u c n b)) = map fst (bm_calls b)"
  "map fst (bm_calls (snd (B2bua.handle_ack u b))) = map fst (bm_calls b)"
  "map fst (bm_calls (snd (b2bua_handle_bye now u b))) = map fst (bm_calls b)"
  "map fst (bm_calls (b2bua_emit ev b)) = map fst (bm_calls b)"
  by (simp_all add: set_peer_reason_def note_relayed_cseq_def B2bua.handle_ack_def b2bua_handle_bye_def
      release_media_def b2bua_emit_def split: option.splits)

lemma built_keys:
  "build_relay_bye_toward_callee rnd u ip port r b = (x, b') \<Longrightarrow> map fst (bm_calls b') = map fst (bm_calls b)"
  "build_relay_bye_toward_caller rnd u ip port r b = (x, b') \<Longrightarrow> map fst (bm_calls b') = map fst (bm_calls b)"
  "complete_session_refresh rnd u n ip port b = (y, b') \<Longrightarrow> map fst (bm_calls b') = map fst (bm_calls b)"
  "fail_session_refresh delay now u n status mse to b = (z, b') \<Longrightarrow> map fst (bm_calls b') = map fst (bm_calls b)"
  "due_session_refreshes rndf now ip port b = (w, b') \<Longrightarrow> map fst (bm_calls b') = map fst (bm_calls b)"
  by (auto simp: build_relay_bye_toward_callee_def build_relay_bye_toward_caller_def complete_session_refresh_def
      fail_session_refresh_def due_session_refreshes_def Let_def comp_def split_def
      split: option.splits if_splits prod.splits)

lemma relay_frame [simp]:
  "call_keys (note_reason u r s) = call_keys s" "sx_cdr (note_reason u r s) = sx_cdr s"
  "call_keys (note_cseq u c rq s) = call_keys s" "sx_cdr (note_cseq u c rq s) = sx_cdr s"
  "call_keys (relay_request e w u c rq s) = call_keys s" "sx_cdr (relay_request e w u c rq s) = sx_cdr s"
  "call_keys (relay_bye_to_callee e u rq r s) = call_keys s" "sx_cdr (relay_bye_to_callee e u rq r s) = sx_cdr s"
  "call_keys (relay_bye_to_caller e u rq r s) = call_keys s" "sx_cdr (relay_bye_to_caller e u rq r s) = sx_cdr s"
  by (simp_all add: note_reason_def note_cseq_def relay_request_def relay_bye_to_callee_def relay_bye_to_caller_def
      Let_def built_keys split: option.splits prod.splits)

lemma other_frame [simp]:
  "call_keys (sbc_handle_ack e r32 rq s) = call_keys s" "sx_cdr (sbc_handle_ack e r32 rq s) = sx_cdr s"
  "call_keys (handle_info e rq p s) = call_keys s" "sx_cdr (handle_info e rq p s) = sx_cdr s"
  "call_keys (snd (handle_reinvite e u c rq p s)) = call_keys s" "sx_cdr (snd (handle_reinvite e u c rq p s)) = sx_cdr s"
  "call_keys (cancel_callee e rq a i s) = call_keys s" "sx_cdr (cancel_callee e rq a i s) = sx_cdr s"
  "call_keys (terminate_caller e rq n p s) = call_keys s" "sx_cdr (terminate_caller e rq n p s) = sx_cdr s"
  "call_keys (method_not_allowed e rq p s) = call_keys s" "sx_cdr (method_not_allowed e rq p s) = sx_cdr s"
  "call_keys (ack_callee_final e u t s) = call_keys s" "sx_cdr (ack_callee_final e u t s) = sx_cdr s"
  "call_keys (handle_stale_invite_response e u st k rp t att s) = call_keys s"
  "sx_cdr (handle_stale_invite_response e u st k rp t att s) = sx_cdr s"
  by (simp_all add: sbc_handle_ack_def handle_info_def handle_reinvite_def cancel_callee_def terminate_caller_def
      method_not_allowed_def ack_callee_final_def handle_stale_invite_response_def ack_and_bye_answered_dialog_def Let_def
      split: option.splits prod.splits sum.splits)

lemma refer_frame [simp]:
  "call_keys (snd (handle_refer e rq p s)) = call_keys s" "sx_cdr (snd (handle_refer e rq p s)) = sx_cdr s"
proof -
  have "call_keys (snd r) = call_keys s \<and> sx_cdr (snd r) = sx_cdr s"
    if "r = handle_refer e rq p s" for r
  proof (cases "refer_target (rq_header_lines (sq_view rq)) = None \<or> find_by_any_call_id (call_id_of rq) (sx_b2bua s) = None")
    case True
    then show ?thesis by (auto simp: that handle_refer_def)
  next
    case False
    then obtain uuid c where f: "find_by_any_call_id (call_id_of rq) (sx_b2bua s) = Some (uuid, c)" by auto
    obtain x s1 where a: "answer_or_fail e ''202 -> REFER'' 202 rq p (note_cseq uuid c rq s) = (x, s1)" by fastforce
    have "call_keys s1 = call_keys s" "sx_cdr s1 = sx_cdr s"
      using send_frame(9,10) [of e "''202 -> REFER''" 202 rq p "note_cseq uuid c rq s"] a by simp_all
    with False f a show ?thesis by (auto simp: that handle_refer_def split: sum.splits)
  qed
  then show "call_keys (snd (handle_refer e rq p s)) = call_keys s" "sx_cdr (snd (handle_refer e rq p s)) = sx_cdr s" by blast+
qed

lemma refreshes_frame [simp]:
  "call_keys (send_session_refreshes e s) = call_keys s" "sx_cdr (send_session_refreshes e s) = sx_cdr s"
proof -
  let ?send = "\<lambda>(_, data, dest, tp, tx). on_front (\<lambda>f. snd (send_request_tracked (ev_reply e) (ev_now e)
      ''re-INVITE (session refresh) -> peer'' data dest tp tx f))"
  have keep: "call_keys (fold ?send outs t) = call_keys t" "sx_cdr (fold ?send outs t) = sx_cdr t" for outs t
    by (rule fold_frame, simp split: prod.splits)+
  obtain outs b where d: "due_session_refreshes (\<lambda>u. ev_rnd e u 1) (ev_now e) (fst (local_addr s)) (snd (local_addr s)) (sx_b2bua s)
      = (outs, b)" by fastforce
  show "call_keys (send_session_refreshes e s) = call_keys s" "sx_cdr (send_session_refreshes e s) = sx_cdr s"
    unfolding send_session_refreshes_def d split_conv Let_def if_distrib [of calls_of] if_distrib [of sx_cdr]
      if_distrib [of "map fst"] keep
    using built_keys(5) [OF d] by simp_all
qed


lemma settles_after:
  assumes "hm_ok (calls_of s)" and "call_keys t = call_keys s" and "sx_cdr t = sx_cdr s" and "settles g"
  shows "hm_ok (calls_of (g t)) \<and> (\<exists>rs. billed s rs (g t))"
proof -
  have "hm_ok (calls_of t)" using assms(1,2) by (simp add: hm_ok_def)
  from settles_apply [OF assms(4) this] show ?thesis unfolding billed_def assms(2,3) .
qed

lemma settles_answered: "settles (\<lambda>s. answer e w code d p (finished e' u x s))"
  by (rule settles_comp [OF settles_finish settles_quiet]) simp_all

lemma settles_bye: "settles (sbc_handle_bye e rq p)"
proof (rule settlesI)
  fix s :: "'a sbc"
  assume ok: "hm_ok (calls_of s)"
  let ?r = "header_value (rq_header_lines (sq_view rq)) ''reason''"
  have ans: "settles (answer e w code d q)" for w code d q by (rule settles_quiet) simp_all
  show "hm_ok (calls_of (sbc_handle_bye e rq p s)) \<and> (\<exists>rs. billed s rs (sbc_handle_bye e rq p s))"
  proof (cases "bye_call rq (fst p) s")
    case None
    then show ?thesis using settles_apply [OF ans ok] by (simp add: sbc_handle_bye_def)
  next
    case (Some uc)
    obtain u c where uc: "uc = (u, c)" by (cases uc)
    let ?t = "note_reason u ?r (if c then relay_bye_to_callee e u rq ?r s else relay_bye_to_caller e u rq ?r s)"
    show ?thesis
      unfolding sbc_handle_bye_def Let_def Some uc option.case prod.case
      by (rule settles_after [OF ok _ _ settles_answered]) simp_all
  qed
qed

lemma settles_cancel: "settles (sbc_handle_cancel e rq p)"
proof (rule settlesI)
  fix s :: "'a sbc"
  assume ok: "hm_ok (calls_of s)"
  have ans: "settles (answer e w code d q)" for w code d q by (rule settles_quiet) simp_all
  show "hm_ok (calls_of (sbc_handle_cancel e rq p s)) \<and> (\<exists>rs. billed s rs (sbc_handle_cancel e rq p s))"
  proof (cases "cancel_call rq (fst p) s")
    case None
    then show ?thesis using settles_apply [OF ans ok] by (simp add: sbc_handle_cancel_def)
  next
    case (Some u)
    let ?s1 = "answer e ''200 OK -> CANCEL'' 200 (response_for_request rq 200 ''OK'') p s"
    have fin: "settles (\<lambda>s. terminate_caller e rq n p (cancel_callee e rq a i (finished e u x s)))" for n a i x
      by (rule settles_comp [OF settles_finish settles_quiet]) simp_all
    show ?thesis
    proof (cases "case hm_get (calls_of ?s1) u of None \<Rightarrow> False | Some c \<Rightarrow> already_answered c")
      case True
      then show ?thesis
        unfolding sbc_handle_cancel_def Let_def Some option.case using settles_apply [OF ans ok] by (simp only: if_True)
    next
      case False
      then show ?thesis
        unfolding sbc_handle_cancel_def Let_def Some option.case
        by (simp only: if_False) (rule settles_after [OF ok _ _ fin], simp_all)
    qed
  qed
qed

lemma settles_lost: "settles (teardown_lost_dialog e u st)"
proof (rule settlesI)
  fix s :: "'a sbc"
  assume ok: "hm_ok (calls_of s)"
  obtain bye b where d: "build_relay_bye_toward_caller (ev_rnd e u 0) u (fst (local_addr s)) (snd (local_addr s))
      (reason_header (DialogLost st)) (sx_b2bua s) = (bye, b)" by fastforce
  show "hm_ok (calls_of (teardown_lost_dialog e u st s)) \<and> (\<exists>rs. billed s rs (teardown_lost_dialog e u st s))"
    unfolding teardown_lost_dialog_def d Let_def split_conv
    by (rule settles_after [OF ok _ _ settles_finish]) (simp_all add: built_keys(2) [OF d] split: option.splits prod.splits)
qed

lemma settles_error: "settles (relay_error_and_terminate e u raw i n)"
proof (rule settlesI)
  fix s :: "'a sbc"
  assume ok: "hm_ok (calls_of s)"
  show "hm_ok (calls_of (relay_error_and_terminate e u raw i n s)) \<and> (\<exists>rs. billed s rs (relay_error_and_terminate e u raw i n s))"
    unfolding relay_error_and_terminate_def Let_def
    by (rule settles_after [OF ok _ _ settles_finish]) (simp_all split: option.splits)
qed

lemma settles_refresh: "settles (handle_refresh_response e delay u st n raw t)"
proof (rule settlesI)
  fix s :: "'a sbc"
  assume ok: "hm_ok (calls_of s)"
  let ?h = "handle_refresh_response e delay u st n raw t s"
  show "hm_ok (calls_of ?h) \<and> (\<exists>rs. billed s rs ?h)"
  proof (cases "100 \<le> st \<and> st < 300")
    case True
    then have "call_keys ?h = call_keys s" "sx_cdr ?h = sx_cdr s"
      by (auto simp: handle_refresh_response_def Let_def built_keys split: prod.splits option.splits)
    from settles_after [OF ok this settles_id] show ?thesis .
  next
    case False
    obtain failed b where d: "fail_session_refresh delay (ev_now e) u n st (if st = 422 then parse_min_se raw else None) t (sx_b2bua s)
        = (failed, b)" by fastforce
    have quiet: "call_keys (s\<lparr>sx_b2bua := b\<rparr>) = call_keys s" "sx_cdr (s\<lparr>sx_b2bua := b\<rparr>) = sx_cdr s"
      using built_keys(4) [OF d] by simp_all
    let ?ack = "\<lambda>r s. case rf_ack r of None \<Rightarrow> s | Some ack \<Rightarrow>
      sbc_send e ''ACK (refresh rejected) -> callee'' ack (rf_dest r) (rf_transport r) (rf_reply_tx r) s"
    have ack: "settles (?ack r)" for r by (rule settles_quiet) (simp_all split: option.splits)
    have "settles (\<lambda>s. if rf_dialog_gone r then teardown_lost_dialog e u st (?ack r s) else ?ack r s)" for r
      using settles_comp [OF ack settles_lost] ack by (cases "rf_dialog_gone r") simp_all
    then have "settles (\<lambda>s. case failed of None \<Rightarrow> s
        | Some r \<Rightarrow> if rf_dialog_gone r then teardown_lost_dialog e u st (?ack r s) else ?ack r s)"
      using settles_id by (cases failed) simp_all
    from settles_after [OF ok quiet this] False show ?thesis
      unfolding handle_refresh_response_def d Let_def split_conv by (auto split: if_splits)
  qed
qed


lemma drop_frame_step:
  "call_keys (snd (drop_binding e r st)) = call_keys (snd st)"
  "sx_cdr (snd (drop_binding e r st)) = sx_cdr (snd st)"
  by (simp_all add: drop_binding_def split: prod.splits option.splits)

lemma drop_frame:
  "call_keys (snd (fold (drop_binding e) rs st)) = call_keys (snd st)"
  "sx_cdr (snd (fold (drop_binding e) rs st)) = sx_cdr (snd st)"
  using fold_frame [of "\<lambda>x. call_keys (snd x)" "drop_binding e" rs st]
    fold_frame [of "\<lambda>x. sx_cdr (snd x)" "drop_binding e" rs st] drop_frame_step
  by blast+

lemma settles_close: "settles (close_call e addr peer c)"
proof (rule settlesI)
  fix s :: "'a sbc"
  assume ok: "hm_ok (calls_of s)"
  show "hm_ok (calls_of (close_call e addr peer c s)) \<and> (\<exists>rs. billed s rs (close_call e addr peer c s))"
    unfolding close_call_def Let_def
    by (rule settles_after [OF ok _ _ settles_finish]) (simp_all split: option.splits)
qed

lemma settles_transport: "settles (\<lambda>s. snd (handle_transport_event e peer (reg, s)))"
proof (rule settlesI)
  fix s :: "'a sbc"
  assume ok: "hm_ok (calls_of s)"
  let ?gone = "filter (lived_on peer) (all_registrations (ev_wall e div 1000000) reg)"
  obtain reg' s1 where d: "fold (drop_binding e) ?gone (reg, s) = (reg', s1)" by fastforce
  have "call_keys s1 = call_keys s" "sx_cdr s1 = sx_cdr s" using drop_frame [of e ?gone "(reg, s)"] by (simp_all add: d)
  then show "hm_ok (calls_of (snd (handle_transport_event e peer (reg, s)))) \<and>
      (\<exists>rs. billed s rs (snd (handle_transport_event e peer (reg, s))))"
    unfolding handle_transport_event_def fst_conv d Let_def split_conv snd_conv
    by (intro settles_after [OF ok _ _ settles_fold [OF settles_close]]) simp_all
qed

text \<open>
  Runs of the SBC as far as calls begin and end: the requests and responses of the peers, closed
  connections, the jobs of the event loop, new calls, the refusals of an INVITE that has a call already
  (\<open>FinishJob\<close>), and any work that neither adds nor removes a call nor hands over a record (the CDR
  writer may run meanwhile).
\<close>

datatype sbc_job =
    FinishJob string call_outcome
  | AckJob nat sip_request
  | ByeJob sip_request peer
  | CancelJob sip_request peer
  | InfoJob sip_request peer
  | ReferJob sip_request peer
  | ReinviteJob string bool sip_request peer
  | OtherJob sip_request peer
  | ErrorJob string string "(nat option \<times> socket_addr \<times> transport) option" "nat option"
  | RefreshJob nat string nat nat string string
  | StaleJob string nat nat sip_response string "invite_attempt option"
  | ClosedJob socket_addr registrar
  | RefreshesJob
  | KicksJob
  | MediaJob
  | SetupJob
  | DurationJob
  | FinalsJob
  | RequestsJob
  | ShutdownJob "call_env list"

fun run_job :: "call_env \<Rightarrow> sbc_job \<Rightarrow> 'net sbc \<Rightarrow> 'net sbc" where
  "run_job e (FinishJob u x) = finished e u x"
| "run_job e (AckJob r32 rq) = sbc_handle_ack e r32 rq"
| "run_job e (ByeJob rq p) = sbc_handle_bye e rq p"
| "run_job e (CancelJob rq p) = sbc_handle_cancel e rq p"
| "run_job e (InfoJob rq p) = handle_info e rq p"
| "run_job e (ReferJob rq p) = (\<lambda>s. snd (handle_refer e rq p s))"
| "run_job e (ReinviteJob u c rq p) = (\<lambda>s. snd (handle_reinvite e u c rq p s))"
| "run_job e (OtherJob rq p) = method_not_allowed e rq p"
| "run_job e (ErrorJob u raw i n) = relay_error_and_terminate e u raw i n"
| "run_job e (RefreshJob delay u st n raw t) = handle_refresh_response e delay u st n raw t"
| "run_job e (StaleJob u st n rp t a) = handle_stale_invite_response e u st n rp t a"
| "run_job e (ClosedJob peer reg) = (\<lambda>s. snd (handle_transport_event e peer (reg, s)))"
| "run_job e RefreshesJob = send_session_refreshes e"
| "run_job e KicksJob = process_admin_kicks e"
| "run_job e MediaJob = check_media_timeouts e"
| "run_job e SetupJob = check_setup_timeouts e"
| "run_job e DurationJob = check_call_timeouts e"
| "run_job e FinalsJob = retransmit_finals e"
| "run_job e RequestsJob = retransmit_requests e"
| "run_job e (ShutdownJob ticks) = graceful_shutdown e ticks"

inductive sbc_run :: "'net sbc \<Rightarrow> string list \<Rightarrow> 'net sbc \<Rightarrow> bool" for s0 where
  started: "sbc_run s0 [] s0"
| job: "sbc_run s0 created s \<Longrightarrow> sbc_run s0 created (run_job e j s)"
| new_call: "sbc_run s0 created s \<Longrightarrow> hm_get (calls_of s) (hex_width 16 rnd) = None \<Longrightarrow>
    create_call modify_sdp rnd now wall cid tag addr sdp tx tp (sx_b2bua s) = (Inr u, b) \<Longrightarrow>
    sbc_run s0 (created @ [u]) (s\<lparr>sx_b2bua := b\<rparr>)"
| elsewhere: "sbc_run s0 created s \<Longrightarrow> map fst (calls_of s') = map fst (calls_of s) \<Longrightarrow>
    hands_over (sx_cdr s) [] (sx_cdr s') \<Longrightarrow> sbc_run s0 created s'"

lemma settles_job: "settles (run_job e j)"
  by (cases j)
    (simp_all add: settles_finish settles_kicks settles_media_timeouts settles_setup_timeouts settles_call_timeouts
      settles_requests settles_shutdown settles_bye settles_cancel settles_error settles_refresh settles_transport
      settles_quiet retransmit_finals_def [abs_def])

lemma sbc_run_billed:
  assumes "sbc_run s0 created s" and "hm_ok (calls_of s0)"
  shows "hm_ok (calls_of s) \<and> (\<exists>rs. hands_over (sx_cdr s0) rs (sx_cdr s) \<and>
    mset created + mset (map fst (calls_of s0)) = mset (map cd_uuid rs) + mset (map fst (calls_of s)))"
  using assms(1)
proof induction
  case started
  then show ?case using assms(2) by (auto intro!: exI [of _ "[]"] hands_over.nothing)
next
  case (job created s e j)
  then obtain rs where ok: "hm_ok (calls_of s)" and rs: "hands_over (sx_cdr s0) rs (sx_cdr s)"
    "mset created + mset (map fst (calls_of s0)) = mset (map cd_uuid rs) + mset (map fst (calls_of s))" by blast
  from settles_apply [OF settles_job ok, of e j] obtain ss where
    "hm_ok (calls_of (run_job e j s))" and ss: "billed s ss (run_job e j s)" by blast
  moreover have "hands_over (sx_cdr s0) (rs @ ss) (sx_cdr (run_job e j s))"
    using ss rs(1) by (auto simp: billed_def intro: hands_over_trans)
  ultimately show ?case using rs(2) by (intro conjI exI [of _ "rs @ ss"]) (auto simp: billed_def ac_simps)
next
  case (new_call created s rnd modify_sdp now wall cid tag addr sdp tx tp u b)
  note keys = create_keys [OF new_call.hyps(3,2)]
  have "u \<notin> set (map fst (calls_of s))" using new_call.hyps(2) by (simp add: keys(2) map_of_eq_None_iff)
  with new_call.IH keys(1) show ?case by (auto simp: hm_ok_def simp del: set_map)
next
  case (elsewhere created s s')
  then show ?case using hands_over_trans by (fastforce simp: hm_ok_def)
qed

text \<open>
  C2: Every call is billed exactly once. Whatever ended the calls of a run of the SBC, in whatever
  order and however often (a BYE, a CANCEL, an error, a closed connection, a kick, a timeout, the
  shutdown, several of them racing for one call), the CDR manager was given one record for each call that is over, none for a call that
  is still up, and none for anything else.
\<close>
theorem every_call_billed_once:
  assumes "sbc_run s0 created s" and "distinct (created @ map fst (calls_of s0))"
  shows "\<exists>rs. hands_over (sx_cdr s0) rs (sx_cdr s) \<and> distinct (map cd_uuid rs) \<and>
    (\<forall>u. u \<in> set (map cd_uuid rs) \<longleftrightarrow>
       u \<in> set (created @ map fst (calls_of s0)) \<and> u \<notin> set (map fst (calls_of s)))"
proof -
  have "hm_ok (calls_of s0)" using assms(2) by (simp add: hm_ok_def)
  from sbc_run_billed [OF assms(1) this] obtain rs where rs: "hands_over (sx_cdr s0) rs (sx_cdr s)"
    and "mset (created @ map fst (calls_of s0)) = mset (map cd_uuid rs @ map fst (calls_of s))" by auto
  then have "distinct (map cd_uuid rs @ map fst (calls_of s))"
    and "set (created @ map fst (calls_of s0)) = set (map cd_uuid rs @ map fst (calls_of s))"
    using assms(2) by (blast dest: mset_eq_imp_distinct_iff, metis set_mset_mset)
  with rs show ?thesis by (intro exI [of _ rs]) auto
qed

theorem every_call_billed_once_witness:
  "\<exists>rs. hands_over (sx_cdr demo_idle) rs (sx_cdr (run_job demo_env (FinishJob (hex_width 16 7) Cancelled) demo_one)) \<and>
     distinct (map cd_uuid rs) \<and> set (map cd_uuid rs) = {hex_width 16 7}"
proof -
  let ?s = "run_job demo_env (FinishJob (hex_width 16 7) Cancelled) demo_one"
  have "sbc_run demo_idle ([] @ [hex_width 16 7]) demo_one"
    unfolding demo_one_def by (rule sbc_run.new_call [OF sbc_run.started _ demo_created]) (simp add: demo_idle_calls)
  then have run: "sbc_run demo_idle [hex_width 16 7] ?s" using sbc_run.job by fastforce
  have "map fst (calls_of ?s) = []" unfolding run_job.simps finish_keys demo_one_calls by simp
  with every_call_billed_once [OF run] show ?thesis by (simp add: demo_idle_calls set_eq_iff)
qed

section \<open>CANCEL\<close>

abbreviation outbox :: "'net sbc \<Rightarrow> outgoing list" where
  "outbox s \<equiv> fr_outbox (sx_front s)"

abbreviation mail :: "string \<Rightarrow> peer \<Rightarrow> outgoing" where
  "mail data p \<equiv> (data, fst p, fst (snd p), snd (snd p))"

lemma teardown_front [simp]:
  "sx_front (on_metrics f s) = sx_front s" "sx_front (on_b2bua g s) = sx_front s" "sx_front (on_trunks h s) = sx_front s"
  "sx_front (set_gauges now s) = sx_front s" "sx_front (write_cdr e r s) = sx_front s"
  by (simp_all add: on_metrics_def on_b2bua_def on_trunks_def put_trunks_def set_gauges_def write_cdr_def Let_def
      split: prod.splits sum.splits)

lemma finish_front [simp]: "sx_front (finished e u x s) = sx_front s"
  by (cases "hm_get (calls_of s) u") (simp_all add: finish_gone finish_call_def Let_def split: option.splits)

lemma note_reason_front [simp]: "sx_front (note_reason u r s) = sx_front s"
  by (simp add: note_reason_def split: option.splits)

lemma answer_b2bua [simp]: "sx_b2bua (answer e w code d p s) = sx_b2bua s"
  by (simp add: answer_def send_to_def sbc_send_def count_sip_response_def on_front_def)

lemma sbc_send_outbox:
  "\<forall>m. is_ok (ev_reply e m) \<Longrightarrow> outbox (sbc_send e w d dest tp tx s) = outbox s @ [(d, dest, tp, tx)]"
  unfolding sbc_send_def on_front_def by (simp add: send_sip_outbox del: split_paired_All)

lemma answer_outbox:
  assumes "\<forall>m. is_ok (ev_reply e m)"
  shows "outbox (answer e w code d p s) = outbox s @ [mail d p]"
  unfolding answer_def send_to_def sbc_send_outbox [OF assms] by (simp add: count_sip_response_def on_front_def)

lemma note_reason_get:
  "hm_get (calls_of s) u = Some c \<Longrightarrow> \<exists>c'. hm_get (calls_of (note_reason u r s)) u = Some c'"
  by (auto simp: note_reason_def set_peer_reason_def with_call_def hm_get_modify split: option.splits)

lemma finished_record:
  assumes "hm_get (calls_of s) u = Some c"
  shows "\<exists>r. cd_uuid r = u \<and> cd_disconnect_reason r = disconnect_reason x \<and> hands_over (sx_cdr s) [r] (sx_cdr (finished e u x s))"
proof -
  have "hands_over (sx_cdr s) ([] @ [call_record e u x (session_stats c s) c]) (sx_cdr (finished e u x s))"
    unfolding finish_cdr(2) [OF assms] by (intro hands_over.record_given hands_over.nothing)
  then show ?thesis by (intro exI [of _ "call_record e u x (session_stats c s) c"]) simp
qed

lemma terminate_caller_outbox:
  assumes "\<forall>m. is_ok (ev_reply e m)" and "build_plain_response_for_request rq 487 = Inr raw"
  shows "outbox (terminate_caller e rq n p s) = outbox s @ [mail (with_invite_cseq n raw) p]"
  unfolding terminate_caller_def assms(2) sum.case answer_outbox [OF assms(1)] ..

lemma cancel_callee_outbox:
  assumes "\<forall>m. is_ok (ev_reply e m)" and "build_cancel (at_raw a) = Some cancel"
  shows "outbox (cancel_callee e rq (Some (a, tx)) i s) = outbox s @ [(cancel, at_dest a, at_transport a, tx)]"
  unfolding cancel_callee_def option.case prod.case assms(2) sbc_send_outbox [OF assms(1)] ..

lemma cancel_stands:
  assumes "\<forall>m. is_ok (ev_reply e m)"
  shows "cancel_call rq (fst p) s = None \<Longrightarrow>
      sx_b2bua (sbc_handle_cancel e rq p s) = sx_b2bua s \<and> sx_cdr (sbc_handle_cancel e rq p s) = sx_cdr s \<and>
      outbox (sbc_handle_cancel e rq p s) = outbox s @ [mail (response_for_request rq 481 ''Call/Transaction Does Not Exist'') p]"
    and "cancel_call rq (fst p) s = Some u \<Longrightarrow> hm_get (calls_of s) u = Some c \<Longrightarrow> already_answered c \<Longrightarrow>
      sx_b2bua (sbc_handle_cancel e rq p s) = sx_b2bua s \<and> sx_cdr (sbc_handle_cancel e rq p s) = sx_cdr s \<and>
      outbox (sbc_handle_cancel e rq p s) = outbox s @ [mail (response_for_request rq 200 ''OK'') p]"
  unfolding sbc_handle_cancel_def Let_def by (simp_all add: answer_outbox [OF assms])

lemma cancel_pending:
  assumes "cancel_call rq (fst p) s = Some u" and "hm_get (calls_of s) u = Some c" and "\<not> already_answered c"
  shows "sbc_handle_cancel e rq p s =
    terminate_caller e rq (invite_cseq_of rq (get_caller_invite_cseq u (sx_b2bua s))) p
      (cancel_callee e rq (current_attempt u (sx_b2bua s)) (get_callee_cancel_info u (sx_b2bua s))
        (finished e u Cancelled (note_reason u (header_value (rq_header_lines (sq_view rq)) ''reason'')
          (answer e ''200 OK -> CANCEL'' 200 (response_for_request rq 200 ''OK'') p s))))"
  unfolding sbc_handle_cancel_def Let_def assms(1) answer_b2bua option.case assms(2) using assms(3) by (simp only: if_False)

lemma cancel_pending_ends:
  assumes "cancel_call rq (fst p) s = Some u" and "hm_get (calls_of s) u = Some c" and "\<not> already_answered c"
    and "s' = sbc_handle_cancel e rq p s"
  shows "map fst (calls_of s') = filter ((\<noteq>) u) (map fst (calls_of s)) \<and>
    (\<exists>r. cd_uuid r = u \<and> cd_disconnect_reason r = disconnect_reason Cancelled \<and> hands_over (sx_cdr s) [r] (sx_cdr s'))"
proof -
  let ?t = "note_reason u (header_value (rq_header_lines (sq_view rq)) ''reason'')
    (answer e ''200 OK -> CANCEL'' 200 (response_for_request rq 200 ''OK'') p s)"
  have "hm_get (calls_of (answer e ''200 OK -> CANCEL'' 200 (response_for_request rq 200 ''OK'') p s)) u = Some c"
    using assms(2) by simp
  then obtain c' where "hm_get (calls_of ?t) u = Some c'" using note_reason_get by blast
  from finished_record [OF this, of Cancelled e] show ?thesis
    unfolding assms(4) cancel_pending [OF assms(1-3)] by (simp add: finish_keys)
qed

lemma cancel_pending_mail:
  assumes "\<forall>m. is_ok (ev_reply e m)"
    and pending: "cancel_call rq (fst p) s = Some u" "hm_get (calls_of s) u = Some c" "\<not> already_answered c"
    and "current_attempt u (sx_b2bua s) = Some (a, tx)" and "build_cancel (at_raw a) = Some cancel"
    and "build_plain_response_for_request rq 487 = Inr raw"
  shows "outbox (sbc_handle_cancel e rq p s) =
    outbox s @ [mail (response_for_request rq 200 ''OK'') p, (cancel, at_dest a, at_transport a, tx),
      mail (with_invite_cseq (invite_cseq_of rq (get_caller_invite_cseq u (sx_b2bua s))) raw) p]"
  unfolding cancel_pending [OF pending] assms(5) terminate_caller_outbox [OF assms(1,7)]
    cancel_callee_outbox [OF assms(1,6)] finish_front note_reason_front answer_outbox [OF assms(1)] by simp

text \<open>
  C13: A CANCEL ends exactly the call that is still pending. An unknown Call-ID is answered 481 and
  nothing else happens; a call already answered stands, and only the CANCEL is answered (200). A
  pending call leaves the table, alone, with one record that says it was cancelled, and the peers get,
  in this order, the 200 to the CANCEL, the CANCEL of the live attempt and the 487 that ends the caller's
  INVITE.
\<close>
theorem cancel_ends_only_pending:
  assumes "\<forall>m. is_ok (ev_reply e m)" and "s' = sbc_handle_cancel e rq p s"
  shows "case cancel_call rq (fst p) s of
      None \<Rightarrow> sx_b2bua s' = sx_b2bua s \<and> sx_cdr s' = sx_cdr s \<and>
        outbox s' = outbox s @ [mail (response_for_request rq 481 ''Call/Transaction Does Not Exist'') p]
    | Some u \<Rightarrow> \<forall>c. hm_get (calls_of s) u = Some c \<longrightarrow>
        (if already_answered c
         then sx_b2bua s' = sx_b2bua s \<and> sx_cdr s' = sx_cdr s \<and>
           outbox s' = outbox s @ [mail (response_for_request rq 200 ''OK'') p]
         else map fst (calls_of s') = filter ((\<noteq>) u) (map fst (calls_of s)) \<and>
           (\<exists>r. cd_uuid r = u \<and> cd_disconnect_reason r = disconnect_reason Cancelled \<and>
              hands_over (sx_cdr s) [r] (sx_cdr s')) \<and>
           (\<forall>a tx cancel raw. current_attempt u (sx_b2bua s) = Some (a, tx) \<longrightarrow> build_cancel (at_raw a) = Some cancel \<longrightarrow>
              build_plain_response_for_request rq 487 = Inr raw \<longrightarrow>
              outbox s' = outbox s @ [mail (response_for_request rq 200 ''OK'') p, (cancel, at_dest a, at_transport a, tx),
                mail (with_invite_cseq (invite_cseq_of rq (get_caller_invite_cseq u (sx_b2bua s))) raw) p]))"
proof (cases "cancel_call rq (fst p) s")
  case None
  then show ?thesis using cancel_stands(1) [OF assms(1) None] by (simp only: assms(2) option.case)
next
  case (Some u)
  show ?thesis
    unfolding Some option.case
    using cancel_stands(2) [OF assms(1) Some] cancel_pending_ends [OF Some _ _ assms(2)] cancel_pending_mail [OF assms(1) Some]
    by (simp only: assms(2) split: if_split) blast
qed

definition demo_ringing :: "unit sbc" where
  "demo_ringing = on_b2bua (push_invite_attempt 0 (hex_width 16 7) (render sample_pending) (V4 203 0 113 9, 5060) Udp None) demo_one"

definition demo_cancel :: sip_request where
  "demo_cancel = \<lparr>sq_view = \<lparr>rq_header_lines = [], rq_call_id = Some ''cid'', rq_from = None, rq_cseq = Some ''1 CANCEL''\<rparr>,
     sq_to = None, sq_cseq_number = Some 1, sq_text = [], sq_body = None, sq_echo = Inr [''Call-ID: cid'', ''CSeq: 1 CANCEL'']\<rparr>"

definition demo_peer :: peer where "demo_peer = ((V4 10 0 0 7, 5060), Udp, None)"

lemma demo_ringing_call:
  "\<exists>c. calls_of demo_ringing = [(hex_width 16 7, c)] \<and> bc_uuid c = hex_width 16 7 \<and> cl_call_id (bc_inbound c) = ''cid'' \<and>
     bc_outbound c = None \<and> bc_state c = Proceeding \<and> bc_callee_reply_tx c = None \<and>
     (\<exists>a. last_attempt c = Some a \<and> at_raw a = render sample_pending \<and> at_dest a = (V4 203 0 113 9, 5060))"
  by (simp add: demo_ringing_def demo_one_def demo_up_b2bua_def create_call_def Let_def b2bua_call_new_def b2bua_emit_def
      demo_idle_def b2bua_set_event_bus_def b2bua_manager_new_def hm_insert_def hm_modify_def push_invite_attempt_def
      with_call_def call_leg_new_def last_attempt_def push_attempt_def MAX_INVITE_ATTEMPTS_def)

lemma demo_ringing_facts:
  "cancel_call demo_cancel (fst demo_peer) demo_ringing = Some (hex_width 16 7)"
  "\<exists>c. hm_get (calls_of demo_ringing) (hex_width 16 7) = Some c \<and> \<not> already_answered c"
  "\<exists>a cancel. current_attempt (hex_width 16 7) (sx_b2bua demo_ringing) = Some (a, None) \<and> build_cancel (at_raw a) = Some cancel
     \<and> at_dest a = (V4 203 0 113 9, 5060)"
  "\<exists>raw. build_plain_response_for_request demo_cancel 487 = Inr raw"
  "map fst (calls_of demo_ringing) = [hex_width 16 7]"
  "outbox demo_ringing = []"
proof -
  obtain cancel where cancel: "build_cancel (render sample_pending) = Some cancel"
    using cancel_matches_invite_witness by blast
  have id: "call_id_of demo_cancel = ''cid''" by code_simp
  note call = demo_ringing_call
  from call id show "cancel_call demo_cancel (fst demo_peer) demo_ringing = Some (hex_width 16 7)"
    by (auto simp: cancel_call_def first_some_def find_by_inbound_call_id_def)
  from call show "\<exists>c. hm_get (calls_of demo_ringing) (hex_width 16 7) = Some c \<and> \<not> already_answered c"
    by (auto simp: already_answered_def)
  from call cancel show "\<exists>a cancel. current_attempt (hex_width 16 7) (sx_b2bua demo_ringing) = Some (a, None) \<and>
      build_cancel (at_raw a) = Some cancel \<and> at_dest a = (V4 203 0 113 9, 5060)"
    by (auto simp: current_attempt_def)
  show "\<exists>raw. build_plain_response_for_request demo_cancel 487 = Inr raw"
    by (simp add: build_plain_response_for_request_def demo_cancel_def)
  from call show "map fst (calls_of demo_ringing) = [hex_width 16 7]" by auto
  show "outbox demo_ringing = []"
    by (simp add: demo_ringing_def demo_one_def demo_idle_def quiet_front_def)
qed

theorem cancel_ends_only_pending_witness:
  "\<exists>s'. s' = sbc_handle_cancel demo_env demo_cancel demo_peer demo_ringing \<and> calls_of s' = [] \<and>
     (\<exists>r. cd_uuid r = hex_width 16 7 \<and> hands_over (sx_cdr demo_ringing) [r] (sx_cdr s')) \<and>
     map (fst \<circ> snd) (outbox s') = [(V4 10 0 0 7, 5060), (V4 203 0 113 9, 5060), (V4 10 0 0 7, 5060)]"
proof -
  let ?s = "sbc_handle_cancel demo_env demo_cancel demo_peer demo_ringing"
  have sends: "\<forall>m. is_ok (ev_reply demo_env m)" by (simp add: demo_env_def)
  obtain c where c: "hm_get (calls_of demo_ringing) (hex_width 16 7) = Some c" "\<not> already_answered c"
    using demo_ringing_facts(2) by blast
  obtain a cancel raw where a: "current_attempt (hex_width 16 7) (sx_b2bua demo_ringing) = Some (a, None)"
    "build_cancel (at_raw a) = Some cancel" "at_dest a = (V4 203 0 113 9, 5060)"
    and raw: "build_plain_response_for_request demo_cancel 487 = Inr raw"
    using demo_ringing_facts(3,4) by blast
  note ended = cancel_ends_only_pending [OF sends refl, of demo_cancel demo_peer demo_ringing,
      unfolded demo_ringing_facts(1) option.case, THEN spec, THEN mp, OF c(1), unfolded if_not_P [OF c(2)]]
  have "map fst (calls_of ?s) = []" using ended unfolding demo_ringing_facts(5) by simp
  then have gone: "calls_of ?s = []" by simp
  have billed: "\<exists>r. cd_uuid r = hex_width 16 7 \<and> hands_over (sx_cdr demo_ringing) [r] (sx_cdr ?s)" using ended by blast
  have posted: "map (fst \<circ> snd) (outbox ?s) = [(V4 10 0 0 7, 5060), (V4 203 0 113 9, 5060), (V4 10 0 0 7, 5060)]"
    using ended a raw by (simp add: demo_ringing_facts(6) demo_peer_def)
  show ?thesis by (intro exI [of _ ?s] conjI refl gone billed posted)
qed

end
