(* ===== verification/Sdp.thy ===== *)
theory Sdp
  imports Ice Transcoding
begin

text \<open>
  \<^verbatim>\<open>crates/sbc-core/src/media/sdp.rs\<close>: the session description with its lenient reader and its printer,
  the rewriting of addresses and ports, and the functions that read a payload type or a codec off an
  SDP text; with them the three rewriting functions of \<^verbatim>\<open>media/manager.rs\<close> (\<open>rewrite_sdp_ip\<close>,
  \<open>rewrite_sdp_for_proxy\<close>, \<open>modify_sdp\<close>), whose \<^verbatim>\<open>public_ip\<close> is an argument. The iterator over lines is the
  list of the lines that are left.
\<close>

section \<open>Data\<close>

record sdp_origin =
  og_username :: string
  og_session_id :: string
  og_session_version :: string
  og_network_type :: string
  og_address_type :: string
  og_address :: string

record sdp_connection =
  cn_network_type :: string
  cn_address_type :: string
  cn_address :: string

record time_description =
  td_start_time :: string
  td_stop_time :: string

datatype media_type = Audio | Video | Application | Text | Message

record sdp_attribute =
  sa_key :: string
  sa_value :: "string option"

record media_description =
  md_media_type :: media_type
  md_port :: nat
  md_num_ports :: "nat option"
  md_protocol :: string
  md_formats :: "nat list"
  md_connection :: "sdp_connection option"
  md_attributes :: "sdp_attribute list"

record session_description =
  sd_version :: nat
  sd_origin :: sdp_origin
  sd_session_name :: string
  sd_connection :: "sdp_connection option"
  sd_time :: time_description
  sd_media :: "media_description list"

section \<open>The reader\<close>

fun media_type_from_str :: "string \<Rightarrow> media_type result" where
  "media_type_from_str s =
     (if s = ''audio'' then Inr Audio
      else if s = ''video'' then Inr Video
      else if s = ''application'' then Inr Application
      else if s = ''text'' then Inr Text
      else if s = ''message'' then Inr Message
      else Inl (ParseErr (''Unknown media type: '' @ s)))"

definition parse_version :: "string list \<Rightarrow> nat result" where
  "parse_version ls =
     (case ls of
        [] \<Rightarrow> Inl (ParseErr ''Missing version line'')
      | l # _ \<Rightarrow>
          (case strip_prefix ''v='' l of
             None \<Rightarrow> Inl (ParseErr ''Invalid version line'')
           | Some v \<Rightarrow>
               (case parse_uint u32_max v of None \<Rightarrow> Inl (ParseErr ''Invalid version number'') | Some n \<Rightarrow> Inr n)))"

definition parse_origin :: "string list \<Rightarrow> sdp_origin result" where
  "parse_origin ls =
     (case ls of
        [] \<Rightarrow> Inl (ParseErr ''Missing origin line'')
      | l # _ \<Rightarrow>
          (case strip_prefix ''o='' l of
             None \<Rightarrow> Inl (ParseErr ''Invalid origin line'')
           | Some v \<Rightarrow>
               (case split_whitespace v of
                  [user, sid, version, net, typ, addr] \<Rightarrow>
                    Inr \<lparr>og_username = user, og_session_id = sid, og_session_version = version,
                         og_network_type = net, og_address_type = typ, og_address = addr\<rparr>
                | _ \<Rightarrow> Inl (ParseErr ''Invalid origin format''))))"

definition parse_session_name :: "string list \<Rightarrow> string result" where
  "parse_session_name ls =
     (case ls of
        [] \<Rightarrow> Inl (ParseErr ''Missing session name'')
      | l # _ \<Rightarrow>
          (case strip_prefix ''s='' l of None \<Rightarrow> Inl (ParseErr ''Invalid session name line'') | Some v \<Rightarrow> Inr v))"

text \<open>The value of a \<^verbatim>\<open>c=\<close> line; a line with another number of words is passed over.\<close>

definition read_connection :: "string \<Rightarrow> sdp_connection option" where
  "read_connection v =
     (case split_whitespace v of
        [net, typ, addr] \<Rightarrow> Some \<lparr>cn_network_type = net, cn_address_type = typ, cn_address = addr\<rparr>
      | _ \<Rightarrow> None)"

definition keep_connection :: "sdp_connection option \<Rightarrow> string \<Rightarrow> sdp_connection option" where
  "keep_connection c v = (case read_connection v of None \<Rightarrow> c | Some d \<Rightarrow> Some d)"

fun session_level :: "sdp_connection option \<Rightarrow> string list \<Rightarrow> sdp_connection option \<times> string list" where
  "session_level c [] = (c, [])"
| "session_level c (l # ls) =
     (case strip_prefix ''c='' l of
        Some v \<Rightarrow> session_level (keep_connection c v) ls
      | None \<Rightarrow> if starts_with l ''t='' \<or> starts_with l ''m='' then (c, l # ls) else session_level c ls)"

definition parse_time :: "string list \<Rightarrow> time_description result" where
  "parse_time ls =
     (case ls of
        [] \<Rightarrow> Inl (ParseErr ''Missing time line'')
      | l # _ \<Rightarrow>
          (case strip_prefix ''t='' l of
             None \<Rightarrow> Inl (ParseErr ''Invalid time line'')
           | Some v \<Rightarrow>
               (case split_whitespace v of
                  [a, b] \<Rightarrow> Inr \<lparr>td_start_time = a, td_stop_time = b\<rparr>
                | _ \<Rightarrow> Inl (ParseErr ''Invalid time format''))))"

definition read_attribute :: "string \<Rightarrow> sdp_attribute" where
  "read_attribute v =
     (case split_once CHR '':'' v of
        Some (k, x) \<Rightarrow> \<lparr>sa_key = k, sa_value = Some x\<rparr>
      | None \<Rightarrow> \<lparr>sa_key = v, sa_value = None\<rparr>)"

fun media_level ::
  "sdp_connection option \<Rightarrow> string list \<Rightarrow> sdp_connection option \<times> sdp_attribute list \<times> string list"
where
  "media_level c [] = (c, [], [])"
| "media_level c (l # ls) =
     (if starts_with l ''m='' then (c, [], l # ls)
      else case strip_prefix ''c='' l of
             Some v \<Rightarrow> media_level (keep_connection c v) ls
           | None \<Rightarrow>
               (case strip_prefix ''a='' l of
                  Some v \<Rightarrow> (let (d, as, rest) = media_level c ls in (d, read_attribute v # as, rest))
                | None \<Rightarrow> media_level c ls))"

definition parse_media_line :: "string \<Rightarrow> media_description result" where
  "parse_media_line l =
     (case strip_prefix ''m='' l of
        None \<Rightarrow> Inl (ParseErr ''Invalid media line'')
      | Some v \<Rightarrow>
          (case split_whitespace v of
             typ # port # proto # f # fs \<Rightarrow>
               (case media_type_from_str typ of
                  Inl err \<Rightarrow> Inl err
                | Inr t \<Rightarrow>
                    (case parse_uint u16_max (hd (split_on CHR ''/'' port)) of
                       None \<Rightarrow> Inl (ParseErr (''Invalid port number: '' @ port))
                     | Some n \<Rightarrow>
                         Inr \<lparr>md_media_type = t, md_port = n, md_num_ports = None, md_protocol = proto,
                              md_formats = List.map_filter (parse_uint 255) (f # fs),
                              md_connection = None, md_attributes = []\<rparr>))
           | _ \<Rightarrow> Inl (ParseErr ''Invalid media format'')))"

definition parse_media :: "string \<Rightarrow> string list \<Rightarrow> media_description result \<times> string list" where
  "parse_media l ls =
     (case parse_media_line l of
        Inl err \<Rightarrow> (Inl err, ls)
      | Inr m \<Rightarrow> (let (c, as, rest) = media_level None ls in (Inr (m\<lparr>md_connection := c, md_attributes := as\<rparr>), rest)))"

lemma media_level_shorter: "length (snd (snd (media_level c ls))) \<le> length ls"
  by (induction ls arbitrary: c) (simp_all add: split_def Let_def le_SucI split: option.splits)

lemma parse_media_shorter: "length (snd (parse_media l ls)) \<le> length ls"
  using media_level_shorter [of None ls] by (simp add: parse_media_def split_def Let_def split: sum.splits)

function parse_medias :: "string list \<Rightarrow> media_description list" where
  "parse_medias [] = []"
| "parse_medias (l # ls) =
     (if \<not> starts_with l ''m='' then parse_medias ls
      else case fst (parse_media l ls) of
             Inr m \<Rightarrow> m # parse_medias (snd (parse_media l ls))
           | Inl _ \<Rightarrow> [])"
  by pat_completeness auto
termination
  by (relation "measure length") (auto intro: le_imp_less_Suc parse_media_shorter)

definition default_time :: time_description where
  "default_time = \<lparr>td_start_time = ''0'', td_stop_time = ''0''\<rparr>"

definition sdp_parse :: "string \<Rightarrow> session_description result" where
  "sdp_parse sdp =
     (let ls = dropWhile (\<lambda>l. trim l = []) (lines sdp) in
      case parse_version ls of
        Inl err \<Rightarrow> Inl err
      | Inr v \<Rightarrow>
          (case parse_origin (drop 1 ls) of
             Inl err \<Rightarrow> Inl err
           | Inr og \<Rightarrow>
               (case parse_session_name (drop 2 ls) of
                  Inl err \<Rightarrow> Inl err
                | Inr name \<Rightarrow>
                    (let (c, rest) = session_level None (drop 3 ls);
                         timed = (case rest of [] \<Rightarrow> False | l # _ \<Rightarrow> starts_with l ''t='')
                     in case (if timed then parse_time rest else Inr default_time) of
                          Inl err \<Rightarrow> Inl err
                        | Inr t \<Rightarrow>
                            Inr \<lparr>sd_version = v, sd_origin = og, sd_session_name = name, sd_connection = c, sd_time = t,
                                 sd_media = parse_medias (dropWhile (\<lambda>l. \<not> starts_with l ''m='')
                                   (if timed then tl rest else rest))\<rparr>))))"

section \<open>The printer\<close>

fun media_type_str :: "media_type \<Rightarrow> string" where
  "media_type_str Audio = ''audio''"
| "media_type_str Video = ''video''"
| "media_type_str Application = ''application''"
| "media_type_str Text = ''text''"
| "media_type_str Message = ''message''"

definition connection_lines :: "sdp_connection option \<Rightarrow> string list" where
  "connection_lines c =
     (case c of
        None \<Rightarrow> []
      | Some d \<Rightarrow> [''c='' @ cn_network_type d @ '' '' @ cn_address_type d @ '' '' @ cn_address d])"

definition attribute_line :: "sdp_attribute \<Rightarrow> string" where
  "attribute_line a = ''a='' @ sa_key a @ (case sa_value a of None \<Rightarrow> [] | Some v \<Rightarrow> CHR '':'' # v)"

definition media_render :: "media_description \<Rightarrow> string list" where
  "media_render m =
     (''m='' @ media_type_str (md_media_type m) @ '' '' @ show_nat (md_port m) @ '' '' @ md_protocol m
      @ concat (map (\<lambda>f. CHR '' '' # show_nat f) (md_formats m)))
     # connection_lines (md_connection m) @ map attribute_line (md_attributes m)"

text \<open>The lines of the text; each ends with CR LF.\<close>

definition session_lines :: "session_description \<Rightarrow> string list" where
  "session_lines s =
     [''v='' @ show_nat (sd_version s),
      ''o='' @ og_username (sd_origin s) @ '' '' @ og_session_id (sd_origin s) @ '' '' @ og_session_version (sd_origin s)
        @ '' '' @ og_network_type (sd_origin s) @ '' '' @ og_address_type (sd_origin s) @ '' '' @ og_address (sd_origin s),
      ''s='' @ sd_session_name s]
     @ connection_lines (sd_connection s)
     @ [''t='' @ td_start_time (sd_time s) @ '' '' @ td_stop_time (sd_time s)]"

definition render_lines :: "session_description \<Rightarrow> string list" where
  "render_lines s = session_lines s @ concat (map media_render (sd_media s))"

definition crlf_lines :: "string list \<Rightarrow> string" where
  "crlf_lines ls = concat (map (\<lambda>l. l @ crlf) ls)"

definition sdp_render :: "session_description \<Rightarrow> string" where
  "sdp_render s = crlf_lines (render_lines s)"

section \<open>Rewriting\<close>

definition addr_type_of :: "ip_addr \<Rightarrow> string" where
  "addr_type_of ip = (case ip of V4 _ _ _ _ \<Rightarrow> ''IP4'' | V6 _ \<Rightarrow> ''IP6'')"

definition set_address :: "ip_addr \<Rightarrow> sdp_connection \<Rightarrow> sdp_connection" where
  "set_address ip c = c\<lparr>cn_address := ip_to_string ip, cn_address_type := addr_type_of ip\<rparr>"

definition replace_ip :: "ip_addr \<Rightarrow> session_description \<Rightarrow> session_description" where
  "replace_ip ip s =
     s\<lparr>sd_origin := (sd_origin s)\<lparr>og_address := ip_to_string ip, og_address_type := addr_type_of ip\<rparr>,
       sd_connection := map_option (set_address ip) (sd_connection s),
       sd_media := map (\<lambda>m. m\<lparr>md_connection := map_option (set_address ip) (md_connection m)\<rparr>) (sd_media s)\<rparr>"

definition replace_port :: "media_type \<Rightarrow> nat \<Rightarrow> session_description \<Rightarrow> session_description" where
  "replace_port t port s =
     s\<lparr>sd_media := map (\<lambda>m. if md_media_type m = t then m\<lparr>md_port := port\<rparr> else m) (sd_media s)\<rparr>"

definition replace_ip_opt :: "ip_addr option \<Rightarrow> session_description \<Rightarrow> session_description" where
  "replace_ip_opt ip s = (case ip of None \<Rightarrow> s | Some a \<Rightarrow> replace_ip a s)"

definition rewrite_sdp_ip :: "ip_addr option \<Rightarrow> string \<Rightarrow> string" where
  "rewrite_sdp_ip public_ip sdp =
     (case (public_ip, sdp_parse sdp) of
        (Some ip, Inr s) \<Rightarrow> sdp_render (replace_ip ip s)
      | _ \<Rightarrow> sdp)"

text \<open>One line of \<^verbatim>\<open>rewrite_rtcp_attr\<close>.\<close>

definition rewrite_rtcp_line :: "nat \<Rightarrow> string \<Rightarrow> string" where
  "rewrite_rtcp_line port l =
     (case strip_prefix ''a=rtcp:'' (trim_start l) of
        None \<Rightarrow> l
      | Some rest \<Rightarrow>
          if takeWhile is_ascii_digit rest = [] then l
          else ''a=rtcp:'' @ show_nat port @ dropWhile is_ascii_digit rest)"

definition rewrite_rtcp_attr :: "string \<Rightarrow> nat \<Rightarrow> string" where
  "rewrite_rtcp_attr sdp port =
     (let out = crlf_lines (map (rewrite_rtcp_line port) (lines sdp))
      in if \<not> ends_with sdp [LF] \<and> ends_with out crlf then take (length out - 2) out else out)"

text \<open>The port arithmetic is that of \<^verbatim>\<open>u16\<close>.\<close>

definition rewrite_sdp_for_proxy :: "ip_addr option \<Rightarrow> string \<Rightarrow> nat \<Rightarrow> string" where
  "rewrite_sdp_for_proxy public_ip sdp rtp_port =
     (case sdp_parse sdp of
        Inl _ \<Rightarrow> sdp
      | Inr s \<Rightarrow>
          rewrite_rtcp_attr (sdp_render (replace_port Audio rtp_port (replace_ip_opt public_ip s))) ((rtp_port + 1) mod 65536))"

definition modify_sdp :: "ip_addr option \<Rightarrow> string \<Rightarrow> nat \<Rightarrow> string result" where
  "modify_sdp public_ip sdp rtp_port =
     (case sdp_parse sdp of
        Inl err \<Rightarrow> Inl err
      | Inr s \<Rightarrow>
          (let s1 = replace_port Audio rtp_port (replace_ip_opt public_ip s)
           in Inr (sdp_render
                (if list_ex (\<lambda>m. md_media_type m = Video) (sd_media s1)
                 then replace_port Video ((rtp_port + 2) mod 65536) s1 else s1))))"

section \<open>Codecs\<close>

text \<open>The first word of a text, read as a number.\<close>

definition first_number :: "nat \<Rightarrow> string \<Rightarrow> nat option" where
  "first_number max_value s = (case split_whitespace s of [] \<Rightarrow> None | w # _ \<Rightarrow> parse_uint max_value w)"

text \<open>The payload type of a \<^verbatim>\<open>telephone-event\<close> line, as \<open>transform_webrtc_to_trunk\<close> looks for it.\<close>

definition event_pt :: "string \<Rightarrow> nat option" where
  "event_pt l =
     (case strip_prefix ''a=rtpmap:'' (trim l) of
        None \<Rightarrow> None
      | Some v \<Rightarrow>
          if contains v ''telephone-event''
          then first_number 255 v else None)"

definition last_event_pt :: "string \<Rightarrow> nat option" where
  "last_event_pt sdp = fold (\<lambda>l r. case event_pt l of None \<Rightarrow> r | Some pt \<Rightarrow> Some pt) (lines sdp) None"

definition transform_webrtc_to_trunk :: "string \<Rightarrow> string \<Rightarrow> nat \<Rightarrow> string" where
  "transform_webrtc_to_trunk webrtc_sdp sbc_ip rtp_port =
     (let pt = show_nat (case last_event_pt webrtc_sdp of Some n \<Rightarrow> n | None \<Rightarrow> 101)
      in crlf_lines
           [''v=0'', ''o=- 0 0 IN IP4 '' @ sbc_ip, ''s=SBC'', ''c=IN IP4 '' @ sbc_ip, ''t=0 0'',
            ''m=audio '' @ show_nat rtp_port @ '' RTP/AVP 8 '' @ pt,
            ''a=rtpmap:8 PCMA/8000'', ''a=ptime:20'', ''a=sendrecv'',
            ''a=rtpmap:'' @ pt @ '' telephone-event/8000'', ''a=fmtp:'' @ pt @ '' 0-16''])"

fun telephone_event_in :: "string list \<Rightarrow> (nat \<times> nat) option" where
  "telephone_event_in [] = None"
| "telephone_event_in (l # ls) =
     (case strip_prefix ''a=rtpmap:'' (trim l) of
        None \<Rightarrow> telephone_event_in ls
      | Some v \<Rightarrow>
          (case find_str ''telephone-event'' v of
             None \<Rightarrow> telephone_event_in ls
           | Some pos \<Rightarrow>
               map_option (\<lambda>pt.
                 (pt, case split_on CHR ''/'' (drop pos v) of
                        _ # r # _ \<Rightarrow> (case first_number u32_max r of None \<Rightarrow> 8000 | Some rate \<Rightarrow> rate)
                      | _ \<Rightarrow> 8000)) (first_number 255 v)))"

definition telephone_event_pt :: "string \<Rightarrow> (nat \<times> nat) option" where
  "telephone_event_pt sdp = telephone_event_in (lines sdp)"

definition static_pt_name :: "nat \<Rightarrow> string option" where
  "static_pt_name pt =
     (if pt = 0 then Some ''PCMU'' else if pt = 3 then Some ''GSM'' else if pt = 8 then Some ''PCMA''
      else if pt = 9 then Some ''G722'' else if pt = 18 then Some ''G729'' else None)"

text \<open>The name a mapping line gives to a payload type.\<close>

definition rtpmap_name :: "nat \<Rightarrow> string \<Rightarrow> string option" where
  "rtpmap_name pt l =
     (case strip_prefix ''a=rtpmap:'' l of
        None \<Rightarrow> None
      | Some v \<Rightarrow>
          (case split_whitespace v of
             n # name # _ \<Rightarrow> if parse_uint 255 n = Some pt then Some (hd (split_on CHR ''/'' name)) else None
           | _ \<Rightarrow> None))"

fun find_map :: "('a \<Rightarrow> 'b option) \<Rightarrow> 'a list \<Rightarrow> 'b option" where
  "find_map f [] = None"
| "find_map f (x # xs) = (case f x of None \<Rightarrow> find_map f xs | Some y \<Rightarrow> Some y)"

fun first_voice :: "string list \<Rightarrow> nat list \<Rightarrow> string option" where
  "first_voice ls [] = None"
| "first_voice ls (pt # pts) =
     (case (case find_map (rtpmap_name pt) ls of None \<Rightarrow> static_pt_name pt | Some n \<Rightarrow> Some n) of
        None \<Rightarrow> first_voice ls pts
      | Some n \<Rightarrow> if n = ''telephone-event'' \<or> n = ''CN'' then first_voice ls pts else Some n)"

definition negotiated_audio_codec :: "string \<Rightarrow> string option" where
  "negotiated_audio_codec sdp =
     (let ls = map trim (lines sdp) in
      Option.bind (find (\<lambda>l. starts_with l ''m=audio '') ls) (\<lambda>m.
        first_voice ls (List.map_filter (parse_uint 255) (drop 3 (split_whitespace m)))))"

section \<open>What is printed is read back\<close>

definition words_of_connection :: "sdp_connection \<Rightarrow> string list" where
  "words_of_connection c = [cn_network_type c, cn_address_type c, cn_address c]"

definition connection_wf :: "sdp_connection option \<Rightarrow> bool" where
  "connection_wf c = (case c of None \<Rightarrow> True | Some d \<Rightarrow> list_all sdp_word (words_of_connection d))"

definition attribute_wf :: "sdp_attribute \<Rightarrow> bool" where
  "attribute_wf a \<longleftrightarrow> CHR '':'' \<notin> set (sa_key a) \<and> LF \<notin> set (sa_key a) \<and> LF \<notin> set (case sa_value a of None \<Rightarrow> [] | Some v \<Rightarrow> v)"

definition media_wf :: "media_description \<Rightarrow> bool" where
  "media_wf m \<longleftrightarrow> md_port m \<le> u16_max \<and> md_num_ports m = None \<and> sdp_word (md_protocol m) \<and> md_formats m \<noteq> [] \<and>
     list_all (\<lambda>f. f \<le> 255) (md_formats m) \<and> connection_wf (md_connection m) \<and> list_all attribute_wf (md_attributes m)"

text \<open>A description that a text can carry: words where the grammar has words, one line per attribute.\<close>

definition sdp_wf :: "session_description \<Rightarrow> bool" where
  "sdp_wf s \<longleftrightarrow> sd_version s \<le> u32_max \<and>
     list_all sdp_word [og_username (sd_origin s), og_session_id (sd_origin s), og_session_version (sd_origin s),
       og_network_type (sd_origin s), og_address_type (sd_origin s), og_address (sd_origin s)] \<and>
     LF \<notin> set (sd_session_name s) \<and> connection_wf (sd_connection s) \<and>
     sdp_word (td_start_time (sd_time s)) \<and> sdp_word (td_stop_time (sd_time s)) \<and> list_all media_wf (sd_media s)"

lemma word_no_LF: "sdp_word w \<Longrightarrow> LF \<notin> set w"
  by (auto simp: sdp_word_def is_space_def list_all_iff)

lemma read_printed_connection: "list_all sdp_word (words_of_connection d) \<Longrightarrow>
   read_connection (cn_network_type d @ '' '' @ cn_address_type d @ '' '' @ cn_address d) = Some d"
  using split_words [of "words_of_connection d"] by (simp add: read_connection_def words_of_connection_def)

lemma read_printed_attribute: "attribute_wf a \<Longrightarrow>
   read_attribute (sa_key a @ (case sa_value a of None \<Rightarrow> [] | Some v \<Rightarrow> CHR '':'' # v)) = a"
  by (auto simp: read_attribute_def attribute_wf_def split_once_word split_once_None [THEN iffD2] split: option.splits)

definition at_media :: "string list \<Rightarrow> bool" where
  "at_media ls \<longleftrightarrow> (case ls of [] \<Rightarrow> True | l # _ \<Rightarrow> starts_with l ''m='')"

lemma media_level_rest: "at_media ls \<Longrightarrow> media_level c ls = (c, [], ls)"
  by (cases ls) (simp_all add: at_media_def)

lemma media_level_attributes:
  assumes "list_all attribute_wf as" and "at_media rest"
  shows "media_level c (map attribute_line as @ rest) = (c, as, rest)"
  using assms
  by (induction as) (simp_all add: media_level_rest attribute_line_def read_printed_attribute starts_with_def)

lemma media_level_printed:
  assumes "connection_wf d" and "list_all attribute_wf as" and "at_media rest"
  shows "media_level None (connection_lines d @ map attribute_line as @ rest) = (d, as, rest)"
  using media_level_attributes [OF assms(2,3)] assms(1) read_printed_connection
  by (auto simp: connection_lines_def connection_wf_def keep_connection_def starts_with_def split: option.splits)

lemma show_nat_no_slash: "CHR ''/'' \<notin> set (show_nat n)"
  using show_nat_digits(1) [of "CHR ''/''" n] by auto

lemma join_numbers: "join_with '' '' (w # map show_nat fs) = w @ concat (map (\<lambda>f. CHR '' '' # show_nat f) fs)"
  by (induction fs arbitrary: w) simp_all

lemma read_numbers: "list_all (\<lambda>f. f \<le> n) fs \<Longrightarrow> List.map_filter (parse_uint n) (map show_nat fs) = fs"
  by (induction fs) (simp_all add: List.map_filter_simps parse_show_nat)

lemma media_type_read_back: "media_type_from_str (media_type_str t) = Inr t" "sdp_word (media_type_str t)"
  by (cases t; simp add: sdp_word_def is_space_def)+

lemma parse_printed_media_line:
  assumes "media_wf m"
  shows "parse_media_line (hd (media_render m)) = Inr (m\<lparr>md_connection := None, md_attributes := []\<rparr>)"
proof -
  obtain f fs where fs: "md_formats m = f # fs" using assms by (cases "md_formats m") (auto simp: media_wf_def)
  let ?ws = "media_type_str (md_media_type m) # show_nat (md_port m) # md_protocol m # map show_nat (md_formats m)"
  have "list_all sdp_word ?ws" using assms by (simp add: media_wf_def media_type_read_back list_all_iff)
  from split_words [OF this] have words: "split_whitespace (media_type_str (md_media_type m) @ '' '' @ show_nat (md_port m)
      @ '' '' @ md_protocol m @ concat (map (\<lambda>f. CHR '' '' # show_nat f) (md_formats m))) = ?ws"
    using join_numbers [of "md_protocol m" "md_formats m"] by simp
  have "List.map_filter (parse_uint 255) (map show_nat (md_formats m)) = md_formats m"
    using assms by (intro read_numbers) (simp add: media_wf_def)
  then show ?thesis
    using assms words
    by (simp add: parse_media_line_def media_render_def fs media_type_read_back split_on_word [OF show_nat_no_slash]
        parse_show_nat media_wf_def del: media_type_from_str.simps)
qed

lemma media_lines_head: "starts_with (hd (media_render m)) ''m=''" "media_render m = hd (media_render m) # tl (media_render m)"
  by (simp_all add: media_render_def starts_with_def)

lemma at_media_printed: "at_media (concat (map media_render ms))"
  using media_lines_head by (cases ms) (simp_all add: at_media_def split: list.split, metis list.sel(1) append_Cons)

lemma parse_printed_medias: "list_all media_wf ms \<Longrightarrow> parse_medias (concat (map media_render ms)) = ms"
proof (induction ms)
  case (Cons m ms)
  let ?rest = "concat (map media_render ms)"
  have wf: "media_wf m" using Cons.prems by simp
  then have "media_level None (tl (media_render m) @ ?rest) = (md_connection m, md_attributes m, ?rest)"
    using media_level_printed [OF _ _ at_media_printed, of "md_connection m" "md_attributes m" ms]
    by (simp add: media_render_def media_wf_def)
  then have "parse_media (hd (media_render m)) (tl (media_render m) @ ?rest) = (Inr m, ?rest)"
    unfolding parse_media_def parse_printed_media_line [OF wf] by simp
  then have "parse_medias (hd (media_render m) # tl (media_render m) @ ?rest) = m # parse_medias ?rest"
    using media_lines_head(1) by simp
  moreover have "concat (map media_render (m # ms)) = hd (media_render m) # tl (media_render m) @ ?rest"
    by (simp add: media_render_def)
  moreover have "parse_medias ?rest = ms" using Cons by simp
  ultimately show ?case by (simp only:)
qed simp

lemma render_no_LF:
  assumes "sdp_wf s"
  shows "list_all (\<lambda>l. LF \<notin> set l) (render_lines s)"
proof -
  have num: "LF \<notin> set (show_nat n)" for n by (rule word_no_LF) simp
  have con: "list_all (\<lambda>l. LF \<notin> set l) (connection_lines c)" if "connection_wf c" for c
    using that by (auto simp: connection_lines_def connection_wf_def words_of_connection_def word_no_LF split: option.splits)
  have "list_all (\<lambda>l. LF \<notin> set l) (media_render m)" if "media_wf m" for m
    using that con num word_no_LF media_type_read_back(2) [of "md_media_type m"]
    by (auto simp: media_render_def media_wf_def list_all_iff attribute_wf_def attribute_line_def split: option.splits)
  then have "list_all (\<lambda>l. LF \<notin> set l) (concat (map media_render (sd_media s)))"
    using assms by (auto simp: sdp_wf_def list_all_iff)
  then show ?thesis using assms num con by (simp add: render_lines_def session_lines_def sdp_wf_def word_no_LF)
qed

lemma session_level_printed:
  "connection_wf c \<Longrightarrow> starts_with t ''t='' \<Longrightarrow> session_level None (connection_lines c @ t # ls) = (c, t # ls)"
  using read_printed_connection
  by (auto simp: connection_lines_def connection_wf_def keep_connection_def starts_with_def split: option.splits)

lemma lines_sdp_render: "sdp_wf s \<Longrightarrow> lines (sdp_render s) = render_lines s"
  unfolding sdp_render_def crlf_lines_def by (rule lines_of_lines [OF render_no_LF])

lemma drop_until_media:
  "list_all (\<lambda>l. \<not> starts_with l ''m='') xs \<Longrightarrow> at_media ls \<Longrightarrow> dropWhile (\<lambda>l. \<not> starts_with l ''m='') (xs @ ls) = ls"
  by (induction xs) (auto simp: at_media_def split: list.splits)

lemma not_blank: "\<not> is_space c \<Longrightarrow> trim (c # s) \<noteq> []"
  by (auto simp: trim_def trim_start_def trim_end_def dropWhile_eq_Nil_conv)

text \<open>
  A printed description is read back, also when other lines of the session level follow its time line:
  those are passed over.
\<close>

lemma sdp_read_back:
  assumes "sdp_wf s" and extra: "list_all (\<lambda>l. \<not> starts_with l ''m='' \<and> LF \<notin> set l) xs"
  shows "sdp_parse (crlf_lines (session_lines s @ xs @ concat (map media_render (sd_media s)))) = Inr s"
proof -
  let ?ms = "concat (map media_render (sd_media s))"
  let ?ls = "session_lines s @ xs @ ?ms"
  let ?t = "''t='' @ td_start_time (sd_time s) @ '' '' @ td_stop_time (sd_time s)"
  let ?og = "[og_username (sd_origin s), og_session_id (sd_origin s), og_session_version (sd_origin s),
       og_network_type (sd_origin s), og_address_type (sd_origin s), og_address (sd_origin s)]"
  note wf = assms(1) [unfolded sdp_wf_def]
  have "list_all (\<lambda>l. LF \<notin> set l) ?ls"
    using render_no_LF [OF assms(1)] extra by (auto simp: render_lines_def list_all_iff)
  from lines_of_lines [OF this] have ls: "dropWhile (\<lambda>l. trim l = []) (lines (crlf_lines ?ls)) = ?ls"
    unfolding crlf_lines_def by (simp add: session_lines_def not_blank is_space_def)
  have v: "parse_version ?ls = Inr (sd_version s)"
    using wf by (simp add: parse_version_def session_lines_def parse_show_nat)
  have "parse_origin (drop 1 ?ls) = Inr (sd_origin s)"
    using split_words [of ?og] wf by (simp add: parse_origin_def session_lines_def)
  moreover have "parse_session_name (drop 2 ?ls) = Inr (sd_session_name s)"
    by (simp add: parse_session_name_def session_lines_def numeral_2_eq_2)
  moreover have "session_level None (drop 3 ?ls) = (sd_connection s, ?t # xs @ ?ms)"
    using session_level_printed [of "sd_connection s" ?t "xs @ ?ms"] wf
    by (simp add: session_lines_def starts_with_def numeral_3_eq_3)
  moreover have "parse_time (?t # xs @ ?ms) = Inr (sd_time s)"
    using split_words [of "[td_start_time (sd_time s), td_stop_time (sd_time s)]"] wf by (simp add: parse_time_def)
  moreover have "dropWhile (\<lambda>l. \<not> starts_with l ''m='') (xs @ ?ms) = ?ms"
    using extra by (intro drop_until_media at_media_printed) (simp add: list_all_iff)
  moreover have "parse_medias ?ms = sd_media s" using wf by (intro parse_printed_medias) simp
  ultimately show ?thesis unfolding sdp_parse_def Let_def ls v by (simp add: starts_with_def)
qed

lemma sdp_round_trip: "sdp_wf s \<Longrightarrow> sdp_parse (sdp_render s) = Inr s"
  using sdp_read_back [of s "[]"] by (simp add: sdp_render_def render_lines_def)

text \<open>So the rewriting of a description drops the attributes of its session level, a \<^verbatim>\<open>sendonly\<close> for example.\<close>

lemma session_attributes_lost:
  assumes "sdp_wf s" and "LF \<notin> set a"
  shows "rewrite_sdp_ip (Some ip) (crlf_lines (session_lines s @ [''a='' @ a] @ concat (map media_render (sd_media s)))) =
    rewrite_sdp_ip (Some ip) (sdp_render s)"
proof -
  have "list_all (\<lambda>l. \<not> starts_with l ''m='' \<and> LF \<notin> set l) [''a='' @ a]" using assms(2) by (simp add: starts_with_def)
  from sdp_read_back [OF assms(1) this] show ?thesis
    unfolding rewrite_sdp_ip_def sdp_round_trip [OF assms(1)] by simp
qed

definition sample_description :: session_description where
  "sample_description =
     \<lparr>sd_version = 0,
      sd_origin = \<lparr>og_username = ''-'', og_session_id = ''1'', og_session_version = ''1'', og_network_type = ''IN'',
                   og_address_type = ''IP4'', og_address = ''10.0.0.1''\<rparr>,
      sd_session_name = ''a b'', sd_connection = None, sd_time = default_time,
      sd_media = [\<lparr>md_media_type = Audio, md_port = 4000, md_num_ports = None, md_protocol = ''RTP/AVP'', md_formats = [8, 101],
        md_connection = Some \<lparr>cn_network_type = ''IN'', cn_address_type = ''IP4'', cn_address = ''10.0.0.1''\<rparr>,
        md_attributes = [\<lparr>sa_key = ''sendrecv'', sa_value = None\<rparr>, \<lparr>sa_key = ''rtcp'', sa_value = Some ''4001''\<rparr>]\<rparr>]\<rparr>"

lemma sample_description_wf: "sdp_wf sample_description"
  by (simp add: sample_description_def sdp_wf_def media_wf_def connection_wf_def words_of_connection_def attribute_wf_def
      sdp_word_def is_space_def default_time_def u16_max_def u32_max_def)

section \<open>The description the other side gets\<close>

definition rtcp_attribute :: "nat \<Rightarrow> sdp_attribute \<Rightarrow> sdp_attribute" where
  "rtcp_attribute port a =
     (case sa_value a of
        Some v \<Rightarrow>
          if sa_key a = ''rtcp'' \<and> takeWhile is_ascii_digit v \<noteq> []
          then a\<lparr>sa_value := Some (show_nat port @ dropWhile is_ascii_digit v)\<rparr> else a
      | None \<Rightarrow> a)"

definition with_rtcp :: "nat \<Rightarrow> session_description \<Rightarrow> session_description" where
  "with_rtcp port s =
     s\<lparr>sd_media := map (\<lambda>m. m\<lparr>md_attributes := map (rtcp_attribute port) (md_attributes m)\<rparr>) (sd_media s)\<rparr>"

lemma append_colon:
  assumes "CHR '':'' \<notin> set k"
  shows "strip_prefix ''rtcp:'' (k @ CHR '':'' # v) = (if k = ''rtcp'' then Some v else None)"
proof (cases "strip_prefix ''rtcp:'' (k @ CHR '':'' # v)")
  case (Some r)
  then have "split_once CHR '':'' (k @ CHR '':'' # v) = split_once CHR '':'' (''rtcp'' @ CHR '':'' # r)" by simp
  then show ?thesis using Some assms by (simp only: split_once_word [OF assms]) (simp add: split_once_word)
qed (auto dest: strip_prefix_None [THEN iffD1])

lemma rtcp_line_attribute:
  assumes "attribute_wf a"
  shows "rewrite_rtcp_line port (attribute_line a) = attribute_line (rtcp_attribute port a)"
proof -
  have bare: "trim_start (CHR ''a'' # l) = CHR ''a'' # l" for l by (simp add: trim_start_def is_space_def)
  have colon: "CHR '':'' \<notin> set (sa_key a)" using assms by (simp add: attribute_wf_def)
  show ?thesis
  proof (cases "sa_value a")
    case None
    have "strip_prefix ''rtcp:'' (sa_key a) = None" using colon by (auto simp: strip_prefix_None starts_with_iff)
    then show ?thesis by (simp add: rewrite_rtcp_line_def attribute_line_def rtcp_attribute_def None bare)
  next
    case (Some v)
    then show ?thesis
      using append_colon [OF colon, of v]
      by (simp add: rewrite_rtcp_line_def attribute_line_def rtcp_attribute_def bare)
  qed
qed

lemma rtcp_line_other: "c \<noteq> CHR ''a'' \<Longrightarrow> \<not> is_space c \<Longrightarrow> rewrite_rtcp_line port (c # l) = c # l"
  by (simp add: rewrite_rtcp_line_def trim_start_def)

lemma rtcp_lines_media:
  assumes "media_wf m"
  shows "map (rewrite_rtcp_line port) (media_render m) =
    media_render (m\<lparr>md_attributes := map (rtcp_attribute port) (md_attributes m)\<rparr>)"
  using assms rtcp_line_attribute
  by (auto simp: media_render_def connection_lines_def media_wf_def list_all_iff rtcp_line_other is_space_def split: option.splits)

lemma rtcp_lines:
  assumes "sdp_wf s"
  shows "map (rewrite_rtcp_line port) (render_lines s) = render_lines (with_rtcp port s)"
proof -
  have "map (rewrite_rtcp_line port) (concat (map media_render (sd_media s))) = concat (map media_render (sd_media (with_rtcp port s)))"
    using assms by (simp add: sdp_wf_def with_rtcp_def map_concat comp_def list_all_iff rtcp_lines_media cong: map_cong)
  then show ?thesis
    by (auto simp: render_lines_def session_lines_def with_rtcp_def connection_lines_def rtcp_line_other is_space_def split: option.splits)
qed

lemma rewrite_rtcp_render:
  assumes "sdp_wf s"
  shows "rewrite_rtcp_attr (sdp_render s) port = sdp_render (with_rtcp port s)"
proof -
  have "ends_with (crlf_lines (ls @ [l])) [LF]" for ls l by (simp add: crlf_lines_def ends_with_def crlf_def starts_with_def)
  moreover obtain ls l where "render_lines s = ls @ [l]" by (cases "render_lines s" rule: rev_cases) (auto simp: render_lines_def session_lines_def)
  ultimately have "ends_with (sdp_render s) [LF]" by (simp add: sdp_render_def)
  then show ?thesis
    unfolding rewrite_rtcp_attr_def lines_sdp_render [OF assms] rtcp_lines [OF assms] Let_def by (simp add: sdp_render_def)
qed

lemma rtcp_attribute_wf: "attribute_wf a \<Longrightarrow> attribute_wf (rtcp_attribute port a)"
  using word_no_LF [OF sdp_word_nat] set_dropWhileD
  by (fastforce simp: attribute_wf_def rtcp_attribute_def split: option.splits)

lemma with_rtcp_wf: "sdp_wf s \<Longrightarrow> sdp_wf (with_rtcp port s)"
  by (auto simp: sdp_wf_def with_rtcp_def media_wf_def list_all_iff rtcp_attribute_wf)

lemma rewritten_wf:
  assumes "sdp_wf s" and "sdp_word (ip_to_string ip)" and "port \<le> u16_max"
  shows "sdp_wf (replace_port Audio port (replace_ip ip s))"
proof -
  have "sdp_word (addr_type_of ip)" by (cases ip) (simp_all add: addr_type_of_def sdp_word_def is_space_def)
  with assms show ?thesis
    by (auto simp: sdp_wf_def replace_port_def replace_ip_def media_wf_def connection_wf_def words_of_connection_def set_address_def
        list_all_iff split: option.splits)
qed

lemma proxy_description:
  assumes "sdp_parse sdp = Inr s" and "sdp_wf s" and "sdp_word (ip_to_string ip)" and "port \<le> u16_max"
  shows "sdp_parse (rewrite_sdp_for_proxy (Some ip) sdp port) =
    Inr (with_rtcp ((port + 1) mod 65536) (replace_port Audio port (replace_ip ip s)))"
proof -
  let ?t = "replace_port Audio port (replace_ip ip s)"
  have wf: "sdp_wf ?t" by (rule rewritten_wf [OF assms(2,3,4)])
  show ?thesis
    unfolding rewrite_sdp_for_proxy_def assms(1) sum.case replace_ip_opt_def option.case rewrite_rtcp_render [OF wf]
    by (intro sdp_round_trip with_rtcp_wf wf)
qed

lemma rtcp_attribute_key: "sa_key (rtcp_attribute port a) = sa_key a"
  by (simp add: rtcp_attribute_def split: option.splits)

lemma rtcp_attribute_port:
  assumes "sa_key a = ''rtcp''" and "sa_value a = Some v" and "takeWhile is_ascii_digit v \<noteq> []"
  shows "\<exists>w. sa_value (rtcp_attribute port a) = Some w \<and> takeWhile is_ascii_digit w = show_nat port \<and>
    dropWhile is_ascii_digit w = dropWhile is_ascii_digit v"
proof -
  have "\<forall>c \<in> set (show_nat port). is_ascii_digit c" using show_nat_decimal [of port] by (simp add: list_all_iff)
  moreover have "takeWhile is_ascii_digit (dropWhile is_ascii_digit v) = []"
    by (induction v) simp_all
  moreover have "dropWhile is_ascii_digit (dropWhile is_ascii_digit v) = dropWhile is_ascii_digit v" by simp
  ultimately show ?thesis using assms by (simp add: rtcp_attribute_def takeWhile_append2 dropWhile_append2)
qed

text \<open>What the SBC's rewriting keeps of a media section and what it sets.\<close>

definition proxied :: "ip_addr \<Rightarrow> nat \<Rightarrow> media_description \<Rightarrow> media_description \<Rightarrow> bool" where
  "proxied ip port m m' \<longleftrightarrow>
     md_media_type m' = md_media_type m \<and> md_protocol m' = md_protocol m \<and> md_formats m' = md_formats m \<and>
     md_port m' = (if md_media_type m = Audio then port else md_port m) \<and>
     pred_option (\<lambda>c. cn_address c = ip_to_string ip) (md_connection m') \<and>
     list_all2 (\<lambda>a a'. sa_key a' = sa_key a \<and>
       (case sa_value a of
          Some v \<Rightarrow>
            if sa_key a = ''rtcp'' \<and> takeWhile is_ascii_digit v \<noteq> []
            then \<exists>w. sa_value a' = Some w \<and> takeWhile is_ascii_digit w = show_nat ((port + 1) mod 65536)
            else sa_value a' = Some v
        | None \<Rightarrow> sa_value a' = None)) (md_attributes m) (md_attributes m')"



section \<open>What a trunk is offered\<close>

lemma event_pt_bound: "event_pt l = Some n \<Longrightarrow> n \<le> 255"
  by (auto simp: event_pt_def first_number_def parse_uint_def Let_def split: option.splits if_splits list.splits)

lemma last_event_pt_bound: "last_event_pt sdp = Some n \<Longrightarrow> n \<le> 255"
proof -
  have "fold (\<lambda>l r. case event_pt l of None \<Rightarrow> r | Some pt \<Rightarrow> Some pt) ls r = Some n \<Longrightarrow> (r = Some n \<Longrightarrow> n \<le> 255) \<Longrightarrow> n \<le> 255" for ls r
    by (induction ls arbitrary: r) (auto dest: event_pt_bound split: option.splits)
  then show "last_event_pt sdp = Some n \<Longrightarrow> n \<le> 255" unfolding last_event_pt_def by blast
qed

text \<open>
  Whatever a browser offered, the trunk reads a plain RTP description: one audio section with G.711
  A-law and the browser's telephone events (or 101), at the SBC's address and port, without ICE, DTLS or
  any other attribute of the browser.
\<close>

theorem trunk_offer_is_plain:
  assumes "sdp_word ip" and "port \<le> u16_max"
  shows "\<exists>t m. sdp_parse (transform_webrtc_to_trunk sdp ip port) = Inr t \<and> map_option cn_address (sd_connection t) = Some ip \<and>
    sd_media t = [m] \<and> md_media_type m = Audio \<and> md_port m = port \<and> md_protocol m = ''RTP/AVP'' \<and>
    md_formats m = [8, case last_event_pt sdp of Some n \<Rightarrow> n | None \<Rightarrow> 101] \<and>
    map sa_key (md_attributes m) = [''rtpmap'', ''ptime'', ''sendrecv'', ''rtpmap'', ''fmtp'']"
proof -
  define pt where "pt = (case last_event_pt sdp of Some n \<Rightarrow> n | None \<Rightarrow> 101)"
  have pt: "pt \<le> 255" using last_event_pt_bound by (auto simp: pt_def split: option.splits)
  let ?attr = "\<lambda>k v. \<lparr>sa_key = k, sa_value = v\<rparr>"
  let ?m = "\<lparr>md_media_type = Audio, md_port = port, md_num_ports = None, md_protocol = ''RTP/AVP'', md_formats = [8, pt],
    md_connection = None, md_attributes = [?attr ''rtpmap'' (Some ''8 PCMA/8000''), ?attr ''ptime'' (Some ''20''), ?attr ''sendrecv'' None,
      ?attr ''rtpmap'' (Some (show_nat pt @ '' telephone-event/8000'')), ?attr ''fmtp'' (Some (show_nat pt @ '' 0-16''))]\<rparr>"
  let ?t = "\<lparr>sd_version = 0, sd_origin = \<lparr>og_username = ''-'', og_session_id = ''0'', og_session_version = ''0'',
      og_network_type = ''IN'', og_address_type = ''IP4'', og_address = ip\<rparr>, sd_session_name = ''SBC'',
    sd_connection = Some \<lparr>cn_network_type = ''IN'', cn_address_type = ''IP4'', cn_address = ip\<rparr>, sd_time = default_time, sd_media = [?m]\<rparr>"
  have "sdp_wf ?t"
    using assms pt word_no_LF [OF sdp_word_nat]
    by (simp add: sdp_wf_def media_wf_def connection_wf_def words_of_connection_def attribute_wf_def default_time_def u32_max_def
        sdp_word_def is_space_def)
  moreover have "show_nat 0 = ''0''" "show_nat 8 = ''8''" by code_simp+
  then have "transform_webrtc_to_trunk sdp ip port = sdp_render ?t"
    by (simp add: transform_webrtc_to_trunk_def sdp_render_def render_lines_def session_lines_def connection_lines_def media_render_def
        attribute_line_def default_time_def Let_def pt_def [symmetric])
  ultimately show ?thesis
    using sdp_round_trip [of ?t] by (intro exI [of _ ?t] exI [of _ ?m]) (simp add: pt_def)
qed

end
