(* ===== verification/Trunk_Retry.thy ===== *)
theory Trunk_Retry
  imports Call_Handler Digest_Auth
begin

text \<open>
  Another try at a callee behind a trunk (\<^verbatim>\<open>sbc/invite_handler.rs\<close>): the failover of a call to its next
  candidate trunk and the timer that triggers it, the INVITE sent again with credentials after a 407, and
  with a longer session interval after a 422, on the state of \<open>Call_Teardown\<close>. The recursion of the
  failover ends because each round takes a candidate off the call's list.
\<close>

section \<open>Failover\<close>

definition tracked_send ::
  "call_env \<Rightarrow> string \<Rightarrow> string \<Rightarrow> socket_addr \<Rightarrow> transport \<Rightarrow> nat option \<Rightarrow> 'net sbc \<Rightarrow> unit result \<times> 'net sbc"
where
  "tracked_send e what data dest tp tx s =
     (let (r, f) = send_request_tracked (ev_reply e) (ev_now e) what data dest tp tx (sx_front s)
      in (r, s\<lparr>sx_front := f\<rparr>))"

definition candidates_left :: "string \<Rightarrow> 'net sbc \<Rightarrow> trunk_id list" where
  "candidates_left uuid s =
     (case Option.bind (hm_get (calls_of s) uuid) bc_failover of None \<Rightarrow> [] | Some fo \<Rightarrow> fo_candidates fo)"

text \<open>The router's filter, applied again to a candidate: its configuration and where to send.\<close>

definition selectable :: "instant \<Rightarrow> trunk_manager \<Rightarrow> trunk_id \<Rightarrow> (trunk_config \<times> socket_addr) option" where
  "selectable now tm i =
     (case get_trunk i tm of
        None \<Rightarrow> None
      | Some t \<Rightarrow>
          (case destination t of
             None \<Rightarrow> None
           | Some dest \<Rightarrow>
               if tc_enabled t \<and> (case get_state i tm of None \<Rightarrow> False | Some st \<Rightarrow> can_accept_call now t st)
               then Some (t, dest) else None))"

definition stored_invite :: "string \<Rightarrow> 'net sbc \<Rightarrow> (string \<times> b2bua_call) option" where
  "stored_invite uuid s =
     Option.bind (hm_get (calls_of s) uuid) (\<lambda>c.
     Option.bind (bc_original_outbound_invite c) (\<lambda>raw. if raw = [] then None else Some (raw, c)))"

definition cancel_previous :: "call_env \<Rightarrow> string \<Rightarrow> b2bua_call \<Rightarrow> 'net sbc \<Rightarrow> 'net sbc" where
  "cancel_previous e raw c s =
     (case (build_cancel raw, bc_callee_dest c) of
        (Some cancel, Some dest) \<Rightarrow>
          snd (tracked_send e ''CANCEL (failover) -> previous attempt'' cancel dest (bc_callee_transport c) (bc_callee_reply_tx c) s)
      | _ \<Rightarrow> s)"

definition redirect_call :: "string \<Rightarrow> socket_addr \<Rightarrow> b2bua_call \<Rightarrow> b2bua_call" where
  "redirect_call name dest c =
     c\<lparr>bc_trunk_name := Some name, bc_callee_reply_tx := None, bc_callee_responded := False,
       bc_session_timer_retry_count := 0, bc_outbound := map_option (\<lambda>l. l\<lparr>cl_remote_addr := dest\<rparr>) (bc_outbound c)\<rparr>"

definition commit_failover :: "call_env \<Rightarrow> string \<Rightarrow> trunk_config \<Rightarrow> socket_addr \<Rightarrow> string \<Rightarrow> 'net sbc \<Rightarrow> 'net sbc" where
  "commit_failover e uuid t dest invite s =
     on_trunks (count_call_on_trunk uuid (Some (tc_name t)))
       (on_b2bua (\<lambda>b. with_call uuid (redirect_call (tc_name t) dest)
          (reset_auth_retry uuid
            (push_invite_attempt (ev_now e) uuid invite dest (to_rsip_transport (tc_transport t)) (Some (tc_id t)) b))) s)"

text \<open>One candidate: \<open>Some True\<close> when the INVITE is under way, \<open>Some False\<close> to give up, \<open>None\<close> for the next one.\<close>

definition try_candidate :: "call_env \<Rightarrow> string \<Rightarrow> trunk_config \<Rightarrow> socket_addr \<Rightarrow> 'net sbc \<Rightarrow> bool option \<times> 'net sbc" where
  "try_candidate e uuid t dest s =
     (case stored_invite uuid s of
        None \<Rightarrow> (Some False, s)
      | Some (raw, c) \<Rightarrow>
          (let s1 = cancel_previous e raw c s in
           case retarget_invite_for_trunk (ev_rnd e uuid (8 + length (candidates_left uuid s))) raw t of
             None \<Rightarrow> (Some False, s1)
           | Some invite \<Rightarrow>
               (case tracked_send e ''INVITE (failover) -> trunk'' invite dest (to_rsip_transport (tc_transport t)) None s1 of
                  (Inl _, s2) \<Rightarrow> (None, on_trunks (note_trunk_failure (ev_now e) (ev_wall e) (tc_name t) None) s2)
                | (Inr _, s2) \<Rightarrow> (Some True, commit_failover e uuid t dest invite s2))))"

definition failover_step :: "call_env \<Rightarrow> string \<Rightarrow> 'net sbc \<Rightarrow> bool option \<times> 'net sbc" where
  "failover_step e uuid s =
     (case take_next_failover_candidate (ev_now e) uuid (sx_b2bua s) of
        (None, b) \<Rightarrow> (Some False, s\<lparr>sx_b2bua := b\<rparr>)
      | (Some i, b) \<Rightarrow>
          (let s1 = s\<lparr>sx_b2bua := b\<rparr> in
           case selectable (ev_now e) (sx_tm s1) i of
             None \<Rightarrow> (None, s1)
           | Some (t, dest) \<Rightarrow> try_candidate e uuid t dest s1))"

lemma candidates_front [simp]: "candidates_left u (s\<lparr>sx_front := f\<rparr>) = candidates_left u s"
  by (simp add: candidates_left_def)

lemma tracked_send_frame [simp]:
  "sx_b2bua (snd (tracked_send e w d a tp tx s)) = sx_b2bua s" "sx_cdr (snd (tracked_send e w d a tp tx s)) = sx_cdr s"
  "sx_tm (snd (tracked_send e w d a tp tx s)) = sx_tm s" "trunks_of (snd (tracked_send e w d a tp tx s)) = trunks_of s"
  by (simp_all add: tracked_send_def trunks_of_def split: prod.splits)

lemma cancel_previous_frame [simp]:
  "sx_b2bua (cancel_previous e raw c s) = sx_b2bua s" "sx_cdr (cancel_previous e raw c s) = sx_cdr s"
  "sx_tm (cancel_previous e raw c s) = sx_tm s" "trunks_of (cancel_previous e raw c s) = trunks_of s"
  by (simp_all add: cancel_previous_def split: option.splits)

lemma candidates_b2bua: "sx_b2bua s' = sx_b2bua s \<Longrightarrow> candidates_left u s' = candidates_left u s"
  by (simp add: candidates_left_def)

lemma candidates_trunks [simp]: "candidates_left u (on_trunks f s) = candidates_left u s"
  by (cases "hm_get (calls_of s) u") (simp_all add: candidates_left_def trunk_calls_frame split: option.splits)

lemma candidates_taken:
  assumes "take_next_failover_candidate now u (sx_b2bua s) = (Some i, b)"
  shows "candidates_left u s = i # candidates_left u (s\<lparr>sx_b2bua := b\<rparr>)"
proof -
  from assms obtain c fo where "hm_get (calls_of s) u = Some c" "bc_failover c = Some fo" "fo_candidates fo \<noteq> []"
    by (auto simp: take_next_failover_candidate_def split: option.splits list.splits bind_splits if_splits)
  with assms show ?thesis
    by (auto simp: take_next_failover_candidate_def candidates_left_def with_call_def hm_get_modify split: list.splits if_splits)
qed

lemma failover_step_next:
  assumes "failover_step e u s = (None, s')"
  shows "\<exists>i. candidates_left u s = i # candidates_left u s'"
proof -
  obtain x b where tk: "take_next_failover_candidate (ev_now e) u (sx_b2bua s) = (x, b)" by fastforce
  with assms obtain i where i: "x = Some i" by (auto simp: failover_step_def split: option.splits)
  note taken = candidates_taken [OF tk [unfolded i]]
  have "candidates_left u (snd (tracked_send e w d a tp tx (cancel_previous e raw c (s\<lparr>sx_b2bua := b\<rparr>)))) =
      candidates_left u (s\<lparr>sx_b2bua := b\<rparr>)" for w d a tp tx raw c
    by (rule candidates_b2bua) simp
  then have "candidates_left u s' = candidates_left u (s\<lparr>sx_b2bua := b\<rparr>)"
    using assms unfolding failover_step_def tk i try_candidate_def
    by (auto simp: Let_def split: option.splits prod.splits sum.splits) (metis candidates_trunks snd_conv)
  with taken show ?thesis by auto
qed

function failover_to_next_trunk :: "call_env \<Rightarrow> string \<Rightarrow> 'net sbc \<Rightarrow> bool \<times> 'net sbc" where
  "failover_to_next_trunk e uuid s =
     (case failover_step e uuid s of
        (Some sent, s') \<Rightarrow> (sent, s')
      | (None, s') \<Rightarrow> failover_to_next_trunk e uuid s')"
  by auto
termination
  by (relation "measure (\<lambda>(_, uuid, s). length (candidates_left uuid s))") (auto dest!: failover_step_next [OF sym])

declare failover_to_next_trunk.simps [simp del]

definition check_invite_failover :: "call_env \<Rightarrow> duration \<Rightarrow> 'net sbc \<Rightarrow> 'net sbc" where
  "check_invite_failover e invite_timeout s =
     fold (\<lambda>(uuid, _, has_remaining) s.
       if \<not> has_remaining then s
       else
         snd (failover_to_next_trunk e uuid
           (case silent_outbound_trunk_of uuid (trunks_of s) of
              None \<Rightarrow> s
            | Some name \<Rightarrow> on_trunks (note_trunk_failure (ev_now e) (ev_wall e) name None) s)))
       (invite_attempts_timed_out (ev_now e) invite_timeout (sx_b2bua s)) s"

section \<open>422: a longer session interval\<close>

fun is_unspecified :: "ip_addr \<Rightarrow> bool" where
  "is_unspecified (V4 a b c d) \<longleftrightarrow> a = 0 \<and> b = 0 \<and> c = 0 \<and> d = 0"
| "is_unspecified (V6 segs) \<longleftrightarrow> list_all ((=) 0) segs"

definition resend_longer ::
  "call_env \<Rightarrow> string \<Rightarrow> invite_attempt \<Rightarrow> nat option \<Rightarrow> trunk_id \<Rightarrow> socket_addr \<Rightarrow> nat \<times> nat \<Rightarrow> 'net sbc \<Rightarrow> bool \<times> 'net sbc"
where
  "resend_longer e uuid a tx tid trunk_source offer s =
     (let invite = build_session_interval_retry (ev_rnd e uuid 4) (at_raw a) (fst offer) (snd offer);
          dest = (if is_unspecified (fst (at_dest a)) then trunk_source else at_dest a)
      in case tracked_send e ''INVITE (422 retry) -> trunk'' invite dest (at_transport a) tx s of
           (Inl _, s1) \<Rightarrow> (False, s1)
         | (Inr _, s1) \<Rightarrow>
             (True,
              on_metrics (\<lambda>m. m\<lparr>km_timer_422_retries := incr64 (km_timer_422_retries m)\<rparr>)
                (on_b2bua (\<lambda>b. push_invite_attempt (ev_now e) uuid invite dest (at_transport a) (Some tid)
                   (reset_auth_retry uuid (increment_session_timer_retry uuid b))) s1)))"

definition handle_422_session_interval_retry ::
  "call_env \<Rightarrow> string \<Rightarrow> string \<Rightarrow> socket_addr \<Rightarrow> 'net sbc \<Rightarrow> bool \<times> 'net sbc"
where
  "handle_422_session_interval_retry e uuid raw_422 trunk_source s =
     (case (sx_session_timer s, current_attempt uuid (sx_b2bua s)) of
        (Some cfg, Some (a, tx)) \<Rightarrow>
          (case at_trunk_id a of
             None \<Rightarrow> (False, s)
           | Some tid \<Rightarrow>
               if 1 \<le> get_session_timer_retry_count uuid (sx_b2bua s) then (False, s)
               else case parse_min_se raw_422 of
                      None \<Rightarrow> (False, s)
                    | Some min_se \<Rightarrow>
                        (case session_interval_retry_values (parse_session_expires (at_raw a)) min_se cfg of
                           None \<Rightarrow> (False, s)
                         | Some offer \<Rightarrow> resend_longer e uuid a tx tid trunk_source offer s))
      | _ \<Rightarrow> (False, s))"

section \<open>407: credentials\<close>

definition proxy_authenticate :: "string \<Rightarrow> string option" where
  "proxy_authenticate raw =
     map_option (\<lambda>l. trim (drop (case find_char CHR '':'' l of None \<Rightarrow> 1 | Some i \<Rightarrow> i + 1) l))
       (find (\<lambda>l. starts_with (to_ascii_lowercase l) ''proxy-authenticate:'') (lines raw))"

definition trunk_credentials :: "trunk_config \<Rightarrow> (string \<times> string) option" where
  "trunk_credentials t =
     (if \<not> tc_auth_required t then None
      else case (tc_username t, tc_password t) of (Some u, Some p) \<Rightarrow> Some (u, p) | _ \<Rightarrow> None)"

definition resend_authenticated ::
  "call_env \<Rightarrow> string \<Rightarrow> string \<Rightarrow> string \<Rightarrow> trunk_id \<Rightarrow> trunk_config \<Rightarrow> string \<times> string \<Rightarrow> digest_challenge \<Rightarrow> socket_addr \<Rightarrow>
   'net sbc \<Rightarrow> bool \<times> 'net sbc"
where
  "resend_authenticated e cnonce uuid original tid t cred ch trunk_source s =
     (let uri = or_else (extract_request_uri_from_raw original) ''sip:unknown@unknown'';
          auth = generate_digest_response cnonce (fst cred) (snd cred) ch ''INVITE'' uri;
          invite = inject_proxy_auth_into_invite (ev_rnd e uuid 5) original auth;
          dest = or_else (destination t) trunk_source;
          tp = to_rsip_transport (tc_transport t);
          tx = Option.bind (hm_get (calls_of s) uuid) bc_callee_reply_tx
      in case tracked_send e ''INVITE (407 retry) -> trunk'' invite dest tp tx s of
           (Inl _, s1) \<Rightarrow> (False, s1)
         | (Inr _, s1) \<Rightarrow>
             (True, on_b2bua (\<lambda>b. push_invite_attempt (ev_now e) uuid invite dest tp (Some tid) (increment_auth_retry uuid b)) s1))"

definition handle_407_auth_retry ::
  "call_env \<Rightarrow> string \<Rightarrow> string \<Rightarrow> string \<Rightarrow> socket_addr \<Rightarrow> 'net sbc \<Rightarrow> bool \<times> 'net sbc"
where
  "handle_407_auth_retry e cnonce uuid raw_407 trunk_source s =
     (case get_auth_retry_info uuid (sx_b2bua s) of
        None \<Rightarrow> (False, s)
      | Some (original, tid, retries) \<Rightarrow>
          if 1 \<le> retries \<or> original = [] then (False, s)
          else case get_trunk tid (sx_tm s) of
                 None \<Rightarrow> (False, s)
               | Some t \<Rightarrow>
                   (case (trunk_credentials t, proxy_authenticate raw_407) of
                      (Some cred, Some v) \<Rightarrow>
                        (case challenge_from_header v of
                           Inl _ \<Rightarrow> (False, s)
                         | Inr ch \<Rightarrow> resend_authenticated e cnonce uuid original tid t cred ch trunk_source s)
                    | _ \<Rightarrow> (False, s)))"

section \<open>Where a failover ends\<close>

lemma failure_less_available:
  "can_accept_call now t (record_trunk_failure now st) \<Longrightarrow> can_accept_call now t st"
  by (auto simp: can_accept_call_def record_trunk_failure_def unavailable_for_def Let_def cooldown_secs_def secs_def List.map_filter_simps
      split: if_splits option.splits)

lemma note_failure_tm:
  "sb_tm (note_trunk_failure now wall name None st) = snd (update_state_by_name name (record_trunk_failure now) (sb_tm st))"
  by (auto simp: note_trunk_failure_def Let_def split: prod.splits option.splits)

lemma selectable_before_failure:
  assumes "selectable now (snd (update_state_by_name name (record_trunk_failure now) tm)) i = Some x"
  shows "selectable now tm i = Some x"
proof -
  have "\<exists>st. get_state i tm = Some st \<and> can_accept_call now t st"
    if "get_state i (snd (update_state_by_name name (record_trunk_failure now) tm)) = Some st'" "can_accept_call now t st'" for t st'
    using that failure_less_available
    by (auto simp: update_state_by_name_def update_state_def get_state_def hm_get_modify split: option.splits if_splits)
  with assms show ?thesis
    by (auto simp: selectable_def get_trunk_def update_state_by_name_trunks split: option.splits if_splits) blast+
qed

text \<open>The state of a call whose INVITE went to a trunk.\<close>

definition sent_to_trunk :: "string \<Rightarrow> trunk_config \<Rightarrow> socket_addr \<Rightarrow> 'net sbc \<Rightarrow> bool" where
  "sent_to_trunk u t dest s \<longleftrightarrow>
     (\<exists>c a. hm_get (calls_of s) u = Some c \<and> bc_trunk_name c = Some (tc_name t) \<and> bc_trunk_counted c = Some (tc_name t) \<and>
        bc_callee_dest c = Some dest \<and> bc_auth_retry_count c = 0 \<and> bc_session_timer_retry_count c = 0 \<and>
        last_attempt c = Some a \<and> at_trunk_id a = Some (tc_id t) \<and>
        (\<exists>ms. outbox s = ms @ [(at_raw a, dest, to_rsip_transport (tc_transport t), None)]))"

lemma last_pushed [simp]: "push_attempt a as \<noteq> []" "last (push_attempt a as) = a"
  by (cases as; simp add: push_attempt_def Let_def MAX_INVITE_ATTEMPTS_def)+

lemma tracked_sent: "tracked_send e w d dest tp tx s = (Inr r, s') \<Longrightarrow> outbox s' = outbox s @ [(d, dest, tp, tx)]"
  by (auto simp: tracked_send_def send_request_tracked_def deliver_def track_request_def Let_def split: prod.splits sum.splits)

lemma tracked_refused: "tracked_send e w d dest tp tx s = (Inl err, s') \<Longrightarrow> \<not> is_ok (ev_reply e (d, dest, tp, tx))"
  by (auto simp: tracked_send_def send_request_tracked_def split: prod.splits sum.splits)

lemma tracked_state: "tracked_send e w d dest tp tx s = (r, s') \<Longrightarrow> sx_b2bua s' = sx_b2bua s \<and> sx_tm s' = sx_tm s"
  using tracked_send_frame(1,3) [of e w d dest tp tx s] by simp

lemma counted_after:
  assumes "hm_get (calls_of s) u = Some c"
  shows "hm_get (calls_of (on_trunks (count_call_on_trunk u t) s)) u = Some (c\<lparr>bc_trunk_counted := t\<rparr>)"
  using assms
  by (cases "bc_trunk_counted c = t") (auto simp: trunk_calls_frame count_call_views views_get hm_get_modify call_view_of_def)

lemma commit_sent:
  assumes "hm_get (calls_of s) u = Some c" and "outbox s = ms @ [(invite, dest, to_rsip_transport (tc_transport t), None)]"
  shows "sent_to_trunk u t dest (commit_failover e u t dest invite s)"
proof -
  let ?b = "with_call u (redirect_call (tc_name t) dest) (reset_auth_retry u
    (push_invite_attempt (ev_now e) u invite dest (to_rsip_transport (tc_transport t)) (Some (tc_id t)) (sx_b2bua s)))"
  let ?s = "on_b2bua (\<lambda>_. ?b) s"
  obtain c1 where c1: "hm_get (calls_of ?s) u = Some c1" and f: "bc_trunk_name c1 = Some (tc_name t)"
      "bc_callee_dest c1 = Some dest" "bc_auth_retry_count c1 = 0" "bc_session_timer_retry_count c1 = 0"
    and a: "\<exists>a. last_attempt c1 = Some a \<and> at_trunk_id a = Some (tc_id t) \<and> at_raw a = invite"
    using assms(1)
    by (simp add: with_call_def hm_get_modify redirect_call_def reset_auth_retry_def push_invite_attempt_def Let_def last_attempt_def)
  from counted_after [OF c1] have "hm_get (calls_of (commit_failover e u t dest invite s)) u = Some (c1\<lparr>bc_trunk_counted := Some (tc_name t)\<rparr>)"
    unfolding commit_failover_def on_b2bua_def .
  moreover have "outbox (commit_failover e u t dest invite s) = outbox s" by (simp add: commit_failover_def)
  ultimately show ?thesis unfolding sent_to_trunk_def using f a assms(2) by (auto simp: last_attempt_def)
qed

lemma candidates_with:
  assumes "\<And>c. map_option fo_candidates (bc_failover (f c)) = map_option fo_candidates (bc_failover c)"
  shows "candidates_left u (s\<lparr>sx_b2bua := with_call u f b\<rparr>) = candidates_left u (s\<lparr>sx_b2bua := b\<rparr>)"
proof (cases "hm_get (bm_calls b) u")
  case (Some c)
  with assms [of c] show ?thesis
    by (cases "bc_failover c"; cases "bc_failover (f c)") (auto simp: candidates_left_def with_call_def hm_get_modify)
qed (simp add: candidates_left_def with_call_def hm_get_modify)

lemma candidates_commit: "candidates_left u (commit_failover e u t dest invite s) = candidates_left u s"
proof -
  have "candidates_left u (s\<lparr>sx_b2bua := with_call u (redirect_call n dest) (reset_auth_retry u
      (push_invite_attempt now u invite dest tp tid b))\<rparr>) = candidates_left u (s\<lparr>sx_b2bua := b\<rparr>)" for n now tp tid b
    unfolding reset_auth_retry_def push_invite_attempt_def Let_def
    by (simp add: candidates_with redirect_call_def option.map_comp comp_def)
  then show ?thesis by (simp add: commit_failover_def on_b2bua_def)
qed

lemma step_sent:
  assumes "failover_step e u s = (Some True, s')"
  shows "\<exists>i t dest. candidates_left u s = i # candidates_left u s' \<and> selectable (ev_now e) (sx_tm s) i = Some (t, dest) \<and>
    sent_to_trunk u t dest s'"
proof -
  obtain x b where tk: "take_next_failover_candidate (ev_now e) u (sx_b2bua s) = (x, b)" by fastforce
  with assms obtain i where i: "x = Some i" by (auto simp: failover_step_def split: option.splits)
  let ?s = "s\<lparr>sx_b2bua := b\<rparr>"
  from assms obtain t dest raw c invite s2 r where sel: "selectable (ev_now e) (sx_tm s) i = Some (t, dest)"
    and inv: "stored_invite u ?s = Some (raw, c)"
    and sent: "tracked_send e ''INVITE (failover) -> trunk'' invite dest (to_rsip_transport (tc_transport t)) None
      (cancel_previous e raw c ?s) = (Inr r, s2)" and s': "s' = commit_failover e u t dest invite s2"
    unfolding failover_step_def tk i try_candidate_def
    by (auto simp: Let_def split: option.splits prod.splits sum.splits)
  have b: "sx_b2bua s2 = b" using tracked_state [OF sent] by simp
  from inv have "hm_get (calls_of s2) u = Some c" by (auto simp: stored_invite_def b split: bind_splits if_splits)
  from commit_sent [OF this tracked_sent [OF sent]] have "sent_to_trunk u t dest s'" by (simp add: s')
  moreover have "candidates_left u s' = candidates_left u ?s"
    unfolding s' candidates_commit by (rule candidates_b2bua) (simp add: b)
  ultimately show ?thesis
    using candidates_taken [OF tk [unfolded i]] sel by (intro exI [of _ i] exI [of _ t] exI [of _ dest]) simp
qed

lemma step_next_tm:
  assumes "failover_step e u s = (None, s')"
  shows "selectable (ev_now e) (sx_tm s') i = Some x \<Longrightarrow> selectable (ev_now e) (sx_tm s) i = Some x"
    and "\<forall>m. is_ok (ev_reply e m) \<Longrightarrow> sx_tm s' = sx_tm s \<and> selectable (ev_now e) (sx_tm s) (hd (candidates_left u s)) = None"
proof -
  obtain y b where tk: "take_next_failover_candidate (ev_now e) u (sx_b2bua s) = (y, b)" by fastforce
  with assms obtain k where k: "y = Some k" by (auto simp: failover_step_def split: option.splits)
  have tm: "sx_tm (on_trunks f s2) = sb_tm (f (trunks_of s2))" for f and s2 :: "'a sbc"
    by (simp add: on_trunks_def put_trunks_def)
  have d: "selectable (ev_now e) (sx_tm s) k = None \<and> sx_tm s' = sx_tm s \<or>
    (\<exists>name. sx_tm s' = snd (update_state_by_name name (record_trunk_failure (ev_now e)) (sx_tm s))) \<and> (\<exists>m. \<not> is_ok (ev_reply e m))"
  proof (cases "selectable (ev_now e) (sx_tm s) k")
    case None
    with assms show ?thesis unfolding failover_step_def tk k by auto
  next
    case (Some td)
    obtain t dest where td: "td = (t, dest)" by (cases td)
    from assms Some obtain raw c invite s2 err where "stored_invite u (s\<lparr>sx_b2bua := b\<rparr>) = Some (raw, c)" and
      sent: "tracked_send e ''INVITE (failover) -> trunk'' invite dest (to_rsip_transport (tc_transport t)) None
        (cancel_previous e raw c (s\<lparr>sx_b2bua := b\<rparr>)) = (Inl err, s2)"
      and s': "s' = on_trunks (note_trunk_failure (ev_now e) (ev_wall e) (tc_name t) None) s2"
      unfolding failover_step_def tk k try_candidate_def td
      by (auto simp: Let_def split: option.splits prod.splits sum.splits)
    have "sx_tm s' = snd (update_state_by_name (tc_name t) (record_trunk_failure (ev_now e)) (sx_tm s))"
      using tracked_state [OF sent] by (simp add: s' tm note_failure_tm trunks_of_def)
    with tracked_refused [OF sent] show ?thesis by blast
  qed
  have "hd (candidates_left u s) = k" using candidates_taken [OF tk [unfolded k]] by simp
  with d show "\<forall>m. is_ok (ev_reply e m) \<Longrightarrow>
      sx_tm s' = sx_tm s \<and> selectable (ev_now e) (sx_tm s) (hd (candidates_left u s)) = None" by blast
  show "selectable (ev_now e) (sx_tm s) i = Some x" if sel: "selectable (ev_now e) (sx_tm s') i = Some x"
    using d
  proof (elim disjE conjE exE)
    fix name
    assume "sx_tm s' = snd (update_state_by_name name (record_trunk_failure (ev_now e)) (sx_tm s))"
    from sel [unfolded this] show ?thesis by (rule selectable_before_failure)
  qed (use sel in simp)
qed


definition demo_trunk :: trunk_config where
  "demo_trunk = wide_trunk\<lparr>tc_resolved_addr := Some (V4 203 0 113 9, 5060)\<rparr>"

definition demo_failing :: "unit sbc" where
  "demo_failing = demo_one\<lparr>sx_tm := snd (add_trunk demo_trunk trunk_manager_new),
     sx_b2bua := set_failover_candidates 0 (hex_width 16 7) [2]
       (push_invite_attempt 0 (hex_width 16 7) ''INVITE sip:b SIP/2.0'' (V4 10 0 0 9, 5060) Udp None (sx_b2bua demo_one))\<rparr>"

lemma demo_failing_call:
  "\<exists>c fo. hm_get (calls_of demo_failing) (hex_width 16 7) = Some c \<and> bc_original_outbound_invite c = Some ''INVITE sip:b SIP/2.0'' \<and>
     bc_failover c = Some fo \<and> fo_candidates fo = [2] \<and> \<not> fo_provisional_received fo"
  by (simp add: demo_failing_def demo_one_def demo_up_b2bua_def create_call_def Let_def b2bua_call_new_def b2bua_emit_def
      demo_idle_def b2bua_set_event_bus_def b2bua_manager_new_def hm_insert_def hm_modify_def push_invite_attempt_def
      set_failover_candidates_def with_call_def)

lemma demo_selectable: "selectable (ev_now demo_env) (sx_tm demo_failing) 2 = Some (demo_trunk, (V4 203 0 113 9, 5060))"
  by (simp add: selectable_def demo_failing_def add_trunk_def trunk_manager_new_def hm_insert_def get_trunk_def get_state_def
      demo_trunk_def wide_trunk_def trunk_config_new_def destination_def trunk_state_new_def can_accept_iff after_def)

lemma failover_sends:
  assumes "hm_get (calls_of s) u = Some c" and "bc_failover c = Some fo" and "fo_candidates fo = i # rest"
    and "\<not> fo_provisional_received fo" and "selectable (ev_now e) (sx_tm s) i = Some (t, dest)"
    and "bc_original_outbound_invite c = Some raw" and "raw \<noteq> []" and "\<And>rnd. retarget_invite_for_trunk rnd raw t \<noteq> None"
    and "\<And>m. is_ok (ev_reply e m)"
  shows "\<exists>s'. failover_to_next_trunk e u s = (True, s')"
proof -
  obtain b where tk: "take_next_failover_candidate (ev_now e) u (sx_b2bua s) = (Some i, b)"
    and "\<exists>c'. hm_get (bm_calls b) u = Some c' \<and> bc_original_outbound_invite c' = Some raw"
    using assms(1-4,6) by (simp add: take_next_failover_candidate_def with_call_def hm_get_modify)
  then obtain c' where inv: "stored_invite u (s\<lparr>sx_b2bua := b\<rparr>) = Some (raw, c')"
    using assms(7) by (auto simp: stored_invite_def)
  obtain invite where retarget: "retarget_invite_for_trunk (ev_rnd e u (8 + length (candidates_left u (s\<lparr>sx_b2bua := b\<rparr>)))) raw t = Some invite"
    using assms(8) by blast
  obtain r s2 where sent: "tracked_send e ''INVITE (failover) -> trunk'' invite dest (to_rsip_transport (tc_transport t)) None
      (cancel_previous e raw c' (s\<lparr>sx_b2bua := b\<rparr>)) = (r, s2)" by fastforce
  have "\<exists>x. r = Inr x" using tracked_refused [of e _ invite dest] sent assms(9) by (cases r) blast+
  then have "failover_step e u s = (Some True, commit_failover e u t dest invite s2)"
    using assms(5) inv retarget sent by (auto simp: failover_step_def tk try_candidate_def Let_def)
  then show ?thesis by (subst failover_to_next_trunk.simps) simp
qed


section \<open>No call is added, ended or billed\<close>

lemma retry_keys [simp]:
  "map fst (bm_calls (with_call u f b)) = map fst (bm_calls b)"
  "map fst (bm_calls (push_invite_attempt now u raw dest tp tid b)) = map fst (bm_calls b)"
  "map fst (bm_calls (reset_auth_retry u b)) = map fst (bm_calls b)"
  "map fst (bm_calls (increment_auth_retry u b)) = map fst (bm_calls b)"
  "map fst (bm_calls (increment_session_timer_retry u b)) = map fst (bm_calls b)"
  by (simp_all add: with_call_def push_invite_attempt_def reset_auth_retry_def increment_auth_retry_def
      increment_session_timer_retry_def Let_def)

lemma take_keys: "take_next_failover_candidate now u b = (x, b') \<Longrightarrow> map fst (bm_calls b') = map fst (bm_calls b)"
  by (auto simp: take_next_failover_candidate_def split: option.splits list.splits if_splits)

lemma tracked_keys: "tracked_send e w d dest tp tx s = (r, s') \<Longrightarrow> call_keys s' = call_keys s \<and> sx_cdr s' = sx_cdr s"
  using tracked_send_frame(1,2) [of e w d dest tp tx s] by simp

lemma step_frame: "failover_step e u s = (r, s') \<Longrightarrow> call_keys s' = call_keys s \<and> sx_cdr s' = sx_cdr s"
proof -
  assume st: "failover_step e u s = (r, s')"
  obtain x b where tk: "take_next_failover_candidate (ev_now e) u (sx_b2bua s) = (x, b)" by fastforce
  have one: "call_keys (snd (try_candidate e u t dest s1)) = call_keys s1 \<and> sx_cdr (snd (try_candidate e u t dest s1)) = sx_cdr s1"
    for t dest and s1 :: "'a sbc"
    by (auto simp: try_candidate_def commit_failover_def Let_def dest!: tracked_keys split: option.splits prod.splits sum.splits)
  have b: "call_keys (s\<lparr>sx_b2bua := b\<rparr>) = call_keys s" using take_keys [OF tk] by simp
  show ?thesis
  proof (cases "\<exists>i td. x = Some i \<and> selectable (ev_now e) (sx_tm s) i = Some td")
    case True
    then obtain i t dest where "x = Some i" "selectable (ev_now e) (sx_tm s) i = Some (t, dest)" by auto
    with st have "try_candidate e u t dest (s\<lparr>sx_b2bua := b\<rparr>) = (r, s')" unfolding failover_step_def tk by simp
    with one [of t dest "s\<lparr>sx_b2bua := b\<rparr>"] b show ?thesis by simp
  next
    case False
    with st have "s' = s\<lparr>sx_b2bua := b\<rparr>" unfolding failover_step_def tk by (auto simp: Let_def split: option.splits)
    with b show ?thesis by simp
  qed
qed

lemma failover_frame [simp]:
  "call_keys (snd (failover_to_next_trunk e u s)) = call_keys s" "sx_cdr (snd (failover_to_next_trunk e u s)) = sx_cdr s"
proof -
  have "call_keys (snd (failover_to_next_trunk e u s)) = call_keys s \<and> sx_cdr (snd (failover_to_next_trunk e u s)) = sx_cdr s"
  proof (induction e u s rule: failover_to_next_trunk.induct)
    case (1 e u s)
    obtain r s1 where st: "failover_step e u s = (r, s1)" by fastforce
    note fr = step_frame [OF st]
    show ?case
    proof (cases r)
      case (Some b)
      with fr st show ?thesis by (subst (1 2) failover_to_next_trunk.simps) simp
    next
      case None
      from 1 [OF st [symmetric] None] fr st None show ?thesis by (subst (1 2) failover_to_next_trunk.simps) simp
    qed
  qed
  then show "call_keys (snd (failover_to_next_trunk e u s)) = call_keys s" "sx_cdr (snd (failover_to_next_trunk e u s)) = sx_cdr s"
    by blast+
qed

lemma retry_frame [simp]:
  "call_keys (snd (handle_422_session_interval_retry e u raw src s)) = call_keys s"
  "sx_cdr (snd (handle_422_session_interval_retry e u raw src s)) = sx_cdr s"
  "call_keys (snd (handle_407_auth_retry e cn u raw src s)) = call_keys s"
  "sx_cdr (snd (handle_407_auth_retry e cn u raw src s)) = sx_cdr s"
  by (auto simp: handle_422_session_interval_retry_def resend_longer_def handle_407_auth_retry_def resend_authenticated_def Let_def
      dest!: tracked_keys split: option.splits prod.splits sum.splits)

lemma failover_timer_frame [simp]:
  "call_keys (check_invite_failover e timeout s) = call_keys s" "sx_cdr (check_invite_failover e timeout s) = sx_cdr s"
  unfolding check_invite_failover_def by (rule fold_frame, simp split: prod.splits option.splits)+

section \<open>One retry of each kind\<close>

lemma push_get:
  "hm_get (bm_calls (push_invite_attempt now u raw dest tp tid b)) u =
     map_option (\<lambda>c. c\<lparr>bc_original_outbound_invite := Some raw, bc_trunk_id := (if tid \<noteq> None then tid else bc_trunk_id c),
       bc_callee_dest := Some dest, bc_callee_transport := tp,
       bc_failover := map_option (\<lambda>f. f\<lparr>fo_invite_sent_at := now\<rparr>) (bc_failover c),
       bc_invite_attempts := push_attempt \<lparr>at_raw = raw, at_branch = top_via_branch raw,
         at_cseq = (case parse_cseq_number raw of None \<Rightarrow> 1 | Some n \<Rightarrow> n), at_dest = dest, at_transport = tp, at_trunk_id = tid\<rparr>
         (bc_invite_attempts c)\<rparr>) (hm_get (bm_calls b) u)"
  by (simp add: push_invite_attempt_def Let_def with_call_def hm_get_modify)

lemma resend_counts:
  "resend_authenticated e cn u original tid t cred ch src s = (True, s') \<Longrightarrow>
     map_option bc_auth_retry_count (hm_get (calls_of s') u) = map_option (incr32 \<circ> bc_auth_retry_count) (hm_get (calls_of s) u)"
  "resend_longer e u a tx tid src offer s = (True, s') \<Longrightarrow>
     map_option bc_session_timer_retry_count (hm_get (calls_of s') u) =
     map_option (incr32 \<circ> bc_session_timer_retry_count) (hm_get (calls_of s) u)"
  by (auto simp: resend_authenticated_def resend_longer_def Let_def push_get reset_auth_retry_def increment_auth_retry_def
      increment_session_timer_retry_def with_call_def hm_get_modify option.map_comp comp_def
      dest: tracked_state split: prod.splits sum.splits)

lemma authenticated_count:
  assumes "handle_407_auth_retry e cn u raw src s = (True, s')"
  shows "map_option bc_auth_retry_count (hm_get (calls_of s') u) = Some 1"
proof -
  from assms obtain original tid retries t cred ch where info: "get_auth_retry_info u (sx_b2bua s) = Some (original, tid, retries)"
    and r: "retries < 1" and sent: "resend_authenticated e cn u original tid t cred ch src s = (True, s')"
    by (auto simp: handle_407_auth_retry_def split: option.splits if_splits sum.splits)
  then obtain c where "hm_get (calls_of s) u = Some c" "bc_auth_retry_count c = 0"
    by (auto simp: get_auth_retry_info_def split: bind_splits)
  with resend_counts(1) [OF sent] show ?thesis by (simp add: incr32_def)
qed

lemma longer_count:
  assumes "handle_422_session_interval_retry e u raw src s = (True, s')"
  shows "map_option bc_session_timer_retry_count (hm_get (calls_of s') u) = Some 1"
proof -
  from assms obtain a tx tid offer where cur: "current_attempt u (sx_b2bua s) = Some (a, tx)"
    and r: "get_session_timer_retry_count u (sx_b2bua s) < 1" and sent: "resend_longer e u a tx tid src offer s = (True, s')"
    by (auto simp: handle_422_session_interval_retry_def split: option.splits if_splits)
  then obtain c where "hm_get (calls_of s) u = Some c" "bc_session_timer_retry_count c = 0"
    by (auto simp: current_attempt_def get_session_timer_retry_count_def split: bind_splits)
  with resend_counts(2) [OF sent] show ?thesis by (simp add: incr32_def)
qed

text \<open>
  A trunk that asks for credentials again after it got them, or for a longer interval again, does not get
  another INVITE: the second challenge is refused and nothing changes.
\<close>

theorem one_retry_of_each_kind:
  "handle_407_auth_retry e cn u raw src s = (True, s') \<Longrightarrow> handle_407_auth_retry e2 cn2 u raw2 src2 s' = (False, s')"
  "handle_422_session_interval_retry e u raw src s = (True, s') \<Longrightarrow> handle_422_session_interval_retry e2 u raw2 src2 s' = (False, s')"
proof -
  assume "handle_407_auth_retry e cn u raw src s = (True, s')"
  from authenticated_count [OF this] show "handle_407_auth_retry e2 cn2 u raw2 src2 s' = (False, s')"
    by (auto simp: handle_407_auth_retry_def get_auth_retry_info_def split: option.splits bind_splits)
next
  assume "handle_422_session_interval_retry e u raw src s = (True, s')"
  from longer_count [OF this] show "handle_422_session_interval_retry e2 u raw2 src2 s' = (False, s')"
    by (auto simp: handle_422_session_interval_retry_def get_session_timer_retry_count_def split: option.splits)
qed

end
