(* ===== verification/Spec2Isabelle.thy ===== *)
theory Spec2Isabelle
  imports
    Port_Allocator Media_Manager Ban_Manager User_Limits Api_Rate_Limit Destination_Policy
    Security_Manager Trunk Router Call_Outcome Trunk_Calls Sip_Message Sip_Builder Invite_Tx
    Client_Tx Acl_Manager Dos_Protector Admission Srtp_Context Rtp Media_Relay Digest_Auth Register_Handler
    Ice Webrtc Call_Life Call_Teardown Sip_Relay Call_Handler Sdp Trunk_Retry
begin

text \<open>
  A verification development of the NIXI.TEL session border controller (SBC), a Rust program that
  stands between SIP user agents and telephone trunks. The paths below are under
  \<^verbatim>\<open>src/crates/sbc-core/src\<close> unless another crate is named.

  \<^bold>\<open>The program and its models.\<close>

  \<^item> The front door. Every datagram passes the ban list, the access list and the rate limiter before a
    handler sees it (\<^verbatim>\<open>sbc/mod.rs\<close> \<open>handle_message\<close>), and every message leaves through one sending
    function that records it for retransmission. \<open>Admission\<close> models the gates and the sends over the
    components \<open>Ban_Manager\<close> (\<^verbatim>\<open>security/ban.rs\<close>), \<open>Acl_Manager\<close> (\<^verbatim>\<open>acl.rs\<close>), \<open>Dos_Protector\<close>
    (\<^verbatim>\<open>dos.rs\<close>), \<open>Invite_Tx\<close> and \<open>Client_Tx\<close> (\<^verbatim>\<open>sbc/invite_tx.rs\<close>, \<^verbatim>\<open>sbc/client_tx.rs\<close>).
    \<open>Security_Manager\<close> (\<^verbatim>\<open>security/mod.rs\<close>, \<^verbatim>\<open>events.rs\<close>) joins bans, \<open>User_Limits\<close>
    (\<^verbatim>\<open>security/user_limits.rs\<close>) and \<open>Destination_Policy\<close> (\<^verbatim>\<open>security/destination.rs\<close>);
    \<open>Api_Rate_Limit\<close> is the limiter of the management API (\<^verbatim>\<open>sbc-management/src/rate_limit.rs\<close>).
  \<^item> Registration. \<open>Register_Handler\<close> models \<open>handle_register\<close> whole, over \<open>Digest_Auth\<close> (\<^verbatim>\<open>auth.rs\<close>, with
    MD5 in \<open>Md5\<close>), \<open>Identity\<close> (who may register what, \<^verbatim>\<open>sbc/mod.rs\<close>) and \<open>Registrar\<close> (\<^verbatim>\<open>register.rs\<close>).
  \<^item> Messages. \<open>Sip_Message\<close> (\<^verbatim>\<open>topology.rs\<close>) is the line-based message with its rewriting passes,
    \<open>Sip_Builder\<close> (\<^verbatim>\<open>sip_builder.rs\<close>) builds requests, \<open>Sdp\<close> (\<^verbatim>\<open>media/sdp.rs\<close>) reads, rewrites and prints
    session descriptions, \<open>Sip_Relay\<close> is the message surgery of the handlers
    in \<^verbatim>\<open>sbc/\<close>.
  \<^item> Routing. \<open>Trunk\<close> (\<^verbatim>\<open>routing/trunk.rs\<close>), \<open>Router\<close> (\<^verbatim>\<open>routing/router.rs\<close>) and \<open>Trunk_Calls\<close>
    (\<^verbatim>\<open>sbc/trunk_state.rs\<close>), which keeps the trunks' counters in step with the calls.
  \<^item> Calls. \<open>Call_State\<close> and \<open>B2bua\<close> (\<^verbatim>\<open>b2bua.rs\<close>) are the call and the call table with every operation;
    \<open>Call_Life\<close> proves what holds over runs of these operations. \<open>Call_Outcome\<close> and \<open>Call_Teardown\<close>
    (\<^verbatim>\<open>sbc/cdr.rs\<close>, \<^verbatim>\<open>sbc/call_handler.rs\<close>) are the ways a call ends; the record \<open>sbc\<close> of
    \<open>Call_Teardown\<close> joins the states of the components to the state of \<^verbatim>\<open>Sbc\<close>.
    \<open>Call_Handler\<close> is what the SBC does with ACK, BYE, CANCEL, INFO, REFER, re-INVITE, a closed
    connection (\<^verbatim>\<open>sbc/call_handler.rs\<close>) and with responses to a refresh, to a superseded attempt or
    that end a call (\<^verbatim>\<open>sbc/response_handler.rs\<close>); \<open>Trunk_Retry\<close> sends a call's INVITE again, to
    the next trunk, with credentials or with a longer session interval (\<^verbatim>\<open>sbc/invite_handler.rs\<close>). \<open>Cdr_Store\<close>
    (\<^verbatim>\<open>storage.rs\<close>, \<^verbatim>\<open>cdr_writer.rs\<close>, \<^verbatim>\<open>sbc-storage/src/cdr.rs\<close>) is what becomes of the records.
  \<^item> Media. \<open>Port_Allocator\<close> and \<open>Media_Manager\<close> (\<^verbatim>\<open>media/port_allocator.rs\<close>, \<^verbatim>\<open>media/manager.rs\<close>) own the
    ports; \<open>Media_Relay\<close> (\<^verbatim>\<open>media/rtp.rs\<close>) is each arm of the relay task as a step, over \<open>Rtp\<close>,
    \<open>Media_Stats\<close>, \<open>Media_Endpoint\<close>, \<open>Transcoding\<close> with \<open>G711\<close>, and \<open>Srtp_Stream\<close>, \<open>Srtp\<close>,
    \<open>Srtp_Context\<close> (\<^verbatim>\<open>media/srtp.rs\<close>, \<^verbatim>\<open>media/srtp_crypto.rs\<close>). \<open>Stun\<close>, \<open>Ice\<close> and \<open>Webrtc\<close>
    (\<^verbatim>\<open>media/stun.rs\<close>, \<^verbatim>\<open>media/ice.rs\<close>, \<^verbatim>\<open>media/dtls.rs\<close>, \<^verbatim>\<open>media/webrtc_handler.rs\<close>) are the browser leg.

  Shared: \<open>Prelude\<close> (results and errors, hash tables, saturating and wrapping arithmetic, time), \<open>Text\<close>
  and \<open>Net\<close> (the parts of the Rust string, number and address library the code uses), \<open>Bytes\<close>,
  \<open>Sliding_Window\<close>.

  \<^bold>\<open>Conventions.\<close> A struct is a record, an enum a datatype, an operation a function of the state before
  to the result and the state after; a \<^verbatim>\<open>Result\<close> is a sum with the error on the left. A hash table is an
  association list with distinct keys (\<open>hm_ok\<close>). Instants and durations are natural numbers of
  nanoseconds; each operation that reads a clock takes the reading as an argument, so operations of a
  run are ordered by their place in it. Machine integers are words in the codecs and ciphers, natural
  numbers with their bound written out elsewhere. Strings are lists of bytes; case folding is that of
  ASCII. A channel to a connection is a number; what was sent or published is a list. One operation
  is atomic, as it holds its lock or the event loop throughout. Random bytes, the JSON form of a
  record, and what becomes of a file, database or network operation are arguments.

  \<^bold>\<open>What is shown.\<close> For the front door: a banned address reaches no handler until its ban ends, limits on
  calls and requests hold over every window, a strike is exactly what an authentication failure adds.
  For registration: a binding changes only for a request that proved the password of that address,
  a replayed Authorization is refused, an unregistered binding is not revived by an older request,
  tables stay within their bounds, digests and Contact headers are read back. For messages:
  round trips of the parsers and printers, what each rewriting pass removes and keeps, where a
  rewritten session description points. For transactions:
  retransmissions are absorbed, finals and requests are resent on their schedule and no longer. For
  trunks: counters and gauges are exact, a failover ends at a candidate that may take the call, and a
  trunk gets one retry of each kind. For calls: ports are
  released, events come in order, the SBC's own requests number upward, responses are attributed to
  the right attempt, every call is billed exactly once whatever ends it, a CANCEL ends only a call that is pending, a
  shutdown leaves nothing,
  and accepted records reach the table. For media: no key stream is used twice, a replay is refused,
  a browser leg never gets clear media, every datagram is counted, the silence watchdog is exact,
  only the announced certificate is accepted, offers and answers are read back.

  \<^bold>\<open>Interfaces.\<close> \<open>sliding_window\<close> (a deque of instants trimmed from the front) is interpreted for strikes,
  call attempts and API hits; \<open>pair_pool\<close> (a pool that hands out disjoint port pairs) for the port
  allocator, and \<open>Media_Manager\<close> rests on it; \<open>media_sessions\<close> (sessions that own ports) for the media
  manager, and \<open>B2bua\<close> and \<open>Call_Life\<close> rest on it; \<open>binding_backend\<close> (what a registrar store
  promises) for the in-memory store, and the REGISTER handler rests on it.

  \<^bold>\<open>Loops.\<close> Recursion is structural or has a termination proof (the port scan by the distance to the end,
  the retention purge by the table size, a failover by the candidates left, numbers by their value). The retry loop of the CDR writer,
  which may run for ever, takes the list of what its attempts meet and returns nothing when the list
  ends; that a list with one success suffices is proved. The drain of a shutdown takes its ticks.

  \<^bold>\<open>Not modelled.\<close> The parser of the SIP library (a fork of a third-party crate; handlers get the values it
  returns), sockets, TLS and WebSocket transports, the DTLS handshake itself, AES, HMAC, SHA-256 and
  Opus (parameters with the laws the code relies on), SQL for the configuration tables, the reading of
  the configuration file, the HTTP server, metrics text and log lines, and the orchestration of a
  new INVITE (\<^verbatim>\<open>sbc/invite_handler.rs\<close>) and of the relay of responses (\<open>handle_response\<close> of
  \<^verbatim>\<open>sbc/response_handler.rs\<close>) beyond the operations they compose.
\<close>

end
